(* ===== verification/XF_Prelude.thy ===== *)
theory XF_Prelude
  imports "HOL-Library.Word" "HOL-Library.Multiset"
begin

text \<open>
  Shared vocabulary of the development: the machine types of the DSP (32-bit pointers and
  32-bit unsigned integers), the lemma collections the component theories fill, and the
  generic facts on words, lists and options that several components use.
\<close>

unbundle bit_operations_syntax

section \<open>Machine types\<close>

type_synonym u8 = "8 word"
type_synonym u16 = "16 word"
type_synonym u32 = "32 word"
type_synonym addr = "32 word"

text \<open>The error codes of the framework; a C function that returns a negative code on failure
  returns \<open>Inl\<close> here.\<close>

datatype xf_errno = EPERM | ENOENT | ENOMEM | EBUSY | EINVAL | EPIPE

section \<open>Lemma collections\<close>

text \<open>
  \<open>heap_simps\<close>: reading a field of a node after a pointer-level store;
  \<open>rep_simps\<close>: unfolding of the representation predicates;
  \<open>flag_simps\<close>: tests on words used as flag sets.
\<close>

named_theorems heap_simps
named_theorems rep_simps
named_theorems flag_simps

section \<open>Words as bit sets\<close>

lemma and_1_eq_0_iff: "(w :: 'a::len word) AND 1 = 0 \<longleftrightarrow> \<not> bit w 0"
  by (metis and_one_eq bit_0 even_iff_mod_2_eq_zero odd_iff_mod_2_eq_one zero_neq_one)

lemma bit0_and_not_1: "bit ((w :: 'a::len word) AND NOT 1) 0 = False"
  by (simp add: bit_and_iff bit_not_iff)

lemma bit0_or_1: "bit ((w :: 'a::len word) OR 1) 0"
  by (simp add: bit_or_iff)

lemma drop_bit1_and_not_1: "drop_bit 1 ((w :: 'a::len word) AND NOT 1) = drop_bit 1 w"
  by (rule bit_word_eqI) (auto simp: bit_simps bit_1_iff dest: bit_imp_le_length)

lemma drop_bit1_or_1: "drop_bit 1 ((w :: 'a::len word) OR 1) = drop_bit 1 w"
  by (rule bit_word_eqI) (auto simp: bit_simps bit_1_iff dest: bit_imp_le_length)

section \<open>Lists\<close>

lemma distinct_split_unique:
  assumes "xs @ a # ys = xs' @ a # ys'" and "distinct (xs @ a # ys)"
  shows "xs = xs' \<and> ys = ys'"
  using assms
proof (induction xs arbitrary: xs')
  case Nil
  then show ?case by (cases xs') auto
next
  case (Cons x xs)
  then show ?case by (cases xs') auto
qed

end
