(* ===== verification/XF_Rbtree.thy ===== *)
theory XF_Rbtree
  imports XF_Prelude
begin

text \<open>
  The red-black tree library (core/util/rbtree.c, include/lib/rbtree.h) on a heap of nodes.
  A tree is named by the address \<open>t\<close> of its sentinel node, which is the root field of
  \<open>rb_tree_t\<close>: the left link of the sentinel is the root of the tree, its right link is the
  cached client index, and its address is the null pointer of that tree. Every operation
  takes the heap and returns the new one. A loop that follows pointers may not end on a
  corrupted heap, so it returns an option; the theories XF_Rbtree_Insert and XF_Rbtree_Delete
  prove that on a well-formed tree it returns.
\<close>

section \<open>Nodes and accessors\<close>

record rb_node =
  parent :: addr
  left :: addr
  right :: addr
  color :: u32

type_synonym rb_heap = "addr \<Rightarrow> rb_node"

datatype rb_color = RB_RED | RB_BLK

definition RB_COLOR :: "rb_heap \<Rightarrow> addr \<Rightarrow> rb_color" where
  "RB_COLOR h n = (if color (h n) AND 1 = 0 then RB_BLK else RB_RED)"

definition RB_IS_BLACK :: "rb_heap \<Rightarrow> addr \<Rightarrow> bool" where
  "RB_IS_BLACK h n \<longleftrightarrow> \<not> (color (h n) AND 1 \<noteq> 0)"

definition RB_ROOT :: "addr \<Rightarrow> rb_heap \<Rightarrow> addr" where
  "RB_ROOT t h = left (h t)"

definition rb_cache :: "addr \<Rightarrow> rb_heap \<Rightarrow> addr" where
  "rb_cache t h = right (h t)"

definition rb_node_data :: "rb_heap \<Rightarrow> addr \<Rightarrow> u32" where
  "rb_node_data h n = drop_bit 1 (color (h n))"

definition rb_set_node_data :: "addr \<Rightarrow> u32 \<Rightarrow> rb_heap \<Rightarrow> rb_heap" where
  "rb_set_node_data n d h = h(n := (h n)\<lparr>color := (color (h n) AND 1) OR push_bit 1 d\<rparr>)"

definition rb_set_cache :: "addr \<Rightarrow> addr \<Rightarrow> rb_heap \<Rightarrow> rb_heap" where
  "rb_set_cache t c h = h(t := (h t)\<lparr>right := c\<rparr>)"

definition RB_SET_P :: "addr \<Rightarrow> addr \<Rightarrow> rb_heap \<Rightarrow> rb_heap" where
  "RB_SET_P n p h = h(n := (h n)\<lparr>parent := p\<rparr>)"

definition RB_SET_L :: "addr \<Rightarrow> addr \<Rightarrow> rb_heap \<Rightarrow> rb_heap" where
  "RB_SET_L n l h = h(n := (h n)\<lparr>left := l\<rparr>)"

definition RB_SET_R :: "addr \<Rightarrow> addr \<Rightarrow> rb_heap \<Rightarrow> rb_heap" where
  "RB_SET_R n r h = h(n := (h n)\<lparr>right := r\<rparr>)"

fun RB_SET_C :: "addr \<Rightarrow> rb_color \<Rightarrow> rb_heap \<Rightarrow> rb_heap" where
  "RB_SET_C n RB_BLK h = h(n := (h n)\<lparr>color := color (h n) AND NOT 1\<rparr>)"
| "RB_SET_C n RB_RED h = h(n := (h n)\<lparr>color := color (h n) OR 1\<rparr>)"

definition RB_SET_P_L :: "addr \<Rightarrow> addr \<Rightarrow> addr \<Rightarrow> rb_heap \<Rightarrow> rb_heap" where
  "RB_SET_P_L n p l h = RB_SET_L n l (RB_SET_P n p h)"

definition RB_SET_P_L_C :: "addr \<Rightarrow> addr \<Rightarrow> addr \<Rightarrow> rb_color \<Rightarrow> rb_heap \<Rightarrow> rb_heap" where
  "RB_SET_P_L_C n p l c h = RB_SET_C n c (RB_SET_L n l (RB_SET_P n p h))"

definition RB_SET_P_R :: "addr \<Rightarrow> addr \<Rightarrow> addr \<Rightarrow> rb_heap \<Rightarrow> rb_heap" where
  "RB_SET_P_R n p r h = RB_SET_R n r (RB_SET_P n p h)"

definition RB_SET_P_R_C :: "addr \<Rightarrow> addr \<Rightarrow> addr \<Rightarrow> rb_color \<Rightarrow> rb_heap \<Rightarrow> rb_heap" where
  "RB_SET_P_R_C n p r c h = RB_SET_C n c (RB_SET_R n r (RB_SET_P n p h))"

definition RB_SET_P_L_R :: "addr \<Rightarrow> addr \<Rightarrow> addr \<Rightarrow> addr \<Rightarrow> rb_heap \<Rightarrow> rb_heap" where
  "RB_SET_P_L_R n p l r h = RB_SET_R n r (RB_SET_L n l (RB_SET_P n p h))"

definition RB_SET_P_L_R_C ::
  "addr \<Rightarrow> addr \<Rightarrow> addr \<Rightarrow> addr \<Rightarrow> rb_color \<Rightarrow> rb_heap \<Rightarrow> rb_heap" where
  "RB_SET_P_L_R_C n p l r c h = RB_SET_C n c (RB_SET_R n r (RB_SET_L n l (RB_SET_P n p h)))"

definition RB_SET_ROOT :: "addr \<Rightarrow> addr \<Rightarrow> rb_heap \<Rightarrow> rb_heap" where
  "RB_SET_ROOT t n h = RB_SET_L t n h"

section \<open>First, last, next, previous\<close>

partial_function (option) rb_descend_left :: "addr \<Rightarrow> rb_heap \<Rightarrow> addr \<Rightarrow> addr option" where
  "rb_descend_left t h p =
     (let c = left (h p) in if c \<noteq> t then rb_descend_left t h c else Some p)"

partial_function (option) rb_descend_right :: "addr \<Rightarrow> rb_heap \<Rightarrow> addr \<Rightarrow> addr option" where
  "rb_descend_right t h p =
     (let c = right (h p) in if c \<noteq> t then rb_descend_right t h c else Some p)"

definition rb_first :: "addr \<Rightarrow> rb_heap \<Rightarrow> addr option" where
  "rb_first t h =
     (let p = RB_ROOT t h in if p \<noteq> t then rb_descend_left t h p else Some p)"

definition rb_last :: "addr \<Rightarrow> rb_heap \<Rightarrow> addr option" where
  "rb_last t h =
     (let p = RB_ROOT t h in if p \<noteq> t then rb_descend_right t h p else Some p)"

partial_function (option) rb_ascend_right :: "addr \<Rightarrow> rb_heap \<Rightarrow> addr \<Rightarrow> addr option" where
  "rb_ascend_right t h n =
     (let p = parent (h n) in
      if p \<noteq> t then (if n = right (h p) then rb_ascend_right t h p else Some p) else Some p)"

partial_function (option) rb_ascend_left :: "addr \<Rightarrow> rb_heap \<Rightarrow> addr \<Rightarrow> addr option" where
  "rb_ascend_left t h n =
     (let p = parent (h n) in
      if p \<noteq> t then (if n = left (h p) then rb_ascend_left t h p else Some p) else Some p)"

definition rb_next :: "addr \<Rightarrow> rb_heap \<Rightarrow> addr \<Rightarrow> addr option" where
  "rb_next t h n =
     (let c = right (h n) in if c \<noteq> t then rb_descend_left t h c else rb_ascend_right t h n)"

definition rb_prev :: "addr \<Rightarrow> rb_heap \<Rightarrow> addr \<Rightarrow> addr option" where
  "rb_prev t h n =
     (let c = left (h n) in if c \<noteq> t then rb_descend_right t h c else rb_ascend_left t h n)"

section \<open>Initialisation and insertion\<close>

definition rb_init :: "addr \<Rightarrow> rb_heap \<Rightarrow> rb_heap" where
  "rb_init t h = RB_SET_P_L_R_C t t t t RB_BLK h"

text \<open>
  The labels of \<open>__rb_insert_balance\<close>. One pass from the label \<open>rebalance\<close> either finishes
  with the heap (\<open>Inl\<close>) or goes back to the label with new values of \<open>n\<close> and \<open>p\<close>
  (\<open>Inr\<close>, case 3).
\<close>

definition rb_ins_case5_xx :: "addr \<Rightarrow> addr \<Rightarrow> addr \<Rightarrow> addr \<Rightarrow> rb_heap \<Rightarrow> rb_heap" where
  "rb_ins_case5_xx t tt g n h =
     (if tt = t then RB_SET_ROOT t n h
      else if g = left (h tt) then RB_SET_L tt n h
      else RB_SET_R tt n h)"

definition rb_ins_case4_rl :: "addr \<Rightarrow> addr \<Rightarrow> addr \<Rightarrow> addr \<Rightarrow> addr \<Rightarrow> rb_heap \<Rightarrow> rb_heap" where
  "rb_ins_case4_rl t n p g tt h =
     (let cl = left (h n); cr = right (h n);
          h = RB_SET_P_L_R_C n tt p g RB_BLK h;
          h = RB_SET_P_R p n cl h;
          h = RB_SET_P cl p h;
          h = RB_SET_P_L_C g n cr RB_RED h;
          h = RB_SET_P cr g h
      in rb_ins_case5_xx t tt g n h)"

definition rb_ins_case4_lr :: "addr \<Rightarrow> addr \<Rightarrow> addr \<Rightarrow> addr \<Rightarrow> addr \<Rightarrow> rb_heap \<Rightarrow> rb_heap" where
  "rb_ins_case4_lr t n p g tt h =
     (let cl = left (h n); cr = right (h n);
          h = RB_SET_P_L_R_C n tt g p RB_BLK h;
          h = RB_SET_P_L p n cr h;
          h = RB_SET_P cr p h;
          h = RB_SET_P_R_C g n cl RB_RED h;
          h = RB_SET_P cl g h
      in rb_ins_case5_xx t tt g n h)"

definition rb_ins_case5_ll :: "addr \<Rightarrow> addr \<Rightarrow> addr \<Rightarrow> addr \<Rightarrow> rb_heap \<Rightarrow> rb_heap" where
  "rb_ins_case5_ll t p g tt h =
     (let cr = right (h p);
          h = RB_SET_P_L_C g p cr RB_RED h;
          h = RB_SET_P cr g h;
          h = RB_SET_P_R_C p tt g RB_BLK h
      in rb_ins_case5_xx t tt g p h)"

definition rb_ins_case5_rr :: "addr \<Rightarrow> addr \<Rightarrow> addr \<Rightarrow> addr \<Rightarrow> rb_heap \<Rightarrow> rb_heap" where
  "rb_ins_case5_rr t p g tt h =
     (let cl = left (h p);
          h = RB_SET_P_R_C g p cl RB_RED h;
          h = RB_SET_P cl g h;
          h = RB_SET_P_L_C p tt g RB_BLK h
      in rb_ins_case5_xx t tt g p h)"

definition rb_ins_case3 ::
  "addr \<Rightarrow> addr \<Rightarrow> addr \<Rightarrow> rb_heap \<Rightarrow> rb_heap \<times> addr \<times> addr" where
  "rb_ins_case3 p u g h =
     (let h = RB_SET_C p RB_BLK h;
          h = RB_SET_C u RB_BLK h;
          h = RB_SET_C g RB_RED h
      in (h, g, parent (h g)))"

definition rb_ins_pass ::
  "addr \<Rightarrow> rb_heap \<Rightarrow> addr \<Rightarrow> addr \<Rightarrow> rb_heap + rb_heap \<times> addr \<times> addr" where
  "rb_ins_pass t h n p =
     (if p = t then Inl (RB_SET_ROOT t n (RB_SET_C n RB_BLK h))
      else if RB_IS_BLACK h p then Inl h
      else
        let g = parent (h p) in
        if p = left (h g) then
          let u = right (h g) in
          if \<not> RB_IS_BLACK h u then Inr (rb_ins_case3 p u g h)
          else
            let tt = parent (h g) in
            if n = left (h p) then Inl (rb_ins_case5_ll t p g tt h)
            else Inl (rb_ins_case4_rl t n p g tt h)
        else
          let u = left (h g) in
          if \<not> RB_IS_BLACK h u then Inr (rb_ins_case3 p u g h)
          else
            let tt = parent (h g) in
            if n = right (h p) then Inl (rb_ins_case5_rr t p g tt h)
            else Inl (rb_ins_case4_lr t n p g tt h))"

partial_function (option) rb_insert_balance ::
  "addr \<Rightarrow> rb_heap \<Rightarrow> addr \<Rightarrow> addr \<Rightarrow> rb_heap option" where
  "rb_insert_balance t h n p =
     (case rb_ins_pass t h n p of
        Inl h' \<Rightarrow> Some h'
      | Inr r \<Rightarrow> rb_insert_balance t (fst r) (fst (snd r)) (snd (snd r)))"

definition rb_insert :: "addr \<Rightarrow> rb_heap \<Rightarrow> addr \<Rightarrow> addr \<Rightarrow> rb_heap option" where
  "rb_insert t h n p =
     (if p = t then Some (RB_SET_ROOT t n (RB_SET_P_L_R_C n p p p RB_BLK h))
      else rb_insert_balance t (RB_SET_P_L_R_C n p t t RB_RED h) n p)"

section \<open>Deletion and replacement\<close>

text \<open>The labels of \<open>__rb_delete_rebalance\<close>, with the same two kinds of exit.\<close>

definition rb_set_child_of ::
  "addr \<Rightarrow> addr \<Rightarrow> addr \<Rightarrow> addr \<Rightarrow> rb_heap \<Rightarrow> rb_heap" where
  "rb_set_child_of t g p s h =
     (if g = t then RB_SET_ROOT t s h
      else if p = left (h g) then RB_SET_L g s h
      else RB_SET_R g s h)"

definition rb_del_case3 :: "addr \<Rightarrow> addr \<Rightarrow> addr \<Rightarrow> rb_heap \<Rightarrow> rb_heap + rb_heap \<times> addr \<times> addr" where
  "rb_del_case3 t p s h =
     (let h = RB_SET_C s RB_RED h; p' = parent (h p)
      in if p' = t then Inl h else Inr (h, p, p'))"

definition rb_del_case4 :: "addr \<Rightarrow> addr \<Rightarrow> rb_heap \<Rightarrow> rb_heap" where
  "rb_del_case4 p s h = RB_SET_C p RB_BLK (RB_SET_C s RB_RED h)"

definition rb_del_case5_l ::
  "addr \<Rightarrow> addr \<Rightarrow> addr \<Rightarrow> addr \<Rightarrow> addr \<Rightarrow> rb_heap \<Rightarrow> rb_heap" where
  "rb_del_case5_l t p g s sl h =
     (let cl = left (h sl); cr = right (h sl);
          h = (if RB_IS_BLACK h p then RB_SET_P_L_R_C sl g p s RB_BLK h
               else RB_SET_P_L_R_C sl g p s RB_RED h);
          h = RB_SET_P_R_C p sl cl RB_BLK h;
          h = RB_SET_P cl p h;
          h = RB_SET_P_L s sl cr h;
          h = RB_SET_P cr s h
      in rb_set_child_of t g p sl h)"

definition rb_del_case5_r ::
  "addr \<Rightarrow> addr \<Rightarrow> addr \<Rightarrow> addr \<Rightarrow> addr \<Rightarrow> rb_heap \<Rightarrow> rb_heap" where
  "rb_del_case5_r t p g s sr h =
     (let cl = left (h sr); cr = right (h sr);
          h = (if RB_IS_BLACK h p then RB_SET_P_L_R_C sr g s p RB_BLK h
               else RB_SET_P_L_R_C sr g s p RB_RED h);
          h = RB_SET_P_L_C p sr cr RB_BLK h;
          h = RB_SET_P cr p h;
          h = RB_SET_P_R s sr cl h;
          h = RB_SET_P cl s h
      in rb_set_child_of t g p sr h)"

definition rb_del_case6_l ::
  "addr \<Rightarrow> addr \<Rightarrow> addr \<Rightarrow> addr \<Rightarrow> addr \<Rightarrow> addr \<Rightarrow> rb_heap \<Rightarrow> rb_heap" where
  "rb_del_case6_l t p g s sl sr h =
     (let h = (if RB_IS_BLACK h p then RB_SET_P_L s g p h else RB_SET_P_L_C s g p RB_RED h);
          h = RB_SET_P_R_C p s sl RB_BLK h;
          h = RB_SET_P sl p h;
          h = RB_SET_C sr RB_BLK h
      in rb_set_child_of t g p s h)"

definition rb_del_case6_r ::
  "addr \<Rightarrow> addr \<Rightarrow> addr \<Rightarrow> addr \<Rightarrow> addr \<Rightarrow> addr \<Rightarrow> rb_heap \<Rightarrow> rb_heap" where
  "rb_del_case6_r t p g s sl sr h =
     (let h = (if RB_IS_BLACK h p then RB_SET_P_R s g p h else RB_SET_P_R_C s g p RB_RED h);
          h = RB_SET_P_L_C p s sr RB_BLK h;
          h = RB_SET_P sr p h;
          h = RB_SET_C sl RB_BLK h
      in rb_set_child_of t g p s h)"

definition rb_del_test3_l ::
  "addr \<Rightarrow> addr \<Rightarrow> addr \<Rightarrow> addr \<Rightarrow> addr \<Rightarrow> addr \<Rightarrow> rb_heap
     \<Rightarrow> rb_heap + rb_heap \<times> addr \<times> addr" where
  "rb_del_test3_l t p g s sl sr h =
     (if \<not> RB_IS_BLACK h sr then Inl (rb_del_case6_l t p g s sl sr h)
      else if \<not> RB_IS_BLACK h sl then Inl (rb_del_case5_l t p g s sl h)
      else if RB_IS_BLACK h p then rb_del_case3 t p s h
      else Inl (rb_del_case4 p s h))"

definition rb_del_test3_r ::
  "addr \<Rightarrow> addr \<Rightarrow> addr \<Rightarrow> addr \<Rightarrow> addr \<Rightarrow> addr \<Rightarrow> rb_heap
     \<Rightarrow> rb_heap + rb_heap \<times> addr \<times> addr" where
  "rb_del_test3_r t p g s sl sr h =
     (if \<not> RB_IS_BLACK h sl then Inl (rb_del_case6_r t p g s sl sr h)
      else if \<not> RB_IS_BLACK h sr then Inl (rb_del_case5_r t p g s sr h)
      else if RB_IS_BLACK h p then rb_del_case3 t p s h
      else Inl (rb_del_case4 p s h))"

definition rb_del_case2_x ::
  "addr \<Rightarrow> addr \<Rightarrow> addr \<Rightarrow> addr \<Rightarrow> addr \<Rightarrow> addr \<Rightarrow> rb_heap
     \<Rightarrow> rb_heap + rb_heap \<times> addr \<times> addr" where
  "rb_del_case2_x t n p g s c h =
     (let h = rb_set_child_of t g p s h;
          g = s; s = c; sl = left (h s); sr = right (h s)
      in if n = left (h p) then rb_del_test3_l t p g s sl sr h
         else rb_del_test3_r t p g s sl sr h)"

definition rb_del_pass ::
  "addr \<Rightarrow> rb_heap \<Rightarrow> addr \<Rightarrow> addr \<Rightarrow> rb_heap + rb_heap \<times> addr \<times> addr" where
  "rb_del_pass t h n p =
     (let g = parent (h p) in
      if n = left (h p) then
        let s = right (h p); sl = left (h s); sr = right (h s) in
        if RB_IS_BLACK h s then rb_del_test3_l t p g s sl sr h
        else
          let c = sl;
              h = RB_SET_P_L_C s g p RB_BLK h;
              h = RB_SET_P_R_C p s c RB_RED h;
              h = RB_SET_P c p h
          in rb_del_case2_x t n p g s c h
      else
        let s = left (h p); sl = left (h s); sr = right (h s) in
        if RB_IS_BLACK h s then rb_del_test3_r t p g s sl sr h
        else
          let c = sr;
              h = RB_SET_P_R_C s g p RB_BLK h;
              h = RB_SET_P_L_C p s c RB_RED h;
              h = RB_SET_P c p h
          in rb_del_case2_x t n p g s c h)"

partial_function (option) rb_delete_loop ::
  "addr \<Rightarrow> rb_heap \<Rightarrow> addr \<Rightarrow> addr \<Rightarrow> rb_heap option" where
  "rb_delete_loop t h n p =
     (case rb_del_pass t h n p of
        Inl h' \<Rightarrow> Some h'
      | Inr r \<Rightarrow> rb_delete_loop t (fst r) (fst (snd r)) (snd (snd r)))"

definition rb_delete_rebalance :: "addr \<Rightarrow> rb_heap \<Rightarrow> addr \<Rightarrow> rb_heap option" where
  "rb_delete_rebalance t h p = rb_delete_loop t h t p"

text \<open>
  \<open>rb_delete\<close> from the label \<open>adjust_parent\<close> on: relink the parent of N to M and, when the
  node that left the tree was black, rebalance or repaint C.
\<close>

definition rb_del_adjust ::
  "addr \<Rightarrow> addr \<Rightarrow> addr \<Rightarrow> addr \<Rightarrow> addr \<Rightarrow> addr \<Rightarrow> rb_color \<Rightarrow> rb_heap \<Rightarrow> rb_heap option" where
  "rb_del_adjust t n p m c tt clr h =
     (let h = (if p = t then RB_SET_ROOT t m h
               else if n = left (h p) then RB_SET_L p m h
               else RB_SET_R p m h)
      in if clr = RB_BLK then
           (if c = t then rb_delete_rebalance t h tt else Some (RB_SET_C c RB_BLK h))
         else Some h)"

text \<open>The block that puts M in the place of N (M has a child C, which may be null).\<close>

definition rb_del_relink ::
  "addr \<Rightarrow> addr \<Rightarrow> addr \<Rightarrow> addr \<Rightarrow> rb_heap \<Rightarrow> rb_heap \<times> addr" where
  "rb_del_relink n p m c h =
     (let l = left (h n); r = right (h n); tt = parent (h m) in
      if tt \<noteq> n then
        let h = (if c = left (h m) then RB_SET_R tt c h else RB_SET_L tt c h);
            h = RB_SET_P c tt h;
            h = RB_SET_P_L_R m p l r h;
            h = RB_SET_P l m h;
            h = RB_SET_P r m h
        in (h, tt)
      else if m = l then (RB_SET_P r m (RB_SET_P_R m p r h), m)
      else (RB_SET_P l m (RB_SET_P_L m p l h), m))"

definition rb_del_swap ::
  "addr \<Rightarrow> addr \<Rightarrow> addr \<Rightarrow> addr \<Rightarrow> addr \<Rightarrow> rb_heap \<Rightarrow> (rb_heap \<times> addr) option" where
  "rb_del_swap t n p m c h =
     (let clr = RB_COLOR h m;
          (h, tt) = rb_del_relink n p m c h;
          h = (if RB_IS_BLACK h n then RB_SET_C m RB_BLK h else RB_SET_C m RB_RED h)
      in map_option (\<lambda>h. (h, m)) (rb_del_adjust t n p m c tt clr h))"

definition rb_delete :: "addr \<Rightarrow> rb_heap \<Rightarrow> addr \<Rightarrow> (rb_heap \<times> addr) option" where
  "rb_delete t h n =
     (let p = parent (h n) in
      if left (h n) \<noteq> t then
        (case rb_descend_right t h (left (h n)) of
           None \<Rightarrow> None
         | Some m \<Rightarrow> rb_del_swap t n p m (left (h m)) h)
      else if right (h n) \<noteq> t then
        (case rb_descend_left t h (right (h n)) of
           None \<Rightarrow> None
         | Some m \<Rightarrow> rb_del_swap t n p m (right (h m)) h)
      else if p = t then Some (RB_SET_ROOT t t h, t)
      else map_option (\<lambda>h'. (h', p)) (rb_del_adjust t n p t t p (RB_COLOR h n) h))"

definition rb_replace :: "addr \<Rightarrow> rb_heap \<Rightarrow> addr \<Rightarrow> addr \<Rightarrow> rb_heap" where
  "rb_replace t h n tt =
     (let p = parent (h n); l = left (h n); r = right (h n);
          h = RB_SET_P_L_R tt p l r h;
          h = (if RB_IS_BLACK h n then RB_SET_C tt RB_BLK h else RB_SET_C tt RB_RED h);
          h = (if p = t then RB_SET_ROOT t tt h
               else if n = left (h p) then RB_SET_L p tt h
               else RB_SET_R p tt h);
          h = RB_SET_P l tt h
      in RB_SET_P r tt h)"

end
