(* ===== verification/XF_Rbtree_Spec.thy ===== *)
theory XF_Rbtree_Spec
  imports XF_Rbtree
begin

text \<open>
  The abstract red-black tree the pointer code is proved against: trees whose nodes are
  labelled with addresses, a zipper (the path from a node up to the root, each frame holding
  the colour and address of an ancestor and its other subtree), the red-black invariant, and
  the functional counterparts of the two rebalancing loops. The colour invariant and the
  black height are proved preserved here, on the abstract trees; the refinement theorems in
  XF_Rbtree_Insert and XF_Rbtree_Delete carry them to the heap.
\<close>

section \<open>Trees and zippers\<close>

datatype rbt = Tip | Nd rb_color rbt addr rbt

datatype frame = LF rb_color addr rbt \<comment> \<open>the hole is the left child\<close>
  | RF rb_color rbt addr \<comment> \<open>the hole is the right child\<close>

type_synonym ctx = "frame list"

fun plug :: "rbt \<Rightarrow> ctx \<Rightarrow> rbt" where
  "plug T [] = T"
| "plug T (LF c a r # k) = plug (Nd c T a r) k"
| "plug T (RF c l a # k) = plug (Nd c l a T) k"

fun ino :: "rbt \<Rightarrow> addr list" where
  "ino Tip = []"
| "ino (Nd c l a r) = ino l @ a # ino r"

abbreviation nds :: "rbt \<Rightarrow> addr set" where
  "nds T \<equiv> set (ino T)"

fun ctx_l :: "ctx \<Rightarrow> addr list" where
  "ctx_l [] = []"
| "ctx_l (LF c a r # k) = ctx_l k"
| "ctx_l (RF c l a # k) = ctx_l k @ ino l @ [a]"

fun ctx_r :: "ctx \<Rightarrow> addr list" where
  "ctx_r [] = []"
| "ctx_r (LF c a r # k) = a # ino r @ ctx_r k"
| "ctx_r (RF c l a # k) = ctx_r k"

lemma ino_plug [simp]: "ino (plug T k) = ctx_l k @ ino T @ ctx_r k"
  by (induction T k rule: plug.induct) auto

lemma plug_append: "plug T (k @ k') = plug (plug T k) k'"
  by (induction T k rule: plug.induct) auto

lemma ctx_l_append [simp]: "ctx_l (k @ k') = ctx_l k' @ ctx_l k"
  by (induction k rule: ctx_l.induct) auto

lemma ctx_r_append [simp]: "ctx_r (k @ k') = ctx_r k @ ctx_r k'"
  by (induction k rule: ctx_r.induct) auto

fun col :: "rbt \<Rightarrow> rb_color" where
  "col Tip = RB_BLK"
| "col (Nd c l a r) = c"

fun paint :: "rb_color \<Rightarrow> rbt \<Rightarrow> rbt" where
  "paint c Tip = Tip"
| "paint c (Nd c' l a r) = Nd c l a r"

lemma ino_paint [simp]: "ino (paint c T) = ino T"
  by (cases T) auto

lemma paint_col: "col T = c \<Longrightarrow> paint c T = T"
  by (cases T) auto

lemma not_red [simp]: "c \<noteq> RB_RED \<longleftrightarrow> c = RB_BLK" and not_blk [simp]: "c \<noteq> RB_BLK \<longleftrightarrow> c = RB_RED"
  by (cases c; simp)+

text \<open>Every node of a tree is the root of a subtree in some context.\<close>

lemma node_in_ctx:
  "a \<in> nds T \<Longrightarrow> \<exists>c l r k'. plug T k = plug (Nd c l a r) (k' @ k)"
proof (induction T arbitrary: k)
  case Tip
  then show ?case by simp
next
  case (Nd c l b r)
  consider "a = b" | "a \<in> nds l" | "a \<in> nds r" using Nd.prems by auto
  then show ?case
  proof cases
    case 1
    then show ?thesis by (metis append_Nil)
  next
    case 2
    from Nd.IH(1) [OF this, of "LF c b r # k"] obtain c' l' r' k' where
      "plug l (LF c b r # k) = plug (Nd c' l' a r') (k' @ LF c b r # k)" by blast
    then have "plug (Nd c l b r) k = plug (Nd c' l' a r') ((k' @ [LF c b r]) @ k)" by simp
    then show ?thesis by blast
  next
    case 3
    from Nd.IH(2) [OF this, of "RF c l b # k"] obtain c' l' r' k' where
      "plug r (RF c l b # k) = plug (Nd c' l' a r') (k' @ RF c l b # k)" by blast
    then have "plug (Nd c l b r) k = plug (Nd c' l' a r') ((k' @ [RF c l b]) @ k)" by simp
    then show ?thesis by blast
  qed
qed

corollary node_in_tree: "a \<in> nds T \<Longrightarrow> \<exists>c l r k. T = plug (Nd c l a r) k"
  using node_in_ctx [of a T "[]"] by auto

section \<open>The red-black invariant\<close>

fun bh :: "rbt \<Rightarrow> nat" where
  "bh Tip = 0"
| "bh (Nd c l a r) = (if c = RB_BLK then Suc (bh l) else bh l)"

fun rb_ok :: "rbt \<Rightarrow> bool" where
  "rb_ok Tip \<longleftrightarrow> True"
| "rb_ok (Nd c l a r) \<longleftrightarrow>
     rb_ok l \<and> rb_ok r \<and> bh l = bh r \<and> (c = RB_RED \<longrightarrow> col l = RB_BLK \<and> col r = RB_BLK)"

definition rb_inv :: "rbt \<Rightarrow> bool" where
  "rb_inv T \<longleftrightarrow> rb_ok T \<and> col T = RB_BLK"

fun pcol :: "ctx \<Rightarrow> rb_color" where
  "pcol [] = RB_BLK"
| "pcol (LF c a r # k) = c"
| "pcol (RF c l a # k) = c"

text \<open>\<open>ctx_ok k b\<close>: the context k turns a well-formed subtree of black height b into a
  red-black tree, when the subtree is not a red child of a red parent.\<close>

fun ctx_ok :: "ctx \<Rightarrow> nat \<Rightarrow> bool" where
  "ctx_ok [] b \<longleftrightarrow> True"
| "ctx_ok (LF c a r # k) b \<longleftrightarrow>
     rb_ok r \<and> bh r = b \<and> (c = RB_RED \<longrightarrow> col r = RB_BLK \<and> pcol k = RB_BLK \<and> k \<noteq> []) \<and>
     ctx_ok k (if c = RB_BLK then Suc b else b)"
| "ctx_ok (RF c l a # k) b \<longleftrightarrow>
     rb_ok l \<and> bh l = b \<and> (c = RB_RED \<longrightarrow> col l = RB_BLK \<and> pcol k = RB_BLK \<and> k \<noteq> []) \<and>
     ctx_ok k (if c = RB_BLK then Suc b else b)"

lemma rb_inv_plug:
  "rb_inv (plug T k) \<longleftrightarrow>
     rb_ok T \<and> ctx_ok k (bh T) \<and> (col T = RB_RED \<longrightarrow> pcol k = RB_BLK \<and> k \<noteq> [])"
proof (induction T k rule: plug.induct)
  case (1 T)
  then show ?case by (cases "col T") (auto simp: rb_inv_def)
next
  case (2 T c a r k)
  then show ?case by (cases c) auto
next
  case (3 T c l a k)
  then show ?case by (cases c) auto
qed

lemma rb_inv_root_black: "rb_inv (plug T k) \<Longrightarrow> k \<noteq> [] \<Longrightarrow> pcol k = RB_RED \<Longrightarrow> tl k \<noteq> []"
proof (cases k)
  case (Cons f k')
  assume "rb_inv (plug T k)" and "pcol k = RB_RED"
  with Cons show "tl k \<noteq> []" by (cases f) (auto simp: rb_inv_plug)
qed simp

lemma ctx_ok_single: "ctx_ok [f] b \<Longrightarrow> pcol [f] = RB_BLK"
  by (cases f) auto

lemma bh_paint_red: "col T = RB_BLK \<Longrightarrow> T \<noteq> Tip \<Longrightarrow> bh T = Suc (bh (paint RB_RED T))"
  by (cases T) auto

lemma rb_ok_paint_blk: "rb_ok T \<Longrightarrow> rb_ok (paint RB_BLK T)"
  by (cases T) auto

lemma col_paint_blk [simp]: "col (paint RB_BLK T) = RB_BLK"
  by (cases T) auto

lemma bh_paint_blk: "col T = RB_RED \<Longrightarrow> bh (paint RB_BLK T) = Suc (bh T)"
  by (cases T) auto

section \<open>Insertion on the abstract tree\<close>

fun ins_fix :: "rbt \<Rightarrow> ctx \<Rightarrow> rbt" where
  "ins_fix T [] = paint RB_BLK T"
| "ins_fix T (LF RB_RED p s # LF c g u # k) =
     (if col u = RB_RED
      then ins_fix (Nd RB_RED (Nd RB_BLK T p s) g (paint RB_BLK u)) k
      else plug (Nd RB_BLK T p (Nd RB_RED s g u)) k)"
| "ins_fix (Nd ct nl n nr) (RF RB_RED s p # LF c g u # k) =
     (if col u = RB_RED
      then ins_fix (Nd RB_RED (Nd RB_BLK s p (Nd ct nl n nr)) g (paint RB_BLK u)) k
      else plug (Nd RB_BLK (Nd RB_RED s p nl) n (Nd RB_RED nr g u)) k)"
| "ins_fix T (RF RB_RED s p # RF c u g # k) =
     (if col u = RB_RED
      then ins_fix (Nd RB_RED (paint RB_BLK u) g (Nd RB_BLK s p T)) k
      else plug (Nd RB_BLK (Nd RB_RED u g s) p T) k)"
| "ins_fix (Nd ct nl n nr) (LF RB_RED p s # RF c u g # k) =
     (if col u = RB_RED
      then ins_fix (Nd RB_RED (paint RB_BLK u) g (Nd RB_BLK (Nd ct nl n nr) p s)) k
      else plug (Nd RB_BLK (Nd RB_RED u g nl) n (Nd RB_RED nr p s)) k)"
| "ins_fix T k = plug T k"

lemma ino_ins_fix: "ino (ins_fix T k) = ino (plug T k)"
  by (induction T k rule: ins_fix.induct) auto

text \<open>
  The loop invariant of insertion: N is a red node with black children and everything but
  its parent's colour is as the red-black invariant asks.
\<close>

lemma rb_inv_ins_fix:
  assumes "rb_ok T" and "col T = RB_RED" and "ctx_ok k (bh T)"
  shows "rb_inv (ins_fix T k)"
  using assms
proof (induction T k rule: ins_fix.induct)
  case (1 T)
  then show ?case by (auto simp: rb_inv_def rb_ok_paint_blk)
next
  case (2 T p s c g u k)
  then show ?case
    by (cases "col u"; cases c) (auto simp: rb_inv_plug rb_ok_paint_blk bh_paint_blk)
next
  case (3 ct nl n nr s p c g u k)
  then show ?case
    by (cases "col u"; cases c) (auto simp: rb_inv_plug rb_ok_paint_blk bh_paint_blk)
next
  case (4 T s p c u g k)
  then show ?case
    by (cases "col u"; cases c) (auto simp: rb_inv_plug rb_ok_paint_blk bh_paint_blk)
next
  case (5 ct nl n nr p s c u g k)
  then show ?case
    by (cases "col u"; cases c) (auto simp: rb_inv_plug rb_ok_paint_blk bh_paint_blk)
qed (auto simp: rb_inv_plug simp del: plug.simps dest: ctx_ok_single)

section \<open>Deletion on the abstract tree\<close>

text \<open>
  The subtree T is one black node short of what its context expects. The cases are those of
  \<open>__rb_delete_rebalance\<close> once the sibling is black (\<open>del_black\<close>); a red sibling is rotated
  above the parent first (case 2).
\<close>

fun del_test_l :: "rbt \<Rightarrow> rb_color \<Rightarrow> addr \<Rightarrow> rbt \<Rightarrow> ctx \<Rightarrow> rbt + rbt" where
  "del_test_l T c p (Nd sc sl s sr) k =
     (if col sr = RB_RED then Inl (plug (Nd c (Nd RB_BLK T p sl) s (paint RB_BLK sr)) k)
      else case sl of
          Nd RB_RED cl q cr \<Rightarrow> Inl (plug (Nd c (Nd RB_BLK T p cl) q (Nd sc cr s sr)) k)
        | _ \<Rightarrow> (if c = RB_BLK then Inr (Nd c T p (Nd RB_RED sl s sr))
                else Inl (plug (Nd RB_BLK T p (Nd RB_RED sl s sr)) k)))"
| "del_test_l T c p Tip k = Inl (plug (Nd c T p Tip) k)"

fun del_test_r :: "rbt \<Rightarrow> rb_color \<Rightarrow> addr \<Rightarrow> rbt \<Rightarrow> ctx \<Rightarrow> rbt + rbt" where
  "del_test_r T c p (Nd sc sl s sr) k =
     (if col sl = RB_RED then Inl (plug (Nd c (paint RB_BLK sl) s (Nd RB_BLK sr p T)) k)
      else case sr of
          Nd RB_RED cl q cr \<Rightarrow> Inl (plug (Nd c (Nd sc sl s cl) q (Nd RB_BLK cr p T)) k)
        | _ \<Rightarrow> (if c = RB_BLK then Inr (Nd c (Nd RB_RED sl s sr) p T)
                else Inl (plug (Nd RB_BLK (Nd RB_RED sl s sr) p T) k)))"
| "del_test_r T c p Tip k = Inl (plug (Nd c Tip p T) k)"

fun del_fix :: "rbt \<Rightarrow> ctx \<Rightarrow> rbt" where
  "del_fix T [] = T"
| "del_fix T (LF c p (Nd RB_RED sl s sr) # k) =
     (case del_test_l T RB_RED p sl (LF RB_BLK s sr # k) of
        Inl R \<Rightarrow> R | Inr T' \<Rightarrow> plug T' (LF RB_BLK s sr # k))"
| "del_fix T (LF c p Tip # k) = plug T (LF c p Tip # k)"
| "del_fix T (LF c p (Nd RB_BLK sl s sr) # k) =
     (case del_test_l T c p (Nd RB_BLK sl s sr) k of Inl R \<Rightarrow> R | Inr T' \<Rightarrow> del_fix T' k)"
| "del_fix T (RF c (Nd RB_RED sl s sr) p # k) =
     (case del_test_r T RB_RED p sr (RF RB_BLK sl s # k) of
        Inl R \<Rightarrow> R | Inr T' \<Rightarrow> plug T' (RF RB_BLK sl s # k))"
| "del_fix T (RF c Tip p # k) = plug T (RF c Tip p # k)"
| "del_fix T (RF c (Nd RB_BLK sl s sr) p # k) =
     (case del_test_r T c p (Nd RB_BLK sl s sr) k of Inl R \<Rightarrow> R | Inr T' \<Rightarrow> del_fix T' k)"

lemma ino_del_test_l:
  "(case del_test_l T c p S k of Inl R \<Rightarrow> ino R | Inr T' \<Rightarrow> ino (plug T' k))
     = ino (plug T (LF c p S # k))"
  by (cases "(T, c, p, S, k)" rule: del_test_l.cases) (auto split: rbt.split rb_color.split)

lemma ino_del_test_r:
  "(case del_test_r T c p S k of Inl R \<Rightarrow> ino R | Inr T' \<Rightarrow> ino (plug T' k))
     = ino (plug T (RF c S p # k))"
  by (cases "(T, c, p, S, k)" rule: del_test_r.cases) (auto split: rbt.split rb_color.split)

lemma ino_del_fix: "ino (del_fix T k) = ino (plug T k)"
proof (induction T k rule: del_fix.induct)
  case (2 T c p sl s sr k)
  then show ?case
    using ino_del_test_l [where T = T and c = RB_RED and p = p
      and S = "sl" and k = "LF RB_BLK s sr # k"]
    by (auto simp del: del_test_l.simps split: sum.splits)
next
  case (3 T c p k)
  then show ?case by simp
next
  case (4 T c p l a r k)
  then show ?case
    using ino_del_test_l [where T = T and c = c and p = p
      and S = "Nd RB_BLK l a r" and k = "k"]
    by (auto simp del: del_test_l.simps split: sum.splits)
next
  case (5 T c sl s sr p k)
  then show ?case
    using ino_del_test_r [where T = T and c = RB_RED and p = p
      and S = "sr" and k = "RF RB_BLK sl s # k"]
    by (auto simp del: del_test_r.simps split: sum.splits)
next
  case (6 T c p k)
  then show ?case by simp
next
  case (7 T c l a r p k)
  then show ?case
    using ino_del_test_r [where T = T and c = c and p = p
      and S = "Nd RB_BLK l a r" and k = "k"]
    by (auto simp del: del_test_r.simps split: sum.splits)
qed simp

text \<open>The loop invariant of deletion: N is black (or null) and one black node short.\<close>

lemma del_test_l_ok:
  assumes "rb_ok T" and "col T = RB_BLK" and "col S = RB_BLK" and "S \<noteq> Tip"
    and "ctx_ok (LF c p S # k) (Suc (bh T))"
  shows "case del_test_l T c p S k of
           Inl R \<Rightarrow> rb_inv R
         | Inr T' \<Rightarrow> c = RB_BLK \<and> rb_ok T' \<and> col T' = RB_BLK \<and> bh T' = Suc (bh T)"
proof (cases S)
  case (Nd sc sl s sr)
  with assms show ?thesis
    by (cases "col sr"; cases sl; cases "col sl"; cases c)
      (auto simp: rb_inv_plug rb_ok_paint_blk bh_paint_blk split: rb_color.splits)
qed (use assms in simp)

lemma del_test_r_ok:
  assumes "rb_ok T" and "col T = RB_BLK" and "col S = RB_BLK" and "S \<noteq> Tip"
    and "ctx_ok (RF c S p # k) (Suc (bh T))"
  shows "case del_test_r T c p S k of
           Inl R \<Rightarrow> rb_inv R
         | Inr T' \<Rightarrow> c = RB_BLK \<and> rb_ok T' \<and> col T' = RB_BLK \<and> bh T' = Suc (bh T)"
proof (cases S)
  case (Nd sc sl s sr)
  with assms show ?thesis
    by (cases "col sl"; cases sr; cases "col sr"; cases c)
      (auto simp: rb_inv_plug rb_ok_paint_blk bh_paint_blk split: rb_color.splits)
qed (use assms in simp)

lemma rb_inv_del_fix:
  assumes "rb_ok T" and "col T = RB_BLK" and "ctx_ok k (Suc (bh T))"
  shows "rb_inv (del_fix T k)"
  using assms
proof (induction T k rule: del_fix.induct)
  case (1 T)
  then show ?case by (simp add: rb_inv_def)
next
  case (2 T c p sl s sr k)
  then have "col sl = RB_BLK" "sl \<noteq> Tip" "ctx_ok (LF RB_RED p sl # LF RB_BLK s sr # k) (Suc (bh T))"
    by (auto split: if_splits)
  from del_test_l_ok [OF 2(1,2) this] show ?case
    by (auto simp del: del_test_l.simps split: sum.splits)
next
  case (3 T c p k)
  then show ?case by simp
next
  case (4 T c p l a r k)
  from del_test_l_ok [where T = T and S = "Nd RB_BLK l a r" and c = c and p = p and k = k] 4 show ?case
    by (auto simp del: del_test_l.simps split: sum.splits)
next
  case (5 T c sl s sr p k)
  then have "col sr = RB_BLK" "sr \<noteq> Tip" "ctx_ok (RF RB_RED sr p # RF RB_BLK sl s # k) (Suc (bh T))"
    by (auto split: if_splits)
  from del_test_r_ok [OF 5(1,2) this] show ?case
    by (auto simp del: del_test_r.simps split: sum.splits)
next
  case (6 T c p k)
  then show ?case by simp
next
  case (7 T c l a r p k)
  from del_test_r_ok [where T = T and S = "Nd RB_BLK l a r" and c = c and p = p and k = k] 7 show ?case
    by (auto simp del: del_test_r.simps split: sum.splits)
qed

end
