(* ===== verification/XF_Rbtree_Rep.thy ===== *)
theory XF_Rbtree_Rep
  imports XF_Rbtree_Spec
begin

text \<open>
  When a heap of nodes represents an abstract red-black tree: the subtree and context
  predicates \<open>tree_at\<close> and \<open>ctx_at\<close>, the whole-tree predicate \<open>rb_tree\<close>, the frame relation
  \<open>rb_frame\<close> (what an operation on a tree leaves alone), and the lemmas that move a subtree
  or a context across stores to other nodes.
\<close>

section \<open>Reading after a store\<close>

lemma RB_IS_BLACK_iff [heap_simps]: "RB_IS_BLACK h n \<longleftrightarrow> RB_COLOR h n = RB_BLK"
  by (simp add: RB_IS_BLACK_def RB_COLOR_def)

lemma rb_set_p_simps [simp]:
  "parent (RB_SET_P n p h a) = (if a = n then p else parent (h a))"
  "left (RB_SET_P n p h a) = left (h a)"
  "right (RB_SET_P n p h a) = right (h a)"
  "color (RB_SET_P n p h a) = color (h a)"
  "RB_COLOR (RB_SET_P n p h) a = RB_COLOR h a"
  by (auto simp: RB_SET_P_def RB_COLOR_def)

lemma rb_set_l_simps [simp]:
  "parent (RB_SET_L n l h a) = parent (h a)"
  "left (RB_SET_L n l h a) = (if a = n then l else left (h a))"
  "right (RB_SET_L n l h a) = right (h a)"
  "color (RB_SET_L n l h a) = color (h a)"
  "RB_COLOR (RB_SET_L n l h) a = RB_COLOR h a"
  by (auto simp: RB_SET_L_def RB_COLOR_def)

lemma rb_set_r_simps [simp]:
  "parent (RB_SET_R n r h a) = parent (h a)"
  "left (RB_SET_R n r h a) = left (h a)"
  "right (RB_SET_R n r h a) = (if a = n then r else right (h a))"
  "color (RB_SET_R n r h a) = color (h a)"
  "RB_COLOR (RB_SET_R n r h) a = RB_COLOR h a"
  by (auto simp: RB_SET_R_def RB_COLOR_def)

lemma rb_set_c_simps [simp]:
  "parent (RB_SET_C n c h a) = parent (h a)"
  "left (RB_SET_C n c h a) = left (h a)"
  "right (RB_SET_C n c h a) = right (h a)"
  by (cases c; simp)+

lemma rb_set_c_word:
  "color (RB_SET_C n c h a) =
     (if a = n then (case c of RB_BLK \<Rightarrow> color (h n) AND NOT 1 | RB_RED \<Rightarrow> color (h n) OR 1)
      else color (h a))"
  by (cases c) auto

lemma rb_set_c_color [simp]:
  "RB_COLOR (RB_SET_C n c h) a = (if a = n then c else RB_COLOR h a)"
  unfolding RB_COLOR_def rb_set_c_word and_1_eq_0_iff
  by (cases c; cases "a = n")
    (simp_all only: rb_color.case bit0_and_not_1 bit0_or_1 if_True if_False simp_thms)

lemma rb_set_c_other [simp]: "a \<noteq> n \<Longrightarrow> RB_SET_C n c h a = h a"
  by (cases c) auto

lemma rb_set_other [simp]:
  "a \<noteq> n \<Longrightarrow> RB_SET_P n p h a = h a"
  "a \<noteq> n \<Longrightarrow> RB_SET_L n p h a = h a"
  "a \<noteq> n \<Longrightarrow> RB_SET_R n p h a = h a"
  by (simp_all add: RB_SET_P_def RB_SET_L_def RB_SET_R_def)

lemma rb_set_data [simp]:
  "rb_node_data (RB_SET_P n p h) a = rb_node_data h a"
  "rb_node_data (RB_SET_L n p h) a = rb_node_data h a"
  "rb_node_data (RB_SET_R n p h) a = rb_node_data h a"
  by (simp_all add: rb_node_data_def RB_SET_P_def RB_SET_L_def RB_SET_R_def)

lemma rb_set_c_data [simp]: "rb_node_data (RB_SET_C n c h) a = rb_node_data h a"
  unfolding rb_node_data_def rb_set_c_word
  by (cases c; cases "a = n")
    (simp_all only: rb_color.case drop_bit1_and_not_1 drop_bit1_or_1 if_True if_False simp_thms)

lemmas rb_set_defs = RB_SET_P_L_def RB_SET_P_L_C_def RB_SET_P_R_def RB_SET_P_R_C_def
  RB_SET_P_L_R_def RB_SET_P_L_R_C_def RB_SET_ROOT_def

declare RB_SET_C.simps [simp del]

section \<open>Representation\<close>

fun tree_at :: "rb_heap \<Rightarrow> addr \<Rightarrow> addr \<Rightarrow> addr \<Rightarrow> rbt \<Rightarrow> bool" where
  "tree_at h t p n Tip \<longleftrightarrow> n = t"
| "tree_at h t p n (Nd c l a r) \<longleftrightarrow>
     n = a \<and> a \<noteq> t \<and> parent (h a) = p \<and> RB_COLOR h a = c \<and>
     tree_at h t a (left (h a)) l \<and> tree_at h t a (right (h a)) r"

fun ctx_at :: "rb_heap \<Rightarrow> addr \<Rightarrow> addr \<Rightarrow> addr \<Rightarrow> ctx \<Rightarrow> bool" where
  "ctx_at h t p n [] \<longleftrightarrow> p = t \<and> left (h t) = n"
| "ctx_at h t p n (LF c a r # k) \<longleftrightarrow>
     p = a \<and> a \<noteq> t \<and> RB_COLOR h a = c \<and> left (h a) = n \<and>
     tree_at h t a (right (h a)) r \<and> ctx_at h t (parent (h a)) a k"
| "ctx_at h t p n (RF c l a # k) \<longleftrightarrow>
     p = a \<and> a \<noteq> t \<and> RB_COLOR h a = c \<and> right (h a) = n \<and>
     tree_at h t a (left (h a)) l \<and> ctx_at h t (parent (h a)) a k"

abbreviation ctx_nds :: "ctx \<Rightarrow> addr set" where
  "ctx_nds k \<equiv> set (ctx_l k) \<union> set (ctx_r k)"

definition rb_tree :: "rb_heap \<Rightarrow> addr \<Rightarrow> rbt \<Rightarrow> bool" where
  "rb_tree h t T \<longleftrightarrow>
     tree_at h t t (left (h t)) T \<and> distinct (t # ino T) \<and> RB_COLOR h t = RB_BLK"

lemma zip_plug:
  "tree_at h t t (left (h t)) (plug T k) \<longleftrightarrow> (\<exists>p n. tree_at h t p n T \<and> ctx_at h t p n k)"
  by (induction T k rule: plug.induct) auto

lemma tree_at_root: "tree_at h t p n T \<Longrightarrow> n = t \<and> T = Tip \<or> n \<in> nds T \<and> n \<noteq> t"
  by (cases T) auto

lemma tree_at_null: "tree_at h t p n T \<Longrightarrow> n = t \<longleftrightarrow> T = Tip"
  by (cases T) auto

lemma tree_at_col: "tree_at h t p n T \<Longrightarrow> RB_COLOR h t = RB_BLK \<Longrightarrow> RB_COLOR h n = col T"
  by (cases T) auto

lemma tree_at_det: "tree_at h t p n T \<Longrightarrow> tree_at h t p n T' \<Longrightarrow> T = T'"
proof (induction T arbitrary: p n T')
  case Tip
  then show ?case by (cases T') auto
next
  case (Nd c l a r)
  then show ?case by (cases T') auto
qed

lemma rb_tree_det: "rb_tree h t T \<Longrightarrow> rb_tree h t T' \<Longrightarrow> T = T'"
  by (auto simp: rb_tree_def dest: tree_at_det)

lemma ctx_at_parent: "ctx_at h t p n k \<Longrightarrow> p = t \<and> k = [] \<or> p \<in> ctx_nds k \<and> p \<noteq> t"
  by (cases "(h, t, p, n, k)" rule: ctx_at.cases) auto

section \<open>Moving a representation across stores\<close>

definition same_links :: "rb_heap \<Rightarrow> rb_heap \<Rightarrow> addr \<Rightarrow> bool" where
  "same_links h h' a \<longleftrightarrow>
     left (h' a) = left (h a) \<and> right (h' a) = right (h a) \<and>
     parent (h' a) = parent (h a) \<and> RB_COLOR h' a = RB_COLOR h a"

lemma same_linksD:
  assumes "same_links h h' a"
  shows "left (h' a) = left (h a)" and "right (h' a) = right (h a)"
    and "parent (h' a) = parent (h a)" and "RB_COLOR h' a = RB_COLOR h a"
  using assms by (simp_all add: same_links_def)

lemma tree_at_cong:
  "\<forall>a \<in> nds T. same_links h h' a \<Longrightarrow> tree_at h t p n T \<Longrightarrow> tree_at h' t p n T"
  by (induction T arbitrary: p n) (auto simp: same_links_def)

lemma same_links_eq: "h' a = h a \<Longrightarrow> same_links h h' a"
  by (simp add: same_links_def RB_COLOR_def)

lemma tree_at_out:
  "tree_at h t p n T \<Longrightarrow> (\<And>a. a \<in> nds T \<Longrightarrow> h' a = h a) \<Longrightarrow> tree_at h' t p n T"
  by (auto intro: tree_at_cong [where h = h and h' = h'] same_links_eq)

text \<open>A subtree whose root gets a new parent and is otherwise untouched.\<close>

lemma tree_at_reparent:
  assumes "tree_at h t p n T" and "distinct (ino T)"
    and "\<forall>a \<in> nds T. left (h' a) = left (h a) \<and> right (h' a) = right (h a) \<and>
           RB_COLOR h' a = RB_COLOR h a \<and> (a \<noteq> n \<longrightarrow> parent (h' a) = parent (h a))"
    and "n \<noteq> t \<Longrightarrow> parent (h' n) = p'"
  shows "tree_at h' t p' n T"
proof (cases T)
  case (Nd c l a r)
  have "tree_at h' t a (left (h a)) l"
    using assms Nd by (intro tree_at_cong [where h = h and h' = h']) (auto simp: same_links_def)
  moreover have "tree_at h' t a (right (h a)) r"
    using assms Nd by (intro tree_at_cong [where h = h and h' = h']) (auto simp: same_links_def)
  ultimately show ?thesis using assms Nd by auto
qed (use assms in auto)

text \<open>A subtree whose root is repainted and reparented.\<close>

lemma tree_at_repaint:
  assumes "tree_at h t p n T" and "distinct (ino T)"
    and "\<forall>a \<in> nds T. left (h' a) = left (h a) \<and> right (h' a) = right (h a) \<and>
           (a \<noteq> n \<longrightarrow> RB_COLOR h' a = RB_COLOR h a \<and> parent (h' a) = parent (h a))"
    and "n \<noteq> t \<Longrightarrow> parent (h' n) = p'" and "n \<noteq> t \<Longrightarrow> RB_COLOR h' n = c"
  shows "tree_at h' t p' n (paint c T)"
proof (cases T)
  case (Nd c l a r)
  have "tree_at h' t a (left (h a)) l"
    using assms Nd by (intro tree_at_cong [where h = h and h' = h']) (auto simp: same_links_def)
  moreover have "tree_at h' t a (right (h a)) r"
    using assms Nd by (intro tree_at_cong [where h = h and h' = h']) (auto simp: same_links_def)
  ultimately show ?thesis using assms Nd by auto
qed (use assms in auto)

lemma ctx_at_cong:
  "\<forall>a \<in> ctx_nds k. same_links h h' a \<Longrightarrow> left (h' t) = left (h t) \<Longrightarrow>
   ctx_at h t p n k \<Longrightarrow> ctx_at h' t p n k"
proof (induction k arbitrary: p n rule: ctx_l.induct)
  case (2 c a r k)
  have "tree_at h' t a (right (h a)) r"
    by (rule tree_at_cong [where h = h]) (use 2 in auto)
  moreover have "ctx_at h' t (parent (h a)) a k"
    by (rule "2.IH") (use 2 in auto)
  ultimately show ?case using 2 by (auto simp: same_links_def)
next
  case (3 c l a k)
  have "tree_at h' t a (left (h a)) l"
    by (rule tree_at_cong [where h = h]) (use 3 in auto)
  moreover have "ctx_at h' t (parent (h a)) a k"
    by (rule "3.IH") (use 3 in auto)
  ultimately show ?case using 3 by (auto simp: same_links_def)
qed simp

lemma ctx_at_out:
  assumes "ctx_at h t p n k" and "\<And>a. a \<in> ctx_nds k \<Longrightarrow> h' a = h a" and "left (h' t) = left (h t)"
  shows "ctx_at h' t p n k"
proof (rule ctx_at_cong [where h = h])
  show "\<forall>a\<in>ctx_nds k. same_links h h' a" using assms(2) by (blast intro: same_links_eq)
qed (rule assms(3), rule assms(1))

text \<open>
  Redirecting the link that the context holds to its hole. All the places where the code
  updates the parent of a rotated subtree have this shape.
\<close>

lemma rb_ins_case5_xx_eq: "rb_ins_case5_xx t p g n h = rb_set_child_of t p g n h"
  by (simp add: rb_ins_case5_xx_def rb_set_child_of_def)

lemma rb_set_child_of_simps [simp]:
  "parent (rb_set_child_of t p n m h a) = parent (h a)"
  "RB_COLOR (rb_set_child_of t p n m h) a = RB_COLOR h a"
  "color (rb_set_child_of t p n m h a) = color (h a)"
  "rb_node_data (rb_set_child_of t p n m h) a = rb_node_data h a"
  "a \<noteq> p \<Longrightarrow> rb_set_child_of t p n m h a = h a"
  "p \<noteq> t \<Longrightarrow> rb_set_child_of t p n m h t = h t"
  "right (rb_set_child_of t p n m h t) = right (h t)"
  by (auto simp: rb_set_child_of_def RB_SET_ROOT_def)

lemma ctx_at_set_child:
  assumes "ctx_at h t p n k" and "distinct (t # ctx_l k @ ctx_r k)" and "n \<notin> ctx_nds k"
    and "n \<noteq> t"
  shows "ctx_at (rb_set_child_of t p n m h) t p m k"
proof (cases k)
  case Nil
  with assms show ?thesis by (simp add: rb_set_child_of_def RB_SET_ROOT_def)
next
  case (Cons f k')
  show ?thesis
  proof (cases f)
    case (LF c a r)
    with assms Cons have h': "rb_set_child_of t p n m h = RB_SET_L a m h"
      by (simp add: rb_set_child_of_def)
    have "tree_at (RB_SET_L a m h) t a (right (h a)) r"
      using assms Cons LF by (intro tree_at_cong [where h = h and h' = "RB_SET_L a m h"]) (auto simp: same_links_def)
    moreover have "ctx_at (RB_SET_L a m h) t (parent (h a)) a k'"
      using assms Cons LF by (intro ctx_at_cong [where h = h and h' = "RB_SET_L a m h"]) (auto simp: same_links_def)
    ultimately show ?thesis using assms Cons LF h' by simp
  next
    case (RF c l a)
    with assms Cons have "left (h a) \<noteq> n"
      by (auto dest: tree_at_root)
    with assms Cons RF have h': "rb_set_child_of t p n m h = RB_SET_R a m h"
      by (auto simp: rb_set_child_of_def)
    have "tree_at (RB_SET_R a m h) t a (left (h a)) l"
      using assms Cons RF by (intro tree_at_cong [where h = h and h' = "RB_SET_R a m h"]) (auto simp: same_links_def)
    moreover have "ctx_at (RB_SET_R a m h) t (parent (h a)) a k'"
      using assms Cons RF by (intro ctx_at_cong [where h = h and h' = "RB_SET_R a m h"]) (auto simp: same_links_def)
    ultimately show ?thesis using assms Cons RF h' by simp
  qed
qed

text \<open>The subtree in the hole does not notice the redirected link.\<close>

lemma tree_at_set_child:
  assumes "tree_at h t q m T" and "p \<notin> nds T"
  shows "tree_at (rb_set_child_of t p n x h) t q m T"
  using assms by (intro tree_at_cong [where h = h and h' = "rb_set_child_of t p n x h"])
    (auto simp: same_links_def rb_set_child_of_def RB_SET_ROOT_def)

section \<open>Frames\<close>

definition rb_frame :: "addr \<Rightarrow> addr set \<Rightarrow> rb_heap \<Rightarrow> rb_heap \<Rightarrow> bool" where
  "rb_frame t S h h' \<longleftrightarrow>
     (\<forall>a. a \<notin> S \<and> a \<noteq> t \<longrightarrow> h' a = h a) \<and>
     (\<forall>a. rb_node_data h' a = rb_node_data h a) \<and>
     right (h' t) = right (h t) \<and> color (h' t) = color (h t)"

lemma rb_frame_refl [simp]: "rb_frame t S h h"
  by (simp add: rb_frame_def)

lemma rb_frame_trans: "rb_frame t S h h' \<Longrightarrow> rb_frame t S h' h'' \<Longrightarrow> rb_frame t S h h''"
  by (simp add: rb_frame_def)

lemma rb_frame_mono: "rb_frame t S h h' \<Longrightarrow> S \<subseteq> S' \<Longrightarrow> rb_frame t S' h h'"
  by (auto simp: rb_frame_def)

lemma rb_frame_other: "rb_frame t S h h' \<Longrightarrow> a \<notin> S \<Longrightarrow> a \<noteq> t \<Longrightarrow> h' a = h a"
  by (simp add: rb_frame_def)

lemma rb_frame_data: "rb_frame t S h h' \<Longrightarrow> rb_node_data h' a = rb_node_data h a"
  by (simp add: rb_frame_def)

text \<open>One store at a time: the rules that build a frame.\<close>

lemma rb_frame_step:
  assumes "rb_frame t S h h'" and "n \<in> S \<or> n = t"
    and "\<And>a. a \<noteq> n \<Longrightarrow> h'' a = h' a" and "\<And>a. rb_node_data h'' a = rb_node_data h' a"
    and "right (h'' t) = right (h' t)" and "color (h'' t) = color (h' t)"
  shows "rb_frame t S h h''"
  unfolding rb_frame_def
proof (intro conjI allI impI)
  fix a assume "a \<notin> S \<and> a \<noteq> t"
  then have "a \<noteq> n" using assms(2) by blast
  with \<open>a \<notin> S \<and> a \<noteq> t\<close> show "h'' a = h a" using assms(1,3) by (simp add: rb_frame_def)
qed (use assms in \<open>simp_all add: rb_frame_def\<close>)

lemma rb_frame_set:
  "rb_frame t S h h' \<Longrightarrow> n \<in> S \<or> n = t \<Longrightarrow> rb_frame t S h (RB_SET_P n p h')"
  "rb_frame t S h h' \<Longrightarrow> n \<in> S \<or> n = t \<Longrightarrow> rb_frame t S h (RB_SET_L n p h')"
  "rb_frame t S h h' \<Longrightarrow> n \<in> S \<Longrightarrow> n \<noteq> t \<Longrightarrow> rb_frame t S h (RB_SET_R n p h')"
  "rb_frame t S h h' \<Longrightarrow> n \<in> S \<Longrightarrow> n \<noteq> t \<Longrightarrow> rb_frame t S h (RB_SET_C n c h')"
  by (rule rb_frame_step [where n = n]; simp)+

lemma rb_frame_set_child:
  "rb_frame t S h h' \<Longrightarrow> p \<in> S \<or> p = t \<Longrightarrow> rb_frame t S h (rb_set_child_of t p n m h')"
  by (auto simp: rb_set_child_of_def RB_SET_ROOT_def intro!: rb_frame_set)

end
