(* ===== verification/XF_Rbtree_Rot.thy ===== *)
theory XF_Rbtree_Rot
  imports XF_Rbtree_Rep
begin

text \<open>
  The two shapes every rotation of rbtree.c has, stated on the fields of the heap after the
  stores (so that the order in which the code writes them does not matter): the single
  rotation that lifts a child over its parent, and the double rotation that lifts an inner
  grandchild. Each lemma puts the rotated subtree back into its context, which is what the
  last store of every case (\<open>rb_set_child_of\<close>) does.
\<close>

lemma rb_tree_relink:
  assumes "tree_at h t p m T'" and "ctx_at h t p n k"
    and "distinct (t # ctx_l k @ ino T' @ ctx_r k)" and "n \<notin> ctx_nds k" and "n \<noteq> t"
    and "RB_COLOR h t = RB_BLK"
  shows "rb_tree (rb_set_child_of t p n m h) t (plug T' k)"
proof -
  let ?h = "rb_set_child_of t p n m h"
  have "p \<notin> nds T'" using ctx_at_parent [OF assms(2)] assms(3) by auto
  then have "tree_at ?h t p m T'" by (rule tree_at_set_child [OF assms(1)])
  moreover have "ctx_at ?h t p m k"
    using assms by (intro ctx_at_set_child) auto
  ultimately show ?thesis
    using assms by (auto simp: rb_tree_def zip_plug)
qed

section \<open>Single rotation\<close>

text \<open>
  P with outer subtree T and its child S with inner subtree X and outer subtree Y. The
  premises \<open>rot_single\<close> say what the stores leave in the heap: \<open>x\<close> is the root of the inner
  subtree, \<open>y\<close> that of the outer one, whose root is painted \<open>cy\<close>.
\<close>

definition rot_out :: "rb_heap \<Rightarrow> rb_heap \<Rightarrow> addr set \<Rightarrow> bool" where
  "rot_out h h' S \<longleftrightarrow> (\<forall>a. a \<notin> S \<longrightarrow> same_links h h' a)"

lemma rot_outI: "(\<And>a. a \<notin> S \<Longrightarrow> h' a = h a) \<Longrightarrow> rot_out h h' S"
  by (simp add: rot_out_def same_links_eq)

lemma rot_out_tree:
  "rot_out h h' S \<Longrightarrow> tree_at h t p n T \<Longrightarrow> nds T \<inter> S = {} \<Longrightarrow> tree_at h' t p n T"
  by (rule tree_at_cong [where h = h]) (auto simp: rot_out_def)

lemma rot_out_ctx:
  "rot_out h h' S \<Longrightarrow> ctx_at h t p n k \<Longrightarrow> ctx_nds k \<inter> S = {} \<Longrightarrow> left (h' t) = left (h t) \<Longrightarrow>
   ctx_at h' t p n k"
  by (rule ctx_at_cong [where h = h]) (auto simp: rot_out_def)

text \<open>A subtree of which the rotation touches at most the root.\<close>

lemma rot_out_repaint:
  assumes "rot_out h h' S" and "tree_at h t p n T" and "distinct (ino T)"
    and "nds T \<inter> S \<subseteq> {n}"
    and "n \<noteq> t \<Longrightarrow> left (h' n) = left (h n) \<and> right (h' n) = right (h n) \<and>
           parent (h' n) = p' \<and> RB_COLOR h' n = c"
  shows "tree_at h' t p' n (paint c T)"
proof (rule tree_at_repaint [OF assms(2,3)])
  show "\<forall>a\<in>nds T. left (h' a) = left (h a) \<and> right (h' a) = right (h a) \<and>
      (a \<noteq> n \<longrightarrow> RB_COLOR h' a = RB_COLOR h a \<and> parent (h' a) = parent (h a))"
  proof
    fix a assume a: "a \<in> nds T"
    show "left (h' a) = left (h a) \<and> right (h' a) = right (h a) \<and>
      (a \<noteq> n \<longrightarrow> RB_COLOR h' a = RB_COLOR h a \<and> parent (h' a) = parent (h a))"
    proof (cases "a = n")
      case True
      with a tree_at_root [OF assms(2)] have "n \<noteq> t" by auto
      with True assms(5) show ?thesis by simp
    next
      case False
      with a assms(4) have "a \<notin> S" by blast
      with assms(1) have "same_links h h' a" by (simp add: rot_out_def)
      then show ?thesis by (simp add: same_links_def)
    qed
  qed
qed (use assms(5) in simp_all)

lemma rot_out_reparent:
  assumes "rot_out h h' S" and "tree_at h t p n T" and "distinct (ino T)"
    and "nds T \<inter> S \<subseteq> {n}"
    and "n \<noteq> t \<Longrightarrow> left (h' n) = left (h n) \<and> right (h' n) = right (h n) \<and>
           parent (h' n) = p' \<and> RB_COLOR h' n = RB_COLOR h n"
  shows "tree_at h' t p' n T"
proof -
  have "tree_at h' t p' n (paint (RB_COLOR h n) T)"
    by (rule rot_out_repaint [OF assms])
  moreover have "paint (RB_COLOR h n) T = T"
    using assms(2) by (cases T) auto
  ultimately show ?thesis by simp
qed

text \<open>The roots of the subtrees are not among the rotated nodes.\<close>

lemma root_notin: "tree_at h t p n T \<Longrightarrow> t \<notin> S \<Longrightarrow> nds T \<inter> S = {} \<Longrightarrow> n \<notin> S"
  using tree_at_root by blast

lemma roots_differ: "tree_at h t p n T \<Longrightarrow> tree_at h t p' n' T' \<Longrightarrow> nds T \<inter> nds T' = {} \<Longrightarrow>
    n \<noteq> t \<Longrightarrow> n \<noteq> n'"
  using tree_at_root by blast

lemma rb_rot_left:
  assumes T: "tree_at h t p (left (h p)) T"
    and X: "tree_at h t s (left (h s)) X" and Y: "tree_at h t s (right (h s)) Y"
    and K: "ctx_at h t q tp k" "tp \<notin> ctx_nds k" "tp \<noteq> t"
    and D: "distinct (t # ctx_l k @ ino T @ p # ino X @ s # ino Y @ ctx_r k)"
    and B: "RB_COLOR h' t = RB_BLK" and L: "left (h' t) = left (h t)"
    and S: "left (h' s) = p" "right (h' s) = right (h s)" "parent (h' s) = q" "RB_COLOR h' s = cs"
    and P: "left (h' p) = left (h p)" "right (h' p) = left (h s)" "parent (h' p) = s" "RB_COLOR h' p = cp"
    and X': "left (h s) \<noteq> t \<Longrightarrow> left (h' (left (h s))) = left (h (left (h s))) \<and>
               right (h' (left (h s))) = right (h (left (h s))) \<and>
               parent (h' (left (h s))) = p \<and> RB_COLOR h' (left (h s)) = RB_COLOR h (left (h s))"
    and Y': "right (h s) \<noteq> t \<Longrightarrow> left (h' (right (h s))) = left (h (right (h s))) \<and>
               right (h' (right (h s))) = right (h (right (h s))) \<and>
               parent (h' (right (h s))) = s \<and> RB_COLOR h' (right (h s)) = cy"
    and O: "rot_out h h' {p, s, left (h s), right (h s), t}"
  shows "rb_tree (rb_set_child_of t q tp s h') t (plug (Nd cs (Nd cp T p X) s (paint cy Y)) k)"
proof -
  note root = tree_at_root [OF X] tree_at_root [OF Y]
  have x: "left (h s) \<notin> nds T \<union> nds Y \<union> ctx_nds k" using root(1) D by auto
  have y: "right (h s) \<notin> nds T \<union> nds X \<union> ctx_nds k" using root(2) D by auto
  have "tree_at h' t p (left (h p)) T"
    by (rule rot_out_tree [OF O T]) (use D x y in auto)
  moreover have "tree_at h' t p (left (h s)) X"
    by (rule rot_out_reparent [OF O X _ _ X']) (use D y in auto)
  moreover have "tree_at h' t s (right (h s)) (paint cy Y)"
    by (rule rot_out_repaint [OF O Y _ _ Y']) (use D x in auto)
  ultimately have "tree_at h' t q s (Nd cs (Nd cp T p X) s (paint cy Y))"
    using D S P by auto
  moreover have "ctx_at h' t q tp k"
    by (rule rot_out_ctx [OF O K(1) _ L]) (use D x y in auto)
  ultimately show ?thesis
    by (rule rb_tree_relink) (use D K B in auto)
qed

lemma rb_rot_right:
  assumes T: "tree_at h t p (right (h p)) T"
    and X: "tree_at h t s (right (h s)) X" and Y: "tree_at h t s (left (h s)) Y"
    and K: "ctx_at h t q tp k" "tp \<notin> ctx_nds k" "tp \<noteq> t"
    and D: "distinct (t # ctx_l k @ ino Y @ s # ino X @ p # ino T @ ctx_r k)"
    and B: "RB_COLOR h' t = RB_BLK" and L: "left (h' t) = left (h t)"
    and S: "right (h' s) = p" "left (h' s) = left (h s)" "parent (h' s) = q" "RB_COLOR h' s = cs"
    and P: "right (h' p) = right (h p)" "left (h' p) = right (h s)" "parent (h' p) = s" "RB_COLOR h' p = cp"
    and X': "right (h s) \<noteq> t \<Longrightarrow> left (h' (right (h s))) = left (h (right (h s))) \<and>
               right (h' (right (h s))) = right (h (right (h s))) \<and>
               parent (h' (right (h s))) = p \<and> RB_COLOR h' (right (h s)) = RB_COLOR h (right (h s))"
    and Y': "left (h s) \<noteq> t \<Longrightarrow> left (h' (left (h s))) = left (h (left (h s))) \<and>
               right (h' (left (h s))) = right (h (left (h s))) \<and>
               parent (h' (left (h s))) = s \<and> RB_COLOR h' (left (h s)) = cy"
    and O: "rot_out h h' {p, s, left (h s), right (h s), t}"
  shows "rb_tree (rb_set_child_of t q tp s h') t (plug (Nd cs (paint cy Y) s (Nd cp X p T)) k)"
proof -
  note root = tree_at_root [OF X] tree_at_root [OF Y]
  have x: "right (h s) \<notin> nds T \<union> nds Y \<union> ctx_nds k" using root(1) D by auto
  have y: "left (h s) \<notin> nds T \<union> nds X \<union> ctx_nds k" using root(2) D by auto
  have "tree_at h' t p (right (h p)) T"
    by (rule rot_out_tree [OF O T]) (use D x y in auto)
  moreover have "tree_at h' t p (right (h s)) X"
    by (rule rot_out_reparent [OF O X _ _ X']) (use D y in auto)
  moreover have "tree_at h' t s (left (h s)) (paint cy Y)"
    by (rule rot_out_repaint [OF O Y _ _ Y']) (use D x in auto)
  ultimately have "tree_at h' t q s (Nd cs (paint cy Y) s (Nd cp X p T))"
    using D S P by auto
  moreover have "ctx_at h' t q tp k"
    by (rule rot_out_ctx [OF O K(1) _ L]) (use D x y in auto)
  ultimately show ?thesis
    by (rule rb_tree_relink) (use D K B in auto)
qed

section \<open>Double rotation\<close>

lemma rb_rot_double:
  assumes A: "tree_at h t a (left (h a)) A" and Z: "tree_at h t b (right (h b)) Z"
    and X: "tree_at h t x (left (h x)) X" and Y: "tree_at h t x (right (h x)) Y"
    and K: "ctx_at h t q tp k" "tp \<notin> ctx_nds k" "tp \<noteq> t"
    and D: "distinct (t # ctx_l k @ ino A @ a # ino X @ x # ino Y @ b # ino Z @ ctx_r k)"
    and B: "RB_COLOR h' t = RB_BLK" and L: "left (h' t) = left (h t)"
    and S: "left (h' x) = a" "right (h' x) = b" "parent (h' x) = q" "RB_COLOR h' x = cx"
    and P: "left (h' a) = left (h a)" "right (h' a) = left (h x)" "parent (h' a) = x" "RB_COLOR h' a = ca"
    and R: "left (h' b) = right (h x)" "right (h' b) = right (h b)" "parent (h' b) = x" "RB_COLOR h' b = cb"
    and X': "left (h x) \<noteq> t \<Longrightarrow> left (h' (left (h x))) = left (h (left (h x))) \<and>
               right (h' (left (h x))) = right (h (left (h x))) \<and>
               parent (h' (left (h x))) = a \<and> RB_COLOR h' (left (h x)) = RB_COLOR h (left (h x))"
    and Y': "right (h x) \<noteq> t \<Longrightarrow> left (h' (right (h x))) = left (h (right (h x))) \<and>
               right (h' (right (h x))) = right (h (right (h x))) \<and>
               parent (h' (right (h x))) = b \<and> RB_COLOR h' (right (h x)) = RB_COLOR h (right (h x))"
    and O: "rot_out h h' {a, b, x, left (h x), right (h x), t}"
  shows "rb_tree (rb_set_child_of t q tp x h') t
           (plug (Nd cx (Nd ca A a X) x (Nd cb Y b Z)) k)"
proof -
  note root = tree_at_root [OF X] tree_at_root [OF Y]
  have x: "left (h x) \<notin> nds A \<union> nds Z \<union> nds Y \<union> ctx_nds k" using root(1) D by auto
  have y: "right (h x) \<notin> nds A \<union> nds Z \<union> nds X \<union> ctx_nds k" using root(2) D by auto
  have "tree_at h' t a (left (h a)) A"
    by (rule rot_out_tree [OF O A]) (use D x y in auto)
  moreover have "tree_at h' t b (right (h b)) Z"
    by (rule rot_out_tree [OF O Z]) (use D x y in auto)
  moreover have "tree_at h' t a (left (h x)) X"
    by (rule rot_out_reparent [OF O X _ _ X']) (use D y in auto)
  moreover have "tree_at h' t b (right (h x)) Y"
    by (rule rot_out_reparent [OF O Y _ _ Y']) (use D x in auto)
  ultimately have "tree_at h' t q x (Nd cx (Nd ca A a X) x (Nd cb Y b Z))"
    using D S P R by auto
  moreover have "ctx_at h' t q tp k"
    by (rule rot_out_ctx [OF O K(1) _ L]) (use D x y in auto)
  ultimately show ?thesis
    by (rule rb_tree_relink) (use D K B in auto)
qed

lemma paint_root: "tree_at h t p n T \<Longrightarrow> n \<noteq> t \<or> T = Tip \<Longrightarrow> paint (RB_COLOR h n) T = T"
  by (cases T) auto

text \<open>What the three rotations need to know of the roots of the moved subtrees.\<close>

lemma rot_roots:
  assumes "tree_at h t p x X" and "tree_at h t q y Y" and "t \<notin> S" and "(nds X \<union> nds Y) \<inter> S = {}"
    and "nds X \<inter> nds Y = {}"
  shows "x \<notin> S" and "y \<notin> S" and "x \<noteq> t \<Longrightarrow> x \<noteq> y" and "y \<noteq> t \<Longrightarrow> y \<noteq> x"
    and "x \<in> nds X \<or> x = t" and "y \<in> nds Y \<or> y = t"
    and "x \<noteq> t \<Longrightarrow> parent (h x) = p" and "y \<noteq> t \<Longrightarrow> parent (h y) = q"
proof -
  show x: "x \<in> nds X \<or> x = t" using assms(1) by (cases X) auto
  show y: "y \<in> nds Y \<or> y = t" using assms(2) by (cases Y) auto
  show "x \<notin> S" "y \<notin> S" using assms(3,4) x y by auto
  show "x \<noteq> y" if "x \<noteq> t" using x y assms(5) that by auto
  show "y \<noteq> x" if "y \<noteq> t" using x y assms(5) that by auto
  show "x \<noteq> t \<Longrightarrow> parent (h x) = p" using assms(1) by (cases X) auto
  show "y \<noteq> t \<Longrightarrow> parent (h y) = q" using assms(2) by (cases Y) auto
qed

end
