(* ===== verification/XF_Rbtree_Insert.thy ===== *)
theory XF_Rbtree_Insert
  imports XF_Rbtree_Rot
begin

text \<open>
  The pointer-level insertion of rbtree.c refines the abstract insertion: every pass of
  \<open>__rb_insert_balance\<close> does to the heap what \<open>ins_fix\<close> does to the zipper, so the loop
  returns and leaves a red-black tree with the same in-order sequence.
\<close>

section \<open>The rotations\<close>

lemma ins_case5_ll:
  assumes T: "tree_at h t p n T" and K: "ctx_at h t p n (LF RB_RED p s # LF c g u # k)"
    and D: "distinct (t # ino (plug T (LF RB_RED p s # LF c g u # k)))"
    and B: "RB_COLOR h t = RB_BLK"
  shows "rb_tree (rb_ins_case5_ll t p g (parent (h g)) h) t (plug (Nd RB_BLK T p (Nd RB_RED s g u)) k)"
    and "rb_frame t (nds (plug T (LF RB_RED p s # LF c g u # k))) h
           (rb_ins_case5_ll t p g (parent (h g)) h)"
proof -
  let ?tt = "parent (h g)" and ?x = "right (h p)"
  define h' where "h' = RB_SET_C p RB_BLK (RB_SET_R p g (RB_SET_P p ?tt (RB_SET_P ?x g
     (RB_SET_C g RB_RED (RB_SET_L g ?x (RB_SET_P g p h))))))"
  have eq: "rb_ins_case5_ll t p g ?tt h = rb_set_child_of t ?tt g p h'"
    by (simp add: rb_ins_case5_ll_def rb_set_defs rb_ins_case5_xx_eq Let_def h'_def)
  have s: "tree_at h t p ?x s" and u: "tree_at h t g (right (h g)) u"
    and k: "ctx_at h t ?tt g k" and n: "left (h p) = n" "RB_COLOR h p = RB_RED" "g \<noteq> t" "p \<noteq> t"
    using K by auto
  have T': "tree_at h t p (left (h p)) T" using T n(1) by simp
  have ne: "p \<noteq> g" "t \<notin> {p, g}" "g \<notin> ctx_nds k" using D n by auto
  note r = rot_roots [OF s T, of "{p, g}"]
  have x: "?x \<notin> {p, g}" "n \<notin> {p, g}" "?x \<noteq> t \<Longrightarrow> ?x \<noteq> n" "n \<noteq> t \<Longrightarrow> n \<noteq> ?x"
    "?x \<in> nds s \<or> ?x = t" "n \<noteq> t \<Longrightarrow> parent (h n) = p"
    using D ne by (intro r; auto)+
  then have y: "p \<noteq> ?x" "g \<noteq> ?x" "p \<noteq> n" "g \<noteq> n" by auto
  have "rb_tree (rb_set_child_of t ?tt g p h') t (plug (Nd RB_BLK (paint (RB_COLOR h n) T) p (Nd RB_RED s g u)) k)"
  proof (rule rb_rot_right [OF u s T' k])
    show "rot_out h h' {g, p, left (h p), right (h p), t}"
      by (rule rot_outI) (simp add: h'_def)
  qed (use T D B n ne x y in \<open>simp_all add: h'_def\<close>)
  moreover have "paint (RB_COLOR h n) T = T" using T by (rule paint_root) (use T in \<open>cases T; auto\<close>)
  ultimately show "rb_tree (rb_ins_case5_ll t p g ?tt h) t (plug (Nd RB_BLK T p (Nd RB_RED s g u)) k)"
    unfolding eq by simp
  have "?tt \<in> ctx_nds k \<or> ?tt = t" using ctx_at_parent [OF k] by auto
  with x(5) show "rb_frame t (nds (plug T (LF RB_RED p s # LF c g u # k))) h (rb_ins_case5_ll t p g ?tt h)"
    unfolding eq h'_def using n by (intro rb_frame_set_child rb_frame_set rb_frame_refl) auto
qed

lemma ins_case5_rr:
  assumes T: "tree_at h t p n T" and K: "ctx_at h t p n (RF RB_RED s p # RF c u g # k)"
    and D: "distinct (t # ino (plug T (RF RB_RED s p # RF c u g # k)))"
    and B: "RB_COLOR h t = RB_BLK"
  shows "rb_tree (rb_ins_case5_rr t p g (parent (h g)) h) t (plug (Nd RB_BLK (Nd RB_RED u g s) p T) k)"
    and "rb_frame t (nds (plug T (RF RB_RED s p # RF c u g # k))) h
           (rb_ins_case5_rr t p g (parent (h g)) h)"
proof -
  let ?tt = "parent (h g)" and ?x = "left (h p)"
  define h' where "h' = RB_SET_C p RB_BLK (RB_SET_L p g (RB_SET_P p ?tt (RB_SET_P ?x g
     (RB_SET_C g RB_RED (RB_SET_R g ?x (RB_SET_P g p h))))))"
  have eq: "rb_ins_case5_rr t p g ?tt h = rb_set_child_of t ?tt g p h'"
    by (simp add: rb_ins_case5_rr_def rb_set_defs rb_ins_case5_xx_eq Let_def h'_def)
  have s: "tree_at h t p ?x s" and u: "tree_at h t g (left (h g)) u"
    and k: "ctx_at h t ?tt g k" and n: "right (h p) = n" "RB_COLOR h p = RB_RED" "g \<noteq> t" "p \<noteq> t"
    using K by auto
  have T': "tree_at h t p (right (h p)) T" using T n(1) by simp
  have ne: "p \<noteq> g" "t \<notin> {p, g}" "g \<notin> ctx_nds k" using D n by auto
  note r = rot_roots [OF s T, of "{p, g}"]
  have x: "?x \<notin> {p, g}" "n \<notin> {p, g}" "?x \<noteq> t \<Longrightarrow> ?x \<noteq> n" "n \<noteq> t \<Longrightarrow> n \<noteq> ?x"
    "?x \<in> nds s \<or> ?x = t" "n \<noteq> t \<Longrightarrow> parent (h n) = p"
    using D ne by (intro r; auto)+
  then have y: "p \<noteq> ?x" "g \<noteq> ?x" "p \<noteq> n" "g \<noteq> n" by auto
  have "rb_tree (rb_set_child_of t ?tt g p h') t (plug (Nd RB_BLK (Nd RB_RED u g s) p (paint (RB_COLOR h n) T)) k)"
  proof (rule rb_rot_left [OF u s T' k])
    show "rot_out h h' {g, p, left (h p), right (h p), t}"
      by (rule rot_outI) (simp add: h'_def)
  qed (use T D B n ne x y in \<open>simp_all add: h'_def\<close>)
  moreover have "paint (RB_COLOR h n) T = T" using T by (rule paint_root) (use T in \<open>cases T; auto\<close>)
  ultimately show "rb_tree (rb_ins_case5_rr t p g ?tt h) t (plug (Nd RB_BLK (Nd RB_RED u g s) p T) k)"
    unfolding eq by simp
  have "?tt \<in> ctx_nds k \<or> ?tt = t" using ctx_at_parent [OF k] by auto
  with x(5) show "rb_frame t (nds (plug T (RF RB_RED s p # RF c u g # k))) h (rb_ins_case5_rr t p g ?tt h)"
    unfolding eq h'_def using n by (intro rb_frame_set_child rb_frame_set rb_frame_refl) auto
qed

lemma ins_case4_rl:
  assumes T: "tree_at h t p n (Nd ct nl n nr)"
    and K: "ctx_at h t p n (RF RB_RED s p # LF c g u # k)"
    and D: "distinct (t # ino (plug (Nd ct nl n nr) (RF RB_RED s p # LF c g u # k)))"
    and B: "RB_COLOR h t = RB_BLK"
  shows "rb_tree (rb_ins_case4_rl t n p g (parent (h g)) h) t (plug (Nd RB_BLK (Nd RB_RED s p nl) n (Nd RB_RED nr g u)) k)"
    and "rb_frame t (nds (plug (Nd ct nl n nr) (RF RB_RED s p # LF c g u # k))) h
           (rb_ins_case4_rl t n p g (parent (h g)) h)"
proof -
  let ?tt = "parent (h g)" and ?cl = "left (h n)" and ?cr = "right (h n)"
  define h' where "h' = RB_SET_P ?cr g (RB_SET_C g RB_RED (RB_SET_L g ?cr (RB_SET_P g n
     (RB_SET_P ?cl p (RB_SET_R p ?cl (RB_SET_P p n
     (RB_SET_C n RB_BLK (RB_SET_R n g (RB_SET_L n p (RB_SET_P n ?tt h))))))))))"
  have eq: "rb_ins_case4_rl t n p g ?tt h = rb_set_child_of t ?tt g n h'"
    by (simp add: rb_ins_case4_rl_def rb_set_defs rb_ins_case5_xx_eq Let_def h'_def)
  have nl: "tree_at h t n ?cl nl" and nr: "tree_at h t n ?cr nr" using T by auto
  have s: "tree_at h t p (left (h p)) s" and u: "tree_at h t g (right (h g)) u"
    and k: "ctx_at h t ?tt g k" and n: "RB_COLOR h p = RB_RED" "g \<noteq> t" "p \<noteq> t" "n \<noteq> t"
    using K T by auto
  have ne: "n \<noteq> p" "n \<noteq> g" "p \<noteq> g" "t \<notin> {n, p, g}" "g \<notin> ctx_nds k" using D n by auto
  note r = rot_roots [OF nl nr, of "{n, p, g}"]
  have x: "?cl \<notin> {n, p, g}" "?cr \<notin> {n, p, g}" "?cl \<noteq> t \<Longrightarrow> ?cl \<noteq> ?cr" "?cr \<noteq> t \<Longrightarrow> ?cr \<noteq> ?cl"
    "?cl \<in> nds nl \<or> ?cl = t" "?cr \<in> nds nr \<or> ?cr = t"
    using D ne by (intro r; auto)+
  then have y: "n \<noteq> ?cl" "p \<noteq> ?cl" "g \<noteq> ?cl" "n \<noteq> ?cr" "p \<noteq> ?cr" "g \<noteq> ?cr" by auto
  have "rb_tree (rb_set_child_of t ?tt g n h') t (plug (Nd RB_BLK (Nd RB_RED s p nl) n (Nd RB_RED nr g u)) k)"
  proof (rule rb_rot_double [OF s u nl nr k])
    show "rot_out h h' {p, g, n, ?cl, ?cr, t}" by (rule rot_outI) (simp add: h'_def)
  qed (use D B n ne x y in \<open>simp_all add: h'_def\<close>)
  then show "rb_tree (rb_ins_case4_rl t n p g ?tt h) t (plug (Nd RB_BLK (Nd RB_RED s p nl) n (Nd RB_RED nr g u)) k)"
    unfolding eq .
  have "?tt \<in> ctx_nds k \<or> ?tt = t" using ctx_at_parent [OF k] by auto
  with x(5,6) show "rb_frame t (nds (plug (Nd ct nl n nr) (RF RB_RED s p # LF c g u # k))) h
      (rb_ins_case4_rl t n p g ?tt h)"
    unfolding eq h'_def using n by (intro rb_frame_set_child rb_frame_set rb_frame_refl) auto
qed

lemma ins_case4_lr:
  assumes T: "tree_at h t p n (Nd ct nl n nr)"
    and K: "ctx_at h t p n (LF RB_RED p s # RF c u g # k)"
    and D: "distinct (t # ino (plug (Nd ct nl n nr) (LF RB_RED p s # RF c u g # k)))"
    and B: "RB_COLOR h t = RB_BLK"
  shows "rb_tree (rb_ins_case4_lr t n p g (parent (h g)) h) t (plug (Nd RB_BLK (Nd RB_RED u g nl) n (Nd RB_RED nr p s)) k)"
    and "rb_frame t (nds (plug (Nd ct nl n nr) (LF RB_RED p s # RF c u g # k))) h
           (rb_ins_case4_lr t n p g (parent (h g)) h)"
proof -
  let ?tt = "parent (h g)" and ?cl = "left (h n)" and ?cr = "right (h n)"
  define h' where "h' = RB_SET_P ?cl g (RB_SET_C g RB_RED (RB_SET_R g ?cl (RB_SET_P g n
     (RB_SET_P ?cr p (RB_SET_L p ?cr (RB_SET_P p n
     (RB_SET_C n RB_BLK (RB_SET_R n p (RB_SET_L n g (RB_SET_P n ?tt h))))))))))"
  have eq: "rb_ins_case4_lr t n p g ?tt h = rb_set_child_of t ?tt g n h'"
    by (simp add: rb_ins_case4_lr_def rb_set_defs rb_ins_case5_xx_eq Let_def h'_def)
  have nl: "tree_at h t n ?cl nl" and nr: "tree_at h t n ?cr nr" using T by auto
  have s: "tree_at h t p (right (h p)) s" and u: "tree_at h t g (left (h g)) u"
    and k: "ctx_at h t ?tt g k" and n: "RB_COLOR h p = RB_RED" "g \<noteq> t" "p \<noteq> t" "n \<noteq> t"
    using K T by auto
  have ne: "n \<noteq> p" "n \<noteq> g" "p \<noteq> g" "t \<notin> {n, p, g}" "g \<notin> ctx_nds k" using D n by auto
  note r = rot_roots [OF nl nr, of "{n, p, g}"]
  have x: "?cl \<notin> {n, p, g}" "?cr \<notin> {n, p, g}" "?cl \<noteq> t \<Longrightarrow> ?cl \<noteq> ?cr" "?cr \<noteq> t \<Longrightarrow> ?cr \<noteq> ?cl"
    "?cl \<in> nds nl \<or> ?cl = t" "?cr \<in> nds nr \<or> ?cr = t"
    using D ne by (intro r; auto)+
  then have y: "n \<noteq> ?cl" "p \<noteq> ?cl" "g \<noteq> ?cl" "n \<noteq> ?cr" "p \<noteq> ?cr" "g \<noteq> ?cr" by auto
  have "rb_tree (rb_set_child_of t ?tt g n h') t (plug (Nd RB_BLK (Nd RB_RED u g nl) n (Nd RB_RED nr p s)) k)"
  proof (rule rb_rot_double [OF u s nl nr k])
    show "rot_out h h' {g, p, n, ?cl, ?cr, t}" by (rule rot_outI) (simp add: h'_def)
  qed (use D B n ne x y in \<open>simp_all add: h'_def\<close>)
  then show "rb_tree (rb_ins_case4_lr t n p g ?tt h) t (plug (Nd RB_BLK (Nd RB_RED u g nl) n (Nd RB_RED nr p s)) k)"
    unfolding eq .
  have "?tt \<in> ctx_nds k \<or> ?tt = t" using ctx_at_parent [OF k] by auto
  with x(5,6) show "rb_frame t (nds (plug (Nd ct nl n nr) (LF RB_RED p s # RF c u g # k))) h
      (rb_ins_case4_lr t n p g ?tt h)"
    unfolding eq h'_def using n by (intro rb_frame_set_child rb_frame_set rb_frame_refl) auto
qed

section \<open>Case 3: repaint and go on from the grandparent\<close>

lemma ins_case3_paint:
  assumes D: "distinct (t # ctx_l k @ ino x @ p # ino y @ ctx_r k @ g # ino u)"
    and P: "tree_at h t g p (Nd RB_RED x p y)" and U: "tree_at h t g ua u" and "col u = RB_RED"
    and K: "ctx_at h t gp g k" and B: "RB_COLOR h t = RB_BLK"
    and h': "h' = RB_SET_C g RB_RED (RB_SET_C ua RB_BLK (RB_SET_C p RB_BLK h))"
  shows "tree_at h' t g p (Nd RB_BLK x p y)" and "tree_at h' t g ua (paint RB_BLK u)"
    and "ctx_at h' t gp g k" and "RB_COLOR h' t = RB_BLK" and "RB_COLOR h' g = RB_RED"
    and "ua \<in> nds u" and "ua \<noteq> t"
proof -
  from U \<open>col u = RB_RED\<close> D show ua: "ua \<in> nds u" "ua \<noteq> t"
    by (auto dest: tree_at_root)
  have ne: "p \<noteq> g" "ua \<noteq> g" "ua \<noteq> p" "g \<noteq> t" "p \<noteq> t" using D ua by auto
  have out: "h' a = h a" if "a \<notin> {p, g, ua}" for a using that h' by simp
  have "tree_at h' t p (left (h p)) x"
    by (rule tree_at_out [where h = h]) (use D P ua in \<open>auto intro!: out\<close>)
  moreover have "tree_at h' t p (right (h p)) y"
    by (rule tree_at_out [where h = h]) (use D P ua in \<open>auto intro!: out\<close>)
  ultimately show "tree_at h' t g p (Nd RB_BLK x p y)"
    using P ne ua by (simp add: h')
  show "tree_at h' t g ua (paint RB_BLK u)"
  proof (rule tree_at_repaint [OF U])
    show "\<forall>a\<in>nds u. left (h' a) = left (h a) \<and> right (h' a) = right (h a) \<and>
        (a \<noteq> ua \<longrightarrow> RB_COLOR h' a = RB_COLOR h a \<and> parent (h' a) = parent (h a))"
      using D by (auto simp: h')
    show "parent (h' ua) = g" using U \<open>ua \<noteq> t\<close> by (cases u) (auto simp: h')
  qed (use D ne in \<open>auto simp: h'\<close>)
  show "ctx_at h' t gp g k"
  proof (rule ctx_at_out [OF K])
    fix a assume "a \<in> ctx_nds k"
    then have "a \<notin> {p, g, ua}" using D ua by auto
    then show "h' a = h a" by (rule out)
  qed (simp add: h')
qed (use D B tree_at_root [OF U] \<open>col u = RB_RED\<close> in \<open>auto simp: h'\<close>)

lemma ins_case3_l:
  assumes P: "tree_at h t g p (Nd RB_RED x p y)" and K: "ctx_at h t g p (LF c g u # k)"
    and D: "distinct (t # ino (plug (Nd RB_RED x p y) (LF c g u # k)))"
    and B: "RB_COLOR h t = RB_BLK" and u: "col u = RB_RED"
  obtains h' where "rb_ins_case3 p (right (h g)) g h = (h', g, parent (h g))"
    and "tree_at h' t (parent (h g)) g (Nd RB_RED (Nd RB_BLK x p y) g (paint RB_BLK u))"
    and "ctx_at h' t (parent (h g)) g k" and "RB_COLOR h' t = RB_BLK"
    and "rb_frame t (nds (plug (Nd RB_RED x p y) (LF c g u # k))) h h'"
proof -
  let ?ua = "right (h g)"
  define h' where "h' = RB_SET_C g RB_RED (RB_SET_C ?ua RB_BLK (RB_SET_C p RB_BLK h))"
  have D': "distinct (t # ctx_l k @ ino x @ p # ino y @ ctx_r k @ g # ino u)" using D by auto
  from K have U: "tree_at h t g ?ua u" and K': "ctx_at h t (parent (h g)) g k" by auto
  note post = ins_case3_paint [OF D' P U u K' B h'_def]
  have "rb_ins_case3 p ?ua g h = (h', g, parent (h g))"
    by (simp add: rb_ins_case3_def Let_def h'_def)
  moreover have "tree_at h' t (parent (h g)) g (Nd RB_RED (Nd RB_BLK x p y) g (paint RB_BLK u))"
    using post(1,2,5) K by (simp add: h'_def)
  moreover have "rb_frame t (nds (plug (Nd RB_RED x p y) (LF c g u # k))) h h'"
    unfolding h'_def by (intro rb_frame_set rb_frame_refl) (use post(6,7) P K in auto)
  ultimately show thesis using post(3,4) that by blast
qed

lemma ins_case3_r:
  assumes P: "tree_at h t g p (Nd RB_RED x p y)" and K: "ctx_at h t g p (RF c u g # k)"
    and D: "distinct (t # ino (plug (Nd RB_RED x p y) (RF c u g # k)))"
    and B: "RB_COLOR h t = RB_BLK" and u: "col u = RB_RED"
  obtains h' where "rb_ins_case3 p (left (h g)) g h = (h', g, parent (h g))"
    and "tree_at h' t (parent (h g)) g (Nd RB_RED (paint RB_BLK u) g (Nd RB_BLK x p y))"
    and "ctx_at h' t (parent (h g)) g k" and "RB_COLOR h' t = RB_BLK"
    and "rb_frame t (nds (plug (Nd RB_RED x p y) (RF c u g # k))) h h'"
proof -
  let ?ua = "left (h g)"
  define h' where "h' = RB_SET_C g RB_RED (RB_SET_C ?ua RB_BLK (RB_SET_C p RB_BLK h))"
  have D': "distinct (t # ctx_l k @ ino x @ p # ino y @ ctx_r k @ g # ino u)" using D by auto
  from K have U: "tree_at h t g ?ua u" and K': "ctx_at h t (parent (h g)) g k" by auto
  note post = ins_case3_paint [OF D' P U u K' B h'_def]
  have "rb_ins_case3 p ?ua g h = (h', g, parent (h g))"
    by (simp add: rb_ins_case3_def Let_def h'_def)
  moreover have "tree_at h' t (parent (h g)) g (Nd RB_RED (paint RB_BLK u) g (Nd RB_BLK x p y))"
    using post(1,2,5) K by (simp add: h'_def)
  moreover have "rb_frame t (nds (plug (Nd RB_RED x p y) (RF c u g # k))) h h'"
    unfolding h'_def by (intro rb_frame_set rb_frame_refl) (use post(6,7) P K in auto)
  ultimately show thesis using post(3,4) that by blast
qed

section \<open>The loop\<close>

lemma rb_insert_balance_done:
  "rb_ins_pass t h n p = Inl h' \<Longrightarrow> rb_insert_balance t h n p = Some h'"
  by (subst rb_insert_balance.simps) simp

lemma rb_insert_balance_again:
  "rb_ins_pass t h n p = Inr (h', n', p') \<Longrightarrow>
   rb_insert_balance t h n p = rb_insert_balance t h' n' p'"
  by (subst rb_insert_balance.simps) simp

lemma ctx_at_pcol: "ctx_at h t p n k \<Longrightarrow> k \<noteq> [] \<Longrightarrow> p \<noteq> t \<and> RB_COLOR h p = pcol k"
  by (cases "(h, t, p, n, k)" rule: ctx_at.cases) auto

lemma ins_black_parent:
  assumes "tree_at h t p n T" and "ctx_at h t p n k" and "distinct (t # ino (plug T k))"
    and "RB_COLOR h t = RB_BLK" and "k \<noteq> []" and "pcol k = RB_BLK"
  shows "\<exists>h'. rb_insert_balance t h n p = Some h' \<and> rb_tree h' t (plug T k) \<and>
           rb_frame t (nds (plug T k)) h h'"
proof -
  have "rb_ins_pass t h n p = Inl h"
    using ctx_at_pcol [OF assms(2,5)] assms(6) by (simp add: rb_ins_pass_def RB_IS_BLACK_iff)
  moreover have "rb_tree h t (plug T k)"
    unfolding rb_tree_def zip_plug using assms(1-4) by blast
  ultimately show ?thesis by (blast intro: rb_insert_balance_done rb_frame_refl)
qed

lemma rb_insert_balance_refines:
  assumes "tree_at h t p n T" and "ctx_at h t p n k" and "distinct (t # ino (plug T k))"
    and "RB_COLOR h t = RB_BLK" and "col T = RB_RED" and "ctx_ok k b"
  shows "\<exists>h'. rb_insert_balance t h n p = Some h' \<and> rb_tree h' t (ins_fix T k) \<and>
           rb_frame t (nds (plug T k)) h h'"
  using assms
proof (induction T k arbitrary: h n p b rule: ins_fix.induct)
  case (1 T)
  let ?h = "RB_SET_ROOT t n (RB_SET_C n RB_BLK h)"
  from 1 have n: "n \<in> nds T" "n \<noteq> t" by (auto dest: tree_at_root)
  have pt: "rb_ins_pass t h n p = Inl ?h" using 1 by (simp add: rb_ins_pass_def)
  have "tree_at ?h t t n (paint RB_BLK T)"
    by (rule tree_at_repaint [OF "1.prems"(1)])
      (use 1 n in \<open>cases T; auto simp: RB_SET_ROOT_def\<close>)+
  then have "rb_tree ?h t (paint RB_BLK T)"
    using 1 n by (auto simp: rb_tree_def RB_SET_ROOT_def)
  moreover have "rb_frame t (nds T) h ?h"
    unfolding RB_SET_ROOT_def using n by (intro rb_frame_set) auto
  ultimately show ?case using rb_insert_balance_done [OF pt] by simp
next
  case (2 T q s c g u k)
  have up: "p = q" "tree_at h t g p (Nd RB_RED T p s)" "ctx_at h t g p (LF c g u # k)"
    using 2 by auto
  have ne: "p \<noteq> t" "RB_COLOR h p = RB_RED" "parent (h p) = g" "left (h g) = p" "left (h p) = n"
    "RB_COLOR h (right (h g)) = col u"
    using 2 by (auto dest: tree_at_col)
  show ?case
  proof (cases "col u = RB_RED")
    case True
    obtain h' where h': "rb_ins_case3 p (right (h g)) g h = (h', g, parent (h g))"
      "tree_at h' t (parent (h g)) g (Nd RB_RED (Nd RB_BLK T p s) g (paint RB_BLK u))"
      "ctx_at h' t (parent (h g)) g k" "RB_COLOR h' t = RB_BLK"
      "rb_frame t (nds (plug (Nd RB_RED T p s) (LF c g u # k))) h h'"
      by (rule ins_case3_l [OF up(2,3) _ "2.prems"(4) True]) (use 2 in simp)
    then have "rb_ins_pass t h n p = Inr (h', g, parent (h g))"
      using ne True by (simp add: rb_ins_pass_def RB_IS_BLACK_iff Let_def)
    note eq = rb_insert_balance_again [OF this]
    from "2.prems"(6) obtain b' where b': "ctx_ok k b'" by auto
    obtain h'' where "rb_insert_balance t h' g (parent (h g)) = Some h''"
      "rb_tree h'' t (ins_fix (Nd RB_RED (Nd RB_BLK T p s) g (paint RB_BLK u)) k)"
      "rb_frame t (nds (plug (Nd RB_RED (Nd RB_BLK T p s) g (paint RB_BLK u)) k)) h' h''"
      using "2.IH" [OF True h'(2) [unfolded up(1)] h'(3) _ h'(4) _ b'] "2.prems"(3) up(1)
      by auto
    then show ?thesis
      using eq True up(1) rb_frame_trans [OF h'(5)] by auto
  next
    case False
    then have "rb_ins_pass t h n p = Inl (rb_ins_case5_ll t p g (parent (h g)) h)"
      using ne by (simp add: rb_ins_pass_def RB_IS_BLACK_iff Let_def)
    from rb_insert_balance_done [OF this] show ?thesis
      using False up(1) ins_case5_ll [OF "2.prems"(1) _ _ "2.prems"(4)] "2.prems"(2,3) by auto
  qed
next
  case (3 ct nl m nr s q c g u k)
  let ?T = "Nd ct nl m nr"
  have up: "p = q" "n = m" "ct = RB_RED" "tree_at h t g p (Nd RB_RED s p ?T)" "ctx_at h t g p (LF c g u # k)"
    using 3 by auto
  have ne: "p \<noteq> t" "RB_COLOR h p = RB_RED" "parent (h p) = g" "left (h g) = p" "left (h p) \<noteq> n"
    "RB_COLOR h (right (h g)) = col u"
    using 3 by (auto dest: tree_at_col tree_at_root)
  show ?case
  proof (cases "col u = RB_RED")
    case True
    obtain h' where h': "rb_ins_case3 p (right (h g)) g h = (h', g, parent (h g))"
      "tree_at h' t (parent (h g)) g (Nd RB_RED (Nd RB_BLK s p ?T) g (paint RB_BLK u))"
      "ctx_at h' t (parent (h g)) g k" "RB_COLOR h' t = RB_BLK"
      "rb_frame t (nds (plug (Nd RB_RED s p ?T) (LF c g u # k))) h h'"
      by (rule ins_case3_l [OF up(4,5) _ "3.prems"(4) True]) (use 3 in simp)
    then have "rb_ins_pass t h n p = Inr (h', g, parent (h g))"
      using ne True by (simp add: rb_ins_pass_def RB_IS_BLACK_iff Let_def)
    note eq = rb_insert_balance_again [OF this]
    from "3.prems"(6) obtain b' where b': "ctx_ok k b'" by auto
    obtain h'' where "rb_insert_balance t h' g (parent (h g)) = Some h''"
      "rb_tree h'' t (ins_fix (Nd RB_RED (Nd RB_BLK s p ?T) g (paint RB_BLK u)) k)"
      "rb_frame t (nds (plug (Nd RB_RED (Nd RB_BLK s p ?T) g (paint RB_BLK u)) k)) h' h''"
      using "3.IH" [OF True h'(2) [unfolded up(1)] h'(3) _ h'(4) _ b'] "3.prems"(3) up(1)
      by auto
    then show ?thesis
      using eq True up(1) rb_frame_trans [OF h'(5)] by auto
  next
    case False
    then have "rb_ins_pass t h n p = Inl (rb_ins_case4_rl t n p g (parent (h g)) h)"
      using ne by (simp add: rb_ins_pass_def RB_IS_BLACK_iff Let_def)
    from rb_insert_balance_done [OF this] show ?thesis
      using False up(1,2) ins_case4_rl [of h t p n ct nl nr s c g u k] "3.prems" by auto
  qed
next
  case (4 T s q c u g k)
  have up: "p = q" "tree_at h t g p (Nd RB_RED s p T)" "ctx_at h t g p (RF c u g # k)"
    using 4 by auto
  have ne: "p \<noteq> t" "RB_COLOR h p = RB_RED" "parent (h p) = g" "left (h g) \<noteq> p" "right (h p) = n"
    "RB_COLOR h (left (h g)) = col u"
    using 4 by (auto dest: tree_at_col tree_at_root)
  show ?case
  proof (cases "col u = RB_RED")
    case True
    obtain h' where h': "rb_ins_case3 p (left (h g)) g h = (h', g, parent (h g))"
      "tree_at h' t (parent (h g)) g (Nd RB_RED (paint RB_BLK u) g (Nd RB_BLK s p T))"
      "ctx_at h' t (parent (h g)) g k" "RB_COLOR h' t = RB_BLK"
      "rb_frame t (nds (plug (Nd RB_RED s p T) (RF c u g # k))) h h'"
      by (rule ins_case3_r [OF up(2,3) _ "4.prems"(4) True]) (use 4 in simp)
    then have "rb_ins_pass t h n p = Inr (h', g, parent (h g))"
      using ne True by (simp add: rb_ins_pass_def RB_IS_BLACK_iff Let_def)
    note eq = rb_insert_balance_again [OF this]
    from "4.prems"(6) obtain b' where b': "ctx_ok k b'" by auto
    obtain h'' where "rb_insert_balance t h' g (parent (h g)) = Some h''"
      "rb_tree h'' t (ins_fix (Nd RB_RED (paint RB_BLK u) g (Nd RB_BLK s p T)) k)"
      "rb_frame t (nds (plug (Nd RB_RED (paint RB_BLK u) g (Nd RB_BLK s p T)) k)) h' h''"
      using "4.IH" [OF True h'(2) [unfolded up(1)] h'(3) _ h'(4) _ b'] "4.prems"(3) up(1)
      by auto
    then show ?thesis
      using eq True up(1) rb_frame_trans [OF h'(5)] by auto
  next
    case False
    then have "rb_ins_pass t h n p = Inl (rb_ins_case5_rr t p g (parent (h g)) h)"
      using ne by (simp add: rb_ins_pass_def RB_IS_BLACK_iff Let_def)
    from rb_insert_balance_done [OF this] show ?thesis
      using False up(1) ins_case5_rr [OF "4.prems"(1) _ _ "4.prems"(4)] "4.prems"(2,3) by auto
  qed
next
  case (5 ct nl m nr q s c u g k)
  let ?T = "Nd ct nl m nr"
  have up: "p = q" "n = m" "ct = RB_RED" "tree_at h t g p (Nd RB_RED ?T p s)" "ctx_at h t g p (RF c u g # k)"
    using 5 by auto
  have ne: "p \<noteq> t" "RB_COLOR h p = RB_RED" "parent (h p) = g" "left (h g) \<noteq> p" "right (h p) \<noteq> n"
    "RB_COLOR h (left (h g)) = col u"
    using 5 by (auto dest: tree_at_col tree_at_root)
  show ?case
  proof (cases "col u = RB_RED")
    case True
    obtain h' where h': "rb_ins_case3 p (left (h g)) g h = (h', g, parent (h g))"
      "tree_at h' t (parent (h g)) g (Nd RB_RED (paint RB_BLK u) g (Nd RB_BLK ?T p s))"
      "ctx_at h' t (parent (h g)) g k" "RB_COLOR h' t = RB_BLK"
      "rb_frame t (nds (plug (Nd RB_RED ?T p s) (RF c u g # k))) h h'"
      by (rule ins_case3_r [OF up(4,5) _ "5.prems"(4) True]) (use 5 in simp)
    then have "rb_ins_pass t h n p = Inr (h', g, parent (h g))"
      using ne True by (simp add: rb_ins_pass_def RB_IS_BLACK_iff Let_def)
    note eq = rb_insert_balance_again [OF this]
    from "5.prems"(6) obtain b' where b': "ctx_ok k b'" by auto
    obtain h'' where "rb_insert_balance t h' g (parent (h g)) = Some h''"
      "rb_tree h'' t (ins_fix (Nd RB_RED (paint RB_BLK u) g (Nd RB_BLK ?T p s)) k)"
      "rb_frame t (nds (plug (Nd RB_RED (paint RB_BLK u) g (Nd RB_BLK ?T p s)) k)) h' h''"
      using "5.IH" [OF True h'(2) [unfolded up(1)] h'(3) _ h'(4) _ b'] "5.prems"(3) up(1)
      by auto
    then show ?thesis
      using eq True up(1) rb_frame_trans [OF h'(5)] by auto
  next
    case False
    then have "rb_ins_pass t h n p = Inl (rb_ins_case4_lr t n p g (parent (h g)) h)"
      using ne by (simp add: rb_ins_pass_def RB_IS_BLACK_iff Let_def)
    from rb_insert_balance_done [OF this] show ?thesis
      using False up(1,2) ins_case4_lr [of h t p n ct nl nr s c u g k] "5.prems" by auto
  qed
qed (simp_all only: ins_fix.simps, (rule ins_black_parent; auto dest: ctx_ok_single)+)

section \<open>The API function\<close>

text \<open>
  The caller has already stored the new node into the link of its parent; \<open>k\<close> is the path
  from the new node to the root.
\<close>

theorem rb_insert_refines:
  assumes K: "k \<noteq> [] \<Longrightarrow> ctx_at h t p n k" and "k = [] \<Longrightarrow> p = t"
    and D: "distinct (t # n # ctx_l k @ ctx_r k)" and B: "RB_COLOR h t = RB_BLK"
    and I: "rb_inv (plug Tip k)"
  shows "\<exists>h'. rb_insert t h n p = Some h' \<and>
           rb_tree h' t (ins_fix (Nd RB_RED Tip n Tip) k) \<and>
           rb_inv (ins_fix (Nd RB_RED Tip n Tip) k) \<and>
           rb_frame t (insert n (ctx_nds k)) h h'"
proof -
  from I have ok: "ctx_ok k 0" by (simp add: rb_inv_plug)
  then have inv: "rb_inv (ins_fix (Nd RB_RED Tip n Tip) k)" by (intro rb_inv_ins_fix) auto
  show ?thesis
  proof (cases "k = []")
    case True
    with assms(2) have "p = t" by simp
    let ?h = "RB_SET_ROOT t n (RB_SET_P_L_R_C n p p p RB_BLK h)"
    have "rb_tree ?h t (Nd RB_BLK Tip n Tip)"
      using D B \<open>p = t\<close> by (auto simp: rb_tree_def rb_set_defs)
    moreover have "rb_frame t {n} h ?h"
      unfolding rb_set_defs using D by (intro rb_frame_set rb_frame_refl) auto
    ultimately show ?thesis using True inv \<open>p = t\<close> by (auto simp: rb_insert_def)
  next
    case False
    let ?h = "RB_SET_P_L_R_C n p t t RB_RED h"
    have "n \<noteq> t" using D by auto
    have pt: "p \<noteq> t" using ctx_at_parent [OF K [OF False]] False by auto
    have fr: "rb_frame t (insert n (ctx_nds k)) h ?h"
      unfolding rb_set_defs using D by (intro rb_frame_set rb_frame_refl) auto
    have tree: "tree_at ?h t p n (Nd RB_RED Tip n Tip)"
      using \<open>n \<noteq> t\<close> by (simp add: rb_set_defs)
    have ctx: "ctx_at ?h t p n k"
    proof (rule ctx_at_out [OF K [OF False]])
      fix a assume "a \<in> ctx_nds k"
      with D have "a \<noteq> n" by auto
      then show "?h a = h a" by (simp add: rb_set_defs)
    qed (use \<open>n \<noteq> t\<close> in \<open>simp add: rb_set_defs\<close>)
    have dist: "distinct (t # ino (plug (Nd RB_RED Tip n Tip) k))" using D by auto
    have blk: "RB_COLOR ?h t = RB_BLK" using B \<open>n \<noteq> t\<close> by (simp add: rb_set_defs)
    obtain h' where h': "rb_insert_balance t ?h n p = Some h'"
      "rb_tree h' t (ins_fix (Nd RB_RED Tip n Tip) k)"
      "rb_frame t (nds (plug (Nd RB_RED Tip n Tip) k)) ?h h'"
      using rb_insert_balance_refines [OF tree ctx dist blk _ ok] by auto
    have "rb_frame t (insert n (ctx_nds k)) ?h h'"
      by (rule rb_frame_mono [OF h'(3)]) auto
    from rb_frame_trans [OF fr this] h' inv pt show ?thesis by (auto simp: rb_insert_def)
  qed
qed

end
