(* ===== verification/XF_Rbtree_Delete.thy ===== *)
theory XF_Rbtree_Delete
  imports XF_Rbtree_Insert
begin

text \<open>
  The pointer-level deletion of rbtree.c refines the abstract deletion: each label of
  \<open>__rb_delete_rebalance\<close> does to the heap what \<open>del_test_l\<close>, \<open>del_test_r\<close> and \<open>del_fix\<close> do
  to the zipper, so the loop returns with a red-black tree, and \<open>rb_delete\<close> removes exactly
  the given node.
\<close>

lemma rb_set_c_same: "RB_COLOR h n = c \<Longrightarrow> RB_SET_C n c h = h"
proof (rule ext, cases c)
  fix a
  assume c: "RB_COLOR h n = c" and "c = RB_BLK"
  then have "color (h n) AND NOT 1 = color (h n)"
    by (intro bit_word_eqI)
      (auto simp: bit_simps bit_1_iff RB_COLOR_def and_1_eq_0_iff split: if_splits intro!: gr0I)
  with \<open>c = RB_BLK\<close> show "RB_SET_C n c h a = h a" by (simp add: RB_SET_C.simps)
next
  fix a
  assume c: "RB_COLOR h n = c" and "c = RB_RED"
  then have "color (h n) OR 1 = color (h n)"
    by (intro bit_word_eqI)
      (auto simp: bit_simps bit_1_iff RB_COLOR_def and_1_eq_0_iff split: if_splits intro!: gr0I)
  with \<open>c = RB_RED\<close> show "RB_SET_C n c h a = h a" by (simp add: RB_SET_C.simps)
qed

section \<open>Cases 3 and 4: repainting\<close>

lemma del_paint_l:
  assumes T: "tree_at h t p n T" and K: "ctx_at h t p n (LF c p (Nd sc sl s sr) # k)"
    and D: "distinct (t # ino (plug T (LF c p (Nd sc sl s sr) # k)))" and B: "RB_COLOR h t = RB_BLK"
    and h': "h' = RB_SET_C p c' (RB_SET_C s RB_RED h)"
  shows "tree_at h' t (parent (h p)) p (Nd c' T p (Nd RB_RED sl s sr))"
    and "ctx_at h' t (parent (h p)) p k" and "RB_COLOR h' t = RB_BLK"
    and "rb_frame t (nds (plug T (LF c p (Nd sc sl s sr) # k))) h h'"
proof -
  have O: "rot_out h h' {p, s}" by (rule rot_outI) (simp add: h')
  have n: "left (h p) = n" "right (h p) = s" "p \<noteq> t" "s \<noteq> t" "parent (h s) = p" using K by auto
  have ne: "p \<noteq> s" using D by auto
  have sl: "tree_at h t s (left (h s)) sl" and sr: "tree_at h t s (right (h s)) sr"
    and k: "ctx_at h t (parent (h p)) p k" using K by auto
  have "tree_at h' t p n T" by (rule rot_out_tree [OF O T]) (use D in auto)
  moreover have "tree_at h' t s (left (h s)) sl" by (rule rot_out_tree [OF O sl]) (use D in auto)
  moreover have "tree_at h' t s (right (h s)) sr" by (rule rot_out_tree [OF O sr]) (use D in auto)
  ultimately show "tree_at h' t (parent (h p)) p (Nd c' T p (Nd RB_RED sl s sr))"
    using n ne by (simp add: h')
  show "ctx_at h' t (parent (h p)) p k" by (rule rot_out_ctx [OF O k]) (use D in \<open>auto simp: h'\<close>)
  show "RB_COLOR h' t = RB_BLK" using B n by (simp add: h')
  show "rb_frame t (nds (plug T (LF c p (Nd sc sl s sr) # k))) h h'"
    unfolding h' using n by (intro rb_frame_set rb_frame_refl) auto
qed

lemma del_paint_r:
  assumes T: "tree_at h t p n T" and K: "ctx_at h t p n (RF c (Nd sc sl s sr) p # k)"
    and D: "distinct (t # ino (plug T (RF c (Nd sc sl s sr) p # k)))" and B: "RB_COLOR h t = RB_BLK"
    and h': "h' = RB_SET_C p c' (RB_SET_C s RB_RED h)"
  shows "tree_at h' t (parent (h p)) p (Nd c' (Nd RB_RED sl s sr) p T)"
    and "ctx_at h' t (parent (h p)) p k" and "RB_COLOR h' t = RB_BLK"
    and "rb_frame t (nds (plug T (RF c (Nd sc sl s sr) p # k))) h h'"
proof -
  have O: "rot_out h h' {p, s}" by (rule rot_outI) (simp add: h')
  have n: "right (h p) = n" "left (h p) = s" "p \<noteq> t" "s \<noteq> t" "parent (h s) = p" using K by auto
  have ne: "p \<noteq> s" using D by auto
  have sl: "tree_at h t s (left (h s)) sl" and sr: "tree_at h t s (right (h s)) sr"
    and k: "ctx_at h t (parent (h p)) p k" using K by auto
  have "tree_at h' t p n T" by (rule rot_out_tree [OF O T]) (use D in auto)
  moreover have "tree_at h' t s (left (h s)) sl" by (rule rot_out_tree [OF O sl]) (use D in auto)
  moreover have "tree_at h' t s (right (h s)) sr" by (rule rot_out_tree [OF O sr]) (use D in auto)
  ultimately show "tree_at h' t (parent (h p)) p (Nd c' (Nd RB_RED sl s sr) p T)"
    using n ne by (simp add: h')
  show "ctx_at h' t (parent (h p)) p k" by (rule rot_out_ctx [OF O k]) (use D in \<open>auto simp: h'\<close>)
  show "RB_COLOR h' t = RB_BLK" using B n by (simp add: h')
  show "rb_frame t (nds (plug T (RF c (Nd sc sl s sr) p # k))) h h'"
    unfolding h' using n by (intro rb_frame_set rb_frame_refl) auto
qed

section \<open>Case 6: single rotation\<close>

lemma del_case6_l:
  assumes T: "tree_at h t p n T" and K: "ctx_at h t p n (LF c p (Nd RB_BLK sl s sr) # k)"
    and D: "distinct (t # ino (plug T (LF c p (Nd RB_BLK sl s sr) # k)))" and B: "RB_COLOR h t = RB_BLK"
    and R: "col sr = RB_RED"
  shows "rb_tree (rb_del_case6_l t p (parent (h p)) s (left (h s)) (right (h s)) h) t
           (plug (Nd c (Nd RB_BLK T p sl) s (paint RB_BLK sr)) k)"
    and "rb_frame t (nds (plug T (LF c p (Nd RB_BLK sl s sr) # k))) h
           (rb_del_case6_l t p (parent (h p)) s (left (h s)) (right (h s)) h)"
proof -
  let ?g = "parent (h p)" and ?i = "left (h s)" and ?o = "right (h s)"
  define h' where "h' = RB_SET_C ?o RB_BLK (RB_SET_P ?i p (RB_SET_C p RB_BLK (RB_SET_R p ?i
     (RB_SET_P p s (RB_SET_C s c (RB_SET_L s p (RB_SET_P s ?g h)))))))"
  have n: "left (h p) = n" "right (h p) = s" "p \<noteq> t" "s \<noteq> t" "RB_COLOR h s = RB_BLK" "RB_COLOR h p = c"
    using K by auto
  have eq: "rb_del_case6_l t p ?g s (left (h s)) (right (h s)) h = rb_set_child_of t ?g p s h'"
    using n by (cases c) (simp_all add: rb_del_case6_l_def rb_set_defs RB_IS_BLACK_iff Let_def h'_def rb_set_c_same)
  have I: "tree_at h t s ?i sl" and O: "tree_at h t s ?o sr" and k: "ctx_at h t ?g p k"
    and T': "tree_at h t p (left (h p)) T" using K T n by auto
  have ne: "p \<noteq> s" "t \<notin> {p, s}" "p \<notin> ctx_nds k" "?o \<noteq> t"
    using D n R O by (auto dest: tree_at_null)
  note r = rot_roots [OF I O, of "{p, s}"]
  have x: "?i \<notin> {p, s}" "?o \<notin> {p, s}" "?i \<noteq> t \<Longrightarrow> ?i \<noteq> ?o" "?o \<noteq> t \<Longrightarrow> ?o \<noteq> ?i"
    "?i \<in> nds sl \<or> ?i = t" "?o \<in> nds sr \<or> ?o = t" "?o \<noteq> t \<Longrightarrow> parent (h ?o) = s"
    using D ne by (intro r; auto)+
  then have y: "p \<noteq> ?i" "s \<noteq> ?i" "p \<noteq> ?o" "s \<noteq> ?o" by auto
  have "rb_tree (rb_set_child_of t ?g p s h') t (plug (Nd c (Nd RB_BLK T p sl) s (paint RB_BLK sr)) k)"
  proof (rule rb_rot_left [OF T' I O k])
    show "rot_out h h' {p, s, left (h s), right (h s), t}" by (rule rot_outI) (simp add: h'_def)
  qed (use D B n ne x y in \<open>simp_all add: h'_def\<close>)
  then show "rb_tree (rb_del_case6_l t p ?g s (left (h s)) (right (h s)) h) t (plug (Nd c (Nd RB_BLK T p sl) s (paint RB_BLK sr)) k)"
    unfolding eq .
  have "?g \<in> ctx_nds k \<or> ?g = t" using ctx_at_parent [OF k] by auto
  with x(5,6) ne show "rb_frame t (nds (plug T (LF c p (Nd RB_BLK sl s sr) # k))) h
      (rb_del_case6_l t p ?g s (left (h s)) (right (h s)) h)"
    unfolding eq h'_def using n by (intro rb_frame_set_child rb_frame_set rb_frame_refl) auto
qed

lemma del_case6_r:
  assumes T: "tree_at h t p n T" and K: "ctx_at h t p n (RF c (Nd RB_BLK sl s sr) p # k)"
    and D: "distinct (t # ino (plug T (RF c (Nd RB_BLK sl s sr) p # k)))" and B: "RB_COLOR h t = RB_BLK"
    and R: "col sl = RB_RED"
  shows "rb_tree (rb_del_case6_r t p (parent (h p)) s (left (h s)) (right (h s)) h) t
           (plug (Nd c (paint RB_BLK sl) s (Nd RB_BLK sr p T)) k)"
    and "rb_frame t (nds (plug T (RF c (Nd RB_BLK sl s sr) p # k))) h
           (rb_del_case6_r t p (parent (h p)) s (left (h s)) (right (h s)) h)"
proof -
  let ?g = "parent (h p)" and ?i = "right (h s)" and ?o = "left (h s)"
  define h' where "h' = RB_SET_C ?o RB_BLK (RB_SET_P ?i p (RB_SET_C p RB_BLK (RB_SET_L p ?i
     (RB_SET_P p s (RB_SET_C s c (RB_SET_R s p (RB_SET_P s ?g h)))))))"
  have n: "right (h p) = n" "left (h p) = s" "p \<noteq> t" "s \<noteq> t" "RB_COLOR h s = RB_BLK" "RB_COLOR h p = c"
    using K by auto
  have eq: "rb_del_case6_r t p ?g s (left (h s)) (right (h s)) h = rb_set_child_of t ?g p s h'"
    using n by (cases c) (simp_all add: rb_del_case6_r_def rb_set_defs RB_IS_BLACK_iff Let_def h'_def rb_set_c_same)
  have I: "tree_at h t s ?i sr" and O: "tree_at h t s ?o sl" and k: "ctx_at h t ?g p k"
    and T': "tree_at h t p (right (h p)) T" using K T n by auto
  have ne: "p \<noteq> s" "t \<notin> {p, s}" "p \<notin> ctx_nds k" "?o \<noteq> t"
    using D n R O by (auto dest: tree_at_null)
  note r = rot_roots [OF I O, of "{p, s}"]
  have x: "?i \<notin> {p, s}" "?o \<notin> {p, s}" "?i \<noteq> t \<Longrightarrow> ?i \<noteq> ?o" "?o \<noteq> t \<Longrightarrow> ?o \<noteq> ?i"
    "?i \<in> nds sr \<or> ?i = t" "?o \<in> nds sl \<or> ?o = t" "?o \<noteq> t \<Longrightarrow> parent (h ?o) = s"
    using D ne by (intro r; auto)+
  then have y: "p \<noteq> ?i" "s \<noteq> ?i" "p \<noteq> ?o" "s \<noteq> ?o" by auto
  have "rb_tree (rb_set_child_of t ?g p s h') t (plug (Nd c (paint RB_BLK sl) s (Nd RB_BLK sr p T)) k)"
  proof (rule rb_rot_right [OF T' I O k])
    show "rot_out h h' {p, s, left (h s), right (h s), t}" by (rule rot_outI) (simp add: h'_def)
  qed (use D B n ne x y in \<open>simp_all add: h'_def\<close>)
  then show "rb_tree (rb_del_case6_r t p ?g s (left (h s)) (right (h s)) h) t (plug (Nd c (paint RB_BLK sl) s (Nd RB_BLK sr p T)) k)"
    unfolding eq .
  have "?g \<in> ctx_nds k \<or> ?g = t" using ctx_at_parent [OF k] by auto
  with x(5,6) ne show "rb_frame t (nds (plug T (RF c (Nd RB_BLK sl s sr) p # k))) h
      (rb_del_case6_r t p ?g s (left (h s)) (right (h s)) h)"
    unfolding eq h'_def using n by (intro rb_frame_set_child rb_frame_set rb_frame_refl) auto
qed

section \<open>Case 5: double rotation\<close>

lemma del_case5_l:
  assumes T: "tree_at h t p n T" and K: "ctx_at h t p n (LF c p (Nd sc (Nd RB_RED cl q cr) s sr) # k)"
    and D: "distinct (t # ino (plug T (LF c p (Nd sc (Nd RB_RED cl q cr) s sr) # k)))" and B: "RB_COLOR h t = RB_BLK"
  shows "rb_tree (rb_del_case5_l t p (parent (h p)) s q h) t (plug (Nd c (Nd RB_BLK T p cl) q (Nd sc cr s sr)) k)"
    and "rb_frame t (nds (plug T (LF c p (Nd sc (Nd RB_RED cl q cr) s sr) # k))) h (rb_del_case5_l t p (parent (h p)) s q h)"
proof -
  let ?g = "parent (h p)" and ?cl = "left (h q)" and ?cr = "right (h q)"
  define h' where "h' = RB_SET_P (right (h q)) s (RB_SET_L s (right (h q)) (RB_SET_P s q
     (RB_SET_P (left (h q)) p (RB_SET_C p RB_BLK (RB_SET_R p (left (h q)) (RB_SET_P p q
     (RB_SET_C q c (RB_SET_R q s (RB_SET_L q p (RB_SET_P q ?g h))))))))))"
  have n: "left (h p) = n" "right (h p) = s" "p \<noteq> t" "s \<noteq> t" "q \<noteq> t" "left (h s) = q"
    "RB_COLOR h s = sc" "RB_COLOR h p = c"
    using K by auto
  have eq: "rb_del_case5_l t p ?g s q h = rb_set_child_of t ?g p q h'"
    using n by (cases c) (simp_all add: rb_del_case5_l_def rb_set_defs RB_IS_BLACK_iff Let_def h'_def)
  have cl: "tree_at h t q ?cl cl" and cr: "tree_at h t q ?cr cr"
    and O': "tree_at h t s (right (h s)) sr" and k: "ctx_at h t ?g p k"
    and T': "tree_at h t p (left (h p)) T" using K T n by auto
  have ne: "p \<noteq> s" "p \<noteq> q" "s \<noteq> q" "t \<notin> {p, s, q}" "p \<notin> ctx_nds k" using D n by auto
  note r = rot_roots [OF cl cr, of "{p, s, q}"]
  have x: "?cl \<notin> {p, s, q}" "?cr \<notin> {p, s, q}" "?cl \<noteq> t \<Longrightarrow> ?cl \<noteq> ?cr" "?cr \<noteq> t \<Longrightarrow> ?cr \<noteq> ?cl"
    "?cl \<in> nds cl \<or> ?cl = t" "?cr \<in> nds cr \<or> ?cr = t"
    using D ne by (intro r; auto)+
  then have y: "p \<noteq> ?cl" "s \<noteq> ?cl" "q \<noteq> ?cl" "p \<noteq> ?cr" "s \<noteq> ?cr" "q \<noteq> ?cr" by auto
  have "rb_tree (rb_set_child_of t ?g p q h') t (plug (Nd c (Nd RB_BLK T p cl) q (Nd sc cr s sr)) k)"
  proof (rule rb_rot_double [OF T' O' cl cr k])
    show "rot_out h h' {p, s, q, ?cl, ?cr, t}" by (rule rot_outI) (simp add: h'_def)
  qed (use D B n ne x y in \<open>simp_all add: h'_def\<close>)
  then show "rb_tree (rb_del_case5_l t p ?g s q h) t (plug (Nd c (Nd RB_BLK T p cl) q (Nd sc cr s sr)) k)"
    unfolding eq .
  have "?g \<in> ctx_nds k \<or> ?g = t" using ctx_at_parent [OF k] by auto
  with x(5,6) show "rb_frame t (nds (plug T (LF c p (Nd sc (Nd RB_RED cl q cr) s sr) # k))) h (rb_del_case5_l t p ?g s q h)"
    unfolding eq h'_def using n by (intro rb_frame_set_child rb_frame_set rb_frame_refl) auto
qed

lemma del_case5_r:
  assumes T: "tree_at h t p n T" and K: "ctx_at h t p n (RF c (Nd sc sl s (Nd RB_RED cl q cr)) p # k)"
    and D: "distinct (t # ino (plug T (RF c (Nd sc sl s (Nd RB_RED cl q cr)) p # k)))" and B: "RB_COLOR h t = RB_BLK"
  shows "rb_tree (rb_del_case5_r t p (parent (h p)) s q h) t (plug (Nd c (Nd sc sl s cl) q (Nd RB_BLK cr p T)) k)"
    and "rb_frame t (nds (plug T (RF c (Nd sc sl s (Nd RB_RED cl q cr)) p # k))) h (rb_del_case5_r t p (parent (h p)) s q h)"
proof -
  let ?g = "parent (h p)" and ?cl = "left (h q)" and ?cr = "right (h q)"
  define h' where "h' = RB_SET_P (left (h q)) s (RB_SET_R s (left (h q)) (RB_SET_P s q
     (RB_SET_P (right (h q)) p (RB_SET_C p RB_BLK (RB_SET_L p (right (h q)) (RB_SET_P p q
     (RB_SET_C q c (RB_SET_R q p (RB_SET_L q s (RB_SET_P q ?g h))))))))))"
  have n: "right (h p) = n" "left (h p) = s" "p \<noteq> t" "s \<noteq> t" "q \<noteq> t" "right (h s) = q"
    "RB_COLOR h s = sc" "RB_COLOR h p = c"
    using K by auto
  have eq: "rb_del_case5_r t p ?g s q h = rb_set_child_of t ?g p q h'"
    using n by (cases c) (simp_all add: rb_del_case5_r_def rb_set_defs RB_IS_BLACK_iff Let_def h'_def)
  have cl: "tree_at h t q ?cl cl" and cr: "tree_at h t q ?cr cr"
    and O': "tree_at h t s (left (h s)) sl" and k: "ctx_at h t ?g p k"
    and T': "tree_at h t p (right (h p)) T" using K T n by auto
  have ne: "p \<noteq> s" "p \<noteq> q" "s \<noteq> q" "t \<notin> {p, s, q}" "p \<notin> ctx_nds k" using D n by auto
  note r = rot_roots [OF cl cr, of "{p, s, q}"]
  have x: "?cl \<notin> {p, s, q}" "?cr \<notin> {p, s, q}" "?cl \<noteq> t \<Longrightarrow> ?cl \<noteq> ?cr" "?cr \<noteq> t \<Longrightarrow> ?cr \<noteq> ?cl"
    "?cl \<in> nds cl \<or> ?cl = t" "?cr \<in> nds cr \<or> ?cr = t"
    using D ne by (intro r; auto)+
  then have y: "p \<noteq> ?cl" "s \<noteq> ?cl" "q \<noteq> ?cl" "p \<noteq> ?cr" "s \<noteq> ?cr" "q \<noteq> ?cr" by auto
  have "rb_tree (rb_set_child_of t ?g p q h') t (plug (Nd c (Nd sc sl s cl) q (Nd RB_BLK cr p T)) k)"
  proof (rule rb_rot_double [OF O' T' cl cr k])
    show "rot_out h h' {s, p, q, ?cl, ?cr, t}" by (rule rot_outI) (simp add: h'_def)
  qed (use D B n ne x y in \<open>simp_all add: h'_def\<close>)
  then show "rb_tree (rb_del_case5_r t p ?g s q h) t (plug (Nd c (Nd sc sl s cl) q (Nd RB_BLK cr p T)) k)"
    unfolding eq .
  have "?g \<in> ctx_nds k \<or> ?g = t" using ctx_at_parent [OF k] by auto
  with x(5,6) show "rb_frame t (nds (plug T (RF c (Nd sc sl s (Nd RB_RED cl q cr)) p # k))) h (rb_del_case5_r t p ?g s q h)"
    unfolding eq h'_def using n by (intro rb_frame_set_child rb_frame_set rb_frame_refl) auto
qed

section \<open>Case 2: red sibling\<close>

definition del_case2_l :: "addr \<Rightarrow> addr \<Rightarrow> addr \<Rightarrow> rb_heap \<Rightarrow> rb_heap" where
  "del_case2_l t p s h = rb_set_child_of t (parent (h p)) p s (RB_SET_P (left (h s)) p
     (RB_SET_C p RB_RED (RB_SET_R p (left (h s)) (RB_SET_P p s
     (RB_SET_C s RB_BLK (RB_SET_L s p (RB_SET_P s (parent (h p)) h)))))))"

lemma del_case2_l:
  assumes T: "tree_at h t p n T" and K: "ctx_at h t p n (LF c p (Nd RB_RED sl s sr) # k)"
    and D: "distinct (t # ino (plug T (LF c p (Nd RB_RED sl s sr) # k)))" and B: "RB_COLOR h t = RB_BLK"
  shows "rb_tree (del_case2_l t p s h) t (plug (Nd RB_BLK (Nd RB_RED T p sl) s sr) k)"
    and "rb_frame t (nds (plug T (LF c p (Nd RB_RED sl s sr) # k))) h (del_case2_l t p s h)"
    and "left (del_case2_l t p s h p) = n" and "right (del_case2_l t p s h p) = left (h s)"
    and "parent (del_case2_l t p s h p) = s"
proof -
  let ?g = "parent (h p)" and ?i = "left (h s)" and ?o = "right (h s)"
  define h' where "h' = RB_SET_P ?i p (RB_SET_C p RB_RED (RB_SET_R p ?i
     (RB_SET_P p s (RB_SET_C s RB_BLK (RB_SET_L s p (RB_SET_P s ?g h))))))"
  have n: "left (h p) = n" "right (h p) = s" "p \<noteq> t" "s \<noteq> t" "RB_COLOR h s = RB_RED"
    using K by auto
  have eq: "del_case2_l t p s h = rb_set_child_of t ?g p s h'"
    by (simp add: del_case2_l_def h'_def)
  have I: "tree_at h t s ?i sl" and O: "tree_at h t s ?o sr" and k: "ctx_at h t ?g p k"
    and T': "tree_at h t p (left (h p)) T" using K T n by auto
  have ne: "p \<noteq> s" "t \<notin> {p, s}" "p \<notin> ctx_nds k" using D n by auto
  note r = rot_roots [OF I O, of "{p, s}"]
  have x: "?i \<notin> {p, s}" "?o \<notin> {p, s}" "?i \<noteq> t \<Longrightarrow> ?i \<noteq> ?o" "?o \<noteq> t \<Longrightarrow> ?o \<noteq> ?i"
    "?i \<in> nds sl \<or> ?i = t" "?o \<in> nds sr \<or> ?o = t" "?o \<noteq> t \<Longrightarrow> parent (h ?o) = s"
    using D ne by (intro r; auto)+
  then have y: "p \<noteq> ?i" "s \<noteq> ?i" "p \<noteq> ?o" "s \<noteq> ?o" by auto
  have "rb_tree (rb_set_child_of t ?g p s h') t (plug (Nd RB_BLK (Nd RB_RED T p sl) s (paint (RB_COLOR h ?o) sr)) k)"
  proof (rule rb_rot_left [OF T' I O k])
    show "rot_out h h' {p, s, left (h s), right (h s), t}" by (rule rot_outI) (simp add: h'_def)
  qed (use D B n ne x y in \<open>simp_all add: h'_def\<close>)
  moreover have "paint (RB_COLOR h ?o) sr = sr"
    by (rule paint_root [OF O]) (use O in \<open>auto dest: tree_at_null\<close>)
  ultimately show "rb_tree (del_case2_l t p s h) t (plug (Nd RB_BLK (Nd RB_RED T p sl) s sr) k)"
    unfolding eq by simp
  have g: "?g \<in> ctx_nds k \<or> ?g = t" using ctx_at_parent [OF k] by auto
  then have gp: "p \<noteq> ?g" using D n ne by auto
  from g x(5,6) ne show "rb_frame t (nds (plug T (LF c p (Nd RB_RED sl s sr) # k))) h (del_case2_l t p s h)"
    unfolding eq h'_def using n by (intro rb_frame_set_child rb_frame_set rb_frame_refl) auto
  show "left (del_case2_l t p s h p) = n" "right (del_case2_l t p s h p) = left (h s)"
    "parent (del_case2_l t p s h p) = s"
    using n ne y gp by (simp_all add: eq h'_def)
qed

definition del_case2_r :: "addr \<Rightarrow> addr \<Rightarrow> addr \<Rightarrow> rb_heap \<Rightarrow> rb_heap" where
  "del_case2_r t p s h = rb_set_child_of t (parent (h p)) p s (RB_SET_P (right (h s)) p
     (RB_SET_C p RB_RED (RB_SET_L p (right (h s)) (RB_SET_P p s
     (RB_SET_C s RB_BLK (RB_SET_R s p (RB_SET_P s (parent (h p)) h)))))))"

lemma del_case2_r:
  assumes T: "tree_at h t p n T" and K: "ctx_at h t p n (RF c (Nd RB_RED sl s sr) p # k)"
    and D: "distinct (t # ino (plug T (RF c (Nd RB_RED sl s sr) p # k)))" and B: "RB_COLOR h t = RB_BLK"
  shows "rb_tree (del_case2_r t p s h) t (plug (Nd RB_BLK sl s (Nd RB_RED sr p T)) k)"
    and "rb_frame t (nds (plug T (RF c (Nd RB_RED sl s sr) p # k))) h (del_case2_r t p s h)"
    and "right (del_case2_r t p s h p) = n" and "left (del_case2_r t p s h p) = right (h s)"
    and "parent (del_case2_r t p s h p) = s"
proof -
  let ?g = "parent (h p)" and ?i = "right (h s)" and ?o = "left (h s)"
  define h' where "h' = RB_SET_P ?i p (RB_SET_C p RB_RED (RB_SET_L p ?i
     (RB_SET_P p s (RB_SET_C s RB_BLK (RB_SET_R s p (RB_SET_P s ?g h))))))"
  have n: "right (h p) = n" "left (h p) = s" "p \<noteq> t" "s \<noteq> t" "RB_COLOR h s = RB_RED"
    using K by auto
  have eq: "del_case2_r t p s h = rb_set_child_of t ?g p s h'"
    by (simp add: del_case2_r_def h'_def)
  have I: "tree_at h t s ?i sr" and O: "tree_at h t s ?o sl" and k: "ctx_at h t ?g p k"
    and T': "tree_at h t p (right (h p)) T" using K T n by auto
  have ne: "p \<noteq> s" "t \<notin> {p, s}" "p \<notin> ctx_nds k" using D n by auto
  note r = rot_roots [OF I O, of "{p, s}"]
  have x: "?i \<notin> {p, s}" "?o \<notin> {p, s}" "?i \<noteq> t \<Longrightarrow> ?i \<noteq> ?o" "?o \<noteq> t \<Longrightarrow> ?o \<noteq> ?i"
    "?i \<in> nds sr \<or> ?i = t" "?o \<in> nds sl \<or> ?o = t" "?o \<noteq> t \<Longrightarrow> parent (h ?o) = s"
    using D ne by (intro r; auto)+
  then have y: "p \<noteq> ?i" "s \<noteq> ?i" "p \<noteq> ?o" "s \<noteq> ?o" by auto
  have "rb_tree (rb_set_child_of t ?g p s h') t (plug (Nd RB_BLK (paint (RB_COLOR h ?o) sl) s (Nd RB_RED sr p T)) k)"
  proof (rule rb_rot_right [OF T' I O k])
    show "rot_out h h' {p, s, left (h s), right (h s), t}" by (rule rot_outI) (simp add: h'_def)
  qed (use D B n ne x y in \<open>simp_all add: h'_def\<close>)
  moreover have "paint (RB_COLOR h ?o) sl = sl"
    by (rule paint_root [OF O]) (use O in \<open>auto dest: tree_at_null\<close>)
  ultimately show "rb_tree (del_case2_r t p s h) t (plug (Nd RB_BLK sl s (Nd RB_RED sr p T)) k)"
    unfolding eq by simp
  have g: "?g \<in> ctx_nds k \<or> ?g = t" using ctx_at_parent [OF k] by auto
  then have gp: "p \<noteq> ?g" using D n ne by auto
  from g x(5,6) ne show "rb_frame t (nds (plug T (RF c (Nd RB_RED sl s sr) p # k))) h (del_case2_r t p s h)"
    unfolding eq h'_def using n by (intro rb_frame_set_child rb_frame_set rb_frame_refl) auto
  show "right (del_case2_r t p s h p) = n" "left (del_case2_r t p s h p) = right (h s)"
    "parent (del_case2_r t p s h p) = s"
    using n ne y gp by (simp_all add: eq h'_def)
qed

section \<open>One pass\<close>

text \<open>
  The two results of a pass: the abstract tree finished (\<open>Inl\<close>), or one that stands, a black
  node short, at the place of P (\<open>Inr\<close>); the code leaves the loop when P was the root.
\<close>

definition del_step :: "rb_heap \<Rightarrow> addr \<Rightarrow> addr \<Rightarrow> ctx \<Rightarrow> addr set \<Rightarrow>
    rb_heap + rb_heap \<times> addr \<times> addr \<Rightarrow> rbt + rbt \<Rightarrow> bool" where
  "del_step h t p k N code res \<longleftrightarrow>
     (case res of
        Inl R \<Rightarrow> \<exists>h'. code = Inl h' \<and> rb_tree h' t R \<and> rb_frame t N h h'
      | Inr T' \<Rightarrow> \<exists>h'. code = (if parent (h p) = t then Inl h' else Inr (h', p, parent (h p))) \<and>
           tree_at h' t (parent (h p)) p T' \<and> ctx_at h' t (parent (h p)) p k \<and>
           RB_COLOR h' t = RB_BLK \<and> rb_frame t N h h')"

lemma del_test_l_refines:
  assumes T: "tree_at h t p n T" and K: "ctx_at h t p n (LF c p (Nd RB_BLK sl s sr) # k)"
    and D: "distinct (t # ino (plug T (LF c p (Nd RB_BLK sl s sr) # k)))" and B: "RB_COLOR h t = RB_BLK"
  shows "del_step h t p k (nds (plug T (LF c p (Nd RB_BLK sl s sr) # k)))
           (rb_del_test3_l t p (parent (h p)) s (left (h s)) (right (h s)) h)
           (del_test_l T c p (Nd RB_BLK sl s sr) k)"
proof -
  let ?g = "parent (h p)"
  have n: "RB_COLOR h p = c" and O: "tree_at h t s (right (h s)) sr"
    and I: "tree_at h t s (left (h s)) sl" and k: "ctx_at h t ?g p k" using K by auto
  have co: "RB_COLOR h (right (h s)) = col sr" "RB_COLOR h (left (h s)) = col sl"
    using O I B by (auto dest: tree_at_col)
  note test = rb_del_test3_l_def RB_IS_BLACK_iff co n
  consider (six) "col sr = RB_RED"
    | (five) cl q cr where "col sr = RB_BLK" "sl = Nd RB_RED cl q cr"
    | (paint) "col sr = RB_BLK" "col sl = RB_BLK"
    by (cases sl; cases "col sr"; cases "col sl") auto
  then show ?thesis
  proof cases
    case six
    with del_case6_l [OF T K D B six] show ?thesis
      by (auto simp: test del_step_def)
  next
    case five
    have q: "left (h s) = q" using I five by simp
    from five K have K': "ctx_at h t p n (LF c p (Nd RB_BLK (Nd RB_RED cl q cr) s sr) # k)" by simp
    from five D have D': "distinct (t # ino (plug T (LF c p (Nd RB_BLK (Nd RB_RED cl q cr) s sr) # k)))" by simp
    from del_case5_l [OF T K' D' B] q show ?thesis
      using five co by (auto simp: test del_step_def)
  next
    case paint
    define h' where "h' = RB_SET_C p RB_BLK (RB_SET_C s RB_RED h)"
    note post = del_paint_l [OF T K D B h'_def]
    have abs: "del_test_l T c p (Nd RB_BLK sl s sr) k = (if c = RB_BLK
        then Inr (Nd c T p (Nd RB_RED sl s sr)) else Inl (plug (Nd RB_BLK T p (Nd RB_RED sl s sr)) k))"
      using paint by (auto split: rbt.split rb_color.split)
    show ?thesis
    proof (cases c)
      case RB_RED
      have "rb_tree h' t (plug (Nd RB_BLK T p (Nd RB_RED sl s sr)) k)"
        unfolding rb_tree_def zip_plug using post(1-3) D by auto
      with RB_RED paint post(4) abs show ?thesis
        by (auto simp: test del_step_def rb_del_case4_def h'_def simp del: del_test_l.simps)
    next
      case RB_BLK
      have "p \<noteq> s" using D by auto
      then have "h' = RB_SET_C s RB_RED h" using n RB_BLK by (simp add: h'_def rb_set_c_same)
      with RB_BLK paint post abs show ?thesis
        by (auto simp: test del_step_def rb_del_case3_def Let_def simp del: del_test_l.simps)
    qed
  qed
qed

lemma del_test_r_refines:
  assumes T: "tree_at h t p n T" and K: "ctx_at h t p n (RF c (Nd RB_BLK sl s sr) p # k)"
    and D: "distinct (t # ino (plug T (RF c (Nd RB_BLK sl s sr) p # k)))" and B: "RB_COLOR h t = RB_BLK"
  shows "del_step h t p k (nds (plug T (RF c (Nd RB_BLK sl s sr) p # k)))
           (rb_del_test3_r t p (parent (h p)) s (left (h s)) (right (h s)) h)
           (del_test_r T c p (Nd RB_BLK sl s sr) k)"
proof -
  let ?g = "parent (h p)"
  have n: "RB_COLOR h p = c" and O: "tree_at h t s (left (h s)) sl"
    and I: "tree_at h t s (right (h s)) sr" and k: "ctx_at h t ?g p k" using K by auto
  have co: "RB_COLOR h (left (h s)) = col sl" "RB_COLOR h (right (h s)) = col sr"
    using O I B by (auto dest: tree_at_col)
  note test = rb_del_test3_r_def RB_IS_BLACK_iff co n
  consider (six) "col sl = RB_RED"
    | (five) cl q cr where "col sl = RB_BLK" "sr = Nd RB_RED cl q cr"
    | (paint) "col sl = RB_BLK" "col sr = RB_BLK"
    by (cases sr; cases "col sl"; cases "col sr") auto
  then show ?thesis
  proof cases
    case six
    with del_case6_r [OF T K D B six] show ?thesis
      by (auto simp: test del_step_def)
  next
    case five
    have q: "right (h s) = q" using I five by simp
    from five K have K': "ctx_at h t p n (RF c (Nd RB_BLK sl s (Nd RB_RED cl q cr)) p # k)" by simp
    from five D have D': "distinct (t # ino (plug T (RF c (Nd RB_BLK sl s (Nd RB_RED cl q cr)) p # k)))" by simp
    from del_case5_r [OF T K' D' B] q show ?thesis
      using five co by (auto simp: test del_step_def)
  next
    case paint
    define h' where "h' = RB_SET_C p RB_BLK (RB_SET_C s RB_RED h)"
    note post = del_paint_r [OF T K D B h'_def]
    have abs: "del_test_r T c p (Nd RB_BLK sl s sr) k = (if c = RB_BLK
        then Inr (Nd c (Nd RB_RED sl s sr) p T) else Inl (plug (Nd RB_BLK (Nd RB_RED sl s sr) p T) k))"
      using paint by (auto split: rbt.split rb_color.split)
    show ?thesis
    proof (cases c)
      case RB_RED
      have "rb_tree h' t (plug (Nd RB_BLK (Nd RB_RED sl s sr) p T) k)"
        unfolding rb_tree_def zip_plug using post(1-3) D by auto
      with RB_RED paint post(4) abs show ?thesis
        by (auto simp: test del_step_def rb_del_case4_def h'_def simp del: del_test_r.simps)
    next
      case RB_BLK
      have "p \<noteq> s" using D by auto
      then have "h' = RB_SET_C s RB_RED h" using n RB_BLK by (simp add: h'_def rb_set_c_same)
      with RB_BLK paint post abs show ?thesis
        by (auto simp: test del_step_def rb_del_case3_def Let_def simp del: del_test_r.simps)
    qed
  qed
qed

lemma rb_del_pass_l:
  assumes T: "tree_at h t p n T" and K: "ctx_at h t p n (LF c p S # k)" and "S \<noteq> Tip"
    and D: "distinct (t # ino (plug T (LF c p S # k)))" and B: "RB_COLOR h t = RB_BLK"
  shows "col S = RB_BLK \<Longrightarrow> rb_del_pass t h n p = (let s = right (h p) in
           rb_del_test3_l t p (parent (h p)) s (left (h s)) (right (h s)) h)"
    and "S = Nd RB_RED sl s sr \<Longrightarrow> sl \<noteq> Tip \<Longrightarrow> rb_del_pass t h n p =
           (let h' = del_case2_l t p s h; s' = right (h' p) in
            rb_del_test3_l t p (parent (h' p)) s' (left (h' s')) (right (h' s')) h')"
proof -
  let ?s = "right (h p)"
  have S: "tree_at h t p ?s S" and n: "left (h p) = n" using K by auto
  have sn: "?s \<noteq> n" "?s \<noteq> t"
    using tree_at_root [OF S] tree_at_root [OF T] D \<open>S \<noteq> Tip\<close> by auto
  show "rb_del_pass t h n p = (let s = ?s in
      rb_del_test3_l t p (parent (h p)) s (left (h s)) (right (h s)) h)" if "col S = RB_BLK"
    using tree_at_col [OF S B] that n sn
    by (simp add: rb_del_pass_def RB_IS_BLACK_iff Let_def)
  assume red: "S = Nd RB_RED sl s sr" and "sl \<noteq> Tip"
  with K D have K': "ctx_at h t p n (LF c p (Nd RB_RED sl s sr) # k)" and D': "distinct (t # ino (plug T (LF c p (Nd RB_RED sl s sr) # k)))" and s: "?s = s" by auto
  note post = del_case2_l [OF T K' D' B]
  from S red have I: "tree_at h t s (left (h s)) sl" by auto
  have i: "left (h s) \<noteq> n"
    using tree_at_root [OF I] tree_at_root [OF T] D red \<open>sl \<noteq> Tip\<close> by auto
  show "rb_del_pass t h n p = (let h' = del_case2_l t p s h; s' = right (h' p) in
      rb_del_test3_l t p (parent (h' p)) s' (left (h' s')) (right (h' s')) h')"
    using tree_at_col [OF S B] red n sn s post(3-5) i
    by (simp add: rb_del_pass_def rb_del_case2_x_def RB_IS_BLACK_iff Let_def
        del_case2_l_def rb_set_defs)
qed

lemma rb_del_pass_r:
  assumes T: "tree_at h t p n T" and K: "ctx_at h t p n (RF c S p # k)" and "S \<noteq> Tip"
    and D: "distinct (t # ino (plug T (RF c S p # k)))" and B: "RB_COLOR h t = RB_BLK"
  shows "col S = RB_BLK \<Longrightarrow> rb_del_pass t h n p = (let s = left (h p) in
           rb_del_test3_r t p (parent (h p)) s (left (h s)) (right (h s)) h)"
    and "S = Nd RB_RED sl s sr \<Longrightarrow> sr \<noteq> Tip \<Longrightarrow> rb_del_pass t h n p =
           (let h' = del_case2_r t p s h; s' = left (h' p) in
            rb_del_test3_r t p (parent (h' p)) s' (left (h' s')) (right (h' s')) h')"
proof -
  let ?s = "left (h p)"
  have S: "tree_at h t p ?s S" and n: "right (h p) = n" using K by auto
  have sn: "?s \<noteq> n" "?s \<noteq> t"
    using tree_at_root [OF S] tree_at_root [OF T] D \<open>S \<noteq> Tip\<close> by auto
  show "rb_del_pass t h n p = (let s = ?s in
      rb_del_test3_r t p (parent (h p)) s (left (h s)) (right (h s)) h)" if "col S = RB_BLK"
    using tree_at_col [OF S B] that n sn
    by (simp add: rb_del_pass_def RB_IS_BLACK_iff Let_def)
  assume red: "S = Nd RB_RED sl s sr" and "sr \<noteq> Tip"
  with K D have K': "ctx_at h t p n (RF c (Nd RB_RED sl s sr) p # k)" and D': "distinct (t # ino (plug T (RF c (Nd RB_RED sl s sr) p # k)))" and s: "?s = s" by auto
  note post = del_case2_r [OF T K' D' B]
  from S red have I: "tree_at h t s (right (h s)) sr" by auto
  have i: "right (h s) \<noteq> n"
    using tree_at_root [OF I] tree_at_root [OF T] D red \<open>sr \<noteq> Tip\<close> by auto
  show "rb_del_pass t h n p = (let h' = del_case2_r t p s h; s' = left (h' p) in
      rb_del_test3_r t p (parent (h' p)) s' (left (h' s')) (right (h' s')) h')"
    using tree_at_col [OF S B] red n sn s post(3-5) i
    by (simp add: rb_del_pass_def rb_del_case2_x_def RB_IS_BLACK_iff Let_def
        del_case2_r_def rb_set_defs)
qed

section \<open>The loop\<close>

lemma rb_delete_loop_done:
  "rb_del_pass t h n p = Inl h' \<Longrightarrow> rb_delete_loop t h n p = Some h'"
  by (subst rb_delete_loop.simps) simp

lemma rb_delete_loop_again:
  "rb_del_pass t h n p = Inr (h', n', p') \<Longrightarrow>
   rb_delete_loop t h n p = rb_delete_loop t h' n' p'"
  by (subst rb_delete_loop.simps) simp

lemma rb_tree_at_root:
  "tree_at h t t n T \<Longrightarrow> ctx_at h t t n [] \<Longrightarrow> distinct (t # ino T) \<Longrightarrow> RB_COLOR h t = RB_BLK \<Longrightarrow>
   rb_tree h t T"
  by (simp add: rb_tree_def)

lemma del_loop_step:
  assumes step: "del_step h t p k N (rb_del_pass t h n p) r"
    and ino: "\<And>T'. r = Inr T' \<Longrightarrow> ino (plug T' k) = xs" and N: "set xs = N" "distinct (t # xs)"
    and IH: "\<And>h' T'. r = Inr T' \<Longrightarrow> k \<noteq> [] \<Longrightarrow> tree_at h' t (parent (h p)) p T' \<Longrightarrow>
      ctx_at h' t (parent (h p)) p k \<Longrightarrow> RB_COLOR h' t = RB_BLK \<Longrightarrow>
      \<exists>h''. rb_delete_loop t h' p (parent (h p)) = Some h'' \<and> rb_tree h'' t (del_fix T' k) \<and>
            rb_frame t N h' h''"
  shows "\<exists>h'. rb_delete_loop t h n p = Some h' \<and>
           rb_tree h' t (case r of Inl R \<Rightarrow> R | Inr T' \<Rightarrow> del_fix T' k) \<and> rb_frame t N h h'"
proof (cases r)
  case (Inl R)
  with step show ?thesis by (auto simp: del_step_def dest: rb_delete_loop_done)
next
  case (Inr T')
  with step obtain h' where h': "tree_at h' t (parent (h p)) p T'" "ctx_at h' t (parent (h p)) p k"
    "RB_COLOR h' t = RB_BLK" "rb_frame t N h h'"
    and code: "rb_del_pass t h n p = (if parent (h p) = t then Inl h' else Inr (h', p, parent (h p)))"
    by (auto simp: del_step_def)
  show ?thesis
  proof (cases "k = []")
    case True
    with h'(2) have g: "parent (h p) = t" by simp
    have "rb_tree h' t T'"
      using h'(1-3) ino [OF Inr] N True by (intro rb_tree_at_root) (auto simp: g)
    with code g True Inr h'(4) show ?thesis by (auto dest: rb_delete_loop_done)
  next
    case False
    then have "parent (h p) \<noteq> t" using ctx_at_parent [OF h'(2)] by auto
    with code have "rb_del_pass t h n p = Inr (h', p, parent (h p))" by simp
    from rb_delete_loop_again [OF this] IH [OF Inr False h'(1-3)] h'(4) Inr show ?thesis
      by (auto intro: rb_frame_trans)
  qed
qed

lemma del_loop_red_l:
  assumes T: "tree_at h t p n T" and K: "ctx_at h t p n (LF c p (Nd RB_RED sl s sr) # k)"
    and D: "distinct (t # ino (plug T (LF c p (Nd RB_RED sl s sr) # k)))" and B: "RB_COLOR h t = RB_BLK"
    and S: "col sl = RB_BLK" "sl \<noteq> Tip"
  shows "\<exists>h'. rb_delete_loop t h n p = Some h' \<and> rb_tree h' t (del_fix T (LF c p (Nd RB_RED sl s sr) # k)) \<and>
           rb_frame t (nds (plug T (LF c p (Nd RB_RED sl s sr) # k))) h h'"
proof -
  obtain l a r where si: "sl = Nd RB_BLK l a r" using S by (cases sl) auto
  let ?h = "del_case2_l t p s h" and ?K = "LF RB_RED p sl # LF RB_BLK s sr # k" and ?N = "nds (plug T (LF c p (Nd RB_RED sl s sr) # k))"
  note post = del_case2_l [OF T K D B]
  have "rb_tree ?h t (plug T ?K)" using post(1) by simp
  then obtain p' n' where tr: "tree_at ?h t p' n' T" and K': "ctx_at ?h t p' n' ?K"
    and D': "distinct (t # ino (plug T ?K))" and B': "RB_COLOR ?h t = RB_BLK"
    by (auto simp: rb_tree_def zip_plug simp del: plug.simps ino_plug)
  from K' have p': "p' = p" by simp
  from K' p' post(3) have n': "n' = n" by simp
  have a: "right (?h p) = a" using K' p' si by simp
  have N: "nds (plug T ?K) = ?N" by auto
  from rb_del_pass_l(2) [OF T K _ D B refl S(2)] a
  have "rb_del_pass t h n p =
      rb_del_test3_l t p (parent (?h p)) a (left (?h a)) (right (?h a)) ?h"
    by (simp add: Let_def)
  moreover have "del_step ?h t p (LF RB_BLK s sr # k) ?N
      (rb_del_test3_l t p (parent (?h p)) a (left (?h a)) (right (?h a)) ?h)
      (del_test_l T RB_RED p sl (LF RB_BLK s sr # k))"
    using del_test_l_refines [OF tr [unfolded p' n'] K' [unfolded p' n' si] D' [unfolded si] B'] N
    by (simp only: si)
  moreover have "\<exists>R. del_test_l T RB_RED p sl (LF RB_BLK s sr # k) = Inl R"
    using si by (auto split: rbt.split rb_color.split)
  ultimately obtain h' R where "rb_del_pass t h n p = Inl h'"
    "del_test_l T RB_RED p sl (LF RB_BLK s sr # k) = Inl R" "rb_tree h' t R" "rb_frame t ?N ?h h'"
    by (auto simp: del_step_def simp del: del_test_l.simps plug.simps ino_plug)
  then show ?thesis
    using rb_delete_loop_done rb_frame_trans [OF post(2)]
    by (auto simp del: del_test_l.simps plug.simps ino_plug)
qed

lemma del_loop_red_r:
  assumes T: "tree_at h t p n T" and K: "ctx_at h t p n (RF c (Nd RB_RED sl s sr) p # k)"
    and D: "distinct (t # ino (plug T (RF c (Nd RB_RED sl s sr) p # k)))" and B: "RB_COLOR h t = RB_BLK"
    and S: "col sr = RB_BLK" "sr \<noteq> Tip"
  shows "\<exists>h'. rb_delete_loop t h n p = Some h' \<and> rb_tree h' t (del_fix T (RF c (Nd RB_RED sl s sr) p # k)) \<and>
           rb_frame t (nds (plug T (RF c (Nd RB_RED sl s sr) p # k))) h h'"
proof -
  obtain l a r where si: "sr = Nd RB_BLK l a r" using S by (cases sr) auto
  let ?h = "del_case2_r t p s h" and ?K = "RF RB_RED sr p # RF RB_BLK sl s # k" and ?N = "nds (plug T (RF c (Nd RB_RED sl s sr) p # k))"
  note post = del_case2_r [OF T K D B]
  have "rb_tree ?h t (plug T ?K)" using post(1) by simp
  then obtain p' n' where tr: "tree_at ?h t p' n' T" and K': "ctx_at ?h t p' n' ?K"
    and D': "distinct (t # ino (plug T ?K))" and B': "RB_COLOR ?h t = RB_BLK"
    by (auto simp: rb_tree_def zip_plug simp del: plug.simps ino_plug)
  from K' have p': "p' = p" by simp
  from K' p' post(3) have n': "n' = n" by simp
  have a: "left (?h p) = a" using K' p' si by simp
  have N: "nds (plug T ?K) = ?N" by auto
  from rb_del_pass_r(2) [OF T K _ D B refl S(2)] a
  have "rb_del_pass t h n p =
      rb_del_test3_r t p (parent (?h p)) a (left (?h a)) (right (?h a)) ?h"
    by (simp add: Let_def)
  moreover have "del_step ?h t p (RF RB_BLK sl s # k) ?N
      (rb_del_test3_r t p (parent (?h p)) a (left (?h a)) (right (?h a)) ?h)
      (del_test_r T RB_RED p sr (RF RB_BLK sl s # k))"
    using del_test_r_refines [OF tr [unfolded p' n'] K' [unfolded p' n' si] D' [unfolded si] B'] N
    by (simp only: si)
  moreover have "\<exists>R. del_test_r T RB_RED p sr (RF RB_BLK sl s # k) = Inl R"
    using si by (auto split: rbt.split rb_color.split)
  ultimately obtain h' R where "rb_del_pass t h n p = Inl h'"
    "del_test_r T RB_RED p sr (RF RB_BLK sl s # k) = Inl R" "rb_tree h' t R" "rb_frame t ?N ?h h'"
    by (auto simp: del_step_def simp del: del_test_r.simps plug.simps ino_plug)
  then show ?thesis
    using rb_delete_loop_done rb_frame_trans [OF post(2)]
    by (auto simp del: del_test_r.simps plug.simps ino_plug)
qed

theorem rb_delete_loop_refines:
  assumes "tree_at h t p n T" and "ctx_at h t p n k" and "k \<noteq> []"
    and "distinct (t # ino (plug T k))" and "RB_COLOR h t = RB_BLK"
    and "rb_ok T" and "col T = RB_BLK" and "ctx_ok k (Suc (bh T))"
  shows "\<exists>h'. rb_delete_loop t h n p = Some h' \<and> rb_tree h' t (del_fix T k) \<and>
           rb_frame t (nds (plug T k)) h h'"
  using assms
proof (induction T k arbitrary: h n p rule: del_fix.induct)
  case (1 T)
  then show ?case by simp
next
  case (2 T c pa sl s sr k)
  then have p: "p = pa" and s: "col sl = RB_BLK" "sl \<noteq> Tip" by (auto split: if_splits)
  show ?case
    unfolding p by (rule del_loop_red_l [OF "2.prems"(1,2,4,5)[unfolded p] s])
next
  case (3 T c pa k)
  then show ?case by simp
next
  case (4 T c pa l a r k)
  then have p: "p = pa" by simp
  let ?S = "Nd RB_BLK l a r"
  note pre = "4.prems"(1,2,4,5)[unfolded p]
  have a: "right (h pa) = a" using pre(2) by simp
  have step: "del_step h t pa k (nds (plug T (LF c pa ?S # k))) (rb_del_pass t h n pa) (del_test_l T c pa ?S k)"
    using del_test_l_refines [OF pre] rb_del_pass_l(1) [OF pre(1,2) _ pre(3,4)] a by (simp add: Let_def)
  have ok: "case del_test_l T c pa ?S k of Inl R \<Rightarrow> rb_inv R
      | Inr T' \<Rightarrow> c = RB_BLK \<and> rb_ok T' \<and> col T' = RB_BLK \<and> bh T' = Suc (bh T)"
    using "4.prems"(6-8) by (intro del_test_l_ok) simp_all
  have ino: "ino (plug T' k) = ino (plug T (LF c pa ?S # k))" if "del_test_l T c pa ?S k = Inr T'" for T'
    using ino_del_test_l [where T = T and c = c and p = pa and S = ?S and k = k] that by simp
  have unf: "del_fix T (LF c pa ?S # k) =
      (case del_test_l T c pa ?S k of Inl R \<Rightarrow> R | Inr T' \<Rightarrow> del_fix T' k)" by simp
  show ?case
    unfolding p unf
  proof (rule del_loop_step [OF step ino])
    fix h' T'
    assume T': "del_test_l T c pa ?S k = Inr T'" and new: "k \<noteq> []" "tree_at h' t (parent (h pa)) pa T'"
      "ctx_at h' t (parent (h pa)) pa k" "RB_COLOR h' t = RB_BLK"
    have eq: "ino (plug T' k) = ino (plug T (LF c pa ?S # k))" by (rule ino [OF T'])
    have "\<exists>h''. rb_delete_loop t h' pa (parent (h pa)) = Some h'' \<and> rb_tree h'' t (del_fix T' k) \<and>
        rb_frame t (nds (plug T' k)) h' h''"
      using "4.prems"(8) ok T' pre(3) eq
      by (intro "4.IH" [OF T' new(2,3,1) _ new(4)]) (simp_all del: plug.simps ino_plug)
    then show "\<exists>h''. rb_delete_loop t h' pa (parent (h pa)) = Some h'' \<and> rb_tree h'' t (del_fix T' k) \<and>
        rb_frame t (nds (plug T (LF c pa ?S # k))) h' h''"
      unfolding eq .
  qed (use pre(3) in simp_all)
next
  case (5 T c sl s sr pa k)
  then have p: "p = pa" and s: "col sr = RB_BLK" "sr \<noteq> Tip" by (auto split: if_splits)
  show ?case
    unfolding p by (rule del_loop_red_r [OF "5.prems"(1,2,4,5)[unfolded p] s])
next
  case (6 T c pa k)
  then show ?case by simp
next
  case (7 T c l a r pa k)
  then have p: "p = pa" by simp
  let ?S = "Nd RB_BLK l a r"
  note pre = "7.prems"(1,2,4,5)[unfolded p]
  have a: "left (h pa) = a" using pre(2) by simp
  have step: "del_step h t pa k (nds (plug T (RF c ?S pa # k))) (rb_del_pass t h n pa) (del_test_r T c pa ?S k)"
    using del_test_r_refines [OF pre] rb_del_pass_r(1) [OF pre(1,2) _ pre(3,4)] a by (simp add: Let_def)
  have ok: "case del_test_r T c pa ?S k of Inl R \<Rightarrow> rb_inv R
      | Inr T' \<Rightarrow> c = RB_BLK \<and> rb_ok T' \<and> col T' = RB_BLK \<and> bh T' = Suc (bh T)"
    using "7.prems"(6-8) by (intro del_test_r_ok) simp_all
  have ino: "ino (plug T' k) = ino (plug T (RF c ?S pa # k))" if "del_test_r T c pa ?S k = Inr T'" for T'
    using ino_del_test_r [where T = T and c = c and p = pa and S = ?S and k = k] that by simp
  have unf: "del_fix T (RF c ?S pa # k) =
      (case del_test_r T c pa ?S k of Inl R \<Rightarrow> R | Inr T' \<Rightarrow> del_fix T' k)" by simp
  show ?case
    unfolding p unf
  proof (rule del_loop_step [OF step ino])
    fix h' T'
    assume T': "del_test_r T c pa ?S k = Inr T'" and new: "k \<noteq> []" "tree_at h' t (parent (h pa)) pa T'"
      "ctx_at h' t (parent (h pa)) pa k" "RB_COLOR h' t = RB_BLK"
    have eq: "ino (plug T' k) = ino (plug T (RF c ?S pa # k))" by (rule ino [OF T'])
    have "\<exists>h''. rb_delete_loop t h' pa (parent (h pa)) = Some h'' \<and> rb_tree h'' t (del_fix T' k) \<and>
        rb_frame t (nds (plug T' k)) h' h''"
      using "7.prems"(8) ok T' pre(3) eq
      by (intro "7.IH" [OF T' new(2,3,1) _ new(4)]) (simp_all del: plug.simps ino_plug)
    then show "\<exists>h''. rb_delete_loop t h' pa (parent (h pa)) = Some h'' \<and> rb_tree h'' t (del_fix T' k) \<and>
        rb_frame t (nds (plug T (RF c ?S pa # k))) h' h''"
      unfolding eq .
  qed (use pre(3) in simp_all)
qed

end
