(* ===== verification/XF_Rbtree_Remove.thy ===== *)
theory XF_Rbtree_Remove
  imports XF_Rbtree_Delete
begin

text \<open>
  \<open>rb_delete\<close> and \<open>rb_replace\<close> on a whole tree: the node is removed from (or exchanged in)
  the in-order sequence, the red-black invariant is kept, and every node outside the tree and
  the payload bits of all nodes are left alone.
\<close>

section \<open>The in-order predecessor\<close>

fun del_max :: "rbt \<Rightarrow> rbt" where
  "del_max Tip = Tip"
| "del_max (Nd c l a Tip) = l"
| "del_max (Nd c l a r) = Nd c l a (del_max r)"

fun max_split :: "rbt \<Rightarrow> ctx \<Rightarrow> rb_color \<times> rbt \<times> addr \<times> ctx" where
  "max_split Tip k = (RB_BLK, Tip, 0, k)"
| "max_split (Nd c l a Tip) k = (c, l, a, k)"
| "max_split (Nd c l a r) k = max_split r (RF c l a # k)"

lemma max_split_plug:
  "T \<noteq> Tip \<Longrightarrow> max_split T k = (c, l, m, k') \<Longrightarrow>
   plug T k = plug (Nd c l m Tip) k' \<and> plug (del_max T) k = plug l k' \<and> ino T = ino (del_max T) @ [m]"
proof (induction T k rule: max_split.induct)
  case (3 c l a v va vb vc k)
  then show ?case by (auto simp del: ino_plug)
qed auto

lemma nds_max_split:
  "T \<noteq> Tip \<Longrightarrow> max_split T k = (c, l, m, k') \<Longrightarrow> nds T = insert m (nds (del_max T))"
  using max_split_plug by fastforce

lemma max_split_suffix:
  "T \<noteq> Tip \<Longrightarrow> max_split T k = (c, l, m, k') \<Longrightarrow>
   \<exists>k''. k' = k'' @ k \<and> (\<forall>k2. max_split T k2 = (c, l, m, k'' @ k2))"
proof (induction T k rule: max_split.induct)
  case (3 cc ll a v va vb vc k)
  from "3.IH" [OF _ "3.prems"(2)[simplified]] obtain k'' where
    k'': "k' = k'' @ RF cc ll a # k" "\<forall>k2. max_split (Nd v va vb vc) k2 = (c, l, m, k'' @ k2)"
    by auto
  then show ?case by (intro exI [of _ "k'' @ [RF cc ll a]"]) auto
qed auto

lemma rb_descend_right_max:
  "tree_at h t p n T \<Longrightarrow> T \<noteq> Tip \<Longrightarrow> max_split T k = (c, l, m, k') \<Longrightarrow>
   rb_descend_right t h n = Some m"
proof (induction T k arbitrary: p n rule: max_split.induct)
  case (2 c l a k)
  then show ?case by (subst rb_descend_right.simps) (simp add: Let_def)
next
  case (3 cc ll a v va vb vc k)
  then show ?case by (subst rb_descend_right.simps) (auto simp: Let_def)
qed simp

fun ctx_parent :: "addr \<Rightarrow> ctx \<Rightarrow> addr" where
  "ctx_parent t [] = t"
| "ctx_parent t (LF c a r # k) = a"
| "ctx_parent t (RF c l a # k) = a"

lemma ctx_parent_in: "k \<noteq> [] \<Longrightarrow> ctx_parent t k \<in> ctx_nds k"
  by (cases "(t, k)" rule: ctx_parent.cases) auto

lemma ctx_at_ctx_parent: "ctx_at h t p n k \<Longrightarrow> p = ctx_parent t k"
  by (cases "(t, k)" rule: ctx_parent.cases) auto

section \<open>The end of the deletion\<close>

text \<open>What is left to do when a node of colour \<open>c\<close> with the only child L has left the tree.\<close>

definition del_done :: "rb_color \<Rightarrow> rbt \<Rightarrow> ctx \<Rightarrow> rbt" where
  "del_done c L k =
     (if c = RB_BLK then if L = Tip then del_fix Tip k else plug (paint RB_BLK L) k
      else plug L k)"

lemma ino_del_done: "ino (del_done c L k) = ino (plug L k)"
  by (simp add: del_done_def ino_del_fix)

lemma rb_ok_single: "rb_ok (Nd c l a Tip) \<Longrightarrow> l = Tip \<or> c = RB_BLK \<and> col l = RB_RED \<and> bh l = 0"
  by (cases l; cases "col l") (auto split: if_splits)

lemma rb_inv_del_done:
  assumes "rb_ok (Nd c L m Tip)" and "ctx_ok k (bh (Nd c L m Tip))"
  shows "rb_inv (del_done c L k)"
  using rb_ok_single [OF assms(1)] assms
  by (cases c) (auto simp: del_done_def rb_inv_plug rb_ok_paint_blk bh_paint_blk intro!: rb_inv_del_fix)

definition rb_del_finish :: "addr \<Rightarrow> addr \<Rightarrow> addr \<Rightarrow> rb_color \<Rightarrow> rb_heap \<Rightarrow> rb_heap option" where
  "rb_del_finish t c tt clr h =
     (if clr = RB_BLK then
        (if c = t then rb_delete_rebalance t h tt else Some (RB_SET_C c RB_BLK h))
      else Some h)"

lemma rb_del_adjust_eq:
  "rb_del_adjust t n p m c tt clr h = rb_del_finish t c tt clr (rb_set_child_of t p n m h)"
  by (simp add: rb_del_adjust_def rb_del_finish_def rb_set_child_of_def Let_def)

lemma rb_del_finish_refines:
  assumes T: "rb_tree h t (plug L k)" and k: "k \<noteq> []"
    and ok: "rb_ok (Nd clr L m Tip)" "ctx_ok k (bh (Nd clr L m Tip))"
    and c: "c = (case L of Tip \<Rightarrow> t | Nd _ _ a _ \<Rightarrow> a)"
  shows "\<exists>h'. rb_del_finish t c (ctx_parent t k) clr h = Some h' \<and>
           rb_tree h' t (del_done clr L k) \<and> rb_frame t (nds (plug L k)) h h'"
proof -
  let ?p = "ctx_parent t k"
  from T obtain p n where "tree_at h t p n L" "ctx_at h t p n k"
    and D: "distinct (t # ino (plug L k))" and B: "RB_COLOR h t = RB_BLK"
    by (auto simp: rb_tree_def zip_plug simp del: ino_plug)
  moreover have "n = c" using c \<open>tree_at h t p n L\<close> by (cases L) auto
  ultimately have L: "tree_at h t ?p c L" and K: "ctx_at h t ?p c k"
    using ctx_at_ctx_parent by blast+
  consider (red) "clr = RB_RED" | (tip) "clr = RB_BLK" "L = Tip" | (chd) "clr = RB_BLK" "L \<noteq> Tip"
    by (cases clr) auto
  then show ?thesis
  proof cases
    case red
    with T show ?thesis by (simp add: rb_del_finish_def del_done_def)
  next
    case tip
    with c have "c = t" by simp
    have "ctx_ok k (Suc (bh Tip))" using ok(2) tip by simp
    with tip L K k D B \<open>c = t\<close> obtain h' where "rb_delete_loop t h t ?p = Some h'"
      "rb_tree h' t (del_fix Tip k)" "rb_frame t (nds (plug L k)) h h'"
      using rb_delete_loop_refines [of h t ?p t Tip k] by (auto simp del: ino_plug)
    with tip \<open>c = t\<close> show ?thesis
      by (simp add: rb_del_finish_def del_done_def rb_delete_rebalance_def)
  next
    case chd
    then have ct: "c \<noteq> t" "c \<in> nds L" using tree_at_root [OF L] by auto
    let ?h = "RB_SET_C c RB_BLK h"
    have O: "rot_out h ?h {c}" by (rule rot_outI) simp
    have "tree_at ?h t ?p c (paint RB_BLK L)"
      by (rule rot_out_repaint [OF O L]) (use D L ct in \<open>cases L; auto\<close>)+
    moreover have "ctx_at ?h t ?p c k"
      by (rule rot_out_ctx [OF O K]) (use D ct in auto)
    ultimately have "rb_tree ?h t (plug (paint RB_BLK L) k)"
      unfolding rb_tree_def zip_plug using D B ct by auto
    moreover have "rb_frame t (nds (plug L k)) h ?h" using ct by (intro rb_frame_set rb_frame_refl) auto
    ultimately show ?thesis using chd ct by (simp add: rb_del_finish_def del_done_def)
  qed
qed

section \<open>Putting the predecessor in the place of the node\<close>

lemma max_split_at:
  "tree_at h t q x T \<Longrightarrow> T \<noteq> Tip \<Longrightarrow> max_split T k = (cm, lm, m, k') \<Longrightarrow>
   m \<in> nds T \<and> m \<noteq> t \<and> RB_COLOR h m = cm \<and> right (h m) = t \<and> tree_at h t m (left (h m)) lm \<and>
   nds lm \<subseteq> nds T"
  by (induction T k arbitrary: q x rule: max_split.induct) auto

lemma max_split_parent:
  "tree_at h t q x (Nd c l a r) \<Longrightarrow> r \<noteq> Tip \<Longrightarrow> max_split r k = (cm, lm, m, k') \<Longrightarrow>
   parent (h m) \<in> insert a (nds (del_max r)) \<and> parent (h m) \<noteq> t"
proof (induction r k arbitrary: c l a q x rule: max_split.induct)
  case (3 c' l' a' v va vb vc k)
  from "3.prems" have "tree_at h t a a' (Nd c' l' a' (Nd v va vb vc))" by auto
  from "3.IH" [OF this] "3.prems"(3) show ?case by auto
qed auto

lemma max_split_ctx_parent:
  "tree_at h t q x (Nd c l a r) \<Longrightarrow> r \<noteq> Tip \<Longrightarrow> max_split r (RF c l a # k) = (cm, lm, m, k') \<Longrightarrow>
   ctx_parent t k' = parent (h m)"
proof (induction r "RF c l a # k" arbitrary: c l a k q x rule: max_split.induct)
  case (3 c' l' a' v va vb vc)
  from "3.prems" have "tree_at h t a a' (Nd c' l' a' (Nd v va vb vc))" by auto
  from "3.hyps" [OF this] "3.prems"(3) show ?case by auto
qed auto

lemma splice_max:
  assumes "tree_at h t q x (Nd c l a r)" and "r \<noteq> Tip" and "max_split r k = (cm, lm, m, k')"
    and "distinct (t # ino (Nd c l a r))"
    and tt: "left (h' (parent (h m))) = left (h (parent (h m)))"
      "right (h' (parent (h m))) = left (h m)"
      "parent (h' (parent (h m))) = parent (h (parent (h m)))"
      "RB_COLOR h' (parent (h m)) = RB_COLOR h (parent (h m))"
    and c: "left (h m) \<noteq> t \<Longrightarrow> left (h' (left (h m))) = left (h (left (h m))) \<and>
        right (h' (left (h m))) = right (h (left (h m))) \<and>
        parent (h' (left (h m))) = parent (h m) \<and> RB_COLOR h' (left (h m)) = RB_COLOR h (left (h m))"
    and O: "rot_out h h' {parent (h m), left (h m), t}"
  shows "tree_at h' t q x (Nd c l a (del_max r))"
  using assms
proof (induction r k arbitrary: c l a q x rule: max_split.induct)
  case (2 c' l' a' k)
  then have m: "m = a'" "lm = l'" "parent (h m) = a" "x = a" "right (h a) = m" by auto
  from 2 m have l': "tree_at h t m (left (h m)) l'" and l: "tree_at h t a (left (h a)) l" by auto
  have lm: "left (h m) \<in> nds l' \<or> left (h m) = t" using tree_at_root [OF l'] by auto
  have "tree_at h' t a (left (h m)) l'"
    by (rule rot_out_reparent [OF "2.prems"(10) l']) (use "2.prems"(4,9) m in auto)
  moreover have "tree_at h' t a (left (h a)) l"
    by (rule rot_out_tree [OF "2.prems"(10) l]) (use "2.prems"(4) m lm in auto)
  ultimately show ?case using "2.prems"(1,5-8) m by simp
next
  case (3 c' l' a' v va vb vc k)
  let ?r = "Nd v va vb vc"
  have x: "x = a" and r: "tree_at h t a (right (h a)) (Nd c' l' a' ?r)"
    and l: "tree_at h t a (left (h a)) l" using "3.prems"(1) by auto
  have sp: "max_split ?r (RF c' l' a' # k) = (cm, lm, m, k')" using "3.prems"(3) by simp
  have D: "distinct (t # ino (Nd c' l' a' ?r))" using "3.prems"(4) by auto
  have "tree_at h' t a (right (h a)) (Nd c' l' a' (del_max ?r))"
    by (rule "3.IH" [OF r _ sp D "3.prems"(5-10)]) simp_all
  moreover have pm: "parent (h m) \<in> nds (Nd c' l' a' ?r)" "left (h m) \<in> nds (Nd c' l' a' ?r) \<union> {t}"
  proof -
    from r have r': "tree_at h t a' (right (h a')) ?r" by simp
    then have "tree_at h t m (left (h m)) lm" "nds lm \<subseteq> nds ?r" using max_split_at [OF r' _ sp] by blast+
    then show "left (h m) \<in> nds (Nd c' l' a' ?r) \<union> {t}" using tree_at_root by fastforce
    show "parent (h m) \<in> nds (Nd c' l' a' ?r)"
      using max_split_parent [OF r _ sp] nds_max_split [OF _ sp] by auto
  qed
  have a: "a \<notin> {parent (h m), left (h m), t}" and "nds l \<inter> {parent (h m), left (h m), t} = {}"
    using pm "3.prems"(4) by auto
  then have "tree_at h' t a (left (h a)) l" by (intro rot_out_tree [OF "3.prems"(10) l])
  moreover have "same_links h h' a" using "3.prems"(10) a by (simp add: rot_out_def)
  ultimately show ?case using "3.prems"(1) x by (auto simp: same_links_def)
qed simp

lemma rb_del_relink_far:
  assumes N: "tree_at h t p n (Nd c L n R)" and K: "ctx_at h t p n k"
    and D: "distinct (t # ino (plug (Nd c L n R) k))" and B: "RB_COLOR h t = RB_BLK"
    and L: "L = Nd c' l a r" "r \<noteq> Tip" and M: "max_split L (LF c n R # k) = (cm, lm, m, k')"
    and h5: "h5 = RB_SET_C m c (fst (rb_del_relink n p m (left (h m)) h))"
  shows "snd (rb_del_relink n p m (left (h m)) h) = parent (h m)"
    and "RB_COLOR (fst (rb_del_relink n p m (left (h m)) h)) n = c"
    and "rb_tree (rb_set_child_of t p n m h5) t (plug (Nd c (del_max L) m R) k)"
    and "rb_frame t (nds (plug (Nd c L n R) k)) h (rb_set_child_of t p n m h5)"
proof -
  let ?l = "left (h n)" and ?r = "right (h n)" and ?c = "left (h m)" and ?tt = "parent (h m)"
  have Mr: "max_split r (RF c' l a # LF c n R # k) = (cm, lm, m, k')" using M L by (cases r) auto
  have Lt: "tree_at h t n ?l (Nd c' l a r)" and Rt: "tree_at h t n ?r R" and n: "n \<noteq> t" "RB_COLOR h n = c"
    using N L by auto
  then have la: "?l = a" and rt: "tree_at h t a (right (h a)) r" by auto
  have sp: "plug L (LF c n R # k) = plug (Nd cm lm m Tip) k'" "ino r = ino (del_max r) @ [m]"
    using max_split_plug [OF _ M] max_split_plug [OF L(2) Mr] L by auto
  have "distinct (ino r)" using D L by auto
  then have dm: "nds r = insert m (nds (del_max r))" "m \<notin> nds (del_max r)" "distinct (ino (del_max r))"
    unfolding sp(2) by auto
  have tt: "?tt \<in> insert a (nds (del_max r))" "?tt \<noteq> t" using max_split_parent [OF Lt L(2) Mr] by auto
  have mc: "tree_at h t m ?c lm" "nds lm \<subseteq> nds r" "right (h m) = t" "m \<noteq> t"
    using max_split_at [OF rt L(2) Mr] by auto
  have "distinct (t # ino (plug (Nd cm lm m Tip) k'))" using D unfolding sp(1) [symmetric] by simp
  moreover have "?tt \<in> ctx_nds k'"
    using ctx_parent_in [of k' t] max_split_ctx_parent [OF Lt L(2) Mr] tt(2) by (cases k') auto
  ultimately have ct: "?tt \<notin> nds lm" "m \<notin> nds lm" by auto
  have cc: "?c \<in> nds lm \<or> ?c = t" using tree_at_root [OF mc(1)] by auto
  have rr: "?r \<in> nds R \<or> ?r = t" using tree_at_root [OF Rt] by auto
  have dj: "a \<notin> nds r" "n \<notin> nds r" "n \<notin> nds R" "a \<notin> nds R" "nds r \<inter> nds R = {}" "n \<noteq> a"
    "t \<notin> nds r" "t \<notin> nds R" "a \<noteq> t"
    using D L by (simp_all add: Int_Un_distrib) blast+
  have tr: "?tt \<in> insert a (nds r)" "m \<in> nds r" "?c \<in> nds r \<or> ?c = t"
    using tt dm(1) cc mc(2) by blast+
  have ne: "?tt \<noteq> n" "m \<noteq> n" "m \<noteq> ?tt" "m \<noteq> a" "a \<noteq> n"
    using tr(1,2) dj(1,2,6) tt(1) dm(2) by auto
  have ne': "m \<noteq> ?r" "?r \<noteq> a" "?r \<noteq> n" "?r \<noteq> ?tt"
    using tr(1,2) dj(3,4,5,9) rr mc(4) n(1) tt(2) by auto
  have cn: "?c \<noteq> n" "?c \<noteq> a" "?c \<noteq> m" "?c \<noteq> ?tt"
    using tr(3) dj(1,2,9) ct cc tt(2) n(1) mc(4) by auto
  have cr: "?c \<noteq> t \<Longrightarrow> ?c \<noteq> ?r" using tr(3) rr dj(5) by auto
  define h1 where "h1 = RB_SET_P ?c ?tt (RB_SET_R ?tt ?c h)"
  have h5': "h5 = RB_SET_C m c (RB_SET_P ?r m (RB_SET_P a m (RB_SET_R m ?r (RB_SET_L m a (RB_SET_P m p h1)))))"
    and code: "snd (rb_del_relink n p m ?c h) = ?tt" "RB_COLOR (fst (rb_del_relink n p m ?c h)) n = c"
    using ne ne' la n by (simp_all add: h5 rb_del_relink_def rb_set_defs Let_def h1_def)
  show "snd (rb_del_relink n p m ?c h) = ?tt" "RB_COLOR (fst (rb_del_relink n p m ?c h)) n = c"
    by (rule code)+
  have "tree_at h1 t n ?l (Nd c' l a (del_max r))"
  proof (rule splice_max [OF Lt L(2) Mr])
    show "rot_out h h1 {?tt, ?c, t}" by (rule rot_outI) (simp add: h1_def)
  qed (use D L cn in \<open>auto simp: h1_def\<close>)
  have dmL: "del_max L = Nd c' l a (del_max r)" using L by (cases r) auto
  then have X: "tree_at h1 t n a (del_max L)" using \<open>tree_at h1 t n ?l _\<close> la by simp
  have dl: "nds l \<inter> insert a (nds r) = {}" "nds l \<inter> nds R = {}" "t \<notin> nds l"
    "ctx_nds k \<inter> insert a (nds r) = {}" "ctx_nds k \<inter> nds R = {}" "t \<notin> ctx_nds k"
    using D L by auto
  have O1: "rot_out h1 h5 {m, a, ?r, t}" by (rule rot_outI) (simp add: h5')
  have "tree_at h5 t m a (del_max L)"
  proof (rule rot_out_reparent [OF O1 X])
    show "nds (del_max L) \<inter> {m, a, ?r, t} \<subseteq> {a}"
      using dmL dl(1-3) tr(2) rr dm dj by auto
    show "distinct (ino (del_max L))" using D L dm dmL by auto
  qed (use ne ne' in \<open>simp add: h5'\<close>)
  moreover have O: "rot_out h h5 {m, ?c, ?tt, a, ?r, t}" by (rule rot_outI) (simp add: h5' h1_def)
  have "tree_at h5 t m ?r R"
  proof (rule rot_out_reparent [OF O Rt])
    show "nds R \<inter> {m, ?c, ?tt, a, ?r, t} \<subseteq> {?r}" using tr dj(4,5,8) by auto
    show "distinct (ino R)" using D by simp
  qed (use ne ne' cr in \<open>simp add: h5' h1_def\<close>)
  ultimately have "tree_at h5 t p m (Nd c (del_max L) m R)"
    using ne ne' dj mc(4) by (simp add: h5')
  moreover have "ctx_at h5 t p n k"
    by (rule rot_out_ctx [OF O K]) (use dl(4-6) tr rr dj mc(4) tt(2) in \<open>auto simp: h5' h1_def\<close>)
  ultimately show "rb_tree (rb_set_child_of t p n m h5) t (plug (Nd c (del_max L) m R) k)"
    by (rule rb_tree_relink) (use D L dm dmL n B mc(4) in \<open>auto simp: h5' h1_def\<close>)
  show "rb_frame t (nds (plug (Nd c L n R) k)) h (rb_set_child_of t p n m h5)"
    unfolding h5' h1_def using L(1) tr rr tt(2) mc(4) ctx_at_parent [OF K]
    by (intro rb_frame_set_child rb_frame_set rb_frame_refl) auto
qed

lemma rb_del_relink_near:
  assumes N: "tree_at h t p n (Nd c (Nd cm lm m Tip) n R)" and K: "ctx_at h t p n k"
    and D: "distinct (t # ino (plug (Nd c (Nd cm lm m Tip) n R) k))" and B: "RB_COLOR h t = RB_BLK"
    and h5: "h5 = RB_SET_C m c (fst (rb_del_relink n p m (left (h m)) h))"
  shows "snd (rb_del_relink n p m (left (h m)) h) = m"
    and "RB_COLOR (fst (rb_del_relink n p m (left (h m)) h)) n = c"
    and "rb_tree (rb_set_child_of t p n m h5) t (plug (Nd c lm m R) k)"
    and "rb_frame t (nds (plug (Nd c (Nd cm lm m Tip) n R) k)) h (rb_set_child_of t p n m h5)"
proof -
  let ?r = "right (h n)"
  have n: "n \<noteq> t" "RB_COLOR h n = c" "left (h n) = m" "parent (h m) = n" "m \<noteq> t"
    and Rt: "tree_at h t n ?r R" and Lt: "tree_at h t m (left (h m)) lm" using N by auto
  have rr: "?r \<in> nds R \<or> ?r = t" using tree_at_root [OF Rt] by auto
  have dj: "m \<notin> nds R" "m \<notin> nds lm" "nds lm \<inter> nds R = {}" "n \<noteq> m" "n \<notin> nds R" "t \<notin> nds lm"
    "ctx_nds k \<inter> insert m (nds R) = {}" "t \<notin> ctx_nds k" "t \<notin> nds R"
    using D by auto
  have h5': "h5 = RB_SET_C m c (RB_SET_P ?r m (RB_SET_R m ?r (RB_SET_P m p h)))"
    and code: "snd (rb_del_relink n p m (left (h m)) h) = m"
      "RB_COLOR (fst (rb_del_relink n p m (left (h m)) h)) n = c"
    using dj n by (simp_all add: h5 rb_del_relink_def rb_set_defs Let_def)
  show "snd (rb_del_relink n p m (left (h m)) h) = m"
    "RB_COLOR (fst (rb_del_relink n p m (left (h m)) h)) n = c" by (rule code)+
  have O: "rot_out h h5 {m, ?r, t}" by (rule rot_outI) (simp add: h5')
  have ne: "m \<noteq> ?r" using rr dj n by auto
  have "tree_at h5 t m (left (h m)) lm" by (rule rot_out_tree [OF O Lt]) (use dj rr in auto)
  moreover have "tree_at h5 t m ?r R"
  proof (rule rot_out_reparent [OF O Rt])
    show "nds R \<inter> {m, ?r, t} \<subseteq> {?r}" using dj by auto
    show "distinct (ino R)" using D by simp
  qed (use ne in \<open>simp add: h5'\<close>)
  ultimately have "tree_at h5 t p m (Nd c lm m R)" using ne n by (simp add: h5')
  moreover have "ctx_at h5 t p n k"
    by (rule rot_out_ctx [OF O K]) (use dj rr n in \<open>auto simp: h5'\<close>)
  ultimately show "rb_tree (rb_set_child_of t p n m h5) t (plug (Nd c lm m R) k)"
    by (rule rb_tree_relink) (use D n B in \<open>auto simp: h5'\<close>)
  show "rb_frame t (nds (plug (Nd c (Nd cm lm m Tip) n R) k)) h (rb_set_child_of t p n m h5)"
    unfolding h5' using n rr ctx_at_parent [OF K]
    by (intro rb_frame_set_child rb_frame_set rb_frame_refl) auto
qed

section \<open>rb_delete\<close>

lemma pcol_rename: "pcol (k2 @ LF c n R # k) = pcol (k2 @ LF c m R # k)"
  by (cases k2 rule: pcol.cases) auto

lemma ctx_ok_rename: "ctx_ok (k2 @ LF c n R # k) b = ctx_ok (k2 @ LF c m R # k) b"
  by (induction k2 arbitrary: b rule: ctx_l.induct) (auto simp: pcol_rename [where n = n and m = m])

text \<open>The predecessor case, both shapes together.\<close>

lemma rb_del_swap_pred:
  assumes N: "tree_at h t p n (Nd c L n R)" and K: "ctx_at h t p n k"
    and D: "distinct (t # ino (plug (Nd c L n R) k))" and B: "RB_COLOR h t = RB_BLK"
    and L: "L \<noteq> Tip" and I: "rb_inv (plug (Nd c L n R) k)"
  shows "\<exists>m h' T'. rb_descend_right t h (left (h n)) = Some m \<and>
      rb_del_swap t n p m (left (h m)) h = Some (h', m) \<and> rb_tree h' t T' \<and> rb_inv T' \<and>
      ino L = ino (del_max L) @ [m] \<and> ino T' = ctx_l k @ ino L @ ino R @ ctx_r k \<and>
      rb_frame t (nds (plug (Nd c L n R) k)) h h'"
proof -
  let ?N = "nds (plug (Nd c L n R) k)"
  obtain cm lm m k' where M: "max_split L (LF c n R # k) = (cm, lm, m, k')"
    by (cases "max_split L (LF c n R # k)")
  obtain k2 where k2: "k' = k2 @ LF c n R # k" and
    M2: "max_split L (LF c m R # k) = (cm, lm, m, k2 @ LF c m R # k)"
    using max_split_suffix [OF L M] by blast
  let ?K = "k2 @ LF c m R # k"
  have Lt: "tree_at h t n (left (h n)) L" using N by simp
  note desc = rb_descend_right_max [OF Lt L M] and at = max_split_at [OF Lt L M]
  have sp: "plug L (LF c n R # k) = plug (Nd cm lm m Tip) k'" "ino L = ino (del_max L) @ [m]"
    and sp2: "plug (del_max L) (LF c m R # k) = plug lm ?K"
    using max_split_plug [OF L M] max_split_plug [OF L M2] by auto
  define h4 where "h4 = fst (rb_del_relink n p m (left (h m)) h)"
  define h6 where "h6 = rb_set_child_of t p n m (RB_SET_C m c h4)"
  have rel: "snd (rb_del_relink n p m (left (h m)) h) = ctx_parent t ?K" "RB_COLOR h4 n = c"
    "rb_tree h6 t (plug lm ?K)" "rb_frame t ?N h h6"
  proof -
    obtain c' l a r where Le: "L = Nd c' l a r" using L by (cases L) auto
    have "snd (rb_del_relink n p m (left (h m)) h) = ctx_parent t ?K \<and> RB_COLOR h4 n = c \<and>
      rb_tree h6 t (plug (Nd c (del_max L) m R) k) \<and> rb_frame t ?N h h6"
    proof (cases "r = Tip")
      case True
      with M Le k2 have e: "L = Nd cm lm m Tip" "k2 = []" "del_max L = lm" by auto
      from rb_del_relink_near [OF N [unfolded e] K D [unfolded e] B refl] e show ?thesis
        by (simp add: h4_def h6_def)
    next
      case False
      have Mr: "max_split r (RF c' l a # LF c n R # k) = (cm, lm, m, k')"
        using M Le False by (cases r) auto
      from max_split_suffix [OF False Mr] k2 have "k2 \<noteq> []" by auto
      then have "ctx_parent t ?K = ctx_parent t k'" unfolding k2 by (cases "(t, k2)" rule: ctx_parent.cases) auto
      also have "\<dots> = parent (h m)"
        by (rule max_split_ctx_parent [OF _ False Mr]) (use Lt Le in simp)
      finally show ?thesis
        using rb_del_relink_far [OF N K D B Le False M refl] by (simp add: h4_def h6_def)
    qed
    then show "snd (rb_del_relink n p m (left (h m)) h) = ctx_parent t ?K" "RB_COLOR h4 n = c"
      "rb_tree h6 t (plug lm ?K)" "rb_frame t ?N h h6"
      using sp2 by simp_all
  qed
  have "rb_inv (plug (Nd cm lm m Tip) k')" using I sp(1) by simp
  then have ok: "rb_ok (Nd cm lm m Tip)" "ctx_ok k' (bh (Nd cm lm m Tip))" by (simp_all only: rb_inv_plug)
  have ok': "ctx_ok ?K (bh (Nd cm lm m Tip))" using ok(2) unfolding k2 by (rule ctx_ok_rename [THEN iffD1])
  have c: "left (h m) = (case lm of Tip \<Rightarrow> t | Nd _ _ a _ \<Rightarrow> a)" using at by (cases lm) auto
  from rb_del_finish_refines [OF rel(3) _ ok(1) ok' c] obtain h' where
    h': "rb_del_finish t (left (h m)) (ctx_parent t ?K) cm h6 = Some h'"
      "rb_tree h' t (del_done cm lm ?K)" "rb_frame t (nds (plug lm ?K)) h6 h'" by auto
  have N: "nds (plug lm ?K) \<subseteq> ?N" unfolding sp2 [symmetric] using sp(2) by auto
  have col: "RB_COLOR h m = cm" using at by simp
  have "rb_del_swap t n p m (left (h m)) h = Some (h', m)"
    using h'(1) rel(1,2) col unfolding h6_def h4_def
    by (cases c) (simp_all add: rb_del_swap_def rb_del_adjust_eq RB_IS_BLACK_iff case_prod_beta Let_def)
  moreover have "rb_inv (del_done cm lm ?K)" by (rule rb_inv_del_done [OF ok(1) ok'])
  moreover have "ino (del_done cm lm ?K) = ctx_l k @ ino L @ ino R @ ctx_r k"
    unfolding ino_del_done sp2 [symmetric] sp(2) by simp
  ultimately show ?thesis
    using desc h'(2) sp(2) rb_frame_trans [OF rel(4) rb_frame_mono [OF h'(3) N]] by blast
qed

text \<open>Without a left child the right child of a node of a red-black tree is a red leaf.\<close>

lemma rb_ok_right_only:
  "rb_ok (Nd c Tip n R) \<Longrightarrow> R \<noteq> Tip \<Longrightarrow> \<exists>m. R = Nd RB_RED Tip m Tip \<and> c = RB_BLK"
proof (cases R)
  case (Nd cr l m r)
  assume "rb_ok (Nd c Tip n R)"
  with Nd have *: "cr = RB_RED" "c = RB_BLK" "bh l = 0" "bh r = 0" "col l = RB_BLK" "col r = RB_BLK"
    by (cases c; auto split: if_splits)+
  then have "l = Tip" "r = Tip" by (cases l; cases r; auto split: if_splits)+
  with Nd * show ?thesis by simp
qed simp

lemma rb_del_swap_succ:
  assumes N: "tree_at h t p n (Nd RB_BLK Tip n (Nd RB_RED Tip m Tip))" and K: "ctx_at h t p n k"
    and D: "distinct (t # ino (plug (Nd RB_BLK Tip n (Nd RB_RED Tip m Tip)) k))"
    and B: "RB_COLOR h t = RB_BLK"
  shows "rb_descend_left t h (right (h n)) = Some m"
    and "\<exists>h'. rb_del_swap t n p m (right (h m)) h = Some (h', m) \<and>
           rb_tree h' t (plug (Nd RB_BLK Tip m Tip) k) \<and>
           rb_frame t (nds (plug (Nd RB_BLK Tip n (Nd RB_RED Tip m Tip)) k)) h h'"
proof -
  have n: "n \<noteq> t" "m \<noteq> t" "m \<noteq> n" "RB_COLOR h n = RB_BLK" "RB_COLOR h m = RB_RED" "left (h n) = t"
    "right (h n) = m" "left (h m) = t" "right (h m) = t" "parent (h m) = n" using N D by auto
  then show "rb_descend_left t h (right (h n)) = Some m"
    by (subst rb_descend_left.simps) (simp add: Let_def)
  define h5 where "h5 = RB_SET_C m RB_BLK (RB_SET_P t m (RB_SET_L m t (RB_SET_P m p h)))"
  have "rb_del_swap t n p m (right (h m)) h = Some (rb_set_child_of t p n m h5, m)"
    using n by (simp add: rb_del_swap_def rb_del_relink_def rb_del_adjust_eq rb_del_finish_def
        RB_IS_BLACK_iff rb_set_defs Let_def h5_def)
  moreover have O: "rot_out h h5 {m, t}" by (rule rot_outI) (simp add: h5_def)
  have "tree_at h5 t p m (Nd RB_BLK Tip m Tip)" using n by (simp add: h5_def)
  then have "rb_tree (rb_set_child_of t p n m h5) t (plug (Nd RB_BLK Tip m Tip) k)"
    by (rule rb_tree_relink [OF _ rot_out_ctx [OF O K]]) (use D n B in \<open>auto simp: h5_def\<close>)
  moreover have "rb_frame t (nds (plug (Nd RB_BLK Tip n (Nd RB_RED Tip m Tip)) k)) h (rb_set_child_of t p n m h5)"
    unfolding h5_def using n ctx_at_parent [OF K]
    by (intro rb_frame_set_child rb_frame_set rb_frame_refl) auto
  ultimately show "\<exists>h'. rb_del_swap t n p m (right (h m)) h = Some (h', m) \<and>
      rb_tree h' t (plug (Nd RB_BLK Tip m Tip) k) \<and>
      rb_frame t (nds (plug (Nd RB_BLK Tip n (Nd RB_RED Tip m Tip)) k)) h h'" by blast
qed

text \<open>A leaf with a parent.\<close>

lemma rb_delete_leaf:
  assumes N: "tree_at h t p n (Nd c Tip n Tip)" and K: "ctx_at h t p n k" and k: "k \<noteq> []"
    and D: "distinct (t # ino (plug (Nd c Tip n Tip) k))" and B: "RB_COLOR h t = RB_BLK"
    and I: "rb_inv (plug (Nd c Tip n Tip) k)"
  shows "\<exists>h' T'. rb_delete t h n = Some (h', p) \<and> rb_tree h' t T' \<and> rb_inv T' \<and>
           ino T' = ctx_l k @ ctx_r k \<and> rb_frame t (nds (plug (Nd c Tip n Tip) k)) h h'"
proof -
  have n: "n \<noteq> t" "RB_COLOR h n = c" "left (h n) = t" "right (h n) = t" "parent (h n) = p" using N by auto
  have p: "p = ctx_parent t k" "p \<noteq> t" using ctx_at_ctx_parent [OF K] ctx_at_parent [OF K] k by auto
  let ?h = "rb_set_child_of t p n t h"
  have T: "rb_tree ?h t (plug Tip k)"
    by (rule rb_tree_relink [OF _ K]) (use D B n in auto)
  have ok: "rb_ok (Nd c Tip n Tip)" "ctx_ok k (bh (Nd c Tip n Tip))" using I by (simp_all add: rb_inv_plug)
  from rb_del_finish_refines [OF T k ok, of t] p(1) obtain h' where
    h': "rb_del_finish t t p c ?h = Some h'" "rb_tree h' t (del_done c Tip k)"
      "rb_frame t (nds (plug Tip k)) ?h h'" by auto
  have "rb_frame t (nds (plug (Nd c Tip n Tip) k)) h ?h"
    using ctx_at_parent [OF K] by (intro rb_frame_set_child rb_frame_refl) auto
  then have "rb_frame t (nds (plug (Nd c Tip n Tip) k)) h h'"
    by (rule rb_frame_trans) (rule rb_frame_mono [OF h'(3)], auto)
  moreover have "rb_delete t h n = Some (h', p)"
    using h'(1) n p by (simp add: rb_delete_def Let_def rb_del_adjust_eq)
  moreover have "rb_inv (del_done c Tip k)" by (rule rb_inv_del_done [OF ok])
  ultimately show ?thesis using h'(2) by (auto simp: ino_del_done)
qed

theorem rb_delete_refines:
  assumes T: "rb_tree h t T" and I: "rb_inv T" and n: "n \<in> nds T"
  obtains h' q T' xs ys where "rb_delete t h n = Some (h', q)" and "rb_tree h' t T'" and "rb_inv T'"
    and "ino T = xs @ n # ys" and "ino T' = xs @ ys" and "rb_frame t (nds T) h h'"
    and "left (h n) \<noteq> t \<Longrightarrow> xs \<noteq> [] \<and> q = last xs"
    and "left (h n) = t \<Longrightarrow> right (h n) \<noteq> t \<Longrightarrow> ys \<noteq> [] \<and> q = hd ys"
    and "left (h n) = t \<Longrightarrow> right (h n) = t \<Longrightarrow> q = parent (h n)"
proof -
  from node_in_tree [OF n] obtain c L R k where e: "T = plug (Nd c L n R) k" by blast
  from T obtain p where N: "tree_at h t p n (Nd c L n R)" and K: "ctx_at h t p n k"
    and D: "distinct (t # ino T)" and B: "RB_COLOR h t = RB_BLK"
    by (auto simp: rb_tree_def e zip_plug)
  have ok: "rb_ok (Nd c L n R)" "ctx_ok k (bh (Nd c L n R))" "c = RB_RED \<Longrightarrow> pcol k = RB_BLK \<and> k \<noteq> []"
    using I by (simp_all add: e rb_inv_plug)
  have p: "parent (h n) = p" and Lt: "tree_at h t n (left (h n)) L" and Rt: "tree_at h t n (right (h n)) R"
    using N by auto
  have ino: "ino T = (ctx_l k @ ino L) @ n # ino R @ ctx_r k" by (simp add: e)
  show thesis
  proof (cases "L = Tip")
    case False
    with Lt have l: "left (h n) \<noteq> t" by (auto dest: tree_at_null)
    from rb_del_swap_pred [OF N K D [unfolded e] B False I [unfolded e]] obtain m h' T' where
      "rb_descend_right t h (left (h n)) = Some m"
      "rb_del_swap t n p m (left (h m)) h = Some (h', m)" "rb_tree h' t T'" "rb_inv T'"
      and L: "ino L = ino (del_max L) @ [m]" and ino': "ino T' = ctx_l k @ ino L @ ino R @ ctx_r k"
      and "rb_frame t (nds T) h h'" unfolding e by blast
    with l show thesis
      by (intro that [of h' m T' "ctx_l k @ ino L" "ino R @ ctx_r k"])
        (simp_all add: rb_delete_def p Let_def ino)
  next
    case True
    then have l: "left (h n) = t" using Lt by simp
    show thesis
    proof (cases "R = Tip")
      case False
      then have r: "right (h n) \<noteq> t" using Rt by (auto dest: tree_at_null)
      from rb_ok_right_only [of c n R] ok(1) True False obtain m where
        R: "R = Nd RB_RED Tip m Tip" and c: "c = RB_BLK" by auto
      note succ = rb_del_swap_succ [OF N [unfolded True R c] K D [unfolded e True R c] B]
      from succ obtain h' where "rb_del_swap t n p m (right (h m)) h = Some (h', m)"
        "rb_tree h' t (plug (Nd RB_BLK Tip m Tip) k)" "rb_frame t (nds T) h h'"
        unfolding e True R c by blast
      moreover have "rb_inv (plug (Nd RB_BLK Tip m Tip) k)"
        using ok(2) by (simp add: rb_inv_plug True c)
      ultimately show thesis
        using succ(1) l r
        by (intro that [of h' m "plug (Nd RB_BLK Tip m Tip) k" "ctx_l k" "m # ctx_r k"])
          (simp_all add: rb_delete_def p Let_def ino True R)
    next
      case Tip: True
      then have r: "right (h n) = t" using Rt by simp
      show thesis
      proof (cases "k = []")
        case True
        with K have pt: "p = t" by simp
        have "rb_tree (RB_SET_ROOT t t h) t Tip" using B by (simp add: rb_tree_def rb_set_defs)
        moreover have "rb_frame t (nds T) h (RB_SET_ROOT t t h)"
          unfolding rb_set_defs by (intro rb_frame_set rb_frame_refl) simp
        ultimately show thesis using l r pt True \<open>L = Tip\<close> Tip
          by (intro that [of "RB_SET_ROOT t t h" t "Tip" "[]" "[]"])
            (simp_all add: rb_delete_def p Let_def ino rb_inv_def)
      next
        case False
        from rb_delete_leaf [OF N [unfolded \<open>L = Tip\<close> Tip] K False
            D [unfolded e \<open>L = Tip\<close> Tip] B I [unfolded e \<open>L = Tip\<close> Tip]]
        obtain h' T' where "rb_delete t h n = Some (h', p)" "rb_tree h' t T'" "rb_inv T'"
          "ino T' = ctx_l k @ ctx_r k" "rb_frame t (nds T) h h'" unfolding e \<open>L = Tip\<close> Tip by blast
        then show thesis using l r \<open>L = Tip\<close> Tip
          by (intro that [of h' p T' "ctx_l k" "ctx_r k"]) (simp_all add: p ino)
      qed
    qed
  qed
qed

section \<open>rb_replace\<close>

lemma rb_set_p_child_commute:
  "RB_SET_P a x (rb_set_child_of t p n m h) = rb_set_child_of t p n m (RB_SET_P a x h)"
  by (rule ext) (simp add: rb_set_child_of_def RB_SET_ROOT_def RB_SET_P_def RB_SET_L_def RB_SET_R_def)

theorem rb_replace_refines:
  assumes T: "rb_tree h t (plug (Nd c L n R) k)" and I: "rb_inv (plug (Nd c L n R) k)"
    and x: "x \<notin> nds (plug (Nd c L n R) k)" "x \<noteq> t"
  shows "rb_tree (rb_replace t h n x) t (plug (Nd c L x R) k)"
    and "rb_inv (plug (Nd c L x R) k)"
    and "rb_frame t (insert x (nds (plug (Nd c L n R) k))) h (rb_replace t h n x)"
proof -
  from T obtain p where N: "tree_at h t p n (Nd c L n R)" and K: "ctx_at h t p n k"
    and D: "distinct (t # ino (plug (Nd c L n R) k))" and B: "RB_COLOR h t = RB_BLK"
    by (auto simp: rb_tree_def zip_plug)
  let ?l = "left (h n)" and ?r = "right (h n)"
  have n: "n \<noteq> t" "RB_COLOR h n = c" "parent (h n) = p"
    and Lt: "tree_at h t n ?l L" and Rt: "tree_at h t n ?r R" using N by auto
  have xn: "x \<noteq> n" "x \<notin> nds L" "x \<notin> nds R" "x \<notin> ctx_nds k" using x by auto
  have dj: "nds L \<inter> nds R = {}" "n \<notin> nds L" "n \<notin> nds R" "t \<notin> nds L" "t \<notin> nds R"
    "ctx_nds k \<inter> (nds L \<union> nds R) = {}" "t \<notin> ctx_nds k" "n \<notin> ctx_nds k" using D by auto
  note r = rot_roots [OF Lt Rt, of "{n, x}"]
  have lr: "?l \<notin> {n, x}" "?r \<notin> {n, x}" "?l \<noteq> t \<Longrightarrow> ?l \<noteq> ?r" "?r \<noteq> t \<Longrightarrow> ?r \<noteq> ?l"
    "?l \<in> nds L \<or> ?l = t" "?r \<in> nds R \<or> ?r = t"
    using xn dj n x by (intro r; auto)+
  define h1 where "h1 = RB_SET_C x c (RB_SET_R x ?r (RB_SET_L x ?l (RB_SET_P x p h)))"
  have h2: "rb_replace t h n x = RB_SET_P ?r x (RB_SET_P ?l x (rb_set_child_of t p n x h1))"
    using n xn by (cases c) (simp_all add: rb_replace_def rb_set_child_of_def RB_IS_BLACK_iff
        rb_set_defs Let_def h1_def)
  define h2' where "h2' = RB_SET_P ?r x (RB_SET_P ?l x h1)"
  have comm: "RB_SET_P ?r x (RB_SET_P ?l x (rb_set_child_of t p n x h1)) = rb_set_child_of t p n x h2'"
    by (simp only: rb_set_p_child_commute h2'_def)
  have O: "rot_out h h2' {x, ?l, ?r, t}" by (rule rot_outI) (simp add: h2'_def h1_def)
  have "tree_at h2' t x ?l L"
  proof (rule rot_out_reparent [OF O Lt])
    show "nds L \<inter> {x, ?l, ?r, t} \<subseteq> {?l}" using lr(6) dj xn by auto
    show "distinct (ino L)" using D by simp
  qed (use lr in \<open>simp add: h2'_def h1_def\<close>)
  moreover have "tree_at h2' t x ?r R"
  proof (rule rot_out_reparent [OF O Rt])
    show "nds R \<inter> {x, ?l, ?r, t} \<subseteq> {?r}" using lr(5) dj xn by auto
    show "distinct (ino R)" using D by simp
  qed (use lr in \<open>simp add: h2'_def h1_def\<close>)
  ultimately have "tree_at h2' t p x (Nd c L x R)"
    using lr x by (auto simp: h2'_def h1_def)
  moreover have "ctx_at h2' t p n k"
    by (rule rot_out_ctx [OF O K]) (use dj xn lr x in \<open>auto simp: h2'_def h1_def\<close>)
  ultimately show "rb_tree (rb_replace t h n x) t (plug (Nd c L x R) k)"
    unfolding h2 comm by (rule rb_tree_relink) (use D n B x xn in \<open>auto simp: h2'_def h1_def\<close>)
  show "rb_inv (plug (Nd c L x R) k)" using I by (simp add: rb_inv_plug)
  show "rb_frame t (insert x (nds (plug (Nd c L n R) k))) h (rb_replace t h n x)"
    unfolding h2 comm h2'_def h1_def using lr(5,6) x ctx_at_parent [OF K]
    by (intro rb_frame_set_child rb_frame_set rb_frame_refl) auto
qed

end
