(* ===== verification/XF_Rbtree_Walk.thy ===== *)
theory XF_Rbtree_Walk
  imports XF_Rbtree_Remove
begin

text \<open>
  The navigation functions of rbtree.c on a well-formed tree: first and last give the ends of
  the in-order sequence, next and prev its neighbours, and the sentinel when there is none.
  The walk over the whole tree therefore visits the in-order sequence.
\<close>

definition hd_or :: "addr \<Rightarrow> addr list \<Rightarrow> addr" where
  "hd_or t xs = (case xs of [] \<Rightarrow> t | x # _ \<Rightarrow> x)"

lemma hd_or_simps [simp]: "hd_or t [] = t" "hd_or t (x # xs) = x"
  by (simp_all add: hd_or_def)

lemma hd_or_append: "hd_or t (xs @ ys) = (if xs = [] then hd_or t ys else hd_or t xs)"
  by (cases xs) auto

lemma ino_nil [simp]: "ino T = [] \<longleftrightarrow> T = Tip"
  by (cases T) auto

lemma rb_descend_left_hd:
  "tree_at h t p n T \<Longrightarrow> T \<noteq> Tip \<Longrightarrow> rb_descend_left t h n = Some (hd_or t (ino T))"
proof (induction T arbitrary: p n)
  case (Nd c l a r)
  then show ?case
    by (subst rb_descend_left.simps; cases "l = Tip") (auto simp: Let_def hd_or_append dest: tree_at_null)
qed simp

lemma rb_descend_right_last:
  "tree_at h t p n T \<Longrightarrow> T \<noteq> Tip \<Longrightarrow> rb_descend_right t h n = Some (hd_or t (rev (ino T)))"
proof (induction T arbitrary: p n)
  case (Nd c l a r)
  then show ?case
    by (subst rb_descend_right.simps; cases "r = Tip") (auto simp: Let_def hd_or_append dest: tree_at_null)
qed simp

theorem rb_first_hd: "rb_tree h t T \<Longrightarrow> rb_first t h = Some (hd_or t (ino T))"
  unfolding rb_tree_def rb_first_def RB_ROOT_def
  by (auto simp: Let_def dest: tree_at_null rb_descend_left_hd)

theorem rb_last_last: "rb_tree h t T \<Longrightarrow> rb_last t h = Some (hd_or t (rev (ino T)))"
  unfolding rb_tree_def rb_last_def RB_ROOT_def
  by (auto simp: Let_def dest: tree_at_null rb_descend_right_last)

lemma rb_ascend_right_ctx:
  "ctx_at h t p n k \<Longrightarrow> parent (h n) = p \<Longrightarrow> n \<noteq> t \<Longrightarrow> n \<notin> ctx_nds k \<Longrightarrow>
   distinct (t # ctx_l k @ ctx_r k) \<Longrightarrow> rb_ascend_right t h n = Some (hd_or t (ctx_r k))"
proof (induction k arbitrary: p n rule: ctx_r.induct)
  case 1
  then show ?case by (subst rb_ascend_right.simps) (simp add: Let_def)
next
  case (2 c a r k)
  then have "right (h a) \<noteq> n" by (auto dest: tree_at_root)
  with 2 show ?case by (subst rb_ascend_right.simps) (auto simp: Let_def)
next
  case (3 c l a k)
  have "rb_ascend_right t h a = Some (hd_or t (ctx_r k))"
    by (rule "3.IH" [of "parent (h a)"]) (use 3 in auto)
  with 3 show ?case by (subst rb_ascend_right.simps) (auto simp: Let_def)
qed

lemma rb_ascend_left_ctx:
  "ctx_at h t p n k \<Longrightarrow> parent (h n) = p \<Longrightarrow> n \<noteq> t \<Longrightarrow> n \<notin> ctx_nds k \<Longrightarrow>
   distinct (t # ctx_l k @ ctx_r k) \<Longrightarrow> rb_ascend_left t h n = Some (hd_or t (rev (ctx_l k)))"
proof (induction k arbitrary: p n rule: ctx_r.induct)
  case 1
  then show ?case by (subst rb_ascend_left.simps) (simp add: Let_def)
next
  case (2 c a r k)
  have "rb_ascend_left t h a = Some (hd_or t (rev (ctx_l k)))"
    by (rule "2.IH" [of "parent (h a)"]) (use 2 in auto)
  with 2 show ?case by (subst rb_ascend_left.simps) (auto simp: Let_def)
next
  case (3 c l a k)
  then have "left (h a) \<noteq> n" by (auto dest: tree_at_root)
  with 3 show ?case by (subst rb_ascend_left.simps) (auto simp: Let_def)
qed

theorem rb_next_succ:
  assumes T: "rb_tree h t T" and e: "ino T = xs @ n # ys"
  shows "rb_next t h n = Some (hd_or t ys)"
proof -
  from e have "n \<in> nds T" by simp
  from node_in_tree [OF this] obtain c L R k where p: "T = plug (Nd c L n R) k" by blast
  with T obtain q where N: "tree_at h t q n (Nd c L n R)" and K: "ctx_at h t q n k"
    and D: "distinct (t # ino T)" by (auto simp: rb_tree_def zip_plug)
  have "(ctx_l k @ ino L) @ n # ino R @ ctx_r k = xs @ n # ys" using e p by simp
  from distinct_split_unique [OF this] have ys: "ys = ino R @ ctx_r k" using D p by auto
  have "rb_ascend_right t h n = Some (hd_or t (ctx_r k))"
    by (rule rb_ascend_right_ctx [OF K]) (use N D p in auto)
  with N ys show ?thesis
    by (cases "R = Tip") (auto simp: rb_next_def Let_def hd_or_append rb_descend_left_hd dest: tree_at_null)
qed

theorem rb_prev_pred:
  assumes T: "rb_tree h t T" and e: "ino T = xs @ n # ys"
  shows "rb_prev t h n = Some (hd_or t (rev xs))"
proof -
  from e have "n \<in> nds T" by simp
  from node_in_tree [OF this] obtain c L R k where p: "T = plug (Nd c L n R) k" by blast
  with T obtain q where N: "tree_at h t q n (Nd c L n R)" and K: "ctx_at h t q n k"
    and D: "distinct (t # ino T)" by (auto simp: rb_tree_def zip_plug)
  have "(ctx_l k @ ino L) @ n # ino R @ ctx_r k = xs @ n # ys" using e p by simp
  from distinct_split_unique [OF this] have xs: "xs = ctx_l k @ ino L" using D p by auto
  have "rb_ascend_left t h n = Some (hd_or t (rev (ctx_l k)))"
    by (rule rb_ascend_left_ctx [OF K]) (use N D p in auto)
  with N xs show ?thesis
    by (cases "L = Tip") (auto simp: rb_prev_def Let_def hd_or_append rb_descend_right_last dest: tree_at_null)
qed

lemma rb_init_tree: "rb_tree (rb_init t h) t Tip"
  by (simp add: rb_tree_def rb_init_def rb_set_defs)

end
