(* ===== verification/XF_Index.thy ===== *)
theory XF_Index
  imports XF_Rbtree_Walk
begin

text \<open>
  The contract of the red-black tree library as its clients see it: a tree is a sequence of
  distinct nodes, insertion at a place found by a downward search puts the node between the
  elements the search separates, deletion removes it and returns a neighbour. The locale
  \<open>node_index\<close> is that interface; the interpretation at the end discharges it with the
  pointer code of XF_Rbtree. The scheduler and the memory allocator are its clients.
\<close>

section \<open>The payload in the colour word\<close>

lemma and_not_1_split: "((w :: u32) AND NOT 1) + (w AND 1) = w"
proof -
  have "(w AND NOT 1) AND (w AND 1) = 0" by (rule bit_word_eqI) (auto simp: bit_simps)
  then have "(w AND NOT 1) + (w AND 1) = (w AND NOT 1) OR (w AND 1)"
    by (rule disjunctive_add_eq_or)
  also have "\<dots> = w" by (rule bit_word_eqI) (auto simp: bit_simps)
  finally show ?thesis .
qed

lemma even_uint_iff: "even (uint (w :: u32)) \<longleftrightarrow> w AND 1 = 0"
  unfolding and_1_eq_0_iff bit_0 by transfer (simp add: even_take_bit_eq)

lemma and_1_cases: "(w :: u32) AND 1 = 0 \<or> w AND 1 = 1"
  by (simp add: and_one_eq) (metis even_iff_mod_2_eq_zero odd_iff_mod_2_eq_one)

lemma even_minus_word: "(a :: u32) AND 1 = 0 \<Longrightarrow> b AND 1 = 0 \<Longrightarrow> (a - b) AND 1 = 0"
  unfolding even_uint_iff [symmetric] uint_word_ariths by (intro dvd_mod dvd_diff) simp_all

lemma color_even_data: "color (h a) AND NOT 1 = push_bit 1 (rb_node_data h a)"
  unfolding rb_node_data_def
proof (rule bit_word_eqI)
  fix n assume n: "n < LENGTH(32)"
  have "bit (push_bit 1 (drop_bit 1 (color (h a)))) n \<longleftrightarrow> 1 \<le> n \<and> bit (color (h a)) (1 + (n - 1))"
    using n by (simp only: bit_push_bit_iff bit_drop_bit_eq o_def) auto
  then show "bit (color (h a) AND NOT 1) n \<longleftrightarrow> bit (push_bit 1 (drop_bit 1 (color (h a)))) n"
    using n by (cases "n = 0") (simp_all only: bit_and_iff bit_not_iff bit_1_iff, auto)
qed

section \<open>The downward search of the clients\<close>

text \<open>
  The loop of \<open>xf_sched_put\<close>, \<open>xf_mm_insert_size\<close> and \<open>xf_mm_insert_addr\<close>: from node \<open>p\<close> go
  left when the predicate holds of the node and right otherwise; stop at the first null link
  and return the node that holds it and its side (True: left).
\<close>

partial_function (option) rb_find_slot ::
  "(addr \<Rightarrow> bool) \<Rightarrow> addr \<Rightarrow> rb_heap \<Rightarrow> addr \<Rightarrow> (addr \<times> bool) option" where
  "rb_find_slot P t h p =
     (if P p then (let c = left (h p) in if c = t then Some (p, True) else rb_find_slot P t h c)
      else (let c = right (h p) in if c = t then Some (p, False) else rb_find_slot P t h c))"

definition rb_set_link :: "addr \<Rightarrow> bool \<Rightarrow> addr \<Rightarrow> rb_heap \<Rightarrow> rb_heap" where
  "rb_set_link p l n h = (if l then RB_SET_L p n h else RB_SET_R p n h)"

definition rb_put :: "(addr \<Rightarrow> bool) \<Rightarrow> addr \<Rightarrow> rb_heap \<Rightarrow> addr \<Rightarrow> rb_heap option" where
  "rb_put P t h n =
     (if RB_ROOT t h = t then rb_insert t h n t
      else case rb_find_slot P t h (RB_ROOT t h) of
          None \<Rightarrow> None
        | Some (p, l) \<Rightarrow> rb_insert t (rb_set_link p l n h) n p)"

section \<open>The sequence a tree stands for\<close>

definition rb_index :: "rb_heap \<Rightarrow> addr \<Rightarrow> addr list \<Rightarrow> bool" where
  "rb_index h t xs \<longleftrightarrow> (\<exists>T. rb_tree h t T \<and> rb_inv T \<and> ino T = xs)"

lemma rb_index_distinct: "rb_index h t xs \<Longrightarrow> distinct (t # xs)"
  by (auto simp: rb_index_def rb_tree_def)

lemma rb_index_det: "rb_index h t xs \<Longrightarrow> rb_index h t ys \<Longrightarrow> xs = ys"
  by (auto simp: rb_index_def dest: rb_tree_det)

lemma rb_index_root: "rb_index h t xs \<Longrightarrow> RB_ROOT t h = t \<longleftrightarrow> xs = []"
  by (auto simp: rb_index_def rb_tree_def RB_ROOT_def dest: tree_at_null)

lemma rb_index_init: "rb_index (rb_init t h) t []"
  unfolding rb_index_def by (rule exI [of _ Tip]) (simp add: rb_init_tree rb_inv_def)

lemma rb_index_cong:
  assumes "rb_index h t xs" and "\<And>a. a \<in> set xs \<Longrightarrow> same_links h h' a"
    and "left (h' t) = left (h t)" and "RB_COLOR h' t = RB_COLOR h t"
  shows "rb_index h' t xs"
proof -
  from assms(1) obtain T where T: "rb_tree h t T" "rb_inv T" "ino T = xs" by (auto simp: rb_index_def)
  have "tree_at h' t t (left (h t)) T"
    by (rule tree_at_cong [where h = h]) (use T assms(2) in \<open>auto simp: rb_tree_def\<close>)
  with T assms(3,4) show ?thesis by (auto simp: rb_index_def rb_tree_def intro!: exI [of _ T])
qed

corollary rb_index_out:
  "rb_index h t xs \<Longrightarrow> (\<And>a. a \<in> set xs \<or> a = t \<Longrightarrow> h' a = h a) \<Longrightarrow> rb_index h' t xs"
  by (erule rb_index_cong) (simp_all add: same_links_eq RB_COLOR_def)

section \<open>Insertion\<close>

fun rb_slot :: "(addr \<Rightarrow> bool) \<Rightarrow> rbt \<Rightarrow> ctx \<Rightarrow> ctx" where
  "rb_slot P Tip k = k"
| "rb_slot P (Nd c l a r) k =
     (if P a then rb_slot P l (LF c a r # k) else rb_slot P r (RF c l a # k))"

lemma rb_slot_plug: "plug Tip (rb_slot P T k) = plug T k"
  by (induction T arbitrary: k) auto

lemma append_split_right:
  "xs @ a # ys = as @ bs \<Longrightarrow> a \<notin> set as \<Longrightarrow> \<exists>us. xs = as @ us \<and> bs = us @ a # ys"
proof (induction as arbitrary: xs)
  case (Cons x as)
  then show ?case by (cases xs) auto
qed simp

lemma append_split_left:
  "xs @ a # ys = as @ bs \<Longrightarrow> a \<notin> set bs \<Longrightarrow> \<exists>us. as = xs @ a # us \<and> ys = us @ bs"
proof (induction xs arbitrary: as)
  case Nil
  then show ?case by (cases as) auto
next
  case (Cons x xs)
  then show ?case by (cases as) auto
qed

lemma rb_slot_split:
  assumes "ino T = as @ bs" and "\<forall>a\<in>set as. \<not> P a" and "\<forall>b\<in>set bs. P b"
  shows "ctx_l (rb_slot P T k) = ctx_l k @ as \<and> ctx_r (rb_slot P T k) = bs @ ctx_r k"
  using assms
proof (induction T arbitrary: as bs k)
  case (Nd c l a r)
  show ?case
  proof (cases "P a")
    case True
    then have "a \<notin> set as" using Nd.prems(2) by blast
    then obtain us where "ino l = as @ us" "bs = us @ a # ino r"
      using append_split_right [of "ino l" a "ino r"] Nd.prems(1) by auto
    with True Nd.IH(1) [of as us "LF c a r # k"] Nd.prems(2,3) show ?thesis by simp
  next
    case False
    then have "a \<notin> set bs" using Nd.prems(3) by blast
    then obtain us where "as = ino l @ a # us" "ino r = us @ bs"
      using append_split_left [of "ino l" a "ino r"] Nd.prems(1) by auto
    with False Nd.IH(2) [of us bs "RF c l a # k"] Nd.prems(2,3) show ?thesis by simp
  qed
qed simp

fun hole_left :: "ctx \<Rightarrow> bool" where
  "hole_left (LF c a r # k) = True"
| "hole_left _ = False"

lemma rb_find_slot_at:
  "tree_at h t p n T \<Longrightarrow> T \<noteq> Tip \<Longrightarrow>
   rb_find_slot P t h n = Some (ctx_parent t (rb_slot P T k), hole_left (rb_slot P T k))"
proof (induction T arbitrary: p n k)
  case (Nd c l a r)
  show ?case
  proof (cases "P a")
    case True
    with Nd show ?thesis
      by (subst rb_find_slot.simps; cases "l = Tip") (auto simp: Let_def dest: tree_at_null)
  next
    case False
    with Nd show ?thesis
      by (subst rb_find_slot.simps; cases "r = Tip") (auto simp: Let_def dest: tree_at_null)
  qed
qed simp

lemma ctx_at_set_link:
  assumes "ctx_at h t p m k" and "k \<noteq> []" and "distinct (t # ctx_l k @ ctx_r k)"
  shows "ctx_at (rb_set_link p (hole_left k) n h) t p n k"
proof (cases k)
  case (Cons f k')
  have O: "rot_out h (rb_set_link p (hole_left k) n h) {p}"
    by (rule rot_outI) (simp add: rb_set_link_def)
  show ?thesis
  proof (cases f)
    case (LF c a r)
    with assms Cons have *: "p = a" "tree_at h t a (right (h a)) r" "ctx_at h t (parent (h a)) a k'" by auto
    have "tree_at (rb_set_link p (hole_left k) n h) t a (right (h a)) r"
      by (rule rot_out_tree [OF O *(2)]) (use assms Cons LF * in auto)
    moreover have "ctx_at (rb_set_link p (hole_left k) n h) t (parent (h a)) a k'"
      by (rule rot_out_ctx [OF O *(3)]) (use assms Cons LF * in \<open>auto simp: rb_set_link_def\<close>)
    ultimately show ?thesis using assms Cons LF by (auto simp: rb_set_link_def)
  next
    case (RF c l a)
    with assms Cons have *: "p = a" "tree_at h t a (left (h a)) l" "ctx_at h t (parent (h a)) a k'" by auto
    have "tree_at (rb_set_link p (hole_left k) n h) t a (left (h a)) l"
      by (rule rot_out_tree [OF O *(2)]) (use assms Cons RF * in auto)
    moreover have "ctx_at (rb_set_link p (hole_left k) n h) t (parent (h a)) a k'"
      by (rule rot_out_ctx [OF O *(3)]) (use assms Cons RF * in \<open>auto simp: rb_set_link_def\<close>)
    ultimately show ?thesis using assms Cons RF by (auto simp: rb_set_link_def)
  qed
qed (use assms in simp)

lemma hole_neighbour:
  "k \<noteq> [] \<Longrightarrow> if hole_left k then ctx_r k \<noteq> [] \<and> ctx_parent t k = hd (ctx_r k)
     else ctx_l k \<noteq> [] \<and> ctx_parent t k = last (ctx_l k)"
  by (cases k rule: hole_left.cases) auto

theorem rb_index_insert:
  assumes I: "rb_index h t (as @ bs)" and ne: "as @ bs \<noteq> []"
    and P: "\<forall>a\<in>set as. \<not> P a" "\<forall>b\<in>set bs. P b" and n: "n \<notin> set (as @ bs)" "n \<noteq> t"
  obtains p l h' where "rb_find_slot P t h (RB_ROOT t h) = Some (p, l)" and "p \<in> set (as @ bs)"
    and "if l then bs \<noteq> [] \<and> p = hd bs else as \<noteq> [] \<and> p = last as"
    and "rb_insert t (rb_set_link p l n h) n p = Some h'"
    and "rb_index h' t (as @ n # bs)" and "rb_frame t (insert n (set (as @ bs))) h h'"
proof -
  from I obtain T where T: "rb_tree h t T" "rb_inv T" "ino T = as @ bs" by (auto simp: rb_index_def)
  then have "T \<noteq> Tip" using ne by auto
  define k where "k = rb_slot P T []"
  have k: "ctx_l k = as" "ctx_r k = bs" using rb_slot_split [OF T(3) P, of "[]"] by (simp_all add: k_def)
  have kn: "k \<noteq> []" using k ne by auto
  have pl: "plug Tip k = T" by (simp add: k_def rb_slot_plug)
  let ?p = "ctx_parent t k" and ?l = "hole_left k"
  let ?h = "rb_set_link ?p ?l n h"
  have fs: "rb_find_slot P t h (RB_ROOT t h) = Some (?p, ?l)"
    unfolding k_def RB_ROOT_def using T(1) \<open>T \<noteq> Tip\<close> by (intro rb_find_slot_at) (auto simp: rb_tree_def)
  have D: "distinct (t # as @ bs)" and B: "RB_COLOR h t = RB_BLK"
    using T(1,3) by (simp_all add: rb_tree_def)
  from T(1) have "tree_at h t t (left (h t)) (plug Tip k)" by (simp add: rb_tree_def pl)
  then obtain q m where K: "ctx_at h t q m k" unfolding zip_plug by blast
  have q: "q = ?p" by (rule ctx_at_ctx_parent [OF K])
  have pm: "?p \<in> set (as @ bs)" using ctx_parent_in [OF kn, of t] k by auto
  have "ctx_at ?h t ?p n k" using ctx_at_set_link [OF K kn] D k q by auto
  moreover have "RB_COLOR ?h t = RB_BLK" using B by (simp add: rb_set_link_def)
  ultimately obtain h' where h': "rb_insert t ?h n ?p = Some h'"
    "rb_tree h' t (ins_fix (Nd RB_RED Tip n Tip) k)" "rb_inv (ins_fix (Nd RB_RED Tip n Tip) k)"
    "rb_frame t (insert n (ctx_nds k)) ?h h'"
    using rb_insert_refines [of k ?h t ?p n] D k n kn T(2) pl by auto
  have "?p \<noteq> t" using pm D by auto
  then have "rb_frame t (insert n (set (as @ bs))) h ?h"
    unfolding rb_set_link_def using pm by (simp add: rb_frame_set)
  then have "rb_frame t (insert n (set (as @ bs))) h h'"
    by (rule rb_frame_trans) (use h'(4) k in simp)
  moreover have "rb_index h' t (as @ n # bs)"
    unfolding rb_index_def using h'(2,3) k by (auto simp: ino_ins_fix)
  moreover have "if ?l then bs \<noteq> [] \<and> ?p = hd bs else as \<noteq> [] \<and> ?p = last as"
    using hole_neighbour [OF kn, of t] unfolding k .
  ultimately show thesis using fs pm h'(1) by (intro that)
qed

lemma rb_index_insert_empty:
  assumes I: "rb_index h t []" and n: "n \<noteq> t"
  obtains h' where "rb_insert t h n t = Some h'" and "rb_index h' t [n]" and "rb_frame t {n} h h'"
proof -
  from I have "RB_COLOR h t = RB_BLK" by (auto simp: rb_index_def rb_tree_def)
  with n obtain h' where h': "rb_insert t h n t = Some h'" "rb_tree h' t (ins_fix (Nd RB_RED Tip n Tip) [])"
    "rb_frame t {n} h h'"
    using rb_insert_refines [of "[]" h t t n] by (auto simp: rb_inv_def)
  moreover have "rb_inv (ins_fix (Nd RB_RED Tip n Tip) [])" by (simp add: rb_inv_def)
  ultimately show thesis
    by (intro that) (auto simp: rb_index_def intro!: exI [of _ "ins_fix (Nd RB_RED Tip n Tip) []"])
qed

theorem rb_put_index:
  assumes I: "rb_index h t (as @ bs)"
    and P: "\<forall>a\<in>set as. \<not> P a" "\<forall>b\<in>set bs. P b" and n: "n \<notin> set (as @ bs)" "n \<noteq> t"
  shows "\<exists>h'. rb_put P t h n = Some h' \<and> rb_index h' t (as @ n # bs) \<and>
           rb_frame t (insert n (set (as @ bs))) h h'"
proof (cases "as @ bs = []")
  case True
  with I n obtain h' where "rb_insert t h n t = Some h'" "rb_index h' t [n]" "rb_frame t {n} h h'"
    by (auto elim: rb_index_insert_empty)
  with True rb_index_root [OF I] show ?thesis by (auto simp: rb_put_def)
next
  case False
  obtain p l h' where "rb_find_slot P t h (RB_ROOT t h) = Some (p, l)"
    "rb_insert t (rb_set_link p l n h) n p = Some h'" "rb_index h' t (as @ n # bs)"
    "rb_frame t (insert n (set (as @ bs))) h h'"
    by (rule rb_index_insert [OF I False P n])
  with False rb_index_root [OF I] show ?thesis by (auto simp: rb_put_def)
qed

section \<open>Deletion and replacement\<close>

lemma rb_leaf_parent:
  assumes "rb_tree h t T" and "ino T = n # ys" and "left (h n) = t" and "right (h n) = t"
  shows "parent (h n) = hd_or t ys"
proof -
  from assms(2) have "n \<in> nds T" by simp
  from node_in_tree [OF this] obtain c L R k where p: "T = plug (Nd c L n R) k" by blast
  with assms(1) obtain q where N: "tree_at h t q n (Nd c L n R)" and K: "ctx_at h t q n k"
    and D: "distinct (t # ino T)" by (auto simp: rb_tree_def zip_plug)
  then have "L = Tip" "R = Tip" "parent (h n) = q" using assms(3,4) by (auto dest: tree_at_null)
  moreover have "(ctx_l k @ ino L) @ n # ino R @ ctx_r k = [] @ n # ys" using assms(2) p by simp
  from distinct_split_unique [OF this] have "ctx_l k = []" "ys = ctx_r k" using D p \<open>L = Tip\<close> \<open>R = Tip\<close> by auto
  moreover have "q = hd_or t (ctx_r k)"
    using K \<open>ctx_l k = []\<close> by (cases k rule: ctx_r.cases) auto
  ultimately show ?thesis by simp
qed

text \<open>The parent of a leaf that is not alone is its predecessor or its successor.\<close>

lemma rb_leaf_neighbour:
  assumes "rb_tree h t T" and "ino T = as @ n # bs" and "left (h n) = t" and "right (h n) = t"
  shows "as = [] \<and> bs = [] \<and> parent (h n) = t \<or> as \<noteq> [] \<and> parent (h n) = last as \<or> bs \<noteq> [] \<and> parent (h n) = hd bs"
proof -
  from assms(2) have "n \<in> nds T" by simp
  from node_in_tree [OF this] obtain c L R k where p: "T = plug (Nd c L n R) k" by blast
  with assms(1) obtain q where N: "tree_at h t q n (Nd c L n R)" and K: "ctx_at h t q n k"
    and D: "distinct (t # ino T)" by (auto simp: rb_tree_def zip_plug)
  then have LR: "L = Tip" "R = Tip" and q: "parent (h n) = q" using assms(3,4) by (auto dest: tree_at_null)
  have "(ctx_l k @ ino L) @ n # ino R @ ctx_r k = as @ n # bs" using assms(2) p by simp
  from distinct_split_unique [OF this] have "as = ctx_l k" "bs = ctx_r k" using D p LR by auto
  then show ?thesis using K q by (cases k rule: ctx_r.cases) auto
qed

theorem rb_index_delete:
  assumes I: "rb_index h t (as @ n # bs)"
  obtains h' q where "rb_delete t h n = Some (h', q)" and "rb_index h' t (as @ bs)"
    and "rb_frame t (set (as @ n # bs)) h h'" and "as = [] \<Longrightarrow> q = hd_or t bs"
    and "q \<in> insert t (set (as @ bs))"
    and "if left (h n) \<noteq> t then as \<noteq> [] \<and> q = last as
         else if right (h n) \<noteq> t then bs \<noteq> [] \<and> q = hd bs
         else q = parent (h n) \<and> (as = [] \<and> bs = [] \<and> q = t \<or> as \<noteq> [] \<and> q = last as \<or> bs \<noteq> [] \<and> q = hd bs)"
proof -
  from I obtain T where T: "rb_tree h t T" "rb_inv T" "ino T = as @ n # bs" by (auto simp: rb_index_def)
  then have n: "n \<in> nds T" by simp
  from rb_delete_refines [OF T(1,2) n] obtain h' q T' xs ys where
    d: "rb_delete t h n = Some (h', q)" "rb_tree h' t T'" "rb_inv T'" "ino T = xs @ n # ys"
      "ino T' = xs @ ys" "rb_frame t (nds T) h h'"
    and q: "left (h n) \<noteq> t \<Longrightarrow> xs \<noteq> [] \<and> q = last xs"
      "left (h n) = t \<Longrightarrow> right (h n) \<noteq> t \<Longrightarrow> ys \<noteq> [] \<and> q = hd ys"
      "left (h n) = t \<Longrightarrow> right (h n) = t \<Longrightarrow> q = parent (h n)" by metis
  have D: "distinct (t # ino T)" using T(1) by (simp add: rb_tree_def)
  from d(4) T(3) have "xs @ n # ys = as @ n # bs" by simp
  from distinct_split_unique [OF this] D d(4) have e: "xs = as" "ys = bs" by auto
  have hd: "q = hd_or t bs" if "as = []"
  proof (cases "right (h n) = t")
    case True
    have "left (h n) = t" using q(1) e that by auto
    with True q(3) rb_leaf_parent [OF T(1), of n bs] T(3) that show ?thesis by simp
  next
    case False
    have "left (h n) = t" using q(1) e that by auto
    with False q(2) e show ?thesis by (cases bs) auto
  qed
  have "parent (h n) \<in> insert t (nds T) \<and> parent (h n) \<noteq> n"
  proof -
    from node_in_tree [OF n] obtain c L R k where p: "T = plug (Nd c L n R) k" by blast
    with T(1) obtain p where "tree_at h t p n (Nd c L n R)" "ctx_at h t p n k"
      by (auto simp: rb_tree_def zip_plug)
    with p D show ?thesis using ctx_at_parent [of h t p n k] by auto
  qed
  then have "q \<in> insert t (set (as @ bs))"
    using q e T(3) by (cases "left (h n) = t"; cases "right (h n) = t") auto
  moreover have "if left (h n) \<noteq> t then as \<noteq> [] \<and> q = last as
      else if right (h n) \<noteq> t then bs \<noteq> [] \<and> q = hd bs
      else q = parent (h n) \<and> (as = [] \<and> bs = [] \<and> q = t \<or> as \<noteq> [] \<and> q = last as \<or> bs \<noteq> [] \<and> q = hd bs)"
    using q e rb_leaf_neighbour [OF T(1,3)] by auto
  ultimately show thesis using d e hd by (intro that) (auto simp: rb_index_def T(3))
qed

theorem rb_index_replace:
  assumes I: "rb_index h t (as @ n # bs)" and x: "x \<notin> set (as @ n # bs)" "x \<noteq> t"
  shows "rb_index (rb_replace t h n x) t (as @ x # bs)"
    and "rb_frame t (insert x (set (as @ n # bs))) h (rb_replace t h n x)"
proof -
  from I obtain T where T: "rb_tree h t T" "rb_inv T" "ino T = as @ n # bs" by (auto simp: rb_index_def)
  then have "n \<in> nds T" by simp
  from node_in_tree [OF this] obtain c L R k where p: "T = plug (Nd c L n R) k" by blast
  have D: "distinct (t # ino T)" using T(1) by (simp add: rb_tree_def)
  have "(ctx_l k @ ino L) @ n # ino R @ ctx_r k = as @ n # bs" using T(3) p by simp
  from distinct_split_unique [OF this] have e: "as = ctx_l k @ ino L" "bs = ino R @ ctx_r k" using D p by auto
  note rep = rb_replace_refines [OF T(1) [unfolded p] T(2) [unfolded p], of x]
  have nx: "x \<notin> nds (plug (Nd c L n R) k)" using x T(3) p by auto
  from rep(1,2) [OF nx x(2)] show "rb_index (rb_replace t h n x) t (as @ x # bs)"
    unfolding rb_index_def by (intro exI [of _ "plug (Nd c L x R) k"]) (simp add: e)
  have "nds T = set (as @ n # bs)" using T(3) by simp
  then show "rb_frame t (insert x (set (as @ n # bs))) h (rb_replace t h n x)"
    using rep(3) [OF nx x(2)] by (simp only: p)
qed

section \<open>The interface\<close>

lemma sorted_split_less:
  "sorted (map key xs) \<Longrightarrow> \<exists>as bs. xs = as @ bs \<and>
     (\<forall>a\<in>set as. key a \<le> (k :: 'k::linorder)) \<and> (\<forall>b\<in>set bs. k < key b)"
proof (induction xs)
  case (Cons x xs)
  then obtain as bs where *: "xs = as @ bs" "\<forall>a\<in>set as. key a \<le> k" "\<forall>b\<in>set bs. k < key b" by auto
  show ?case
  proof (cases "key x \<le> k")
    case True
    with * show ?thesis by (intro exI [of _ "x # as"] exI [of _ bs]) auto
  next
    case False
    with Cons.prems show ?thesis by (intro exI [of _ "[]"] exI [of _ "x # xs"]) fastforce
  qed
qed simp

lemma sorted_split_le:
  "sorted (map key xs) \<Longrightarrow> \<exists>as bs. xs = as @ bs \<and>
     (\<forall>a\<in>set as. key a < (k :: 'k::linorder)) \<and> (\<forall>b\<in>set bs. k \<le> key b)"
proof (induction xs)
  case (Cons x xs)
  then obtain as bs where *: "xs = as @ bs" "\<forall>a\<in>set as. key a < k" "\<forall>b\<in>set bs. k \<le> key b" by auto
  show ?case
  proof (cases "key x < k")
    case True
    with * show ?thesis by (intro exI [of _ "x # as"] exI [of _ bs]) auto
  next
    case False
    with Cons.prems show ?thesis by (intro exI [of _ "[]"] exI [of _ "x # xs"]) fastforce
  qed
qed simp

locale node_index =
  fixes idx :: "'h \<Rightarrow> addr \<Rightarrow> addr list \<Rightarrow> bool"
    and put :: "(addr \<Rightarrow> bool) \<Rightarrow> addr \<Rightarrow> 'h \<Rightarrow> addr \<Rightarrow> 'h option"
    and del :: "addr \<Rightarrow> 'h \<Rightarrow> addr \<Rightarrow> ('h \<times> addr) option"
    and frm :: "addr \<Rightarrow> addr set \<Rightarrow> 'h \<Rightarrow> 'h \<Rightarrow> bool"
  assumes put_idx: "idx h t (as @ bs) \<Longrightarrow> \<forall>a\<in>set as. \<not> P a \<Longrightarrow> \<forall>b\<in>set bs. P b \<Longrightarrow>
      n \<notin> set (as @ bs) \<Longrightarrow> n \<noteq> t \<Longrightarrow>
      \<exists>h'. put P t h n = Some h' \<and> idx h' t (as @ n # bs) \<and> frm t (insert n (set (as @ bs))) h h'"
    and del_idx: "idx h t (as @ n # bs) \<Longrightarrow>
      \<exists>h' q. del t h n = Some (h', q) \<and> idx h' t (as @ bs) \<and> frm t (set (as @ n # bs)) h h' \<and>
             (as = [] \<longrightarrow> q = hd_or t bs)"
    and frm_refl: "frm t S h h"
    and frm_trans: "frm t S h h' \<Longrightarrow> frm t S h' h'' \<Longrightarrow> frm t S h h''"
    and frm_mono: "frm t S h h' \<Longrightarrow> S \<subseteq> S' \<Longrightarrow> frm t S' h h'"
begin

text \<open>
  A client that orders its nodes by a key and searches with "the key of the new node is
  smaller" keeps the sequence sorted, and puts the node behind its equals (or, searching with
  "not larger", before them).
\<close>

lemma put_sorted:
  assumes I: "idx h t xs" and "sorted (map key xs)" and n: "n \<notin> set xs" "n \<noteq> t"
    and P: "\<forall>a\<in>set xs. P a \<longleftrightarrow> (key n :: 'k::linorder) < key a"
  shows "\<exists>h' as bs. xs = as @ bs \<and> put P t h n = Some h' \<and> idx h' t (as @ n # bs) \<and>
           sorted (map key (as @ n # bs)) \<and> frm t (insert n (set xs)) h h' \<and>
           (\<forall>a\<in>set as. key a \<le> key n) \<and> (\<forall>b\<in>set bs. key n < key b)"
proof -
  from sorted_split_less [OF assms(2), of "key n"] obtain as bs where xs: "xs = as @ bs"
    and K: "\<forall>a\<in>set as. key a \<le> key n" "\<forall>b\<in>set bs. key n < key b" by blast
  have "\<forall>a\<in>set as. \<not> P a" "\<forall>b\<in>set bs. P b" using K P xs by fastforce+
  from put_idx [OF I [unfolded xs] this] n xs obtain h' where "put P t h n = Some h'"
    "idx h' t (as @ n # bs)" "frm t (insert n (set xs)) h h'" by auto
  moreover have "sorted (map key (as @ n # bs))"
    using assms(2) K unfolding xs by (auto simp: sorted_append less_imp_le)
  ultimately show ?thesis using xs K by blast
qed

lemma put_sorted_before:
  assumes I: "idx h t xs" and "sorted (map key xs)" and n: "n \<notin> set xs" "n \<noteq> t"
    and P: "\<forall>a\<in>set xs. P a \<longleftrightarrow> (key n :: 'k::linorder) \<le> key a"
  shows "\<exists>h' as bs. xs = as @ bs \<and> put P t h n = Some h' \<and> idx h' t (as @ n # bs) \<and>
           sorted (map key (as @ n # bs)) \<and> frm t (insert n (set xs)) h h' \<and>
           (\<forall>a\<in>set as. key a < key n) \<and> (\<forall>b\<in>set bs. key n \<le> key b)"
proof -
  from sorted_split_le [OF assms(2), of "key n"] obtain as bs where xs: "xs = as @ bs"
    and K: "\<forall>a\<in>set as. key a < key n" "\<forall>b\<in>set bs. key n \<le> key b" by blast
  have "\<forall>a\<in>set as. \<not> P a" "\<forall>b\<in>set bs. P b" using K P xs by fastforce+
  from put_idx [OF I [unfolded xs] this] n xs obtain h' where "put P t h n = Some h'"
    "idx h' t (as @ n # bs)" "frm t (insert n (set xs)) h h'" by auto
  moreover have "sorted (map key (as @ n # bs))"
    using assms(2) K unfolding xs by (auto simp: sorted_append less_imp_le)
  ultimately show ?thesis using xs K by blast
qed

text \<open>Removing the head: what is left is the tail, and the returned node is the new head.\<close>

lemma del_head:
  "idx h t (n # bs) \<Longrightarrow>
   \<exists>h'. del t h n = Some (h', hd_or t bs) \<and> idx h' t bs \<and> frm t (set (n # bs)) h h'"
  using del_idx [of h t "[]" n bs] by auto

lemma del_member:
  assumes "idx h t xs" and "n \<in> set xs" and "distinct xs"
  shows "\<exists>h' q. del t h n = Some (h', q) \<and> idx h' t (remove1 n xs) \<and> frm t (set xs) h h' \<and>
           (hd_or t xs = n \<longrightarrow> q = hd_or t (remove1 n xs))"
proof -
  from split_list [OF assms(2)] obtain as bs where xs: "xs = as @ n # bs" by blast
  with assms(3) have r: "remove1 n xs = as @ bs" by (simp add: remove1_append)
  from del_idx [of h t as n bs] assms(1) xs obtain h' q where
    "del t h n = Some (h', q)" "idx h' t (as @ bs)" "frm t (set xs) h h'" "as = [] \<longrightarrow> q = hd_or t bs"
    by auto
  with r xs assms(3) show ?thesis by (cases as) auto
qed

end

interpretation rb: node_index rb_index rb_put rb_delete rb_frame
proof unfold_locales
  fix h t as n bs
  assume "rb_index h t (as @ n # bs)"
  from rb_index_delete [OF this]
  show "\<exists>h' q. rb_delete t h n = Some (h', q) \<and> rb_index h' t (as @ bs) \<and>
      rb_frame t (set (as @ n # bs)) h h' \<and> (as = [] \<longrightarrow> q = hd_or t bs)" by metis
qed (auto intro: rb_put_index rb_frame_trans rb_frame_mono simp del: set_append)

section \<open>Properties of the library\<close>

text \<open>A concrete tree for the witnesses: node 32 (black) with the red leaves 16 and 48.\<close>

definition demo_node :: "addr \<Rightarrow> addr \<Rightarrow> addr \<Rightarrow> u32 \<Rightarrow> rb_node" where
  "demo_node p l r c = \<lparr>parent = p, left = l, right = r, color = c\<rparr>"

definition demo_heap :: rb_heap where
  "demo_heap = (\<lambda>_. demo_node 0 0 0 0)
     (0 := demo_node 0 32 16 0, 32 := demo_node 0 16 48 4,
      16 := demo_node 32 0 0 3, 48 := demo_node 32 0 0 7)"

lemma demo_index: "rb_index demo_heap 0 [16, 32, 48]"
  unfolding rb_index_def
  by (rule exI [of _ "Nd RB_BLK (Nd RB_RED Tip 16 Tip) 32 (Nd RB_RED Tip 48 Tip)"])
    (simp add: rb_tree_def rb_inv_def RB_COLOR_def demo_heap_def demo_node_def)

text \<open>C1: searching with a predicate that separates the sequence and inserting there returns, keeps
  the red-black invariant, and puts the new node exactly between the two parts; every other node
  outside the tree, all payload bits and the cached pointer are untouched.\<close>

theorem rb_put_correct:
  assumes "rb_index h t (as @ bs)" and "\<forall>a\<in>set as. \<not> P a" and "\<forall>b\<in>set bs. P b"
    and "n \<notin> set (as @ bs)" and "n \<noteq> t"
  shows "\<exists>h'. rb_put P t h n = Some h' \<and> rb_index h' t (as @ n # bs) \<and>
           (\<forall>a. a \<notin> insert t (insert n (set (as @ bs))) \<longrightarrow> h' a = h a) \<and>
           (\<forall>a. rb_node_data h' a = rb_node_data h a) \<and> rb_cache t h' = rb_cache t h"
  using rb_put_index [OF assms] by (auto simp: rb_frame_def rb_cache_def)

theorem rb_put_correct_witness:
  "\<exists>h'. rb_put (\<lambda>a. 40 < a) 0 demo_heap 40 = Some h' \<and> rb_index h' 0 ([16, 32] @ 40 # [48])"
  using rb_put_correct [of demo_heap 0 "[16, 32]" "[48]" "\<lambda>a. 40 < a" 40] demo_index by auto

text \<open>C2: deleting a node returns, keeps the red-black invariant and removes exactly that node from the
  sequence. The returned node is a neighbour of the deleted one: the predecessor when there is a left
  subtree, else the successor when there is a right one, and for a leaf its parent, which is one of the two;
  it is the sentinel only when the last node was deleted, and the new head when the head was.\<close>

theorem rb_delete_correct:
  assumes "rb_index h t (as @ n # bs)"
  shows "\<exists>h' q. rb_delete t h n = Some (h', q) \<and> rb_index h' t (as @ bs) \<and>
           (if left (h n) \<noteq> t then as \<noteq> [] \<and> q = last as
            else if right (h n) \<noteq> t then bs \<noteq> [] \<and> q = hd bs
            else q = parent (h n) \<and> (as = [] \<and> bs = [] \<and> q = t \<or> as \<noteq> [] \<and> q = last as \<or> bs \<noteq> [] \<and> q = hd bs)) \<and>
           (as = [] \<longrightarrow> q = (if bs = [] then t else hd bs)) \<and>
           (\<forall>a. a \<notin> insert t (set (as @ n # bs)) \<longrightarrow> h' a = h a) \<and>
           (\<forall>a. rb_node_data h' a = rb_node_data h a) \<and> rb_cache t h' = rb_cache t h"
proof -
  obtain h' q where d: "rb_delete t h n = Some (h', q)" "rb_index h' t (as @ bs)"
    "if left (h n) \<noteq> t then as \<noteq> [] \<and> q = last as
     else if right (h n) \<noteq> t then bs \<noteq> [] \<and> q = hd bs
     else q = parent (h n) \<and> (as = [] \<and> bs = [] \<and> q = t \<or> as \<noteq> [] \<and> q = last as \<or> bs \<noteq> [] \<and> q = hd bs)"
    and f: "rb_frame t (set (as @ n # bs)) h h'" "as = [] \<Longrightarrow> q = hd_or t bs"
    by (rule rb_index_delete [OF assms]) blast
  have "as = [] \<longrightarrow> q = (if bs = [] then t else hd bs)" using f(2) by (cases bs) auto
  moreover have "(\<forall>a. a \<notin> insert t (set (as @ n # bs)) \<longrightarrow> h' a = h a) \<and>
      (\<forall>a. rb_node_data h' a = rb_node_data h a) \<and> rb_cache t h' = rb_cache t h"
    using f(1) by (auto simp: rb_frame_def rb_cache_def)
  ultimately show ?thesis using d by blast
qed

theorem rb_delete_correct_witness:
  "\<exists>h' q. rb_delete 0 demo_heap 32 = Some (h', q) \<and> rb_index h' 0 [16, 48] \<and> q = 16"
proof -
  have "left (demo_heap 32) \<noteq> 0" by (simp add: demo_heap_def demo_node_def)
  then show ?thesis using rb_delete_correct [of demo_heap 0 "[16]" 32 "[48]"] demo_index by auto
qed

text \<open>replacing a node by a fresh one exchanges it in the sequence and nothing else.\<close>

theorem rb_replace_correct:
  assumes "rb_index h t (as @ n # bs)" and "x \<notin> set (as @ n # bs)" and "x \<noteq> t"
  shows "rb_index (rb_replace t h n x) t (as @ x # bs) \<and>
         (\<forall>a. a \<notin> insert t (insert x (set (as @ n # bs))) \<longrightarrow> rb_replace t h n x a = h a) \<and>
         (\<forall>a. rb_node_data (rb_replace t h n x) a = rb_node_data h a)"
  using rb_index_replace [OF assms] by (auto simp: rb_frame_def)

theorem rb_replace_correct_witness:
  "rb_index (rb_replace 0 demo_heap 32 64) 0 ([16] @ 64 # [48])"
  using rb_replace_correct [of demo_heap 0 "[16]" 32 "[48]" 64] demo_index by simp

text \<open>the iterator follows the sequence: first and last are its ends, next and prev the neighbours,
  and the sentinel is returned past either end.\<close>

theorem rb_iterate_correct:
  assumes "rb_index h t (as @ n # bs)"
  shows "rb_first t h = Some (hd (as @ n # bs)) \<and> rb_last t h = Some (last (as @ n # bs)) \<and>
         rb_next t h n = Some (if bs = [] then t else hd bs) \<and>
         rb_prev t h n = Some (if as = [] then t else last as)"
proof -
  from assms obtain T where T: "rb_tree h t T" "ino T = as @ n # bs" by (auto simp: rb_index_def)
  have "hd_or t (as @ n # bs) = hd (as @ n # bs)" by (cases as) auto
  moreover have "hd_or t (rev (as @ n # bs)) = last (as @ n # bs)" by (cases bs rule: rev_cases) auto
  moreover have "hd_or t bs = (if bs = [] then t else hd bs)" by (cases bs) auto
  moreover have "hd_or t (rev as) = (if as = [] then t else last as)" by (cases as rule: rev_cases) auto
  ultimately show ?thesis
    using rb_first_hd [OF T(1)] rb_last_last [OF T(1)] rb_next_succ [OF T] rb_prev_pred [OF T] T(2)
    by (simp only: if_True)
qed

theorem rb_iterate_correct_witness:
  "rb_next 0 demo_heap 32 = Some 48 \<and> rb_prev 0 demo_heap 16 = Some 0"
  using rb_iterate_correct [of demo_heap 0 "[16]" 32 "[48]"]
    rb_iterate_correct [of demo_heap 0 "[]" 16 "[32, 48]"] demo_index by simp

end
