(* ===== verification/XF_Sched.thy ===== *)
theory XF_Sched
  imports XF_Index
begin

text \<open>
  The non-preemptive earliest-deadline-first scheduler (core/xf-sched.c, include/xf-sched.h).
  A scheduler is a red-black tree of tasks; a task keeps its 31-bit timestamp in the colour
  word of its node, the sentinel caches the first task in its right link and keeps the current
  time in its own colour word. Timestamps are compared modulo wrap-around: the invariant
  \<open>sched_inv\<close> says that the pending tasks lie in one half-range window starting at some base.
\<close>

section \<open>The code\<close>

definition xf_task_timestamp :: "rb_heap \<Rightarrow> addr \<Rightarrow> u32" where
  "xf_task_timestamp h t = color (h t) AND NOT 1"

definition xf_task_timestamp_set :: "addr \<Rightarrow> u32 \<Rightarrow> rb_heap \<Rightarrow> rb_heap" where
  "xf_task_timestamp_set t ts h = h(t := (h t)\<lparr>color := ts\<rparr>)"

definition xf_timestamp_before :: "u32 \<Rightarrow> u32 \<Rightarrow> bool" where
  "xf_timestamp_before t0 t1 \<longleftrightarrow> sint (t0 - t1) < 0"

definition xf_sched_timestamp :: "addr \<Rightarrow> rb_heap \<Rightarrow> u32" where
  "xf_sched_timestamp sched h = color (h sched)"

definition xf_sched_timestamp_set :: "addr \<Rightarrow> u32 \<Rightarrow> rb_heap \<Rightarrow> rb_heap" where
  "xf_sched_timestamp_set sched ts h = h(sched := (h sched)\<lparr>color := ts AND NOT 1\<rparr>)"

definition xf_sched_put :: "addr \<Rightarrow> rb_heap \<Rightarrow> addr \<Rightarrow> u32 \<Rightarrow> rb_heap option" where
  "xf_sched_put sched h t ts =
     (let h = xf_task_timestamp_set t ts h in
      if RB_ROOT sched h = sched then rb_insert sched (rb_set_cache sched t h) t sched
      else
        case rb_find_slot (\<lambda>p. xf_timestamp_before ts (xf_task_timestamp h p)) sched h
               (RB_ROOT sched h) of
          None \<Rightarrow> None
        | Some (p, l) \<Rightarrow>
            let h = rb_set_link p l t h in
            if l \<and> p = rb_cache sched h then rb_insert sched (rb_set_cache sched t h) t p
            else rb_insert sched h t p)"

definition xf_sched_get :: "addr \<Rightarrow> rb_heap \<Rightarrow> (rb_heap \<times> addr option) option" where
  "xf_sched_get sched h =
     (let n = rb_cache sched h in
      if n = sched then Some (h, None)
      else case rb_delete sched h n of
          None \<Rightarrow> None
        | Some (h, t) \<Rightarrow>
            let h = rb_set_cache sched t h;
                ts = xf_task_timestamp h n;
                h = xf_sched_timestamp_set sched ts h
            in Some (h, Some n))"

definition xf_sched_cancel :: "addr \<Rightarrow> rb_heap \<Rightarrow> addr \<Rightarrow> rb_heap option" where
  "xf_sched_cancel sched h n =
     (case rb_delete sched h n of
        None \<Rightarrow> None
      | Some (h, t) \<Rightarrow> Some (if n = rb_cache sched h then rb_set_cache sched t h else h))"

definition xf_sched_init :: "addr \<Rightarrow> rb_heap \<Rightarrow> rb_heap" where
  "xf_sched_init sched h = rb_init sched h"

section \<open>Wrap-around comparison\<close>

lemma sint_neg_iff: "sint (w :: u32) < 0 \<longleftrightarrow> 2 ^ 31 \<le> w"
proof transfer
  fix k :: int
  have "take_bit 32 k = 2 ^ 31 * of_bool (bit k 31) + take_bit 31 k"
    using take_bit_Suc_from_most [of 31 k] by simp
  moreover have "take_bit 31 k < 2 ^ 31" "0 \<le> take_bit 31 k"
    using take_bit_int_less_exp [of 31 k] by simp_all
  ultimately show "signed_take_bit (LENGTH(32) - Suc 0) k < 0 \<longleftrightarrow>
      take_bit LENGTH(32) (2 ^ 31) \<le> take_bit LENGTH(32) k"
    by (cases "bit k 31") (simp_all add: signed_take_bit_negative_iff)
qed

text \<open>
  The comparison in the code uses the full 32-bit timestamp of the new task and the 31-bit
  timestamp of the queued one; within a half-range window both give the order of the 31-bit
  values.
\<close>

lemma half_range_less:
  fixes x y e :: u32
  assumes "x < 2 ^ 31" and "y < 2 ^ 31" and "e = 0 \<or> e = 1" and "x AND 1 = 0" and "y AND 1 = 0"
  shows "2 ^ 31 \<le> x + e - y \<longleftrightarrow> x < y"
proof -
  have b: "uint x < 2 ^ 31" "uint y < 2 ^ 31" "0 \<le> uint x" "0 \<le> uint y"
    using assms(1,2) by (simp_all add: word_less_def)
  have e: "even (uint x)" "even (uint y)" using assms(4,5) by (simp_all add: even_uint_iff)
  have v: "uint (x + e - y) = (uint x + uint e - uint y) mod 2 ^ 32"
    by (simp add: uint_word_ariths mod_simps)
  have e1: "uint e = 0 \<or> uint e = 1" using assms(3) by auto
  have "2 ^ 31 \<le> uint (x + e - y) \<longleftrightarrow> uint x < uint y"
  proof (cases "uint x < uint y")
    case True
    obtain i j where ij: "uint x = 2 * i" "uint y = 2 * j" using e by (auto elim!: evenE)
    with True e1 have "uint x + uint e - uint y < 0" by auto
    moreover have "- (2 ^ 31) \<le> uint x + uint e - uint y" using b e1 by linarith
    moreover from this calculation
    have "(uint x + uint e - uint y) mod 2 ^ 32 = uint x + uint e - uint y + 2 ^ 32"
      using mod_pos_pos_trivial [of "uint x + uint e - uint y + 2 ^ 32" "2 ^ 32"] by simp
    ultimately show ?thesis using True v by simp
  next
    case False
    obtain i j where ij: "uint x = 2 * i" "uint y = 2 * j" using e by (auto elim!: evenE)
    then have "uint x + uint e - uint y < 2 ^ 31" using b e1 by auto
    moreover from False e1 have "0 \<le> uint x + uint e - uint y" by auto
    moreover from this calculation
    have "(uint x + uint e - uint y) mod 2 ^ 32 = uint x + uint e - uint y"
      by (intro mod_pos_pos_trivial) simp_all
    ultimately show ?thesis using False v by simp
  qed
  then show ?thesis by (simp add: word_le_def word_less_def)
qed

lemma timestamp_before_window:
  fixes ts ta B :: u32
  assumes "(ts AND NOT 1) - B < 2 ^ 31" and "ta - B < 2 ^ 31" and "B AND 1 = 0" and "ta AND 1 = 0"
  shows "xf_timestamp_before ts ta \<longleftrightarrow> (ts AND NOT 1) - B < ta - B"
proof -
  have "ts - ta = ((ts AND NOT 1) - B) + (ts AND 1) - (ta - B)"
    using and_not_1_split [of ts] by (simp add: algebra_simps)
  moreover have "(ts AND NOT 1) AND 1 = 0" by (rule bit_word_eqI) (auto simp: bit_simps)
  ultimately show ?thesis
    unfolding xf_timestamp_before_def sint_neg_iff
    using half_range_less [OF assms(1,2) and_1_cases [of ts]] assms(3,4) even_minus_word
    by (simp only:)
qed

section \<open>The invariant\<close>

definition sched_inv :: "rb_heap \<Rightarrow> addr \<Rightarrow> addr list \<Rightarrow> u32 \<Rightarrow> bool" where
  "sched_inv h s ts B \<longleftrightarrow>
     rb_index h s ts \<and> B AND 1 = 0 \<and> (\<forall>a\<in>set ts. xf_task_timestamp h a - B < 2 ^ 31) \<and>
     sorted (map (\<lambda>a. xf_task_timestamp h a - B) ts) \<and> rb_cache s h = hd_or s ts"

lemma timestamp_data: "xf_task_timestamp h a = push_bit 1 (rb_node_data h a)"
  by (simp only: xf_task_timestamp_def color_even_data)

lemma rb_frame_timestamp: "rb_frame t S h h' \<Longrightarrow> xf_task_timestamp h' a = xf_task_timestamp h a"
  by (simp add: timestamp_data rb_frame_data)

lemma timestamp_even: "xf_task_timestamp h a AND 1 = 0"
  unfolding xf_task_timestamp_def by (rule bit_word_eqI) (auto simp: bit_simps)

lemma rb_set_cache_simps [simp]:
  "parent (rb_set_cache t c h a) = parent (h a)"
  "left (rb_set_cache t c h a) = left (h a)"
  "color (rb_set_cache t c h a) = color (h a)"
  "rb_cache t (rb_set_cache t c h) = c"
  "a \<noteq> t \<Longrightarrow> rb_set_cache t c h a = h a"
  "xf_task_timestamp (rb_set_cache t c h) a = xf_task_timestamp h a"
  "RB_ROOT t (rb_set_cache t c h) = RB_ROOT t h"
  by (simp_all add: rb_set_cache_def rb_cache_def xf_task_timestamp_def RB_ROOT_def)

lemma rb_index_set_cache: "rb_index h t xs \<Longrightarrow> rb_index (rb_set_cache t c h) t xs"
  using rb_index_distinct [of h t xs]
  by (rule_tac rb_index_cong [where h = h])
    (auto simp: RB_COLOR_def intro!: same_links_eq rb_set_cache_simps(5))

lemma rb_frame_cache: "rb_frame t S h h' \<Longrightarrow> rb_cache t h' = rb_cache t h"
  by (simp add: rb_frame_def rb_cache_def)

lemma rb_find_slot_index:
  assumes "rb_index h t xs" and "xs \<noteq> []"
  shows "rb_find_slot P t (rb_set_cache t c h) (RB_ROOT t h) = rb_find_slot P t h (RB_ROOT t h)"
proof -
  from assms obtain T where T: "rb_tree h t T" "T \<noteq> Tip" by (auto simp: rb_index_def)
  have "tree_at (rb_set_cache t c h) t t (left (h t)) T"
    by (rule tree_at_out [where h = h]) (use T in \<open>auto simp: rb_tree_def intro!: rb_set_cache_simps(5)\<close>)
  then show ?thesis
    using T rb_find_slot_at [OF _ T(2), of "rb_set_cache t c h" t t "left (h t)" P "[]"]
      rb_find_slot_at [OF _ T(2), of h t t "left (h t)" P "[]"] by (simp add: rb_tree_def RB_ROOT_def)
qed

section \<open>Operations\<close>

lemma xf_sched_init_inv: "B AND 1 = 0 \<Longrightarrow> sched_inv (xf_sched_init s h) s [] B"
  by (simp add: sched_inv_def xf_sched_init_def rb_index_init)
    (simp add: rb_cache_def rb_init_def rb_set_defs)

lemma xf_sched_put_index:
  assumes I: "sched_inv h s xs B" and t: "t \<notin> set xs" "t \<noteq> s"
    and w: "(ts AND NOT 1) - B < 2 ^ 31"
    and h0: "h0 = xf_task_timestamp_set t ts h" and e: "xs = as @ bs"
    and as: "\<forall>a\<in>set as. \<not> (ts AND NOT 1) - B < xf_task_timestamp h a - B"
    and bs: "\<forall>b\<in>set bs. (ts AND NOT 1) - B < xf_task_timestamp h b - B"
  shows "\<exists>h'. xf_sched_put s h t ts = Some h' \<and> rb_index h' s (as @ t # bs) \<and>
           rb_cache s h' = hd_or s (as @ t # bs) \<and> (\<forall>a. rb_node_data h' a = rb_node_data h0 a) \<and>
           (\<forall>a. a \<notin> insert s (insert t (set xs)) \<longrightarrow> h' a = h a)"
proof -
  let ?P = "\<lambda>p. xf_timestamp_before ts (xf_task_timestamp h0 p)"
  have ix: "rb_index h s xs" and c: "rb_cache s h = hd_or s xs" using I by (auto simp: sched_inv_def)
  have D: "distinct (s # xs)" by (rule rb_index_distinct [OF ix])
  have h0': "h0 a = h a" if "a \<noteq> t" for a using that by (simp add: h0 xf_task_timestamp_set_def)
  then have c0: "rb_cache s h0 = hd_or s xs" and r0: "RB_ROOT s h0 = RB_ROOT s h"
    using c t by (simp_all add: rb_cache_def RB_ROOT_def)
  have ix0: "rb_index h0 s xs" by (rule rb_index_out [OF ix], rule h0') (use t in auto)
  have ts0: "xf_task_timestamp h0 a = xf_task_timestamp h a" if "a \<in> set xs" for a
  proof -
    from that t have "a \<noteq> t" by auto
    then show ?thesis by (simp add: h0' xf_task_timestamp_def)
  qed
  have P: "?P a \<longleftrightarrow> (ts AND NOT 1) - B < xf_task_timestamp h a - B" if "a \<in> set xs" for a
    unfolding ts0 [OF that] using that I w
    by (intro timestamp_before_window) (auto simp: sched_inv_def timestamp_even)
  have PA: "\<forall>a\<in>set as. \<not> ?P a" and PB: "\<forall>b\<in>set bs. ?P b" using P as bs e by auto
  let ?hc = "rb_set_cache s t h0"
  have ixc: "rb_index ?hc s xs" by (rule rb_index_set_cache [OF ix0])
  have fr: "\<forall>a. rb_node_data h' a = rb_node_data h0 a"
    "\<forall>a. a \<notin> insert s (insert t (set xs)) \<longrightarrow> h' a = h a" "rb_cache s h' = rb_cache s h1"
    if "rb_frame s (insert t (set xs)) h1 h'" "h1 = h0 \<or> h1 = ?hc" for h' h1
    using that h0' by (auto simp: rb_frame_def rb_node_data_def rb_cache_def)
  show ?thesis
  proof (cases "xs = []")
    case True
    with ixc t obtain h' where "rb_insert s ?hc t s = Some h'" "rb_index h' s [t]" "rb_frame s {t} ?hc h'"
      by (auto elim: rb_index_insert_empty)
    then show ?thesis
      using True e fr [of ?hc h'] rb_index_root [OF ix] r0
      by (auto simp: xf_sched_put_def h0 [symmetric] Let_def)
  next
    case False
    with e have ne: "as @ bs \<noteq> []" and root: "RB_ROOT s h0 \<noteq> s" using rb_index_root [OF ix0] by auto
    have nt: "t \<notin> set (as @ bs)" using t e by simp
    obtain p l h' where 1: "rb_find_slot ?P s h0 (RB_ROOT s h0) = Some (p, l)" "p \<in> set (as @ bs)"
      "if l then bs \<noteq> [] \<and> p = hd bs else as \<noteq> [] \<and> p = last as"
      "rb_insert s (rb_set_link p l t h0) t p = Some h'" "rb_index h' s (as @ t # bs)"
      "rb_frame s (insert t (set (as @ bs))) h0 h'"
      by (rule rb_index_insert [OF ix0 [unfolded e] ne PA PB nt t(2)])
    have ps: "p \<noteq> s" using 1(2) D e by auto
    have cl: "rb_cache s (rb_set_link p l t h0) = hd_or s xs"
      using c0 ps by (simp add: rb_set_link_def rb_cache_def)
    have hd: "l \<and> p = hd_or s xs \<longleftrightarrow> as = []"
      using 1(2,3) e D ne by (cases as; cases bs; cases l) (auto split: if_splits)
    show ?thesis
    proof (cases "as = []")
      case True
      obtain p' l' h'' where 2: "rb_find_slot ?P s ?hc (RB_ROOT s ?hc) = Some (p', l')"
        "rb_insert s (rb_set_link p' l' t ?hc) t p' = Some h''" "rb_index h'' s (as @ t # bs)"
        "rb_frame s (insert t (set (as @ bs))) ?hc h''"
        by (rule rb_index_insert [OF ixc [unfolded e] ne PA PB nt t(2)])
      have "p' = p" "l' = l" using 1(1) 2(1) rb_find_slot_index [OF ix0 False] by auto
      moreover have "rb_set_link p l t ?hc = rb_set_cache s t (rb_set_link p l t h0)"
        using ps by (auto simp: rb_set_link_def rb_set_cache_def RB_SET_L_def RB_SET_R_def fun_upd_twist)
      ultimately have "xf_sched_put s h t ts = Some h''"
        using root 1(1) cl hd True 2(2) by (simp add: xf_sched_put_def h0 [symmetric] Let_def)
      with 2(3) fr [OF 2(4) [folded e]] True show ?thesis by auto
    next
      case neas: False
      then have "xf_sched_put s h t ts = Some h'"
        using root 1(1,4) cl hd by (auto simp: xf_sched_put_def h0 [symmetric] Let_def)
      moreover have "hd_or s (as @ t # bs) = hd_or s xs" using neas e by (cases as) auto
      ultimately show ?thesis using 1(5) fr [OF 1(6) [folded e]] c0 by auto
    qed
  qed
qed

text \<open>
  Putting a task: it goes behind every pending task whose deadline is not later and before
  all others; deadlines of the other tasks do not change.
\<close>

theorem xf_sched_put_spec:
  assumes I: "sched_inv h s xs B" and t: "t \<notin> set xs" "t \<noteq> s" and w: "(ts AND NOT 1) - B < 2 ^ 31"
  shows "\<exists>h' as bs. xf_sched_put s h t ts = Some h' \<and> xs = as @ bs \<and> sched_inv h' s (as @ t # bs) B \<and>
           (\<forall>a\<in>set as. xf_task_timestamp h a - B \<le> (ts AND NOT 1) - B) \<and>
           (\<forall>b\<in>set bs. (ts AND NOT 1) - B < xf_task_timestamp h b - B) \<and>
           xf_task_timestamp h' t = ts AND NOT 1 \<and>
           (\<forall>a. a \<noteq> t \<longrightarrow> xf_task_timestamp h' a = xf_task_timestamp h a) \<and>
           (\<forall>a. a \<notin> insert s (insert t (set xs)) \<longrightarrow> h' a = h a)"
proof -
  let ?key = "\<lambda>a. xf_task_timestamp h a - B" and ?k = "(ts AND NOT 1) - B"
  define h0 where "h0 = xf_task_timestamp_set t ts h"
  from I have so: "sorted (map ?key xs)" by (simp add: sched_inv_def)
  from sorted_split_less [OF so, of ?k] obtain as bs where e: "xs = as @ bs"
    and as: "\<forall>a\<in>set as. ?key a \<le> ?k" and bs: "\<forall>b\<in>set bs. ?k < ?key b" by blast
  have as': "\<forall>a\<in>set as. \<not> ?k < ?key a" using as by auto
  from xf_sched_put_index [OF I t w h0_def e as' bs] obtain h' where
    h': "xf_sched_put s h t ts = Some h'" "rb_index h' s (as @ t # bs)"
    "rb_cache s h' = hd_or s (as @ t # bs)" "\<forall>a. rb_node_data h' a = rb_node_data h0 a"
    "\<forall>a. a \<notin> insert s (insert t (set xs)) \<longrightarrow> h' a = h a" by blast
  have ts': "xf_task_timestamp h' a = (if a = t then ts AND NOT 1 else xf_task_timestamp h a)" for a
  proof -
    have "xf_task_timestamp h' a = xf_task_timestamp h0 a" by (simp only: timestamp_data h'(4))
    then show ?thesis by (simp add: h0_def xf_task_timestamp_set_def xf_task_timestamp_def)
  qed
  have "sorted (map (\<lambda>a. xf_task_timestamp h' a - B) (as @ t # bs))"
  proof -
    have "map (\<lambda>a. xf_task_timestamp h' a - B) (as @ t # bs) = map ?key as @ ?k # map ?key bs"
      using t e by (auto simp: ts')
    moreover have "sorted (map ?key as @ ?k # map ?key bs)"
      using so as bs unfolding e by (auto simp: sorted_append less_imp_le)
    ultimately show ?thesis by (simp only:)
  qed
  moreover have "\<forall>a\<in>set (as @ t # bs). xf_task_timestamp h' a - B < 2 ^ 31"
    using I w e by (auto simp: ts' sched_inv_def)
  ultimately have "sched_inv h' s (as @ t # bs) B"
    using h'(2,3) I by (simp add: sched_inv_def)
  with h' e as bs ts' show ?thesis by auto
qed

text \<open>Getting a task: the head of the queue, whose deadline becomes the current time.\<close>

lemma rb_delete_sched:
  assumes I: "rb_index h s xs" and c: "rb_cache s h = hd_or s xs" and n: "n \<in> set xs"
  obtains h' q where "rb_delete s h n = Some (h', q)" and "rb_index h' s (remove1 n xs)"
    and "rb_frame s (set xs) h h'" and "rb_cache s h' = hd_or s xs"
    and "hd_or s xs = n \<Longrightarrow> q = hd_or s (remove1 n xs)"
    and "hd_or s xs \<noteq> n \<Longrightarrow> hd_or s (remove1 n xs) = hd_or s xs"
proof -
  have D: "distinct (s # xs)" by (rule rb_index_distinct [OF I])
  obtain h' q where d: "rb_delete s h n = Some (h', q)" "rb_index h' s (remove1 n xs)"
    "rb_frame s (set xs) h h'" "hd_or s xs = n \<longrightarrow> q = hd_or s (remove1 n xs)"
    using rb.del_member [OF I n] D by auto
  have h: "hd_or s xs \<noteq> n \<Longrightarrow> hd_or s (remove1 n xs) = hd_or s xs" using n by (cases xs) auto
  have "rb_cache s h' = hd_or s xs" using rb_frame_cache [OF d(3)] c by simp
  from that [OF d(1-3) this] d(4) h show thesis by blast
qed

lemma sorted_remove1: "sorted (map f xs) \<Longrightarrow> sorted (map f (remove1 n xs))"
  by (induction xs) (auto dest: notin_set_remove1 set_remove1_subset [THEN subsetD])

theorem xf_sched_get_spec:
  assumes I: "sched_inv h s (t # xs) B"
  shows "\<exists>h'. xf_sched_get s h = Some (h', Some t) \<and> sched_inv h' s xs (xf_task_timestamp h t) \<and>
           sched_inv h' s xs B \<and> xf_sched_timestamp s h' = xf_task_timestamp h t \<and>
           (\<forall>a. a \<noteq> s \<longrightarrow> xf_task_timestamp h' a = xf_task_timestamp h a)"
proof -
  have ix: "rb_index h s (t # xs)" and c: "rb_cache s h = hd_or s (t # xs)"
    using I by (auto simp: sched_inv_def)
  have D: "distinct (s # t # xs)" by (rule rb_index_distinct [OF ix])
  then have "t \<noteq> s" and "s \<notin> set xs" by auto
  obtain h1 q where d: "rb_delete s h t = Some (h1, q)" "rb_index h1 s xs" "rb_frame s (set (t # xs)) h h1"
    "q = hd_or s xs"
    by (rule rb_delete_sched [OF ix c, of t]) auto
  define h' where "h' = xf_sched_timestamp_set s (xf_task_timestamp h t) (rb_set_cache s q h1)"
  have ts: "xf_task_timestamp h' a = xf_task_timestamp h a" if "a \<noteq> s" for a
    using that rb_frame_timestamp [OF d(3), of a]
    by (simp add: h'_def xf_sched_timestamp_set_def xf_task_timestamp_def rb_set_cache_def)
  have ev: "xf_task_timestamp h t AND NOT 1 = xf_task_timestamp h t"
    unfolding xf_task_timestamp_def by (rule bit_word_eqI) (auto simp: bit_simps)
  have "xf_sched_get s h = Some (h', Some t)"
    using d(1) c D rb_frame_timestamp [OF d(3), of t] \<open>t \<noteq> s\<close>
    by (simp add: xf_sched_get_def Let_def h'_def)
  moreover have ix': "rb_index h' s xs"
  proof (rule rb_index_cong [OF rb_index_set_cache [OF d(2), of q]])
    fix a assume "a \<in> set xs"
    with D have "a \<noteq> s" by auto
    then show "same_links (rb_set_cache s q h1) h' a"
      by (simp add: h'_def xf_sched_timestamp_set_def same_links_def RB_COLOR_def)
  next
    have "RB_COLOR h1 s = RB_BLK" using d(2) by (auto simp: rb_index_def rb_tree_def)
    moreover have "(xf_task_timestamp h t AND NOT 1) AND 1 = 0"
      by (rule bit_word_eqI) (auto simp: bit_simps)
    ultimately show "RB_COLOR h' s = RB_COLOR (rb_set_cache s q h1) s"
      by (simp add: h'_def xf_sched_timestamp_set_def RB_COLOR_def split: if_splits)
  qed (simp add: h'_def xf_sched_timestamp_set_def)
  have ca: "rb_cache s h' = hd_or s xs"
    using d(4) by (simp add: h'_def xf_sched_timestamp_set_def rb_cache_def rb_set_cache_def)
  let ?b = "xf_task_timestamp h t"
  have so: "sorted (map (\<lambda>a. xf_task_timestamp h a - B) (t # xs))"
    and win: "\<forall>a\<in>set (t # xs). xf_task_timestamp h a - B < 2 ^ 31" and B: "B AND 1 = 0"
    using I by (auto simp: sched_inv_def)
  have m: "map (\<lambda>a. xf_task_timestamp h' a - C) xs = map (\<lambda>a. xf_task_timestamp h a - C) xs" for C
    using D by (intro map_cong refl arg_cong2 [where f = minus] ts) auto
  have rel: "uint (xf_task_timestamp h a - ?b) = uint (xf_task_timestamp h a - B) - uint (?b - B)"
    if "a \<in> set xs" for a
  proof -
    have "xf_task_timestamp h a - ?b = (xf_task_timestamp h a - B) - (?b - B)" by simp
    moreover have "?b - B \<le> xf_task_timestamp h a - B" using so that by auto
    ultimately show ?thesis by (simp only: uint_minus_simple_alt)
  qed
  have tsx: "xf_task_timestamp h' a = xf_task_timestamp h a" if "a \<in> set xs" for a
    using that D by (intro ts) auto
  have "sched_inv h' s xs B"
    using ix' ca so win B by (auto simp: sched_inv_def tsx m)
  moreover have "sched_inv h' s xs ?b"
    unfolding sched_inv_def m
  proof (intro conjI ballI)
    show "sorted (map (\<lambda>a. xf_task_timestamp h a - ?b) xs)"
      using so rel by (auto simp: sorted_wrt_map word_le_def elim!: sorted_wrt_mono_rel [rotated])
    fix a assume a: "a \<in> set xs"
    have "uint (xf_task_timestamp h a - B) < 2 ^ 31" using win a by (simp add: word_less_def)
    then have "uint (xf_task_timestamp h a - ?b) < 2 ^ 31"
      using rel [OF a] uint_ge_0 [of "?b - B"] by linarith
    then show "xf_task_timestamp h' a - ?b < 2 ^ 31" by (simp add: tsx [OF a] word_less_def)
  qed (use ix' ca timestamp_even in auto)
  moreover have "xf_sched_timestamp s h' = ?b"
    using ev by (simp add: h'_def xf_sched_timestamp_set_def xf_sched_timestamp_def)
  ultimately show ?thesis using ts by blast
qed

theorem xf_sched_get_empty:
  "sched_inv h s [] B \<Longrightarrow> xf_sched_get s h = Some (h, None)"
  by (simp add: sched_inv_def xf_sched_get_def)

theorem xf_sched_cancel_spec:
  assumes I: "sched_inv h s xs B" and t: "t \<in> set xs"
  shows "\<exists>h'. xf_sched_cancel s h t = Some h' \<and> sched_inv h' s (remove1 t xs) B \<and>
           (\<forall>a. xf_task_timestamp h' a = xf_task_timestamp h a)"
proof -
  have ix: "rb_index h s xs" and c: "rb_cache s h = hd_or s xs" using I by (auto simp: sched_inv_def)
  obtain h1 q where d: "rb_delete s h t = Some (h1, q)" "rb_index h1 s (remove1 t xs)"
    "rb_frame s (set xs) h h1" "rb_cache s h1 = hd_or s xs"
    "hd_or s xs = t \<Longrightarrow> q = hd_or s (remove1 t xs)"
    "hd_or s xs \<noteq> t \<Longrightarrow> hd_or s (remove1 t xs) = hd_or s xs"
    by (rule rb_delete_sched [OF ix c t]) blast
  define h' where "h' = (if t = rb_cache s h1 then rb_set_cache s q h1 else h1)"
  have ts: "xf_task_timestamp h' a = xf_task_timestamp h a" for a
    using rb_frame_timestamp [OF d(3), of a] by (simp add: h'_def)
  have "xf_sched_cancel s h t = Some h'" using d(1) by (simp add: xf_sched_cancel_def h'_def)
  moreover have "rb_index h' s (remove1 t xs)" unfolding h'_def using d(2) rb_index_set_cache by (metis (full_types))
  moreover have "rb_cache s h' = hd_or s (remove1 t xs)" using d(4-6) by (auto simp: h'_def)
  ultimately show ?thesis
    using I ts by (auto simp: sched_inv_def sorted_remove1 dest: set_remove1_subset [THEN subsetD])
qed

section \<open>Properties of the scheduler\<close>

lemma demo_sched: "sched_inv demo_heap 0 [16, 32, 48] 2"
  using demo_index
  by (simp add: sched_inv_def demo_heap_def demo_node_def xf_task_timestamp_def rb_cache_def)

text \<open>C3: putting a task keeps the scheduler well formed, and the task goes behind every pending task
  with the same or an earlier deadline and before all later ones, where earlier and later are read
  modulo wrap-around in the half-range window of the pending deadlines.\<close>

theorem sched_put_edf:
  assumes "sched_inv h s xs B" and "t \<notin> set xs" and "t \<noteq> s" and "(ts AND NOT 1) - B < 2 ^ 31"
  shows "\<exists>h' as bs. xf_sched_put s h t ts = Some h' \<and> xs = as @ bs \<and> sched_inv h' s (as @ t # bs) B \<and>
           xf_task_timestamp h' t = ts AND NOT 1 \<and>
           (\<forall>a\<in>set as. \<not> xf_timestamp_before ts (xf_task_timestamp h a)) \<and>
           (\<forall>b\<in>set bs. xf_timestamp_before ts (xf_task_timestamp h b))"
proof -
  have before: "xf_timestamp_before ts (xf_task_timestamp h a) \<longleftrightarrow>
      (ts AND NOT 1) - B < xf_task_timestamp h a - B" if "a \<in> set xs" for a
    using assms(1,4) that by (intro timestamp_before_window) (auto simp: sched_inv_def timestamp_even)
  from xf_sched_put_spec [OF assms] obtain h' as bs where
    *: "xf_sched_put s h t ts = Some h'" "xs = as @ bs" "sched_inv h' s (as @ t # bs) B"
      "\<forall>a\<in>set as. xf_task_timestamp h a - B \<le> (ts AND NOT 1) - B"
      "\<forall>b\<in>set bs. (ts AND NOT 1) - B < xf_task_timestamp h b - B"
      "xf_task_timestamp h' t = ts AND NOT 1" by blast
  then have "\<forall>a\<in>set as. \<not> xf_timestamp_before ts (xf_task_timestamp h a)"
    "\<forall>b\<in>set bs. xf_timestamp_before ts (xf_task_timestamp h b)"
    using before by (auto simp: not_less)
  with * show ?thesis by blast
qed

theorem sched_put_edf_witness:
  "\<exists>h' as bs. xf_sched_put 0 demo_heap 80 5 = Some h' \<and> [16, 32, 48] = as @ bs \<and>
     sched_inv h' 0 (as @ 80 # bs) 2 \<and> xf_task_timestamp h' 80 = 4"
  using sched_put_edf [OF demo_sched, of 80 5] by auto

text \<open>C4: getting a task takes the one with the earliest deadline (first in, first out among equals),
  leaves the rest in order, and advances the clock to that deadline, from which every pending
  deadline still lies in the forward half range; an empty scheduler gives NULL and is unchanged.\<close>

theorem sched_get_edf:
  assumes "sched_inv h s xs B"
  shows "case xs of
           [] \<Rightarrow> xf_sched_get s h = Some (h, None)
         | t # ts \<Rightarrow> \<exists>h'. xf_sched_get s h = Some (h', Some t) \<and>
             sched_inv h' s ts (xf_task_timestamp h t) \<and> xf_sched_timestamp s h' = xf_task_timestamp h t"
proof (cases xs)
  case Nil
  with assms xf_sched_get_empty show ?thesis by simp
next
  case (Cons t ts)
  with assms have "sched_inv h s (t # ts) B" by simp
  from xf_sched_get_spec [OF this] show ?thesis unfolding Cons by auto
qed

theorem sched_get_edf_witness:
  "\<exists>h'. xf_sched_get 0 demo_heap = Some (h', Some 16) \<and> sched_inv h' 0 [32, 48] 2 \<and>
        xf_sched_timestamp 0 h' = 2"
  using sched_get_edf [OF demo_sched] by (simp add: demo_heap_def demo_node_def xf_task_timestamp_def)

text \<open>cancelling a pending task removes it and nothing else, wherever it is in the queue; when it
  was the head the cached head moves to its successor.\<close>

theorem sched_cancel_removes:
  assumes "sched_inv h s xs B" and "t \<in> set xs"
  shows "\<exists>h'. xf_sched_cancel s h t = Some h' \<and> sched_inv h' s (remove1 t xs) B \<and>
           (\<forall>a. xf_task_timestamp h' a = xf_task_timestamp h a)"
  by (rule xf_sched_cancel_spec [OF assms])

theorem sched_cancel_removes_witness:
  "\<exists>h'. xf_sched_cancel 0 demo_heap 16 = Some h' \<and> sched_inv h' 0 [32, 48] 2"
  using sched_cancel_removes [OF demo_sched, of 16] by auto

fun sched_drain :: "nat \<Rightarrow> addr \<Rightarrow> rb_heap \<Rightarrow> (rb_heap \<times> addr list) option" where
  "sched_drain 0 s h = Some (h, [])"
| "sched_drain (Suc n) s h =
     (case xf_sched_get s h of
        None \<Rightarrow> None
      | Some (h', None) \<Rightarrow> Some (h', [])
      | Some (h', Some t) \<Rightarrow> map_option (\<lambda>(h'', ts). (h'', t # ts)) (sched_drain n s h'))"

text \<open>C5: the scheduler drains: running get once per pending task returns every task, in queue order,
  and leaves the scheduler empty.\<close>

theorem sched_drains_in_order:
  assumes "sched_inv h s xs B"
  shows "\<exists>h' B'. sched_drain (length xs) s h = Some (h', xs) \<and> sched_inv h' s [] B'"
  using assms
proof (induction xs arbitrary: h B)
  case (Cons t xs)
  from xf_sched_get_spec [OF Cons.prems] obtain h1 where
    1: "xf_sched_get s h = Some (h1, Some t)" "sched_inv h1 s xs B" by blast
  from Cons.IH [OF 1(2)] show ?case using 1(1) by auto
qed auto

theorem sched_drains_in_order_witness:
  "\<exists>h' B'. sched_drain 3 0 demo_heap = Some (h', [16, 32, 48]) \<and> sched_inv h' 0 [] B'"
  using sched_drains_in_order [OF demo_sched] by (simp add: numeral_3_eq_3)

end
