(* ===== verification/XF_Mem.thy ===== *)
theory XF_Mem
  imports XF_Index
begin

text \<open>
  The memory allocator (core/xf-mem.c, include/sys/xt-shmem/xf-mem.h): free blocks are kept in
  two red-black trees, by length (best fit) and by address (coalescing). A free block starts
  with its two tree nodes: the length-map node at the block address, whose colour word also
  holds the block length, and the address-map node 16 bytes above. The pool structure starts
  with the two sentinels. A neighbour that may be NULL in \<open>xf_mm_find_by_addr\<close> is an option.
\<close>

section \<open>The code\<close>

record xf_mm_pool =
  mm_addr :: addr
  mm_size :: u32

definition mm_l_map :: "addr \<Rightarrow> addr" where
  "mm_l_map pool = pool"

definition mm_a_map :: "addr \<Rightarrow> addr" where
  "mm_a_map pool = pool + 16"

definition mm_a_node :: "addr \<Rightarrow> addr" where
  "mm_a_node b = b + 16"

definition XF_MM :: "u32 \<Rightarrow> u32" where
  "XF_MM sz = (sz + 32 - 1) AND NOT (32 - 1)"

definition XF_MM_ALIGNED :: "u32 \<Rightarrow> bool" where
  "XF_MM_ALIGNED sz \<longleftrightarrow> sz AND (32 - 1) = 0"

definition xf_mm_block_init :: "addr \<Rightarrow> u32 \<Rightarrow> rb_heap \<Rightarrow> rb_heap \<times> addr" where
  "xf_mm_block_init a sz h = (h(a := (h a)\<lparr>color := sz\<rparr>), a)"

definition xf_mm_block_length_less :: "rb_heap \<Rightarrow> addr \<Rightarrow> u32 \<Rightarrow> bool" where
  "xf_mm_block_length_less h b sz \<longleftrightarrow> color (h b) < sz"

definition xf_mm_block_length :: "rb_heap \<Rightarrow> addr \<Rightarrow> u32" where
  "xf_mm_block_length h b = color (h b) AND NOT 1"

definition xf_mm_block_length_add :: "addr \<Rightarrow> u32 \<Rightarrow> rb_heap \<Rightarrow> rb_heap \<times> u32" where
  "xf_mm_block_length_add b sz h =
     (h(b := (h b)\<lparr>color := color (h b) + sz\<rparr>), (color (h b) + sz) AND NOT 1)"

definition xf_mm_block_length_sub :: "addr \<Rightarrow> u32 \<Rightarrow> rb_heap \<Rightarrow> rb_heap \<times> u32" where
  "xf_mm_block_length_sub b sz h =
     (h(b := (h b)\<lparr>color := color (h b) - sz\<rparr>), (color (h b) - sz) AND NOT 1)"

text \<open>The two loops of \<open>xf_mm_find_by_size\<close>: the first block on the way to the right that is
  long enough, then the best match in its left subtree.\<close>

partial_function (option) mm_first_fit :: "addr \<Rightarrow> rb_heap \<Rightarrow> u32 \<Rightarrow> addr \<Rightarrow> addr option" where
  "mm_first_fit t h sz p =
     (if p = t then Some p
      else if \<not> xf_mm_block_length_less h p sz then Some p
      else mm_first_fit t h sz (right (h p)))"

partial_function (option) mm_best_fit ::
  "addr \<Rightarrow> rb_heap \<Rightarrow> u32 \<Rightarrow> addr \<Rightarrow> addr \<Rightarrow> addr option" where
  "mm_best_fit t h sz p q =
     (if q = t then Some p
      else if \<not> xf_mm_block_length_less h q sz then mm_best_fit t h sz q (left (h q))
      else mm_best_fit t h sz p (right (h q)))"

definition xf_mm_find_by_size :: "addr \<Rightarrow> rb_heap \<Rightarrow> u32 \<Rightarrow> addr option option" where
  "xf_mm_find_by_size pool h sz =
     (let t = mm_l_map pool in
      case mm_first_fit t h sz (RB_ROOT t h) of
        None \<Rightarrow> None
      | Some p \<Rightarrow>
          if p = t then Some None
          else map_option Some (mm_best_fit t h sz p (left (h p))))"

partial_function (option) mm_neighbours ::
  "addr \<Rightarrow> rb_heap \<Rightarrow> addr \<Rightarrow> addr option \<Rightarrow> addr option \<Rightarrow> addr \<Rightarrow> (addr option \<times> addr option) option"
where
  "mm_neighbours t h a l r p =
     (if p = t then Some (l, r)
      else if p < a then mm_neighbours t h a (Some p) r (right (h p))
      else mm_neighbours t h a l (Some p) (left (h p)))"

definition xf_mm_find_by_addr ::
  "addr \<Rightarrow> rb_heap \<Rightarrow> addr \<Rightarrow> (addr option \<times> addr option) option" where
  "xf_mm_find_by_addr pool h a =
     (let t = mm_a_map pool in
      map_option (\<lambda>(l, r). (map_option (\<lambda>p. p - 16) l, map_option (\<lambda>p. p - 16) r))
        (mm_neighbours t h a None None (RB_ROOT t h)))"

definition xf_mm_insert_size :: "addr \<Rightarrow> addr \<Rightarrow> u32 \<Rightarrow> rb_heap \<Rightarrow> rb_heap option" where
  "xf_mm_insert_size pool b sz h =
     rb_put (\<lambda>p. \<not> xf_mm_block_length_less h p sz) (mm_l_map pool) h b"

definition xf_mm_insert_addr :: "addr \<Rightarrow> addr \<Rightarrow> rb_heap \<Rightarrow> rb_heap option" where
  "xf_mm_insert_addr pool b h = rb_put (\<lambda>p. \<not> p < b) (mm_a_map pool) h (mm_a_node b)"

definition xf_mm_alloc :: "addr \<Rightarrow> rb_heap \<Rightarrow> u32 \<Rightarrow> (rb_heap \<times> addr option) option" where
  "xf_mm_alloc pool h sz =
     (case xf_mm_find_by_size pool h sz of
        None \<Rightarrow> None
      | Some None \<Rightarrow> Some (h, None)
      | Some (Some b) \<Rightarrow>
          case rb_delete (mm_l_map pool) h b of
            None \<Rightarrow> None
          | Some (h, _) \<Rightarrow>
              let (h, sz) = xf_mm_block_length_sub b sz h in
              if sz = 0 then
                map_option (\<lambda>(h, _). (h, Some b)) (rb_delete (mm_a_map pool) h (mm_a_node b))
              else
                map_option (\<lambda>h. (h, Some (b + sz))) (xf_mm_insert_size pool b sz h))"

text \<open>\<open>xf_mm_free\<close> merges to the left, then to the right, then updates the maps.\<close>

definition mm_merge_left ::
  "addr \<Rightarrow> addr option \<Rightarrow> addr \<Rightarrow> u32 \<Rightarrow> rb_heap \<Rightarrow>
     (rb_heap \<times> addr \<times> addr option \<times> addr \<times> u32) option" where
  "mm_merge_left pool n0 a sz h =
     (case n0 of
        None \<Rightarrow> Some (h, a, None, a, sz)
      | Some n \<Rightarrow>
          if n + xf_mm_block_length h n = a then
            (case rb_delete (mm_l_map pool) h n of
               None \<Rightarrow> None
             | Some (h, _) \<Rightarrow>
                 let (h, sz) = xf_mm_block_length_add n sz h in Some (h, n, n0, n, sz))
          else Some (h, a, None, a, sz))"

definition mm_merge_right ::
  "addr \<Rightarrow> addr \<Rightarrow> addr option \<Rightarrow> addr option \<Rightarrow> addr \<Rightarrow> u32 \<Rightarrow> rb_heap \<Rightarrow>
     (rb_heap \<times> addr option \<times> u32) option" where
  "mm_merge_right pool b n0 n1 a sz h =
     (case n1 of
        None \<Rightarrow> Some (h, None, sz)
      | Some n \<Rightarrow>
          if n = a + sz then
            (case rb_delete (mm_l_map pool) h n of
               None \<Rightarrow> None
             | Some (h, _) \<Rightarrow>
                 let (h, sz) = xf_mm_block_length_add b (xf_mm_block_length h n) h in
                 if n0 \<noteq> None then
                   map_option (\<lambda>(h, _). (h, n1, sz)) (rb_delete (mm_a_map pool) h (mm_a_node n))
                 else Some (rb_replace (mm_a_map pool) h (mm_a_node n) (mm_a_node b), n1, sz))
          else Some (h, None, sz))"

definition xf_mm_free :: "addr \<Rightarrow> rb_heap \<Rightarrow> addr \<Rightarrow> u32 \<Rightarrow> rb_heap option" where
  "xf_mm_free pool h a sz =
     (let (h, b) = xf_mm_block_init a sz h in
      case xf_mm_find_by_addr pool h a of
        None \<Rightarrow> None
      | Some (n0, n1) \<Rightarrow>
          case mm_merge_left pool n0 a sz h of
            None \<Rightarrow> None
          | Some (h, b, n0, a, sz) \<Rightarrow>
              case mm_merge_right pool b n0 n1 a sz h of
                None \<Rightarrow> None
              | Some (h, n1, sz) \<Rightarrow>
                  case (if n0 = None \<and> n1 = None then xf_mm_insert_addr pool b h else Some h) of
                    None \<Rightarrow> None
                  | Some h \<Rightarrow> xf_mm_insert_size pool b sz h)"

definition xf_mm_init ::
  "addr \<Rightarrow> rb_heap \<Rightarrow> addr \<Rightarrow> u32 \<Rightarrow> (xf_errno + rb_heap \<times> xf_mm_pool) option" where
  "xf_mm_init pool h a sz =
     (if a AND (32 - 1) \<noteq> 0 then Some (Inl EINVAL)
      else if sz AND (32 - 1) \<noteq> 0 then Some (Inl EINVAL)
      else
        let p = \<lparr>mm_addr = a, mm_size = sz\<rparr>;
            h = rb_init (mm_l_map pool) h;
            h = rb_init (mm_a_map pool) h
        in map_option (\<lambda>h. Inr (h, p)) (xf_mm_free pool h a sz))"

section \<open>The searches\<close>

lemma mm_best_fit_hd:
  assumes "tree_at h t p q T" and "ino T = as @ bs"
    and "\<forall>a\<in>set as. xf_mm_block_length_less h a sz"
    and "\<forall>b\<in>set bs. \<not> xf_mm_block_length_less h b sz"
  shows "mm_best_fit t h sz m q = Some (hd (bs @ [m]))"
  using assms
proof (induction T arbitrary: p q as bs m)
  case Tip
  then show ?case by (subst mm_best_fit.simps) simp
next
  case (Nd c l a r)
  then have q: "q = a" "a \<noteq> t" and l: "tree_at h t a (left (h a)) l" and r: "tree_at h t a (right (h a)) r" by auto
  show ?case
  proof (cases "xf_mm_block_length_less h a sz")
    case True
    then have "a \<notin> set bs" using Nd.prems(4) by blast
    then obtain us where us: "as = ino l @ a # us" "ino r = us @ bs"
      using append_split_left [of "ino l" a "ino r"] Nd.prems(2) by auto
    have "mm_best_fit t h sz m (right (h a)) = Some (hd (bs @ [m]))"
      by (rule Nd.IH(2) [OF r us(2)]) (use Nd.prems(3,4) us in auto)
    with True q show ?thesis by (subst mm_best_fit.simps) simp
  next
    case False
    then have "a \<notin> set as" using Nd.prems(3) by blast
    then obtain us where us: "ino l = as @ us" "bs = us @ a # ino r"
      using append_split_right [of "ino l" a "ino r"] Nd.prems(2) by auto
    have "mm_best_fit t h sz a (left (h a)) = Some (hd (us @ [a]))"
      by (rule Nd.IH(1) [OF l us(1)]) (use Nd.prems(3,4) us in auto)
    with False q us show ?thesis by (subst mm_best_fit.simps) (cases us; simp)
  qed
qed

lemma mm_first_best:
  assumes "tree_at h t p q T" and "ino T = as @ bs"
    and "\<forall>a\<in>set as. xf_mm_block_length_less h a sz"
    and "\<forall>b\<in>set bs. \<not> xf_mm_block_length_less h b sz"
  shows "if bs = [] then mm_first_fit t h sz q = Some t
     else \<exists>n. mm_first_fit t h sz q = Some n \<and> n \<noteq> t \<and>
            mm_best_fit t h sz n (left (h n)) = Some (hd bs)"
  using assms
proof (induction T arbitrary: p q as)
  case Tip
  then show ?case by (subst mm_first_fit.simps) simp
next
  case (Nd c l a r)
  then have q: "q = a" "a \<noteq> t" and l: "tree_at h t a (left (h a)) l" and r: "tree_at h t a (right (h a)) r" by auto
  show ?case
  proof (cases "xf_mm_block_length_less h a sz")
    case True
    then have "a \<notin> set bs" using Nd.prems(4) by blast
    then obtain us where us: "as = ino l @ a # us" "ino r = us @ bs"
      using append_split_left [of "ino l" a "ino r"] Nd.prems(2) by auto
    have "mm_first_fit t h sz q = mm_first_fit t h sz (right (h a))"
      using True q by (subst mm_first_fit.simps) simp
    moreover have "\<forall>a\<in>set us. xf_mm_block_length_less h a sz" using Nd.prems(3) us by auto
    note Nd.IH(2) [OF r us(2) this Nd.prems(4)]
    ultimately show ?thesis by simp
  next
    case False
    then have "a \<notin> set as" using Nd.prems(3) by blast
    then obtain us where us: "ino l = as @ us" "bs = us @ a # ino r"
      using append_split_right [of "ino l" a "ino r"] Nd.prems(2) by auto
    have "mm_first_fit t h sz q = Some a" using False q by (subst mm_first_fit.simps) simp
    moreover have "mm_best_fit t h sz a (left (h a)) = Some (hd (us @ [a]))"
      by (rule mm_best_fit_hd [OF l us(1)]) (use Nd.prems(3,4) us in auto)
    ultimately show ?thesis using us q by (cases us) auto
  qed
qed

lemma xf_mm_find_by_size_hd:
  assumes "rb_index h (mm_l_map pool) (as @ bs)"
    and "\<forall>a\<in>set as. xf_mm_block_length_less h a sz"
    and "\<forall>b\<in>set bs. \<not> xf_mm_block_length_less h b sz"
  shows "xf_mm_find_by_size pool h sz = Some (if bs = [] then None else Some (hd bs))"
proof -
  let ?t = "mm_l_map pool"
  from assms(1) obtain T where T: "tree_at h ?t ?t (left (h ?t)) T" "ino T = as @ bs"
    by (auto simp: rb_index_def rb_tree_def)
  from mm_first_best [OF T assms(2,3)] show ?thesis
    by (auto simp: xf_mm_find_by_size_def RB_ROOT_def Let_def split: if_splits)
qed

lemma mm_neighbours_split:
  assumes "tree_at h t p q T" and "ino T = as @ bs" and "\<forall>x\<in>set as. x < a" and "\<forall>x\<in>set bs. \<not> x < a"
  shows "mm_neighbours t h a l r q =
     Some (if as = [] then l else Some (last as), if bs = [] then r else Some (hd bs))"
  using assms
proof (induction T arbitrary: p q as bs l r)
  case Tip
  then show ?case by (subst mm_neighbours.simps) simp
next
  case (Nd c lt x rt)
  then have q: "q = x" "x \<noteq> t" and lt: "tree_at h t x (left (h x)) lt" and rt: "tree_at h t x (right (h x)) rt" by auto
  show ?case
  proof (cases "x < a")
    case True
    then have "x \<notin> set bs" using Nd.prems(4) by blast
    then obtain us where us: "as = ino lt @ x # us" "ino rt = us @ bs"
      using append_split_left [of "ino lt" x "ino rt"] Nd.prems(2) by auto
    have "mm_neighbours t h a (Some x) r (right (h x)) =
        Some (if us = [] then Some x else Some (last us), if bs = [] then r else Some (hd bs))"
      by (rule Nd.IH(2) [OF rt us(2)]) (use Nd.prems(3,4) us in auto)
    with True q us show ?thesis by (subst mm_neighbours.simps) simp
  next
    case False
    then have "x \<notin> set as" using Nd.prems(3) by blast
    then obtain us where us: "ino lt = as @ us" "bs = us @ x # ino rt"
      using append_split_right [of "ino lt" x "ino rt"] Nd.prems(2) by auto
    have "mm_neighbours t h a l (Some x) (left (h x)) =
        Some (if as = [] then l else Some (last as), if us = [] then Some x else Some (hd us))"
      by (rule Nd.IH(1) [OF lt us(1)]) (use Nd.prems(3,4) us in auto)
    with False q us show ?thesis by (subst mm_neighbours.simps) (cases us; simp)
  qed
qed

end
