(* ===== verification/XF_Mem_Inv.thy ===== *)
theory XF_Mem_Inv
  imports XF_Mem
begin

text \<open>
  The invariant of the allocator and the effect of its primitive steps on the two maps. All
  managed memory lies in an address range [lo, hi) that does not meet the pool structure;
  blocks are aligned to 32 bytes, so that the two nodes of a block never meet those of
  another one.
\<close>

section \<open>Addresses\<close>

definition mm_node_ok :: "nat \<Rightarrow> nat \<Rightarrow> addr \<Rightarrow> bool" where
  "mm_node_ok lo hi b \<longleftrightarrow> 32 dvd unat b \<and> lo \<le> unat b \<and> unat b + 32 \<le> hi"

definition mm_pool_ok :: "nat \<Rightarrow> nat \<Rightarrow> addr \<Rightarrow> bool" where
  "mm_pool_ok lo hi pool \<longleftrightarrow>
     hi \<le> 2 ^ 32 \<and> unat pool + 32 \<le> 2 ^ 32 \<and> (unat pool + 32 \<le> lo \<or> hi \<le> unat pool)"

lemma unat_add_16: "unat (w :: addr) + 16 < 2 ^ 32 \<Longrightarrow> unat (w + 16) = unat w + 16"
  by (simp add: unat_word_ariths)

lemma mm_unat_a_node: "mm_pool_ok lo hi pool \<Longrightarrow> mm_node_ok lo hi b \<Longrightarrow> unat (mm_a_node b) = unat b + 16"
  by (simp add: mm_node_ok_def mm_pool_ok_def mm_a_node_def unat_add_16)

lemma mm_unat_a_map: "mm_pool_ok lo hi pool \<Longrightarrow> unat (mm_a_map pool) = unat pool + 16"
  by (simp add: mm_pool_ok_def mm_a_map_def unat_add_16)

lemma mm_addr_neq:
  assumes "mm_pool_ok lo hi pool" and "mm_node_ok lo hi b"
  shows "b \<noteq> mm_l_map pool" and "b \<noteq> mm_a_map pool" and "mm_a_node b \<noteq> mm_l_map pool"
    and "mm_a_node b \<noteq> mm_a_map pool" and "mm_l_map pool \<noteq> mm_a_map pool"
  using assms mm_unat_a_node [OF assms] mm_unat_a_map [OF assms(1)]
  by (auto simp: mm_node_ok_def mm_pool_ok_def mm_l_map_def)

lemma mm_node_neq:
  assumes "mm_pool_ok lo hi pool" and "mm_node_ok lo hi b" and "mm_node_ok lo hi c"
  shows "mm_a_node b \<noteq> c"
proof
  assume "mm_a_node b = c"
  then have *: "unat b + 16 = unat c" using mm_unat_a_node [OF assms(1,2)] by simp
  obtain i j where "unat b = 32 * i" "unat c = 32 * j"
    using assms(2,3) unfolding mm_node_ok_def by (meson dvdE)
  with * show False by presburger
qed

lemma mm_a_node_inj [simp]: "mm_a_node b = mm_a_node c \<longleftrightarrow> b = c"
  by (simp add: mm_a_node_def)

lemma mm_a_node_less:
  assumes "mm_pool_ok lo hi pool" and "mm_node_ok lo hi b" and "mm_node_ok lo hi c"
  shows "mm_a_node b < c \<longleftrightarrow> b < c"
proof -
  have u: "unat (mm_a_node b) = unat b + 16" by (rule mm_unat_a_node [OF assms(1,2)])
  obtain i j where "unat b = 32 * i" "unat c = 32 * j"
    using assms(2,3) unfolding mm_node_ok_def by (meson dvdE)
  then show ?thesis unfolding word_less_nat_alt u by presburger
qed

section \<open>Lengths in the colour word\<close>

lemma block_length_data: "xf_mm_block_length h a = push_bit 1 (rb_node_data h a)"
  by (simp only: xf_mm_block_length_def color_even_data)

lemma rb_frame_length: "rb_frame t S h h' \<Longrightarrow> xf_mm_block_length h' = xf_mm_block_length h"
  by (rule ext) (simp add: block_length_data rb_frame_data)

lemma even_and_not_1: "(w :: u32) AND 1 = 0 \<Longrightarrow> w AND NOT 1 = w"
  using and_not_1_split [of w] by simp

lemma and_not_1_even: "((w :: u32) AND NOT 1) AND 1 = 0"
  by (rule bit_word_eqI) (auto simp: bit_simps)

lemma lsb_and_not_1:
  assumes "(a :: u32) AND 1 = 0" and "e = 0 \<or> e = 1"
  shows "(a + e) AND NOT 1 = a"
proof -
  have "a AND e = 0" using assms by auto
  then have "a + e = a OR e" by (rule disjunctive_add_eq_or)
  also have "(a OR e) AND NOT 1 = (a AND NOT 1) OR (e AND NOT 1)"
    by (rule bit_word_eqI) (auto simp: bit_simps)
  also have "e AND NOT 1 = 0" using assms(2) by auto
  finally show ?thesis using even_and_not_1 [OF assms(1)] by simp
qed

lemma even_plus_word: "(a :: u32) AND 1 = 0 \<Longrightarrow> b AND 1 = 0 \<Longrightarrow> (a + b) AND 1 = 0"
  unfolding even_uint_iff [symmetric] uint_word_ariths by (intro dvd_mod dvd_add) simp_all

lemma and_not_1_plus:
  assumes "(s :: u32) AND 1 = 0"
  shows "(c + s) AND NOT 1 = (c AND NOT 1) + s"
proof -
  have "((c AND NOT 1) + (c AND 1)) + s = ((c AND NOT 1) + s) + (c AND 1)" by (simp only: ac_simps)
  then have "c + s = ((c AND NOT 1) + s) + (c AND 1)" by (simp only: and_not_1_split)
  then show ?thesis
    by (simp only: lsb_and_not_1 [OF even_plus_word [OF and_not_1_even assms] and_1_cases])
qed

lemma and_not_1_minus:
  assumes "(s :: u32) AND 1 = 0"
  shows "(c - s) AND NOT 1 = (c AND NOT 1) - s"
proof -
  have "((c AND NOT 1) + (c AND 1)) - s = ((c AND NOT 1) - s) + (c AND 1)" by (simp only: diff_conv_add_uminus ac_simps)
  then have "c - s = ((c AND NOT 1) - s) + (c AND 1)" by (simp only: and_not_1_split)
  then show ?thesis
    by (simp only: lsb_and_not_1 [OF even_minus_word [OF and_not_1_even assms] and_1_cases])
qed

lemma and_not_1_less:
  assumes "(s :: u32) AND 1 = 0"
  shows "c < s \<longleftrightarrow> (c AND NOT 1) < s"
proof -
  have "uint c = uint (c AND NOT 1) + uint (c AND 1)"
  proof -
    have "(c AND NOT 1) AND (c AND 1) = 0" by (rule bit_word_eqI) (auto simp: bit_simps)
    then have "uint (c AND NOT 1) AND uint (c AND 1) = 0" by (simp flip: uint_and)
    then have "uint (c AND NOT 1) + uint (c AND 1) = uint (c AND NOT 1) OR uint (c AND 1)"
      by (rule disjunctive_add_eq_or)
    also have "\<dots> = uint ((c AND NOT 1) OR (c AND 1))" by (simp only: uint_or)
    also have "(c AND NOT 1) OR (c AND 1) = c" by (rule bit_word_eqI) (auto simp: bit_simps)
    finally show ?thesis by simp
  qed
  moreover have "uint (c AND 1) = 0 \<or> uint (c AND 1) = 1"
    using and_1_cases [of c] by (elim disjE) (simp_all only: uint_0_eq uint_1_eq simp_thms)
  moreover obtain i j where "uint (c AND NOT 1) = 2 * i" "uint s = 2 * j"
    using assms and_not_1_even [of c] unfolding even_uint_iff [symmetric] by (metis evenE)
  ultimately show ?thesis unfolding word_less_def
    by (cases "i < j") (elim disjE; linarith)+
qed

lemma length_less_iff:
  "sz AND 1 = 0 \<Longrightarrow> xf_mm_block_length_less h b sz \<longleftrightarrow> xf_mm_block_length h b < sz"
  unfolding xf_mm_block_length_less_def xf_mm_block_length_def by (rule and_not_1_less)

lemma dvd32_even: "32 dvd unat (w :: u32) \<Longrightarrow> w AND 1 = 0"
proof -
  assume w: "32 dvd unat w"
  have "2 dvd (32::nat)" by simp
  from dvd_trans [OF this w] have "2 dvd unat w" .
  then have "even (uint w)" unfolding uint_nat even_of_nat .
  then show ?thesis by (simp only: even_uint_iff)
qed

section \<open>The two maps\<close>

definition mm_maps :: "nat \<Rightarrow> nat \<Rightarrow> addr \<Rightarrow> rb_heap \<Rightarrow> addr list \<Rightarrow> addr list \<Rightarrow> bool" where
  "mm_maps lo hi pool h bs ls \<longleftrightarrow>
     mm_pool_ok lo hi pool \<and> (\<forall>b \<in> set bs \<union> set ls. mm_node_ok lo hi b) \<and>
     rb_index h (mm_a_map pool) (map mm_a_node bs) \<and> rb_index h (mm_l_map pool) ls \<and>
     sorted (map (xf_mm_block_length h) ls)"

lemma sorted_map_cong: "sorted (map f xs) \<Longrightarrow> (\<And>x. x \<in> set xs \<Longrightarrow> g x = f x) \<Longrightarrow> sorted (map g xs)"
  by (metis map_cong)

lemma sorted_remove1_map: "sorted (map f xs) \<Longrightarrow> sorted (map f (remove1 n xs))"
  by (induction xs) (auto dest: notin_set_remove1 set_remove1_subset [THEN subsetD])

lemma mm_l_frame:
  assumes "mm_maps lo hi pool h bs ls" and "rb_frame (mm_l_map pool) S h h'"
    and "\<forall>b\<in>S. mm_node_ok lo hi b"
  shows "rb_index h' (mm_a_map pool) (map mm_a_node bs)"
proof -
  have P: "mm_pool_ok lo hi pool" and N: "\<forall>x\<in>set bs. mm_node_ok lo hi x"
    using assms(1) by (auto simp: mm_maps_def)
  show ?thesis
proof (rule rb_index_out)
  show "rb_index h (mm_a_map pool) (map mm_a_node bs)" using assms(1) by (simp add: mm_maps_def)
  fix a assume "a \<in> set (map mm_a_node bs) \<or> a = mm_a_map pool"
  then have "a \<notin> S \<and> a \<noteq> mm_l_map pool"
  proof
    assume "a \<in> set (map mm_a_node bs)"
    then obtain b where b: "a = mm_a_node b" "mm_node_ok lo hi b" using N by auto
    have "a \<notin> S"
    proof
      assume "a \<in> S"
      with assms(3) have "mm_node_ok lo hi a" by simp
      from mm_node_neq [OF P b(2) this] b(1) show False by simp
    qed
    moreover have "a \<noteq> mm_l_map pool" unfolding b(1) by (rule mm_addr_neq(3) [OF P b(2)])
    ultimately show ?thesis ..
  next
    assume a: "a = mm_a_map pool"
    have "a \<notin> S"
    proof
      assume "a \<in> S"
      with assms(3) have "mm_node_ok lo hi a" by simp
      from mm_addr_neq(2) [OF P this] a show False by simp
    qed
    moreover have "a \<noteq> mm_l_map pool" unfolding a by (simp add: mm_l_map_def mm_a_map_def)
    ultimately show ?thesis ..
  qed
  then show "h' a = h a" using assms(2) by (simp add: rb_frame_def)
qed
qed

lemma mm_a_frame:
  assumes "mm_maps lo hi pool h bs ls" and "rb_frame (mm_a_map pool) (mm_a_node ` S) h h'"
    and "\<forall>b\<in>S. mm_node_ok lo hi b"
  shows "rb_index h' (mm_l_map pool) ls" and "sorted (map (xf_mm_block_length h') ls)"
proof -
  have P: "mm_pool_ok lo hi pool" and N: "\<forall>x\<in>set ls. mm_node_ok lo hi x"
    using assms(1) by (auto simp: mm_maps_def)
  show "rb_index h' (mm_l_map pool) ls"
  proof (rule rb_index_out)
    show "rb_index h (mm_l_map pool) ls" using assms(1) by (simp add: mm_maps_def)
    fix a assume "a \<in> set ls \<or> a = mm_l_map pool"
    then have "a \<notin> mm_a_node ` S \<and> a \<noteq> mm_a_map pool"
    proof
      assume "a \<in> set ls"
      with N have a: "mm_node_ok lo hi a" by blast
      have "a \<notin> mm_a_node ` S"
      proof
        assume "a \<in> mm_a_node ` S"
        then obtain b where b: "b \<in> S" "a = mm_a_node b" by blast
        with assms(3) have "mm_node_ok lo hi b" by simp
        from mm_node_neq [OF P this a] b(2) show False by simp
      qed
      moreover have "a \<noteq> mm_a_map pool" by (rule mm_addr_neq(2) [OF P a])
      ultimately show ?thesis ..
    next
      assume a: "a = mm_l_map pool"
      have "a \<notin> mm_a_node ` S"
      proof
        assume "a \<in> mm_a_node ` S"
        then obtain b where b: "b \<in> S" "a = mm_a_node b" by blast
        with assms(3) have "mm_node_ok lo hi b" by simp
        from mm_addr_neq(3) [OF P this] b(2) a show False by simp
      qed
      moreover have "a \<noteq> mm_a_map pool" unfolding a by (simp add: mm_l_map_def mm_a_map_def)
      ultimately show ?thesis ..
    qed
    then show "h' a = h a" using assms(2) by (simp add: rb_frame_def)
  qed
  show "sorted (map (xf_mm_block_length h') ls)"
    using assms(1) rb_frame_length [OF assms(2)] by (simp add: mm_maps_def)
qed

lemma mm_l_delete:
  assumes M: "mm_maps lo hi pool h bs ls" and b: "b \<in> set ls"
  obtains h' q where "rb_delete (mm_l_map pool) h b = Some (h', q)"
    and "mm_maps lo hi pool h' bs (remove1 b ls)"
    and "xf_mm_block_length h' = xf_mm_block_length h"
proof -
  have I: "rb_index h (mm_l_map pool) ls" using M by (simp add: mm_maps_def)
  have D: "distinct ls" using rb_index_distinct [OF I] by simp
  from rb.del_member [OF I b D] obtain h' q where
    d: "rb_delete (mm_l_map pool) h b = Some (h', q)" "rb_index h' (mm_l_map pool) (remove1 b ls)"
      "rb_frame (mm_l_map pool) (set ls) h h'" by blast
  note L = rb_frame_length [OF d(3)]
  have "mm_maps lo hi pool h' bs (remove1 b ls)"
    using M d(2) mm_l_frame [OF M d(3)]
    by (auto simp: mm_maps_def L sorted_remove1_map dest: set_remove1_subset [THEN subsetD])
  from that [OF d(1) this L] show thesis .
qed

lemma mm_l_insert:
  assumes M: "mm_maps lo hi pool h bs ls" and b: "b \<notin> set ls" "mm_node_ok lo hi b"
    and sz: "xf_mm_block_length h b = sz" "sz AND 1 = 0"
  obtains h' ls' where "xf_mm_insert_size pool b sz h = Some h'"
    and "mm_maps lo hi pool h' bs ls'" and "mset ls' = add_mset b (mset ls)"
    and "xf_mm_block_length h' = xf_mm_block_length h"
proof -
  have I: "rb_index h (mm_l_map pool) ls" and so: "sorted (map (xf_mm_block_length h) ls)"
    and P: "mm_pool_ok lo hi pool" using M by (auto simp: mm_maps_def)
  have "\<forall>a\<in>set ls. \<not> xf_mm_block_length_less h a sz \<longleftrightarrow> xf_mm_block_length h b \<le> xf_mm_block_length h a"
    using sz by (auto simp: length_less_iff not_less)
  from rb.put_sorted_before [OF I so b(1) mm_addr_neq(1) [OF P b(2)] this] obtain h' as cs where
    d: "ls = as @ cs" "xf_mm_insert_size pool b sz h = Some h'" "rb_index h' (mm_l_map pool) (as @ b # cs)"
      "sorted (map (xf_mm_block_length h) (as @ b # cs))" "rb_frame (mm_l_map pool) (insert b (set ls)) h h'"
    unfolding xf_mm_insert_size_def by blast
  note L = rb_frame_length [OF d(5)]
  have N: "\<forall>x\<in>insert b (set ls). mm_node_ok lo hi x" using M b(2) by (auto simp: mm_maps_def)
  have "mm_maps lo hi pool h' bs (as @ b # cs)"
    using M d(1,3,4) mm_l_frame [OF M d(5) N] b(2) by (auto simp: mm_maps_def L)
  then show thesis using d(1,2) L by (intro that [of h' "as @ b # cs"]) auto
qed

lemma mm_a_delete:
  assumes M: "mm_maps lo hi pool h (as @ b # cs) ls"
  obtains h' q where "rb_delete (mm_a_map pool) h (mm_a_node b) = Some (h', q)"
    and "mm_maps lo hi pool h' (as @ cs) ls"
    and "xf_mm_block_length h' = xf_mm_block_length h"
proof -
  have "rb_index h (mm_a_map pool) (map mm_a_node as @ mm_a_node b # map mm_a_node cs)"
    using M by (simp add: mm_maps_def)
  from rb.del_idx [OF this] obtain h' q where
    d: "rb_delete (mm_a_map pool) h (mm_a_node b) = Some (h', q)"
      "rb_index h' (mm_a_map pool) (map mm_a_node as @ map mm_a_node cs)"
      "rb_frame (mm_a_map pool) (mm_a_node ` set (as @ b # cs)) h h'"
    by (auto simp: image_Un)
  note L = rb_frame_length [OF d(3)]
  have "mm_maps lo hi pool h' (as @ cs) ls"
    using M d(2) mm_a_frame [OF M d(3)] by (auto simp: mm_maps_def)
  from that [OF d(1) this L] show thesis .
qed

lemma mm_a_insert:
  assumes M: "mm_maps lo hi pool h (as @ cs) ls" and b: "mm_node_ok lo hi b"
    and ord: "\<forall>a\<in>set as. a < b" "\<forall>c\<in>set cs. b < c"
  obtains h' where "xf_mm_insert_addr pool b h = Some h'"
    and "mm_maps lo hi pool h' (as @ b # cs) ls"
    and "xf_mm_block_length h' = xf_mm_block_length h"
proof -
  have I: "rb_index h (mm_a_map pool) (map mm_a_node as @ map mm_a_node cs)"
    and P: "mm_pool_ok lo hi pool" and N: "\<forall>x\<in>set (as @ cs). mm_node_ok lo hi x"
    using M by (auto simp: mm_maps_def)
  have "\<forall>p\<in>set (map mm_a_node as). \<not> \<not> p < b" "\<forall>p\<in>set (map mm_a_node cs). \<not> p < b"
    using mm_a_node_less [OF P _ b] N ord by fastforce+
  moreover have "mm_a_node b \<notin> set (map mm_a_node as @ map mm_a_node cs)" using ord by auto
  ultimately obtain h' where
    d: "xf_mm_insert_addr pool b h = Some h'"
      "rb_index h' (mm_a_map pool) (map mm_a_node as @ mm_a_node b # map mm_a_node cs)"
      "rb_frame (mm_a_map pool) (insert (mm_a_node b) (set (map mm_a_node as @ map mm_a_node cs))) h h'"
    using rb.put_idx [OF I, of "\<lambda>p. \<not> p < b" "mm_a_node b"] mm_addr_neq(4) [OF P b]
    unfolding xf_mm_insert_addr_def by blast
  have d3: "rb_frame (mm_a_map pool) (mm_a_node ` insert b (set (as @ cs))) h h'"
    using d(3) by (simp add: image_Un)
  note L = rb_frame_length [OF d3]
  have N': "\<forall>x\<in>insert b (set (as @ cs)). mm_node_ok lo hi x" using N b by auto
  have "mm_maps lo hi pool h' (as @ b # cs) ls"
    using M d(2) mm_a_frame [OF M d3 N'] b by (auto simp: mm_maps_def)
  from that [OF d(1) this L] show thesis .
qed

lemma mm_a_replace:
  assumes M: "mm_maps lo hi pool h (as @ n # cs) ls" and b: "mm_node_ok lo hi b" "b \<notin> set (as @ n # cs)"
  shows "mm_maps lo hi pool (rb_replace (mm_a_map pool) h (mm_a_node n) (mm_a_node b)) (as @ b # cs) ls"
    and "xf_mm_block_length (rb_replace (mm_a_map pool) h (mm_a_node n) (mm_a_node b)) = xf_mm_block_length h"
proof -
  have I: "rb_index h (mm_a_map pool) (map mm_a_node as @ mm_a_node n # map mm_a_node cs)"
    and P: "mm_pool_ok lo hi pool" and N: "\<forall>x\<in>set (as @ n # cs). mm_node_ok lo hi x"
    using M by (auto simp: mm_maps_def)
  have x: "mm_a_node b \<notin> set (map mm_a_node as @ mm_a_node n # map mm_a_node cs)" using b(2) by auto
  note r = rb_index_replace [OF I x mm_addr_neq(4) [OF P b(1)]]
  have r2: "rb_frame (mm_a_map pool) (mm_a_node ` insert b (set (as @ n # cs))) h
      (rb_replace (mm_a_map pool) h (mm_a_node n) (mm_a_node b))"
    using r(2) by (simp add: image_Un)
  have N': "\<forall>x\<in>insert b (set (as @ n # cs)). mm_node_ok lo hi x" using N b by auto
  show "mm_maps lo hi pool (rb_replace (mm_a_map pool) h (mm_a_node n) (mm_a_node b)) (as @ b # cs) ls"
    using M r(1) mm_a_frame [OF M r2 N'] b(1) by (auto simp: mm_maps_def)
  show "xf_mm_block_length (rb_replace (mm_a_map pool) h (mm_a_node n) (mm_a_node b)) = xf_mm_block_length h"
    by (rule rb_frame_length [OF r2])
qed

lemma mm_store:
  assumes M: "mm_maps lo hi pool h bs ls" and b: "b \<notin> set ls" "mm_node_ok lo hi b"
  shows "mm_maps lo hi pool (h(b := (h b)\<lparr>color := c\<rparr>)) bs ls"
proof -
  let ?h = "h(b := (h b)\<lparr>color := c\<rparr>)"
  have P: "mm_pool_ok lo hi pool" and N: "\<forall>x\<in>set bs. mm_node_ok lo hi x"
    and A: "rb_index h (mm_a_map pool) (map mm_a_node bs)" and L: "rb_index h (mm_l_map pool) ls"
    and so: "sorted (map (xf_mm_block_length h) ls)" using M by (auto simp: mm_maps_def)
  have "rb_index ?h (mm_a_map pool) (map mm_a_node bs)"
    by (rule rb_index_out [OF A]) (use mm_addr_neq [OF P b(2)] mm_node_neq [OF P _ b(2)] N in auto)
  moreover have "rb_index ?h (mm_l_map pool) ls"
    by (rule rb_index_out [OF L]) (use mm_addr_neq [OF P b(2)] b(1) in auto)
  moreover have "sorted (map (xf_mm_block_length ?h) ls)"
    by (rule sorted_map_cong [OF so]) (use b(1) in \<open>auto simp: xf_mm_block_length_def\<close>)
  ultimately show ?thesis using M by (simp add: mm_maps_def)
qed

end
