(* ===== verification/XF_Mem_Spec.thy ===== *)
theory XF_Mem_Spec
  imports XF_Mem_Inv
begin

text \<open>
  What the allocator promises. The abstract state is the list of free blocks in address order
  with their lengths; it is always coalesced (no two blocks touch), so it is determined by the
  set of free bytes. Allocation takes a best-fitting block's tail, release adds the bytes and
  merges with both neighbours. The locale \<open>mem_pool\<close> states the contract on the set of free
  bytes; it is interpreted with \<open>xf_mm_alloc\<close> and \<open>xf_mm_free\<close>.
\<close>

section \<open>Lists of blocks\<close>

definition mm_blocks_ok :: "nat \<Rightarrow> (addr \<Rightarrow> nat) \<Rightarrow> addr list \<Rightarrow> bool" where
  "mm_blocks_ok hi f bs \<longleftrightarrow>
     (\<forall>b\<in>set bs. 32 dvd f b \<and> 0 < f b \<and> unat b + f b \<le> hi) \<and>
     sorted_wrt (\<lambda>b c. unat b + f b < unat c) bs"

definition mm_covered :: "(addr \<Rightarrow> nat) \<Rightarrow> addr list \<Rightarrow> nat set" where
  "mm_covered f bs = (\<Union>b\<in>set bs. {unat b ..< unat b + f b})"

lemma mm_blocks_ok_append: "mm_blocks_ok hi f (as @ bs) \<longleftrightarrow> mm_blocks_ok hi f as \<and>
    mm_blocks_ok hi f bs \<and> (\<forall>a\<in>set as. \<forall>b\<in>set bs. unat a + f a < unat b)"
  by (auto simp: mm_blocks_ok_def sorted_wrt_append)

lemma mm_blocks_ok_Cons: "mm_blocks_ok hi f (b # bs) \<longleftrightarrow> 32 dvd f b \<and> 0 < f b \<and> unat b + f b \<le> hi \<and>
    mm_blocks_ok hi f bs \<and> (\<forall>c\<in>set bs. unat b + f b < unat c)"
  by (auto simp: mm_blocks_ok_def)

lemma mm_blocks_ok_Nil [simp]: "mm_blocks_ok hi f []"
  by (simp add: mm_blocks_ok_def)

lemma mm_blocks_ok_cong:
  "mm_blocks_ok hi f bs \<Longrightarrow> (\<And>b. b \<in> set bs \<Longrightarrow> g b = f b) \<Longrightarrow> mm_blocks_ok hi g bs"
  unfolding mm_blocks_ok_def by (auto elim!: sorted_wrt_mono_rel [rotated])

lemma mm_covered_append [simp]: "mm_covered f (as @ bs) = mm_covered f as \<union> mm_covered f bs"
  by (simp add: mm_covered_def image_Un)

lemma mm_covered_Cons [simp]: "mm_covered f (b # bs) = {unat b ..< unat b + f b} \<union> mm_covered f bs"
  by (simp add: mm_covered_def)

lemma mm_covered_Nil [simp]: "mm_covered f [] = {}"
  by (simp add: mm_covered_def)

lemma mm_covered_cong: "(\<And>b. b \<in> set bs \<Longrightarrow> g b = f b) \<Longrightarrow> mm_covered g bs = mm_covered f bs"
  by (simp add: mm_covered_def)

lemma mm_upd_notin [simp]:
  "a \<notin> set bs \<Longrightarrow> mm_blocks_ok hi (f(a := s)) bs = mm_blocks_ok hi f bs"
  "a \<notin> set bs \<Longrightarrow> mm_covered (f(a := s)) bs = mm_covered f bs"
proof -
  assume a: "a \<notin> set bs"
  then have e: "(f(a := s)) b = f b" if "b \<in> set bs" for b using that by auto
  then have e': "f b = (f(a := s)) b" if "b \<in> set bs" for b using that by simp
  show "mm_blocks_ok hi (f(a := s)) bs = mm_blocks_ok hi f bs"
    by (rule iffI; erule mm_blocks_ok_cong) (erule e' e)+
  show "mm_covered (f(a := s)) bs = mm_covered f bs" by (rule mm_covered_cong) (rule e)
qed

lemma mm_covered_below: "x \<in> mm_covered f as \<Longrightarrow> \<forall>a\<in>set as. unat a + f a \<le> k \<Longrightarrow> x < k"
  by (auto simp: mm_covered_def)

lemma mm_covered_above: "x \<in> mm_covered f cs \<Longrightarrow> \<forall>c\<in>set cs. k < unat c \<Longrightarrow> k < x"
  by (auto simp: mm_covered_def)

text \<open>The bytes of one block do not meet those of the blocks before and behind it.\<close>

lemma mm_covered_disjoint:
  assumes "mm_blocks_ok hi f (as @ b # cs)"
  shows "x \<in> mm_covered f as \<Longrightarrow> x < unat b" and "x \<in> mm_covered f cs \<Longrightarrow> unat b + f b < x"
proof -
  from assms have as: "\<forall>a\<in>set as. unat a + f a < unat b" and cs: "\<forall>c\<in>set cs. unat b + f b < unat c"
    by (auto simp: mm_blocks_ok_append mm_blocks_ok_Cons)
  show "x \<in> mm_covered f as \<Longrightarrow> x < unat b" by (erule mm_covered_below) (use as in auto)
  show "x \<in> mm_covered f cs \<Longrightarrow> unat b + f b < x" by (erule mm_covered_above) (rule cs)
qed

lemma mm_blocks_distinct: "mm_blocks_ok hi f bs \<Longrightarrow> distinct bs"
  by (induction bs) (auto simp: mm_blocks_ok_Cons)

text \<open>The block list is determined by the bytes it covers.\<close>

lemma mm_covered_hd:
  assumes "mm_blocks_ok hi f (b # bs)"
  shows "unat b = (LEAST x. x \<in> mm_covered f (b # bs))"
    and "unat b + f b = (LEAST x. unat b \<le> x \<and> x \<notin> mm_covered f (b # bs))"
proof -
  from assms have *: "0 < f b" "\<forall>c\<in>set bs. unat b + f b < unat c" by (auto simp: mm_blocks_ok_Cons)
  show "unat b = (LEAST x. x \<in> mm_covered f (b # bs))"
    by (rule Least_equality [symmetric]) (use * in \<open>force simp: mm_covered_def\<close>)+
  show "unat b + f b = (LEAST x. unat b \<le> x \<and> x \<notin> mm_covered f (b # bs))"
    by (rule Least_equality [symmetric]) (use * in \<open>force simp: mm_covered_def\<close>)+
qed

theorem mm_covered_unique:
  assumes "mm_blocks_ok hi f bs" and "mm_blocks_ok hi' g cs" and "mm_covered f bs = mm_covered g cs"
  shows "bs = cs \<and> (\<forall>b\<in>set bs. f b = g b)"
  using assms
proof (induction bs arbitrary: cs)
  case Nil
  then show ?case by (cases cs) (auto simp: mm_blocks_ok_Cons)
next
  case (Cons b bs)
  show ?case
  proof (cases cs)
    case Nil
    with Cons.prems show ?thesis by (auto simp: mm_blocks_ok_Cons)
  next
    case (Cons c cs')
    note hd = mm_covered_hd [OF Cons.prems(1)] mm_covered_hd [OF Cons.prems(2) [unfolded Cons]]
    note cov = Cons.prems(3) [unfolded Cons]
    have bc: "unat b = unat c" using hd(1,3) unfolding cov by (simp only:)
    moreover have "unat b + f b = unat c + g c" using hd(2,4) unfolding cov bc by (simp only:)
    ultimately have "f b = g c" by simp
    moreover have "b = c" using \<open>unat b = unat c\<close> by (simp only: word_unat_eq_iff)
    ultimately have bc: "b = c" "f b = g b" by simp_all
    have "mm_covered f bs = mm_covered f (b # bs) - {unat b ..< unat b + f b}"
      using mm_covered_disjoint(2) [of hi f "[]" b bs] Cons.prems(1) by fastforce
    also have "\<dots> = mm_covered g (c # cs') - {unat b ..< unat b + f b}" by (simp only: cov)
    also have "\<dots> = mm_covered g (c # cs') - {unat c ..< unat c + g c}" using bc by simp
    also have "\<dots> = mm_covered g cs'"
      using mm_covered_disjoint(2) [of hi' g "[]" c cs'] Cons.prems(2) Cons by fastforce
    finally have "bs = cs' \<and> (\<forall>b\<in>set bs. f b = g b)"
      using Cons.IH [of cs'] Cons.prems(1,2) Cons by (simp add: mm_blocks_ok_Cons)
    with bc Cons show ?thesis by simp
  qed
qed

text \<open>The list steps of allocation and of the four kinds of release.\<close>

lemma mm_blocks_shrink:
  assumes "mm_blocks_ok hi f (as @ b # cs)" and "s < f b" and "32 dvd s" and "g = f(b := f b - s)"
  shows "mm_blocks_ok hi g (as @ b # cs)"
    and "mm_covered g (as @ b # cs) = mm_covered f (as @ b # cs) - {unat b + (f b - s) ..< unat b + f b}"
proof -
  have b: "b \<notin> set as" "b \<notin> set cs" using mm_blocks_distinct [OF assms(1)] by auto
  then show "mm_blocks_ok hi g (as @ b # cs)"
    using assms by (auto simp: mm_blocks_ok_append mm_blocks_ok_Cons)
  have "mm_covered g (as @ b # cs) = mm_covered f as \<union> {unat b ..< unat b + (f b - s)} \<union> mm_covered f cs"
    using b assms(4) by (simp add: Un_assoc)
  also have "\<dots> = mm_covered f (as @ b # cs) - {unat b + (f b - s) ..< unat b + f b}"
    using mm_covered_disjoint [OF assms(1)] assms(2) unfolding mm_covered_append mm_covered_Cons
    by fastforce
  finally show "mm_covered g (as @ b # cs) = mm_covered f (as @ b # cs) - {unat b + (f b - s) ..< unat b + f b}" .
qed

lemma mm_blocks_remove:
  assumes "mm_blocks_ok hi f (as @ b # cs)"
  shows "mm_blocks_ok hi f (as @ cs)"
    and "mm_covered f (as @ cs) = mm_covered f (as @ b # cs) - {unat b ..< unat b + f b}"
proof -
  show "mm_blocks_ok hi f (as @ cs)" using assms by (auto simp: mm_blocks_ok_append mm_blocks_ok_Cons)
  show "mm_covered f (as @ cs) = mm_covered f (as @ b # cs) - {unat b ..< unat b + f b}"
    using mm_covered_disjoint [OF assms] unfolding mm_covered_append mm_covered_Cons by fastforce
qed

lemma mm_blocks_fresh:
  assumes "mm_blocks_ok hi f (as @ cs)" and "32 dvd s" and "0 < s" and "unat a + s \<le> hi"
    and "\<forall>x\<in>set as. unat x + f x < unat a" and "\<forall>c\<in>set cs. unat a + s < unat c" and "g = f(a := s)"
  shows "mm_blocks_ok hi g (as @ a # cs)"
    and "mm_covered g (as @ a # cs) = mm_covered f (as @ cs) \<union> {unat a ..< unat a + s}"
proof -
  have a: "a \<notin> set as" "a \<notin> set cs" using assms(5,6) by fastforce+
  then show "mm_blocks_ok hi g (as @ a # cs)"
    using assms by (auto simp: mm_blocks_ok_append mm_blocks_ok_Cons)
  show "mm_covered g (as @ a # cs) = mm_covered f (as @ cs) \<union> {unat a ..< unat a + s}"
    using a assms(7) by auto
qed

lemma mm_blocks_grow:
  assumes "mm_blocks_ok hi f (as @ n # cs)" and "32 dvd s" and "unat n + f n + s \<le> hi"
    and "\<forall>c\<in>set cs. unat n + f n + s < unat c" and "g = f(n := f n + s)"
  shows "mm_blocks_ok hi g (as @ n # cs)"
    and "mm_covered g (as @ n # cs) = mm_covered f (as @ n # cs) \<union> {unat n + f n ..< unat n + f n + s}"
proof -
  have a: "n \<notin> set as" "n \<notin> set cs" using mm_blocks_distinct [OF assms(1)] by auto
  then show "mm_blocks_ok hi g (as @ n # cs)"
    using assms by (auto simp: mm_blocks_ok_append mm_blocks_ok_Cons)
  have "{unat n ..< unat n + (f n + s)} = {unat n ..< unat n + f n} \<union> {unat n + f n ..< unat n + f n + s}"
    by auto
  then show "mm_covered g (as @ n # cs) = mm_covered f (as @ n # cs) \<union> {unat n + f n ..< unat n + f n + s}"
    using a assms(5) by auto
qed

lemma mm_blocks_grow_both:
  assumes "mm_blocks_ok hi f (as @ n # m # cs)" and "32 dvd s" and "unat n + f n + s = unat m"
    and "g = f(n := f n + s + f m)"
  shows "mm_blocks_ok hi g (as @ n # cs)"
    and "mm_covered g (as @ n # cs) = mm_covered f (as @ n # m # cs) \<union> {unat n + f n ..< unat m}"
proof -
  have "mm_blocks_ok hi f ((as @ [n]) @ m # cs)" using assms(1) by simp
  from mm_blocks_remove [OF this] have ok: "mm_blocks_ok hi f (as @ n # cs)"
    and cov: "mm_covered f (as @ n # cs) = mm_covered f (as @ n # m # cs) - {unat m ..< unat m + f m}"
    by simp_all
  have s: "32 dvd s + f m" "unat n + f n + (s + f m) \<le> hi" "\<forall>c\<in>set cs. unat n + f n + (s + f m) < unat c"
    using assms by (auto simp: mm_blocks_ok_append mm_blocks_ok_Cons)
  have g: "g = f(n := f n + (s + f m))" using assms(4) by (simp add: add.assoc)
  note grow = mm_blocks_grow [OF ok s g]
  show "mm_blocks_ok hi g (as @ n # cs)" by (rule grow(1))
  have "{unat n + f n ..< unat n + f n + (s + f m)} = {unat n + f n ..< unat m} \<union> {unat m ..< unat m + f m}"
    using assms(3) by auto
  moreover have "{unat m ..< unat m + f m} \<subseteq> mm_covered f (as @ n # m # cs)" by auto
  ultimately show "mm_covered g (as @ n # cs) = mm_covered f (as @ n # m # cs) \<union> {unat n + f n ..< unat m}"
    unfolding grow(2) cov by blast
qed

lemma mm_blocks_grow_down:
  assumes "mm_blocks_ok hi f (as @ n # cs)" and "32 dvd s" and "0 < s" and "unat a + s = unat n"
    and "\<forall>x\<in>set as. unat x + f x < unat a" and "g = f(a := s + f n)"
  shows "mm_blocks_ok hi g (as @ a # cs)"
    and "mm_covered g (as @ a # cs) = mm_covered f (as @ n # cs) \<union> {unat a ..< unat n}"
proof -
  note rem = mm_blocks_remove [OF assms(1)]
  have s: "32 dvd s + f n" "0 < s + f n" "unat a + (s + f n) \<le> hi" "\<forall>c\<in>set cs. unat a + (s + f n) < unat c"
    using assms by (auto simp: mm_blocks_ok_append mm_blocks_ok_Cons)
  note fresh = mm_blocks_fresh [OF rem(1) s(1-3) assms(5) s(4) assms(6)]
  show "mm_blocks_ok hi g (as @ a # cs)" by (rule fresh(1))
  have "{unat a ..< unat a + (s + f n)} = {unat a ..< unat n} \<union> {unat n ..< unat n + f n}"
    using assms(4) by auto
  moreover have "{unat n ..< unat n + f n} \<subseteq> mm_covered f (as @ n # cs)" by auto
  ultimately show "mm_covered g (as @ a # cs) = mm_covered f (as @ n # cs) \<union> {unat a ..< unat n}"
    unfolding fresh(2) rem(2) by blast
qed

section \<open>The invariant\<close>

abbreviation blen :: "rb_heap \<Rightarrow> addr \<Rightarrow> nat" where
  "blen h b \<equiv> unat (xf_mm_block_length h b)"

definition mm_inv :: "nat \<Rightarrow> nat \<Rightarrow> addr \<Rightarrow> rb_heap \<Rightarrow> addr list \<Rightarrow> bool" where
  "mm_inv lo hi pool h bs \<longleftrightarrow>
     (\<exists>ls. mm_maps lo hi pool h bs ls \<and> mset ls = mset bs) \<and> mm_blocks_ok hi (blen h) bs"

lemma mm_inv_node:
  assumes "mm_inv lo hi pool h bs" and "b \<in> set bs"
  shows "mm_node_ok lo hi b"
  using assms by (auto simp: mm_inv_def mm_maps_def)

lemma blen_store:
  "(blen (h(b := (h b)\<lparr>color := c\<rparr>))) = (blen h)(b := unat (c AND NOT 1))"
  by (rule ext) (simp add: xf_mm_block_length_def)

lemma length_store:
  "xf_mm_block_length (h(b := (h b)\<lparr>color := c\<rparr>)) = (xf_mm_block_length h)(b := c AND NOT 1)"
  by (rule ext) (simp add: xf_mm_block_length_def)

section \<open>Allocation\<close>

theorem xf_mm_alloc_spec:
  assumes I: "mm_inv lo hi pool h bs" and sz: "32 dvd unat sz" "0 < unat sz"
  shows "(\<forall>b\<in>set bs. blen h b < unat sz) \<and> xf_mm_alloc pool h sz = Some (h, None) \<or>
    (\<exists>b h' r bs'. b \<in> set bs \<and> unat sz \<le> blen h b \<and>
       (\<forall>c\<in>set bs. unat sz \<le> blen h c \<longrightarrow> blen h b \<le> blen h c) \<and>
       xf_mm_alloc pool h sz = Some (h', Some r) \<and> unat r = unat b + (blen h b - unat sz) \<and>
       mm_inv lo hi pool h' bs' \<and>
       mm_covered (blen h') bs' = mm_covered (blen h) bs - {unat r ..< unat r + unat sz})"
proof -
  from I obtain ls where M: "mm_maps lo hi pool h bs ls" and ms: "mset ls = mset bs"
    and ok: "mm_blocks_ok hi (blen h) bs" by (auto simp: mm_inv_def)
  have sts: "set ls = set bs" using ms by (metis set_mset_mset)
  have Ix: "rb_index h (mm_l_map pool) ls" and so: "sorted (map (xf_mm_block_length h) ls)"
    and P: "mm_pool_ok lo hi pool" using M by (auto simp: mm_maps_def)
  have ev: "sz AND 1 = 0" by (rule dvd32_even [OF sz(1)])
  from sorted_split_le [OF so, of sz] obtain xs ys where ls: "ls = xs @ ys"
    and xs: "\<forall>a\<in>set xs. xf_mm_block_length h a < sz" and ys: "\<forall>b\<in>set ys. sz \<le> xf_mm_block_length h b"
    by blast
  have find: "xf_mm_find_by_size pool h sz = Some (if ys = [] then None else Some (hd ys))"
    by (rule xf_mm_find_by_size_hd [OF Ix [unfolded ls]]) (use xs ys ev in \<open>auto simp: length_less_iff not_less\<close>)
  show ?thesis
  proof (cases ys)
    case Nil
    then have "\<forall>b\<in>set bs. blen h b < unat sz" using xs ls sts by (auto simp: word_less_nat_alt)
    with Nil find show ?thesis by (auto simp: xf_mm_alloc_def)
  next
    case (Cons b ys')
    have D: "distinct ls" using rb_index_distinct [OF Ix] by simp
    have b: "b \<in> set ls" "b \<in> set bs" using ls Cons sts by auto
    have le: "unat sz \<le> blen h b" using ys Cons by (auto simp: word_le_nat_alt)
    have best: "\<forall>c\<in>set bs. unat sz \<le> blen h c \<longrightarrow> blen h b \<le> blen h c"
    proof (intro ballI impI)
      fix c assume c: "c \<in> set bs" "unat sz \<le> blen h c"
      then have "c \<notin> set xs" using xs by (auto simp: word_less_nat_alt)
      with c(1) have "c \<in> set ys" using ls sts by auto
      then show "blen h b \<le> blen h c"
        using so ls Cons by (auto simp: sorted_append word_le_nat_alt)
    qed
    from split_list [OF b(2)] obtain as cs where bs: "bs = as @ b # cs" by blast
    obtain h1 q where d: "rb_delete (mm_l_map pool) h b = Some (h1, q)"
      "mm_maps lo hi pool h1 bs (remove1 b ls)" "xf_mm_block_length h1 = xf_mm_block_length h"
      by (rule mm_l_delete [OF M b(1)])
    define h2 where "h2 = h1(b := (h1 b)\<lparr>color := color (h1 b) - sz\<rparr>)"
    define sz' where "sz' = xf_mm_block_length h b - sz"
    have sub: "(color (h1 b) - sz) AND NOT 1 = sz'"
      using d(3) and_not_1_minus [OF ev] by (metis sz'_def xf_mm_block_length_def)
    have M2: "mm_maps lo hi pool h2 bs (remove1 b ls)"
      unfolding h2_def by (rule mm_store [OF d(2)]) (use D mm_inv_node [OF I b(2)] in auto)
    have L2: "xf_mm_block_length h2 = (xf_mm_block_length h)(b := sz')"
      unfolding h2_def length_store d(3) sub ..
    have u': "unat sz' = blen h b - unat sz"
      unfolding sz'_def by (rule unat_sub) (use le in \<open>simp add: word_le_nat_alt\<close>)
    have ms': "mset (remove1 b ls) = mset (as @ cs)" using ms bs by simp
    have dv: "32 dvd blen h b" "unat b + blen h b \<le> hi"
      using ok bs by (auto simp: mm_blocks_ok_append mm_blocks_ok_Cons)
    have hi: "hi \<le> 2 ^ 32" using P by (simp add: mm_pool_ok_def)
    have sub': "xf_mm_block_length_sub b sz h1 = (h2, sz')"
      by (simp only: xf_mm_block_length_sub_def h2_def sub)
    show ?thesis
    proof (cases "sz' = 0")
      case True
      then have full: "blen h b = unat sz" using u' le by simp
      obtain h3 q3 where a: "rb_delete (mm_a_map pool) h2 (mm_a_node b) = Some (h3, q3)"
        "mm_maps lo hi pool h3 (as @ cs) (remove1 b ls)" "xf_mm_block_length h3 = xf_mm_block_length h2"
        by (rule mm_a_delete [OF M2 [unfolded bs]])
      have call: "xf_mm_alloc pool h sz = Some (h3, Some b)"
        using find Cons d(1) a(1) True by (simp add: xf_mm_alloc_def sub')
      note rem = mm_blocks_remove [OF ok [unfolded bs]]
      have "b \<notin> set (as @ cs)" using mm_blocks_distinct [OF ok] bs by auto
      then have eq: "blen h3 x = blen h x" if "x \<in> set (as @ cs)" for x
        using that by (auto simp: a(3) L2)
      have upd: "mm_blocks_ok hi (blen h3) (as @ cs)" "mm_covered (blen h3) (as @ cs) = mm_covered (blen h) (as @ cs)"
        by (rule mm_blocks_ok_cong [OF rem(1) eq], assumption) (rule mm_covered_cong [OF eq])
      have "mm_inv lo hi pool h3 (as @ cs)" using a(2) ms' upd(1) by (auto simp: mm_inv_def)
      moreover have "mm_covered (blen h3) (as @ cs) = mm_covered (blen h) bs - {unat b ..< unat b + unat sz}"
        unfolding upd(2) rem(2) bs full ..
      ultimately show ?thesis using b(2) le best call full by (intro disjI2) fastforce
    next
      case False
      have lt: "unat sz < blen h b" using False u' le by (metis diff_is_0_eq le_neq_implies_less unat_eq_zero)
      have "b \<notin> set (remove1 b ls)" using D by simp
      moreover have "sz' AND 1 = 0"
        unfolding sz'_def xf_mm_block_length_def by (rule even_minus_word [OF and_not_1_even ev])
      ultimately obtain h3 ls' where i: "xf_mm_insert_size pool b sz' h2 = Some h3"
        "mm_maps lo hi pool h3 bs ls'" "mset ls' = add_mset b (mset (remove1 b ls))"
        "xf_mm_block_length h3 = xf_mm_block_length h2"
        using mm_l_insert [OF M2 _ mm_inv_node [OF I b(2)], of sz'] L2 by auto
      have call: "xf_mm_alloc pool h sz = Some (h3, Some (b + sz'))"
        using find Cons d(1) i(1) False by (simp add: xf_mm_alloc_def sub')
      have r: "unat (b + sz') = unat b + unat sz'"
        using dv(2) hi u' sz(2) le by (simp add: unat_word_ariths)
      have f: "blen h3 = (blen h)(b := blen h b - unat sz)"
        unfolding i(4) L2 by (rule ext) (simp add: u')
      note sh = mm_blocks_shrink [OF ok [unfolded bs] lt sz(1) f]
      have "mset ls' = mset bs" using i(3) ms' bs by simp
      then have "mm_inv lo hi pool h3 bs" using i(2) sh(1) bs by (auto simp: mm_inv_def)
      moreover have "mm_covered (blen h3) bs =
          mm_covered (blen h) bs - {unat (b + sz') ..< unat (b + sz') + unat sz}"
        using sh(2) r u' lt bs by simp
      ultimately show ?thesis using b(2) le best call r u' by (intro disjI2) metis
    qed
  qed
qed

section \<open>Release\<close>

text \<open>The pool structure lies outside the managed range, so lengths do not wrap around.\<close>

lemma mm_pool_range: "mm_pool_ok lo hi pool \<Longrightarrow> hi < 2 ^ 32 + lo"
  by (auto simp: mm_pool_ok_def)

lemma mm_unat_sum:
  assumes "mm_pool_ok lo hi pool" and "mm_node_ok lo hi a" and "unat a + (unat x + unat y) \<le> hi"
  shows "unat (x + y :: u32) = unat x + unat y"
  using assms mm_pool_range [OF assms(1)] by (simp add: mm_node_ok_def unat_word_ariths)

lemma mm_find_by_addr_split:
  assumes M: "mm_maps lo hi pool h (as @ cs) ls" and a: "mm_node_ok lo hi a"
    and ord: "\<forall>x\<in>set as. x < a" "\<forall>x\<in>set cs. \<not> x < a"
  shows "xf_mm_find_by_addr pool h a =
    Some (if as = [] then None else Some (last as), if cs = [] then None else Some (hd cs))"
proof -
  let ?t = "mm_a_map pool"
  have P: "mm_pool_ok lo hi pool" and N: "\<forall>x\<in>set (as @ cs). mm_node_ok lo hi x"
    and "rb_index h ?t (map mm_a_node as @ map mm_a_node cs)" using M by (auto simp: mm_maps_def)
  then obtain T where T: "tree_at h ?t ?t (left (h ?t)) T" "ino T = map mm_a_node as @ map mm_a_node cs"
    by (auto simp: rb_index_def rb_tree_def)
  have "\<forall>x\<in>set (map mm_a_node as). x < a" "\<forall>x\<in>set (map mm_a_node cs). \<not> x < a"
    using mm_a_node_less [OF P _ a] N ord by auto
  from mm_neighbours_split [OF T this, of None None] show ?thesis
    by (simp add: xf_mm_find_by_addr_def RB_ROOT_def Let_def last_map hd_map mm_a_node_def)
qed

text \<open>Adding to the length of a block that is not in the length map.\<close>

lemma mm_add_step:
  assumes M: "mm_maps lo hi pool h bs ls" and b: "b \<notin> set ls" "mm_node_ok lo hi b" and sz: "sz AND 1 = 0"
  obtains h' where "xf_mm_block_length_add b sz h = (h', xf_mm_block_length h b + sz)"
    and "mm_maps lo hi pool h' bs ls"
    and "xf_mm_block_length h' = (xf_mm_block_length h)(b := xf_mm_block_length h b + sz)"
proof -
  define h' where "h' = h(b := (h b)\<lparr>color := color (h b) + sz\<rparr>)"
  have add: "(color (h b) + sz) AND NOT 1 = xf_mm_block_length h b + sz"
    unfolding xf_mm_block_length_def by (rule and_not_1_plus [OF sz])
  have "xf_mm_block_length_add b sz h = (h', xf_mm_block_length h b + sz)"
    by (simp only: xf_mm_block_length_add_def h'_def add)
  moreover have "mm_maps lo hi pool h' bs ls" unfolding h'_def by (rule mm_store [OF M b])
  moreover have "xf_mm_block_length h' = (xf_mm_block_length h)(b := xf_mm_block_length h b + sz)"
    unfolding h'_def length_store add ..
  ultimately show thesis by (rule that)
qed

text \<open>The last step of every release: the (merged) block goes into the length map.\<close>

lemma mm_free_finish:
  assumes M: "mm_maps lo hi pool h bs ls" and b: "b \<in> set bs" "add_mset b (mset ls) = mset bs"
    and ok: "mm_blocks_ok hi (blen h) bs"
  obtains h' where "xf_mm_insert_size pool b (xf_mm_block_length h b) h = Some h'"
    and "mm_inv lo hi pool h' bs" and "blen h' = blen h"
proof -
  have "distinct bs" by (rule mm_blocks_distinct [OF ok])
  then have "b \<notin> set ls" using mset_eq_imp_distinct_iff [of "b # ls" bs] b(2) by simp
  moreover have "mm_node_ok lo hi b" using M b(1) by (auto simp: mm_maps_def)
  moreover have "xf_mm_block_length h b AND 1 = 0"
    unfolding xf_mm_block_length_def by (rule and_not_1_even)
  ultimately obtain h' ls' where i: "xf_mm_insert_size pool b (xf_mm_block_length h b) h = Some h'"
    "mm_maps lo hi pool h' bs ls'" "mset ls' = add_mset b (mset ls)"
    "xf_mm_block_length h' = xf_mm_block_length h"
    using mm_l_insert [OF M _ _ refl] by metis
  then have "mm_inv lo hi pool h' bs" using ok b(2) by (auto simp: mm_inv_def)
  from that [OF i(1) this] i(4) show thesis by simp
qed

lemma mm_no_touch:
  assumes "mm_blocks_ok hi f cs" and "\<forall>c\<in>set cs. k \<le> unat c" and "\<not> (\<exists>n cs'. cs = n # cs' \<and> unat n = k)"
  shows "\<forall>c\<in>set cs. k < unat c"
proof (cases cs)
  case (Cons n cs')
  with assms(2,3) have "k < unat n" by (simp add: order.order_iff_strict)
  with assms(1) Cons show ?thesis by (auto simp: mm_blocks_ok_Cons)
qed simp

text \<open>Without a left neighbour to merge with: the block is new, or takes the place of its right
  neighbour.\<close>

lemma mm_free_right:
  assumes M: "mm_maps lo hi pool h0 (as @ cs) ls" and ms: "mset ls = mset (as @ cs)"
    and ok: "mm_blocks_ok hi f (as @ cs)" and f: "blen h0 = f(a := unat sz)"
    and a: "mm_node_ok lo hi a" "unat a + unat sz \<le> hi" and sz: "32 dvd unat sz" "0 < unat sz"
    and as: "\<forall>x\<in>set as. unat x + f x < unat a" and cs: "\<forall>c\<in>set cs. unat a + unat sz \<le> unat c"
    and n1: "n1 = (if cs = [] then None else Some (hd cs))"
  obtains h1 n1' s h2 h' bs' where "mm_merge_right pool a None n1 a sz h0 = Some (h1, n1', s)"
    and "(if n1' = None then xf_mm_insert_addr pool a h1 else Some h1) = Some h2"
    and "xf_mm_insert_size pool a s h2 = Some h'" and "mm_inv lo hi pool h' bs'"
    and "mm_covered (blen h') bs' = mm_covered f (as @ cs) \<union> {unat a ..< unat a + unat sz}"
proof -
  have P: "mm_pool_ok lo hi pool" and N: "\<forall>b\<in>set (as @ cs). mm_node_ok lo hi b" using M by (auto simp: mm_maps_def)
  then have hi: "hi \<le> 2 ^ 32" by (simp add: mm_pool_ok_def)
  have an: "a \<notin> set as" "a \<notin> set cs" using as cs sz(2) by fastforce+
  have al: "a \<notin> set ls" using an ms by (metis Un_iff set_append set_mset_mset)
  have La: "xf_mm_block_length h0 a = sz" using fun_cong [OF f, of a] by (simp add: word_unat_eq_iff)
  have adj: "n = a + sz \<longleftrightarrow> unat n = unat a + unat sz" if "n \<in> set cs" for n
  proof -
    have "unat n < 2 ^ LENGTH(32)" by (rule unsigned_less)
    then have "unat a + unat sz < 2 ^ 32" using cs that by fastforce
    then have "unat (a + sz) = unat a + unat sz" by (simp add: unat_word_ariths)
    then show ?thesis by (metis word_unat_eq_iff)
  qed
  show thesis
  proof (cases "\<exists>n cs'. cs = n # cs' \<and> unat n = unat a + unat sz")
    case True
    then obtain n cs' where n: "cs = n # cs'" "unat n = unat a + unat sz" by blast
    have nl: "n \<in> set ls" using ms n by (metis in_set_conv_decomp set_mset_mset)
    obtain h1 q where d: "rb_delete (mm_l_map pool) h0 n = Some (h1, q)"
      "mm_maps lo hi pool h1 (as @ cs) (remove1 n ls)" "xf_mm_block_length h1 = xf_mm_block_length h0"
      by (rule mm_l_delete [OF M nl])
    have "a \<notin> set (remove1 n ls)" using al set_remove1_subset by fast
    moreover have "xf_mm_block_length h1 n AND 1 = 0"
      unfolding xf_mm_block_length_def by (rule and_not_1_even)
    ultimately obtain h2 where e: "xf_mm_block_length_add a (xf_mm_block_length h1 n) h1 =
        (h2, xf_mm_block_length h1 a + xf_mm_block_length h1 n)"
      "mm_maps lo hi pool h2 (as @ cs) (remove1 n ls)"
      "xf_mm_block_length h2 = (xf_mm_block_length h1)(a := xf_mm_block_length h1 a + xf_mm_block_length h1 n)"
      by (rule mm_add_step [OF d(2) _ a(1)])
    let ?s = "sz + xf_mm_block_length h0 n"
    let ?h3 = "rb_replace (mm_a_map pool) h2 (mm_a_node n) (mm_a_node a)"
    have an': "a \<notin> set (as @ n # cs')" using an n by auto
    note rep = mm_a_replace [OF e(2) [unfolded n(1)] a(1) an']
    have L3: "xf_mm_block_length ?h3 = (xf_mm_block_length h0)(a := ?s)"
      unfolding rep(2) e(3) d(3) La ..
    have merge: "mm_merge_right pool a None n1 a sz h0 = Some (?h3, Some n, ?s)"
      using n adj [of n] d(1,3) e(1) La by (simp add: mm_merge_right_def n1)
    have bn: "blen h0 n = f n" using fun_cong [OF f, of n] an n by auto
    have "unat n + f n \<le> hi" using ok n by (auto simp: mm_blocks_ok_append mm_blocks_ok_Cons)
    then have us: "unat ?s = unat sz + f n"
      using mm_unat_sum [OF P a(1), of sz "xf_mm_block_length h0 n"] bn n(2) by simp
    have g: "blen ?h3 = f(a := unat sz + f n)" unfolding L3 using fun_cong [OF f] us by (auto simp: fun_eq_iff)
    note grow = mm_blocks_grow_down [OF ok [unfolded n(1)] sz n(2) [symmetric] as g]
    have "add_mset a (mset (remove1 n ls)) = mset (as @ a # cs')" using ms n by simp
    from mm_free_finish [OF rep(1) _ this grow(1)] obtain h' where
      fin: "xf_mm_insert_size pool a ?s ?h3 = Some h'" "mm_inv lo hi pool h' (as @ a # cs')" "blen h' = blen ?h3"
      unfolding L3 by auto
    have "mm_covered (blen h') (as @ a # cs') = mm_covered f (as @ cs) \<union> {unat a ..< unat a + unat sz}"
      by (simp only: fin(3) grow(2) n)
    from that [OF merge _ fin(1,2) this] show thesis by simp
  next
    case False
    then have cs': "\<forall>c\<in>set cs. unat a + unat sz < unat c"
      by (intro mm_no_touch [OF _ cs]) (use ok in \<open>auto simp: mm_blocks_ok_append\<close>)
    have merge: "mm_merge_right pool a None n1 a sz h0 = Some (h0, None, sz)"
      using False adj cs' by (cases cs) (auto simp: mm_merge_right_def n1)
    have "\<forall>x\<in>set as. x < a" "\<forall>c\<in>set cs. a < c"
      using as cs' by (fastforce simp: word_less_nat_alt)+
    from mm_a_insert [OF M a(1) this] obtain h2 where
      i: "xf_mm_insert_addr pool a h0 = Some h2" "mm_maps lo hi pool h2 (as @ a # cs) ls"
        "xf_mm_block_length h2 = xf_mm_block_length h0" by blast
    note fresh = mm_blocks_fresh [OF ok sz a(2) as cs' f]
    have g: "blen h2 = blen h0" using i(3) by simp
    have "add_mset a (mset ls) = mset (as @ a # cs)" using ms by simp
    from mm_free_finish [OF i(2) _ this fresh(1) [folded g]] obtain h' where
      fin: "xf_mm_insert_size pool a sz h2 = Some h'" "mm_inv lo hi pool h' (as @ a # cs)" "blen h' = blen h2"
      unfolding i(3) La by auto
    have "mm_covered (blen h') (as @ a # cs) = mm_covered f (as @ cs) \<union> {unat a ..< unat a + unat sz}"
      by (simp only: fin(3) g fresh(2))
    from that [OF merge _ fin(1,2) this] i(1) show thesis by simp
  qed
qed

text \<open>With a left neighbour to merge with: that block grows, and swallows the right neighbour
  when they meet.\<close>

lemma mm_free_left:
  assumes M: "mm_maps lo hi pool h0 (as @ n # cs) ls" and ms: "mset ls = mset (as @ n # cs)"
    and ok: "mm_blocks_ok hi f (as @ n # cs)" and f: "blen h0 = f(a := unat sz)"
    and a: "unat a + unat sz \<le> hi" and sz: "32 dvd unat sz" "0 < unat sz"
    and na: "unat n + f n = unat a" and cs: "\<forall>c\<in>set cs. unat a + unat sz \<le> unat c"
    and as: "a \<notin> set as"
    and n1: "n1 = (if cs = [] then None else Some (hd cs))"
  obtains h1 s1 h2 n1' s h' bs' where "mm_merge_left pool (Some n) a sz h0 = Some (h1, n, Some n, n, s1)"
    and "mm_merge_right pool n (Some n) n1 n s1 h1 = Some (h2, n1', s)"
    and "xf_mm_insert_size pool n s h2 = Some h'" and "mm_inv lo hi pool h' bs'"
    and "mm_covered (blen h') bs' = mm_covered f (as @ n # cs) \<union> {unat a ..< unat a + unat sz}"
proof -
  have P: "mm_pool_ok lo hi pool" and N: "\<forall>b\<in>set (as @ n # cs). mm_node_ok lo hi b" using M by (auto simp: mm_maps_def)
  then have hi: "hi \<le> 2 ^ 32" by (simp add: mm_pool_ok_def)
  have fn: "0 < f n" using ok by (auto simp: mm_blocks_ok_append mm_blocks_ok_Cons)
  have an: "a \<noteq> n" "a \<notin> set cs" using na cs sz(2) fn by fastforce+
  have D: "distinct ls" using ms mm_blocks_distinct [OF ok] mset_eq_imp_distinct_iff by blast
  have nl: "n \<in> set ls" using ms by (metis in_set_conv_decomp set_mset_mset)
  have Ln: "blen h0 n = f n" using fun_cong [OF f, of n] an by simp
  have ev: "sz AND 1 = 0" by (rule dvd32_even [OF sz(1)])
  obtain hd q where d: "rb_delete (mm_l_map pool) h0 n = Some (hd, q)"
    "mm_maps lo hi pool hd (as @ n # cs) (remove1 n ls)" "xf_mm_block_length hd = xf_mm_block_length h0"
    by (rule mm_l_delete [OF M nl])
  let ?L = "xf_mm_block_length h0 n"
  have nd: "n \<notin> set (remove1 n ls)" using D by simp
  have nn: "mm_node_ok lo hi n" using N by simp
  obtain h1 where e: "xf_mm_block_length_add n sz hd = (h1, ?L + sz)"
    "mm_maps lo hi pool h1 (as @ n # cs) (remove1 n ls)"
    "xf_mm_block_length h1 = (xf_mm_block_length h0)(n := ?L + sz)"
    using mm_add_step [OF d(2) nd nn ev] d(3) by metis
  have "unat n + blen h0 n < 2 ^ 32" using na Ln a hi sz(2) by simp
  then have "unat (n + ?L) = unat a" using na Ln by (simp add: unat_word_ariths)
  then have "n + ?L = a" by (simp add: word_unat_eq_iff)
  then have left: "mm_merge_left pool (Some n) a sz h0 = Some (h1, n, Some n, n, ?L + sz)"
    using d(1,3) e(1) by (simp add: mm_merge_left_def)
  have nsz: "n + (?L + sz) = a + sz" using \<open>n + ?L = a\<close> by (simp add: add.assoc [symmetric])
  have u: "unat (?L + sz) = f n + unat sz"
    using mm_unat_sum [OF P nn, of ?L sz] na Ln a by simp
  have adj: "c = a + sz \<longleftrightarrow> unat c = unat a + unat sz" if "c \<in> set cs" for c
  proof -
    have "unat c < 2 ^ LENGTH(32)" by (rule unsigned_less)
    then have "unat a + unat sz < 2 ^ 32" using cs that by fastforce
    then have "unat (a + sz) = unat a + unat sz" by (simp add: unat_word_ariths)
    then show ?thesis by (metis word_unat_eq_iff)
  qed
  show thesis
  proof (cases "\<exists>m cs'. cs = m # cs' \<and> unat m = unat a + unat sz")
    case True
    then obtain m cs' where m: "cs = m # cs'" "unat m = unat a + unat sz" by blast
    have mn: "m \<noteq> n" "a \<noteq> m" using mm_blocks_distinct [OF ok] m an by auto
    have ml: "m \<in> set (remove1 n ls)"
      using ms m mn by (metis in_set_conv_decomp in_set_remove1 list.set_intros(1) set_ConsD set_mset_mset
          Un_iff set_append list.set_intros(2))
    obtain h2 q2 where d2: "rb_delete (mm_l_map pool) h1 m = Some (h2, q2)"
      "mm_maps lo hi pool h2 (as @ n # cs) (remove1 m (remove1 n ls))"
      "xf_mm_block_length h2 = xf_mm_block_length h1"
      by (rule mm_l_delete [OF e(2) ml])
    let ?M = "xf_mm_block_length h0 m"
    have M1: "xf_mm_block_length h1 m = ?M" "xf_mm_block_length h1 n = ?L + sz" using mn by (simp_all add: e(3))
    have "n \<notin> set (remove1 m (remove1 n ls))" using nd set_remove1_subset by fast
    moreover have "?M AND 1 = 0" unfolding xf_mm_block_length_def by (rule and_not_1_even)
    ultimately obtain h3 where e3: "xf_mm_block_length_add n ?M h2 = (h3, ?L + sz + ?M)"
      "mm_maps lo hi pool h3 (as @ n # cs) (remove1 m (remove1 n ls))"
      "xf_mm_block_length h3 = (xf_mm_block_length h1)(n := ?L + sz + ?M)"
      using mm_add_step [OF d2(2) _ nn] d2(3) M1 by metis
    have "mm_maps lo hi pool h3 ((as @ [n]) @ m # cs') (remove1 m (remove1 n ls))" using e3(2) m by simp
    from mm_a_delete [OF this] obtain h4 q4 where d4: "rb_delete (mm_a_map pool) h3 (mm_a_node m) = Some (h4, q4)"
      "mm_maps lo hi pool h4 (as @ n # cs') (remove1 m (remove1 n ls))"
      "xf_mm_block_length h4 = xf_mm_block_length h3" by auto
    have right: "mm_merge_right pool n (Some n) n1 n (?L + sz) h1 = Some (h4, Some m, ?L + sz + ?M)"
      using m adj [of m] nsz d2(1,3) e3(1) d4(1) M1 by (simp add: mm_merge_right_def n1)
    have Lm: "unat ?M = f m" using fun_cong [OF f, of m] mn by simp
    have "unat m + f m \<le> hi" using ok m by (auto simp: mm_blocks_ok_append mm_blocks_ok_Cons)
    then have us: "unat (?L + sz + ?M) = f n + unat sz + f m"
      using mm_unat_sum [OF P nn, of "?L + sz" ?M] u Lm na m(2) by simp
    have nlf: "a \<notin> set (as @ n # cs')"
      using as an m by auto
    have g: "blen h4 = (f(a := unat sz))(n := f n + unat sz + f m)"
      unfolding d4(3) e3(3) e(3) using fun_cong [OF f] us by (auto simp: fun_eq_iff)
    have ok': "mm_blocks_ok hi (f(a := unat sz)) (as @ n # m # cs')"
      by (rule mm_blocks_ok_cong [OF ok [unfolded m(1)]]) (use nlf mn in auto)
    have cov': "mm_covered (f(a := unat sz)) (as @ n # m # cs') = mm_covered f (as @ n # cs)"
      unfolding m(1) by (rule mm_covered_cong) (use nlf mn in auto)
    have s': "unat n + (f(a := unat sz)) n + unat sz = unat m" using na m(2) an by simp
    have g': "blen h4 = (f(a := unat sz))(n := (f(a := unat sz)) n + unat sz + (f(a := unat sz)) m)"
      unfolding g using an mn by auto
    note grow = mm_blocks_grow_both [OF ok' sz(1) s' g']
    have ms4: "add_mset n (mset (remove1 m (remove1 n ls))) = mset (as @ n # cs')" using ms m mn by simp
    have L4: "xf_mm_block_length h4 n = ?L + sz + ?M" by (simp add: d4(3) e3(3))
    from mm_free_finish [OF d4(2) _ ms4 grow(1)] obtain h' where
      fin: "xf_mm_insert_size pool n (?L + sz + ?M) h4 = Some h'" "mm_inv lo hi pool h' (as @ n # cs')" "blen h' = blen h4"
      unfolding L4 by auto
    have "unat n + (f(a := unat sz)) n = unat a" using na an by simp
    then have "mm_covered (blen h') (as @ n # cs') = mm_covered f (as @ n # cs) \<union> {unat a ..< unat a + unat sz}"
      using grow(2) fin(3) cov' m(2) by simp
    from that [OF left right fin(1,2) this] show thesis .
  next
    case False
    have cs': "\<forall>c\<in>set cs. unat a + unat sz < unat c"
      by (rule mm_no_touch [OF _ cs False]) (use ok in \<open>auto simp: mm_blocks_ok_append mm_blocks_ok_Cons\<close>)
    have "n1 = None \<or> (\<exists>c. n1 = Some c \<and> c \<noteq> n + (?L + sz))"
      unfolding nsz n1 using adj cs' by (cases cs) auto
    then have right: "mm_merge_right pool n (Some n) n1 n (?L + sz) h1 = Some (h1, None, ?L + sz)"
      by (elim disjE exE conjE) (simp_all only: mm_merge_right_def option.case if_False)
    have nlf: "a \<notin> set (as @ n # cs)" using as an by auto
    have ok': "mm_blocks_ok hi (f(a := unat sz)) (as @ n # cs)"
      by (rule mm_blocks_ok_cong [OF ok]) (use nlf in auto)
    have cov': "mm_covered (f(a := unat sz)) (as @ n # cs) = mm_covered f (as @ n # cs)"
      by (rule mm_covered_cong) (use nlf in auto)
    have g: "blen h1 = (f(a := unat sz))(n := (f(a := unat sz)) n + unat sz)"
      unfolding e(3) using fun_cong [OF f] u an by (auto simp: fun_eq_iff)
    have "unat n + (f(a := unat sz)) n + unat sz \<le> hi" "\<forall>c\<in>set cs. unat n + (f(a := unat sz)) n + unat sz < unat c"
      using na an a cs' by auto
    note grow = mm_blocks_grow [OF ok' sz(1) this g]
    have ms1: "add_mset n (mset (remove1 n ls)) = mset (as @ n # cs)" using ms by simp
    have L1: "xf_mm_block_length h1 n = ?L + sz" by (simp add: e(3))
    from mm_free_finish [OF e(2) _ ms1 grow(1)] obtain h' where
      fin: "xf_mm_insert_size pool n (?L + sz) h1 = Some h'" "mm_inv lo hi pool h' (as @ n # cs)" "blen h' = blen h1"
      unfolding L1 by auto
    have "unat n + (f(a := unat sz)) n = unat a" using na an by simp
    then have "mm_covered (blen h') (as @ n # cs) = mm_covered f (as @ n # cs) \<union> {unat a ..< unat a + unat sz}"
      using grow(2) fin(3) cov' by simp
    from that [OF left right fin(1,2) this] show thesis .
  qed
qed

end
