(* ===== verification/XF_Mem_Pool.thy ===== *)
theory XF_Mem_Pool
  imports XF_Mem_Spec
begin

text \<open>
  Release and initialisation of the allocator composed from the lemmas of XF_Mem_Spec, the
  contract of the allocator on the set of free bytes as the locale \<open>mem_pool\<close>, its
  interpretation with the code, and the properties of the allocator.
\<close>

section \<open>Release\<close>

lemma mm_free_no_left:
  assumes "\<forall>x\<in>set as. unat x + f x < unat a" and "\<forall>x\<in>set as. blen h x = f x"
  shows "mm_merge_left pool (if as = [] then None else Some (last as)) a sz h = Some (h, a, None, a, sz)"
proof (cases "as = []")
  case False
  then have l: "unat (last as) + blen h (last as) < unat a" using assms by simp
  have "last as + xf_mm_block_length h (last as) \<noteq> a"
  proof
    assume e: "last as + xf_mm_block_length h (last as) = a"
    have "unat a < 2 ^ LENGTH(32)" by (rule unsigned_less)
    then have "unat a = unat (last as) + blen h (last as)"
      using l unfolding e [symmetric] by (simp add: unat_word_ariths)
    with l show False by simp
  qed
  with False show ?thesis by (simp add: mm_merge_left_def)
qed (simp add: mm_merge_left_def)

theorem xf_mm_free_spec:
  assumes I: "mm_inv lo hi pool h bs"
    and a: "32 dvd unat a" "lo \<le> unat a" "unat a + unat sz \<le> hi"
    and sz: "32 dvd unat sz" "0 < unat sz"
    and disj: "{unat a ..< unat a + unat sz} \<inter> mm_covered (blen h) bs = {}"
  shows "\<exists>h' bs'. xf_mm_free pool h a sz = Some h' \<and> mm_inv lo hi pool h' bs' \<and>
           mm_covered (blen h') bs' = mm_covered (blen h) bs \<union> {unat a ..< unat a + unat sz}"
proof -
  from I obtain ls where M: "mm_maps lo hi pool h bs ls" and ms: "mset ls = mset bs"
    and ok: "mm_blocks_ok hi (blen h) bs" by (auto simp: mm_inv_def)
  let ?f = "blen h"
  have P: "mm_pool_ok lo hi pool" using M by (simp add: mm_maps_def)
  have "32 \<le> unat sz" by (rule dvd_imp_le [OF sz])
  then have an: "mm_node_ok lo hi a" using a by (simp add: mm_node_ok_def)
  have "sorted_wrt (\<lambda>b c. unat b \<le> unat c) bs"
    using ok unfolding mm_blocks_ok_def by (auto elim!: sorted_wrt_mono_rel [rotated])
  then have "sorted (map unat bs)" by (simp add: sorted_wrt_map)
  from sorted_split_le [OF this, of "unat a"] obtain as cs where bs: "bs = as @ cs"
    and as0: "\<forall>x\<in>set as. unat x < unat a" and cs0: "\<forall>x\<in>set cs. unat a \<le> unat x" by blast
  have sep: "unat a + unat sz \<le> unat x \<or> unat x + ?f x \<le> unat a" if "x \<in> set bs" for x
  proof (rule ccontr)
    assume n: "\<not> (unat a + unat sz \<le> unat x \<or> unat x + ?f x \<le> unat a)"
    have "0 < ?f x" using ok that by (auto simp: mm_blocks_ok_def)
    with n sz(2) have "max (unat a) (unat x) \<in> {unat a ..< unat a + unat sz} \<inter> {unat x ..< unat x + ?f x}"
      by auto
    moreover have "{unat x ..< unat x + ?f x} \<subseteq> mm_covered ?f bs" using that by (auto simp: mm_covered_def)
    ultimately show False using disj by blast
  qed
  have as1: "\<forall>x\<in>set as. unat x + ?f x \<le> unat a"
    using as0 sep sz(2) unfolding bs by fastforce
  have cs1: "\<forall>c\<in>set cs. unat a + unat sz \<le> unat c"
  proof
    fix c assume c: "c \<in> set cs"
    have "0 < ?f c" using ok c by (auto simp: mm_blocks_ok_def bs)
    then show "unat a + unat sz \<le> unat c" using sep [of c] cs0 c bs by fastforce
  qed
  have anb: "a \<notin> set as" "a \<notin> set cs" using as0 cs1 sz(2) by fastforce+
  then have al: "a \<notin> set ls" using ms bs by (metis Un_iff set_append set_mset_mset)
  define h0 where "h0 = h(a := (h a)\<lparr>color := sz\<rparr>)"
  have init: "xf_mm_block_init a sz h = (h0, a)" by (simp add: xf_mm_block_init_def h0_def)
  have M0: "mm_maps lo hi pool h0 (as @ cs) ls"
    using mm_store [OF M al an] by (simp add: h0_def bs)
  have f: "blen h0 = ?f(a := unat sz)"
    unfolding h0_def blen_store even_and_not_1 [OF dvd32_even [OF sz(1)]] ..
  have find: "xf_mm_find_by_addr pool h0 a =
      Some (if as = [] then None else Some (last as), if cs = [] then None else Some (hd cs))"
    by (rule mm_find_by_addr_split [OF M0 an]) (use as0 cs0 in \<open>auto simp: word_less_nat_alt\<close>)
  have feq: "\<forall>x\<in>set as. blen h0 x = ?f x" 
  proof
    fix x assume "x \<in> set as"
    with anb(1) have "x \<noteq> a" by blast
    then show "blen h0 x = ?f x" using fun_cong [OF f, of x] by simp
  qed
  show ?thesis
  proof (cases "as \<noteq> [] \<and> unat (last as) + ?f (last as) = unat a")
    case True
    then obtain as' n where n: "as = as' @ [n]" "unat n + ?f n = unat a" by (metis append_butlast_last_id)
    have an': "a \<notin> set as'" using anb n by simp
    have *: "mm_maps lo hi pool h0 (as' @ n # cs) ls" "mset ls = mset (as' @ n # cs)"
      "mm_blocks_ok hi ?f (as' @ n # cs)" using M0 ms ok n(1) bs by simp_all
    from mm_free_left [OF * f a(3) sz n(2) cs1 an' refl]
    obtain h1 s1 h2 n1' s h' bs' where r:
      "mm_merge_left pool (Some n) a sz h0 = Some (h1, n, Some n, n, s1)"
      "mm_merge_right pool n (Some n) (if cs = [] then None else Some (hd cs)) n s1 h1 = Some (h2, n1', s)"
      "xf_mm_insert_size pool n s h2 = Some h'" "mm_inv lo hi pool h' bs'"
      "mm_covered (blen h') bs' = mm_covered ?f (as' @ n # cs) \<union> {unat a ..< unat a + unat sz}"
      by blast
    have "xf_mm_free pool h a sz = Some h'"
      using find r(1-3) n(1) by (simp add: xf_mm_free_def init)
    then show ?thesis using r(4,5) n(1) bs by (intro exI [of _ h'] exI [of _ bs']) simp
  next
    case False
    have as2: "\<forall>x\<in>set as. unat x + ?f x < unat a"
    proof
      fix x assume x: "x \<in> set as"
      show "unat x + ?f x < unat a"
      proof (cases "x = last as")
        case True
        then show ?thesis using False as1 x by (metis empty_iff le_neq_implies_less list.set(1))
      next
        case ne: False
        have nonempty: "as \<noteq> []" using x by auto
        then have "x \<in> set (butlast as)" using x ne by (metis append_butlast_last_id in_set_butlast_appendI
            rotate1.simps(2) set_ConsD set_rotate1)
        moreover have "mm_blocks_ok hi ?f (butlast as @ [last as])"
          using ok nonempty by (simp add: bs mm_blocks_ok_append)
        ultimately have "unat x + ?f x < unat (last as)" by (auto simp: mm_blocks_ok_append)
        then show ?thesis using as0 nonempty by (meson last_in_set less_trans)
      qed
    qed
    from mm_free_right [OF M0 ms [unfolded bs] ok [unfolded bs] f an a(3) sz as2 cs1 refl]
    obtain h1 n1' s h2 h' bs' where r:
      "mm_merge_right pool a None (if cs = [] then None else Some (hd cs)) a sz h0 = Some (h1, n1', s)"
      "(if n1' = None then xf_mm_insert_addr pool a h1 else Some h1) = Some h2"
      "xf_mm_insert_size pool a s h2 = Some h'" "mm_inv lo hi pool h' bs'"
      "mm_covered (blen h') bs' = mm_covered ?f (as @ cs) \<union> {unat a ..< unat a + unat sz}" by blast
    have "xf_mm_free pool h a sz = Some h'"
      using find r(1-3) mm_free_no_left [OF as2 feq, of pool sz] by (simp add: xf_mm_free_def init)
    then show ?thesis using r(4,5) bs by blast
  qed
qed

section \<open>Initialisation\<close>

lemma and_31_iff: "(w :: u32) AND (32 - 1) = 0 \<longleftrightarrow> 32 dvd unat w"
proof -
  have m: "w AND (32 - 1) = take_bit 5 w"
    by (simp add: take_bit_eq_mask mask_eq_exp_minus_1)
  have "unat (take_bit 5 w) = unat w mod 32"
    unfolding unsigned_take_bit_eq take_bit_eq_mod [where 'a = nat] by simp
  then have "take_bit 5 w = 0 \<longleftrightarrow> 32 dvd unat w"
    unfolding word_unat_eq_iff by (simp only: unat_0 mod_eq_0_iff_dvd)
  then show ?thesis unfolding m .
qed

lemma mm_init_inv:
  assumes "mm_pool_ok lo hi pool"
  shows "mm_inv lo hi pool (rb_init (mm_a_map pool) (rb_init (mm_l_map pool) h)) []"
proof -
  let ?h = "rb_init (mm_l_map pool) h"
  have "rb_index (rb_init (mm_a_map pool) ?h) (mm_l_map pool) []"
  proof (rule rb_index_out [OF rb_index_init])
    fix a assume "a \<in> set [] \<or> a = mm_l_map pool"
    then have "a \<noteq> mm_a_map pool" by (auto simp: mm_l_map_def mm_a_map_def)
    then show "rb_init (mm_a_map pool) ?h a = ?h a" by (simp add: rb_init_def rb_set_defs)
  qed
  then show ?thesis using assms rb_index_init [of "mm_a_map pool" ?h]
    by (simp add: mm_inv_def mm_maps_def)
qed

theorem xf_mm_init_spec:
  assumes "mm_pool_ok (unat a) (unat a + unat sz) pool" and "0 < unat sz"
  shows "if 32 dvd unat a \<and> 32 dvd unat sz then
      \<exists>h' p bs. xf_mm_init pool h a sz = Some (Inr (h', p)) \<and> mm_addr p = a \<and> mm_size p = sz \<and>
        mm_inv (unat a) (unat a + unat sz) pool h' bs \<and>
        mm_covered (blen h') bs = {unat a ..< unat a + unat sz}
    else xf_mm_init pool h a sz = Some (Inl EINVAL)"
proof (cases "32 dvd unat a \<and> 32 dvd unat sz")
  case True
  let ?h = "rb_init (mm_a_map pool) (rb_init (mm_l_map pool) h)"
  from xf_mm_free_spec [OF mm_init_inv [OF assms(1)], of a sz h] True assms(2)
  obtain h' bs where "xf_mm_free pool ?h a sz = Some h'" "mm_inv (unat a) (unat a + unat sz) pool h' bs"
    "mm_covered (blen h') bs = {unat a ..< unat a + unat sz}" by auto
  moreover have "a AND (32 - 1) = 0" "sz AND (32 - 1) = 0" using True by (simp_all only: and_31_iff)
  ultimately show ?thesis using True by (auto simp: xf_mm_init_def Let_def)
next
  case False
  then have "a AND (32 - 1) \<noteq> 0 \<or> sz AND (32 - 1) \<noteq> 0" by (simp only: and_31_iff de_Morgan_conj)
  then show ?thesis using False unfolding xf_mm_init_def by auto
qed

section \<open>The contract\<close>

text \<open>An unbroken range of free bytes lies in one block, because blocks never touch.\<close>

lemma mm_range_in_block:
  assumes ok: "mm_blocks_ok hi f bs" and r: "{x ..< x + s} \<subseteq> mm_covered f bs" and s: "0 < s"
  shows "\<exists>b\<in>set bs. s \<le> f b"
proof -
  have "x \<in> mm_covered f bs" using r s by auto
  then obtain b where b: "b \<in> set bs" "unat b \<le> x" "x < unat b + f b" by (auto simp: mm_covered_def)
  have "x + s \<le> unat b + f b"
  proof (rule ccontr)
    assume "\<not> x + s \<le> unat b + f b"
    then have "unat b + f b \<in> mm_covered f bs" using r b by auto
    then obtain c where c: "c \<in> set bs" "unat c \<le> unat b + f b" "unat b + f b < unat c + f c"
      by (auto simp: mm_covered_def)
    have "b \<noteq> c" using c(3) by auto
    from split_list [OF b(1)] obtain as cs where bs: "bs = as @ b # cs" by blast
    with c(1) \<open>b \<noteq> c\<close> consider "c \<in> set as" | "c \<in> set cs" by auto
    then show False
      using ok c(2,3) unfolding bs mm_blocks_ok_append mm_blocks_ok_Cons by cases fastforce+
  qed
  with b show ?thesis by (intro bexI [of _ b]) auto
qed

definition mm_free_set :: "nat \<Rightarrow> nat \<Rightarrow> addr \<Rightarrow> rb_heap \<Rightarrow> nat set \<Rightarrow> bool" where
  "mm_free_set lo hi pool h F \<longleftrightarrow> (\<exists>bs. mm_inv lo hi pool h bs \<and> mm_covered (blen h) bs = F)"

abbreviation span :: "addr \<Rightarrow> u32 \<Rightarrow> nat set" where
  "span a sz \<equiv> {unat a ..< unat a + unat sz}"

abbreviation mm_size_ok :: "u32 \<Rightarrow> bool" where
  "mm_size_ok sz \<equiv> 32 dvd unat sz \<and> 0 < unat sz"

text \<open>Client runs: a list of requests (those refused are skipped), and a list of releases.\<close>

fun alloc_seq :: "('h \<Rightarrow> u32 \<Rightarrow> ('h \<times> addr option) option) \<Rightarrow> 'h \<Rightarrow> u32 list \<Rightarrow> ('h \<times> (addr \<times> u32) list) option"
where
  "alloc_seq alloc h [] = Some (h, [])"
| "alloc_seq alloc h (sz # szs) =
     (case alloc h sz of
        None \<Rightarrow> None
      | Some (h', None) \<Rightarrow> alloc_seq alloc h' szs
      | Some (h', Some a) \<Rightarrow> map_option (\<lambda>(h'', bs). (h'', (a, sz) # bs)) (alloc_seq alloc h' szs))"

fun release_seq :: "('h \<Rightarrow> addr \<Rightarrow> u32 \<Rightarrow> 'h option) \<Rightarrow> 'h \<Rightarrow> (addr \<times> u32) list \<Rightarrow> 'h option" where
  "release_seq release h [] = Some h"
| "release_seq release h ((a, sz) # bs) =
     (case release h a sz of None \<Rightarrow> None | Some h' \<Rightarrow> release_seq release h' bs)"

definition spans :: "(addr \<times> u32) list \<Rightarrow> nat set" where
  "spans bs = (\<Union>(a, sz)\<in>set bs. span a sz)"

definition spans_apart :: "(addr \<times> u32) list \<Rightarrow> bool" where
  "spans_apart bs \<longleftrightarrow> distinct bs \<and>
     (\<forall>p\<in>set bs. mm_size_ok (snd p) \<and> 32 dvd unat (fst p)) \<and>
     (\<forall>p\<in>set bs. \<forall>q\<in>set bs. p \<noteq> q \<longrightarrow> disjnt (span (fst p) (snd p)) (span (fst q) (snd q)))"

lemma spans_simps [simp]: "spans [] = {}" "spans ((a, s) # bs) = span a s \<union> spans bs"
  by (auto simp: spans_def)

lemma spans_apart_Nil [simp]: "spans_apart []"
  by (simp add: spans_apart_def)

lemma spans_apart_Cons: "spans_apart ((a, s) # bs) \<longleftrightarrow>
    mm_size_ok s \<and> 32 dvd unat a \<and> span a s \<inter> spans bs = {} \<and> spans_apart bs"
proof
  assume *: "spans_apart ((a, s) # bs)"
  then have "disjnt (span a s) (span b t)" if "(b, t) \<in> set bs" for b t
    using that unfolding spans_apart_def by (auto dest!: bspec [of _ _ "(b, t)"] simp del: disjnt_iff)
  then have "span a s \<inter> spans bs = {}" unfolding spans_def disjnt_def by blast
  with * show "mm_size_ok s \<and> 32 dvd unat a \<and> span a s \<inter> spans bs = {} \<and> spans_apart bs"
    by (simp add: spans_apart_def)
next
  assume *: "mm_size_ok s \<and> 32 dvd unat a \<and> span a s \<inter> spans bs = {} \<and> spans_apart bs"
  then have d: "disjnt (span a s) (span (fst q) (snd q))" if "q \<in> set bs" for q
  proof -
    have "span (fst q) (snd q) \<subseteq> spans bs"
      unfolding spans_def case_prod_beta by (rule UN_upper [OF that])
    with * show ?thesis unfolding disjnt_def by blast
  qed
  then have d': "disjnt (span (fst q) (snd q)) (span a s)" if "q \<in> set bs" for q
    using that by (simp add: disjnt_sym)
  have "\<not> disjnt (span a s) (span a s)" using * by (auto simp: disjnt_def)
  then have "(a, s) \<notin> set bs" using d [of "(a, s)"] by auto
  with * d d' show "spans_apart ((a, s) # bs)" unfolding spans_apart_def by simp
qed

lemma spans_perm: "mset bs = mset cs \<Longrightarrow> spans bs = spans cs \<and> spans_apart bs = spans_apart cs"
  using mset_eq_setD [of bs cs] mset_eq_imp_distinct_iff [of bs cs]
  by (simp add: spans_def spans_apart_def)

locale mem_pool =
  fixes lo hi :: nat
    and inv :: "'h \<Rightarrow> nat set \<Rightarrow> bool"
    and alloc :: "'h \<Rightarrow> u32 \<Rightarrow> ('h \<times> addr option) option"
    and release :: "'h \<Rightarrow> addr \<Rightarrow> u32 \<Rightarrow> 'h option"
  assumes alloc_law: "inv h F \<Longrightarrow> mm_size_ok sz \<Longrightarrow>
      alloc h sz = Some (h, None) \<and> \<not> (\<exists>x. {x ..< x + unat sz} \<subseteq> F) \<or>
      (\<exists>h' a. alloc h sz = Some (h', Some a) \<and> 32 dvd unat a \<and> span a sz \<subseteq> F \<and> inv h' (F - span a sz))"
    and release_law: "inv h F \<Longrightarrow> mm_size_ok sz \<Longrightarrow> 32 dvd unat a \<Longrightarrow> span a sz \<subseteq> {lo ..< hi} \<Longrightarrow>
      span a sz \<inter> F = {} \<Longrightarrow> \<exists>h'. release h a sz = Some h' \<and> inv h' (F \<union> span a sz)"
    and inv_range: "inv h F \<Longrightarrow> F \<subseteq> {lo ..< hi}"
begin

lemma alloc_total: "inv h F \<Longrightarrow> mm_size_ok sz \<Longrightarrow> \<exists>h' r. alloc h sz = Some (h', r)"
  using alloc_law by blast

lemma alloc_none: "inv h F \<Longrightarrow> mm_size_ok sz \<Longrightarrow> alloc h sz = Some (h', None) \<Longrightarrow>
    h' = h \<and> \<not> (\<exists>x. {x ..< x + unat sz} \<subseteq> F)"
  using alloc_law [of h F sz] by auto

lemma alloc_some: "inv h F \<Longrightarrow> mm_size_ok sz \<Longrightarrow> alloc h sz = Some (h', Some a) \<Longrightarrow>
    32 dvd unat a \<and> span a sz \<subseteq> F \<and> inv h' (F - span a sz)"
  using alloc_law [of h F sz] by auto

text \<open>Released at once, an allocated block leaves the free set as it was.\<close>

lemma alloc_release:
  assumes "inv h F" and "mm_size_ok sz" and "alloc h sz = Some (h', Some a)"
  shows "\<exists>h''. release h' a sz = Some h'' \<and> inv h'' F"
proof -
  note a = alloc_some [OF assms]
  have "span a sz \<subseteq> {lo ..< hi}" using a inv_range [OF assms(1)] by blast
  with release_law [of h' "F - span a sz" sz a] a assms(2)
  obtain h'' where "release h' a sz = Some h''" "inv h'' (F - span a sz \<union> span a sz)" by blast
  moreover have "F - span a sz \<union> span a sz = F" using a by blast
  ultimately show ?thesis by simp
qed

text \<open>A run of allocations: the blocks handed out are disjoint and come out of the free set.\<close>

lemma alloc_run:
  assumes "inv h F" and "\<forall>sz\<in>set szs. mm_size_ok sz"
  shows "\<exists>h' bs F'. alloc_seq alloc h szs = Some (h', bs) \<and> inv h' F' \<and> spans_apart bs \<and>
     F' \<inter> spans bs = {} \<and> F' \<union> spans bs = F"
  using assms
proof (induction szs arbitrary: h F)
  case (Cons sz szs)
  then have sz: "mm_size_ok sz" and szs: "\<forall>sz\<in>set szs. mm_size_ok sz" by simp_all
  from alloc_law [OF Cons.prems(1) sz] show ?case
  proof (elim disjE conjE exE)
    assume "alloc h sz = Some (h, None)"
    with Cons.IH [OF Cons.prems(1) szs] show ?thesis by simp
  next
    fix h1 a assume a: "alloc h sz = Some (h1, Some a)" "32 dvd unat a" "span a sz \<subseteq> F" "inv h1 (F - span a sz)"
    from Cons.IH [OF a(4) szs] obtain h' bs F' where
      r: "alloc_seq alloc h1 szs = Some (h', bs)" "inv h' F'" "spans_apart bs"
        "F' \<inter> spans bs = {}" "F' \<union> spans bs = F - span a sz" by blast
    have "alloc_seq alloc h (sz # szs) = Some (h', (a, sz) # bs)" using a(1) r(1) by simp
    moreover have "spans_apart ((a, sz) # bs)" using sz a(2) r(3,5) by (auto simp: spans_apart_Cons)
    moreover have "F' \<inter> spans ((a, sz) # bs) = {}" "F' \<union> spans ((a, sz) # bs) = F"
      using r(4,5) a(3) unfolding spans_simps by blast+
    ultimately show ?thesis using r(2) by blast
  qed
qed auto

lemma release_run:
  assumes "inv h F" and "spans_apart bs" and "spans bs \<subseteq> {lo ..< hi}" and "F \<inter> spans bs = {}"
  shows "\<exists>h'. release_seq release h bs = Some h' \<and> inv h' (F \<union> spans bs)"
  using assms
proof (induction bs arbitrary: h F)
  case (Cons p bs)
  obtain a s where p: "p = (a, s)" by (cases p)
  with Cons.prems have s: "mm_size_ok s" "32 dvd unat a" "span a s \<inter> spans bs = {}" "spans_apart bs"
    "span a s \<subseteq> {lo ..< hi}" "spans bs \<subseteq> {lo ..< hi}" "span a s \<inter> F = {}" "F \<inter> spans bs = {}"
    by (auto simp: spans_apart_Cons)
  from release_law [OF Cons.prems(1) s(1,2,5,7)] obtain h1 where
    h1: "release h a s = Some h1" "inv h1 (F \<union> span a s)" by blast
  have "(F \<union> span a s) \<inter> spans bs = {}" using s(3,8) by blast
  from Cons.IH [OF h1(2) s(4,6) this] h1(1) p show ?case by (auto simp: Un_assoc)
qed simp

text \<open>Everything allocated in a run and released in any order: the free set is back.\<close>

lemma alloc_release_run:
  assumes I: "inv h F" and "\<forall>sz\<in>set szs. mm_size_ok sz" and r: "alloc_seq alloc h szs = Some (h', bs)"
    and perm: "mset cs = mset bs"
  shows "\<exists>h''. release_seq release h' cs = Some h'' \<and> inv h'' F"
proof -
  from alloc_run [OF assms(1,2)] r obtain F' where
    F: "inv h' F'" "spans_apart bs" "F' \<inter> spans bs = {}" "F' \<union> spans bs = F" by auto
  have "spans bs \<subseteq> {lo ..< hi}" using F(4) inv_range [OF I] by blast
  with F spans_perm [OF perm] release_run [OF F(1), of cs] show ?thesis by simp
qed

end

text \<open>The code keeps the contract.\<close>

interpretation mm: mem_pool lo hi "mm_free_set lo hi pool" "xf_mm_alloc pool" "xf_mm_free pool"
  for lo hi pool
proof unfold_locales
  fix h F sz assume I: "mm_free_set lo hi pool h F" and sz: "mm_size_ok sz"
  from I obtain bs where bs: "mm_inv lo hi pool h bs" "mm_covered (blen h) bs = F" by (auto simp: mm_free_set_def)
  then have ok: "mm_blocks_ok hi (blen h) bs" by (simp add: mm_inv_def)
  from xf_mm_alloc_spec [OF bs(1)] sz consider
    "\<forall>b\<in>set bs. blen h b < unat sz" "xf_mm_alloc pool h sz = Some (h, None)"
  | b h' r bs' where "b \<in> set bs" "unat sz \<le> blen h b" "xf_mm_alloc pool h sz = Some (h', Some r)"
      "unat r = unat b + (blen h b - unat sz)" "mm_inv lo hi pool h' bs'"
      "mm_covered (blen h') bs' = mm_covered (blen h) bs - span r sz" by blast
  then show "xf_mm_alloc pool h sz = Some (h, None) \<and> \<not> (\<exists>x. {x ..< x + unat sz} \<subseteq> F) \<or>
      (\<exists>h' a. xf_mm_alloc pool h sz = Some (h', Some a) \<and> 32 dvd unat a \<and> span a sz \<subseteq> F \<and>
         mm_free_set lo hi pool h' (F - span a sz))"
  proof cases
    case 1
    have "\<not> (\<exists>x. {x ..< x + unat sz} \<subseteq> F)"
      using mm_range_in_block [OF ok] sz 1(1) bs(2) by (meson linorder_not_le)
    with 1(2) show ?thesis by blast
  next
    case 2
    have "32 dvd unat b" "32 dvd blen h b"
      using mm_inv_node [OF bs(1) 2(1)] ok 2(1) by (auto simp: mm_node_ok_def mm_blocks_ok_def)
    then have "32 dvd unat r" using 2(4) sz by (simp add: dvd_diff_nat)
    moreover have "span r sz \<subseteq> F" using 2(1,2,4) bs(2) by (force simp: mm_covered_def)
    ultimately show ?thesis using 2(3,5,6) bs(2) by (auto simp: mm_free_set_def)
  qed
next
  fix h F sz a assume "mm_free_set lo hi pool h F" and sz: "mm_size_ok sz" and a: "32 dvd unat a"
    and r: "span a sz \<subseteq> {lo ..< hi}" and d: "span a sz \<inter> F = {}"
  then obtain bs where bs: "mm_inv lo hi pool h bs" "mm_covered (blen h) bs = F" by (auto simp: mm_free_set_def)
  have "unat a \<in> span a sz" "unat a + unat sz - 1 \<in> span a sz" using sz by auto
  then have "lo \<le> unat a" "unat a + unat sz \<le> hi" using r by fastforce+
  with xf_mm_free_spec [OF bs(1) a] sz d bs(2)
  show "\<exists>h'. xf_mm_free pool h a sz = Some h' \<and> mm_free_set lo hi pool h' (F \<union> span a sz)"
    by (fastforce simp: mm_free_set_def)
next
  fix h F assume "mm_free_set lo hi pool h F"
  then obtain bs where bs: "mm_inv lo hi pool h bs" "mm_covered (blen h) bs = F" by (auto simp: mm_free_set_def)
  then have "\<forall>b\<in>set bs. lo \<le> unat b \<and> unat b + blen h b \<le> hi"
    using mm_inv_node [OF bs(1)] by (auto simp: mm_inv_def mm_blocks_ok_def mm_node_ok_def)
  with bs(2) show "F \<subseteq> {lo ..< hi}" by (fastforce simp: mm_covered_def)
qed

section \<open>Properties\<close>

definition mm_demo :: rb_heap where
  "mm_demo = (\<lambda>_. demo_node 0 0 0 0)
     (0 := demo_node 0 64 0 0, 64 := demo_node 0 0 0 128,
      16 := demo_node 16 80 16 0, 80 := demo_node 16 16 16 0)"

lemma demo_mm: "mm_inv 64 1024 0 mm_demo [64]"
proof -
  have n: "(128 :: u32) AND NOT 1 = 128" by (rule even_and_not_1) (rule dvd32_even, simp)
  have "rb_index mm_demo 0 [64]" unfolding rb_index_def
    by (rule exI [of _ "Nd RB_BLK Tip 64 Tip"])
      (simp add: rb_tree_def rb_inv_def RB_COLOR_def mm_demo_def demo_node_def)
  moreover have "rb_index mm_demo 16 [80]" unfolding rb_index_def
    by (rule exI [of _ "Nd RB_BLK Tip 80 Tip"])
      (simp add: rb_tree_def rb_inv_def RB_COLOR_def mm_demo_def demo_node_def)
  moreover have "xf_mm_block_length mm_demo 64 = 128"
    unfolding xf_mm_block_length_def by (simp add: mm_demo_def demo_node_def n [simplified])
  ultimately show ?thesis
    by (auto simp: mm_inv_def mm_maps_def mm_pool_ok_def mm_node_ok_def mm_blocks_ok_def
        mm_l_map_def mm_a_map_def mm_a_node_def intro!: exI [of _ "[64]"])
qed

text \<open>C6: allocation returns, and is best fit: it answers NULL and changes nothing exactly when every
  free block is too short; otherwise it takes the tail of a shortest free block that is long
  enough, the rest of that block stays free, and both maps keep their invariant.\<close>

theorem mm_alloc_best_fit:
  assumes "mm_inv lo hi pool h bs" and "32 dvd unat sz" and "0 < unat sz"
  shows "(\<forall>b\<in>set bs. blen h b < unat sz) \<and> xf_mm_alloc pool h sz = Some (h, None) \<or>
    (\<exists>b h' r bs'. b \<in> set bs \<and> unat sz \<le> blen h b \<and>
       (\<forall>c\<in>set bs. unat sz \<le> blen h c \<longrightarrow> blen h b \<le> blen h c) \<and>
       xf_mm_alloc pool h sz = Some (h', Some r) \<and> unat r = unat b + (blen h b - unat sz) \<and>
       mm_inv lo hi pool h' bs' \<and>
       mm_covered (blen h') bs' = mm_covered (blen h) bs - {unat r ..< unat r + unat sz})"
  by (rule xf_mm_alloc_spec [OF assms])

lemma demo_blen: "blen mm_demo 64 = 128"
proof -
  have "(128 :: u32) AND NOT 1 = 128" by (rule even_and_not_1) (rule dvd32_even, simp)
  then show ?thesis by (simp add: xf_mm_block_length_def mm_demo_def demo_node_def)
qed

theorem mm_alloc_best_fit_witness:
  "\<exists>h' r bs'. xf_mm_alloc 0 mm_demo 96 = Some (h', Some r) \<and> unat r = 96 \<and> mm_inv 64 1024 0 h' bs' \<and>
     mm_covered (blen h') bs' = {64 ..< 192} - {96 ..< 192}"
  using mm_alloc_best_fit [OF demo_mm, of 96] by (auto simp: demo_blen mm_covered_def)

text \<open>C7: NULL is the truth: a request is refused only when no unbroken range of free bytes of that
  length exists; a granted block is aligned, was free, and is no longer free.\<close>

theorem mm_alloc_complete:
  assumes "mm_free_set lo hi pool h F" and "mm_size_ok sz"
  shows "xf_mm_alloc pool h sz = Some (h, None) \<and> \<not> (\<exists>x. {x ..< x + unat sz} \<subseteq> F) \<or>
    (\<exists>h' a. xf_mm_alloc pool h sz = Some (h', Some a) \<and> 32 dvd unat a \<and> span a sz \<subseteq> F \<and>
       mm_free_set lo hi pool h' (F - span a sz))"
  by (rule mm.alloc_law [OF assms])

lemma demo_free_set: "mm_free_set 64 1024 0 mm_demo {64 ..< 192}"
  unfolding mm_free_set_def by (rule exI [of _ "[64]"]) (simp add: demo_mm demo_blen)

theorem mm_alloc_complete_witness: "xf_mm_alloc 0 mm_demo 160 = Some (mm_demo, None)"
proof -
  have "\<not> span a 160 \<subseteq> {64 ..< 192}" for a by (auto simp: atLeastLessThan_subset_iff)
  then show ?thesis using mm_alloc_complete [OF demo_free_set, of 160] by auto
qed

text \<open>C8: releasing a block that is not free returns and adds exactly its bytes; the new block list is
  again coalesced (no two free blocks touch), whichever neighbours it merged with.\<close>

theorem mm_free_coalesces:
  assumes "mm_inv lo hi pool h bs" and "32 dvd unat a" and "lo \<le> unat a" and "unat a + unat sz \<le> hi"
    and "32 dvd unat sz" and "0 < unat sz" and "{unat a ..< unat a + unat sz} \<inter> mm_covered (blen h) bs = {}"
  shows "\<exists>h' bs'. xf_mm_free pool h a sz = Some h' \<and> mm_inv lo hi pool h' bs' \<and>
           sorted_wrt (\<lambda>b c. unat b + blen h' b < unat c) bs' \<and>
           mm_covered (blen h') bs' = mm_covered (blen h) bs \<union> {unat a ..< unat a + unat sz}"
  using xf_mm_free_spec [OF assms] by (auto simp: mm_inv_def mm_blocks_ok_def)

theorem mm_free_coalesces_witness:
  "\<exists>h' bs'. xf_mm_free 0 mm_demo 192 64 = Some h' \<and> mm_inv 64 1024 0 h' bs' \<and>
     mm_covered (blen h') bs' = {64 ..< 192} \<union> {192 ..< 256}"
  using mm_free_coalesces [OF demo_mm, of 192 64] by (auto simp: demo_blen)

text \<open>C9: the allocator does not fragment for good: whatever a client was granted in a run of requests
  is disjoint, and once all of it is released, in any order, the free blocks and their lengths
  are the ones before the run.\<close>

theorem mm_alloc_release_restores:
  assumes I: "mm_inv lo hi pool h bs" and sz: "\<forall>sz\<in>set szs. mm_size_ok sz"
  shows "\<exists>h' gs. alloc_seq (xf_mm_alloc pool) h szs = Some (h', gs) \<and> spans_apart gs \<and>
     (\<forall>cs. mset cs = mset gs \<longrightarrow> (\<exists>h''. release_seq (xf_mm_free pool) h' cs = Some h'' \<and>
        mm_inv lo hi pool h'' bs \<and> (\<forall>b\<in>set bs. blen h'' b = blen h b)))"
proof -
  let ?F = "mm_covered (blen h) bs"
  have F: "mm_free_set lo hi pool h ?F" using I by (auto simp: mm_free_set_def)
  from mm.alloc_run [OF F sz] obtain h' gs where r: "alloc_seq (xf_mm_alloc pool) h szs = Some (h', gs)"
    "spans_apart gs" by blast
  have "\<exists>h''. release_seq (xf_mm_free pool) h' cs = Some h'' \<and> mm_inv lo hi pool h'' bs \<and>
      (\<forall>b\<in>set bs. blen h'' b = blen h b)" if cs: "mset cs = mset gs" for cs
  proof -
    from mm.alloc_release_run [OF F sz r(1) cs] obtain h'' bs'' where
      e: "release_seq (xf_mm_free pool) h' cs = Some h''" "mm_inv lo hi pool h'' bs''"
        "mm_covered (blen h'') bs'' = ?F" by (auto simp: mm_free_set_def)
    from e(2) I have "mm_blocks_ok hi (blen h'') bs''" "mm_blocks_ok hi (blen h) bs" by (simp_all add: mm_inv_def)
    from mm_covered_unique [OF this e(3)] e show ?thesis by auto
  qed
  with r show ?thesis by blast
qed

theorem mm_alloc_release_restores_witness:
  "\<exists>h' gs. alloc_seq (xf_mm_alloc 0) mm_demo [32, 64, 96] = Some (h', gs) \<and>
     (\<exists>h''. release_seq (xf_mm_free 0) h' (rev gs) = Some h'' \<and> mm_inv 64 1024 0 h'' [64])"
proof -
  have "\<forall>sz\<in>set [32, 64, 96 :: u32]. mm_size_ok sz" by simp
  from mm_alloc_release_restores [OF demo_mm this] obtain h' gs where
    r: "alloc_seq (xf_mm_alloc 0) mm_demo [32, 64, 96] = Some (h', gs)"
      "\<forall>cs. mset cs = mset gs \<longrightarrow> (\<exists>h''. release_seq (xf_mm_free 0) h' cs = Some h'' \<and> mm_inv 64 1024 0 h'' [64])"
    by blast
  then have "\<exists>h''. release_seq (xf_mm_free 0) h' (rev gs) = Some h'' \<and> mm_inv 64 1024 0 h'' [64]"
    by (metis mset_rev)
  with r(1) show ?thesis by blast
qed

text \<open>initialisation rejects an unaligned base or size with EINVAL; otherwise it establishes the
  invariant with all bytes of the range free.\<close>

theorem mm_init_correct:
  assumes "mm_pool_ok (unat a) (unat a + unat sz) pool" and "0 < unat sz"
  shows "if 32 dvd unat a \<and> 32 dvd unat sz then
      \<exists>h' p bs. xf_mm_init pool h a sz = Some (Inr (h', p)) \<and> mm_addr p = a \<and> mm_size p = sz \<and>
        mm_inv (unat a) (unat a + unat sz) pool h' bs \<and>
        mm_covered (blen h') bs = {unat a ..< unat a + unat sz}
    else xf_mm_init pool h a sz = Some (Inl EINVAL)"
  by (rule xf_mm_init_spec [OF assms])

theorem mm_init_correct_witness:
  "\<exists>h' p bs. xf_mm_init 0 mm_demo 256 512 = Some (Inr (h', p)) \<and> mm_inv 256 768 0 h' bs \<and>
     mm_covered (blen h') bs = {256 ..< 768}"
  using mm_init_correct [of 256 512 0 mm_demo] by (auto simp: mm_pool_ok_def)

end
