(* ===== verification/XF_Opcode.thy ===== *)
theory XF_Opcode
  imports XF_Prelude
begin

text \<open>
  Message identifiers and operation codes (include/xf-opcode.h): a port specification packs
  core, client and port, a message id packs a source and a destination specification, an opcode
  packs two data tags and a command number. The accessors are shown to invert the packing.
\<close>

section \<open>The code\<close>

definition XF_MSG_AP_FROM_USER :: "u32 \<Rightarrow> u32 \<Rightarrow> u32" where
  "XF_MSG_AP_FROM_USER i client = (i AND NOT (push_bit 2 0xF)) OR client"

definition XF_MSG_AP_TO_USER :: "u32 \<Rightarrow> u32" where
  "XF_MSG_AP_TO_USER i = i AND NOT (push_bit 18 0xF)"

definition XF_PORT_SPEC :: "u32 \<Rightarrow> u32 \<Rightarrow> u32 \<Rightarrow> u32" where
  "XF_PORT_SPEC core i port = core OR push_bit 2 i OR push_bit 8 port"

definition XF_PORT_SPEC2 :: "u32 \<Rightarrow> u32 \<Rightarrow> u32" where
  "XF_PORT_SPEC2 i port = i OR push_bit 8 port"

definition XF_PORT_CORE :: "u32 \<Rightarrow> u32" where
  "XF_PORT_CORE spec = spec AND 0x3"

definition XF_PORT_CLIENT :: "u32 \<Rightarrow> u32" where
  "XF_PORT_CLIENT spec = drop_bit 2 spec AND 0x3F"

definition XF_PORT_ID :: "u32 \<Rightarrow> u32" where
  "XF_PORT_ID spec = drop_bit 8 spec AND 0xF"

definition XF_MSG_ID :: "u32 \<Rightarrow> u32 \<Rightarrow> u32" where
  "XF_MSG_ID src dst = (src AND 0xFFFF) OR push_bit 16 (dst AND 0xFFFF)"

definition XF_MSG_SRC :: "u32 \<Rightarrow> u32" where
  "XF_MSG_SRC i = drop_bit 0 i AND 0xFFFF"

definition XF_MSG_SRC_CORE :: "u32 \<Rightarrow> u32" where
  "XF_MSG_SRC_CORE i = drop_bit 0 i AND 0x3"

definition XF_MSG_SRC_CLIENT :: "u32 \<Rightarrow> u32" where
  "XF_MSG_SRC_CLIENT i = drop_bit 2 i AND 0x3F"

definition XF_MSG_SRC_ID :: "u32 \<Rightarrow> u32" where
  "XF_MSG_SRC_ID i = drop_bit 0 i AND 0xFF"

definition XF_MSG_SRC_PORT :: "u32 \<Rightarrow> u32" where
  "XF_MSG_SRC_PORT i = drop_bit 8 i AND 0xF"

definition XF_MSG_SRC_PROXY :: "u32 \<Rightarrow> u32" where
  "XF_MSG_SRC_PROXY i = drop_bit 15 i AND 0x1"

definition XF_MSG_DST :: "u32 \<Rightarrow> u32" where
  "XF_MSG_DST i = drop_bit 16 i AND 0xFFFF"

definition XF_MSG_DST_CORE :: "u32 \<Rightarrow> u32" where
  "XF_MSG_DST_CORE i = drop_bit 16 i AND 0x3"

definition XF_MSG_DST_CLIENT :: "u32 \<Rightarrow> u32" where
  "XF_MSG_DST_CLIENT i = drop_bit 18 i AND 0x3F"

definition XF_MSG_DST_ID :: "u32 \<Rightarrow> u32" where
  "XF_MSG_DST_ID i = drop_bit 16 i AND 0xFF"

definition XF_MSG_DST_PORT :: "u32 \<Rightarrow> u32" where
  "XF_MSG_DST_PORT i = drop_bit 24 i AND 0xF"

definition XF_MSG_DST_PROXY :: "u32 \<Rightarrow> u32" where
  "XF_MSG_DST_PROXY i = drop_bit 31 i AND 0x1"

definition XF_AP_IPC_CLIENT :: "u32 \<Rightarrow> u32" where
  "XF_AP_IPC_CLIENT i = drop_bit 18 i AND 0xF"

definition XF_AP_CLIENT :: "u32 \<Rightarrow> u32" where
  "XF_AP_CLIENT i = drop_bit 22 i AND 0x1FF"

definition XF_AP_PROXY :: "u32 \<Rightarrow> u32" where
  "XF_AP_PROXY core = core OR 0x8000"

definition XF_DSP_PROXY :: "u32 \<Rightarrow> u32" where
  "XF_DSP_PROXY core = core OR 0x8000"

definition XF_AP_CLIENT_SPEC :: "u32 \<Rightarrow> u32 \<Rightarrow> u32" where
  "XF_AP_CLIENT_SPEC core client = core OR push_bit 6 client OR 0x8000"

text \<open>\<open>XF_CFG_CORES_NUM\<close> is 1 in this configuration (xf-config.h), so no message is shared.\<close>

definition XF_CFG_CORES_NUM :: u32 where
  "XF_CFG_CORES_NUM = 1"

definition XF_MSG_SHARED :: "u32 \<Rightarrow> u32" where
  "XF_MSG_SHARED i = (if XF_CFG_CORES_NUM > 1 then (i XOR drop_bit 16 i) AND 0x3 else 0)"

definition XF_OPCODE :: "u32 \<Rightarrow> u32 \<Rightarrow> u32 \<Rightarrow> u32" where
  "XF_OPCODE c r opc = push_bit 31 c OR push_bit 30 r OR (opc AND 0x3F)"

definition XF_OPCODE_CDATA :: "u32 \<Rightarrow> u32" where
  "XF_OPCODE_CDATA opcode = opcode AND push_bit 31 1"

definition XF_OPCODE_RDATA :: "u32 \<Rightarrow> u32" where
  "XF_OPCODE_RDATA opcode = opcode AND push_bit 30 1"

definition XF_OPCODE_TYPE :: "u32 \<Rightarrow> u32" where
  "XF_OPCODE_TYPE opcode = opcode AND 0x3F"

definition XF_UNREGISTER :: u32 where "XF_UNREGISTER = XF_OPCODE 0 0 0"
definition XF_REGISTER :: u32 where "XF_REGISTER = XF_OPCODE 1 0 1"
definition XF_ROUTE :: u32 where "XF_ROUTE = XF_OPCODE 1 0 2"
definition XF_UNROUTE :: u32 where "XF_UNROUTE = XF_OPCODE 1 0 3"
definition XF_ALLOC :: u32 where "XF_ALLOC = XF_OPCODE 0 0 4"
definition XF_FREE :: u32 where "XF_FREE = XF_OPCODE 0 0 5"
definition XF_SET_PARAM :: u32 where "XF_SET_PARAM = XF_OPCODE 1 0 6"
definition XF_GET_PARAM :: u32 where "XF_GET_PARAM = XF_OPCODE 1 1 7"
definition XF_EMPTY_THIS_BUFFER :: u32 where "XF_EMPTY_THIS_BUFFER = XF_OPCODE 1 0 8"
definition XF_FILL_THIS_BUFFER :: u32 where "XF_FILL_THIS_BUFFER = XF_OPCODE 0 1 9"
definition XF_FLUSH :: u32 where "XF_FLUSH = XF_OPCODE 0 0 10"
definition XF_START :: u32 where "XF_START = XF_OPCODE 0 0 11"
definition XF_STOP :: u32 where "XF_STOP = XF_OPCODE 0 0 12"
definition XF_PAUSE :: u32 where "XF_PAUSE = XF_OPCODE 0 0 13"
definition XF_RESUME :: u32 where "XF_RESUME = XF_OPCODE 0 0 14"
definition XF_SET_PARAM_EXT :: u32 where "XF_SET_PARAM_EXT = XF_OPCODE 1 1 15"
definition XF_GET_PARAM_EXT :: u32 where "XF_GET_PARAM_EXT = XF_OPCODE 1 1 16"

lemmas opcode_defs = XF_UNREGISTER_def XF_REGISTER_def XF_ROUTE_def XF_UNROUTE_def XF_ALLOC_def
  XF_FREE_def XF_SET_PARAM_def XF_GET_PARAM_def XF_EMPTY_THIS_BUFFER_def XF_FILL_THIS_BUFFER_def
  XF_FLUSH_def XF_START_def XF_STOP_def XF_PAUSE_def XF_RESUME_def XF_SET_PARAM_EXT_def
  XF_GET_PARAM_EXT_def

section \<open>Masks as truncations\<close>

lemma mask_take_bit:
  "(w :: u32) AND 0x1 = take_bit 1 w" "w AND 0x3 = take_bit 2 w" "w AND 0xF = take_bit 4 w"
  "w AND 0x3F = take_bit 6 w" "w AND 0xFF = take_bit 8 w" "w AND 0x1FF = take_bit 9 w"
  "w AND 0xFFFF = take_bit 16 w"
  by (simp_all add: take_bit_eq_mask mask_eq_exp_minus_1)

named_theorems field_defs

lemmas field_unfold [field_defs] = XF_PORT_SPEC_def XF_PORT_SPEC2_def XF_PORT_CORE_def
  XF_PORT_CLIENT_def XF_PORT_ID_def XF_MSG_ID_def XF_MSG_SRC_def XF_MSG_SRC_CORE_def
  XF_MSG_SRC_CLIENT_def XF_MSG_SRC_ID_def XF_MSG_SRC_PORT_def XF_MSG_SRC_PROXY_def
  XF_MSG_DST_def XF_MSG_DST_CORE_def XF_MSG_DST_CLIENT_def XF_MSG_DST_ID_def
  XF_MSG_DST_PORT_def XF_MSG_DST_PROXY_def XF_AP_IPC_CLIENT_def XF_AP_CLIENT_def
  XF_AP_PROXY_def XF_DSP_PROXY_def XF_AP_CLIENT_SPEC_def mask_take_bit

text \<open>A word below \<open>2 ^ n\<close> has no bit at or above \<open>n\<close>.\<close>

lemma unat_exp: "n < 32 \<Longrightarrow> unat (2 ^ n :: u32) = 2 ^ n"
proof -
  assume "n < 32"
  then have "(2 :: nat) ^ n < 2 ^ 32" by (intro power_strict_increasing) simp_all
  moreover have "unat (of_nat k :: u32) = k" if "k < 2 ^ 32" for k
    using that by (simp add: unsigned_of_nat take_bit_nat_eq_self)
  ultimately have "unat (of_nat (2 ^ n) :: u32) = 2 ^ n" by blast
  then show ?thesis by (simp only: of_nat_power of_nat_numeral)
qed

lemma less_no_bits:
  assumes "(w :: u32) < 2 ^ n" and "n < 32" and "bit w k"
  shows "k < n"
proof -
  have "unat w < 2 ^ n" using assms(1,2) by (simp add: word_less_nat_alt unat_exp)
  then have "take_bit n (unat w) = unat w" by (rule take_bit_nat_eq_self)
  moreover have "bit (unat w) k" using assms(3) by (simp add: bit_unsigned_iff bit_imp_le_length)
  ultimately show "k < n" by (metis bit_take_bit_iff)
qed

lemma take_bit_less: "n < 32 \<Longrightarrow> take_bit n (w :: u32) < 2 ^ n"
  unfolding word_less_nat_alt unsigned_take_bit_eq using take_bit_nat_less_exp [of n "unat w"]
  by (simp add: unat_exp)

lemma drop_bit_and_1: "drop_bit n (w :: u32) AND 1 = of_bool (bit w n)"
  by (simp add: and_one_eq mod_2_eq_odd bit_iff_odd_drop_bit)

section \<open>Round trips\<close>

lemma port_spec_fields:
  assumes "core < 4" and "i < 64" and "port < 16"
  shows "XF_PORT_CORE (XF_PORT_SPEC core i port) = core"
    and "XF_PORT_CLIENT (XF_PORT_SPEC core i port) = i"
    and "XF_PORT_ID (XF_PORT_SPEC core i port) = port"
    and "XF_PORT_SPEC core i port AND 0xFFFF = XF_PORT_SPEC core i port"
    and "XF_MSG_SRC_PROXY (XF_PORT_SPEC core i port) = 0"
proof -
  have b: "bit core k \<Longrightarrow> k < 2" for k by (rule less_no_bits [of core 2]) (use assms(1) in simp_all)
  have c: "bit i k \<Longrightarrow> k < 6" for k by (rule less_no_bits [of i 6]) (use assms(2) in simp_all)
  have d: "bit port k \<Longrightarrow> k < 4" for k by (rule less_no_bits [of port 4]) (use assms(3) in simp_all)
  show "XF_PORT_CORE (XF_PORT_SPEC core i port) = core"
    by (rule bit_word_eqI) (auto simp: bit_simps field_defs dest: b c d)
  show "XF_PORT_CLIENT (XF_PORT_SPEC core i port) = i"
    by (rule bit_word_eqI) (auto simp: bit_simps field_defs dest: b c d)
  show "XF_PORT_ID (XF_PORT_SPEC core i port) = port"
    by (rule bit_word_eqI) (auto simp: bit_simps field_defs dest: b c d)
  show "XF_PORT_SPEC core i port AND 0xFFFF = XF_PORT_SPEC core i port"
    by (rule bit_word_eqI) (auto simp: bit_simps field_defs dest: b c d)
  show "XF_MSG_SRC_PROXY (XF_PORT_SPEC core i port) = 0"
    unfolding XF_MSG_SRC_PROXY_def drop_bit_and_1
    by (auto simp: bit_simps XF_PORT_SPEC_def dest: b c d)
qed

lemma msg_id_fields [simp]:
  "XF_MSG_SRC (XF_MSG_ID s d) = s AND 0xFFFF"
  "XF_MSG_DST (XF_MSG_ID s d) = d AND 0xFFFF"
  "XF_MSG_SRC_CORE (XF_MSG_ID s d) = XF_PORT_CORE s"
  "XF_MSG_DST_CORE (XF_MSG_ID s d) = XF_PORT_CORE d"
  "XF_MSG_SRC_CLIENT (XF_MSG_ID s d) = XF_PORT_CLIENT s"
  "XF_MSG_DST_CLIENT (XF_MSG_ID s d) = XF_PORT_CLIENT d"
  "XF_MSG_DST_PORT (XF_MSG_ID s d) = XF_PORT_ID d"
  by (rule bit_word_eqI; force simp: bit_simps field_defs)+

lemma msg_id_src_dst [simp]: "XF_MSG_ID (XF_MSG_SRC i) (XF_MSG_DST i) = i"
  by (rule bit_word_eqI) (auto simp: bit_simps field_defs)

text \<open>What \<open>xf_msg_complete\<close> does to an id: swapping twice is the identity, and the proxy and core
  fields trade places.\<close>

definition msg_id_swap :: "u32 \<Rightarrow> u32" where
  "msg_id_swap i = XF_MSG_ID (XF_MSG_DST i) (XF_MSG_SRC i)"

lemma msg_id_swap_swap [simp]: "msg_id_swap (msg_id_swap i) = i"
  by (rule bit_word_eqI) (auto simp: msg_id_swap_def bit_simps field_defs)

lemma msg_id_swap_fields [simp]:
  "XF_MSG_SRC (msg_id_swap i) = XF_MSG_DST i"
  "XF_MSG_DST (msg_id_swap i) = XF_MSG_SRC i"
  "XF_MSG_SRC_CORE (msg_id_swap i) = XF_MSG_DST_CORE i"
  "XF_MSG_DST_CORE (msg_id_swap i) = XF_MSG_SRC_CORE i"
  "XF_MSG_SRC_CLIENT (msg_id_swap i) = XF_MSG_DST_CLIENT i"
  "XF_MSG_DST_CLIENT (msg_id_swap i) = XF_MSG_SRC_CLIENT i"
  by (rule bit_word_eqI; force simp: msg_id_swap_def bit_simps field_defs)+

lemma msg_id_swap_proxy [simp]:
  "XF_MSG_SRC_PROXY (msg_id_swap i) = XF_MSG_DST_PROXY i"
  "XF_MSG_DST_PROXY (msg_id_swap i) = XF_MSG_SRC_PROXY i"
  unfolding XF_MSG_SRC_PROXY_def XF_MSG_DST_PROXY_def drop_bit_and_1
  by (simp_all add: msg_id_swap_def XF_MSG_ID_def XF_MSG_DST_def XF_MSG_SRC_def mask_take_bit bit_simps)

lemma opcode_type:
  "XF_OPCODE_TYPE (XF_OPCODE c r opc) = opc AND 0x3F"
  by (rule bit_word_eqI) (force simp: XF_OPCODE_TYPE_def XF_OPCODE_def mask_take_bit bit_simps)

lemma opcode_tags:
  "XF_OPCODE_CDATA i = 0 \<longleftrightarrow> \<not> bit i 31" "XF_OPCODE_RDATA i = 0 \<longleftrightarrow> \<not> bit i 30"
  unfolding XF_OPCODE_CDATA_def XF_OPCODE_RDATA_def push_bit_of_1 and_exp_eq_0_iff_not_bit by simp_all

lemma opcode_tags_of:
  "c < 2 \<Longrightarrow> r < 2 \<Longrightarrow> bit (XF_OPCODE c r opc) 31 \<longleftrightarrow> bit c 0"
  "bit (XF_OPCODE c r opc) 30 \<longleftrightarrow> bit r 0"
  using less_no_bits [of r 1 1] by (auto simp: XF_OPCODE_def mask_take_bit bit_simps)

text \<open>The core field is two bits wide, the client field six.\<close>

lemma port_core_less: "XF_PORT_CORE i < 4" "XF_MSG_SRC_CORE i < 4" "XF_MSG_DST_CORE i < 4"
  using take_bit_less [of 2] by (simp_all add: field_defs)

lemma client_less: "XF_MSG_DST_CLIENT i < 64" "XF_MSG_SRC_CLIENT i < 64"
  using take_bit_less [of 6] by (simp_all add: field_defs)

end
