(* ===== verification/XF_Msg.thy ===== *)
theory XF_Msg
  imports XF_Mem_Pool XF_Opcode "HOL-Library.Signed_Division"
begin

text \<open>
  Messages, FIFO queues and message pools (include/xf-msg.h, core/xf-msg.c). Messages are
  objects of a heap, linked through their next pointer; a queue holds head and tail, a pool the
  head of its free list. Queues refine lists of message addresses; the locale \<open>fifo\<close> is the
  contract the ports and the core use, interpreted at the end with the pointer code.
\<close>

section \<open>The code\<close>

record xf_message =
  m_next :: addr
  m_id :: u32
  m_opcode :: u32
  m_length :: u32
  m_buffer :: addr
  m_v_buffer :: "64 word"

type_synonym msg_heap = "addr \<Rightarrow> xf_message"

record xf_msg_queue =
  q_head :: addr
  q_tail :: addr

record xf_msg_pool =
  pl_p :: addr
  pl_head :: addr
  pl_n :: u32

text \<open>NULL is 0. The cache line size \<open>al\<close> (XF_PROXY_ALIGNMENT) comes from the toolchain; the
  message structure has 32 bytes, rounded up to a cache line in a pool.\<close>

definition XF_ALIGNED :: "u32 \<Rightarrow> u32 \<Rightarrow> u32" where
  "XF_ALIGNED al sz = (sz + al - 1) AND NOT (al - 1)"

definition XF_IS_ALIGNED :: "u32 \<Rightarrow> addr \<Rightarrow> bool" where
  "XF_IS_ALIGNED al p \<longleftrightarrow> p AND (al - 1) = 0"

definition xf_msg_sizeof :: "u32 \<Rightarrow> u32" where
  "xf_msg_sizeof al = XF_ALIGNED al 32"

definition xf_msg_pool_item :: "u32 \<Rightarrow> xf_msg_pool \<Rightarrow> u32 \<Rightarrow> addr" where
  "xf_msg_pool_item al pool i = pl_p pool + i * xf_msg_sizeof al"

definition xf_msg_queue_init :: "xf_msg_queue \<Rightarrow> xf_msg_queue" where
  "xf_msg_queue_init queue = queue\<lparr>q_head := 0, q_tail := 0\<rparr>"

definition msg_set_next :: "addr \<Rightarrow> addr \<Rightarrow> msg_heap \<Rightarrow> msg_heap" where
  "msg_set_next m n h = h(m := (h m)\<lparr>m_next := n\<rparr>)"

definition xf_msg_enqueue :: "xf_msg_queue \<Rightarrow> addr \<Rightarrow> msg_heap \<Rightarrow> xf_msg_queue \<times> msg_heap \<times> bool" where
  "xf_msg_enqueue queue m h =
     (let empty = (q_head queue = 0);
          h = msg_set_next m 0 h;
          (queue, h) = (if empty then (queue\<lparr>q_head := m\<rparr>, h)
                        else (queue, msg_set_next (q_tail queue) m h));
          queue = queue\<lparr>q_tail := m\<rparr>
      in (queue, h, empty))"

definition xf_msg_dequeue :: "xf_msg_queue \<Rightarrow> msg_heap \<Rightarrow> xf_msg_queue \<times> msg_heap \<times> addr" where
  "xf_msg_dequeue queue h =
     (let m = q_head queue in
      if m \<noteq> 0 then
        let queue = queue\<lparr>q_head := m_next (h m)\<rparr>;
            queue = (if q_head queue = 0 then queue\<lparr>q_tail := 0\<rparr> else queue);
            h = msg_set_next m 0 h
        in (queue, h, m)
      else (queue, h, m))"

definition xf_msg_queue_empty :: "xf_msg_queue \<Rightarrow> bool" where
  "xf_msg_queue_empty queue \<longleftrightarrow> q_head queue = 0"

definition xf_msg_queue_head :: "xf_msg_queue \<Rightarrow> addr" where
  "xf_msg_queue_head queue = q_head queue"

definition xf_msg_from_pool :: "u32 \<Rightarrow> xf_msg_pool \<Rightarrow> addr \<Rightarrow> bool" where
  "xf_msg_from_pool al pool m \<longleftrightarrow>
     word_of_int (sint (m - pl_p pool) sdiv sint (xf_msg_sizeof al)) < pl_n pool"

text \<open>The loop that links item i to item i + 1 runs n - 1 times in 32-bit arithmetic.\<close>

definition msg_pool_link :: "u32 \<Rightarrow> xf_msg_pool \<Rightarrow> u32 \<Rightarrow> msg_heap \<Rightarrow> msg_heap" where
  "msg_pool_link al pool n h =
     fold (\<lambda>i. msg_set_next (xf_msg_pool_item al pool (of_nat i))
                 (xf_msg_pool_item al pool (of_nat i + 1))) [0 ..< unat (n - 1)] h"

definition xf_msg_pool_get :: "xf_msg_pool \<Rightarrow> msg_heap \<Rightarrow> xf_msg_pool \<times> msg_heap \<times> addr" where
  "xf_msg_pool_get pool h =
     (let m = pl_head pool in
      if m = 0 then (pool, h, 0)
      else (pool\<lparr>pl_head := m_next (h m)\<rparr>, msg_set_next m 0 h, m))"

definition xf_msg_pool_put :: "xf_msg_pool \<Rightarrow> addr \<Rightarrow> msg_heap \<Rightarrow> xf_msg_pool \<times> msg_heap" where
  "xf_msg_pool_put pool m h = (pool\<lparr>pl_head := m\<rparr>, msg_set_next m (pl_head pool) h)"

section \<open>Linked lists of messages\<close>

text \<open>\<open>msg_path h p xs\<close>: following the next pointers from p visits xs and ends in NULL.\<close>

fun msg_path :: "msg_heap \<Rightarrow> addr \<Rightarrow> addr list \<Rightarrow> bool" where
  "msg_path h p [] \<longleftrightarrow> p = 0"
| "msg_path h p (x # xs) \<longleftrightarrow> p = x \<and> x \<noteq> 0 \<and> msg_path h (m_next (h x)) xs"

text \<open>What the queue operations leave alone: everything but the link of the messages in A.\<close>

definition msg_data :: "xf_message \<Rightarrow> u32 \<times> u32 \<times> u32 \<times> addr \<times> 64 word" where
  "msg_data m = (m_id m, m_opcode m, m_length m, m_buffer m, m_v_buffer m)"

definition msg_same :: "addr set \<Rightarrow> msg_heap \<Rightarrow> msg_heap \<Rightarrow> bool" where
  "msg_same A h h' \<longleftrightarrow> (\<forall>a. msg_data (h' a) = msg_data (h a)) \<and> (\<forall>a. a \<notin> A \<longrightarrow> h' a = h a)"

lemma msg_same_refl [simp]: "msg_same A h h"
  by (simp add: msg_same_def)

lemma msg_same_trans: "msg_same A h h' \<Longrightarrow> msg_same B h' h'' \<Longrightarrow> msg_same (A \<union> B) h h''"
  by (simp add: msg_same_def)

lemma msg_same_mono: "msg_same A h h' \<Longrightarrow> A \<subseteq> B \<Longrightarrow> msg_same B h h'"
  by (auto simp: msg_same_def)

lemma msg_same_set_next: "msg_same {m} h (msg_set_next m n h)"
  by (simp add: msg_same_def msg_set_next_def msg_data_def)

lemma msg_same_data: "msg_same A h h' \<Longrightarrow> msg_data (h' a) = msg_data (h a)"
  by (simp add: msg_same_def)

lemma msg_data_eq_iff: "msg_data m = msg_data m' \<longleftrightarrow>
    m_id m = m_id m' \<and> m_opcode m = m_opcode m' \<and> m_length m = m_length m' \<and>
    m_buffer m = m_buffer m' \<and> m_v_buffer m = m_v_buffer m'"
  by (auto simp: msg_data_def)

lemma msg_path_cong: "msg_path h p xs \<Longrightarrow> (\<And>x. x \<in> set xs \<Longrightarrow> m_next (h' x) = m_next (h x)) \<Longrightarrow> msg_path h' p xs"
  by (induction xs arbitrary: p) auto

lemma msg_path_same: "msg_path h p xs \<Longrightarrow> msg_same A h h' \<Longrightarrow> A \<inter> set xs = {} \<Longrightarrow> msg_path h' p xs"
  by (erule msg_path_cong) (auto simp: msg_same_def)

lemma msg_path_unique: "msg_path h p xs \<Longrightarrow> msg_path h p ys \<Longrightarrow> xs = ys"
proof (induction xs arbitrary: p ys)
  case Nil
  then show ?case by (cases ys) auto
next
  case (Cons x xs)
  then show ?case by (cases ys) auto
qed

lemma msg_path_nz: "msg_path h p xs \<Longrightarrow> 0 \<notin> set xs"
  by (induction xs arbitrary: p) auto

lemma msg_path_split: "msg_path h p (xs @ y # ys) \<Longrightarrow> msg_path h y (y # ys)"
  by (induction xs arbitrary: p) auto

text \<open>A list that ends in NULL does not visit a message twice.\<close>

lemma msg_path_distinct: "msg_path h p xs \<Longrightarrow> distinct xs"
proof (induction xs arbitrary: p)
  case (Cons x xs)
  have "x \<notin> set xs"
  proof
    assume "x \<in> set xs"
    then obtain as bs where xs: "xs = as @ x # bs" by (meson split_list)
    with Cons.prems have "msg_path h x (x # bs)" "msg_path h x (x # xs)"
      using msg_path_split [of h p "x # as" x bs] by auto
    from msg_path_unique [OF this] xs show False by simp
  qed
  with Cons show ?case by auto
qed simp

lemma msg_path_append:
  "msg_path h p xs \<Longrightarrow> m \<notin> set xs \<Longrightarrow> m \<noteq> 0 \<Longrightarrow> xs \<noteq> [] \<Longrightarrow> m_next (h m) = 0 \<Longrightarrow>
    msg_path (msg_set_next (last xs) m h) p (xs @ [m])"
proof (induction xs arbitrary: p)
  case (Cons x xs)
  show ?case
  proof (cases "xs = []")
    case True
    with Cons.prems show ?thesis by (auto simp: msg_set_next_def)
  next
    case False
    then have "x \<noteq> last xs" using msg_path_distinct [OF Cons.prems(1)] last_in_set [of xs] by auto
    with Cons False show ?thesis by (auto simp: msg_set_next_def)
  qed
qed simp

definition queue_at :: "msg_heap \<Rightarrow> xf_msg_queue \<Rightarrow> addr list \<Rightarrow> bool" where
  "queue_at h q xs \<longleftrightarrow> msg_path h (q_head q) xs \<and> q_tail q = (if xs = [] then 0 else last xs)"

definition pool_at :: "msg_heap \<Rightarrow> xf_msg_pool \<Rightarrow> addr list \<Rightarrow> bool" where
  "pool_at h pool xs \<longleftrightarrow> msg_path h (pl_head pool) xs"

lemma queue_at_distinct: "queue_at h q xs \<Longrightarrow> distinct xs \<and> 0 \<notin> set xs"
  by (auto simp: queue_at_def dest: msg_path_distinct msg_path_nz)

lemma pool_at_distinct: "pool_at h p xs \<Longrightarrow> distinct xs \<and> 0 \<notin> set xs"
  by (auto simp: pool_at_def dest: msg_path_distinct msg_path_nz)

lemma queue_at_same: "queue_at h q xs \<Longrightarrow> msg_same A h h' \<Longrightarrow> A \<inter> set xs = {} \<Longrightarrow> queue_at h' q xs"
  by (auto simp: queue_at_def dest: msg_path_same)

lemma pool_at_same: "pool_at h q xs \<Longrightarrow> msg_same A h h' \<Longrightarrow> A \<inter> set xs = {} \<Longrightarrow> pool_at h' q xs"
  by (auto simp: pool_at_def dest: msg_path_same)

text \<open>Stores to message fields other than the link keep every queue.\<close>

lemma queue_at_data: "queue_at h q xs \<Longrightarrow> (\<And>x. m_next (h' x) = m_next (h x)) \<Longrightarrow> queue_at h' q xs"
  by (auto simp: queue_at_def elim: msg_path_cong)

lemma pool_at_data: "pool_at h q xs \<Longrightarrow> (\<And>x. m_next (h' x) = m_next (h x)) \<Longrightarrow> pool_at h' q xs"
  by (auto simp: pool_at_def elim: msg_path_cong)

lemma queue_at_init: "queue_at h (xf_msg_queue_init q) []"
  by (simp add: queue_at_def xf_msg_queue_init_def)

lemma queue_head_iff: "queue_at h q xs \<Longrightarrow> xf_msg_queue_head q = (if xs = [] then 0 else hd xs)"
  by (cases xs) (auto simp: queue_at_def xf_msg_queue_head_def)

lemma queue_empty_iff: "queue_at h q xs \<Longrightarrow> xf_msg_queue_empty q \<longleftrightarrow> xs = []"
  by (cases xs) (auto simp: queue_at_def xf_msg_queue_empty_def)

lemma queue_enqueue:
  assumes "queue_at h q xs" and "m \<notin> set xs" and "m \<noteq> 0"
  shows "\<exists>q' h'. xf_msg_enqueue q m h = (q', h', xs = []) \<and> queue_at h' q' (xs @ [m]) \<and>
           msg_same (insert m (set xs)) h h'"
proof (cases "xs = []")
  case True
  with assms show ?thesis
    by (auto simp: queue_at_def xf_msg_enqueue_def msg_set_next_def msg_same_def msg_data_def)
next
  case False
  then have e: "q_head q \<noteq> 0" "q_tail q = last xs" using assms(1) by (cases xs; auto simp: queue_at_def)+
  let ?h = "msg_set_next m 0 h"
  have "msg_path ?h (q_head q) xs"
    using assms(1,2) by (auto simp: queue_at_def msg_set_next_def elim!: msg_path_cong)
  then have "msg_path (msg_set_next (last xs) m ?h) (q_head q) (xs @ [m])"
    by (rule msg_path_append) (use assms False in \<open>auto simp: msg_set_next_def\<close>)
  moreover have "msg_same (insert m (set xs)) h (msg_set_next (last xs) m ?h)"
    using False by (auto simp: msg_same_def msg_set_next_def msg_data_def)
  ultimately show ?thesis using e False by (simp add: xf_msg_enqueue_def Let_def queue_at_def)
qed

lemma queue_dequeue_Nil: "queue_at h q [] \<Longrightarrow> xf_msg_dequeue q h = (q, h, 0)"
  by (simp add: queue_at_def xf_msg_dequeue_def)

lemma queue_dequeue:
  assumes "queue_at h q (m # xs)"
  shows "\<exists>q' h'. xf_msg_dequeue q h = (q', h', m) \<and> queue_at h' q' xs \<and> msg_same {m} h h' \<and>
           m_next (h' m) = 0"
proof -
  from assms have p: "q_head q = m" "m \<noteq> 0" "msg_path h (m_next (h m)) xs"
    "q_tail q = (if xs = [] then m else last xs)" by (auto simp: queue_at_def)
  have "m \<notin> set xs" using queue_at_distinct [OF assms] by simp
  then have "msg_path (msg_set_next m 0 h) (m_next (h m)) xs"
    using p(3) by (auto simp: msg_set_next_def elim!: msg_path_cong)
  moreover have "m_next (h m) = 0 \<longleftrightarrow> xs = []" using p(3) by (cases xs) auto
  ultimately show ?thesis
    using p msg_same_set_next [of m h 0]
    by (auto simp: xf_msg_dequeue_def Let_def queue_at_def msg_set_next_def)
qed

lemma pool_get_Nil: "pool_at h p [] \<Longrightarrow> xf_msg_pool_get p h = (p, h, 0)"
  by (simp add: pool_at_def xf_msg_pool_get_def)

lemma pool_get:
  assumes "pool_at h p (m # xs)"
  shows "\<exists>p' h'. xf_msg_pool_get p h = (p', h', m) \<and> pool_at h' p' xs \<and> msg_same {m} h h' \<and>
           pl_p p' = pl_p p \<and> pl_n p' = pl_n p \<and> m \<noteq> 0"
proof -
  from assms have p: "pl_head p = m" "m \<noteq> 0" "msg_path h (m_next (h m)) xs" by (auto simp: pool_at_def)
  have "m \<notin> set xs" using pool_at_distinct [OF assms] by simp
  then have "msg_path (msg_set_next m 0 h) (m_next (h m)) xs"
    using p(3) by (auto simp: msg_set_next_def elim!: msg_path_cong)
  then show ?thesis using p msg_same_set_next [of m h 0]
    by (simp add: xf_msg_pool_get_def pool_at_def)
qed

lemma pool_put:
  assumes "pool_at h p xs" and "m \<notin> set xs" and "m \<noteq> 0"
  shows "\<exists>p' h'. xf_msg_pool_put p m h = (p', h') \<and> pool_at h' p' (m # xs) \<and> msg_same {m} h h' \<and>
           pl_p p' = pl_p p \<and> pl_n p' = pl_n p"
proof -
  have "msg_path (msg_set_next m (pl_head p) h) (pl_head p) xs"
    using assms(1,2) by (auto simp: pool_at_def msg_set_next_def elim!: msg_path_cong)
  then show ?thesis using assms(3) msg_same_set_next [of m h "pl_head p"]
    by (simp add: xf_msg_pool_put_def pool_at_def msg_set_next_def)
qed

end
