(* ===== verification/XF_State.thy ===== *)
theory XF_State
  imports XF_Msg
begin

text \<open>
  The state of the framework (include/xf-core.h, include/sys/xt-shmem/xf-shmem.h,
  include/xf-proxy.h) and the operations that connect it with the allocator
  (include/sys/xt-shmem/xf-mem.h, pool creation of core/xf-msg.c). The configuration has one
  core, so the per-core arrays have one element and an access with another core index is out of
  bounds: the operation has no result (None).
\<close>

section \<open>The state\<close>

record xf_proxy_message =
  p_session_id :: u32
  p_opcode :: u32
  p_length :: u32
  p_address :: "64 word"
  p_v_address :: "64 word"

text \<open>The heap is split by type: tree nodes (\<open>c_mem\<close>), messages, component ids, bytes. \<open>c_sched\<close>,
  \<open>c_local_pool\<close> and \<open>c_shared_pool\<close> are the addresses of these structures in the core data.
  The fields \<open>sh_\<close> are the memory shared with the host; \<open>sh_notified\<close> counts interrupts raised
  on the host.\<close>

record xf_core =
  c_mem :: rb_heap
  c_msgs :: msg_heap
  c_data :: "addr \<Rightarrow> u8"
  c_comp_id :: "addr \<Rightarrow> u32"
  ro_pool :: xf_msg_pool
  rw_local :: xf_msg_queue
  rw_remote :: xf_msg_queue
  c_queue :: xf_msg_queue
  c_response :: xf_msg_queue
  c_cmap :: "u32 list"
  c_free :: u32
  c_sched :: addr
  c_local_pool :: addr
  c_shared_pool :: addr
  c_scratch :: addr
  sh_buffer :: addr
  sh_command :: "u32 \<Rightarrow> xf_proxy_message"
  sh_response :: "u32 \<Rightarrow> xf_proxy_message"
  sh_cmd_write_idx :: u32
  sh_cmd_read_idx :: u32
  sh_rsp_write_idx :: u32
  sh_rsp_read_idx :: u32
  sh_notified :: nat

definition xf_on_core :: "u32 \<Rightarrow> 'a option \<Rightarrow> 'a option" where
  "xf_on_core core r = (if core < XF_CFG_CORES_NUM then r else None)"

lemma xf_on_core_0 [simp]: "xf_on_core 0 r = r"
  by (simp add: xf_on_core_def XF_CFG_CORES_NUM_def)

section \<open>Memory\<close>

definition xf_mem_alloc :: "u32 \<Rightarrow> u32 \<Rightarrow> u32 \<Rightarrow> u32 \<Rightarrow> xf_core \<Rightarrow> (xf_core \<times> addr) option" where
  "xf_mem_alloc sz align core shared cd =
     xf_on_core core
       (map_option (\<lambda>(h, r). (cd\<lparr>c_mem := h\<rparr>, case r of None \<Rightarrow> 0 | Some a \<Rightarrow> a))
          (xf_mm_alloc (c_local_pool cd) (c_mem cd) sz))"

definition xf_mem_free :: "addr \<Rightarrow> u32 \<Rightarrow> u32 \<Rightarrow> u32 \<Rightarrow> xf_core \<Rightarrow> xf_core option" where
  "xf_mem_free p sz core shared cd =
     xf_on_core core (map_option (\<lambda>h. cd\<lparr>c_mem := h\<rparr>) (xf_mm_free (c_local_pool cd) (c_mem cd) p sz))"

definition msg_upd :: "addr \<Rightarrow> (xf_message \<Rightarrow> xf_message) \<Rightarrow> xf_core \<Rightarrow> xf_core" where
  "msg_upd m f cd = cd\<lparr>c_msgs := (c_msgs cd)(m := f (c_msgs cd m))\<rparr>"

definition xf_shmem_alloc :: "u32 \<Rightarrow> u32 \<Rightarrow> addr \<Rightarrow> xf_core \<Rightarrow> (xf_core \<times> (xf_errno + unit)) option" where
  "xf_shmem_alloc al core m cd =
     xf_on_core core
       (case xf_mm_alloc (c_shared_pool cd) (c_mem cd) (XF_ALIGNED al (m_length (c_msgs cd m))) of
          None \<Rightarrow> None
        | Some (h, r) \<Rightarrow>
            let b = (case r of None \<Rightarrow> 0 | Some a \<Rightarrow> a);
                cd = msg_upd m (\<lambda>x. x\<lparr>m_buffer := b\<rparr>) (cd\<lparr>c_mem := h\<rparr>)
            in Some (cd, if b \<noteq> 0 then Inr () else Inl ENOMEM))"

definition xf_shmem_free :: "u32 \<Rightarrow> u32 \<Rightarrow> addr \<Rightarrow> xf_core \<Rightarrow> xf_core option" where
  "xf_shmem_free al core m cd =
     xf_on_core core
       (map_option (\<lambda>h. cd\<lparr>c_mem := h\<rparr>)
          (xf_mm_free (c_shared_pool cd) (c_mem cd) (m_buffer (c_msgs cd m))
             (XF_ALIGNED al (m_length (c_msgs cd m)))))"

definition XF_CFG_CODEC_SCRATCHMEM_SIZE :: u32 where
  "XF_CFG_CODEC_SCRATCHMEM_SIZE = push_bit 10 56"

definition XF_CFG_CODEC_SCRATCHMEM_ALIGN :: u32 where
  "XF_CFG_CODEC_SCRATCHMEM_ALIGN = 8"

definition xf_scratch_mem_init :: "u32 \<Rightarrow> xf_core \<Rightarrow> (xf_core \<times> addr) option" where
  "xf_scratch_mem_init core cd =
     xf_mem_alloc XF_CFG_CODEC_SCRATCHMEM_SIZE XF_CFG_CODEC_SCRATCHMEM_ALIGN core 0 cd"

record xf_mm_buffer =
  mb_addr :: addr
  mb_size :: u32

definition xf_mm_alloc_buffer ::
  "u32 \<Rightarrow> u32 \<Rightarrow> u32 \<Rightarrow> xf_mm_buffer \<Rightarrow> xf_core \<Rightarrow> (xf_core \<times> xf_mm_buffer \<times> (xf_errno + unit)) option"
where
  "xf_mm_alloc_buffer sz align core b cd =
     (let sz = XF_MM sz in
      if sz \<noteq> 0 then
        (case xf_mem_alloc sz align core 0 cd of
           None \<Rightarrow> None
         | Some (cd, a) \<Rightarrow>
             if a = 0 then Some (cd, b\<lparr>mb_addr := a\<rparr>, Inl ENOMEM)
             else Some (cd, b\<lparr>mb_addr := a, mb_size := sz\<rparr>, Inr ()))
      else Some (cd, b\<lparr>mb_addr := 0, mb_size := sz\<rparr>, Inr ()))"

definition xf_mm_free_buffer :: "xf_mm_buffer \<Rightarrow> u32 \<Rightarrow> xf_core \<Rightarrow> xf_core option" where
  "xf_mm_free_buffer b core cd =
     (if mb_addr b \<noteq> 0 then xf_mem_free (mb_addr b) (mb_size b) core 0 cd else Some cd)"

section \<open>Message pools\<close>

definition xf_msg_pool_init ::
  "u32 \<Rightarrow> xf_msg_pool \<Rightarrow> u32 \<Rightarrow> u32 \<Rightarrow> xf_core \<Rightarrow> (xf_core \<times> xf_msg_pool \<times> (xf_errno + unit)) option"
where
  "xf_msg_pool_init al pool n core cd =
     (case xf_mem_alloc (XF_MM (xf_msg_sizeof al * n)) al core 1 cd of
        None \<Rightarrow> None
      | Some (cd, p) \<Rightarrow>
          let pool = pool\<lparr>pl_p := p\<rparr> in
          if p = 0 then Some (cd, pool, Inl ENOMEM)
          else
            let pool = pool\<lparr>pl_head := xf_msg_pool_item al pool 0\<rparr>;
                h = msg_pool_link al pool n (c_msgs cd);
                h = msg_set_next (xf_msg_pool_item al pool (n - 1)) 0 h
            in Some (cd\<lparr>c_msgs := h\<rparr>, pool\<lparr>pl_n := n\<rparr>, Inr ()))"

definition xf_msg_pool_destroy :: "u32 \<Rightarrow> xf_msg_pool \<Rightarrow> u32 \<Rightarrow> xf_core \<Rightarrow> xf_core option" where
  "xf_msg_pool_destroy al pool core cd =
     xf_mem_free (pl_p pool) (XF_MM (xf_msg_sizeof al * pl_n pool)) core 1 cd"

end
