(* ===== verification/XF_Fifo.thy ===== *)
theory XF_Fifo
  imports XF_State
begin

text \<open>
  The contract of the message queues as the locale \<open>fifo\<close>, its interpretation with the linked
  lists of XF_Msg, the creation of message pools, and the properties of messages, queues and
  pools.
\<close>

section \<open>The contract of a queue\<close>

datatype queue_op = Enq addr | Deq

text \<open>A run of operations on a queue, with the results of the dequeues; and the same run on a list.\<close>

fun fifo_run :: "('q \<Rightarrow> addr \<Rightarrow> 'h \<Rightarrow> 'q \<times> 'h \<times> bool) \<Rightarrow> ('q \<Rightarrow> 'h \<Rightarrow> 'q \<times> 'h \<times> addr) \<Rightarrow>
    queue_op list \<Rightarrow> 'q \<Rightarrow> 'h \<Rightarrow> 'q \<times> 'h \<times> addr list" where
  "fifo_run enq deq [] q h = (q, h, [])"
| "fifo_run enq deq (Enq m # ops) q h = (let (q, h, e) = enq q m h in fifo_run enq deq ops q h)"
| "fifo_run enq deq (Deq # ops) q h =
     (let (q, h, m) = deq q h; (q, h, ms) = fifo_run enq deq ops q h in (q, h, m # ms))"

fun list_run :: "queue_op list \<Rightarrow> addr list \<Rightarrow> addr list \<times> addr list" where
  "list_run [] xs = (xs, [])"
| "list_run (Enq m # ops) xs = list_run ops (xs @ [m])"
| "list_run (Deq # ops) xs =
     (let (ys, ms) = list_run ops (tl xs) in (ys, (if xs = [] then 0 else hd xs) # ms))"

text \<open>A message may be enqueued when it is not in the queue.\<close>

fun ops_ok :: "queue_op list \<Rightarrow> addr list \<Rightarrow> bool" where
  "ops_ok [] xs \<longleftrightarrow> True"
| "ops_ok (Enq m # ops) xs \<longleftrightarrow> m \<noteq> 0 \<and> m \<notin> set xs \<and> ops_ok ops (xs @ [m])"
| "ops_ok (Deq # ops) xs \<longleftrightarrow> ops_ok ops (tl xs)"

fun op_messages :: "queue_op list \<Rightarrow> addr set" where
  "op_messages [] = {}"
| "op_messages (Enq m # ops) = insert m (op_messages ops)"
| "op_messages (Deq # ops) = op_messages ops"

locale fifo =
  fixes at :: "'h \<Rightarrow> 'q \<Rightarrow> addr list \<Rightarrow> bool"
    and enq :: "'q \<Rightarrow> addr \<Rightarrow> 'h \<Rightarrow> 'q \<times> 'h \<times> bool"
    and deq :: "'q \<Rightarrow> 'h \<Rightarrow> 'q \<times> 'h \<times> addr"
    and same :: "addr set \<Rightarrow> 'h \<Rightarrow> 'h \<Rightarrow> bool"
  assumes enq_law: "at h q xs \<Longrightarrow> m \<notin> set xs \<Longrightarrow> m \<noteq> 0 \<Longrightarrow>
      \<exists>q' h'. enq q m h = (q', h', xs = []) \<and> at h' q' (xs @ [m]) \<and> same (insert m (set xs)) h h'"
    and deq_law: "at h q (m # xs) \<Longrightarrow> \<exists>q' h'. deq q h = (q', h', m) \<and> at h' q' xs \<and> same {m} h h'"
    and deq_nil: "at h q [] \<Longrightarrow> deq q h = (q, h, 0)"
    and at_same: "at h q xs \<Longrightarrow> same A h h' \<Longrightarrow> A \<inter> set xs = {} \<Longrightarrow> at h' q xs"
    and at_distinct: "at h q xs \<Longrightarrow> distinct xs \<and> 0 \<notin> set xs"
    and same_refl: "same A h h"
    and same_trans: "same A h h' \<Longrightarrow> same B h' h'' \<Longrightarrow> same (A \<union> B) h h''"
    and same_mono: "same A h h' \<Longrightarrow> A \<subseteq> B \<Longrightarrow> same B h h'"
begin

text \<open>Two queues with disjoint messages do not disturb each other.\<close>

lemma enq_other:
  assumes "at h q xs" and "at h q2 ys" and "m \<notin> set xs" and "m \<noteq> 0" and "set ys \<inter> insert m (set xs) = {}"
  shows "\<exists>q' h'. enq q m h = (q', h', xs = []) \<and> at h' q' (xs @ [m]) \<and> at h' q2 ys"
  using enq_law [OF assms(1,3,4)] at_same [OF assms(2)] assms(5) by blast

lemma deq_other:
  assumes "at h q (m # xs)" and "at h q2 ys" and "m \<notin> set ys"
  shows "\<exists>q' h'. deq q h = (q', h', m) \<and> at h' q' xs \<and> at h' q2 ys"
  using deq_law [OF assms(1)] at_same [OF assms(2), of "{m}"] assms(3) by blast

text \<open>Every run behaves as on the list, and touches only the messages that were in the queue or
  are put into it.\<close>

lemma run_refines:
  assumes "at h q xs" and "ops_ok ops xs"
  shows "\<exists>q' h'. fifo_run enq deq ops q h = (q', h', snd (list_run ops xs)) \<and>
           at h' q' (fst (list_run ops xs)) \<and> same (set xs \<union> op_messages ops) h h'"
  using assms
proof (induction ops arbitrary: h q xs)
  case Nil
  then show ?case by (auto simp: same_refl)
next
  case (Cons opr ops)
  show ?case
  proof (cases opr)
    case (Enq m)
    with Cons.prems have m: "m \<noteq> 0" "m \<notin> set xs" "ops_ok ops (xs @ [m])" by simp_all
    from enq_law [OF Cons.prems(1) m(2,1)] obtain q1 h1 where
      1: "enq q m h = (q1, h1, xs = [])" "at h1 q1 (xs @ [m])" "same (insert m (set xs)) h h1" by blast
    from Cons.IH [OF 1(2) m(3)] obtain q' h' where
      2: "fifo_run enq deq ops q1 h1 = (q', h', snd (list_run ops (xs @ [m])))"
        "at h' q' (fst (list_run ops (xs @ [m])))" "same (set (xs @ [m]) \<union> op_messages ops) h1 h'" by blast
    have "same (set xs \<union> op_messages (opr # ops)) h h'"
      by (rule same_mono [OF same_trans [OF 1(3) 2(3)]]) (auto simp: Enq)
    with 1(1) 2(1,2) show ?thesis by (simp add: Enq)
  next
    case Deq
    show ?thesis
    proof (cases xs)
      case Nil
      with Cons.prems Deq have "at h q []" "ops_ok ops []" by simp_all
      from Cons.IH [OF this] deq_nil [OF this(1)] show ?thesis
        by (auto simp: Deq Nil split: prod.splits)
    next
      case xs: (Cons m ys)
      with Cons.prems Deq have o: "ops_ok ops ys" by simp
      from deq_law [OF Cons.prems(1) [unfolded xs]] obtain q1 h1 where
        1: "deq q h = (q1, h1, m)" "at h1 q1 ys" "same {m} h h1" by blast
      from Cons.IH [OF 1(2) o] obtain q' h' where
        2: "fifo_run enq deq ops q1 h1 = (q', h', snd (list_run ops ys))"
          "at h' q' (fst (list_run ops ys))" "same (set ys \<union> op_messages ops) h1 h'" by blast
      have "same (set xs \<union> op_messages (opr # ops)) h h'"
        by (rule same_mono [OF same_trans [OF 1(3) 2(3)]]) (auto simp: xs Deq)
      with 1(1) 2(1,2) show ?thesis by (auto simp: Deq xs split: prod.splits)
    qed
  qed
qed

end

interpretation mq: fifo queue_at xf_msg_enqueue xf_msg_dequeue msg_same
proof unfold_locales
  fix h q m xs assume "queue_at h q (m # xs)"
  from queue_dequeue [OF this]
  show "\<exists>q' h'. xf_msg_dequeue q h = (q', h', m) \<and> queue_at h' q' xs \<and> msg_same {m} h h'" by blast
qed (simp_all add: queue_enqueue queue_dequeue_Nil queue_at_same queue_at_distinct msg_same_trans msg_same_mono)

section \<open>Creation of a pool\<close>

abbreviation pool_it :: "u32 \<Rightarrow> xf_msg_pool \<Rightarrow> nat \<Rightarrow> addr" where
  "pool_it al pool i \<equiv> xf_msg_pool_item al pool (of_nat i)"

lemma pool_it_unat:
  assumes "unat (pl_p pool) + N * unat (xf_msg_sizeof al) \<le> 2 ^ 32" and "i < N" and "0 < unat (xf_msg_sizeof al)"
  shows "unat (pool_it al pool i) = unat (pl_p pool) + i * unat (xf_msg_sizeof al)"
proof -
  let ?s = "unat (xf_msg_sizeof al)"
  have "Suc i * ?s \<le> N * ?s" using assms(2) by (intro mult_le_mono1) simp
  then have l: "unat (pl_p pool) + i * ?s < 2 ^ 32" using assms(1,3) by simp
  have "i * 1 \<le> i * ?s" using assms(3) by (intro mult_le_mono2) simp
  then have "i < 2 ^ 32" using l by linarith
  then have i: "unat (of_nat i :: u32) = i" by (simp add: unsigned_of_nat take_bit_nat_eq_self)
  have m: "unat (of_nat i * xf_msg_sizeof al) = i * ?s" using l unfolding unat_word_ariths i by simp
  show ?thesis unfolding xf_msg_pool_item_def unat_word_ariths(1) m using l by simp
qed

lemma msg_link_next:
  assumes "inj_on f {..< N}" and "k < N"
  shows "(\<forall>j<k. m_next (fold (\<lambda>i. msg_set_next (f i) (f (Suc i))) [0 ..< k] h (f j)) = f (Suc j)) \<and>
     msg_same (f ` {..< k}) h (fold (\<lambda>i. msg_set_next (f i) (f (Suc i))) [0 ..< k] h)"
  using assms(2)
proof (induction k)
  case (Suc k)
  let ?g = "fold (\<lambda>i. msg_set_next (f i) (f (Suc i))) [0 ..< k] h"
  have IH: "\<forall>j<k. m_next (?g (f j)) = f (Suc j)" "msg_same (f ` {..< k}) h ?g" using Suc by simp_all
  have ne: "f j \<noteq> f k" if "j < k" for j
    using inj_onD [OF assms(1), of j k] that Suc.prems by auto
  have "\<forall>j<Suc k. m_next (msg_set_next (f k) (f (Suc k)) ?g (f j)) = f (Suc j)"
    using IH(1) ne by (auto simp: msg_set_next_def less_Suc_eq)
  moreover have "msg_same (f ` {..< Suc k}) h (msg_set_next (f k) (f (Suc k)) ?g)"
    by (rule msg_same_mono [OF msg_same_trans [OF IH(2) msg_same_set_next]]) auto
  ultimately show ?case by simp
qed simp

lemma msg_path_items:
  assumes "\<forall>j<k. m_next (h (f j)) = f (Suc j)" and "m_next (h (f k)) = 0" and "\<forall>j\<le>k. f j \<noteq> 0" and "i \<le> k"
  shows "msg_path h (f i) (map f [i ..< Suc k])"
  using assms(4)
proof (induction rule: inc_induct)
  case base
  then show ?case using assms(2,3) by simp
next
  case (step n)
  then have "[n ..< Suc k] = n # [Suc n ..< Suc k]" by (simp add: upt_conv_Cons)
  then show ?case using step assms(1,3) by simp
qed

lemma unat_and_not_31:
  "unat ((w :: u32) AND NOT (32 - 1)) = 32 * (unat w div 32)"
proof -
  have m: "(32 - 1 :: u32) = mask 5" by (simp add: mask_eq_exp_minus_1)
  have d: "(w AND mask 5) AND (w AND NOT (mask 5)) = 0" by (rule bit_word_eqI) (auto simp: bit_simps)
  have "(w AND mask 5) + (w AND NOT (mask 5)) = (w AND mask 5) OR (w AND NOT (mask 5))"
    by (rule disjunctive_add_eq_or [OF d])
  also have "\<dots> = w" by (rule bit_word_eqI) (auto simp: bit_simps)
  finally have "w AND NOT (mask 5) = w - take_bit 5 w" by (metis add_diff_cancel_left' take_bit_eq_mask)
  moreover have u: "unat (take_bit 5 w) = unat w mod 32"
    unfolding unsigned_take_bit_eq take_bit_eq_mod [where 'a = nat] by simp
  moreover have "take_bit 5 w \<le> w" unfolding word_le_nat_alt u by (rule mod_less_eq_dividend)
  ultimately have "unat (w AND NOT (mask 5)) = unat w - unat w mod 32" by (simp add: unat_sub)
  then show ?thesis unfolding m by (simp add: minus_mod_eq_mult_div)
qed

lemma XF_MM_unat:
  assumes "unat sz + 31 < 2 ^ 32"
  shows "unat (XF_MM sz) = 32 * ((unat sz + 31) div 32)"
proof -
  have "sz + 32 - 1 = sz + 31" by simp
  also have "unat (sz + 31) = unat sz + 31" using assms by (simp add: unat_word_ariths)
  finally show ?thesis unfolding XF_MM_def unat_and_not_31 by simp
qed

lemma XF_MM_size_ok:
  assumes "unat sz + 31 < 2 ^ 32" and "0 < unat sz"
  shows "mm_size_ok (XF_MM sz)" and "unat sz \<le> unat (XF_MM sz)" and "unat (XF_MM sz) < unat sz + 32"
  using assms by (auto simp: XF_MM_unat)

text \<open>Allocation from the local pool at the level of the framework state.\<close>

lemma xf_mem_alloc_cases:
  assumes "mm_free_set lo hi (c_local_pool cd) (c_mem cd) F" and "mm_size_ok sz" and "0 < lo"
  obtains "xf_mem_alloc sz al 0 s cd = Some (cd, 0)" and "\<not> (\<exists>x. {x ..< x + unat sz} \<subseteq> F)"
  | h' a where "xf_mem_alloc sz al 0 s cd = Some (cd\<lparr>c_mem := h'\<rparr>, a)" and "a \<noteq> 0" and "32 dvd unat a"
      and "span a sz \<subseteq> F" and "mm_free_set lo hi (c_local_pool cd) h' (F - span a sz)"
  using mm.alloc_law [OF assms(1,2)]
proof (elim disjE exE conjE)
  assume a: "xf_mm_alloc (c_local_pool cd) (c_mem cd) sz = Some (c_mem cd, None)" "\<not> (\<exists>x. {x ..< x + unat sz} \<subseteq> F)"
  then have "xf_mem_alloc sz al 0 s cd = Some (cd, 0)" by (simp add: xf_mem_alloc_def)
  from that(1) [OF this a(2)] show thesis .
next
  fix h' a assume a: "xf_mm_alloc (c_local_pool cd) (c_mem cd) sz = Some (h', Some a)" "32 dvd unat a"
    "span a sz \<subseteq> F" "mm_free_set lo hi (c_local_pool cd) h' (F - span a sz)"
  have "unat a \<in> F" using a(3) assms(2) by auto
  then have "lo \<le> unat a" using mm.inv_range [OF assms(1)] by auto
  then have "a \<noteq> 0" using assms(3) by auto
  moreover have "xf_mem_alloc sz al 0 s cd = Some (cd\<lparr>c_mem := h'\<rparr>, a)" using a(1) by (simp add: xf_mem_alloc_def)
  ultimately show thesis using a that(2) by blast
qed

definition pool_items :: "u32 \<Rightarrow> xf_msg_pool \<Rightarrow> u32 \<Rightarrow> addr list" where
  "pool_items al pool n = map (pool_it al pool) [0 ..< unat n]"

lemma pool_link_at:
  assumes b: "unat (pl_p pool) + unat n * unat (xf_msg_sizeof al) \<le> 2 ^ 32"
    and s: "0 < unat (xf_msg_sizeof al)" and p: "pl_p pool \<noteq> 0" and n: "n \<noteq> 0"
  shows "msg_path (msg_set_next (xf_msg_pool_item al pool (n - 1)) 0 (msg_pool_link al pool n h))
           (xf_msg_pool_item al pool 0) (pool_items al pool n)"
    and "msg_same (set (pool_items al pool n)) h
           (msg_set_next (xf_msg_pool_item al pool (n - 1)) 0 (msg_pool_link al pool n h))"
proof -
  let ?f = "pool_it al pool"
  let ?k = "unat (n - 1)"
  have "0 < unat n" using n by (simp add: unat_gt_0)
  then have k: "unat n = Suc ?k" unfolding unat_minus_one [OF n] by linarith
  have u: "unat (?f i) = unat (pl_p pool) + i * unat (xf_msg_sizeof al)" if "i < unat n" for i
    by (rule pool_it_unat [OF b that s])
  have inj: "inj_on ?f {..< unat n}"
  proof (rule inj_onI)
    fix i j assume ij: "i \<in> {..< unat n}" "j \<in> {..< unat n}" "?f i = ?f j"
    then have "unat (?f i) = unat (?f j)" by (simp only:)
    then have "i * unat (xf_msg_sizeof al) = j * unat (xf_msg_sizeof al)"
      using u [of i] u [of j] ij(1,2) unfolding lessThan_iff by linarith
    with s show "i = j" by simp
  qed
  have nz: "\<forall>j\<le>?k. ?f j \<noteq> 0"
  proof (intro allI impI)
    fix j assume "j \<le> ?k"
    then have "unat (?f j) \<noteq> 0" using u [of j] k p by (simp add: unat_eq_zero)
    then show "?f j \<noteq> 0" by (metis unat_0)
  qed
  have last: "?f ?k = xf_msg_pool_item al pool (n - 1)" by simp
  have link: "msg_pool_link al pool n h = fold (\<lambda>i. msg_set_next (?f i) (?f (Suc i))) [0 ..< ?k] h"
    by (simp add: msg_pool_link_def add.commute)
  let ?g = "msg_pool_link al pool n h"
  note L = msg_link_next [OF inj, of ?k h, folded link]
  have L1: "\<forall>j<?k. m_next (?g (?f j)) = ?f (Suc j)" and L2: "msg_same (?f ` {..< ?k}) h ?g" using L k by simp_all
  have ne: "?f j \<noteq> ?f ?k" if "j < ?k" for j using inj_onD [OF inj, of j ?k] that k by auto
  have "msg_path (msg_set_next (?f ?k) 0 ?g) (?f 0) (map ?f [0 ..< Suc ?k])"
    by (rule msg_path_items) (use L1 ne nz in \<open>auto simp: msg_set_next_def\<close>)
  then show "msg_path (msg_set_next (xf_msg_pool_item al pool (n - 1)) 0 ?g)
           (xf_msg_pool_item al pool 0) (pool_items al pool n)"
    using k last by (simp add: pool_items_def)
  show "msg_same (set (pool_items al pool n)) h (msg_set_next (xf_msg_pool_item al pool (n - 1)) 0 ?g)"
    by (rule msg_same_mono [OF msg_same_trans [OF L2 msg_same_set_next]]) (use k last in \<open>auto simp: pool_items_def\<close>)
qed

lemma mm_free_set_hi: "mm_free_set lo hi pool h F \<Longrightarrow> hi \<le> 2 ^ 32"
  by (auto simp: mm_free_set_def mm_inv_def mm_maps_def mm_pool_ok_def)

lemma pool_items_cong: "pl_p pool' = pl_p pool \<Longrightarrow> pool_items al pool' n = pool_items al pool n"
  by (simp add: pool_items_def xf_msg_pool_item_def)

lemma length_pool_items [simp]: "length (pool_items al pool n) = unat n"
  by (simp add: pool_items_def)

lemma msg_pool_init_spec:
  assumes I: "mm_free_set lo hi (c_local_pool cd) (c_mem cd) F" and lo: "0 < lo" and n: "n \<noteq> 0"
    and s: "0 < unat (xf_msg_sizeof al)" and fit: "unat n * unat (xf_msg_sizeof al) + 31 < 2 ^ 32"
  shows "(\<exists>p'. xf_msg_pool_init al pool n 0 cd = Some (cd, p', Inl ENOMEM)) \<and>
      \<not> (\<exists>x. {x ..< x + unat (XF_MM (xf_msg_sizeof al * n))} \<subseteq> F) \<or>
    (\<exists>h' g p'. xf_msg_pool_init al pool n 0 cd = Some (cd\<lparr>c_mem := h', c_msgs := g\<rparr>, p', Inr ()) \<and>
       pl_n p' = n \<and> 32 dvd unat (pl_p p') \<and> span (pl_p p') (XF_MM (xf_msg_sizeof al * n)) \<subseteq> F \<and>
       mm_free_set lo hi (c_local_pool cd) h' (F - span (pl_p p') (XF_MM (xf_msg_sizeof al * n))) \<and>
       pool_at g p' (pool_items al p' n) \<and> msg_same (set (pool_items al p' n)) (c_msgs cd) g \<and>
       (\<forall>m\<in>set (pool_items al p' n). {unat m ..< unat m + unat (xf_msg_sizeof al)} \<subseteq> F))"
    (is "?fail \<or> ?ok")
proof -
  let ?S = "XF_MM (xf_msg_sizeof al * n)"
  have n0: "0 < unat n" using n by (simp add: unat_gt_0)
  have m: "unat (xf_msg_sizeof al * n) = unat n * unat (xf_msg_sizeof al)"
    using fit by (simp add: unat_word_ariths(2) mult.commute)
  have pos: "0 < unat (xf_msg_sizeof al * n)" unfolding m using n0 s by simp
  have fit': "unat (xf_msg_sizeof al * n) + 31 < 2 ^ 32" unfolding m by (rule fit)
  note S = XF_MM_size_ok [OF fit' pos]
  show ?thesis
  proof (rule xf_mem_alloc_cases [OF I S(1) lo])
    assume "xf_mem_alloc ?S al 0 1 cd = Some (cd, 0)" "\<not> (\<exists>x. {x ..< x + unat ?S} \<subseteq> F)"
    then show ?thesis by (auto simp: xf_msg_pool_init_def Let_def)
  next
    fix h' a assume a: "xf_mem_alloc ?S al 0 1 cd = Some (cd\<lparr>c_mem := h'\<rparr>, a)" "a \<noteq> 0"
      "32 dvd unat a" "span a ?S \<subseteq> F" "mm_free_set lo hi (c_local_pool cd) h' (F - span a ?S)"
    define p1 where "p1 = (pool\<lparr>pl_p := a\<rparr>)\<lparr>pl_head := xf_msg_pool_item al (pool\<lparr>pl_p := a\<rparr>) 0\<rparr>"
    define g where "g = msg_set_next (xf_msg_pool_item al p1 (n - 1)) 0 (msg_pool_link al p1 n (c_msgs cd))"
    have p1: "pl_p p1 = a" "pl_head p1 = xf_msg_pool_item al p1 0"
      by (simp_all add: p1_def xf_msg_pool_item_def)
    have "F \<subseteq> {lo ..< hi}" by (rule mm.inv_range [OF I])
    with a(4) have "span a ?S \<subseteq> {lo ..< hi}" by blast
    then have "unat a + unat ?S \<le> hi" using S(1) by (auto simp: atLeastLessThan_subset_iff)
    then have b: "unat (pl_p p1) + unat n * unat (xf_msg_sizeof al) \<le> 2 ^ 32"
      using S(2) mm_free_set_hi [OF I] unfolding m p1 by linarith
    note L = pool_link_at [OF b s, of "c_msgs cd", folded g_def]
    have call: "xf_msg_pool_init al pool n 0 cd = Some (cd\<lparr>c_mem := h', c_msgs := g\<rparr>, p1\<lparr>pl_n := n\<rparr>, Inr ())"
      using a(1,2) by (simp add: xf_msg_pool_init_def Let_def g_def p1_def xf_msg_pool_item_def)
    have items: "pool_items al (p1\<lparr>pl_n := n\<rparr>) n = pool_items al p1 n" by (rule pool_items_cong) simp
    have at: "pool_at g (p1\<lparr>pl_n := n\<rparr>) (pool_items al p1 n)"
      using L(1) a(2) p1 n by (simp add: pool_at_def)
    have same: "msg_same (set (pool_items al p1 n)) (c_msgs cd) g" using L(2) a(2) p1 n by simp
    have inside: "{unat m' ..< unat m' + unat (xf_msg_sizeof al)} \<subseteq> F" if m': "m' \<in> set (pool_items al p1 n)" for m'
    proof -
      obtain i where i: "i < unat n" "m' = pool_it al p1 i" using m' by (auto simp: pool_items_def)
      have u: "unat m' = unat a + i * unat (xf_msg_sizeof al)"
        unfolding i(2) pool_it_unat [OF b i(1) s] p1(1) ..
      have "Suc i * unat (xf_msg_sizeof al) \<le> unat n * unat (xf_msg_sizeof al)"
        using i(1) by (intro mult_le_mono1) simp
      then have "unat m' + unat (xf_msg_sizeof al) \<le> unat a + unat ?S" using S(2) u unfolding m by simp
      then have "{unat m' ..< unat m' + unat (xf_msg_sizeof al)} \<subseteq> span a ?S" using u by auto
      with a(4) show ?thesis by blast
    qed
    have ?ok
      by (intro exI [of _ h'] exI [of _ g] exI [of _ "p1\<lparr>pl_n := n\<rparr>"])
        (use call a(3-5) at same inside in \<open>simp add: items p1(1)\<close>)
    then show ?thesis ..
  qed
qed

section \<open>Properties\<close>

text \<open>C11: a message queue is a FIFO: any run of enqueues (of messages that are not queued) and dequeues
  gives the results of the same run on a list, NULL on the empty queue, leaves the queue equal to
  that list, and touches no other message and no field but the link.\<close>

theorem msg_queue_fifo:
  assumes "queue_at h q xs" and "ops_ok ops xs"
  shows "\<exists>q' h'. fifo_run xf_msg_enqueue xf_msg_dequeue ops q h = (q', h', snd (list_run ops xs)) \<and>
           queue_at h' q' (fst (list_run ops xs)) \<and>
           (\<forall>a. a \<notin> set xs \<union> op_messages ops \<longrightarrow> h' a = h a) \<and>
           (\<forall>a. m_id (h' a) = m_id (h a) \<and> m_opcode (h' a) = m_opcode (h a) \<and>
                m_length (h' a) = m_length (h a) \<and> m_buffer (h' a) = m_buffer (h a))"
  using mq.run_refines [OF assms] by (auto simp: msg_same_def msg_data_eq_iff)

definition msg_demo :: msg_heap where
  "msg_demo = (\<lambda>_. \<lparr>m_next = 0, m_id = 0, m_opcode = 0, m_length = 0, m_buffer = 0, m_v_buffer = 0\<rparr>)"

theorem msg_queue_fifo_witness:
  "\<exists>q' h'. fifo_run xf_msg_enqueue xf_msg_dequeue [Enq 32, Enq 64, Deq, Enq 96, Deq, Deq, Deq]
      \<lparr>q_head = 0, q_tail = 0\<rparr> msg_demo = (q', h', [32, 64, 96, 0])"
proof -
  have "queue_at msg_demo \<lparr>q_head = 0, q_tail = 0\<rparr> []" by (simp add: queue_at_def)
  from msg_queue_fifo [OF this, of "[Enq 32, Enq 64, Deq, Enq 96, Deq, Deq, Deq]"] show ?thesis by auto
qed

text \<open>creating a pool of n messages fails with ENOMEM only when the local pool has no range of the
  rounded-up size; otherwise the free list holds exactly the n items of the array, all inside
  memory that was free, and that memory is no longer free.\<close>

theorem msg_pool_init_correct:
  assumes "mm_free_set lo hi (c_local_pool cd) (c_mem cd) F" and "0 < lo" and "n \<noteq> 0"
    and "0 < unat (xf_msg_sizeof al)" and "unat n * unat (xf_msg_sizeof al) + 31 < 2 ^ 32"
  shows "(\<exists>p'. xf_msg_pool_init al pool n 0 cd = Some (cd, p', Inl ENOMEM)) \<and>
      \<not> (\<exists>x. {x ..< x + unat (XF_MM (xf_msg_sizeof al * n))} \<subseteq> F) \<or>
    (\<exists>h' g p'. xf_msg_pool_init al pool n 0 cd = Some (cd\<lparr>c_mem := h', c_msgs := g\<rparr>, p', Inr ()) \<and>
       pl_n p' = n \<and> pool_at g p' (pool_items al p' n) \<and>
       (\<forall>m\<in>set (pool_items al p' n). {unat m ..< unat m + unat (xf_msg_sizeof al)} \<subseteq> F) \<and>
       mm_free_set lo hi (c_local_pool cd) h' (F - span (pl_p p') (XF_MM (xf_msg_sizeof al * n))))"
  using msg_pool_init_spec [OF assms] by blast

definition core_demo :: xf_core where
  "core_demo = \<lparr>c_mem = mm_demo, c_msgs = msg_demo, c_data = (\<lambda>_. 0), c_comp_id = (\<lambda>_. 0),
     ro_pool = \<lparr>pl_p = 0, pl_head = 0, pl_n = 0\<rparr>, rw_local = \<lparr>q_head = 0, q_tail = 0\<rparr>,
     rw_remote = \<lparr>q_head = 0, q_tail = 0\<rparr>, c_queue = \<lparr>q_head = 0, q_tail = 0\<rparr>,
     c_response = \<lparr>q_head = 0, q_tail = 0\<rparr>, c_cmap = map (\<lambda>i. of_nat i + 1) [0 ..< 64], c_free = 0,
     c_sched = 0, c_local_pool = 0, c_shared_pool = 0, c_scratch = 0, sh_buffer = 2048,
     sh_command = (\<lambda>_. \<lparr>p_session_id = 0, p_opcode = 0, p_length = 0, p_address = 0, p_v_address = 0\<rparr>),
     sh_response = (\<lambda>_. \<lparr>p_session_id = 0, p_opcode = 0, p_length = 0, p_address = 0, p_v_address = 0\<rparr>),
     sh_cmd_write_idx = 0, sh_cmd_read_idx = 0, sh_rsp_write_idx = 0, sh_rsp_read_idx = 0,
     sh_notified = 0\<rparr>"

lemma sizeof_demo: "xf_msg_sizeof 32 = 32"
proof -
  have "unat ((63 :: u32) AND NOT (32 - 1)) = 32" unfolding unat_and_not_31 by simp
  then have "(63 :: u32) AND NOT (32 - 1) = 32" by (simp only: word_unat_eq_iff) simp
  then show ?thesis by (simp add: xf_msg_sizeof_def XF_ALIGNED_def)
qed

theorem msg_pool_init_correct_witness:
  "\<exists>h' g p'. xf_msg_pool_init 32 (ro_pool core_demo) 3 0 core_demo =
     Some (core_demo\<lparr>c_mem := h', c_msgs := g\<rparr>, p', Inr ()) \<and> pool_at g p' (pool_items 32 p' 3)"
proof -
  have F: "mm_free_set 64 1024 (c_local_pool core_demo) (c_mem core_demo) {64 ..< 192}"
    using demo_free_set by (simp add: core_demo_def)
  have "unat (XF_MM (96 :: u32)) = 96" by (simp add: XF_MM_unat)
  then have "{64 ..< 64 + unat (XF_MM (96 :: u32))} \<subseteq> {64 ..< 192}" by simp
  then have "\<exists>x. {x ..< x + unat (XF_MM (xf_msg_sizeof 32 * 3))} \<subseteq> {64 ..< 192}"
    unfolding sizeof_demo by (intro exI [of _ 64]) simp
  with msg_pool_init_correct [OF F, of 3 32 "ro_pool core_demo"] show ?thesis by (auto simp: sizeof_demo)
qed

end
