(* ===== verification/XF_Ipc.thy ===== *)
theory XF_Ipc
  imports XF_Fifo
begin

text \<open>
  Message passing (the message helpers and entry points of core/xf-core.c, the proxy queue of
  core/xf-shmem.c, core/xf-isr.c and the responses of include/xf-msg.h). A message waits in the
  local queue, the inter-core queue, the proxy (remote) queue or the deferred response queue, or
  lies in the free pool. The abstract state \<open>ipc_lists\<close> has these five lists; every operation
  is shown to be the corresponding list step, so that no message is lost or duplicated.
\<close>

section \<open>The code\<close>

text \<open>One core is configured, so the mutex operations are empty; interrupt masking around a single
  queue operation has no effect on a sequential run.\<close>

definition xf_ipi_assert :: "u32 \<Rightarrow> xf_core \<Rightarrow> xf_core" where
  "xf_ipi_assert core cd = cd\<lparr>sh_notified := sh_notified cd + 1\<rparr>"

definition xf_msg_proxy_put :: "addr \<Rightarrow> xf_core \<Rightarrow> xf_core option" where
  "xf_msg_proxy_put m cd =
     (let dst = XF_MSG_DST_CORE (m_id (c_msgs cd m));
          src = XF_MSG_SRC_CORE (m_id (c_msgs cd m))
      in xf_on_core dst
           (let (q, h, first) = xf_msg_enqueue (rw_remote cd) m (c_msgs cd);
                cd = cd\<lparr>rw_remote := q, c_msgs := h\<rparr>
            in Some (if first \<and> dst XOR src \<noteq> 0 then xf_ipi_assert dst cd else cd)))"

definition xf_msg_proxy_get :: "u32 \<Rightarrow> xf_core \<Rightarrow> (xf_core \<times> addr) option" where
  "xf_msg_proxy_get core cd =
     xf_on_core core
       (let (q, h, m) = xf_msg_dequeue (rw_remote cd) (c_msgs cd)
        in Some (cd\<lparr>rw_remote := q, c_msgs := h\<rparr>, m))"

definition xf_msg_proxy_complete :: "addr \<Rightarrow> xf_core \<Rightarrow> xf_core option" where
  "xf_msg_proxy_complete m cd = xf_msg_proxy_put m cd"

definition xf_msg_local_ipc_put :: "u32 \<Rightarrow> u32 \<Rightarrow> addr \<Rightarrow> xf_core \<Rightarrow> xf_core option" where
  "xf_msg_local_ipc_put src dst m cd =
     xf_on_core dst
       (let (q, h, first) = xf_msg_enqueue (rw_local cd) m (c_msgs cd);
            cd = cd\<lparr>rw_local := q, c_msgs := h\<rparr>
        in Some (if first then xf_ipi_assert dst cd else cd))"

definition xf_msg_local_ipc_get :: "u32 \<Rightarrow> xf_core \<Rightarrow> (xf_core \<times> addr) option" where
  "xf_msg_local_ipc_get core cd =
     xf_on_core core
       (let (q, h, m) = xf_msg_dequeue (rw_local cd) (c_msgs cd)
        in Some (cd\<lparr>rw_local := q, c_msgs := h\<rparr>, m))"

definition xf_msg_local_put :: "u32 \<Rightarrow> addr \<Rightarrow> xf_core \<Rightarrow> (xf_core \<times> bool) option" where
  "xf_msg_local_put core m cd =
     xf_on_core core
       (let (q, h, first) = xf_msg_enqueue (c_queue cd) m (c_msgs cd)
        in Some (cd\<lparr>c_queue := q, c_msgs := h\<rparr>, first))"

definition xf_msg_local_get :: "u32 \<Rightarrow> xf_core \<Rightarrow> (xf_core \<times> addr) option" where
  "xf_msg_local_get core cd =
     xf_on_core core
       (let (q, h, m) = xf_msg_dequeue (c_queue cd) (c_msgs cd)
        in Some (cd\<lparr>c_queue := q, c_msgs := h\<rparr>, m))"

definition xf_msg_local_response_get :: "u32 \<Rightarrow> xf_core \<Rightarrow> (xf_core \<times> addr) option" where
  "xf_msg_local_response_get core cd =
     xf_on_core core
       (let (q, h, m) = xf_msg_dequeue (c_response cd) (c_msgs cd)
        in Some (cd\<lparr>c_response := q, c_msgs := h\<rparr>, m))"

definition xf_msg_submit :: "addr \<Rightarrow> xf_core \<Rightarrow> xf_core option" where
  "xf_msg_submit m cd =
     (let src = XF_MSG_SRC_CORE (m_id (c_msgs cd m));
          dst = XF_MSG_DST_CORE (m_id (c_msgs cd m))
      in if src XOR dst \<noteq> 0 then xf_msg_local_ipc_put src dst m cd
         else map_option fst (xf_msg_local_put src m cd))"

definition xf_opcode_flip :: "u32 \<Rightarrow> u32" where
  "xf_opcode_flip opc =
     (if opc = XF_EMPTY_THIS_BUFFER then XF_FILL_THIS_BUFFER
      else if opc = XF_FILL_THIS_BUFFER then XF_EMPTY_THIS_BUFFER else opc)"

definition xf_msg_complete :: "addr \<Rightarrow> xf_core \<Rightarrow> xf_core option" where
  "xf_msg_complete m cd =
     (let src = XF_MSG_SRC (m_id (c_msgs cd m));
          dst = XF_MSG_DST (m_id (c_msgs cd m));
          cd = msg_upd m (\<lambda>x. x\<lparr>m_id := XF_MSG_ID dst src\<rparr>) cd
      in if XF_MSG_DST_PROXY (m_id (c_msgs cd m)) \<noteq> 0 then xf_msg_proxy_complete m cd
         else
           let cd = msg_upd m (\<lambda>x. x\<lparr>m_opcode := xf_opcode_flip (m_opcode x)\<rparr>) cd
           in xf_msg_submit m cd)"

definition xf_response :: "addr \<Rightarrow> xf_core \<Rightarrow> xf_core option" where
  "xf_response m cd = xf_msg_complete m cd"

definition xf_response_data :: "addr \<Rightarrow> u32 \<Rightarrow> xf_core \<Rightarrow> xf_core option" where
  "xf_response_data m len cd = xf_msg_complete m (msg_upd m (\<lambda>x. x\<lparr>m_length := len\<rparr>) cd)"

definition xf_response_ok :: "addr \<Rightarrow> xf_core \<Rightarrow> xf_core option" where
  "xf_response_ok m cd = xf_msg_complete m (msg_upd m (\<lambda>x. x\<lparr>m_length := 0\<rparr>) cd)"

definition xf_response_err :: "addr \<Rightarrow> xf_core \<Rightarrow> xf_core option" where
  "xf_response_err m cd =
     xf_msg_complete m (msg_upd m (\<lambda>x. x\<lparr>m_opcode := XF_UNREGISTER, m_length := 0\<rparr>) cd)"

text \<open>Waking the core (\<open>xf_ipi_resume\<close>) acts on mailbox registers and the wait flag of the idle loop only,
  which are not part of the framework state.\<close>

definition xf_ipi_resume :: "u32 \<Rightarrow> xf_core \<Rightarrow> xf_core" where
  "xf_ipi_resume core cd = cd"

definition xf_msg_schedule_isr :: "addr \<Rightarrow> xf_core \<Rightarrow> xf_core option" where
  "xf_msg_schedule_isr m cd =
     (let core = XF_MSG_DST_CORE (m_id (c_msgs cd m)) in
      xf_on_core core
        (let (q, h, first) = xf_msg_enqueue (c_queue cd) m (c_msgs cd);
             cd = cd\<lparr>c_queue := q, c_msgs := h\<rparr>
         in Some (if first then xf_ipi_resume core cd else cd)))"

definition xf_msg_complete_isr :: "addr \<Rightarrow> xf_core \<Rightarrow> xf_core option" where
  "xf_msg_complete_isr m cd =
     (let core = XF_MSG_DST_CORE (m_id (c_msgs cd m)) in
      xf_on_core core
        (let (q, h, first) = xf_msg_enqueue (c_response cd) m (c_msgs cd);
             cd = cd\<lparr>c_response := q, c_msgs := h\<rparr>
         in Some (if first then xf_ipi_resume core cd else cd)))"

section \<open>The five lists\<close>

text \<open>The abstract state: the list of free messages and one list per queue.\<close>

datatype ipc_queue = QLocal | QRemote | QCore | QResponse

fun get_q :: "ipc_queue \<Rightarrow> xf_core \<Rightarrow> xf_msg_queue" where
  "get_q QLocal cd = rw_local cd"
| "get_q QRemote cd = rw_remote cd"
| "get_q QCore cd = c_queue cd"
| "get_q QResponse cd = c_response cd"

fun set_q :: "ipc_queue \<Rightarrow> xf_msg_queue \<Rightarrow> xf_core \<Rightarrow> xf_core" where
  "set_q QLocal q cd = cd\<lparr>rw_local := q\<rparr>"
| "set_q QRemote q cd = cd\<lparr>rw_remote := q\<rparr>"
| "set_q QCore q cd = cd\<lparr>c_queue := q\<rparr>"
| "set_q QResponse q cd = cd\<lparr>c_response := q\<rparr>"

lemma get_set_q [simp]: "get_q j (set_q k q cd) = (if j = k then q else get_q j cd)"
  by (cases j; cases k) simp_all

lemma get_q_upd [simp]: "get_q k (cd\<lparr>c_msgs := h\<rparr>) = get_q k cd" "get_q k (cd\<lparr>ro_pool := p\<rparr>) = get_q k cd"
  "get_q k (cd\<lparr>sh_notified := n\<rparr>) = get_q k cd"
  by (cases k; simp)+

lemma set_q_fields [simp]: "c_msgs (set_q k q cd) = c_msgs cd" "ro_pool (set_q k q cd) = ro_pool cd"
  by (cases k; simp)+

definition ipc_at :: "xf_core \<Rightarrow> addr list \<Rightarrow> (ipc_queue \<Rightarrow> addr list) \<Rightarrow> bool" where
  "ipc_at cd P L \<longleftrightarrow>
     pool_at (c_msgs cd) (ro_pool cd) P \<and> (\<forall>k. queue_at (c_msgs cd) (get_q k cd) (L k)) \<and>
     (\<forall>k. set P \<inter> set (L k) = {}) \<and> (\<forall>j k. j \<noteq> k \<longrightarrow> set (L j) \<inter> set (L k) = {})"

definition ipc_set :: "addr list \<Rightarrow> (ipc_queue \<Rightarrow> addr list) \<Rightarrow> addr set" where
  "ipc_set P L = set P \<union> (\<Union>k. set (L k))"

text \<open>What message passing leaves alone: all data of the core but the messages and the queues; and
  of the messages only the links of those in A.\<close>

definition ipc_frame :: "xf_core \<Rightarrow> xf_core \<Rightarrow> bool" where
  "ipc_frame cd cd' \<longleftrightarrow>
     cd' = cd\<lparr>c_msgs := c_msgs cd', ro_pool := ro_pool cd', rw_local := rw_local cd', rw_remote := rw_remote cd',
              c_queue := c_queue cd', c_response := c_response cd', sh_notified := sh_notified cd'\<rparr>"

lemma ipc_frame_refl [simp]: "ipc_frame cd cd"
  by (simp add: ipc_frame_def)

lemma ipc_frame_trans: "ipc_frame cd cd' \<Longrightarrow> ipc_frame cd' cd'' \<Longrightarrow> ipc_frame cd cd''"
  by (cases cd; cases cd'; cases cd'') (simp add: ipc_frame_def)

lemma ipc_frame_fields:
  assumes "ipc_frame cd cd'"
  shows "c_mem cd' = c_mem cd" and "c_data cd' = c_data cd" and "c_comp_id cd' = c_comp_id cd"
    and "c_cmap cd' = c_cmap cd" and "c_free cd' = c_free cd" and "c_sched cd' = c_sched cd"
    and "c_local_pool cd' = c_local_pool cd" and "c_shared_pool cd' = c_shared_pool cd"
    and "c_scratch cd' = c_scratch cd" and "sh_buffer cd' = sh_buffer cd"
    and "sh_command cd' = sh_command cd" and "sh_response cd' = sh_response cd"
    and "sh_cmd_write_idx cd' = sh_cmd_write_idx cd" and "sh_cmd_read_idx cd' = sh_cmd_read_idx cd"
    and "sh_rsp_write_idx cd' = sh_rsp_write_idx cd" and "sh_rsp_read_idx cd' = sh_rsp_read_idx cd"
  using assms by (cases cd; cases cd'; simp add: ipc_frame_def)+

lemma ipc_frame_upd [simp]:
  "ipc_frame cd (cd\<lparr>c_msgs := h\<rparr>)" "ipc_frame cd (cd\<lparr>ro_pool := p\<rparr>)" "ipc_frame cd (set_q k q cd)"
  "ipc_frame cd (cd\<lparr>sh_notified := n\<rparr>)" "ipc_frame cd (msg_upd m f cd)"
  by (cases cd; cases k; simp add: ipc_frame_def msg_upd_def)+

lemma ipc_at_distinct: "ipc_at cd P L \<Longrightarrow> distinct P \<and> distinct (L k) \<and> 0 \<notin> set P \<and> 0 \<notin> set (L k)"
  by (auto simp: ipc_at_def dest: pool_at_distinct queue_at_distinct)

lemma ipc_at_nz: "ipc_at cd P L \<Longrightarrow> 0 \<notin> ipc_set P L"
  using ipc_at_distinct by (auto simp: ipc_set_def)

lemma ipc_at_data: "ipc_at cd P L \<Longrightarrow> (\<And>x. m_next (h x) = m_next (c_msgs cd x)) \<Longrightarrow> ipc_at (cd\<lparr>c_msgs := h\<rparr>) P L"
  by (auto simp: ipc_at_def intro: queue_at_data pool_at_data)

lemma ipc_at_msg_upd:
  "ipc_at cd P L \<Longrightarrow> (\<And>x. m_next (f x) = m_next x) \<Longrightarrow> ipc_at (msg_upd m f cd) P L"
  unfolding msg_upd_def by (rule ipc_at_data) auto

lemma ipc_at_notified [simp]: "ipc_at (cd\<lparr>sh_notified := n\<rparr>) P L = ipc_at cd P L"
  by (simp add: ipc_at_def)

text \<open>The steps: put and get for a queue, put and get for the pool.\<close>

lemma ipc_put:
  assumes I: "ipc_at cd P L" and m: "m \<notin> ipc_set P L" "m \<noteq> 0"
  obtains q h where "xf_msg_enqueue (get_q k cd) m (c_msgs cd) = (q, h, L k = [])"
    and "ipc_at ((set_q k q cd)\<lparr>c_msgs := h\<rparr>) P (L(k := L k @ [m]))"
    and "msg_same (insert m (ipc_set P L)) (c_msgs cd) h"
proof -
  from m(1) have n: "m \<notin> set P" "m \<notin> set (L j)" for j by (auto simp: ipc_set_def)
  from I have "queue_at (c_msgs cd) (get_q k cd) (L k)" by (simp add: ipc_at_def)
  from mq.enq_law [OF this n(2) m(2)] obtain q h where e:
    "xf_msg_enqueue (get_q k cd) m (c_msgs cd) = (q, h, L k = [])" "queue_at h q (L k @ [m])"
    "msg_same (insert m (set (L k))) (c_msgs cd) h" by blast
  have "pool_at h (ro_pool cd) P"
    by (rule pool_at_same [OF _ e(3)]) (use I n in \<open>auto simp: ipc_at_def\<close>)
  moreover have "queue_at h (get_q j cd) (L j)" if "j \<noteq> k" for j
    by (rule queue_at_same [OF _ e(3)]) (use I n that in \<open>auto simp: ipc_at_def\<close>)
  ultimately have "ipc_at ((set_q k q cd)\<lparr>c_msgs := h\<rparr>) P (L(k := L k @ [m]))"
    using I n e(2) by (auto simp: ipc_at_def)
  moreover have "msg_same (insert m (ipc_set P L)) (c_msgs cd) h"
    by (rule msg_same_mono [OF e(3)]) (auto simp: ipc_set_def)
  ultimately show thesis using e(1) that by blast
qed

lemma ipc_get_Nil:
  "ipc_at cd P L \<Longrightarrow> L k = [] \<Longrightarrow> xf_msg_dequeue (get_q k cd) (c_msgs cd) = (get_q k cd, c_msgs cd, 0)"
  unfolding ipc_at_def by (metis mq.deq_nil)

lemma ipc_get:
  assumes I: "ipc_at cd P L" and m: "L k = m # ms"
  obtains q h where "xf_msg_dequeue (get_q k cd) (c_msgs cd) = (q, h, m)"
    and "ipc_at ((set_q k q cd)\<lparr>c_msgs := h\<rparr>) P (L(k := ms))"
    and "msg_same {m} (c_msgs cd) h" and "m \<notin> ipc_set P (L(k := ms))" and "m \<noteq> 0"
proof -
  from I m have at: "queue_at (c_msgs cd) (get_q k cd) (m # ms)" unfolding ipc_at_def by metis
  from mq.deq_law [OF this] obtain q h where e:
    "xf_msg_dequeue (get_q k cd) (c_msgs cd) = (q, h, m)" "queue_at h q ms" "msg_same {m} (c_msgs cd) h" by blast
  have mk: "m \<in> set (L k)" using m by simp
  then have n: "m \<notin> set P" "j \<noteq> k \<Longrightarrow> m \<notin> set (L j)" for j using I unfolding ipc_at_def by blast+
  have "pool_at h (ro_pool cd) P"
    by (rule pool_at_same [OF _ e(3)]) (use I n in \<open>auto simp: ipc_at_def\<close>)
  moreover have "queue_at h (get_q j cd) (L j)" if "j \<noteq> k" for j
    by (rule queue_at_same [OF _ e(3)]) (use I n that in \<open>auto simp: ipc_at_def\<close>)
  moreover have sub: "set ((L(k := ms)) j) \<subseteq> set (L j)" for j using m by auto
  have "\<forall>j. set P \<inter> set ((L(k := ms)) j) = {}" "\<forall>i j. i \<noteq> j \<longrightarrow> set ((L(k := ms)) i) \<inter> set ((L(k := ms)) j) = {}"
    using I sub unfolding ipc_at_def by blast+
  ultimately have "ipc_at ((set_q k q cd)\<lparr>c_msgs := h\<rparr>) P (L(k := ms))"
    using e(2) unfolding ipc_at_def by auto
  moreover have "m \<notin> set ms" "m \<noteq> 0" using mq.at_distinct [OF at] by auto
  then have "m \<notin> ipc_set P (L(k := ms))" using n by (auto simp: ipc_set_def)
  ultimately show thesis using e(1,3) \<open>m \<noteq> 0\<close> that by blast
qed

lemma ipc_pool_put:
  assumes I: "ipc_at cd P L" and m: "m \<notin> ipc_set P L" "m \<noteq> 0"
  obtains p h where "xf_msg_pool_put (ro_pool cd) m (c_msgs cd) = (p, h)"
    and "ipc_at (cd\<lparr>ro_pool := p, c_msgs := h\<rparr>) (m # P) L" and "msg_same {m} (c_msgs cd) h"
proof -
  from m(1) have n: "m \<notin> set P" "m \<notin> set (L j)" for j by (auto simp: ipc_set_def)
  from I have "pool_at (c_msgs cd) (ro_pool cd) P" by (simp add: ipc_at_def)
  from pool_put [OF this n(1) m(2)] obtain p h where e:
    "xf_msg_pool_put (ro_pool cd) m (c_msgs cd) = (p, h)" "pool_at h p (m # P)" "msg_same {m} (c_msgs cd) h" by blast
  have "queue_at h (get_q j cd) (L j)" for j
    by (rule queue_at_same [OF _ e(3)]) (use I n in \<open>auto simp: ipc_at_def\<close>)
  then have "ipc_at (cd\<lparr>ro_pool := p, c_msgs := h\<rparr>) (m # P) L" using I n e(2) by (auto simp: ipc_at_def)
  with e that show thesis by blast
qed

lemma ipc_pool_get:
  assumes I: "ipc_at cd (m # P) L"
  obtains p h where "xf_msg_pool_get (ro_pool cd) (c_msgs cd) = (p, h, m)"
    and "ipc_at (cd\<lparr>ro_pool := p, c_msgs := h\<rparr>) P L" and "msg_same {m} (c_msgs cd) h"
    and "m \<notin> ipc_set P L" and "m \<noteq> 0"
proof -
  from I have at: "pool_at (c_msgs cd) (ro_pool cd) (m # P)" by (simp add: ipc_at_def)
  from pool_get [OF at] obtain p h where e:
    "xf_msg_pool_get (ro_pool cd) (c_msgs cd) = (p, h, m)" "pool_at h p P" "msg_same {m} (c_msgs cd) h" "m \<noteq> 0" by blast
  have n: "m \<notin> set (L j)" for j using I by (auto simp: ipc_at_def)
  have "queue_at h (get_q j cd) (L j)" for j
    by (rule queue_at_same [OF _ e(3)]) (use I n in \<open>auto simp: ipc_at_def\<close>)
  then have "ipc_at (cd\<lparr>ro_pool := p, c_msgs := h\<rparr>) P L" using I e(2) by (auto simp: ipc_at_def)
  moreover have "m \<notin> set P" using pool_at_distinct [OF at] by simp
  ultimately show thesis using e n that by (auto simp: ipc_set_def)
qed

section \<open>Submission and completion\<close>

lemma ipc_frame_step [simp]:
  "ipc_frame cd ((set_q k q cd)\<lparr>c_msgs := h\<rparr>)" "ipc_frame cd ((set_q k q cd)\<lparr>c_msgs := h, sh_notified := n\<rparr>)"
  "ipc_frame cd (cd\<lparr>ro_pool := p, c_msgs := h\<rparr>)"
  by (cases cd; cases k; simp add: ipc_frame_def)+

text \<open>What one put leaves behind, as every put of the code has it: the queue grows by the message,
  nothing but links and queues changes.\<close>

definition ipc_appended ::
  "xf_core \<Rightarrow> addr list \<Rightarrow> (ipc_queue \<Rightarrow> addr list) \<Rightarrow> ipc_queue \<Rightarrow> addr \<Rightarrow> xf_core \<Rightarrow> bool" where
  "ipc_appended cd P L k m cd' \<longleftrightarrow>
     ipc_at cd' P (L(k := L k @ [m])) \<and> ipc_frame cd cd' \<and>
     (\<forall>a. msg_data (c_msgs cd' a) = msg_data (c_msgs cd a)) \<and>
     (\<forall>a. a \<notin> insert m (ipc_set P L) \<longrightarrow> c_msgs cd' a = c_msgs cd a)"

lemma ipc_appendedI:
  assumes "ipc_at ((set_q k q cd)\<lparr>c_msgs := h\<rparr>) P (L(k := L k @ [m]))"
    and "msg_same (insert m (ipc_set P L)) (c_msgs cd) h"
  shows "ipc_appended cd P L k m ((set_q k q cd)\<lparr>c_msgs := h\<rparr>)"
    and "ipc_appended cd P L k m ((set_q k q cd)\<lparr>c_msgs := h, sh_notified := n\<rparr>)"
proof -
  show "ipc_appended cd P L k m ((set_q k q cd)\<lparr>c_msgs := h\<rparr>)"
    using assms by (simp add: ipc_appended_def msg_same_def)
  moreover have "(set_q k q cd)\<lparr>c_msgs := h, sh_notified := n\<rparr> = (set_q k q cd)\<lparr>c_msgs := h\<rparr>\<lparr>sh_notified := n\<rparr>"
    by simp
  ultimately show "ipc_appended cd P L k m ((set_q k q cd)\<lparr>c_msgs := h, sh_notified := n\<rparr>)"
    unfolding ipc_appended_def by (auto simp del: ipc_at_notified simp: ipc_at_notified)
qed

definition submit_queue :: "u32 \<Rightarrow> ipc_queue" where
  "submit_queue i = (if XF_MSG_SRC_CORE i = 0 then QCore else QLocal)"

lemma xf_msg_submit_at:
  assumes I: "ipc_at cd P L" and m: "m \<notin> ipc_set P L" "m \<noteq> 0" and c: "XF_MSG_DST_CORE (m_id (c_msgs cd m)) = 0"
  shows "\<exists>cd'. xf_msg_submit m cd = Some cd' \<and> ipc_appended cd P L (submit_queue (m_id (c_msgs cd m))) m cd'"
proof (cases "XF_MSG_SRC_CORE (m_id (c_msgs cd m)) = 0")
  case True
  obtain q h where e: "xf_msg_enqueue (get_q QCore cd) m (c_msgs cd) = (q, h, L QCore = [])"
    "ipc_at ((set_q QCore q cd)\<lparr>c_msgs := h\<rparr>) P (L(QCore := L QCore @ [m]))"
    "msg_same (insert m (ipc_set P L)) (c_msgs cd) h" by (rule ipc_put [OF I m])
  have "xf_msg_submit m cd = Some ((set_q QCore q cd)\<lparr>c_msgs := h\<rparr>)"
    using e(1) True c by (simp add: xf_msg_submit_def xf_msg_local_put_def)
  with ipc_appendedI(1) [OF e(2,3)] True show ?thesis by (simp add: submit_queue_def)
next
  case False
  obtain q h where e: "xf_msg_enqueue (get_q QLocal cd) m (c_msgs cd) = (q, h, L QLocal = [])"
    "ipc_at ((set_q QLocal q cd)\<lparr>c_msgs := h\<rparr>) P (L(QLocal := L QLocal @ [m]))"
    "msg_same (insert m (ipc_set P L)) (c_msgs cd) h" by (rule ipc_put [OF I m])
  have "xf_msg_submit m cd = Some ((set_q QLocal q cd)\<lparr>c_msgs := h\<rparr>) \<or>
      xf_msg_submit m cd = Some ((set_q QLocal q cd)\<lparr>c_msgs := h, sh_notified := sh_notified cd + 1\<rparr>)"
    using e(1) False c by (simp add: xf_msg_submit_def xf_msg_local_ipc_put_def xf_ipi_assert_def Let_def)
  with ipc_appendedI [OF e(2,3)] False show ?thesis by (auto simp: submit_queue_def)
qed

text \<open>With one core configured, a message whose core field is not 0 indexes the core tables out of
  bounds; nothing checks the field.\<close>

lemma word_xor_eq_0: "(a :: u32) XOR b = 0 \<longleftrightarrow> a = b"
  by (auto simp: bit_eq_iff bit_xor_iff)

lemma xf_msg_submit_core:
  "XF_MSG_DST_CORE (m_id (c_msgs cd m)) \<noteq> 0 \<Longrightarrow> xf_msg_submit m cd = None"
proof -
  assume "XF_MSG_DST_CORE (m_id (c_msgs cd m)) \<noteq> 0"
  then have "\<not> XF_MSG_DST_CORE (m_id (c_msgs cd m)) < XF_CFG_CORES_NUM"
    by (simp add: XF_CFG_CORES_NUM_def)
  then show ?thesis
    by (simp add: xf_msg_submit_def xf_msg_local_ipc_put_def xf_msg_local_put_def xf_on_core_def Let_def word_xor_eq_0)
qed

lemma xf_msg_proxy_put_at:
  assumes I: "ipc_at cd P L" and m: "m \<notin> ipc_set P L" "m \<noteq> 0" and c: "XF_MSG_DST_CORE (m_id (c_msgs cd m)) = 0"
  shows "\<exists>cd'. xf_msg_proxy_put m cd = Some cd' \<and> ipc_appended cd P L QRemote m cd'"
proof -
  obtain q h where e: "xf_msg_enqueue (get_q QRemote cd) m (c_msgs cd) = (q, h, L QRemote = [])"
    "ipc_at ((set_q QRemote q cd)\<lparr>c_msgs := h\<rparr>) P (L(QRemote := L QRemote @ [m]))"
    "msg_same (insert m (ipc_set P L)) (c_msgs cd) h" by (rule ipc_put [OF I m])
  have "xf_msg_proxy_put m cd = Some ((set_q QRemote q cd)\<lparr>c_msgs := h\<rparr>) \<or>
      xf_msg_proxy_put m cd = Some ((set_q QRemote q cd)\<lparr>c_msgs := h, sh_notified := sh_notified cd + 1\<rparr>)"
    using e(1) c by (simp add: xf_msg_proxy_put_def xf_ipi_assert_def Let_def)
  with ipc_appendedI [OF e(2,3)] show ?thesis by auto
qed

definition complete_queue :: "u32 \<Rightarrow> ipc_queue" where
  "complete_queue i =
     (if XF_MSG_SRC_PROXY i \<noteq> 0 then QRemote else if XF_MSG_DST_CORE i = 0 then QCore else QLocal)"

definition ipc_completed ::
  "xf_core \<Rightarrow> addr list \<Rightarrow> (ipc_queue \<Rightarrow> addr list) \<Rightarrow> addr \<Rightarrow> xf_core \<Rightarrow> bool" where
  "ipc_completed cd P L m cd' \<longleftrightarrow>
     (let x = c_msgs cd m; x' = c_msgs cd' m; k = complete_queue (m_id x) in
      ipc_at cd' P (L(k := L k @ [m])) \<and> ipc_frame cd cd' \<and>
      m_id x' = msg_id_swap (m_id x) \<and>
      m_opcode x' = (if XF_MSG_SRC_PROXY (m_id x) \<noteq> 0 then m_opcode x else xf_opcode_flip (m_opcode x)) \<and>
      m_length x' = m_length x \<and> m_buffer x' = m_buffer x \<and>
      (\<forall>a. a \<noteq> m \<longrightarrow> msg_data (c_msgs cd' a) = msg_data (c_msgs cd a)) \<and>
      (\<forall>a. a \<notin> insert m (ipc_set P L) \<longrightarrow> c_msgs cd' a = c_msgs cd a))"

lemma msg_upd_apply [simp]: "c_msgs (msg_upd m f cd) = (c_msgs cd)(m := f (c_msgs cd m))"
  by (simp add: msg_upd_def)

lemma xf_msg_complete_at:
  assumes I: "ipc_at cd P L" and m: "m \<notin> ipc_set P L" "m \<noteq> 0" and c: "XF_MSG_SRC_CORE (m_id (c_msgs cd m)) = 0"
  shows "\<exists>cd'. xf_msg_complete m cd = Some cd' \<and> ipc_completed cd P L m cd'"
proof -
  let ?i = "m_id (c_msgs cd m)"
  let ?c1 = "msg_upd m (\<lambda>x. x\<lparr>m_id := msg_id_swap ?i\<rparr>) cd"
  have I1: "ipc_at ?c1 P L" by (rule ipc_at_msg_upd [OF I]) simp
  show ?thesis
  proof (cases "XF_MSG_SRC_PROXY ?i = 0")
    case False
    obtain cd' where r: "xf_msg_proxy_put m ?c1 = Some cd'" "ipc_appended ?c1 P L QRemote m cd'"
      using xf_msg_proxy_put_at [OF I1 m] c by auto
    have "xf_msg_complete m cd = Some cd'"
      using r(1) False by (simp add: xf_msg_complete_def Let_def msg_id_swap_def [symmetric] xf_msg_proxy_complete_def)
    moreover have "ipc_frame cd cd'"
      using r(2) ipc_frame_trans [of cd ?c1 cd'] by (simp add: ipc_appended_def)
    ultimately show ?thesis using r(2) False
      by (auto simp: ipc_completed_def ipc_appended_def complete_queue_def msg_data_eq_iff Let_def)
  next
    case True
    let ?c2 = "msg_upd m (\<lambda>x. x\<lparr>m_opcode := xf_opcode_flip (m_opcode x)\<rparr>) ?c1"
    have I2: "ipc_at ?c2 P L" by (rule ipc_at_msg_upd [OF I1]) simp
    have k: "submit_queue (msg_id_swap ?i) = complete_queue ?i"
      using True by (simp add: submit_queue_def complete_queue_def)
    obtain cd' where r: "xf_msg_submit m ?c2 = Some cd'" "ipc_appended ?c2 P L (complete_queue ?i) m cd'"
      using xf_msg_submit_at [OF I2 m] c by (auto simp: k)
    have "xf_msg_complete m cd = Some cd'"
      using r(1) True by (simp add: xf_msg_complete_def Let_def msg_id_swap_def [symmetric])
    moreover have "ipc_frame cd cd'"
      using r(2) ipc_frame_trans [of cd ?c1 cd'] ipc_frame_trans [of ?c1 ?c2 cd'] by (simp add: ipc_appended_def)
    ultimately show ?thesis using r(2) True
      by (auto simp: ipc_completed_def ipc_appended_def msg_data_eq_iff Let_def)
  qed
qed

text \<open>The four responses differ only in the fields they set before completing.\<close>

lemma xf_complete_upd:
  assumes "ipc_at cd P L" and "m \<notin> ipc_set P L" and "m \<noteq> 0" and "XF_MSG_SRC_CORE (m_id (c_msgs cd m)) = 0"
    and f: "\<And>x. m_next (f x) = m_next x" "\<And>x. m_id (f x) = m_id x"
  shows "\<exists>cd'. xf_msg_complete m (msg_upd m f cd) = Some cd' \<and> ipc_completed (msg_upd m f cd) P L m cd'"
  by (rule xf_msg_complete_at [OF ipc_at_msg_upd [OF assms(1) f(1)] assms(2,3)]) (simp add: assms(4) f(2))

lemma xf_response_at:
  assumes "ipc_at cd P L" and "m \<notin> ipc_set P L" and "m \<noteq> 0" and "XF_MSG_SRC_CORE (m_id (c_msgs cd m)) = 0"
  shows "\<exists>cd'. xf_response m cd = Some cd' \<and> ipc_completed cd P L m cd'"
    and "\<exists>cd'. xf_response_ok m cd = Some cd' \<and> ipc_completed (msg_upd m (\<lambda>x. x\<lparr>m_length := 0\<rparr>) cd) P L m cd'"
    and "\<exists>cd'. xf_response_data m n cd = Some cd' \<and> ipc_completed (msg_upd m (\<lambda>x. x\<lparr>m_length := n\<rparr>) cd) P L m cd'"
    and "\<exists>cd'. xf_response_err m cd = Some cd' \<and>
           ipc_completed (msg_upd m (\<lambda>x. x\<lparr>m_opcode := XF_UNREGISTER, m_length := 0\<rparr>) cd) P L m cd'"
  unfolding xf_response_def xf_response_ok_def xf_response_data_def xf_response_err_def
  by (rule xf_msg_complete_at [OF assms]) (rule xf_complete_upd [OF assms]; simp)+

lemma xf_msg_isr_at:
  assumes "ipc_at cd P L" and "m \<notin> ipc_set P L" and "m \<noteq> 0" and "XF_MSG_DST_CORE (m_id (c_msgs cd m)) = 0"
  shows "\<exists>cd'. xf_msg_schedule_isr m cd = Some cd' \<and> ipc_appended cd P L QCore m cd'"
    and "\<exists>cd'. xf_msg_complete_isr m cd = Some cd' \<and> ipc_appended cd P L QResponse m cd'"
proof -
  obtain q h where e: "xf_msg_enqueue (get_q QCore cd) m (c_msgs cd) = (q, h, L QCore = [])"
    "ipc_at ((set_q QCore q cd)\<lparr>c_msgs := h\<rparr>) P (L(QCore := L QCore @ [m]))"
    "msg_same (insert m (ipc_set P L)) (c_msgs cd) h" by (rule ipc_put [OF assms(1-3)])
  have "xf_msg_schedule_isr m cd = Some ((set_q QCore q cd)\<lparr>c_msgs := h\<rparr>)"
    using e(1) assms(4) by (simp add: xf_msg_schedule_isr_def xf_ipi_resume_def Let_def)
  with ipc_appendedI(1) [OF e(2,3)]
  show "\<exists>cd'. xf_msg_schedule_isr m cd = Some cd' \<and> ipc_appended cd P L QCore m cd'" by blast
  obtain q h where e: "xf_msg_enqueue (get_q QResponse cd) m (c_msgs cd) = (q, h, L QResponse = [])"
    "ipc_at ((set_q QResponse q cd)\<lparr>c_msgs := h\<rparr>) P (L(QResponse := L QResponse @ [m]))"
    "msg_same (insert m (ipc_set P L)) (c_msgs cd) h" by (rule ipc_put [OF assms(1-3)])
  have "xf_msg_complete_isr m cd = Some ((set_q QResponse q cd)\<lparr>c_msgs := h\<rparr>)"
    using e(1) assms(4) by (simp add: xf_msg_complete_isr_def xf_ipi_resume_def Let_def)
  with ipc_appendedI(1) [OF e(2,3)]
  show "\<exists>cd'. xf_msg_complete_isr m cd = Some cd' \<and> ipc_appended cd P L QResponse m cd'" by blast
qed

section \<open>Reception\<close>

text \<open>Every get returns the head of its list (NULL when it is empty) and keeps the rest.\<close>

definition ipc_taken ::
  "xf_core \<Rightarrow> addr list \<Rightarrow> (ipc_queue \<Rightarrow> addr list) \<Rightarrow> ipc_queue \<Rightarrow> xf_core \<Rightarrow> bool" where
  "ipc_taken cd P L k cd' \<longleftrightarrow>
     ipc_at cd' P (L(k := tl (L k))) \<and> ipc_frame cd cd' \<and>
     (\<forall>a. msg_data (c_msgs cd' a) = msg_data (c_msgs cd a)) \<and> sh_notified cd' = sh_notified cd \<and>
     ro_pool cd' = ro_pool cd"

lemma ipc_get_cases:
  assumes I: "ipc_at cd P L"
  obtains q h where "xf_msg_dequeue (get_q k cd) (c_msgs cd) = (q, h, if L k = [] then 0 else hd (L k))"
    and "ipc_taken cd P L k ((set_q k q cd)\<lparr>c_msgs := h\<rparr>)"
proof (cases "L k")
  case Nil
  have s: "(set_q k (get_q k cd) cd)\<lparr>c_msgs := c_msgs cd\<rparr> = cd" by (cases k) simp_all
  have "L(k := []) = L" using Nil by auto
  then have "ipc_taken cd P L k ((set_q k (get_q k cd) cd)\<lparr>c_msgs := c_msgs cd\<rparr>)"
    unfolding s ipc_taken_def using I Nil by simp
  with ipc_get_Nil [OF I Nil] Nil that show thesis by simp
next
  case (Cons m ms)
  obtain q h where e: "xf_msg_dequeue (get_q k cd) (c_msgs cd) = (q, h, m)"
    "ipc_at ((set_q k q cd)\<lparr>c_msgs := h\<rparr>) P (L(k := ms))" "msg_same {m} (c_msgs cd) h"
    by (rule ipc_get [OF I Cons])
  have "ipc_taken cd P L k ((set_q k q cd)\<lparr>c_msgs := h\<rparr>)"
    unfolding ipc_taken_def using e(2,3) Cons by (cases k) (simp_all add: msg_same_def ipc_frame_def)
  with e(1) Cons that show thesis by simp
qed

lemma xf_msg_get_at:
  assumes I: "ipc_at cd P L"
  shows "\<exists>cd'. xf_msg_local_ipc_get 0 cd = Some (cd', if L QLocal = [] then 0 else hd (L QLocal)) \<and> ipc_taken cd P L QLocal cd'"
    and "\<exists>cd'. xf_msg_proxy_get 0 cd = Some (cd', if L QRemote = [] then 0 else hd (L QRemote)) \<and> ipc_taken cd P L QRemote cd'"
    and "\<exists>cd'. xf_msg_local_get 0 cd = Some (cd', if L QCore = [] then 0 else hd (L QCore)) \<and> ipc_taken cd P L QCore cd'"
    and "\<exists>cd'. xf_msg_local_response_get 0 cd = Some (cd', if L QResponse = [] then 0 else hd (L QResponse)) \<and> ipc_taken cd P L QResponse cd'"
  by (rule ipc_get_cases [OF I, of QLocal], simp add: xf_msg_local_ipc_get_def)
    (rule ipc_get_cases [OF I, of QRemote], simp add: xf_msg_proxy_get_def,
     rule ipc_get_cases [OF I, of QCore], simp add: xf_msg_local_get_def,
     rule ipc_get_cases [OF I, of QResponse], simp add: xf_msg_local_response_get_def)

lemma ipc_taken_fresh:
  assumes "ipc_at cd P L" and "L k \<noteq> []"
  shows "hd (L k) \<notin> ipc_set P (L(k := tl (L k)))" and "hd (L k) \<noteq> 0"
proof -
  obtain m ms where m: "L k = m # ms" using assms(2) by (cases "L k") auto
  obtain q h where "m \<notin> ipc_set P (L(k := ms))" "m \<noteq> 0" by (rule ipc_get [OF assms(1) m])
  with m show "hd (L k) \<notin> ipc_set P (L(k := tl (L k)))" "hd (L k) \<noteq> 0" by simp_all
qed

end
