(* ===== verification/XF_Shmem.thy ===== *)
theory XF_Shmem
  imports XF_Ipc
begin

text \<open>
  The shared memory interface with the host (core/xf-shmem.c, the ring indices of
  include/xf-proxy.h, the address translation of include/sys/xt-shmem/xf-ipc.h). Commands come
  in through one ring of 256 entries, responses go out through another one. A ring index packs
  the slot number and a running counter; it is abstracted to the natural number of entries ever
  written or read.
\<close>

section \<open>Ring indices\<close>

definition XF_PROXY_MESSAGE_QUEUE_LENGTH :: u32 where
  "XF_PROXY_MESSAGE_QUEUE_LENGTH = push_bit 8 1"

definition XF_PROXY_MESSAGE_QUEUE_MASK :: u32 where
  "XF_PROXY_MESSAGE_QUEUE_MASK = 0xFF"

definition XF_QUEUE_IDX_OF :: "u32 \<Rightarrow> u32 \<Rightarrow> u32" where
  "XF_QUEUE_IDX_OF idx counter = (idx AND XF_PROXY_MESSAGE_QUEUE_MASK) OR push_bit 16 counter"

definition XF_QUEUE_IDX :: "u32 \<Rightarrow> u32" where
  "XF_QUEUE_IDX idx = idx AND XF_PROXY_MESSAGE_QUEUE_MASK"

definition XF_QUEUE_ADVANCE_IDX :: "u32 \<Rightarrow> u32" where
  "XF_QUEUE_ADVANCE_IDX idx = (idx + 0x10001) AND (0xFFFF0000 OR XF_PROXY_MESSAGE_QUEUE_MASK)"

definition XF_QUEUE_EMPTY :: "u32 \<Rightarrow> u32 \<Rightarrow> bool" where
  "XF_QUEUE_EMPTY read write \<longleftrightarrow> read = write"

definition XF_QUEUE_FULL :: "u32 \<Rightarrow> u32 \<Rightarrow> bool" where
  "XF_QUEUE_FULL read write \<longleftrightarrow> write = read + push_bit 16 XF_PROXY_MESSAGE_QUEUE_LENGTH"

text \<open>The index after n entries.\<close>

definition ring_idx :: "nat \<Rightarrow> u32" where
  "ring_idx n = XF_QUEUE_IDX_OF (of_nat n) (of_nat n)"

lemma ring_idx_alt: "ring_idx n = take_bit 8 (of_nat n) OR push_bit 16 (of_nat n)"
  by (simp add: ring_idx_def XF_QUEUE_IDX_OF_def XF_PROXY_MESSAGE_QUEUE_MASK_def mask_take_bit)

lemma low_or_push:
  assumes "(a :: u32) < 2 ^ 16"
  shows "a + push_bit 16 b = a OR push_bit 16 b"
proof (rule disjunctive_add_eq_or)
  have "bit a k \<Longrightarrow> k < 16" for k using less_no_bits [of a 16 k] assms by simp
  then show "a AND push_bit 16 b = 0" by (intro bit_word_eqI) (fastforce simp: bit_simps)
qed

lemma take_bit_8_less: "take_bit 8 (x :: u32) + 1 < 2 ^ 16" "take_bit 8 (x :: u32) < 2 ^ 16"
proof -
  have "unat (take_bit 8 x) < 2 ^ 8" unfolding unsigned_take_bit_eq by (rule take_bit_nat_less_exp)
  then show "take_bit 8 x + 1 < 2 ^ 16" "take_bit 8 x < 2 ^ 16"
    unfolding word_less_nat_alt unat_word_ariths by simp_all
qed

lemma unat_of_nat_u32: "unat (of_nat n :: u32) = n mod 2 ^ 32"
  by (simp add: unsigned_of_nat take_bit_eq_mod)

lemma unat_take_bit_8: "unat (take_bit 8 (x :: u32)) = unat x mod 256"
  unfolding unsigned_take_bit_eq take_bit_eq_mod [where 'a = nat] by simp

lemma take_bit_8_suc: "take_bit 8 (take_bit 8 (x :: u32) + 1) = take_bit 8 (x + 1)"
proof -
  have "unat (take_bit 8 x + 1) = unat x mod 256 + 1"
    using mod_less_divisor [of 256 "unat x"] unfolding unat_word_ariths unat_take_bit_8 by simp
  moreover have "(unat x + 1) mod 2 ^ 32 mod 256 = (unat x + 1) mod 256"
    by (rule mod_mod_cancel) simp
  then have "unat (x + 1) mod 256 = (unat x + 1) mod 256" unfolding unat_word_ariths by simp
  ultimately show ?thesis unfolding word_unat_eq_iff unat_take_bit_8 by (simp add: mod_simps)
qed

lemma ring_mask: "(0xFFFF0000 OR 0xFF :: u32) = push_bit 16 (mask 16) OR mask 8"
  by (simp add: mask_eq_exp_minus_1)

lemma ring_advance [simp]: "XF_QUEUE_ADVANCE_IDX (ring_idx n) = ring_idx (Suc n)"
proof -
  let ?N = "of_nat n :: u32"
  let ?a = "take_bit 8 ?N + 1"
  have "ring_idx n + 0x10001 = ?a + push_bit 16 (?N + 1)"
    unfolding ring_idx_alt low_or_push [OF take_bit_8_less(2), symmetric]
    by (simp add: push_bit_eq_mult algebra_simps)
  also have "\<dots> = ?a OR push_bit 16 (?N + 1)" by (rule low_or_push [OF take_bit_8_less(1)])
  finally have "XF_QUEUE_ADVANCE_IDX (ring_idx n) =
      (?a OR push_bit 16 (?N + 1)) AND (push_bit 16 (mask 16) OR mask 8)"
    unfolding XF_QUEUE_ADVANCE_IDX_def XF_PROXY_MESSAGE_QUEUE_MASK_def ring_mask by simp
  also have "\<dots> = take_bit 8 ?a OR push_bit 16 (?N + 1)"
  proof (rule bit_word_eqI)
    fix k assume k: "k < LENGTH(32)"
    have "bit ?a k \<Longrightarrow> k < 16" using less_no_bits [OF take_bit_8_less(1) [of ?N]] by simp
    with k show "bit ((?a OR push_bit 16 (?N + 1)) AND (push_bit 16 (mask 16) OR mask 8)) k =
        bit (take_bit 8 ?a OR push_bit 16 (?N + 1)) k" by (auto simp: bit_simps)
  qed
  also have "take_bit 8 ?a = take_bit 8 (?N + 1)" by (rule take_bit_8_suc)
  finally show ?thesis by (simp add: ring_idx_alt add.commute)
qed

lemma ring_slot: "XF_QUEUE_IDX (ring_idx n) = of_nat (n mod 256)"
proof -
  have "XF_QUEUE_IDX (ring_idx n) = take_bit 8 (of_nat n)"
    unfolding XF_QUEUE_IDX_def XF_PROXY_MESSAGE_QUEUE_MASK_def ring_idx_alt mask_take_bit
    by (rule bit_word_eqI) (auto simp: bit_simps)
  also have "\<dots> = of_nat (take_bit 8 n)"
    by (rule bit_word_eqI) (simp add: bit_simps bit_of_nat_iff)
  finally show ?thesis by (simp add: take_bit_eq_mod)
qed

text \<open>As numbers; two indices at most 256 entries apart are equal only when no entry lies between
  them, and differ by a full ring only when 256 do.\<close>

lemma mod_2_32_split: "x < 65536 \<Longrightarrow> (x + 65536 * y) mod 4294967296 = x + 65536 * (y mod (65536 :: nat))"
proof -
  assume x: "x < 65536"
  have "(x + 65536 * y) mod (65536 * 65536) =
      65536 * ((x + 65536 * y) div 65536 mod 65536) + (x + 65536 * y) mod 65536"
    by (rule mod_mult2_eq)
  moreover have "(x + 65536 * y) div 65536 = y" "(x + 65536 * y) mod 65536 = x" using x by simp_all
  ultimately show ?thesis by simp
qed

lemma unat_ring_idx: "unat (ring_idx n) = n mod 256 + 65536 * (n mod 65536)"
proof -
  have m: "n mod 2 ^ 32 mod 256 = n mod 256" by (rule mod_mod_cancel) simp
  have a: "unat (take_bit 8 (of_nat n :: u32)) = n mod 256"
    unfolding unat_take_bit_8 unat_of_nat_u32 by (rule m)
  have "unat (push_bit 16 (of_nat n :: u32)) = (n mod 2 ^ 32) * 65536 mod 2 ^ 32"
    unfolding push_bit_eq_mult unat_word_ariths unat_of_nat_u32 by simp
  also have "\<dots> = n * 65536 mod 2 ^ 32" by (rule mod_mult_left_eq)
  also have "\<dots> = (0 + 65536 * n) mod 4294967296" by (simp add: mult.commute)
  also have "\<dots> = 65536 * (n mod 65536)" by (subst mod_2_32_split) simp_all
  finally have b: "unat (push_bit 16 (of_nat n :: u32)) = 65536 * (n mod 65536)" .
  have lt: "n mod 256 < 65536" by (rule less_trans [OF mod_less_divisor]) simp_all
  have "unat (ring_idx n) = (n mod 256 + 65536 * (n mod 65536)) mod 4294967296"
    unfolding ring_idx_alt low_or_push [OF take_bit_8_less(2), symmetric] unat_word_ariths(1) a b by simp
  also have "\<dots> = n mod 256 + 65536 * (n mod 65536)" by (subst mod_2_32_split [OF lt]) simp
  finally show ?thesis .
qed

lemma ring_idx_eq: "ring_idx m = ring_idx n \<longleftrightarrow> m mod 65536 = n mod 65536"
proof
  assume "ring_idx m = ring_idx n"
  then have "unat (ring_idx m) div 65536 = unat (ring_idx n) div 65536" by simp
  moreover have "k mod 256 < 65536" for k :: nat by (rule less_trans [OF mod_less_divisor]) simp_all
  ultimately show "m mod 65536 = n mod 65536" unfolding unat_ring_idx by simp
next
  assume *: "m mod 65536 = n mod 65536"
  have "k mod 65536 mod 256 = k mod 256" for k :: nat by (rule mod_mod_cancel) simp
  then have "m mod 256 = n mod 256" using * by metis
  with * show "ring_idx m = ring_idx n" by (simp only: word_unat_eq_iff unat_ring_idx)
qed

lemma near_mod_eq: "(r :: nat) \<le> w \<Longrightarrow> w \<le> r + 256 \<Longrightarrow> w mod 65536 = r mod 65536 \<longleftrightarrow> r = w"
proof
  assume "r \<le> w" "w \<le> r + 256" "w mod 65536 = r mod 65536"
  then have "65536 dvd w - r" using mod_eq_dvd_iff_nat by blast
  with \<open>w \<le> r + 256\<close> \<open>r \<le> w\<close> show "r = w"
    using dvd_imp_le [of 65536 "w - r"] by (cases "r < w") auto
qed simp

lemma ring_empty: "r \<le> w \<Longrightarrow> w \<le> r + 256 \<Longrightarrow> XF_QUEUE_EMPTY (ring_idx r) (ring_idx w) \<longleftrightarrow> r = w"
  unfolding XF_QUEUE_EMPTY_def ring_idx_eq using near_mod_eq [of r w] by auto

lemma ring_idx_256: "ring_idx (r + 256) = ring_idx r + push_bit 16 XF_PROXY_MESSAGE_QUEUE_LENGTH"
proof -
  have lt: "r mod 256 < 65536" by (rule less_trans [OF mod_less_divisor]) simp_all
  have "unat (ring_idx r + push_bit 16 XF_PROXY_MESSAGE_QUEUE_LENGTH) =
      (r mod 256 + 65536 * (r mod 65536 + 256)) mod 4294967296"
  proof -
    have "unat (push_bit 16 XF_PROXY_MESSAGE_QUEUE_LENGTH) = 65536 * 256"
      unfolding XF_PROXY_MESSAGE_QUEUE_LENGTH_def by simp
    then show ?thesis unfolding unat_word_ariths(1) unat_ring_idx by (simp only: distrib_left add.assoc) simp
  qed
  also have "\<dots> = r mod 256 + 65536 * ((r mod 65536 + 256) mod 65536)" by (rule mod_2_32_split [OF lt])
  also have "(r mod 65536 + 256) mod 65536 = (r + 256) mod 65536" by (rule mod_add_left_eq)
  finally show ?thesis by (simp add: word_unat_eq_iff unat_ring_idx)
qed

lemma ring_full: "r \<le> w \<Longrightarrow> w \<le> r + 256 \<Longrightarrow> XF_QUEUE_FULL (ring_idx r) (ring_idx w) \<longleftrightarrow> w = r + 256"
  unfolding XF_QUEUE_FULL_def ring_idx_256 [symmetric] ring_idx_eq using near_mod_eq [of w "r + 256"] by auto

lemma ring_slot_eq: "(of_nat (i mod 256) :: u32) = of_nat (j mod 256) \<longleftrightarrow> i mod 256 = j mod 256"
proof -
  have "k mod 256 mod 2 ^ 32 = k mod 256" for k :: nat
    by (rule mod_less) (rule less_trans [OF mod_less_divisor]; simp)
  then show ?thesis unfolding word_unat_eq_iff unat_of_nat_u32 by simp
qed

section \<open>The code\<close>

definition XF_CFG_REMOTE_IPC_POOL_SIZE :: u32 where
  "XF_CFG_REMOTE_IPC_POOL_SIZE = push_bit 10 256"

definition XF_PROXY_NULL :: u32 where
  "XF_PROXY_NULL = NOT 0"

definition XF_PROXY_BADADDR :: u32 where
  "XF_PROXY_BADADDR = XF_CFG_REMOTE_IPC_POOL_SIZE"

definition xf_ipc_b2a :: "addr \<Rightarrow> addr \<Rightarrow> u32" where
  "xf_ipc_b2a start b =
     (if b = 0 then XF_PROXY_NULL
      else if b - start <s XF_CFG_REMOTE_IPC_POOL_SIZE then b - start
      else XF_PROXY_BADADDR)"

definition xf_ipc_a2b :: "addr \<Rightarrow> u32 \<Rightarrow> addr" where
  "xf_ipc_a2b start address =
     (if address < XF_CFG_REMOTE_IPC_POOL_SIZE then start + address
      else if address = XF_PROXY_NULL then 0
      else NOT 0)"

definition XF_PROXY_STATUS_LOCAL :: u32 where
  "XF_PROXY_STATUS_LOCAL = push_bit 0 1"

definition XF_PROXY_STATUS_REMOTE :: u32 where
  "XF_PROXY_STATUS_REMOTE = push_bit 1 1"

definition proxy_fetch :: "addr \<Rightarrow> xf_proxy_message \<Rightarrow> xf_message \<Rightarrow> xf_message" where
  "proxy_fetch start command x =
     x\<lparr>m_id := p_session_id command, m_opcode := p_opcode command, m_length := p_length command,
       m_buffer := xf_ipc_a2b start (ucast (p_address command))\<rparr>"

definition proxy_post :: "addr \<Rightarrow> xf_message \<Rightarrow> xf_proxy_message \<Rightarrow> xf_proxy_message" where
  "proxy_post start x response =
     response\<lparr>p_session_id := m_id x, p_opcode := m_opcode x, p_length := m_length x,
       p_address := ucast (xf_ipc_b2a start (m_buffer x))\<rparr>"

partial_function (option) shmem_input_loop ::
  "u32 \<Rightarrow> u32 \<Rightarrow> u32 \<Rightarrow> u32 \<Rightarrow> xf_core \<Rightarrow> (xf_core \<times> u32) option" where
  "shmem_input_loop core read_idx write_idx status cd =
     (if XF_QUEUE_EMPTY read_idx write_idx then Some (cd, status)
      else
        (let (pool, h, m) = xf_msg_pool_get (ro_pool cd) (c_msgs cd);
             cd = cd\<lparr>ro_pool := pool, c_msgs := h\<rparr>
         in if m = 0 then Some (cd, status)
            else
              let status = status OR (if XF_QUEUE_FULL read_idx write_idx
                                      then XF_PROXY_STATUS_REMOTE OR XF_PROXY_STATUS_LOCAL
                                      else XF_PROXY_STATUS_LOCAL);
                  command = sh_command cd (XF_QUEUE_IDX read_idx);
                  cd = msg_upd m (proxy_fetch (sh_buffer cd) command) cd;
                  read_idx = XF_QUEUE_ADVANCE_IDX read_idx;
                  cd = cd\<lparr>sh_cmd_read_idx := read_idx\<rparr>
              in Option.bind (xf_msg_submit m cd) (shmem_input_loop core read_idx write_idx status)))"

definition xf_shmem_process_input :: "u32 \<Rightarrow> xf_core \<Rightarrow> (xf_core \<times> u32) option" where
  "xf_shmem_process_input core cd =
     xf_on_core core (shmem_input_loop core (sh_cmd_read_idx cd) (sh_cmd_write_idx cd) 0 cd)"

partial_function (option) shmem_output_loop ::
  "u32 \<Rightarrow> u32 \<Rightarrow> u32 \<Rightarrow> u32 \<Rightarrow> xf_core \<Rightarrow> (xf_core \<times> u32) option" where
  "shmem_output_loop core read_idx write_idx status cd =
     (if XF_QUEUE_FULL read_idx write_idx then Some (cd, status)
      else
        Option.bind (xf_msg_proxy_get core cd) (\<lambda>(cd, m).
          if m = 0 then Some (cd, status)
          else
            let status = XF_PROXY_STATUS_REMOTE OR XF_PROXY_STATUS_LOCAL;
                slot = XF_QUEUE_IDX write_idx;
                cd = cd\<lparr>sh_response := (sh_response cd)
                          (slot := proxy_post (sh_buffer cd) (c_msgs cd m) (sh_response cd slot))\<rparr>;
                (pool, h) = xf_msg_pool_put (ro_pool cd) m (c_msgs cd);
                cd = cd\<lparr>ro_pool := pool, c_msgs := h\<rparr>;
                write_idx = XF_QUEUE_ADVANCE_IDX write_idx;
                cd = cd\<lparr>sh_rsp_write_idx := write_idx\<rparr>
            in shmem_output_loop core read_idx write_idx status cd))"

definition xf_shmem_process_output :: "u32 \<Rightarrow> xf_core \<Rightarrow> (xf_core \<times> u32) option" where
  "xf_shmem_process_output core cd =
     xf_on_core core (shmem_output_loop core (sh_rsp_read_idx cd) (sh_rsp_write_idx cd) 0 cd)"

partial_function (option) xf_shmem_process_queues :: "u32 \<Rightarrow> xf_core \<Rightarrow> xf_core option" where
  "xf_shmem_process_queues core cd =
     Option.bind (xf_shmem_process_output core cd) (\<lambda>(cd, s1).
       Option.bind (xf_shmem_process_input core cd) (\<lambda>(cd, s2).
         let status = s1 OR s2;
             cd = (if status AND XF_PROXY_STATUS_REMOTE \<noteq> 0 then xf_ipi_assert core cd else cd)
         in if status \<noteq> 0 then xf_shmem_process_queues core cd else Some cd))"

definition HIFI_MUSIC_DATA_LOCATION :: addr where
  "HIFI_MUSIC_DATA_LOCATION = 0x8B300000"

definition xf_ipc_init :: "u32 \<Rightarrow> xf_core \<Rightarrow> (xf_core \<times> (xf_errno + unit)) option" where
  "xf_ipc_init core cd =
     xf_on_core core
       (let cd = cd\<lparr>sh_buffer := HIFI_MUSIC_DATA_LOCATION\<rparr> in
        case xf_mm_init (c_shared_pool cd) (c_mem cd) HIFI_MUSIC_DATA_LOCATION XF_CFG_REMOTE_IPC_POOL_SIZE of
          None \<Rightarrow> None
        | Some (Inl e) \<Rightarrow> Some (cd, Inl e)
        | Some (Inr (h, _)) \<Rightarrow> Some (cd\<lparr>c_mem := h\<rparr>, Inr ()))"

definition XF_CFG_MESSAGE_POOL_SIZE :: u32 where
  "XF_CFG_MESSAGE_POOL_SIZE = 256"

definition xf_shmem_init :: "u32 \<Rightarrow> u32 \<Rightarrow> xf_core \<Rightarrow> (xf_core \<times> (xf_errno + unit)) option" where
  "xf_shmem_init al core cd =
     xf_on_core core
       (let cd = cd\<lparr>rw_local := xf_msg_queue_init (rw_local cd)\<rparr>;
            cd = cd\<lparr>rw_remote := xf_msg_queue_init (rw_remote cd)\<rparr>
        in case xf_msg_pool_init al (ro_pool cd) XF_CFG_MESSAGE_POOL_SIZE core cd of
             None \<Rightarrow> None
           | Some (cd, pool, r) \<Rightarrow>
               let cd = cd\<lparr>ro_pool := pool\<rparr> in
               case r of Inl e \<Rightarrow> Some (cd, Inl e) | Inr _ \<Rightarrow> xf_ipc_init core cd)"

section \<open>The input ring\<close>

text \<open>The frame of both loops: message passing, the indices the DSP owns and the response ring.\<close>

definition shm_frame :: "xf_core \<Rightarrow> xf_core \<Rightarrow> bool" where
  "shm_frame cd cd' \<longleftrightarrow>
     (\<exists>r w f. ipc_frame (cd\<lparr>sh_cmd_read_idx := r, sh_rsp_write_idx := w, sh_response := f\<rparr>) cd')"

lemma shm_frame_alt: "shm_frame cd cd' \<longleftrightarrow>
    cd' = cd\<lparr>c_msgs := c_msgs cd', ro_pool := ro_pool cd', rw_local := rw_local cd', rw_remote := rw_remote cd',
             c_queue := c_queue cd', c_response := c_response cd', sh_notified := sh_notified cd',
             sh_cmd_read_idx := sh_cmd_read_idx cd', sh_rsp_write_idx := sh_rsp_write_idx cd',
             sh_response := sh_response cd'\<rparr>"
  by (cases cd; cases cd') (auto simp: shm_frame_def ipc_frame_def)

lemma shm_frame_refl [simp]: "shm_frame cd cd"
  by (simp add: shm_frame_alt)

lemma shm_frame_trans: "shm_frame cd cd' \<Longrightarrow> shm_frame cd' cd'' \<Longrightarrow> shm_frame cd cd''"
  by (cases cd; cases cd'; cases cd'') (simp add: shm_frame_alt)

lemma shm_frame_ipc: "ipc_frame cd cd' \<Longrightarrow> shm_frame cd cd'"
  by (cases cd; cases cd') (simp add: shm_frame_alt ipc_frame_def)

lemma shm_frame_upd [simp]:
  "shm_frame cd (cd\<lparr>sh_cmd_read_idx := r\<rparr>)" "shm_frame cd (cd\<lparr>sh_rsp_write_idx := r\<rparr>)"
  "shm_frame cd (cd\<lparr>sh_response := f\<rparr>)"
  by (cases cd; simp add: shm_frame_alt)+

lemma shm_frame_fields:
  assumes "shm_frame cd cd'"
  shows "sh_command cd' = sh_command cd" and "sh_buffer cd' = sh_buffer cd"
    and "sh_cmd_write_idx cd' = sh_cmd_write_idx cd" and "sh_rsp_read_idx cd' = sh_rsp_read_idx cd"
    and "c_mem cd' = c_mem cd" and "c_cmap cd' = c_cmap cd" and "c_free cd' = c_free cd"
  using assms by (cases cd; cases cd'; simp add: shm_frame_alt)+

lemma ipc_at_upd [simp]:
  "ipc_at (cd\<lparr>sh_cmd_read_idx := r\<rparr>) P L = ipc_at cd P L" "ipc_at (cd\<lparr>sh_rsp_write_idx := w\<rparr>) P L = ipc_at cd P L"
  "ipc_at (cd\<lparr>sh_response := f\<rparr>) P L = ipc_at cd P L"
proof -
  have "get_q k (cd\<lparr>sh_cmd_read_idx := r\<rparr>) = get_q k cd" "get_q k (cd\<lparr>sh_rsp_write_idx := w\<rparr>) = get_q k cd"
    "get_q k (cd\<lparr>sh_response := f\<rparr>) = get_q k cd" for k by (cases k; simp)+
  then show "ipc_at (cd\<lparr>sh_cmd_read_idx := r\<rparr>) P L = ipc_at cd P L" "ipc_at (cd\<lparr>sh_rsp_write_idx := w\<rparr>) P L = ipc_at cd P L"
    "ipc_at (cd\<lparr>sh_response := f\<rparr>) P L = ipc_at cd P L" by (simp_all add: ipc_at_def)
qed

text \<open>Entry j of a ring, and what a message fetched from a command looks like.\<close>

abbreviation ring_at :: "(u32 \<Rightarrow> 'a) \<Rightarrow> nat \<Rightarrow> 'a" where
  "ring_at f j \<equiv> f (of_nat (j mod 256))"

definition msg_fetched :: "addr \<Rightarrow> xf_proxy_message \<Rightarrow> xf_message \<Rightarrow> bool" where
  "msg_fetched start c x \<longleftrightarrow> m_id x = p_session_id c \<and> m_opcode x = p_opcode c \<and> m_length x = p_length c \<and>
     m_buffer x = xf_ipc_a2b start (ucast (p_address c))"

lemma msg_fetched_data: "msg_data x' = msg_data x \<Longrightarrow> msg_fetched start c x' = msg_fetched start c x"
  by (simp add: msg_fetched_def msg_data_eq_iff)

lemma msg_fetched_fetch: "msg_fetched start c (proxy_fetch start c x)"
  by (simp add: msg_fetched_def proxy_fetch_def)

definition input_done ::
  "xf_core \<Rightarrow> addr list \<Rightarrow> (ipc_queue \<Rightarrow> addr list) \<Rightarrow> nat \<Rightarrow> nat \<Rightarrow> xf_core \<Rightarrow> bool" where
  "input_done cd P L r k cd' \<longleftrightarrow>
     ipc_at cd' (drop k P) (\<lambda>q. L q @ filter (\<lambda>m. submit_queue (m_id (c_msgs cd' m)) = q) (take k P)) \<and>
     (\<forall>i<k. msg_fetched (sh_buffer cd) (ring_at (sh_command cd) (r + i)) (c_msgs cd' (P ! i))) \<and>
     (\<forall>a. a \<notin> set (take k P) \<longrightarrow> msg_data (c_msgs cd' a) = msg_data (c_msgs cd a)) \<and>
     sh_rsp_write_idx cd' = sh_rsp_write_idx cd \<and> sh_response cd' = sh_response cd \<and> shm_frame cd cd'"

lemma input_loop:
  assumes "ipc_at cd P L" and "r \<le> w" and "w \<le> r + 256" and "sh_cmd_read_idx cd = ring_idx r"
    and "\<forall>j. r \<le> j \<and> j < w \<longrightarrow> XF_MSG_DST_CORE (p_session_id (ring_at (sh_command cd) j)) = 0"
    and "k = min (w - r) (length P)"
  shows "\<exists>cd' st'. shmem_input_loop 0 (ring_idx r) (ring_idx w) st cd = Some (cd', st') \<and>
           input_done cd P L r k cd' \<and> sh_cmd_read_idx cd' = ring_idx (r + k) \<and>
           (if k = 0 then st' = st \<and> cd' = cd else bit st' 0)"
  using assms
proof (induction P arbitrary: cd L r st k)
  case Nil
  show ?case
  proof (cases "r = w")
    case True
    with Nil show ?thesis
      by (subst shmem_input_loop.simps) (simp add: ring_empty input_done_def)
  next
    case False
    have "xf_msg_pool_get (ro_pool cd) (c_msgs cd) = (ro_pool cd, c_msgs cd, 0)"
      using Nil.prems(1) by (intro pool_get_Nil) (simp add: ipc_at_def)
    with False Nil show ?thesis
      by (subst shmem_input_loop.simps) (simp add: ring_empty input_done_def)
  qed
next
  case (Cons m P)
  show ?case
  proof (cases "r = w")
    case True
    with Cons.prems show ?thesis
      by (subst shmem_input_loop.simps) (simp add: ring_empty input_done_def)
  next
    case False
    obtain pool h where g: "xf_msg_pool_get (ro_pool cd) (c_msgs cd) = (pool, h, m)"
      "ipc_at (cd\<lparr>ro_pool := pool, c_msgs := h\<rparr>) P L" "msg_same {m} (c_msgs cd) h" "m \<notin> ipc_set P L" "m \<noteq> 0"
      by (rule ipc_pool_get [OF Cons.prems(1)])
    let ?c = "ring_at (sh_command cd) r"
    let ?c1 = "cd\<lparr>ro_pool := pool, c_msgs := h\<rparr>"
    let ?c2 = "msg_upd m (proxy_fetch (sh_buffer cd) ?c) ?c1"
    let ?c3 = "?c2\<lparr>sh_cmd_read_idx := ring_idx (Suc r)\<rparr>"
    have I3: "ipc_at ?c3 P L" using ipc_at_msg_upd [OF g(2)] by (simp add: proxy_fetch_def)
    have id3: "m_id (c_msgs ?c3 m) = p_session_id ?c" by (simp add: proxy_fetch_def)
    have "XF_MSG_DST_CORE (p_session_id ?c) = 0" using Cons.prems(2,5) False by simp
    then obtain c4 where s: "xf_msg_submit m ?c3 = Some c4"
      "ipc_appended ?c3 P L (submit_queue (p_session_id ?c)) m c4"
      using xf_msg_submit_at [OF I3 g(4,5)] id3 by auto
    let ?q = "submit_queue (p_session_id ?c)"
    have f3: "ipc_frame ?c3 c4" and I4: "ipc_at c4 P (L(?q := L ?q @ [m]))"
      and d4: "msg_data (c_msgs c4 a) = msg_data (c_msgs ?c3 a)" for a using s(2) by (auto simp: ipc_appended_def)
    have "shm_frame cd ?c3" by (cases cd) (simp add: shm_frame_alt msg_upd_def)
    then have f4: "shm_frame cd c4" by (rule shm_frame_trans [OF _ shm_frame_ipc [OF f3]])
    have i4: "sh_cmd_read_idx c4 = ring_idx (Suc r)" "sh_rsp_write_idx c4 = sh_rsp_write_idx cd"
      "sh_response c4 = sh_response cd"
      using ipc_frame_fields [OF f3] by (simp_all add: msg_upd_def)
    note F4 = shm_frame_fields [OF f4]
    define k' where "k' = min (w - Suc r) (length P)"
    have k: "k = Suc k'" using Cons.prems(2,6) False by (auto simp: k'_def)
    define st1 where "st1 = st OR (if XF_QUEUE_FULL (ring_idx r) (ring_idx w)
        then XF_PROXY_STATUS_REMOTE OR XF_PROXY_STATUS_LOCAL else XF_PROXY_STATUS_LOCAL)"
    have b1: "bit st1 0"
      by (simp add: st1_def XF_PROXY_STATUS_LOCAL_def XF_PROXY_STATUS_REMOTE_def bit_simps)
    have "Suc r \<le> w" "w \<le> Suc r + 256" using Cons.prems(2,3) False by simp_all
    moreover have "\<forall>j. Suc r \<le> j \<and> j < w \<longrightarrow> XF_MSG_DST_CORE (p_session_id (ring_at (sh_command c4) j)) = 0"
      using Cons.prems(5) by (simp add: F4(1))
    ultimately obtain cd' st' where IH: "shmem_input_loop 0 (ring_idx (Suc r)) (ring_idx w) st1 c4 = Some (cd', st')"
      "input_done c4 P (L(?q := L ?q @ [m])) (Suc r) k' cd'" "sh_cmd_read_idx cd' = ring_idx (Suc r + k')"
      "if k' = 0 then st' = st1 \<and> cd' = c4 else bit st' 0"
      using Cons.IH [OF I4 _ _ i4(1) _ k'_def, of st1] by blast
    have slot: "XF_QUEUE_IDX (ring_idx r) = of_nat (r mod 256)" by (rule ring_slot)
    have loop: "shmem_input_loop 0 (ring_idx r) (ring_idx w) st cd = Some (cd', st')"
      using False Cons.prems(2,3) g(1,5) s(1) IH(1)
      by (subst shmem_input_loop.simps) (simp add: ring_empty slot st1_def Let_def)
    have mP: "m \<notin> set P" using ipc_at_distinct [OF Cons.prems(1)] by simp
    then have mt: "m \<notin> set (take k' P)" using set_take_subset by fast
    have dm: "msg_data (c_msgs cd' m) = msg_data (c_msgs ?c3 m)"
      using IH(2) mt d4 by (simp add: input_done_def)
    then have qm: "submit_queue (m_id (c_msgs cd' m)) = ?q" using id3 by (simp add: msg_data_eq_iff)
    have fm: "msg_fetched (sh_buffer cd) ?c (c_msgs cd' m)"
      unfolding msg_fetched_data [OF dm] by (simp add: msg_fetched_fetch)
    have "input_done cd (m # P) L r (Suc k') cd'"
      unfolding input_done_def
    proof (intro conjI)
      have "(\<lambda>q. (L(?q := L ?q @ [m])) q @ filter (\<lambda>m. submit_queue (m_id (c_msgs cd' m)) = q) (take k' P)) =
          (\<lambda>q. L q @ filter (\<lambda>m. submit_queue (m_id (c_msgs cd' m)) = q) (take (Suc k') (m # P)))"
        using qm by auto
      then show "ipc_at cd' (drop (Suc k') (m # P))
          (\<lambda>q. L q @ filter (\<lambda>m. submit_queue (m_id (c_msgs cd' m)) = q) (take (Suc k') (m # P)))"
        using IH(2) by (simp add: input_done_def)
      show "\<forall>i<Suc k'. msg_fetched (sh_buffer cd) (ring_at (sh_command cd) (r + i)) (c_msgs cd' ((m # P) ! i))"
      proof (intro allI impI)
        fix i assume "i < Suc k'"
        then show "msg_fetched (sh_buffer cd) (ring_at (sh_command cd) (r + i)) (c_msgs cd' ((m # P) ! i))"
          using fm IH(2) by (cases i) (simp_all add: input_done_def F4)
      qed
      show "\<forall>a. a \<notin> set (take (Suc k') (m # P)) \<longrightarrow> msg_data (c_msgs cd' a) = msg_data (c_msgs cd a)"
        using IH(2) d4 msg_same_data [OF g(3)] by (simp add: input_done_def)
      show "sh_rsp_write_idx cd' = sh_rsp_write_idx cd" "sh_response cd' = sh_response cd"
        using IH(2) i4 by (simp_all add: input_done_def)
      show "shm_frame cd cd'" using IH(2) f4 by (auto simp: input_done_def intro: shm_frame_trans)
    qed
    with loop IH(3,4) b1 k show ?thesis by (auto split: if_splits)
  qed
qed

section \<open>The output ring\<close>

definition msg_posted :: "addr \<Rightarrow> xf_message \<Rightarrow> xf_proxy_message \<Rightarrow> bool" where
  "msg_posted start x c \<longleftrightarrow> p_session_id c = m_id x \<and> p_opcode c = m_opcode x \<and> p_length c = m_length x \<and>
     p_address c = ucast (xf_ipc_b2a start (m_buffer x))"

lemma msg_posted_data: "msg_data x' = msg_data x \<Longrightarrow> msg_posted start x' c = msg_posted start x c"
  by (simp add: msg_posted_def msg_data_eq_iff)

lemma msg_posted_post: "msg_posted start x (proxy_post start x c)"
  by (simp add: msg_posted_def proxy_post_def)

definition output_done ::
  "xf_core \<Rightarrow> addr list \<Rightarrow> (ipc_queue \<Rightarrow> addr list) \<Rightarrow> nat \<Rightarrow> nat \<Rightarrow> xf_core \<Rightarrow> bool" where
  "output_done cd P L w k cd' \<longleftrightarrow>
     ipc_at cd' (rev (take k (L QRemote)) @ P) (L(QRemote := drop k (L QRemote))) \<and>
     (\<forall>i<k. msg_posted (sh_buffer cd) (c_msgs cd (L QRemote ! i)) (ring_at (sh_response cd') (w + i))) \<and>
     (\<forall>t. (\<forall>i<k. t \<noteq> of_nat ((w + i) mod 256)) \<longrightarrow> sh_response cd' t = sh_response cd t) \<and>
     (\<forall>a. msg_data (c_msgs cd' a) = msg_data (c_msgs cd a)) \<and>
     sh_cmd_read_idx cd' = sh_cmd_read_idx cd \<and> shm_frame cd cd'"

lemma near_slot: "i < 256 \<Longrightarrow> j < 256 \<Longrightarrow> ((w :: nat) + i) mod 256 = (w + j) mod 256 \<Longrightarrow> i = j"
proof (induction i j rule: linorder_wlog)
  case (le i j)
  then have "256 dvd (w + j) - (w + i)" using mod_eq_dvd_iff_nat [of "w + i" "w + j" 256] by simp
  then have "256 dvd j - i" by simp
  with le show ?case using dvd_imp_le [of 256 "j - i"] by (cases "i < j") auto
qed auto

lemma output_done_0: "ipc_at cd P L \<Longrightarrow> output_done cd P L w 0 cd"
  by (simp add: output_done_def)

lemma output_loop:
  assumes "ipc_at cd P L" and "r \<le> w" and "w \<le> r + 256" and "sh_rsp_write_idx cd = ring_idx w"
    and "L QRemote = ms" and "k = min (r + 256 - w) (length ms)"
  shows "\<exists>cd'. shmem_output_loop 0 (ring_idx r) (ring_idx w) st cd = Some (cd', if k = 0 then st else 3) \<and>
           output_done cd P L w k cd' \<and> sh_rsp_write_idx cd' = ring_idx (w + k) \<and> (k = 0 \<longrightarrow> cd' = cd)"
  using assms
proof (induction ms arbitrary: cd P L w k st)
  case Nil
  have g: "xf_msg_proxy_get 0 cd = Some (cd, 0)"
    using ipc_get_Nil [OF Nil.prems(1,5)] by (simp add: xf_msg_proxy_get_def)
  show ?case
    by (rule exI [of _ cd], subst shmem_output_loop.simps)
      (use Nil g output_done_0 [OF Nil.prems(1)] in \<open>simp add: ring_full\<close>)
next
  case (Cons m ms)
  show ?case
  proof (cases "w = r + 256")
    case True
    show ?thesis
      by (rule exI [of _ cd], subst shmem_output_loop.simps)
        (use True Cons output_done_0 [OF Cons.prems(1)] in \<open>simp add: ring_full\<close>)
  next
    case False
    from xf_msg_get_at(2) [OF Cons.prems(1)] Cons.prems(5) obtain c1 where
      g: "xf_msg_proxy_get 0 cd = Some (c1, m)" "ipc_taken cd P L QRemote c1" by auto
    have I1: "ipc_at c1 P (L(QRemote := ms))" and f1: "ipc_frame cd c1"
      and d1: "msg_data (c_msgs c1 a) = msg_data (c_msgs cd a)" for a
      using g(2) Cons.prems(5) by (auto simp: ipc_taken_def)
    have m: "m \<notin> ipc_set P (L(QRemote := ms))" "m \<noteq> 0"
      using ipc_taken_fresh [OF Cons.prems(1), of QRemote] Cons.prems(5) by auto
    note F1 = ipc_frame_fields [OF f1]
    let ?s = "of_nat (w mod 256) :: u32"
    let ?c2 = "c1\<lparr>sh_response := (sh_response c1)(?s := proxy_post (sh_buffer c1) (c_msgs c1 m) (sh_response c1 ?s))\<rparr>"
    have I2: "ipc_at ?c2 P (L(QRemote := ms))" using I1 by simp
    obtain p h where e: "xf_msg_pool_put (ro_pool ?c2) m (c_msgs ?c2) = (p, h)"
      "ipc_at (?c2\<lparr>ro_pool := p, c_msgs := h\<rparr>) (m # P) (L(QRemote := ms))" "msg_same {m} (c_msgs ?c2) h"
      by (rule ipc_pool_put [OF I2 m])
    let ?c3 = "?c2\<lparr>ro_pool := p, c_msgs := h\<rparr>\<lparr>sh_rsp_write_idx := ring_idx (Suc w)\<rparr>"
    have I3: "ipc_at ?c3 (m # P) (L(QRemote := ms))" using e(2) by simp
    have "shm_frame c1 ?c3" by (cases c1) (simp add: shm_frame_alt)
    then have f3: "shm_frame cd ?c3" by (rule shm_frame_trans [OF shm_frame_ipc [OF f1]])
    have d3: "msg_data (c_msgs ?c3 a) = msg_data (c_msgs cd a)" for a
      using msg_same_data [OF e(3)] d1 by simp
    define k' where "k' = min (r + 256 - Suc w) (length ms)"
    have k: "k = Suc k'" using Cons.prems(3,6) False by (auto simp: k'_def)
    have "r \<le> Suc w" "Suc w \<le> r + 256" using Cons.prems(2,3) False by simp_all
    moreover have "(L(QRemote := ms)) QRemote = ms" "sh_rsp_write_idx ?c3 = ring_idx (Suc w)" by simp_all
    ultimately obtain cd' where IH:
      "shmem_output_loop 0 (ring_idx r) (ring_idx (Suc w)) 3 ?c3 = Some (cd', if k' = 0 then 3 else 3)"
      "output_done ?c3 (m # P) (L(QRemote := ms)) (Suc w) k' cd'" "sh_rsp_write_idx cd' = ring_idx (Suc w + k')"
      using Cons.IH [OF I3 _ _ _ _ k'_def, of 3] by blast
    have st: "XF_PROXY_STATUS_REMOTE OR XF_PROXY_STATUS_LOCAL = 3"
      by (simp add: XF_PROXY_STATUS_REMOTE_def XF_PROXY_STATUS_LOCAL_def)
    have loop: "shmem_output_loop 0 (ring_idx r) (ring_idx w) st cd = Some (cd', 3)"
      using False Cons.prems(2,3) g(1) m(2) e(1) IH(1)
      by (subst shmem_output_loop.simps) (simp add: ring_full ring_slot st Let_def)
    have other: "?s \<noteq> of_nat ((Suc w + i) mod 256)" if "i < k'" for i
    proof
      assume "?s = of_nat ((Suc w + i) mod 256)"
      then have "w mod 256 = (Suc w + i) mod 256" unfolding ring_slot_eq .
      then have "(w + 0) mod 256 = (w + Suc i) mod 256" by simp
      moreover have "Suc i < 256" using that Cons.prems(2) unfolding k'_def by linarith
      ultimately show False using near_slot [of 0 "Suc i" w] by simp
    qed
    have post: "sh_response cd' ?s = sh_response ?c3 ?s" using IH(2) other by (simp add: output_done_def)
    have "output_done cd P L w (Suc k') cd'"
      unfolding output_done_def
    proof (intro conjI)
      have "L(QRemote := ms, QRemote := drop k' ms) = L(QRemote := drop (Suc k') (m # ms))" by simp
      then show "ipc_at cd' (rev (take (Suc k') (L QRemote)) @ P) (L(QRemote := drop (Suc k') (L QRemote)))"
        using IH(2) Cons.prems(5) by (simp add: output_done_def)
      show "\<forall>i<Suc k'. msg_posted (sh_buffer cd) (c_msgs cd (L QRemote ! i)) (ring_at (sh_response cd') (w + i))"
      proof (intro allI impI)
        fix i assume i: "i < Suc k'"
        show "msg_posted (sh_buffer cd) (c_msgs cd (L QRemote ! i)) (ring_at (sh_response cd') (w + i))"
        proof (cases i)
          case 0
          have "msg_posted (sh_buffer cd) (c_msgs cd m) (sh_response ?c3 ?s)"
            unfolding msg_posted_data [OF d1 [symmetric]] using msg_posted_post by (simp add: F1)
          then show ?thesis using 0 Cons.prems(5) post by simp
        next
          case (Suc j)
          then have "msg_posted (sh_buffer ?c3) (c_msgs ?c3 (ms ! j)) (ring_at (sh_response cd') (Suc w + j))"
            using IH(2) i by (simp add: output_done_def)
          then show ?thesis unfolding msg_posted_data [OF d3] using Suc Cons.prems(5) by (simp add: F1)
        qed
      qed
      show "\<forall>t. (\<forall>i<Suc k'. t \<noteq> of_nat ((w + i) mod 256)) \<longrightarrow> sh_response cd' t = sh_response cd t"
      proof (intro allI impI)
        fix t :: u32 assume t: "\<forall>i<Suc k'. t \<noteq> of_nat ((w + i) mod 256)"
        then have "t \<noteq> ?s" by (metis add_0_right zero_less_Suc)
        moreover have "\<forall>i<k'. t \<noteq> of_nat ((Suc w + i) mod 256)" using t by (metis Suc_less_eq add_Suc add_Suc_right)
        then have "sh_response cd' t = sh_response ?c3 t" using IH(2) by (simp add: output_done_def)
        ultimately show "sh_response cd' t = sh_response cd t" by (simp add: F1)
      qed
      show "\<forall>a. msg_data (c_msgs cd' a) = msg_data (c_msgs cd a)"
        using IH(2) d3 by (simp add: output_done_def)
      show "sh_cmd_read_idx cd' = sh_cmd_read_idx cd" using IH(2) by (simp add: output_done_def F1)
      show "shm_frame cd cd'" using IH(2) f3 by (auto simp: output_done_def intro: shm_frame_trans)
    qed
    with loop IH(3) k show ?thesis by auto
  qed
qed

section \<open>Both rings\<close>

lemma filter_remote_Nil: "filter (\<lambda>m. submit_queue (f m) = QRemote) xs = []"
  by (simp add: submit_queue_def)

text \<open>One round of \<open>xf_shmem_process_queues\<close>, and the state when it returns: the second round finds
  nothing to do, because neither ring nor pool has changed its side of the balance.\<close>

lemma queues_round:
  assumes "ipc_at cd P L" and "rc \<le> wc" and "wc \<le> rc + 256" and "rr \<le> wr" and "wr \<le> rr + 256"
    and "sh_cmd_read_idx cd = ring_idx rc" and "sh_cmd_write_idx cd = ring_idx wc"
    and "sh_rsp_read_idx cd = ring_idx rr" and "sh_rsp_write_idx cd = ring_idx wr"
    and "\<forall>j. rc \<le> j \<and> j < wc \<longrightarrow> XF_MSG_DST_CORE (p_session_id (ring_at (sh_command cd) j)) = 0"
    and k1: "k1 = min (rr + 256 - wr) (length (L QRemote))"
    and P1: "P1 = rev (take k1 (L QRemote)) @ P" and k2: "k2 = min (wc - rc) (length P1)"
  shows "\<exists>cd1 cd2 s1 s2. xf_shmem_process_output 0 cd = Some (cd1, s1) \<and> xf_shmem_process_input 0 cd1 = Some (cd2, s2) \<and>
     output_done cd P L wr k1 cd1 \<and> input_done cd1 P1 (L(QRemote := drop k1 (L QRemote))) rc k2 cd2 \<and>
     sh_cmd_read_idx cd2 = ring_idx (rc + k2) \<and> sh_rsp_write_idx cd2 = ring_idx (wr + k1) \<and> shm_frame cd cd2 \<and>
     (k1 = 0 \<and> k2 = 0 \<longrightarrow> cd2 = cd \<and> s1 = 0 \<and> s2 = 0)"
proof -
  from output_loop [OF assms(1,4,5,9) refl k1, of 0] obtain cd1 where
    o: "xf_shmem_process_output 0 cd = Some (cd1, if k1 = 0 then 0 else 3)" "output_done cd P L wr k1 cd1"
      "sh_rsp_write_idx cd1 = ring_idx (wr + k1)" "k1 = 0 \<longrightarrow> cd1 = cd"
    by (auto simp: xf_shmem_process_output_def assms(8,9))
  have f1: "shm_frame cd cd1" and I1: "ipc_at cd1 P1 (L(QRemote := drop k1 (L QRemote)))"
    and r1: "sh_cmd_read_idx cd1 = ring_idx rc" using o(2) assms(6) P1 by (simp_all add: output_done_def)
  note F1 = shm_frame_fields [OF f1]
  from input_loop [OF I1 assms(2,3) r1 _ k2, of 0] assms(10) obtain cd2 s2 where
    i: "xf_shmem_process_input 0 cd1 = Some (cd2, s2)"
      "input_done cd1 P1 (L(QRemote := drop k1 (L QRemote))) rc k2 cd2"
      "sh_cmd_read_idx cd2 = ring_idx (rc + k2)" "k2 = 0 \<longrightarrow> s2 = 0 \<and> cd2 = cd1"
    by (auto simp: xf_shmem_process_input_def r1 F1 assms(7) split: if_splits)
  have "sh_rsp_write_idx cd2 = ring_idx (wr + k1)" "shm_frame cd cd2"
    using i(2) o(3) f1 by (auto simp: input_done_def intro: shm_frame_trans)
  with o i show ?thesis by auto
qed

lemma ipc_at_assert [simp]: "ipc_at (xf_ipi_assert c cd) P L = ipc_at cd P L"
  by (simp add: xf_ipi_assert_def)

lemma xf_shmem_process_queues_spec:
  assumes I: "ipc_at cd P L" and b: "rc \<le> wc" "wc \<le> rc + 256" "rr \<le> wr" "wr \<le> rr + 256"
    and ix: "sh_cmd_read_idx cd = ring_idx rc" "sh_cmd_write_idx cd = ring_idx wc"
      "sh_rsp_read_idx cd = ring_idx rr" "sh_rsp_write_idx cd = ring_idx wr"
    and c: "\<forall>j. rc \<le> j \<and> j < wc \<longrightarrow> XF_MSG_DST_CORE (p_session_id (ring_at (sh_command cd) j)) = 0"
    and k1: "k1 = min (rr + 256 - wr) (length (L QRemote))"
    and P1: "P1 = rev (take k1 (L QRemote)) @ P" and k2: "k2 = min (wc - rc) (length P1)"
  shows "\<exists>cd1 cd2 n. xf_shmem_process_queues 0 cd = Some (cd2\<lparr>sh_notified := n\<rparr>) \<and>
     output_done cd P L wr k1 cd1 \<and> input_done cd1 P1 (L(QRemote := drop k1 (L QRemote))) rc k2 cd2 \<and>
     sh_cmd_read_idx cd2 = ring_idx (rc + k2) \<and> sh_rsp_write_idx cd2 = ring_idx (wr + k1) \<and> shm_frame cd cd2"
proof -
  from queues_round [OF assms] obtain cd1 cd2 s1 s2 where
    1: "xf_shmem_process_output 0 cd = Some (cd1, s1)" "xf_shmem_process_input 0 cd1 = Some (cd2, s2)"
      "output_done cd P L wr k1 cd1" "input_done cd1 P1 (L(QRemote := drop k1 (L QRemote))) rc k2 cd2"
      "sh_cmd_read_idx cd2 = ring_idx (rc + k2)" "sh_rsp_write_idx cd2 = ring_idx (wr + k1)" "shm_frame cd cd2"
    by blast
  let ?L = "\<lambda>q. (L(QRemote := drop k1 (L QRemote))) q @
    filter (\<lambda>m. submit_queue (m_id (c_msgs cd2 m)) = q) (take k2 P1)"
  have I2: "ipc_at cd2 (drop k2 P1) ?L" using 1(4) by (simp add: input_done_def)
  note F2 = shm_frame_fields [OF 1(7)]
  have stop: "xf_shmem_process_queues 0 c = Some c" if c: "c = cd2 \<or> c = xf_ipi_assert 0 cd2" for c
  proof -
    have Ic: "ipc_at c (drop k2 P1) ?L" using that I2 by auto
    have ixc: "sh_cmd_read_idx c = ring_idx (rc + k2)" "sh_cmd_write_idx c = ring_idx wc"
      "sh_rsp_read_idx c = ring_idx rr" "sh_rsp_write_idx c = ring_idx (wr + k1)" "sh_command c = sh_command cd"
      using that 1(5,6) F2 ix by (auto simp: xf_ipi_assert_def)
    have R: "?L QRemote = drop k1 (L QRemote)" by (simp add: filter_remote_Nil)
    have bc: "rc + k2 \<le> wc" "wc \<le> rc + k2 + 256" "rr \<le> wr + k1" "wr + k1 \<le> rr + 256"
      using b by (auto simp: k1 k2)
    have cc: "\<forall>j. rc + k2 \<le> j \<and> j < wc \<longrightarrow> XF_MSG_DST_CORE (p_session_id (ring_at (sh_command c) j)) = 0"
      using assms(10) by (simp add: ixc(5))
    have z1: "0 = min (rr + 256 - (wr + k1)) (length (?L QRemote))" unfolding R by (simp add: k1)
    have z2: "0 = min (wc - (rc + k2)) (length (drop k2 P1))" by (simp add: k2)
    have "drop k2 P1 = rev (take 0 (?L QRemote)) @ drop k2 P1" by simp
    from queues_round [OF Ic bc ixc(1-4) cc z1 this z2] obtain c1 where
      "xf_shmem_process_output 0 c = Some (c1, 0)" "xf_shmem_process_input 0 c1 = Some (c, 0)" by auto
    then show ?thesis by (subst xf_shmem_process_queues.simps) simp
  qed
  have n: "xf_ipi_assert 0 cd2 = cd2\<lparr>sh_notified := sh_notified cd2 + 1\<rparr>" "cd2 = cd2\<lparr>sh_notified := sh_notified cd2\<rparr>"
    by (simp_all add: xf_ipi_assert_def)
  have "xf_shmem_process_queues 0 cd = Some cd2 \<or> xf_shmem_process_queues 0 cd = Some (xf_ipi_assert 0 cd2)"
    using 1(1,2) stop by (subst (1 2) xf_shmem_process_queues.simps) (simp add: Let_def)
  then show ?thesis using 1(3-7) n by metis
qed

end
