(* ===== verification/XF_Shmem_Sys.thy ===== *)
theory XF_Shmem_Sys
  imports XF_Shmem
begin

text \<open>
  Properties of the shared memory interface: ring indices, address translation, the two
  processing loops, and the system of host and DSP as a step relation \<open>ipc_step\<close> whose
  invariant says that every message is in exactly one place.
\<close>

section \<open>Addresses\<close>

lemma uint_less_int: "unat (w :: u32) < n \<longleftrightarrow> uint w < int n"
  by (metis uint_nat of_nat_less_iff)

lemma sint_small: "unat (w :: u32) < 2 ^ 31 \<Longrightarrow> sint w = int (unat w)"
proof -
  assume a: "unat w < 2 ^ 31"
  have u: "uint w = int (unat w)" by (rule uint_nat)
  have "uint w < 2 ^ 31" using a unfolding uint_less_int by simp
  moreover have "- (2 ^ 31) \<le> uint w" using uint_ge_0 [of w] by (rule order_trans [rotated]) simp
  ultimately have "- (2 ^ 31) \<le> uint w" "uint w < 2 ^ 31" by simp_all
  then have "signed_take_bit 31 (uint w) = uint w" by (rule signed_take_bit_int_eq_self)
  then show ?thesis unfolding sint_uint u [symmetric] by simp
qed

lemma sint_big: "2 ^ 31 \<le> unat (w :: u32) \<Longrightarrow> sint w < 0"
proof -
  assume a: "2 ^ 31 \<le> unat w"
  have "unat w < 2 ^ LENGTH(32)" by (rule unsigned_less)
  then have "unat w div 2 ^ 31 = 1" using a by (intro div_nat_eqI) simp_all
  then have "bit (unat w) 31" by (simp add: bit_iff_odd)
  then have "bit (uint w) 31" by (simp add: bit_unsigned_iff)
  then show ?thesis by (simp add: sint_uint signed_take_bit_negative_iff)
qed

lemma unat_pool_size: "unat XF_CFG_REMOTE_IPC_POOL_SIZE = 262144"
  by (simp add: XF_CFG_REMOTE_IPC_POOL_SIZE_def)

lemma sless_pool:
  "x <s XF_CFG_REMOTE_IPC_POOL_SIZE \<longleftrightarrow> unat x < 262144 \<or> 2 ^ 31 \<le> unat (x :: u32)"
proof -
  have p: "sint XF_CFG_REMOTE_IPC_POOL_SIZE = 262144"
    by (simp add: sint_small unat_pool_size)
  show ?thesis
  proof (cases "unat x < 2 ^ 31")
    case True
    then have "sint x = int (unat x)" by (rule sint_small)
    with True show ?thesis unfolding word_sless_alt p by linarith
  next
    case False
    then show ?thesis using sint_big [of x] unfolding word_sless_alt p by linarith
  qed
qed

lemma unat_diff_le: "(s :: u32) \<le> b \<Longrightarrow> unat (b - s) = unat b - unat s"
  by (rule unat_sub)

lemma unat_diff_below: "unat (b :: u32) < unat (s :: u32) \<Longrightarrow> unat (b - s) = 2 ^ 32 + unat b - unat s"
proof -
  assume a: "unat b < unat s"
  have u: "unat s < 2 ^ LENGTH(32)" by (rule unsigned_less)
  have "uint (b - s) = (uint b - uint s) mod 2 ^ 32" by (simp add: uint_word_ariths)
  also have "\<dots> = (uint b - uint s + 2 ^ 32) mod 2 ^ 32" by simp
  also have "\<dots> = uint b - uint s + 2 ^ 32"   proof (intro mod_pos_pos_trivial)
    show "0 \<le> uint b - uint s + 2 ^ 32" using uint_ge_0 [of b] uint_lt2p [of s] by (simp, linarith)
    show "uint b - uint s + 2 ^ 32 < 2 ^ 32" using a unfolding uint_less_int uint_nat [symmetric] by simp
  qed
  finally have "int (unat (b - s)) = 2 ^ 32 + uint b - uint s" by simp
  also have "\<dots> = int (2 ^ 32 + unat b - unat s)" using u by (subst of_nat_diff) simp_all
  finally show ?thesis by (simp only: of_nat_eq_iff)
qed

lemma unat_null: "unat XF_PROXY_NULL = 2 ^ 32 - 1"
proof -
  have "XF_PROXY_NULL = 4294967295" by (simp add: XF_PROXY_NULL_def)
  then have "unat XF_PROXY_NULL = unat (4294967295 :: u32)" by (rule arg_cong)
  then show ?thesis by simp
qed

text \<open>C16: pointers into the shared pool and NULL survive the translation to a proxy address and back,
  and so do pool addresses sent by the host; an address outside the pool gives the invalid
  pointer.\<close>

theorem ipc_address_round_trip:
  assumes "start \<noteq> 0" and "unat start + 262144 \<le> 2 ^ 32"
  shows "(b = 0 \<or> start \<le> b \<and> unat b < unat start + 262144 \<longrightarrow> xf_ipc_a2b start (xf_ipc_b2a start b) = b) \<and>
    (a < XF_CFG_REMOTE_IPC_POOL_SIZE \<or> a = XF_PROXY_NULL \<longrightarrow> xf_ipc_b2a start (xf_ipc_a2b start a) = a) \<and>
    (\<not> a < XF_CFG_REMOTE_IPC_POOL_SIZE \<and> a \<noteq> XF_PROXY_NULL \<longrightarrow> xf_ipc_a2b start a = NOT 0)"
proof (intro conjI impI)
  have nn: "\<not> XF_PROXY_NULL < XF_CFG_REMOTE_IPC_POOL_SIZE"
    unfolding word_less_nat_alt unat_null unat_pool_size by simp
  show "xf_ipc_a2b start (xf_ipc_b2a start b) = b" if b: "b = 0 \<or> start \<le> b \<and> unat b < unat start + 262144"
  proof (cases "b = 0")
    case True
    then show ?thesis using nn by (simp add: xf_ipc_a2b_def xf_ipc_b2a_def)
  next
    case False
    with b have u: "unat (b - start) < 262144" using unat_diff_le [of start b] by (auto simp: word_le_nat_alt)
    then have "b - start < XF_CFG_REMOTE_IPC_POOL_SIZE" by (simp add: word_less_nat_alt unat_pool_size)
    then show ?thesis using False u by (simp add: xf_ipc_b2a_def sless_pool xf_ipc_a2b_def)
  qed
  show "xf_ipc_b2a start (xf_ipc_a2b start a) = a"
    if a: "a < XF_CFG_REMOTE_IPC_POOL_SIZE \<or> a = XF_PROXY_NULL"
  proof (cases "a = XF_PROXY_NULL")
    case True
    then show ?thesis using nn by (simp add: xf_ipc_a2b_def xf_ipc_b2a_def)
  next
    case False
    with a have u: "unat a < 262144" by (simp add: word_less_nat_alt unat_pool_size)
    then have "unat (start + a) = unat start + unat a" using assms(2) by (simp add: unat_word_ariths)
    moreover have "0 < unat start" using assms(1) by (simp add: unat_gt_0)
    ultimately have "start + a \<noteq> 0" by (metis add_is_0 less_irrefl unat_0)
    then show ?thesis using False a u by (simp add: xf_ipc_a2b_def xf_ipc_b2a_def sless_pool)
  qed
  show "xf_ipc_a2b start a = NOT 0" if "\<not> a < XF_CFG_REMOTE_IPC_POOL_SIZE \<and> a \<noteq> XF_PROXY_NULL"
    using that by (simp add: xf_ipc_a2b_def)
qed

theorem ipc_address_round_trip_witness:
  "xf_ipc_a2b 0x8B300000 (xf_ipc_b2a 0x8B300000 0x8B300040) = 0x8B300040"
  using ipc_address_round_trip [of "0x8B300000" "0x8B300040" 0] by simp

text \<open>the range check of \<open>xf_ipc_b2a\<close> is signed: a pointer below the pool is not answered with the
  "bad address" but with its negative offset, and the byte right below the pool becomes the NULL
  address.\<close>

theorem ipc_b2a_below_pool:
  assumes "b \<noteq> 0" and "unat b < unat start" and "unat start \<le> unat b + 2 ^ 31"
  shows "xf_ipc_b2a start b = b - start \<and> xf_ipc_b2a start b \<noteq> XF_PROXY_BADADDR \<and>
    (b + 1 = start \<longrightarrow> xf_ipc_b2a start b = XF_PROXY_NULL)"
proof -
  have u: "2 ^ 31 \<le> unat (b - start)" using unat_diff_below [OF assms(2)] assms(3) by simp
  then have "xf_ipc_b2a start b = b - start" using assms(1) by (simp add: xf_ipc_b2a_def sless_pool)
  moreover have "b - start \<noteq> XF_PROXY_BADADDR"
  proof
    assume "b - start = XF_PROXY_BADADDR"
    then have "unat (b - start) = 262144" by (simp add: XF_PROXY_BADADDR_def unat_pool_size)
    with u show False by simp
  qed
  moreover have "b - start = XF_PROXY_NULL" if "b + 1 = start"
  proof -
    have "b - start = - 1" using that by (simp add: algebra_simps flip: that)
    then show ?thesis by (simp add: XF_PROXY_NULL_def)
  qed
  ultimately show ?thesis by simp
qed

theorem ipc_b2a_below_pool_witness: "xf_ipc_b2a 0x8B300000 0x8B2FFFFF = XF_PROXY_NULL"
  by (rule ipc_b2a_below_pool [of "0x8B2FFFFF" "0x8B300000", THEN conjunct2, THEN conjunct2, THEN mp]) simp_all

section \<open>The two loops\<close>

text \<open>the ring index macros: the slot of the n-th entry is n mod 256, the next index is the
  increment, and with at most 256 entries in flight the ring tests as empty exactly when reader
  and writer agree and as full exactly when 256 entries lie between them.\<close>

theorem ring_index_correct:
  assumes "r \<le> w" and "w \<le> r + 256"
  shows "XF_QUEUE_EMPTY (ring_idx r) (ring_idx w) = (w = r) \<and> XF_QUEUE_FULL (ring_idx r) (ring_idx w) = (w = r + 256) \<and>
    XF_QUEUE_ADVANCE_IDX (ring_idx w) = ring_idx (Suc w) \<and> XF_QUEUE_IDX (ring_idx w) = of_nat (w mod 256)"
  using ring_empty [OF assms] ring_full [OF assms] ring_slot [of w] by auto

theorem ring_index_correct_witness: "XF_QUEUE_FULL (ring_idx 70000) (ring_idx 70256)"
  using ring_index_correct [of 70000 70256] by simp

definition shm_demo :: xf_core where
  "shm_demo = core_demo\<lparr>c_msgs := msg_demo(32 := (msg_demo 32)\<lparr>m_next := 64\<rparr>),
     ro_pool := \<lparr>pl_p = 32, pl_head = 32, pl_n = 2\<rparr>, sh_cmd_write_idx := ring_idx 1\<rparr>"

lemma ring_idx_0: "ring_idx 0 = 0"
  by (simp add: ring_idx_alt)

lemma demo_ipc: "ipc_at shm_demo [32, 64] (\<lambda>_. [])"
proof -
  have "queue_at (c_msgs shm_demo) (get_q k shm_demo) []" for k
    by (cases k) (simp_all add: shm_demo_def core_demo_def queue_at_def)
  then show ?thesis by (simp add: ipc_at_def pool_at_def) (simp add: shm_demo_def msg_demo_def)
qed

lemma demo_idx: "sh_cmd_read_idx shm_demo = ring_idx 0" "sh_cmd_write_idx shm_demo = ring_idx 1"
  "sh_rsp_read_idx shm_demo = ring_idx 0" "sh_rsp_write_idx shm_demo = ring_idx 0"
  "p_session_id (sh_command shm_demo i) = 0"
  by (simp_all add: shm_demo_def core_demo_def ring_idx_0)

lemma core_0: "XF_MSG_DST_CORE 0 = 0" "XF_MSG_SRC_CORE 0 = 0"
  by (simp_all add: XF_MSG_DST_CORE_def XF_MSG_SRC_CORE_def)

text \<open>C13: command intake returns; it takes the oldest k pending commands, as many as there are free
  messages, in order: message i of the free list carries command i and is queued in order, the
  free list and the read index advance by k, and no other message changes.\<close>

theorem shmem_input_takes_oldest:
  assumes "ipc_at cd P L" and "r \<le> w" and "w \<le> r + 256" and "sh_cmd_read_idx cd = ring_idx r"
    and "sh_cmd_write_idx cd = ring_idx w"
    and "\<forall>j. r \<le> j \<and> j < w \<longrightarrow> XF_MSG_DST_CORE (p_session_id (ring_at (sh_command cd) j)) = 0"
    and "k = min (w - r) (length P)"
  shows "\<exists>cd' st. xf_shmem_process_input 0 cd = Some (cd', st) \<and> sh_cmd_read_idx cd' = ring_idx (r + k) \<and>
    ipc_at cd' (drop k P) (\<lambda>q. L q @ filter (\<lambda>m. submit_queue (m_id (c_msgs cd' m)) = q) (take k P)) \<and>
    (\<forall>i<k. msg_fetched (sh_buffer cd) (ring_at (sh_command cd) (r + i)) (c_msgs cd' (P ! i))) \<and>
    (\<forall>a. a \<notin> set (take k P) \<longrightarrow> msg_data (c_msgs cd' a) = msg_data (c_msgs cd a)) \<and> (st = 0 \<longleftrightarrow> k = 0)"
proof -
  from input_loop [OF assms(1-4,6,7), of 0] obtain cd' st where
    "shmem_input_loop 0 (ring_idx r) (ring_idx w) 0 cd = Some (cd', st)" "input_done cd P L r k cd'"
    "sh_cmd_read_idx cd' = ring_idx (r + k)" "if k = 0 then st = 0 \<and> cd' = cd else bit st 0" by blast
  then show ?thesis using assms(4,5) by (auto simp: xf_shmem_process_input_def input_done_def split: if_splits)
qed

theorem shmem_input_takes_oldest_witness:
  "\<exists>cd' st. xf_shmem_process_input 0 shm_demo = Some (cd', st) \<and> sh_cmd_read_idx cd' = ring_idx 1 \<and>
     msg_fetched 2048 (sh_command shm_demo 0) (c_msgs cd' 32)"
proof -
  have "\<forall>j. 0 \<le> j \<and> j < 1 \<longrightarrow> XF_MSG_DST_CORE (p_session_id (ring_at (sh_command shm_demo) j)) = 0"
    by (simp add: demo_idx core_0)
  from shmem_input_takes_oldest [OF demo_ipc _ _ demo_idx(1,2) this, of 1]
  show ?thesis by (auto simp: shm_demo_def core_demo_def)
qed

text \<open>C14: response output returns; it posts the oldest k responses, as many as the ring has room for, in
  order behind the entries already there, returns those messages to the free pool, and leaves
  every other slot of the ring alone.\<close>

theorem shmem_output_posts_oldest:
  assumes "ipc_at cd P L" and "r \<le> w" and "w \<le> r + 256" and "sh_rsp_read_idx cd = ring_idx r"
    and "sh_rsp_write_idx cd = ring_idx w" and "k = min (r + 256 - w) (length (L QRemote))"
  shows "\<exists>cd'. xf_shmem_process_output 0 cd = Some (cd', if k = 0 then 0 else 3) \<and>
    sh_rsp_write_idx cd' = ring_idx (w + k) \<and>
    ipc_at cd' (rev (take k (L QRemote)) @ P) (L(QRemote := drop k (L QRemote))) \<and>
    (\<forall>i<k. msg_posted (sh_buffer cd) (c_msgs cd (L QRemote ! i)) (ring_at (sh_response cd') (w + i))) \<and>
    (\<forall>t. (\<forall>i<k. t \<noteq> of_nat ((w + i) mod 256)) \<longrightarrow> sh_response cd' t = sh_response cd t)"
proof -
  from output_loop [OF assms(1-3,5) refl assms(6), of 0] obtain cd' where
    "shmem_output_loop 0 (ring_idx r) (ring_idx w) 0 cd = Some (cd', if k = 0 then 0 else 3)"
    "output_done cd P L w k cd'" "sh_rsp_write_idx cd' = ring_idx (w + k)" by blast
  then show ?thesis using assms(4,5) by (auto simp: xf_shmem_process_output_def output_done_def)
qed

definition rsp_demo :: xf_core where
  "rsp_demo = shm_demo\<lparr>ro_pool := \<lparr>pl_p = 32, pl_head = 0, pl_n = 2\<rparr>, rw_remote := \<lparr>q_head = 32, q_tail = 64\<rparr>\<rparr>"

lemma demo_rsp: "ipc_at rsp_demo [] ((\<lambda>_. [])(QRemote := [32, 64]))"
proof -
  have "queue_at (c_msgs rsp_demo) (get_q k rsp_demo) (((\<lambda>_. [])(QRemote := [32, 64])) k)" for k
    by (cases k) (simp_all add: rsp_demo_def shm_demo_def core_demo_def queue_at_def msg_demo_def)
  moreover have "pool_at (c_msgs rsp_demo) (ro_pool rsp_demo) []" by (simp add: pool_at_def rsp_demo_def)
  ultimately show ?thesis unfolding ipc_at_def by (auto simp del: fun_upd_apply) (simp split: if_splits)
qed

theorem shmem_output_posts_oldest_witness:
  "\<exists>cd'. xf_shmem_process_output 0 rsp_demo = Some (cd', 3) \<and> ipc_at cd' [64, 32] (\<lambda>_. []) \<and>
     msg_posted 2048 (c_msgs rsp_demo 64) (sh_response cd' 1)"
proof -
  have i: "sh_rsp_read_idx rsp_demo = ring_idx 0" "sh_rsp_write_idx rsp_demo = ring_idx 0" "sh_buffer rsp_demo = 2048"
    by (simp_all add: rsp_demo_def shm_demo_def core_demo_def ring_idx_0)
  from shmem_output_posts_oldest [OF demo_rsp _ _ i(1,2), of 2] obtain cd' where
    "xf_shmem_process_output 0 rsp_demo = Some (cd', 3)" "ipc_at cd' [64, 32] ((\<lambda>_. [])(QRemote := [], QRemote := []))"
    "\<forall>j<2. msg_posted (sh_buffer rsp_demo) (c_msgs rsp_demo ([32, 64] ! j)) (ring_at (sh_response cd') (0 + j))"
    by auto
  moreover have "(\<lambda>_. [])(QRemote := [], QRemote := []) = (\<lambda>_ :: ipc_queue. [] :: addr list)" by auto
  ultimately show ?thesis using i(3)
    by (auto dest!: spec [of _ "1 :: nat"])
qed

text \<open>C15: serving the shared memory interface ends, with nothing left that could be done: either all
  responses are posted or the response ring is full, and either all commands are taken or the
  message pool is empty.\<close>

theorem shmem_queues_settle:
  assumes "ipc_at cd P L" and "rc \<le> wc" and "wc \<le> rc + 256" and "rr \<le> wr" and "wr \<le> rr + 256"
    and "sh_cmd_read_idx cd = ring_idx rc" and "sh_cmd_write_idx cd = ring_idx wc"
    and "sh_rsp_read_idx cd = ring_idx rr" and "sh_rsp_write_idx cd = ring_idx wr"
    and "\<forall>j. rc \<le> j \<and> j < wc \<longrightarrow> XF_MSG_DST_CORE (p_session_id (ring_at (sh_command cd) j)) = 0"
  shows "\<exists>cd' P' L' rc' wr'. xf_shmem_process_queues 0 cd = Some cd' \<and> ipc_at cd' P' L' \<and>
    rc \<le> rc' \<and> rc' \<le> wc \<and> sh_cmd_read_idx cd' = ring_idx rc' \<and> (rc' = wc \<or> P' = []) \<and>
    wr \<le> wr' \<and> wr' \<le> rr + 256 \<and> sh_rsp_write_idx cd' = ring_idx wr' \<and> (wr' = rr + 256 \<or> L' QRemote = [])"
proof -
  define k1 where "k1 = min (rr + 256 - wr) (length (L QRemote))"
  define P1 where "P1 = rev (take k1 (L QRemote)) @ P"
  define k2 where "k2 = min (wc - rc) (length P1)"
  from xf_shmem_process_queues_spec [OF assms k1_def P1_def k2_def] obtain cd1 cd2 n where
    q: "xf_shmem_process_queues 0 cd = Some (cd2\<lparr>sh_notified := n\<rparr>)"
      "input_done cd1 P1 (L(QRemote := drop k1 (L QRemote))) rc k2 cd2"
      "sh_cmd_read_idx cd2 = ring_idx (rc + k2)" "sh_rsp_write_idx cd2 = ring_idx (wr + k1)" by blast
  let ?L = "\<lambda>q. (L(QRemote := drop k1 (L QRemote))) q @
    filter (\<lambda>m. submit_queue (m_id (c_msgs cd2 m)) = q) (take k2 P1)"
  have "ipc_at (cd2\<lparr>sh_notified := n\<rparr>) (drop k2 P1) ?L" using q(2) by (simp add: input_done_def)
  moreover have "rc + k2 = wc \<or> drop k2 P1 = []" using assms(2) by (auto simp: k2_def min_def)
  moreover have "wr + k1 = rr + 256 \<or> ?L QRemote = []"
    using assms(5) by (auto simp: k1_def min_def filter_remote_Nil)
  moreover have "rc + k2 \<le> wc" "wr + k1 \<le> rr + 256" using assms(2,5) by (auto simp: k1_def k2_def)
  ultimately show ?thesis using q(1,3,4)
    by (intro exI [of _ "cd2\<lparr>sh_notified := n\<rparr>"] exI [of _ "drop k2 P1"] exI [of _ ?L]
        exI [of _ "rc + k2"] exI [of _ "wr + k1"]) simp
qed

theorem shmem_queues_settle_witness:
  "\<exists>cd'. xf_shmem_process_queues 0 shm_demo = Some cd' \<and> sh_cmd_read_idx cd' = ring_idx 0 \<or>
     xf_shmem_process_queues 0 shm_demo = Some cd' \<and> sh_cmd_read_idx cd' = ring_idx 1"
proof -
  have "\<forall>j. 0 \<le> j \<and> j < 1 \<longrightarrow> XF_MSG_DST_CORE (p_session_id (ring_at (sh_command shm_demo) j)) = 0"
    by (simp add: demo_idx core_0)
  from shmem_queues_settle [OF demo_ipc _ _ _ _ demo_idx(1-4) this] obtain cd' rc' where
    "xf_shmem_process_queues 0 shm_demo = Some cd'" "rc' \<le> 1" "sh_cmd_read_idx cd' = ring_idx rc'" by auto
  then show ?thesis by (cases "rc' = 0") (auto simp: le_Suc_eq)
qed

section \<open>The system of host and DSP\<close>

text \<open>The host writes commands while the ring is not full and reads responses while it is not empty;
  the DSP serves the rings, takes messages for its components and completes the messages they
  hold (the list H), directly or from an interrupt.\<close>

definition cores_ok :: "u32 \<Rightarrow> bool" where
  "cores_ok i \<longleftrightarrow> XF_MSG_SRC_CORE i = 0 \<and> XF_MSG_DST_CORE i = 0"

inductive ipc_step :: "xf_core \<times> addr list \<Rightarrow> xf_core \<times> addr list \<Rightarrow> bool" where
  host_command: "\<not> XF_QUEUE_FULL (sh_cmd_read_idx cd) (sh_cmd_write_idx cd) \<Longrightarrow> cores_ok (p_session_id c) \<Longrightarrow>
    ipc_step (cd, H) (cd\<lparr>sh_command := (sh_command cd)(XF_QUEUE_IDX (sh_cmd_write_idx cd) := c),
                       sh_cmd_write_idx := XF_QUEUE_ADVANCE_IDX (sh_cmd_write_idx cd)\<rparr>, H)"
| host_response: "\<not> XF_QUEUE_EMPTY (sh_rsp_read_idx cd) (sh_rsp_write_idx cd) \<Longrightarrow>
    ipc_step (cd, H) (cd\<lparr>sh_rsp_read_idx := XF_QUEUE_ADVANCE_IDX (sh_rsp_read_idx cd)\<rparr>, H)"
| dsp_queues: "xf_shmem_process_queues 0 cd = Some cd' \<Longrightarrow> ipc_step (cd, H) (cd', H)"
| dsp_get: "xf_msg_local_get 0 cd = Some (cd', m) \<Longrightarrow> m \<noteq> 0 \<Longrightarrow> ipc_step (cd, H) (cd', m # H)"
| dsp_response_get: "xf_msg_local_response_get 0 cd = Some (cd', m) \<Longrightarrow> m \<noteq> 0 \<Longrightarrow> ipc_step (cd, H) (cd', m # H)"
| dsp_complete: "m \<in> set H \<Longrightarrow> xf_msg_complete m cd = Some cd' \<Longrightarrow> ipc_step (cd, H) (cd', remove1 m H)"
| dsp_complete_isr: "m \<in> set H \<Longrightarrow> xf_msg_complete_isr m cd = Some cd' \<Longrightarrow> ipc_step (cd, H) (cd', remove1 m H)"

inductive_cases ipc_stepE: "ipc_step s s'"

text \<open>The invariant: with A the set of all messages, each is in the pool, in exactly one queue or
  held; the rings hold at most 256 entries; all ids address core 0.\<close>

definition ring_ok :: "xf_core \<Rightarrow> nat \<Rightarrow> nat \<Rightarrow> nat \<Rightarrow> nat \<Rightarrow> bool" where
  "ring_ok cd rc wc rr wr \<longleftrightarrow> rc \<le> wc \<and> wc \<le> rc + 256 \<and> rr \<le> wr \<and> wr \<le> rr + 256 \<and>
     sh_cmd_read_idx cd = ring_idx rc \<and> sh_cmd_write_idx cd = ring_idx wc \<and>
     sh_rsp_read_idx cd = ring_idx rr \<and> sh_rsp_write_idx cd = ring_idx wr \<and>
     (\<forall>j. rc \<le> j \<and> j < wc \<longrightarrow> cores_ok (p_session_id (ring_at (sh_command cd) j)))"

definition held_ok :: "xf_core \<Rightarrow> addr list \<Rightarrow> (ipc_queue \<Rightarrow> addr list) \<Rightarrow> addr list \<Rightarrow> addr set \<Rightarrow> bool" where
  "held_ok cd P L H A \<longleftrightarrow> ipc_at cd P L \<and> distinct H \<and> 0 \<notin> set H \<and> set H \<inter> ipc_set P L = {} \<and>
     ipc_set P L \<union> set H = A \<and> (\<forall>m. m \<in> set H \<or> (\<exists>k. m \<in> set (L k)) \<longrightarrow> cores_ok (m_id (c_msgs cd m)))"

definition ipc_inv :: "addr set \<Rightarrow> xf_core \<times> addr list \<Rightarrow> bool" where
  "ipc_inv A s \<longleftrightarrow> (\<exists>P L rc wc rr wr. held_ok (fst s) P L (snd s) A \<and> ring_ok (fst s) rc wc rr wr)"

lemma cores_ok_swap: "cores_ok i \<Longrightarrow> cores_ok (msg_id_swap i)"
  by (simp add: cores_ok_def)

lemma held_ok_data:
  assumes "held_ok cd P L H A" and "ipc_at cd' P' L'" and "\<forall>a. m_id (c_msgs cd' a) = m_id (c_msgs cd a)"
    and "ipc_set P' L' \<union> set H' = A" and "distinct H'" and "0 \<notin> set H'" and "set H' \<inter> ipc_set P' L' = {}"
    and "\<And>m k. m \<in> set (L' k) \<Longrightarrow> m \<in> set H \<or> (\<exists>j. m \<in> set (L j))"
    and "\<And>m. m \<in> set H' \<Longrightarrow> m \<in> set H \<or> (\<exists>j. m \<in> set (L j))"
  shows "held_ok cd' P' L' H' A"
  using assms unfolding held_ok_def by metis

lemma ring_ok_frame: "ring_ok cd rc wc rr wr \<Longrightarrow> ipc_frame cd cd' \<Longrightarrow> ring_ok cd' rc wc rr wr"
  using ipc_frame_fields unfolding ring_ok_def by (metis (no_types, lifting))

lemma ipc_set_tl:
  assumes "L k \<noteq> []"
  shows "ipc_set P L = insert (hd (L k)) (ipc_set P (L(k := tl (L k))))"
proof -
  have "set (L k) = insert (hd (L k)) (set (tl (L k)))" using assms by (cases "L k") simp_all
  moreover have "(\<Union>j. set (L j)) = set (L k) \<union> (\<Union>j\<in>- {k}. set (L j))" for L :: "ipc_queue \<Rightarrow> addr list" by auto
  note this [of L] this [of "L(k := tl (L k))"]
  ultimately show ?thesis by (auto simp: ipc_set_def)
qed

lemma held_take:
  assumes h: "held_ok cd P L H A" and t: "ipc_taken cd P L k cd'" and m: "L k \<noteq> []"
  shows "held_ok cd' P (L(k := tl (L k))) (hd (L k) # H) A"
proof (rule held_ok_data [OF h])
  have I: "ipc_at cd P L" using h by (simp add: held_ok_def)
  note fresh = ipc_taken_fresh [OF I m]
  have hdl: "hd (L k) \<in> set (L k)" "set (tl (L k)) \<subseteq> set (L k)" "set (L k) = insert (hd (L k)) (set (tl (L k)))"
    using m by (cases "L k"; auto)+
  have sub: "ipc_set P (L(k := tl (L k))) \<subseteq> ipc_set P L" using hdl(2) by (auto simp: ipc_set_def split: if_splits)
  have all: "ipc_set P L = insert (hd (L k)) (ipc_set P (L(k := tl (L k))))" by (rule ipc_set_tl [of L k P]) (rule m)
  have disj: "set H \<inter> ipc_set P L = {}" and A: "ipc_set P L \<union> set H = A" and H: "distinct H" "0 \<notin> set H"
    using h by (simp_all add: held_ok_def)
  show "ipc_at cd' P (L(k := tl (L k)))" "\<forall>a. m_id (c_msgs cd' a) = m_id (c_msgs cd a)"
    using t by (simp_all add: ipc_taken_def msg_data_eq_iff)
  show "ipc_set P (L(k := tl (L k))) \<union> set (hd (L k) # H) = A" using A all by auto
  show "distinct (hd (L k) # H)" "0 \<notin> set (hd (L k) # H)" "set (hd (L k) # H) \<inter> ipc_set P (L(k := tl (L k))) = {}"
    using H disj all fresh by auto
  show "m \<in> set H \<or> (\<exists>j. m \<in> set (L j))" if "m \<in> set ((L(k := tl (L k))) i)" for m i
    using that hdl(2) by (auto split: if_splits)
  show "m \<in> set H \<or> (\<exists>j. m \<in> set (L j))" if "m \<in> set (hd (L k) # H)" for m using that hdl(1) by auto
qed

lemma ipc_set_append: "ipc_set P (L(k := L k @ [m])) = insert m (ipc_set P L)"
  by (auto simp: ipc_set_def split: if_splits)

lemma held_put:
  assumes h: "held_ok cd P L H A" and m: "m \<in> set H" and I': "ipc_at cd' P (L(k := L k @ [m]))"
    and i: "cores_ok (m_id (c_msgs cd' m))" "\<forall>a. a \<noteq> m \<longrightarrow> m_id (c_msgs cd' a) = m_id (c_msgs cd a)"
  shows "held_ok cd' P (L(k := L k @ [m])) (remove1 m H) A"
proof -
  have hh: "distinct H" "0 \<notin> set H" "set H \<inter> ipc_set P L = {}" "ipc_set P L \<union> set H = A"
    "\<forall>x. x \<in> set H \<or> (\<exists>k. x \<in> set (L k)) \<longrightarrow> cores_ok (m_id (c_msgs cd x))"
    using h by (simp_all add: held_ok_def)
  have H': "set (remove1 m H) = set H - {m}" using hh(1) by (rule set_remove1_eq)
  have "cores_ok (m_id (c_msgs cd' x))" if "x \<in> set (remove1 m H) \<or> (\<exists>j. x \<in> set ((L(k := L k @ [m])) j))" for x
    using that i hh(5) unfolding H' by (cases "x = m") (auto split: if_splits)
  then show ?thesis unfolding held_ok_def using I' hh(1-4) m by (auto simp: ipc_set_append H')
qed

lemma ipc_set_round:
  fixes L k1 k2 f P
  defines "P1 \<equiv> rev (take k1 (L QRemote)) @ P"
  shows "ipc_set (drop k2 P1) (\<lambda>q. (L(QRemote := drop k1 (L QRemote))) q @ filter (\<lambda>m. f m = q) (take k2 P1)) =
    ipc_set P L"
proof -
  have t: "set xs = set (take n xs) \<union> set (drop n xs)" for n :: nat and xs :: "addr list"
    by (metis append_take_drop_id set_append)
  have r: "set (L QRemote) = set (take k1 (L QRemote)) \<union> set (drop k1 (L QRemote))" by (rule t)
  have split: "(\<Union>j. set (g j)) = set (g QRemote) \<union> (\<Union>j\<in>- {QRemote}. set (g j))" for g :: "ipc_queue \<Rightarrow> addr list" by auto
  have "ipc_set (drop k2 P1) (\<lambda>q. (L(QRemote := drop k1 (L QRemote))) q @ filter (\<lambda>m. f m = q) (take k2 P1)) =
      set (drop k2 P1) \<union> set (take k2 P1) \<union> (\<Union>j. set ((L(QRemote := drop k1 (L QRemote))) j))"
    by (auto simp: ipc_set_def)
  also have "set (drop k2 P1) \<union> set (take k2 P1) = set (take k1 (L QRemote)) \<union> set P"
    using t [of P1 k2] by (auto simp: P1_def)
  finally show ?thesis unfolding ipc_set_def split [of L] split [of "L(QRemote := drop k1 (L QRemote))"] r by auto
qed

lemma ipc_invE:
  assumes "ipc_inv A (cd, H)"
  obtains P L rc wc rr wr where "held_ok cd P L H A" and "ring_ok cd rc wc rr wr"
  using assms by (auto simp: ipc_inv_def)

lemma ipc_invI: "held_ok cd P L H A \<Longrightarrow> ring_ok cd rc wc rr wr \<Longrightarrow> ipc_inv A (cd, H)"
  unfolding ipc_inv_def by (intro exI conjI) (simp_all only: fst_conv snd_conv)

lemma queues_inv:
  assumes h: "held_ok cd P L H A" and r: "ring_ok cd rc wc rr wr" and q: "xf_shmem_process_queues 0 cd = Some cd'"
  shows "ipc_inv A (cd', H)"
proof -
  define k1 where "k1 = min (rr + 256 - wr) (length (L QRemote))"
  define P1 where "P1 = rev (take k1 (L QRemote)) @ P"
  define k2 where "k2 = min (wc - rc) (length P1)"
  let ?L1 = "L(QRemote := drop k1 (L QRemote))"
  have hh: "ipc_at cd P L" "distinct H" "0 \<notin> set H" "set H \<inter> ipc_set P L = {}" "ipc_set P L \<union> set H = A"
    "\<And>m. m \<in> set H \<or> (\<exists>k. m \<in> set (L k)) \<Longrightarrow> cores_ok (m_id (c_msgs cd m))" using h by (auto simp: held_ok_def)
  have rr: "rc \<le> wc" "wc \<le> rc + 256" "rr \<le> wr" "wr \<le> rr + 256"
    "sh_cmd_read_idx cd = ring_idx rc" "sh_cmd_write_idx cd = ring_idx wc"
    "sh_rsp_read_idx cd = ring_idx rr" "sh_rsp_write_idx cd = ring_idx wr"
    and cmd: "\<And>j. rc \<le> j \<Longrightarrow> j < wc \<Longrightarrow> cores_ok (p_session_id (ring_at (sh_command cd) j))"
    using r by (auto simp: ring_ok_def)
  then have "\<forall>j. rc \<le> j \<and> j < wc \<longrightarrow> XF_MSG_DST_CORE (p_session_id (ring_at (sh_command cd) j)) = 0"
    by (auto simp: cores_ok_def)
  from xf_shmem_process_queues_spec [OF hh(1) rr this k1_def P1_def k2_def] q obtain cd1 cd2 n where
    e: "cd' = cd2\<lparr>sh_notified := n\<rparr>" "output_done cd P L wr k1 cd1" "input_done cd1 P1 ?L1 rc k2 cd2"
      "sh_cmd_read_idx cd2 = ring_idx (rc + k2)" "sh_rsp_write_idx cd2 = ring_idx (wr + k1)" "shm_frame cd cd2" by auto
  let ?L2 = "\<lambda>q. ?L1 q @ filter (\<lambda>m. submit_queue (m_id (c_msgs cd2 m)) = q) (take k2 P1)"
  have F: "shm_frame cd cd1" using e(2) by (simp add: output_done_def)
  note F1 = shm_frame_fields [OF F] and F2 = shm_frame_fields [OF e(6)]
  have set2: "ipc_set (drop k2 P1) ?L2 = ipc_set P L" unfolding P1_def by (rule ipc_set_round)
  have same: "m_id (c_msgs cd2 m) = m_id (c_msgs cd m)" if "m \<notin> set (take k2 P1)" for m
    using that e(2,3) by (simp add: output_done_def input_done_def msg_data_eq_iff)
  have new: "cores_ok (m_id (c_msgs cd2 m))" if "m \<in> set (take k2 P1)" for m
  proof -
    obtain i where i: "i < k2" "i < length P1" "m = P1 ! i" using \<open>m \<in> set (take k2 P1)\<close> by (auto simp: in_set_conv_nth)
    then have "msg_fetched (sh_buffer cd1) (ring_at (sh_command cd1) (rc + i)) (c_msgs cd2 m)"
      using e(3) by (simp add: input_done_def)
    then have "m_id (c_msgs cd2 m) = p_session_id (ring_at (sh_command cd) (rc + i))" by (simp add: msg_fetched_def F1)
    moreover have "rc + i < wc" using i(1) unfolding k2_def by linarith
    ultimately show ?thesis using cmd [of "rc + i"] by simp
  qed
  have subP: "set P1 \<subseteq> ipc_set P L" using set_take_subset [of k1 "L QRemote"] by (auto simp: P1_def ipc_set_def)
  have "held_ok cd2 (drop k2 P1) ?L2 H A"
    unfolding held_ok_def set2
  proof (intro conjI allI impI)
    show "ipc_at cd2 (drop k2 P1) ?L2" using e(3) by (simp add: input_done_def)
    show "distinct H" "0 \<notin> set H" "set H \<inter> ipc_set P L = {}" "ipc_set P L \<union> set H = A" by fact+
    fix m assume m: "m \<in> set H \<or> (\<exists>k. m \<in> set (?L2 k))"
    show "cores_ok (m_id (c_msgs cd2 m))"
    proof (cases "m \<in> set (take k2 P1)")
      case False
      then have "m \<in> set H \<or> (\<exists>k. m \<in> set (L k))" using m set_drop_subset [of k1 "L QRemote"]
        by (auto split: if_splits)
      then show ?thesis using hh(6) same [OF False] by simp
    qed (rule new)
  qed
  then have "held_ok cd' (drop k2 P1) ?L2 H A" by (simp add: e(1) held_ok_def)
  moreover have "ring_ok cd' (rc + k2) wc rr (wr + k1)"
    using rr e(4,5) cmd by (auto simp: e(1) ring_ok_def F2 k1_def k2_def)
  ultimately show ?thesis by (rule ipc_invI)
qed

lemma command_inv:
  assumes h: "held_ok cd P L H A" and r: "ring_ok cd rc wc rr wr" and c: "cores_ok (p_session_id c)"
    and nf: "\<not> XF_QUEUE_FULL (sh_cmd_read_idx cd) (sh_cmd_write_idx cd)"
  shows "ipc_inv A (cd\<lparr>sh_command := (sh_command cd)(XF_QUEUE_IDX (sh_cmd_write_idx cd) := c),
                       sh_cmd_write_idx := XF_QUEUE_ADVANCE_IDX (sh_cmd_write_idx cd)\<rparr>, H)"
    (is "ipc_inv A (?cd, H)")
proof -
  have I: "ipc_at ?cd P L" if "ipc_at cd P L"
  proof -
    have "get_q k ?cd = get_q k cd" for k by (cases k) simp_all
    then show ?thesis using that by (simp add: ipc_at_def)
  qed
  have rr: "rc \<le> wc" "wc < rc + 256" "sh_cmd_write_idx cd = ring_idx wc"
    using r nf ring_full [of rc wc] by (auto simp: ring_ok_def)
  have slot: "ring_at ((sh_command cd)(XF_QUEUE_IDX (ring_idx wc) := c)) j =
      (if j = wc then c else ring_at (sh_command cd) j)" if j: "rc \<le> j" "j \<le> wc" for j
  proof -
    have "j mod 256 = wc mod 256 \<longleftrightarrow> j = wc" using near_slot [of 0 "wc - j" j] j rr(2) by (cases "j = wc") (auto, linarith)
    then show ?thesis by (simp add: ring_slot ring_slot_eq)
  qed
  have "held_ok ?cd P L H A" using h I by (simp add: held_ok_def)
  moreover have "ring_ok ?cd rc (Suc wc) rr wr"
    using r rr c slot [of wc] by (auto simp: ring_ok_def slot less_Suc_eq simp del: fun_upd_apply)
  ultimately show ?thesis by (rule ipc_invI)
qed

lemma take_inv:
  assumes h: "held_ok cd P L H A" and r: "ring_ok cd rc wc rr wr" and t: "ipc_taken cd P L k cd'"
    and m: "m = (if L k = [] then 0 else hd (L k))" "m \<noteq> 0"
  shows "ipc_inv A (cd', m # H)"
proof -
  have ne: "L k \<noteq> []" using m by auto
  have "held_ok cd' P (L(k := tl (L k))) (m # H) A" using held_take [OF h t ne] m(1) ne by simp
  moreover have "ring_ok cd' rc wc rr wr" using ring_ok_frame [OF r] t by (simp add: ipc_taken_def)
  ultimately show ?thesis by (rule ipc_invI)
qed

lemma complete_inv:
  assumes h: "held_ok cd P L H A" and r: "ring_ok cd rc wc rr wr" and m: "m \<in> set H" and c: "xf_msg_complete m cd = Some cd'"
  shows "ipc_inv A (cd', remove1 m H)"
proof -
  have "ipc_at cd P L" "m \<notin> ipc_set P L" "m \<noteq> 0" and ok: "cores_ok (m_id (c_msgs cd m))" using h m by (auto simp: held_ok_def)
  from xf_msg_complete_at [OF this(1-3)] ok c have e: "ipc_completed cd P L m cd'" by (auto simp: cores_ok_def)
  let ?k = "complete_queue (m_id (c_msgs cd m))"
  have "held_ok cd' P (L(?k := L ?k @ [m])) (remove1 m H) A"
    using e cores_ok_swap [OF ok] by (intro held_put [OF h m]) (auto simp: ipc_completed_def Let_def msg_data_eq_iff)
  moreover have "ring_ok cd' rc wc rr wr" using ring_ok_frame [OF r] e by (simp add: ipc_completed_def Let_def)
  ultimately show ?thesis by (rule ipc_invI)
qed

lemma isr_inv:
  assumes h: "held_ok cd P L H A" and r: "ring_ok cd rc wc rr wr" and m: "m \<in> set H" and c: "xf_msg_complete_isr m cd = Some cd'"
  shows "ipc_inv A (cd', remove1 m H)"
proof -
  have "ipc_at cd P L" "m \<notin> ipc_set P L" "m \<noteq> 0" and ok: "cores_ok (m_id (c_msgs cd m))" using h m by (auto simp: held_ok_def)
  from xf_msg_isr_at(2) [OF this(1-3)] ok c have e: "ipc_appended cd P L QResponse m cd'" by (auto simp: cores_ok_def)
  have "held_ok cd' P (L(QResponse := L QResponse @ [m])) (remove1 m H) A"
    using e ok by (intro held_put [OF h m]) (auto simp: ipc_appended_def msg_data_eq_iff)
  moreover have "ring_ok cd' rc wc rr wr" using ring_ok_frame [OF r] e by (simp add: ipc_appended_def)
  ultimately show ?thesis by (rule ipc_invI)
qed

lemma response_inv:
  assumes h: "held_ok cd P L H A" and r: "ring_ok cd rc wc rr wr"
    and ne: "\<not> XF_QUEUE_EMPTY (sh_rsp_read_idx cd) (sh_rsp_write_idx cd)"
  shows "ipc_inv A (cd\<lparr>sh_rsp_read_idx := XF_QUEUE_ADVANCE_IDX (sh_rsp_read_idx cd)\<rparr>, H)" (is "ipc_inv A (?cd, H)")
proof -
  have "get_q k ?cd = get_q k cd" for k by (cases k) simp_all
  then have "held_ok ?cd P L H A" using h by (simp add: held_ok_def ipc_at_def)
  moreover have "ring_ok ?cd rc wc (Suc rr) wr" using r ne ring_empty [of rr wr] by (auto simp: ring_ok_def)
  ultimately show ?thesis by (rule ipc_invI)
qed

lemma ipc_step_inv: "ipc_step s s' \<Longrightarrow> ipc_inv A s \<Longrightarrow> ipc_inv A s'"
proof (induction rule: ipc_step.induct)
  case (dsp_get cd cd' m H)
  from dsp_get(3) obtain P L rc wc rr wr where h: "held_ok cd P L H A" "ring_ok cd rc wc rr wr" by (rule ipc_invE)
  then have I: "ipc_at cd P L" by (simp add: held_ok_def)
  from xf_msg_get_at(3) [OF this] dsp_get have "ipc_taken cd P L QCore cd'" "m = (if L QCore = [] then 0 else hd (L QCore))"
    by auto
  then show ?case using dsp_get(2) by (rule take_inv [OF h])
next
  case (dsp_response_get cd cd' m H)
  from dsp_response_get(3) obtain P L rc wc rr wr where h: "held_ok cd P L H A" "ring_ok cd rc wc rr wr" by (rule ipc_invE)
  then have I: "ipc_at cd P L" by (simp add: held_ok_def)
  from xf_msg_get_at(4) [OF this] dsp_response_get have "ipc_taken cd P L QResponse cd'"
      "m = (if L QResponse = [] then 0 else hd (L QResponse))" by auto
  then show ?case using dsp_response_get(2) by (rule take_inv [OF h])
qed (erule ipc_invE, (rule command_inv response_inv queues_inv complete_inv isr_inv; assumption))+

text \<open>C12: no message is ever lost or duplicated: in every state host and DSP reach, each message of
  the set A is in the pool, in exactly one queue, or held by a component, and only once.\<close>

theorem ipc_conservation:
  assumes "held_ok cd P L [] A" and "ring_ok cd rc wc rr wr" and "ipc_step\<^sup>*\<^sup>* (cd, []) (cd', H)"
  shows "\<exists>P' L'. ipc_at cd' P' L' \<and> distinct H \<and> set H \<inter> ipc_set P' L' = {} \<and> ipc_set P' L' \<union> set H = A"
proof -
  have "ipc_inv A s" if "ipc_step\<^sup>*\<^sup>* (cd, []) s" for s
    using that by (induction rule: rtranclp_induct) (auto intro: ipc_step_inv ipc_invI [OF assms(1,2)])
  from this [OF assms(3)] show ?thesis by (auto simp: ipc_inv_def held_ok_def)
qed

theorem ipc_conservation_witness:
  "\<exists>cd' P' L'. ipc_step\<^sup>*\<^sup>* (shm_demo, []) (cd', []) \<and> xf_shmem_process_queues 0 shm_demo = Some cd' \<and>
     ipc_at cd' P' L' \<and> ipc_set P' L' = {32, 64}"
proof -
  have "\<forall>j. 0 \<le> j \<and> j < 1 \<longrightarrow> XF_MSG_DST_CORE (p_session_id (ring_at (sh_command shm_demo) j)) = 0"
    by (simp add: demo_idx core_0)
  from xf_shmem_process_queues_spec [OF demo_ipc _ _ _ _ demo_idx(1-4) this refl refl refl] obtain cd' where
    q: "xf_shmem_process_queues 0 shm_demo = Some cd'" by auto
  then have s: "ipc_step\<^sup>*\<^sup>* (shm_demo, []) (cd', [])" by (blast intro: dsp_queues)
  have "held_ok shm_demo [32, 64] (\<lambda>_. []) [] {32, 64}" using demo_ipc by (simp add: held_ok_def ipc_set_def)
  moreover have "ring_ok shm_demo 0 1 0 0" by (simp add: ring_ok_def demo_idx cores_ok_def core_0)
  ultimately show ?thesis using ipc_conservation [OF _ _ s, of "[32, 64]" "\<lambda>_. []" "{32, 64}" 0 1 0 0] s q by auto
qed

end
