(* ===== verification/XF_Core.thy ===== *)
theory XF_Core
  imports XF_Shmem XF_Sched
begin

text \<open>
  The core of the framework (core/xf-core.c): the map from client ids to components, the commands
  of the proxy, the dispatcher, initialisation and the service loop. The components are reached
  through function pointers; they are an argument \<open>e\<close> of the definitions, with their private
  state \<open>w\<close>. A call through a null pointer and an access outside a table have no result (None).
\<close>

section \<open>The client map\<close>

definition XF_CFG_MAX_CLIENTS :: u32 where
  "XF_CFG_MAX_CLIENTS = 64"

text \<open>An entry of the map is a link to the next free id or the address of a component; it is an
  address when it is greater than \<open>XF_CFG_MAX_CLIENTS\<close>.\<close>

definition xf_client_lookup :: "xf_core \<Rightarrow> u32 \<Rightarrow> addr option" where
  "xf_client_lookup cd client =
     (if client < XF_CFG_MAX_CLIENTS then
        let link = c_cmap cd ! unat client in Some (if link > XF_CFG_MAX_CLIENTS then link else 0)
      else None)"

definition xf_client_alloc :: "xf_core \<Rightarrow> xf_core \<times> u32" where
  "xf_client_alloc cd =
     (let client = c_free cd in
      (if client < XF_CFG_MAX_CLIENTS then cd\<lparr>c_free := c_cmap cd ! unat client\<rparr> else cd, client))"

definition xf_client_set :: "u32 \<Rightarrow> u32 \<Rightarrow> xf_core \<Rightarrow> xf_core option" where
  "xf_client_set client link cd =
     (if client < XF_CFG_MAX_CLIENTS then Some (cd\<lparr>c_cmap := (c_cmap cd)[unat client := link]\<rparr>) else None)"

definition xf_client_free :: "u32 \<Rightarrow> xf_core \<Rightarrow> xf_core option" where
  "xf_client_free client cd =
     map_option (\<lambda>cd. cd\<lparr>c_free := client\<rparr>) (xf_client_set client (c_free cd) cd)"

section \<open>Components\<close>

text \<open>The factory and the two function pointers of a component. The last result of a call of
  entry or exit is the C return value.\<close>

record 'w xf_components =
  f_factory :: "u32 \<Rightarrow> addr \<Rightarrow> u32 \<Rightarrow> xf_core \<Rightarrow> 'w \<Rightarrow> (xf_core \<times> 'w \<times> addr) option"
  f_entry :: "addr \<Rightarrow> addr \<Rightarrow> xf_core \<Rightarrow> 'w \<Rightarrow> (xf_core \<times> 'w \<times> int) option"
  f_exit :: "addr \<Rightarrow> addr \<Rightarrow> xf_core \<Rightarrow> 'w \<Rightarrow> (xf_core \<times> 'w \<times> int) option"

definition xf_component_core :: "xf_core \<Rightarrow> addr \<Rightarrow> u32" where
  "xf_component_core cd c = XF_PORT_CORE (c_comp_id cd c)"

definition xf_component_schedule :: "addr \<Rightarrow> u32 \<Rightarrow> xf_core \<Rightarrow> xf_core option" where
  "xf_component_schedule c dts cd =
     xf_on_core (xf_component_core cd c)
       (map_option (\<lambda>h. cd\<lparr>c_mem := h\<rparr>)
          (xf_sched_put (c_sched cd) (c_mem cd) c (xf_sched_timestamp (c_sched cd) (c_mem cd) + dts)))"

definition xf_component_cancel :: "addr \<Rightarrow> xf_core \<Rightarrow> xf_core option" where
  "xf_component_cancel c cd =
     xf_on_core (xf_component_core cd c)
       (map_option (\<lambda>h. cd\<lparr>c_mem := h\<rparr>) (xf_sched_cancel (c_sched cd) (c_mem cd) c))"

section \<open>Proxy commands\<close>

definition xf_shmem_enabled :: "u32 \<Rightarrow> bool" where
  "xf_shmem_enabled core \<longleftrightarrow> core = 0"

definition xf_proxy_register ::
  "'w xf_components \<Rightarrow> u32 \<Rightarrow> addr \<Rightarrow> xf_core \<Rightarrow> 'w \<Rightarrow> (xf_core \<times> 'w \<times> (xf_errno + unit)) option"
where
  "xf_proxy_register e core m cd w =
     xf_on_core core
       (let src = XF_MSG_SRC (m_id (c_msgs cd m));
            (cd, client) = xf_client_alloc cd
        in if client = XF_CFG_MAX_CLIENTS then Some (cd, w, Inl EBUSY)
           else
             Option.bind (f_factory e core (m_buffer (c_msgs cd m)) (m_length (c_msgs cd m)) cd w) (\<lambda>(cd, w, component).
               if component = 0 then
                 map_option (\<lambda>cd. (cd, w, Inl ENOMEM)) (xf_client_free client cd)
               else
                 Option.bind (xf_client_set client component cd) (\<lambda>cd.
                   let spec = XF_PORT_SPEC core client 0;
                       cd = cd\<lparr>c_comp_id := (c_comp_id cd)(component := spec)\<rparr>;
                       cd = msg_upd m (\<lambda>x. x\<lparr>m_id := XF_MSG_ID src spec\<rparr>) cd
                   in map_option (\<lambda>cd. (cd, w, Inr ())) (xf_response_ok m cd))))"

definition xf_proxy_alloc ::
  "u32 \<Rightarrow> u32 \<Rightarrow> addr \<Rightarrow> xf_core \<Rightarrow> 'w \<Rightarrow> (xf_core \<times> 'w \<times> (xf_errno + unit)) option"
where
  "xf_proxy_alloc al core m cd w =
     (if \<not> xf_shmem_enabled core then Some (cd, w, Inl EPERM)
      else Option.bind (xf_shmem_alloc al core m cd) (\<lambda>(cd, _).
             map_option (\<lambda>cd. (cd, w, Inr ())) (xf_response m cd)))"

definition xf_proxy_free ::
  "u32 \<Rightarrow> u32 \<Rightarrow> addr \<Rightarrow> xf_core \<Rightarrow> 'w \<Rightarrow> (xf_core \<times> 'w \<times> (xf_errno + unit)) option"
where
  "xf_proxy_free al core m cd w =
     (if \<not> xf_shmem_enabled core then Some (cd, w, Inl EPERM)
      else Option.bind (xf_shmem_free al core m cd) (\<lambda>cd.
             map_option (\<lambda>cd. (cd, w, Inr ())) (xf_response m cd)))"

text \<open>Without remote tracing the two client switches have the default branch only.\<close>

definition xf_proxy_output ::
  "u32 \<Rightarrow> addr \<Rightarrow> xf_core \<Rightarrow> 'w \<Rightarrow> (xf_core \<times> 'w \<times> (xf_errno + unit)) option" where
  "xf_proxy_output core m cd w = Some (cd, w, Inl EINVAL)"

definition xf_proxy_flush ::
  "u32 \<Rightarrow> addr \<Rightarrow> xf_core \<Rightarrow> 'w \<Rightarrow> (xf_core \<times> 'w \<times> (xf_errno + unit)) option" where
  "xf_proxy_flush core m cd w = Some (cd, w, Inl EINVAL)"

text \<open>The table of the commands; entries that no initialiser names are null pointers.\<close>

definition xf_proxy_cmd ::
  "u32 \<Rightarrow> 'w xf_components \<Rightarrow> u32 \<Rightarrow>
     (u32 \<Rightarrow> addr \<Rightarrow> xf_core \<Rightarrow> 'w \<Rightarrow> (xf_core \<times> 'w \<times> (xf_errno + unit)) option) option"
where
  "xf_proxy_cmd al e t =
     (if t = XF_OPCODE_TYPE XF_REGISTER then Some (xf_proxy_register e)
      else if t = XF_OPCODE_TYPE XF_ALLOC then Some (xf_proxy_alloc al)
      else if t = XF_OPCODE_TYPE XF_FREE then Some (xf_proxy_free al)
      else if t = XF_OPCODE_TYPE XF_FILL_THIS_BUFFER then Some xf_proxy_output
      else if t = XF_OPCODE_TYPE XF_FLUSH then Some xf_proxy_flush
      else None)"

definition XF_PROXY_CMD_NUM :: u32 where
  "XF_PROXY_CMD_NUM = 11"

definition xf_proxy_command ::
  "u32 \<Rightarrow> 'w xf_components \<Rightarrow> u32 \<Rightarrow> addr \<Rightarrow> xf_core \<Rightarrow> 'w \<Rightarrow> (xf_core \<times> 'w) option"
where
  "xf_proxy_command al e core m cd w =
     (let t = XF_OPCODE_TYPE (m_opcode (c_msgs cd m)) in
      if t < XF_PROXY_CMD_NUM then
        (case xf_proxy_cmd al e t of
           None \<Rightarrow> None
         | Some f \<Rightarrow>
             Option.bind (f core m cd w) (\<lambda>(cd, w, res).
               case res of
                 Inr _ \<Rightarrow> Some (cd, w)
               | Inl _ \<Rightarrow> map_option (\<lambda>cd. (cd, w)) (xf_response_err m cd)))
      else map_option (\<lambda>cd. (cd, w)) (xf_response_err m cd))"

section \<open>Dispatching\<close>

definition xf_core_process ::
  "'w xf_components \<Rightarrow> addr \<Rightarrow> xf_core \<Rightarrow> 'w \<Rightarrow> (xf_core \<times> 'w) option" where
  "xf_core_process e component cd w =
     map_option (\<lambda>(cd, w, _). (cd, w)) (f_entry e component 0 cd w)"

definition xf_core_dispatch ::
  "u32 \<Rightarrow> 'w xf_components \<Rightarrow> u32 \<Rightarrow> addr \<Rightarrow> xf_core \<Rightarrow> 'w \<Rightarrow> (xf_core \<times> 'w) option"
where
  "xf_core_dispatch al e core m cd w =
     (if XF_MSG_DST_PROXY (m_id (c_msgs cd m)) \<noteq> 0 then xf_proxy_command al e core m cd w
      else
        let client = XF_MSG_DST_CLIENT (m_id (c_msgs cd m)) in
        Option.bind (xf_client_lookup cd client) (\<lambda>component.
          if component \<noteq> 0 then
            Option.bind (f_entry e component m cd w) (\<lambda>(cd, w, r).
              if r < 0 then
                Option.bind (f_exit e component m cd w) (\<lambda>(cd, w, r).
                  if r = 0 then map_option (\<lambda>cd. (cd, w)) (xf_client_free client cd)
                  else Some (cd, w))
              else Some (cd, w))
          else map_option (\<lambda>cd. (cd, w)) (xf_response_err m cd)))"

section \<open>The service loop\<close>

partial_function (option) core_dispatch_loop ::
  "u32 \<Rightarrow> 'w xf_components \<Rightarrow> u32 \<Rightarrow> u32 \<Rightarrow> xf_core \<Rightarrow> 'w \<Rightarrow> (xf_core \<times> 'w \<times> u32) option"
where
  "core_dispatch_loop al e core status cd w =
     Option.bind (xf_msg_local_ipc_get core cd) (\<lambda>(cd, m).
       Option.bind (if m \<noteq> 0 then Some (cd, m) else xf_msg_local_get core cd) (\<lambda>(cd, m).
         if m \<noteq> 0 then
           Option.bind (xf_core_dispatch al e core m cd w) (\<lambda>(cd, w). core_dispatch_loop al e core 1 cd w)
         else Some (cd, w, status)))"

partial_function (option) core_response_loop ::
  "u32 \<Rightarrow> u32 \<Rightarrow> xf_core \<Rightarrow> (xf_core \<times> u32) option"
where
  "core_response_loop core status cd =
     Option.bind (xf_msg_local_response_get core cd) (\<lambda>(cd, m).
       if m \<noteq> 0 then Option.bind (xf_msg_complete m cd) (core_response_loop core 1)
       else Some (cd, status))"

definition core_sched_step ::
  "'w xf_components \<Rightarrow> u32 \<Rightarrow> xf_core \<Rightarrow> 'w \<Rightarrow> (xf_core \<times> 'w \<times> u32) option"
where
  "core_sched_step e status cd w =
     Option.bind (xf_sched_get (c_sched cd) (c_mem cd)) (\<lambda>(h, t).
       let cd = cd\<lparr>c_mem := h\<rparr> in
       case t of
         None \<Rightarrow> Some (cd, w, status)
       | Some t \<Rightarrow> map_option (\<lambda>(cd, w). (cd, w, 1)) (xf_core_process e t cd w))"

partial_function (option) xf_core_service ::
  "u32 \<Rightarrow> 'w xf_components \<Rightarrow> u32 \<Rightarrow> xf_core \<Rightarrow> 'w \<Rightarrow> (xf_core \<times> 'w) option"
where
  "xf_core_service al e core cd w =
     Option.bind (if xf_shmem_enabled core then xf_shmem_process_queues core cd else Some cd) (\<lambda>cd.
       Option.bind (core_dispatch_loop al e core 0 cd w) (\<lambda>(cd, w, status).
         Option.bind (core_response_loop core status cd) (\<lambda>(cd, status).
           Option.bind (core_sched_step e status cd w) (\<lambda>(cd, w, status).
             if status \<noteq> 0 then xf_core_service al e core cd w else Some (cd, w)))))"

section \<open>Initialisation\<close>

text \<open>\<open>ipi\<close> is what \<open>xf_ipi_init\<close> returns; in the HiKey build it ends without a return value.\<close>

definition xf_core_init ::
  "u32 \<Rightarrow> (xf_errno + unit) \<Rightarrow> u32 \<Rightarrow> xf_core \<Rightarrow> (xf_core \<times> (xf_errno + unit)) option"
where
  "xf_core_init al ipi core cd =
     xf_on_core core
       (let cd = cd\<lparr>c_cmap := fold (\<lambda>i xs. xs[i := of_nat i + 1]) [0 ..< unat XF_CFG_MAX_CLIENTS] (c_cmap cd)\<rparr>;
            cd = cd\<lparr>c_free := 0\<rparr>;
            cd = cd\<lparr>c_mem := xf_sched_init (c_sched cd) (c_mem cd)\<rparr>
        in case ipi of
             Inl err \<Rightarrow> Some (cd, Inl err)
           | Inr _ \<Rightarrow>
               Option.bind (if xf_shmem_enabled core then xf_shmem_init al core cd else Some (cd, Inr ())) (\<lambda>(cd, r).
                 case r of
                   Inl err \<Rightarrow> Some (cd, Inl err)
                 | Inr _ \<Rightarrow>
                     Option.bind (xf_scratch_mem_init core cd) (\<lambda>(cd, p).
                       let cd = cd\<lparr>c_scratch := p\<rparr> in Some (cd, if p = 0 then Inl ENOMEM else Inr ()))))"

definition XF_CFG_LOCAL_POOL_SIZE :: u32 where
  "XF_CFG_LOCAL_POOL_SIZE = push_bit 10 1024"

text \<open>The start of the program up to the first wait: the queues are cleared with their memory, then
  come the local pool (in the buffer at \<open>buf\<close>) and the core; the result of the latter is ignored.\<close>

definition xf_main_init :: "u32 \<Rightarrow> (xf_errno + unit) \<Rightarrow> addr \<Rightarrow> xf_core \<Rightarrow> (xf_core \<times> (xf_errno + unit)) option" where
  "xf_main_init al ipi buf cd =
     (let cd = cd\<lparr>rw_local := \<lparr>q_head = 0, q_tail = 0\<rparr>, rw_remote := \<lparr>q_head = 0, q_tail = 0\<rparr>,
                 ro_pool := \<lparr>pl_p = 0, pl_head = 0, pl_n = 0\<rparr>\<rparr>
      in Option.bind (xf_mm_init (c_local_pool cd) (c_mem cd) buf XF_CFG_LOCAL_POOL_SIZE) (\<lambda>r.
           case r of
             Inl err \<Rightarrow> Some (cd, Inl err)
           | Inr (h, _) \<Rightarrow> map_option (\<lambda>(cd, _). (cd, Inr ())) (xf_core_init al ipi 0 (cd\<lparr>c_mem := h\<rparr>))))"

end
