(* ===== verification/XF_Clients.thy ===== *)
theory XF_Clients
  imports XF_Core
begin

text \<open>
  The client map: free ids form a chain through the map that starts at \<open>c_free\<close> and ends with
  \<open>XF_CFG_MAX_CLIENTS\<close>, registered ids hold the address of their component. The locale
  \<open>client_ids\<close> is what the dispatcher relies on, interpreted with the code at the end.
\<close>

section \<open>The contract\<close>

text \<open>A state is represented by the list F of free ids and the map R of registered components.\<close>

locale client_ids =
  fixes lookup :: "'s \<Rightarrow> u32 \<Rightarrow> addr option"
    and alloc :: "'s \<Rightarrow> 's \<times> u32"
    and assign :: "u32 \<Rightarrow> addr \<Rightarrow> 's \<Rightarrow> 's option"
    and release :: "u32 \<Rightarrow> 's \<Rightarrow> 's option"
    and rep :: "'s \<Rightarrow> u32 list \<Rightarrow> (u32 \<Rightarrow> addr option) \<Rightarrow> bool"
  assumes lookup_law: "rep s F R \<Longrightarrow> i < XF_CFG_MAX_CLIENTS \<Longrightarrow>
      lookup s i = Some (case R i of None \<Rightarrow> 0 | Some c \<Rightarrow> c)"
    and alloc_nil: "rep s [] R \<Longrightarrow> alloc s = (s, XF_CFG_MAX_CLIENTS)"
    and alloc_law: "rep s (i # F) R \<Longrightarrow> \<exists>s'. alloc s = (s', i) \<and> rep s' F R"
    and assign_law: "rep s F R \<Longrightarrow> i < XF_CFG_MAX_CLIENTS \<Longrightarrow> i \<notin> set F \<Longrightarrow> XF_CFG_MAX_CLIENTS < c \<Longrightarrow>
      \<exists>s'. assign i c s = Some s' \<and> rep s' F (R(i \<mapsto> c))"
    and release_law: "rep s F R \<Longrightarrow> i < XF_CFG_MAX_CLIENTS \<Longrightarrow> i \<notin> set F \<Longrightarrow>
      \<exists>s'. release i s = Some s' \<and> rep s' (i # F) (R(i := None))"
    and free_bound: "rep s F R \<Longrightarrow> distinct F \<and> set F \<subseteq> {..<XF_CFG_MAX_CLIENTS} \<and> set F \<inter> dom R = {}"
    and dom_bound: "rep s F R \<Longrightarrow> dom R \<subseteq> {..<XF_CFG_MAX_CLIENTS}"
begin

lemma register:
  assumes "rep s (i # F) R" and "XF_CFG_MAX_CLIENTS < c"
  shows "\<exists>s1 s2. alloc s = (s1, i) \<and> assign i c s1 = Some s2 \<and> rep s2 F (R(i \<mapsto> c))"
proof -
  obtain s1 where s1: "alloc s = (s1, i)" "rep s1 F R" using alloc_law [OF assms(1)] by blast
  have "i < XF_CFG_MAX_CLIENTS" "i \<notin> set F" using free_bound [OF assms(1)] by auto
  from assign_law [OF s1(2) this assms(2)] s1(1) show ?thesis by blast
qed

lemma register_fails:
  assumes "rep s (i # F) R"
  shows "\<exists>s1 s2. alloc s = (s1, i) \<and> release i s1 = Some s2 \<and> rep s2 (i # F) R"
proof -
  obtain s1 where s1: "alloc s = (s1, i)" "rep s1 F R" using alloc_law [OF assms] by blast
  have b: "i < XF_CFG_MAX_CLIENTS" "i \<notin> set F" "R i = None" using free_bound [OF assms] by auto
  then have "R(i := None) = R" by auto
  with release_law [OF s1(2) b(1,2)] s1(1) show ?thesis by auto
qed

lemma unregister:
  assumes "rep s F R" and "R i = Some c"
  shows "\<exists>s'. release i s = Some s' \<and> rep s' (i # F) (R(i := None))"
  using release_law [OF assms(1)] free_bound [OF assms(1)] dom_bound [OF assms(1)] assms(2) by blast

lemma registered_lookup: "rep s F R \<Longrightarrow> R i = Some c \<Longrightarrow> lookup s i = Some c"
  using lookup_law [of s F R i] dom_bound [of s F R] by auto

end

section \<open>The representation\<close>

fun cmap_chain :: "u32 list \<Rightarrow> u32 \<Rightarrow> u32 list \<Rightarrow> bool" where
  "cmap_chain cmap p [] \<longleftrightarrow> p = XF_CFG_MAX_CLIENTS"
| "cmap_chain cmap p (x # xs) \<longleftrightarrow> p = x \<and> x < XF_CFG_MAX_CLIENTS \<and> cmap_chain cmap (cmap ! unat x) xs"

fun cmap_entry :: "u32 \<Rightarrow> addr option \<Rightarrow> bool" where
  "cmap_entry v None \<longleftrightarrow> v \<le> XF_CFG_MAX_CLIENTS"
| "cmap_entry v (Some c) \<longleftrightarrow> v = c \<and> XF_CFG_MAX_CLIENTS < v"

definition cmap_inv :: "xf_core \<Rightarrow> u32 list \<Rightarrow> (u32 \<Rightarrow> addr option) \<Rightarrow> bool" where
  "cmap_inv cd F R \<longleftrightarrow>
     length (c_cmap cd) = 64 \<and> cmap_chain (c_cmap cd) (c_free cd) F \<and> distinct F \<and>
     set F \<inter> dom R = {} \<and> dom R \<subseteq> {..<XF_CFG_MAX_CLIENTS} \<and>
     (\<forall>i<XF_CFG_MAX_CLIENTS. cmap_entry (c_cmap cd ! unat i) (R i))"

lemma cmap_inv_cong: "c_cmap cd' = c_cmap cd \<Longrightarrow> c_free cd' = c_free cd \<Longrightarrow> cmap_inv cd' F R = cmap_inv cd F R"
  by (simp add: cmap_inv_def)

lemma cmap_chain_bound: "cmap_chain cmap p xs \<Longrightarrow> set xs \<subseteq> {..<XF_CFG_MAX_CLIENTS}"
  by (induction xs arbitrary: p) auto

lemma cmap_chain_head: "cmap_chain cmap p xs \<Longrightarrow> p \<le> XF_CFG_MAX_CLIENTS"
  by (cases xs) auto

lemma client_nat: "i < XF_CFG_MAX_CLIENTS \<longleftrightarrow> unat i < 64"
  by (simp add: XF_CFG_MAX_CLIENTS_def word_less_nat_alt)

lemma cmap_chain_update:
  assumes "i \<notin> set xs" and "i < XF_CFG_MAX_CLIENTS" and "length cmap = 64"
  shows "cmap_chain (cmap[unat i := v]) p xs = cmap_chain cmap p xs"
  using assms(1)
proof (induction xs arbitrary: p)
  case (Cons x xs)
  then have "unat i \<noteq> unat x" using word_unat_eq_iff by auto
  then show ?case using Cons by simp
qed simp

lemma cmap_upd_nth:
  assumes "i < XF_CFG_MAX_CLIENTS" and "length cmap = 64"
  shows "cmap[unat i := v] ! unat j = (if j = i then v else cmap ! unat j)"
  using assms by (auto simp: client_nat nth_list_update word_unat_eq_iff)

lemma cmap_lookup:
  "cmap_inv cd F R \<Longrightarrow> i < XF_CFG_MAX_CLIENTS \<Longrightarrow> xf_client_lookup cd i = Some (case R i of None \<Rightarrow> 0 | Some c \<Rightarrow> c)"
  by (cases "R i") (auto simp: cmap_inv_def xf_client_lookup_def Let_def)

lemma cmap_alloc: "cmap_inv cd (i # F) R \<Longrightarrow> \<exists>cd'. xf_client_alloc cd = (cd', i) \<and> cmap_inv cd' F R"
  by (auto simp: cmap_inv_def xf_client_alloc_def)

lemma cmap_set:
  assumes I: "cmap_inv cd F R" and i: "i < XF_CFG_MAX_CLIENTS" "i \<notin> set F" and c: "XF_CFG_MAX_CLIENTS < c"
  shows "\<exists>cd'. xf_client_set i c cd = Some cd' \<and> cmap_inv cd' F (R(i \<mapsto> c))"
proof -
  have l: "length (c_cmap cd) = 64" using I by (simp add: cmap_inv_def)
  show ?thesis
    using I i c by (auto simp: xf_client_set_def cmap_inv_def cmap_chain_update cmap_upd_nth [OF i(1) l])
qed

lemma cmap_free:
  assumes I: "cmap_inv cd F R" and i: "i < XF_CFG_MAX_CLIENTS" "i \<notin> set F"
  shows "\<exists>cd'. xf_client_free i cd = Some cd' \<and> cmap_inv cd' (i # F) (R(i := None))"
proof -
  have l: "length (c_cmap cd) = 64" using I by (simp add: cmap_inv_def)
  have "c_free cd \<le> XF_CFG_MAX_CLIENTS" using I by (auto simp: cmap_inv_def dest: cmap_chain_head)
  then show ?thesis
    using I i by (auto simp: xf_client_free_def xf_client_set_def cmap_inv_def cmap_chain_update
        cmap_upd_nth [OF i(1) l])
qed

interpretation cm: client_ids xf_client_lookup xf_client_alloc xf_client_set xf_client_free cmap_inv
proof
  fix s F R
  assume I: "cmap_inv s F R"
  show "distinct F \<and> set F \<subseteq> {..<XF_CFG_MAX_CLIENTS} \<and> set F \<inter> dom R = {}"
    using I cmap_chain_bound by (auto simp: cmap_inv_def)
  show "dom R \<subseteq> {..<XF_CFG_MAX_CLIENTS}" using I by (simp add: cmap_inv_def)
next
  fix s R assume "cmap_inv s [] R"
  then show "xf_client_alloc s = (s, XF_CFG_MAX_CLIENTS)" by (auto simp: cmap_inv_def xf_client_alloc_def)
qed (rule cmap_lookup cmap_alloc cmap_set cmap_free; assumption)+

section \<open>The initial map\<close>

text \<open>The map and the chain that initialisation writes.\<close>

definition init_map :: "u32 list" where
  "init_map = map (\<lambda>i. of_nat i + 1) [0 ..< 64]"

definition free_ids :: "u32 list" where
  "free_ids = map of_nat [0 ..< 64]"

lemma init_map_nth: "n < 64 \<Longrightarrow> init_map ! n = of_nat n + 1" "length init_map = 64"
  unfolding init_map_def by ((subst nth_map; simp), simp)

lemma unat_small: "n \<le> 64 \<Longrightarrow> unat (of_nat n :: u32) = n"
  by (simp add: unat_of_nat_u32)

lemma init_chain: "cmap_chain init_map 0 free_ids"
proof -
  have "n \<le> 64 \<Longrightarrow> cmap_chain init_map (of_nat n) (map of_nat [n ..< 64])" for n
  proof (induction "64 - n" arbitrary: n)
    case 0
    then show ?case by (simp add: XF_CFG_MAX_CLIENTS_def)
  next
    case (Suc k)
    then have n: "n < 64" by simp
    have "cmap_chain init_map (of_nat (Suc n)) (map of_nat [Suc n ..< 64])"
      using Suc by (intro Suc.hyps(1)) auto
    moreover have "[n ..< 64] = n # [Suc n ..< 64]" using n by (rule upt_conv_Cons)
    moreover have "init_map ! unat (of_nat n :: u32) = of_nat (Suc n)"
      using n by (simp only: unat_small less_imp_le init_map_nth of_nat_Suc add.commute)
    ultimately show ?case using n by (simp only: list.map cmap_chain.simps client_nat unat_small less_imp_le)
  qed
  from this [OF le0] show ?thesis unfolding free_ids_def by simp
qed

lemma free_ids_set: "set free_ids = {..<XF_CFG_MAX_CLIENTS}" "distinct free_ids"
proof -
  show "set free_ids = {..<XF_CFG_MAX_CLIENTS}"
  proof (intro set_eqI iffI)
    fix x assume "x \<in> {..<XF_CFG_MAX_CLIENTS}"
    then have "unat x < 64" by (simp add: client_nat)
    moreover have "x = of_nat (unat x)" by simp
    ultimately show "x \<in> set free_ids" unfolding free_ids_def set_map set_upt by (metis atLeastLessThan_iff image_eqI le0)
  next
    fix x assume "x \<in> set free_ids"
    then obtain n where "n < 64" "x = of_nat n" unfolding free_ids_def set_map set_upt by auto
    then show "x \<in> {..<XF_CFG_MAX_CLIENTS}" by (simp add: client_nat unat_small)
  qed
  have "inj_on (of_nat :: nat \<Rightarrow> u32) {0 ..< 64}"
    by (rule inj_on_inverseI [where g = unat]) (simp add: unat_small)
  then show "distinct free_ids" unfolding free_ids_def distinct_map set_upt by simp
qed

lemma init_map_inv: "c_cmap cd = init_map \<Longrightarrow> c_free cd = 0 \<Longrightarrow> cmap_inv cd free_ids (\<lambda>_. None)"
proof -
  have "cmap_entry (init_map ! unat i) None" if "i < XF_CFG_MAX_CLIENTS" for i
  proof -
    have u: "unat i < 64" using that by (simp add: client_nat)
    have "unat (of_nat (unat i) + 1 :: u32) = Suc (unat i)" using u by (simp add: unat_word_ariths)
    then show ?thesis using u by (simp add: init_map_nth XF_CFG_MAX_CLIENTS_def word_le_nat_alt)
  qed
  then show "c_cmap cd = init_map \<Longrightarrow> c_free cd = 0 \<Longrightarrow> cmap_inv cd free_ids (\<lambda>_. None)"
    using init_chain free_ids_set by (simp add: cmap_inv_def init_map_nth)
qed

section \<open>Histories\<close>

text \<open>A history registers components and removes clients; the specification keeps the free ids in a
  list and the registered components in a map.\<close>

datatype client_op = Register addr | Unregister u32

fun client_exec :: "xf_core \<Rightarrow> client_op \<Rightarrow> (xf_core \<times> u32) option" where
  "client_exec cd (Register c) =
     (let (cd, i) = xf_client_alloc cd
      in if i = XF_CFG_MAX_CLIENTS then Some (cd, i) else map_option (\<lambda>cd. (cd, i)) (xf_client_set i c cd))"
| "client_exec cd (Unregister i) = map_option (\<lambda>cd. (cd, i)) (xf_client_free i cd)"

fun client_spec :: "u32 list \<times> (u32 \<Rightarrow> addr option) \<Rightarrow> client_op \<Rightarrow> (u32 list \<times> (u32 \<Rightarrow> addr option)) \<times> u32" where
  "client_spec (F, R) (Register c) =
     (case F of [] \<Rightarrow> ((F, R), XF_CFG_MAX_CLIENTS) | i # F \<Rightarrow> ((F, R(i \<mapsto> c)), i))"
| "client_spec (F, R) (Unregister i) = ((i # F, R(i := None)), i)"

fun client_runs :: "xf_core \<Rightarrow> client_op list \<Rightarrow> (xf_core \<times> u32 list) option" where
  "client_runs cd [] = Some (cd, [])"
| "client_runs cd (x # xs) =
     Option.bind (client_exec cd x) (\<lambda>(cd, r). map_option (\<lambda>(cd, rs). (cd, r # rs)) (client_runs cd xs))"

fun client_specs :: "u32 list \<times> (u32 \<Rightarrow> addr option) \<Rightarrow> client_op list \<Rightarrow> (u32 list \<times> (u32 \<Rightarrow> addr option)) \<times> u32 list" where
  "client_specs s [] = (s, [])"
| "client_specs s (x # xs) =
     (let (s, r) = client_spec s x; (s, rs) = client_specs s xs in (s, r # rs))"

text \<open>Components are addresses above the ids; only registered clients are removed.\<close>

fun client_ops_ok :: "u32 list \<times> (u32 \<Rightarrow> addr option) \<Rightarrow> client_op list \<Rightarrow> bool" where
  "client_ops_ok s [] \<longleftrightarrow> True"
| "client_ops_ok s (x # xs) \<longleftrightarrow>
     (case x of Register c \<Rightarrow> XF_CFG_MAX_CLIENTS < c | Unregister i \<Rightarrow> snd s i \<noteq> None) \<and>
     client_ops_ok (fst (client_spec s x)) xs"

lemma client_exec_spec:
  assumes I: "cmap_inv cd F R" and ok: "client_ops_ok (F, R) [x]"
  shows "\<exists>cd' F' R' r. client_exec cd x = Some (cd', r) \<and> client_spec (F, R) x = ((F', R'), r) \<and> cmap_inv cd' F' R'"
proof (cases x)
  case (Register c)
  show ?thesis
  proof (cases F)
    case Nil
    then show ?thesis using I Register cm.alloc_nil [of cd R] by simp
  next
    case (Cons i F1)
    with I have I1: "cmap_inv cd (i # F1) R" by simp
    from cm.register [OF I1, of c] ok Register obtain c1 c2 where
      "xf_client_alloc cd = (c1, i)" "xf_client_set i c c1 = Some c2" "cmap_inv c2 F1 (R(i \<mapsto> c))" by auto
    moreover have "i \<noteq> XF_CFG_MAX_CLIENTS" using cm.free_bound [OF I1] by auto
    ultimately show ?thesis using Register Cons by simp
  qed
next
  case (Unregister i)
  with ok obtain c where "R i = Some c" by auto
  from cm.unregister [OF I this] show ?thesis using Unregister by auto
qed

lemma client_runs_spec:
  assumes "cmap_inv cd F R" and "client_ops_ok (F, R) xs"
  shows "\<exists>cd' F' R' rs. client_runs cd xs = Some (cd', rs) \<and> client_specs (F, R) xs = ((F', R'), rs) \<and> cmap_inv cd' F' R'"
  using assms
proof (induction xs arbitrary: cd F R)
  case (Cons x xs)
  then obtain cd1 F1 R1 r where 1: "client_exec cd x = Some (cd1, r)" "client_spec (F, R) x = ((F1, R1), r)" "cmap_inv cd1 F1 R1"
    using client_exec_spec [of cd F R x] by auto
  with Cons.prems have "client_ops_ok (F1, R1) xs" by simp
  from Cons.IH [OF 1(3) this] 1 show ?case by auto
qed simp

end
