(* ===== verification/XF_Dispatch.thy ===== *)
theory XF_Dispatch
  imports XF_Clients
begin

text \<open>
  The dispatcher and the proxy: every command is answered exactly once, with the data the
  command asks for or with the general failure response, and the client map changes by
  registration and removal only.
\<close>

section \<open>Answers\<close>

text \<open>Where a completed message goes, and what a state looks like in which message m, having had the
  id i, is answered with opcode, length and buffer.\<close>

definition reply_queue :: "u32 \<Rightarrow> ipc_queue" where
  "reply_queue i = (if XF_MSG_SRC_PROXY i \<noteq> 0 then QRemote else QCore)"

definition answered :: "xf_core \<Rightarrow> addr list \<Rightarrow> (ipc_queue \<Rightarrow> addr list) \<Rightarrow> addr \<Rightarrow> u32 \<Rightarrow> u32 \<Rightarrow> u32 \<Rightarrow> addr \<Rightarrow> xf_core \<Rightarrow> bool" where
  "answered cd P L m i opc n b cd' \<longleftrightarrow>
     ipc_at cd' P (L(reply_queue i := L (reply_queue i) @ [m])) \<and>
     m_id (c_msgs cd' m) = msg_id_swap i \<and> m_opcode (c_msgs cd' m) = opc \<and> m_length (c_msgs cd' m) = n \<and>
     m_buffer (c_msgs cd' m) = b \<and> (\<forall>a. a \<noteq> m \<longrightarrow> msg_data (c_msgs cd' a) = msg_data (c_msgs cd a))"

definition msg_ready :: "xf_core \<Rightarrow> addr list \<Rightarrow> (ipc_queue \<Rightarrow> addr list) \<Rightarrow> addr \<Rightarrow> bool" where
  "msg_ready cd P L m \<longleftrightarrow>
     ipc_at cd P L \<and> m \<notin> ipc_set P L \<and> m \<noteq> 0 \<and> XF_MSG_SRC_CORE (m_id (c_msgs cd m)) = 0 \<and>
     XF_MSG_DST_CORE (m_id (c_msgs cd m)) = 0"

lemma complete_queue_core: "XF_MSG_DST_CORE i = 0 \<Longrightarrow> complete_queue i = reply_queue i"
  by (simp add: complete_queue_def reply_queue_def)

definition is_data :: "u32 \<Rightarrow> bool" where
  "is_data opc \<longleftrightarrow> opc = XF_EMPTY_THIS_BUFFER \<or> opc = XF_FILL_THIS_BUFFER"

lemma opcode_flip_id: "\<not> is_data opc \<Longrightarrow> xf_opcode_flip opc = opc"
  by (simp add: xf_opcode_flip_def is_data_def)

lemma opcode_nums: "XF_UNREGISTER = 0" "XF_REGISTER = 0x80000001" "XF_ALLOC = 4" "XF_FREE = 5" "XF_EMPTY_THIS_BUFFER = 0x80000008"
    "XF_FILL_THIS_BUFFER = 0x40000009" "XF_FLUSH = 10"
  by (simp_all add: opcode_defs XF_OPCODE_def)

lemma not_data [simp]: "\<not> is_data XF_UNREGISTER" "\<not> is_data XF_REGISTER" "\<not> is_data XF_ALLOC" "\<not> is_data XF_FREE"
  unfolding is_data_def opcode_nums by simp_all

lemma answeredI:
  assumes r: "msg_ready cd P L m" and k: "ipc_completed c1 P L m cd'" and i: "m_id (c_msgs c1 m) = i" "XF_MSG_DST_CORE i = 0"
    and o: "\<not> is_data (m_opcode (c_msgs c1 m))"
    and s: "\<And>a. a \<noteq> m \<Longrightarrow> msg_data (c_msgs c1 a) = msg_data (c_msgs cd a)"
  shows "answered cd P L m i (m_opcode (c_msgs c1 m)) (m_length (c_msgs c1 m)) (m_buffer (c_msgs c1 m)) cd'"
  using k i s opcode_flip_id [OF o] by (simp add: answered_def ipc_completed_def Let_def complete_queue_core)

lemma response_err_answered:
  assumes r: "msg_ready cd P L m"
  shows "\<exists>cd'. xf_response_err m cd = Some cd' \<and> ipc_frame cd cd' \<and>
    answered cd P L m (m_id (c_msgs cd m)) XF_UNREGISTER 0 (m_buffer (c_msgs cd m)) cd'"
proof -
  let ?c = "msg_upd m (\<lambda>x. x\<lparr>m_opcode := XF_UNREGISTER, m_length := 0\<rparr>) cd"
  from xf_response_at(4) [of cd P L m] r obtain cd' where
    c: "xf_response_err m cd = Some cd'" "ipc_completed ?c P L m cd'" by (auto simp: msg_ready_def)
  have "ipc_frame cd cd'" using c(2) ipc_frame_trans [of cd ?c cd'] by (simp add: ipc_completed_def Let_def)
  moreover have "XF_MSG_DST_CORE (m_id (c_msgs cd m)) = 0" using r by (simp add: msg_ready_def)
  ultimately show ?thesis using c answeredI [OF r c(2)] by simp
qed

lemma response_answered:
  assumes r: "msg_ready cd P L m" and o: "\<not> is_data (m_opcode (c_msgs cd m))"
  shows "\<exists>cd'. xf_response m cd = Some cd' \<and> ipc_frame cd cd' \<and>
    answered cd P L m (m_id (c_msgs cd m)) (m_opcode (c_msgs cd m)) (m_length (c_msgs cd m)) (m_buffer (c_msgs cd m)) cd'"
proof -
  from xf_response_at(1) [of cd P L m] r obtain cd' where
    c: "xf_response m cd = Some cd'" "ipc_completed cd P L m cd'" by (auto simp: msg_ready_def)
  have "ipc_frame cd cd'" using c(2) by (simp add: ipc_completed_def Let_def)
  moreover have "XF_MSG_DST_CORE (m_id (c_msgs cd m)) = 0" using r by (simp add: msg_ready_def)
  ultimately show ?thesis using c answeredI [OF r c(2) refl _ o] by simp
qed

lemma response_ok_answered:
  assumes r: "msg_ready cd P L m" and o: "\<not> is_data (m_opcode (c_msgs cd m))"
  shows "\<exists>cd'. xf_response_ok m cd = Some cd' \<and> ipc_frame cd cd' \<and>
    answered cd P L m (m_id (c_msgs cd m)) (m_opcode (c_msgs cd m)) 0 (m_buffer (c_msgs cd m)) cd'"
proof -
  let ?c = "msg_upd m (\<lambda>x. x\<lparr>m_length := 0\<rparr>) cd"
  from xf_response_at(2) [of cd P L m] r obtain cd' where
    c: "xf_response_ok m cd = Some cd'" "ipc_completed ?c P L m cd'" by (auto simp: msg_ready_def)
  have "ipc_frame cd cd'" using c(2) ipc_frame_trans [of cd ?c cd'] by (simp add: ipc_completed_def Let_def)
  moreover have "XF_MSG_DST_CORE (m_id (c_msgs cd m)) = 0" using r by (simp add: msg_ready_def)
  ultimately show ?thesis using c answeredI [OF r c(2)] o by simp
qed

lemma cmap_inv_frame: "ipc_frame cd cd' \<Longrightarrow> cmap_inv cd' F R = cmap_inv cd F R"
  by (rule cmap_inv_cong) (simp_all add: ipc_frame_fields)

section \<open>Registration\<close>

text \<open>What a class factory may do on a command in a state: allocate and initialise memory. It gives NULL or
  the address of a component.\<close>

definition factory_ok :: "'w xf_components \<Rightarrow> addr \<Rightarrow> u32 \<Rightarrow> xf_core \<Rightarrow> 'w \<Rightarrow> bool" where
  "factory_ok e b n cd w \<longleftrightarrow>
     (\<exists>h d ci w' c. f_factory e 0 b n cd w = Some (cd\<lparr>c_mem := h, c_data := d, c_comp_id := ci\<rparr>, w', c) \<and>
        (c = 0 \<or> XF_CFG_MAX_CLIENTS < c))"

lemma ipc_at_mem: "ipc_at (cd\<lparr>c_mem := h, c_data := d\<rparr>) P L = ipc_at cd P L"
    "ipc_at (cd\<lparr>c_cmap := cm\<rparr>) P L = ipc_at cd P L" "ipc_at (cd\<lparr>c_free := f\<rparr>) P L = ipc_at cd P L"
    "ipc_at (cd\<lparr>c_comp_id := ci\<rparr>) P L = ipc_at cd P L" "ipc_at (cd\<lparr>c_mem := h\<rparr>) P L = ipc_at cd P L"
    "ipc_at (cd\<lparr>c_cmap := cm, c_free := f\<rparr>) P L = ipc_at cd P L"
    "ipc_at (cd\<lparr>c_mem := h, c_data := d, c_comp_id := ci\<rparr>) P L = ipc_at cd P L"
proof -
  have "get_q k (cd\<lparr>c_mem := h, c_data := d, c_comp_id := ci\<rparr>) = get_q k cd" for k by (cases k; simp)
  moreover have "get_q k (cd\<lparr>c_mem := h, c_data := d\<rparr>) = get_q k cd" "get_q k (cd\<lparr>c_cmap := cm\<rparr>) = get_q k cd"
    "get_q k (cd\<lparr>c_free := f\<rparr>) = get_q k cd" "get_q k (cd\<lparr>c_comp_id := ci\<rparr>) = get_q k cd"
    "get_q k (cd\<lparr>c_mem := h\<rparr>) = get_q k cd" "get_q k (cd\<lparr>c_cmap := cm, c_free := f\<rparr>) = get_q k cd" for k
    by (cases k; simp)+
  ultimately show "ipc_at (cd\<lparr>c_mem := h, c_data := d\<rparr>) P L = ipc_at cd P L"
    "ipc_at (cd\<lparr>c_cmap := cm\<rparr>) P L = ipc_at cd P L" "ipc_at (cd\<lparr>c_free := f\<rparr>) P L = ipc_at cd P L"
    "ipc_at (cd\<lparr>c_comp_id := ci\<rparr>) P L = ipc_at cd P L" "ipc_at (cd\<lparr>c_mem := h\<rparr>) P L = ipc_at cd P L"
    "ipc_at (cd\<lparr>c_cmap := cm, c_free := f\<rparr>) P L = ipc_at cd P L"
    "ipc_at (cd\<lparr>c_mem := h, c_data := d, c_comp_id := ci\<rparr>) P L = ipc_at cd P L"
    by (simp_all add: ipc_at_def)
qed

text \<open>The id of the answer to a registration: from the new component to the requester.\<close>

definition registered_id :: "u32 \<Rightarrow> u32 \<Rightarrow> u32" where
  "registered_id client i = XF_MSG_ID (XF_MSG_SRC i) (XF_PORT_SPEC 0 client 0)"

lemma spec_fields_0: "client < XF_CFG_MAX_CLIENTS \<Longrightarrow> XF_PORT_CORE (XF_PORT_SPEC 0 client 0) = 0"
  using port_spec_fields(1) [of 0 client 0] by (simp add: XF_CFG_MAX_CLIENTS_def)

lemma src_and_mask: "XF_MSG_SRC i AND 0xFFFF = XF_MSG_SRC i"
  by (rule bit_word_eqI) (auto simp: XF_MSG_SRC_def bit_simps)

lemma src_fields:
  "XF_PORT_CORE (XF_MSG_SRC i) = XF_MSG_SRC_CORE i"
  "XF_MSG_SRC_PROXY (XF_MSG_ID (XF_MSG_SRC i) d) = XF_MSG_SRC_PROXY i"
proof -
  show "XF_PORT_CORE (XF_MSG_SRC i) = XF_MSG_SRC_CORE i" by (rule bit_word_eqI) (force simp: bit_simps field_defs)
  show "XF_MSG_SRC_PROXY (XF_MSG_ID (XF_MSG_SRC i) d) = XF_MSG_SRC_PROXY i"
    unfolding XF_MSG_SRC_PROXY_def drop_bit_and_1 by (simp add: XF_MSG_ID_def XF_MSG_SRC_def mask_take_bit bit_simps)
qed

lemma registered_id_fields:
  assumes "client < XF_CFG_MAX_CLIENTS"
  shows "XF_MSG_DST_CORE (registered_id client i) = 0" and "XF_MSG_SRC_CORE (registered_id client i) = XF_MSG_SRC_CORE i"
    and "reply_queue (registered_id client i) = reply_queue i"
  using spec_fields_0 [OF assms] by (simp_all add: registered_id_def src_fields reply_queue_def)

lemma register_done:
  assumes r: "msg_ready cd P L m" and o: "m_opcode (c_msgs cd m) = XF_REGISTER" and I: "cmap_inv cd F R"
    and i: "i < XF_CFG_MAX_CLIENTS" "i \<notin> set F" and c: "XF_CFG_MAX_CLIENTS < c"
  shows "\<exists>cd1 cd'. xf_client_set i c cd = Some cd1 \<and>
    xf_response_ok m (msg_upd m (\<lambda>x. x\<lparr>m_id := registered_id i (m_id (c_msgs cd m))\<rparr>)
       (cd1\<lparr>c_comp_id := (c_comp_id cd1)(c := XF_PORT_SPEC 0 i 0)\<rparr>)) = Some cd' \<and>
    cmap_inv cd' F (R(i \<mapsto> c)) \<and> c_comp_id cd' c = XF_PORT_SPEC 0 i 0 \<and>
    answered cd P L m (registered_id i (m_id (c_msgs cd m))) XF_REGISTER 0 (m_buffer (c_msgs cd m)) cd' \<and>
    c_mem cd' = c_mem cd"
proof -
  obtain cd1 where s: "xf_client_set i c cd = Some cd1" "cmap_inv cd1 F (R(i \<mapsto> c))"
    using cm.assign_law [OF I i c] by blast
  have cd1: "cd1 = cd\<lparr>c_cmap := (c_cmap cd)[unat i := c]\<rparr>" using s(1) i(1) by (simp add: xf_client_set_def)
  let ?j = "registered_id i (m_id (c_msgs cd m))"
  let ?c2 = "cd1\<lparr>c_comp_id := (c_comp_id cd1)(c := XF_PORT_SPEC 0 i 0)\<rparr>"
  let ?c3 = "msg_upd m (\<lambda>x. x\<lparr>m_id := ?j\<rparr>) ?c2"
  have id3: "c_msgs ?c3 = (c_msgs cd)(m := (c_msgs cd m)\<lparr>m_id := ?j\<rparr>)" by (simp add: cd1)
  have I2: "ipc_at ?c2 P L" using r unfolding cd1 by (simp add: ipc_at_mem msg_ready_def)
  have r3: "msg_ready ?c3 P L m"
    using r ipc_at_msg_upd [OF I2, of "\<lambda>x. x\<lparr>m_id := ?j\<rparr>" m] registered_id_fields [OF i(1)]
    by (simp add: msg_ready_def)
  have "\<not> is_data (m_opcode (c_msgs ?c3 m))" using o unfolding id3 by simp
  from response_ok_answered [OF r3 this] obtain cd' where
    c': "xf_response_ok m ?c3 = Some cd'" "ipc_frame ?c3 cd'"
      "answered ?c3 P L m ?j XF_REGISTER 0 (m_buffer (c_msgs cd m)) cd'" using o unfolding id3 by auto
  have "cmap_inv ?c3 F (R(i \<mapsto> c))" using s(2) by (simp add: cmap_inv_def msg_upd_def)
  then have "cmap_inv cd' F (R(i \<mapsto> c))" using cmap_inv_frame [OF c'(2)] by simp
  moreover have "c_comp_id cd' c = XF_PORT_SPEC 0 i 0" using ipc_frame_fields(3) [OF c'(2)] by (simp add: msg_upd_def)
  moreover have "answered cd P L m ?j XF_REGISTER 0 (m_buffer (c_msgs cd m)) cd'"
    using c'(3) unfolding id3 answered_def by auto
  moreover have "c_mem cd' = c_mem cd" using ipc_frame_fields [OF c'(2)] by (simp add: cd1 msg_upd_def)
  ultimately show ?thesis using s(1) c'(1) by blast
qed

text \<open>Without a component the id goes back and the proxy is told.\<close>

lemma register_failed:
  assumes r: "msg_ready cd P L m" and I: "cmap_inv cd F R" and i: "i < XF_CFG_MAX_CLIENTS" "i \<notin> set F" "R i = None"
  shows "\<exists>cd1 cd'. xf_client_free i cd = Some cd1 \<and> xf_response_err m cd1 = Some cd' \<and> cmap_inv cd' (i # F) R \<and>
    answered cd P L m (m_id (c_msgs cd m)) XF_UNREGISTER 0 (m_buffer (c_msgs cd m)) cd' \<and> c_mem cd' = c_mem cd"
proof -
  obtain c3 where c3: "xf_client_free i cd = Some c3" "cmap_inv c3 (i # F) (R(i := None))"
    using cm.release_law [OF I i(1,2)] by blast
  have R: "R(i := None) = R" using i(3) by auto
  have e3: "c3 = cd\<lparr>c_cmap := c_cmap c3, c_free := c_free c3\<rparr>"
    using c3(1) by (auto simp: xf_client_free_def xf_client_set_def split: if_splits)
  have m3: "c_msgs c3 = c_msgs cd" by (subst e3) simp
  have "ipc_at cd P L" using r by (simp add: msg_ready_def)
  then have "ipc_at c3 P L" by (subst e3) (rule ipc_at_mem(6) [THEN iffD2])
  then have "msg_ready c3 P L m" using r m3 by (simp add: msg_ready_def)
  from response_err_answered [OF this] obtain cd' where "xf_response_err m c3 = Some cd'" "ipc_frame c3 cd'"
    "answered c3 P L m (m_id (c_msgs c3 m)) XF_UNREGISTER 0 (m_buffer (c_msgs c3 m)) cd'" by blast
  moreover have "c_mem c3 = c_mem cd" by (subst e3) simp
  ultimately show ?thesis using c3 m3 cmap_inv_frame [of c3 cd'] ipc_frame_fields [of c3 cd'] by (auto simp: R answered_def)
qed

lemma proxy_register_spec:
  assumes r: "msg_ready cd P L m" and o: "m_opcode (c_msgs cd m) = XF_REGISTER" and I: "cmap_inv cd F R"
    and e: "factory_ok e (m_buffer (c_msgs cd m)) (m_length (c_msgs cd m)) (fst (xf_client_alloc cd)) w"
  shows "\<exists>cd' w' c. xf_proxy_command al e 0 m cd w = Some (cd', w') \<and>
    (if F = [] then w' = w \<and> c_mem cd' = c_mem cd
     else \<exists>cd2. f_factory e 0 (m_buffer (c_msgs cd m)) (m_length (c_msgs cd m)) (fst (xf_client_alloc cd)) w = Some (cd2, w', c) \<and>
       c_mem cd' = c_mem cd2) \<and>
    (if F = [] \<or> c = 0 then
       cmap_inv cd' F R \<and> answered cd P L m (m_id (c_msgs cd m)) XF_UNREGISTER 0 (m_buffer (c_msgs cd m)) cd'
     else
       cmap_inv cd' (tl F) (R(hd F \<mapsto> c)) \<and> xf_client_lookup cd' (hd F) = Some c \<and>
       c_comp_id cd' c = XF_PORT_SPEC 0 (hd F) 0 \<and>
       answered cd P L m (registered_id (hd F) (m_id (c_msgs cd m))) XF_REGISTER 0 (m_buffer (c_msgs cd m)) cd')"
proof -
  have t: "XF_OPCODE_TYPE (m_opcode (c_msgs cd m)) = 1" "xf_proxy_cmd al e 1 = Some (xf_proxy_register e)" "(1 :: u32) < XF_PROXY_CMD_NUM"
    unfolding o by (simp_all add: xf_proxy_cmd_def XF_REGISTER_def opcode_type XF_PROXY_CMD_NUM_def)
  show ?thesis
  proof (cases F)
    case Nil
    then have "xf_client_alloc cd = (cd, XF_CFG_MAX_CLIENTS)" using I cm.alloc_nil by simp
    then have "xf_proxy_register e 0 m cd w = Some (cd, w, Inl EBUSY)" by (simp add: xf_proxy_register_def)
    moreover obtain cd' where "xf_response_err m cd = Some cd'" "ipc_frame cd cd'"
      "answered cd P L m (m_id (c_msgs cd m)) XF_UNREGISTER 0 (m_buffer (c_msgs cd m)) cd'" using response_err_answered [OF r] by blast
    ultimately show ?thesis
      using t I Nil cmap_inv_frame [of cd cd'] ipc_frame_fields [of cd cd'] by (auto simp: xf_proxy_command_def)
  next
    case (Cons i F1)
    then have I': "cmap_inv cd (i # F1) R" using I by simp
    obtain c1 where a: "xf_client_alloc cd = (c1, i)" "cmap_inv c1 F1 R" using cm.alloc_law [OF I'] by blast
    have i: "i < XF_CFG_MAX_CLIENTS" "i \<noteq> XF_CFG_MAX_CLIENTS" "i \<notin> set F1" "R i = None" using cm.free_bound [OF I'] by auto
    have c1: "c1 = cd\<lparr>c_free := c_free c1\<rparr>" using a(1) by (auto simp: xf_client_alloc_def Let_def split: if_splits)
    have m1: "c_msgs c1 = c_msgs cd" by (subst c1) simp
    obtain h d ci w' c where f: "f_factory e 0 (m_buffer (c_msgs cd m)) (m_length (c_msgs cd m)) c1 w =
        Some (c1\<lparr>c_mem := h, c_data := d, c_comp_id := ci\<rparr>, w', c)" and cb: "c = 0 \<or> XF_CFG_MAX_CLIENTS < c"
      using e a(1) unfolding factory_ok_def by auto
    let ?c2 = "c1\<lparr>c_mem := h, c_data := d, c_comp_id := ci\<rparr>"
    have m2: "c_msgs ?c2 = c_msgs cd" using m1 by simp
    have I2: "cmap_inv ?c2 F1 R" using a(2) by (simp add: cmap_inv_def)
    have "ipc_at ?c2 P L" using r unfolding ipc_at_mem(7) by (subst c1) (simp add: ipc_at_mem msg_ready_def)
    then have r2: "msg_ready ?c2 P L m" using r m2 by (simp add: msg_ready_def)
    have ans: "answered ?c2 P L m = answered cd P L m" using m2 by (simp add: answered_def fun_eq_iff)
    show ?thesis
    proof (cases "c = 0")
      case True
      from register_failed [OF r2 I2 i(1,3,4)] obtain c3 cd' where c3: "xf_client_free i ?c2 = Some c3"
        "xf_response_err m c3 = Some cd'" "cmap_inv cd' (i # F1) R"
        "answered cd P L m (m_id (c_msgs cd m)) XF_UNREGISTER 0 (m_buffer (c_msgs cd m)) cd'" "c_mem cd' = h" unfolding m2 ans by auto
      have "xf_proxy_register e 0 m cd w = Some (c3, w', Inl ENOMEM)"
        using a(1) i(2) f True c3(1) m1 by (simp add: xf_proxy_register_def)
      then show ?thesis using t c3(2-5) f True Cons a(1) by (simp add: xf_proxy_command_def)
    next
      case False
      with cb have cg: "XF_CFG_MAX_CLIENTS < c" by simp
      from register_done [OF r2 _ I2 i(1,3) cg] o m2 obtain c3 cd' where
        d: "xf_client_set i c ?c2 = Some c3" "xf_response_ok m (msg_upd m (\<lambda>x. x\<lparr>m_id := registered_id i (m_id (c_msgs cd m))\<rparr>)
            (c3\<lparr>c_comp_id := (c_comp_id c3)(c := XF_PORT_SPEC 0 i 0)\<rparr>)) = Some cd'"
          "cmap_inv cd' F1 (R(i \<mapsto> c))" "c_comp_id cd' c = XF_PORT_SPEC 0 i 0"
          "answered cd P L m (registered_id i (m_id (c_msgs cd m))) XF_REGISTER 0 (m_buffer (c_msgs cd m)) cd'" "c_mem cd' = h" unfolding ans by auto
      have "xf_proxy_register e 0 m cd w = Some (cd', w', Inr ())"
        using a(1) i(2) f False d(1,2) m1 by (simp add: xf_proxy_register_def registered_id_def Let_def)
      then show ?thesis using t f False Cons a(1) d(3-6) cm.registered_lookup [OF d(3)] by (simp add: xf_proxy_command_def)
    qed
  qed
qed

text \<open>a registration command is always answered. Without a free client id, or when the factory gives
  no component, the answer is the failure response and the client map is as before; otherwise the
  component gets the first free id, is found under it, and the answer comes from the new client.\<close>

theorem proxy_register_correct:
  assumes r: "msg_ready cd P L m" and o: "m_opcode (c_msgs cd m) = XF_REGISTER" and I: "cmap_inv cd F R"
    and e: "factory_ok e (m_buffer (c_msgs cd m)) (m_length (c_msgs cd m)) (fst (xf_client_alloc cd)) w"
  shows "\<exists>cd' w' c. xf_proxy_command al e 0 m cd w = Some (cd', w') \<and>
    (F \<noteq> [] \<longrightarrow> (\<exists>cd2. f_factory e 0 (m_buffer (c_msgs cd m)) (m_length (c_msgs cd m)) (fst (xf_client_alloc cd)) w = Some (cd2, w', c))) \<and>
    (if F = [] \<or> c = 0 then
       cmap_inv cd' F R \<and> answered cd P L m (m_id (c_msgs cd m)) XF_UNREGISTER 0 (m_buffer (c_msgs cd m)) cd'
     else
       cmap_inv cd' (tl F) (R(hd F \<mapsto> c)) \<and> xf_client_lookup cd' (hd F) = Some c \<and>
       c_comp_id cd' c = XF_PORT_SPEC 0 (hd F) 0 \<and>
       answered cd P L m (registered_id (hd F) (m_id (c_msgs cd m))) XF_REGISTER 0 (m_buffer (c_msgs cd m)) cd')"
proof -
  from proxy_register_spec [OF assms, of al] obtain cd' w' c where r: "xf_proxy_command al e 0 m cd w = Some (cd', w')"
    "if F = [] then w' = w \<and> c_mem cd' = c_mem cd
     else \<exists>cd2. f_factory e 0 (m_buffer (c_msgs cd m)) (m_length (c_msgs cd m)) (fst (xf_client_alloc cd)) w = Some (cd2, w', c) \<and>
       c_mem cd' = c_mem cd2"
    "if F = [] \<or> c = 0 then
       cmap_inv cd' F R \<and> answered cd P L m (m_id (c_msgs cd m)) XF_UNREGISTER 0 (m_buffer (c_msgs cd m)) cd'
     else
       cmap_inv cd' (tl F) (R(hd F \<mapsto> c)) \<and> xf_client_lookup cd' (hd F) = Some c \<and>
       c_comp_id cd' c = XF_PORT_SPEC 0 (hd F) 0 \<and>
       answered cd P L m (registered_id (hd F) (m_id (c_msgs cd m))) XF_REGISTER 0 (m_buffer (c_msgs cd m)) cd'" by blast
  then show ?thesis by (intro exI [of _ cd'] exI [of _ w'] exI [of _ c]) auto
qed

section \<open>The other proxy commands\<close>

lemma opcode_types: "XF_OPCODE_TYPE XF_REGISTER = 1" "XF_OPCODE_TYPE XF_ALLOC = 4" "XF_OPCODE_TYPE XF_FREE = 5"
    "XF_OPCODE_TYPE XF_FILL_THIS_BUFFER = 9" "XF_OPCODE_TYPE XF_FLUSH = 10"
  by (simp_all add: XF_REGISTER_def XF_ALLOC_def XF_FREE_def XF_FILL_THIS_BUFFER_def XF_FLUSH_def opcode_type)

lemmas proxy_cmd = xf_proxy_cmd_def opcode_types

text \<open>C21: a command the proxy does not know (an opcode beyond the table), or knows but does not serve
  (buffers and flushes without remote tracing), is answered with the failure response; but an
  opcode below the end of the table that has no entry there makes the proxy call a null pointer.\<close>

theorem proxy_command_rejects:
  assumes r: "msg_ready cd P L m" and t: "t = XF_OPCODE_TYPE (m_opcode (c_msgs cd m))" and s: "t \<notin> {1, 4, 5}"
  shows "if t \<in> {0, 2, 3, 6, 7, 8} then xf_proxy_command al e 0 m cd w = None
    else \<exists>cd'. xf_proxy_command al e 0 m cd w = Some (cd', w) \<and> ipc_frame cd cd' \<and>
           answered cd P L m (m_id (c_msgs cd m)) XF_UNREGISTER 0 (m_buffer (c_msgs cd m)) cd'"
proof (cases "t \<in> {0, 2, 3, 6, 7, 8}")
  case True
  then show ?thesis unfolding xf_proxy_command_def t [symmetric] by (auto simp: proxy_cmd XF_PROXY_CMD_NUM_def)
next
  case False
  obtain cd' where c: "xf_response_err m cd = Some cd'" "ipc_frame cd cd'"
    "answered cd P L m (m_id (c_msgs cd m)) XF_UNREGISTER 0 (m_buffer (c_msgs cd m)) cd'"
    using response_err_answered [OF r] by blast
  have "xf_proxy_command al e 0 m cd w = Some (cd', w)"
  proof (cases "t < XF_PROXY_CMD_NUM")
    case lt: True
    have "t = 9 \<or> t = 10"
    proof -
      have u: "unat t < 11" using lt by (simp add: XF_PROXY_CMD_NUM_def word_less_nat_alt)
      then show ?thesis using False s by (simp add: word_unat_eq_iff) arith
    qed
    then show ?thesis
      unfolding xf_proxy_command_def t [symmetric]
      by (auto simp: proxy_cmd XF_PROXY_CMD_NUM_def xf_proxy_output_def xf_proxy_flush_def c(1))
  next
    case ge: False
    then show ?thesis unfolding xf_proxy_command_def t [symmetric] by (simp add: c(1))
  qed
  with c False show ?thesis by auto
qed

lemma proxy_alloc_answered:
  assumes r: "msg_ready cd P L m" and o: "m_opcode (c_msgs cd m) = XF_ALLOC"
    and I: "mm_free_set lo hi (c_shared_pool cd) (c_mem cd) F" and lo: "0 < lo"
    and sz: "sz = XF_ALIGNED al (m_length (c_msgs cd m))" "mm_size_ok sz"
  shows "\<exists>cd' b. xf_proxy_command al e 0 m cd w = Some (cd', w) \<and>
    answered cd P L m (m_id (c_msgs cd m)) XF_ALLOC (m_length (c_msgs cd m)) b cd' \<and> c_shared_pool cd' = c_shared_pool cd \<and>
    (if b = 0 then \<not> (\<exists>x. {x ..< x + unat sz} \<subseteq> F) \<and> c_mem cd' = c_mem cd
     else 32 dvd unat b \<and> span b sz \<subseteq> F \<and> mm_free_set lo hi (c_shared_pool cd) (c_mem cd') (F - span b sz))"
proof -
  have a: "\<exists>h b. xf_mm_alloc (c_shared_pool cd) (c_mem cd) sz = Some (h, if b = 0 then None else Some b) \<and>
    (if b = 0 then \<not> (\<exists>x. {x ..< x + unat sz} \<subseteq> F) \<and> h = c_mem cd
     else 32 dvd unat b \<and> span b sz \<subseteq> F \<and> mm_free_set lo hi (c_shared_pool cd) h (F - span b sz))"
    using mm.alloc_law [OF I sz(2)]
  proof (elim disjE exE conjE)
    fix h b assume a: "xf_mm_alloc (c_shared_pool cd) (c_mem cd) sz = Some (h, Some b)" "32 dvd unat b" "span b sz \<subseteq> F"
      "mm_free_set lo hi (c_shared_pool cd) h (F - span b sz)"
    have "unat b \<in> F" using a(3) sz(2) by auto
    then have "b \<noteq> 0" using mm.inv_range [OF I] lo by auto
    with a show ?thesis by (intro exI [of _ h] exI [of _ b]) simp
  qed (intro exI [of _ "c_mem cd"] exI [of _ 0], simp)
  then obtain h b where a: "xf_mm_alloc (c_shared_pool cd) (c_mem cd) sz = Some (h, if b = 0 then None else Some b)"
    "if b = 0 then \<not> (\<exists>x. {x ..< x + unat sz} \<subseteq> F) \<and> h = c_mem cd
     else 32 dvd unat b \<and> span b sz \<subseteq> F \<and> mm_free_set lo hi (c_shared_pool cd) h (F - span b sz)" by blast
  let ?c = "msg_upd m (\<lambda>x. x\<lparr>m_buffer := b\<rparr>) (cd\<lparr>c_mem := h\<rparr>)"
  have al: "\<exists>r. xf_shmem_alloc al 0 m cd = Some (?c, r)"
    using a(1) by (simp add: xf_shmem_alloc_def sz(1) [symmetric] Let_def)
  have I1: "ipc_at (cd\<lparr>c_mem := h\<rparr>) P L" using r by (simp add: msg_ready_def ipc_at_mem)
  have rc: "msg_ready ?c P L m" using r ipc_at_msg_upd [OF I1, of "\<lambda>x. x\<lparr>m_buffer := b\<rparr>" m] by (simp add: msg_ready_def)
  obtain cd' where c: "xf_response m ?c = Some cd'" "ipc_frame ?c cd'"
    "answered ?c P L m (m_id (c_msgs ?c m)) (m_opcode (c_msgs ?c m)) (m_length (c_msgs ?c m)) (m_buffer (c_msgs ?c m)) cd'"
    using response_answered [OF rc] o by auto
  have "xf_proxy_command al e 0 m cd w = Some (cd', w)"
    using al c(1) o by (auto simp: xf_proxy_command_def proxy_cmd XF_PROXY_CMD_NUM_def xf_proxy_alloc_def xf_shmem_enabled_def)
  moreover have "answered cd P L m (m_id (c_msgs cd m)) XF_ALLOC (m_length (c_msgs cd m)) b cd'"
    using c(3) o by (auto simp: answered_def)
  moreover have "c_mem cd' = h" "c_shared_pool cd' = c_shared_pool cd"
    using ipc_frame_fields(1,8) [OF c(2)] by (simp_all add: msg_upd_def)
  ultimately show ?thesis using a(2) by metis
qed

lemma proxy_free_answered:
  assumes r: "msg_ready cd P L m" and o: "m_opcode (c_msgs cd m) = XF_FREE"
    and I: "mm_free_set lo hi (c_shared_pool cd) (c_mem cd) F"
    and sz: "sz = XF_ALIGNED al (m_length (c_msgs cd m))" "mm_size_ok sz"
    and b: "b = m_buffer (c_msgs cd m)" "32 dvd unat b" "span b sz \<subseteq> {lo ..< hi}" "span b sz \<inter> F = {}"
  shows "\<exists>cd'. xf_proxy_command al e 0 m cd w = Some (cd', w) \<and>
    answered cd P L m (m_id (c_msgs cd m)) XF_FREE (m_length (c_msgs cd m)) b cd' \<and>
    mm_free_set lo hi (c_shared_pool cd) (c_mem cd') (F \<union> span b sz)"
proof -
  obtain h where h: "xf_mm_free (c_shared_pool cd) (c_mem cd) b sz = Some h" "mm_free_set lo hi (c_shared_pool cd) h (F \<union> span b sz)"
    using mm.release_law [OF I sz(2) b(2,3,4)] by blast
  let ?c = "cd\<lparr>c_mem := h\<rparr>"
  have fr: "xf_shmem_free al 0 m cd = Some ?c" using h(1) by (simp add: xf_shmem_free_def sz(1) b(1))
  have rc: "msg_ready ?c P L m" using r by (simp add: msg_ready_def ipc_at_mem)
  obtain cd' where c: "xf_response m ?c = Some cd'" "ipc_frame ?c cd'"
    "answered ?c P L m (m_id (c_msgs ?c m)) (m_opcode (c_msgs ?c m)) (m_length (c_msgs ?c m)) (m_buffer (c_msgs ?c m)) cd'"
    using response_answered [OF rc] o by auto
  have "xf_proxy_command al e 0 m cd w = Some (cd', w)"
    using fr c(1) o by (auto simp: xf_proxy_command_def proxy_cmd XF_PROXY_CMD_NUM_def xf_proxy_free_def xf_shmem_enabled_def)
  moreover have "answered cd P L m (m_id (c_msgs cd m)) XF_FREE (m_length (c_msgs cd m)) b cd'"
    using c(3) o b(1) by (simp add: answered_def)
  moreover have "c_mem cd' = h" using ipc_frame_fields(1) [OF c(2)] by simp
  ultimately show ?thesis using h(2) by metis
qed

text \<open>C20: shared buffers: an allocation command is answered with NULL only when no range of that length
  is free, else with free memory that is then no longer free; and a later release command with the
  same buffer and length gives exactly that memory back.\<close>

theorem proxy_buffer_round_trip:
  assumes r: "msg_ready cd P L m" and o: "m_opcode (c_msgs cd m) = XF_ALLOC"
    and I: "mm_free_set lo hi (c_shared_pool cd) (c_mem cd) F" and lo: "0 < lo"
    and sz: "sz = XF_ALIGNED al (m_length (c_msgs cd m))" "mm_size_ok sz"
  shows "\<exists>cd' b. xf_proxy_command al e 0 m cd w = Some (cd', w) \<and>
    answered cd P L m (m_id (c_msgs cd m)) XF_ALLOC (m_length (c_msgs cd m)) b cd' \<and>
    (b = 0 \<longrightarrow> \<not> (\<exists>x. {x ..< x + unat sz} \<subseteq> F) \<and> c_mem cd' = c_mem cd) \<and>
    (b \<noteq> 0 \<longrightarrow> span b sz \<subseteq> F \<and> mm_free_set lo hi (c_shared_pool cd) (c_mem cd') (F - span b sz) \<and>
      (\<forall>c1 P1 L1 m1 w1. msg_ready c1 P1 L1 m1 \<and> c_mem c1 = c_mem cd' \<and> c_shared_pool c1 = c_shared_pool cd \<and>
         m_opcode (c_msgs c1 m1) = XF_FREE \<and> m_buffer (c_msgs c1 m1) = b \<and> m_length (c_msgs c1 m1) = m_length (c_msgs cd m) \<longrightarrow>
         (\<exists>c2. xf_proxy_command al e 0 m1 c1 w1 = Some (c2, w1) \<and> mm_free_set lo hi (c_shared_pool cd) (c_mem c2) F)))"
proof -
  from proxy_alloc_answered [OF assms, of e w] obtain cd' b where
    a: "xf_proxy_command al e 0 m cd w = Some (cd', w)"
      "answered cd P L m (m_id (c_msgs cd m)) XF_ALLOC (m_length (c_msgs cd m)) b cd'"
      "if b = 0 then \<not> (\<exists>x. {x ..< x + unat sz} \<subseteq> F) \<and> c_mem cd' = c_mem cd
       else 32 dvd unat b \<and> span b sz \<subseteq> F \<and> mm_free_set lo hi (c_shared_pool cd) (c_mem cd') (F - span b sz)" by blast
  have "\<exists>c2. xf_proxy_command al e 0 m1 c1 w1 = Some (c2, w1) \<and> mm_free_set lo hi (c_shared_pool cd) (c_mem c2) F"
    if b: "b \<noteq> 0" and c1: "msg_ready c1 P1 L1 m1" "c_mem c1 = c_mem cd'" "c_shared_pool c1 = c_shared_pool cd"
      "m_opcode (c_msgs c1 m1) = XF_FREE" "m_buffer (c_msgs c1 m1) = b" "m_length (c_msgs c1 m1) = m_length (c_msgs cd m)"
    for c1 P1 L1 m1 w1
  proof -
    have p: "32 dvd unat b" "span b sz \<subseteq> F" "mm_free_set lo hi (c_shared_pool c1) (c_mem c1) (F - span b sz)"
      using a(3) b c1(2,3) by auto
    have i: "span b sz \<subseteq> {lo ..< hi}" using p(2) mm.inv_range [OF I] by (rule order_trans)
    have d: "span b sz \<inter> (F - span b sz) = {}" by blast
    have u: "F - span b sz \<union> span b sz = F" using p(2) by blast
    from proxy_free_answered [OF c1(1,4) p(3) _ sz(2) c1(5) [symmetric] p(1) i d, of al e w1, unfolded u] c1(3,6) sz(1)
    show ?thesis by auto
  qed
  with a show ?thesis by (intro exI [of _ cd'] exI [of _ b]) auto
qed

section \<open>Examples\<close>

text \<open>A component class that creates one component and gives it up at the first message.\<close>

definition comp_demo :: "unit xf_components" where
  "comp_demo = \<lparr>f_factory = (\<lambda>core b n cd w. Some (cd, w, 8192)),
     f_entry = (\<lambda>c m cd w. Some (cd, w, -1)), f_exit = (\<lambda>c m cd w. Some (cd, w, 0))\<rparr>"

lemma comp_demo_factory: "factory_ok comp_demo b n cd w"
proof -
  have "\<exists>h d ci. cd = cd\<lparr>c_mem := h, c_data := d, c_comp_id := ci\<rparr>"
    by (intro exI [of _ "c_mem cd"] exI [of _ "c_data cd"] exI [of _ "c_comp_id cd"]) simp
  then show ?thesis by (auto simp: factory_ok_def comp_demo_def XF_CFG_MAX_CLIENTS_def)
qed

text \<open>A core with one command in hand, from the proxy of the host.\<close>

definition cmd_demo :: "u32 \<Rightarrow> u32 \<Rightarrow> u32 \<Rightarrow> xf_core" where
  "cmd_demo i opc n = core_demo\<lparr>c_msgs := msg_demo(96 := (msg_demo 96)\<lparr>m_id := i, m_opcode := opc, m_length := n\<rparr>)\<rparr>"

lemma cmd_demo_msg: "m_id (c_msgs (cmd_demo i opc n) 96) = i" "m_opcode (c_msgs (cmd_demo i opc n) 96) = opc"
    "m_length (c_msgs (cmd_demo i opc n) 96) = n" "m_buffer (c_msgs (cmd_demo i opc n) 96) = 0"
  by (simp_all add: cmd_demo_def msg_demo_def)

lemma demo_ids: "XF_MSG_SRC_CORE 0x80008000 = 0" "XF_MSG_DST_CORE 0x80008000 = 0" "XF_MSG_SRC_CORE 0x8000 = 0" "XF_MSG_DST_CORE 0x8000 = 0"
    "XF_MSG_DST_PROXY 0x8000 = 0" "XF_MSG_SRC_PROXY 0x8000 = 1"
    "XF_MSG_SRC_PROXY 0x80008000 = 1"
  by (simp_all add: XF_MSG_SRC_CORE_def XF_MSG_DST_CORE_def XF_MSG_DST_PROXY_def XF_MSG_SRC_PROXY_def)

lemma cmd_demo_ipc: "ipc_at (cmd_demo i opc n) [] (\<lambda>_. [])"
proof -
  have "queue_at (c_msgs (cmd_demo i opc n)) (get_q k (cmd_demo i opc n)) []" for k
    by (cases k) (simp_all add: cmd_demo_def core_demo_def queue_at_def)
  moreover have "pool_at (c_msgs (cmd_demo i opc n)) (ro_pool (cmd_demo i opc n)) []"
    by (simp add: pool_at_def cmd_demo_def core_demo_def)
  ultimately show ?thesis by (auto simp: ipc_at_def)
qed

lemma cmd_demo_ready:
  assumes "i = 0x80008000 \<or> i = 0x8000"
  shows "msg_ready (cmd_demo i opc n) [] (\<lambda>_. []) 96"
  using assms demo_ids cmd_demo_ipc by (auto simp: msg_ready_def ipc_set_def cmd_demo_msg)

text \<open>C10: \<open>xf_msg_complete\<close> sends a message back: it returns, the message is the last one of the queue of its sender
  (the queue to the host for a proxy, else the queue of the core), source and destination of its id are
  exchanged, so a message that came from a port goes to that client and port, and EMPTY and FILL are exchanged
  unless a proxy gets it. Completing it again, from any later state in which the message is out of the queues
  with its id and opcode unchanged, restores the id, puts it in the queue of the original destination, and restores the
  opcode when both ends or none is a proxy.\<close>

theorem msg_completion_round_trip:
  assumes I: "ipc_at cd P L" "m \<notin> ipc_set P L" "m \<noteq> 0" and i: "m_id (c_msgs cd m) = i"
    and c: "XF_MSG_SRC_CORE i = 0" "XF_MSG_DST_CORE i = 0"
  shows "\<exists>cd1. xf_msg_complete m cd = Some cd1 \<and>
    (let k = (if XF_MSG_SRC_PROXY i \<noteq> 0 then QRemote else QCore) in ipc_at cd1 P (L(k := L k @ [m]))) \<and>
    XF_MSG_SRC (m_id (c_msgs cd1 m)) = XF_MSG_DST i \<and> XF_MSG_DST (m_id (c_msgs cd1 m)) = XF_MSG_SRC i \<and>
    (\<forall>client<64. \<forall>port<16. XF_MSG_SRC i = XF_PORT_SPEC 0 client port \<longrightarrow>
       XF_MSG_DST_CLIENT (m_id (c_msgs cd1 m)) = client \<and> XF_MSG_DST_PORT (m_id (c_msgs cd1 m)) = port) \<and>
    m_opcode (c_msgs cd1 m) = (if XF_MSG_SRC_PROXY i \<noteq> 0 then m_opcode (c_msgs cd m) else xf_opcode_flip (m_opcode (c_msgs cd m))) \<and>
    m_length (c_msgs cd1 m) = m_length (c_msgs cd m) \<and> m_buffer (c_msgs cd1 m) = m_buffer (c_msgs cd m) \<and>
    (\<forall>cd2 P2 L2. ipc_at cd2 P2 L2 \<longrightarrow> m \<notin> ipc_set P2 L2 \<longrightarrow> m_id (c_msgs cd2 m) = m_id (c_msgs cd1 m) \<longrightarrow>
       m_opcode (c_msgs cd2 m) = m_opcode (c_msgs cd1 m) \<longrightarrow>
       (\<exists>cd3. xf_msg_complete m cd2 = Some cd3 \<and> m_id (c_msgs cd3 m) = i \<and>
          (let k = (if XF_MSG_DST_PROXY i \<noteq> 0 then QRemote else QCore) in ipc_at cd3 P2 (L2(k := L2 k @ [m]))) \<and>
          ((XF_MSG_SRC_PROXY i \<noteq> 0) = (XF_MSG_DST_PROXY i \<noteq> 0) \<longrightarrow> m_opcode (c_msgs cd3 m) = m_opcode (c_msgs cd m))))"
proof -
  from xf_msg_complete_at [OF I] c i obtain cd1 where 1: "xf_msg_complete m cd = Some cd1" "ipc_completed cd P L m cd1" by auto
  have id1: "m_id (c_msgs cd1 m) = msg_id_swap i" using 1(2) i by (simp add: ipc_completed_def Let_def)
  have op: "m_opcode (c_msgs cd1 m) = (if XF_MSG_SRC_PROXY i \<noteq> 0 then m_opcode (c_msgs cd m) else xf_opcode_flip (m_opcode (c_msgs cd m)))"
    and lb: "m_length (c_msgs cd1 m) = m_length (c_msgs cd m)" "m_buffer (c_msgs cd1 m) = m_buffer (c_msgs cd m)"
    using 1(2) i by (simp_all add: ipc_completed_def Let_def)
  have port: "XF_MSG_DST_CLIENT (msg_id_swap i) = client \<and> XF_MSG_DST_PORT (msg_id_swap i) = port"
    if "client < 64" "port < 16" "XF_MSG_SRC i = XF_PORT_SPEC 0 client port" for client port
    using port_spec_fields [of 0 client port] that by (simp add: msg_id_swap_def)
  have flip: "xf_opcode_flip (xf_opcode_flip opc) = opc" for opc by (simp add: xf_opcode_flip_def)
  have again: "\<exists>cd3. xf_msg_complete m cd2 = Some cd3 \<and> m_id (c_msgs cd3 m) = i \<and>
      ipc_at cd3 P2 (L2((if XF_MSG_DST_PROXY i \<noteq> 0 then QRemote else QCore) := L2 (if XF_MSG_DST_PROXY i \<noteq> 0 then QRemote else QCore) @ [m])) \<and>
      ((XF_MSG_SRC_PROXY i \<noteq> 0) = (XF_MSG_DST_PROXY i \<noteq> 0) \<longrightarrow> m_opcode (c_msgs cd3 m) = m_opcode (c_msgs cd m))"
    if J: "ipc_at cd2 P2 L2" "m \<notin> ipc_set P2 L2" and d: "m_id (c_msgs cd2 m) = m_id (c_msgs cd1 m)" and op2: "m_opcode (c_msgs cd2 m) = m_opcode (c_msgs cd1 m)" for cd2 P2 L2
  proof -
    have id2: "m_id (c_msgs cd2 m) = msg_id_swap i"
      using d id1 by simp
    from xf_msg_complete_at [OF J I(3)] c id2 obtain cd3 where 3: "xf_msg_complete m cd2 = Some cd3" "ipc_completed cd2 P2 L2 m cd3"
      by auto
    then show ?thesis using c op flip by (auto simp: ipc_completed_def Let_def id2 op2 complete_queue_def)
  qed
  have "ipc_at cd1 P (L((if XF_MSG_SRC_PROXY i \<noteq> 0 then QRemote else QCore) := L (if XF_MSG_SRC_PROXY i \<noteq> 0 then QRemote else QCore) @ [m]))"
    using 1(2) c i by (simp add: ipc_completed_def Let_def complete_queue_def cong: if_cong)
  with 1(1) id1 op lb port again show ?thesis unfolding Let_def by (intro exI [of _ cd1]) simp
qed

theorem msg_completion_round_trip_witness:
  "\<exists>cd1 cd3. xf_msg_complete 96 (cmd_demo 0x8000 XF_FLUSH 0) = Some cd1 \<and> XF_MSG_DST (m_id (c_msgs cd1 96)) = 0x8000 \<and>
     xf_msg_complete 96 (cmd_demo 0x80000000 XF_FLUSH 0) = Some cd3 \<and> m_id (c_msgs cd3 96) = 0x8000 \<and>
     ipc_at cd3 [] ((\<lambda>_. [])(QCore := [96]))"
proof -
  have i: "m_id (c_msgs (cmd_demo 0x8000 XF_FLUSH 0) 96) = 0x8000" by (simp add: cmd_demo_msg)
  have s: "96 \<notin> ipc_set [] (\<lambda>_. [])" by (simp add: ipc_set_def)
  have p: "XF_MSG_DST_PROXY 0x8000 = 0" "XF_MSG_SRC_PROXY 0x8000 = 1" "XF_MSG_SRC 0x8000 = 0x8000" "XF_MSG_DST 0x8000 = 0"
    by (simp_all add: XF_MSG_DST_PROXY_def XF_MSG_SRC_PROXY_def XF_MSG_SRC_def XF_MSG_DST_def)
  obtain cd1 where c1: "xf_msg_complete 96 (cmd_demo 0x8000 XF_FLUSH 0) = Some cd1" "XF_MSG_SRC (m_id (c_msgs cd1 96)) = 0"
      "XF_MSG_DST (m_id (c_msgs cd1 96)) = 0x8000" "m_opcode (c_msgs cd1 96) = XF_FLUSH" "m_length (c_msgs cd1 96) = 0"
      "m_buffer (c_msgs cd1 96) = 0"
    and again: "\<forall>cd2 P2 L2. ipc_at cd2 P2 L2 \<longrightarrow> 96 \<notin> ipc_set P2 L2 \<longrightarrow> m_id (c_msgs cd2 96) = m_id (c_msgs cd1 96) \<longrightarrow>
      m_opcode (c_msgs cd2 96) = m_opcode (c_msgs cd1 96) \<longrightarrow>
      (\<exists>cd3. xf_msg_complete 96 cd2 = Some cd3 \<and> m_id (c_msgs cd3 96) = 0x8000 \<and> ipc_at cd3 P2 (L2(QCore := L2 QCore @ [96])))"
    using msg_completion_round_trip [OF cmd_demo_ipc s _ i] demo_ids p by (auto simp: cmd_demo_msg Let_def)
  have "m_id (c_msgs cd1 96) = XF_MSG_ID (XF_MSG_SRC (m_id (c_msgs cd1 96))) (XF_MSG_DST (m_id (c_msgs cd1 96)))"
    using msg_id_swap_fields(1,2) [of "m_id (c_msgs cd1 96)"] msg_id_swap_swap [of "m_id (c_msgs cd1 96)"] by (metis msg_id_swap_def)
  then have "m_id (c_msgs cd1 96) = 0x80000000" unfolding c1(2,3) by (simp add: XF_MSG_ID_def)
  then have "m_id (c_msgs (cmd_demo 0x80000000 XF_FLUSH 0) 96) = m_id (c_msgs cd1 96)"
    "m_opcode (c_msgs (cmd_demo 0x80000000 XF_FLUSH 0) 96) = m_opcode (c_msgs cd1 96)" using c1 by (simp_all add: cmd_demo_msg)
  with again [rule_format, OF cmd_demo_ipc s] c1 show ?thesis by fastforce
qed

lemma cmd_demo_cmap: "cmap_inv (cmd_demo i opc n) free_ids (\<lambda>_. None)"
  by (rule init_map_inv) (simp_all add: cmd_demo_def core_demo_def init_map_def)

lemma free_ids_Cons: "\<exists>ids. free_ids = 0 # 1 # ids"
proof -
  have "[0 ..< 64] = 0 # Suc 0 # [Suc (Suc 0) ..< 64]" by (subst upt_conv_Cons; simp)+
  then show ?thesis unfolding free_ids_def by simp
qed

theorem proxy_register_correct_witness:
  "\<exists>cd'. xf_proxy_command 32 comp_demo 0 96 (cmd_demo 0x80008000 XF_REGISTER 8) () = Some (cd', ()) \<and>
     xf_client_lookup cd' 0 = Some 8192 \<and> c_comp_id cd' 8192 = XF_PORT_SPEC 0 0 0 \<and> ipc_at cd' [] ((\<lambda>_. [])(QRemote := [96]))"
proof -
  obtain ids where F: "free_ids = 0 # 1 # ids" using free_ids_Cons by blast
  have r: "msg_ready (cmd_demo 0x80008000 XF_REGISTER 8) [] (\<lambda>_. []) 96" by (rule cmd_demo_ready) simp
  have q: "reply_queue (registered_id 0 0x80008000) = QRemote"
    using registered_id_fields(3) [of 0] by (simp add: XF_CFG_MAX_CLIENTS_def) (simp add: reply_queue_def demo_ids)
  from proxy_register_correct [OF r cmd_demo_msg(2) cmd_demo_cmap comp_demo_factory, of 32 "()"] show ?thesis
    by (auto simp: F comp_demo_def answered_def cmd_demo_msg q split: if_splits)
qed

theorem proxy_command_rejects_witness:
  "xf_proxy_command 32 comp_demo 0 96 (cmd_demo 0x80008000 XF_SET_PARAM 8) () = None"
proof -
  have t: "6 = XF_OPCODE_TYPE (m_opcode (c_msgs (cmd_demo 0x80008000 XF_SET_PARAM 8) 96))"
    by (simp add: cmd_demo_msg XF_SET_PARAM_def opcode_type)
  have r: "msg_ready (cmd_demo 0x80008000 XF_SET_PARAM 8) [] (\<lambda>_. []) 96" by (rule cmd_demo_ready) simp
  from proxy_command_rejects [OF r t, of 32 comp_demo "()"] show ?thesis by simp
qed

theorem proxy_buffer_round_trip_witness:
  "\<exists>cd' b. xf_proxy_command 32 comp_demo 0 96 (cmd_demo 0x80008000 XF_ALLOC 32) () = Some (cd', ()) \<and> b \<noteq> 0 \<and>
     m_buffer (c_msgs cd' 96) = b \<and> mm_free_set 64 1024 0 (c_mem cd') ({64 ..< 192} - span b 32)"
proof -
  have r: "msg_ready (cmd_demo 0x80008000 XF_ALLOC 32) [] (\<lambda>_. []) 96" by (rule cmd_demo_ready) simp
  have F: "mm_free_set 64 1024 (c_shared_pool (cmd_demo 0x80008000 XF_ALLOC 32)) (c_mem (cmd_demo 0x80008000 XF_ALLOC 32)) {64 ..< 192}"
    using demo_free_set by (simp add: cmd_demo_def core_demo_def)
  have s: "32 = XF_ALIGNED 32 (m_length (c_msgs (cmd_demo 0x80008000 XF_ALLOC 32) 96))"
    using sizeof_demo by (simp add: cmd_demo_msg xf_msg_sizeof_def)
  have x: "\<exists>x. {x ..< x + unat (32 :: u32)} \<subseteq> {64 ..< 192}" by (intro exI [of _ 64]) simp
  have p: "c_shared_pool (cmd_demo 0x80008000 XF_ALLOC 32) = 0" by (simp add: cmd_demo_def core_demo_def)
  from proxy_buffer_round_trip [OF r cmd_demo_msg(2) F _ s, of comp_demo "()"] obtain cd' b where
    "xf_proxy_command 32 comp_demo 0 96 (cmd_demo 0x80008000 XF_ALLOC 32) () = Some (cd', ())" "m_buffer (c_msgs cd' 96) = b"
    "b = 0 \<longrightarrow> \<not> (\<exists>x. {x ..< x + unat (32 :: u32)} \<subseteq> {64 ..< 192})"
    "b \<noteq> 0 \<longrightarrow> mm_free_set 64 1024 0 (c_mem cd') ({64 ..< 192} - span b 32)"
    unfolding p answered_def by (auto simp del: atLeastLessThan_subset_iff)
  with x show ?thesis by blast
qed

end
