(* ===== verification/XF_Service.thy ===== *)
theory XF_Service
  imports XF_Dispatch XF_Shmem_Sys
begin

text \<open>
  The dispatcher and the service loop on the whole: what they do to the client map, to commands for
  clients that are not alive, and a command on which the loop never ends.
\<close>

section \<open>Dead clients\<close>

lemma ipc_completed_frame: "ipc_completed cd P L m cd' \<Longrightarrow> ipc_frame cd cd'"
  by (simp add: ipc_completed_def Let_def)

lemma dispatch_unregistered:
  assumes r: "msg_ready cd P L m" and p: "XF_MSG_DST_PROXY (m_id (c_msgs cd m)) = 0"
    and I: "cmap_inv cd F R" and n: "R (XF_MSG_DST_CLIENT (m_id (c_msgs cd m))) = None"
  shows "\<exists>cd'. xf_core_dispatch al e 0 m cd w = Some (cd', w) \<and> ipc_frame cd cd' \<and> cmap_inv cd' F R \<and>
    answered cd P L m (m_id (c_msgs cd m)) XF_UNREGISTER 0 (m_buffer (c_msgs cd m)) cd'"
proof -
  have "XF_MSG_DST_CLIENT (m_id (c_msgs cd m)) < XF_CFG_MAX_CLIENTS"
    unfolding XF_MSG_DST_CLIENT_def XF_CFG_MAX_CLIENTS_def mask_take_bit using take_bit_less [of 6] by simp
  from cm.lookup_law [OF I this] n
  have l: "xf_client_lookup cd (XF_MSG_DST_CLIENT (m_id (c_msgs cd m))) = Some 0" by simp
  obtain cd' where "xf_response_err m cd = Some cd'" "ipc_frame cd cd'"
    "answered cd P L m (m_id (c_msgs cd m)) XF_UNREGISTER 0 (m_buffer (c_msgs cd m)) cd'"
    using response_err_answered [OF r] by blast
  then show ?thesis using p l cmap_inv_frame I by (auto simp: xf_core_dispatch_def)
qed

section \<open>A message that bounces\<close>

text \<open>Neither end of the message is a proxy, neither end is registered: the failure response goes to
  the dead sender and is answered with a failure response.\<close>

definition bounces :: "(u32 \<Rightarrow> addr option) \<Rightarrow> u32 \<Rightarrow> bool" where
  "bounces R i \<longleftrightarrow>
     XF_MSG_SRC_PROXY i = 0 \<and> XF_MSG_DST_PROXY i = 0 \<and> XF_MSG_SRC_CORE i = 0 \<and> XF_MSG_DST_CORE i = 0 \<and>
     R (XF_MSG_SRC_CLIENT i) = None \<and> R (XF_MSG_DST_CLIENT i) = None"

lemma bounces_swap: "bounces R (msg_id_swap i) = bounces R i"
  by (auto simp: bounces_def)

text \<open>The message is alone in the queue of the core.\<close>

definition bouncing :: "(u32 \<Rightarrow> addr option) \<Rightarrow> addr list \<Rightarrow> addr \<Rightarrow> xf_core \<Rightarrow> bool" where
  "bouncing R P m cd \<longleftrightarrow>
     (\<exists>F. ipc_at cd P (\<lambda>q. if QCore = q then [m] else []) \<and> cmap_inv cd F R \<and> bounces R (m_id (c_msgs cd m)))"

text \<open>The body of the dispatch loop: the state after it and the message it took, NULL when the loop ends.\<close>

definition dispatch_round :: "u32 \<Rightarrow> 'w xf_components \<Rightarrow> u32 \<Rightarrow> xf_core \<Rightarrow> 'w \<Rightarrow> (xf_core \<times> 'w \<times> addr) option" where
  "dispatch_round al e core cd w =
     Option.bind (xf_msg_local_ipc_get core cd) (\<lambda>(cd, m).
       Option.bind (if m \<noteq> 0 then Some (cd, m) else xf_msg_local_get core cd) (\<lambda>(cd, m).
         if m \<noteq> 0 then map_option (\<lambda>(cd, w). (cd, w, m)) (xf_core_dispatch al e core m cd w) else Some (cd, w, 0)))"

lemma core_dispatch_loop_round:
  "core_dispatch_loop al e core st cd w =
     Option.bind (dispatch_round al e core cd w) (\<lambda>(cd, w, m).
       if m \<noteq> 0 then core_dispatch_loop al e core 1 cd w else Some (cd, w, st))"
  by (subst core_dispatch_loop.simps) (auto simp: dispatch_round_def Option.bind_eq_Some_conv split: Option.bind_splits)

text \<open>One round of the loop: the message is answered into the same queue.\<close>

lemma bounce_round:
  assumes "bouncing R P m cd"
  shows "\<exists>c3. dispatch_round al e 0 cd w = Some (c3, w, m) \<and> m \<noteq> 0 \<and> bouncing R P m c3 \<and> m_opcode (c_msgs c3 m) = XF_UNREGISTER"
proof -
  let ?L0 = "\<lambda>_ :: ipc_queue. [] :: addr list"
  let ?one = "\<lambda>q. if QCore = q then [m] else []"
  obtain F where I: "ipc_at cd P ?one" and C: "cmap_inv cd F R" and b: "bounces R (m_id (c_msgs cd m))"
    using assms unfolding bouncing_def by blast
  from xf_msg_get_at(1) [OF I] obtain c1 where g1: "xf_msg_local_ipc_get 0 cd = Some (c1, 0)" "ipc_taken cd P ?one QLocal c1" by auto
  have "?one(QLocal := tl (?one QLocal)) = ?one" by auto
  then have I1: "ipc_at c1 P ?one" using g1(2) by (simp add: ipc_taken_def)
  from xf_msg_get_at(3) [OF I1] obtain c2 where g2: "xf_msg_local_get 0 c1 = Some (c2, m)" "ipc_taken c1 P ?one QCore c2" by auto
  have L0: "?one(QCore := tl (?one QCore)) = ?L0" by auto
  have I2: "ipc_at c2 P ?L0" using g2(2) L0 by (simp add: ipc_taken_def)
  have m: "m \<notin> ipc_set P ?L0" "m \<noteq> 0" using ipc_taken_fresh [OF I1, of QCore] L0 by simp_all
  have id2: "m_id (c_msgs c2 m) = m_id (c_msgs cd m)"
    using g1(2) g2(2) by (simp add: ipc_taken_def msg_data_eq_iff)
  have r2: "msg_ready c2 P ?L0 m" using I2 m b by (simp add: msg_ready_def id2 bounces_def)
  have C2: "cmap_inv c2 F R" using C cmap_inv_frame [of cd c1] cmap_inv_frame [of c1 c2] g1(2) g2(2) by (simp add: ipc_taken_def)
  from dispatch_unregistered [OF r2 _ C2, of al e w] b obtain c3 where
    d: "xf_core_dispatch al e 0 m c2 w = Some (c3, w)" "cmap_inv c3 F R"
      "answered c2 P ?L0 m (m_id (c_msgs cd m)) XF_UNREGISTER 0 (m_buffer (c_msgs c2 m)) c3"
    by (auto simp: id2 bounces_def)
  have k: "reply_queue (m_id (c_msgs cd m)) = QCore" using b by (simp add: reply_queue_def bounces_def)
  have "?L0(QCore := ?L0 QCore @ [m]) = ?one" by auto
  then have "ipc_at c3 P ?one" using d(3) by (simp add: answered_def k)
  moreover have "bounces R (m_id (c_msgs c3 m))" "m_opcode (c_msgs c3 m) = XF_UNREGISTER"
    using d(3) b by (simp_all add: answered_def bounces_swap)
  ultimately have "bouncing R P m c3" "m_opcode (c_msgs c3 m) = XF_UNREGISTER" unfolding bouncing_def using d(2) by blast+
  with g1(1) g2(1) m(2) d(1) show ?thesis by (simp add: dispatch_round_def)
qed

lemma bouncing_no_result: "bouncing R P m cd \<Longrightarrow> core_dispatch_loop al e 0 st cd w = None"
proof (rule ccontr)
  assume b: "bouncing R P m cd" and "core_dispatch_loop al e 0 st cd w \<noteq> None"
  then obtain r where "core_dispatch_loop al e 0 st cd w = Some r" by auto
  then have "0 = (0 :: u32) \<longrightarrow> \<not> bouncing R P m cd"
  proof (rule core_dispatch_loop.raw_induct [where P = "\<lambda>al e core st cd w r. core = 0 \<longrightarrow> \<not> bouncing R P m cd", rotated])
    fix f :: "u32 \<Rightarrow> 'a xf_components \<Rightarrow> u32 \<Rightarrow> u32 \<Rightarrow> xf_core \<Rightarrow> 'a \<Rightarrow> (xf_core \<times> 'a \<times> u32) option" and al e core st cd w r
    assume IH: "\<And>al e core st cd w r. f al e core st cd w = Some r \<Longrightarrow> core = 0 \<longrightarrow> \<not> bouncing R P m cd"
      and body: "Option.bind (xf_msg_local_ipc_get core cd) (\<lambda>(cd, m).
        Option.bind (if m \<noteq> 0 then Some (cd, m) else xf_msg_local_get core cd) (\<lambda>(cd, m).
          if m \<noteq> 0 then Option.bind (xf_core_dispatch al e core m cd w) (\<lambda>(cd, w). f al e core 1 cd w)
          else Some (cd, w, st))) = Some r"
    show "core = 0 \<longrightarrow> \<not> bouncing R P m cd"
    proof (intro impI notI)
      assume c: "core = 0" and b: "bouncing R P m cd"
      from bounce_round [OF b, of al e w] obtain c3 where
        s: "dispatch_round al e 0 cd w = Some (c3, w, m)" "m \<noteq> 0" "bouncing R P m c3" by blast
      have "f al e 0 1 c3 w = Some r" using body s(1,2) c
        by (auto simp: dispatch_round_def bind_eq_Some_conv split: if_splits)
      from IH [OF this] s(3) show False by simp
    qed
  qed
  with b show False by simp
qed

text \<open>The rounds, one after the other.\<close>

definition dispatch_trace :: "u32 \<Rightarrow> 'w xf_components \<Rightarrow> xf_core \<Rightarrow> 'w \<Rightarrow> nat \<Rightarrow> xf_core" where
  "dispatch_trace al e cd w n = ((\<lambda>cd. fst (the (dispatch_round al e 0 cd w))) ^^ n) cd"

lemma bouncing_trace:
  assumes "bouncing R P m cd"
  shows "bouncing R P m (dispatch_trace al e cd w n)"
    and "dispatch_round al e 0 (dispatch_trace al e cd w n) w = Some (dispatch_trace al e cd w (Suc n), w, m)"
    and "m_opcode (c_msgs (dispatch_trace al e cd w (Suc n)) m) = XF_UNREGISTER"
proof -
  have step: "dispatch_round al e 0 c w = Some (fst (the (dispatch_round al e 0 c w)), w, m) \<and>
      bouncing R P m (fst (the (dispatch_round al e 0 c w))) \<and> m_opcode (c_msgs (fst (the (dispatch_round al e 0 c w))) m) = XF_UNREGISTER"
    if "bouncing R P m c" for c using bounce_round [OF that, of al e w] by auto
  show b: "bouncing R P m (dispatch_trace al e cd w n)" using assms step by (induction n) (simp_all add: dispatch_trace_def)
  show "dispatch_round al e 0 (dispatch_trace al e cd w n) w = Some (dispatch_trace al e cd w (Suc n), w, m)"
    "m_opcode (c_msgs (dispatch_trace al e cd w (Suc n)) m) = XF_UNREGISTER"
    using step [OF b] by (simp_all add: dispatch_trace_def)
qed

section \<open>The client map under service\<close>

lemma xf_msg_complete_frame: "xf_msg_complete m cd = Some cd' \<Longrightarrow> ipc_frame cd cd'"
proof -
  have u: "ipc_frame cd c" if "ipc_frame (msg_upd m f cd) c" for f c cd
    by (rule ipc_frame_trans [OF _ that]) simp
  have l: "xf_msg_local_ipc_put s d m cd = Some cd' \<Longrightarrow> ipc_frame cd cd'" for s d cd
    by (cases cd) (auto simp: xf_msg_local_ipc_put_def xf_on_core_def xf_ipi_assert_def Let_def ipc_frame_def split: if_splits prod.splits)
  have p: "xf_msg_proxy_complete m cd = Some cd' \<Longrightarrow> ipc_frame cd cd'" for cd
    by (cases cd) (auto simp: xf_msg_proxy_complete_def xf_msg_proxy_put_def xf_on_core_def xf_ipi_assert_def Let_def ipc_frame_def
        split: if_splits prod.splits)
  have q: "map_option fst (xf_msg_local_put s m cd) = Some cd' \<Longrightarrow> ipc_frame cd cd'" for s cd
    by (cases cd) (auto simp: xf_msg_local_put_def xf_on_core_def Let_def ipc_frame_def split: if_splits prod.splits)
  have s: "xf_msg_submit m cd = Some cd' \<Longrightarrow> ipc_frame cd cd'" for cd
    using l q by (auto simp: xf_msg_submit_def Let_def simp del: map_option_eq_Some split: if_splits)
  assume "xf_msg_complete m cd = Some cd'"
  then show ?thesis by (auto simp: xf_msg_complete_def Let_def split: if_splits dest!: p s dest: u)
qed

lemma response_frames:
  "xf_response m cd = Some cd' \<Longrightarrow> ipc_frame cd cd'"
  "xf_response_ok m cd = Some cd' \<Longrightarrow> ipc_frame cd cd'"
  "xf_response_err m cd = Some cd' \<Longrightarrow> ipc_frame cd cd'"
  unfolding xf_response_def xf_response_ok_def xf_response_err_def
  by (auto dest!: xf_msg_complete_frame intro: ipc_frame_trans [rotated])

text \<open>The client map is complete when each id is either free or registered.\<close>

definition cmap_full :: "xf_core \<Rightarrow> bool" where
  "cmap_full cd \<longleftrightarrow> (\<exists>F R. cmap_inv cd F R \<and> set F \<union> dom R = {..<XF_CFG_MAX_CLIENTS})"

lemma cmap_full_cong: "c_cmap cd' = c_cmap cd \<Longrightarrow> c_free cd' = c_free cd \<Longrightarrow> cmap_full cd' = cmap_full cd"
  unfolding cmap_full_def using cmap_inv_cong by metis

lemma cmap_full_frame: "ipc_frame cd cd' \<Longrightarrow> cmap_full cd' = cmap_full cd"
  by (rule cmap_full_cong) (simp_all add: ipc_frame_fields)

text \<open>Components do not touch the client map; that is all the map relies on.\<close>

definition clients_kept :: "'w xf_components \<Rightarrow> bool" where
  "clients_kept e \<longleftrightarrow>
     (\<forall>core b n cd w cd' w' c. f_factory e core b n cd w = Some (cd', w', c) \<longrightarrow>
        c_cmap cd' = c_cmap cd \<and> c_free cd' = c_free cd \<and> (c = 0 \<or> XF_CFG_MAX_CLIENTS < c)) \<and>
     (\<forall>c m cd w cd' w' r. f_entry e c m cd w = Some (cd', w', r) \<longrightarrow> c_cmap cd' = c_cmap cd \<and> c_free cd' = c_free cd) \<and>
     (\<forall>c m cd w cd' w' r. f_exit e c m cd w = Some (cd', w', r) \<longrightarrow> c_cmap cd' = c_cmap cd \<and> c_free cd' = c_free cd)"

lemma clients_keptD:
  assumes "clients_kept e"
  shows "f_factory e core b n cd w = Some (cd', w', c) \<Longrightarrow>
      c_cmap cd' = c_cmap cd \<and> c_free cd' = c_free cd \<and> (c = 0 \<or> XF_CFG_MAX_CLIENTS < c)"
    and "f_entry e c m cd w = Some (cd', w', r) \<Longrightarrow> c_cmap cd' = c_cmap cd \<and> c_free cd' = c_free cd"
    and "f_exit e c m cd w = Some (cd', w', r) \<Longrightarrow> c_cmap cd' = c_cmap cd \<and> c_free cd' = c_free cd"
proof -
  note a = assms [unfolded clients_kept_def]
  show "f_factory e core b n cd w = Some (cd', w', c) \<Longrightarrow>
      c_cmap cd' = c_cmap cd \<and> c_free cd' = c_free cd \<and> (c = 0 \<or> XF_CFG_MAX_CLIENTS < c)"
    using a [THEN conjunct1] by blast
  show "f_entry e c m cd w = Some (cd', w', r) \<Longrightarrow> c_cmap cd' = c_cmap cd \<and> c_free cd' = c_free cd"
    using a [THEN conjunct2, THEN conjunct1] by blast
  show "f_exit e c m cd w = Some (cd', w', r) \<Longrightarrow> c_cmap cd' = c_cmap cd \<and> c_free cd' = c_free cd"
    using a [THEN conjunct2, THEN conjunct2] by blast
qed

lemma register_cmap_full:
  assumes e: "clients_kept e" and I: "cmap_full cd" and r: "xf_proxy_register e core m cd w = Some (cd', w', res)"
  shows "cmap_full cd'"
proof -
  obtain F R where F: "cmap_inv cd F R" "set F \<union> dom R = {..<XF_CFG_MAX_CLIENTS}" using I by (auto simp: cmap_full_def)
  show ?thesis
  proof (cases F)
    case Nil
    then have "xf_client_alloc cd = (cd, XF_CFG_MAX_CLIENTS)" using F(1) cm.alloc_nil by simp
    then show ?thesis using r I by (auto simp: xf_proxy_register_def xf_on_core_def split: if_splits)
  next
    case (Cons i F1)
    with F(1) have F1: "cmap_inv cd (i # F1) R" by simp
    obtain c1 where a: "xf_client_alloc cd = (c1, i)" "cmap_inv c1 F1 R" using cm.alloc_law [OF F1] by blast
    have i: "i < XF_CFG_MAX_CLIENTS" "i \<noteq> XF_CFG_MAX_CLIENTS" "i \<notin> set F1" using cm.free_bound [OF F1] by auto
    obtain c2 w2 c where f: "f_factory e core (m_buffer (c_msgs c1 m)) (m_length (c_msgs c1 m)) c1 w = Some (c2, w2, c)"
      using r a(1) i(2) by (auto simp: xf_proxy_register_def xf_on_core_def Let_def bind_eq_Some_conv split: if_splits)
    have k: "c_cmap c2 = c_cmap c1" "c_free c2 = c_free c1" "c = 0 \<or> XF_CFG_MAX_CLIENTS < c"
      using clients_keptD(1) [OF e f] by auto
    have I2: "cmap_inv c2 F1 R" using a(2) cmap_inv_cong [OF k(1,2), of F1 R] by simp
    show ?thesis
    proof (cases "c = 0")
      case True
      obtain c3 where c3: "xf_client_free i c2 = Some c3" "cmap_inv c3 (i # F1) (R(i := None))"
        using cm.release_law [OF I2 i(1,3)] by blast
      have "cd' = c3" using r a(1) i(2) f True c3(1)
        by (auto simp: xf_proxy_register_def xf_on_core_def Let_def split: if_splits)
      moreover have "set (i # F1) \<union> dom (R(i := None)) = {..<XF_CFG_MAX_CLIENTS}" using F(2) Cons by auto
      ultimately show ?thesis using c3(2) unfolding cmap_full_def by blast
    next
      case False
      obtain c3 where c3: "xf_client_set i c c2 = Some c3" "cmap_inv c3 F1 (R(i \<mapsto> c))"
        using cm.assign_law [OF I2 i(1,3)] k(3) False by blast
      obtain g where "ipc_frame (c3\<lparr>c_comp_id := g\<rparr>) cd'"
        using r a(1) i(2) f False c3(1)
        by (auto simp: xf_proxy_register_def xf_on_core_def Let_def split: if_splits
            dest!: response_frames(2) ipc_frame_trans [OF ipc_frame_upd(5)])
      then have "cmap_inv cd' F1 (R(i \<mapsto> c))"
        using c3(2) cmap_inv_frame [of "c3\<lparr>c_comp_id := g\<rparr>" cd'] cmap_inv_cong [of "c3\<lparr>c_comp_id := g\<rparr>" c3] by simp
      moreover have "set F1 \<union> dom (R(i \<mapsto> c)) = {..<XF_CFG_MAX_CLIENTS}" using F(2) Cons by auto
      ultimately show ?thesis unfolding cmap_full_def by blast
    qed
  qed
qed

lemma xf_shmem_alloc_cmap:
  "xf_shmem_alloc al core m cd = Some (cd', r) \<Longrightarrow> c_cmap cd' = c_cmap cd \<and> c_free cd' = c_free cd"
  "xf_shmem_free al core m cd = Some cd' \<Longrightarrow> c_cmap cd' = c_cmap cd \<and> c_free cd' = c_free cd"
  by (auto simp: xf_shmem_alloc_def xf_shmem_free_def xf_on_core_def msg_upd_def Let_def split: if_splits option.splits)

lemma proxy_command_cmap_full:
  assumes e: "clients_kept e" and I: "cmap_full cd" and r: "xf_proxy_command al e core m cd w = Some (cd', w')"
  shows "cmap_full cd'"
proof -
  have fr: "cmap_full c'" if "ipc_frame c c'" "cmap_full c" for c c' using cmap_full_frame that by simp
  have cmd: "cmap_full c'" if f: "xf_proxy_cmd al e t = Some f" and r: "f core m cd w = Some (c', w'', res)" for t f c' w'' res
  proof -
    have "cmap_full c'" if "xf_proxy_alloc al core m cd w = Some (c', w'', res)"
    proof (cases "xf_shmem_enabled core")
      case True
      with that obtain c1 r1 where c1: "xf_shmem_alloc al core m cd = Some (c1, r1)" "xf_response m c1 = Some c'"
        by (auto simp: xf_proxy_alloc_def bind_eq_Some_conv)
      have "cmap_full c1" using I xf_shmem_alloc_cmap(1) [OF c1(1)] cmap_full_cong [of c1 cd] by simp
      then show ?thesis using fr response_frames(1) [OF c1(2)] by blast
    qed (use that I in \<open>simp add: xf_proxy_alloc_def\<close>)
    moreover have "cmap_full c'" if "xf_proxy_free al core m cd w = Some (c', w'', res)"
    proof (cases "xf_shmem_enabled core")
      case True
      with that obtain c1 where c1: "xf_shmem_free al core m cd = Some c1" "xf_response m c1 = Some c'"
        by (auto simp: xf_proxy_free_def bind_eq_Some_conv)
      have "cmap_full c1" using I xf_shmem_alloc_cmap(2) [OF c1(1)] cmap_full_cong [of c1 cd] by simp
      then show ?thesis using fr response_frames(1) [OF c1(2)] by blast
    qed (use that I in \<open>simp add: xf_proxy_free_def\<close>)
    moreover have "xf_proxy_register e core m cd w = Some (c', w'', res) \<or> xf_proxy_alloc al core m cd w = Some (c', w'', res) \<or>
        xf_proxy_free al core m cd w = Some (c', w'', res) \<or> c' = cd"
      using f r by (auto simp: xf_proxy_cmd_def xf_proxy_output_def xf_proxy_flush_def split: if_splits)
    ultimately show ?thesis using register_cmap_full [OF e I] I by blast
  qed
  let ?t = "XF_OPCODE_TYPE (m_opcode (c_msgs cd m))"
  have err: "cmap_full cd'" if "xf_response_err m c = Some cd'" "cmap_full c" for c
    using that fr response_frames(3) by blast
  show ?thesis
  proof (cases "?t < XF_PROXY_CMD_NUM")
    case False
    then have "xf_response_err m cd = Some cd'" using r by (auto simp: xf_proxy_command_def)
    then show ?thesis using err I by blast
  next
    case True
    then obtain f where f: "xf_proxy_cmd al e ?t = Some f" using r by (auto simp: xf_proxy_command_def split: option.splits)
    with r True obtain c1 w1 res where c1: "f core m cd w = Some (c1, w1, res)"
      and t: "(case res of Inr _ \<Rightarrow> Some (c1, w1) | Inl _ \<Rightarrow> map_option (\<lambda>cd. (cd, w1)) (xf_response_err m c1)) = Some (cd', w')"
      by (auto simp: xf_proxy_command_def bind_eq_Some_conv)
    have "cmap_full c1" by (rule cmd [OF f c1])
    then show ?thesis using t err by (cases res) auto
  qed
qed

lemma dispatch_cmap_full:
  assumes e: "clients_kept e" and I: "cmap_full cd" and r: "xf_core_dispatch al e core m cd w = Some (cd', w')"
  shows "cmap_full cd'"
proof (cases "XF_MSG_DST_PROXY (m_id (c_msgs cd m)) = 0")
  case True
  let ?i = "XF_MSG_DST_CLIENT (m_id (c_msgs cd m))"
  obtain F R where F: "cmap_inv cd F R" "set F \<union> dom R = {..<XF_CFG_MAX_CLIENTS}" using I by (auto simp: cmap_full_def)
  have i: "?i < XF_CFG_MAX_CLIENTS"
    unfolding XF_MSG_DST_CLIENT_def XF_CFG_MAX_CLIENTS_def mask_take_bit using take_bit_less [of 6] by simp
  show ?thesis
  proof (cases "R ?i")
    case None
    then have "xf_client_lookup cd ?i = Some 0" using cm.lookup_law [OF F(1) i] by simp
    then have "xf_response_err m cd = Some cd'" using r True by (auto simp: xf_core_dispatch_def)
    then show ?thesis using I cmap_full_frame response_frames(3) by blast
  next
    case (Some c)
    have l: "xf_client_lookup cd ?i = Some c" by (rule cm.registered_lookup [OF F(1) Some])
    have c: "c \<noteq> 0" using F(1) Some i by (force simp: cmap_inv_def)
    obtain c1 w1 r1 where en: "f_entry e c m cd w = Some (c1, w1, r1)"
      using r True l c by (auto simp: xf_core_dispatch_def bind_eq_Some_conv)
    have I1: "cmap_inv c1 F R" using F(1) clients_keptD(2) [OF e en] cmap_inv_cong [of c1 cd] by simp
    show ?thesis
    proof (cases "r1 < 0")
      case False
      then have "cd' = c1" using r True l c en by (simp add: xf_core_dispatch_def)
      then show ?thesis using I1 F(2) unfolding cmap_full_def by blast
    next
      case neg: True
      obtain c2 w2 r2 where ex: "f_exit e c m c1 w1 = Some (c2, w2, r2)"
        using r True l c en neg by (auto simp: xf_core_dispatch_def bind_eq_Some_conv)
      have I2: "cmap_inv c2 F R" using I1 clients_keptD(3) [OF e ex] cmap_inv_cong [of c2 c1] by simp
      show ?thesis
      proof (cases "r2 = 0")
        case False
        then have "cd' = c2" using r True l c en neg ex by (simp add: xf_core_dispatch_def)
        then show ?thesis using I2 F(2) unfolding cmap_full_def by blast
      next
        case z: True
        obtain c3 where c3: "xf_client_free ?i c2 = Some c3" "cmap_inv c3 (?i # F) (R(?i := None))"
          using cm.unregister [OF I2 Some] by blast
        then have "cd' = c3" using r True l c en neg ex z by (simp add: xf_core_dispatch_def)
        moreover have "set (?i # F) \<union> dom (R(?i := None)) = {..<XF_CFG_MAX_CLIENTS}" using F(2) Some i by auto
        ultimately show ?thesis using c3(2) unfolding cmap_full_def by blast
      qed
    qed
  qed
next
  case False
  then show ?thesis using r proxy_command_cmap_full [OF e I] by (simp add: xf_core_dispatch_def)
qed

lemma get_cmap_full:
  "xf_msg_local_ipc_get core cd = Some (cd', m) \<Longrightarrow> cmap_full cd' = cmap_full cd"
  "xf_msg_local_get core cd = Some (cd', m) \<Longrightarrow> cmap_full cd' = cmap_full cd"
  "xf_msg_local_response_get core cd = Some (cd', m) \<Longrightarrow> cmap_full cd' = cmap_full cd"
  "xf_msg_proxy_get core cd = Some (cd', m) \<Longrightarrow> cmap_full cd' = cmap_full cd"
  by (rule cmap_full_cong;
      auto simp: xf_msg_local_ipc_get_def xf_msg_local_get_def xf_msg_local_response_get_def xf_msg_proxy_get_def
        xf_on_core_def Let_def split: if_splits prod.splits)+

lemma msg_submit_cmap_full: "xf_msg_submit m cd = Some cd' \<Longrightarrow> cmap_full cd' = cmap_full cd"
  by (rule cmap_full_cong;
      auto simp: xf_msg_submit_def xf_msg_local_ipc_put_def xf_msg_local_put_def xf_ipi_assert_def xf_on_core_def Let_def
        split: if_splits prod.splits)

lemma cmap_full_upd [simp]: "cmap_full (cd\<lparr>c_msgs := h\<rparr>) = cmap_full cd" "cmap_full (cd\<lparr>ro_pool := p\<rparr>) = cmap_full cd"
  "cmap_full (cd\<lparr>sh_cmd_read_idx := i\<rparr>) = cmap_full cd" "cmap_full (cd\<lparr>sh_rsp_write_idx := i\<rparr>) = cmap_full cd"
  "cmap_full (cd\<lparr>sh_response := r\<rparr>) = cmap_full cd" "cmap_full (cd\<lparr>c_mem := g\<rparr>) = cmap_full cd"
  "cmap_full (cd\<lparr>ro_pool := p, c_msgs := h\<rparr>) = cmap_full cd" "cmap_full (msg_upd m f cd) = cmap_full cd"
  "cmap_full (xf_ipi_assert core cd) = cmap_full cd"
  by (rule cmap_full_cong; simp add: msg_upd_def xf_ipi_assert_def)+

text \<open>The loops, by induction on their executions.\<close>

lemma input_cmap_full: "shmem_input_loop core r w st cd = Some x \<Longrightarrow> cmap_full (fst x) = cmap_full cd"
proof (induction rule: shmem_input_loop.raw_induct [rotated, consumes 1, case_names step])
  case (step f core r w st cd x)
  show ?case
  proof (cases "XF_QUEUE_EMPTY r w")
    case False
    obtain pool h m where g: "xf_msg_pool_get (ro_pool cd) (c_msgs cd) = (pool, h, m)" by (cases "xf_msg_pool_get (ro_pool cd) (c_msgs cd)")
    let ?c = "cd\<lparr>ro_pool := pool, c_msgs := h\<rparr>"
    let ?c3 = "(msg_upd m (proxy_fetch (sh_buffer ?c) (sh_command ?c (XF_QUEUE_IDX r))) ?c)\<lparr>sh_cmd_read_idx := XF_QUEUE_ADVANCE_IDX r\<rparr>"
    show ?thesis
    proof (cases "m = 0")
      case True
      then show ?thesis using step.hyps False g by auto
    next
      case nz: False
      obtain c4 st4 where c4: "xf_msg_submit m ?c3 = Some c4" "f core (XF_QUEUE_ADVANCE_IDX r) w st4 c4 = Some x"
        using step.hyps False g nz by (auto simp: Let_def bind_eq_Some_conv)
      have "cmap_full c4 = cmap_full ?c3" by (rule msg_submit_cmap_full [OF c4(1)])
      then show ?thesis using step.IH [OF c4(2)] by simp
    qed
  qed (use step.hyps in auto)
qed

lemma output_cmap_full: "shmem_output_loop core r w st cd = Some x \<Longrightarrow> cmap_full (fst x) = cmap_full cd"
proof (induction rule: shmem_output_loop.raw_induct [rotated, consumes 1, case_names step])
  case (step f core r w st cd x)
  show ?case
  proof (cases "XF_QUEUE_FULL r w")
    case False
    then obtain c1 m where g: "xf_msg_proxy_get core cd = Some (c1, m)" using step.hyps by (auto simp: bind_eq_Some_conv)
    show ?thesis
    proof (cases "m = 0")
      case True
      then show ?thesis using step.hyps False g get_cmap_full(4) [OF g] by auto
    next
      case nz: False
      obtain pool h where p: "xf_msg_pool_put (ro_pool c1) m (c_msgs c1) = (pool, h)" by (cases "xf_msg_pool_put (ro_pool c1) m (c_msgs c1)")
      obtain c2 where c2: "f core r (XF_QUEUE_ADVANCE_IDX w) (XF_PROXY_STATUS_REMOTE OR XF_PROXY_STATUS_LOCAL) c2 = Some x"
        "cmap_full c2 = cmap_full c1"
        using step.hyps False g nz p by (auto simp: Let_def)
      then show ?thesis using step.IH [OF c2(1)] get_cmap_full(4) [OF g] by simp
    qed
  qed (use step.hyps in auto)
qed

lemma queues_cmap_full: "xf_shmem_process_queues core cd = Some x \<Longrightarrow> cmap_full x = cmap_full cd"
proof (induction rule: xf_shmem_process_queues.raw_induct [rotated, consumes 1, case_names step])
  case (step f core cd x)
  obtain c1 s1 c2 s2 where c: "xf_shmem_process_output core cd = Some (c1, s1)" "xf_shmem_process_input core c1 = Some (c2, s2)"
    using step.hyps by (auto simp: bind_eq_Some_conv)
  have "cmap_full c2 = cmap_full cd"
    using c output_cmap_full input_cmap_full
    by (auto simp: xf_shmem_process_output_def xf_shmem_process_input_def xf_on_core_def split: if_splits dest!: output_cmap_full input_cmap_full)
  moreover have "x = c2 \<or> x = xf_ipi_assert core c2 \<or> f core c2 = Some x \<or> f core (xf_ipi_assert core c2) = Some x"
    using step.hyps c by (auto simp: Let_def split: if_splits)
  ultimately show ?case using step.IH by auto
qed

lemma dispatch_loop_cmap_full:
  "core_dispatch_loop al e core st cd w = Some x \<Longrightarrow> clients_kept e \<Longrightarrow> cmap_full cd \<Longrightarrow> cmap_full (fst x)"
proof (induction rule: core_dispatch_loop.raw_induct [rotated, consumes 1, case_names step])
  case (step f al e core st cd w x)
  obtain c1 m1 where 1: "xf_msg_local_ipc_get core cd = Some (c1, m1)" using step.hyps by (auto simp: bind_eq_Some_conv)
  then obtain c2 m2 where 2: "(if m1 \<noteq> 0 then Some (c1, m1) else xf_msg_local_get core c1) = Some (c2, m2)"
    using step.hyps by (auto simp: bind_eq_Some_conv)
  have k: "cmap_full c2" using 1 2 get_cmap_full(1) [OF 1] get_cmap_full(2) [of core c1 c2 m2] step.prems by (auto split: if_splits)
  show ?case
  proof (cases "m2 = 0")
    case True
    then show ?thesis using step.hyps 1 2 k by auto
  next
    case False
    then obtain c3 w3 where 3: "xf_core_dispatch al e core m2 c2 w = Some (c3, w3)" "f al e core 1 c3 w3 = Some x"
      using step.hyps 1 2 by (auto simp: bind_eq_Some_conv)
    show ?thesis by (rule step.IH [OF 3(2) step.prems(1) dispatch_cmap_full [OF step.prems(1) k 3(1)]])
  qed
qed

lemma response_loop_cmap_full: "core_response_loop core st cd = Some x \<Longrightarrow> cmap_full (fst x) = cmap_full cd"
proof (induction rule: core_response_loop.raw_induct [rotated, consumes 1, case_names step])
  case (step f core st cd x)
  obtain c1 m where 1: "xf_msg_local_response_get core cd = Some (c1, m)" using step.hyps by (auto simp: bind_eq_Some_conv)
  show ?case
  proof (cases "m = 0")
    case True
    then show ?thesis using step.hyps 1 get_cmap_full(3) [OF 1] by auto
  next
    case False
    then obtain c2 where 2: "xf_msg_complete m c1 = Some c2" "f core 1 c2 = Some x"
      using step.hyps 1 by (auto simp: bind_eq_Some_conv)
    then show ?thesis using step.IH [OF 2(2)] cmap_full_frame [OF xf_msg_complete_frame [OF 2(1)]] get_cmap_full(3) [OF 1] by simp
  qed
qed

lemma sched_step_cmap_full:
  assumes e: "clients_kept e" and "cmap_full cd" and "core_sched_step e st cd w = Some (cd', w', st')"
  shows "cmap_full cd'"
proof -
  obtain h t where h: "xf_sched_get (c_sched cd) (c_mem cd) = Some (h, t)" using assms(3) by (auto simp: core_sched_step_def bind_eq_Some_conv)
  show ?thesis
  proof (cases t)
    case None
    then have "cd' = cd\<lparr>c_mem := h\<rparr>" using assms(3) h by (simp add: core_sched_step_def)
    then show ?thesis using assms(2) by simp
  next
    case (Some t)
    then obtain r where en: "f_entry e t 0 (cd\<lparr>c_mem := h\<rparr>) w = Some (cd', w', r)"
      using assms(3) h by (auto simp: core_sched_step_def xf_core_process_def)
    show ?thesis using clients_keptD(2) [OF e en] assms(2) cmap_full_cong [of cd' "cd\<lparr>c_mem := h\<rparr>"] by simp
  qed
qed

section \<open>Examples\<close>

text \<open>An idle core whose scheduler has a node of its own.\<close>

definition idle_demo :: xf_core where
  "idle_demo = shm_demo\<lparr>c_sched := 4096, c_mem := xf_sched_init 4096 mm_demo, sh_cmd_write_idx := ring_idx 0\<rparr>"

lemma comp_demo_ok: "clients_kept comp_demo"
  by (simp add: clients_kept_def comp_demo_def XF_CFG_MAX_CLIENTS_def)

lemma demo_cmap: "cmap_inv core_demo free_ids (\<lambda>_. None)" "cmap_inv shm_demo free_ids (\<lambda>_. None)"
    "cmap_inv idle_demo free_ids (\<lambda>_. None)"
  by (rule init_map_inv; simp add: idle_demo_def shm_demo_def core_demo_def init_map_def)+

section \<open>Properties\<close>

lemma client_spec_ids:
  assumes "client_spec (F, R) x = ((F1, R1), r)" and "client_ops_ok (F, R) [x]"
  shows "set F1 \<union> dom R1 = set F \<union> dom R"
proof (cases x)
  case (Register c)
  then show ?thesis using assms(1) by (cases F) auto
next
  case (Unregister i)
  then have "set F1 \<union> dom R1 = insert i (set F) \<union> (dom R - {i})" and "i \<in> dom R" using assms by auto
  then show ?thesis by auto
qed

text \<open>C19: the client map implements its specification on every history of registrations and removals: ids
  are handed out in the order of the free list, the last one removed first, the 65th registration is
  refused, look-up finds exactly the registered components, and no id is lost.\<close>

theorem client_ids_correct:
  assumes "cmap_inv cd F R" and "client_ops_ok (F, R) xs"
  shows "\<exists>cd' F' R' rs. client_runs cd xs = Some (cd', rs) \<and> client_specs (F, R) xs = ((F', R'), rs) \<and>
    cmap_inv cd' F' R' \<and> set F' \<union> dom R' = set F \<union> dom R \<and>
    (\<forall>i<XF_CFG_MAX_CLIENTS. xf_client_lookup cd' i = Some (case R' i of None \<Rightarrow> 0 | Some c \<Rightarrow> c))"
proof -
  have "set F' \<union> dom R' = set F \<union> dom R" if "client_specs (F, R) xs = ((F', R'), rs)" "client_ops_ok (F, R) xs" for F' R' rs
    using that
  proof (induction xs arbitrary: F R rs)
    case (Cons x xs)
    obtain F1 R1 r where 1: "client_spec (F, R) x = ((F1, R1), r)" by (metis prod.exhaust)
    have "client_ops_ok (F, R) [x]" using Cons.prems(2) by (cases x) simp_all
    then have "set F1 \<union> dom R1 = set F \<union> dom R" by (rule client_spec_ids [OF 1])
    moreover obtain rs' where "client_specs (F1, R1) xs = ((F', R'), rs')" "client_ops_ok (F1, R1) xs"
      using Cons.prems 1 by (auto split: prod.splits)
    ultimately show ?case using Cons.IH by simp
  qed simp
  then show ?thesis using client_runs_spec [OF assms] cm.lookup_law assms(2) by meson
qed

theorem client_ids_correct_witness:
  "\<exists>cd'. client_runs core_demo [Register 8192, Register 8256, Unregister 0, Register 8320] = Some (cd', [0, 1, 0, 0]) \<and>
     xf_client_lookup cd' 0 = Some 8320 \<and> xf_client_lookup cd' 2 = Some 0"
proof -
  obtain ids where F: "free_ids = 0 # 1 # ids" using free_ids_Cons by blast
  have "client_ops_ok (free_ids, \<lambda>_. None) [Register 8192, Register 8256, Unregister 0, Register 8320]"
    by (simp add: F XF_CFG_MAX_CLIENTS_def)
  from client_ids_correct [OF demo_cmap(1) this] show ?thesis by (auto simp: F XF_CFG_MAX_CLIENTS_def)
qed

text \<open>a message to a client that is not registered is answered with the failure response, and
  nothing else changes.\<close>

theorem dispatch_dead_client:
  assumes "msg_ready cd P L m" and "XF_MSG_DST_PROXY (m_id (c_msgs cd m)) = 0"
    and "cmap_inv cd F R" and "R (XF_MSG_DST_CLIENT (m_id (c_msgs cd m))) = None"
  shows "\<exists>cd'. xf_core_dispatch al e 0 m cd w = Some (cd', w) \<and> ipc_frame cd cd' \<and> cmap_inv cd' F R \<and>
    answered cd P L m (m_id (c_msgs cd m)) XF_UNREGISTER 0 (m_buffer (c_msgs cd m)) cd'"
  by (rule dispatch_unregistered [OF assms])

theorem dispatch_dead_client_witness:
  "\<exists>cd'. xf_core_dispatch 32 comp_demo 0 96 (cmd_demo 0x8000 XF_FLUSH 0) () = Some (cd', ()) \<and>
     ipc_at cd' [] ((\<lambda>_. [])(QRemote := [96])) \<and> m_opcode (c_msgs cd' 96) = XF_UNREGISTER"
proof -
  have "XF_MSG_DST_PROXY (m_id (c_msgs (cmd_demo 0x8000 XF_FLUSH 0) 96)) = 0" by (simp add: cmd_demo_msg demo_ids)
  from dispatch_dead_client [OF cmd_demo_ready this cmd_demo_cmap refl, of 32 comp_demo "()"] show ?thesis
    by (auto simp: answered_def reply_queue_def cmd_demo_msg demo_ids)
qed

lemma idle_ipc: "ipc_at idle_demo [32, 64] (\<lambda>_. [])"
proof -
  have "get_q k idle_demo = get_q k shm_demo" for k by (cases k) (simp_all add: idle_demo_def)
  then show ?thesis using demo_ipc by (simp add: ipc_at_def) (simp add: idle_demo_def)
qed

lemma idle_idx: "sh_cmd_read_idx idle_demo = ring_idx 0" "sh_cmd_write_idx idle_demo = ring_idx 0"
  "sh_rsp_read_idx idle_demo = ring_idx 0" "sh_rsp_write_idx idle_demo = ring_idx 0"
  by (simp_all add: idle_demo_def shm_demo_def core_demo_def ring_idx_0)

text \<open>A core with nothing to do.\<close>

lemma idle_service:
  assumes I: "ipc_at cd P (\<lambda>_. [])"
    and ix: "sh_cmd_read_idx cd = ring_idx rc" "sh_cmd_write_idx cd = ring_idx rc"
      "sh_rsp_read_idx cd = ring_idx rr" "sh_rsp_write_idx cd = ring_idx rr"
    and s: "rb_cache (c_sched cd) (c_mem cd) = c_sched cd"
  shows "\<exists>cd'. xf_core_service al e 0 cd w = Some (cd', w)"
proof -
  let ?L = "\<lambda>_ :: ipc_queue. [] :: addr list"
  have c: "\<forall>j. rc \<le> j \<and> j < rc \<longrightarrow> XF_MSG_DST_CORE (p_session_id (ring_at (sh_command cd) j)) = 0" by (simp add: not_less [symmetric])
  have k: "0 = min (rr + 256 - rr) (length (?L QRemote))" "P = rev (take 0 (?L QRemote)) @ P" "0 = min (rc - rc) (length P)" by simp_all
  from xf_shmem_process_queues_spec [OF I _ _ _ _ ix c k] obtain c1 c2 n where
    q: "xf_shmem_process_queues 0 cd = Some (c2\<lparr>sh_notified := n\<rparr>)" "input_done c1 P (?L(QRemote := drop 0 (?L QRemote))) rc 0 c2"
      "shm_frame cd c2" by auto
  let ?c = "c2\<lparr>sh_notified := n\<rparr>"
  have I2: "ipc_at ?c P ?L" using q(2) by (simp add: input_done_def fun_upd_idem)
  have id: "?L(k := []) = ?L" for k by auto
  obtain c3 where 3: "xf_msg_local_ipc_get 0 ?c = Some (c3, 0)" "ipc_taken ?c P ?L QLocal c3" using xf_msg_get_at(1) [OF I2] by auto
  then have I3: "ipc_at c3 P ?L" by (simp add: ipc_taken_def id)
  obtain c4 where 4: "xf_msg_local_get 0 c3 = Some (c4, 0)" "ipc_taken c3 P ?L QCore c4" using xf_msg_get_at(3) [OF I3] by auto
  then have I4: "ipc_at c4 P ?L" by (simp add: ipc_taken_def id)
  obtain c5 where 5: "xf_msg_local_response_get 0 c4 = Some (c5, 0)" "ipc_taken c4 P ?L QResponse c5" using xf_msg_get_at(4) [OF I4] by auto
  have "ipc_frame ?c c5" using 3(2) 4(2) 5(2) unfolding ipc_taken_def by (blast intro: ipc_frame_trans)
  moreover have "c_sched c2 = c_sched cd" "c_mem c2 = c_mem cd" using q(3) by (cases cd; cases c2; simp add: shm_frame_alt)+
  moreover have "c_sched c5 = c_sched ?c" if "ipc_frame ?c c5" using that by (rule ipc_frame_fields)
  ultimately have "c_sched c5 = c_sched cd" "c_mem c5 = c_mem cd" by (simp_all add: ipc_frame_fields(1))
  then have 6: "core_sched_step e 0 c5 w = Some (c5, w, 0)"
    using s by (simp add: core_sched_step_def xf_sched_get_def)
  have "core_dispatch_loop al e 0 0 ?c w = Some (c4, w, 0)" using 3(1) 4(1) by (subst core_dispatch_loop.simps) simp
  moreover have "core_response_loop 0 0 c4 = Some (c5, 0)" using 5(1) by (subst core_response_loop.simps) simp
  ultimately show ?thesis using q(1) 6 by (subst xf_core_service.simps) (simp add: xf_shmem_enabled_def)
qed



text \<open>C17: one malformed command stops the DSP for good. When no client is registered under the sender and
  the receiver of a command that does not come from a proxy, its failure response is dispatched and
  answered for ever. Reading the command works, and from there on each of infinitely many rounds of the dispatch
  loop has a result: it takes the same message (the first of the free pool), finds no other message in any
  queue, and puts it back as a failure response. So the loop does not end and the service loop does
  not return.\<close>

theorem service_livelock:
  assumes I: "ipc_at cd P (\<lambda>_. [])" and P: "P \<noteq> []" and C: "cmap_inv cd F R"
    and ix: "sh_cmd_read_idx cd = ring_idx rc" "sh_cmd_write_idx cd = ring_idx (Suc rc)"
      "sh_rsp_read_idx cd = ring_idx rr" "sh_rsp_write_idx cd = ring_idx rr"
    and b: "bounces R (p_session_id (ring_at (sh_command cd) rc))"
  shows "(\<exists>trace. xf_shmem_process_queues 0 cd = Some (trace 0) \<and>
      (\<forall>n. dispatch_round al e 0 (trace n) w = Some (trace (Suc n), w, hd P) \<and> hd P \<noteq> 0 \<and>
         ipc_at (trace n) (tl P) (\<lambda>q. if QCore = q then [hd P] else []) \<and>
         m_opcode (c_msgs (trace (Suc n)) (hd P)) = XF_UNREGISTER)) \<and>
    xf_core_service al e 0 cd w = None"
proof -
  let ?L = "\<lambda>_ :: ipc_queue. [] :: addr list"
  obtain m ms where P: "P = m # ms" using P by (cases P) auto
  have c: "\<forall>j. rc \<le> j \<and> j < Suc rc \<longrightarrow> XF_MSG_DST_CORE (p_session_id (ring_at (sh_command cd) j)) = 0"
    using b by (auto simp: bounces_def le_Suc_eq dest: le_antisym)
  have k: "0 = min (rr + 256 - rr) (length (?L QRemote))" "P = rev (take 0 (?L QRemote)) @ P" "1 = min (Suc rc - rc) (length P)"
    by (simp_all add: P)
  from xf_shmem_process_queues_spec [OF I _ _ _ _ ix c k] obtain c1 c2 n where
    q: "xf_shmem_process_queues 0 cd = Some (c2\<lparr>sh_notified := n\<rparr>)" "output_done cd P ?L rr 0 c1"
      "input_done c1 P (?L(QRemote := drop 0 (?L QRemote))) rc 1 c2" "shm_frame cd c2" by auto
  let ?c = "c2\<lparr>sh_notified := n\<rparr>"
  have f: "msg_fetched (sh_buffer c1) (ring_at (sh_command c1) rc) (c_msgs c2 m)" using q(3) by (simp add: input_done_def P)
  have "shm_frame cd c1" using q(2) by (simp add: output_done_def)
  then have i: "m_id (c_msgs c2 m) = p_session_id (ring_at (sh_command cd) rc)"
    using f by (simp add: msg_fetched_def shm_frame_fields)
  have sq: "submit_queue (m_id (c_msgs c2 m)) = QCore" using b unfolding i by (simp add: submit_queue_def bounces_def)
  have "ipc_at c2 ms (\<lambda>q. if QCore = q then [m] else [])"
    using q(3) sq by (simp add: input_done_def P fun_upd_idem cong: if_cong)
  then have "ipc_at ?c ms (\<lambda>q. if QCore = q then [m] else [])" by simp
  moreover have "cmap_inv ?c F R" using C shm_frame_fields [OF q(4)] by (simp add: cmap_inv_def)
  ultimately have B: "bouncing R ms m ?c" unfolding bouncing_def using b i by (intro exI [of _ F]) simp
  let ?t = "dispatch_trace al e ?c w"
  have m0: "m \<noteq> 0" using ipc_at_nz [OF I] by (auto simp: ipc_set_def P)
  have "xf_shmem_process_queues 0 cd = Some (?t 0)" using q(1) by (simp add: dispatch_trace_def)
  moreover have "ipc_at (?t n) ms (\<lambda>q. if QCore = q then [m] else [])" for n
    using bouncing_trace(1) [OF B, of al e w n] unfolding bouncing_def by blast
  moreover note bouncing_trace(2,3) [OF B, of al e w] m0
  moreover have "xf_core_service al e 0 cd w = None"
    using bouncing_no_result [OF B, of al e 0 w] q(1) by (subst xf_core_service.simps) (simp add: xf_shmem_enabled_def)
  ultimately show ?thesis unfolding P list.sel by blast
qed

theorem service_livelock_witness:
  "(\<exists>trace. xf_shmem_process_queues 0 shm_demo = Some (trace 0) \<and>
      (\<forall>n. dispatch_round 32 comp_demo 0 (trace n) () = Some (trace (Suc n), (), 32))) \<and>
   xf_core_service 32 comp_demo 0 shm_demo () = None"
proof -
  have "bounces (\<lambda>_. None) (p_session_id (ring_at (sh_command shm_demo) 0))"
    by (simp add: bounces_def demo_idx core_0 XF_MSG_SRC_PROXY_def XF_MSG_DST_PROXY_def)
  with service_livelock [OF demo_ipc _ demo_cmap(2) demo_idx(1), of 0 32 comp_demo "()"] demo_idx(2-4) show ?thesis by auto
qed

end
