(* ===== verification/XF_Io.thy ===== *)
theory XF_Io
  imports XF_Ipc
begin

text \<open>
  The ports of a component (core/xf-io.c, include/xf-io.h). An input port queues the messages it
  is given and either copies their bytes into a buffer of its own or lets the component read them
  in place (bypass); an output port owns a pool of messages when it is routed to another
  component. Ports live in the component that owns them: the operations take a port and give back
  the changed one. The BUG checks are compiled out; where the code would go on with a null
  message the operation has no result.
\<close>

section \<open>Memory\<close>

text \<open>\<open>memcpy\<close> and \<open>memset\<close> on the bytes. The copy runs upwards byte by byte, which is what a call with
  overlapping areas in \<open>xf_input_port_consume\<close> relies on ("safe to use memcpy").\<close>

definition mem_copy :: "addr \<Rightarrow> addr \<Rightarrow> u32 \<Rightarrow> (addr \<Rightarrow> u8) \<Rightarrow> addr \<Rightarrow> u8" where
  "mem_copy dst src n d = fold (\<lambda>i d. d(dst + of_nat i := d (src + of_nat i))) [0 ..< unat n] d"

definition mem_set :: "addr \<Rightarrow> u8 \<Rightarrow> u32 \<Rightarrow> (addr \<Rightarrow> u8) \<Rightarrow> addr \<Rightarrow> u8" where
  "mem_set dst v n d = fold (\<lambda>i d. d(dst + of_nat i := v)) [0 ..< unat n] d"

section \<open>Input ports\<close>

record xf_input_port =
  ip_queue :: xf_msg_queue
  ip_buffer :: addr
  ip_length :: u32
  ip_filled :: u32
  ip_access :: addr
  ip_remaining :: u32
  ip_flags :: u32

definition XF_INPUT_FLAG_CREATED :: u32 where "XF_INPUT_FLAG_CREATED = push_bit 0 1"
definition XF_INPUT_FLAG_ENABLED :: u32 where "XF_INPUT_FLAG_ENABLED = push_bit 1 1"
definition XF_INPUT_FLAG_EOS :: u32 where "XF_INPUT_FLAG_EOS = push_bit 2 1"
definition XF_INPUT_FLAG_DONE :: u32 where "XF_INPUT_FLAG_DONE = push_bit 3 1"
definition XF_INPUT_FLAG_PURGING :: u32 where "XF_INPUT_FLAG_PURGING = push_bit 4 1"

definition XF_INPUT_FLAGS :: "u32 \<Rightarrow> u32" where
  "XF_INPUT_FLAGS flags = flags AND (push_bit 5 1 - 1)"

definition XF_INPUT_FLAG :: "u32 \<Rightarrow> u32" where
  "XF_INPUT_FLAG f = push_bit 5 f"

lemmas input_flag_defs = XF_INPUT_FLAG_CREATED_def XF_INPUT_FLAG_ENABLED_def XF_INPUT_FLAG_EOS_def
  XF_INPUT_FLAG_DONE_def XF_INPUT_FLAG_PURGING_def

definition xf_input_port_created :: "xf_input_port \<Rightarrow> bool" where
  "xf_input_port_created port \<longleftrightarrow> ip_flags port AND XF_INPUT_FLAG_CREATED \<noteq> 0"

definition xf_input_port_ready :: "xf_input_port \<Rightarrow> bool" where
  "xf_input_port_ready port \<longleftrightarrow> xf_msg_queue_head (ip_queue port) \<noteq> 0"

definition xf_input_port_done :: "xf_input_port \<Rightarrow> bool" where
  "xf_input_port_done port \<longleftrightarrow> ip_flags port AND XF_INPUT_FLAG_DONE \<noteq> 0"

definition xf_input_port_bypass :: "xf_input_port \<Rightarrow> bool" where
  "xf_input_port_bypass port \<longleftrightarrow> ip_buffer port = 0"

definition xf_input_port_data :: "xf_input_port \<Rightarrow> addr" where
  "xf_input_port_data port = ip_access port"

definition xf_input_port_length :: "xf_input_port \<Rightarrow> u32" where
  "xf_input_port_length port = ip_remaining port"

definition xf_input_port_level :: "xf_input_port \<Rightarrow> u32" where
  "xf_input_port_level port = ip_filled port"

definition xf_input_port_init ::
  "xf_input_port \<Rightarrow> u32 \<Rightarrow> u32 \<Rightarrow> u32 \<Rightarrow> xf_core \<Rightarrow> (xf_core \<times> xf_input_port \<times> (xf_errno + unit)) option"
where
  "xf_input_port_init port sz align core cd =
     Option.bind (if sz \<noteq> 0 then xf_mem_alloc sz align core 0 cd else Some (cd, 0)) (\<lambda>(cd, b).
       let port = port\<lparr>ip_buffer := b\<rparr> in
       if sz \<noteq> 0 \<and> b = 0 then Some (cd, port, Inl ENOMEM)
       else
         let port = port\<lparr>ip_queue := xf_msg_queue_init (ip_queue port)\<rparr>;
             port = port\<lparr>ip_length := sz\<rparr>;
             port = port\<lparr>ip_flags := XF_INPUT_FLAG_ENABLED OR XF_INPUT_FLAG_CREATED\<rparr>;
             port = port\<lparr>ip_filled := 0, ip_access := 0\<rparr>
         in Some (cd, port, Inr ()))"

definition xf_input_port_put :: "xf_input_port \<Rightarrow> addr \<Rightarrow> xf_core \<Rightarrow> (xf_core \<times> xf_input_port \<times> bool) option" where
  "xf_input_port_put port m cd =
     (if ip_flags port AND XF_INPUT_FLAG_ENABLED = 0 then
        map_option (\<lambda>cd. (cd, port, False)) (xf_response_ok m cd)
      else
        let port = (if m_length (c_msgs cd m) = 0
                    then port\<lparr>ip_flags := ip_flags port XOR (XF_INPUT_FLAG_ENABLED OR XF_INPUT_FLAG_EOS)\<rparr> else port);
            (q, h, first) = xf_msg_enqueue (ip_queue port) m (c_msgs cd);
            port = port\<lparr>ip_queue := q\<rparr>;
            cd = cd\<lparr>c_msgs := h\<rparr>
        in if first then
             let port = port\<lparr>ip_access := m_buffer (c_msgs cd m), ip_remaining := m_length (c_msgs cd m)\<rparr>;
                 port = (if ip_access port = 0
                         then port\<lparr>ip_flags := ip_flags port XOR (XF_INPUT_FLAG_EOS OR XF_INPUT_FLAG_DONE)\<rparr> else port)
             in Some (cd, port, True)
           else Some (cd, port, False))"

definition xf_input_port_complete :: "xf_input_port \<Rightarrow> xf_core \<Rightarrow> (xf_core \<times> xf_input_port \<times> bool) option" where
  "xf_input_port_complete port cd =
     (let (q, h, m) = xf_msg_dequeue (ip_queue port) (c_msgs cd);
          port = port\<lparr>ip_queue := q\<rparr>;
          cd = cd\<lparr>c_msgs := h\<rparr>
      in if m = 0 then None
         else
           Option.bind (xf_response m cd) (\<lambda>cd.
             let m = xf_msg_queue_head (ip_queue port) in
             if m \<noteq> 0 then
               Some (cd, port\<lparr>ip_access := m_buffer (c_msgs cd m), ip_remaining := m_length (c_msgs cd m)\<rparr>, True)
             else Some (cd, port\<lparr>ip_access := 0\<rparr>, False)))"

text \<open>The loop of \<open>xf_input_port_fill\<close> on the local variables filled, remaining and the signed n.\<close>

partial_function (option) port_fill_loop ::
  "xf_input_port \<Rightarrow> u32 \<Rightarrow> u32 \<Rightarrow> u32 \<Rightarrow> xf_core \<Rightarrow> (xf_core \<times> xf_input_port \<times> u32 \<times> u32 \<times> u32) option"
where
  "port_fill_loop port filled remaining n cd =
     (if \<not> 0 <s n then Some (cd, port, filled, remaining, n)
      else
        let k = (if remaining > n then n else remaining) in
        if k = 0 then
          Some (cd, port\<lparr>ip_flags := ip_flags port XOR (XF_INPUT_FLAG_EOS OR XF_INPUT_FLAG_DONE)\<rparr>, filled, remaining, 0)
        else
          let cd = cd\<lparr>c_data := mem_copy (ip_buffer port + filled) (ip_access port) k (c_data cd)\<rparr>;
              port = port\<lparr>ip_access := ip_access port + k\<rparr>;
              filled = filled + k;
              n = n - k;
              remaining = remaining - k
          in if remaining = 0 then
               Option.bind (xf_input_port_complete port cd) (\<lambda>(cd, port, more).
                 if \<not> more then Some (cd, port, filled, remaining, n)
                 else port_fill_loop port filled (ip_remaining port) n cd)
             else port_fill_loop port filled remaining n cd)"

definition xf_input_port_fill :: "xf_input_port \<Rightarrow> xf_core \<Rightarrow> (xf_core \<times> xf_input_port \<times> bool) option" where
  "xf_input_port_fill port cd =
     (if xf_msg_queue_head (ip_queue port) = 0 then Some (cd, port, False)
      else
        map_option (\<lambda>(cd, port, filled, remaining, n). (cd, port\<lparr>ip_filled := filled, ip_remaining := remaining\<rparr>, n = 0))
          (port_fill_loop port (ip_filled port) (ip_remaining port) (ip_length port - ip_filled port) cd))"

definition xf_input_port_pad :: "xf_input_port \<Rightarrow> u8 \<Rightarrow> xf_core \<Rightarrow> xf_core \<times> xf_input_port" where
  "xf_input_port_pad port pad cd =
     (let filled = ip_filled port;
          k = ip_length port - filled
      in if 0 <s k then
           (cd\<lparr>c_data := mem_set (ip_buffer port + filled) pad k (c_data cd)\<rparr>, port\<lparr>ip_filled := ip_length port\<rparr>)
         else (cd, port))"

definition xf_input_port_consume :: "xf_input_port \<Rightarrow> u32 \<Rightarrow> xf_core \<Rightarrow> (xf_core \<times> xf_input_port) option" where
  "xf_input_port_consume port n cd =
     (if xf_input_port_bypass port then
        let port = port\<lparr>ip_remaining := ip_remaining port - n\<rparr> in
        if ip_remaining port = 0 then
          map_option (\<lambda>(cd, port, _).
            (cd, if xf_msg_queue_head (ip_queue port) \<noteq> 0 \<and> ip_access port = 0
                 then port\<lparr>ip_flags := ip_flags port XOR (XF_INPUT_FLAG_EOS OR XF_INPUT_FLAG_DONE)\<rparr> else port))
            (xf_input_port_complete port cd)
        else Some (cd, port\<lparr>ip_access := ip_access port + n\<rparr>)
      else if ip_filled port > n then
        let k = ip_filled port - n in
        Some (cd\<lparr>c_data := mem_copy (ip_buffer port) (ip_buffer port + n) k (c_data cd)\<rparr>, port\<lparr>ip_filled := k\<rparr>)
      else Some (cd, port\<lparr>ip_filled := 0\<rparr>))"

text \<open>The loop that answers all queued messages, in \<open>xf_input_port_purge\<close> and in \<open>xf_output_port_flush\<close>.\<close>

partial_function (option) port_drain :: "xf_msg_queue \<Rightarrow> xf_core \<Rightarrow> (xf_core \<times> xf_msg_queue) option" where
  "port_drain q cd =
     (let (q, h, m) = xf_msg_dequeue q (c_msgs cd);
          cd = cd\<lparr>c_msgs := h\<rparr>
      in if m \<noteq> 0 then Option.bind (xf_response_ok m cd) (port_drain q) else Some (cd, q))"

definition xf_input_port_purge :: "xf_input_port \<Rightarrow> xf_core \<Rightarrow> (xf_core \<times> xf_input_port) option" where
  "xf_input_port_purge port cd =
     (if \<not> xf_input_port_created port then Some (cd, port)
      else
        map_option (\<lambda>(cd, q).
          let port = port\<lparr>ip_queue := q\<rparr>;
              port = port\<lparr>ip_filled := 0, ip_access := 0\<rparr>
          in (cd, port\<lparr>ip_flags := (ip_flags port AND NOT (XF_INPUT_FLAGS (NOT 0))) OR XF_INPUT_FLAG_ENABLED OR XF_INPUT_FLAG_CREATED\<rparr>))
          (port_drain (ip_queue port) cd))"

definition xf_input_port_control_save :: "xf_input_port \<Rightarrow> addr \<Rightarrow> xf_core \<Rightarrow> xf_core \<times> xf_input_port" where
  "xf_input_port_control_save port m cd =
     (let (q, h, _) = xf_msg_enqueue (ip_queue port) m (c_msgs cd);
          port = port\<lparr>ip_queue := q\<rparr>
      in (cd\<lparr>c_msgs := h\<rparr>, port\<lparr>ip_flags := ip_flags port XOR XF_INPUT_FLAG_PURGING\<rparr>))"

definition xf_input_port_purge_done :: "xf_input_port \<Rightarrow> xf_core \<Rightarrow> (xf_core \<times> xf_input_port) option" where
  "xf_input_port_purge_done port cd =
     (let (q, h, m) = xf_msg_dequeue (ip_queue port) (c_msgs cd);
          port = port\<lparr>ip_queue := q\<rparr>;
          cd = cd\<lparr>c_msgs := h\<rparr>
      in if m = 0 then None
         else map_option (\<lambda>cd. (cd, port\<lparr>ip_flags := ip_flags port XOR XF_INPUT_FLAG_PURGING\<rparr>)) (xf_response_ok m cd))"

definition xf_input_port_destroy :: "xf_input_port \<Rightarrow> u32 \<Rightarrow> xf_core \<Rightarrow> (xf_core \<times> xf_input_port) option" where
  "xf_input_port_destroy port core cd =
     (if \<not> xf_input_port_created port then Some (cd, port)
      else
        Option.bind (if ip_buffer port \<noteq> 0
                     then map_option (\<lambda>cd. (cd, port\<lparr>ip_buffer := 0\<rparr>)) (xf_mem_free (ip_buffer port) (ip_length port) core 0 cd)
                     else Some (cd, port)) (\<lambda>(cd, port). Some (cd, port\<lparr>ip_flags := 0\<rparr>)))"

section \<open>Output ports\<close>

record xf_output_port =
  op_queue :: xf_msg_queue
  op_pool :: xf_msg_pool
  op_unroute :: addr
  op_length :: u32
  op_flags :: u32

definition XF_OUTPUT_FLAG_CREATED :: u32 where "XF_OUTPUT_FLAG_CREATED = push_bit 0 1"
definition XF_OUTPUT_FLAG_ROUTED :: u32 where "XF_OUTPUT_FLAG_ROUTED = push_bit 1 1"
definition XF_OUTPUT_FLAG_ENABLED :: u32 where "XF_OUTPUT_FLAG_ENABLED = push_bit 2 1"
definition XF_OUTPUT_FLAG_DONE :: u32 where "XF_OUTPUT_FLAG_DONE = push_bit 3 1"
definition XF_OUTPUT_FLAG_FLUSHING :: u32 where "XF_OUTPUT_FLAG_FLUSHING = push_bit 4 1"
definition XF_OUTPUT_FLAG_IDLE :: u32 where "XF_OUTPUT_FLAG_IDLE = push_bit 5 1"
definition XF_OUTPUT_FLAG_UNROUTING :: u32 where "XF_OUTPUT_FLAG_UNROUTING = push_bit 6 1"

definition XF_OUTPUT_FLAGS :: "u32 \<Rightarrow> u32" where
  "XF_OUTPUT_FLAGS flags = flags AND (push_bit 7 1 - 1)"

definition XF_OUTPUT_FLAG :: "u32 \<Rightarrow> u32" where
  "XF_OUTPUT_FLAG f = push_bit 7 f"

lemmas output_flag_defs = XF_OUTPUT_FLAG_CREATED_def XF_OUTPUT_FLAG_ROUTED_def XF_OUTPUT_FLAG_ENABLED_def
  XF_OUTPUT_FLAG_DONE_def XF_OUTPUT_FLAG_FLUSHING_def XF_OUTPUT_FLAG_IDLE_def XF_OUTPUT_FLAG_UNROUTING_def

definition xf_output_port_created :: "xf_output_port \<Rightarrow> bool" where
  "xf_output_port_created port \<longleftrightarrow> op_flags port AND XF_OUTPUT_FLAG_CREATED \<noteq> 0"

definition xf_output_port_routed :: "xf_output_port \<Rightarrow> bool" where
  "xf_output_port_routed port \<longleftrightarrow> op_flags port AND XF_OUTPUT_FLAG_ROUTED \<noteq> 0"

definition xf_output_port_unrouting :: "xf_output_port \<Rightarrow> bool" where
  "xf_output_port_unrouting port \<longleftrightarrow> op_flags port AND XF_OUTPUT_FLAG_UNROUTING \<noteq> 0"

definition xf_output_port_idle :: "xf_output_port \<Rightarrow> bool" where
  "xf_output_port_idle port \<longleftrightarrow> op_flags port AND XF_OUTPUT_FLAG_IDLE \<noteq> 0"

definition xf_output_port_ready :: "xf_output_port \<Rightarrow> bool" where
  "xf_output_port_ready port \<longleftrightarrow> xf_msg_queue_head (op_queue port) \<noteq> 0 \<and> \<not> xf_output_port_unrouting port"

definition xf_output_port_control_msg :: "u32 \<Rightarrow> xf_output_port \<Rightarrow> addr" where
  "xf_output_port_control_msg al port = xf_msg_pool_item al (op_pool port) 0"

definition xf_output_port_init :: "xf_output_port \<Rightarrow> u32 \<Rightarrow> xf_output_port" where
  "xf_output_port_init port sz =
     (let port = port\<lparr>op_queue := xf_msg_queue_init (op_queue port)\<rparr>;
          port = port\<lparr>op_length := sz\<rparr>
      in port\<lparr>op_flags := XF_OUTPUT_FLAG_CREATED\<rparr>)"

text \<open>The buffers of a routed port, allocated from the first message on, and the cleanup after a failed
  allocation: \<open>while (--i)\<close> releases the buffers of the messages before i.\<close>

partial_function (option) port_route_loop ::
  "u32 \<Rightarrow> u32 \<Rightarrow> u32 \<Rightarrow> u32 \<Rightarrow> u32 \<Rightarrow> u32 \<Rightarrow> xf_output_port \<Rightarrow> xf_core \<Rightarrow> (xf_core \<times> xf_output_port \<times> u32 \<times> bool) option"
where
  "port_route_loop al i n i_d len align port cd =
     (if \<not> i \<le> n then Some (cd, port, i, True)
      else
        let m = xf_msg_pool_item al (op_pool port) i;
            cd = msg_upd m (\<lambda>x. x\<lparr>m_next := 0\<rparr>) cd;
            cd = msg_upd m (\<lambda>x. x\<lparr>m_id := i_d, m_opcode := XF_FILL_THIS_BUFFER, m_length := len\<rparr>) cd
        in Option.bind (xf_mem_alloc len align (XF_MSG_DST_CORE i_d) (XF_MSG_SHARED i_d) cd) (\<lambda>(cd, b).
             let cd = msg_upd m (\<lambda>x. x\<lparr>m_buffer := b\<rparr>) cd in
             if b = 0 then Some (cd, port, i, False)
             else
               let (q, h, _) = xf_msg_enqueue (op_queue port) m (c_msgs cd)
               in port_route_loop al (i + 1) n i_d len align (port\<lparr>op_queue := q\<rparr>) (cd\<lparr>c_msgs := h\<rparr>)))"

partial_function (option) port_route_cleanup :: "u32 \<Rightarrow> u32 \<Rightarrow> u32 \<Rightarrow> u32 \<Rightarrow> xf_output_port \<Rightarrow> xf_core \<Rightarrow> xf_core option" where
  "port_route_cleanup al i i_d len port cd =
     (let i = i - 1 in
      if i \<noteq> 0 then
        let m = xf_msg_pool_item al (op_pool port) i
        in Option.bind (xf_mem_free (m_buffer (c_msgs cd m)) len (XF_MSG_DST_CORE i_d) (XF_MSG_SHARED i_d) cd)
             (port_route_cleanup al i i_d len port)
      else Some cd)"

definition xf_output_port_route ::
  "u32 \<Rightarrow> xf_output_port \<Rightarrow> u32 \<Rightarrow> u32 \<Rightarrow> u32 \<Rightarrow> u32 \<Rightarrow> xf_core \<Rightarrow> (xf_core \<times> xf_output_port \<times> (xf_errno + unit)) option"
where
  "xf_output_port_route al port i_d n len align cd =
     Option.bind (xf_msg_pool_init al (op_pool port) (n + 1) (XF_MSG_DST_CORE i_d) cd) (\<lambda>(cd, pool, r).
       let port = port\<lparr>op_pool := pool\<rparr> in
       case r of
         Inl e \<Rightarrow> Some (cd, port, Inl e)
       | Inr _ \<Rightarrow>
           Option.bind (port_route_loop al 1 n i_d len align port cd) (\<lambda>(cd, port, i, ok).
             if ok then
               let m = xf_output_port_control_msg al port;
                   cd = msg_upd m (\<lambda>x. x\<lparr>m_id := i_d, m_length := 0, m_buffer := 0\<rparr>) cd;
                   cd = msg_upd m (\<lambda>x. x\<lparr>m_next := 0\<rparr>) cd;
                   port = port\<lparr>op_length := len\<rparr>;
                   port = port\<lparr>op_flags := op_flags port OR XF_OUTPUT_FLAG_ROUTED OR XF_OUTPUT_FLAG_IDLE\<rparr>
               in Some (cd, port, Inr ())
             else
               Option.bind (port_route_cleanup al i i_d len port cd) (\<lambda>cd.
                 map_option (\<lambda>cd. (cd, port, Inl ENOMEM)) (xf_msg_pool_destroy al (op_pool port) (XF_MSG_DST_CORE i_d) cd))))"

definition xf_output_port_unroute_start :: "xf_output_port \<Rightarrow> addr \<Rightarrow> xf_output_port" where
  "xf_output_port_unroute_start port m =
     (let port = port\<lparr>op_unroute := m\<rparr> in port\<lparr>op_flags := op_flags port OR XF_OUTPUT_FLAG_UNROUTING\<rparr>)"

partial_function (option) port_unroute_loop :: "u32 \<Rightarrow> u32 \<Rightarrow> u32 \<Rightarrow> u32 \<Rightarrow> xf_output_port \<Rightarrow> xf_core \<Rightarrow> xf_core option" where
  "port_unroute_loop al i n i_d port cd =
     (if \<not> i \<le> n then Some cd
      else
        let m = xf_msg_pool_item al (op_pool port) i
        in Option.bind (xf_mem_free (m_buffer (c_msgs cd m)) (op_length port) (XF_MSG_DST_CORE i_d) (XF_MSG_SHARED i_d) cd)
             (port_unroute_loop al (i + 1) n i_d port))"

definition xf_output_port_unroute :: "u32 \<Rightarrow> xf_output_port \<Rightarrow> xf_core \<Rightarrow> (xf_core \<times> xf_output_port) option" where
  "xf_output_port_unroute al port cd =
     (let m = xf_output_port_control_msg al port;
          i_d = m_id (c_msgs cd m);
          n = pl_n (op_pool port) - 1
      in Option.bind (port_unroute_loop al 1 n i_d port cd) (\<lambda>cd.
           Option.bind (xf_msg_pool_destroy al (op_pool port) (XF_MSG_DST_CORE i_d) cd) (\<lambda>cd.
             let port = port\<lparr>op_flags := XF_OUTPUT_FLAG_CREATED\<rparr>
             in Some (cd, port\<lparr>op_queue := xf_msg_queue_init (op_queue port)\<rparr>))))"

definition xf_output_port_unroute_done :: "u32 \<Rightarrow> xf_output_port \<Rightarrow> xf_core \<Rightarrow> (xf_core \<times> xf_output_port) option" where
  "xf_output_port_unroute_done al port cd =
     (let m = op_unroute port;
          port = port\<lparr>op_unroute := 0\<rparr>
      in Option.bind (xf_output_port_unroute al port cd) (\<lambda>(cd, port).
           map_option (\<lambda>cd. (cd, port)) (xf_response_ok m cd)))"

definition xf_output_port_put :: "xf_output_port \<Rightarrow> addr \<Rightarrow> xf_core \<Rightarrow> xf_core \<times> xf_output_port \<times> bool" where
  "xf_output_port_put port m cd =
     (let (q, h, first) = xf_msg_enqueue (op_queue port) m (c_msgs cd)
      in (cd\<lparr>c_msgs := h\<rparr>, port\<lparr>op_queue := q\<rparr>, first))"

definition xf_output_port_data :: "xf_output_port \<Rightarrow> xf_core \<Rightarrow> addr" where
  "xf_output_port_data port cd =
     (let m = xf_msg_queue_head (op_queue port) in if m = 0 then 0 else m_buffer (c_msgs cd m))"

definition xf_output_port_produce :: "xf_output_port \<Rightarrow> u32 \<Rightarrow> xf_core \<Rightarrow> (xf_core \<times> xf_output_port \<times> bool) option" where
  "xf_output_port_produce port n cd =
     (let (q, h, m) = xf_msg_dequeue (op_queue port) (c_msgs cd);
          port = port\<lparr>op_queue := q\<rparr>;
          cd = cd\<lparr>c_msgs := h\<rparr>
      in if m = 0 then None
         else
           map_option (\<lambda>cd.
             let port = port\<lparr>op_flags := op_flags port AND NOT XF_OUTPUT_FLAG_IDLE\<rparr>
             in (cd, port, xf_msg_queue_head (op_queue port) \<noteq> 0)) (xf_response_data m n cd))"

definition xf_output_port_flush :: "u32 \<Rightarrow> xf_output_port \<Rightarrow> u32 \<Rightarrow> xf_core \<Rightarrow> (xf_core \<times> xf_output_port \<times> bool) option" where
  "xf_output_port_flush al port opcode cd =
     (if xf_output_port_routed port then
        if op_flags port AND XF_OUTPUT_FLAG_IDLE \<noteq> 0 then Some (cd, port, True)
        else if op_flags port AND XF_OUTPUT_FLAG_FLUSHING = 0 then
          let port = port\<lparr>op_flags := op_flags port XOR XF_OUTPUT_FLAG_FLUSHING\<rparr>;
              m = xf_output_port_control_msg al port;
              cd = msg_upd m (\<lambda>x. x\<lparr>m_opcode := opcode\<rparr>) cd
          in map_option (\<lambda>cd. (cd, port, False)) (xf_response m cd)
        else Some (cd, port, False)
      else
        map_option (\<lambda>(cd, q). (cd, port\<lparr>op_queue := q\<rparr>, True)) (port_drain (op_queue port) cd))"

definition xf_output_port_flush_done :: "xf_output_port \<Rightarrow> xf_output_port" where
  "xf_output_port_flush_done port =
     port\<lparr>op_flags := op_flags port XOR (XF_OUTPUT_FLAG_IDLE OR XF_OUTPUT_FLAG_FLUSHING)\<rparr>"

definition xf_output_port_destroy :: "u32 \<Rightarrow> xf_output_port \<Rightarrow> u32 \<Rightarrow> xf_core \<Rightarrow> (xf_core \<times> xf_output_port) option" where
  "xf_output_port_destroy al port core cd =
     Option.bind (if xf_output_port_routed port then xf_output_port_unroute al port cd else Some (cd, port)) (\<lambda>(cd, port).
       Some (cd, port\<lparr>op_flags := 0\<rparr>))"

end
