(* ===== verification/XF_Io_Queue.thy ===== *)
theory XF_Io_Queue
  imports XF_Service XF_Io
begin

text \<open>
  Byte areas, and the messages a port holds: taking the oldest message and answering it, one at a
  time or all of them. What the ports do with a message is stated once here and shared by input
  and output ports and by the codec classes.
\<close>

section \<open>Flags\<close>

lemma and_flag_0 [flag_simps]: "(w :: u32) AND push_bit k 1 = 0 \<longleftrightarrow> k < 32 \<longrightarrow> \<not> bit w k"
proof
  assume z: "w AND push_bit k 1 = 0"
  show "k < 32 \<longrightarrow> \<not> bit w k"
  proof
    assume "k < 32"
    then have "bit (w AND push_bit k 1) k \<longleftrightarrow> bit w k" by (simp add: bit_simps)
    then show "\<not> bit w k" using z by simp
  qed
next
  assume "k < 32 \<longrightarrow> \<not> bit w k"
  then show "w AND push_bit k 1 = 0" by (intro bit_word_eqI) (auto simp: bit_simps)
qed

section \<open>Byte areas\<close>

definition bytes_at :: "(addr \<Rightarrow> u8) \<Rightarrow> addr \<Rightarrow> nat \<Rightarrow> u8 list" where
  "bytes_at d a n = map (\<lambda>i. d (a + of_nat i)) [0 ..< n]"

definition area :: "addr \<Rightarrow> nat \<Rightarrow> addr set" where
  "area a n = (\<lambda>i. a + of_nat i) ` {..< n}"

lemma bytes_at_length [simp]: "length (bytes_at d a n) = n"
  by (simp add: bytes_at_def)

lemma bytes_at_0 [simp]: "bytes_at d a 0 = []"
  by (simp add: bytes_at_def)

lemma bytes_at_nth [simp]: "i < n \<Longrightarrow> bytes_at d a n ! i = d (a + of_nat i)"
  by (simp add: bytes_at_def)

lemma bytes_at_cong: "(\<And>i. i < n \<Longrightarrow> d' (a + of_nat i) = d (a + of_nat i)) \<Longrightarrow> bytes_at d' a n = bytes_at d a n"
  by (simp add: bytes_at_def)

lemma bytes_at_outside: "(\<And>x. x \<notin> A \<Longrightarrow> d' x = d x) \<Longrightarrow> area a n \<inter> A = {} \<Longrightarrow> bytes_at d' a n = bytes_at d a n"
  by (rule bytes_at_cong) (auto simp: area_def)

lemma bytes_at_add: "bytes_at d a (m + n) = bytes_at d a m @ bytes_at d (a + of_nat m) n"
  by (rule nth_equalityI) (auto simp: nth_append add.assoc simp flip: of_nat_add)

lemma bytes_at_take: "m \<le> n \<Longrightarrow> take m (bytes_at d a n) = bytes_at d a m"
  using bytes_at_add [of d a m "n - m"] by simp

lemma bytes_at_drop: "m \<le> n \<Longrightarrow> drop m (bytes_at d a n) = bytes_at d (a + of_nat m) (n - m)"
  using bytes_at_add [of d a m "n - m"] by simp

lemma area_sub: "m + k \<le> n \<Longrightarrow> area (a + of_nat m) k \<subseteq> area a n"
proof
  fix x assume k: "m + k \<le> n" and "x \<in> area (a + of_nat m) k"
  then obtain i where "i < k" "x = a + of_nat m + of_nat i" by (auto simp: area_def)
  then have "x = a + of_nat (m + i)" "m + i < n" using k by (simp_all add: add.assoc)
  then show "x \<in> area a n" unfolding area_def by blast
qed

lemma area_mono: "k \<le> n \<Longrightarrow> area a k \<subseteq> area a n"
  using area_sub [of 0 k n a] by simp

lemma of_nat_u32_eq: "i < 2 ^ 32 \<Longrightarrow> j < 2 ^ 32 \<Longrightarrow> (of_nat i :: addr) = of_nat j \<longleftrightarrow> i = j"
proof -
  assume "i < 2 ^ 32" and "j < 2 ^ 32"
  then have "unat (of_nat i :: addr) = i" "unat (of_nat j :: addr) = j" by (simp_all add: unat_of_nat_u32)
  then show "(of_nat i :: addr) = of_nat j \<longleftrightarrow> i = j" by (metis)
qed

lemma unat_le_u32: "unat (n :: u32) \<le> 2 ^ 32"
  using unsigned_less [of n, where 'a = nat] by simp

lemma add_unat: "(a :: addr) + of_nat (unat n) = a + n"
  by simp

text \<open>A copy that never reads a byte it has already overwritten.\<close>

lemma mem_copy_forward:
  assumes "\<And>i j. i < j \<Longrightarrow> j < unat n \<Longrightarrow> dst + of_nat i \<noteq> src + of_nat j"
  shows "\<And>i. i < unat n \<Longrightarrow> mem_copy dst src n d (dst + of_nat i) = d (src + of_nat i)"
    and "\<And>x. x \<notin> area dst (unat n) \<Longrightarrow> mem_copy dst src n d x = d x"
proof -
  define F where "F m = fold (\<lambda>i d. d(dst + of_nat i := d (src + of_nat i))) [0 ..< m] d" for m
  have F: "F 0 = d" "F (Suc m) = (F m)(dst + of_nat m := F m (src + of_nat m))" for m by (simp_all add: F_def)
  have "(\<forall>i<m. F m (dst + of_nat i) = d (src + of_nat i)) \<and> (\<forall>x. x \<notin> area dst m \<longrightarrow> F m x = d x)" if "m \<le> unat n" for m
    using that
  proof (induction m)
    case (Suc m)
    then have IH: "\<forall>i<m. F m (dst + of_nat i) = d (src + of_nat i)" "\<forall>x. x \<notin> area dst m \<longrightarrow> F m x = d x" by simp_all
    have "src + of_nat m \<notin> area dst m" using assms [of _ m] Suc.prems by (force simp: area_def)
    then have r: "F m (src + of_nat m) = d (src + of_nat m)" using IH(2) by blast
    have ne: "dst + of_nat i \<noteq> dst + of_nat m" if "i < m" for i
      using of_nat_u32_eq [of i m] that Suc.prems unat_le_u32 [of n] by simp
    have s: "area dst (Suc m) = insert (dst + of_nat m) (area dst m)" by (auto simp: area_def less_Suc_eq)
    show ?case using IH ne r by (simp add: less_Suc_eq s F)
  qed (simp add: area_def F)
  from this [of "unat n"] show "\<And>i. i < unat n \<Longrightarrow> mem_copy dst src n d (dst + of_nat i) = d (src + of_nat i)"
    "\<And>x. x \<notin> area dst (unat n) \<Longrightarrow> mem_copy dst src n d x = d x"
    by (simp_all add: mem_copy_def F_def)
qed

lemma mem_copy_apart:
  assumes "area dst (unat n) \<inter> area src (unat n) = {}"
  shows "bytes_at (mem_copy dst src n d) dst (unat n) = bytes_at d src (unat n)"
    and "\<And>x. x \<notin> area dst (unat n) \<Longrightarrow> mem_copy dst src n d x = d x"
proof -
  have c: "dst + of_nat i \<noteq> src + of_nat j" if "i < j" "j < unat n" for i j
    using assms that less_trans [OF that] unfolding area_def by blast
  note f = mem_copy_forward [OF c]
  show "bytes_at (mem_copy dst src n d) dst (unat n) = bytes_at d src (unat n)"
    by (rule nth_equalityI) (simp_all add: f(1))
  show "\<And>x. x \<notin> area dst (unat n) \<Longrightarrow> mem_copy dst src n d x = d x" by (rule f(2))
qed

lemma mem_copy_down:
  assumes "unat k + unat n < 2 ^ 32"
  shows "bytes_at (mem_copy b (b + k) n d) b (unat n) = bytes_at d (b + k) (unat n)"
    and "\<And>x. x \<notin> area b (unat n) \<Longrightarrow> mem_copy b (b + k) n d x = d x"
proof -
  have c: "b + of_nat i \<noteq> b + k + of_nat j" if "i < j" "j < unat n" for i j
  proof
    assume "b + of_nat i = b + k + of_nat j"
    then have "of_nat i = (of_nat (unat k + j) :: addr)" by simp
    then show False using of_nat_u32_eq [of i "unat k + j"] that assms by simp
  qed
  note f = mem_copy_forward [OF c]
  show "bytes_at (mem_copy b (b + k) n d) b (unat n) = bytes_at d (b + k) (unat n)"
    by (rule nth_equalityI) (simp_all add: f(1))
  show "\<And>x. x \<notin> area b (unat n) \<Longrightarrow> mem_copy b (b + k) n d x = d x" by (rule f(2))
qed

lemma mem_set_bytes:
  shows "bytes_at (mem_set b v n d) b (unat n) = replicate (unat n) v"
    and "\<And>x. x \<notin> area b (unat n) \<Longrightarrow> mem_set b v n d x = d x"
proof -
  define F where "F m = fold (\<lambda>i d. d(b + of_nat i := v)) [0 ..< m] d" for m
  have F: "F 0 = d" "F (Suc m) = (F m)(b + of_nat m := v)" for m by (simp_all add: F_def)
  have "(\<forall>i<m. F m (b + of_nat i) = v) \<and> (\<forall>x. x \<notin> area b m \<longrightarrow> F m x = d x)" for m
  proof (induction m)
    case (Suc m)
    have s: "area b (Suc m) = insert (b + of_nat m) (area b m)" by (auto simp: area_def less_Suc_eq)
    show ?case using Suc.IH by (simp add: less_Suc_eq s F)
  qed (simp add: area_def F)
  from this [of "unat n"] have "\<And>i. i < unat n \<Longrightarrow> mem_set b v n d (b + of_nat i) = v"
    and r: "\<And>x. x \<notin> area b (unat n) \<Longrightarrow> mem_set b v n d x = d x" by (simp_all add: mem_set_def F_def)
  then show "bytes_at (mem_set b v n d) b (unat n) = replicate (unat n) v" by (intro nth_equalityI) simp_all
  show "\<And>x. x \<notin> area b (unat n) \<Longrightarrow> mem_set b v n d x = d x" by (rule r)
qed

section \<open>The messages of a port\<close>

text \<open>A port queue next to the queues of the core: its messages are in none of them, and both ends of
  each are on the only core.\<close>

definition port_q :: "xf_core \<Rightarrow> addr list \<Rightarrow> (ipc_queue \<Rightarrow> addr list) \<Rightarrow> xf_msg_queue \<Rightarrow> addr list \<Rightarrow> bool" where
  "port_q cd P L q ms \<longleftrightarrow>
     ipc_at cd P L \<and> queue_at (c_msgs cd) q ms \<and> set ms \<inter> ipc_set P L = {} \<and>
     (\<forall>m\<in>set ms. XF_MSG_SRC_CORE (m_id (c_msgs cd m)) = 0 \<and> XF_MSG_DST_CORE (m_id (c_msgs cd m)) = 0)"

text \<open>The lists after the messages ms have been answered, in this order.\<close>

definition replied :: "(addr \<Rightarrow> u32) \<Rightarrow> addr list \<Rightarrow> (ipc_queue \<Rightarrow> addr list) \<Rightarrow> ipc_queue \<Rightarrow> addr list" where
  "replied i ms L = (\<lambda>k. L k @ filter (\<lambda>m. reply_queue (i m) = k) ms)"

lemma replied_Nil [simp]: "replied i [] L = L"
  by (simp add: replied_def)

lemma replied_Cons: "replied i (m # ms) L = replied i ms (L(reply_queue (i m) := L (reply_queue (i m)) @ [m]))"
  by (auto simp: replied_def)

lemma replied_append: "replied i (as @ bs) L = replied i bs (replied i as L)"
  by (simp add: replied_def)

lemma replied_cong: "(\<And>m. m \<in> set ms \<Longrightarrow> i m = j m) \<Longrightarrow> replied i ms L = replied j ms L"
  by (auto simp: replied_def intro!: filter_cong)

lemma ipc_set_replied: "ipc_set P (replied i ms L) = ipc_set P L \<union> set ms"
  by (auto simp: ipc_set_def replied_def)

lemma ipc_set_add: "ipc_set P (L(k := L k @ [m])) = insert m (ipc_set P L)"
  by (auto simp: ipc_set_def split: if_splits)

lemma port_q_distinct: "port_q cd P L q ms \<Longrightarrow> distinct ms \<and> 0 \<notin> set ms"
  by (auto simp: port_q_def dest: queue_at_distinct)

text \<open>What one answer leaves: the message, changed by f before it was completed, is at the end of its
  reply queue, and the rest of the port queue is as before.\<close>

definition port_answered :: "xf_core \<Rightarrow> addr \<Rightarrow> (xf_message \<Rightarrow> xf_message) \<Rightarrow> xf_core \<Rightarrow> bool" where
  "port_answered cd m f cd' \<longleftrightarrow>
     (let x = c_msgs cd m; x' = c_msgs cd' m in
      ipc_frame cd cd' \<and> m_id x' = msg_id_swap (m_id x) \<and>
      m_opcode x' = (if reply_queue (m_id x) = QRemote then m_opcode (f x) else xf_opcode_flip (m_opcode (f x))) \<and>
      m_length x' = m_length (f x) \<and> m_buffer x' = m_buffer (f x) \<and>
      (\<forall>a. a \<noteq> m \<longrightarrow> msg_data (c_msgs cd' a) = msg_data (c_msgs cd a)))"

definition plain_upd :: "(xf_message \<Rightarrow> xf_message) \<Rightarrow> bool" where
  "plain_upd f \<longleftrightarrow> (\<forall>x. m_next (f x) = m_next x \<and> m_id (f x) = m_id x) \<and>
     (\<forall>x y. msg_data x = msg_data y \<longrightarrow> msg_data (f x) = msg_data (f y))"

lemma plain_upds [simp]: "plain_upd (\<lambda>x. x)" "plain_upd (\<lambda>x. x\<lparr>m_length := n\<rparr>)"
  by (simp_all add: plain_upd_def msg_data_def)

lemma msg_upd_id [simp]: "msg_upd m (\<lambda>x. x) cd = cd"
  by (simp add: msg_upd_def)

lemma port_answer:
  assumes q: "port_q cd P L q (m # ms)" and f: "plain_upd f"
  shows "\<exists>q' h cd'. xf_msg_dequeue q (c_msgs cd) = (q', h, m) \<and> m \<noteq> 0 \<and>
    xf_msg_complete m (msg_upd m f (cd\<lparr>c_msgs := h\<rparr>)) = Some cd' \<and>
    port_q cd' P (L(reply_queue (m_id (c_msgs cd m)) := L (reply_queue (m_id (c_msgs cd m))) @ [m])) q' ms \<and>
    port_answered cd m f cd'"
proof -
  have at: "queue_at (c_msgs cd) q (m # ms)" and I: "ipc_at cd P L" and m: "m \<notin> ipc_set P L"
    and c: "XF_MSG_SRC_CORE (m_id (c_msgs cd m)) = 0" "XF_MSG_DST_CORE (m_id (c_msgs cd m)) = 0"
    and r: "set ms \<inter> ipc_set P L = {}" using q by (auto simp: port_q_def)
  have d: "m \<noteq> 0" "m \<notin> set ms" using queue_at_distinct [OF at] by auto
  from queue_dequeue [OF at] obtain q' h where e: "xf_msg_dequeue q (c_msgs cd) = (q', h, m)" "queue_at h q' ms"
    "msg_same {m} (c_msgs cd) h" by blast
  let ?c1 = "cd\<lparr>c_msgs := h\<rparr>" let ?c2 = "msg_upd m f ?c1" let ?k = "reply_queue (m_id (c_msgs cd m))"
  have dat: "msg_data (h a) = msg_data (c_msgs cd a)" for a using e(3) by (simp add: msg_same_def)
  have "pool_at h (ro_pool cd) P" using I m e(3) by (auto simp: ipc_at_def ipc_set_def intro!: pool_at_same [OF _ e(3)])
  moreover have "queue_at h (get_q k cd) (L k)" for k
    by (rule queue_at_same [OF _ e(3)]) (use I m in \<open>auto simp: ipc_at_def ipc_set_def\<close>)
  ultimately have I1: "ipc_at ?c1 P L" using I by (simp add: ipc_at_def)
  have f1: "m_next (f x) = m_next x" "m_id (f x) = m_id x" for x using f by (simp_all add: plain_upd_def)
  have i2: "m_id (c_msgs ?c2 m) = m_id (c_msgs cd m)" using f1 dat by (simp add: msg_data_eq_iff)
  have I2: "ipc_at ?c2 P L" by (rule ipc_at_msg_upd [OF I1]) (simp add: f1)
  have "XF_MSG_SRC_CORE (m_id (c_msgs ?c2 m)) = 0" using c i2 by simp
  from xf_msg_complete_at [OF I2 m d(1) this] obtain cd' where
    k: "xf_msg_complete m ?c2 = Some cd'" "ipc_completed ?c2 P L m cd'" by blast
  have cq: "complete_queue (m_id (c_msgs ?c2 m)) = ?k" unfolding i2 by (rule complete_queue_core [OF c(2)])
  have fm: "msg_data (f (h m)) = msg_data (f (c_msgs cd m))" using f dat [of m] unfolding plain_upd_def by blast
  have rest: "c_msgs cd' a = h a" if "a \<notin> insert m (ipc_set P L)" for a
    using k(2) that by (simp add: ipc_completed_def Let_def)
  have oth: "msg_data (c_msgs cd' a) = msg_data (c_msgs cd a)" if "a \<noteq> m" for a
    using k(2) that dat by (simp add: ipc_completed_def Let_def)
  have same: "c_msgs cd' x = h x" if "x \<in> set ms" for x
    by (rule rest) (use that r d in \<open>simp, blast\<close>)
  have qa: "queue_at (c_msgs cd') q' ms"
    using e(2) same unfolding queue_at_def by (auto elim!: msg_path_cong)
  have "ipc_at cd' P (L(?k := L ?k @ [m]))" using k(2) cq by (simp add: ipc_completed_def Let_def)
  moreover have "XF_MSG_SRC_CORE (m_id (c_msgs cd' a)) = 0 \<and> XF_MSG_DST_CORE (m_id (c_msgs cd' a)) = 0" if "a \<in> set ms" for a
  proof -
    have "a \<noteq> m" using that d(2) by blast
    from oth [OF this] have "m_id (c_msgs cd' a) = m_id (c_msgs cd a)" by (simp add: msg_data_eq_iff)
    then show ?thesis using that q by (simp add: port_q_def)
  qed
  ultimately have P: "port_q cd' P (L(?k := L ?k @ [m])) q' ms"
    unfolding port_q_def ipc_set_add using qa r d by auto
  have "ipc_frame cd cd'"
    using k(2) ipc_frame_trans [of cd ?c1 ?c2] ipc_frame_trans [of cd ?c2 cd'] by (simp add: ipc_completed_def Let_def)
  moreover have "reply_queue (m_id (c_msgs cd m)) = QRemote \<longleftrightarrow> XF_MSG_SRC_PROXY (m_id (c_msgs cd m)) \<noteq> 0"
    by (simp add: reply_queue_def)
  ultimately have "port_answered cd m f cd'"
    unfolding port_answered_def Let_def
    using k(2) i2 fm oth by (simp add: ipc_completed_def Let_def msg_data_eq_iff)
  with e(1) d(1) k(1) P show ?thesis by blast
qed

lemma port_empty: "port_q cd P L q [] \<Longrightarrow> xf_msg_dequeue q (c_msgs cd) = (q, c_msgs cd, 0)"
  by (simp add: port_q_def queue_dequeue_Nil)

lemma port_head: "port_q cd P L q ms \<Longrightarrow> xf_msg_queue_head q = (if ms = [] then 0 else hd ms)"
  unfolding port_q_def using queue_head_iff by blast

text \<open>Adding a message to the queue of a port, and answering a message that is not in it.\<close>

lemma port_enqueue:
  assumes q: "port_q cd P L q ms" and m: "m \<notin> ipc_set P L" "m \<notin> set ms" "m \<noteq> 0"
    and c: "XF_MSG_SRC_CORE (m_id (c_msgs cd m)) = 0" "XF_MSG_DST_CORE (m_id (c_msgs cd m)) = 0"
  shows "\<exists>q' h. xf_msg_enqueue q m (c_msgs cd) = (q', h, ms = []) \<and> port_q (cd\<lparr>c_msgs := h\<rparr>) P L q' (ms @ [m]) \<and>
    (\<forall>a. msg_data (h a) = msg_data (c_msgs cd a))"
proof -
  have at: "queue_at (c_msgs cd) q ms" and I: "ipc_at cd P L" and d: "set ms \<inter> ipc_set P L = {}" using q by (simp_all add: port_q_def)
  from queue_enqueue [OF at m(2,3)] obtain q' h where
    e: "xf_msg_enqueue q m (c_msgs cd) = (q', h, ms = [])" "queue_at h q' (ms @ [m])" "msg_same (insert m (set ms)) (c_msgs cd) h" by blast
  have dat: "msg_data (h a) = msg_data (c_msgs cd a)" for a using e(3) by (simp add: msg_same_def)
  have "pool_at h (ro_pool cd) P"
    by (rule pool_at_same [OF _ e(3)]) (use I m d in \<open>auto simp: ipc_at_def ipc_set_def\<close>)
  moreover have "queue_at h (get_q k cd) (L k)" for k
    by (rule queue_at_same [OF _ e(3)]) (use I m d in \<open>auto simp: ipc_at_def ipc_set_def\<close>)
  ultimately have "ipc_at (cd\<lparr>c_msgs := h\<rparr>) P L" using I by (simp add: ipc_at_def)
  moreover have "m_id (h a) = m_id (c_msgs cd a)" for a using dat [of a] by (simp add: msg_data_eq_iff)
  ultimately have "port_q (cd\<lparr>c_msgs := h\<rparr>) P L q' (ms @ [m])"
    using e(2) q m c by (simp add: port_q_def ball_Un)
  with e(1) dat show ?thesis by blast
qed

lemma port_other:
  assumes q: "port_q cd P L q ms" and m: "m \<notin> ipc_set P L" "m \<notin> set ms" "m \<noteq> 0"
    and c: "XF_MSG_SRC_CORE (m_id (c_msgs cd m)) = 0" "XF_MSG_DST_CORE (m_id (c_msgs cd m)) = 0"
    and f: "plain_upd f"
  shows "\<exists>cd'. xf_msg_complete m (msg_upd m f cd) = Some cd' \<and> port_q cd' P (replied (\<lambda>m. m_id (c_msgs cd m)) [m] L) q ms \<and>
    port_answered cd m f cd'"
proof -
  let ?c = "msg_upd m f cd" let ?k = "reply_queue (m_id (c_msgs cd m))"
  have I: "ipc_at cd P L" using q by (simp add: port_q_def)
  have f1: "m_next (f x) = m_next x" "m_id (f x) = m_id x" for x using f by (simp_all add: plain_upd_def)
  from xf_complete_upd [OF I m(1,3) c(1) f1] obtain cd' where
    k: "xf_msg_complete m ?c = Some cd'" "ipc_completed ?c P L m cd'" by blast
  have cq: "complete_queue (m_id (c_msgs cd m)) = ?k" by (rule complete_queue_core [OF c(2)])
  have rest: "c_msgs cd' a = c_msgs cd a" if "a \<in> set ms" for a
  proof -
    have "a \<notin> insert m (ipc_set P L)" "a \<noteq> m" using that m q by (auto simp: port_q_def)
    then show ?thesis using k(2) by (simp add: ipc_completed_def Let_def)
  qed
  have "queue_at (c_msgs cd') q ms"
    using q rest unfolding port_q_def queue_at_def by (auto elim!: msg_path_cong)
  moreover have "ipc_at cd' P (replied (\<lambda>m. m_id (c_msgs cd m)) [m] L)"
    using k(2) cq by (simp add: ipc_completed_def Let_def replied_Cons f1)
  ultimately have "port_q cd' P (replied (\<lambda>m. m_id (c_msgs cd m)) [m] L) q ms"
    unfolding port_q_def ipc_set_replied using q m rest by (simp add: port_q_def)
  moreover have "ipc_frame cd cd'" using k(2) ipc_frame_trans [of cd ?c cd'] by (simp add: ipc_completed_def Let_def)
  moreover have "?k = QRemote \<longleftrightarrow> XF_MSG_SRC_PROXY (m_id (c_msgs cd m)) \<noteq> 0" by (simp add: reply_queue_def)
  ultimately show ?thesis using k by (simp add: port_answered_def ipc_completed_def Let_def f1)
qed

lemmas port_other_ok = port_other [OF _ _ _ _ _ _ plain_upds(2) [of 0], folded xf_response_ok_def]

section \<open>Answering all messages\<close>

text \<open>What the answers to a list of messages leave: every message of the list, and no other, has the
  fields its answer gives it.\<close>

definition all_ok :: "xf_core \<Rightarrow> addr list \<Rightarrow> xf_core \<Rightarrow> bool" where
  "all_ok cd ms cd' \<longleftrightarrow>
     ipc_frame cd cd' \<and> (\<forall>a. a \<notin> set ms \<longrightarrow> msg_data (c_msgs cd' a) = msg_data (c_msgs cd a)) \<and>
     (\<forall>a\<in>set ms. m_id (c_msgs cd' a) = msg_id_swap (m_id (c_msgs cd a)) \<and> m_length (c_msgs cd' a) = 0)"

lemma all_ok_Nil [simp]: "all_ok cd [] cd"
  by (simp add: all_ok_def)

lemma all_ok_Cons:
  assumes "port_answered cd m (\<lambda>x. x\<lparr>m_length := 0\<rparr>) c1" and "all_ok c1 ms cd'" and "m \<notin> set ms"
  shows "all_ok cd (m # ms) cd'"
proof -
  have 1: "ipc_frame cd c1" "m_id (c_msgs c1 m) = msg_id_swap (m_id (c_msgs cd m))" "m_length (c_msgs c1 m) = 0"
    "\<And>a. a \<noteq> m \<Longrightarrow> msg_data (c_msgs c1 a) = msg_data (c_msgs cd a)"
    using assms(1) by (simp_all add: port_answered_def Let_def)
  have 2: "ipc_frame c1 cd'" "\<And>a. a \<notin> set ms \<Longrightarrow> msg_data (c_msgs cd' a) = msg_data (c_msgs c1 a)"
    "\<And>a. a \<in> set ms \<Longrightarrow> m_id (c_msgs cd' a) = msg_id_swap (m_id (c_msgs c1 a)) \<and> m_length (c_msgs cd' a) = 0"
    using assms(2) by (simp_all add: all_ok_def)
  have "m_id (c_msgs c1 a) = m_id (c_msgs cd a)" if "a \<in> set ms" for a
    using 1(4) [of a] that assms(3) by (auto simp: msg_data_eq_iff)
  then show ?thesis
    unfolding all_ok_def
    using ipc_frame_trans [OF 1(1) 2(1)] 1 2 2(2) [OF assms(3)] by (auto simp: msg_data_eq_iff)
qed

lemma port_drain_all:
  assumes "port_q cd P L q ms"
  shows "\<exists>cd' q'. port_drain q cd = Some (cd', q') \<and>
    port_q cd' P (replied (\<lambda>m. m_id (c_msgs cd m)) ms L) q' [] \<and> all_ok cd ms cd'"
  using assms
proof (induction ms arbitrary: cd L q)
  case Nil
  then have "port_drain q cd = Some (cd, q)" by (subst port_drain.simps) (simp add: port_empty)
  with Nil show ?case by simp
next
  case (Cons m ms)
  have m: "m \<notin> set ms" using port_q_distinct [OF Cons.prems] by simp
  from port_answer [OF Cons.prems plain_upds(2) [of 0]] obtain q1 h c1 where
    a: "xf_msg_dequeue q (c_msgs cd) = (q1, h, m)" "m \<noteq> 0" "xf_response_ok m (cd\<lparr>c_msgs := h\<rparr>) = Some c1"
      "port_q c1 P (L(reply_queue (m_id (c_msgs cd m)) := L (reply_queue (m_id (c_msgs cd m))) @ [m])) q1 ms"
      "port_answered cd m (\<lambda>x. x\<lparr>m_length := 0\<rparr>) c1" unfolding xf_response_ok_def by blast
  from Cons.IH [OF a(4)] obtain cd' q' where
    b: "port_drain q1 c1 = Some (cd', q')" "all_ok c1 ms cd'"
      "port_q cd' P (replied (\<lambda>m. m_id (c_msgs c1 m)) ms
         (L(reply_queue (m_id (c_msgs cd m)) := L (reply_queue (m_id (c_msgs cd m))) @ [m]))) q' []" by blast
  have "m_id (c_msgs c1 x) = m_id (c_msgs cd x)" if "x \<in> set ms" for x
    using a(5) that m by (auto simp: port_answered_def Let_def msg_data_eq_iff)
  then have "port_q cd' P (replied (\<lambda>m. m_id (c_msgs cd m)) (m # ms) L) q' []"
    using b(3) replied_cong [of ms "\<lambda>m. m_id (c_msgs c1 m)" "\<lambda>m. m_id (c_msgs cd m)"] by (simp add: replied_Cons)
  moreover have "port_drain q cd = Some (cd', q')"
    by (subst port_drain.simps) (simp add: a(1-3) b(1))
  ultimately show ?case using all_ok_Cons [OF a(5) b(2) m] by blast
qed

end
