(* ===== verification/XF_Io_Stream.thy ===== *)
theory XF_Io_Stream
  imports XF_Io_Queue
begin

text \<open>
  A buffered input port as a stream of bytes: the bytes in its buffer, followed by the bytes of the
  queued messages. Filling moves bytes from the messages to the buffer and answers the messages that
  have been read completely, consuming drops bytes from the front, and no byte is lost, duplicated or
  reordered.
\<close>

section \<open>The reference\<close>

text \<open>Taking n bytes from the queued chunks. An empty chunk is the end of the stream: it stays queued,
  and the last component tells that it was met.\<close>

fun fill_ref :: "nat \<Rightarrow> 'a list list \<Rightarrow> 'a list \<times> 'a list list \<times> bool" where
  "fill_ref n [] = ([], [], False)"
| "fill_ref n (c # cs) =
     (if n = 0 then ([], c # cs, False)
      else if c = [] then ([], c # cs, True)
      else if n < length c then (take n c, drop n c # cs, False)
      else let (d, r, e) = fill_ref (n - length c) cs in (c @ d, r, e))"

lemma fill_ref_split: "fill_ref n cs = (d, r, e) \<Longrightarrow>
    d @ concat r = concat cs \<and> length d \<le> n \<and> length r \<le> length cs \<and> (length d < n \<longrightarrow> e \<or> r = [])"
proof (induction cs arbitrary: n d)
  case (Cons c cs)
  show ?case
  proof (cases "n = 0 \<or> c = [] \<or> n < length c")
    case True
    with Cons.prems show ?thesis by (auto split: if_splits)
  next
    case False
    then obtain d' where d': "fill_ref (n - length c) cs = (d', r, e)" "d = c @ d'"
      using Cons.prems by (auto split: prod.splits)
    from Cons.IH [OF d'(1)] d'(2) False show ?thesis by auto
  qed
qed simp

lemma fill_ref_Cons_full:
  "n \<noteq> 0 \<Longrightarrow> c \<noteq> [] \<Longrightarrow> length c \<le> n \<Longrightarrow> fill_ref (n - length c) cs = (d, r, e) \<Longrightarrow> fill_ref n (c # cs) = (c @ d, r, e)"
  by simp

section \<open>Words\<close>

lemma sless_0_iff: "unat (n :: u32) < 2 ^ 31 \<Longrightarrow> 0 <s n \<longleftrightarrow> n \<noteq> 0"
proof -
  assume "unat n < 2 ^ 31"
  from sint_small [OF this] have "0 <s n \<longleftrightarrow> 0 < unat n"
    unfolding word_sless_alt by (simp only: sint_0 of_nat_0_less_iff)
  then show ?thesis by (simp add: unat_gt_0)
qed

lemma unat_add_u32: "unat (a :: u32) + unat b < 2 ^ 32 \<Longrightarrow> unat (a + b) = unat a + unat b"
  unfolding unat_word_ariths(1) by simp

section \<open>Completion\<close>

text \<open>A message of the port has been read completely.\<close>

definition msgs_done :: "xf_core \<Rightarrow> addr list \<Rightarrow> xf_core \<Rightarrow> bool" where
  "msgs_done cd ms cd' \<longleftrightarrow>
     ipc_frame (cd\<lparr>c_data := c_data cd'\<rparr>) cd' \<and>
     (\<forall>a. a \<notin> set ms \<longrightarrow> msg_data (c_msgs cd' a) = msg_data (c_msgs cd a)) \<and>
     (\<forall>a\<in>set ms. m_id (c_msgs cd' a) = msg_id_swap (m_id (c_msgs cd a)) \<and>
        m_length (c_msgs cd' a) = m_length (c_msgs cd a) \<and> m_buffer (c_msgs cd' a) = m_buffer (c_msgs cd a))"

lemma msgs_done_data: "msgs_done cd [] (cd\<lparr>c_data := d\<rparr>)"
  by (simp add: msgs_done_def)

lemma ipc_frame_data: "ipc_frame cd cd' \<Longrightarrow> ipc_frame (cd\<lparr>c_data := d\<rparr>) (cd'\<lparr>c_data := d\<rparr>)"
  by (cases cd; cases cd') (simp add: ipc_frame_def)

lemma ipc_frame_data_trans:
  assumes "ipc_frame (cd\<lparr>c_data := c_data c1\<rparr>) c1" and "ipc_frame (c1\<lparr>c_data := c_data c2\<rparr>) c2"
  shows "ipc_frame (cd\<lparr>c_data := c_data c2\<rparr>) c2"
  using ipc_frame_trans [OF ipc_frame_data [OF assms(1), of "c_data c2"] assms(2)] by simp

lemma msgs_done_trans:
  assumes "msgs_done cd as c1" and "msgs_done c1 bs c2" and "set as \<inter> set bs = {}"
  shows "msgs_done cd (as @ bs) c2"
proof -
  have s: "msg_data (c_msgs c1 a) = msg_data (c_msgs cd a)" if "a \<notin> set as" for a
    using assms(1) that by (simp add: msgs_done_def)
  have t: "msg_data (c_msgs c2 a) = msg_data (c_msgs c1 a)" if "a \<notin> set bs" for a
    using assms(2) that by (simp add: msgs_done_def)
  have x: "m_id (c_msgs c2 a) = msg_id_swap (m_id (c_msgs cd a)) \<and>
      m_length (c_msgs c2 a) = m_length (c_msgs cd a) \<and> m_buffer (c_msgs c2 a) = m_buffer (c_msgs cd a)"
    if "a \<in> set as \<union> set bs" for a
  proof (cases "a \<in> set as")
    case True
    then have "a \<notin> set bs" using assms(3) by blast
    from t [OF this] True assms(1) show ?thesis by (simp add: msgs_done_def msg_data_eq_iff)
  next
    case False
    with s [OF False] that assms(2) show ?thesis by (simp add: msgs_done_def msg_data_eq_iff)
  qed
  have f: "ipc_frame (cd\<lparr>c_data := c_data c2\<rparr>) c2"
    by (rule ipc_frame_data_trans [where ?c1.0 = c1]) (use assms in \<open>simp_all add: msgs_done_def\<close>)
  then show ?thesis unfolding msgs_done_def using s t x by simp
qed

lemma port_answered_done: "port_answered cd m (\<lambda>x. x) cd' \<Longrightarrow> msgs_done cd [m] cd'"
proof -
  assume a: "port_answered cd m (\<lambda>x. x) cd'"
  then have f: "ipc_frame cd cd'" by (simp add: port_answered_def Let_def)
  have "cd\<lparr>c_data := c_data cd'\<rparr> = cd" using ipc_frame_fields(2) [OF f] by simp
  with a show ?thesis by (simp add: msgs_done_def port_answered_def Let_def)
qed

lemma xf_input_port_complete_at:
  assumes "port_q cd P L (ip_queue port) (m # ms)"
  shows "\<exists>cd' q'. xf_input_port_complete port cd =
      Some (cd', port\<lparr>ip_queue := q', ip_access := (if ms = [] then 0 else m_buffer (c_msgs cd (hd ms))),
        ip_remaining := (if ms = [] then ip_remaining port else m_length (c_msgs cd (hd ms)))\<rparr>, ms \<noteq> []) \<and>
    port_q cd' P (replied (\<lambda>m. m_id (c_msgs cd m)) [m] L) q' ms \<and> msgs_done cd [m] cd' \<and> c_data cd' = c_data cd"
proof -
  from port_answer [OF assms plain_upds(1)] obtain q' h cd' where
    a: "xf_msg_dequeue (ip_queue port) (c_msgs cd) = (q', h, m)" "m \<noteq> 0"
      "xf_response m (cd\<lparr>c_msgs := h\<rparr>) = Some cd'" "port_q cd' P (replied (\<lambda>m. m_id (c_msgs cd m)) [m] L) q' ms"
      "port_answered cd m (\<lambda>x. x) cd'"
    by (auto simp: xf_response_def replied_Cons)
  have hd: "hd ms \<noteq> 0" "m_buffer (c_msgs cd' (hd ms)) = m_buffer (c_msgs cd (hd ms))"
    "m_length (c_msgs cd' (hd ms)) = m_length (c_msgs cd (hd ms))" if "ms \<noteq> []"
  proof -
    have "hd ms \<in> set ms" using that by simp
    then have "hd ms \<noteq> m" "hd ms \<noteq> 0" using port_q_distinct [OF assms] by auto
    with a(5) show "hd ms \<noteq> 0" "m_buffer (c_msgs cd' (hd ms)) = m_buffer (c_msgs cd (hd ms))"
      "m_length (c_msgs cd' (hd ms)) = m_length (c_msgs cd (hd ms))"
      by (simp_all add: port_answered_def Let_def msg_data_eq_iff)
  qed
  have "ipc_frame cd cd'" using a(5) by (simp add: port_answered_def Let_def)
  then have d: "c_data cd' = c_data cd" by (rule ipc_frame_fields)
  show ?thesis
    using a(1-4) hd port_head [OF a(4)] port_answered_done [OF a(5)] d
    by (intro exI [of _ cd'] exI [of _ q'], cases "ms = []") (simp_all add: xf_input_port_complete_def Let_def)
qed

section \<open>Filling the buffer\<close>

definition msg_bytes :: "xf_core \<Rightarrow> addr \<Rightarrow> u8 list" where
  "msg_bytes cd m = bytes_at (c_data cd) (m_buffer (c_msgs cd m)) (unat (m_length (c_msgs cd m)))"

text \<open>The bytes still to be read: the rest of the first message, then the other messages; and where
  they lie.\<close>

fun port_chunks :: "xf_core \<Rightarrow> addr \<Rightarrow> u32 \<Rightarrow> addr list \<Rightarrow> u8 list list" where
  "port_chunks cd acc rem [] = []"
| "port_chunks cd acc rem (m # ms) = bytes_at (c_data cd) acc (unat rem) # map (msg_bytes cd) ms"

fun port_apart :: "xf_core \<Rightarrow> addr \<Rightarrow> u32 \<Rightarrow> addr list \<Rightarrow> addr set \<Rightarrow> bool" where
  "port_apart cd acc rem [] A \<longleftrightarrow> True"
| "port_apart cd acc rem (m # ms) A \<longleftrightarrow> area acc (unat rem) \<inter> A = {} \<and>
     (\<forall>x\<in>set ms. area (m_buffer (c_msgs cd x)) (unat (m_length (c_msgs cd x))) \<inter> A = {})"

lemma port_chunks_length [simp]: "length (port_chunks cd acc rem ms) = length ms"
  by (cases ms) simp_all

text \<open>The messages of a port keep their bytes when only bytes of the port buffer and data of other messages change.\<close>

definition keeps_msgs :: "addr set \<Rightarrow> addr list \<Rightarrow> xf_core \<Rightarrow> xf_core \<Rightarrow> bool" where
  "keeps_msgs A ms cd cd' \<longleftrightarrow> (\<forall>x. x \<notin> A \<longrightarrow> c_data cd' x = c_data cd x) \<and>
     (\<forall>m\<in>set ms. msg_data (c_msgs cd' m) = msg_data (c_msgs cd m))"

lemma msg_bytes_keep:
  assumes "keeps_msgs A ms cd cd'" and "m \<in> set ms"
    and "area (m_buffer (c_msgs cd m)) (unat (m_length (c_msgs cd m))) \<inter> A = {}"
  shows "msg_bytes cd' m = msg_bytes cd m"
proof -
  have "m_buffer (c_msgs cd' m) = m_buffer (c_msgs cd m)" "m_length (c_msgs cd' m) = m_length (c_msgs cd m)"
    using assms(1,2) by (simp_all add: keeps_msgs_def msg_data_eq_iff)
  then show ?thesis
    unfolding msg_bytes_def
    using bytes_at_outside [of A "c_data cd'" "c_data cd", OF _ assms(3)] assms(1) by (simp add: keeps_msgs_def)
qed

lemma port_chunks_keep:
  assumes "keeps_msgs A ms cd cd'" and "port_apart cd acc rem ms A"
  shows "port_chunks cd' acc rem ms = port_chunks cd acc rem ms" and "port_apart cd' acc rem ms A"
proof -
  show "port_chunks cd' acc rem ms = port_chunks cd acc rem ms"
  proof (cases ms)
    case (Cons m r)
    have "bytes_at (c_data cd') acc (unat rem) = bytes_at (c_data cd) acc (unat rem)"
      by (rule bytes_at_outside [of A]) (use assms Cons in \<open>auto simp: keeps_msgs_def\<close>)
    moreover have "msg_bytes cd' x = msg_bytes cd x" if "x \<in> set r" for x
      by (rule msg_bytes_keep [OF assms(1)]) (use assms(2) that Cons in auto)
    ultimately show ?thesis using Cons by simp
  qed simp
  show "port_apart cd' acc rem ms A"
    using assms by (cases ms) (auto simp: keeps_msgs_def msg_data_eq_iff)
qed

lemma fill_copy:
  fixes d :: "addr \<Rightarrow> u8"
  assumes F: "unat f + unat k \<le> N" and N: "N \<le> 2 ^ 31" and A: "area a (unat k) \<inter> area b N = {}"
  defines d_def: "d' \<equiv> mem_copy (b + f) a k d"
  shows "bytes_at d' b (unat f + unat k) = bytes_at d b (unat f) @ bytes_at d a (unat k)"
    and "\<And>x. x \<notin> area b N \<Longrightarrow> d' x = d x"
proof -
  have s: "area (b + f) (unat k) \<subseteq> area b N" using area_sub [OF F, of b] by simp
  then have i: "area (b + f) (unat k) \<inter> area a (unat k) = {}" using A by blast
  note c = mem_copy_apart [OF i, where d = d, folded d_def]
  have "b + of_nat i \<notin> area (b + f) (unat k)" if "i < unat f" for i
  proof
    assume "b + of_nat i \<in> area (b + f) (unat k)"
    then obtain j where j: "j < unat k" "b + of_nat i = b + f + of_nat j" by (auto simp: area_def)
    then have "of_nat i = (of_nat (unat f + j) :: addr)" by simp
    then show False using of_nat_u32_eq [of i "unat f + j"] that j(1) F N by simp
  qed
  then have "bytes_at d' b (unat f) = bytes_at d b (unat f)" by (intro bytes_at_cong) (simp add: c(2))
  with c(1) show "bytes_at d' b (unat f + unat k) = bytes_at d b (unat f) @ bytes_at d a (unat k)"
    by (simp add: bytes_at_add)
  show "d' x = d x" if "x \<notin> area b N" for x using c(2) [of x] s that by blast
qed

lemma port_q_data: "port_q (cd\<lparr>c_data := d\<rparr>) P L q ms = port_q cd P L q ms"
proof -
  have "get_q k (cd\<lparr>c_data := d\<rparr>) = get_q k cd" for k by (cases k) simp_all
  then show ?thesis by (simp add: port_q_def ipc_at_def)
qed

text \<open>What the loop leaves, against the reference: d are the bytes taken, r the chunks that remain.\<close>

definition filled_to :: "nat \<Rightarrow> xf_core \<Rightarrow> addr list \<Rightarrow> (ipc_queue \<Rightarrow> addr list) \<Rightarrow> addr list \<Rightarrow> xf_input_port \<Rightarrow> u32 \<Rightarrow> u8 list \<Rightarrow>
    u8 list list \<Rightarrow> bool \<Rightarrow> xf_core \<Rightarrow> xf_input_port \<Rightarrow> u32 \<Rightarrow> bool" where
  "filled_to N cd P L ms port filled d r e cd' port' rem' \<longleftrightarrow>
     (let k = length ms - length r; A = area (ip_buffer port) N in
      port_q cd' P (replied (\<lambda>m. m_id (c_msgs cd m)) (take k ms) L) (ip_queue port') (drop k ms) \<and>
      port_chunks cd' (ip_access port') rem' (drop k ms) = r \<and>
      port_apart cd' (ip_access port') rem' (drop k ms) A \<and>
      msgs_done cd (take k ms) cd' \<and> (\<forall>x. x \<notin> A \<longrightarrow> c_data cd' x = c_data cd x) \<and>
      bytes_at (c_data cd') (ip_buffer port) (unat filled + length d) = bytes_at (c_data cd) (ip_buffer port) (unat filled) @ d \<and>
      ip_buffer port' = ip_buffer port \<and> ip_length port' = ip_length port \<and> ip_filled port' = ip_filled port \<and>
      ip_flags port' = (if e then ip_flags port XOR (XF_INPUT_FLAG_EOS OR XF_INPUT_FLAG_DONE) else ip_flags port))"

lemma unat_eq_0: "unat (x :: u32) = 0 \<longleftrightarrow> x = 0"
  by (simp add: unat_eq_zero)

lemma fill_stop:
  assumes "port_q cd P L (ip_queue port) ms" and "port_apart cd (ip_access port) rem ms (area (ip_buffer port) N)"
  shows "filled_to N cd P L ms port filled [] (port_chunks cd (ip_access port) rem ms) False cd port rem"
    and "filled_to N cd P L ms port filled [] (port_chunks cd (ip_access port) rem ms) True cd
      (port\<lparr>ip_flags := ip_flags port XOR (XF_INPUT_FLAG_EOS OR XF_INPUT_FLAG_DONE)\<rparr>) rem"
  using assms msgs_done_data [of cd "c_data cd"] by (simp_all add: filled_to_def)

text \<open>One copy that leaves a rest of the first message.\<close>

lemma fill_part:
  assumes q: "port_q cd P L (ip_queue port) (m # ms)"
    and a: "port_apart cd (ip_access port) rem (m # ms) (area (ip_buffer port) N)"
    and N: "unat filled + unat k \<le> N" "N < 2 ^ 31" and k: "unat k \<le> unat rem"
  defines "c1 \<equiv> cd\<lparr>c_data := mem_copy (ip_buffer port + filled) (ip_access port) k (c_data cd)\<rparr>"
  shows "bytes_at (c_data c1) (ip_buffer port) (unat filled + unat k) =
      bytes_at (c_data cd) (ip_buffer port) (unat filled) @ take (unat k) (bytes_at (c_data cd) (ip_access port) (unat rem))"
    and "port_q c1 P L (ip_queue port) (m # ms)" and "msgs_done cd [] c1"
    and "keeps_msgs (area (ip_buffer port) N) (m # ms) cd c1"
    and "bytes_at (c_data c1) (ip_access port + k) (unat (rem - k)) = drop (unat k) (bytes_at (c_data cd) (ip_access port) (unat rem))"
    and "area (ip_access port + k) (unat (rem - k)) \<inter> area (ip_buffer port) N = {}"
proof -
  have k': "k \<le> rem" using k by (simp add: word_le_nat_alt)
  have r: "unat (rem - k) = unat rem - unat k" by (rule unat_sub [OF k'])
  have A: "area (ip_access port) (unat rem) \<inter> area (ip_buffer port) N = {}" using a by simp
  have A1: "area (ip_access port) (unat k) \<inter> area (ip_buffer port) N = {}" using A area_mono [OF k] by blast
  have N': "N \<le> 2 ^ 31" using N(2) by simp
  note c = fill_copy [OF N(1) N' A1, where d = "c_data cd"]
  have s: "area (ip_access port + k) (unat (rem - k)) \<subseteq> area (ip_access port) (unat rem)"
    using area_sub [of "unat k" "unat (rem - k)" "unat rem"] k r by simp
  show "area (ip_access port + k) (unat (rem - k)) \<inter> area (ip_buffer port) N = {}" using s A by blast
  then have "bytes_at (c_data c1) (ip_access port + k) (unat (rem - k)) = bytes_at (c_data cd) (ip_access port + k) (unat (rem - k))"
    by (rule bytes_at_outside [rotated]) (simp add: c1_def c(2))
  then show "bytes_at (c_data c1) (ip_access port + k) (unat (rem - k)) = drop (unat k) (bytes_at (c_data cd) (ip_access port) (unat rem))"
    using k r by (simp add: bytes_at_drop)
  show "bytes_at (c_data c1) (ip_buffer port) (unat filled + unat k) =
      bytes_at (c_data cd) (ip_buffer port) (unat filled) @ take (unat k) (bytes_at (c_data cd) (ip_access port) (unat rem))"
    using c(1) k by (simp add: c1_def bytes_at_take)
  show "port_q c1 P L (ip_queue port) (m # ms)" "msgs_done cd [] c1" "keeps_msgs (area (ip_buffer port) N) (m # ms) cd c1"
    using q c(2) msgs_done_data by (simp_all add: c1_def port_q_data keeps_msgs_def)
qed

lemma port_fill_loop_0: "port_fill_loop port filled rem 0 cd = Some (cd, port, filled, rem, 0)"
  by (subst port_fill_loop.simps) simp

lemma port_fill_loop_eos:
  "0 <s n \<Longrightarrow> port_fill_loop port filled 0 n cd =
     Some (cd, port\<lparr>ip_flags := ip_flags port XOR (XF_INPUT_FLAG_EOS OR XF_INPUT_FLAG_DONE)\<rparr>, filled, 0, 0)"
  by (subst port_fill_loop.simps) simp

lemma port_fill_loop_part:
  assumes "0 <s n" and "n < rem"
  shows "port_fill_loop port filled rem n cd =
    Some (cd\<lparr>c_data := mem_copy (ip_buffer port + filled) (ip_access port) n (c_data cd)\<rparr>,
      port\<lparr>ip_access := ip_access port + n\<rparr>, filled + n, rem - n, 0)"
proof -
  have "n \<noteq> 0" "rem - n \<noteq> 0" using assms by auto
  then show ?thesis using assms
    by (subst port_fill_loop.simps) (simp add: port_fill_loop_0 Let_def)
qed

lemma port_fill_loop_full:
  assumes "0 <s n" and "rem \<noteq> 0" and "rem \<le> n"
  shows "port_fill_loop port filled rem n cd =
    Option.bind (xf_input_port_complete (port\<lparr>ip_access := ip_access port + rem\<rparr>)
        (cd\<lparr>c_data := mem_copy (ip_buffer port + filled) (ip_access port) rem (c_data cd)\<rparr>)) (\<lambda>(cd, port, more).
      if \<not> more then Some (cd, port, filled + rem, 0, n - rem)
      else port_fill_loop port (filled + rem) (ip_remaining port) (n - rem) cd)"
proof -
  have "\<not> n < rem" using assms(3) by simp
  with assms(1,2) show ?thesis by (subst port_fill_loop.simps) (simp add: Let_def)
qed

text \<open>One message read completely, and the loop from there on.\<close>

lemma filled_step:
  assumes q: "port_q cd P L (ip_queue port) (m # ms)"
    and a: "port_apart cd (ip_access port) rem (m # ms) (area (ip_buffer port) N)"
    and N: "unat filled + unat n = N" "N < 2 ^ 31" and k: "rem \<le> n"
  obtains c2 port2 where
    "xf_input_port_complete (port\<lparr>ip_access := ip_access port + rem\<rparr>)
       (cd\<lparr>c_data := mem_copy (ip_buffer port + filled) (ip_access port) rem (c_data cd)\<rparr>) = Some (c2, port2, ms \<noteq> [])"
    and "port_q c2 P (replied (\<lambda>m. m_id (c_msgs cd m)) [m] L) (ip_queue port2) ms" and "ip_buffer port2 = ip_buffer port"
    and "port_apart c2 (ip_access port2) (ip_remaining port2) ms (area (ip_buffer port) N)"
    and "port_chunks c2 (ip_access port2) (ip_remaining port2) ms = map (msg_bytes cd) ms"
    and "\<And>d r e cd' port' rem'. filled_to N c2 P (replied (\<lambda>m. m_id (c_msgs cd m)) [m] L) ms port2 (filled + rem) d r e cd' port' rem' \<Longrightarrow>
        length r \<le> length ms \<Longrightarrow>
        filled_to N cd P L (m # ms) port filled (bytes_at (c_data cd) (ip_access port) (unat rem) @ d) r e cd' port' rem'"
proof -
  let ?A = "area (ip_buffer port) N" let ?i = "\<lambda>m. m_id (c_msgs cd m)"
  let ?c1 = "cd\<lparr>c_data := mem_copy (ip_buffer port + filled) (ip_access port) rem (c_data cd)\<rparr>"
  let ?p1 = "port\<lparr>ip_access := ip_access port + rem\<rparr>" let ?c = "bytes_at (c_data cd) (ip_access port) (unat rem)"
  have k': "unat filled + unat rem \<le> N" using k N by (simp add: word_le_nat_alt)
  note f = fill_part [OF q a k' N(2) order_refl]
  have fr: "unat (filled + rem) = unat filled + unat rem" by (rule unat_add_u32) (use k' N(2) in simp)
  have "port_q ?c1 P L (ip_queue ?p1) (m # ms)" using f(2) by simp
  from xf_input_port_complete_at [OF this] obtain c2 q' where
    c: "xf_input_port_complete ?p1 ?c1 = Some (c2, ?p1\<lparr>ip_queue := q', ip_access := (if ms = [] then 0 else m_buffer (c_msgs ?c1 (hd ms))),
        ip_remaining := (if ms = [] then ip_remaining ?p1 else m_length (c_msgs ?c1 (hd ms)))\<rparr>, ms \<noteq> [])"
      "port_q c2 P (replied (\<lambda>m. m_id (c_msgs ?c1 m)) [m] L) q' ms" "msgs_done ?c1 [m] c2" "c_data c2 = c_data ?c1" by blast
  define port2 where "port2 = ?p1\<lparr>ip_queue := q', ip_access := (if ms = [] then 0 else m_buffer (c_msgs ?c1 (hd ms))),
        ip_remaining := (if ms = [] then ip_remaining ?p1 else m_length (c_msgs ?c1 (hd ms)))\<rparr>"
  have dn: "msgs_done cd [m] c2" using msgs_done_trans [OF f(3) c(3)] by simp
  have m: "m \<notin> set ms" using port_q_distinct [OF q] by simp
  have q2: "port_q c2 P (replied ?i [m] L) (ip_queue port2) ms" using c(2) by (simp add: port2_def)
  have keep: "keeps_msgs ?A ms cd c2"
    using f(4) c(4) dn m by (auto simp: keeps_msgs_def msgs_done_def)
  have ap: "area (m_buffer (c_msgs cd x)) (unat (m_length (c_msgs cd x))) \<inter> ?A = {}" if "x \<in> set ms" for x
    using a that by simp
  have "port_apart cd (ip_access port2) (ip_remaining port2) ms ?A"
    using ap by (cases ms) (simp_all add: port2_def)
  note kp = port_chunks_keep [OF keep this]
  have ch: "port_chunks cd (ip_access port2) (ip_remaining port2) ms = map (msg_bytes cd) ms"
    by (cases ms) (simp_all add: port2_def msg_bytes_def)
  show thesis
  proof (rule that [of c2 port2])
    show "xf_input_port_complete ?p1 ?c1 = Some (c2, port2, ms \<noteq> [])" using c(1) by (simp add: port2_def)
    show "port_q c2 P (replied ?i [m] L) (ip_queue port2) ms" by (rule q2)
    show "ip_buffer port2 = ip_buffer port" by (simp add: port2_def)
    show "port_apart c2 (ip_access port2) (ip_remaining port2) ms ?A" by (rule kp(2))
    show "port_chunks c2 (ip_access port2) (ip_remaining port2) ms = map (msg_bytes cd) ms" using kp(1) ch by simp
    fix d r e cd' port' rem'
    assume F: "filled_to N c2 P (replied ?i [m] L) ms port2 (filled + rem) d r e cd' port' rem'" and r: "length r \<le> length ms"
    let ?k = "length ms - length r"
    have K: "length (m # ms) - length r = Suc ?k" using r by simp
    have i2: "replied (\<lambda>m. m_id (c_msgs c2 m)) (take ?k ms) (replied ?i [m] L) = replied ?i (take (Suc ?k) (m # ms)) L"
    proof -
      have "replied (\<lambda>m. m_id (c_msgs c2 m)) (take ?k ms) (replied ?i [m] L) = replied ?i (take ?k ms) (replied ?i [m] L)"
        by (rule replied_cong) (use keep in \<open>auto simp: keeps_msgs_def msg_data_eq_iff dest: in_set_takeD\<close>)
      then show ?thesis using replied_append [of ?i "[m]" "take ?k ms" L] by simp
    qed
    have d2: "c_data c2 x = c_data cd x" if "x \<notin> ?A" for x using keep that by (simp add: keeps_msgs_def)
    have "msgs_done cd ([m] @ take ?k ms) cd'"
      by (rule msgs_done_trans [OF dn]) (use F m in \<open>auto simp: filled_to_def Let_def port2_def dest: in_set_takeD\<close>)
    moreover have "bytes_at (c_data c2) (ip_buffer port) (unat (filled + rem)) = bytes_at (c_data cd) (ip_buffer port) (unat filled) @ ?c"
      using f(1) by (simp add: fr c(4))
    ultimately show "filled_to N cd P L (m # ms) port filled (?c @ d) r e cd' port' rem'"
      using F d2 unfolding filled_to_def Let_def K i2 by (simp add: port2_def fr add.assoc)
  qed
qed

lemma port_fill_loop_early:
  assumes q: "port_q cd P L (ip_queue port) (m # ms)"
    and a: "port_apart cd (ip_access port) rem (m # ms) (area (ip_buffer port) N)"
    and N: "unat filled + unat n = N" "N < 2 ^ 31"
    and f: "fill_ref (unat n) (port_chunks cd (ip_access port) rem (m # ms)) = (d, r, e)"
    and c: "n = 0 \<or> rem = 0 \<or> n < rem"
  shows "\<exists>cd' port' rem'. port_fill_loop port filled rem n cd =
      Some (cd', port', filled + of_nat (length d), rem', if e then 0 else n - of_nat (length d)) \<and>
    filled_to N cd P L (m # ms) port filled d r e cd' port' rem'"
proof -
  have sn: "0 <s n" if "n \<noteq> 0" using sless_0_iff [of n] N that by simp
  consider "n = 0" | "n \<noteq> 0" "rem = 0" | "n \<noteq> 0" "n < rem" using c by blast
  then show ?thesis
  proof cases
    case 1
    with f have "d = []" "r = port_chunks cd (ip_access port) rem (m # ms)" "\<not> e" by auto
    with 1 fill_stop(1) [OF q a] show ?thesis by (simp add: port_fill_loop_0)
  next
    case 2
    have "bytes_at (c_data cd) (ip_access port) (unat rem) = []" using 2 by simp
    then have "d = []" "r = port_chunks cd (ip_access port) rem (m # ms)" e using f 2 by (simp_all add: unat_eq_0)
    with 2 port_fill_loop_eos [OF sn] fill_stop(2) [OF q a] show ?thesis by simp
  next
    case 3
    let ?c = "bytes_at (c_data cd) (ip_access port) (unat rem)"
    let ?c1 = "cd\<lparr>c_data := mem_copy (ip_buffer port + filled) (ip_access port) n (c_data cd)\<rparr>"
    have l: "unat n < unat rem" using 3 by (simp add: word_less_nat_alt)
    then have nc: "?c \<noteq> []" "unat n < length ?c" "unat n \<noteq> 0" using 3 by (auto simp: unat_eq_0 simp flip: length_0_conv)
    then have dr: "d = take (unat n) ?c" "r = drop (unat n) ?c # map (msg_bytes cd) ms" "\<not> e" using f by simp_all
    have ld: "length d = unat n" using dr(1) l by simp
    note p = fill_part [OF q a _ N(2) less_imp_le [OF l], of filled] 
    note p = p [unfolded N(1), OF order_refl]
    note k = port_chunks_keep [OF p(4) a]
    have "filled_to N cd P L (m # ms) port filled d r e ?c1 (port\<lparr>ip_access := ip_access port + n\<rparr>) (rem - n)"
      using p(1-3,5,6) p(4) [unfolded keeps_msgs_def] k dr ld by (simp add: filled_to_def Let_def N(1))
    with port_fill_loop_part [OF sn [OF 3(1)] 3(2)] ld dr(3) show ?thesis by simp
  qed
qed

lemma port_fill_loop_at:
  assumes "port_q cd P L (ip_queue port) (m # ms)"
    and "port_apart cd (ip_access port) rem (m # ms) (area (ip_buffer port) N)"
    and "unat filled + unat n = N" and "N < 2 ^ 31"
    and "fill_ref (unat n) (port_chunks cd (ip_access port) rem (m # ms)) = (d, r, e)"
  shows "\<exists>cd' port' rem'. port_fill_loop port filled rem n cd =
      Some (cd', port', filled + of_nat (length d), rem', if e then 0 else n - of_nat (length d)) \<and>
    filled_to N cd P L (m # ms) port filled d r e cd' port' rem'"
  using assms
proof (induction ms arbitrary: m cd L port filled rem n d)
  case (Nil m cd L port filled rem n d)
  note prems = Nil.prems
  show ?case
  proof (cases "n = 0 \<or> rem = 0 \<or> n < rem")
    case True
    then show ?thesis by (rule port_fill_loop_early [OF prems])
  next
    case False
    then have n: "0 <s n" "rem \<noteq> 0" "rem \<le> n" using sless_0_iff [of n] prems(3,4) by auto
    from filled_step [OF prems(1-4) n(3)] obtain c2 port2 where
      c: "xf_input_port_complete (port\<lparr>ip_access := ip_access port + rem\<rparr>)
         (cd\<lparr>c_data := mem_copy (ip_buffer port + filled) (ip_access port) rem (c_data cd)\<rparr>) = Some (c2, port2, False)"
        "port_q c2 P (replied (\<lambda>m. m_id (c_msgs cd m)) [m] L) (ip_queue port2) []"
        "\<And>d r e cd' port' rem'. filled_to N c2 P (replied (\<lambda>m. m_id (c_msgs cd m)) [m] L) [] port2 (filled + rem) d r e cd' port' rem' \<Longrightarrow>
          length r \<le> 0 \<Longrightarrow>
          filled_to N cd P L [m] port filled (bytes_at (c_data cd) (ip_access port) (unat rem) @ d) r e cd' port' rem'"
      by (metis list.size(3))
    have "d = bytes_at (c_data cd) (ip_access port) (unat rem)" "r = []" "\<not> e"
      using prems(5) False n by (auto simp: word_le_nat_alt unat_eq_0 split: if_splits simp flip: length_0_conv)
    with c(1) port_fill_loop_full [OF n, of port filled cd] c(3) [OF fill_stop(1) [OF c(2), of 0, simplified]] show ?thesis by simp
  qed
next
  case (Cons m1 ms m cd L port filled rem n d)
  note prems = Cons.prems
  show ?case
  proof (cases "n = 0 \<or> rem = 0 \<or> n < rem")
    case True
    then show ?thesis by (rule port_fill_loop_early [OF prems])
  next
    case False
    then have n: "0 <s n" "rem \<noteq> 0" "rem \<le> n" using sless_0_iff [of n] prems(3,4) by auto
    let ?c = "bytes_at (c_data cd) (ip_access port) (unat rem)" let ?L = "replied (\<lambda>m. m_id (c_msgs cd m)) [m] L"
    obtain c2 port2 where
      c: "xf_input_port_complete (port\<lparr>ip_access := ip_access port + rem\<rparr>)
         (cd\<lparr>c_data := mem_copy (ip_buffer port + filled) (ip_access port) rem (c_data cd)\<rparr>) = Some (c2, port2, m1 # ms \<noteq> [])"
        "port_q c2 P ?L (ip_queue port2) (m1 # ms)" "ip_buffer port2 = ip_buffer port"
        "port_apart c2 (ip_access port2) (ip_remaining port2) (m1 # ms) (area (ip_buffer port) N)"
        "port_chunks c2 (ip_access port2) (ip_remaining port2) (m1 # ms) = map (msg_bytes cd) (m1 # ms)"
        "\<And>d r e cd' port' rem'. filled_to N c2 P ?L (m1 # ms) port2 (filled + rem) d r e cd' port' rem' \<Longrightarrow>
          length r \<le> length (m1 # ms) \<Longrightarrow> filled_to N cd P L (m # m1 # ms) port filled (?c @ d) r e cd' port' rem'"
      by (rule filled_step [OF prems(1-4) n(3)]) (rule that)
    have u: "unat (n - rem) = unat n - unat rem" by (rule unat_sub [OF n(3)])
    have le: "unat rem \<le> unat n" using n(3) by (simp add: word_le_nat_alt)
    have fr: "unat (filled + rem) = unat filled + unat rem" by (rule unat_add_u32) (use le prems(3,4) in simp)
    have N2: "unat (filled + rem) + unat (n - rem) = N" using u fr le prems(3) by simp
    obtain d' where d': "fill_ref (unat (n - rem)) (map (msg_bytes cd) (m1 # ms)) = (d', r, e)" "d = ?c @ d'"
    proof -
      obtain x y z where xyz: "fill_ref (unat n - unat rem) (map (msg_bytes cd) (m1 # ms)) = (x, y, z)" by (metis prod_cases3)
      have "?c \<noteq> []" "length ?c \<le> unat n" "unat n \<noteq> 0"
        using le n by (auto simp: unat_eq_0 simp flip: length_0_conv)
      from fill_ref_Cons_full [OF this(3,1,2), of "map (msg_bytes cd) (m1 # ms)" x y z] xyz prems(5)
      show thesis using that [of x] u by (simp del: fill_ref.simps)
    qed
    from Cons.IH [OF c(2), of "ip_remaining port2" "filled + rem" "n - rem" d', unfolded c(3,5), OF c(4) N2 prems(4) d'(1)]
    obtain cd' port' rem' where
      i: "port_fill_loop port2 (filled + rem) (ip_remaining port2) (n - rem) c2 =
          Some (cd', port', filled + rem + of_nat (length d'), rem', if e then 0 else n - rem - of_nat (length d'))"
        "filled_to N c2 P ?L (m1 # ms) port2 (filled + rem) d' r e cd' port' rem'" by blast
    have "length r \<le> length (m1 # ms)" using fill_ref_split [OF d'(1)] by simp
    note F = c(6) [OF i(2) this]
    have "port_fill_loop port filled rem n cd =
        Some (cd', port', filled + of_nat (length d), rem', if e then 0 else n - of_nat (length d))"
      unfolding port_fill_loop_full [OF n, of port filled cd] unfolding c(1) by (simp add: i(1) d'(2) add.assoc diff_diff_eq)
    with F show ?thesis unfolding d'(2) by blast
  qed
qed

end
