(* ===== verification/XF_Io_Input.thy ===== *)
theory XF_Io_Input
  imports XF_Io_Stream
begin

text \<open>
  Input ports under any sequence of operations. The locale \<open>op_refinement\<close> is the contract between a
  component and a port: each operation of the code does what the operation of the specification
  does; its consequence for whole runs is proved once. The input port of xf-io.c is an instance, with
  the byte stream of XF_Io_Stream as its specification.
\<close>

section \<open>Operations and their specification\<close>

fun run_ops :: "('op \<Rightarrow> 's \<Rightarrow> ('s \<times> 'r) option) \<Rightarrow> 'op list \<Rightarrow> 's \<Rightarrow> ('s \<times> 'r list) option" where
  "run_ops step [] s = Some (s, [])"
| "run_ops step (x # xs) s =
     Option.bind (step x s) (\<lambda>(s, r). map_option (\<lambda>(s, rs). (s, r # rs)) (run_ops step xs s))"

fun run_spec :: "('op \<Rightarrow> 'a \<Rightarrow> 'a \<times> 'r) \<Rightarrow> 'op list \<Rightarrow> 'a \<Rightarrow> 'a \<times> 'r list" where
  "run_spec spec [] a = (a, [])"
| "run_spec spec (x # xs) a = (let (a, r) = spec x a; (a, rs) = run_spec spec xs a in (a, r # rs))"

locale op_refinement =
  fixes rel :: "'op list \<Rightarrow> 's \<Rightarrow> 'a \<Rightarrow> bool"
    and step :: "'op \<Rightarrow> 's \<Rightarrow> ('s \<times> 'r) option"
    and spec :: "'op \<Rightarrow> 'a \<Rightarrow> 'a \<times> 'r"
  assumes sim: "rel (x # xs) s a \<Longrightarrow> \<exists>s'. step x s = Some (s', snd (spec x a)) \<and> rel xs s' (fst (spec x a))"
begin

lemma run_sim: "rel (xs @ ys) s a \<Longrightarrow> \<exists>s'. run_ops step xs s = Some (s', snd (run_spec spec xs a)) \<and> rel ys s' (fst (run_spec spec xs a))"
proof (induction xs arbitrary: s a)
  case (Cons x xs)
  from sim [of x "xs @ ys" s a] Cons.prems obtain s1 where
    1: "step x s = Some (s1, snd (spec x a))" "rel (xs @ ys) s1 (fst (spec x a))" by auto
  from Cons.IH [OF 1(2)] obtain s' where
    "run_ops step xs s1 = Some (s', snd (run_spec spec xs (fst (spec x a))))" "rel ys s' (fst (run_spec spec xs (fst (spec x a))))"
    by blast
  with 1(1) show ?case by (auto simp: split_beta)
qed simp

lemma run_total: "rel xs s a \<Longrightarrow> \<exists>s'. run_ops step xs s = Some (s', snd (run_spec spec xs a)) \<and> rel [] s' (fst (run_spec spec xs a))"
  using run_sim [of xs "[]"] by simp

end

section \<open>The input port\<close>

text \<open>What a component and its clients do with a buffered input port. A component that consumes n bytes
  has read them from the start of the buffer.\<close>

datatype in_op = Put addr | Fill | Consume u32 | Pad u8

fun in_step :: "in_op \<Rightarrow> xf_core \<times> xf_input_port \<Rightarrow> ((xf_core \<times> xf_input_port) \<times> u8 list \<times> bool) option" where
  "in_step (Put m) (cd, port) = map_option (\<lambda>(cd, port, b). ((cd, port), [], b)) (xf_input_port_put port m cd)"
| "in_step Fill (cd, port) = map_option (\<lambda>(cd, port, b). ((cd, port), [], b)) (xf_input_port_fill port cd)"
| "in_step (Consume n) (cd, port) =
     map_option (\<lambda>(cd', port'). ((cd', port'),
         bytes_at (c_data cd) (ip_buffer port) (min (unat n) (unat (xf_input_port_level port))), False))
       (xf_input_port_consume port n cd)"
| "in_step (Pad v) (cd, port) = (let (cd, port) = xf_input_port_pad port v cd in Some ((cd, port), [], False))"

record in_stream =
  is_buf :: "u8 list"
  is_chunks :: "u8 list list"
  is_msgs :: "addr list"
  is_flags :: u32
  is_lists :: "ipc_queue \<Rightarrow> addr list"

text \<open>The specification, for a buffer of N bytes and messages described by f: id, bytes, and whether the
  buffer pointer is NULL.\<close>

fun in_spec :: "nat \<Rightarrow> (addr \<Rightarrow> u32 \<times> u8 list \<times> bool) \<Rightarrow> in_op \<Rightarrow> in_stream \<Rightarrow> in_stream \<times> u8 list \<times> bool" where
  "in_spec N f (Put m) s =
     (if is_flags s AND XF_INPUT_FLAG_ENABLED = 0
      then (s\<lparr>is_lists := replied (\<lambda>m. fst (f m)) [m] (is_lists s)\<rparr>, [], False)
      else let fl = (if fst (snd (f m)) = [] then is_flags s XOR (XF_INPUT_FLAG_ENABLED OR XF_INPUT_FLAG_EOS) else is_flags s);
               fl = (if is_msgs s = [] \<and> snd (snd (f m)) then fl XOR (XF_INPUT_FLAG_EOS OR XF_INPUT_FLAG_DONE) else fl)
           in (s\<lparr>is_chunks := is_chunks s @ [fst (snd (f m))], is_msgs := is_msgs s @ [m], is_flags := fl\<rparr>, [], is_msgs s = []))"
| "in_spec N f Fill s =
     (if is_msgs s = [] then (s, [], False)
      else let (d, r, e) = fill_ref (N - length (is_buf s)) (is_chunks s);
               k = length (is_msgs s) - length r
           in (s\<lparr>is_buf := is_buf s @ d, is_chunks := r, is_msgs := drop k (is_msgs s),
                 is_flags := (if e then is_flags s XOR (XF_INPUT_FLAG_EOS OR XF_INPUT_FLAG_DONE) else is_flags s),
                 is_lists := replied (\<lambda>m. fst (f m)) (take k (is_msgs s)) (is_lists s)\<rparr>,
               [], e \<or> length (is_buf s @ d) = N))"
| "in_spec N f (Consume n) s = (s\<lparr>is_buf := drop (unat n) (is_buf s)\<rparr>, take (unat n) (is_buf s), False)"
| "in_spec N f (Pad v) s = (s\<lparr>is_buf := is_buf s @ replicate (N - length (is_buf s)) v\<rparr>, [], False)"

definition msg_desc :: "xf_core \<Rightarrow> addr \<Rightarrow> u32 \<times> u8 list \<times> bool" where
  "msg_desc cd m = (m_id (c_msgs cd m), msg_bytes cd m, m_buffer (c_msgs cd m) = 0)"

fun put_msgs :: "in_op list \<Rightarrow> addr list" where
  "put_msgs [] = []"
| "put_msgs (Put m # ops) = m # put_msgs ops"
| "put_msgs (_ # ops) = put_msgs ops"

text \<open>A message that is yet to be put: it is in no queue, both ends are on the only core, and its bytes do
  not lie in the buffer of the port.\<close>

definition msg_fresh :: "xf_core \<Rightarrow> addr list \<Rightarrow> (ipc_queue \<Rightarrow> addr list) \<Rightarrow> addr list \<Rightarrow> addr set \<Rightarrow> addr \<Rightarrow> bool" where
  "msg_fresh cd P L ms A x \<longleftrightarrow>
     x \<noteq> 0 \<and> x \<notin> ipc_set P L \<and> x \<notin> set ms \<and> XF_MSG_SRC_CORE (m_id (c_msgs cd x)) = 0 \<and> XF_MSG_DST_CORE (m_id (c_msgs cd x)) = 0 \<and>
     area (m_buffer (c_msgs cd x)) (unat (m_length (c_msgs cd x))) \<inter> A = {}"

text \<open>The state of the port next to the specification, with the messages X still to be put.\<close>

definition input_rel :: "addr list \<Rightarrow> nat \<Rightarrow> addr \<Rightarrow> (addr \<Rightarrow> u32 \<times> u8 list \<times> bool) \<Rightarrow> addr list \<Rightarrow> xf_core \<times> xf_input_port \<Rightarrow> in_stream \<Rightarrow> bool" where
  "input_rel P N b f X st s \<longleftrightarrow>
     (let (cd, port) = st; A = area b N; ms = is_msgs s in
      ip_buffer port = b \<and> b \<noteq> 0 \<and> unat (ip_length port) = N \<and> N < 2 ^ 31 \<and> unat (ip_filled port) \<le> N \<and>
      port_q cd P (is_lists s) (ip_queue port) ms \<and> port_apart cd (ip_access port) (ip_remaining port) ms A \<and>
      is_buf s = bytes_at (c_data cd) b (unat (ip_filled port)) \<and>
      is_chunks s = port_chunks cd (ip_access port) (ip_remaining port) ms \<and>
      is_flags s = ip_flags port \<and> (\<forall>m\<in>set ms. m_id (c_msgs cd m) = fst (f m)) \<and>
      distinct X \<and> (\<forall>x\<in>set X. msg_fresh cd P (is_lists s) ms A x \<and> msg_desc cd x = f x))"

lemma fresh_keep:
  assumes "msg_fresh cd P L ms A x" and "msg_desc cd x = y" and "keeps_msgs A [x] cd cd'" and "x \<notin> ipc_set P L'" and "x \<notin> set ms'"
  shows "msg_fresh cd' P L' ms' A x \<and> msg_desc cd' x = y"
proof -
  have "msg_data (c_msgs cd' x) = msg_data (c_msgs cd x)" using assms(3) by (simp add: keeps_msgs_def)
  moreover have "msg_bytes cd' x = msg_bytes cd x"
    by (rule msg_bytes_keep [OF assms(3)]) (use assms(1) in \<open>simp_all add: msg_fresh_def\<close>)
  ultimately show ?thesis using assms by (auto simp: msg_fresh_def msg_desc_def msg_data_eq_iff)
qed

lemma port_chunks_append:
  "port_chunks cd (if ms = [] then m_buffer (c_msgs cd m) else acc) (if ms = [] then m_length (c_msgs cd m) else rem) (ms @ [m]) =
     port_chunks cd acc rem ms @ [msg_bytes cd m]"
  by (cases ms) (simp_all add: msg_bytes_def)

lemma port_apart_append:
  "port_apart cd (if ms = [] then m_buffer (c_msgs cd m) else acc) (if ms = [] then m_length (c_msgs cd m) else rem) (ms @ [m]) A \<longleftrightarrow>
     port_apart cd acc rem ms A \<and> area (m_buffer (c_msgs cd m)) (unat (m_length (c_msgs cd m))) \<inter> A = {}"
  by (cases ms) auto

lemma in_put:
  assumes R: "input_rel P N b f (m # X) (cd, port) s"
  shows "\<exists>st. in_step (Put m) (cd, port) = Some (st, snd (in_spec N f (Put m) s)) \<and> input_rel P N b f X st (fst (in_spec N f (Put m) s))"
proof -
  let ?A = "area b N" let ?ms = "is_msgs s" let ?L = "is_lists s"
  have q: "port_q cd P ?L (ip_queue port) ?ms" and F: "msg_fresh cd P ?L ?ms ?A m" "msg_desc cd m = f m"
    and X: "\<And>x. x \<in> set X \<Longrightarrow> msg_fresh cd P ?L ?ms ?A x \<and> msg_desc cd x = f x \<and> x \<noteq> m" and fl: "is_flags s = ip_flags port"
    using R by (auto simp: input_rel_def Let_def)
  have m: "m \<notin> ipc_set P ?L" "m \<notin> set ?ms" "m \<noteq> 0"
    "XF_MSG_SRC_CORE (m_id (c_msgs cd m)) = 0" "XF_MSG_DST_CORE (m_id (c_msgs cd m)) = 0" using F(1) by (simp_all add: msg_fresh_def)
  have id: "m_id (c_msgs cd m) = fst (f m)" and nl: "m_buffer (c_msgs cd m) = 0 \<longleftrightarrow> snd (snd (f m))"
    and byt: "msg_bytes cd m = fst (snd (f m))" by (simp_all add: msg_desc_def flip: F(2))
  have ln: "m_length (c_msgs cd m) = 0 \<longleftrightarrow> fst (snd (f m)) = []"
    unfolding byt [symmetric] msg_bytes_def by (simp add: unat_eq_0 flip: length_0_conv)
  show ?thesis
  proof (cases "ip_flags port AND XF_INPUT_FLAG_ENABLED = 0")
    case True
    from port_other_ok [OF q m] obtain cd' where
      a: "xf_response_ok m cd = Some cd'" "port_q cd' P (replied (\<lambda>m. m_id (c_msgs cd m)) [m] ?L) (ip_queue port) ?ms"
        "port_answered cd m (\<lambda>x. x\<lparr>m_length := 0\<rparr>) cd'" by blast
    have d: "c_data cd' = c_data cd" using a(3) ipc_frame_fields(2) by (simp add: port_answered_def Let_def)
    have oth: "msg_data (c_msgs cd' x) = msg_data (c_msgs cd x)" if "x \<noteq> m" for x using a(3) that by (simp add: port_answered_def Let_def)
    have ne: "x \<noteq> m" if "x \<in> set ?ms" for x using that m(2) by blast
    have k: "keeps_msgs ?A ?ms cd cd'" using d oth ne by (simp add: keeps_msgs_def)
    have r: "replied (\<lambda>m. m_id (c_msgs cd m)) [m] ?L = replied (\<lambda>m. fst (f m)) [m] ?L" by (rule replied_cong) (simp add: id)
    have kx: "msg_fresh cd' P (replied (\<lambda>m. fst (f m)) [m] ?L) ?ms ?A x \<and> msg_desc cd' x = f x" if "x \<in> set X" for x
      by (rule fresh_keep [of cd P ?L ?ms]) (use X [OF that] d oth [of x] in \<open>auto simp: keeps_msgs_def msg_fresh_def ipc_set_replied\<close>)
    have "port_apart cd (ip_access port) (ip_remaining port) ?ms ?A" using R by (simp add: input_rel_def Let_def)
    note c = port_chunks_keep [OF k this]
    have ids: "m_id (c_msgs cd' x) = fst (f x)" if "x \<in> set ?ms" for x
      using R oth [OF ne [OF that]] that by (simp add: input_rel_def Let_def msg_data_eq_iff)
    show ?thesis using True a(1,2) R c kx ids d by (simp add: fl xf_input_port_put_def input_rel_def Let_def r)
  next
    case False
    from port_enqueue [OF q m] obtain q' h where
      e: "xf_msg_enqueue (ip_queue port) m (c_msgs cd) = (q', h, ?ms = [])" "port_q (cd\<lparr>c_msgs := h\<rparr>) P ?L q' (?ms @ [m])"
        "\<And>a. msg_data (h a) = msg_data (c_msgs cd a)" by blast
    let ?c1 = "cd\<lparr>c_msgs := h\<rparr>"
    let ?acc = "if ?ms = [] then m_buffer (c_msgs cd m) else ip_access port" let ?rem = "if ?ms = [] then m_length (c_msgs cd m) else ip_remaining port"
    let ?s = "fst (in_spec N f (Put m) s)"
    define port' where "port' = port\<lparr>ip_queue := q', ip_access := ?acc, ip_remaining := ?rem, ip_flags := is_flags ?s\<rparr>"
    have hm: "m_buffer (h m) = m_buffer (c_msgs cd m)" "m_length (h m) = m_length (c_msgs cd m)" "m_id (h x) = m_id (c_msgs cd x)" for x
      using e(3) [of m] e(3) [of x] by (simp_all add: msg_data_eq_iff)
    have step: "in_step (Put m) (cd, port) = Some ((?c1, port'), [], ?ms = [])"
      using False e(1) fl nl ln by (simp add: xf_input_port_put_def Let_def hm port'_def)
    have out: "snd (in_spec N f (Put m) s) = ([], ?ms = [])" "is_chunks ?s = is_chunks s @ [fst (snd (f m))]" "is_msgs ?s = ?ms @ [m]"
      "is_lists ?s = ?L" "is_buf ?s = is_buf s" using False fl by (simp_all add: Let_def)
    have k: "keeps_msgs ?A xs cd ?c1" for xs using e(3) by (simp add: keeps_msgs_def)
    have "port_apart cd ?acc ?rem (?ms @ [m]) ?A"
      unfolding port_apart_append using R F(1) by (simp add: input_rel_def Let_def msg_fresh_def)
    note c = port_chunks_keep [OF k this]
    have c1: "port_chunks ?c1 ?acc ?rem (?ms @ [m]) = is_chunks s @ [fst (snd (f m))]"
      unfolding c(1) port_chunks_append using R byt by (simp add: input_rel_def Let_def)
    have kx: "msg_fresh ?c1 P ?L (?ms @ [m]) ?A x \<and> msg_desc ?c1 x = f x" if "x \<in> set X" for x
      by (rule fresh_keep [of cd P ?L ?ms]) (use X [OF that] k in \<open>auto simp: msg_fresh_def\<close>)
    have ids: "m_id (c_msgs ?c1 x) = fst (f x)" if "x \<in> set (?ms @ [m])" for x
      using R that hm(3) id by (auto simp: input_rel_def Let_def)
    have "input_rel P N b f X (?c1, port') ?s"
      using R e(2) c1 c(2) kx ids unfolding input_rel_def Let_def prod.case out port'_def by simp
    with step out(1) show ?thesis by metis
  qed
qed

lemma in_fill:
  assumes R: "input_rel P N b f X (cd, port) s"
  shows "\<exists>st. in_step Fill (cd, port) = Some (st, snd (in_spec N f Fill s)) \<and> input_rel P N b f X st (fst (in_spec N f Fill s))"
proof (cases "is_msgs s")
  case Nil
  have "port_q cd P (is_lists s) (ip_queue port) (is_msgs s)" using R by (simp add: input_rel_def Let_def)
  from port_head [OF this] Nil have "xf_msg_queue_head (ip_queue port) = 0" by simp
  with Nil R show ?thesis by (simp add: xf_input_port_fill_def)
next
  case (Cons m ms)
  let ?A = "area b N" let ?L = "is_lists s"
  have q: "port_q cd P ?L (ip_queue port) (m # ms)" and a: "port_apart cd (ip_access port) (ip_remaining port) (m # ms) (area (ip_buffer port) N)"
    and N: "unat (ip_filled port) \<le> N" "N < 2 ^ 31" "unat (ip_length port) = N" "ip_buffer port = b"
    and ch: "is_chunks s = port_chunks cd (ip_access port) (ip_remaining port) (m # ms)" and bf: "is_buf s = bytes_at (c_data cd) b (unat (ip_filled port))"
    and X: "\<And>x. x \<in> set X \<Longrightarrow> msg_fresh cd P ?L (m # ms) ?A x \<and> msg_desc cd x = f x" and fl: "is_flags s = ip_flags port"
    and id0: "\<forall>x\<in>set (m # ms). m_id (c_msgs cd x) = fst (f x)"
    using R Cons by (simp_all add: input_rel_def Let_def)
  have id: "m_id (c_msgs cd x) = fst (f x)" if "x \<in> set (m # ms)" for x using id0 that by blast
  let ?n = "ip_length port - ip_filled port"
  have n: "unat ?n = N - unat (ip_filled port)" using N by (simp add: unat_sub word_le_nat_alt)
  obtain d r e where f: "fill_ref (unat ?n) (is_chunks s) = (d, r, e)" by (metis prod_cases3)
  have S: "unat (ip_filled port) + unat ?n = N" using n N(1) by simp
  from port_fill_loop_at [OF q a S N(2) f [unfolded ch]] obtain cd' port1 rem' where
    l: "port_fill_loop port (ip_filled port) (ip_remaining port) ?n cd =
          Some (cd', port1, ip_filled port + of_nat (length d), rem', if e then 0 else ?n - of_nat (length d))"
      "filled_to N cd P ?L (m # ms) port (ip_filled port) d r e cd' port1 rem'" by blast
  define k where "k = length (m # ms) - length r"
  define port' where "port' = port1\<lparr>ip_filled := ip_filled port + of_nat (length d), ip_remaining := rem'\<rparr>"
  note F = l(2) [unfolded filled_to_def Let_def, folded k_def]
  have ld: "length d \<le> unat ?n" using fill_ref_split [OF f] by simp
  have lu: "unat (of_nat (length d) :: u32) = length d" using ld N n unat_of_nat_u32 [of "length d"] by simp
  have fu: "unat (ip_filled port + of_nat (length d)) = unat (ip_filled port) + length d"
    using unat_add_u32 [of "ip_filled port" "of_nat (length d)"] lu ld S N(2) by simp
  have z: "?n - of_nat (length d) = 0 \<longleftrightarrow> length d = unat ?n" using lu by (metis eq_iff_diff_eq_0 word_unat_eq_iff)
  have nz: "xf_msg_queue_head (ip_queue port) \<noteq> 0" using port_head [OF q] port_q_distinct [OF q] by auto
  have step: "in_step Fill (cd, port) = Some ((cd', port'), [], e \<or> length d = unat ?n)"
    using nz l(1) z by (simp add: xf_input_port_fill_def port'_def)
  let ?s = "fst (in_spec N f Fill s)"
  have fr: "fill_ref (N - length (is_buf s)) (is_chunks s) = (d, r, e)" using f n bf by simp
  have out: "snd (in_spec N f Fill s) = ([], e \<or> length d = unat ?n)" "is_buf ?s = is_buf s @ d" "is_chunks ?s = r"
    "is_msgs ?s = drop k (m # ms)" "is_lists ?s = replied (\<lambda>m. fst (f m)) (take k (m # ms)) ?L"
    "is_flags ?s = (if e then ip_flags port XOR (XF_INPUT_FLAG_EOS OR XF_INPUT_FLAG_DONE) else ip_flags port)"
    using fr Cons fl bf n S by (auto simp: k_def Let_def)
  have rp: "replied (\<lambda>m. m_id (c_msgs cd m)) (take k (m # ms)) ?L = replied (\<lambda>m. fst (f m)) (take k (m # ms)) ?L"
    by (rule replied_cong) (use id in \<open>auto dest: in_set_takeD\<close>)
  have oth: "msg_data (c_msgs cd' x) = msg_data (c_msgs cd x)" if "x \<notin> set (take k (m # ms))" for x
    using F that by (simp add: msgs_done_def)
  have dat: "c_data cd' x = c_data cd x" if "x \<notin> ?A" for x using F that N(4) by simp
  have kx: "msg_fresh cd' P (is_lists ?s) (drop k (m # ms)) ?A x \<and> msg_desc cd' x = f x" if "x \<in> set X" for x
  proof (rule fresh_keep [of cd P ?L "m # ms"])
    have x: "x \<notin> set (take k (m # ms))" "x \<notin> set (drop k (m # ms))" "x \<notin> ipc_set P ?L"
      using X [OF that] by (auto simp: msg_fresh_def dest: in_set_takeD in_set_dropD)
    show "keeps_msgs ?A [x] cd cd'" using dat oth [OF x(1)] by (simp add: keeps_msgs_def)
    show "x \<notin> ipc_set P (is_lists ?s)" unfolding out(5) ipc_set_replied using x by simp
    show "x \<notin> set (drop k (m # ms))" by (rule x)
  qed (use X [OF that] in simp_all)
  have ids: "m_id (c_msgs cd' x) = fst (f x)" if "x \<in> set (drop k (m # ms))" for x
  proof -
    have "set (take k (m # ms)) \<inter> set (drop k (m # ms)) = {}"
      using port_q_distinct [OF q] set_take_disj_set_drop_if_distinct by blast
    then have "x \<notin> set (take k (m # ms))" using that by blast
    from oth [OF this] id [of x] that show ?thesis by (auto simp: msg_data_eq_iff dest: in_set_dropD)
  qed
  have "input_rel P N b f X (cd', port') ?s"
    unfolding input_rel_def Let_def prod.case out(2-4,6)
    using F N R kx ids fu ld S bf rp unfolding out(5) by (simp add: port'_def input_rel_def Let_def)
  with step out(1) show ?thesis by metis
qed

text \<open>Operations that touch the buffer only.\<close>

lemma input_rel_buffer:
  assumes R: "input_rel P N b f X (cd, port) s" and d: "\<And>x. x \<notin> area b N \<Longrightarrow> d x = c_data cd x"
    and v: "unat v \<le> N" "u = bytes_at d b (unat v)"
  shows "input_rel P N b f X (cd\<lparr>c_data := d\<rparr>, port\<lparr>ip_filled := v\<rparr>) (s\<lparr>is_buf := u\<rparr>)"
proof -
  let ?c = "cd\<lparr>c_data := d\<rparr>" let ?A = "area b N"
  have k: "keeps_msgs ?A xs cd ?c" for xs using d by (simp add: keeps_msgs_def)
  have "port_apart cd (ip_access port) (ip_remaining port) (is_msgs s) ?A" using R by (simp add: input_rel_def Let_def)
  note c = port_chunks_keep [OF k this]
  have "msg_fresh ?c P (is_lists s) (is_msgs s) ?A x \<and> msg_desc ?c x = f x" if "x \<in> set X" for x
    by (rule fresh_keep [OF _ _ k, of P "is_lists s" "is_msgs s"]) (use R that in \<open>auto simp: input_rel_def Let_def msg_fresh_def\<close>)
  then show ?thesis using R c v by (simp add: input_rel_def Let_def port_q_data)
qed

lemma in_consume:
  assumes R: "input_rel P N b f X (cd, port) s"
  shows "\<exists>st. in_step (Consume n) (cd, port) = Some (st, snd (in_spec N f (Consume n) s)) \<and> input_rel P N b f X st (fst (in_spec N f (Consume n) s))"
proof -
  let ?F = "ip_filled port"
  have B: "ip_buffer port = b" "b \<noteq> 0" "unat ?F \<le> N" "N < 2 ^ 31" and bf: "is_buf s = bytes_at (c_data cd) b (unat ?F)"
    using R by (simp_all add: input_rel_def Let_def)
  have out: "bytes_at (c_data cd) (ip_buffer port) (min (unat n) (unat (xf_input_port_level port))) = take (unat n) (is_buf s)"
    by (cases "unat n \<le> unat ?F") (simp_all add: bf B(1) bytes_at_take xf_input_port_level_def min_def)
  show ?thesis
  proof (cases "n < ?F")
    case True
    let ?k = "?F - n"
    have l: "unat n < unat ?F" using True by (simp add: word_less_nat_alt)
    have k: "unat ?k = unat ?F - unat n" using True by (intro unat_sub) (simp add: order_less_imp_le)
    let ?d = "mem_copy b (b + n) ?k (c_data cd)"
    have "unat n + unat ?k < 2 ^ 32" using k l B(3,4) by simp
    note m = mem_copy_down [OF this, where b = b and d = "c_data cd"]
    have "unat ?k \<le> N" using k B(3) by simp
    then have "x \<notin> area b (unat ?k)" if "x \<notin> area b N" for x using area_mono that by blast
    then have d: "?d x = c_data cd x" if "x \<notin> area b N" for x using m(2) that by blast
    have "drop (unat n) (is_buf s) = bytes_at ?d b (unat ?k)" using m(1) l k by (simp add: bf bytes_at_drop)
    from input_rel_buffer [OF R d _ this] k B(3)
    have "input_rel P N b f X (cd\<lparr>c_data := ?d\<rparr>, port\<lparr>ip_filled := ?k\<rparr>) (s\<lparr>is_buf := drop (unat n) (is_buf s)\<rparr>)" by simp
    moreover have "xf_input_port_consume port n cd = Some (cd\<lparr>c_data := ?d\<rparr>, port\<lparr>ip_filled := ?k\<rparr>)"
      using True B by (simp add: xf_input_port_consume_def xf_input_port_bypass_def Let_def)
    ultimately show ?thesis by (simp add: out)
  next
    case False
    then have l: "unat ?F \<le> unat n" by (simp add: word_less_nat_alt)
    have "xf_input_port_consume port n cd = Some (cd\<lparr>c_data := c_data cd\<rparr>, port\<lparr>ip_filled := 0\<rparr>)"
      using False B by (simp add: xf_input_port_consume_def xf_input_port_bypass_def)
    moreover have "input_rel P N b f X (cd\<lparr>c_data := c_data cd\<rparr>, port\<lparr>ip_filled := 0\<rparr>) (s\<lparr>is_buf := drop (unat n) (is_buf s)\<rparr>)"
      by (rule input_rel_buffer [OF R]) (simp_all add: bf l)
    ultimately show ?thesis by (simp add: out)
  qed
qed

lemma in_pad:
  assumes R: "input_rel P N b f X (cd, port) s"
  shows "\<exists>st. in_step (Pad v) (cd, port) = Some (st, snd (in_spec N f (Pad v) s)) \<and> input_rel P N b f X st (fst (in_spec N f (Pad v) s))"
proof -
  let ?F = "ip_filled port" let ?k = "ip_length port - ?F"
  have B: "ip_buffer port = b" "unat ?F \<le> N" "N < 2 ^ 31" "unat (ip_length port) = N" and bf: "is_buf s = bytes_at (c_data cd) b (unat ?F)"
    using R by (simp_all add: input_rel_def Let_def)
  have k: "unat ?k = N - unat ?F" using B by (simp add: unat_sub word_le_nat_alt)
  have sg: "0 <s ?k \<longleftrightarrow> ?k \<noteq> 0" by (rule sless_0_iff) (use k B in simp)
  show ?thesis
  proof (cases "?k = 0")
    case True
    then have "N - unat ?F = 0" using k by (metis unat_0)
    then have "is_buf s @ replicate (N - length (is_buf s)) v = is_buf s" by (simp add: bf)
    moreover have "input_rel P N b f X (cd, port) (s\<lparr>is_buf := is_buf s\<rparr>)" using R by simp
    ultimately show ?thesis using True by (simp add: xf_input_port_pad_def)
  next
    case False
    let ?d = "mem_set (b + ?F) v ?k (c_data cd)"
    have S: "unat ?F + unat ?k = N" using k B(2) by simp
    have sub: "area (b + ?F) (unat ?k) \<subseteq> area b N" using area_sub [of "unat ?F" "unat ?k" N b] S by simp
    note m = mem_set_bytes [where b = "b + ?F" and v = v and n = ?k and d = "c_data cd"]
    have d: "?d x = c_data cd x" if "x \<notin> area b N" for x using m(2) sub that by blast
    have "b + of_nat i \<notin> area (b + ?F) (unat ?k)" if "i < unat ?F" for i
    proof
      assume "b + of_nat i \<in> area (b + ?F) (unat ?k)"
      then obtain j where j: "j < unat ?k" "b + of_nat i = b + ?F + of_nat j" by (auto simp: area_def)
      then have "of_nat i = (of_nat (unat ?F + j) :: addr)" by simp
      then show False using of_nat_u32_eq [of i "unat ?F + j"] that j(1) S B(3) by simp
    qed
    then have "bytes_at ?d b (unat ?F) = bytes_at (c_data cd) b (unat ?F)" by (intro bytes_at_cong) (simp add: m(2))
    with m(1) have "bytes_at ?d b (unat ?F + unat ?k) = is_buf s @ replicate (N - length (is_buf s)) v"
      unfolding bytes_at_add by (simp add: bf k)
    then have "is_buf s @ replicate (N - length (is_buf s)) v = bytes_at ?d b (unat (ip_length port))" using S B(4) by simp
    from input_rel_buffer [OF R d _ this] B(4) sg False show ?thesis
      by (simp add: xf_input_port_pad_def B(1) Let_def)
  qed
qed

interpretation ip: op_refinement "\<lambda>ops. input_rel P N b f (put_msgs ops)" in_step "in_spec N f"
proof unfold_locales
  fix x xs s a assume R: "input_rel P N b f (put_msgs (x # xs)) s a"
  obtain cd port where s: "s = (cd, port)" by (cases s)
  show "\<exists>s'. in_step x s = Some (s', snd (in_spec N f x a)) \<and> input_rel P N b f (put_msgs xs) s' (fst (in_spec N f x a))"
    using R unfolding s
    by (cases x) (simp_all only: put_msgs.simps in_put in_fill in_consume in_pad)
qed

section \<open>No byte is lost\<close>

text \<open>The messages a run accepts, and the bytes the component reads.\<close>

fun accepted :: "nat \<Rightarrow> (addr \<Rightarrow> u32 \<times> u8 list \<times> bool) \<Rightarrow> in_op list \<Rightarrow> in_stream \<Rightarrow> addr list" where
  "accepted N f [] s = []"
| "accepted N f (x # xs) s =
     (case x of Put m \<Rightarrow> if is_flags s AND XF_INPUT_FLAG_ENABLED = 0 then [] else [m] | _ \<Rightarrow> [])
       @ accepted N f xs (fst (in_spec N f x s))"

definition no_pad :: "in_op list \<Rightarrow> bool" where
  "no_pad ops \<longleftrightarrow> (\<forall>v. Pad v \<notin> set ops)"

lemma in_spec_bytes:
  assumes "\<forall>v. x \<noteq> Pad v" and "length (is_chunks s) = length (is_msgs s)"
  shows "fst (snd (in_spec N f x s)) @ is_buf (fst (in_spec N f x s)) @ concat (is_chunks (fst (in_spec N f x s))) =
      is_buf s @ concat (is_chunks s) @ concat (map (\<lambda>m. fst (snd (f m))) (accepted N f [x] s))"
    and "length (is_chunks (fst (in_spec N f x s))) = length (is_msgs (fst (in_spec N f x s)))"
proof -
  have "fst (snd (in_spec N f x s)) @ is_buf (fst (in_spec N f x s)) @ concat (is_chunks (fst (in_spec N f x s))) =
      is_buf s @ concat (is_chunks s) @ concat (map (\<lambda>m. fst (snd (f m))) (accepted N f [x] s)) \<and>
    length (is_chunks (fst (in_spec N f x s))) = length (is_msgs (fst (in_spec N f x s)))"
  proof (cases x)
    case Fill
    obtain d r e where "fill_ref (N - length (is_buf s)) (is_chunks s) = (d, r, e)" by (metis prod_cases3)
    with fill_ref_split [OF this] Fill assms(2) show ?thesis by (simp add: Let_def)
  qed (use assms in \<open>simp_all add: Let_def\<close>)
  then show "fst (snd (in_spec N f x s)) @ is_buf (fst (in_spec N f x s)) @ concat (is_chunks (fst (in_spec N f x s))) =
      is_buf s @ concat (is_chunks s) @ concat (map (\<lambda>m. fst (snd (f m))) (accepted N f [x] s))"
    "length (is_chunks (fst (in_spec N f x s))) = length (is_msgs (fst (in_spec N f x s)))" by blast+
qed

lemma run_bytes:
  assumes "no_pad ops" and "length (is_chunks s) = length (is_msgs s)" and "run_spec (in_spec N f) ops s = (s', rs)"
  shows "concat (map fst rs) @ is_buf s' @ concat (is_chunks s') =
    is_buf s @ concat (is_chunks s) @ concat (map (\<lambda>m. fst (snd (f m))) (accepted N f ops s))"
  using assms
proof (induction ops arbitrary: s s' rs)
  case (Cons x xs)
  obtain s1 r where 1: "in_spec N f x s = (s1, r)" by (metis surj_pair)
  obtain s2 rs2 where 2: "run_spec (in_spec N f) xs s1 = (s2, rs2)" by (metis surj_pair)
  have x: "\<forall>v. x \<noteq> Pad v" "no_pad xs" using Cons.prems(1) by (auto simp: no_pad_def)
  note B = in_spec_bytes [OF x(1) Cons.prems(2), of N f, unfolded 1 fst_conv snd_conv]
  have r: "s' = s2" "rs = r # rs2" using Cons.prems(3) 1 2 by simp_all
  have acc: "accepted N f (x # xs) s = accepted N f [x] s @ accepted N f xs s1" by (simp add: 1)
  from Cons.IH [OF x(2) B(2) 2] have I: "concat (map fst rs2) @ is_buf s2 @ concat (is_chunks s2) =
    is_buf s1 @ concat (is_chunks s1) @ concat (map (\<lambda>m. fst (snd (f m))) (accepted N f xs s1))" .
  have "concat (map fst rs) @ is_buf s' @ concat (is_chunks s') = fst r @ (is_buf s1 @ concat (is_chunks s1)) @ concat (map (\<lambda>m. fst (snd (f m))) (accepted N f xs s1))"
    using I r by simp
  also have "\<dots> = is_buf s @ concat (is_chunks s) @ concat (map (\<lambda>m. fst (snd (f m))) (accepted N f (x # xs) s))"
    using B(1) unfolding acc by (metis append.assoc concat_append map_append)
  finally show ?case .
qed simp

text \<open>A port that has just been created is empty.\<close>

lemma input_port_init_empty:
  assumes "sz \<noteq> 0" and "xf_mem_alloc sz align core 0 cd = Some (cd', b)" and "b \<noteq> 0" and "unat sz < 2 ^ 31"
    and "ipc_at cd' P L" and "distinct X" and "\<And>x. x \<in> set X \<Longrightarrow> msg_fresh cd' P L [] (area b (unat sz)) x \<and> msg_desc cd' x = f x"
  shows "\<exists>port'. xf_input_port_init port sz align core cd = Some (cd', port', Inr ()) \<and>
    input_rel P (unat sz) b f X (cd', port')
      \<lparr>is_buf = [], is_chunks = [], is_msgs = [], is_flags = XF_INPUT_FLAG_ENABLED OR XF_INPUT_FLAG_CREATED, is_lists = L\<rparr>"
  using assms by (simp add: xf_input_port_init_def input_rel_def Let_def port_q_def queue_at_init)

section \<open>Properties\<close>

text \<open>C22: An input port with a buffer is a byte stream. In every sequence of puts, fills, consumes and pads the
  port of xf-io.c gives the results of the specification: put queues an accepted message at the end, or answers it
  at once when the input is disabled; fill moves bytes from the queued messages into the buffer, in order, answers
  exactly the messages it has read completely and tells whether the buffer is full; consume hands the first bytes of
  the buffer to the component. Without padding, the bytes consumed, followed by the buffer and the unread messages,
  are the bytes there at the start followed by those of the accepted messages: none is lost, duplicated or reordered.\<close>

theorem input_port_stream:
  assumes "input_rel P N b f (put_msgs ops) (cd, port) s"
  shows "\<exists>cd' port' s' rs. run_ops in_step ops (cd, port) = Some ((cd', port'), rs) \<and>
    run_spec (in_spec N f) ops s = (s', rs) \<and> input_rel P N b f [] (cd', port') s' \<and>
    (no_pad ops \<longrightarrow> concat (map fst rs) @ is_buf s' @ concat (is_chunks s') =
       is_buf s @ concat (is_chunks s) @ concat (map (\<lambda>m. fst (snd (f m))) (accepted N f ops s)))"
proof -
  obtain s' rs where r: "run_spec (in_spec N f) ops s = (s', rs)" by (metis surj_pair)
  from ip.run_total [OF assms] r obtain st where
    "run_ops in_step ops (cd, port) = Some (st, rs)" "input_rel P N b f [] st s'" by auto
  moreover have "length (is_chunks s) = length (is_msgs s)" using assms by (simp add: input_rel_def Let_def)
  ultimately show ?thesis using r run_bytes [OF _ _ r] by (cases st) auto
qed

definition stream_demo :: xf_core where
  "stream_demo = core_demo\<lparr>c_msgs := msg_demo(96 := (msg_demo 96)\<lparr>m_id := 0x80008000, m_opcode := XF_EMPTY_THIS_BUFFER,
     m_length := 6, m_buffer := 0x2000\<rparr>), c_data := \<lambda>a. ucast (a - 0x2000)\<rparr>"

definition in_port_demo :: xf_input_port where
  "in_port_demo = \<lparr>ip_queue = \<lparr>q_head = 0, q_tail = 0\<rparr>, ip_buffer = 0x1000, ip_length = 4, ip_filled = 0, ip_access = 0,
     ip_remaining = 0, ip_flags = 3\<rparr>"

lemma stream_demo_ipc: "ipc_at stream_demo [] (\<lambda>_. [])"
proof -
  have "queue_at (c_msgs stream_demo) (get_q k stream_demo) []" for k
    by (cases k) (simp_all add: stream_demo_def core_demo_def queue_at_def)
  then show ?thesis by (simp add: ipc_at_def pool_at_def) (simp add: stream_demo_def core_demo_def)
qed

lemma area_demo: "area 0x2000 6 \<inter> area 0x1000 4 = {}"
  by (auto simp: area_def lessThan_nat_numeral lessThan_Suc)

lemma stream_demo_rel:
  "input_rel [] 4 0x1000 (msg_desc stream_demo) [96] (stream_demo, in_port_demo)
     \<lparr>is_buf = [], is_chunks = [], is_msgs = [], is_flags = 3, is_lists = \<lambda>_. []\<rparr>"
proof -
  have "msg_fresh stream_demo [] (\<lambda>_. []) [] (area 0x1000 4) 96"
    using area_demo by (simp add: msg_fresh_def ipc_set_def stream_demo_def demo_ids)
  then show ?thesis
    using stream_demo_ipc by (simp add: input_rel_def in_port_demo_def port_q_def queue_at_def)
qed

theorem input_port_stream_witness:
  "\<exists>st. run_ops in_step [Put 96, Fill, Consume 3, Fill, Consume 4] (stream_demo, in_port_demo) =
     Some (st, [([], True), ([], True), ([0, 1, 2], False), ([], False), ([3, 4, 5], False)])"
proof -
  have d: "msg_desc stream_demo 96 = (0x80008000, [0, 1, 2, 3, 4, 5], False)"
    by (simp add: msg_desc_def msg_bytes_def stream_demo_def bytes_at_def upt_rec)
  have "put_msgs [Put 96, Fill, Consume 3, Fill, Consume 4] = [96]" by simp
  from input_port_stream [of "[]" 4 "0x1000" "msg_desc stream_demo" "[Put 96, Fill, Consume 3, Fill, Consume 4]", unfolded this,
      OF stream_demo_rel] show ?thesis
    by (auto simp: d input_flag_defs Let_def)
qed

end
