(* ===== verification/XF_Io_Route.thy ===== *)
theory XF_Io_Route
  imports XF_Io_Input
begin

text \<open>
  Output ports: routing allocates a pool of messages with a buffer each and puts them into the
  port, unrouting releases all of it. The release loops are runs of the allocator contract of
  XF_Mem_Pool, so the memory balance follows from it.
\<close>

section \<open>Messages outside the queues\<close>

lemma queue_at_other: "queue_at h q ms \<Longrightarrow> m \<notin> set ms \<Longrightarrow> queue_at (h(m := x)) q ms"
  by (auto simp: queue_at_def elim!: msg_path_cong)

lemma pool_at_other: "pool_at h p ms \<Longrightarrow> m \<notin> set ms \<Longrightarrow> pool_at (h(m := x)) p ms"
  by (auto simp: pool_at_def elim!: msg_path_cong)

lemma ipc_at_other: "ipc_at cd P L \<Longrightarrow> m \<notin> ipc_set P L \<Longrightarrow> ipc_at (msg_upd m f cd) P L"
  unfolding ipc_at_def msg_upd_def ipc_set_def by (simp add: pool_at_other queue_at_other)

lemma port_q_other:
  "port_q cd P L q ms \<Longrightarrow> m \<notin> ipc_set P L \<Longrightarrow> m \<notin> set ms \<Longrightarrow> port_q (msg_upd m f cd) P L q ms"
  unfolding port_q_def by (auto simp: ipc_at_other queue_at_other)

lemma port_q_mem: "port_q (cd\<lparr>c_mem := h\<rparr>) P L q ms = port_q cd P L q ms"
  by (simp add: port_q_def ipc_at_mem)

section \<open>Releasing the buffers\<close>

definition it_bufs :: "u32 \<Rightarrow> xf_msg_pool \<Rightarrow> msg_heap \<Rightarrow> u32 \<Rightarrow> nat list \<Rightarrow> (addr \<times> u32) list" where
  "it_bufs al pool h len js = map (\<lambda>j. (m_buffer (h (pool_it al pool j)), len)) js"

lemma word_le_of_nat: "i < 2 ^ 32 \<Longrightarrow> n < 2 ^ 32 \<Longrightarrow> (of_nat i :: u32) \<le> of_nat n \<longleftrightarrow> i \<le> n"
  by (simp add: word_le_nat_alt unat_of_nat_u32)

lemma unroute_loop_release:
  assumes "XF_MSG_DST_CORE i_d = 0" and "n + 1 < 2 ^ 32" and "i \<le> n + 1"
  shows "port_unroute_loop al (of_nat i) (of_nat n) i_d port cd =
    map_option (\<lambda>h. cd\<lparr>c_mem := h\<rparr>)
      (release_seq (xf_mm_free (c_local_pool cd)) (c_mem cd) (it_bufs al (op_pool port) (c_msgs cd) (op_length port) [i ..< n + 1]))"
  using assms(3)
proof (induction "n + 1 - i" arbitrary: i cd)
  case 0
  then have "i = n + 1" using 0 by simp
  then have "\<not> (of_nat i :: u32) \<le> of_nat n" using assms(2) word_le_of_nat [of i n] by linarith
  with 0 show ?case by (subst port_unroute_loop.simps) (simp add: it_bufs_def)
next
  case (Suc k)
  then have i: "i \<le> n" by simp
  then have w: "(of_nat i :: u32) \<le> of_nat n" "(of_nat i :: u32) + 1 = of_nat (Suc i)"
    using assms(2) by (simp_all add: word_le_of_nat)
  have l: "[i ..< n + 1] = i # [Suc i ..< n + 1]" using i by (simp add: upt_conv_Cons)
  have IH: "port_unroute_loop al (of_nat (Suc i)) (of_nat n) i_d port (cd\<lparr>c_mem := h\<rparr>) =
    map_option (\<lambda>h. cd\<lparr>c_mem := h\<rparr>)
      (release_seq (xf_mm_free (c_local_pool cd)) h (it_bufs al (op_pool port) (c_msgs cd) (op_length port) [Suc i ..< n + 1]))" for h
    using Suc(1) [of "Suc i" "cd\<lparr>c_mem := h\<rparr>"] Suc(2) i by simp
  show ?case
    unfolding l by (subst port_unroute_loop.simps)
      (simp add: w(1) it_bufs_def xf_mem_free_def assms(1) w(2) IH [unfolded it_bufs_def] Let_def split: option.splits del: of_nat_Suc)
qed

lemma cleanup_release:
  assumes "XF_MSG_DST_CORE i_d = 0" and "i < 2 ^ 32" and "0 < i"
  shows "port_route_cleanup al (of_nat i) i_d len port cd =
    map_option (\<lambda>h. cd\<lparr>c_mem := h\<rparr>)
      (release_seq (xf_mm_free (c_local_pool cd)) (c_mem cd) (it_bufs al (op_pool port) (c_msgs cd) len (rev [1 ..< i])))"
  using assms(2,3)
proof (induction i arbitrary: cd)
  case (Suc i)
  have w: "(of_nat (Suc i) :: u32) - 1 = of_nat i" by simp
  show ?case
  proof (cases "i = 0")
    case True
    then show ?thesis by (subst port_route_cleanup.simps) (simp add: it_bufs_def)
  next
    case False
    then have nz: "(of_nat i :: u32) \<noteq> 0" using Suc.prems of_nat_u32_eq [of i 0] by simp
    have l: "rev [1 ..< Suc i] = i # rev [1 ..< i]" using False by simp
    have IH: "port_route_cleanup al (of_nat i) i_d len port (cd\<lparr>c_mem := h\<rparr>) =
      map_option (\<lambda>h. cd\<lparr>c_mem := h\<rparr>)
        (release_seq (xf_mm_free (c_local_pool cd)) h (it_bufs al (op_pool port) (c_msgs cd) len (rev [1 ..< i])))" for h
      using Suc.IH [of "cd\<lparr>c_mem := h\<rparr>"] Suc.prems False by simp
    show ?thesis
      unfolding l by (subst port_route_cleanup.simps)
        (simp add: w nz it_bufs_def xf_mem_free_def assms(1) IH [unfolded it_bufs_def] Let_def split: option.splits del: of_nat_Suc)
  qed
qed simp

section \<open>Allocating the buffers\<close>

text \<open>The messages before number k are set up and queued, and their buffers are apart from each other and
  from the free memory F.\<close>

definition route_inv :: "nat \<Rightarrow> nat \<Rightarrow> addr list \<Rightarrow> (ipc_queue \<Rightarrow> addr list) \<Rightarrow> u32 \<Rightarrow> u32 \<Rightarrow> u32 \<Rightarrow> nat \<Rightarrow> nat set \<Rightarrow>
    xf_core \<Rightarrow> xf_output_port \<Rightarrow> bool" where
  "route_inv lo hi P L al i_d len k F cd port \<longleftrightarrow>
     (let it = pool_it al (op_pool port); B = it_bufs al (op_pool port) (c_msgs cd) len [1 ..< k] in
      port_q cd P L (op_queue port) (map it [1 ..< k]) \<and> mm_free_set lo hi (c_local_pool cd) (c_mem cd) F \<and>
      spans_apart B \<and> F \<inter> spans B = {} \<and>
      (\<forall>j\<in>{1 ..< k}. m_id (c_msgs cd (it j)) = i_d \<and> m_opcode (c_msgs cd (it j)) = XF_FILL_THIS_BUFFER \<and>
         m_length (c_msgs cd (it j)) = len))"

text \<open>The items of the pool: distinct messages outside all queues.\<close>

definition items_ok :: "(nat \<Rightarrow> addr) \<Rightarrow> nat \<Rightarrow> addr list \<Rightarrow> (ipc_queue \<Rightarrow> addr list) \<Rightarrow> bool" where
  "items_ok it n P L \<longleftrightarrow> inj_on it {..n} \<and> (\<forall>j\<le>n. it j \<noteq> 0 \<and> it j \<notin> ipc_set P L)"

definition route_frame :: "(nat \<Rightarrow> addr) \<Rightarrow> nat \<Rightarrow> xf_core \<Rightarrow> xf_core \<Rightarrow> bool" where
  "route_frame it n cd cd' \<longleftrightarrow>
     cd' = cd\<lparr>c_mem := c_mem cd', c_msgs := c_msgs cd'\<rparr> \<and>
     (\<forall>a. a \<notin> it ` {1..n} \<longrightarrow> msg_data (c_msgs cd' a) = msg_data (c_msgs cd a))"

lemma route_frame_refl: "route_frame it n cd cd"
  by (simp add: route_frame_def)

lemma route_frame_trans: "route_frame it n cd c1 \<Longrightarrow> route_frame it n c1 c2 \<Longrightarrow> route_frame it n cd c2"
  by (cases cd; cases c1; cases c2) (simp add: route_frame_def)

lemma it_bufs_upd:
  "j \<notin> set js \<Longrightarrow> (\<And>i. i \<in> set js \<Longrightarrow> pool_it al pool i \<noteq> m) \<Longrightarrow> it_bufs al pool (h(m := x)) len js = it_bufs al pool h len js"
  by (auto simp: it_bufs_def)

lemma it_bufs_data: "(\<And>a. msg_data (h' a) = msg_data (h a)) \<Longrightarrow> it_bufs al pool h' len js = it_bufs al pool h len js"
  by (simp add: it_bufs_def msg_data_eq_iff)

lemma spans_append [simp]: "spans (as @ bs) = spans as \<union> spans bs"
  by (auto simp: spans_def)

lemma spans_apart_snoc: "spans_apart (bs @ [(a, s)]) \<longleftrightarrow>
    mm_size_ok s \<and> 32 dvd unat a \<and> span a s \<inter> spans bs = {} \<and> spans_apart bs"
  using spans_perm [of "bs @ [(a, s)]" "(a, s) # bs"] by (simp add: spans_apart_Cons)

text \<open>One more message.\<close>

lemma route_step:
  assumes R: "route_inv lo hi P L al i_d len i F cd port" and I: "items_ok (pool_it al (op_pool port)) n P L"
    and c: "XF_MSG_DST_CORE i_d = 0" "XF_MSG_SRC_CORE i_d = 0" and len: "mm_size_ok len" and lo: "0 < lo"
    and i: "1 \<le> i" "i \<le> n"
  defines "m \<equiv> pool_it al (op_pool port) i"
  defines "c1 \<equiv> msg_upd m (\<lambda>x. x\<lparr>m_id := i_d, m_opcode := XF_FILL_THIS_BUFFER, m_length := len\<rparr>) (msg_upd m (\<lambda>x. x\<lparr>m_next := 0\<rparr>) cd)"
  shows "(\<exists>c2. xf_mem_alloc len align 0 s c1 = Some (c2, 0) \<and> \<not> (\<exists>x. {x ..< x + unat len} \<subseteq> F) \<and>
      route_inv lo hi P L al i_d len i F (msg_upd m (\<lambda>x. x\<lparr>m_buffer := 0\<rparr>) c2) port \<and>
      route_frame (pool_it al (op_pool port)) n cd (msg_upd m (\<lambda>x. x\<lparr>m_buffer := 0\<rparr>) c2) \<and>
      it_bufs al (op_pool port) (c_msgs (msg_upd m (\<lambda>x. x\<lparr>m_buffer := 0\<rparr>) c2)) len [1 ..< i] = it_bufs al (op_pool port) (c_msgs cd) len [1 ..< i]) \<or>
    (\<exists>c2 b q h. xf_mem_alloc len align 0 s c1 = Some (c2, b) \<and> b \<noteq> 0 \<and>
      xf_msg_enqueue (op_queue port) m (c_msgs (msg_upd m (\<lambda>x. x\<lparr>m_buffer := b\<rparr>) c2)) = (q, h, i = 1) \<and> span b len \<subseteq> F \<and>
      (let c3 = (msg_upd m (\<lambda>x. x\<lparr>m_buffer := b\<rparr>) c2)\<lparr>c_msgs := h\<rparr>; p3 = port\<lparr>op_queue := q\<rparr> in
       route_inv lo hi P L al i_d len (Suc i) (F - span b len) c3 p3 \<and> route_frame (pool_it al (op_pool port)) n cd c3 \<and>
       it_bufs al (op_pool port) (c_msgs c3) len [1 ..< Suc i] = it_bufs al (op_pool port) (c_msgs cd) len [1 ..< i] @ [(b, len)]))"
proof -
  let ?it = "pool_it al (op_pool port)" let ?B = "it_bufs al (op_pool port) (c_msgs cd) len [1 ..< i]"
  have q: "port_q cd P L (op_queue port) (map ?it [1 ..< i])" and F: "mm_free_set lo hi (c_local_pool cd) (c_mem cd) F"
    and B: "spans_apart ?B" "F \<inter> spans ?B = {}"
    and fl: "\<And>j. 1 \<le> j \<Longrightarrow> j < i \<Longrightarrow> m_id (c_msgs cd (?it j)) = i_d \<and> m_opcode (c_msgs cd (?it j)) = XF_FILL_THIS_BUFFER \<and> m_length (c_msgs cd (?it j)) = len"
    using R by (simp_all add: route_inv_def Let_def)
  have ne: "?it j \<noteq> m" if "j < i" for j
    using I that i inj_onD [of ?it "{..n}" j i] unfolding items_ok_def m_def by auto
  have m: "m \<notin> ipc_set P L" "m \<notin> set (map ?it [1 ..< i])" "m \<noteq> 0"
  proof -
    show "m \<notin> ipc_set P L" "m \<noteq> 0" using I i by (simp_all add: items_ok_def m_def)
    show "m \<notin> set (map ?it [1 ..< i])" using ne by fastforce
  qed
  have q1: "port_q c1 P L (op_queue port) (map ?it [1 ..< i])"
    unfolding c1_def by (intro port_q_other q m(1,2))
  have F1: "mm_free_set lo hi (c_local_pool c1) (c_mem c1) F" using F by (simp add: c1_def msg_upd_def)
  have it1: "m \<in> ?it ` {1..n}" using i by (auto simp: m_def)
  show ?thesis
  proof (rule xf_mem_alloc_cases [OF F1 len lo, of align s])
    assume a: "xf_mem_alloc len align 0 s c1 = Some (c1, 0)" "\<not> (\<exists>x. {x ..< x + unat len} \<subseteq> F)"
    let ?c2 = "msg_upd m (\<lambda>x. x\<lparr>m_buffer := 0\<rparr>) c1"
    have B2: "it_bufs al (op_pool port) (c_msgs ?c2) len [1 ..< i] = ?B"
      using ne by (auto simp: it_bufs_def c1_def)
    have "port_q ?c2 P L (op_queue port) (map ?it [1 ..< i])" by (rule port_q_other [OF q1 m(1,2)])
    moreover have "m_id (c_msgs ?c2 (?it j)) = i_d \<and> m_opcode (c_msgs ?c2 (?it j)) = XF_FILL_THIS_BUFFER \<and> m_length (c_msgs ?c2 (?it j)) = len"
      if "1 \<le> j" "j < i" for j using fl [OF that] ne [OF that(2)] by (simp add: c1_def)
    ultimately have "route_inv lo hi P L al i_d len i F ?c2 port"
      using F1 B unfolding route_inv_def Let_def B2 by (simp add: msg_upd_def)
    moreover have "route_frame ?it n cd ?c2" using it1 by (auto simp: route_frame_def c1_def msg_upd_def)
    ultimately show ?thesis using a B2 by blast
  next
    fix h' b assume a: "xf_mem_alloc len align 0 s c1 = Some (c1\<lparr>c_mem := h'\<rparr>, b)" "b \<noteq> 0" "32 dvd unat b" "span b len \<subseteq> F"
      "mm_free_set lo hi (c_local_pool c1) h' (F - span b len)"
    let ?c2 = "msg_upd m (\<lambda>x. x\<lparr>m_buffer := b\<rparr>) (c1\<lparr>c_mem := h'\<rparr>)"
    have q2: "port_q ?c2 P L (op_queue port) (map ?it [1 ..< i])"
      by (rule port_q_other [OF _ m(1,2)]) (unfold port_q_mem, rule q1)
    have "m_id (c_msgs ?c2 m) = i_d" by (simp add: c1_def)
    with port_enqueue [OF q2 m] c obtain q' h where
      e: "xf_msg_enqueue (op_queue port) m (c_msgs ?c2) = (q', h, map ?it [1 ..< i] = [])"
        "port_q (?c2\<lparr>c_msgs := h\<rparr>) P L q' (map ?it [1 ..< i] @ [m])" "\<And>a. msg_data (h a) = msg_data (c_msgs ?c2 a)" by auto
    let ?c3 = "?c2\<lparr>c_msgs := h\<rparr>" let ?p3 = "port\<lparr>op_queue := q'\<rparr>"
    have l: "[1 ..< Suc i] = [1 ..< i] @ [i]" using i by simp
    have mp: "map ?it [1 ..< Suc i] = map ?it [1 ..< i] @ [m]" unfolding l by (simp add: m_def)
    have B3: "it_bufs al (op_pool port) h len [1 ..< Suc i] = ?B @ [(b, len)]"
      unfolding it_bufs_data [OF e(3)] l using ne by (auto simp: it_bufs_def c1_def m_def)
    have sp: "span b len \<inter> spans ?B = {}" using a(4) B(2) by blast
    have f3: "m_id (h (?it j)) = i_d \<and> m_opcode (h (?it j)) = XF_FILL_THIS_BUFFER \<and> m_length (h (?it j)) = len"
      if "1 \<le> j" "j < Suc i" for j
    proof (cases "j = i")
      case True
      then show ?thesis using e(3) [of m] by (simp add: msg_data_eq_iff c1_def m_def)
    next
      case False
      then show ?thesis using e(3) [of "?it j"] ne [of j] fl [of j] that by (simp add: msg_data_eq_iff c1_def)
    qed
    have pool: "op_pool ?p3 = op_pool port" and B4: "it_bufs al (op_pool port) (c_msgs ?c3) len [1 ..< Suc i] = ?B @ [(b, len)]"
      using B3 by (simp_all del: upt_Suc)
    have r1: "port_q ?c3 P L (op_queue ?p3) (map ?it [1 ..< Suc i])" unfolding mp using e(2) by simp
    have r2: "mm_free_set lo hi (c_local_pool ?c3) (c_mem ?c3) (F - span b len)" using a(5) by (simp add: msg_upd_def)
    have r3: "spans_apart (?B @ [(b, len)])" unfolding spans_apart_snoc using len a(3) sp B(1) by blast
    have r4: "(F - span b len) \<inter> spans (?B @ [(b, len)]) = {}" unfolding spans_append using B(2) by auto
    have r5: "\<forall>j\<in>{1 ..< Suc i}. m_id (c_msgs ?c3 (?it j)) = i_d \<and> m_opcode (c_msgs ?c3 (?it j)) = XF_FILL_THIS_BUFFER \<and> m_length (c_msgs ?c3 (?it j)) = len"
      using f3 by auto
    have "route_inv lo hi P L al i_d len (Suc i) (F - span b len) ?c3 ?p3"
      unfolding route_inv_def Let_def pool B4 using r1 r2 r3 r4 r5 by (intro conjI)
    moreover have "route_frame ?it n cd ?c3"
      using it1 e(3) unfolding route_frame_def by (auto simp: c1_def msg_upd_def)
    moreover have "map ?it [1 ..< i] = [] \<longleftrightarrow> i = 1" using i by auto
    ultimately show ?thesis using a(1,2,4) e(1) B4 unfolding Let_def
      by (intro disjI2 exI [of _ "c1\<lparr>c_mem := h'\<rparr>"] exI [of _ b] exI [of _ q'] exI [of _ h]) (simp del: upt_Suc)
  qed
qed

lemma port_route_loop_at:
  assumes "route_inv lo hi P L al i_d len i F cd port" and "items_ok (pool_it al (op_pool port)) n P L"
    and "XF_MSG_DST_CORE i_d = 0" and "XF_MSG_SRC_CORE i_d = 0" and "mm_size_ok len" and "0 < lo"
    and "n + 1 < 2 ^ 32" and "1 \<le> i" and "i \<le> n + 1"
  shows "\<exists>cd' port' k ok F'. port_route_loop al (of_nat i) (of_nat n) i_d len align port cd = Some (cd', port', of_nat k, ok) \<and>
    (if ok then k = n + 1 else i \<le> k \<and> k \<le> n \<and> \<not> (\<exists>x. {x ..< x + unat len} \<subseteq> F')) \<and>
    route_inv lo hi P L al i_d len k F' cd' port' \<and> route_frame (pool_it al (op_pool port)) n cd cd' \<and>
    F' \<union> spans (it_bufs al (op_pool port) (c_msgs cd') len [1 ..< k]) = F \<union> spans (it_bufs al (op_pool port) (c_msgs cd) len [1 ..< i]) \<and>
    port' = port\<lparr>op_queue := op_queue port'\<rparr>"
  using assms(1,2,8,9)
proof (induction "n + 1 - i" arbitrary: i F cd port)
  case 0
  then have "i = n + 1" by simp
  then have "\<not> (of_nat i :: u32) \<le> of_nat n" using assms(7) word_le_of_nat [of i n] by linarith
  then have "port_route_loop al (of_nat i) (of_nat n) i_d len align port cd = Some (cd, port, of_nat i, True)"
    by (subst port_route_loop.simps) simp
  then show ?case using 0(2) \<open>i = n + 1\<close> route_frame_refl by (intro exI [of _ cd] exI [of _ port] exI [of _ i] exI [of _ True] exI [of _ F]) simp
next
  case (Suc d)
  let ?m = "pool_it al (op_pool port) i"
  let ?c1 = "msg_upd ?m (\<lambda>x. x\<lparr>m_id := i_d, m_opcode := XF_FILL_THIS_BUFFER, m_length := len\<rparr>) (msg_upd ?m (\<lambda>x. x\<lparr>m_next := 0\<rparr>) cd)"
  have i: "i \<le> n" using Suc(2) by simp
  have w: "(of_nat i :: u32) \<le> of_nat n" "(of_nat i :: u32) + 1 = of_nat (Suc i)" using i assms(7) by (simp_all add: word_le_of_nat)
  note unf = port_route_loop.simps [of al "of_nat i" "of_nat n" i_d len align port cd]
  from route_step [OF Suc(3,4) assms(3-6) Suc(5) i, of align "XF_MSG_SHARED i_d"] show ?case
  proof (elim disjE exE conjE)
    fix c2 assume a: "xf_mem_alloc len align 0 (XF_MSG_SHARED i_d) ?c1 = Some (c2, 0)" "\<not> (\<exists>x. {x ..< x + unat len} \<subseteq> F)"
      "route_inv lo hi P L al i_d len i F (msg_upd ?m (\<lambda>x. x\<lparr>m_buffer := 0\<rparr>) c2) port"
      "route_frame (pool_it al (op_pool port)) n cd (msg_upd ?m (\<lambda>x. x\<lparr>m_buffer := 0\<rparr>) c2)"
      "it_bufs al (op_pool port) (c_msgs (msg_upd ?m (\<lambda>x. x\<lparr>m_buffer := 0\<rparr>) c2)) len [1 ..< i] = it_bufs al (op_pool port) (c_msgs cd) len [1 ..< i]"
    have "port_route_loop al (of_nat i) (of_nat n) i_d len align port cd =
        Some (msg_upd ?m (\<lambda>x. x\<lparr>m_buffer := 0\<rparr>) c2, port, of_nat i, False)"
      unfolding unf using a(1) by (simp add: w(1) assms(3) Let_def)
    with a(2-5) i show ?thesis
      by (intro exI [of _ "msg_upd ?m (\<lambda>x. x\<lparr>m_buffer := 0\<rparr>) c2"] exI [of _ port] exI [of _ i] exI [of _ False] exI [of _ F]) simp
  next
    fix c2 b q h
    let ?c3 = "(msg_upd ?m (\<lambda>x. x\<lparr>m_buffer := b\<rparr>) c2)\<lparr>c_msgs := h\<rparr>" let ?p3 = "port\<lparr>op_queue := q\<rparr>"
    assume a: "xf_mem_alloc len align 0 (XF_MSG_SHARED i_d) ?c1 = Some (c2, b)" "b \<noteq> 0"
      "xf_msg_enqueue (op_queue port) ?m (c_msgs (msg_upd ?m (\<lambda>x. x\<lparr>m_buffer := b\<rparr>) c2)) = (q, h, i = 1)" "span b len \<subseteq> F"
      "let c3 = ?c3; p3 = ?p3 in route_inv lo hi P L al i_d len (Suc i) (F - span b len) c3 p3 \<and> route_frame (pool_it al (op_pool port)) n cd c3 \<and>
       it_bufs al (op_pool port) (c_msgs c3) len [1 ..< Suc i] = it_bufs al (op_pool port) (c_msgs cd) len [1 ..< i] @ [(b, len)]"
    have R: "route_inv lo hi P L al i_d len (Suc i) (F - span b len) ?c3 ?p3" "route_frame (pool_it al (op_pool port)) n cd ?c3"
      "it_bufs al (op_pool port) (c_msgs ?c3) len [1 ..< Suc i] = it_bufs al (op_pool port) (c_msgs cd) len [1 ..< i] @ [(b, len)]"
      using a(5) unfolding Let_def by blast+
    have st: "port_route_loop al (of_nat i) (of_nat n) i_d len align port cd = port_route_loop al (of_nat (Suc i)) (of_nat n) i_d len align ?p3 ?c3"
      unfolding unf using a(1-3) by (simp add: w assms(3) Let_def del: of_nat_Suc)
    have "d = n + 1 - Suc i" "items_ok (pool_it al (op_pool ?p3)) n P L" "1 \<le> Suc i" "Suc i \<le> n + 1" using Suc(2,4) i by simp_all
    from Suc(1) [OF this(1) R(1) this(2-4)] obtain cd' port' k ok F' where
      k: "port_route_loop al (of_nat (Suc i)) (of_nat n) i_d len align ?p3 ?c3 = Some (cd', port', of_nat k, ok)"
        "if ok then k = n + 1 else Suc i \<le> k \<and> k \<le> n \<and> \<not> (\<exists>x. {x ..< x + unat len} \<subseteq> F')"
        "route_inv lo hi P L al i_d len k F' cd' port'" "route_frame (pool_it al (op_pool ?p3)) n ?c3 cd'"
        "F' \<union> spans (it_bufs al (op_pool ?p3) (c_msgs cd') len [1 ..< k]) = F - span b len \<union> spans (it_bufs al (op_pool ?p3) (c_msgs ?c3) len [1 ..< Suc i])"
        "port' = ?p3\<lparr>op_queue := op_queue port'\<rparr>" by blast
    have "F - span b len \<union> spans (it_bufs al (op_pool ?p3) (c_msgs ?c3) len [1 ..< Suc i]) = F \<union> spans (it_bufs al (op_pool port) (c_msgs cd) len [1 ..< i])"
      using R(3) a(4) by (auto simp del: upt_Suc)
    moreover have "route_frame (pool_it al (op_pool port)) n cd cd'" using route_frame_trans [OF R(2)] k(4) by simp
    ultimately show ?thesis using k st
      by (intro exI [of _ cd'] exI [of _ port'] exI [of _ k] exI [of _ ok] exI [of _ F']) (simp split: if_splits del: upt_Suc)
  qed
qed

section \<open>The memory of a routed port\<close>

text \<open>The pool and the buffers of the port, as blocks; F0 is the free memory that comes back when they are
  released into the free memory F.\<close>

definition port_blocks :: "u32 \<Rightarrow> u32 \<Rightarrow> xf_output_port \<Rightarrow> xf_core \<Rightarrow> nat list \<Rightarrow> (addr \<times> u32) list" where
  "port_blocks al len port cd js =
     it_bufs al (op_pool port) (c_msgs cd) len js @ [(pl_p (op_pool port), XF_MM (xf_msg_sizeof al * pl_n (op_pool port)))]"

definition port_mem :: "nat \<Rightarrow> nat \<Rightarrow> u32 \<Rightarrow> u32 \<Rightarrow> nat list \<Rightarrow> nat set \<Rightarrow> nat set \<Rightarrow> xf_core \<Rightarrow> xf_output_port \<Rightarrow> bool" where
  "port_mem lo hi al len js F F0 cd port \<longleftrightarrow>
     (let bs = port_blocks al len port cd js in
      mm_free_set lo hi (c_local_pool cd) (c_mem cd) F \<and> spans_apart bs \<and> F \<inter> spans bs = {} \<and> F \<union> spans bs = F0 \<and> F0 \<subseteq> {lo ..< hi})"

lemma release_seq_append:
  "release_seq rel h (as @ bs) = Option.bind (release_seq rel h as) (\<lambda>h. release_seq rel h bs)"
  by (induction as arbitrary: h) (auto split: option.splits)

lemma port_mem_rev: "port_mem lo hi al len (rev js) F F0 cd port = port_mem lo hi al len js F F0 cd port"
proof -
  have "mset (port_blocks al len port cd (rev js)) = mset (port_blocks al len port cd js)"
    by (simp add: port_blocks_def it_bufs_def)
  from spans_perm [OF this] show ?thesis by (simp add: port_mem_def Let_def)
qed

lemma port_mem_release:
  assumes "port_mem lo hi al len js F F0 cd port"
  shows "\<exists>h1 h2. release_seq (xf_mm_free (c_local_pool cd)) (c_mem cd) (it_bufs al (op_pool port) (c_msgs cd) len js) = Some h1 \<and>
    xf_msg_pool_destroy al (op_pool port) 0 (cd\<lparr>c_mem := h1\<rparr>) = Some (cd\<lparr>c_mem := h2\<rparr>) \<and> mm_free_set lo hi (c_local_pool cd) h2 F0"
proof -
  let ?bs = "port_blocks al len port cd js"
  have m: "mm_free_set lo hi (c_local_pool cd) (c_mem cd) F" "spans_apart ?bs" "F \<inter> spans ?bs = {}" "F \<union> spans ?bs = F0" "F0 \<subseteq> {lo ..< hi}"
    using assms by (simp_all add: port_mem_def Let_def)
  have "spans ?bs \<subseteq> {lo ..< hi}" using m(4,5) by blast
  from mm.release_run [OF m(1,2) this m(3)] obtain h2 where
    h: "release_seq (xf_mm_free (c_local_pool cd)) (c_mem cd) ?bs = Some h2" "mm_free_set lo hi (c_local_pool cd) h2 F0"
    using m(4) by blast
  from h(1) show ?thesis
    using h(2) unfolding port_blocks_def release_seq_append
    by (auto simp: xf_msg_pool_destroy_def xf_mem_free_def split: option.splits bind_splits)
qed

lemma unroute_at:
  assumes M: "port_mem lo hi al (op_length port) [1 ..< unat (pl_n (op_pool port))] F F0 cd port" and n: "pl_n (op_pool port) \<noteq> 0"
    and c: "XF_MSG_DST_CORE (m_id (c_msgs cd (xf_output_port_control_msg al port))) = 0"
  shows "\<exists>h. xf_output_port_unroute al port cd =
      Some (cd\<lparr>c_mem := h\<rparr>, port\<lparr>op_flags := XF_OUTPUT_FLAG_CREATED, op_queue := xf_msg_queue_init (op_queue port)\<rparr>) \<and>
    mm_free_set lo hi (c_local_pool cd) h F0"
proof -
  let ?n = "unat (pl_n (op_pool port) - 1)"
  have n1: "unat (pl_n (op_pool port)) = ?n + 1" using n unat_gt_0 [of "pl_n (op_pool port)"] unat_minus_one [OF n] by linarith
  have lt: "?n + 1 < 2 ^ 32" using n1 unsigned_less [of "pl_n (op_pool port)", where 'a = nat] by simp
  have w: "pl_n (op_pool port) - 1 = of_nat ?n" "(1 :: u32) = of_nat 1" by simp_all
  from port_mem_release [OF M] obtain h1 h2 where
    h: "release_seq (xf_mm_free (c_local_pool cd)) (c_mem cd) (it_bufs al (op_pool port) (c_msgs cd) (op_length port) [1 ..< ?n + 1]) = Some h1"
      "xf_msg_pool_destroy al (op_pool port) 0 (cd\<lparr>c_mem := h1\<rparr>) = Some (cd\<lparr>c_mem := h2\<rparr>)" "mm_free_set lo hi (c_local_pool cd) h2 F0"
    unfolding n1 by blast
  have "1 \<le> ?n + 1" by simp
  from unroute_loop_release [OF c lt this, of al port cd] h(1)
  have "port_unroute_loop al 1 (pl_n (op_pool port) - 1) (m_id (c_msgs cd (xf_output_port_control_msg al port))) port cd = Some (cd\<lparr>c_mem := h1\<rparr>)"
    by (simp del: upt_Suc)
  with h(2,3) c show ?thesis by (intro exI [of _ h2]) (simp add: xf_output_port_unroute_def Let_def)
qed

section \<open>Routing\<close>

text \<open>What routing to the port i_d with n buffers of len bytes leaves, when it succeeds.\<close>

definition routed_at :: "nat \<Rightarrow> nat \<Rightarrow> addr list \<Rightarrow> (ipc_queue \<Rightarrow> addr list) \<Rightarrow> u32 \<Rightarrow> u32 \<Rightarrow> u32 \<Rightarrow> u32 \<Rightarrow> nat set \<Rightarrow> xf_core \<Rightarrow> xf_output_port \<Rightarrow> bool" where
  "routed_at lo hi P L al i_d n len F0 cd port \<longleftrightarrow>
     (let it = pool_it al (op_pool port) in
      pl_n (op_pool port) = n + 1 \<and> op_length port = len \<and> xf_output_port_routed port \<and> xf_output_port_idle port \<and>
      m_id (c_msgs cd (it 0)) = i_d \<and> port_q cd P L (op_queue port) (map it [1 ..< unat n + 1]) \<and>
      (\<forall>j\<in>{1 ..< unat n + 1}. m_id (c_msgs cd (it j)) = i_d \<and> m_opcode (c_msgs cd (it j)) = XF_FILL_THIS_BUFFER \<and> m_length (c_msgs cd (it j)) = len) \<and>
      (\<exists>F. port_mem lo hi al len [1 ..< unat n + 1] F F0 cd port))"

lemma output_flags_set:
  "(fl OR XF_OUTPUT_FLAG_ROUTED OR XF_OUTPUT_FLAG_IDLE) AND XF_OUTPUT_FLAG_ROUTED \<noteq> 0"
  "(fl OR XF_OUTPUT_FLAG_ROUTED OR XF_OUTPUT_FLAG_IDLE) AND XF_OUTPUT_FLAG_IDLE \<noteq> 0"
  unfolding output_flag_defs flag_simps by (simp_all add: bit_simps)

text \<open>The pool of the port, and the state before the first buffer.\<close>

lemma route_pool:
  assumes F: "mm_free_set lo hi (c_local_pool cd) (c_mem cd) F" and lo: "0 < lo" and s: "0 < unat (xf_msg_sizeof al)"
    and fit: "(unat n + 1) * unat (xf_msg_sizeof al) + 31 < 2 ^ 32" and I: "ipc_at cd P L" and out: "\<forall>x\<in>ipc_set P L. unat x \<notin> F"
    and q: "queue_at (c_msgs cd) (op_queue port) []"
  obtains p' where "xf_msg_pool_init al (op_pool port) (n + 1) 0 cd = Some (cd, p', Inl ENOMEM)"
      and "\<not> (\<exists>x. {x ..< x + unat (XF_MM (xf_msg_sizeof al * (n + 1)))} \<subseteq> F)"
  | c1 p' where "xf_msg_pool_init al (op_pool port) (n + 1) 0 cd = Some (c1, p', Inr ())" and "pl_n p' = n + 1"
    and "items_ok (pool_it al p') (unat n) P L" and "\<forall>j\<le>unat n. unat (pool_it al p' j) \<in> F"
    and "route_inv lo hi P L al i_d len 1 (F - span (pl_p p') (XF_MM (xf_msg_sizeof al * (n + 1)))) c1 (port\<lparr>op_pool := p'\<rparr>)"
    and "span (pl_p p') (XF_MM (xf_msg_sizeof al * (n + 1))) \<subseteq> F" and "32 dvd unat (pl_p p')"
    and "mm_size_ok (XF_MM (xf_msg_sizeof al * (n + 1)))" and "c_local_pool c1 = c_local_pool cd"
proof -
  let ?N = "n + 1" let ?S = "XF_MM (xf_msg_sizeof al * ?N)"
  have "(unat n + 1) * 1 \<le> (unat n + 1) * unat (xf_msg_sizeof al)" using s by (intro mult_le_mono2) simp
  then have "unat n + 1 < 2 ^ 32" using fit by simp
  then have N: "unat ?N = unat n + 1" using unat_add_u32 [of n 1] by simp
  then have N0: "?N \<noteq> 0" by (metis add_is_0 one_neq_zero unat_0)
  have sz: "unat (xf_msg_sizeof al * ?N) = unat ?N * unat (xf_msg_sizeof al)"
    using fit N by (simp add: unat_word_ariths(2) mult.commute)
  have pos: "0 < unat (xf_msg_sizeof al * ?N)" unfolding sz N using s by simp
  have "unat (xf_msg_sizeof al * ?N) + 31 < 2 ^ 32" unfolding sz N by (rule fit)
  note ok = XF_MM_size_ok(1) [OF this pos]
  from msg_pool_init_spec [OF F lo N0 s, of "op_pool port"] fit N consider
    p' where "xf_msg_pool_init al (op_pool port) ?N 0 cd = Some (cd, p', Inl ENOMEM)" "\<not> (\<exists>x. {x ..< x + unat ?S} \<subseteq> F)"
  | h g p' where "xf_msg_pool_init al (op_pool port) ?N 0 cd = Some (cd\<lparr>c_mem := h, c_msgs := g\<rparr>, p', Inr ())" "pl_n p' = ?N"
      "32 dvd unat (pl_p p')" "span (pl_p p') ?S \<subseteq> F" "mm_free_set lo hi (c_local_pool cd) h (F - span (pl_p p') ?S)"
      "pool_at g p' (pool_items al p' ?N)" "msg_same (set (pool_items al p' ?N)) (c_msgs cd) g"
      "\<forall>m\<in>set (pool_items al p' ?N). {unat m ..< unat m + unat (xf_msg_sizeof al)} \<subseteq> F" by auto
  then show thesis
  proof cases
    case 1
    with that(1) show thesis by blast
  next
    case (2 h g p')
    let ?it = "pool_it al p'" let ?c1 = "cd\<lparr>c_mem := h, c_msgs := g\<rparr>"
    have set_it: "pool_items al p' ?N = map ?it [0 ..< unat n + 1]" unfolding pool_items_def N ..
    have dis: "distinct (map ?it [0 ..< unat n + 1])" "0 \<notin> set (map ?it [0 ..< unat n + 1])"
      using pool_at_distinct [OF 2(6)] unfolding set_it by simp_all
    have mem: "?it j \<in> set (map ?it [0 ..< unat n + 1])" if "j \<le> unat n" for j
      unfolding set_map set_upt by (rule imageI) (use that in simp)
    have inF: "unat (?it j) \<in> F" if "j \<le> unat n" for j
    proof -
      have "?it j \<in> set (pool_items al p' ?N)" unfolding set_it by (rule mem [OF that])
      with 2(8) s show ?thesis by force
    qed
    have "inj_on ?it {..unat n}" using dis(1) by (simp add: distinct_map atLeast0LessThan lessThan_Suc_atMost del: upt_Suc)
    moreover have "?it j \<noteq> 0" if "j \<le> unat n" for j
      using mem [OF that] dis(2) by metis
    moreover have "?it j \<notin> ipc_set P L" if "j \<le> unat n" for j using inF [OF that] out by blast
    ultimately have items: "items_ok ?it (unat n) P L" by (simp add: items_ok_def)
    have djn: "set (pool_items al p' ?N) \<inter> ipc_set P L = {}" unfolding set_it using items by (auto simp: items_ok_def)
    have gq: "get_q k ?c1 = get_q k cd" for k by (cases k) simp_all
    have dp: "set (pool_items al p' ?N) \<inter> set P = {}" "set (pool_items al p' ?N) \<inter> set (L k) = {}" for k
      using djn by (auto simp: ipc_set_def)
    have "pool_at g (ro_pool cd) P" by (rule pool_at_same [OF _ 2(7) dp(1)]) (use I in \<open>simp add: ipc_at_def\<close>)
    moreover have "queue_at g (get_q k cd) (L k)" for k
      by (rule queue_at_same [OF _ 2(7) dp(2)]) (use I in \<open>simp add: ipc_at_def\<close>)
    ultimately have "ipc_at ?c1 P L" using I gq by (simp add: ipc_at_def)
    then have "port_q ?c1 P L (op_queue port) []" using q by (simp add: port_q_def queue_at_def)
    then have "route_inv lo hi P L al i_d len 1 (F - span (pl_p p') ?S) ?c1 (port\<lparr>op_pool := p'\<rparr>)"
      using 2(5) by (simp add: route_inv_def it_bufs_def)
    with that(2) [of ?c1 p'] 2(1-4) items inF ok show thesis by simp
  qed
qed

text \<open>Why routing may fail: the pool does not fit, or it does and after k buffers there is no room for
  another one. The messages of the first k - 1 buffers are still queued in the port, and their memory is free.\<close>

definition route_failed :: "u32 \<Rightarrow> u32 \<Rightarrow> u32 \<Rightarrow> nat set \<Rightarrow> xf_core \<Rightarrow> xf_output_port \<Rightarrow> bool" where
  "route_failed al n len F cd port \<longleftrightarrow>
     (let S = XF_MM (xf_msg_sizeof al * (n + 1)) in
      \<exists>k bs F'. queue_at (c_msgs cd) (op_queue port) (map (pool_it al (op_pool port)) [1 ..< Suc k]) \<and>
        (\<forall>j\<in>{1 ..< Suc k}. unat (pool_it al (op_pool port) j) \<in> F) \<and> spans_apart bs \<and> F' \<inter> spans bs = {} \<and> F' \<union> spans bs = F \<and>
        (bs = [] \<and> k = 0 \<and> \<not> (\<exists>x. {x ..< x + unat S} \<subseteq> F) \<or>
         k < unat n \<and> map snd bs = S # replicate k len \<and> \<not> (\<exists>x. {x ..< x + unat len} \<subseteq> F')))"

lemma route_at:
  assumes F: "mm_free_set lo hi (c_local_pool cd) (c_mem cd) F" and lo: "0 < lo" and s: "0 < unat (xf_msg_sizeof al)"
    and fit: "(unat n + 1) * unat (xf_msg_sizeof al) + 31 < 2 ^ 32" and I: "ipc_at cd P L" and out: "\<forall>x\<in>ipc_set P L. unat x \<notin> F"
    and q: "queue_at (c_msgs cd) (op_queue port) []" and c: "XF_MSG_DST_CORE i_d = 0" "XF_MSG_SRC_CORE i_d = 0" and len: "mm_size_ok len"
  shows "\<exists>cd' port' r. xf_output_port_route al port i_d n len align cd = Some (cd', port', r) \<and> c_local_pool cd' = c_local_pool cd \<and>
    (r = Inl ENOMEM \<and> mm_free_set lo hi (c_local_pool cd) (c_mem cd') F \<and>
       route_failed al n len F cd' port' \<or>
     r = Inr () \<and> routed_at lo hi P L al i_d n len F cd' port')"
proof (rule route_pool [OF F lo s fit I out q, where i_d = i_d and len = len])
  fix p' assume p: "xf_msg_pool_init al (op_pool port) (n + 1) 0 cd = Some (cd, p', Inl ENOMEM)"
    "\<not> (\<exists>x. {x ..< x + unat (XF_MM (xf_msg_sizeof al * (n + 1)))} \<subseteq> F)"
  then have r: "xf_output_port_route al port i_d n len align cd = Some (cd, port\<lparr>op_pool := p'\<rparr>, Inl ENOMEM)"
    by (simp add: xf_output_port_route_def c Let_def)
  have "route_failed al n len F cd (port\<lparr>op_pool := p'\<rparr>)"
    unfolding route_failed_def Let_def using q p(2) by (intro exI [of _ 0] exI [of _ "[]"] exI [of _ F]) simp
  with r F show ?thesis
    by (intro exI [of _ cd] exI [of _ "port\<lparr>op_pool := p'\<rparr>"] exI [of _ "Inl ENOMEM"] conjI disjI1) simp_all
next
  fix c1 p'
  let ?S = "XF_MM (xf_msg_sizeof al * (n + 1))" let ?p1 = "port\<lparr>op_pool := p'\<rparr>" let ?it = "pool_it al p'"
  assume a: "xf_msg_pool_init al (op_pool port) (n + 1) 0 cd = Some (c1, p', Inr ())" "pl_n p' = n + 1"
    "items_ok ?it (unat n) P L" "\<forall>j\<le>unat n. unat (?it j) \<in> F" "route_inv lo hi P L al i_d len 1 (F - span (pl_p p') ?S) c1 ?p1"
    "span (pl_p p') ?S \<subseteq> F" "32 dvd unat (pl_p p')" "mm_size_ok ?S" "c_local_pool c1 = c_local_pool cd"
  have "(unat n + 1) * 1 \<le> (unat n + 1) * unat (xf_msg_sizeof al)" using s by (intro mult_le_mono2) simp
  then have lt: "unat n + 1 < 2 ^ 32" using fit by simp
  have "items_ok (pool_it al (op_pool ?p1)) (unat n) P L" using a(3) by simp
  from port_route_loop_at [OF a(5) this c len lo lt, of align] obtain c2 p2 k ok F' where
    l: "port_route_loop al 1 n i_d len align ?p1 c1 = Some (c2, p2, of_nat k, ok)"
      "if ok then k = unat n + 1 else 1 \<le> k \<and> k \<le> unat n \<and> \<not> (\<exists>x. {x ..< x + unat len} \<subseteq> F')"
      "route_inv lo hi P L al i_d len k F' c2 p2" "route_frame ?it (unat n) c1 c2"
      "F' \<union> spans (it_bufs al p' (c_msgs c2) len [1 ..< k]) = F - span (pl_p p') ?S" "p2 = ?p1\<lparr>op_queue := op_queue p2\<rparr>"
    by (auto simp: it_bufs_def)
  have pool: "op_pool p2 = p'" by (subst l(6)) simp
  have k: "1 \<le> k" "k \<le> unat n + 1" using l(2) by (simp_all split: if_splits)
  let ?B = "it_bufs al p' (c_msgs c2) len [1 ..< k]"
  have R: "port_q c2 P L (op_queue p2) (map ?it [1 ..< k])" "mm_free_set lo hi (c_local_pool c2) (c_mem c2) F'"
    "spans_apart ?B" "F' \<inter> spans ?B = {}"
    and fl: "\<forall>j\<in>{1 ..< k}. m_id (c_msgs c2 (?it j)) = i_d \<and> m_opcode (c_msgs c2 (?it j)) = XF_FILL_THIS_BUFFER \<and> m_length (c_msgs c2 (?it j)) = len"
    using l(3) unfolding route_inv_def Let_def pool by blast+
  have lp: "c_local_pool c2 = c_local_pool cd" 
  proof -
    have e: "c2 = c1\<lparr>c_mem := c_mem c2, c_msgs := c_msgs c2\<rparr>" using l(4) unfolding route_frame_def by blast
    show ?thesis by (subst e) (simp add: a(9))
  qed
  have apc: "spans_apart ((pl_p p', ?S) # ?B)" unfolding spans_apart_Cons using a(7,8) R(3) l(5) by blast
  then have ap: "spans_apart (?B @ [(pl_p p', ?S)])" using spans_perm [of "?B @ [(pl_p p', ?S)]" "(pl_p p', ?S) # ?B"] by simp
  have sp: "F' \<inter> spans (?B @ [(pl_p p', ?S)]) = {}" "F' \<union> spans (?B @ [(pl_p p', ?S)]) = F"
    using R(4) l(5) a(6) unfolding spans_append spans_simps by blast+
  have M: "port_mem lo hi al len [1 ..< k] F' F c2 p2"
    using R(2) ap sp mm.inv_range [OF F] by (simp add: port_mem_def port_blocks_def pool a(2) Let_def)
  show ?thesis
  proof (cases ok)
    case True
    then have kn: "k = unat n + 1" using l(2) by simp
    let ?m = "?it 0"
    let ?c3 = "msg_upd ?m (\<lambda>x. x\<lparr>m_next := 0\<rparr>) (msg_upd ?m (\<lambda>x. x\<lparr>m_id := i_d, m_length := 0, m_buffer := 0\<rparr>) c2)"
    let ?p3 = "p2\<lparr>op_length := len, op_flags := op_flags p2 OR XF_OUTPUT_FLAG_ROUTED OR XF_OUTPUT_FLAG_IDLE\<rparr>"
    have run: "xf_output_port_route al port i_d n len align cd = Some (?c3, ?p3, Inr ())"
      using a(1) l(1) True by (simp add: xf_output_port_route_def c Let_def xf_output_port_control_msg_def pool)
    have ne: "?it j \<noteq> ?m" if "1 \<le> j" "j < k" for j
      using a(3) that kn inj_onD [of ?it "{..unat n}" j 0] unfolding items_ok_def by auto
    have mm: "?m \<notin> ipc_set P L" "?m \<notin> set (map ?it [1 ..< k])"
    proof -
      show "?m \<notin> ipc_set P L" using a(3) unfolding items_ok_def by blast
      show "?m \<notin> set (map ?it [1 ..< k])" using ne by fastforce
    qed
    have q3: "port_q ?c3 P L (op_queue p2) (map ?it [1 ..< k])" by (intro port_q_other R(1) mm)
    have "it_bufs al p' (c_msgs ?c3) len [1 ..< k] = ?B" using ne by (auto simp: it_bufs_def)
    then have M3: "port_mem lo hi al len [1 ..< k] F' F ?c3 ?p3"
      using M unfolding port_mem_def port_blocks_def Let_def by (simp add: pool msg_upd_def)
    have fl3: "\<forall>j\<in>{1 ..< k}. m_id (c_msgs ?c3 (?it j)) = i_d \<and> m_opcode (c_msgs ?c3 (?it j)) = XF_FILL_THIS_BUFFER \<and> m_length (c_msgs ?c3 (?it j)) = len"
      using fl ne by auto
    have "routed_at lo hi P L al i_d n len F ?c3 ?p3"
      unfolding routed_at_def Let_def
      using q3 M3 fl3 a(2) output_flags_set by (auto simp: pool kn xf_output_port_routed_def xf_output_port_idle_def)
    moreover have "c_local_pool ?c3 = c_local_pool cd" using lp by (simp add: msg_upd_def)
    ultimately show ?thesis using run by blast
  next
    case False
    then have kl: "k < 2 ^ 32" "0 < k" using l(2) lt by simp_all
    from port_mem_release [OF M [folded port_mem_rev [of lo hi al len "[1 ..< k]"]]] obtain h1 h2 where
      h: "release_seq (xf_mm_free (c_local_pool c2)) (c_mem c2) (it_bufs al p' (c_msgs c2) len (rev [1 ..< k])) = Some h1"
        "xf_msg_pool_destroy al p' 0 (c2\<lparr>c_mem := h1\<rparr>) = Some (c2\<lparr>c_mem := h2\<rparr>)" "mm_free_set lo hi (c_local_pool c2) h2 F"
      unfolding pool by blast
    have "port_route_cleanup al (of_nat k) i_d len p2 c2 = Some (c2\<lparr>c_mem := h1\<rparr>)"
      unfolding cleanup_release [OF c(1) kl] pool using h(1) by simp
    then have run: "xf_output_port_route al port i_d n len align cd = Some (c2\<lparr>c_mem := h2\<rparr>, p2, Inl ENOMEM)"
      using a(1) l(1) False h(2) by (simp add: xf_output_port_route_def c Let_def pool)
    have "queue_at (c_msgs (c2\<lparr>c_mem := h2\<rparr>)) (op_queue p2) (map ?it [1 ..< k])" using R(1) by (simp add: port_q_def)
    moreover have "\<forall>j\<in>{1 ..< k}. unat (?it j) \<in> F" using a(4) k by simp
    moreover obtain k' where k': "k = Suc k'" "k' < unat n" using l(2) False by (cases k) auto
    moreover have "map snd ?B = replicate k' len" by (rule replicate_eqI) (auto simp: it_bufs_def k')
    moreover have "spans ((pl_p p', ?S) # ?B) = spans (?B @ [(pl_p p', ?S)])" by auto
    ultimately have "route_failed al n len F (c2\<lparr>c_mem := h2\<rparr>) p2"
      unfolding route_failed_def Let_def pool using l(2) False sp apc
      by (intro exI [of _ k'] exI [of _ "(pl_p p', ?S) # ?B"] exI [of _ F']) (simp del: upt_Suc)
    then show ?thesis using run h(3) lp
      by (intro exI [of _ "c2\<lparr>c_mem := h2\<rparr>"] exI [of _ p2] exI [of _ "Inl ENOMEM"] conjI disjI1) simp_all
  qed
qed

section \<open>Properties\<close>

text \<open>C23: Routing an output port and unrouting it again gives all memory back. A successful route leaves n messages
  in the port, each a FILL-THIS-BUFFER to the destination with a buffer of its own, and the port routed and idle;
  unrouting releases the buffers and the pool and leaves the port created and empty. A route that fails does so only
  for lack of memory and restores the free memory, but it leaves the messages of the buffers it had got queued in the
  port, although the memory of these messages is free again.\<close>

theorem output_port_route_round_trip:
  assumes "mm_free_set lo hi (c_local_pool cd) (c_mem cd) F" and "0 < lo" and "0 < unat (xf_msg_sizeof al)"
    and "(unat n + 1) * unat (xf_msg_sizeof al) + 31 < 2 ^ 32" and "ipc_at cd P L" and "\<forall>x\<in>ipc_set P L. unat x \<notin> F"
    and "queue_at (c_msgs cd) (op_queue port) []" and "XF_MSG_DST_CORE i_d = 0" and "XF_MSG_SRC_CORE i_d = 0" and "mm_size_ok len"
  shows "\<exists>cd' port' r. xf_output_port_route al port i_d n len align cd = Some (cd', port', r) \<and>
    (r = Inl ENOMEM \<and> mm_free_set lo hi (c_local_pool cd) (c_mem cd') F \<and> route_failed al n len F cd' port' \<or>
     r = Inr () \<and> routed_at lo hi P L al i_d n len F cd' port' \<and>
     (\<exists>h. xf_output_port_unroute al port' cd' =
        Some (cd'\<lparr>c_mem := h\<rparr>, port'\<lparr>op_flags := XF_OUTPUT_FLAG_CREATED, op_queue := xf_msg_queue_init (op_queue port')\<rparr>) \<and>
        mm_free_set lo hi (c_local_pool cd) h F))"
proof -
  have "(unat n + 1) * 1 \<le> (unat n + 1) * unat (xf_msg_sizeof al)" using assms(3) by (intro mult_le_mono2) simp
  then have N: "unat (n + 1) = unat n + 1" using unat_add_u32 [of n 1] assms(4) by simp
  from route_at [OF assms] obtain cd' port' r where
    r: "xf_output_port_route al port i_d n len align cd = Some (cd', port', r)" "c_local_pool cd' = c_local_pool cd"
      "r = Inl ENOMEM \<and> mm_free_set lo hi (c_local_pool cd) (c_mem cd') F \<and> route_failed al n len F cd' port' \<or>
       r = Inr () \<and> routed_at lo hi P L al i_d n len F cd' port'" by blast
  have "\<exists>h. xf_output_port_unroute al port' cd' =
        Some (cd'\<lparr>c_mem := h\<rparr>, port'\<lparr>op_flags := XF_OUTPUT_FLAG_CREATED, op_queue := xf_msg_queue_init (op_queue port')\<rparr>) \<and>
        mm_free_set lo hi (c_local_pool cd) h F" if R: "routed_at lo hi P L al i_d n len F cd' port'"
  proof -
    have n: "pl_n (op_pool port') = n + 1" "op_length port' = len" "m_id (c_msgs cd' (xf_output_port_control_msg al port')) = i_d"
      using R by (simp_all add: routed_at_def Let_def xf_output_port_control_msg_def)
    obtain F' where M: "port_mem lo hi al len [1 ..< unat n + 1] F' F cd' port'" using R by (auto simp: routed_at_def Let_def)
    have "pl_n (op_pool port') \<noteq> 0" using n(1) N by (metis add_is_0 one_neq_zero unat_0)
    from unroute_at [of lo hi al port' F' F cd', unfolded n N, OF M this [unfolded n(1)] assms(8)] show ?thesis unfolding r(2) .
  qed
  with r show ?thesis by blast
qed

definition out_port_demo :: xf_output_port where
  "out_port_demo = \<lparr>op_queue = \<lparr>q_head = 0, q_tail = 0\<rparr>, op_pool = \<lparr>pl_p = 0, pl_head = 0, pl_n = 0\<rparr>, op_unroute = 0,
     op_length = 0, op_flags = 1\<rparr>"

lemma stream_demo_mem: "mm_free_set 64 1024 (c_local_pool stream_demo) (c_mem stream_demo) {64 ..< 192}"
  using demo_free_set by (simp add: stream_demo_def core_demo_def)

text \<open>One buffer of 32 bytes fits into the 128 bytes that are free.\<close>

lemma route_demo_fits: "\<not> route_failed 32 1 32 {64 ..< 192} cd port"
proof
  have S: "unat (XF_MM (xf_msg_sizeof 32 * (1 + 1))) = 64" by (simp add: sizeof_demo XF_MM_unat)
  assume "route_failed 32 1 32 {64 ..< 192} cd port"
  then obtain k bs F' where r: "spans_apart bs" "F' \<inter> spans bs = {}" "F' \<union> spans bs = {64 ..< 192}"
    "bs = [] \<and> k = 0 \<and> \<not> (\<exists>x. {x ..< x + 64} \<subseteq> {64 ..< (192 :: nat)}) \<or>
       k < 1 \<and> map snd bs = XF_MM (xf_msg_sizeof 32 * (1 + 1)) # replicate k 32 \<and> \<not> (\<exists>x. {x ..< x + 32} \<subseteq> F')"
    unfolding route_failed_def Let_def S by auto
  have "{64 ..< 64 + 64} \<subseteq> {64 ..< (192 :: nat)}" by simp
  then have 2: "k = 0" "map snd bs = [XF_MM (xf_msg_sizeof 32 * (1 + 1))]" "\<not> (\<exists>x. {x ..< x + 32} \<subseteq> F')" using r(4) by auto
  then obtain a where bs: "bs = [(a, XF_MM (xf_msg_sizeof 32 * (1 + 1)))]" by (cases bs) auto
  have sp: "spans bs = {unat a ..< unat a + 64}" unfolding bs spans_simps S by simp
  have "32 dvd unat a" using r(1) by (simp add: bs spans_apart_Cons)
  moreover have "{unat a ..< unat a + 64} \<subseteq> {64 ..< 192}" using r(3) sp by blast
  then have "64 \<le> unat a" "unat a + 64 \<le> 192" by (simp_all add: atLeastLessThan_subset_iff)
  ultimately have "unat a = 64 \<or> unat a = 96 \<or> unat a = 128" by (auto elim!: dvdE)
  moreover have "F' = {64 ..< 192} - {unat a ..< unat a + 64}" using r(2,3) sp by blast
  ultimately have "{160 ..< 160 + 32} \<subseteq> F' \<or> {64 ..< 64 + 32} \<subseteq> F'" by auto
  with 2(3) show False by blast
qed

theorem output_port_route_round_trip_witness:
  "\<exists>cd' port' cd'' port''. xf_output_port_route 32 out_port_demo 0x80008000 1 32 8 stream_demo = Some (cd', port', Inr ()) \<and>
     xf_output_port_unroute 32 port' cd' = Some (cd'', port'') \<and> mm_free_set 64 1024 0 (c_mem cd'') {64 ..< 192}"
proof -
  have "queue_at (c_msgs stream_demo) (op_queue out_port_demo) []" by (simp add: out_port_demo_def queue_at_def)
  from output_port_route_round_trip [OF stream_demo_mem _ _ _ stream_demo_ipc _ this, of 32 1 "0x80008000" 32 8] route_demo_fits
  obtain cd' port' h where r: "xf_output_port_route 32 out_port_demo 0x80008000 1 32 8 stream_demo = Some (cd', port', Inr ())"
    "xf_output_port_unroute 32 port' cd' =
        Some (cd'\<lparr>c_mem := h\<rparr>, port'\<lparr>op_flags := XF_OUTPUT_FLAG_CREATED, op_queue := xf_msg_queue_init (op_queue port')\<rparr>)"
    "mm_free_set 64 1024 0 h {64 ..< 192}"
    by (auto simp: sizeof_demo ipc_set_def demo_ids) (simp add: stream_demo_def core_demo_def)
  then show ?thesis by fastforce
qed

end
