(* ===== verification/XF_Io_Flow.thy ===== *)
theory XF_Io_Flow
  imports XF_Io_Route
begin

text \<open>
  Flow control of the ports: purging an input port, the produce and flush operations of an output
  port. The flags of a port are a state machine; the lemmas on single flags are collected here.
\<close>

section \<open>Flags\<close>

lemma input_flag_bits:
  "xf_input_port_created port \<longleftrightarrow> bit (ip_flags port) 0" "fl AND XF_INPUT_FLAG_ENABLED = 0 \<longleftrightarrow> \<not> bit fl 1"
  "xf_input_port_done port \<longleftrightarrow> bit (ip_flags port) 3"
  by (simp_all only: xf_input_port_created_def xf_input_port_done_def input_flag_defs flag_simps) simp_all

lemma output_flag_bits:
  "xf_output_port_routed port \<longleftrightarrow> bit (op_flags port) 1" "fl AND XF_OUTPUT_FLAG_FLUSHING = 0 \<longleftrightarrow> \<not> bit fl 4"
  "xf_output_port_idle port \<longleftrightarrow> bit (op_flags port) 5" "xf_output_port_unrouting port \<longleftrightarrow> bit (op_flags port) 6"
  by (simp_all only: xf_output_port_routed_def xf_output_port_idle_def xf_output_port_unrouting_def output_flag_defs flag_simps) simp_all

lemma purge_flags:
  "bit ((fl AND NOT (XF_INPUT_FLAGS (- 1))) OR XF_INPUT_FLAG_ENABLED OR XF_INPUT_FLAG_CREATED) i \<longleftrightarrow>
     (if i < 5 then i < 2 else bit fl i)"
proof -
  have "XF_INPUT_FLAGS (- 1) = mask 5" by (simp add: XF_INPUT_FLAGS_def mask_eq_exp_minus_1)
  then show ?thesis by (auto simp: bit_simps input_flag_defs bit_1_iff less_Suc_eq numeral_2_eq_2 dest: bit_imp_le_length)
qed

lemma bit_flag: "bit (push_bit k 1 :: u32) i \<longleftrightarrow> i = k \<and> k < 32"
  by (auto simp: bit_simps)

lemma output_flag_upd:
  "bit (fl AND NOT XF_OUTPUT_FLAG_IDLE) i \<longleftrightarrow> i \<noteq> 5 \<and> bit fl i"
  "bit (fl XOR XF_OUTPUT_FLAG_FLUSHING) i \<longleftrightarrow> (i = 4) \<noteq> bit fl i"
  "bit (fl XOR (XF_OUTPUT_FLAG_IDLE OR XF_OUTPUT_FLAG_FLUSHING)) i \<longleftrightarrow> (i = 4 \<or> i = 5) \<noteq> bit fl i"
  by (auto simp only: bit_and_iff bit_or_iff bit_xor_iff bit_not_iff_eq output_flag_defs bit_flag dest: bit_imp_le_length)
    (auto simp: bit_simps dest: bit_imp_le_length)

section \<open>Purging an input port\<close>

lemma purge_at:
  assumes "port_q cd P L (ip_queue port) ms" and "xf_input_port_created port"
  shows "\<exists>cd' port'. xf_input_port_purge port cd = Some (cd', port') \<and>
    port_q cd' P (replied (\<lambda>m. m_id (c_msgs cd m)) ms L) (ip_queue port') [] \<and> all_ok cd ms cd' \<and>
    ip_filled port' = 0 \<and> ip_access port' = 0 \<and> ip_buffer port' = ip_buffer port \<and> ip_length port' = ip_length port \<and>
    (\<forall>i. bit (ip_flags port') i \<longleftrightarrow> (if i < 5 then i < 2 else bit (ip_flags port) i))"
proof -
  from port_drain_all [OF assms(1)] obtain cd' q' where
    d: "port_drain (ip_queue port) cd = Some (cd', q')" "port_q cd' P (replied (\<lambda>m. m_id (c_msgs cd m)) ms L) q' []" "all_ok cd ms cd'" by blast
  let ?p = "port\<lparr>ip_queue := q', ip_filled := 0, ip_access := 0,
     ip_flags := (ip_flags port AND NOT (XF_INPUT_FLAGS (NOT 0))) OR XF_INPUT_FLAG_ENABLED OR XF_INPUT_FLAG_CREATED\<rparr>"
  have "xf_input_port_purge port cd = Some (cd', ?p)" using d(1) assms(2) by (simp add: xf_input_port_purge_def Let_def)
  with d(2,3) show ?thesis by (intro exI [of _ cd'] exI [of _ ?p]) (simp add: purge_flags)
qed

text \<open>A saved control message is answered by the end of the purge sequence.\<close>

lemma control_save_done:
  assumes q: "port_q cd P L (ip_queue port) []" and m: "m \<notin> ipc_set P L" "m \<noteq> 0"
    and c: "XF_MSG_SRC_CORE (m_id (c_msgs cd m)) = 0" "XF_MSG_DST_CORE (m_id (c_msgs cd m)) = 0"
  shows "\<exists>c1 p1 cd' port'. xf_input_port_control_save port m cd = (c1, p1) \<and> bit (ip_flags p1) 4 = (\<not> bit (ip_flags port) 4) \<and>
    xf_input_port_purge_done p1 c1 = Some (cd', port') \<and> port_q cd' P (replied (\<lambda>m. m_id (c_msgs cd m)) [m] L) (ip_queue port') [] \<and>
    ip_flags port' = ip_flags port \<and> all_ok cd [m] cd'"
proof -
  from port_enqueue [OF q m(1) _ m(2) c] obtain q1 h where
    e: "xf_msg_enqueue (ip_queue port) m (c_msgs cd) = (q1, h, True)" "port_q (cd\<lparr>c_msgs := h\<rparr>) P L q1 [m]"
      "\<And>a. msg_data (h a) = msg_data (c_msgs cd a)" by auto
  let ?c1 = "cd\<lparr>c_msgs := h\<rparr>" let ?p1 = "port\<lparr>ip_queue := q1, ip_flags := ip_flags port XOR XF_INPUT_FLAG_PURGING\<rparr>"
  have id: "m_id (h a) = m_id (c_msgs cd a)" for a using e(3) [of a] by (simp add: msg_data_eq_iff)
  from port_answer [OF e(2) plain_upds(2) [of 0]] obtain q2 h2 cd' where
    a: "xf_msg_dequeue q1 h = (q2, h2, m)" "xf_response_ok m (?c1\<lparr>c_msgs := h2\<rparr>) = Some cd'"
      "port_q cd' P (replied (\<lambda>m. m_id (c_msgs cd m)) [m] L) q2 []" "port_answered ?c1 m (\<lambda>x. x\<lparr>m_length := 0\<rparr>) cd'"
    unfolding xf_response_ok_def by (auto simp: id replied_Cons)
  have s: "xf_input_port_control_save port m cd = (?c1, ?p1)" using e(1) by (simp add: xf_input_port_control_save_def)
  have b: "bit (ip_flags ?p1) 4 = (\<not> bit (ip_flags port) 4)" by (simp add: input_flag_defs bit_simps)
  let ?p2 = "port\<lparr>ip_queue := q2\<rparr>"
  have "(ip_flags port XOR XF_INPUT_FLAG_PURGING) XOR XF_INPUT_FLAG_PURGING = ip_flags port" by (simp add: xor.assoc)
  then have t: "xf_input_port_purge_done ?p1 ?c1 = Some (cd', ?p2)"
    using a(1,2) m(2) by (simp add: xf_input_port_purge_done_def)
  have "ipc_frame cd cd'" using a(4) ipc_frame_trans [of cd ?c1 cd'] by (simp add: port_answered_def Let_def)
  then have "all_ok cd [m] cd'" using a(4) e(3) id by (simp add: all_ok_def port_answered_def Let_def)
  with s b t a(3) show ?thesis by (intro exI [of _ ?c1] exI [of _ ?p1] exI [of _ cd'] exI [of _ ?p2]) simp
qed

section \<open>Producing and flushing\<close>

lemma produce_at:
  assumes "port_q cd P L (op_queue port) (x # xs)"
  shows "\<exists>cd' port'. xf_output_port_produce port n cd = Some (cd', port', xs \<noteq> []) \<and> \<not> xf_output_port_idle port' \<and>
    port_q cd' P (replied (\<lambda>m. m_id (c_msgs cd m)) [x] L) (op_queue port') xs \<and> m_length (c_msgs cd' x) = n \<and>
    m_buffer (c_msgs cd' x) = m_buffer (c_msgs cd x)"
proof -
  from port_answer [OF assms plain_upds(2) [of n]] obtain q' h cd' where
    a: "xf_msg_dequeue (op_queue port) (c_msgs cd) = (q', h, x)" "x \<noteq> 0" "xf_response_data x n (cd\<lparr>c_msgs := h\<rparr>) = Some cd'"
      "port_q cd' P (replied (\<lambda>m. m_id (c_msgs cd m)) [x] L) q' xs" "port_answered cd x (\<lambda>x. x\<lparr>m_length := n\<rparr>) cd'"
    unfolding xf_response_data_def by (auto simp: replied_Cons)
  have h: "xf_msg_queue_head q' \<noteq> 0 \<longleftrightarrow> xs \<noteq> []"
    using port_head [OF a(4)] port_q_distinct [OF a(4)] by (cases xs) auto
  let ?p = "port\<lparr>op_queue := q', op_flags := op_flags port AND NOT XF_OUTPUT_FLAG_IDLE\<rparr>"
  have "xf_output_port_produce port n cd = Some (cd', ?p, xs \<noteq> [])"
    using a(1-3) h by (simp add: xf_output_port_produce_def Let_def)
  with a(4,5) show ?thesis
    by (intro exI [of _ cd'] exI [of _ ?p]) (simp add: output_flag_bits output_flag_upd port_answered_def Let_def)
qed

lemma flush_unrouted:
  assumes "port_q cd P L (op_queue port) ms" and "\<not> xf_output_port_routed port"
  shows "\<exists>cd' q. xf_output_port_flush al port opc cd = Some (cd', port\<lparr>op_queue := q\<rparr>, True) \<and>
    port_q cd' P (replied (\<lambda>m. m_id (c_msgs cd m)) ms L) q [] \<and> all_ok cd ms cd'"
  using port_drain_all [OF assms(1)] assms(2) by (force simp: xf_output_port_flush_def)

lemma flush_start:
  assumes q: "port_q cd P L (op_queue port) ms" and m: "m = xf_output_port_control_msg al port" "m \<notin> ipc_set P L" "m \<notin> set ms" "m \<noteq> 0"
    and c: "XF_MSG_SRC_CORE (m_id (c_msgs cd m)) = 0" "XF_MSG_DST_CORE (m_id (c_msgs cd m)) = 0" and o: "\<not> is_data opc"
    and f: "xf_output_port_routed port" "\<not> xf_output_port_idle port" "\<not> bit (op_flags port) 4"
  shows "\<exists>cd' port'. xf_output_port_flush al port opc cd = Some (cd', port', False) \<and>
    port_q cd' P (replied (\<lambda>m. m_id (c_msgs cd m)) [m] L) (op_queue port') ms \<and> m_opcode (c_msgs cd' m) = opc \<and>
    m_id (c_msgs cd' m) = msg_id_swap (m_id (c_msgs cd m)) \<and>
    (\<forall>c. xf_output_port_flush al port' opc c = Some (c, port', False)) \<and>
    xf_output_port_idle (xf_output_port_flush_done port') \<and>
    (\<forall>c. xf_output_port_flush al (xf_output_port_flush_done port') opc c = Some (c, xf_output_port_flush_done port', True))"
proof -
  let ?p = "port\<lparr>op_flags := op_flags port XOR XF_OUTPUT_FLAG_FLUSHING\<rparr>"
  have pu: "plain_upd (\<lambda>x. x\<lparr>m_opcode := opc\<rparr>)" by (simp add: plain_upd_def msg_data_def)
  from port_other [OF q m(2-4) c pu] obtain cd' where
    a: "xf_response m (msg_upd m (\<lambda>x. x\<lparr>m_opcode := opc\<rparr>) cd) = Some cd'" "port_q cd' P (replied (\<lambda>m. m_id (c_msgs cd m)) [m] L) (op_queue port) ms"
      "port_answered cd m (\<lambda>x. x\<lparr>m_opcode := opc\<rparr>) cd'" unfolding xf_response_def by blast
  have fl: "op_flags port AND XF_OUTPUT_FLAG_IDLE = 0" using f(2) by (simp add: xf_output_port_idle_def)
  have cm: "xf_output_port_control_msg al ?p = m" by (simp add: m(1) xf_output_port_control_msg_def)
  have s: "xf_output_port_flush al port opc cd = Some (cd', ?p, False)"
    using f a(1) fl cm by (simp add: xf_output_port_flush_def output_flag_bits Let_def)
  have r: "xf_output_port_routed ?p" "\<not> xf_output_port_idle ?p" "op_flags ?p AND XF_OUTPUT_FLAG_FLUSHING \<noteq> 0"
    "xf_output_port_routed (xf_output_port_flush_done ?p)" "xf_output_port_idle (xf_output_port_flush_done ?p)"
    using f by (simp_all add: output_flag_bits output_flag_upd xf_output_port_flush_done_def)
  then have t: "xf_output_port_flush al ?p opc c = Some (c, ?p, False)"
    "xf_output_port_flush al (xf_output_port_flush_done ?p) opc c = Some (c, xf_output_port_flush_done ?p, True)" for c
    by (simp_all add: xf_output_port_flush_def xf_output_port_idle_def)
  have "m_opcode (c_msgs cd' m) = opc" "m_id (c_msgs cd' m) = msg_id_swap (m_id (c_msgs cd m))"
    using a(3) opcode_flip_id [OF o] by (simp_all add: port_answered_def Let_def)
  with s t r(5) a(2) show ?thesis by (intro exI [of _ cd'] exI [of _ ?p]) simp
qed

section \<open>Properties\<close>

text \<open>C24: Purging an input port answers every queued message, in order, with length zero and changes no other
  message; the port is then empty and accepts input again, its end-of-stream, done and purging flags are cleared
  and the flags of its owner are kept. A control message saved after that and completed by
  \<open>xf_input_port_purge_done\<close> is answered last, and the flags are as before it was saved.\<close>

theorem input_port_purge_answers_all:
  assumes "port_q cd P L (ip_queue port) ms" and "xf_input_port_created port" and "m \<notin> ipc_set P L" and "m \<notin> set ms" and "m \<noteq> 0"
    and "XF_MSG_SRC_CORE (m_id (c_msgs cd m)) = 0" and "XF_MSG_DST_CORE (m_id (c_msgs cd m)) = 0"
  shows "\<exists>c1 p1 c2 p2 c3 p3. xf_input_port_purge port cd = Some (c1, p1) \<and> all_ok cd ms c1 \<and>
    port_q c1 P (replied (\<lambda>m. m_id (c_msgs cd m)) ms L) (ip_queue p1) [] \<and> ip_filled p1 = 0 \<and>
    (\<forall>i. bit (ip_flags p1) i \<longleftrightarrow> (if i < 5 then i < 2 else bit (ip_flags port) i)) \<and>
    xf_input_port_control_save p1 m c1 = (c2, p2) \<and> xf_input_port_purge_done p2 c2 = Some (c3, p3) \<and>
    port_q c3 P (replied (\<lambda>m. m_id (c_msgs cd m)) (ms @ [m]) L) (ip_queue p3) [] \<and> ip_flags p3 = ip_flags p1 \<and> all_ok c1 [m] c3"
proof -
  from purge_at [OF assms(1,2)] obtain c1 p1 where
    1: "xf_input_port_purge port cd = Some (c1, p1)" "port_q c1 P (replied (\<lambda>m. m_id (c_msgs cd m)) ms L) (ip_queue p1) []" "all_ok cd ms c1"
      "ip_filled p1 = 0" "\<forall>i. bit (ip_flags p1) i \<longleftrightarrow> (if i < 5 then i < 2 else bit (ip_flags port) i)" by blast
  have id: "m_id (c_msgs c1 m) = m_id (c_msgs cd m)" using 1(3) assms(4) by (simp add: all_ok_def msg_data_eq_iff)
  have "m \<notin> ipc_set P (replied (\<lambda>m. m_id (c_msgs cd m)) ms L)" unfolding ipc_set_replied using assms(3,4) by blast
  from control_save_done [OF 1(2) this assms(5), unfolded id, OF assms(6,7)] obtain c2 p2 c3 p3 where
    2: "xf_input_port_control_save p1 m c1 = (c2, p2)" "xf_input_port_purge_done p2 c2 = Some (c3, p3)"
      "port_q c3 P (replied (\<lambda>m. m_id (c_msgs c1 m)) [m] (replied (\<lambda>m. m_id (c_msgs cd m)) ms L)) (ip_queue p3) []"
      "ip_flags p3 = ip_flags p1" "all_ok c1 [m] c3" by blast
  have "replied (\<lambda>m. m_id (c_msgs c1 m)) [m] (replied (\<lambda>m. m_id (c_msgs cd m)) ms L) = replied (\<lambda>m. m_id (c_msgs cd m)) (ms @ [m]) L"
    unfolding replied_append by (rule replied_cong) (simp add: id)
  with 1 2 show ?thesis by metis
qed

definition busy_in_demo :: xf_input_port where
  "busy_in_demo = in_port_demo\<lparr>ip_queue := \<lparr>q_head = 96, q_tail = 96\<rparr>, ip_flags := 0x2D\<rparr>"

lemma stream_demo_port: "port_q stream_demo [] (\<lambda>_. []) \<lparr>q_head = 96, q_tail = 96\<rparr> [96]"
proof -
  have "queue_at (c_msgs stream_demo) \<lparr>q_head = 96, q_tail = 96\<rparr> [96]" by (simp add: queue_at_def stream_demo_def msg_demo_def)
  then show ?thesis using stream_demo_ipc demo_ids by (simp add: port_q_def ipc_set_def stream_demo_def)
qed

lemma stream_demo_control:
  "XF_MSG_SRC_CORE (m_id (c_msgs stream_demo 64)) = 0" "XF_MSG_DST_CORE (m_id (c_msgs stream_demo 64)) = 0"
  by (simp_all add: stream_demo_def msg_demo_def field_defs)

theorem input_port_purge_answers_all_witness:
  "\<exists>c1 p1 c2 p2 c3 p3. xf_input_port_purge busy_in_demo stream_demo = Some (c1, p1) \<and> m_length (c_msgs c1 96) = 0 \<and>
     bit (ip_flags p1) 1 \<and> \<not> bit (ip_flags p1) 2 \<and> bit (ip_flags p1) 5 \<and>
     xf_input_port_control_save p1 64 c1 = (c2, p2) \<and> xf_input_port_purge_done p2 c2 = Some (c3, p3) \<and> ip_flags p3 = ip_flags p1"
proof -
  have q: "port_q stream_demo [] (\<lambda>_. []) (ip_queue busy_in_demo) [96]" using stream_demo_port by (simp add: busy_in_demo_def)
  have c: "xf_input_port_created busy_in_demo" by (simp add: input_flag_bits busy_in_demo_def)
  have b: "bit (ip_flags busy_in_demo) 5" by (simp add: busy_in_demo_def)
  from input_port_purge_answers_all [OF q c, of 64] stream_demo_control obtain c1 p1 c2 p2 c3 p3 where
    r: "xf_input_port_purge busy_in_demo stream_demo = Some (c1, p1)" "all_ok stream_demo [96] c1"
      "\<forall>i. bit (ip_flags p1) i \<longleftrightarrow> (if i < 5 then i < 2 else bit (ip_flags busy_in_demo) i)"
      "xf_input_port_control_save p1 64 c1 = (c2, p2)" "xf_input_port_purge_done p2 c2 = Some (c3, p3)" "ip_flags p3 = ip_flags p1"
    by (auto simp: ipc_set_def)
  have "bit (ip_flags p1) 1" "\<not> bit (ip_flags p1) 2" "bit (ip_flags p1) 5" using r(3) b by simp_all
  moreover have "m_length (c_msgs c1 96) = 0" using r(2) by (simp add: all_ok_def)
  ultimately show ?thesis using r by blast
qed

text \<open>C25: Flushing an output port. An unrouted port answers all queued messages and is done at once; a routed port
  that is idle is done at once; otherwise the first flush sends the control message of the port, with the given
  opcode, to the destination, exactly once: further flushes change nothing until \<open>xf_output_port_flush_done\<close>, which
  makes the port idle again. Producing data answers the oldest message with the number of bytes and ends the idle
  state, so that a later flush has to be sent.\<close>

theorem output_port_flush_correct:
  assumes "port_q cd P L (op_queue port) ms" and "m = xf_output_port_control_msg al port" and "m \<notin> ipc_set P L" and "m \<notin> set ms" and "m \<noteq> 0"
    and "XF_MSG_SRC_CORE (m_id (c_msgs cd m)) = 0" and "XF_MSG_DST_CORE (m_id (c_msgs cd m)) = 0" and "\<not> is_data opc"
  shows "(\<not> xf_output_port_routed port \<longrightarrow>
      (\<exists>cd' q. xf_output_port_flush al port opc cd = Some (cd', port\<lparr>op_queue := q\<rparr>, True) \<and>
         port_q cd' P (replied (\<lambda>m. m_id (c_msgs cd m)) ms L) q [] \<and> all_ok cd ms cd')) \<and>
    (xf_output_port_routed port \<and> xf_output_port_idle port \<longrightarrow> xf_output_port_flush al port opc cd = Some (cd, port, True)) \<and>
    (xf_output_port_routed port \<and> \<not> xf_output_port_idle port \<and> \<not> bit (op_flags port) 4 \<longrightarrow>
      (\<exists>cd' port'. xf_output_port_flush al port opc cd = Some (cd', port', False) \<and>
         port_q cd' P (replied (\<lambda>m. m_id (c_msgs cd m)) [m] L) (op_queue port') ms \<and> m_opcode (c_msgs cd' m) = opc \<and>
         m_id (c_msgs cd' m) = msg_id_swap (m_id (c_msgs cd m)) \<and>
         (\<forall>c. xf_output_port_flush al port' opc c = Some (c, port', False)) \<and>
         xf_output_port_idle (xf_output_port_flush_done port') \<and>
         (\<forall>c. xf_output_port_flush al (xf_output_port_flush_done port') opc c = Some (c, xf_output_port_flush_done port', True)))) \<and>
    (\<forall>x xs n. ms = x # xs \<longrightarrow>
      (\<exists>cd' port'. xf_output_port_produce port n cd = Some (cd', port', xs \<noteq> []) \<and> \<not> xf_output_port_idle port' \<and>
         port_q cd' P (replied (\<lambda>m. m_id (c_msgs cd m)) [x] L) (op_queue port') xs \<and> m_length (c_msgs cd' x) = n \<and>
         m_buffer (c_msgs cd' x) = m_buffer (c_msgs cd x)))"
proof -
  have "xf_output_port_flush al port opc cd = Some (cd, port, True)" if "xf_output_port_routed port" "xf_output_port_idle port"
    using that by (simp add: xf_output_port_flush_def xf_output_port_idle_def)
  then show ?thesis
    using flush_unrouted [OF assms(1)] flush_start [OF assms] produce_at [of cd P L port] assms(1) by blast
qed

definition routed_demo :: xf_output_port where
  "routed_demo = out_port_demo\<lparr>op_queue := \<lparr>q_head = 96, q_tail = 96\<rparr>, op_pool := \<lparr>pl_p = 64, pl_head = 64, pl_n = 2\<rparr>, op_flags := 3\<rparr>"

theorem output_port_flush_correct_witness:
  "\<exists>cd' port'. xf_output_port_flush 32 routed_demo XF_FLUSH stream_demo = Some (cd', port', False) \<and> m_opcode (c_msgs cd' 64) = XF_FLUSH \<and>
     xf_output_port_flush 32 port' XF_FLUSH cd' = Some (cd', port', False) \<and> xf_output_port_idle (xf_output_port_flush_done port')"
proof -
  have q: "port_q stream_demo [] (\<lambda>_. []) (op_queue routed_demo) [96]" using stream_demo_port by (simp add: routed_demo_def)
  have m: "64 = xf_output_port_control_msg 32 routed_demo"
    by (simp add: routed_demo_def xf_output_port_control_msg_def xf_msg_pool_item_def)
  have f: "xf_output_port_routed routed_demo" "\<not> xf_output_port_idle routed_demo" "\<not> bit (op_flags routed_demo) 4"
    by (simp_all add: output_flag_bits routed_demo_def)
  from output_port_flush_correct [OF q m _ _ _ stream_demo_control, of XF_FLUSH] f show ?thesis
    by (auto simp: ipc_set_def is_data_def opcode_nums)
qed

end
