(* ===== verification/XA_Base.thy ===== *)
theory XA_Base
  imports XF_Io_Flow
begin

text \<open>
  The base class of the audio components (audio/xa-class-base.h, audio/xa-class-base.c): creation and
  memory set-up of a codec plugin, the parameter commands, the processing step and the entry point.
  A component structure starts with an XACodecBase; the records of the derived classes extend the
  record \<open>XACodecBase\<close>, and the operations of the base class are polymorphic in the extension. The plugin is reached
  through the function pointer \<open>process\<close> and is an argument of the model. The methods a derived class
  installs are collected in the record \<open>xa_hooks\<close>; its command table is an argument.
\<close>

section \<open>Memory of the DSP (little endian)\<close>

definition mem_read16 :: "(addr \<Rightarrow> u8) \<Rightarrow> addr \<Rightarrow> u16" where
  "mem_read16 d a = ucast (d a) OR push_bit 8 (ucast (d (a + 1)))"

definition mem_read32 :: "(addr \<Rightarrow> u8) \<Rightarrow> addr \<Rightarrow> u32" where
  "mem_read32 d a = ucast (mem_read16 d a) OR push_bit 16 (ucast (mem_read16 d (a + 2)))"

definition mem_write32 :: "(addr \<Rightarrow> u8) \<Rightarrow> addr \<Rightarrow> u32 \<Rightarrow> addr \<Rightarrow> u8" where
  "mem_write32 d a v =
     d(a := ucast v, a + 1 := ucast (drop_bit 8 v), a + 2 := ucast (drop_bit 16 v), a + 3 := ucast (drop_bit 24 v))"

section \<open>Errors\<close>

definition XA_NO_ERROR :: u32 where "XA_NO_ERROR = 0"
definition XA_FATAL_ERROR :: u32 where "XA_FATAL_ERROR = 0x80000000"

definition XA_ERROR_CODE :: "u32 \<Rightarrow> u32 \<Rightarrow> u32 \<Rightarrow> u32 \<Rightarrow> u32" where
  "XA_ERROR_CODE severity cls codec index = push_bit 15 severity OR push_bit 11 cls OR push_bit 6 codec OR index"

definition XA_ERROR_SEVERITY :: "u32 \<Rightarrow> bool" where
  "XA_ERROR_SEVERITY code \<longleftrightarrow> code AND XA_FATAL_ERROR \<noteq> 0"

definition xa_severity_nonfatal :: u32 where "xa_severity_nonfatal = 0"
definition xa_severity_fatal :: u32 where "xa_severity_fatal = 0xffffffff"
definition xa_class_api :: u32 where "xa_class_api = 0"
definition xa_class_config :: u32 where "xa_class_config = 1"
definition xa_class_execute :: u32 where "xa_class_execute = 2"
definition XA_CODEC_GENERIC :: u32 where "XA_CODEC_GENERIC = 0"

definition XA_API_FATAL_MEM_ALLOC :: u32 where
  "XA_API_FATAL_MEM_ALLOC = XA_ERROR_CODE xa_severity_fatal xa_class_api XA_CODEC_GENERIC 0"
definition XA_API_FATAL_MEM_ALIGN :: u32 where
  "XA_API_FATAL_MEM_ALIGN = XA_ERROR_CODE xa_severity_fatal xa_class_api XA_CODEC_GENERIC 1"
definition XA_API_FATAL_INVALID_CMD :: u32 where
  "XA_API_FATAL_INVALID_CMD = XA_ERROR_CODE xa_severity_fatal xa_class_api XA_CODEC_GENERIC 2"
definition XA_API_FATAL_INVALID_CMD_TYPE :: u32 where
  "XA_API_FATAL_INVALID_CMD_TYPE = XA_ERROR_CODE xa_severity_fatal xa_class_api XA_CODEC_GENERIC 3"

lemmas xa_error_defs = XA_NO_ERROR_def XA_FATAL_ERROR_def XA_ERROR_CODE_def xa_severity_nonfatal_def xa_severity_fatal_def
  xa_class_api_def xa_class_execute_def XA_CODEC_GENERIC_def XA_API_FATAL_MEM_ALLOC_def XA_API_FATAL_MEM_ALIGN_def
  XA_API_FATAL_INVALID_CMD_def XA_API_FATAL_INVALID_CMD_TYPE_def

text \<open>The C return values of the entry point: 0 or a negated errno.\<close>

fun errno :: "xf_errno \<Rightarrow> int" where
  "errno EPERM = 1"
| "errno ENOENT = 2"
| "errno ENOMEM = 12"
| "errno EBUSY = 16"
| "errno EINVAL = 22"
| "errno EPIPE = 32"

section \<open>Plugin commands\<close>

definition XA_API_CMD_GET_API_SIZE :: u32 where "XA_API_CMD_GET_API_SIZE = 0x0002"
definition XA_API_CMD_INIT :: u32 where "XA_API_CMD_INIT = 0x0003"
definition XA_API_CMD_SET_CONFIG_PARAM :: u32 where "XA_API_CMD_SET_CONFIG_PARAM = 0x0004"
definition XA_API_CMD_GET_CONFIG_PARAM :: u32 where "XA_API_CMD_GET_CONFIG_PARAM = 0x0005"
definition XA_API_CMD_GET_MEMTABS_SIZE :: u32 where "XA_API_CMD_GET_MEMTABS_SIZE = 0x0006"
definition XA_API_CMD_SET_MEMTABS_PTR :: u32 where "XA_API_CMD_SET_MEMTABS_PTR = 0x0007"
definition XA_API_CMD_GET_N_MEMTABS :: u32 where "XA_API_CMD_GET_N_MEMTABS = 0x0008"
definition XA_API_CMD_EXECUTE :: u32 where "XA_API_CMD_EXECUTE = 0x0009"
definition XA_API_CMD_GET_CURIDX_INPUT_BUF :: u32 where "XA_API_CMD_GET_CURIDX_INPUT_BUF = 0x000B"
definition XA_API_CMD_SET_INPUT_BYTES :: u32 where "XA_API_CMD_SET_INPUT_BYTES = 0x000C"
definition XA_API_CMD_GET_OUTPUT_BYTES :: u32 where "XA_API_CMD_GET_OUTPUT_BYTES = 0x000D"
definition XA_API_CMD_INPUT_OVER :: u32 where "XA_API_CMD_INPUT_OVER = 0x000E"
definition XA_API_CMD_GET_MEM_INFO_SIZE :: u32 where "XA_API_CMD_GET_MEM_INFO_SIZE = 0x0010"
definition XA_API_CMD_GET_MEM_INFO_ALIGNMENT :: u32 where "XA_API_CMD_GET_MEM_INFO_ALIGNMENT = 0x0011"
definition XA_API_CMD_GET_MEM_INFO_TYPE :: u32 where "XA_API_CMD_GET_MEM_INFO_TYPE = 0x0012"
definition XA_API_CMD_SET_MEM_PTR :: u32 where "XA_API_CMD_SET_MEM_PTR = 0x0015"

definition XA_CMD_TYPE_INIT_API_PRE_CONFIG_PARAMS :: u32 where "XA_CMD_TYPE_INIT_API_PRE_CONFIG_PARAMS = 0x0100"
definition XA_CMD_TYPE_INIT_API_POST_CONFIG_PARAMS :: u32 where "XA_CMD_TYPE_INIT_API_POST_CONFIG_PARAMS = 0x0200"
definition XA_CMD_TYPE_INIT_PROCESS :: u32 where "XA_CMD_TYPE_INIT_PROCESS = 0x0300"
definition XA_CMD_TYPE_INIT_DONE_QUERY :: u32 where "XA_CMD_TYPE_INIT_DONE_QUERY = 0x0400"
definition XA_CMD_TYPE_DO_EXECUTE :: u32 where "XA_CMD_TYPE_DO_EXECUTE = 0x0100"
definition XA_CMD_TYPE_DONE_QUERY :: u32 where "XA_CMD_TYPE_DONE_QUERY = 0x0200"
definition XA_CMD_TYPE_DO_RUNTIME_INIT :: u32 where "XA_CMD_TYPE_DO_RUNTIME_INIT = 0x0300"

definition XA_MEMTYPE_PERSIST :: u32 where "XA_MEMTYPE_PERSIST = 0x00"
definition XA_MEMTYPE_SCRATCH :: u32 where "XA_MEMTYPE_SCRATCH = 0x01"
definition XA_MEMTYPE_INPUT :: u32 where "XA_MEMTYPE_INPUT = 0x02"
definition XA_MEMTYPE_OUTPUT :: u32 where "XA_MEMTYPE_OUTPUT = 0x03"

text \<open>The last argument of the plugin function: NULL, an address in the memory of the DSP, the address of
  a local variable that receives a value, or that of a local variable which holds a value.\<close>

datatype xa_pv = PvNull | PvPtr addr | PvOut | PvVal u32

text \<open>A plugin call takes the API handle, the command, its index and the pointer. It may write the memory
  and changes the state 's of the plugin; it returns the value it stores through \<open>PvOut\<close> and the error code.\<close>

type_synonym 's xa_proc = "addr \<Rightarrow> u32 \<Rightarrow> u32 \<Rightarrow> xa_pv \<Rightarrow> (addr \<Rightarrow> u8) \<Rightarrow> 's \<Rightarrow> (addr \<Rightarrow> u8) \<times> 's \<times> u32 \<times> u32"

section \<open>The structure\<close>

text \<open>What the entry and exit pointers of the component hold.\<close>

datatype xa_entry = XA_Command | XA_Terminate
datatype xa_exit = XA_NoExit | XA_Cleanup | XA_Destroy

record XACodecBase =
  xb_entry :: xa_entry
  xb_exit :: xa_exit
  xb_api :: xf_mm_buffer
  xb_mem_tabs :: xf_mm_buffer
  xb_persist :: xf_mm_buffer
  xb_scratch :: addr
  xb_state :: u32

definition XA_BASE_FLAG_POSTINIT :: u32 where "XA_BASE_FLAG_POSTINIT = push_bit 0 1"
definition XA_BASE_FLAG_RUNTIME_INIT :: u32 where "XA_BASE_FLAG_RUNTIME_INIT = push_bit 1 1"
definition XA_BASE_FLAG_EXECUTION :: u32 where "XA_BASE_FLAG_EXECUTION = push_bit 2 1"
definition XA_BASE_FLAG_COMPLETED :: u32 where "XA_BASE_FLAG_COMPLETED = push_bit 3 1"
definition XA_BASE_FLAG_SCHEDULE :: u32 where "XA_BASE_FLAG_SCHEDULE = push_bit 4 1"

definition XA_BASE_FLAGS :: "u32 \<Rightarrow> u32" where "XA_BASE_FLAGS flags = flags AND (push_bit 5 1 - 1)"
definition XA_BASE_FLAG :: "u32 \<Rightarrow> u32" where "XA_BASE_FLAG f = push_bit 5 f"

lemmas base_flag_defs = XA_BASE_FLAG_POSTINIT_def XA_BASE_FLAG_RUNTIME_INIT_def XA_BASE_FLAG_EXECUTION_def
  XA_BASE_FLAG_COMPLETED_def XA_BASE_FLAG_SCHEDULE_def

text \<open>The state a method works on: the framework, the structure of its component (with its
  address) and the plugin.\<close>

record ('o, 's) xa_st =
  xs_core :: xf_core
  xs_self :: addr
  xs_obj :: 'o
  xs_plug :: 's

type_synonym ('o, 's) xa_res = "(('o, 's) xa_st \<times> u32) option"

record ('o, 's) xa_hooks =
  h_memtab :: "u32 \<Rightarrow> u32 \<Rightarrow> u32 \<Rightarrow> u32 \<Rightarrow> u32 \<Rightarrow> ('o, 's) xa_st \<Rightarrow> ('o, 's) xa_res"
  h_preprocess :: "('o, 's) xa_st \<Rightarrow> ('o, 's) xa_res"
  h_postprocess :: "u32 \<Rightarrow> ('o, 's) xa_st \<Rightarrow> ('o, 's) xa_res"
  h_setparam :: "(u32 \<Rightarrow> addr \<Rightarrow> ('o, 's) xa_st \<Rightarrow> ('o, 's) xa_res) option"
  h_getparam :: "(u32 \<Rightarrow> addr \<Rightarrow> ('o, 's) xa_st \<Rightarrow> ('o, 's) xa_res) option"

definition upd_core :: "(xf_core \<Rightarrow> xf_core) \<Rightarrow> ('o, 's) xa_st \<Rightarrow> ('o, 's) xa_st" where
  "upd_core f s = s\<lparr>xs_core := f (xs_core s)\<rparr>"

definition upd_obj :: "('o \<Rightarrow> 'o) \<Rightarrow> ('o, 's) xa_st \<Rightarrow> ('o, 's) xa_st" where
  "upd_obj f s = s\<lparr>xs_obj := f (xs_obj s)\<rparr>"

definition on_core :: "(xf_core \<Rightarrow> xf_core option) \<Rightarrow> ('o, 's) xa_st \<Rightarrow> ('o, 's) xa_st option" where
  "on_core f s = map_option (\<lambda>cd. s\<lparr>xs_core := cd\<rparr>) (f (xs_core s))"

definition set_state :: "(u32 \<Rightarrow> u32) \<Rightarrow> ('a XACodecBase_scheme, 's) xa_st \<Rightarrow> ('a XACodecBase_scheme, 's) xa_st" where
  "set_state f = upd_obj (\<lambda>c. c\<lparr>xb_state := f (xb_state c)\<rparr>)"

definition xa_ok :: "('o, 's) xa_st \<Rightarrow> ('o, 's) xa_res" where
  "xa_ok s = Some (s, XA_NO_ERROR)"

section \<open>The macros\<close>

text \<open>The macros return from the function they are used in when the error is fatal; k is the rest of
  the function.\<close>

definition XF_CHK :: "bool \<Rightarrow> u32 \<Rightarrow> ('o, 's) xa_st \<Rightarrow> (('o, 's) xa_st \<Rightarrow> ('o, 's) xa_res) \<Rightarrow> ('o, 's) xa_res" where
  "XF_CHK cond err s k = (if cond then k s else Some (s, err))"

definition XA_CHK :: "('o, 's) xa_res \<Rightarrow> (('o, 's) xa_st \<Rightarrow> u32 \<Rightarrow> ('o, 's) xa_res) \<Rightarrow> ('o, 's) xa_res" where
  "XA_CHK r k = Option.bind r (\<lambda>(s, e). if e \<noteq> XA_NO_ERROR \<and> XA_ERROR_SEVERITY e then Some (s, e) else k s e)"

definition CODEC_API ::
  "(('o, 's) xa_st \<Rightarrow> ('o, 's) xa_res) \<Rightarrow> ('o, 's) xa_st \<Rightarrow> (('o, 's) xa_st \<Rightarrow> u32 \<Rightarrow> ('o, 's) xa_res) \<Rightarrow> ('o, 's) xa_res"
where
  "CODEC_API f s k = XA_CHK (f s) k"

text \<open>The plugin call alone, and with the check.\<close>

definition xa_call ::
  "'s xa_proc \<Rightarrow> u32 \<Rightarrow> u32 \<Rightarrow> xa_pv \<Rightarrow> ('a XACodecBase_scheme, 's) xa_st \<Rightarrow> ('a XACodecBase_scheme, 's) xa_st \<times> u32 \<times> u32"
where
  "xa_call p cmd idx pv s =
     (let (d, w, v, e) = p (mb_addr (xb_api (xs_obj s))) cmd idx pv (c_data (xs_core s)) (xs_plug s)
      in (s\<lparr>xs_core := (xs_core s)\<lparr>c_data := d\<rparr>, xs_plug := w\<rparr>, v, e))"

definition XA_API ::
  "'s xa_proc \<Rightarrow> u32 \<Rightarrow> u32 \<Rightarrow> xa_pv \<Rightarrow> ('a XACodecBase_scheme, 's) xa_st \<Rightarrow>
     (('a XACodecBase_scheme, 's) xa_st \<Rightarrow> u32 \<Rightarrow> ('a XACodecBase_scheme, 's) xa_res) \<Rightarrow> ('a XACodecBase_scheme, 's) xa_res"
where
  "XA_API p cmd idx pv s k =
     (let (s, v, e) = xa_call p cmd idx pv s
      in if e \<noteq> XA_NO_ERROR \<and> XA_ERROR_SEVERITY e then Some (s, e) else k s v)"

text \<open>Allocation of one of the buffers of the structure, read by rd and written by wr.\<close>

definition XMALLOC ::
  "('o \<Rightarrow> xf_mm_buffer) \<Rightarrow> (xf_mm_buffer \<Rightarrow> 'o \<Rightarrow> 'o) \<Rightarrow> u32 \<Rightarrow> u32 \<Rightarrow> u32 \<Rightarrow> ('o, 's) xa_st \<Rightarrow>
     (('o, 's) xa_st \<Rightarrow> ('o, 's) xa_res) \<Rightarrow> ('o, 's) xa_res"
where
  "XMALLOC rd wr sz align core s k =
     Option.bind (xf_mm_alloc_buffer sz align core (rd (xs_obj s)) (xs_core s)) (\<lambda>(cd, b, r).
       let s = s\<lparr>xs_core := cd, xs_obj := wr b (xs_obj s)\<rparr> in
       case r of
         Inl _ \<Rightarrow> Some (s, XA_API_FATAL_MEM_ALLOC)
       | Inr _ \<Rightarrow> if mb_addr b AND (align - 1) \<noteq> 0 then Some (s, XA_API_FATAL_MEM_ALIGN) else k s)"

section \<open>Creation\<close>

definition xa_base_preinit ::
  "'s xa_proc \<Rightarrow> u32 \<Rightarrow> ('a XACodecBase_scheme, 's) xa_st \<Rightarrow> ('a XACodecBase_scheme, 's) xa_res"
where
  "xa_base_preinit p core s =
     XF_CHK (xb_state (xs_obj s) = 0) XA_API_FATAL_INVALID_CMD s (\<lambda>s.
     XA_API p XA_API_CMD_GET_API_SIZE 0 PvOut s (\<lambda>s n.
     XMALLOC xb_api (\<lambda>b o'. o'\<lparr>xb_api := b\<rparr>) n 4 core s (\<lambda>s.
     XA_API p XA_API_CMD_INIT XA_CMD_TYPE_INIT_API_PRE_CONFIG_PARAMS PvNull s (\<lambda>s _.
     XA_API p XA_API_CMD_GET_MEMTABS_SIZE 0 PvOut s (\<lambda>s n.
       if n \<noteq> 0 then
         XMALLOC xb_mem_tabs (\<lambda>b o'. o'\<lparr>xb_mem_tabs := b\<rparr>) n 4 core s (\<lambda>s.
         XA_API p XA_API_CMD_SET_MEMTABS_PTR 0 (PvPtr (mb_addr (xb_mem_tabs (xs_obj s)))) s (\<lambda>s _.
           Some (s, XA_NO_ERROR)))
       else Some (s, XA_NO_ERROR))))))"

text \<open>The loop of \<open>xa_base_postinit\<close> over the indices of the memory tables.\<close>

fun base_memtabs ::
  "('a XACodecBase_scheme, 's) xa_hooks \<Rightarrow> 's xa_proc \<Rightarrow> u32 \<Rightarrow> u32 list \<Rightarrow> ('a XACodecBase_scheme, 's) xa_st \<Rightarrow>
     ('a XACodecBase_scheme, 's) xa_res"
where
  "base_memtabs hk p core [] s = Some (s, XA_NO_ERROR)"
| "base_memtabs hk p core (i # is) s =
     XA_API p XA_API_CMD_GET_MEM_INFO_TYPE i PvOut s (\<lambda>s type.
     XA_API p XA_API_CMD_GET_MEM_INFO_SIZE i PvOut s (\<lambda>s sz.
     XA_API p XA_API_CMD_GET_MEM_INFO_ALIGNMENT i PvOut s (\<lambda>s align.
       if type = XA_MEMTYPE_SCRATCH then
         XF_CHK (sint sz \<le> sint XF_CFG_CODEC_SCRATCHMEM_SIZE) XA_API_FATAL_MEM_ALLOC s (\<lambda>s.
         XF_CHK (XF_CFG_CODEC_SCRATCHMEM_ALIGN AND (align - 1) = 0) XA_API_FATAL_MEM_ALIGN s (\<lambda>s.
         XA_API p XA_API_CMD_SET_MEM_PTR i (PvPtr (xb_scratch (xs_obj s))) s (\<lambda>s _. base_memtabs hk p core is s)))
       else if type = XA_MEMTYPE_PERSIST then
         XMALLOC xb_persist (\<lambda>b o'. o'\<lparr>xb_persist := b\<rparr>) sz align core s (\<lambda>s.
         XA_API p XA_API_CMD_SET_MEM_PTR i (PvPtr (mb_addr (xb_persist (xs_obj s)))) s (\<lambda>s _. base_memtabs hk p core is s))
       else if type = XA_MEMTYPE_INPUT \<or> type = XA_MEMTYPE_OUTPUT then
         CODEC_API (h_memtab hk i type sz align core) s (\<lambda>s _. base_memtabs hk p core is s)
       else Some (s, XA_API_FATAL_INVALID_CMD_TYPE))))"

definition xa_base_postinit ::
  "('a XACodecBase_scheme, 's) xa_hooks \<Rightarrow> 's xa_proc \<Rightarrow> u32 \<Rightarrow> ('a XACodecBase_scheme, 's) xa_st \<Rightarrow>
     ('a XACodecBase_scheme, 's) xa_res"
where
  "xa_base_postinit hk p core s =
     XA_API p XA_API_CMD_INIT XA_CMD_TYPE_INIT_API_POST_CONFIG_PARAMS PvNull s (\<lambda>s _.
     XA_API p XA_API_CMD_GET_N_MEMTABS 0 PvOut s (\<lambda>s n.
       xf_on_core core
         (let s = upd_obj (\<lambda>o'. o'\<lparr>xb_scratch := c_scratch (xs_core s)\<rparr>) s
          in base_memtabs hk p core (map of_nat [0 ..< nat (sint n)]) s)))"

section \<open>Parameters\<close>

definition XF_SET_PARAM_CMD_LEN :: "u32 \<Rightarrow> u32" where "XF_SET_PARAM_CMD_LEN params = 8 * params"
definition XF_GET_PARAM_CMD_LEN :: "u32 \<Rightarrow> u32" where "XF_GET_PARAM_CMD_LEN params = 4 * params"
definition XF_GET_PARAM_RSP_LEN :: "u32 \<Rightarrow> u32" where "XF_GET_PARAM_RSP_LEN params = 4 * params"

text \<open>The loops take the address of the next item and the number of items left.\<close>

fun base_set_items ::
  "('a XACodecBase_scheme, 's) xa_hooks \<Rightarrow> 's xa_proc \<Rightarrow> nat \<Rightarrow> addr \<Rightarrow> ('a XACodecBase_scheme, 's) xa_st \<Rightarrow>
     (('a XACodecBase_scheme, 's) xa_st \<Rightarrow> ('a XACodecBase_scheme, 's) xa_res) \<Rightarrow> ('a XACodecBase_scheme, 's) xa_res"
where
  "base_set_items hk p 0 a s k = k s"
| "base_set_items hk p (Suc n) a s k =
     (let id = mem_read32 (c_data (xs_core s)) a in
      case h_setparam hk of
        Some f \<Rightarrow> CODEC_API (f id (a + 4)) s (\<lambda>s _. base_set_items hk p n (a + 8) s k)
      | None \<Rightarrow> XA_API p XA_API_CMD_SET_CONFIG_PARAM id (PvPtr (a + 4)) s (\<lambda>s _. base_set_items hk p n (a + 8) s k))"

definition xa_base_set_param ::
  "('a XACodecBase_scheme, 's) xa_hooks \<Rightarrow> 's xa_proc \<Rightarrow> addr \<Rightarrow> ('a XACodecBase_scheme, 's) xa_st \<Rightarrow>
     ('a XACodecBase_scheme, 's) xa_res"
where
  "xa_base_set_param hk p m s =
     (let param = m_buffer (c_msgs (xs_core s) m);
          len = m_length (c_msgs (xs_core s) m);
          n = len div 8;
          respond = (\<lambda>s. map_option (\<lambda>s. (s, XA_NO_ERROR)) (on_core (xf_response_ok m) s)) in
      XF_CHK (len = XF_SET_PARAM_CMD_LEN n) XA_API_FATAL_INVALID_CMD_TYPE s (\<lambda>s.
      base_set_items hk p (nat (sint n)) param s (\<lambda>s.
      if xb_state (xs_obj s) AND XA_BASE_FLAG_POSTINIT = 0 then
        XA_CHK (xa_base_postinit hk p (XF_MSG_DST_CORE (m_id (c_msgs (xs_core s) m))) s) (\<lambda>s _.
          respond (upd_obj (\<lambda>o'. o'\<lparr>xb_state := xb_state o' XOR (XA_BASE_FLAG_POSTINIT OR XA_BASE_FLAG_RUNTIME_INIT)\<rparr>) s))
      else respond s)))"

fun base_get_items ::
  "('a XACodecBase_scheme, 's) xa_hooks \<Rightarrow> 's xa_proc \<Rightarrow> nat \<Rightarrow> addr \<Rightarrow> ('a XACodecBase_scheme, 's) xa_st \<Rightarrow>
     (('a XACodecBase_scheme, 's) xa_st \<Rightarrow> ('a XACodecBase_scheme, 's) xa_res) \<Rightarrow> ('a XACodecBase_scheme, 's) xa_res"
where
  "base_get_items hk p 0 a s k = k s"
| "base_get_items hk p (Suc n) a s k =
     (let id = mem_read32 (c_data (xs_core s)) a in
      case h_getparam hk of
        Some f \<Rightarrow> CODEC_API (f id a) s (\<lambda>s _. base_get_items hk p n (a + 4) s k)
      | None \<Rightarrow> XA_API p XA_API_CMD_GET_CONFIG_PARAM id (PvPtr a) s (\<lambda>s _. base_get_items hk p n (a + 4) s k))"

definition xa_base_get_param ::
  "('a XACodecBase_scheme, 's) xa_hooks \<Rightarrow> 's xa_proc \<Rightarrow> addr \<Rightarrow> ('a XACodecBase_scheme, 's) xa_st \<Rightarrow>
     ('a XACodecBase_scheme, 's) xa_res"
where
  "xa_base_get_param hk p m s =
     (let id = m_buffer (c_msgs (xs_core s) m);
          len = m_length (c_msgs (xs_core s) m);
          n = len div 4 in
      XF_CHK (XF_GET_PARAM_CMD_LEN n = len) XA_API_FATAL_INVALID_CMD_TYPE s (\<lambda>s.
      base_get_items hk p (unat n) id s (\<lambda>s.
        map_option (\<lambda>s. (s, XA_NO_ERROR)) (on_core (xf_response_data m (XF_GET_PARAM_RSP_LEN n)) s))))"

text \<open>Zeroes after the data of an extended parameter, up to the next word.\<close>

definition ext_pad :: "addr \<Rightarrow> u16 \<Rightarrow> xf_core \<Rightarrow> xf_core" where
  "ext_pad a len cd =
     (let pad = len AND 3 in
      if pad \<noteq> 0 then cd\<lparr>c_data := mem_set (a + ucast len) 0 (4 - ucast pad) (c_data cd)\<rparr> else cd)"

text \<open>The loop of \<open>xa_base_set_param_ext\<close>; lengths are 16 bits wide.\<close>

function base_set_ext ::
  "'s xa_proc \<Rightarrow> u16 \<Rightarrow> addr \<Rightarrow> ('a XACodecBase_scheme, 's) xa_st \<Rightarrow>
     (('a XACodecBase_scheme, 's) xa_st \<Rightarrow> u16 \<Rightarrow> ('a XACodecBase_scheme, 's) xa_res) \<Rightarrow> ('a XACodecBase_scheme, 's) xa_res"
where
  "base_set_ext p remaining cmd s k =
     (if remaining \<ge> 4 then
        let id = mem_read16 (c_data (xs_core s)) cmd;
            dlen = mem_read16 (c_data (xs_core s)) (cmd + 2);
            dsize = (dlen + 3) AND NOT 3;
            remaining = remaining - 4
        in if remaining \<ge> dsize then
             let s = upd_core (ext_pad (cmd + 4) dlen) s;
                 (s, v, e) = xa_call p XA_API_CMD_SET_CONFIG_PARAM (ucast id) (PvPtr (cmd + 4)) s
             in if e \<noteq> XA_NO_ERROR \<and> XA_ERROR_SEVERITY e then Some (s, e)
                else base_set_ext p (remaining - dsize) (cmd + 4 + ucast dsize) s k
           else Some (s, XA_API_FATAL_INVALID_CMD_TYPE)
      else k s remaining)"
  by pat_completeness auto

definition xa_base_set_param_ext ::
  "'s xa_proc \<Rightarrow> addr \<Rightarrow> ('a XACodecBase_scheme, 's) xa_st \<Rightarrow> ('a XACodecBase_scheme, 's) xa_res"
where
  "xa_base_set_param_ext p m s =
     (let cmd = m_buffer (c_msgs (xs_core s) m);
          len = (ucast (m_length (c_msgs (xs_core s) m)) :: u16) in
      base_set_ext p ((len + 3) AND NOT 3) cmd s (\<lambda>s remaining.
      XF_CHK (remaining = 0) XA_API_FATAL_INVALID_CMD_TYPE s (\<lambda>s.
        map_option (\<lambda>s. (s, XA_NO_ERROR)) (on_core (xf_response_data m (ucast len)) s))))"

text \<open>The loop of \<open>xa_base_get_param_ext\<close>; here the length of the message has 32 bits.\<close>

function base_get_ext ::
  "'s xa_proc \<Rightarrow> u32 \<Rightarrow> addr \<Rightarrow> ('a XACodecBase_scheme, 's) xa_st \<Rightarrow>
     (('a XACodecBase_scheme, 's) xa_st \<Rightarrow> u32 \<Rightarrow> ('a XACodecBase_scheme, 's) xa_res) \<Rightarrow> ('a XACodecBase_scheme, 's) xa_res"
where
  "base_get_ext p remaining cmd s k =
     (if remaining \<ge> 4 then
        let id = mem_read16 (c_data (xs_core s)) cmd;
            len = mem_read16 (c_data (xs_core s)) (cmd + 2);
            sz = (len + 3) AND NOT 3;
            remaining = remaining - 4
        in if remaining \<ge> ucast sz then
             let (s, v, e) = xa_call p XA_API_CMD_GET_CONFIG_PARAM (ucast id) (PvPtr (cmd + 4)) s
             in if e \<noteq> XA_NO_ERROR \<and> XA_ERROR_SEVERITY e then Some (s, e)
                else base_get_ext p (remaining - ucast sz) (cmd + 4 + ucast sz) (upd_core (ext_pad (cmd + 4) len) s) k
           else Some (s, XA_API_FATAL_INVALID_CMD_TYPE)
      else k s remaining)"
  by pat_completeness auto

definition xa_base_get_param_ext ::
  "'s xa_proc \<Rightarrow> addr \<Rightarrow> ('a XACodecBase_scheme, 's) xa_st \<Rightarrow> ('a XACodecBase_scheme, 's) xa_res"
where
  "xa_base_get_param_ext p m s =
     (let cmd = m_buffer (c_msgs (xs_core s) m);
          len = m_length (c_msgs (xs_core s) m) in
      base_get_ext p ((len + 3) AND NOT 3) cmd s (\<lambda>s remaining.
      XF_CHK (remaining = 0) XA_API_FATAL_INVALID_CMD_TYPE s (\<lambda>s.
        map_option (\<lambda>s. (s, XA_NO_ERROR)) (on_core (xf_response_data m len) s))))"

text \<open>The bytes left decrease.\<close>

lemma ext_left:
  fixes n sz :: "'a::len word"
  assumes "4 \<le> n" and "sz \<le> n - 4" and "2 < LENGTH('a)"
  shows "unat (n - 4 - sz) < unat n"
proof -
  have "unat (n - 4 - sz) = unat (n - 4) - unat sz" using assms(2) by (rule unat_sub)
  moreover have "unat (n - 4) = unat n - unat (4 :: 'a word)" using assms(1) by (rule unat_sub)
  moreover have "(2::nat) ^ 3 \<le> 2 ^ LENGTH('a)" using assms(3) by (intro power_increasing) auto
  then have "unat (4 :: 'a word) = 4" by (simp add: unsigned_numeral take_bit_nat_eq_self_iff)
  moreover have "unat (4 :: 'a word) \<le> unat n" using assms(1) by (simp add: word_le_nat_alt)
  ultimately show ?thesis by linarith
qed

termination base_set_ext
  by (relation "measure (\<lambda>(_, n, _). unat n)") (auto intro: ext_left)

termination base_get_ext
  by (relation "measure (\<lambda>(_, n, _). unat n)") (auto intro: ext_left)

declare base_set_ext.simps [simp del] base_get_ext.simps [simp del]

text \<open>The size of the data of a parameter with its padding, the plugin call for the parameter at an
  address, and one step of each loop.\<close>

definition ext_size :: "u16 \<Rightarrow> u16" where "ext_size len = (len + 3) AND NOT 3"

definition ext_set_call ::
  "'s xa_proc \<Rightarrow> addr \<Rightarrow> ('a XACodecBase_scheme, 's) xa_st \<Rightarrow> ('a XACodecBase_scheme, 's) xa_st \<times> u32 \<times> u32"
where
  "ext_set_call p a s =
     xa_call p XA_API_CMD_SET_CONFIG_PARAM (ucast (mem_read16 (c_data (xs_core s)) a)) (PvPtr (a + 4))
       (upd_core (ext_pad (a + 4) (mem_read16 (c_data (xs_core s)) (a + 2))) s)"

definition ext_get_call ::
  "'s xa_proc \<Rightarrow> addr \<Rightarrow> ('a XACodecBase_scheme, 's) xa_st \<Rightarrow> ('a XACodecBase_scheme, 's) xa_st \<times> u32 \<times> u32"
where
  "ext_get_call p a s =
     xa_call p XA_API_CMD_GET_CONFIG_PARAM (ucast (mem_read16 (c_data (xs_core s)) a)) (PvPtr (a + 4)) s"

lemma base_set_ext_step:
  "base_set_ext p n a s k =
     (if 4 \<le> n then
        let d = ext_size (mem_read16 (c_data (xs_core s)) (a + 2)) in
        if d \<le> n - 4 then
          let (s2, v, e) = ext_set_call p a s
          in if e \<noteq> XA_NO_ERROR \<and> XA_ERROR_SEVERITY e then Some (s2, e)
             else base_set_ext p (n - 4 - d) (a + 4 + ucast d) s2 k
        else Some (s, XA_API_FATAL_INVALID_CMD_TYPE)
      else k s n)"
  by (subst base_set_ext.simps) (simp add: Let_def ext_size_def ext_set_call_def)

lemma base_get_ext_step:
  "base_get_ext p n a s k =
     (if 4 \<le> n then
        let l = mem_read16 (c_data (xs_core s)) (a + 2); d = ucast (ext_size l) in
        if d \<le> n - 4 then
          let (s2, v, e) = ext_get_call p a s
          in if e \<noteq> XA_NO_ERROR \<and> XA_ERROR_SEVERITY e then Some (s2, e)
             else base_get_ext p (n - 4 - d) (a + 4 + d) (upd_core (ext_pad (a + 4) l) s2) k
        else Some (s, XA_API_FATAL_INVALID_CMD_TYPE)
      else k s n)"
  by (subst base_get_ext.simps) (simp add: Let_def ext_size_def ext_get_call_def)

section \<open>Processing\<close>

text \<open>\<open>u\<close> is the value of the local variable \<open>done\<close> before it is set.\<close>

definition xa_base_process ::
  "('a XACodecBase_scheme, 's) xa_hooks \<Rightarrow> 's xa_proc \<Rightarrow> u32 \<Rightarrow> ('a XACodecBase_scheme, 's) xa_st \<Rightarrow>
     ('a XACodecBase_scheme, 's) xa_res"
where
  "xa_base_process hk p u s =
     (let s = upd_obj (\<lambda>o'. o'\<lparr>xb_state := xb_state o' AND NOT XA_BASE_FLAG_SCHEDULE\<rparr>) s;
          postprocess = (\<lambda>d s. CODEC_API (h_postprocess hk d) s (\<lambda>s e. Some (s, e))) in
      CODEC_API (h_preprocess hk) s (\<lambda>s e.
        if e \<noteq> XA_NO_ERROR then Some (s, e)
        else if xb_state (xs_obj s) AND XA_BASE_FLAG_RUNTIME_INIT \<noteq> 0 then
          XA_API p XA_API_CMD_INIT XA_CMD_TYPE_INIT_PROCESS PvNull s (\<lambda>s _.
          XA_API p XA_API_CMD_INIT XA_CMD_TYPE_INIT_DONE_QUERY PvOut s (\<lambda>s d.
            postprocess d (if d \<noteq> 0 then
              upd_obj (\<lambda>o'. o'\<lparr>xb_state := xb_state o' XOR (XA_BASE_FLAG_RUNTIME_INIT OR XA_BASE_FLAG_EXECUTION)\<rparr>) s
              else s)))
        else if xb_state (xs_obj s) AND XA_BASE_FLAG_EXECUTION \<noteq> 0 then
          XA_API p XA_API_CMD_EXECUTE XA_CMD_TYPE_DO_EXECUTE PvNull s (\<lambda>s _.
          XA_API p XA_API_CMD_EXECUTE XA_CMD_TYPE_DONE_QUERY PvOut s (\<lambda>s d.
            postprocess d (if d \<noteq> 0 then
              upd_obj (\<lambda>o'. o'\<lparr>xb_state := xb_state o' XOR (XA_BASE_FLAG_EXECUTION OR XA_BASE_FLAG_COMPLETED)\<rparr>) s
              else s)))
        else postprocess u s))"

text \<open>The command table of the derived class and its size are arguments.\<close>

type_synonym ('o, 's) xa_table = "u32 \<Rightarrow> (addr \<Rightarrow> ('o, 's) xa_st \<Rightarrow> ('o, 's) xa_res) option"

definition xa_base_command ::
  "('a XACodecBase_scheme, 's) xa_hooks \<Rightarrow> 's xa_proc \<Rightarrow> u32 \<Rightarrow> ('a XACodecBase_scheme, 's) xa_table \<Rightarrow> u32 \<Rightarrow> addr \<Rightarrow>
     ('a XACodecBase_scheme, 's) xa_st \<Rightarrow> (('a XACodecBase_scheme, 's) xa_st \<times> int) option"
where
  "xa_base_command hk p u command command_num m s =
     (let status = (\<lambda>(s, e). (s, if XA_ERROR_SEVERITY e then - errno EPIPE else 0)) in
      if m = 0 then map_option status (xa_base_process hk p u s)
      else
        let cmd = XF_OPCODE_TYPE (m_opcode (c_msgs (xs_core s) m)) in
        if cmd = XF_OPCODE_TYPE XF_UNREGISTER then Some (s, -1)
        else if \<not> cmd < command_num then Some (s, - errno EINVAL)
        else
          case command cmd of
            None \<Rightarrow> Some (s, - errno EINVAL)
          | Some f \<Rightarrow> map_option status (f m s))"

section \<open>Scheduling, destruction, creation\<close>

definition xa_base_schedule :: "u32 \<Rightarrow> ('a XACodecBase_scheme, 's) xa_st \<Rightarrow> ('a XACodecBase_scheme, 's) xa_st option" where
  "xa_base_schedule dts s =
     (if xb_state (xs_obj s) AND XA_BASE_FLAG_SCHEDULE = 0 then
        map_option (upd_obj (\<lambda>o'. o'\<lparr>xb_state := xb_state o' XOR XA_BASE_FLAG_SCHEDULE\<rparr>))
          (on_core (xf_component_schedule (xs_self s) dts) s)
      else Some s)"

definition xa_base_cancel :: "('a XACodecBase_scheme, 's) xa_st \<Rightarrow> ('a XACodecBase_scheme, 's) xa_st option" where
  "xa_base_cancel s =
     (if xb_state (xs_obj s) AND XA_BASE_FLAG_SCHEDULE \<noteq> 0 then
        map_option (upd_obj (\<lambda>o'. o'\<lparr>xb_state := xb_state o' XOR XA_BASE_FLAG_SCHEDULE\<rparr>))
          (on_core (xf_component_cancel (xs_self s)) s)
      else Some s)"

definition xa_base_destroy :: "u32 \<Rightarrow> u32 \<Rightarrow> ('a XACodecBase_scheme, 's) xa_st \<Rightarrow> ('a XACodecBase_scheme, 's) xa_st option" where
  "xa_base_destroy sz core s =
     Option.bind (on_core (xf_mm_free_buffer (xb_persist (xs_obj s)) core) s) (\<lambda>s.
     Option.bind (on_core (xf_mm_free_buffer (xb_mem_tabs (xs_obj s)) core) s) (\<lambda>s.
     Option.bind (on_core (xf_mm_free_buffer (xb_api (xs_obj s)) core) s) (\<lambda>s.
       on_core (xf_mem_free (xs_self s) sz core 0) s)))"

text \<open>The structure has 24 words: the component with its task (8), the function, three buffers (6), the
  scratch pointer, the state, five methods, the table and its size. A new structure is filled with
  zeroes: \<open>z\<close> is the record of zeroes; the node of its task and its id are kept in the framework state.\<close>

definition sizeof_XACodecBase :: u32 where "sizeof_XACodecBase = 96"

definition xa_base_factory ::
  "'s xa_proc \<Rightarrow> 'a XACodecBase_scheme \<Rightarrow> u32 \<Rightarrow> u32 \<Rightarrow> xf_core \<Rightarrow> 's \<Rightarrow> (('a XACodecBase_scheme, 's) xa_st \<times> addr) option"
where
  "xa_base_factory p z core sz cd w =
     (let s = \<lparr>xs_core = cd, xs_self = 0, xs_obj = z, xs_plug = w\<rparr> in
      if \<not> sz \<ge> sizeof_XACodecBase then Some (s, 0)
      else
        Option.bind (xf_mem_alloc sz 0 core 0 cd) (\<lambda>(cd, base).
          let s = s\<lparr>xs_core := cd, xs_self := base\<rparr> in
          if base = 0 then Some (s, 0)
          else
            let s = upd_core (\<lambda>cd. cd\<lparr>c_mem := (c_mem cd)(base := \<lparr>parent = 0, left = 0, right = 0, color = 0\<rparr>),
                                      c_comp_id := (c_comp_id cd)(base := 0)\<rparr>) s;
                s = upd_obj (\<lambda>o'. o'\<lparr>xb_entry := XA_Command\<rparr>) s
            in Option.bind (xa_base_preinit p core s) (\<lambda>(s, e).
                 if e \<noteq> XA_NO_ERROR then map_option (\<lambda>s. (s, 0)) (xa_base_destroy sz core s)
                 else Some (s, base))))"

end
