(* ===== verification/XF_Timebase.thy ===== *)
theory XF_Timebase
  imports XF_Core
begin

text \<open>
  The timebase of the scheduler (include/xf-timebase.h): the number of ticks of a sample at the
  supported sample rates, and the comparison of time stamps.
\<close>

section \<open>The code\<close>

definition XF_TIMEBASE_FREQ :: u32 where
  "XF_TIMEBASE_FREQ = 56448000"

definition xf_timebase_factor :: "u32 \<Rightarrow> u32" where
  "xf_timebase_factor sample_rate =
     (if sample_rate = 4000 then XF_TIMEBASE_FREQ div 4000
      else if sample_rate = 8000 then XF_TIMEBASE_FREQ div 8000
      else if sample_rate = 11025 then XF_TIMEBASE_FREQ div 11025
      else if sample_rate = 12000 then XF_TIMEBASE_FREQ div 11025
      else if sample_rate = 16000 then XF_TIMEBASE_FREQ div 16000
      else if sample_rate = 22050 then XF_TIMEBASE_FREQ div 22050
      else if sample_rate = 24000 then XF_TIMEBASE_FREQ div 24000
      else if sample_rate = 32000 then XF_TIMEBASE_FREQ div 32000
      else if sample_rate = 44100 then XF_TIMEBASE_FREQ div 44100
      else if sample_rate = 48000 then XF_TIMEBASE_FREQ div 48000
      else if sample_rate = 64000 then XF_TIMEBASE_FREQ div 64000
      else if sample_rate = 88200 then XF_TIMEBASE_FREQ div 88200
      else if sample_rate = 96000 then XF_TIMEBASE_FREQ div 96000
      else if sample_rate = 128000 then XF_TIMEBASE_FREQ div 128000
      else if sample_rate = 176400 then XF_TIMEBASE_FREQ div 176400
      else if sample_rate = 192000 then XF_TIMEBASE_FREQ div 192000
      else 0)"

definition xf_core_timebase :: "u32 \<Rightarrow> xf_core \<Rightarrow> u32 option" where
  "xf_core_timebase core cd = xf_on_core core (Some (xf_sched_timestamp (c_sched cd) (c_mem cd)))"

definition xf_time_after :: "u32 \<Rightarrow> u32 \<Rightarrow> bool" where
  "xf_time_after a b \<longleftrightarrow> 0 <s a - b"

definition xf_time_before :: "u32 \<Rightarrow> u32 \<Rightarrow> bool" where
  "xf_time_before a b \<longleftrightarrow> a - b <s 0"

section \<open>Sample rates\<close>

text \<open>The sample rates the header lists as supported.\<close>

definition sample_rates :: "u32 list" where
  "sample_rates = [4000, 8000, 11025, 12000, 16000, 22050, 24000, 32000, 44100, 48000, 64000, 88200,
     96000, 128000, 176400, 192000]"

text \<open>C26: The factor of every supported sample rate except 12000 is exact: that many ticks per sample make
  one second of the timebase, without remainder or overflow. At 12000 the code returns the factor of
  11025, and a rate that is not supported has factor 0.\<close>

theorem timebase_factor_exact:
  "(r \<in> set sample_rates \<longrightarrow> r \<noteq> 12000 \<longrightarrow> unat (xf_timebase_factor r) * unat r = unat XF_TIMEBASE_FREQ) \<and>
   xf_timebase_factor 12000 = xf_timebase_factor 11025 \<and>
   unat (xf_timebase_factor 12000) * 12000 \<noteq> unat XF_TIMEBASE_FREQ \<and>
   (r \<notin> set sample_rates \<longrightarrow> xf_timebase_factor r = 0)"
proof -
  have "\<forall>r\<in>set sample_rates. r \<noteq> 12000 \<longrightarrow> unat (xf_timebase_factor r) * unat r = unat XF_TIMEBASE_FREQ"
    by (simp add: sample_rates_def xf_timebase_factor_def XF_TIMEBASE_FREQ_def)
  moreover have "r \<notin> set sample_rates \<Longrightarrow> xf_timebase_factor r = 0"
    by (simp add: xf_timebase_factor_def sample_rates_def)
  ultimately show ?thesis by (simp add: xf_timebase_factor_def XF_TIMEBASE_FREQ_def)
qed

text \<open>The factor at 48000 Hz, and at a rate that is not in the list.\<close>

lemma timebase_factor_exact_witness:
  "unat (xf_timebase_factor 48000) * 48000 = unat XF_TIMEBASE_FREQ \<and> xf_timebase_factor 5512 = 0"
  using timebase_factor_exact [of 48000] timebase_factor_exact [of 5512] by (simp add: sample_rates_def)

end
