(* ===== verification/XA_Codec.thy ===== *)
theory XA_Codec
  imports XA_Base XF_Timebase
begin

text \<open>
  The audio codec component (audio/xa-class-audio-codec.c): one input and one output port around a
  codec plugin, with its commands, the buffer handling before and after a processing step, and its
  creation and destruction. A division by the sample size zero has no result.
\<close>

section \<open>The structure\<close>

record XAAudioCodec = XACodecBase +
  xc_input :: xf_input_port
  xc_output :: xf_output_port
  xc_in_idx :: u32
  xc_out_idx :: u32
  xc_sample_size :: u32
  xc_factor :: u32
  xc_produced :: u32

definition XA_CODEC_FLAG_INPUT_SETUP :: u32 where
  "XA_CODEC_FLAG_INPUT_SETUP = XA_BASE_FLAG (push_bit 0 1)"
definition XA_CODEC_FLAG_OUTPUT_SETUP :: u32 where
  "XA_CODEC_FLAG_OUTPUT_SETUP = XA_BASE_FLAG (push_bit 1 1)"

definition XA_CODEC_CONFIG_PARAM_CHANNELS :: u32 where "XA_CODEC_CONFIG_PARAM_CHANNELS = 0x10000 + 0"
definition XA_CODEC_CONFIG_PARAM_SAMPLE_RATE :: u32 where "XA_CODEC_CONFIG_PARAM_SAMPLE_RATE = 0x10000 + 1"
definition XA_CODEC_CONFIG_PARAM_PCM_WIDTH :: u32 where "XA_CODEC_CONFIG_PARAM_PCM_WIDTH = 0x10000 + 2"
definition XA_CODEC_CONFIG_PARAM_PRODUCED :: u32 where "XA_CODEC_CONFIG_PARAM_PRODUCED = 0x10000 + 3"

definition XA_CODEC_EXEC_NO_DATA :: u32 where
  "XA_CODEC_EXEC_NO_DATA = XA_ERROR_CODE xa_severity_nonfatal xa_class_execute XA_CODEC_GENERIC 0"

type_synonym 's codec_st = "(XAAudioCodec, 's) xa_st"
type_synonym 's codec_res = "(XAAudioCodec, 's) xa_res"

text \<open>A port operation gives back the framework state and the port.\<close>

definition put_in :: "xf_core \<Rightarrow> xf_input_port \<Rightarrow> 's codec_st \<Rightarrow> 's codec_st" where
  "put_in cd port s = s\<lparr>xs_core := cd, xs_obj := (xs_obj s)\<lparr>xc_input := port\<rparr>\<rparr>"

definition put_out :: "xf_core \<Rightarrow> xf_output_port \<Rightarrow> 's codec_st \<Rightarrow> 's codec_st" where
  "put_out cd port s = s\<lparr>xs_core := cd, xs_obj := (xs_obj s)\<lparr>xc_output := port\<rparr>\<rparr>"

section \<open>Runtime preparation\<close>

text \<open>The start message lies in the buffer of the first output message: sample rate, channels, sample
  width, input and output length at offsets 0, 4, 8, 12, 16. The BUG checks are compiled out.\<close>

definition xa_codec_prepare_runtime :: "'s xa_proc \<Rightarrow> 's codec_st \<Rightarrow> 's codec_res" where
  "xa_codec_prepare_runtime p s =
     (let m = xf_msg_queue_head (op_queue (xc_output (xs_obj s)));
          msg = m_buffer (c_msgs (xs_core s) m);
          rd = (\<lambda>s i. mem_read32 (c_data (xs_core s)) (msg + i)) in
      if m = 0 then None
      else
        XA_API p XA_API_CMD_GET_CONFIG_PARAM XA_CODEC_CONFIG_PARAM_SAMPLE_RATE (PvPtr msg) s (\<lambda>s _.
        XA_API p XA_API_CMD_GET_CONFIG_PARAM XA_CODEC_CONFIG_PARAM_CHANNELS (PvPtr (msg + 4)) s (\<lambda>s _.
        XA_API p XA_API_CMD_GET_CONFIG_PARAM XA_CODEC_CONFIG_PARAM_PCM_WIDTH (PvPtr (msg + 8)) s (\<lambda>s _.
        XA_API p XA_API_CMD_GET_MEM_INFO_SIZE (xc_in_idx (xs_obj s)) (PvPtr (msg + 12)) s (\<lambda>s _.
        XA_API p XA_API_CMD_GET_MEM_INFO_SIZE (xc_out_idx (xs_obj s)) (PvPtr (msg + 16)) s (\<lambda>s _.
          let sample_size = rd s 4 * (if rd s 8 = 16 then 2 else 4);
              s = upd_obj (\<lambda>c. c\<lparr>xc_sample_size := sample_size\<rparr>) s in
          if sample_size = 0 then None
          else
            let frame_size = rd s 16 div sample_size in
            XF_CHK (frame_size * sample_size = rd s 16) XA_API_FATAL_INVALID_CMD_TYPE s (\<lambda>s.
            let factor = xf_timebase_factor (rd s 0) in
            XF_CHK (factor \<noteq> 0) XA_API_FATAL_INVALID_CMD_TYPE s (\<lambda>s.
            let s = upd_obj (\<lambda>c. c\<lparr>xc_factor := factor div sample_size\<rparr>) s in
            Option.bind (xf_output_port_produce (xc_output (xs_obj s)) 20 (xs_core s)) (\<lambda>(cd, port, _).
              xa_ok (put_out cd port s))))))))))"

section \<open>Commands\<close>

definition xa_codec_empty_this_buffer :: "'s xa_proc \<Rightarrow> addr \<Rightarrow> 's codec_st \<Rightarrow> 's codec_res" where
  "xa_codec_empty_this_buffer p m s =
     XF_CHK (XF_MSG_DST_PORT (m_id (c_msgs (xs_core s) m)) = 0) XA_API_FATAL_INVALID_CMD s (\<lambda>s.
     XF_CHK (xb_state (xs_obj s) AND XA_BASE_FLAG_POSTINIT \<noteq> 0) XA_API_FATAL_INVALID_CMD s (\<lambda>s.
     Option.bind (xf_input_port_put (xc_input (xs_obj s)) m (xs_core s)) (\<lambda>(cd, port, first).
       let s = put_in cd port s;
           schedule = (\<lambda>s.
             XF_CHK (xb_state (xs_obj s) AND (XA_BASE_FLAG_RUNTIME_INIT OR XA_BASE_FLAG_EXECUTION) \<noteq> 0)
               XA_API_FATAL_INVALID_CMD s (\<lambda>s.
             if xf_output_port_ready (xc_output (xs_obj s)) then Option.bind (xa_base_schedule 0 s) xa_ok else xa_ok s)) in
       if first then
         (if xb_state (xs_obj s) AND XA_BASE_FLAG_COMPLETED \<noteq> 0 then
            let s = set_state (\<lambda>_. XA_BASE_FLAG_POSTINIT OR XA_BASE_FLAG_EXECUTION) s in
            XA_API p XA_API_CMD_EXECUTE XA_CMD_TYPE_DO_RUNTIME_INIT PvNull s (\<lambda>s _.
              schedule (upd_obj (\<lambda>c. c\<lparr>xc_produced := 0\<rparr>) s))
          else schedule s)
       else xa_ok s)))"

definition xa_codec_fill_this_buffer :: "u32 \<Rightarrow> addr \<Rightarrow> 's codec_st \<Rightarrow> 's codec_res" where
  "xa_codec_fill_this_buffer al m s =
     XF_CHK (XF_MSG_DST_PORT (m_id (c_msgs (xs_core s) m)) = 1) XA_API_FATAL_INVALID_CMD s (\<lambda>s.
     XF_CHK (xb_state (xs_obj s) AND XA_BASE_FLAG_POSTINIT \<noteq> 0) XA_API_FATAL_INVALID_CMD s (\<lambda>s.
     let put = (\<lambda>s.
           let (cd, port, first) = xf_output_port_put (xc_output (xs_obj s)) m (xs_core s);
               s = put_out cd port s in
           if first \<and> xf_input_port_ready (xc_input (xs_obj s)) \<and>
              xb_state (xs_obj s) AND (XA_BASE_FLAG_RUNTIME_INIT OR XA_BASE_FLAG_EXECUTION) \<noteq> 0
           then Option.bind (xa_base_schedule 0 s) xa_ok else xa_ok s) in
     if xb_state (xs_obj s) AND XA_BASE_FLAG_RUNTIME_INIT \<noteq> 0 then put s
     else if m = xf_output_port_control_msg al (xc_output (xs_obj s)) then
       let s = upd_obj (\<lambda>c. c\<lparr>xc_output := xf_output_port_flush_done (xc_output c)\<rparr>) s in
       Option.bind (xf_input_port_purge (xc_input (xs_obj s)) (xs_core s)) (\<lambda>(cd, port). xa_ok (put_in cd port s))
     else if xb_state (xs_obj s) AND XA_BASE_FLAG_COMPLETED \<noteq> 0 \<and> \<not> xf_output_port_routed (xc_output (xs_obj s)) then
       Option.bind (on_core (xf_response_ok m) s) xa_ok
     else
       put (upd_core (msg_upd m (\<lambda>x. x\<lparr>m_length := op_length (xc_output (xs_obj s))\<rparr>)) s)))"

definition xa_codec_port_route :: "u32 \<Rightarrow> addr \<Rightarrow> 's codec_st \<Rightarrow> 's codec_res" where
  "xa_codec_port_route al m s =
     (let cmd = m_buffer (c_msgs (xs_core s) m);
          rd = (\<lambda>i. mem_read32 (c_data (xs_core s)) (cmd + i));
          src = XF_MSG_DST (m_id (c_msgs (xs_core s) m));
          dst = rd 4 in
      XF_CHK (xb_state (xs_obj s) AND XA_BASE_FLAG_POSTINIT \<noteq> 0) XA_API_FATAL_INVALID_CMD s (\<lambda>s.
      XF_CHK (XF_MSG_DST_PORT (m_id (c_msgs (xs_core s) m)) = 1) XA_API_FATAL_INVALID_CMD_TYPE s (\<lambda>s.
      XF_CHK (\<not> xf_output_port_routed (xc_output (xs_obj s))) XA_API_FATAL_INVALID_CMD_TYPE s (\<lambda>s.
      Option.bind (xf_output_port_route al (xc_output (xs_obj s)) (XF_MSG_ID dst src) (rd 8) (rd 12) (rd 16) (xs_core s))
        (\<lambda>(cd, port, r).
          let s = put_out cd port s in
          case r of
            Inl _ \<Rightarrow> Some (s, XA_API_FATAL_MEM_ALLOC)
          | Inr _ \<Rightarrow>
              Option.bind (xa_base_schedule 0 s) (\<lambda>s.
              Option.bind (on_core (xf_response_ok m) s) xa_ok))))))"

definition xa_codec_port_unroute :: "u32 \<Rightarrow> addr \<Rightarrow> 's codec_st \<Rightarrow> 's codec_res" where
  "xa_codec_port_unroute al m s =
     XF_CHK (xb_state (xs_obj s) AND XA_BASE_FLAG_POSTINIT \<noteq> 0) XA_API_FATAL_INVALID_CMD s (\<lambda>s.
     XF_CHK (XF_MSG_DST_PORT (m_id (c_msgs (xs_core s) m)) = 1) XA_API_FATAL_INVALID_CMD_TYPE s (\<lambda>s.
     Option.bind (xa_base_cancel s) (\<lambda>s.
     let s = set_state (\<lambda>f. f AND NOT XA_CODEC_FLAG_OUTPUT_SETUP) s in
     Option.bind (xf_output_port_flush al (xc_output (xs_obj s)) XF_FLUSH (xs_core s)) (\<lambda>(cd, port, idle).
       let s = put_out cd port s in
       if idle then
         Option.bind (xf_output_port_unroute al (xc_output (xs_obj s)) (xs_core s)) (\<lambda>(cd, port).
         Option.bind (on_core (xf_response_ok m) (put_out cd port s)) xa_ok)
       else xa_ok (upd_obj (\<lambda>c. c\<lparr>xc_output := xf_output_port_unroute_start (xc_output c) m\<rparr>) s)))))"

definition xa_codec_flush :: "u32 \<Rightarrow> 's xa_proc \<Rightarrow> addr \<Rightarrow> 's codec_st \<Rightarrow> 's codec_res" where
  "xa_codec_flush al p m s =
     XF_CHK (xb_state (xs_obj s) AND XA_BASE_FLAG_POSTINIT \<noteq> 0) XA_API_FATAL_INVALID_CMD s (\<lambda>s.
     XF_CHK (m_length (c_msgs (xs_core s) m) = 0) XA_API_FATAL_INVALID_CMD_TYPE s (\<lambda>s.
     if XF_MSG_DST_PORT (m_id (c_msgs (xs_core s) m)) = 0 then
       Option.bind (xa_base_cancel s) (\<lambda>s.
       Option.bind (xf_input_port_purge (xc_input (xs_obj s)) (xs_core s)) (\<lambda>(cd, port).
       let s = set_state (\<lambda>f. f AND NOT XA_CODEC_FLAG_INPUT_SETUP) (put_in cd port s) in
       XA_API p XA_API_CMD_EXECUTE XA_CMD_TYPE_DO_RUNTIME_INIT PvNull s (\<lambda>s _.
       let s = upd_obj (\<lambda>c. c\<lparr>xc_produced := 0\<rparr>) s in
       Option.bind (xf_output_port_flush al (xc_output (xs_obj s)) XF_FLUSH (xs_core s)) (\<lambda>(cd, port, idle).
         let s = put_out cd port s in
         if idle then Option.bind (on_core (xf_response m) s) xa_ok
         else
           let (cd, port) = xf_input_port_control_save (xc_input (xs_obj s)) m (xs_core s)
           in xa_ok (put_in cd port s)))))
     else if xf_output_port_unrouting (xc_output (xs_obj s)) then
       Option.bind (xf_output_port_unroute_done al (xc_output (xs_obj s)) (xs_core s)) (\<lambda>(cd, port). xa_ok (put_out cd port s))
     else
       Option.bind
         (if \<not> xf_output_port_routed (xc_output (xs_obj s)) then
            Option.bind (xf_output_port_flush al (xc_output (xs_obj s)) XF_FLUSH (xs_core s)) (\<lambda>(cd, port, _).
              on_core (xf_response m) (put_out cd port s))
          else
            let s = upd_obj (\<lambda>c. c\<lparr>xc_output := xf_output_port_flush_done (xc_output c)\<rparr>) s in
            Option.bind (xf_input_port_purge_done (xc_input (xs_obj s)) (xs_core s)) (\<lambda>(cd, port). Some (put_in cd port s)))
         (\<lambda>s. xa_ok (set_state (\<lambda>f. f AND NOT XA_CODEC_FLAG_OUTPUT_SETUP) s))))"

section \<open>Methods of the base class\<close>

definition xa_codec_memtab ::
  "'s xa_proc \<Rightarrow> u32 \<Rightarrow> u32 \<Rightarrow> u32 \<Rightarrow> u32 \<Rightarrow> u32 \<Rightarrow> 's codec_st \<Rightarrow> 's codec_res"
where
  "xa_codec_memtab p idx type sz align core s =
     (if type = XA_MEMTYPE_INPUT then
        Option.bind (xf_input_port_init (xc_input (xs_obj s)) sz align core (xs_core s)) (\<lambda>(cd, port, r).
          let s = put_in cd port s in
          case r of
            Inl _ \<Rightarrow> Some (s, XA_API_FATAL_MEM_ALLOC)
          | Inr _ \<Rightarrow>
              let s = upd_obj (\<lambda>c. c\<lparr>xc_in_idx := idx\<rparr>) s in
              if sz \<noteq> 0 then
                XA_API p XA_API_CMD_SET_MEM_PTR idx (PvPtr (ip_buffer (xc_input (xs_obj s)))) s (\<lambda>s _. xa_ok s)
              else xa_ok s)
      else
        XF_CHK (type = XA_MEMTYPE_OUTPUT) XA_API_FATAL_INVALID_CMD_TYPE s (\<lambda>s.
          let s = upd_obj (\<lambda>c. c\<lparr>xc_output := xf_output_port_init (xc_output c) sz\<rparr>) s
          in xa_ok (upd_obj (\<lambda>c. c\<lparr>xc_out_idx := idx\<rparr>) s)))"

definition codec_prepare_input :: "'s xa_proc \<Rightarrow> 's codec_st \<Rightarrow> 's codec_res" where
  "codec_prepare_input p s =
     (let finish = (\<lambda>s filled.
            let send = (\<lambda>s. XA_API p XA_API_CMD_SET_INPUT_BYTES (xc_in_idx (xs_obj s)) (PvVal filled) s (\<lambda>s _.
                              xa_ok (set_state (\<lambda>f. f XOR XA_CODEC_FLAG_INPUT_SETUP) s))) in
            if xf_input_port_done (xc_input (xs_obj s)) then
              XA_API p XA_API_CMD_INPUT_OVER (xc_in_idx (xs_obj s)) PvNull s (\<lambda>s _. send s)
            else send s);
          port = xc_input (xs_obj s) in
      if xf_input_port_bypass port then
        (if xf_input_port_data port \<noteq> 0 then
           XA_API p XA_API_CMD_SET_MEM_PTR (xc_in_idx (xs_obj s)) (PvPtr (xf_input_port_data port)) s (\<lambda>s _.
             finish s (xf_input_port_length (xc_input (xs_obj s))))
         else if \<not> xf_input_port_done port then Some (s, XA_CODEC_EXEC_NO_DATA)
         else finish s 0)
      else if xf_input_port_done port then finish s (xf_input_port_level port)
      else
        Option.bind (xf_input_port_fill port (xs_core s)) (\<lambda>(cd, port, full).
          let s = put_in cd port s in
          if full then finish s (xf_input_port_level port) else Some (s, XA_CODEC_EXEC_NO_DATA)))"

definition xa_codec_preprocess :: "'s xa_proc \<Rightarrow> 's codec_st \<Rightarrow> 's codec_res" where
  "xa_codec_preprocess p s =
     (let prepare_input = (\<lambda>s.
            if xb_state (xs_obj s) AND XA_CODEC_FLAG_INPUT_SETUP = 0 then codec_prepare_input p s else xa_ok s);
          set_output = (\<lambda>output.
            XA_API p XA_API_CMD_SET_MEM_PTR (xc_out_idx (xs_obj s)) (PvPtr output) s (\<lambda>s _.
              prepare_input (set_state (\<lambda>f. f XOR XA_CODEC_FLAG_OUTPUT_SETUP) s))) in
      if xb_state (xs_obj s) AND XA_CODEC_FLAG_OUTPUT_SETUP = 0 then
        (if xb_state (xs_obj s) AND XA_BASE_FLAG_RUNTIME_INIT \<noteq> 0 then set_output (xb_scratch (xs_obj s))
         else
           let output = xf_output_port_data (xc_output (xs_obj s)) (xs_core s) in
           if output = 0 then Some (s, XA_CODEC_EXEC_NO_DATA) else set_output output)
      else prepare_input s)"

text \<open>What postprocessing does with the bytes consumed and produced, and the stage transition.\<close>

definition codec_consume :: "u32 \<Rightarrow> 's codec_st \<Rightarrow> 's codec_st option" where
  "codec_consume consumed s =
     (if consumed \<noteq> 0 then
        Option.bind (xf_input_port_consume (xc_input (xs_obj s)) consumed (xs_core s)) (\<lambda>(cd, port).
          Some (set_state (\<lambda>f. f XOR XA_CODEC_FLAG_INPUT_SETUP) (put_in cd port s)))
      else Some s)"

definition codec_produce :: "u32 \<Rightarrow> 's codec_st \<Rightarrow> 's codec_st option" where
  "codec_produce produced s =
     (if produced \<noteq> 0 then
        let s = upd_obj (\<lambda>c. c\<lparr>xc_produced := xc_produced c + produced div xc_sample_size c\<rparr>) s in
        Option.bind (xf_output_port_produce (xc_output (xs_obj s)) produced (xs_core s)) (\<lambda>(cd, port, _).
          Some (set_state (\<lambda>f. f XOR XA_CODEC_FLAG_OUTPUT_SETUP) (put_out cd port s)))
      else Some s)"

definition codec_transition :: "u32 \<Rightarrow> 's xa_proc \<Rightarrow> 's codec_st \<Rightarrow> 's codec_res" where
  "codec_transition al p s =
     (if xb_state (xs_obj s) AND XA_BASE_FLAG_RUNTIME_INIT \<noteq> 0 then xa_ok s
      else if xb_state (xs_obj s) AND XA_BASE_FLAG_EXECUTION \<noteq> 0 then
        XA_CHK (xa_codec_prepare_runtime p s) (\<lambda>s _.
          xa_ok (set_state (\<lambda>f. f AND NOT (XA_CODEC_FLAG_INPUT_SETUP OR XA_CODEC_FLAG_OUTPUT_SETUP)) s))
      else
        Option.bind (xf_output_port_flush al (xc_output (xs_obj s)) XF_FILL_THIS_BUFFER (xs_core s)) (\<lambda>(cd, port, idle).
          let s = put_out cd port s in
          if idle then
            Option.bind (xf_input_port_purge (xc_input (xs_obj s)) (xs_core s)) (\<lambda>(cd, port). xa_ok (put_in cd port s))
          else xa_ok s))"

definition xa_codec_postprocess :: "u32 \<Rightarrow> 's xa_proc \<Rightarrow> u32 \<Rightarrow> 's codec_st \<Rightarrow> 's codec_res" where
  "xa_codec_postprocess al p d s =
     (let maintain = (\<lambda>consumed produced s.
            Option.bind (codec_consume consumed s) (\<lambda>s.
            Option.bind (codec_produce produced s) (\<lambda>s.
              if d \<noteq> 0 then codec_transition al p s
              else if xf_input_port_ready (xc_input (xs_obj s)) \<and> xf_output_port_ready (xc_output (xs_obj s)) then
                Option.bind (xa_base_schedule (produced * xc_factor (xs_obj s)) s) xa_ok
              else xa_ok s))) in
      XA_API p XA_API_CMD_GET_CURIDX_INPUT_BUF (xc_in_idx (xs_obj s)) PvOut s (\<lambda>s consumed.
        if xc_sample_size (xs_obj s) \<noteq> 0 then
          XA_API p XA_API_CMD_GET_OUTPUT_BYTES (xc_out_idx (xs_obj s)) PvOut s (\<lambda>s produced. maintain consumed produced s)
        else maintain consumed 0 s))"

definition xa_codec_getparam :: "'s xa_proc \<Rightarrow> u32 \<Rightarrow> addr \<Rightarrow> 's codec_st \<Rightarrow> 's codec_res" where
  "xa_codec_getparam p param a s =
     (if param = XA_CODEC_CONFIG_PARAM_PRODUCED then
        xa_ok (upd_core (\<lambda>cd. cd\<lparr>c_data := mem_write32 (c_data cd) a (xc_produced (xs_obj s))\<rparr>) s)
      else (let (s, _, e) = xa_call p XA_API_CMD_GET_CONFIG_PARAM param (PvPtr a) s in Some (s, e)))"

definition xa_codec_hooks :: "u32 \<Rightarrow> 's xa_proc \<Rightarrow> (XAAudioCodec, 's) xa_hooks" where
  "xa_codec_hooks al p =
     \<lparr>h_memtab = xa_codec_memtab p, h_preprocess = xa_codec_preprocess p, h_postprocess = xa_codec_postprocess al p,
      h_setparam = None, h_getparam = Some (xa_codec_getparam p)\<rparr>"

section \<open>Entry point, termination, creation\<close>

definition xa_codec_cmd :: "u32 \<Rightarrow> 's xa_proc \<Rightarrow> (XAAudioCodec, 's) xa_table" where
  "xa_codec_cmd al p t =
     (if t = XF_OPCODE_TYPE XF_SET_PARAM then Some (xa_base_set_param (xa_codec_hooks al p) p)
      else if t = XF_OPCODE_TYPE XF_GET_PARAM then Some (xa_base_get_param (xa_codec_hooks al p) p)
      else if t = XF_OPCODE_TYPE XF_ROUTE then Some (xa_codec_port_route al)
      else if t = XF_OPCODE_TYPE XF_UNROUTE then Some (xa_codec_port_unroute al)
      else if t = XF_OPCODE_TYPE XF_EMPTY_THIS_BUFFER then Some (xa_codec_empty_this_buffer p)
      else if t = XF_OPCODE_TYPE XF_FILL_THIS_BUFFER then Some (xa_codec_fill_this_buffer al)
      else if t = XF_OPCODE_TYPE XF_FLUSH then Some (xa_codec_flush al p)
      else if t = XF_OPCODE_TYPE XF_SET_PARAM_EXT then Some (xa_base_set_param_ext p)
      else if t = XF_OPCODE_TYPE XF_GET_PARAM_EXT then Some (xa_base_get_param_ext p)
      else None)"

definition XA_CODEC_CMD_NUM :: u32 where "XA_CODEC_CMD_NUM = 17"

definition xa_audio_codec_terminate :: "u32 \<Rightarrow> addr \<Rightarrow> 's codec_st \<Rightarrow> ('s codec_st \<times> int) option" where
  "xa_audio_codec_terminate al m s =
     (let opcode = m_opcode (c_msgs (xs_core s) m) in
      if m = xf_output_port_control_msg al (xc_output (xs_obj s)) then
        Some (upd_obj (\<lambda>c. c\<lparr>xc_output := xf_output_port_flush_done (xc_output c)\<rparr>) s, -1)
      else if opcode = XF_FILL_THIS_BUFFER then Some (s, 0)
      else if opcode = XF_UNREGISTER then Some (s, 0)
      else map_option (\<lambda>s. (s, 0)) (on_core (xf_response_err m) s))"

text \<open>The structure has 45 words: the base class (24), the two ports (8 each) and five words.\<close>

definition sizeof_XAAudioCodec :: u32 where "sizeof_XAAudioCodec = 180"

definition xa_audio_codec_destroy :: "u32 \<Rightarrow> 's codec_st \<Rightarrow> ('s codec_st \<times> int) option" where
  "xa_audio_codec_destroy al s =
     (let core = xf_component_core (xs_core s) (xs_self s) in
      Option.bind (xf_input_port_destroy (xc_input (xs_obj s)) core (xs_core s)) (\<lambda>(cd, port).
      let s = put_in cd port s in
      Option.bind (xf_output_port_destroy al (xc_output (xs_obj s)) core (xs_core s)) (\<lambda>(cd, port).
      let s = put_out cd port s in
      map_option (\<lambda>s. (s, 0)) (xa_base_destroy (XF_MM sizeof_XAAudioCodec) core s))))"

definition xa_audio_codec_cleanup :: "u32 \<Rightarrow> addr \<Rightarrow> 's codec_st \<Rightarrow> ('s codec_st \<times> int) option" where
  "xa_audio_codec_cleanup al m s =
     Option.bind (on_core (xf_response_err m) s) (\<lambda>s.
     Option.bind (xa_base_cancel s) (\<lambda>s.
     Option.bind (xf_input_port_purge (xc_input (xs_obj s)) (xs_core s)) (\<lambda>(cd, port).
     let s = put_in cd port s in
     Option.bind (xf_output_port_flush al (xc_output (xs_obj s)) XF_FLUSH (xs_core s)) (\<lambda>(cd, port, idle).
       let s = put_out cd port s in
       if idle then xa_audio_codec_destroy al s
       else Some (upd_obj (\<lambda>c. c\<lparr>xb_entry := XA_Terminate, xb_exit := XA_Destroy\<rparr>) s, 1)))))"

text \<open>The calls through the entry and exit pointers of the component.\<close>

definition xa_codec_entry :: "u32 \<Rightarrow> 's xa_proc \<Rightarrow> u32 \<Rightarrow> addr \<Rightarrow> 's codec_st \<Rightarrow> ('s codec_st \<times> int) option" where
  "xa_codec_entry al p u m s =
     (case xb_entry (xs_obj s) of
        XA_Command \<Rightarrow> xa_base_command (xa_codec_hooks al p) p u (xa_codec_cmd al p) XA_CODEC_CMD_NUM m s
      | XA_Terminate \<Rightarrow> xa_audio_codec_terminate al m s)"

definition xa_codec_exit :: "u32 \<Rightarrow> addr \<Rightarrow> 's codec_st \<Rightarrow> ('s codec_st \<times> int) option" where
  "xa_codec_exit al m s =
     (case xb_exit (xs_obj s) of
        XA_NoExit \<Rightarrow> None
      | XA_Cleanup \<Rightarrow> xa_audio_codec_cleanup al m s
      | XA_Destroy \<Rightarrow> xa_audio_codec_destroy al s)"

text \<open>The structure filled with zeroes.\<close>

definition codec_zero :: XAAudioCodec where
  "codec_zero =
     \<lparr>xb_entry = XA_Command, xb_exit = XA_NoExit, xb_api = \<lparr>mb_addr = 0, mb_size = 0\<rparr>,
      xb_mem_tabs = \<lparr>mb_addr = 0, mb_size = 0\<rparr>, xb_persist = \<lparr>mb_addr = 0, mb_size = 0\<rparr>, xb_scratch = 0, xb_state = 0,
      xc_input = \<lparr>ip_queue = \<lparr>q_head = 0, q_tail = 0\<rparr>, ip_buffer = 0, ip_length = 0, ip_filled = 0, ip_access = 0,
                  ip_remaining = 0, ip_flags = 0\<rparr>,
      xc_output = \<lparr>op_queue = \<lparr>q_head = 0, q_tail = 0\<rparr>, op_pool = \<lparr>pl_p = 0, pl_head = 0, pl_n = 0\<rparr>, op_unroute = 0,
                   op_length = 0, op_flags = 0\<rparr>,
      xc_in_idx = 0, xc_out_idx = 0, xc_sample_size = 0, xc_factor = 0, xc_produced = 0\<rparr>"

definition xa_audio_codec_factory :: "'s xa_proc \<Rightarrow> u32 \<Rightarrow> xf_core \<Rightarrow> 's \<Rightarrow> ('s codec_st \<times> addr) option" where
  "xa_audio_codec_factory p core cd w =
     Option.bind (xa_base_factory p codec_zero core (XF_MM sizeof_XAAudioCodec) cd w) (\<lambda>(s, base).
       if base = 0 then Some (s, 0) else Some (upd_obj (\<lambda>c. c\<lparr>xb_exit := XA_Cleanup\<rparr>) s, base))"

end
