(* ===== verification/XA_Frame.thy ===== *)
theory XA_Frame
  imports XA_Codec XF_Service
begin

text \<open>
  What the operations a component uses may change of the framework: the memory, the messages and the
  queues, and nothing else. The lemmas hold for any argument, also outside the invariants of the
  allocator, the scheduler and the ports.
\<close>

section \<open>The frame of a component\<close>

definition comp_frame :: "xf_core \<Rightarrow> xf_core \<Rightarrow> bool" where
  "comp_frame cd cd' \<longleftrightarrow>
     cd' = cd\<lparr>c_mem := c_mem cd', c_msgs := c_msgs cd', c_data := c_data cd', ro_pool := ro_pool cd', rw_local := rw_local cd',
              rw_remote := rw_remote cd', c_queue := c_queue cd', c_response := c_response cd', sh_notified := sh_notified cd'\<rparr>"

lemma comp_frame_refl [simp]: "comp_frame cd cd"
  by (simp add: comp_frame_def)

lemma comp_frame_trans: "comp_frame cd cd' \<Longrightarrow> comp_frame cd' cd'' \<Longrightarrow> comp_frame cd cd''"
  by (cases cd; cases cd'; cases cd'') (simp add: comp_frame_def)

lemma comp_frame_ipc: "ipc_frame cd cd' \<Longrightarrow> comp_frame cd cd'"
  by (cases cd; cases cd') (simp add: comp_frame_def ipc_frame_def)

lemma comp_frame_fields:
  assumes "comp_frame cd cd'"
  shows "c_comp_id cd' = c_comp_id cd" and "c_cmap cd' = c_cmap cd" and "c_free cd' = c_free cd"
    and "c_scratch cd' = c_scratch cd" and "c_sched cd' = c_sched cd" and "c_local_pool cd' = c_local_pool cd"
  using assms by (cases cd; cases cd'; simp add: comp_frame_def)+

lemma comp_frame_upds [simp]:
  "comp_frame cd (c\<lparr>c_msgs := ms\<rparr>) = comp_frame cd c" "comp_frame cd (c\<lparr>c_mem := h\<rparr>) = comp_frame cd c"
  "comp_frame cd (c\<lparr>c_data := d\<rparr>) = comp_frame cd c" "comp_frame cd (msg_upd m f c) = comp_frame cd c"
  "comp_frame (cd\<lparr>c_msgs := ms\<rparr>) c = comp_frame cd c" "comp_frame (cd\<lparr>c_mem := h\<rparr>) c = comp_frame cd c"
  "comp_frame (cd\<lparr>c_data := d\<rparr>) c = comp_frame cd c" "comp_frame (msg_upd m f cd) c = comp_frame cd c"
  by (cases cd; cases c; simp add: comp_frame_def msg_upd_def)+

section \<open>Messages, memory, scheduler\<close>

lemma response_comp_frame:
  "xf_response m cd = Some cd' \<Longrightarrow> comp_frame cd cd'"
  "xf_response_ok m cd = Some cd' \<Longrightarrow> comp_frame cd cd'"
  "xf_response_err m cd = Some cd' \<Longrightarrow> comp_frame cd cd'"
  "xf_response_data m n cd = Some cd' \<Longrightarrow> comp_frame cd cd'"
  unfolding xf_response_def xf_response_ok_def xf_response_err_def xf_response_data_def
  by (auto dest!: xf_msg_complete_frame comp_frame_ipc)

lemma mem_comp_frame:
  "xf_mem_alloc sz align core sh cd = Some (cd', a) \<Longrightarrow> comp_frame cd cd'"
  "xf_mem_free a sz core sh cd = Some cd' \<Longrightarrow> comp_frame cd cd'"
  "xf_mm_free_buffer b core cd = Some cd' \<Longrightarrow> comp_frame cd cd'"
  "xf_mm_alloc_buffer sz align core b cd = Some (cd', b', r) \<Longrightarrow> comp_frame cd cd'"
proof -
  have *: "xf_mem_alloc sz align core sh cd = Some (cd', a) \<Longrightarrow> comp_frame cd cd'" for sz align sh a
    by (auto simp: xf_mem_alloc_def xf_on_core_def split: if_splits)
  have **: "xf_mem_free a sz core sh cd = Some cd' \<Longrightarrow> comp_frame cd cd'" for a sz sh
    by (auto simp: xf_mem_free_def xf_on_core_def split: if_splits)
  show "xf_mem_alloc sz align core sh cd = Some (cd', a) \<Longrightarrow> comp_frame cd cd'" by (rule *)
  show "xf_mem_free a sz core sh cd = Some cd' \<Longrightarrow> comp_frame cd cd'" by (rule **)
  show "xf_mm_free_buffer b core cd = Some cd' \<Longrightarrow> comp_frame cd cd'"
    by (auto simp: xf_mm_free_buffer_def dest: ** split: if_splits)
  show "xf_mm_alloc_buffer sz align core b cd = Some (cd', b', r) \<Longrightarrow> comp_frame cd cd'"
    by (auto simp: xf_mm_alloc_buffer_def Let_def dest: * split: if_splits option.splits)
qed

lemma sched_comp_frame:
  "xf_component_schedule c dts cd = Some cd' \<Longrightarrow> comp_frame cd cd'"
  "xf_component_cancel c cd = Some cd' \<Longrightarrow> comp_frame cd cd'"
  by (auto simp: xf_component_schedule_def xf_component_cancel_def xf_on_core_def split: if_splits)

lemma pool_comp_frame:
  "xf_msg_pool_init al pool n core cd = Some (cd', pool', r) \<Longrightarrow> comp_frame cd cd'"
  "xf_msg_pool_destroy al pool core cd = Some cd' \<Longrightarrow> comp_frame cd cd'"
  by (auto simp: xf_msg_pool_init_def xf_msg_pool_destroy_def Let_def split: if_splits option.splits
      dest!: mem_comp_frame)

section \<open>Ports\<close>

lemma port_drain_frame: "port_drain q cd = Some x \<Longrightarrow> comp_frame cd (fst x)"
proof (induction rule: port_drain.raw_induct [rotated, consumes 1, case_names step])
  case (step f q cd x)
  show ?case
    using step.hyps
    by (auto simp: Let_def bind_eq_Some_conv split: prod.splits if_splits
        dest!: response_comp_frame(2) step.IH intro: comp_frame_trans)
qed

lemma input_complete_frame: "xf_input_port_complete port cd = Some x \<Longrightarrow> comp_frame cd (fst x)"
  by (auto simp: xf_input_port_complete_def Let_def bind_eq_Some_conv split: prod.splits if_splits
      dest!: response_comp_frame(1))

lemma port_fill_loop_frame: "port_fill_loop port filled remaining n cd = Some x \<Longrightarrow> comp_frame cd (fst x)"
proof (induction rule: port_fill_loop.raw_induct [rotated, consumes 1, case_names step])
  case (step f port filled remaining n cd x)
  show ?case
  proof (cases "0 <s n \<and> (if remaining > n then n else remaining) \<noteq> 0")
    case False
    then show ?thesis using step.hyps by (auto simp: Let_def split: if_splits)
  next
    case True
    define k where "k = (if remaining > n then n else remaining)"
    define c where "c = cd\<lparr>c_data := mem_copy (ip_buffer port + filled) (ip_access port) k (c_data cd)\<rparr>"
    define q where "q = port\<lparr>ip_access := ip_access port + k\<rparr>"
    have c: "comp_frame cd c" by (simp add: c_def)
    have h: "(if remaining - k = 0 then
        Option.bind (xf_input_port_complete q c) (\<lambda>(cd, port, more).
          if \<not> more then Some (cd, port, filled + k, remaining - k, n - k)
          else f port (filled + k) (ip_remaining port) (n - k) cd)
        else f q (filled + k) (remaining - k) (n - k) c) = Some x"
      using step.hyps True unfolding k_def [symmetric] c_def q_def Let_def by auto
    show ?thesis using h c
      by (auto simp: bind_eq_Some_conv split: if_splits dest!: input_complete_frame step.IH intro: comp_frame_trans)
  qed
qed

lemma input_port_frame:
  "xf_input_port_init port sz align core cd = Some (cd', port', r) \<Longrightarrow> comp_frame cd cd'"
  "xf_input_port_put port m cd = Some (cd', port', b) \<Longrightarrow> comp_frame cd cd'"
  "xf_input_port_fill port cd = Some (cd', port', b) \<Longrightarrow> comp_frame cd cd'"
  "xf_input_port_consume port n cd = Some (cd', port') \<Longrightarrow> comp_frame cd cd'"
  "xf_input_port_purge port cd = Some (cd', port') \<Longrightarrow> comp_frame cd cd'"
  "xf_input_port_control_save port m cd = (cd', port') \<Longrightarrow> comp_frame cd cd'"
  "xf_input_port_purge_done port cd = Some (cd', port') \<Longrightarrow> comp_frame cd cd'"
  "xf_input_port_destroy port core cd = Some (cd', port') \<Longrightarrow> comp_frame cd cd'"
proof -
  show "xf_input_port_init port sz align core cd = Some (cd', port', r) \<Longrightarrow> comp_frame cd cd'"
    by (auto simp: xf_input_port_init_def Let_def bind_eq_Some_conv split: if_splits dest!: mem_comp_frame)
  show "xf_input_port_put port m cd = Some (cd', port', b) \<Longrightarrow> comp_frame cd cd'"
    by (auto simp: xf_input_port_put_def Let_def split: if_splits prod.splits dest: response_comp_frame)
  show "xf_input_port_fill port cd = Some (cd', port', b) \<Longrightarrow> comp_frame cd cd'"
    by (auto simp: xf_input_port_fill_def split: if_splits dest!: port_fill_loop_frame)
  show "xf_input_port_consume port n cd = Some (cd', port') \<Longrightarrow> comp_frame cd cd'"
    by (auto simp: xf_input_port_consume_def Let_def split: if_splits dest!: input_complete_frame)
  show "xf_input_port_purge port cd = Some (cd', port') \<Longrightarrow> comp_frame cd cd'"
    by (auto simp: xf_input_port_purge_def Let_def split: if_splits dest!: port_drain_frame)
  show "xf_input_port_control_save port m cd = (cd', port') \<Longrightarrow> comp_frame cd cd'"
    by (auto simp: xf_input_port_control_save_def Let_def split: prod.splits)
  show "xf_input_port_purge_done port cd = Some (cd', port') \<Longrightarrow> comp_frame cd cd'"
    by (auto simp: xf_input_port_purge_done_def Let_def split: prod.splits if_splits dest!: response_comp_frame)
  show "xf_input_port_destroy port core cd = Some (cd', port') \<Longrightarrow> comp_frame cd cd'"
    by (auto simp: xf_input_port_destroy_def bind_eq_Some_conv split: if_splits dest!: mem_comp_frame)
qed

lemma port_route_loop_frame: "port_route_loop al i n i_d len align port cd = Some x \<Longrightarrow> comp_frame cd (fst x)"
proof (induction rule: port_route_loop.raw_induct [rotated, consumes 1, case_names step])
  case (step f al i n i_d len align port cd x)
  show ?case
    using step.hyps
    by (auto simp: Let_def bind_eq_Some_conv split: prod.splits if_splits dest!: mem_comp_frame(1) step.IH intro: comp_frame_trans)
qed

lemma port_route_cleanup_frame: "port_route_cleanup al i i_d len port cd = Some x \<Longrightarrow> comp_frame cd x"
proof (induction rule: port_route_cleanup.raw_induct [rotated, consumes 1, case_names step])
  case (step f al i i_d len port cd x)
  show ?case
    using step.hyps
    by (auto simp: Let_def bind_eq_Some_conv split: if_splits dest!: mem_comp_frame(2) step.IH intro: comp_frame_trans)
qed

lemma port_unroute_loop_frame: "port_unroute_loop al i n i_d port cd = Some x \<Longrightarrow> comp_frame cd x"
proof (induction rule: port_unroute_loop.raw_induct [rotated, consumes 1, case_names step])
  case (step f al i n i_d port cd x)
  show ?case
    using step.hyps
    by (auto simp: Let_def bind_eq_Some_conv split: if_splits dest!: mem_comp_frame(2) step.IH intro: comp_frame_trans)
qed

lemma output_port_frame:
  "xf_output_port_route al port i_d n len align cd = Some (cd', port', r) \<Longrightarrow> comp_frame cd cd'"
  "xf_output_port_unroute al port cd = Some (cd', port') \<Longrightarrow> comp_frame cd cd'"
  "xf_output_port_unroute_done al port cd = Some (cd', port') \<Longrightarrow> comp_frame cd cd'"
  "xf_output_port_put port m cd = (cd', port', b) \<Longrightarrow> comp_frame cd cd'"
  "xf_output_port_produce port n cd = Some (cd', port', b) \<Longrightarrow> comp_frame cd cd'"
  "xf_output_port_flush al port opcode cd = Some (cd', port', b) \<Longrightarrow> comp_frame cd cd'"
  "xf_output_port_destroy al port core cd = Some (cd', port') \<Longrightarrow> comp_frame cd cd'"
proof -
  show "comp_frame cd cd'" if r: "xf_output_port_route al port i_d n len align cd = Some (cd', port', r)"
  proof -
    obtain c1 q e where 1: "xf_msg_pool_init al (op_pool port) (n + 1) (XF_MSG_DST_CORE i_d) cd = Some (c1, q, e)"
      using r by (auto simp: xf_output_port_route_def bind_eq_Some_conv)
    have c1: "comp_frame cd c1" using 1 by (rule pool_comp_frame)
    show ?thesis
    proof (cases e)
      case (Inl err)
      then show ?thesis using r 1 c1 by (simp add: xf_output_port_route_def)
    next
      case (Inr u)
      then obtain c2 p2 j b where 2: "port_route_loop al 1 n i_d len align (port\<lparr>op_pool := q\<rparr>) c1 = Some (c2, p2, j, b)"
        using r 1 by (auto simp: xf_output_port_route_def bind_eq_Some_conv)
      have c2: "comp_frame cd c2" using c1 port_route_loop_frame [OF 2] comp_frame_trans by auto
      show ?thesis
        using r 1 2 c2 Inr by (cases b) (auto simp: xf_output_port_route_def Let_def bind_eq_Some_conv
          dest!: pool_comp_frame(2) port_route_cleanup_frame intro: comp_frame_trans)
    qed
  qed
  have *: "xf_output_port_unroute al port cd = Some (cd', port') \<Longrightarrow> comp_frame cd cd'" for port port' cd cd'
    by (auto simp: xf_output_port_unroute_def Let_def bind_eq_Some_conv
        dest!: pool_comp_frame port_unroute_loop_frame intro: comp_frame_trans)
  show "xf_output_port_unroute al port cd = Some (cd', port') \<Longrightarrow> comp_frame cd cd'" by (rule *)
  show "xf_output_port_unroute_done al port cd = Some (cd', port') \<Longrightarrow> comp_frame cd cd'"
    by (auto simp: xf_output_port_unroute_done_def Let_def bind_eq_Some_conv
        dest!: * response_comp_frame intro: comp_frame_trans)
  show "xf_output_port_put port m cd = (cd', port', b) \<Longrightarrow> comp_frame cd cd'"
    by (auto simp: xf_output_port_put_def split: prod.splits)
  show "xf_output_port_produce port n cd = Some (cd', port', b) \<Longrightarrow> comp_frame cd cd'"
    by (auto simp: xf_output_port_produce_def Let_def split: prod.splits if_splits dest!: response_comp_frame)
  show "xf_output_port_flush al port opcode cd = Some (cd', port', b) \<Longrightarrow> comp_frame cd cd'"
    by (auto simp: xf_output_port_flush_def Let_def split: if_splits dest!: response_comp_frame port_drain_frame)
  show "xf_output_port_destroy al port core cd = Some (cd', port') \<Longrightarrow> comp_frame cd cd'"
    by (auto simp: xf_output_port_destroy_def bind_eq_Some_conv split: if_splits dest: *)
qed

end
