(* ===== verification/XA_Class.thy ===== *)
theory XA_Class
  imports XA_Frame
begin

text \<open>
  What a derived class owes the base class, as two locales: the methods (\<open>xa_methods\<close>) and the command
  table (\<open>xa_class\<close>). Whatever relation between the states before and after a call the methods and the
  commands respect, the operations of the base class respect it too, for every plugin.
\<close>

section \<open>Results that respect a relation\<close>

definition keeps ::
  "(('o, 's) xa_st \<Rightarrow> ('o, 's) xa_st \<Rightarrow> bool) \<Rightarrow> ('o, 's) xa_st \<Rightarrow> (('o, 's) xa_st \<times> 'e) option \<Rightarrow> bool"
where
  "keeps R s r \<longleftrightarrow> (\<forall>s' e. r = Some (s', e) \<longrightarrow> R s s')"

lemma keepsI: "(\<And>s' e. r = Some (s', e) \<Longrightarrow> R s s') \<Longrightarrow> keeps R s r"
  by (simp add: keeps_def)

lemma keepsD: "keeps R s r \<Longrightarrow> r = Some (s', e) \<Longrightarrow> R s s'"
  by (simp add: keeps_def)

lemma keeps_None [simp]: "keeps R s None"
  by (simp add: keeps_def)

lemma keeps_Some [simp]: "keeps R s (Some (s', e)) = R s s'"
  by (simp add: keeps_def)

lemma keeps_ok [simp]: "keeps R s (xa_ok s') = R s s'"
  by (simp add: xa_ok_def)

lemma keeps_bind: "(\<And>x. r = Some x \<Longrightarrow> keeps R s (k x)) \<Longrightarrow> keeps R s (Option.bind r k)"
  by (cases r) auto

lemma keeps_map: "(\<And>x. r = Some x \<Longrightarrow> R s (fst (f x))) \<Longrightarrow> keeps R s (map_option f r)"
  by (cases r) (auto simp: keeps_def)

lemma keeps_XF_CHK: "R s0 s \<Longrightarrow> (c \<Longrightarrow> keeps R s0 (k s)) \<Longrightarrow> keeps R s0 (XF_CHK c err s k)"
  by (simp add: XF_CHK_def)

lemma keeps_XA_CHK:
  "keeps R s0 r \<Longrightarrow> (\<And>s e. r = Some (s, e) \<Longrightarrow> R s0 s \<Longrightarrow> keeps R s0 (k s e)) \<Longrightarrow> keeps R s0 (XA_CHK r k)"
proof (cases r)
  case (Some x)
  then show "keeps R s0 r \<Longrightarrow> (\<And>s e. r = Some (s, e) \<Longrightarrow> R s0 s \<Longrightarrow> keeps R s0 (k s e)) \<Longrightarrow> keeps R s0 (XA_CHK r k)"
    by (cases x) (simp add: XA_CHK_def)
qed (simp add: XA_CHK_def)

lemma keeps_if: "(c \<Longrightarrow> keeps R s a) \<Longrightarrow> (\<not> c \<Longrightarrow> keeps R s b) \<Longrightarrow> keeps R s (if c then a else b)"
  by simp

lemma rel_if: "(c \<Longrightarrow> R s a) \<Longrightarrow> (\<not> c \<Longrightarrow> R s b) \<Longrightarrow> R s (if c then a else b)"
  by simp

text \<open>One rule for each construct of the methods.\<close>

lemma keeps_okI: "R s0 s \<Longrightarrow> keeps R s0 (xa_ok s)" "R s0 s \<Longrightarrow> keeps R s0 (Some (s, e))"
  by simp_all

lemma keeps_bind2: "(\<And>a b. r = Some (a, b) \<Longrightarrow> keeps R s (k a b)) \<Longrightarrow> keeps R s (Option.bind r (\<lambda>(a, b). k a b))"
  by (cases r) auto

lemma keeps_bind3:
  "(\<And>a b c. r = Some (a, b, c) \<Longrightarrow> keeps R s (k a b c)) \<Longrightarrow> keeps R s (Option.bind r (\<lambda>(a, b, c). k a b c))"
  by (cases r) auto

lemma keeps_case2: "(\<And>a b. x = (a, b) \<Longrightarrow> keeps R s (k a b)) \<Longrightarrow> keeps R s (case x of (a, b) \<Rightarrow> k a b)"
  by (cases x) auto

lemma keeps_case3: "(\<And>a b c. x = (a, b, c) \<Longrightarrow> keeps R s (k a b c)) \<Longrightarrow> keeps R s (case x of (a, b, c) \<Rightarrow> k a b c)"
  by (cases x) auto

lemma keeps_sum:
  "(\<And>a. x = Inl a \<Longrightarrow> keeps R s (f a)) \<Longrightarrow> (\<And>b. x = Inr b \<Longrightarrow> keeps R s (g b)) \<Longrightarrow>
     keeps R s (case x of Inl a \<Rightarrow> f a | Inr b \<Rightarrow> g b)"
  by (cases x) auto

lemma keeps_bind_if:
  "(c \<Longrightarrow> keeps R s (Option.bind a k)) \<Longrightarrow> (\<not> c \<Longrightarrow> keeps R s (Option.bind b k)) \<Longrightarrow>
     keeps R s (Option.bind (if c then a else b) k)"
  by simp

lemma keeps_nest3:
  "(\<And>a b c. r = Some (a, b, c) \<Longrightarrow> keeps R s (Option.bind (f a b c) k)) \<Longrightarrow>
     keeps R s (Option.bind (Option.bind r (\<lambda>(a, b, c). f a b c)) k)"
  by (cases r) auto

lemma keeps_nest2:
  "(\<And>a b. r = Some (a, b) \<Longrightarrow> keeps R s (Option.bind (f a b) k)) \<Longrightarrow>
     keeps R s (Option.bind (Option.bind r (\<lambda>(a, b). f a b)) k)"
  by (cases r) auto

lemmas keeps_rules = keeps_okI keeps_XF_CHK keeps_bind3 keeps_bind2 keeps_case3 keeps_case2 keeps_sum keeps_if keeps_bind_if
  keeps_nest3 keeps_nest2

lemma on_core_Some: "on_core f s = Some s' \<longleftrightarrow> (\<exists>cd. f (xs_core s) = Some cd \<and> s' = s\<lparr>xs_core := cd\<rparr>)"
  by (auto simp: on_core_def)

section \<open>Relations on the state\<close>

text \<open>Changes outside the control state.\<close>

locale xa_basic =
  fixes R :: "('a XACodecBase_scheme, 's) xa_st \<Rightarrow> ('a XACodecBase_scheme, 's) xa_st \<Rightarrow> bool"
  assumes R_refl: "R s s"
    and R_trans: "R s s1 \<Longrightarrow> R s1 s2 \<Longrightarrow> R s s2"
    and R_core: "comp_frame (xs_core s) cd \<Longrightarrow> R s (s\<lparr>xs_core := cd\<rparr>)"
    and R_plug: "R s (s\<lparr>xs_plug := w\<rparr>)"
    and R_api: "R s (upd_obj (\<lambda>o'. o'\<lparr>xb_api := b\<rparr>) s)"
    and R_mem_tabs: "R s (upd_obj (\<lambda>o'. o'\<lparr>xb_mem_tabs := b\<rparr>) s)"
    and R_persist: "R s (upd_obj (\<lambda>o'. o'\<lparr>xb_persist := b\<rparr>) s)"
    and R_scratch: "R s (upd_obj (\<lambda>o'. o'\<lparr>xb_scratch := a\<rparr>) s)"
begin

lemma on_core_R:
  assumes "on_core f s = Some s'" and "\<And>cd. f (xs_core s) = Some cd \<Longrightarrow> comp_frame (xs_core s) cd" and "R s0 s"
  shows "R s0 s'"
  using assms R_core R_trans by (auto simp: on_core_Some)

lemma core_R: "R s0 s \<Longrightarrow> comp_frame (xs_core s) cd \<Longrightarrow> R s0 (s\<lparr>xs_core := cd\<rparr>)"
  using R_core R_trans by blast

lemma call_R:
  assumes "xa_call p cmd idx pv s = (s', v, e)" and "R s0 s"
  shows "R s0 s'" and "xs_obj s' = xs_obj s" and "xs_self s' = xs_self s"
proof -
  obtain d w where s': "s' = (s\<lparr>xs_core := (xs_core s)\<lparr>c_data := d\<rparr>\<rparr>)\<lparr>xs_plug := w\<rparr>"
    using assms(1) by (cases s) (auto simp: xa_call_def Let_def split: prod.splits)
  show "R s0 s'" unfolding s' using assms(2) by (intro R_trans [OF _ R_plug] core_R) simp_all
  show "xs_obj s' = xs_obj s" "xs_self s' = xs_self s" by (simp_all add: s')
qed

lemma keeps_API:
  assumes "R s0 s"
    and "\<And>s' v. R s0 s' \<Longrightarrow> xs_obj s' = xs_obj s \<Longrightarrow> xs_self s' = xs_self s \<Longrightarrow> keeps R s0 (k s' v)"
  shows "keeps R s0 (XA_API p cmd idx pv s k)"
proof -
  obtain s' v e where c: "xa_call p cmd idx pv s = (s', v, e)" by (cases "xa_call p cmd idx pv s")
  show ?thesis using call_R [OF c assms(1)] assms(2) by (simp add: XA_API_def c)
qed

lemma keeps_hook:
  assumes "R s0 s" and "keeps R s (f s)" and "\<And>s' e. f s = Some (s', e) \<Longrightarrow> R s0 s' \<Longrightarrow> keeps R s0 (k s' e)"
  shows "keeps R s0 (CODEC_API f s k)"
proof (cases "f s")
  case (Some x)
  obtain s' e where x: "x = (s', e)" by (cases x)
  have "R s0 s'" using assms(2) Some x R_trans [OF assms(1)] by simp
  then show ?thesis using assms(3) Some x by (simp add: CODEC_API_def XA_CHK_def)
qed (simp add: CODEC_API_def XA_CHK_def)

lemma keeps_XMALLOC:
  assumes "R s0 s" and w: "\<And>b s. R s (upd_obj (wr b) s)" and k: "\<And>s'. R s0 s' \<Longrightarrow> keeps R s0 (k s')"
  shows "keeps R s0 (XMALLOC rd wr sz align core s k)"
proof (cases "xf_mm_alloc_buffer sz align core (rd (xs_obj s)) (xs_core s)")
  case (Some x)
  obtain cd b r where x: "x = (cd, b, r)" by (cases x)
  have "comp_frame (xs_core s) cd" using Some x by (intro mem_comp_frame(4)) simp
  then have "R s0 (s\<lparr>xs_core := cd\<rparr>)" by (rule core_R [OF assms(1)])
  then have "R s0 (upd_obj (wr b) (s\<lparr>xs_core := cd\<rparr>))" using w by (rule R_trans)
  then have "R s0 (s\<lparr>xs_core := cd, xs_obj := wr b (xs_obj s)\<rparr>)" by (simp add: upd_obj_def)
  then show ?thesis using k by (simp add: XMALLOC_def Some x Let_def split: sum.split)
qed (simp add: XMALLOC_def)

lemma preinit_R: "R s0 s \<Longrightarrow> keeps R s0 (xa_base_preinit p core s)"
  unfolding xa_base_preinit_def
  by (intro keeps_XF_CHK keeps_API keeps_XMALLOC keeps_if R_api R_mem_tabs | assumption | simp)+

lemma destroy_R: "xa_base_destroy sz core s = Some s' \<Longrightarrow> R s0 s \<Longrightarrow> R s0 s'"
  by (auto simp: xa_base_destroy_def bind_eq_Some_conv dest!: on_core_R mem_comp_frame)

lemma respond_R:
  "R s0 s \<Longrightarrow> on_core (xf_response m) s = Some s' \<Longrightarrow> R s0 s'"
  "R s0 s \<Longrightarrow> on_core (xf_response_ok m) s = Some s' \<Longrightarrow> R s0 s'"
  "R s0 s \<Longrightarrow> on_core (xf_response_err m) s = Some s' \<Longrightarrow> R s0 s'"
  "R s0 s \<Longrightarrow> on_core (xf_response_data m n) s = Some s' \<Longrightarrow> R s0 s'"
  by (erule on_core_R [rotated 2], assumption, erule response_comp_frame)+

lemma keeps_respond:
  assumes "R s0 s" and "\<And>s'. R s0 s' \<Longrightarrow> keeps R s0 (k s')"
  shows "keeps R s0 (Option.bind (on_core (xf_response_ok m) s) k)"
    and "keeps R s0 (Option.bind (on_core (xf_response m) s) k)"
    and "keeps R s0 (Option.bind (on_core (xf_response_err m) s) k)"
    and "keeps R s0 (Option.bind (on_core (xf_response_data m n) s) k)"
  using assms by (auto intro!: keeps_bind dest: respond_R)

lemma keeps_let:
  fixes v :: "('a XACodecBase_scheme, 's) xa_st"
  assumes "R s0 v" and "\<And>s. R s0 s \<Longrightarrow> keeps R s0 (k s)"
  shows "keeps R s0 (let s = v in k s)"
  using assms by simp

lemma ext_pad_frame: "comp_frame cd (ext_pad a len cd)"
  by (simp add: ext_pad_def Let_def)

lemma pad_R: "R s0 s \<Longrightarrow> R s0 (upd_core (ext_pad a len) s)"
  unfolding upd_core_def by (intro core_R ext_pad_frame)

lemma set_ext_loop_R:
  assumes k: "\<And>s r. R s0 s \<Longrightarrow> keeps R s0 (k s r)"
  shows "R s0 s \<Longrightarrow> keeps R s0 (base_set_ext p n a s k)"
proof (induction "unat n" arbitrary: n a s rule: less_induct)
  case less
  show ?case
  proof (cases "4 \<le> n \<and> ext_size (mem_read16 (c_data (xs_core s)) (a + 2)) \<le> n - 4")
    case True
    obtain s2 v e where c: "ext_set_call p a s = (s2, v, e)" by (cases "ext_set_call p a s")
    have s2: "R s0 s2" using c pad_R [OF less.prems] unfolding ext_set_call_def Let_def by (rule call_R)
    let ?d = "ext_size (mem_read16 (c_data (xs_core s)) (a + 2))"
    have "keeps R s0 (base_set_ext p (n - 4 - ?d) (a + 4 + ucast ?d) s2 k)"
      by (rule less.hyps [OF _ s2]) (rule ext_left, use True in auto)
    then show ?thesis using s2 True c by (subst base_set_ext_step) (simp add: Let_def)
  next
    case False
    then show ?thesis using k less.prems by (subst base_set_ext_step) (auto simp: Let_def)
  qed
qed

lemma get_ext_loop_R:
  assumes k: "\<And>s r. R s0 s \<Longrightarrow> keeps R s0 (k s r)"
  shows "R s0 s \<Longrightarrow> keeps R s0 (base_get_ext p n a s k)"
proof (induction "unat n" arbitrary: n a s rule: less_induct)
  case less
  show ?case
  proof (cases "4 \<le> n \<and> ucast (ext_size (mem_read16 (c_data (xs_core s)) (a + 2))) \<le> n - 4")
    case True
    obtain s2 v e where c: "ext_get_call p a s = (s2, v, e)" by (cases "ext_get_call p a s")
    have s2: "R s0 s2" using c less.prems unfolding ext_get_call_def by (rule call_R)
    let ?l = "mem_read16 (c_data (xs_core s)) (a + 2)"
    have "keeps R s0 (base_get_ext p (n - 4 - ucast (ext_size ?l)) (a + 4 + ucast (ext_size ?l)) (upd_core (ext_pad (a + 4) ?l) s2) k)"
      by (rule less.hyps [OF _ pad_R [OF s2]]) (rule ext_left, use True in auto)
    then show ?thesis using s2 True c by (subst base_get_ext_step) (simp add: Let_def)
  next
    case False
    then show ?thesis using k less.prems by (subst base_get_ext_step) (auto simp: Let_def)
  qed
qed

lemma set_param_ext_R: "R s0 s \<Longrightarrow> keeps R s0 (xa_base_set_param_ext p m s)"
  unfolding xa_base_set_param_ext_def Let_def
  by (rule set_ext_loop_R) (auto intro!: keeps_XF_CHK keeps_map dest: respond_R)

lemma get_param_ext_R: "R s0 s \<Longrightarrow> keeps R s0 (xa_base_get_param_ext p m s)"
  unfolding xa_base_get_param_ext_def Let_def
  by (rule get_ext_loop_R) (auto intro!: keeps_XF_CHK keeps_map dest: respond_R)

lemma memtabs_R:
  assumes memtab: "\<And>i type sz align core s. keeps R s (h_memtab hk i type sz align core s)"
  shows "R s0 s \<Longrightarrow> keeps R s0 (base_memtabs hk p core is s)"
proof (induction "is" arbitrary: s)
  case (Cons i js)
  show ?case
    unfolding base_memtabs.simps
    by (intro keeps_API keeps_if keeps_XF_CHK keeps_XMALLOC keeps_hook [OF _ memtab] Cons.IH R_persist Cons.prems
        | assumption | simp)+
qed simp

lemma postinit_R:
  assumes memtab: "\<And>i type sz align core s. keeps R s (h_memtab hk i type sz align core s)"
  shows "R s0 s \<Longrightarrow> keeps R s0 (xa_base_postinit hk p core s)"
  unfolding xa_base_postinit_def xf_on_core_def Let_def
  by (intro keeps_API keeps_if memtabs_R [OF memtab] R_trans [OF _ R_scratch] | assumption | simp)+

end

text \<open>Changes of the control state as well: the schedule flag and the three stage transitions.\<close>

locale xa_relation = xa_basic R
  for R :: "('a XACodecBase_scheme, 's) xa_st \<Rightarrow> ('a XACodecBase_scheme, 's) xa_st \<Rightarrow> bool" +
  assumes R_schedule: "R s (upd_obj (\<lambda>o'. o'\<lparr>xb_state := xb_state o' XOR XA_BASE_FLAG_SCHEDULE\<rparr>) s)"
    and R_unschedule: "R s (upd_obj (\<lambda>o'. o'\<lparr>xb_state := xb_state o' AND NOT XA_BASE_FLAG_SCHEDULE\<rparr>) s)"
    and R_postinit: "xb_state (xs_obj s) AND XA_BASE_FLAG_POSTINIT = 0 \<Longrightarrow>
      R s (upd_obj (\<lambda>o'. o'\<lparr>xb_state := xb_state o' XOR (XA_BASE_FLAG_POSTINIT OR XA_BASE_FLAG_RUNTIME_INIT)\<rparr>) s)"
    and R_runtime: "xb_state (xs_obj s) AND XA_BASE_FLAG_RUNTIME_INIT \<noteq> 0 \<Longrightarrow>
      R s (upd_obj (\<lambda>o'. o'\<lparr>xb_state := xb_state o' XOR (XA_BASE_FLAG_RUNTIME_INIT OR XA_BASE_FLAG_EXECUTION)\<rparr>) s)"
    and R_completed: "xb_state (xs_obj s) AND XA_BASE_FLAG_EXECUTION \<noteq> 0 \<Longrightarrow>
      R s (upd_obj (\<lambda>o'. o'\<lparr>xb_state := xb_state o' XOR (XA_BASE_FLAG_EXECUTION OR XA_BASE_FLAG_COMPLETED)\<rparr>) s)"
begin

lemma schedule_R: "xa_base_schedule dts s = Some s' \<Longrightarrow> R s0 s \<Longrightarrow> R s0 s'"
  using R_trans R_schedule by (auto simp: xa_base_schedule_def split: if_splits dest: on_core_R sched_comp_frame)

lemma cancel_R: "xa_base_cancel s = Some s' \<Longrightarrow> R s0 s \<Longrightarrow> R s0 s'"
  using R_trans R_schedule by (auto simp: xa_base_cancel_def split: if_splits dest: on_core_R sched_comp_frame)

lemma keeps_schedule:
  assumes "R s0 s" and "\<And>s'. R s0 s' \<Longrightarrow> keeps R s0 (k s')"
  shows "keeps R s0 (Option.bind (xa_base_schedule dts s) k)"
    and "keeps R s0 (Option.bind (xa_base_cancel s) k)"
  using assms by (auto intro!: keeps_bind dest: schedule_R cancel_R)

end

interpretation same_state: xa_basic "\<lambda>s s'. xb_state (xs_obj s') = xb_state (xs_obj s)"
  by unfold_locales (simp_all add: upd_obj_def)

interpretation same_entry: xa_basic "\<lambda>s s'. xb_entry (xs_obj s') = xb_entry (xs_obj s)"
  by unfold_locales (simp_all add: upd_obj_def)

text \<open>The methods of a derived class respect the relation; setting up a memory table leaves the control
  state alone.\<close>

locale xa_methods = xa_relation R
  for R :: "('a XACodecBase_scheme, 's) xa_st \<Rightarrow> ('a XACodecBase_scheme, 's) xa_st \<Rightarrow> bool" +
  fixes hk :: "('a XACodecBase_scheme, 's) xa_hooks"
  assumes memtab: "keeps R s (h_memtab hk i type sz align core s)"
    and memtab_state: "keeps (\<lambda>s s'. xb_state (xs_obj s') = xb_state (xs_obj s)) s (h_memtab hk i type sz align core s)"
    and preprocess: "keeps R s (h_preprocess hk s)"
    and postprocess: "keeps R s (h_postprocess hk d s)"
    and setparam: "h_setparam hk = Some f \<Longrightarrow> keeps R s (f i a s)"
    and getparam: "h_getparam hk = Some f \<Longrightarrow> keeps R s (f i a s)"
begin

lemma set_items_R:
  assumes k: "\<And>s. R s0 s \<Longrightarrow> keeps R s0 (k s)"
  shows "R s0 s \<Longrightarrow> keeps R s0 (base_set_items hk p n a s k)"
proof (induction n arbitrary: a s)
  case (Suc n)
  show ?case
  proof (cases "h_setparam hk")
    case None
    then show ?thesis by (auto intro!: keeps_API Suc)
  next
    case (Some f)
    show ?thesis by (simp add: Some) (intro keeps_hook [OF _ setparam [OF Some]] Suc)
  qed
qed (simp add: k)

lemma get_items_R:
  assumes k: "\<And>s. R s0 s \<Longrightarrow> keeps R s0 (k s)"
  shows "R s0 s \<Longrightarrow> keeps R s0 (base_get_items hk p n a s k)"
proof (induction n arbitrary: a s)
  case (Suc n)
  show ?case
  proof (cases "h_getparam hk")
    case None
    then show ?thesis by (auto intro!: keeps_API Suc)
  next
    case (Some f)
    show ?thesis by (simp add: Some) (intro keeps_hook [OF _ getparam [OF Some]] Suc)
  qed
qed (simp add: k)

lemma set_param_R:
  assumes "R s0 s"
  shows "keeps R s0 (xa_base_set_param hk p m s)"
  unfolding xa_base_set_param_def Let_def
proof (intro keeps_XF_CHK set_items_R keeps_if keeps_XA_CHK keeps_map assms)
  fix s1 s2 s3 e
  assume 1: "R s0 s1" "xb_state (xs_obj s1) AND XA_BASE_FLAG_POSTINIT = 0"
  show "keeps R s0 (xa_base_postinit hk p (XF_MSG_DST_CORE (m_id (c_msgs (xs_core s1) m))) s1)"
    using memtab 1(1) by (rule postinit_R)
  assume 2: "xa_base_postinit hk p (XF_MSG_DST_CORE (m_id (c_msgs (xs_core s1) m))) s1 = Some (s2, e)" "R s0 s2"
  have "keeps (\<lambda>s s'. xb_state (xs_obj s') = xb_state (xs_obj s)) s1
      (xa_base_postinit hk p (XF_MSG_DST_CORE (m_id (c_msgs (xs_core s1) m))) s1)"
    using memtab_state by (rule same_state.postinit_R) simp
  then have "xb_state (xs_obj s2) = xb_state (xs_obj s1)" using 2(1) by (rule keepsD)
  then have r: "R s0 (upd_obj (\<lambda>o'. o'\<lparr>xb_state := xb_state o' XOR (XA_BASE_FLAG_POSTINIT OR XA_BASE_FLAG_RUNTIME_INIT)\<rparr>) s2)"
    using 1(2) by (intro R_trans [OF 2(2) R_postinit]) simp
  assume "on_core (xf_response_ok m)
      (upd_obj (\<lambda>o'. o'\<lparr>xb_state := xb_state o' XOR (XA_BASE_FLAG_POSTINIT OR XA_BASE_FLAG_RUNTIME_INIT)\<rparr>) s2) = Some s3"
  with r show "R s0 (fst (s3, XA_NO_ERROR))" by (simp add: respond_R(2))
next
  fix s1 s2
  assume "R s0 s1" "on_core (xf_response_ok m) s1 = Some s2"
  then show "R s0 (fst (s2, XA_NO_ERROR))" by (simp add: respond_R(2))
qed

lemma get_param_R: "R s0 s \<Longrightarrow> keeps R s0 (xa_base_get_param hk p m s)"
  unfolding xa_base_get_param_def Let_def
  by (intro keeps_XF_CHK get_items_R keeps_map) (auto dest: respond_R)

lemma process_R: "R s0 s \<Longrightarrow> keeps R s0 (xa_base_process hk p u s)"
  unfolding xa_base_process_def Let_def
  by (intro keeps_hook [OF _ preprocess] keeps_hook [OF _ postprocess] keeps_if rel_if [where R = R] keeps_API
      R_trans [OF _ R_unschedule] R_trans [OF _ R_runtime] R_trans [OF _ R_completed] | assumption | simp)+

end

text \<open>The commands respect the relation.\<close>

locale xa_class = xa_methods R hk
  for R :: "('a XACodecBase_scheme, 's) xa_st \<Rightarrow> ('a XACodecBase_scheme, 's) xa_st \<Rightarrow> bool"
    and hk :: "('a XACodecBase_scheme, 's) xa_hooks" +
  fixes command :: "('a XACodecBase_scheme, 's) xa_table"
  assumes command: "command t = Some f \<Longrightarrow> keeps R s (f m s)"
begin

lemma command_R: "keeps R s (xa_base_command hk p u command n m s)"
proof (rule keepsI)
  fix s' r
  assume h: "xa_base_command hk p u command n m s = Some (s', r)"
  consider "s' = s" | e where "xa_base_process hk p u s = Some (s', e)"
    | f e where "command (XF_OPCODE_TYPE (m_opcode (c_msgs (xs_core s) m))) = Some f" "f m s = Some (s', e)"
    using h by (auto simp: xa_base_command_def Let_def split: if_splits option.splits)
  then show "R s s'"
  proof cases
    case 1
    then show ?thesis using R_refl by simp
  next
    case 2
    then show ?thesis by (rule keepsD [OF process_R [OF R_refl]])
  next
    case 3
    then show ?thesis using keepsD [OF command] by blast
  qed
qed

end

end
