(* ===== verification/XA_Codec_Inv.thy ===== *)
theory XA_Codec_Inv
  imports XA_Class
begin

text \<open>
  The control state of the audio codec and what the codec may change of the framework: the codec
  class as an instance of the locales of the base class, for every plugin and every message.
\<close>

section \<open>The control state\<close>

text \<open>The stage is the state without the schedule flag and the two flags of the codec; a typed state has
  one of four stages and no unknown flags.\<close>

definition codec_stage :: "u32 \<Rightarrow> u32" where
  "codec_stage st = st AND 0xF"

definition codec_typed :: "u32 \<Rightarrow> bool" where
  "codec_typed st \<longleftrightarrow>
     codec_stage st \<in> {0, XA_BASE_FLAG_POSTINIT OR XA_BASE_FLAG_RUNTIME_INIT, XA_BASE_FLAG_POSTINIT OR XA_BASE_FLAG_EXECUTION,
       XA_BASE_FLAG_POSTINIT OR XA_BASE_FLAG_COMPLETED} \<and>
     st AND NOT (0xF OR XA_BASE_FLAG_SCHEDULE OR XA_CODEC_FLAG_INPUT_SETUP OR XA_CODEC_FLAG_OUTPUT_SETUP) = 0"

text \<open>The stages follow each other: set up, initialised, executing, completed, executing again.\<close>

inductive stage_step :: "u32 \<Rightarrow> u32 \<Rightarrow> bool" where
  init: "stage_step 0 (XA_BASE_FLAG_POSTINIT OR XA_BASE_FLAG_RUNTIME_INIT)"
| runtime: "stage_step (XA_BASE_FLAG_POSTINIT OR XA_BASE_FLAG_RUNTIME_INIT) (XA_BASE_FLAG_POSTINIT OR XA_BASE_FLAG_EXECUTION)"
| completed: "stage_step (XA_BASE_FLAG_POSTINIT OR XA_BASE_FLAG_EXECUTION) (XA_BASE_FLAG_POSTINIT OR XA_BASE_FLAG_COMPLETED)"
| restart: "stage_step (XA_BASE_FLAG_POSTINIT OR XA_BASE_FLAG_COMPLETED) (XA_BASE_FLAG_POSTINIT OR XA_BASE_FLAG_EXECUTION)"

inductive_cases stage_step_0E: "stage_step 0 t"

lemmas codec_flag_defs = base_flag_defs XA_CODEC_FLAG_INPUT_SETUP_def XA_CODEC_FLAG_OUTPUT_SETUP_def XA_BASE_FLAG_def

lemma codec_typed_iff:
  "codec_typed st \<longleftrightarrow> (st AND 15 = 0 \<or> st AND 15 = 3 \<or> st AND 15 = 5 \<or> st AND 15 = 9) \<and> st AND NOT 127 = 0"
  by (simp add: codec_typed_def codec_stage_def codec_flag_defs)

lemma stage_steps: "stage_step 0 3" "stage_step 3 5" "stage_step 5 9" "stage_step 9 5"
  using stage_step.intros by (simp_all add: base_flag_defs)

lemma stage_bits:
  fixes st :: u32
  shows "st AND 1 = (st AND 15) AND 1" "st AND 2 = (st AND 15) AND 2" "st AND 4 = (st AND 15) AND 4" "st AND 8 = (st AND 15) AND 8"
  by (simp_all add: and.assoc)

lemma typed_xor:
  assumes "codec_typed st" and "k AND NOT 127 = 0"
    and "(st AND 15) XOR (k AND 15) \<in> {0, 3, 5, 9}"
  shows "codec_typed (st XOR k)" and "codec_stage (st XOR k) = codec_stage st XOR codec_stage k"
  using assms by (auto simp: codec_typed_iff codec_stage_def bit.conj_xor_distrib2)

lemma typed_xor_flag:
  assumes "codec_typed st" and "k AND NOT 127 = 0" and "k AND 15 = 0"
  shows "codec_typed (st XOR k)" and "codec_stage (st XOR k) = codec_stage st"
  using assms typed_xor [OF assms(1,2)] by (auto simp: codec_typed_iff codec_stage_def)

lemma typed_clear_flag:
  assumes "codec_typed st" and "k AND 15 = 0"
  shows "codec_typed (st AND NOT k)" and "codec_stage (st AND NOT k) = codec_stage st"
proof -
  have 1: "(st AND NOT k) AND 15 = st AND 15"
  proof (rule bit_word_eqI)
    fix n
    assume "n < LENGTH(32)"
    have "\<not> (bit k n \<and> bit (15 :: u32) n)" using assms(2) by (metis bit_0_eq bit_and_iff bot_apply bot_bool_def)
    then show "bit ((st AND NOT k) AND 15) n = bit (st AND 15) n" using \<open>n < LENGTH(32)\<close> by (auto simp: bit_simps)
  qed
  have 2: "(st AND NOT k) AND NOT 127 = (st AND NOT 127) AND NOT k" by (simp add: and.assoc and.commute and.left_commute)
  show "codec_typed (st AND NOT k)" using assms(1) 1 2 by (simp add: codec_typed_iff)
  show "codec_stage (st AND NOT k) = codec_stage st" using 1 by (simp add: codec_stage_def)
qed

lemma typed_low:
  assumes "codec_typed st"
  shows "st AND XA_BASE_FLAG_POSTINIT = 0 \<Longrightarrow> st AND 15 = 0" and "st AND XA_BASE_FLAG_RUNTIME_INIT \<noteq> 0 \<Longrightarrow> st AND 15 = 3"
    and "st AND XA_BASE_FLAG_EXECUTION \<noteq> 0 \<Longrightarrow> st AND 15 = 5" and "st AND XA_BASE_FLAG_COMPLETED \<noteq> 0 \<Longrightarrow> st AND 15 = 9"
  using assms stage_bits [of st] by (auto simp: codec_typed_iff base_flag_defs)

lemma typed_postinit:
  assumes "codec_typed st" and "st AND XA_BASE_FLAG_POSTINIT = 0"
  shows "codec_typed (st XOR (XA_BASE_FLAG_POSTINIT OR XA_BASE_FLAG_RUNTIME_INIT))"
    and "stage_step (codec_stage st) (codec_stage (st XOR (XA_BASE_FLAG_POSTINIT OR XA_BASE_FLAG_RUNTIME_INIT)))"
  using assms(1) typed_low(1) [OF assms] stage_steps typed_xor [OF assms(1), of 3] by (simp_all add: base_flag_defs codec_stage_def)

lemma typed_runtime:
  assumes "codec_typed st" and "st AND XA_BASE_FLAG_RUNTIME_INIT \<noteq> 0"
  shows "codec_typed (st XOR (XA_BASE_FLAG_RUNTIME_INIT OR XA_BASE_FLAG_EXECUTION))"
    and "stage_step (codec_stage st) (codec_stage (st XOR (XA_BASE_FLAG_RUNTIME_INIT OR XA_BASE_FLAG_EXECUTION)))"
  using assms(1) typed_low(2) [OF assms] stage_steps typed_xor [OF assms(1), of 6] by (simp_all add: base_flag_defs codec_stage_def)

lemma typed_completed:
  assumes "codec_typed st" and "st AND XA_BASE_FLAG_EXECUTION \<noteq> 0"
  shows "codec_typed (st XOR (XA_BASE_FLAG_EXECUTION OR XA_BASE_FLAG_COMPLETED))"
    and "stage_step (codec_stage st) (codec_stage (st XOR (XA_BASE_FLAG_EXECUTION OR XA_BASE_FLAG_COMPLETED)))"
  using assms(1) typed_low(3) [OF assms] stage_steps typed_xor [OF assms(1), of 12] by (simp_all add: base_flag_defs codec_stage_def)

lemma typed_restart:
  assumes "codec_typed st" and "st AND XA_BASE_FLAG_COMPLETED \<noteq> 0"
  shows "codec_typed (XA_BASE_FLAG_POSTINIT OR XA_BASE_FLAG_EXECUTION)"
    and "stage_step (codec_stage st) (codec_stage (XA_BASE_FLAG_POSTINIT OR XA_BASE_FLAG_EXECUTION))"
  using typed_low(4) [OF assms] stage_steps by (simp_all add: base_flag_defs codec_stage_def codec_typed_iff)

section \<open>The codec as a derived class\<close>

text \<open>The stages go forward and the framework outside memory, messages and queues is left alone.\<close>

definition codec_rel :: "'s codec_st \<Rightarrow> 's codec_st \<Rightarrow> bool" where
  "codec_rel s s' \<longleftrightarrow>
     comp_frame (xs_core s) (xs_core s') \<and> xs_self s' = xs_self s \<and>
     (codec_typed (xb_state (xs_obj s)) \<longrightarrow>
        codec_typed (xb_state (xs_obj s')) \<and>
        stage_step\<^sup>*\<^sup>* (codec_stage (xb_state (xs_obj s))) (codec_stage (xb_state (xs_obj s'))))"

lemma codec_rel_state:
  assumes "\<And>st. codec_typed st \<Longrightarrow> st = xb_state (xs_obj s) \<Longrightarrow>
      codec_typed (f st) \<and> (codec_stage (f st) = codec_stage st \<or> stage_step (codec_stage st) (codec_stage (f st)))"
  shows "codec_rel s (upd_obj (\<lambda>c. c\<lparr>xb_state := f (xb_state c)\<rparr>) s)"
  using assms by (auto simp: codec_rel_def upd_obj_def)

lemma codec_rel_same:
  "xb_state (xs_obj s') = xb_state (xs_obj s) \<Longrightarrow> comp_frame (xs_core s) (xs_core s') \<Longrightarrow> xs_self s' = xs_self s \<Longrightarrow> codec_rel s s'"
  by (simp add: codec_rel_def)

lemma codec_rel_trans:
  assumes "codec_rel s s1" and "codec_rel s1 s2"
  shows "codec_rel s s2"
proof -
  have "comp_frame (xs_core s) (xs_core s2)"
    by (rule comp_frame_trans [of _ "xs_core s1"]) (use assms in \<open>simp_all add: codec_rel_def\<close>)
  then show ?thesis using assms by (simp add: codec_rel_def) (meson rtranclp_trans)
qed

interpretation codec: xa_relation codec_rel
proof unfold_locales
  fix s s1 s2 :: "'s codec_st"
  show "codec_rel s s1 \<Longrightarrow> codec_rel s1 s2 \<Longrightarrow> codec_rel s s2" by (rule codec_rel_trans)
next
  fix s :: "'s codec_st"
  show "codec_rel s (upd_obj (\<lambda>o'. o'\<lparr>xb_state := xb_state o' XOR XA_BASE_FLAG_SCHEDULE\<rparr>) s)"
    using typed_xor_flag [of _ XA_BASE_FLAG_SCHEDULE] by (intro codec_rel_state) (simp add: base_flag_defs)
  show "codec_rel s (upd_obj (\<lambda>o'. o'\<lparr>xb_state := xb_state o' AND NOT XA_BASE_FLAG_SCHEDULE\<rparr>) s)"
    using typed_clear_flag [of _ XA_BASE_FLAG_SCHEDULE] by (intro codec_rel_state) (simp add: base_flag_defs)
  show "codec_rel s (upd_obj (\<lambda>o'. o'\<lparr>xb_state := xb_state o' XOR (XA_BASE_FLAG_POSTINIT OR XA_BASE_FLAG_RUNTIME_INIT)\<rparr>) s)"
    if "xb_state (xs_obj s) AND XA_BASE_FLAG_POSTINIT = 0"
    using that typed_postinit by (intro codec_rel_state) auto
  show "codec_rel s (upd_obj (\<lambda>o'. o'\<lparr>xb_state := xb_state o' XOR (XA_BASE_FLAG_RUNTIME_INIT OR XA_BASE_FLAG_EXECUTION)\<rparr>) s)"
    if "xb_state (xs_obj s) AND XA_BASE_FLAG_RUNTIME_INIT \<noteq> 0"
    using that typed_runtime by (intro codec_rel_state) auto
  show "codec_rel s (upd_obj (\<lambda>o'. o'\<lparr>xb_state := xb_state o' XOR (XA_BASE_FLAG_EXECUTION OR XA_BASE_FLAG_COMPLETED)\<rparr>) s)"
    if "xb_state (xs_obj s) AND XA_BASE_FLAG_EXECUTION \<noteq> 0"
    using that typed_completed by (intro codec_rel_state) auto
qed (simp_all add: codec_rel_same upd_obj_def)

lemma codec_upd: "codec_rel s0 s \<Longrightarrow> (\<And>c. xb_state (f c) = xb_state c) \<Longrightarrow> codec_rel s0 (upd_obj f s)"
  by (rule codec_rel_trans, assumption) (simp add: codec_rel_same upd_obj_def)

lemma codec_put_R:
  "codec_rel s0 s \<Longrightarrow> comp_frame (xs_core s) cd \<Longrightarrow> codec_rel s0 (put_in cd port s)"
  "codec_rel s0 s \<Longrightarrow> comp_frame (xs_core s) cd \<Longrightarrow> codec_rel s0 (put_out cd port' s)"
  by (rule codec_rel_trans, assumption, simp add: codec_rel_same put_in_def put_out_def)+

lemma setup_flags:
  "XA_CODEC_FLAG_INPUT_SETUP AND 15 = 0" "XA_CODEC_FLAG_OUTPUT_SETUP AND 15 = 0"
  "XA_CODEC_FLAG_INPUT_SETUP AND NOT 127 = 0" "XA_CODEC_FLAG_OUTPUT_SETUP AND NOT 127 = 0"
  "(XA_CODEC_FLAG_INPUT_SETUP OR XA_CODEC_FLAG_OUTPUT_SETUP) AND 15 = 0"
  by (simp_all add: codec_flag_defs)

lemma codec_set_state_R:
  "codec_rel s0 s \<Longrightarrow> k AND 15 = 0 \<Longrightarrow> codec_rel s0 (set_state (\<lambda>f. f AND NOT k) s)"
  "codec_rel s0 s \<Longrightarrow> k AND 15 = 0 \<Longrightarrow> k AND NOT 127 = 0 \<Longrightarrow> codec_rel s0 (set_state (\<lambda>f. f XOR k) s)"
  unfolding set_state_def
  using typed_clear_flag [of _ k] typed_xor_flag [of _ k] by (auto intro: codec_rel_trans intro!: codec_rel_state)

lemma codec_restart_R:
  "codec_rel s0 s \<Longrightarrow> xb_state (xs_obj s) AND XA_BASE_FLAG_COMPLETED \<noteq> 0 \<Longrightarrow>
     codec_rel s0 (set_state (\<lambda>_. XA_BASE_FLAG_POSTINIT OR XA_BASE_FLAG_EXECUTION) s)"
  unfolding set_state_def using typed_restart by (auto intro: codec_rel_trans intro!: codec_rel_state)

lemmas codec_rules = keeps_rules codec.keeps_let codec.keeps_API codec.keeps_schedule codec.keeps_respond

lemmas codec_steps = codec.R_refl codec_put_R codec_set_state_R codec_restart_R codec_upd

lemma codec_prepare_runtime_R: "codec_rel s0 s \<Longrightarrow> keeps codec_rel s0 (xa_codec_prepare_runtime p s)"
  unfolding xa_codec_prepare_runtime_def Let_def
  by (assumption | rule keeps_None codec_rules codec_steps | erule output_port_frame | simp)+

lemma codec_empty_this_buffer_R: "keeps codec_rel s (xa_codec_empty_this_buffer p m s)"
  unfolding xa_codec_empty_this_buffer_def Let_def
  by (assumption | rule codec_rules codec_steps | erule input_port_frame | simp)+

lemma codec_fill_this_buffer_R: "keeps codec_rel s (xa_codec_fill_this_buffer al m s)"
  unfolding xa_codec_fill_this_buffer_def Let_def
  by (assumption | rule codec_rules codec_steps codec.pad_R | erule input_port_frame output_port_frame
      | simp add: upd_core_def codec_rel_same)+

lemma codec_port_route_R: "keeps codec_rel s (xa_codec_port_route al m s)"
  unfolding xa_codec_port_route_def Let_def
  by (assumption | rule codec_rules codec_steps | erule output_port_frame | simp)+

lemma codec_port_unroute_R: "keeps codec_rel s (xa_codec_port_unroute al m s)"
  unfolding xa_codec_port_unroute_def Let_def
  by (assumption | rule codec_rules codec_steps setup_flags | erule output_port_frame | simp)+

lemma codec_memtab_R: "keeps codec_rel s (xa_codec_memtab p i type sz align core s)"
  unfolding xa_codec_memtab_def Let_def
  by (assumption | rule codec_rules codec_steps | erule input_port_frame | simp)+

lemma codec_memtab_state: "keeps (\<lambda>s s'. xb_state (xs_obj s') = xb_state (xs_obj s)) s (xa_codec_memtab p i type sz align core s)"
  unfolding xa_codec_memtab_def Let_def
  by (rule keeps_okI keeps_XF_CHK same_state.keeps_API keeps_bind3 keeps_sum keeps_if | simp add: put_in_def upd_obj_def)+

lemma codec_prepare_input_R: "codec_rel s0 s \<Longrightarrow> keeps codec_rel s0 (codec_prepare_input p s)"
  unfolding codec_prepare_input_def Let_def
  by (assumption | rule codec_rules codec_steps setup_flags | erule input_port_frame | simp)+

lemma codec_preprocess_R: "keeps codec_rel s (xa_codec_preprocess p s)"
  unfolding xa_codec_preprocess_def Let_def
  by (assumption | rule codec_rules codec_steps setup_flags codec_prepare_input_R | simp)+

lemma codec_consume_R: "codec_consume n s = Some s' \<Longrightarrow> codec_rel s0 s \<Longrightarrow> codec_rel s0 s'"
  by (auto simp: codec_consume_def bind_eq_Some_conv split: if_splits
      intro!: codec_set_state_R(2) [OF codec_put_R(1)] setup_flags input_port_frame(4))

lemma codec_produce_R:
  assumes "codec_produce n s = Some s'" and "codec_rel s0 s"
  shows "codec_rel s0 s'"
proof (cases "n = 0")
  case False
  define s1 where "s1 = upd_obj (\<lambda>c. c\<lparr>xc_produced := xc_produced c + n div xc_sample_size c\<rparr>) s"
  have "codec_rel s0 s1" unfolding s1_def using assms(2) by (rule codec_upd) simp
  moreover obtain cd port b where "xf_output_port_produce (xc_output (xs_obj s1)) n (xs_core s1) = Some (cd, port, b)"
    and "s' = set_state (\<lambda>f. f XOR XA_CODEC_FLAG_OUTPUT_SETUP) (put_out cd port s1)"
    using assms(1) False unfolding codec_produce_def s1_def [symmetric] by (auto simp: bind_eq_Some_conv Let_def)
  ultimately show ?thesis by (auto intro!: codec_set_state_R(2) [OF codec_put_R(2)] setup_flags output_port_frame(5))
qed (use assms in \<open>simp add: codec_produce_def\<close>)

lemma codec_transition_R: "codec_rel s0 s \<Longrightarrow> keeps codec_rel s0 (codec_transition al p s)"
  unfolding codec_transition_def Let_def
  by (assumption | rule codec_rules codec_steps setup_flags keeps_XA_CHK codec_prepare_runtime_R
      | erule input_port_frame output_port_frame | simp)+

lemma codec_keeps_maintain:
  assumes "codec_rel s0 s" and "\<And>s'. codec_rel s0 s' \<Longrightarrow> keeps codec_rel s0 (k s')"
  shows "keeps codec_rel s0 (Option.bind (codec_consume n s) k)" and "keeps codec_rel s0 (Option.bind (codec_produce n s) k)"
  using assms by (auto intro!: keeps_bind dest: codec_consume_R codec_produce_R)

lemma codec_postprocess_R: "keeps codec_rel s (xa_codec_postprocess al p d s)"
  unfolding xa_codec_postprocess_def Let_def
  by (assumption | rule codec_rules codec_steps codec_keeps_maintain codec_transition_R | simp)+

lemma codec_getparam_R: "keeps codec_rel s (xa_codec_getparam p i a s)"
  unfolding xa_codec_getparam_def Let_def
  by (rule keeps_if keeps_case3 keeps_okI | erule codec.call_R | simp add: codec.R_refl codec_rel_same upd_core_def)+

interpretation codec_methods: xa_methods codec_rel "xa_codec_hooks al p" for al p
  by unfold_locales (auto simp: xa_codec_hooks_def codec_memtab_R codec_memtab_state codec_preprocess_R codec_postprocess_R codec_getparam_R)

lemma codec_flush_R: "keeps codec_rel s (xa_codec_flush al p m s)"
  unfolding xa_codec_flush_def Let_def
  by (assumption | rule codec_rules codec_steps setup_flags | erule input_port_frame output_port_frame | simp)+

interpretation codec_class: xa_class codec_rel "xa_codec_hooks al p" "xa_codec_cmd al p" for al p
  by unfold_locales
    (auto simp: xa_codec_cmd_def codec_methods.set_param_R codec_methods.get_param_R codec.set_param_ext_R codec.get_param_ext_R
      codec.R_refl codec_port_route_R codec_port_unroute_R codec_empty_this_buffer_R codec_fill_this_buffer_R codec_flush_R split: if_splits)

section \<open>Entry and exit\<close>

lemma codec_terminate_R: "keeps codec_rel s (xa_audio_codec_terminate al m s)"
  unfolding xa_audio_codec_terminate_def Let_def
  by (assumption | rule codec_rules codec_steps keeps_map | simp | auto dest: codec.respond_R [OF codec.R_refl])+

lemma codec_destroy_R: "codec_rel s0 s \<Longrightarrow> keeps codec_rel s0 (xa_audio_codec_destroy al s)"
  unfolding xa_audio_codec_destroy_def Let_def
  by (assumption | rule codec_rules codec_steps keeps_map | erule input_port_frame output_port_frame codec.destroy_R | simp)+

lemma codec_cleanup_R: "keeps codec_rel s (xa_audio_codec_cleanup al m s)"
  unfolding xa_audio_codec_cleanup_def Let_def
  by (assumption | rule codec_rules codec_steps codec_destroy_R | erule input_port_frame output_port_frame | simp)+

lemma codec_entry_R: "keeps codec_rel s (xa_codec_entry al p u m s)"
  unfolding xa_codec_entry_def by (cases "xb_entry (xs_obj s)") (simp_all add: codec_class.command_R codec_terminate_R)

lemma codec_exit_R: "keeps codec_rel s (xa_codec_exit al m s)"
  unfolding xa_codec_exit_def by (cases "xb_exit (xs_obj s)") (simp_all add: codec_cleanup_R codec_destroy_R codec.R_refl)

section \<open>Properties\<close>

text \<open>The histories of a codec component: it is created, it is entered and left with any messages, and
  between its calls the rest of the framework changes in any way.\<close>

inductive codec_reach :: "u32 \<Rightarrow> 's xa_proc \<Rightarrow> 's codec_st \<Rightarrow> bool" for al p where
  created: "xa_audio_codec_factory p core cd w = Some (s, base) \<Longrightarrow> base \<noteq> 0 \<Longrightarrow> codec_reach al p s"
| entered: "codec_reach al p s \<Longrightarrow> xa_codec_entry al p u m s = Some (s', r) \<Longrightarrow> codec_reach al p s'"
| left: "codec_reach al p s \<Longrightarrow> xa_codec_exit al m s = Some (s', r) \<Longrightarrow> codec_reach al p s'"
| outside: "codec_reach al p s \<Longrightarrow> codec_reach al p (s\<lparr>xs_core := cd, xs_plug := w\<rparr>)"

lemma codec_factory_state:
  assumes "xa_audio_codec_factory p core cd w = Some (s, base)" and "base \<noteq> 0"
  shows "xb_state (xs_obj s) = 0" and "xb_entry (xs_obj s) = XA_Command" and "xb_exit (xs_obj s) = XA_Cleanup"
proof -
  obtain s1 where f: "xa_base_factory p codec_zero core (XF_MM sizeof_XAAudioCodec) cd w = Some (s1, base)"
    and s: "s = upd_obj (\<lambda>c. c\<lparr>xb_exit := XA_Cleanup\<rparr>) s1"
    using assms by (auto simp: xa_audio_codec_factory_def bind_eq_Some_conv split: if_splits)
  obtain s0 e where s0: "xa_base_preinit p core s0 = Some (s1, e)" "xb_state (xs_obj s0) = 0" "xb_entry (xs_obj s0) = XA_Command"
    using f assms(2) by (auto simp: xa_base_factory_def Let_def bind_eq_Some_conv upd_obj_def upd_core_def codec_zero_def split: if_splits)
  have "keeps (\<lambda>s s'. xb_state (xs_obj s') = xb_state (xs_obj s)) s0 (xa_base_preinit p core s0)"
    by (rule same_state.preinit_R) simp
  moreover have "keeps (\<lambda>s s'. xb_entry (xs_obj s') = xb_entry (xs_obj s)) s0 (xa_base_preinit p core s0)"
    by (rule same_entry.preinit_R) simp
  ultimately show "xb_state (xs_obj s) = 0" and "xb_entry (xs_obj s) = XA_Command" and "xb_exit (xs_obj s) = XA_Cleanup"
    using s0 keepsD by (fastforce simp: s upd_obj_def)+
qed

text \<open>C27: In every history of a codec, whatever the plugin answers and whatever messages arrive, the control
  state is well typed: one of the four stages with the known flags only. No call of the entry or the exit
  point takes the stage back: from the stage before it to the stage after it there are only steps from set-up
  to runtime initialisation, from there to execution, to completion, and from completion to execution again.
  So the configuration once done is never lost and the runtime initialisation is never repeated.\<close>

theorem codec_state_typed:
  assumes "codec_reach al p s"
  shows "codec_typed (xb_state (xs_obj s)) \<and>
    (\<forall>u m s' r. xa_codec_entry al p u m s = Some (s', r) \<longrightarrow>
       stage_step\<^sup>*\<^sup>* (codec_stage (xb_state (xs_obj s))) (codec_stage (xb_state (xs_obj s')))) \<and>
    (\<forall>m s' r. xa_codec_exit al m s = Some (s', r) \<longrightarrow>
       stage_step\<^sup>*\<^sup>* (codec_stage (xb_state (xs_obj s))) (codec_stage (xb_state (xs_obj s'))))"
proof -
  have "codec_typed (xb_state (xs_obj s))"
    using assms
  proof induction
    case (created core cd w s base)
    then have "xb_state (xs_obj s) = 0" by (rule codec_factory_state)
    then show ?case by (simp add: codec_typed_iff)
  next
    case (entered s u m s' r)
    then show ?case using keepsD [OF codec_entry_R] by (fastforce simp: codec_rel_def)
  next
    case (left s m s' r)
    then show ?case using keepsD [OF codec_exit_R] by (fastforce simp: codec_rel_def)
  qed simp
  moreover have "stage_step\<^sup>*\<^sup>* (codec_stage (xb_state (xs_obj s))) (codec_stage (xb_state (xs_obj s')))"
    if "codec_rel s s'" and "codec_typed (xb_state (xs_obj s))" for s' using that by (simp add: codec_rel_def)
  moreover have "codec_rel s s'" if "xa_codec_entry al p u m s = Some (s', r)" for u m s' r by (rule keepsD [OF codec_entry_R that])
  moreover have "codec_rel s s'" if "xa_codec_exit al m s = Some (s', r)" for m s' r by (rule keepsD [OF codec_exit_R that])
  ultimately show ?thesis by blast
qed

text \<open>A plugin that accepts everything and needs no memory; a codec built around it in an empty pool, and
  its configuration command.\<close>

definition quiet_proc :: "unit xa_proc" where
  "quiet_proc a cmd i pv d w = (d, w, 0, 0)"

lemma quiet_API: "XA_API quiet_proc cmd i pv s k = k s 0"
  by (cases s) (simp add: XA_API_def xa_call_def quiet_proc_def XA_NO_ERROR_def)

lemma codec_size: "XF_MM sizeof_XAAudioCodec = 192"
proof -
  have "unat (XF_MM sizeof_XAAudioCodec) = 192" by (simp add: XF_MM_unat sizeof_XAAudioCodec_def)
  then show ?thesis by (simp add: word_unat_eq_iff)
qed

lemma quiet_base:
  assumes F: "mm_free_set lo hi (c_local_pool cd) (c_mem cd) F" and a: "{a ..< a + unat sz} \<subseteq> F" and lo: "0 < lo"
    and n: "mm_size_ok sz" "sizeof_XACodecBase \<le> sz" and z: "xb_state z = 0"
  obtains s base where "xa_base_factory quiet_proc z 0 sz cd () = Some (s, base)" and "base \<noteq> 0"
proof -
  obtain h b where 1: "xf_mm_alloc (c_local_pool cd) (c_mem cd) sz = Some (h, Some b)" "span b sz \<subseteq> F"
    using mm.alloc_law [OF F n(1)] a by blast
  have "unat b \<in> span b sz" using n(1) by (simp add: unat_gt_0)
  then have "unat b \<in> {lo ..< hi}" using 1(2) mm.inv_range [OF F] by blast
  with lo have b: "b \<noteq> 0" by auto
  have 2: "xf_mem_alloc sz 0 0 0 cd = Some (cd\<lparr>c_mem := h\<rparr>, b)" using 1 by (simp add: xf_mem_alloc_def)
  have "XF_MM 0 = 0" by (simp add: word_unat_eq_iff XF_MM_unat)
  then have "\<exists>s. xa_base_factory quiet_proc z 0 sz cd () = Some (s, b)"
    using 2 b n(2) z unfolding xa_base_factory_def xa_base_preinit_def quiet_API
    by (simp add: XF_CHK_def XMALLOC_def xf_mm_alloc_buffer_def upd_obj_def upd_core_def Let_def XA_NO_ERROR_def)
  with b that show thesis by blast
qed

lemma quiet_codec:
  assumes F: "mm_free_set lo hi (c_local_pool cd) (c_mem cd) F" and a: "{a ..< a + 192} \<subseteq> F" and "0 < lo"
  obtains s base where "xa_audio_codec_factory quiet_proc 0 cd () = Some (s, base)" and "base \<noteq> 0"
  by (rule quiet_base [OF F, of a 192 codec_zero])
    (use assms that in \<open>auto simp: sizeof_XACodecBase_def codec_zero_def xa_audio_codec_factory_def codec_size\<close>)

text \<open>An empty pool of 512 bytes.\<close>

lemma demo_pool:
  obtains h where "mm_free_set 256 768 0 h {256 ..< 768}"
proof -
  obtain h p bs where "mm_inv 256 768 0 h bs" "mm_covered (blen h) bs = {256 ..< 768}"
    using xf_mm_init_spec [of 256 512 0 mm_demo] by (auto simp: mm_pool_ok_def)
  with that show thesis unfolding mm_free_set_def by blast
qed

text \<open>The first configuration command, without parameters.\<close>

lemma quiet_set_param:
  assumes st: "xb_state (xs_obj s) = 0" and c: "xs_core s = cmd_demo 0x80008000 XF_SET_PARAM 0"
  obtains s2 where "xa_base_set_param hk quiet_proc 96 s = Some (s2, XA_NO_ERROR)" and "xb_state (xs_obj s2) = 3"
proof -
  obtain c2 where ok: "xf_response_ok 96 (cmd_demo 0x80008000 XF_SET_PARAM 0) = Some c2"
    using xf_response_at(2) cmd_demo_ready [of "0x80008000" XF_SET_PARAM 0] by (fastforce simp: msg_ready_def)
  have "\<exists>s2. xa_base_set_param hk quiet_proc 96 s = Some (s2, XA_NO_ERROR) \<and> xb_state (xs_obj s2) = 3"
    using st ok unfolding xa_base_set_param_def xa_base_postinit_def quiet_API
    by (simp add: c cmd_demo_msg Let_def XF_CHK_def XA_CHK_def XF_SET_PARAM_CMD_LEN_def demo_ids XA_NO_ERROR_def
        upd_obj_def on_core_def base_flag_defs)
  then show thesis using that by blast
qed

lemma codec_state_typed_witness:
  "\<exists>s s'. codec_reach 32 quiet_proc s \<and> codec_typed (xb_state (xs_obj s)) \<and> xa_codec_entry 32 quiet_proc 0 96 s = Some (s', 0) \<and>
     stage_step\<^sup>*\<^sup>* (codec_stage (xb_state (xs_obj s))) (codec_stage (xb_state (xs_obj s'))) \<and>
     codec_stage (xb_state (xs_obj s)) = 0 \<and> codec_stage (xb_state (xs_obj s')) = XA_BASE_FLAG_POSTINIT OR XA_BASE_FLAG_RUNTIME_INIT"
proof -
  obtain h where F: "mm_free_set 256 768 0 h {256 ..< 768}" by (rule demo_pool)
  define c0 where "c0 = core_demo\<lparr>c_mem := h\<rparr>"
  have "mm_free_set 256 768 (c_local_pool c0) (c_mem c0) {256 ..< 768}" using F by (simp add: c0_def core_demo_def)
  moreover have "{256 ..< 256 + 192} \<subseteq> {256 ..< 768 :: nat}" by simp
  ultimately obtain s base where f: "xa_audio_codec_factory quiet_proc 0 c0 () = Some (s, base)" "base \<noteq> 0"
    by (rule quiet_codec) simp_all
  define s1 where "s1 = s\<lparr>xs_core := cmd_demo 0x80008000 XF_SET_PARAM 0, xs_plug := ()\<rparr>"
  have r1: "codec_reach 32 quiet_proc s1" unfolding s1_def using f by (intro codec_reach.outside codec_reach.created)
  have st: "xb_state (xs_obj s1) = 0" "xb_entry (xs_obj s1) = XA_Command" using codec_factory_state [OF f] by (simp_all add: s1_def)
  obtain s2 where s2: "xa_base_set_param (xa_codec_hooks 32 quiet_proc) quiet_proc 96 s1 = Some (s2, XA_NO_ERROR)"
    "xb_state (xs_obj s2) = 3" by (rule quiet_set_param [OF st(1)]) (simp_all add: s1_def)
  have "m_opcode (c_msgs (xs_core s1) 96) = XF_SET_PARAM" by (simp add: s1_def cmd_demo_msg)
  then have e: "xa_codec_entry 32 quiet_proc 0 96 s1 = Some (s2, 0)"
    using st(2) s2(1) by (simp add: xa_codec_entry_def xa_base_command_def XF_SET_PARAM_def XF_UNREGISTER_def opcode_type
        XA_CODEC_CMD_NUM_def xa_codec_cmd_def XA_NO_ERROR_def XA_ERROR_SEVERITY_def)
  have "codec_stage (xb_state (xs_obj s1)) = 0" "codec_stage (xb_state (xs_obj s2)) = XA_BASE_FLAG_POSTINIT OR XA_BASE_FLAG_RUNTIME_INIT"
    using st(1) s2(2) by (simp_all add: codec_stage_def base_flag_defs)
  with codec_state_typed [OF r1] r1 e show ?thesis by (intro exI [of _ s1] exI [of _ s2]) blast
qed

text \<open>Isolation: whatever the plugin does and whatever message arrives, entry and exit of a codec touch
  memory, messages and message queues only. The client map, the component ids, the scratch and pool
  addresses and the rings shared with the host stay as they were; that is what serving a core relies
  on for its clients.\<close>

theorem codec_isolated:
  "(case xa_codec_entry al p u m s of
      None \<Rightarrow> True
    | Some (s', r) \<Rightarrow> comp_frame (xs_core s) (xs_core s') \<and> xs_self s' = xs_self s \<and>
        c_cmap (xs_core s') = c_cmap (xs_core s) \<and> c_free (xs_core s') = c_free (xs_core s)) \<and>
   (case xa_codec_exit al m s of
      None \<Rightarrow> True
    | Some (s', r) \<Rightarrow> comp_frame (xs_core s) (xs_core s') \<and> xs_self s' = xs_self s \<and>
        c_cmap (xs_core s') = c_cmap (xs_core s) \<and> c_free (xs_core s') = c_free (xs_core s))"
  using keepsD [OF codec_entry_R, of al p u m s] keepsD [OF codec_exit_R, of al m s]
  by (auto simp: codec_rel_def comp_frame_fields split: option.split)

end
