(* ===== verification/XA_Create.thy ===== *)
theory XA_Create
  imports XA_Codec_Inv
begin

text \<open>
  Creation and destruction of a component against the contract of the allocator: which blocks a
  component holds, that a failed creation gives all of them back, and that the destructor does.
\<close>

section \<open>The free set under other stores\<close>

lemma mm_free_set_out:
  assumes F: "mm_free_set lo hi pool h F" and a: "unat a \<in> {lo ..< hi}" "unat a \<notin> F"
  shows "mm_free_set lo hi pool (h(a := x)) F"
proof -
  obtain bs ls where M: "mm_maps lo hi pool h bs ls" "mset ls = mset bs" and B: "mm_blocks_ok hi (blen h) bs"
    and C: "mm_covered (blen h) bs = F" using F by (auto simp: mm_free_set_def mm_inv_def)
  have P: "mm_pool_ok lo hi pool" and N: "\<And>b. b \<in> set bs \<Longrightarrow> mm_node_ok lo hi b" using M(1) by (auto simp: mm_maps_def)
  have ls: "set ls = set bs" using M(2) by (rule mset_eq_setD)
  have out: "a \<noteq> b" "a \<noteq> mm_a_node b" if b: "b \<in> set bs" for b
  proof -
    have "32 dvd blen h b" "0 < blen h b" using B b by (auto simp: mm_blocks_ok_def)
    then have "32 \<le> blen h b" by (rule dvd_imp_le)
    then have "{unat b ..< unat b + 32} \<subseteq> F" using b unfolding C [symmetric] mm_covered_def by force
    moreover have "unat (mm_a_node b) = unat b + 16" by (rule mm_unat_a_node [OF P N [OF b]])
    ultimately have "unat b \<in> F" "unat (mm_a_node b) \<in> F" by auto
    then show "a \<noteq> b" "a \<noteq> mm_a_node b" using a(2) by auto
  qed
  have pool: "a \<noteq> mm_l_map pool" "a \<noteq> mm_a_map pool"
    using a(1) P mm_unat_a_map [OF P] by (auto simp: mm_pool_ok_def mm_l_map_def)
  have len: "b \<in> set bs \<Longrightarrow> xf_mm_block_length (h(a := x)) b = xf_mm_block_length h b" for b
    using out(1) by (auto simp: xf_mm_block_length_def)
  have "rb_index (h(a := x)) (mm_a_map pool) (map mm_a_node bs)"
    by (rule rb_index_out [of h]) (use M(1) out pool in \<open>auto simp: mm_maps_def\<close>)
  moreover have "rb_index (h(a := x)) (mm_l_map pool) ls"
    by (rule rb_index_out [of h]) (use M(1) out pool ls in \<open>auto simp: mm_maps_def\<close>)
  moreover have "sorted (map (xf_mm_block_length (h(a := x))) ls)"
    by (rule sorted_map_cong [of "xf_mm_block_length h"]) (use M(1) len ls in \<open>auto simp: mm_maps_def\<close>)
  ultimately have "mm_maps lo hi pool (h(a := x)) bs ls" using M(1) by (simp add: mm_maps_def)
  moreover have "mm_blocks_ok hi (blen (h(a := x))) bs" using B mm_blocks_ok_cong [where bs = bs and f = "blen h"] len by metis
  moreover have "mm_covered (blen (h(a := x))) bs = F" unfolding C [symmetric] by (rule mm_covered_cong) (simp add: len)
  ultimately show ?thesis using M(2) by (auto simp: mm_free_set_def mm_inv_def)
qed

section \<open>Blocks a component holds\<close>

abbreviation pool_free :: "nat \<Rightarrow> nat \<Rightarrow> xf_core \<Rightarrow> nat set \<Rightarrow> bool" where
  "pool_free lo hi cd F \<equiv> mm_free_set lo hi (c_local_pool cd) (c_mem cd) F"

definition held :: "xf_mm_buffer \<Rightarrow> (addr \<times> u32) list" where
  "held b = (if mb_addr b = 0 then [] else [(mb_addr b, mb_size b)])"

definition comp_held :: "u32 \<Rightarrow> ('a XACodecBase_scheme, 's) xa_st \<Rightarrow> (addr \<times> u32) list" where
  "comp_held sz s = held (xb_persist (xs_obj s)) @ held (xb_mem_tabs (xs_obj s)) @ held (xb_api (xs_obj s)) @ [(xs_self s, sz)]"

text \<open>The blocks lie apart in F, and exactly the rest of F is free.\<close>

definition owned :: "nat \<Rightarrow> nat \<Rightarrow> nat set \<Rightarrow> u32 \<Rightarrow> ('a XACodecBase_scheme, 's) xa_st \<Rightarrow> bool" where
  "owned lo hi F sz s \<longleftrightarrow>
     spans_apart (comp_held sz s) \<and> spans (comp_held sz s) \<subseteq> F \<and> pool_free lo hi (xs_core s) (F - spans (comp_held sz s)) \<and>
     F \<subseteq> {lo ..< hi}"

lemma free_buffer_seq:
  "xf_mm_free_buffer b 0 cd = map_option (\<lambda>h. cd\<lparr>c_mem := h\<rparr>) (release_seq (xf_mm_free (c_local_pool cd)) (c_mem cd) (held b))"
  by (simp add: xf_mm_free_buffer_def held_def xf_mem_free_def split: option.split)

lemma base_destroy_seq:
  "xa_base_destroy sz 0 s =
     map_option (\<lambda>h. s\<lparr>xs_core := (xs_core s)\<lparr>c_mem := h\<rparr>\<rparr>)
       (release_seq (xf_mm_free (c_local_pool (xs_core s))) (c_mem (xs_core s)) (comp_held sz s))"
proof -
  have f: "xf_mem_free a sz 0 0 cd = map_option (\<lambda>h. cd\<lparr>c_mem := h\<rparr>) (release_seq (xf_mm_free (c_local_pool cd)) (c_mem cd) [(a, sz)])"
    for a cd by (simp add: xf_mem_free_def split: option.split)
  show ?thesis
    unfolding xa_base_destroy_def comp_held_def release_seq_append on_core_def free_buffer_seq f
    by (simp add: option.map_comp comp_def map_option_bind split: option.split bind_splits)
qed

lemma destroy_gives_back:
  assumes "owned lo hi F sz s"
  obtains s' where "xa_base_destroy sz 0 s = Some s'" and "mm_free_set lo hi (c_local_pool (xs_core s)) (c_mem (xs_core s')) F"
proof -
  let ?L = "comp_held sz s"
  have "\<exists>h'. release_seq (xf_mm_free (c_local_pool (xs_core s))) (c_mem (xs_core s)) ?L = Some h' \<and>
      mm_free_set lo hi (c_local_pool (xs_core s)) h' ((F - spans ?L) \<union> spans ?L)"
    by (rule mm.release_run) (use assms in \<open>auto simp: owned_def\<close>)
  moreover have "(F - spans ?L) \<union> spans ?L = F" using assms by (auto simp: owned_def)
  ultimately show thesis using that by (auto simp: base_destroy_seq)
qed

section \<open>Allocation of a buffer\<close>

lemma XM_size: "XF_MM n \<noteq> 0 \<Longrightarrow> mm_size_ok (XF_MM n)"
proof -
  have "32 dvd unat (XF_MM n)" unfolding XF_MM_def unat_and_not_31 by simp
  then show "XF_MM n \<noteq> 0 \<Longrightarrow> mm_size_ok (XF_MM n)" by (simp add: unat_gt_0)
qed

lemma alloc_buffer_law:
  assumes F: "pool_free lo hi cd F" and lo: "0 < lo"
  obtains h b' r where "xf_mm_alloc_buffer n align 0 b cd = Some (cd\<lparr>c_mem := h\<rparr>, b', r)"
    and "spans_apart (held b')" and "spans (held b') \<subseteq> F" and "mm_free_set lo hi (c_local_pool cd) h (F - spans (held b'))"
proof (cases "XF_MM n = 0")
  case True
  then show thesis using F by (intro that [of "c_mem cd" "b\<lparr>mb_addr := 0, mb_size := 0\<rparr>" "Inr ()"])
    (simp_all add: xf_mm_alloc_buffer_def held_def)
next
  case False
  note sz = XM_size [OF False]
  from F sz lo show thesis
  proof (rule xf_mem_alloc_cases [where al = align and s = 0])
    assume "xf_mem_alloc (XF_MM n) align 0 0 cd = Some (cd, 0)"
    then show thesis using F False by (intro that [of "c_mem cd" "b\<lparr>mb_addr := 0\<rparr>" "Inl ENOMEM"])
      (simp_all add: xf_mm_alloc_buffer_def held_def Let_def)
  next
    fix h a
    assume "xf_mem_alloc (XF_MM n) align 0 0 cd = Some (cd\<lparr>c_mem := h\<rparr>, a)" "a \<noteq> 0" "32 dvd unat a" "span a (XF_MM n) \<subseteq> F"
      "mm_free_set lo hi (c_local_pool cd) h (F - span a (XF_MM n))"
    then show thesis using False sz by (intro that [of h "b\<lparr>mb_addr := a, mb_size := XF_MM n\<rparr>" "Inr ()"])
      (simp_all add: xf_mm_alloc_buffer_def held_def Let_def spans_apart_Cons)
  qed
qed

section \<open>Creation\<close>

text \<open>A method that returns, and establishes P.\<close>

definition yields :: "(('o, 's) xa_st \<Rightarrow> bool) \<Rightarrow> ('o, 's) xa_res \<Rightarrow> bool" where
  "yields P r \<longleftrightarrow> (\<exists>s e. r = Some (s, e) \<and> P s)"

lemma yields_Some [simp]: "yields P (Some (s, e)) = P s"
  by (simp add: yields_def)

lemma yields_XF_CHK: "P s \<Longrightarrow> (c \<Longrightarrow> yields P (k s)) \<Longrightarrow> yields P (XF_CHK c err s k)"
  by (simp add: XF_CHK_def)

lemma call_owned:
  assumes "xa_call p cmd i pv s = (s', v, e)"
  shows "xs_obj s' = xs_obj s" and "xs_self s' = xs_self s" and "owned lo hi F sz s' = owned lo hi F sz s"
    and "c_comp_id (xs_core s') = c_comp_id (xs_core s)"
proof -
  obtain d w where "s' = s\<lparr>xs_core := (xs_core s)\<lparr>c_data := d\<rparr>, xs_plug := w\<rparr>"
    using assms by (auto simp: xa_call_def Let_def split: prod.splits)
  then show "xs_obj s' = xs_obj s" "xs_self s' = xs_self s" "owned lo hi F sz s' = owned lo hi F sz s"
    "c_comp_id (xs_core s') = c_comp_id (xs_core s)"
    by (simp_all add: owned_def comp_held_def)
qed

lemma yields_API:
  assumes "owned lo hi F sz s"
    and "\<And>s' v. owned lo hi F sz s' \<Longrightarrow> xs_obj s' = xs_obj s \<Longrightarrow> xs_self s' = xs_self s \<Longrightarrow> yields (owned lo hi F sz) (k s' v)"
  shows "yields (owned lo hi F sz) (XA_API p cmd i pv s k)"
proof -
  obtain s' v e where c: "xa_call p cmd i pv s = (s', v, e)" by (cases "xa_call p cmd i pv s")
  show ?thesis using call_owned [OF c] assms by (simp add: XA_API_def c)
qed

lemma spans_apart_held:
  "spans_apart (held b) \<Longrightarrow> spans_apart L \<Longrightarrow> spans (held b) \<inter> spans L = {} \<Longrightarrow> spans_apart (held b @ L)"
  by (auto simp: held_def spans_apart_Cons split: if_splits)

lemma spans_held_append [simp]: "spans (xs @ L) = spans xs \<union> spans L"
  by (simp add: spans_def)

lemma yields_XMALLOC:
  assumes o: "owned lo hi F sz s" and lo: "0 < lo"
    and w: "\<And>b cd. mset (comp_held sz (s\<lparr>xs_core := cd, xs_obj := wr b (xs_obj s)\<rparr>)) = mset (held b @ comp_held sz s)"
    and k: "\<And>cd b. owned lo hi F sz (s\<lparr>xs_core := cd, xs_obj := wr b (xs_obj s)\<rparr>) \<Longrightarrow>
        yields (owned lo hi F sz) (k (s\<lparr>xs_core := cd, xs_obj := wr b (xs_obj s)\<rparr>))"
  shows "yields (owned lo hi F sz) (XMALLOC rd wr n align 0 s k)"
proof -
  let ?L = "comp_held sz s"
  have "pool_free lo hi (xs_core s) (F - spans ?L)" using o by (simp add: owned_def)
  then obtain h b r where a: "xf_mm_alloc_buffer n align 0 (rd (xs_obj s)) (xs_core s) = Some ((xs_core s)\<lparr>c_mem := h\<rparr>, b, r)"
    "spans_apart (held b)" "spans (held b) \<subseteq> F - spans ?L"
    "mm_free_set lo hi (c_local_pool (xs_core s)) h (F - spans ?L - spans (held b))"
    using lo by (rule alloc_buffer_law)
  let ?s = "s\<lparr>xs_core := (xs_core s)\<lparr>c_mem := h\<rparr>, xs_obj := wr b (xs_obj s)\<rparr>"
  have "spans_apart (held b @ ?L)" using a(2,3) o by (intro spans_apart_held) (auto simp: owned_def)
  moreover have "F - spans ?L - spans (held b) = F - spans (held b @ ?L)" by auto
  ultimately have "owned lo hi F sz ?s"
    using spans_perm [OF w [of b "(xs_core s)\<lparr>c_mem := h\<rparr>"]] a(3,4) o by (auto simp: owned_def)
  then show ?thesis using k by (auto simp: XMALLOC_def a(1) Let_def split: sum.split)
qed

lemma preinit_owned:
  fixes s :: "('a XACodecBase_scheme, 's) xa_st" and p :: "'s xa_proc"
  assumes o: "owned lo hi F sz s" and lo: "0 < lo" and z: "held (xb_api (xs_obj s)) = []" "held (xb_mem_tabs (xs_obj s)) = []"
  shows "yields (owned lo hi F sz) (xa_base_preinit p 0 s)"
proof -
  let ?tabs = "\<lambda>m (s :: ('a XACodecBase_scheme, 's) xa_st). XMALLOC xb_mem_tabs (\<lambda>b o'. o'\<lparr>xb_mem_tabs := b\<rparr>) m 4 0 s (\<lambda>s.
    XA_API p XA_API_CMD_SET_MEMTABS_PTR 0 (PvPtr (mb_addr (xb_mem_tabs (xs_obj s)))) s (\<lambda>s _. Some (s, XA_NO_ERROR)))"
  let ?init = "\<lambda>(s :: ('a XACodecBase_scheme, 's) xa_st). XA_API p XA_API_CMD_INIT XA_CMD_TYPE_INIT_API_PRE_CONFIG_PARAMS PvNull s (\<lambda>s _.
    XA_API p XA_API_CMD_GET_MEMTABS_SIZE 0 PvOut s (\<lambda>s n. if n \<noteq> 0 then ?tabs n s else Some (s, XA_NO_ERROR)))"
  have tabs: "yields (owned lo hi F sz) (?tabs m s')" if "owned lo hi F sz s'" "held (xb_mem_tabs (xs_obj s')) = []" for m s'
    by (rule yields_XMALLOC [OF that(1) lo]) (use that(2) in \<open>auto simp: comp_held_def intro: yields_API\<close>)
  have init: "yields (owned lo hi F sz) (?init s')" if "owned lo hi F sz s'" "held (xb_mem_tabs (xs_obj s')) = []" for s'
    by (rule yields_API [OF that(1)], rule yields_API, assumption) (use that(2) in \<open>auto intro: tabs\<close>)
  show ?thesis
    unfolding xa_base_preinit_def
  proof (rule yields_XF_CHK, rule o, rule yields_API, rule o)
    fix s1 :: "('a XACodecBase_scheme, 's) xa_st" and n
    assume 1: "owned lo hi F sz s1" "xs_obj s1 = xs_obj s"
    show "yields (owned lo hi F sz) (XMALLOC xb_api (\<lambda>b o'. o'\<lparr>xb_api := b\<rparr>) n 4 0 s1 ?init)"
      by (rule yields_XMALLOC [OF 1(1) lo]) (use z 1(2) in \<open>auto simp: comp_held_def intro: init\<close>)
  qed
qed

lemma owned_obj: "comp_held sz s' = comp_held sz s \<Longrightarrow> xs_core s' = xs_core s \<Longrightarrow> owned lo hi F sz s' = owned lo hi F sz s"
  by (simp add: owned_def)

text \<open>Creation changes the buffers of the base class, and nothing else of the structure.\<close>

definition base_only :: "('a XACodecBase_scheme, 's) xa_st \<Rightarrow> ('a XACodecBase_scheme, 's) xa_st \<Rightarrow> bool" where
  "base_only s s' \<longleftrightarrow>
     comp_frame (xs_core s) (xs_core s') \<and> xs_self s' = xs_self s \<and> xb_state (xs_obj s') = xb_state (xs_obj s) \<and>
     xb_entry (xs_obj s') = xb_entry (xs_obj s) \<and> xb_exit (xs_obj s') = xb_exit (xs_obj s) \<and>
     XACodecBase.more (xs_obj s') = XACodecBase.more (xs_obj s)"

interpretation base_only: xa_basic base_only
proof unfold_locales
  fix s s1 s2 :: "('a XACodecBase_scheme, 's) xa_st"
  assume "base_only s s1" "base_only s1 s2"
  then show "base_only s s2" using comp_frame_trans [of "xs_core s" "xs_core s1" "xs_core s2"] by (simp add: base_only_def)
qed (simp_all add: base_only_def upd_obj_def)

lemma base_factory_owned:
  fixes z :: "'a XACodecBase_scheme" and p :: "'s xa_proc"
  assumes F: "mm_free_set lo hi (c_local_pool cd) (c_mem cd) F" and lo: "0 < lo"
    and sz: "mm_size_ok sz" "sizeof_XACodecBase \<le> sz" and z: "held (xb_api z) = []" "held (xb_mem_tabs z) = []" "held (xb_persist z) = []"
  obtains s base where "xa_base_factory p z 0 sz cd w = Some (s, base)"
    and "base = 0 \<Longrightarrow> mm_free_set lo hi (c_local_pool cd) (c_mem (xs_core s)) F"
    and "base \<noteq> 0 \<Longrightarrow> owned lo hi F sz s" and "base \<noteq> 0 \<Longrightarrow> xs_self s = base"
    and "base \<noteq> 0 \<Longrightarrow> c_comp_id (xs_core s) base = 0"
    and "base \<noteq> 0 \<Longrightarrow> c_local_pool (xs_core s) = c_local_pool cd"
    and "base \<noteq> 0 \<Longrightarrow> xb_state (xs_obj s) = xb_state z"
    and "base \<noteq> 0 \<Longrightarrow> XACodecBase.more (xs_obj s) = XACodecBase.more z"
proof -
  let ?z = "\<lparr>parent = 0, left = 0, right = 0, color = 0\<rparr>"
  from F sz(1) lo show thesis
  proof (rule xf_mem_alloc_cases [where al = 0 and s = 0])
    assume "xf_mem_alloc sz 0 0 0 cd = Some (cd, 0)"
    then show thesis using F sz(2)
      by (intro that [of "\<lparr>xs_core = cd, xs_self = 0, xs_obj = z, xs_plug = w\<rparr>" 0]) (simp_all add: xa_base_factory_def)
  next
    fix h a
    assume a: "xf_mem_alloc sz 0 0 0 cd = Some (cd\<lparr>c_mem := h\<rparr>, a)" "a \<noteq> 0" "32 dvd unat a" "span a sz \<subseteq> F"
      "mm_free_set lo hi (c_local_pool cd) h (F - span a sz)"
    define s0 where "s0 = \<lparr>xs_core = cd\<lparr>c_mem := h(a := ?z), c_comp_id := (c_comp_id cd)(a := 0)\<rparr>, xs_self = a,
      xs_obj = z\<lparr>xb_entry := XA_Command\<rparr>, xs_plug = w\<rparr>"
    have ina: "unat a \<in> span a sz" using sz(1) by (simp add: unat_gt_0)
    then have "unat a \<in> {lo ..< hi}" using a(4) mm.inv_range [OF F] by blast
    then have "mm_free_set lo hi (c_local_pool cd) (h(a := ?z)) (F - span a sz)"
      using ina by (intro mm_free_set_out [OF a(5)]) simp_all
    then have o0: "owned lo hi F sz s0" using a(3,4) mm.inv_range [OF F] z sz(1)
      by (simp add: owned_def comp_held_def held_def s0_def spans_apart_Cons)
    have "yields (owned lo hi F sz) (xa_base_preinit p 0 s0)"
      by (rule preinit_owned [OF o0 lo]) (use z in \<open>simp_all add: s0_def held_def\<close>)
    then obtain s1 e where s1: "xa_base_preinit p 0 s0 = Some (s1, e)" "owned lo hi F sz s1" by (auto simp: yields_def)
    have r: "base_only s0 s1" by (rule keepsD [OF base_only.preinit_R [OF base_only.R_refl] s1(1)])
    have fr: "c_local_pool (xs_core s1) = c_local_pool cd" "c_comp_id (xs_core s1) a = 0" "xs_self s1 = a"
      "xb_state (xs_obj s1) = xb_state z" "XACodecBase.more (xs_obj s1) = XACodecBase.more z"
      using r comp_frame_fields [of "xs_core s0" "xs_core s1"] by (simp_all add: base_only_def s0_def)
    have f: "xa_base_factory p z 0 sz cd w =
        (if e \<noteq> XA_NO_ERROR then map_option (\<lambda>s. (s, 0)) (xa_base_destroy sz 0 s1) else Some (s1, a))"
      using a(1,2) s1(1) sz(2) unfolding xa_base_factory_def by (simp add: Let_def upd_core_def upd_obj_def s0_def [symmetric])
    show thesis
    proof (cases "e = XA_NO_ERROR")
      case False
      from s1(2) obtain s' where "xa_base_destroy sz 0 s1 = Some s'"
        "mm_free_set lo hi (c_local_pool (xs_core s1)) (c_mem (xs_core s')) F" by (rule destroy_gives_back)
      then show thesis using False fr(1) by (intro that [of s' 0]) (simp_all add: f)
    next
      case True
      then show thesis using s1(2) fr a(2) by (intro that [of s1 a]) (simp_all add: f)
    qed
  qed
qed

text \<open>A codec without ports is destroyed by the base class alone.\<close>

lemma codec_destroy_no_ports:
  assumes o: "owned lo hi F (XF_MM sizeof_XAAudioCodec) s" and c: "c_comp_id (xs_core s) (xs_self s) = 0"
    and i: "ip_flags (xc_input (xs_obj s)) = 0" and j: "op_flags (xc_output (xs_obj s)) = 0"
  obtains s' where "xa_audio_codec_destroy al s = Some (s', 0)"
    and "mm_free_set lo hi (c_local_pool (xs_core s)) (c_mem (xs_core s')) F"
proof -
  let ?s = "put_out (xs_core s) ((xc_output (xs_obj s))\<lparr>op_flags := 0\<rparr>) (put_in (xs_core s) (xc_input (xs_obj s)) s)"
  have "owned lo hi F (XF_MM sizeof_XAAudioCodec) ?s"
    using o by (subst owned_obj [of _ _ s]) (simp_all add: comp_held_def put_in_def put_out_def)
  then obtain s' where s': "xa_base_destroy (XF_MM sizeof_XAAudioCodec) 0 ?s = Some s'"
    "mm_free_set lo hi (c_local_pool (xs_core s)) (c_mem (xs_core s')) F"
    by (rule destroy_gives_back) (simp add: put_in_def put_out_def)
  have "XF_PORT_CORE 0 = 0" by (simp add: XF_PORT_CORE_def)
  then have "xa_audio_codec_destroy al s = Some (s', 0)"
    using s'(1) c i j by (simp add: xa_audio_codec_destroy_def xf_component_core_def xf_input_port_destroy_def
        xf_input_port_created_def xf_output_port_destroy_def xf_output_port_routed_def put_in_def put_out_def)
  with s'(2) that show thesis by blast
qed

text \<open>C28: Creation and destruction of a codec leave no memory behind, whatever sizes and errors the plugin
  reports: creation always returns; when it fails, everything it allocated is free again; when it
  succeeds, the structure and the buffers of the component come out of the free memory, the component
  is not yet configured, and destroying it restores the free memory exactly.\<close>

theorem codec_creation_round_trip:
  assumes F: "mm_free_set lo hi (c_local_pool cd) (c_mem cd) F" and lo: "0 < lo"
  shows "\<exists>s base. xa_audio_codec_factory p 0 cd w = Some (s, base) \<and>
    (if base = 0 then mm_free_set lo hi (c_local_pool cd) (c_mem (xs_core s)) F
     else span base (XF_MM sizeof_XAAudioCodec) \<subseteq> F \<and> xb_state (xs_obj s) = 0 \<and>
       (\<exists>G. G \<subseteq> F - span base (XF_MM sizeof_XAAudioCodec) \<and> mm_free_set lo hi (c_local_pool cd) (c_mem (xs_core s)) G) \<and>
       (\<exists>s'. xa_audio_codec_destroy al s = Some (s', 0) \<and> mm_free_set lo hi (c_local_pool cd) (c_mem (xs_core s')) F))"
proof -
  have n: "mm_size_ok (192 :: u32)" by simp
  have sz: "sizeof_XACodecBase \<le> 192" by (simp add: sizeof_XACodecBase_def)
  from F lo n sz obtain s base where f: "xa_base_factory p codec_zero 0 192 cd w = Some (s, base)"
    and c: "base = 0 \<Longrightarrow> mm_free_set lo hi (c_local_pool cd) (c_mem (xs_core s)) F" "base \<noteq> 0 \<Longrightarrow> owned lo hi F 192 s"
      "base \<noteq> 0 \<Longrightarrow> xs_self s = base" "base \<noteq> 0 \<Longrightarrow> c_comp_id (xs_core s) base = 0"
      "base \<noteq> 0 \<Longrightarrow> c_local_pool (xs_core s) = c_local_pool cd"
      "base \<noteq> 0 \<Longrightarrow> xb_state (xs_obj s) = xb_state codec_zero"
      "base \<noteq> 0 \<Longrightarrow> XACodecBase.more (xs_obj s) = XACodecBase.more codec_zero"
    by (rule base_factory_owned [where z = codec_zero and p = p and w = w]) (simp_all add: held_def codec_zero_def)
  show ?thesis
  proof (cases "base = 0")
    case True
    then show ?thesis using c(1) f by (simp add: xa_audio_codec_factory_def codec_size)
  next
    case False
    let ?s = "upd_obj (\<lambda>c. c\<lparr>xb_exit := XA_Cleanup\<rparr>) s"
    have o: "owned lo hi F (XF_MM sizeof_XAAudioCodec) ?s" unfolding codec_size
      using c(2) False by (subst owned_obj [of _ _ s]) (simp_all add: comp_held_def upd_obj_def)
    have ports: "ip_flags (xc_input (xs_obj s)) = 0" "op_flags (xc_output (xs_obj s)) = 0"
      using c(7) False by (cases "xs_obj s"; simp add: codec_zero_def)+
    have d: "\<exists>s'. xa_audio_codec_destroy al ?s = Some (s', 0) \<and> mm_free_set lo hi (c_local_pool cd) (c_mem (xs_core s')) F"
      by (rule codec_destroy_no_ports [OF o]) (use c(3-5) False ports in \<open>auto simp: upd_obj_def\<close>)
    have i: "span base 192 \<subseteq> spans (comp_held 192 s)" "spans (comp_held 192 s) \<subseteq> F"
      using c(2,3) False by (auto simp: comp_held_def owned_def)
    have g: "mm_free_set lo hi (c_local_pool cd) (c_mem (xs_core ?s)) (F - spans (comp_held 192 s))"
      using c(2,5) False by (simp add: owned_def upd_obj_def)
    have "xb_state (xs_obj ?s) = 0" using c(6) False by (simp add: codec_zero_def upd_obj_def)
    then show ?thesis
      unfolding xa_audio_codec_factory_def codec_size f using False d g i
      by (intro exI [of _ ?s] exI [of _ base]) (auto intro!: exI [of _ "F - spans (comp_held 192 s)"])
  qed
qed

text \<open>An empty pool of 512 bytes and a plugin that asks for 40 bytes, and for tables of 8 bytes.\<close>

definition hungry_proc :: "unit xa_proc" where
  "hungry_proc a cmd i pv d w =
     (d, w, if cmd = XA_API_CMD_GET_API_SIZE then 40 else if cmd = XA_API_CMD_GET_MEMTABS_SIZE then 8 else 0, 0)"

lemma codec_creation_round_trip_witness:
  "\<exists>h s base. mm_free_set 256 768 0 h {256 ..< 768} \<and>
     xa_audio_codec_factory hungry_proc 0 (core_demo\<lparr>c_mem := h\<rparr>) () = Some (s, base) \<and>
     (base = 0 \<and> mm_free_set 256 768 0 (c_mem (xs_core s)) {256 ..< 768} \<or>
      (\<exists>s'. xa_audio_codec_destroy 32 s = Some (s', 0) \<and> mm_free_set 256 768 0 (c_mem (xs_core s')) {256 ..< 768}))"
proof -
  obtain h where F: "mm_free_set 256 768 0 h {256 ..< 768}" by (rule demo_pool)
  have "mm_free_set 256 768 (c_local_pool (core_demo\<lparr>c_mem := h\<rparr>)) (c_mem (core_demo\<lparr>c_mem := h\<rparr>)) {256 ..< 768}"
    using F by (simp add: core_demo_def)
  from codec_creation_round_trip [OF this, of hungry_proc "()" 32] F show ?thesis
    by (intro exI [of _ h]) (force simp: core_demo_def split: if_splits)
qed

end
