(* ===== verification/XP_Api.thy ===== *)
theory XP_Api
  imports XA_Create
begin

text \<open>
  What the plugins share (plugins/cadence): the last argument of the entry point as they use it, 16-bit
  samples in memory, and results. The structure a plugin keeps in the memory the base class allocates
  for it is the state of the model; the entry point gets its address, which is NULL until then.
  The argument u stands for what an uninitialised variable of the caller holds.
\<close>

section \<open>Arguments and results\<close>

type_synonym 's xp_cmd = "u32 \<Rightarrow> addr \<Rightarrow> u32 \<Rightarrow> xa_pv \<Rightarrow> (addr \<Rightarrow> u8) \<Rightarrow> 's \<Rightarrow> (addr \<Rightarrow> u8) \<times> 's \<times> u32 \<times> u32"

text \<open>Is the pointer NULL; the address it holds (that of a variable of the caller is not kept by a
  plugin); reading and writing what it points to.\<close>

fun pv_null :: "xa_pv \<Rightarrow> bool" where
  "pv_null PvNull = True"
| "pv_null (PvPtr a) = (a = 0)"
| "pv_null PvOut = False"
| "pv_null (PvVal v) = False"

fun pv_addr :: "xa_pv \<Rightarrow> addr" where
  "pv_addr (PvPtr a) = a"
| "pv_addr _ = 0"

fun pv_read :: "u32 \<Rightarrow> (addr \<Rightarrow> u8) \<Rightarrow> xa_pv \<Rightarrow> u32" where
  "pv_read u d (PvPtr a) = mem_read32 d a"
| "pv_read u d (PvVal v) = v"
| "pv_read u d _ = u"

definition xp_ret :: "u32 \<Rightarrow> u32 \<Rightarrow> (addr \<Rightarrow> u8) \<Rightarrow> 's \<Rightarrow> (addr \<Rightarrow> u8) \<times> 's \<times> u32 \<times> u32" where
  "xp_ret e u d w = (d, w, u, e)"

fun xp_put :: "u32 \<Rightarrow> u32 \<Rightarrow> xa_pv \<Rightarrow> (addr \<Rightarrow> u8) \<Rightarrow> 's \<Rightarrow> (addr \<Rightarrow> u8) \<times> 's \<times> u32 \<times> u32" where
  "xp_put v u (PvPtr a) d w = xp_ret XA_NO_ERROR u (mem_write32 d a v) w"
| "xp_put v u PvOut d w = xp_ret XA_NO_ERROR v d w"
| "xp_put v u _ d w = xp_ret XA_NO_ERROR u d w"

text \<open>The check of a condition that returns the error when it fails.\<close>

definition xp_chk :: "bool \<Rightarrow> u32 \<Rightarrow> u32 \<Rightarrow> (addr \<Rightarrow> u8) \<Rightarrow> 's \<Rightarrow> (addr \<Rightarrow> u8) \<times> 's \<times> u32 \<times> u32 \<Rightarrow> (addr \<Rightarrow> u8) \<times> 's \<times> u32 \<times> u32" where
  "xp_chk c e u d w k = (if c then k else xp_ret e u d w)"

lemma xp_put_state [simp]: "fst (snd (xp_put v u pv d w)) = w"
  by (cases pv) (simp_all add: xp_ret_def)

lemma xp_chk_state [simp]: "fst (snd (xp_chk c e u d w k)) = (if c then fst (snd k) else w)"
  by (simp add: xp_chk_def xp_ret_def)

lemma xp_ret_state [simp]: "fst (snd (xp_ret e u d w)) = w"
  by (simp add: xp_ret_def)

section \<open>Samples\<close>

definition mem_write16 :: "(addr \<Rightarrow> u8) \<Rightarrow> addr \<Rightarrow> u16 \<Rightarrow> addr \<Rightarrow> u8" where
  "mem_write16 d a v = d(a := ucast v, a + 1 := ucast (drop_bit 8 v))"

lemma bytes16: "(ucast (ucast v :: u8) :: u16) OR push_bit 8 (ucast (ucast (drop_bit 8 v) :: u8)) = v"
  by (rule bit_word_eqI) (auto simp: bit_simps)

lemma mem_write16_read: "mem_read16 (mem_write16 d a v) a = v"
  by (simp add: mem_read16_def mem_write16_def bytes16)

lemma mem_read16_cong: "d a = d' a \<Longrightarrow> d (a + 1) = d' (a + 1) \<Longrightarrow> mem_read16 d a = mem_read16 d' a"
  by (simp add: mem_read16_def)

lemma mem_write16_out: "x \<notin> area a 2 \<Longrightarrow> mem_write16 d a v x = d x"
proof -
  assume "x \<notin> area a 2"
  moreover have "a + of_nat i \<in> area a 2" if "i < 2" for i using that unfolding area_def by blast
  from this [of 0] this [of 1] have "a \<in> area a 2" "a + 1 \<in> area a 2" by simp_all
  ultimately have "x \<noteq> a" "x \<noteq> a + 1" by blast+
  then show ?thesis by (simp add: mem_write16_def)
qed

lemma mem_read32_cong:
  assumes "\<And>i. i < 4 \<Longrightarrow> d (a + of_nat i) = d' (a + of_nat i)"
  shows "mem_read32 d a = mem_read32 d' a"
proof -
  have "d a = d' a" "d (a + 1) = d' (a + 1)" "d (a + 2) = d' (a + 2)" "d (a + 2 + 1) = d' (a + 2 + 1)"
    using assms [of 0] assms [of 1] assms [of 2] assms [of 3] by (simp_all add: add.assoc)
  then show ?thesis unfolding mem_read32_def mem_read16_def by (simp only:)
qed

lemma mem_write32_read: "mem_read32 (mem_write32 d a v) a = v"
proof -
  have n: "a + 1 \<noteq> a" "a + 2 \<noteq> a" "a + 3 \<noteq> a" "a + 2 \<noteq> a + 1" "a + 3 \<noteq> a + 1" "a + 3 \<noteq> a + 2" "a + 2 + 1 = a + 3" by simp_all
  have "mem_write32 d a v a = ucast v" "mem_write32 d a v (a + 1) = ucast (drop_bit 8 v)"
    "mem_write32 d a v (a + 2) = ucast (drop_bit 16 v)" "mem_write32 d a v (a + 3) = ucast (drop_bit 24 v)"
    by (simp_all add: mem_write32_def)
  then have e: "mem_read32 (mem_write32 d a v) a =
      ucast ((ucast (ucast v :: u8) :: u16) OR push_bit 8 (ucast (ucast (drop_bit 8 v) :: u8))) OR
      push_bit 16 (ucast ((ucast (ucast (drop_bit 16 v) :: u8) :: u16) OR push_bit 8 (ucast (ucast (drop_bit 24 v) :: u8))))"
    unfolding mem_read32_def mem_read16_def n(7) by simp
  show ?thesis
    unfolding e
  proof (rule bit_word_eqI)
    fix n assume "n < LENGTH(32)"
    then consider "n < 8" | "8 \<le> n" "n < 16" | "16 \<le> n" "n < 24" | "24 \<le> n" "n < 32" by force
    then show "bit (ucast ((ucast (ucast v :: u8) :: u16) OR push_bit 8 (ucast (ucast (drop_bit 8 v) :: u8))) OR
      push_bit 16 (ucast ((ucast (ucast (drop_bit 16 v) :: u8) :: u16) OR push_bit 8 (ucast (ucast (drop_bit 24 v) :: u8)))) :: u32) n =
        bit v n"
      by cases (auto simp: bit_simps)
  qed
qed

lemma sint_of_int_u32: "- (2 ^ 31) \<le> i \<Longrightarrow> i < 2 ^ 31 \<Longrightarrow> sint (of_int i :: u32) = i"
  by (simp add: signed_of_int signed_take_bit_int_eq_self)

lemma sint_of_int_u16: "- (2 ^ 15) \<le> i \<Longrightarrow> i < 2 ^ 15 \<Longrightarrow> sint (of_int i :: u16) = i"
  by (simp add: signed_of_int signed_take_bit_int_eq_self)

lemma sint_lower_u32: "- 2147483648 \<le> sint (x :: u32)" using sint_ge [of x] by simp
lemma sint_upper_u32: "sint (x :: u32) < 2147483648" using sint_lt [of x] by simp
lemma sint_lower_u16: "- 32768 \<le> sint (x :: u16)" using sint_ge [of x] by simp
lemma sint_upper_u16: "sint (x :: u16) < 32768" using sint_lt [of x] by simp

text \<open>Areas one behind the other do not overlap.\<close>

lemma area_far:
  assumes "unat a + n \<le> unat b" and "unat b + m < 2 ^ 32"
  shows "area a n \<inter> area b m = {}"
proof -
  have "a + of_nat i \<noteq> b + of_nat j" if ij: "i < n" "j < m" for i j
  proof
    assume "a + of_nat i = b + of_nat j"
    then have "(of_nat (unat a + i) :: addr) = of_nat (unat b + j)" by simp
    moreover have "(of_nat (unat a + i) :: addr) = of_nat (unat b + j) \<longleftrightarrow> unat a + i = unat b + j"
      by (rule of_nat_u32_eq) (use ij assms in linarith)+
    ultimately show False using ij assms(1) by linarith
  qed
  then show ?thesis by (auto simp: area_def)
qed

end
