(* ===== verification/XA_Mixer.thy ===== *)
theory XA_Mixer
  imports XA_Base XF_Timebase
begin

text \<open>
  The mixer component (audio/xa-class-mixer.c): four input tracks and one output port around a mixing
  plugin. A track has an input port and a presentation timestamp; its state is kept in the custom
  flags of the port. The BUG checks are compiled out.
\<close>

section \<open>The structure\<close>

definition XA_MIXER_CONFIG_PARAM_INPUT_TRACKS :: u32 where "XA_MIXER_CONFIG_PARAM_INPUT_TRACKS = 0"
definition XA_MIXER_CONFIG_PARAM_PCM_WIDTH :: u32 where "XA_MIXER_CONFIG_PARAM_PCM_WIDTH = 1"
definition XA_MIXER_CONFIG_PARAM_CHANNELS :: u32 where "XA_MIXER_CONFIG_PARAM_CHANNELS = 2"
definition XA_MIXER_CONFIG_PARAM_SAMPLE_RATE :: u32 where "XA_MIXER_CONFIG_PARAM_SAMPLE_RATE = 4"
definition XA_MIXER_CONFIG_PARAM_FRAME_SIZE :: u32 where "XA_MIXER_CONFIG_PARAM_FRAME_SIZE = 5"
definition XA_MIXER_CONFIG_PARAM_BUFFER_SIZE :: u32 where "XA_MIXER_CONFIG_PARAM_BUFFER_SIZE = 6"
definition XA_MIXER_CONFIG_PARAM_VOLUME :: u32 where "XA_MIXER_CONFIG_PARAM_VOLUME = 7"

definition XA_CODEC_MIXER :: u32 where "XA_CODEC_MIXER = 1"
definition XA_MIXER_MAX_TRACK_NUMBER :: u32 where "XA_MIXER_MAX_TRACK_NUMBER = 4"

definition XA_MIXER_CONFIG_FATAL_RANGE :: u32 where
  "XA_MIXER_CONFIG_FATAL_RANGE = XA_ERROR_CODE xa_severity_fatal xa_class_config XA_CODEC_MIXER 0"
definition XA_MIXER_EXEC_NONFATAL_NO_DATA :: u32 where
  "XA_MIXER_EXEC_NONFATAL_NO_DATA = XA_ERROR_CODE xa_severity_nonfatal xa_class_execute XA_CODEC_MIXER 1"
definition XA_MIXER_EXEC_FATAL_STATE :: u32 where
  "XA_MIXER_EXEC_FATAL_STATE = XA_ERROR_CODE xa_severity_fatal xa_class_execute XA_CODEC_MIXER 0"

record XATrack =
  xt_input :: xf_input_port
  xt_pts :: u32
  xt_decoded :: u32
  xt_rendered :: u32

definition xa_track_test_flags :: "XATrack \<Rightarrow> u32 \<Rightarrow> u32" where
  "xa_track_test_flags track flags = ip_flags (xt_input track) AND flags"

definition track_flags :: "(u32 \<Rightarrow> u32) \<Rightarrow> XATrack \<Rightarrow> XATrack" where
  "track_flags f track = track\<lparr>xt_input := (xt_input track)\<lparr>ip_flags := f (ip_flags (xt_input track))\<rparr>\<rparr>"

definition xa_track_set_flags :: "u32 \<Rightarrow> XATrack \<Rightarrow> XATrack" where
  "xa_track_set_flags flags = track_flags (\<lambda>f. f OR flags)"

definition xa_track_clear_flags :: "u32 \<Rightarrow> XATrack \<Rightarrow> XATrack" where
  "xa_track_clear_flags flags = track_flags (\<lambda>f. f AND NOT flags)"

definition xa_track_toggle_flags :: "u32 \<Rightarrow> XATrack \<Rightarrow> XATrack" where
  "xa_track_toggle_flags flags = track_flags (\<lambda>f. f XOR flags)"

record XAMixer = XACodecBase +
  xm_track :: "XATrack list"
  xm_output :: xf_output_port
  xm_frame_size :: u32
  xm_frame_duration :: u32
  xm_pts :: u32

definition XA_MIXER_FLAG_OUTPUT_SETUP :: u32 where "XA_MIXER_FLAG_OUTPUT_SETUP = XA_BASE_FLAG (push_bit 0 1)"

definition XA_TRACK_FLAG_IDLE :: u32 where "XA_TRACK_FLAG_IDLE = XF_INPUT_FLAG (push_bit 0 1)"
definition XA_TRACK_FLAG_ACTIVE :: u32 where "XA_TRACK_FLAG_ACTIVE = XF_INPUT_FLAG (push_bit 1 1)"
definition XA_TRACK_FLAG_PAUSED :: u32 where "XA_TRACK_FLAG_PAUSED = XF_INPUT_FLAG (push_bit 2 1)"
definition XA_TRACK_FLAG_INPUT_SETUP :: u32 where "XA_TRACK_FLAG_INPUT_SETUP = XF_INPUT_FLAG (push_bit 3 1)"
definition XA_TRACK_FLAG_RECVD_DATA :: u32 where "XA_TRACK_FLAG_RECVD_DATA = XF_INPUT_FLAG (push_bit 4 1)"

lemmas track_flag_defs = XA_TRACK_FLAG_IDLE_def XA_TRACK_FLAG_ACTIVE_def XA_TRACK_FLAG_PAUSED_def
  XA_TRACK_FLAG_INPUT_SETUP_def XA_TRACK_FLAG_RECVD_DATA_def XF_INPUT_FLAG_def

type_synonym 's mixer_st = "(XAMixer, 's) xa_st"
type_synonym 's mixer_res = "(XAMixer, 's) xa_res"

text \<open>A track of the structure, a change of it, and the result of a port operation on it.\<close>

definition mx_track :: "u32 \<Rightarrow> 's mixer_st \<Rightarrow> XATrack" where
  "mx_track i s = xm_track (xs_obj s) ! unat i"

definition upd_track :: "u32 \<Rightarrow> (XATrack \<Rightarrow> XATrack) \<Rightarrow> 's mixer_st \<Rightarrow> 's mixer_st" where
  "upd_track i f s = upd_obj (\<lambda>c. c\<lparr>xm_track := (xm_track c)[unat i := f (xm_track c ! unat i)]\<rparr>) s"

definition put_track :: "u32 \<Rightarrow> xf_core \<Rightarrow> xf_input_port \<Rightarrow> 's mixer_st \<Rightarrow> 's mixer_st" where
  "put_track i cd port s = upd_track i (\<lambda>t. t\<lparr>xt_input := port\<rparr>) (s\<lparr>xs_core := cd\<rparr>)"

definition put_mix :: "xf_core \<Rightarrow> xf_output_port \<Rightarrow> 's mixer_st \<Rightarrow> 's mixer_st" where
  "put_mix cd port s = upd_obj (\<lambda>c. c\<lparr>xm_output := port\<rparr>) (s\<lparr>xs_core := cd\<rparr>)"

definition mx_tracks :: "u32 list" where "mx_tracks = [0, 1, 2, 3]"

section \<open>Helpers\<close>

definition xa_mixer_check_active :: "XAMixer \<Rightarrow> u32" where
  "xa_mixer_check_active mixer =
     fold (\<lambda>i cnt. if xa_track_test_flags (xm_track mixer ! unat i) (XA_TRACK_FLAG_RECVD_DATA OR XA_TRACK_FLAG_ACTIVE) \<noteq> 0
                    then cnt + 1 else cnt) mx_tracks 0"

text \<open>The start message lies in the buffer of the first output message: sample rate, channels, sample
  width, input and output length at offsets 0, 4, 8, 12, 16.\<close>

definition xa_mixer_prepare_runtime :: "'s xa_proc \<Rightarrow> 's mixer_st \<Rightarrow> 's mixer_res" where
  "xa_mixer_prepare_runtime p s =
     (let (q, h, m) = xf_msg_dequeue (op_queue (xm_output (xs_obj s))) (c_msgs (xs_core s));
          s = put_mix ((xs_core s)\<lparr>c_msgs := h\<rparr>) ((xm_output (xs_obj s))\<lparr>op_queue := q\<rparr>) s;
          msg = m_buffer (h m) in
      if m = 0 then None
      else
        XA_API p XA_API_CMD_GET_CONFIG_PARAM XA_MIXER_CONFIG_PARAM_SAMPLE_RATE (PvPtr msg) s (\<lambda>s _.
        XA_API p XA_API_CMD_GET_CONFIG_PARAM XA_MIXER_CONFIG_PARAM_CHANNELS (PvPtr (msg + 4)) s (\<lambda>s _.
        XA_API p XA_API_CMD_GET_CONFIG_PARAM XA_MIXER_CONFIG_PARAM_PCM_WIDTH (PvPtr (msg + 8)) s (\<lambda>s _.
        XA_API p XA_API_CMD_GET_MEM_INFO_SIZE 0 (PvPtr (msg + 12)) s (\<lambda>s _.
        XA_API p XA_API_CMD_GET_MEM_INFO_SIZE XA_MIXER_MAX_TRACK_NUMBER (PvPtr (msg + 16)) s (\<lambda>s _.
        XA_API p XA_API_CMD_GET_CONFIG_PARAM XA_MIXER_CONFIG_PARAM_FRAME_SIZE PvOut s (\<lambda>s frame_size.
          let factor = xf_timebase_factor (mem_read32 (c_data (xs_core s)) msg) in
          XF_CHK (factor \<noteq> 0) XA_MIXER_CONFIG_FATAL_RANGE s (\<lambda>s.
          let s = upd_obj (\<lambda>c. c\<lparr>xm_frame_duration := frame_size * factor\<rparr>) s in
          Option.bind (on_core (xf_response_data m 20) s) xa_ok))))))))"

section \<open>Commands\<close>

text \<open>Processing is scheduled when there is an output message.\<close>

definition mixer_kick :: "'s mixer_st \<Rightarrow> 's mixer_st option" where
  "mixer_kick s = (if xf_output_port_ready (xm_output (xs_obj s)) then xa_base_schedule 0 s else Some s)"

definition xa_mixer_empty_this_buffer :: "addr \<Rightarrow> 's mixer_st \<Rightarrow> 's mixer_res" where
  "xa_mixer_empty_this_buffer m s =
     (let i = XF_MSG_DST_PORT (m_id (c_msgs (xs_core s) m)) in
      XF_CHK (i < XA_MIXER_MAX_TRACK_NUMBER) XA_API_FATAL_INVALID_CMD_TYPE s (\<lambda>s.
      XF_CHK (xb_state (xs_obj s) AND XA_BASE_FLAG_POSTINIT \<noteq> 0) XA_API_FATAL_INVALID_CMD s (\<lambda>s.
      let s = upd_track i (if m_length (c_msgs (xs_core s) m) \<noteq> 0 then xa_track_set_flags XA_TRACK_FLAG_RECVD_DATA
                           else xa_track_clear_flags XA_TRACK_FLAG_RECVD_DATA) s in
      Option.bind (xf_input_port_put (xt_input (mx_track i s)) m (xs_core s)) (\<lambda>(cd, port, first).
        let s = put_track i cd port s in
        if first then
          let s = (if xa_track_test_flags (mx_track i s) XA_TRACK_FLAG_IDLE \<noteq> 0 then
                     upd_track i (\<lambda>t. (xa_track_toggle_flags (XA_TRACK_FLAG_IDLE OR XA_TRACK_FLAG_ACTIVE) t)
                                        \<lparr>xt_pts := xm_pts (xs_obj s)\<rparr>) s
                   else s)
          in Option.bind (mixer_kick s) xa_ok
        else xa_ok s))))"

definition xa_mixer_fill_this_buffer :: "addr \<Rightarrow> 's mixer_st \<Rightarrow> 's mixer_res" where
  "xa_mixer_fill_this_buffer m s =
     (let i = XF_MSG_DST_PORT (m_id (c_msgs (xs_core s) m));
          len = m_length (c_msgs (xs_core s) m) in
      XF_CHK (i = XA_MIXER_MAX_TRACK_NUMBER) XA_API_FATAL_INVALID_CMD_TYPE s (\<lambda>s.
      XF_CHK (xb_state (xs_obj s) AND XA_BASE_FLAG_POSTINIT \<noteq> 0) XA_API_FATAL_INVALID_CMD s (\<lambda>s.
      XF_CHK (if xb_state (xs_obj s) AND XA_BASE_FLAG_RUNTIME_INIT \<noteq> 0 then len = 0
              else len \<noteq> 0 \<longrightarrow> len = op_length (xm_output (xs_obj s))) XA_MIXER_EXEC_FATAL_STATE s (\<lambda>s.
        let (cd, port, first) = xf_output_port_put (xm_output (xs_obj s)) m (xs_core s);
            s = put_mix cd port s in
        if first then Option.bind (xa_base_schedule 0 s) xa_ok else xa_ok s))))"

definition xa_mixer_port_route :: "u32 \<Rightarrow> addr \<Rightarrow> 's mixer_st \<Rightarrow> 's mixer_res" where
  "xa_mixer_port_route al m s =
     (let cmd = m_buffer (c_msgs (xs_core s) m);
          rd = (\<lambda>i. mem_read32 (c_data (xs_core s)) (cmd + i));
          src = XF_MSG_DST (m_id (c_msgs (xs_core s) m));
          dst = rd 4 in
      XF_CHK (xb_state (xs_obj s) AND XA_BASE_FLAG_POSTINIT \<noteq> 0) XA_API_FATAL_INVALID_CMD s (\<lambda>s.
      XF_CHK (XF_MSG_DST_PORT (m_id (c_msgs (xs_core s) m)) = XA_MIXER_MAX_TRACK_NUMBER) XA_API_FATAL_INVALID_CMD_TYPE s (\<lambda>s.
      XF_CHK (\<not> xf_output_port_routed (xm_output (xs_obj s))) XA_API_FATAL_INVALID_CMD_TYPE s (\<lambda>s.
      Option.bind (xf_output_port_route al (xm_output (xs_obj s)) (XF_MSG_ID dst src) (rd 8) (rd 12) (rd 16) (xs_core s))
        (\<lambda>(cd, port, r).
          let s = put_mix cd port s in
          case r of
            Inl _ \<Rightarrow> Some (s, XA_API_FATAL_MEM_ALLOC)
          | Inr _ \<Rightarrow>
              Option.bind (xa_base_schedule 0 s) (\<lambda>s.
              Option.bind (on_core (xf_response_ok m) s) xa_ok))))))"

definition xa_mixer_port_unroute :: "u32 \<Rightarrow> addr \<Rightarrow> 's mixer_st \<Rightarrow> 's mixer_res" where
  "xa_mixer_port_unroute al m s =
     XF_CHK (xb_state (xs_obj s) AND XA_BASE_FLAG_POSTINIT \<noteq> 0) XA_API_FATAL_INVALID_CMD s (\<lambda>s.
     XF_CHK (XF_MSG_DST_PORT (m_id (c_msgs (xs_core s) m)) = XA_MIXER_MAX_TRACK_NUMBER) XA_API_FATAL_INVALID_CMD_TYPE s (\<lambda>s.
     Option.bind (xa_base_cancel s) (\<lambda>s.
     let s = set_state (\<lambda>f. f AND NOT XA_MIXER_FLAG_OUTPUT_SETUP) s in
     Option.bind (xf_output_port_flush al (xm_output (xs_obj s)) XF_FLUSH (xs_core s)) (\<lambda>(cd, port, idle).
       let s = put_mix cd port s in
       if idle then
         Option.bind (xf_output_port_unroute al (xm_output (xs_obj s)) (xs_core s)) (\<lambda>(cd, port).
         Option.bind (on_core (xf_response_ok m) (put_mix cd port s)) xa_ok)
       else xa_ok (upd_obj (\<lambda>c. c\<lparr>xm_output := xf_output_port_unroute_start (xm_output c) m\<rparr>) s)))))"

definition xa_mixer_pause :: "addr \<Rightarrow> 's mixer_st \<Rightarrow> 's mixer_res" where
  "xa_mixer_pause m s =
     (let i = XF_MSG_DST_PORT (m_id (c_msgs (xs_core s) m)) in
      XF_CHK (m_length (c_msgs (xs_core s) m) = 0) XA_API_FATAL_INVALID_CMD_TYPE s (\<lambda>s.
      XF_CHK (i < XA_MIXER_MAX_TRACK_NUMBER) XA_API_FATAL_INVALID_CMD_TYPE s (\<lambda>s.
      Option.bind
        (if xa_track_test_flags (mx_track i s) XA_TRACK_FLAG_ACTIVE \<noteq> 0 then
           mixer_kick (upd_track i (xa_track_toggle_flags (XA_TRACK_FLAG_ACTIVE OR XA_TRACK_FLAG_PAUSED)) s)
         else Some s) (\<lambda>s.
      Option.bind (on_core (xf_response m) s) xa_ok))))"

definition xa_mixer_resume :: "addr \<Rightarrow> 's mixer_st \<Rightarrow> 's mixer_res" where
  "xa_mixer_resume m s =
     (let i = XF_MSG_DST_PORT (m_id (c_msgs (xs_core s) m)) in
      XF_CHK (m_length (c_msgs (xs_core s) m) = 0) XA_API_FATAL_INVALID_CMD_TYPE s (\<lambda>s.
      XF_CHK (i < XA_MIXER_MAX_TRACK_NUMBER) XA_API_FATAL_INVALID_CMD_TYPE s (\<lambda>s.
      Option.bind
        (if xa_track_test_flags (mx_track i s) XA_TRACK_FLAG_PAUSED \<noteq> 0 then
           mixer_kick (upd_track i (\<lambda>t. (xa_track_toggle_flags (XA_TRACK_FLAG_ACTIVE OR XA_TRACK_FLAG_PAUSED) t)
                                          \<lparr>xt_pts := xm_pts (xs_obj s)\<rparr>) s)
         else Some s) (\<lambda>s.
      Option.bind (on_core (xf_response m) s) xa_ok))))"

definition xa_mixer_flush :: "u32 \<Rightarrow> addr \<Rightarrow> 's mixer_st \<Rightarrow> 's mixer_res" where
  "xa_mixer_flush al m s =
     (let i = XF_MSG_DST_PORT (m_id (c_msgs (xs_core s) m)) in
      XF_CHK (m_length (c_msgs (xs_core s) m) = 0) XA_API_FATAL_INVALID_CMD_TYPE s (\<lambda>s.
      if i = XA_MIXER_MAX_TRACK_NUMBER then
        XF_CHK (xf_output_port_unrouting (xm_output (xs_obj s))) XA_API_FATAL_INVALID_CMD_TYPE s (\<lambda>s.
        Option.bind (xf_output_port_unroute_done al (xm_output (xs_obj s)) (xs_core s)) (\<lambda>(cd, port). xa_ok (put_mix cd port s)))
      else
        XF_CHK (i < XA_MIXER_MAX_TRACK_NUMBER) XA_API_FATAL_INVALID_CMD_TYPE s (\<lambda>s.
        Option.bind
          (if xa_track_test_flags (mx_track i s) (XA_TRACK_FLAG_ACTIVE OR XA_TRACK_FLAG_PAUSED) \<noteq> 0 then
             Option.bind (xf_input_port_purge (xt_input (mx_track i s)) (xs_core s)) (\<lambda>(cd, port).
             let s = put_track i cd port s;
                 s = upd_track i (xa_track_clear_flags
                       (XA_TRACK_FLAG_ACTIVE OR XA_TRACK_FLAG_PAUSED OR XA_TRACK_FLAG_INPUT_SETUP)) s
             in mixer_kick (upd_track i (xa_track_set_flags XA_TRACK_FLAG_IDLE) s))
           else Some s) (\<lambda>s.
        Option.bind (on_core (xf_response m) s) xa_ok))))"

section \<open>Methods of the base class\<close>

text \<open>The index of the memory table is signed; a negative one would address memory before the tracks.\<close>

definition xa_mixer_memtab ::
  "'s xa_proc \<Rightarrow> u32 \<Rightarrow> u32 \<Rightarrow> u32 \<Rightarrow> u32 \<Rightarrow> u32 \<Rightarrow> 's mixer_st \<Rightarrow> 's mixer_res"
where
  "xa_mixer_memtab p idx type sz align core s =
     (if type = XA_MEMTYPE_INPUT then
        XF_CHK (idx <s XA_MIXER_MAX_TRACK_NUMBER) XA_API_FATAL_INVALID_CMD_TYPE s (\<lambda>s.
        if idx <s 0 then None
        else
          Option.bind (xf_input_port_init (xt_input (mx_track idx s)) sz align core (xs_core s)) (\<lambda>(cd, port, r).
            let s = put_track idx cd port s in
            case r of
              Inl _ \<Rightarrow> Some (s, XA_API_FATAL_MEM_ALLOC)
            | Inr _ \<Rightarrow>
                XA_API p XA_API_CMD_SET_MEM_PTR idx (PvPtr (ip_buffer (xt_input (mx_track idx s)))) s (\<lambda>s _.
                  xa_ok (upd_track idx (xa_track_set_flags XA_TRACK_FLAG_IDLE) s))))
      else
        XF_CHK (type = XA_MEMTYPE_OUTPUT) XA_API_FATAL_INVALID_CMD_TYPE s (\<lambda>s.
        XF_CHK (idx = XA_MIXER_MAX_TRACK_NUMBER) XA_API_FATAL_INVALID_CMD_TYPE s (\<lambda>s.
        XA_API p XA_API_CMD_GET_CONFIG_PARAM XA_MIXER_CONFIG_PARAM_FRAME_SIZE PvOut s (\<lambda>s v.
          let s = upd_obj (\<lambda>c. c\<lparr>xm_frame_size := v\<rparr>) s in
          xa_ok (upd_obj (\<lambda>c. c\<lparr>xm_output := xf_output_port_init (xm_output c) sz\<rparr>) s)))))"

text \<open>The loop of \<open>xa_mixer_preprocess\<close> over the tracks; \<open>e\<close> is the code to return.\<close>

fun mixer_setup :: "'s xa_proc \<Rightarrow> u32 list \<Rightarrow> u32 \<Rightarrow> 's mixer_st \<Rightarrow> 's mixer_res" where
  "mixer_setup p [] e s = Some (s, e)"
| "mixer_setup p (i # is) e s =
     (if xa_track_test_flags (mx_track i s) XA_TRACK_FLAG_ACTIVE = 0 then mixer_setup p is e s
      else if xa_track_test_flags (mx_track i s) XA_TRACK_FLAG_INPUT_SETUP \<noteq> 0 then mixer_setup p is XA_NO_ERROR s
      else if \<not> xf_time_after (xt_pts (mx_track i s)) (xm_pts (xs_obj s)) then
        Option.bind (xf_input_port_fill (xt_input (mx_track i s)) (xs_core s)) (\<lambda>(cd, port, full).
          let s = put_track i cd port s in
          if \<not> full then Some (s, XA_MIXER_EXEC_NONFATAL_NO_DATA)
          else
            XA_API p XA_API_CMD_SET_INPUT_BYTES i (PvVal (xf_input_port_level (xt_input (mx_track i s)))) s (\<lambda>s _.
              mixer_setup p is XA_NO_ERROR (upd_track i (xa_track_set_flags XA_TRACK_FLAG_INPUT_SETUP) s)))
      else mixer_setup p is XA_NO_ERROR (upd_track i (xa_track_set_flags XA_TRACK_FLAG_INPUT_SETUP) s))"

definition xa_mixer_preprocess :: "'s xa_proc \<Rightarrow> 's mixer_st \<Rightarrow> 's mixer_res" where
  "xa_mixer_preprocess p s =
     (let inputs = (\<lambda>s.
            if xa_mixer_check_active (xs_obj s) = 0 then
              Option.bind (xf_output_port_produce (xm_output (xs_obj s)) 0 (xs_core s)) (\<lambda>(cd, port, _).
                mixer_setup p mx_tracks XA_MIXER_EXEC_NONFATAL_NO_DATA (put_mix cd port s))
            else mixer_setup p mx_tracks XA_MIXER_EXEC_NONFATAL_NO_DATA s) in
      if xb_state (xs_obj s) AND XA_MIXER_FLAG_OUTPUT_SETUP = 0 then
        (if xb_state (xs_obj s) AND XA_BASE_FLAG_RUNTIME_INIT \<noteq> 0 then xa_ok s
         else
           let output = xf_output_port_data (xm_output (xs_obj s)) (xs_core s) in
           if output = 0 then Some (s, XA_MIXER_EXEC_NONFATAL_NO_DATA)
           else XA_API p XA_API_CMD_SET_MEM_PTR XA_MIXER_MAX_TRACK_NUMBER (PvPtr output) s (\<lambda>s _.
                  inputs (set_state (\<lambda>f. f XOR XA_MIXER_FLAG_OUTPUT_SETUP) s)))
      else inputs s)"

text \<open>The loop of \<open>xa_mixer_postprocess\<close> over the tracks, followed by k.\<close>

fun mixer_maintain :: "'s xa_proc \<Rightarrow> u32 list \<Rightarrow> 's mixer_st \<Rightarrow> ('s mixer_st \<Rightarrow> 's mixer_res) \<Rightarrow> 's mixer_res" where
  "mixer_maintain p [] s k = k s"
| "mixer_maintain p (i # is) s k =
     (if xa_track_test_flags (mx_track i s) XA_TRACK_FLAG_ACTIVE = 0 then mixer_maintain p is s k
      else
        let s = upd_track i (xa_track_clear_flags XA_TRACK_FLAG_INPUT_SETUP) s;
            s = upd_track i (\<lambda>t. t\<lparr>xt_pts := xt_pts t + xm_frame_size (xs_obj s)\<rparr>) s in
        XA_API p XA_API_CMD_GET_CURIDX_INPUT_BUF i PvOut s (\<lambda>s consumed.
        Option.bind (xf_input_port_consume (xt_input (mx_track i s)) consumed (xs_core s)) (\<lambda>(cd, port).
          let s = put_track i cd port s in
          if xf_input_port_done (xt_input (mx_track i s)) then
            Option.bind (xf_input_port_purge (xt_input (mx_track i s)) (xs_core s)) (\<lambda>(cd, port).
              let s = put_track i cd port s in
              mixer_maintain p is (upd_track i (xa_track_toggle_flags (XA_TRACK_FLAG_ACTIVE OR XA_TRACK_FLAG_IDLE)) s) k)
          else mixer_maintain p is s k)))"

definition mixer_output :: "u32 \<Rightarrow> 's mixer_st \<Rightarrow> 's mixer_res" where
  "mixer_output produced s =
     Option.bind
       (if produced \<noteq> 0 then
          let s = upd_obj (\<lambda>c. c\<lparr>xm_pts := xm_pts c + xm_frame_size c\<rparr>) s in
          Option.bind (xf_output_port_produce (xm_output (xs_obj s)) produced (xs_core s)) (\<lambda>(cd, port, _).
            Some (set_state (\<lambda>f. f AND NOT XA_MIXER_FLAG_OUTPUT_SETUP) (put_mix cd port s)))
        else Some s) (\<lambda>s.
     if xf_output_port_ready (xm_output (xs_obj s)) then
       Option.bind (xa_base_schedule (if produced \<noteq> 0 then xm_frame_duration (xs_obj s) else 0) s) xa_ok
     else xa_ok s)"

definition xa_mixer_postprocess :: "'s xa_proc \<Rightarrow> u32 \<Rightarrow> 's mixer_st \<Rightarrow> 's mixer_res" where
  "xa_mixer_postprocess p d s =
     (if d \<noteq> 0 \<and> xb_state (xs_obj s) AND XA_BASE_FLAG_RUNTIME_INIT = 0 \<and> xb_state (xs_obj s) AND XA_BASE_FLAG_EXECUTION \<noteq> 0 then
        XA_CHK (xa_mixer_prepare_runtime p s) (\<lambda>s e. Some (s, e))
      else
        mixer_maintain p mx_tracks s (\<lambda>s.
        XA_API p XA_API_CMD_GET_OUTPUT_BYTES XA_MIXER_MAX_TRACK_NUMBER PvOut s (\<lambda>s produced. mixer_output produced s)))"

definition xa_mixer_hooks :: "'s xa_proc \<Rightarrow> (XAMixer, 's) xa_hooks" where
  "xa_mixer_hooks p =
     \<lparr>h_memtab = xa_mixer_memtab p, h_preprocess = xa_mixer_preprocess p, h_postprocess = xa_mixer_postprocess p,
      h_setparam = None, h_getparam = None\<rparr>"

section \<open>Entry point, termination, creation\<close>

definition xa_mixer_cmd :: "u32 \<Rightarrow> 's xa_proc \<Rightarrow> (XAMixer, 's) xa_table" where
  "xa_mixer_cmd al p t =
     (if t = XF_OPCODE_TYPE XF_SET_PARAM then Some (xa_base_set_param (xa_mixer_hooks p) p)
      else if t = XF_OPCODE_TYPE XF_GET_PARAM then Some (xa_base_get_param (xa_mixer_hooks p) p)
      else if t = XF_OPCODE_TYPE XF_ROUTE then Some (xa_mixer_port_route al)
      else if t = XF_OPCODE_TYPE XF_UNROUTE then Some (xa_mixer_port_unroute al)
      else if t = XF_OPCODE_TYPE XF_EMPTY_THIS_BUFFER then Some xa_mixer_empty_this_buffer
      else if t = XF_OPCODE_TYPE XF_FILL_THIS_BUFFER then Some xa_mixer_fill_this_buffer
      else if t = XF_OPCODE_TYPE XF_FLUSH then Some (xa_mixer_flush al)
      else if t = XF_OPCODE_TYPE XF_PAUSE then Some xa_mixer_pause
      else if t = XF_OPCODE_TYPE XF_RESUME then Some xa_mixer_resume
      else None)"

definition XA_MIXER_CMD_NUM :: u32 where "XA_MIXER_CMD_NUM = 15"

definition xa_mixer_terminate :: "u32 \<Rightarrow> addr \<Rightarrow> 's mixer_st \<Rightarrow> ('s mixer_st \<times> int) option" where
  "xa_mixer_terminate al m s =
     (let opcode = m_opcode (c_msgs (xs_core s) m) in
      if m = xf_output_port_control_msg al (xm_output (xs_obj s)) then
        Some (upd_obj (\<lambda>c. c\<lparr>xm_output := xf_output_port_flush_done (xm_output c)\<rparr>) s, -1)
      else if opcode = XF_FILL_THIS_BUFFER \<and> xf_output_port_routed (xm_output (xs_obj s)) then Some (s, 0)
      else if opcode = XF_UNREGISTER then Some (s, 0)
      else map_option (\<lambda>s. (s, 0)) (on_core (xf_response_err m) s))"

text \<open>The structure has 79 words: the base class (24), four tracks (11 each), the output port (8) and three
  words.\<close>

definition sizeof_XAMixer :: u32 where "sizeof_XAMixer = 316"

text \<open>The loops over the input ports in the destructor and in the first stage of the destruction.\<close>

fun mixer_inputs ::
  "(xf_input_port \<Rightarrow> xf_core \<Rightarrow> (xf_core \<times> xf_input_port) option) \<Rightarrow> u32 list \<Rightarrow> 's mixer_st \<Rightarrow> 's mixer_st option"
where
  "mixer_inputs f [] s = Some s"
| "mixer_inputs f (i # is) s =
     Option.bind (f (xt_input (mx_track i s)) (xs_core s)) (\<lambda>(cd, port). mixer_inputs f is (put_track i cd port s))"

definition xa_mixer_destroy :: "u32 \<Rightarrow> 's mixer_st \<Rightarrow> ('s mixer_st \<times> int) option" where
  "xa_mixer_destroy al s =
     (let core = xf_component_core (xs_core s) (xs_self s) in
      Option.bind (mixer_inputs (\<lambda>port. xf_input_port_destroy port core) mx_tracks s) (\<lambda>s.
      Option.bind (xf_output_port_destroy al (xm_output (xs_obj s)) core (xs_core s)) (\<lambda>(cd, port).
        map_option (\<lambda>s. (s, 0)) (xa_base_destroy (XF_MM sizeof_XAMixer) core (put_mix cd port s)))))"

definition xa_mixer_cleanup :: "u32 \<Rightarrow> addr \<Rightarrow> 's mixer_st \<Rightarrow> ('s mixer_st \<times> int) option" where
  "xa_mixer_cleanup al m s =
     Option.bind (on_core (xf_response_err m) s) (\<lambda>s.
     Option.bind (xa_base_cancel s) (\<lambda>s.
     Option.bind (mixer_inputs xf_input_port_purge mx_tracks s) (\<lambda>s.
     Option.bind (xf_output_port_flush al (xm_output (xs_obj s)) XF_FLUSH (xs_core s)) (\<lambda>(cd, port, idle).
       let s = put_mix cd port s in
       if idle then xa_mixer_destroy al s
       else Some (upd_obj (\<lambda>c. c\<lparr>xb_entry := XA_Terminate, xb_exit := XA_Destroy\<rparr>) s, 1)))))"

definition xa_mixer_entry :: "u32 \<Rightarrow> 's xa_proc \<Rightarrow> u32 \<Rightarrow> addr \<Rightarrow> 's mixer_st \<Rightarrow> ('s mixer_st \<times> int) option" where
  "xa_mixer_entry al p u m s =
     (case xb_entry (xs_obj s) of
        XA_Command \<Rightarrow> xa_base_command (xa_mixer_hooks p) p u (xa_mixer_cmd al p) XA_MIXER_CMD_NUM m s
      | XA_Terminate \<Rightarrow> xa_mixer_terminate al m s)"

definition xa_mixer_exit :: "u32 \<Rightarrow> addr \<Rightarrow> 's mixer_st \<Rightarrow> ('s mixer_st \<times> int) option" where
  "xa_mixer_exit al m s =
     (case xb_exit (xs_obj s) of
        XA_NoExit \<Rightarrow> None
      | XA_Cleanup \<Rightarrow> xa_mixer_cleanup al m s
      | XA_Destroy \<Rightarrow> xa_mixer_destroy al s)"

text \<open>The structure filled with zeroes.\<close>

definition mixer_zero :: XAMixer where
  "mixer_zero =
     \<lparr>xb_entry = XA_Command, xb_exit = XA_NoExit, xb_api = \<lparr>mb_addr = 0, mb_size = 0\<rparr>,
      xb_mem_tabs = \<lparr>mb_addr = 0, mb_size = 0\<rparr>, xb_persist = \<lparr>mb_addr = 0, mb_size = 0\<rparr>, xb_scratch = 0, xb_state = 0,
      xm_track = replicate 4
        \<lparr>xt_input = \<lparr>ip_queue = \<lparr>q_head = 0, q_tail = 0\<rparr>, ip_buffer = 0, ip_length = 0, ip_filled = 0, ip_access = 0,
                     ip_remaining = 0, ip_flags = 0\<rparr>, xt_pts = 0, xt_decoded = 0, xt_rendered = 0\<rparr>,
      xm_output = \<lparr>op_queue = \<lparr>q_head = 0, q_tail = 0\<rparr>, op_pool = \<lparr>pl_p = 0, pl_head = 0, pl_n = 0\<rparr>, op_unroute = 0,
                   op_length = 0, op_flags = 0\<rparr>,
      xm_frame_size = 0, xm_frame_duration = 0, xm_pts = 0\<rparr>"

definition xa_mixer_factory :: "'s xa_proc \<Rightarrow> u32 \<Rightarrow> xf_core \<Rightarrow> 's \<Rightarrow> ('s mixer_st \<times> addr) option" where
  "xa_mixer_factory p core cd w =
     Option.bind (xa_base_factory p mixer_zero core (XF_MM sizeof_XAMixer) cd w) (\<lambda>(s, base).
       if base = 0 then Some (s, 0) else Some (upd_obj (\<lambda>c. c\<lparr>xb_exit := XA_Cleanup\<rparr>) s, base))"

end
