(* ===== verification/XP_Mixer.thy ===== *)
theory XP_Mixer
  imports XP_Api XA_Mixer
begin

text \<open>
  The mixing plugin (plugins/cadence/mixer/xa-mixer.c): four tracks of 16-bit stereo samples, frames of 512
  samples.
\<close>

section \<open>State\<close>

record XAPcmMixer =
  pm_state :: u32
  pm_frame_size :: u32
  pm_channels :: u32
  pm_pcm_width :: u32
  pm_sample_rate :: u32
  pm_buffer_size :: u32
  pm_volume :: "u32 list"
  pm_input :: "addr list"
  pm_input_length :: "u32 list"
  pm_output :: addr
  pm_produced :: u32
  pm_scratch :: addr

definition XA_MIXER_FLAG_PREINIT_DONE :: u32 where "XA_MIXER_FLAG_PREINIT_DONE = push_bit 0 1"
definition XA_MIXER_FLAG_POSTINIT_DONE :: u32 where "XA_MIXER_FLAG_POSTINIT_DONE = push_bit 1 1"
definition XA_MIXER_FLAG_RUNNING :: u32 where "XA_MIXER_FLAG_RUNNING = push_bit 2 1"
definition XA_MIXER_FLAG_OUTPUT :: u32 where "XA_MIXER_FLAG_OUTPUT = push_bit 3 1"
definition XA_MIXER_FLAG_COMPLETE :: u32 where "XA_MIXER_FLAG_COMPLETE = push_bit 4 1"

definition XA_MIXER_CONFIG_NONFATAL_RANGE :: u32 where
  "XA_MIXER_CONFIG_NONFATAL_RANGE = XA_ERROR_CODE xa_severity_nonfatal xa_class_config XA_CODEC_MIXER 0"
definition XA_MIXER_EXEC_NONFATAL_INPUT :: u32 where
  "XA_MIXER_EXEC_NONFATAL_INPUT = XA_ERROR_CODE xa_severity_nonfatal xa_class_execute XA_CODEC_MIXER 2"
definition XA_MIXER_EXEC_NONFATAL_OUTPUT :: u32 where
  "XA_MIXER_EXEC_NONFATAL_OUTPUT = XA_ERROR_CODE xa_severity_nonfatal xa_class_execute XA_CODEC_MIXER 3"
definition XA_MIXER_EXEC_FATAL_INPUT :: u32 where
  "XA_MIXER_EXEC_FATAL_INPUT = XA_ERROR_CODE xa_severity_fatal xa_class_execute XA_CODEC_MIXER 1"

lemmas mixer_plugin_flag_defs = XA_MIXER_FLAG_PREINIT_DONE_def XA_MIXER_FLAG_POSTINIT_DONE_def XA_MIXER_FLAG_RUNNING_def
  XA_MIXER_FLAG_OUTPUT_def XA_MIXER_FLAG_COMPLETE_def

text \<open>The structure has 22 words.\<close>

definition sizeof_XAPcmMixer :: u32 where "sizeof_XAPcmMixer = 88"

definition xa_mixer_preinit :: XAPcmMixer where
  "xa_mixer_preinit =
     \<lparr>pm_state = 0, pm_frame_size = 512, pm_channels = 2, pm_pcm_width = 16, pm_sample_rate = 0, pm_buffer_size = 0,
      pm_volume = replicate 5 (push_bit 16 (push_bit 12 1) OR push_bit 12 1), pm_input = replicate 4 0,
      pm_input_length = replicate 4 0, pm_output = 0, pm_produced = 0, pm_scratch = 0\<rparr>"

section \<open>Mixing\<close>

definition DSP_SATURATE_S16 :: "u32 \<Rightarrow> u16" where
  "DSP_SATURATE_S16 x = (if 0x7fff <s x then 0x7fff else if x <s -0x8000 then -0x8000 else ucast x)"

text \<open>Preparation of the tracks: the buffer of each with its left and right volume; a short buffer is padded
  with zeroes. Without an input buffer there is no result but the padding done so far.\<close>

fun mix_prepare :: "XAPcmMixer \<Rightarrow> nat list \<Rightarrow> (addr \<Rightarrow> u8) \<Rightarrow> (addr \<Rightarrow> u8) \<times> (addr \<times> u16 \<times> u16) list option" where
  "mix_prepare w [] d = (d, Some [])"
| "mix_prepare w (j # js) d =
     (let n = pm_input_length w ! j in
      if n = 0 then
        let (d, ts) = mix_prepare w js d in (d, map_option (\<lambda>ts. (pm_scratch w, 0, 0) # ts) ts)
      else
        let k = pm_buffer_size w - n; b = pm_input w ! j in
        if b = 0 then (d, None)
        else
          let d = (if 0 <s k then mem_set (b + n) 0 k d else d);
              t32 = pm_volume w ! j;
              (d, ts) = mix_prepare w js d
          in (d, map_option (\<lambda>ts. (b, ucast (t32 AND 0xFFFF), ucast (drop_bit 16 t32)) # ts) ts))"

text \<open>The sum over the tracks (32-bit arithmetic on signed samples and unsigned volumes), and what is stored.\<close>

definition mix_sum :: "(addr \<Rightarrow> u8) \<Rightarrow> (addr \<times> u16) list \<Rightarrow> u32" where
  "mix_sum d bs = foldl (\<lambda>acc (b, v). acc + scast (mem_read16 d b) * ucast v) 0 bs"

definition mix_level :: "u32 \<Rightarrow> u16 \<Rightarrow> u16" where
  "mix_level acc w = DSP_SATURATE_S16 (signed_drop_bit 12 (signed_drop_bit 12 acc * ucast w))"

fun mix_loop :: "nat \<Rightarrow> addr \<Rightarrow> (addr \<times> u16 \<times> u16) list \<Rightarrow> u16 \<Rightarrow> u16 \<Rightarrow> (addr \<Rightarrow> u8) \<Rightarrow> addr \<Rightarrow> u8" where
  "mix_loop 0 out ts wl wr d = d"
| "mix_loop (Suc n) out ts wl wr d =
     (let l = mix_sum d (map (\<lambda>(b, vl, vr). (b, vl)) ts);
          r = mix_sum d (map (\<lambda>(b, vl, vr). (b + 2, vr)) ts)
      in mix_loop n (out + 4) (map (\<lambda>(b, v). (b + 4, v)) ts) wl wr
           (mem_write16 (mem_write16 d out (mix_level l wl)) (out + 2) (mix_level r wr)))"

definition xa_mixer_do_execute_stereo_16bit ::
  "u32 \<Rightarrow> (addr \<Rightarrow> u8) \<Rightarrow> XAPcmMixer \<Rightarrow> (addr \<Rightarrow> u8) \<times> XAPcmMixer \<times> u32 \<times> u32"
where
  "xa_mixer_do_execute_stereo_16bit u d w =
     (let t32 = pm_volume w ! 4;
          (d, ts) = mix_prepare w [0 ..< 4] d in
      case ts of
        None \<Rightarrow> xp_ret XA_MIXER_EXEC_FATAL_INPUT u d w
      | Some ts \<Rightarrow>
          xp_ret XA_NO_ERROR u
            (mix_loop (unat (pm_frame_size w)) (pm_output w) ts (ucast (t32 AND 0xFFFF)) (ucast (drop_bit 16 t32)) d)
            (w\<lparr>pm_produced := 4 * pm_frame_size w, pm_state := pm_state w OR XA_MIXER_FLAG_OUTPUT\<rparr>))"

definition xa_mixer_do_runtime_init :: "u32 \<Rightarrow> (addr \<Rightarrow> u8) \<Rightarrow> XAPcmMixer \<Rightarrow> (addr \<Rightarrow> u8) \<times> XAPcmMixer \<times> u32 \<times> u32" where
  "xa_mixer_do_runtime_init u d w = xp_ret XA_NO_ERROR u d w"

section \<open>Commands\<close>

definition xa_mixer_get_api_size :: "XAPcmMixer xp_cmd" where
  "xa_mixer_get_api_size u a i pv d w =
     xp_chk (\<not> pv_null pv) XA_API_FATAL_INVALID_CMD_TYPE u d w (xp_put sizeof_XAPcmMixer u pv d w)"

definition xa_mixer_init :: "XAPcmMixer xp_cmd" where
  "xa_mixer_init u a i pv d w =
     xp_chk (a \<noteq> 0) XA_API_FATAL_INVALID_CMD_TYPE u d w (
     if i = XA_CMD_TYPE_INIT_API_PRE_CONFIG_PARAMS then
       xp_ret XA_NO_ERROR u d (xa_mixer_preinit\<lparr>pm_state := XA_MIXER_FLAG_PREINIT_DONE\<rparr>)
     else if i = XA_CMD_TYPE_INIT_API_POST_CONFIG_PARAMS then
       xp_chk (pm_state w AND XA_MIXER_FLAG_PREINIT_DONE \<noteq> 0) XA_API_FATAL_INVALID_CMD_TYPE u d w (
         xp_ret XA_NO_ERROR u d
           (w\<lparr>pm_buffer_size := pm_channels w * pm_frame_size w * (if pm_pcm_width w = 16 then 2 else 4),
              pm_state := pm_state w OR XA_MIXER_FLAG_POSTINIT_DONE\<rparr>))
     else if i = XA_CMD_TYPE_INIT_PROCESS then
       xp_chk (pm_state w AND XA_MIXER_FLAG_POSTINIT_DONE \<noteq> 0) XA_API_FATAL_INVALID_CMD_TYPE u d w (
         xp_ret XA_NO_ERROR u d (w\<lparr>pm_state := pm_state w OR XA_MIXER_FLAG_RUNNING\<rparr>))
     else if i = XA_CMD_TYPE_INIT_DONE_QUERY then
       xp_chk (\<not> pv_null pv) XA_API_FATAL_INVALID_CMD_TYPE u d w (
         xp_put (if pm_state w AND XA_MIXER_FLAG_RUNNING \<noteq> 0 then 1 else 0) u pv d w)
     else xp_ret XA_API_FATAL_INVALID_CMD_TYPE u d w)"

definition xa_mixer_set_config_param :: "XAPcmMixer xp_cmd" where
  "xa_mixer_set_config_param u a i pv d w =
     xp_chk (a \<noteq> 0 \<and> \<not> pv_null pv) XA_API_FATAL_INVALID_CMD_TYPE u d w (
     xp_chk (pm_state w AND XA_MIXER_FLAG_PREINIT_DONE \<noteq> 0) XA_API_FATAL_INVALID_CMD_TYPE u d w (
     let i_value = pv_read u d pv in
     if i = XA_MIXER_CONFIG_PARAM_PCM_WIDTH then
       xp_chk (i_value = 16) XA_MIXER_CONFIG_NONFATAL_RANGE u d w (xp_ret XA_NO_ERROR u d (w\<lparr>pm_pcm_width := i_value\<rparr>))
     else if i = XA_MIXER_CONFIG_PARAM_CHANNELS then
       xp_chk (i_value = 2) XA_MIXER_CONFIG_NONFATAL_RANGE u d w (xp_ret XA_NO_ERROR u d (w\<lparr>pm_channels := i_value\<rparr>))
     else if i = XA_MIXER_CONFIG_PARAM_SAMPLE_RATE then
       xp_ret XA_NO_ERROR u d (w\<lparr>pm_sample_rate := i_value\<rparr>)
     else xp_ret XA_API_FATAL_INVALID_CMD_TYPE u d w))"

definition xa_mixer_get_config_param :: "XAPcmMixer xp_cmd" where
  "xa_mixer_get_config_param u a i pv d w =
     xp_chk (a \<noteq> 0 \<and> \<not> pv_null pv) XA_API_FATAL_INVALID_CMD_TYPE u d w (
     xp_chk (pm_state w AND XA_MIXER_FLAG_PREINIT_DONE \<noteq> 0) XA_API_FATAL_INVALID_CMD_TYPE u d w (
     if i = XA_MIXER_CONFIG_PARAM_INPUT_TRACKS then xp_put XA_MIXER_MAX_TRACK_NUMBER u pv d w
     else if i = XA_MIXER_CONFIG_PARAM_SAMPLE_RATE then xp_put (pm_sample_rate w) u pv d w
     else if i = XA_MIXER_CONFIG_PARAM_PCM_WIDTH then xp_put (pm_pcm_width w) u pv d w
     else if i = XA_MIXER_CONFIG_PARAM_CHANNELS then xp_put (pm_channels w) u pv d w
     else if i = XA_MIXER_CONFIG_PARAM_FRAME_SIZE then xp_put (pm_frame_size w) u pv d w
     else if i = XA_MIXER_CONFIG_PARAM_BUFFER_SIZE then xp_put (pm_buffer_size w) u pv d w
     else xp_ret XA_API_FATAL_INVALID_CMD_TYPE u d w))"

definition xa_mixer_execute :: "XAPcmMixer xp_cmd" where
  "xa_mixer_execute u a i pv d w =
     xp_chk (a \<noteq> 0) XA_API_FATAL_INVALID_CMD_TYPE u d w (
     xp_chk (pm_state w AND XA_MIXER_FLAG_RUNNING \<noteq> 0) XA_API_FATAL_INVALID_CMD_TYPE u d w (
     if i = XA_CMD_TYPE_DO_EXECUTE then xa_mixer_do_execute_stereo_16bit u d w
     else if i = XA_CMD_TYPE_DONE_QUERY then
       xp_chk (\<not> pv_null pv) XA_API_FATAL_INVALID_CMD_TYPE u d w (
         xp_put (if pm_state w AND XA_MIXER_FLAG_COMPLETE \<noteq> 0 then 1 else 0) u pv d w)
     else if i = XA_CMD_TYPE_DO_RUNTIME_INIT then xa_mixer_do_runtime_init u d w
     else xp_ret XA_API_FATAL_INVALID_CMD_TYPE u d w))"

definition xa_mixer_set_input_bytes :: "XAPcmMixer xp_cmd" where
  "xa_mixer_set_input_bytes u a i pv d w =
     xp_chk (a \<noteq> 0 \<and> \<not> pv_null pv) XA_API_FATAL_INVALID_CMD_TYPE u d w (
     xp_chk (0 \<le>s i \<and> i <s XA_MIXER_MAX_TRACK_NUMBER) XA_API_FATAL_INVALID_CMD_TYPE u d w (
     xp_chk (pm_state w AND XA_MIXER_FLAG_POSTINIT_DONE \<noteq> 0) XA_API_FATAL_INVALID_CMD_TYPE u d w (
     xp_chk (pm_input w ! unat i \<noteq> 0) XA_API_FATAL_INVALID_CMD_TYPE u d w (
     let size = pv_read u d pv in
     xp_chk (size > 0) XA_MIXER_EXEC_NONFATAL_INPUT u d w (
       xp_ret XA_NO_ERROR u d (w\<lparr>pm_input_length := (pm_input_length w)[unat i := size]\<rparr>))))))"

definition xa_mixer_get_output_bytes :: "XAPcmMixer xp_cmd" where
  "xa_mixer_get_output_bytes u a i pv d w =
     xp_chk (a \<noteq> 0 \<and> \<not> pv_null pv) XA_API_FATAL_INVALID_CMD_TYPE u d w (
     xp_chk (i = XA_MIXER_MAX_TRACK_NUMBER) XA_API_FATAL_INVALID_CMD_TYPE u d w (
     xp_chk (pm_state w AND XA_MIXER_FLAG_RUNNING \<noteq> 0) XA_API_FATAL_INVALID_CMD_TYPE u d w (
     xp_chk (pm_output w \<noteq> 0) XA_MIXER_EXEC_NONFATAL_OUTPUT u d w (
       xp_put (if pm_state w AND XA_MIXER_FLAG_OUTPUT \<noteq> 0 then pm_buffer_size w else 0) u pv d w))))"

definition xa_mixer_get_curidx_input_buf :: "XAPcmMixer xp_cmd" where
  "xa_mixer_get_curidx_input_buf u a i pv d w =
     xp_chk (a \<noteq> 0 \<and> \<not> pv_null pv) XA_API_FATAL_INVALID_CMD_TYPE u d w (
     xp_chk (0 \<le>s i \<and> i <s XA_MIXER_MAX_TRACK_NUMBER) XA_API_FATAL_INVALID_CMD_TYPE u d w (
     xp_chk (pm_state w AND XA_MIXER_FLAG_RUNNING \<noteq> 0) XA_MIXER_EXEC_FATAL_STATE u d w (
     xp_chk (pm_input w ! unat i \<noteq> 0) XA_MIXER_EXEC_FATAL_INPUT u d w (
       xp_put (pm_input_length w ! unat i) u pv d (w\<lparr>pm_input_length := (pm_input_length w)[unat i := 0]\<rparr>)))))"

section \<open>Memory tables\<close>

definition xa_mixer_get_memtabs_size :: "XAPcmMixer xp_cmd" where
  "xa_mixer_get_memtabs_size u a i pv d w =
     xp_chk (a \<noteq> 0 \<and> \<not> pv_null pv) XA_API_FATAL_INVALID_CMD_TYPE u d w (
     xp_chk (pm_state w AND XA_MIXER_FLAG_PREINIT_DONE \<noteq> 0) XA_API_FATAL_INVALID_CMD_TYPE u d w (
       xp_put 0 u pv d w))"

definition xa_mixer_set_memtabs_ptr :: "XAPcmMixer xp_cmd" where
  "xa_mixer_set_memtabs_ptr u a i pv d w =
     xp_chk (a \<noteq> 0 \<and> \<not> pv_null pv) XA_API_FATAL_INVALID_CMD_TYPE u d w (
     xp_chk (pm_state w AND XA_MIXER_FLAG_PREINIT_DONE \<noteq> 0) XA_API_FATAL_INVALID_CMD_TYPE u d w (
       xp_ret XA_NO_ERROR u d w))"

definition xa_mixer_get_n_memtabs :: "XAPcmMixer xp_cmd" where
  "xa_mixer_get_n_memtabs u a i pv d w =
     xp_chk (a \<noteq> 0 \<and> \<not> pv_null pv) XA_API_FATAL_INVALID_CMD_TYPE u d w (
       xp_put (XA_MIXER_MAX_TRACK_NUMBER + 1 + 1) u pv d w)"

definition xa_mixer_get_mem_info_size :: "XAPcmMixer xp_cmd" where
  "xa_mixer_get_mem_info_size u a i pv d w =
     xp_chk (a \<noteq> 0 \<and> \<not> pv_null pv) XA_API_FATAL_INVALID_CMD_TYPE u d w (
     xp_chk (pm_state w AND XA_MIXER_FLAG_POSTINIT_DONE \<noteq> 0) XA_API_FATAL_INVALID_CMD_TYPE u d w (
       xp_put (pm_buffer_size w) u pv d w))"

definition xa_mixer_get_mem_info_alignment :: "XAPcmMixer xp_cmd" where
  "xa_mixer_get_mem_info_alignment u a i pv d w =
     xp_chk (a \<noteq> 0 \<and> \<not> pv_null pv) XA_API_FATAL_INVALID_CMD_TYPE u d w (
     xp_chk (pm_state w AND XA_MIXER_FLAG_POSTINIT_DONE \<noteq> 0) XA_API_FATAL_INVALID_CMD_TYPE u d w (
       xp_put 4 u pv d w))"

definition xa_mixer_get_mem_info_type :: "XAPcmMixer xp_cmd" where
  "xa_mixer_get_mem_info_type u a i pv d w =
     xp_chk (a \<noteq> 0 \<and> \<not> pv_null pv) XA_API_FATAL_INVALID_CMD_TYPE u d w (
     xp_chk (pm_state w AND XA_MIXER_FLAG_POSTINIT_DONE \<noteq> 0) XA_API_FATAL_INVALID_CMD_TYPE u d w (
     if i < XA_MIXER_MAX_TRACK_NUMBER then xp_put XA_MEMTYPE_INPUT u pv d w
     else if i = XA_MIXER_MAX_TRACK_NUMBER then xp_put XA_MEMTYPE_OUTPUT u pv d w
     else if i = XA_MIXER_MAX_TRACK_NUMBER + 1 then xp_put XA_MEMTYPE_SCRATCH u pv d w
     else xp_ret XA_API_FATAL_INVALID_CMD_TYPE u d w))"

definition xa_mixer_set_mem_ptr :: "XAPcmMixer xp_cmd" where
  "xa_mixer_set_mem_ptr u a i pv d w =
     xp_chk (a \<noteq> 0 \<and> \<not> pv_null pv) XA_API_FATAL_INVALID_CMD_TYPE u d w (
     xp_chk (pm_state w AND XA_MIXER_FLAG_POSTINIT_DONE \<noteq> 0) XA_API_FATAL_INVALID_CMD_TYPE u d w (
     if i < XA_MIXER_MAX_TRACK_NUMBER then
       xp_ret XA_NO_ERROR u d (w\<lparr>pm_input := (pm_input w)[unat i := pv_addr pv]\<rparr>)
     else if i = XA_MIXER_MAX_TRACK_NUMBER then xp_ret XA_NO_ERROR u d (w\<lparr>pm_output := pv_addr pv\<rparr>)
     else if i = XA_MIXER_MAX_TRACK_NUMBER + 1 then xp_ret XA_NO_ERROR u d (w\<lparr>pm_scratch := pv_addr pv\<rparr>)
     else xp_ret XA_API_FATAL_INVALID_CMD_TYPE u d w))"

section \<open>Entry point\<close>

definition xa_mixer_api :: "u32 \<Rightarrow> XAPcmMixer xp_cmd option" where
  "xa_mixer_api cmd =
     (if cmd = XA_API_CMD_GET_API_SIZE then Some xa_mixer_get_api_size
      else if cmd = XA_API_CMD_INIT then Some xa_mixer_init
      else if cmd = XA_API_CMD_SET_CONFIG_PARAM then Some xa_mixer_set_config_param
      else if cmd = XA_API_CMD_GET_CONFIG_PARAM then Some xa_mixer_get_config_param
      else if cmd = XA_API_CMD_EXECUTE then Some xa_mixer_execute
      else if cmd = XA_API_CMD_SET_INPUT_BYTES then Some xa_mixer_set_input_bytes
      else if cmd = XA_API_CMD_GET_OUTPUT_BYTES then Some xa_mixer_get_output_bytes
      else if cmd = XA_API_CMD_GET_CURIDX_INPUT_BUF then Some xa_mixer_get_curidx_input_buf
      else if cmd = XA_API_CMD_GET_MEMTABS_SIZE then Some xa_mixer_get_memtabs_size
      else if cmd = XA_API_CMD_SET_MEMTABS_PTR then Some xa_mixer_set_memtabs_ptr
      else if cmd = XA_API_CMD_GET_N_MEMTABS then Some xa_mixer_get_n_memtabs
      else if cmd = XA_API_CMD_GET_MEM_INFO_SIZE then Some xa_mixer_get_mem_info_size
      else if cmd = XA_API_CMD_GET_MEM_INFO_ALIGNMENT then Some xa_mixer_get_mem_info_alignment
      else if cmd = XA_API_CMD_GET_MEM_INFO_TYPE then Some xa_mixer_get_mem_info_type
      else if cmd = XA_API_CMD_SET_MEM_PTR then Some xa_mixer_set_mem_ptr
      else None)"

definition XA_MIXER_API_COMMANDS_NUM :: u32 where "XA_MIXER_API_COMMANDS_NUM = 0x16"

definition xa_mixer :: "u32 \<Rightarrow> XAPcmMixer xa_proc" where
  "xa_mixer u a cmd i pv d w =
     xp_chk (cmd < XA_MIXER_API_COMMANDS_NUM) XA_API_FATAL_INVALID_CMD u d w (
     case xa_mixer_api cmd of
       None \<Rightarrow> xp_ret XA_API_FATAL_INVALID_CMD u d w
     | Some f \<Rightarrow> f u a i pv d w)"

end
