(* ===== verification/XP_Pcm.thy ===== *)
theory XP_Pcm
  imports XP_Api
begin

text \<open>
  The PCM format converter (plugins/cadence/pcm_proc/xa-pcm.c): copies, converts between 16 and 24 bits
  (in 32-bit words) and maps channels.
\<close>

section \<open>State\<close>

text \<open>The processing functions the pointer \<open>process\<close> can hold; before the runtime initialisation it is NULL.
  The two debug file handles are not used.\<close>

datatype pcm_process = Pcm_Copy | Pcm16_Chmap | Pcm24_Chmap | Pcm24_To_Pcm16 | Pcm16_To_Pcm24

record XAPcmCodec =
  pc_state :: u32
  pc_sample_rate :: u32
  pc_in_channels :: u8
  pc_out_channels :: u8
  pc_in_pcm_width :: u8
  pc_out_pcm_width :: u8
  pc_in_stride :: u8
  pc_out_stride :: u8
  pc_chan_routing :: u32
  pc_process :: "pcm_process option"
  pc_insize :: u32
  pc_outsize :: u32
  pc_input_idx :: u32
  pc_output_idx :: u32
  pc_input :: addr
  pc_output :: addr
  pc_consumed :: u32
  pc_produced :: u32

definition XA_PCM_FLAG_PREINIT_DONE :: u32 where "XA_PCM_FLAG_PREINIT_DONE = push_bit 0 1"
definition XA_PCM_FLAG_POSTINIT_DONE :: u32 where "XA_PCM_FLAG_POSTINIT_DONE = push_bit 1 1"
definition XA_PCM_FLAG_RUNNING :: u32 where "XA_PCM_FLAG_RUNNING = push_bit 2 1"
definition XA_PCM_FLAG_EOS :: u32 where "XA_PCM_FLAG_EOS = push_bit 3 1"
definition XA_PCM_FLAG_COMPLETE :: u32 where "XA_PCM_FLAG_COMPLETE = push_bit 4 1"

lemmas pcm_flag_defs = XA_PCM_FLAG_PREINIT_DONE_def XA_PCM_FLAG_POSTINIT_DONE_def XA_PCM_FLAG_RUNNING_def XA_PCM_FLAG_EOS_def
  XA_PCM_FLAG_COMPLETE_def

definition XA_PCM_MAX_SAMPLES :: u32 where "XA_PCM_MAX_SAMPLES = 1024"

definition XA_PCM_CONFIG_PARAM_SAMPLE_RATE :: u32 where "XA_PCM_CONFIG_PARAM_SAMPLE_RATE = 0"
definition XA_PCM_CONFIG_PARAM_IN_PCM_WIDTH :: u32 where "XA_PCM_CONFIG_PARAM_IN_PCM_WIDTH = 1"
definition XA_PCM_CONFIG_PARAM_IN_CHANNELS :: u32 where "XA_PCM_CONFIG_PARAM_IN_CHANNELS = 2"
definition XA_PCM_CONFIG_PARAM_OUT_PCM_WIDTH :: u32 where "XA_PCM_CONFIG_PARAM_OUT_PCM_WIDTH = 3"
definition XA_PCM_CONFIG_PARAM_OUT_CHANNELS :: u32 where "XA_PCM_CONFIG_PARAM_OUT_CHANNELS = 4"
definition XA_PCM_CONFIG_PARAM_CHANROUTING :: u32 where "XA_PCM_CONFIG_PARAM_CHANROUTING = 5"

definition XA_CODEC_PCM :: u32 where "XA_CODEC_PCM = 16"

definition XA_PCM_CONFIG_NONFATAL_RANGE :: u32 where
  "XA_PCM_CONFIG_NONFATAL_RANGE = XA_ERROR_CODE xa_severity_nonfatal xa_class_config XA_CODEC_PCM 0"
definition XA_PCM_CONFIG_NONFATAL_STATE :: u32 where
  "XA_PCM_CONFIG_NONFATAL_STATE = XA_ERROR_CODE xa_severity_nonfatal xa_class_config XA_CODEC_PCM 1"
definition XA_PCM_EXEC_NONFATAL_INPUT :: u32 where
  "XA_PCM_EXEC_NONFATAL_INPUT = XA_ERROR_CODE xa_severity_nonfatal xa_class_execute XA_CODEC_PCM 2"
definition XA_PCM_EXEC_FATAL_STATE :: u32 where
  "XA_PCM_EXEC_FATAL_STATE = XA_ERROR_CODE xa_severity_fatal xa_class_execute XA_CODEC_PCM 0"

text \<open>The structure has 64 bytes.\<close>

definition sizeof_XAPcmCodec :: u32 where "sizeof_XAPcmCodec = 64"

definition xa_pcm_zero :: XAPcmCodec where
  "xa_pcm_zero =
     \<lparr>pc_state = 0, pc_sample_rate = 0, pc_in_channels = 0, pc_out_channels = 0, pc_in_pcm_width = 0, pc_out_pcm_width = 0,
      pc_in_stride = 0, pc_out_stride = 0, pc_chan_routing = 0, pc_process = None, pc_insize = 0, pc_outsize = 0, pc_input_idx = 0,
      pc_output_idx = 0, pc_input = 0, pc_output = 0, pc_consumed = 0, pc_produced = 0\<rparr>"

section \<open>Processing\<close>

text \<open>The number of bytes of a 16-bit or 24-bit sample.\<close>

definition pcm_bytes :: "u8 \<Rightarrow> u32" where
  "pcm_bytes width = (if width = 16 then 2 else 4)"

text \<open>The end of every processing function: bytes consumed and produced, and the input is used up. Without
  buffers or samples there is an error.\<close>

definition pcm_run ::
  "u32 \<Rightarrow> u32 \<Rightarrow> (addr \<Rightarrow> u8) \<Rightarrow> u32 \<Rightarrow> (addr \<Rightarrow> u8) \<Rightarrow> XAPcmCodec \<Rightarrow> (addr \<Rightarrow> u8) \<times> XAPcmCodec \<times> u32 \<times> u32"
where
  "pcm_run consumed produced d' u d w =
     xp_chk (pc_input w \<noteq> 0 \<and> pc_insize w \<noteq> 0 \<and> pc_output w \<noteq> 0) XA_PCM_EXEC_FATAL_STATE u d w
       (xp_ret XA_NO_ERROR u d' (w\<lparr>pc_consumed := consumed, pc_produced := produced, pc_insize := 0\<rparr>))"

definition xa_pcm_do_execute_copy :: "u32 \<Rightarrow> (addr \<Rightarrow> u8) \<Rightarrow> XAPcmCodec \<Rightarrow> (addr \<Rightarrow> u8) \<times> XAPcmCodec \<times> u32 \<times> u32" where
  "xa_pcm_do_execute_copy u d w =
     (let l = pc_insize w * ucast (pc_in_channels w) * pcm_bytes (pc_in_pcm_width w)
      in pcm_run l l (mem_copy (pc_output w) (pc_input w) l d) u d w)"

text \<open>The mapping of 16-bit samples is compiled out: the function copies.\<close>

definition xa_pcm_do_execute_pcm16_chmap :: "u32 \<Rightarrow> (addr \<Rightarrow> u8) \<Rightarrow> XAPcmCodec \<Rightarrow> (addr \<Rightarrow> u8) \<times> XAPcmCodec \<times> u32 \<times> u32" where
  "xa_pcm_do_execute_pcm16_chmap u d w =
     (let l = pc_insize w * ucast (pc_in_channels w) * pcm_bytes (pc_in_pcm_width w)
      in pcm_run l l (mem_copy (pc_output w) (pc_input w) l d) u d w)"

text \<open>The other three have the same two loops: over the samples, and over the channels of a sample with four
  bits of the map for each. They differ in how a channel is stored (cv) and in the widths of the input
  and the output.\<close>

fun pcm_channels ::
  "(addr \<Rightarrow> u32 \<Rightarrow> addr \<Rightarrow> (addr \<Rightarrow> u8) \<Rightarrow> addr \<Rightarrow> u8) \<Rightarrow> u32 \<Rightarrow> nat \<Rightarrow> u32 \<Rightarrow> addr \<Rightarrow> addr \<Rightarrow> (addr \<Rightarrow> u8) \<Rightarrow> addr \<Rightarrow> u8"
where
  "pcm_channels cv wo 0 chmap input output d = d"
| "pcm_channels cv wo (Suc j) chmap input output d =
     pcm_channels cv wo j (drop_bit 4 chmap) input (output + wo) (cv input (chmap AND 0xF) output d)"

fun pcm_frames ::
  "(addr \<Rightarrow> u32 \<Rightarrow> addr \<Rightarrow> (addr \<Rightarrow> u8) \<Rightarrow> addr \<Rightarrow> u8) \<Rightarrow> u32 \<Rightarrow> u32 \<Rightarrow> nat \<Rightarrow> nat \<Rightarrow> u32 \<Rightarrow> addr \<Rightarrow> addr \<Rightarrow> (addr \<Rightarrow> u8) \<Rightarrow> addr \<Rightarrow> u8"
where
  "pcm_frames cv wi wo k 0 chmap input output d = d"
| "pcm_frames cv wi wo k (Suc n) chmap input output d =
     pcm_frames cv wi wo k n chmap (input + wi * of_nat k) (output + wo * of_nat k) (pcm_channels cv wo k chmap input output d)"

definition pcm_loop ::
  "(addr \<Rightarrow> u32 \<Rightarrow> addr \<Rightarrow> (addr \<Rightarrow> u8) \<Rightarrow> addr \<Rightarrow> u8) \<Rightarrow> u32 \<Rightarrow> u32 \<Rightarrow> u32 \<Rightarrow> (addr \<Rightarrow> u8) \<Rightarrow> XAPcmCodec \<Rightarrow>
     (addr \<Rightarrow> u8) \<times> XAPcmCodec \<times> u32 \<times> u32"
where
  "pcm_loop cv wi wo u d w =
     (let n = pc_insize w; k = ucast (pc_in_channels w) in
      pcm_run (wi * k * n) (wo * k * n)
        (pcm_frames cv wi wo (unat (pc_in_channels w)) (unat n) (pc_chan_routing w) (pc_input w) (pc_output w) d) u d w)"

definition xa_pcm_do_execute_pcm24_chmap :: "u32 \<Rightarrow> (addr \<Rightarrow> u8) \<Rightarrow> XAPcmCodec \<Rightarrow> (addr \<Rightarrow> u8) \<times> XAPcmCodec \<times> u32 \<times> u32" where
  "xa_pcm_do_execute_pcm24_chmap =
     pcm_loop (\<lambda>input m output d. mem_write32 d output (if m < 8 then mem_read32 d (input + 4 * m) else 0)) 4 4"

definition xa_pcm_do_execute_pcm24_to_pcm16 :: "u32 \<Rightarrow> (addr \<Rightarrow> u8) \<Rightarrow> XAPcmCodec \<Rightarrow> (addr \<Rightarrow> u8) \<times> XAPcmCodec \<times> u32 \<times> u32" where
  "xa_pcm_do_execute_pcm24_to_pcm16 =
     pcm_loop (\<lambda>input m output d.
       mem_write16 d output (if m < 8 then ucast (signed_drop_bit 16 (mem_read32 d (input + 4 * m))) else 0)) 4 2"

definition xa_pcm_do_execute_pcm16_to_pcm24 :: "u32 \<Rightarrow> (addr \<Rightarrow> u8) \<Rightarrow> XAPcmCodec \<Rightarrow> (addr \<Rightarrow> u8) \<times> XAPcmCodec \<times> u32 \<times> u32" where
  "xa_pcm_do_execute_pcm16_to_pcm24 =
     pcm_loop (\<lambda>input m output d.
       mem_write32 d output (if m < 8 then push_bit 16 (scast (mem_read16 d (input + 2 * m))) else 0)) 2 4"

fun pcm_process_call :: "pcm_process \<Rightarrow> u32 \<Rightarrow> (addr \<Rightarrow> u8) \<Rightarrow> XAPcmCodec \<Rightarrow> (addr \<Rightarrow> u8) \<times> XAPcmCodec \<times> u32 \<times> u32" where
  "pcm_process_call Pcm_Copy = xa_pcm_do_execute_copy"
| "pcm_process_call Pcm16_Chmap = xa_pcm_do_execute_pcm16_chmap"
| "pcm_process_call Pcm24_Chmap = xa_pcm_do_execute_pcm24_chmap"
| "pcm_process_call Pcm24_To_Pcm16 = xa_pcm_do_execute_pcm24_to_pcm16"
| "pcm_process_call Pcm16_To_Pcm24 = xa_pcm_do_execute_pcm16_to_pcm24"

fun pcm_identity_from :: "nat \<Rightarrow> u32 \<Rightarrow> u32 \<Rightarrow> bool" where
  "pcm_identity_from 0 j chmap = True"
| "pcm_identity_from (Suc n) j chmap = (chmap AND 0xF = j \<and> pcm_identity_from n (j + 1) (drop_bit 4 chmap))"

definition xa_pcm_is_identity_mapping :: "u32 \<Rightarrow> u8 \<Rightarrow> bool" where
  "xa_pcm_is_identity_mapping chmap k = pcm_identity_from (unat k) 0 chmap"

definition xa_pcm_do_runtime_init :: "u32 \<Rightarrow> (addr \<Rightarrow> u8) \<Rightarrow> XAPcmCodec \<Rightarrow> (addr \<Rightarrow> u8) \<times> XAPcmCodec \<times> u32 \<times> u32" where
  "xa_pcm_do_runtime_init u d w =
     xp_ret XA_NO_ERROR u d
       (w\<lparr>pc_process := Some
            (if pc_in_pcm_width w = pc_out_pcm_width w then
               if pc_in_channels w \<noteq> pc_out_channels w \<or> \<not> xa_pcm_is_identity_mapping (pc_chan_routing w) (pc_in_channels w) then
                 if pc_in_pcm_width w = 16 then Pcm16_Chmap else Pcm24_Chmap
               else Pcm_Copy
             else if pc_in_pcm_width w = 16 then Pcm16_To_Pcm24 else Pcm24_To_Pcm16),
          pc_state := XA_PCM_FLAG_PREINIT_DONE OR XA_PCM_FLAG_POSTINIT_DONE OR XA_PCM_FLAG_RUNNING\<rparr>)"

section \<open>Commands\<close>

definition xa_pcm_get_api_size :: "XAPcmCodec xp_cmd" where
  "xa_pcm_get_api_size u a i pv d w = xp_put sizeof_XAPcmCodec u pv d w"

text \<open>The default routing is that of the source, \<open>(0 << 0) | (1 << 1)\<close>.\<close>

definition xa_pcm_init :: "XAPcmCodec xp_cmd" where
  "xa_pcm_init u a i pv d w =
     xp_chk (a \<noteq> 0) XA_API_FATAL_INVALID_CMD_TYPE u d w (
     if i = XA_CMD_TYPE_INIT_API_PRE_CONFIG_PARAMS then
       xp_ret XA_NO_ERROR u d
         (xa_pcm_zero\<lparr>pc_in_pcm_width := 16, pc_out_pcm_width := 16, pc_in_channels := 2, pc_out_channels := 2,
            pc_chan_routing := push_bit 0 0 OR push_bit 1 1, pc_sample_rate := 48000, pc_state := XA_PCM_FLAG_PREINIT_DONE\<rparr>)
     else if i = XA_CMD_TYPE_INIT_API_POST_CONFIG_PARAMS then
       xp_chk (pc_state w AND XA_PCM_FLAG_PREINIT_DONE \<noteq> 0) XA_API_FATAL_INVALID_CMD_TYPE u d w (
         xp_ret XA_NO_ERROR u d
           (w\<lparr>pc_in_stride := ucast (ucast (pc_in_channels w) * pcm_bytes (pc_in_pcm_width w)),
              pc_out_stride := ucast (ucast (pc_out_channels w) * pcm_bytes (pc_out_pcm_width w)),
              pc_state := pc_state w OR XA_PCM_FLAG_POSTINIT_DONE\<rparr>))
     else if i = XA_CMD_TYPE_INIT_PROCESS then
       xp_chk (pc_state w AND XA_PCM_FLAG_POSTINIT_DONE \<noteq> 0) XA_API_FATAL_INVALID_CMD_TYPE u d w (
         xa_pcm_do_runtime_init u d w)
     else if i = XA_CMD_TYPE_INIT_DONE_QUERY then
       xp_chk (pc_state w AND XA_PCM_FLAG_POSTINIT_DONE \<noteq> 0) XA_API_FATAL_INVALID_CMD_TYPE u d w (
         xp_put (if pc_state w AND XA_PCM_FLAG_RUNNING \<noteq> 0 then 1 else 0) u pv d w)
     else xp_ret XA_API_FATAL_INVALID_CMD_TYPE u d w)"

definition xa_pcm_set_config_param :: "XAPcmCodec xp_cmd" where
  "xa_pcm_set_config_param u a i pv d w =
     xp_chk (a \<noteq> 0 \<and> \<not> pv_null pv) XA_API_FATAL_INVALID_CMD_TYPE u d w (
     xp_chk (pc_state w = XA_PCM_FLAG_PREINIT_DONE) XA_PCM_CONFIG_NONFATAL_STATE u d w (
     let i_value = pv_read u d pv in
     if i = XA_CODEC_CONFIG_PARAM_SAMPLE_RATE \<or> i = XA_PCM_CONFIG_PARAM_SAMPLE_RATE then
       xp_ret XA_NO_ERROR u d (w\<lparr>pc_sample_rate := i_value\<rparr>)
     else if i = XA_PCM_CONFIG_PARAM_IN_PCM_WIDTH then
       xp_chk (i_value = 16 \<or> i_value = 24) XA_PCM_CONFIG_NONFATAL_RANGE u d w (
         xp_ret XA_NO_ERROR u d (w\<lparr>pc_in_pcm_width := ucast i_value\<rparr>))
     else if i = XA_PCM_CONFIG_PARAM_IN_CHANNELS then
       xp_chk (0 <s i_value \<and> i_value \<le>s 8) XA_PCM_CONFIG_NONFATAL_RANGE u d w (
         xp_ret XA_NO_ERROR u d (w\<lparr>pc_in_channels := ucast i_value\<rparr>))
     else if i = XA_CODEC_CONFIG_PARAM_PCM_WIDTH \<or> i = XA_PCM_CONFIG_PARAM_OUT_PCM_WIDTH then
       xp_chk (i_value = 16 \<or> i_value = 24) XA_PCM_CONFIG_NONFATAL_RANGE u d w (
         xp_ret XA_NO_ERROR u d (w\<lparr>pc_out_pcm_width := ucast i_value\<rparr>))
     else if i = XA_CODEC_CONFIG_PARAM_CHANNELS \<or> i = XA_PCM_CONFIG_PARAM_OUT_CHANNELS then
       xp_chk (0 <s i_value \<and> i_value \<le>s 8) XA_API_FATAL_INVALID_CMD_TYPE u d w (
         xp_ret XA_NO_ERROR u d (w\<lparr>pc_out_channels := ucast i_value\<rparr>))
     else if i = XA_PCM_CONFIG_PARAM_CHANROUTING then
       xp_ret XA_NO_ERROR u d (w\<lparr>pc_chan_routing := i_value\<rparr>)
     else xp_ret XA_API_FATAL_INVALID_CMD_TYPE u d w))"

definition xa_pcm_get_config_param :: "XAPcmCodec xp_cmd" where
  "xa_pcm_get_config_param u a i pv d w =
     xp_chk (a \<noteq> 0 \<and> \<not> pv_null pv) XA_API_FATAL_INVALID_CMD_TYPE u d w (
     xp_chk (pc_state w AND XA_PCM_FLAG_PREINIT_DONE \<noteq> 0) XA_PCM_CONFIG_NONFATAL_STATE u d w (
     if i = XA_CODEC_CONFIG_PARAM_SAMPLE_RATE \<or> i = XA_PCM_CONFIG_PARAM_SAMPLE_RATE then xp_put (pc_sample_rate w) u pv d w
     else if i = XA_PCM_CONFIG_PARAM_IN_PCM_WIDTH then xp_put (ucast (pc_in_pcm_width w)) u pv d w
     else if i = XA_PCM_CONFIG_PARAM_IN_CHANNELS then xp_put (ucast (pc_in_channels w)) u pv d w
     else if i = XA_CODEC_CONFIG_PARAM_PCM_WIDTH \<or> i = XA_PCM_CONFIG_PARAM_OUT_PCM_WIDTH then xp_put (ucast (pc_out_pcm_width w)) u pv d w
     else if i = XA_CODEC_CONFIG_PARAM_CHANNELS \<or> i = XA_PCM_CONFIG_PARAM_OUT_CHANNELS then xp_put (ucast (pc_out_channels w)) u pv d w
     else if i = XA_PCM_CONFIG_PARAM_CHANROUTING then xp_put (pc_chan_routing w) u pv d w
     else xp_ret XA_API_FATAL_INVALID_CMD_TYPE u d w))"

text \<open>Without a processing function there is a call through NULL; it has no memory effect here, and it does not
  happen while the codec is running (\<open>pcm_plugin_ok\<close>).\<close>

definition xa_pcm_execute :: "XAPcmCodec xp_cmd" where
  "xa_pcm_execute u a i pv d w =
     xp_chk (a \<noteq> 0) XA_API_FATAL_INVALID_CMD_TYPE u d w (
     xp_chk (pc_state w AND XA_PCM_FLAG_RUNNING \<noteq> 0) XA_API_FATAL_INVALID_CMD_TYPE u d w (
     if i = XA_CMD_TYPE_DO_EXECUTE then
       let eos = (\<lambda>w. if pc_state w AND XA_PCM_FLAG_EOS \<noteq> 0
                      then w\<lparr>pc_state := pc_state w XOR (XA_PCM_FLAG_EOS OR XA_PCM_FLAG_COMPLETE)\<rparr> else w) in
       if pc_insize w \<noteq> 0 then
         let (d, w, v, e) = (case pc_process w of None \<Rightarrow> xp_ret XA_PCM_EXEC_FATAL_STATE u d w
                                                | Some f \<Rightarrow> pcm_process_call f u d w)
         in xp_chk (\<not> XA_ERROR_SEVERITY e) XA_PCM_EXEC_FATAL_STATE u d w (xp_ret XA_NO_ERROR u d (eos w))
       else xp_ret XA_NO_ERROR u d (eos w)
     else if i = XA_CMD_TYPE_DONE_QUERY then
       xp_chk (\<not> pv_null pv) XA_API_FATAL_INVALID_CMD_TYPE u d w (
         xp_put (if pc_state w AND XA_PCM_FLAG_COMPLETE \<noteq> 0 then 1 else 0) u pv d w)
     else if i = XA_CMD_TYPE_DO_RUNTIME_INIT then xa_pcm_do_runtime_init u d w
     else xp_ret XA_API_FATAL_INVALID_CMD_TYPE u d w))"

definition xa_pcm_set_input_bytes :: "XAPcmCodec xp_cmd" where
  "xa_pcm_set_input_bytes u a i pv d w =
     xp_chk (a \<noteq> 0 \<and> \<not> pv_null pv) XA_API_FATAL_INVALID_CMD_TYPE u d w (
     xp_chk (i = 0) XA_API_FATAL_INVALID_CMD_TYPE u d w (
     xp_chk (pc_state w AND XA_PCM_FLAG_POSTINIT_DONE \<noteq> 0) XA_API_FATAL_INVALID_CMD_TYPE u d w (
     xp_chk (pc_input w \<noteq> 0) XA_API_FATAL_INVALID_CMD_TYPE u d w (
     let in_stride = ucast (pc_in_stride w); insize = pv_read u d pv div in_stride in
     xp_chk (pv_read u d pv = insize * in_stride) XA_API_FATAL_INVALID_CMD_TYPE u d w (
       xp_ret XA_NO_ERROR u d
         (w\<lparr>pc_insize := (if insize > XA_PCM_MAX_SAMPLES then XA_PCM_MAX_SAMPLES else insize)\<rparr>))))))"

definition xa_pcm_get_output_bytes :: "XAPcmCodec xp_cmd" where
  "xa_pcm_get_output_bytes u a i pv d w =
     xp_chk (a \<noteq> 0 \<and> \<not> pv_null pv) XA_API_FATAL_INVALID_CMD_TYPE u d w (
     xp_chk (i = 1) XA_API_FATAL_INVALID_CMD_TYPE u d w (
     xp_chk (pc_state w AND XA_PCM_FLAG_POSTINIT_DONE \<noteq> 0) XA_API_FATAL_INVALID_CMD_TYPE u d w (
     xp_chk (pc_output w \<noteq> 0) XA_API_FATAL_INVALID_CMD_TYPE u d w (
       xp_put (pc_produced w) u pv d w))))"

definition xa_pcm_get_curidx_input_buf :: "XAPcmCodec xp_cmd" where
  "xa_pcm_get_curidx_input_buf u a i pv d w =
     xp_chk (a \<noteq> 0 \<and> \<not> pv_null pv) XA_API_FATAL_INVALID_CMD_TYPE u d w (
     xp_chk (i = 0) XA_API_FATAL_INVALID_CMD_TYPE u d w (
     xp_chk (pc_input w \<noteq> 0) XA_PCM_EXEC_NONFATAL_INPUT u d w (
       xp_put (pc_consumed w) u pv d w)))"

definition xa_pcm_input_over :: "XAPcmCodec xp_cmd" where
  "xa_pcm_input_over u a i pv d w =
     xp_chk (a \<noteq> 0) XA_API_FATAL_INVALID_CMD_TYPE u d w (
       xp_ret XA_NO_ERROR u d (w\<lparr>pc_state := pc_state w OR XA_PCM_FLAG_EOS\<rparr>))"

section \<open>Memory tables\<close>

definition xa_pcm_get_memtabs_size :: "XAPcmCodec xp_cmd" where
  "xa_pcm_get_memtabs_size u a i pv d w =
     xp_chk (a \<noteq> 0 \<and> \<not> pv_null pv) XA_API_FATAL_INVALID_CMD_TYPE u d w (
     xp_chk (pc_state w AND XA_PCM_FLAG_PREINIT_DONE \<noteq> 0) XA_API_FATAL_INVALID_CMD_TYPE u d w (
       xp_put 0 u pv d w))"

definition xa_pcm_get_n_memtabs :: "XAPcmCodec xp_cmd" where
  "xa_pcm_get_n_memtabs u a i pv d w =
     xp_chk (a \<noteq> 0 \<and> \<not> pv_null pv) XA_API_FATAL_INVALID_CMD_TYPE u d w (xp_put (1 + 1) u pv d w)"

definition xa_pcm_get_mem_info_type :: "XAPcmCodec xp_cmd" where
  "xa_pcm_get_mem_info_type u a i pv d w =
     xp_chk (a \<noteq> 0 \<and> \<not> pv_null pv) XA_API_FATAL_INVALID_CMD_TYPE u d w (
     xp_chk (pc_state w AND XA_PCM_FLAG_POSTINIT_DONE \<noteq> 0) XA_API_FATAL_INVALID_CMD_TYPE u d w (
     if i = 0 then xp_put XA_MEMTYPE_INPUT u pv d w
     else if i = 1 then xp_put XA_MEMTYPE_OUTPUT u pv d w
     else xp_ret XA_API_FATAL_INVALID_CMD_TYPE u d w))"

definition xa_pcm_get_mem_info_size :: "XAPcmCodec xp_cmd" where
  "xa_pcm_get_mem_info_size u a i pv d w =
     xp_chk (a \<noteq> 0 \<and> \<not> pv_null pv) XA_API_FATAL_INVALID_CMD_TYPE u d w (
     xp_chk (pc_state w AND XA_PCM_FLAG_POSTINIT_DONE \<noteq> 0) XA_API_FATAL_INVALID_CMD_TYPE u d w (
     if i = 0 then xp_put 0 u pv d w
     else if i = 1 then xp_put (XA_PCM_MAX_SAMPLES * ucast (pc_out_stride w)) u pv d w
     else xp_ret XA_API_FATAL_INVALID_CMD_TYPE u d w))"

definition xa_pcm_get_mem_info_alignment :: "XAPcmCodec xp_cmd" where
  "xa_pcm_get_mem_info_alignment u a i pv d w =
     xp_chk (a \<noteq> 0 \<and> \<not> pv_null pv) XA_API_FATAL_INVALID_CMD_TYPE u d w (
     xp_chk (pc_state w AND XA_PCM_FLAG_POSTINIT_DONE \<noteq> 0) XA_API_FATAL_INVALID_CMD_TYPE u d w (
       xp_put 4 u pv d w))"

definition xa_pcm_set_mem_ptr :: "XAPcmCodec xp_cmd" where
  "xa_pcm_set_mem_ptr u a i pv d w =
     xp_chk (a \<noteq> 0) XA_API_FATAL_INVALID_CMD_TYPE u d w (
     xp_chk (\<not> pv_null pv) XA_API_FATAL_INVALID_CMD_TYPE u d w (
     xp_chk (pc_state w AND XA_PCM_FLAG_POSTINIT_DONE \<noteq> 0) XA_API_FATAL_INVALID_CMD_TYPE u d w (
     if i = 0 then xp_ret XA_NO_ERROR u d (w\<lparr>pc_input := pv_addr pv\<rparr>)
     else if i = 1 then xp_ret XA_NO_ERROR u d (w\<lparr>pc_output := pv_addr pv\<rparr>)
     else xp_ret XA_API_FATAL_INVALID_CMD_TYPE u d w)))"

section \<open>Entry point\<close>

definition xa_pcm_api :: "u32 \<Rightarrow> XAPcmCodec xp_cmd option" where
  "xa_pcm_api cmd =
     (if cmd = XA_API_CMD_GET_API_SIZE then Some xa_pcm_get_api_size
      else if cmd = XA_API_CMD_INIT then Some xa_pcm_init
      else if cmd = XA_API_CMD_SET_CONFIG_PARAM then Some xa_pcm_set_config_param
      else if cmd = XA_API_CMD_GET_CONFIG_PARAM then Some xa_pcm_get_config_param
      else if cmd = XA_API_CMD_EXECUTE then Some xa_pcm_execute
      else if cmd = XA_API_CMD_SET_INPUT_BYTES then Some xa_pcm_set_input_bytes
      else if cmd = XA_API_CMD_GET_OUTPUT_BYTES then Some xa_pcm_get_output_bytes
      else if cmd = XA_API_CMD_GET_CURIDX_INPUT_BUF then Some xa_pcm_get_curidx_input_buf
      else if cmd = XA_API_CMD_INPUT_OVER then Some xa_pcm_input_over
      else if cmd = XA_API_CMD_GET_MEMTABS_SIZE then Some xa_pcm_get_memtabs_size
      else if cmd = XA_API_CMD_GET_N_MEMTABS then Some xa_pcm_get_n_memtabs
      else if cmd = XA_API_CMD_GET_MEM_INFO_TYPE then Some xa_pcm_get_mem_info_type
      else if cmd = XA_API_CMD_GET_MEM_INFO_SIZE then Some xa_pcm_get_mem_info_size
      else if cmd = XA_API_CMD_GET_MEM_INFO_ALIGNMENT then Some xa_pcm_get_mem_info_alignment
      else if cmd = XA_API_CMD_SET_MEM_PTR then Some xa_pcm_set_mem_ptr
      else None)"

definition XA_PCM_API_COMMANDS_NUM :: u32 where "XA_PCM_API_COMMANDS_NUM = 0x16"

definition xa_pcm_codec :: "u32 \<Rightarrow> XAPcmCodec xa_proc" where
  "xa_pcm_codec u a cmd i pv d w =
     xp_chk (cmd < XA_PCM_API_COMMANDS_NUM) XA_API_FATAL_INVALID_CMD u d w (
     case xa_pcm_api cmd of
       None \<Rightarrow> xp_ret XA_API_FATAL_INVALID_CMD u d w
     | Some f \<Rightarrow> f u a i pv d w)"

end
