(* ===== verification/XA_Params.thy ===== *)
theory XA_Params
  imports XP_Mixer XP_Pcm
begin

text \<open>
  The parameter commands: the loop of \<open>xa_base_set_param_ext\<close> against a reference parser, and what
  happens beyond the lengths for which they agree. The plugin is an arbitrary function that reads a
  parameter without writing to the message, as the plugins of this build do.
\<close>

section \<open>A reference parser\<close>

text \<open>A message is a sequence of descriptors (id and length, 16 bits each, little endian), each followed by
  its data, padded to whole words. The parser works on a function from offsets to bytes; it gives the
  parameters as triples of id, length and offset of the data, and how the message ends: completely read,
  cut off, or at a length that 16 bits do not hold after padding.\<close>

definition le16 :: "(nat \<Rightarrow> u8) \<Rightarrow> nat \<Rightarrow> nat" where
  "le16 b i = unat (b i) + 256 * unat (b (i + 1))"

definition padded :: "nat \<Rightarrow> nat" where
  "padded n = 4 * ((n + 3) div 4)"

datatype ext_status = ExtDone | ExtShort | ExtHuge

fun ext_parse :: "(nat \<Rightarrow> u8) \<Rightarrow> nat \<Rightarrow> nat \<Rightarrow> (nat \<times> nat \<times> nat) list \<times> ext_status" where
  "ext_parse b i n =
     (if n < 4 then ([], if n = 0 then ExtDone else ExtShort)
      else
        let len = le16 b (i + 2) in
        if 65532 < len then ([], ExtHuge)
        else if padded len \<le> n - 4 then
          let (ps, st) = ext_parse b (i + 4 + padded len) (n - 4 - padded len)
          in ((le16 b i, len, i + 4) # ps, st)
        else ([], ExtShort))"

declare ext_parse.simps [simp del]

text \<open>The plugin calls for a list of parameters: pad, call, stop at the first fatal error.\<close>

fun ext_apply ::
  "'s xa_proc \<Rightarrow> addr \<Rightarrow> (nat \<times> nat \<times> nat) list \<Rightarrow> ('a XACodecBase_scheme, 's) xa_st \<Rightarrow>
     ('a XACodecBase_scheme, 's) xa_st \<times> u32 option"
where
  "ext_apply p a [] s = (s, None)"
| "ext_apply p a ((param, len, i) # ps) s =
     (let (s, v, e) = xa_call p XA_API_CMD_SET_CONFIG_PARAM (of_nat param) (PvPtr (a + of_nat i))
            (upd_core (ext_pad (a + of_nat i) (of_nat len)) s)
      in if e \<noteq> XA_NO_ERROR \<and> XA_ERROR_SEVERITY e then (s, Some e) else ext_apply p a ps s)"

section \<open>The loop parses\<close>

text \<open>A plugin that, when it sets a parameter, leaves an area of the memory alone. It may write there on
  other commands, e.g. to answer a query. The converter and the mixer set parameters without writing to
  memory at all.\<close>

definition set_spares :: "'s xa_proc \<Rightarrow> addr set \<Rightarrow> bool" where
  "set_spares p A \<longleftrightarrow> (\<forall>api i a d w. \<forall>x\<in>A. fst (p api XA_API_CMD_SET_CONFIG_PARAM i (PvPtr a) d w) x = d x)"

lemma xp_chk_data [simp]: "fst (xp_chk c e u d w k) = (if c then fst k else d)"
  by (simp add: xp_chk_def xp_ret_def)

lemma xp_ret_data [simp]: "fst (xp_ret e u d w) = d"
  by (simp add: xp_ret_def)

lemma pcm_spares: "set_spares (xa_pcm_codec u) A"
  by (simp add: set_spares_def xa_pcm_codec_def xa_pcm_api_def xa_pcm_set_config_param_def XA_API_CMD_SET_CONFIG_PARAM_def
      XA_API_CMD_GET_API_SIZE_def XA_API_CMD_INIT_def Let_def)

lemma mixer_spares: "set_spares (xa_mixer u) A"
  by (simp add: set_spares_def xa_mixer_def xa_mixer_api_def xa_mixer_set_config_param_def XA_API_CMD_SET_CONFIG_PARAM_def
      XA_API_CMD_GET_API_SIZE_def XA_API_CMD_INIT_def Let_def)

lemma mem_read16_le16:
  assumes "\<And>k. k < 2 \<Longrightarrow> d (a + of_nat (i + k)) = b (i + k)"
  shows "unat (mem_read16 d (a + of_nat i)) = le16 b i"
proof -
  let ?x = "d (a + of_nat i)" and ?y = "d (a + of_nat i + 1)"
  have "a + of_nat i + 1 = a + of_nat (i + 1)" by simp
  then have "?y = d (a + of_nat (i + 1))" by (rule arg_cong)
  then have xy: "?x = b i" "?y = b (i + 1)" using assms [of 0] assms [of 1] by simp_all
  have "(ucast ?x :: u16) AND push_bit 8 (ucast ?y) = 0"
    by (rule bit_word_eqI) (auto simp: bit_simps dest: bit_imp_le_length)
  then have "mem_read16 d (a + of_nat i) = ucast ?x + push_bit 8 (ucast ?y)"
    by (simp add: mem_read16_def disjunctive_add_eq_or)
  moreover have "unat (ucast ?x + push_bit 8 (ucast ?y) :: u16) = unat ?x + 256 * unat ?y"
  proof -
    have "unat ?x < 256" "unat ?y < 256" using unsigned_less [of ?x] unsigned_less [of ?y] by simp_all
    then show ?thesis
      by (simp add: unat_word_ariths unsigned_push_bit_eq unsigned_ucast_eq take_bit_eq_mod push_bit_eq_mult)
  qed
  ultimately show ?thesis by (simp add: le16_def xy)
qed

lemma ext_size_padded:
  assumes "unat l \<le> 65532"
  shows "unat (ext_size l) = padded (unat l)"
proof -
  have m: "(3 :: u16) = mask 2" by (simp add: mask_eq_exp_minus_1)
  have u: "unat (l + 3) = unat l + 3" using assms by (simp add: unat_word_ariths)
  have n: "2 \<le> n \<Longrightarrow> Suc (Suc (n - 2)) = n" for n by simp
  have "w AND NOT (mask 2) = push_bit 2 (drop_bit 2 w)" for w :: u16
    by (rule bit_word_eqI) (auto simp: bit_simps n)
  then have "ext_size l = push_bit 2 (drop_bit 2 (l + 3))" unfolding ext_size_def m [symmetric] by (metis m)
  also have "unat \<dots> = 4 * ((unat l + 3) div 4)"
    using assms by (simp add: push_bit_eq_mult drop_bit_eq_div unat_word_ariths unat_div u)
  finally show ?thesis by (simp add: padded_def)
qed

lemma and_3_mod: "unat (l AND 3 :: u16) = unat l mod 4"
proof -
  have "(3 :: u16) = mask 2" by (simp add: mask_eq_exp_minus_1)
  then have "l AND 3 = take_bit 2 l" by (simp add: take_bit_eq_mask)
  then show ?thesis by (simp add: take_bit_eq_mod unat_mod)
qed

lemma padded_mod: "n mod 4 \<noteq> 0 \<Longrightarrow> padded n = n + (4 - n mod 4)" "n mod 4 = 0 \<Longrightarrow> padded n = n"
  unfolding padded_def by presburger+

text \<open>Padding writes between the data and the next word.\<close>

lemma ext_pad_other:
  assumes k: "j + padded (unat len) \<le> k" "k < 2 ^ 32"
  shows "c_data (ext_pad (a + of_nat j) len cd) (a + of_nat k) = c_data cd (a + of_nat k)"
proof (cases "len AND 3 = 0")
  case False
  define n where "n = (4 - ucast (len AND 3) :: u32)"
  have p: "unat len mod 4 \<noteq> 0" using False and_3_mod [of len] by (metis unat_eq_zero)
  have u: "unat (ucast (len AND 3) :: u32) = unat len mod 4" by (simp add: unsigned_ucast_eq and_3_mod take_bit_nat_eq_self)
  have "ucast (len AND 3) \<le> (4 :: u32)" unfolding word_le_nat_alt u by simp
  then have n: "unat n = 4 - unat len mod 4" unfolding n_def by (simp add: unat_sub u)
  have w: "a + of_nat j + ucast len = a + of_nat (j + unat len)" by simp
  have "a + of_nat k \<notin> area (a + of_nat j + ucast len) (unat n)"
  proof
    assume "a + of_nat k \<in> area (a + of_nat j + ucast len) (unat n)"
    then obtain t where t: "t < unat n" "a + of_nat k = a + of_nat (j + unat len) + of_nat t" unfolding area_def w by auto
    have "j + unat len + t < k" using t(1) k(1) padded_mod(1) [OF p] n by linarith
    moreover have "of_nat k = (of_nat (j + unat len + t) :: u32)" using t(2) by (simp add: algebra_simps)
    ultimately show False using k(2) of_nat_u32_eq [of k "j + unat len + t"] by simp
  qed
  then show ?thesis using False mem_set_bytes(2) [of "a + of_nat k" _ n] by (simp add: ext_pad_def Let_def n_def)
qed (simp add: ext_pad_def)

text \<open>One parameter: what the loop calls is what the reference applies, and the rest of the message stays.\<close>

lemma ext_set_call_at:
  assumes "\<And>k. k < 4 \<Longrightarrow> c_data (xs_core s) (a + of_nat (i + k)) = b (i + k)"
  shows "ext_set_call p (a + of_nat i) s =
     xa_call p XA_API_CMD_SET_CONFIG_PARAM (of_nat (le16 b i)) (PvPtr (a + of_nat (i + 4)))
       (upd_core (ext_pad (a + of_nat (i + 4)) (of_nat (le16 b (i + 2)))) s)"
    and "unat (mem_read16 (c_data (xs_core s)) (a + of_nat i + 2)) = le16 b (i + 2)"
proof -
  let ?d = "c_data (xs_core s)"
  have 1: "unat (mem_read16 ?d (a + of_nat i)) = le16 b i"
    by (rule mem_read16_le16) (use assms in simp)
  have "unat (mem_read16 ?d (a + of_nat (i + 2))) = le16 b (i + 2)"
    by (rule mem_read16_le16) (use assms [of "2 + k" for k] in \<open>simp add: add.assoc del: of_nat_add\<close>)
  moreover have e: "a + of_nat i + 2 = a + of_nat (i + 2)" "a + of_nat i + 4 = a + of_nat (i + 4)" by simp_all
  ultimately show 2: "unat (mem_read16 ?d (a + of_nat i + 2)) = le16 b (i + 2)" by (simp only:)
  have "ucast (mem_read16 ?d (a + of_nat i)) = (of_nat (le16 b i) :: u32)" unfolding 1 [symmetric] by simp
  moreover have "mem_read16 ?d (a + of_nat i + 2) = of_nat (le16 b (i + 2))" unfolding 2 [symmetric] by simp
  ultimately show "ext_set_call p (a + of_nat i) s =
     xa_call p XA_API_CMD_SET_CONFIG_PARAM (of_nat (le16 b i)) (PvPtr (a + of_nat (i + 4)))
       (upd_core (ext_pad (a + of_nat (i + 4)) (of_nat (le16 b (i + 2)))) s)"
    unfolding ext_set_call_def e by simp
qed

lemma set_call_rest:
  assumes "set_spares p (area a N)" and "xa_call p XA_API_CMD_SET_CONFIG_PARAM idx (PvPtr ptr) (upd_core (ext_pad (a + of_nat j) len) s) = (s', v, e)"
    and "j + padded (unat len) \<le> k" and "k < N" and "N < 2 ^ 32"
  shows "c_data (xs_core s') (a + of_nat k) = c_data (xs_core s) (a + of_nat k)"
proof -
  let ?s = "upd_core (ext_pad (a + of_nat j) len) s"
  have "a + of_nat k \<in> area a N" using assms(4) by (auto simp: area_def)
  then have "fst (p (mb_addr (xb_api (xs_obj ?s))) XA_API_CMD_SET_CONFIG_PARAM idx (PvPtr ptr) (c_data (xs_core ?s)) (xs_plug ?s)) (a + of_nat k) =
      c_data (xs_core ?s) (a + of_nat k)"
    using assms(1) unfolding set_spares_def by blast
  moreover have "c_data (xs_core s') = fst (p (mb_addr (xb_api (xs_obj ?s))) XA_API_CMD_SET_CONFIG_PARAM idx (PvPtr ptr) (c_data (xs_core ?s)) (xs_plug ?s))"
    using assms(2) by (cases "p (mb_addr (xb_api (xs_obj ?s))) XA_API_CMD_SET_CONFIG_PARAM idx (PvPtr ptr) (c_data (xs_core ?s)) (xs_plug ?s)") (auto simp: xa_call_def)
  ultimately have "c_data (xs_core s') (a + of_nat k) = c_data (ext_pad (a + of_nat j) len (xs_core s)) (a + of_nat k)"
    by (simp add: upd_core_def)
  then show ?thesis using ext_pad_other [OF assms(3)] assms(4,5) by simp
qed

lemma set_ext_parses:
  assumes p: "set_spares p (area a N)" and N: "N < 2 ^ 32"
  shows "unat r = n \<Longrightarrow> 4 dvd n \<Longrightarrow> i + n = N \<Longrightarrow> (\<And>k. i \<le> k \<Longrightarrow> k < N \<Longrightarrow> c_data (xs_core s) (a + of_nat k) = b k) \<Longrightarrow>
    ext_parse b i n = (ps, st) \<Longrightarrow> st \<noteq> ExtHuge \<Longrightarrow>
    base_set_ext p r (a + of_nat i) s k =
      (case ext_apply p a ps s of
         (s', Some e) \<Rightarrow> Some (s', e)
       | (s', None) \<Rightarrow> if st = ExtDone then k s' 0 else Some (s', XA_API_FATAL_INVALID_CMD_TYPE))"
proof (induction b i n arbitrary: r s ps st rule: ext_parse.induct)
  case (1 b i n)
  note n = "1.prems"(1) and d = "1.prems"(2) and N' = "1.prems"(3) and mem = "1.prems"(4)
  let ?len = "le16 b (i + 2)" and ?l = "mem_read16 (c_data (xs_core s)) (a + of_nat i + 2)"
  have four: "4 \<le> r \<longleftrightarrow> \<not> n < 4" using n by (auto simp: word_le_nat_alt)
  show ?case
  proof (cases "n < 4")
    case True
    then have "n = 0" using d by auto
    then have "ps = []" "st = ExtDone" using "1.prems"(5) by (simp_all add: ext_parse.simps)
    moreover have "r = 0" using n \<open>n = 0\<close> by (simp add: word_unat_eq_iff)
    moreover note True
    ultimately have "ps = []" "st = ExtDone" "r = 0" "n < 4" by simp_all
    with True four show ?thesis by (subst base_set_ext_step) simp
  next
    case False
    have m4: "k < 4 \<Longrightarrow> c_data (xs_core s) (a + of_nat (i + k)) = b (i + k)" for k using mem [of "i + k"] N' False by simp
    have len: "unat ?l = ?len" by (rule ext_set_call_at(2)) (use m4 in simp)
    have small: "?len \<le> 65532" using "1.prems"(5,6) False by (auto simp: ext_parse.simps [of b i n] Let_def split: if_splits)
    have sz: "unat (ext_size ?l) = padded ?len" using ext_size_padded [of ?l] small len by simp
    have r4: "unat (r - 4) = n - 4" using four False n by (simp add: unat_sub)
    have fit: "ext_size ?l \<le> r - 4 \<longleftrightarrow> padded ?len \<le> n - 4" by (simp add: word_le_nat_alt sz r4)
    show ?thesis
    proof (cases "padded ?len \<le> n - 4")
      case short: False
      then have "ps = []" "st = ExtShort" using "1.prems"(5) False small by (auto simp: ext_parse.simps [of b i n] Let_def)
      then show ?thesis using short fit four False by (subst base_set_ext_step) simp
    next
      case True
      define j where "j = i + 4 + padded ?len"
      obtain qs where q: "ext_parse b j (n - 4 - padded ?len) = (qs, st)" "ps = (le16 b i, ?len, i + 4) # qs"
        using "1.prems"(5) False True small by (auto simp: ext_parse.simps [of b i n] Let_def j_def split: prod.splits)
      have call: "ext_set_call p (a + of_nat i) s =
          xa_call p XA_API_CMD_SET_CONFIG_PARAM (of_nat (le16 b i)) (PvPtr (a + of_nat (i + 4)))
            (upd_core (ext_pad (a + of_nat (i + 4)) (of_nat ?len)) s)"
        by (rule ext_set_call_at(1)) (use m4 in simp)
      obtain s' v e where c: "xa_call p XA_API_CMD_SET_CONFIG_PARAM (of_nat (le16 b i)) (PvPtr (a + of_nat (i + 4)))
            (upd_core (ext_pad (a + of_nat (i + 4)) (of_nat ?len)) s) = (s', v, e)" by (rule prod_cases3)
      have ul: "unat (of_nat ?len :: u16) = ?len" using len by (metis of_nat_unat ucast_id)
      have rest: "c_data (xs_core s') (a + of_nat k) = b k" if "j \<le> k" "k < N" for k
        using set_call_rest [OF p c, of k, unfolded ul] that N mem [of k] by (simp add: j_def)
      have nx: "a + of_nat i + 4 + ucast (ext_size ?l) = a + of_nat j"
        unfolding j_def sz [symmetric] by simp
      have ih: "base_set_ext p (r - 4 - ext_size ?l) (a + of_nat j) s' k =
          (case ext_apply p a qs s' of
             (s', Some e) \<Rightarrow> Some (s', e)
           | (s', None) \<Rightarrow> if st = ExtDone then k s' 0 else Some (s', XA_API_FATAL_INVALID_CMD_TYPE))"
        using q(1) unfolding j_def
      proof (intro "1.IH" [OF False refl])
        show "\<not> 65532 < ?len" using small by simp
        show "padded ?len \<le> n - 4" by (rule True)
        show "unat (r - 4 - ext_size ?l) = n - 4 - padded ?len" using fit True by (simp add: unat_sub r4 sz)
        show "4 dvd n - 4 - padded ?len" using d False True by (simp add: padded_def)
        show "i + 4 + padded ?len + (n - 4 - padded ?len) = N" using N' False True by simp
        show "st \<noteq> ExtHuge" by (rule "1.prems"(6))
      qed (use rest in \<open>simp_all add: j_def\<close>)
      show ?thesis
        using False True four fit ih
        by (subst base_set_ext_step) (simp add: Let_def call c nx q(2) del: of_nat_add add_2_eq_Suc')
    qed
  qed
qed

section \<open>Properties\<close>

text \<open>C29: \<open>xa_base_set_param_ext\<close> is the reference parser followed by the plugin calls, for every content of a
  message of up to 65532 bytes in which the parser meets no length field above 65532, and for every plugin
  that does not write to the message while it sets a parameter (the converter and the mixer do not): the
  parameters go to the plugin one by one with their data padded, the first fatal error of the plugin ends
  the command with that error, a message that is cut off ends with an invalid-command error after its
  complete parameters, and a complete message is answered with its own length.\<close>

theorem set_param_ext_parses:
  assumes msg: "c_msgs (xs_core s) m = msg"
    and p: "set_spares p (area (m_buffer msg) (padded (unat (m_length msg))))" and n: "m_length msg \<le> 65532"
    and parse: "ext_parse (\<lambda>i. c_data (xs_core s) (m_buffer msg + of_nat i)) 0 (padded (unat (m_length msg))) = (ps, st)"
    and st: "st \<noteq> ExtHuge"
  shows "xa_base_set_param_ext p m s =
    (case ext_apply p (m_buffer msg) ps s of
       (s', Some e) \<Rightarrow> Some (s', e)
     | (s', None) \<Rightarrow>
         if st = ExtDone then map_option (\<lambda>s. (s, XA_NO_ERROR)) (on_core (xf_response_data m (m_length msg)) s')
         else Some (s', XA_API_FATAL_INVALID_CMD_TYPE))"
proof -
  let ?n = "unat (m_length msg)" and ?l = "ucast (m_length msg) :: u16"
  have n': "?n \<le> 65532" using n by (simp add: word_le_nat_alt)
  have l: "unat ?l = ?n" using n' by (simp add: unsigned_ucast_eq take_bit_nat_eq_self)
  have r: "unat ((?l + 3) AND NOT 3) = padded ?n" using ext_size_padded [of ?l] n' l by (simp add: ext_size_def)
  have "(of_nat (unat ?l) :: u32) = of_nat ?n" by (simp only: l)
  then have len: "(ucast ?l :: u32) = m_length msg" by simp
  have N: "padded ?n < 2 ^ 32" using n' by (simp add: padded_def)
  have d: "4 dvd padded ?n" by (simp add: padded_def)
  show ?thesis
    unfolding xa_base_set_param_ext_def Let_def msg len
    using set_ext_parses [OF p N r d _ _ parse st, of s] by (auto simp: XF_CHK_def split: prod.split option.split)
qed

text \<open>The PCM converter before its configuration, and a message with its routing (two bytes of data) and its
  sample rate.\<close>

definition ext_demo_data :: "addr \<Rightarrow> u8" where
  "ext_demo_data = (\<lambda>_. 0)(0 := 5, 2 := 2, 4 := 1, 5 := 2, 6 := 255, 7 := 255, 10 := 4, 12 := 0x80, 13 := 0xBB)"

definition ext_demo :: "u32 \<Rightarrow> (addr \<Rightarrow> u8) \<Rightarrow> (XAAudioCodec, XAPcmCodec) xa_st" where
  "ext_demo n d =
     \<lparr>xs_core = (cmd_demo 0x80008000 XF_SET_PARAM_EXT n)\<lparr>c_data := d\<rparr>, xs_self = 512,
      xs_obj = codec_zero\<lparr>xb_api := \<lparr>mb_addr = 1024, mb_size = 64\<rparr>\<rparr>, xs_plug = xa_pcm_zero\<lparr>pc_state := XA_PCM_FLAG_PREINIT_DONE\<rparr>\<rparr>"

lemmas pcm_set_eval = xa_call_def xa_pcm_codec_def XA_PCM_API_COMMANDS_NUM_def xa_pcm_api_def XA_API_CMD_SET_CONFIG_PARAM_def
  XA_API_CMD_GET_API_SIZE_def XA_API_CMD_INIT_def xa_pcm_set_config_param_def xp_chk_def xp_ret_def xa_pcm_zero_def
  XA_CODEC_CONFIG_PARAM_SAMPLE_RATE_def XA_CODEC_CONFIG_PARAM_PCM_WIDTH_def XA_CODEC_CONFIG_PARAM_CHANNELS_def
  XA_PCM_CONFIG_PARAM_SAMPLE_RATE_def XA_PCM_CONFIG_PARAM_IN_PCM_WIDTH_def XA_PCM_CONFIG_PARAM_IN_CHANNELS_def
  XA_PCM_CONFIG_PARAM_OUT_PCM_WIDTH_def XA_PCM_CONFIG_PARAM_OUT_CHANNELS_def XA_PCM_CONFIG_PARAM_CHANROUTING_def
  XA_NO_ERROR_def upd_core_def Let_def

lemma set_param_ext_parses_witness:
  "\<exists>s'. xa_base_set_param_ext (xa_pcm_codec 0) 96 (ext_demo 16 ext_demo_data) =
      map_option (\<lambda>s. (s, XA_NO_ERROR)) (on_core (xf_response_data 96 16) s') \<and>
    pc_chan_routing (xs_plug s') = 0x201 \<and> pc_sample_rate (xs_plug s') = 48000 \<and> c_data (xs_core s') 7 = 0"
proof -
  let ?s = "ext_demo 16 ext_demo_data" and ?ps = "[(5, 2, 4), (0, 4, 12)]"
  let ?msg = "c_msgs (xs_core ?s) 96"
  have m: "m_buffer ?msg = 0" "m_length ?msg = 16" by (simp_all add: ext_demo_def cmd_demo_msg)
  have d: "c_data (xs_core ?s) = ext_demo_data" by (simp add: ext_demo_def)
  have "ext_parse (\<lambda>i. ext_demo_data (of_nat i)) 0 16 = (?ps, ExtDone)"
    by (simp add: ext_parse.simps le16_def ext_demo_data_def padded_def)
  then have parse: "ext_parse (\<lambda>i. c_data (xs_core ?s) (m_buffer ?msg + of_nat i)) 0 (padded (unat (m_length ?msg))) = (?ps, ExtDone)"
    unfolding m d by (simp add: padded_def)
  have "[0 ..< 2] = [0, 1 :: nat]" by (simp add: upt_rec)
  then obtain s' where a: "ext_apply (xa_pcm_codec 0) 0 ?ps ?s = (s', None)"
    and s': "pc_chan_routing (xs_plug s') = 0x201" "pc_sample_rate (xs_plug s') = 48000" "c_data (xs_core s') 7 = 0"
    by (simp add: pcm_set_eval ext_demo_def ext_demo_data_def ext_pad_def mem_set_def mem_read32_def mem_read16_def)
  have "xa_base_set_param_ext (xa_pcm_codec 0) 96 ?s = map_option (\<lambda>s. (s, XA_NO_ERROR)) (on_core (xf_response_data 96 16) s')"
    using set_param_ext_parses [OF refl pcm_spares _ parse] a unfolding m by simp
  with s' show ?thesis by blast
qed

text \<open>C30: A length field of 65533 makes \<open>xa_base_set_param_ext\<close> leave the message: the padded size wraps to 0, so
  the length check passes for a message of 4 bytes that consists of the descriptor alone. Three zero bytes
  are written 65533 bytes behind the end of the message, the plugin (any plugin) is called with the
  address behind the message as the address of its data, and unless it reports a fatal error the command is
  answered as a success.\<close>

theorem ext_param_overflow:
  assumes msg: "c_msgs (xs_core s) m = msg"
    and n: "m_length msg = 4" and len: "mem_read16 (c_data (xs_core s)) (m_buffer msg + 2) = 65533"
  shows "xa_base_set_param_ext p m s =
     (let (s', v, e) = xa_call p XA_API_CMD_SET_CONFIG_PARAM (ucast (mem_read16 (c_data (xs_core s)) (m_buffer msg)))
            (PvPtr (m_buffer msg + 4)) (upd_core (\<lambda>cd. cd\<lparr>c_data := mem_set (m_buffer msg + 4 + 65533) 0 3 (c_data cd)\<rparr>) s)
      in if e \<noteq> XA_NO_ERROR \<and> XA_ERROR_SEVERITY e then Some (s', e)
         else map_option (\<lambda>s. (s, XA_NO_ERROR)) (on_core (xf_response_data m 4) s')) \<and>
     m_buffer msg + 4 \<notin> area (m_buffer msg) 4 \<and> area (m_buffer msg + 4 + 65533) 3 \<inter> area (m_buffer msg) 4 = {}"
proof (intro conjI)
  let ?a = "m_buffer msg"
  have h: "ext_size 65533 = 0" by (simp add: ext_size_def)
  have "ext_pad (?a + 4) 65533 cd = cd\<lparr>c_data := mem_set (?a + 4 + 65533) 0 3 (c_data cd)\<rparr>" for cd
  proof -
    have "(65533 :: u16) AND 3 = 1" "?a + 4 + ucast (65533 :: u16) = ?a + 4 + 65533" by simp_all
    then show ?thesis unfolding ext_pad_def Let_def by (simp only:) simp
  qed
  then have pad: "ext_pad (?a + 4) 65533 = (\<lambda>cd. cd\<lparr>c_data := mem_set (?a + 4 + 65533) 0 3 (c_data cd)\<rparr>)" by blast
  obtain s' v e where c: "ext_set_call p ?a s = (s', v, e)" by (rule prod_cases3)
  then have x: "xa_call p XA_API_CMD_SET_CONFIG_PARAM (ucast (mem_read16 (c_data (xs_core s)) ?a)) (PvPtr (?a + 4))
      (upd_core (\<lambda>cd. cd\<lparr>c_data := mem_set (?a + 4 + 65533) 0 3 (c_data cd)\<rparr>) s) = (s', v, e)"
    unfolding ext_set_call_def len pad Let_def .
  have "base_set_ext p 4 ?a s k = (if e \<noteq> XA_NO_ERROR \<and> XA_ERROR_SEVERITY e then Some (s', e) else k s' 0)" for k
    using c len by (subst base_set_ext_step, subst base_set_ext_step) (simp add: h)
  then show "xa_base_set_param_ext p m s =
     (let (s', v, e) = xa_call p XA_API_CMD_SET_CONFIG_PARAM (ucast (mem_read16 (c_data (xs_core s)) ?a))
            (PvPtr (?a + 4)) (upd_core (\<lambda>cd. cd\<lparr>c_data := mem_set (?a + 4 + 65533) 0 3 (c_data cd)\<rparr>) s)
      in if e \<noteq> XA_NO_ERROR \<and> XA_ERROR_SEVERITY e then Some (s', e)
         else map_option (\<lambda>s. (s, XA_NO_ERROR)) (on_core (xf_response_data m 4) s'))"
    unfolding xa_base_set_param_ext_def Let_def msg n x by (simp add: XF_CHK_def)
  have off: "i = j" if "?a + of_nat i = ?a + of_nat j" "i < 65540" "j < 65540" for i j
    using that of_nat_u32_eq [of i j] by simp
  show "?a + 4 \<notin> area ?a 4" using off [of 4] by (fastforce simp: area_def)
  show "area (?a + 4 + 65533) 3 \<inter> area ?a 4 = {}"
  proof -
    have "?a + 4 + 65533 + of_nat i \<noteq> ?a + of_nat j" if "i < 3" "j < 4" for i j
      using off [of "65537 + i" j] that by (auto simp: add.assoc)
    then show ?thesis by (auto simp: area_def)
  qed
qed

lemma ext_param_overflow_witness:
  "\<exists>s'. xa_base_set_param_ext (xa_pcm_codec 0) 96 (ext_demo 4 ((\<lambda>_. 170)(0 := 5, 1 := 0, 2 := 253, 3 := 255))) =
      map_option (\<lambda>s. (s, XA_NO_ERROR)) (on_core (xf_response_data 96 4) s') \<and>
    pc_chan_routing (xs_plug s') = 0xAAAAAAAA \<and> c_data (xs_core s') 65537 = 0"
proof -
  let ?s = "ext_demo 4 ((\<lambda>_. 170)(0 := 5, 1 := 0, 2 := 253, 3 := 255))"
  have m: "m_length (c_msgs (xs_core ?s) 96) = 4" "m_buffer (c_msgs (xs_core ?s) 96) = 0"
    by (simp_all add: ext_demo_def cmd_demo_msg)
  have "mem_read16 (c_data (xs_core ?s)) (0 + 2) = 65533" by (simp add: mem_read16_def ext_demo_def)
  note o = ext_param_overflow [OF refl m(1), unfolded m(2), OF this, of "xa_pcm_codec 0", THEN conjunct1]
  have "[0 ..< 3] = [0, 1, 2 :: nat]" by (simp add: upt_rec)
  then show ?thesis unfolding o
    by (simp add: pcm_set_eval ext_demo_def mem_set_def mem_read32_def mem_read16_def) (intro exI conjI, rule refl, simp_all)
qed

end
