(* ===== verification/XA_Tracks.thy ===== *)
theory XA_Tracks
  imports XA_Mixer XA_Create
begin

text \<open>
  The states of a mixer: the stage of the component with its order, and the modes of its tracks as the
  custom flags of their input ports, which no port operation touches.
\<close>

section \<open>Custom flags of an input port\<close>

text \<open>The operations of an input port leave the custom flags alone.\<close>

definition custom :: "xf_input_port \<Rightarrow> u32" where
  "custom port = ip_flags port AND - 32"

lemma custom_upd [simp]:
  "custom (port\<lparr>ip_queue := q\<rparr>) = custom port" "custom (port\<lparr>ip_access := a\<rparr>) = custom port"
  "custom (port\<lparr>ip_remaining := n\<rparr>) = custom port" "custom (port\<lparr>ip_filled := n\<rparr>) = custom port"
  "custom (port\<lparr>ip_buffer := a\<rparr>) = custom port" "custom (port\<lparr>ip_length := n\<rparr>) = custom port"
  by (simp_all add: custom_def)

lemma xor_low: "k AND - 32 = 0 \<Longrightarrow> (f XOR k) AND - 32 = f AND (- 32 :: u32)"
  by (simp add: bit.conj_xor_distrib2)

lemma port_toggles:
  "(f XOR (XF_INPUT_FLAG_ENABLED OR XF_INPUT_FLAG_EOS)) AND - 32 = f AND - 32"
  "(f XOR (XF_INPUT_FLAG_EOS OR XF_INPUT_FLAG_DONE)) AND - 32 = f AND - 32"
  by (rule xor_low, simp add: input_flag_defs)+

lemma complete_custom: "xf_input_port_complete port cd = Some (cd', port', b) \<Longrightarrow> custom port' = custom port"
  by (auto simp: xf_input_port_complete_def Let_def bind_eq_Some_conv split: prod.splits if_splits)

lemma fill_loop_custom: "port_fill_loop port filled remaining n cd = Some x \<Longrightarrow> custom (fst (snd x)) = custom port"
proof (induction rule: port_fill_loop.raw_induct [rotated, consumes 1, case_names step])
  case (step f port filled remaining n cd x)
  show ?case
  proof (cases "0 <s n \<and> (if remaining > n then n else remaining) \<noteq> 0")
    case False
    then show ?thesis using step.hyps by (auto simp: Let_def custom_def port_toggles split: if_splits)
  next
    case True
    define k where "k = (if remaining > n then n else remaining)"
    define c where "c = cd\<lparr>c_data := mem_copy (ip_buffer port + filled) (ip_access port) k (c_data cd)\<rparr>"
    define q where "q = port\<lparr>ip_access := ip_access port + k\<rparr>"
    have q: "custom q = custom port" by (simp add: q_def)
    have h: "(if remaining - k = 0 then
        Option.bind (xf_input_port_complete q c) (\<lambda>(cd, port, more).
          if \<not> more then Some (cd, port, filled + k, remaining - k, n - k)
          else f port (filled + k) (ip_remaining port) (n - k) cd)
        else f q (filled + k) (remaining - k) (n - k) c) = Some x"
      using step.hyps True unfolding k_def [symmetric] c_def q_def Let_def by auto
    show ?thesis using h q
      by (auto simp: bind_eq_Some_conv split: if_splits dest!: complete_custom step.IH)
  qed
qed

lemma input_custom:
  "xf_input_port_put port m cd = Some (cd', port', b) \<Longrightarrow> custom port' = custom port"
  "xf_input_port_fill port cd = Some (cd', port', b) \<Longrightarrow> custom port' = custom port"
  "xf_input_port_consume port n cd = Some (cd', port') \<Longrightarrow> custom port' = custom port"
  "xf_input_port_purge port cd = Some (cd', port') \<Longrightarrow> custom port' = custom port"
  "xf_input_port_init port sz align core cd = Some (cd', port', Inr ()) \<Longrightarrow> custom port' = 0"
  "xf_input_port_init port sz align core cd = Some (cd', port', Inl err) \<Longrightarrow> custom port' = custom port"
  "xf_input_port_destroy port core cd = Some (cd', port') \<Longrightarrow> custom port' = custom port \<or> custom port' = 0"
proof -
  show "xf_input_port_put port m cd = Some (cd', port', b) \<Longrightarrow> custom port' = custom port"
    by (auto simp: xf_input_port_put_def Let_def custom_def port_toggles split: if_splits prod.splits)
  show "xf_input_port_fill port cd = Some (cd', port', b) \<Longrightarrow> custom port' = custom port"
    by (auto simp: xf_input_port_fill_def split: if_splits dest!: fill_loop_custom)
  show "xf_input_port_consume port n cd = Some (cd', port') \<Longrightarrow> custom port' = custom port"
    by (auto simp: xf_input_port_consume_def Let_def custom_def port_toggles split: if_splits
        dest!: complete_custom [unfolded custom_def])
  have "(XF_INPUT_FLAGS (NOT 0)) = 31" by (simp add: XF_INPUT_FLAGS_def)
  then have "((f AND NOT (XF_INPUT_FLAGS (NOT 0))) OR XF_INPUT_FLAG_ENABLED OR XF_INPUT_FLAG_CREATED) AND - 32 = f AND - 32" for f :: u32
    by (simp add: input_flag_defs bit.conj_disj_distrib2 and.assoc)
  then show "xf_input_port_purge port cd = Some (cd', port') \<Longrightarrow> custom port' = custom port"
    by (auto simp: xf_input_port_purge_def Let_def custom_def split: if_splits)
  show "xf_input_port_init port sz align core cd = Some (cd', port', Inr ()) \<Longrightarrow> custom port' = 0"
    "xf_input_port_init port sz align core cd = Some (cd', port', Inl err) \<Longrightarrow> custom port' = custom port"
    by (auto simp: xf_input_port_init_def Let_def bind_eq_Some_conv custom_def input_flag_defs split: if_splits)
  show "xf_input_port_destroy port core cd = Some (cd', port') \<Longrightarrow> custom port' = custom port \<or> custom port' = 0"
    by (auto simp: xf_input_port_destroy_def bind_eq_Some_conv custom_def split: if_splits)
qed

section \<open>Stages\<close>

text \<open>The stages of the mixer in their order; there is no way back from the last one.\<close>

datatype mixer_stage = Fresh | Runtime_Init | Executing | Completed

fun stage_rank :: "mixer_stage \<Rightarrow> nat" where
  "stage_rank Fresh = 0"
| "stage_rank Runtime_Init = 1"
| "stage_rank Executing = 2"
| "stage_rank Completed = 3"

lemma stage_rank_inj: "stage_rank a = stage_rank b \<Longrightarrow> a = b"
  by (cases a; cases b) simp_all

instantiation mixer_stage :: linorder
begin

definition less_eq_mixer_stage :: "mixer_stage \<Rightarrow> mixer_stage \<Rightarrow> bool" where
  "less_eq_mixer_stage a b \<longleftrightarrow> stage_rank a \<le> stage_rank b"

definition less_mixer_stage :: "mixer_stage \<Rightarrow> mixer_stage \<Rightarrow> bool" where
  "less_mixer_stage a b \<longleftrightarrow> stage_rank a < stage_rank b"

instance
  by standard (auto simp: less_eq_mixer_stage_def less_mixer_stage_def stage_rank_inj)

end

definition stage_of :: "u32 \<Rightarrow> mixer_stage" where
  "stage_of st =
     (if st AND XA_BASE_FLAG_COMPLETED \<noteq> 0 then Completed
      else if st AND XA_BASE_FLAG_EXECUTION \<noteq> 0 then Executing
      else if st AND XA_BASE_FLAG_RUNTIME_INIT \<noteq> 0 then Runtime_Init
      else Fresh)"

lemma stage_of_low: "stage_of st = stage_of (st AND 15)"
  by (simp add: stage_of_def base_flag_defs and.assoc)

definition mixer_state :: "u32 \<Rightarrow> bool" where
  "mixer_state st \<longleftrightarrow>
     codec_stage st \<in> {0, XA_BASE_FLAG_POSTINIT OR XA_BASE_FLAG_RUNTIME_INIT, XA_BASE_FLAG_POSTINIT OR XA_BASE_FLAG_EXECUTION,
       XA_BASE_FLAG_POSTINIT OR XA_BASE_FLAG_COMPLETED} \<and>
     st AND NOT (0xF OR XA_BASE_FLAG_SCHEDULE OR XA_MIXER_FLAG_OUTPUT_SETUP) = 0"

lemma mixer_state_alt: "mixer_state st \<longleftrightarrow> codec_typed st \<and> st AND 64 = 0"
proof -
  have "st AND - 64 = 0 \<longleftrightarrow> st AND - 128 = 0 \<and> st AND 64 = 0"
  proof
    assume a: "st AND - 64 = 0"
    have "st AND - 128 = (st AND - 64) AND - 128" "st AND 64 = (st AND - 64) AND 64" by (simp_all add: and.assoc)
    then show "st AND - 128 = 0 \<and> st AND 64 = 0" using a by simp
  next
    assume "st AND - 128 = 0 \<and> st AND 64 = 0"
    moreover have "st AND - 64 = (st AND - 128) OR (st AND 64)" by (simp add: bit.conj_disj_distrib [symmetric])
    ultimately show "st AND - 64 = 0" by simp
  qed
  then show ?thesis
    by (auto simp: mixer_state_def codec_typed_def codec_flag_defs XA_MIXER_FLAG_OUTPUT_SETUP_def)
qed

lemma mixer_state_xor:
  assumes "mixer_state st" and "codec_typed (st XOR k)" and "k AND 64 = 0"
    and "stage_of (st AND 15) \<le> stage_of ((st AND 15) XOR (k AND 15))"
  shows "mixer_state (st XOR k) \<and> stage_of st \<le> stage_of (st XOR k)"
proof -
  have "stage_of (st XOR k) = stage_of ((st AND 15) XOR (k AND 15))"
    by (subst stage_of_low) (simp add: bit.conj_xor_distrib2)
  then show ?thesis using assms stage_of_low [of st] by (simp add: mixer_state_alt bit.conj_xor_distrib2)
qed

lemma mixer_state_moves:
  assumes m: "mixer_state st"
  shows "st AND XA_BASE_FLAG_POSTINIT = 0 \<Longrightarrow> mixer_state (st XOR (XA_BASE_FLAG_POSTINIT OR XA_BASE_FLAG_RUNTIME_INIT)) \<and>
      stage_of st \<le> stage_of (st XOR (XA_BASE_FLAG_POSTINIT OR XA_BASE_FLAG_RUNTIME_INIT))"
    and "st AND XA_BASE_FLAG_RUNTIME_INIT \<noteq> 0 \<Longrightarrow> mixer_state (st XOR (XA_BASE_FLAG_RUNTIME_INIT OR XA_BASE_FLAG_EXECUTION)) \<and>
      stage_of st \<le> stage_of (st XOR (XA_BASE_FLAG_RUNTIME_INIT OR XA_BASE_FLAG_EXECUTION))"
    and "st AND XA_BASE_FLAG_EXECUTION \<noteq> 0 \<Longrightarrow> mixer_state (st XOR (XA_BASE_FLAG_EXECUTION OR XA_BASE_FLAG_COMPLETED)) \<and>
      stage_of st \<le> stage_of (st XOR (XA_BASE_FLAG_EXECUTION OR XA_BASE_FLAG_COMPLETED))"
proof -
  have t: "codec_typed st" using m by (simp add: mixer_state_alt)
  note e = base_flag_defs stage_of_def less_eq_mixer_stage_def
  show "st AND XA_BASE_FLAG_POSTINIT = 0 \<Longrightarrow> mixer_state (st XOR (XA_BASE_FLAG_POSTINIT OR XA_BASE_FLAG_RUNTIME_INIT)) \<and>
      stage_of st \<le> stage_of (st XOR (XA_BASE_FLAG_POSTINIT OR XA_BASE_FLAG_RUNTIME_INIT))"
    by (rule mixer_state_xor [OF m typed_postinit(1) [OF t]]) (simp_all add: typed_low(1) [OF t] e)
  show "st AND XA_BASE_FLAG_RUNTIME_INIT \<noteq> 0 \<Longrightarrow> mixer_state (st XOR (XA_BASE_FLAG_RUNTIME_INIT OR XA_BASE_FLAG_EXECUTION)) \<and>
      stage_of st \<le> stage_of (st XOR (XA_BASE_FLAG_RUNTIME_INIT OR XA_BASE_FLAG_EXECUTION))"
    by (rule mixer_state_xor [OF m typed_runtime(1) [OF t]]) (simp_all add: typed_low(2) [OF t] e)
  show "st AND XA_BASE_FLAG_EXECUTION \<noteq> 0 \<Longrightarrow> mixer_state (st XOR (XA_BASE_FLAG_EXECUTION OR XA_BASE_FLAG_COMPLETED)) \<and>
      stage_of st \<le> stage_of (st XOR (XA_BASE_FLAG_EXECUTION OR XA_BASE_FLAG_COMPLETED))"
    by (rule mixer_state_xor [OF m typed_completed(1) [OF t]]) (simp_all add: typed_low(3) [OF t] e)
qed

lemma mixer_state_flag:
  assumes m: "mixer_state st" and k: "k AND 15 = 0"
  shows "k AND NOT 127 = 0 \<Longrightarrow> k AND 64 = 0 \<Longrightarrow> mixer_state (st XOR k) \<and> stage_of st \<le> stage_of (st XOR k)"
    and "mixer_state (st AND NOT k) \<and> stage_of st \<le> stage_of (st AND NOT k)"
proof -
  have t: "codec_typed st" "st AND 64 = 0" using m by (simp_all add: mixer_state_alt)
  show "k AND NOT 127 = 0 \<Longrightarrow> k AND 64 = 0 \<Longrightarrow> mixer_state (st XOR k) \<and> stage_of st \<le> stage_of (st XOR k)"
    by (rule mixer_state_xor [OF m]) (use typed_xor_flag(1) [OF t(1)] k in simp_all)
  have "(st AND NOT k) AND 64 = (st AND 64) AND NOT k" by (simp only: and.assoc and.commute and.left_commute)
  moreover have "(st AND NOT k) AND 15 = st AND 15" using typed_clear_flag(2) [OF t(1) k] by (simp add: codec_stage_def)
  ultimately show "mixer_state (st AND NOT k) \<and> stage_of st \<le> stage_of (st AND NOT k)"
    using typed_clear_flag(1) [OF t(1) k] t(2) stage_of_low [of st] stage_of_low [of "st AND NOT k"] by (simp add: mixer_state_alt)
qed

section \<open>Tracks\<close>

text \<open>What the custom flags of a track say: not set up, waiting for data, played or paused; a played or
  paused track may have its input set up. The flag for received data is independent.\<close>

datatype track_mode = Unset | Idle | Active bool | Paused bool

fun track_code :: "track_mode \<Rightarrow> u32" where
  "track_code Unset = 0"
| "track_code Idle = XA_TRACK_FLAG_IDLE"
| "track_code (Active b) = XA_TRACK_FLAG_ACTIVE OR (if b then XA_TRACK_FLAG_INPUT_SETUP else 0)"
| "track_code (Paused b) = XA_TRACK_FLAG_PAUSED OR (if b then XA_TRACK_FLAG_INPUT_SETUP else 0)"

definition track_in :: "track_mode \<Rightarrow> u32 \<Rightarrow> bool" where
  "track_in md c \<longleftrightarrow> c = track_code md \<or> c = track_code md OR XA_TRACK_FLAG_RECVD_DATA"

definition track_typed :: "XATrack \<Rightarrow> bool" where
  "track_typed t \<longleftrightarrow> (\<exists>md. track_in md (custom (xt_input t)))"

lemma track_flag_values:
  "XA_TRACK_FLAG_IDLE = 32" "XA_TRACK_FLAG_ACTIVE = 64" "XA_TRACK_FLAG_PAUSED = 128" "XA_TRACK_FLAG_INPUT_SETUP = 256"
  "XA_TRACK_FLAG_RECVD_DATA = 512"
  by (simp_all add: track_flag_defs)

lemma test_custom:
  "xa_track_test_flags t 32 = custom (xt_input t) AND 32" "xa_track_test_flags t 64 = custom (xt_input t) AND 64"
  "xa_track_test_flags t 128 = custom (xt_input t) AND 128" "xa_track_test_flags t 192 = custom (xt_input t) AND 192"
  by (simp_all add: xa_track_test_flags_def custom_def and.assoc)

lemma custom_track:
  "custom (xt_input (xa_track_set_flags k t)) = custom (xt_input t) OR (k AND - 32)"
  "custom (xt_input (xa_track_toggle_flags k t)) = custom (xt_input t) XOR (k AND - 32)"
  "custom (xt_input (xa_track_clear_flags k t)) = custom (xt_input t) AND NOT k"
  by (simp_all add: custom_def xa_track_set_flags_def xa_track_toggle_flags_def xa_track_clear_flags_def track_flags_def
      bit.conj_disj_distrib2 bit.conj_xor_distrib2 and.assoc and.commute)

lemma track_cases:
  assumes "track_typed t"
  obtains "custom (xt_input t) \<in> {0, 512}" | "custom (xt_input t) \<in> {32, 544}" | "custom (xt_input t) \<in> {64, 576, 320, 832}"
    | "custom (xt_input t) \<in> {128, 640, 384, 896}"
proof -
  obtain md where "track_in md (custom (xt_input t))" using assms by (auto simp: track_typed_def)
  then show thesis using that by (cases md) (auto simp: track_in_def track_flag_values split: if_splits)
qed

lemma track_codes:
  "track_in Unset 0" "track_in Unset 512" "track_in Idle 32" "track_in Idle 544"
  "track_in (Active False) 64" "track_in (Active False) 576" "track_in (Active True) 320" "track_in (Active True) 832"
  "track_in (Paused False) 128" "track_in (Paused False) 640" "track_in (Paused True) 384" "track_in (Paused True) 896"
  by (simp_all add: track_in_def track_flag_values)

lemma track_typedI:
  "custom (xt_input t) \<in> {0, 512, 32, 544, 64, 576, 320, 832, 128, 640, 384, 896} \<Longrightarrow> track_typed t"
  unfolding track_typed_def by (elim insertE emptyE; simp only:; rule exI; rule track_codes)

lemma track_typed_same: "custom (xt_input t') = custom (xt_input t) \<Longrightarrow> track_typed t' = track_typed t"
  by (simp add: track_typed_def)

text \<open>The changes the code makes to the flags of a track.\<close>

lemma track_moves:
  assumes "track_typed t"
  shows "track_typed (xa_track_set_flags XA_TRACK_FLAG_RECVD_DATA t)"
    and "track_typed (xa_track_clear_flags XA_TRACK_FLAG_RECVD_DATA t)"
    and "xa_track_test_flags t XA_TRACK_FLAG_IDLE \<noteq> 0 \<Longrightarrow>
      track_typed (xa_track_toggle_flags (XA_TRACK_FLAG_IDLE OR XA_TRACK_FLAG_ACTIVE) t)"
    and "xa_track_test_flags t XA_TRACK_FLAG_ACTIVE \<noteq> 0 \<Longrightarrow>
      track_typed (xa_track_toggle_flags (XA_TRACK_FLAG_ACTIVE OR XA_TRACK_FLAG_PAUSED) t)"
    and "xa_track_test_flags t XA_TRACK_FLAG_PAUSED \<noteq> 0 \<Longrightarrow>
      track_typed (xa_track_toggle_flags (XA_TRACK_FLAG_ACTIVE OR XA_TRACK_FLAG_PAUSED) t)"
    and "track_typed (xa_track_set_flags XA_TRACK_FLAG_IDLE (xa_track_clear_flags
      (XA_TRACK_FLAG_ACTIVE OR XA_TRACK_FLAG_PAUSED OR XA_TRACK_FLAG_INPUT_SETUP) t))"
    and "xa_track_test_flags t XA_TRACK_FLAG_ACTIVE \<noteq> 0 \<Longrightarrow> track_typed (xa_track_set_flags XA_TRACK_FLAG_INPUT_SETUP t)"
    and "xa_track_test_flags t XA_TRACK_FLAG_ACTIVE \<noteq> 0 \<Longrightarrow> track_typed (xa_track_clear_flags XA_TRACK_FLAG_INPUT_SETUP t)"
    and "xa_track_test_flags t XA_TRACK_FLAG_ACTIVE \<noteq> 0 \<Longrightarrow>
      track_typed (xa_track_toggle_flags (XA_TRACK_FLAG_ACTIVE OR XA_TRACK_FLAG_IDLE) (xa_track_clear_flags XA_TRACK_FLAG_INPUT_SETUP t))"
  using assms by (cases rule: track_cases;
    force intro!: track_typedI simp: custom_track test_custom track_flag_values)+

end
