(* ===== verification/XA_Mixer_Inv.thy ===== *)
theory XA_Mixer_Inv
  imports XA_Tracks
begin

text \<open>
  The control state of the mixer and what a mixer may change of the framework, for every plugin and every
  message: the mixer class as a second instance of the locales of the base class.
\<close>

section \<open>The mixer as a derived class\<close>

definition mixer_typed :: "XAMixer \<Rightarrow> bool" where
  "mixer_typed c \<longleftrightarrow> mixer_state (xb_state c) \<and> length (xm_track c) = 4 \<and> (\<forall>t\<in>set (xm_track c). track_typed t)"

definition mixer_rel :: "'s mixer_st \<Rightarrow> 's mixer_st \<Rightarrow> bool" where
  "mixer_rel s s' \<longleftrightarrow>
     comp_frame (xs_core s) (xs_core s') \<and> xs_self s' = xs_self s \<and>
     (mixer_typed (xs_obj s) \<longrightarrow>
        mixer_typed (xs_obj s') \<and> stage_of (xb_state (xs_obj s)) \<le> stage_of (xb_state (xs_obj s')))"

lemma mixer_rel_state:
  assumes "\<And>st. mixer_state st \<Longrightarrow> st = xb_state (xs_obj s) \<Longrightarrow> mixer_state (f st) \<and> stage_of st \<le> stage_of (f st)"
  shows "mixer_rel s (upd_obj (\<lambda>c. c\<lparr>xb_state := f (xb_state c)\<rparr>) s)"
  using assms by (simp add: mixer_rel_def upd_obj_def mixer_typed_def)

lemma mixer_rel_same:
  "xb_state (xs_obj s') = xb_state (xs_obj s) \<Longrightarrow> xm_track (xs_obj s') = xm_track (xs_obj s) \<Longrightarrow>
     comp_frame (xs_core s) (xs_core s') \<Longrightarrow> xs_self s' = xs_self s \<Longrightarrow> mixer_rel s s'"
  by (simp add: mixer_rel_def mixer_typed_def)

lemma mixer_rel_trans:
  assumes "mixer_rel s s1" and "mixer_rel s1 s2"
  shows "mixer_rel s s2"
proof -
  have "comp_frame (xs_core s) (xs_core s2)"
    by (rule comp_frame_trans [of _ "xs_core s1"]) (use assms in \<open>simp_all add: mixer_rel_def\<close>)
  then show ?thesis using assms unfolding mixer_rel_def by (metis order_trans)
qed

interpretation mixer: xa_relation mixer_rel
proof unfold_locales
  fix s s1 s2 :: "'s mixer_st"
  show "mixer_rel s s1 \<Longrightarrow> mixer_rel s1 s2 \<Longrightarrow> mixer_rel s s2" by (rule mixer_rel_trans)
next
  fix s :: "'s mixer_st"
  show "mixer_rel s (upd_obj (\<lambda>o'. o'\<lparr>xb_state := xb_state o' XOR XA_BASE_FLAG_SCHEDULE\<rparr>) s)"
    using mixer_state_flag(1) [of _ XA_BASE_FLAG_SCHEDULE] by (intro mixer_rel_state) (simp add: base_flag_defs)
  show "mixer_rel s (upd_obj (\<lambda>o'. o'\<lparr>xb_state := xb_state o' AND NOT XA_BASE_FLAG_SCHEDULE\<rparr>) s)"
    using mixer_state_flag(2) [of _ XA_BASE_FLAG_SCHEDULE] by (intro mixer_rel_state) (simp add: base_flag_defs)
  show "mixer_rel s (upd_obj (\<lambda>o'. o'\<lparr>xb_state := xb_state o' XOR (XA_BASE_FLAG_POSTINIT OR XA_BASE_FLAG_RUNTIME_INIT)\<rparr>) s)"
    if "xb_state (xs_obj s) AND XA_BASE_FLAG_POSTINIT = 0"
    using that mixer_state_moves(1) by (intro mixer_rel_state) auto
  show "mixer_rel s (upd_obj (\<lambda>o'. o'\<lparr>xb_state := xb_state o' XOR (XA_BASE_FLAG_RUNTIME_INIT OR XA_BASE_FLAG_EXECUTION)\<rparr>) s)"
    if "xb_state (xs_obj s) AND XA_BASE_FLAG_RUNTIME_INIT \<noteq> 0"
    using that mixer_state_moves(2) by (intro mixer_rel_state) auto
  show "mixer_rel s (upd_obj (\<lambda>o'. o'\<lparr>xb_state := xb_state o' XOR (XA_BASE_FLAG_EXECUTION OR XA_BASE_FLAG_COMPLETED)\<rparr>) s)"
    if "xb_state (xs_obj s) AND XA_BASE_FLAG_EXECUTION \<noteq> 0"
    using that mixer_state_moves(3) by (intro mixer_rel_state) auto
qed (simp_all add: mixer_rel_same upd_obj_def)

lemma mixer_upd:
  "mixer_rel s0 s \<Longrightarrow> (\<And>c. xb_state (f c) = xb_state c) \<Longrightarrow> (\<And>c. xm_track (f c) = xm_track c) \<Longrightarrow> mixer_rel s0 (upd_obj f s)"
  by (rule mixer_rel_trans, assumption) (simp add: mixer_rel_same upd_obj_def)

lemma mixer_put_R: "mixer_rel s0 s \<Longrightarrow> comp_frame (xs_core s) cd \<Longrightarrow> mixer_rel s0 (put_mix cd port s)"
  by (rule mixer_rel_trans, assumption) (simp add: mixer_rel_same put_mix_def upd_obj_def)

lemma mixer_set_state_R:
  "mixer_rel s0 s \<Longrightarrow> mixer_rel s0 (set_state (\<lambda>f. f AND NOT XA_MIXER_FLAG_OUTPUT_SETUP) s)"
  "mixer_rel s0 s \<Longrightarrow> mixer_rel s0 (set_state (\<lambda>f. f XOR XA_MIXER_FLAG_OUTPUT_SETUP) s)"
  unfolding set_state_def
  using mixer_state_flag [of _ XA_MIXER_FLAG_OUTPUT_SETUP]
  by (auto intro: mixer_rel_trans intro!: mixer_rel_state simp: XA_MIXER_FLAG_OUTPUT_SETUP_def XA_BASE_FLAG_def)

text \<open>Changes of one track. An index outside the tracks changes nothing.\<close>

lemma mixer_track_typed: "mixer_typed (xs_obj s) \<Longrightarrow> unat i < 4 \<Longrightarrow> track_typed (mx_track i s)"
  by (simp add: mixer_typed_def mx_track_def)

lemma mixer_track_R:
  assumes "mixer_rel s0 s" and "track_typed (mx_track i s) \<Longrightarrow> track_typed (f (mx_track i s))"
  shows "mixer_rel s0 (upd_track i f s)"
proof (rule mixer_rel_trans [OF assms(1)])
  let ?c = "xs_obj s"
  have "track_typed t" if m: "mixer_typed ?c" and t: "t \<in> set ((xm_track ?c)[unat i := f (xm_track ?c ! unat i)])" for t
  proof (cases "unat i < 4")
    case True
    then show ?thesis using set_update_subset_insert t m assms(2) mixer_track_typed [OF m True]
      by (fastforce simp: mixer_typed_def mx_track_def)
  next
    case False
    then have "(xm_track ?c)[unat i := f (xm_track ?c ! unat i)] = xm_track ?c"
      using m by (intro list_update_beyond) (auto simp: mixer_typed_def)
    then show ?thesis using t m by (simp add: mixer_typed_def)
  qed
  then show "mixer_rel s (upd_track i f s)" by (simp add: mixer_rel_def upd_track_def upd_obj_def mixer_typed_def)
qed

lemma mixer_put_track_R:
  assumes "mixer_rel s0 s" and "comp_frame (xs_core s) cd" and "custom port = custom (xt_input (mx_track i s))"
  shows "mixer_rel s0 (put_track i cd port s)"
  unfolding put_track_def
proof (rule mixer_track_R)
  show "mixer_rel s0 (s\<lparr>xs_core := cd\<rparr>)" by (rule mixer.core_R [OF assms(1,2)])
  show "track_typed ((mx_track i (s\<lparr>xs_core := cd\<rparr>))\<lparr>xt_input := port\<rparr>)" if "track_typed (mx_track i (s\<lparr>xs_core := cd\<rparr>))"
    using that assms(3) by (subst track_typed_same [of _ "mx_track i s"]) (simp_all add: mx_track_def)
qed

lemma mixer_kick_R: "mixer_kick s = Some s' \<Longrightarrow> mixer_rel s0 s \<Longrightarrow> mixer_rel s0 s'"
  by (auto simp: mixer_kick_def split: if_splits dest: mixer.schedule_R)

lemma keeps_kick:
  assumes "mixer_rel s0 s" and "\<And>s'. mixer_rel s0 s' \<Longrightarrow> keeps mixer_rel s0 (k s')"
  shows "keeps mixer_rel s0 (Option.bind (mixer_kick s) k)"
  using assms by (auto intro!: keeps_bind dest: mixer_kick_R)

lemmas mixer_rules = keeps_rules keeps_kick mixer.keeps_let mixer.keeps_API mixer.keeps_schedule mixer.keeps_respond

lemmas mixer_steps = mixer.R_refl mixer_put_R mixer_set_state_R mixer_upd

lemma mixer_prepare_runtime_R: "mixer_rel s0 s \<Longrightarrow> keeps mixer_rel s0 (xa_mixer_prepare_runtime p s)"
  unfolding xa_mixer_prepare_runtime_def Let_def
  by (assumption | rule keeps_None mixer_rules mixer_steps | simp)+

lemma mixer_fill_this_buffer_R: "keeps mixer_rel s (xa_mixer_fill_this_buffer m s)"
  unfolding xa_mixer_fill_this_buffer_def Let_def
  by (assumption | rule mixer_rules mixer_steps | erule output_port_frame | simp)+

lemma mixer_port_route_R: "keeps mixer_rel s (xa_mixer_port_route al m s)"
  unfolding xa_mixer_port_route_def Let_def
  by (assumption | rule mixer_rules mixer_steps | erule output_port_frame | simp)+

lemma mixer_port_unroute_R: "keeps mixer_rel s (xa_mixer_port_unroute al m s)"
  unfolding xa_mixer_port_unroute_def Let_def
  by (assumption | rule mixer_rules mixer_steps | erule output_port_frame | simp)+

text \<open>Looking at a track after a change.\<close>

lemma mx_track_core [simp]: "mx_track i (s\<lparr>xs_core := cd\<rparr>) = mx_track i s"
  by (simp add: mx_track_def)

lemma mx_track_same: "xs_obj s' = xs_obj s \<Longrightarrow> mx_track i s' = mx_track i s"
  by (simp add: mx_track_def)

lemma mx_track_upd:
  "unat i < length (xm_track (xs_obj s)) \<Longrightarrow> mx_track i (upd_track i f s) = f (mx_track i s)"
  by (simp add: mx_track_def upd_track_def upd_obj_def)

lemma mx_track_put:
  "unat i < length (xm_track (xs_obj s)) \<Longrightarrow> mx_track i (put_track i cd port s) = (mx_track i s)\<lparr>xt_input := port\<rparr>"
  by (simp add: put_track_def mx_track_upd)

lemma mx_track_put_custom:
  assumes "custom port = custom (xt_input (mx_track i s))"
  shows "custom (xt_input (mx_track i (put_track i cd port s))) = custom (xt_input (mx_track i s))"
proof (cases "unat i < length (xm_track (xs_obj s))")
  case True
  then show ?thesis using assms by (simp add: mx_track_put)
next
  case False
  then have "length (xm_track (xs_obj s)) \<le> unat i" by simp
  then show ?thesis by (simp add: put_track_def upd_track_def upd_obj_def mx_track_def list_update_beyond)
qed

lemma upd_track_comp: "upd_track i f (upd_track i g s) = upd_track i (f \<circ> g) s"
proof (cases "unat i < length (xm_track (xs_obj s))")
  case False
  then have "length (xm_track (xs_obj s)) \<le> unat i" by simp
  then show ?thesis by (simp add: upd_track_def upd_obj_def list_update_beyond)
qed (simp add: upd_track_def upd_obj_def)

lemma upd_track_fields [simp]:
  "xs_core (upd_track i f s) = xs_core s" "xs_core (put_track i cd port s) = cd"
  "length (xm_track (xs_obj (upd_track i f s))) = length (xm_track (xs_obj s))"
  "length (xm_track (xs_obj (put_track i cd port s))) = length (xm_track (xs_obj s))"
  by (simp_all add: upd_track_def upd_obj_def put_track_def)

lemma track_typed_pts [simp]: "track_typed (t\<lparr>xt_pts := n\<rparr>) = track_typed t"
  by (simp add: track_typed_def)

lemma mixer_empty_this_buffer_R: "keeps mixer_rel s (xa_mixer_empty_this_buffer m s)"
  unfolding xa_mixer_empty_this_buffer_def Let_def
proof (intro keeps_XF_CHK keeps_bind3 mixer.R_refl keeps_if)
  let ?i = "XF_MSG_DST_PORT (m_id (c_msgs (xs_core s) m))"
  let ?s = "upd_track ?i (if m_length (c_msgs (xs_core s) m) \<noteq> 0 then xa_track_set_flags XA_TRACK_FLAG_RECVD_DATA
    else xa_track_clear_flags XA_TRACK_FLAG_RECVD_DATA) s"
  fix cd port b
  assume p: "xf_input_port_put (xt_input (mx_track ?i ?s)) m (xs_core ?s) = Some (cd, port, b)"
  have r: "mixer_rel s (put_track ?i cd port ?s)"
    using input_custom(1) [OF p] input_port_frame(2) [OF p]
    by (intro mixer_put_track_R mixer_track_R mixer.R_refl) (auto intro: track_moves(1,2))
  show "keeps mixer_rel s (xa_ok (put_track ?i cd port ?s))" using r by simp
  show "keeps mixer_rel s (Option.bind (mixer_kick
      (if xa_track_test_flags (mx_track ?i (put_track ?i cd port ?s)) XA_TRACK_FLAG_IDLE \<noteq> 0
       then upd_track ?i (\<lambda>t. (xa_track_toggle_flags (XA_TRACK_FLAG_IDLE OR XA_TRACK_FLAG_ACTIVE) t)
              \<lparr>xt_pts := xm_pts (xs_obj (put_track ?i cd port ?s))\<rparr>) (put_track ?i cd port ?s)
       else put_track ?i cd port ?s)) xa_ok)"
    by (intro keeps_kick rel_if [where R = mixer_rel] mixer_track_R r) (auto intro: track_moves(3))
qed

lemma mixer_pause_R: "keeps mixer_rel s (xa_mixer_pause m s)"
  unfolding xa_mixer_pause_def Let_def
  by (rule mixer_rules mixer_steps mixer_track_R | assumption | auto intro: track_moves(4))+

lemma mixer_resume_R: "keeps mixer_rel s (xa_mixer_resume m s)"
  unfolding xa_mixer_resume_def Let_def
  by (rule mixer_rules mixer_steps mixer_track_R | assumption | auto intro: track_moves(5))+

lemma mixer_flush_R: "keeps mixer_rel s (xa_mixer_flush al m s)"
  unfolding xa_mixer_flush_def Let_def upd_track_comp
  by (rule mixer_rules mixer_steps mixer_track_R mixer_put_track_R | assumption | erule input_port_frame output_port_frame input_custom
      | simp add: track_moves(6))+

lemma mixer_memtab_R: "keeps mixer_rel s (xa_mixer_memtab p i type sz align core s)"
  unfolding xa_mixer_memtab_def Let_def
proof (intro keeps_XF_CHK keeps_if keeps_None keeps_bind3 keeps_sum mixer.keeps_API mixer.R_refl keeps_okI mixer_upd)
  fix cd port r
  assume p: "xf_input_port_init (xt_input (mx_track i s)) sz align core (xs_core s) = Some (cd, port, r)"
  have c: "comp_frame (xs_core s) cd" using p by (rule input_port_frame)
  show "mixer_rel s (put_track i cd port s)" if "r = Inl a" for a
    using input_custom(6) p c that by (intro mixer_put_track_R mixer.R_refl) auto
  fix u
  assume r: "r = Inr u"
  have z: "custom port = 0" using input_custom(5) p r by simp
  have t: "track_typed (t\<lparr>xt_input := port\<rparr>)" for t using z by (intro track_typedI) simp
  show r1: "mixer_rel s (put_track i cd port s)"
    unfolding put_track_def by (intro mixer_track_R mixer.core_R mixer.R_refl c t)
  fix s1 v
  assume 1: "mixer_rel s s1" "xs_obj s1 = xs_obj (put_track i cd port s)"
  show "mixer_rel s (upd_track i (xa_track_set_flags XA_TRACK_FLAG_IDLE) s1)"
  proof (cases "unat i < length (xm_track (xs_obj s))")
    case True
    have "mx_track i s1 = (mx_track i s)\<lparr>xt_input := port\<rparr>" using mx_track_same [OF 1(2)] True by (simp add: mx_track_put)
    then have "custom (xt_input (xa_track_set_flags XA_TRACK_FLAG_IDLE (mx_track i s1))) = 32"
      using z by (simp add: custom_track track_flag_values)
    then have "track_typed (xa_track_set_flags XA_TRACK_FLAG_IDLE (mx_track i s1))" by (intro track_typedI) simp
    then show ?thesis by (intro mixer_track_R 1(1))
  next
    case False
    then have "length (xm_track (xs_obj s1)) \<le> unat i" using 1(2) by simp
    then have "upd_track i f s1 = s1" for f by (simp add: upd_track_def upd_obj_def list_update_beyond)
    then show ?thesis using 1(1) by simp
  qed
qed simp_all

lemma mixer_memtab_state:
  "keeps (\<lambda>s s'. xb_state (xs_obj s') = xb_state (xs_obj s)) s (xa_mixer_memtab p i type sz align core s)"
  unfolding xa_mixer_memtab_def Let_def
  by (rule keeps_okI keeps_None keeps_XF_CHK same_state.keeps_API keeps_bind3 keeps_sum keeps_if
      | simp add: put_track_def upd_track_def upd_obj_def)+

lemma mixer_setup_R: "mixer_rel s0 s \<Longrightarrow> keeps mixer_rel s0 (mixer_setup p is e s)"
proof (induction p "is" e s rule: mixer_setup.induct)
  case (1 p e s)
  then show ?case by simp
next
  case (2 p i js e s)
  let ?t = "mx_track i s" and ?set = "xa_track_set_flags XA_TRACK_FLAG_INPUT_SETUP"
  show ?case
  proof (cases "xa_track_test_flags ?t XA_TRACK_FLAG_ACTIVE = 0 \<or> xa_track_test_flags ?t XA_TRACK_FLAG_INPUT_SETUP \<noteq> 0")
    case True
    then show ?thesis using 2 by auto
  next
    case a: False
    show ?thesis
    proof (cases "xf_time_after (xt_pts ?t) (xm_pts (xs_obj s))")
      case True
      have "mixer_rel s0 (upd_track i ?set s)" using a by (intro mixer_track_R 2(5)) (auto intro: track_moves(7))
      then show ?thesis using a True 2(4) by simp
    next
      case False
      show ?thesis
      proof (cases "xf_input_port_fill (xt_input ?t) (xs_core s)")
        case None
        then show ?thesis using a False by simp
      next
        case (Some x)
        obtain cd port b where x: "x = (cd, port, b)" by (rule prod_cases3)
        have p: "xf_input_port_fill (xt_input ?t) (xs_core s) = Some (cd, port, b)" using Some x by simp
        have c: "custom port = custom (xt_input ?t)" using p by (rule input_custom)
        have r: "mixer_rel s0 (put_track i cd port s)" by (rule mixer_put_track_R [OF 2(5) input_port_frame(3) [OF p] c])
        have next_R: "keeps mixer_rel s0 (mixer_setup p js XA_NO_ERROR (upd_track i ?set s1))"
          if 1: "mixer_rel s0 s1" "xs_obj s1 = xs_obj (put_track i cd port s)" and b: b for s1
        proof -
          have "custom (xt_input (mx_track i s1)) = custom (xt_input ?t)"
            using mx_track_same [OF 1(2)] c by (simp add: mx_track_put_custom)
          then have "xa_track_test_flags (mx_track i s1) XA_TRACK_FLAG_ACTIVE \<noteq> 0" using a by (simp add: track_flag_values test_custom)
          then have "mixer_rel s0 (upd_track i ?set s1)" by (intro mixer_track_R 1(1)) (auto intro: track_moves(7))
          from 2(3) [OF _ _ _ p refl refl refl _ this] a False b show ?thesis by simp
        qed
        show ?thesis using a False p r next_R by (cases b) (auto simp: Let_def intro!: mixer.keeps_API)
      qed
    qed
  qed
qed

lemma mixer_preprocess_R: "keeps mixer_rel s (xa_mixer_preprocess p s)"
  unfolding xa_mixer_preprocess_def Let_def
  by (assumption | rule mixer_rules mixer_steps mixer_setup_R | erule output_port_frame | simp)+

lemma track_finished:
  assumes "track_typed t" and "xa_track_test_flags t XA_TRACK_FLAG_ACTIVE \<noteq> 0" and "custom (xt_input t) AND 256 = 0"
  shows "track_typed (xa_track_toggle_flags (XA_TRACK_FLAG_ACTIVE OR XA_TRACK_FLAG_IDLE) t)"
  using assms by (cases rule: track_cases; force intro!: track_typedI simp: custom_track test_custom track_flag_values)

lemma clear_setup:
  "xa_track_test_flags (xa_track_clear_flags XA_TRACK_FLAG_INPUT_SETUP t) XA_TRACK_FLAG_ACTIVE = xa_track_test_flags t XA_TRACK_FLAG_ACTIVE"
  "custom (xt_input (xa_track_clear_flags XA_TRACK_FLAG_INPUT_SETUP t)) AND 256 = 0"
  by (simp_all add: custom_track track_flag_values test_custom and.assoc)

lemma mixer_maintain_R:
  assumes k: "\<And>s. mixer_rel s0 s \<Longrightarrow> keeps mixer_rel s0 (k s)"
  shows "mixer_rel s0 s \<Longrightarrow> keeps mixer_rel s0 (mixer_maintain p is s k)"
proof (induction "is" arbitrary: s)
  case Nil
  then show ?case by (simp add: k)
next
  case (Cons i js)
  let ?t = "mx_track i s" and ?clear = "xa_track_clear_flags XA_TRACK_FLAG_INPUT_SETUP"
  let ?s = "upd_track i (\<lambda>t. t\<lparr>xt_pts := xt_pts t + xm_frame_size (xs_obj (upd_track i ?clear s))\<rparr>) (upd_track i ?clear s)"
  show ?case
  proof (cases "xa_track_test_flags ?t XA_TRACK_FLAG_ACTIVE = 0")
    case True
    then show ?thesis using Cons by simp
  next
    case a: False
    have r: "mixer_rel s0 ?s" unfolding upd_track_comp comp_def
      using a by (intro mixer_track_R Cons.prems) (auto intro: track_moves(8))
    have c0: "custom (xt_input (mx_track i ?s)) = custom (xt_input (?clear ?t))" if "unat i < length (xm_track (xs_obj s))"
      using that by (simp add: mx_track_upd)
    show ?thesis
      using a
    proof (simp only: mixer_maintain.simps if_False Let_def, intro mixer.keeps_API [OF r] keeps_bind2 keeps_if)
      fix s1 consumed cd port
      assume 1: "mixer_rel s0 s1" "xs_obj s1 = xs_obj ?s"
        and p: "xf_input_port_consume (xt_input (mx_track i s1)) consumed (xs_core s1) = Some (cd, port)"
      let ?s1 = "put_track i cd port s1"
      have c1: "custom port = custom (xt_input (mx_track i s1))" using p by (rule input_custom)
      have r1: "mixer_rel s0 ?s1" by (rule mixer_put_track_R [OF 1(1) input_port_frame(4) [OF p] c1])
      then show "keeps mixer_rel s0 (mixer_maintain p js ?s1 k)" by (rule Cons.IH)
      fix cd2 port2
      assume q: "xf_input_port_purge (xt_input (mx_track i ?s1)) (xs_core ?s1) = Some (cd2, port2)"
      let ?s2 = "put_track i cd2 port2 ?s1" and ?toggle = "xa_track_toggle_flags (XA_TRACK_FLAG_ACTIVE OR XA_TRACK_FLAG_IDLE)"
      have c2: "custom port2 = custom (xt_input (mx_track i ?s1))" using q by (rule input_custom)
      have r2: "mixer_rel s0 ?s2" by (rule mixer_put_track_R [OF r1 input_port_frame(5) [OF q] c2])
      have "mixer_rel s0 (upd_track i ?toggle ?s2)"
      proof (cases "unat i < length (xm_track (xs_obj s))")
        case True
        have e: "custom (xt_input (mx_track i ?s2)) = custom (xt_input (?clear ?t))"
          using c0 [OF True] c1 c2 mx_track_same [OF 1(2)] by (simp add: mx_track_put_custom)
        show ?thesis
        proof (rule mixer_track_R [OF r2])
          assume "track_typed (mx_track i ?s2)"
          then have "track_typed (?clear ?t)" using e track_typed_same by blast
          then have "track_typed (?toggle (?clear ?t))" by (rule track_finished) (simp_all only: clear_setup a not_False_eq_True)
          then show "track_typed (?toggle (mx_track i ?s2))" using e by (subst track_typed_same [of _ "?toggle (?clear ?t)"]) (simp_all add: custom_track)
        qed
      next
        case False
        then have "length (xm_track (xs_obj ?s2)) \<le> unat i" using 1(2) by simp
        then have "upd_track i f ?s2 = ?s2" for f by (simp add: upd_track_def [of _ _ ?s2] upd_obj_def list_update_beyond)
        then show ?thesis using r2 by simp
      qed
      then show "keeps mixer_rel s0 (mixer_maintain p js (upd_track i ?toggle ?s2) k)" by (rule Cons.IH)
    qed
  qed
qed

lemma mixer_output_R:
  assumes r: "mixer_rel s0 s"
  shows "keeps mixer_rel s0 (mixer_output n s)"
proof -
  have go: "keeps mixer_rel s0 (if xf_output_port_ready (xm_output (xs_obj s1)) then Option.bind (xa_base_schedule (d s1) s1) xa_ok else xa_ok s1)"
    if "mixer_rel s0 s1" for d :: "'a mixer_st \<Rightarrow> u32" and s1 :: "'a mixer_st"
    using that by (auto intro!: mixer.keeps_schedule)
  let ?s = "upd_obj (\<lambda>c. c\<lparr>xm_pts := xm_pts c + xm_frame_size c\<rparr>) s"
  let ?put = "\<lambda>cd port. set_state (\<lambda>f. f AND NOT XA_MIXER_FLAG_OUTPUT_SETUP) (put_mix cd port ?s)"
  have put: "mixer_rel s0 (?put cd port)" if "xf_output_port_produce q n (xs_core ?s) = Some (cd, port, b)" for q cd port b
    using output_port_frame(5) [OF that] by (intro mixer_set_state_R mixer_put_R mixer_upd r) simp_all
  show ?thesis
  proof (cases "n = 0")
    case True
    then show ?thesis unfolding mixer_output_def using go [OF r, of "\<lambda>_. 0"] r by (auto split: if_splits)
  next
    case n: False
    show ?thesis
    proof (cases "xf_output_port_produce (xm_output (xs_obj ?s)) n (xs_core ?s)")
      case None
      then show ?thesis using n by (simp add: mixer_output_def Let_def)
    next
      case (Some x)
      obtain cd port b where x: "x = (cd, port, b)" by (rule prod_cases3)
      have "mixer_output n s = (if xf_output_port_ready (xm_output (xs_obj (?put cd port)))
          then Option.bind (xa_base_schedule (xm_frame_duration (xs_obj (?put cd port))) (?put cd port)) xa_ok else xa_ok (?put cd port))"
        using n Some x unfolding mixer_output_def Let_def by simp
      then show ?thesis using go [OF put, of _ cd port b "\<lambda>s. xm_frame_duration (xs_obj s)"] Some x by auto
    qed
  qed
qed

lemma mixer_postprocess_R: "keeps mixer_rel s (xa_mixer_postprocess p d s)"
  unfolding xa_mixer_postprocess_def Let_def
  by (assumption | rule keeps_if keeps_XA_CHK mixer_prepare_runtime_R keeps_okI mixer_maintain_R mixer.keeps_API mixer_output_R mixer.R_refl)+

interpretation mixer_methods: xa_methods mixer_rel "xa_mixer_hooks p" for p
  by unfold_locales
    (auto simp: xa_mixer_hooks_def mixer_memtab_R mixer_memtab_state mixer_preprocess_R mixer_postprocess_R)

interpretation mixer_class: xa_class mixer_rel "xa_mixer_hooks p" "xa_mixer_cmd al p" for al p
  by unfold_locales
    (auto simp: xa_mixer_cmd_def mixer_methods.set_param_R mixer_methods.get_param_R mixer.R_refl mixer_port_route_R
      mixer_port_unroute_R mixer_empty_this_buffer_R mixer_fill_this_buffer_R mixer_flush_R mixer_pause_R mixer_resume_R
      split: if_splits)

section \<open>Entry and exit\<close>

lemma mixer_terminate_R: "keeps mixer_rel s (xa_mixer_terminate al m s)"
  unfolding xa_mixer_terminate_def Let_def
  by (assumption | rule mixer_rules mixer_steps keeps_map | simp | auto dest: mixer.respond_R [OF mixer.R_refl])+

lemma mixer_purge_R: "mixer_inputs xf_input_port_purge is s = Some s' \<Longrightarrow> mixer_rel s0 s \<Longrightarrow> mixer_rel s0 s'"
proof (induction "is" arbitrary: s)
  case (Cons i js)
  then obtain cd port where p: "xf_input_port_purge (xt_input (mx_track i s)) (xs_core s) = Some (cd, port)"
    and q: "mixer_inputs xf_input_port_purge js (put_track i cd port s) = Some s'"
    by (auto simp: bind_eq_Some_conv)
  have "mixer_rel s0 (put_track i cd port s)"
    by (rule mixer_put_track_R [OF Cons.prems(2) input_port_frame(5) [OF p] input_custom(4) [OF p]])
  then show ?case by (rule Cons.IH [OF q])
qed simp

lemma mixer_inputs_destroy_R:
  "mixer_inputs (\<lambda>port. xf_input_port_destroy port core) is s = Some s' \<Longrightarrow> mixer_rel s0 s \<Longrightarrow> mixer_rel s0 s'"
proof (induction "is" arbitrary: s)
  case (Cons i js)
  then obtain cd port where p: "xf_input_port_destroy (xt_input (mx_track i s)) core (xs_core s) = Some (cd, port)"
    and q: "mixer_inputs (\<lambda>port. xf_input_port_destroy port core) js (put_track i cd port s) = Some s'"
    by (auto simp: bind_eq_Some_conv)
  have "mixer_rel s0 (put_track i cd port s)"
  proof (cases "custom port = 0")
    case True
    then show ?thesis unfolding put_track_def
      by (intro mixer_track_R mixer.core_R Cons.prems(2) input_port_frame(8) [OF p] track_typedI) simp
  next
    case False
    then show ?thesis using input_custom(7) [OF p] by (intro mixer_put_track_R Cons.prems(2) input_port_frame(8) [OF p]) auto
  qed
  then show ?case by (rule Cons.IH [OF q])
qed simp

lemma mixer_destroy_R: "mixer_rel s0 s \<Longrightarrow> keeps mixer_rel s0 (xa_mixer_destroy al s)"
  unfolding xa_mixer_destroy_def Let_def
  by (rule keeps_bind, drule mixer_inputs_destroy_R, assumption)
    (assumption | rule mixer_rules mixer_steps keeps_map | erule output_port_frame mixer.destroy_R | simp)+

lemma mixer_cleanup_R: "keeps mixer_rel s (xa_mixer_cleanup al m s)"
proof -
  have purge: "keeps mixer_rel s (Option.bind (mixer_inputs xf_input_port_purge mx_tracks s1) k)"
    if "mixer_rel s s1" "\<And>s2. mixer_rel s s2 \<Longrightarrow> keeps mixer_rel s (k s2)" for s1 k
    using that by (auto intro!: keeps_bind dest: mixer_purge_R)
  show ?thesis
    unfolding xa_mixer_cleanup_def Let_def
    by (assumption | rule purge mixer_rules mixer_steps mixer_destroy_R | erule output_port_frame | simp)+
qed

lemma mixer_entry_R: "keeps mixer_rel s (xa_mixer_entry al p u m s)"
  unfolding xa_mixer_entry_def by (cases "xb_entry (xs_obj s)") (simp_all add: mixer_class.command_R mixer_terminate_R)

lemma mixer_exit_R: "keeps mixer_rel s (xa_mixer_exit al m s)"
  unfolding xa_mixer_exit_def by (cases "xb_exit (xs_obj s)") (simp_all add: mixer_cleanup_R mixer_destroy_R mixer.R_refl)

section \<open>Histories of a mixer\<close>

text \<open>A mixer is created, its entry and exit points are called, and between the calls the framework and the
  plugin may change in any way.\<close>

inductive mixer_reach :: "u32 \<Rightarrow> 's xa_proc \<Rightarrow> 's mixer_st \<Rightarrow> bool" for al p where
  created: "xa_mixer_factory p core cd w = Some (s, base) \<Longrightarrow> base \<noteq> 0 \<Longrightarrow> mixer_reach al p s"
| entered: "mixer_reach al p s \<Longrightarrow> xa_mixer_entry al p u m s = Some (s', r) \<Longrightarrow> mixer_reach al p s'"
| left: "mixer_reach al p s \<Longrightarrow> xa_mixer_exit al m s = Some (s', r) \<Longrightarrow> mixer_reach al p s'"
| outside: "mixer_reach al p s \<Longrightarrow> mixer_reach al p (s\<lparr>xs_core := cd, xs_plug := w\<rparr>)"

lemma mixer_factory_state:
  assumes "xa_mixer_factory p core cd w = Some (s, base)" and "base \<noteq> 0"
  shows "xb_state (xs_obj s) = 0" and "xb_entry (xs_obj s) = XA_Command" and "xb_exit (xs_obj s) = XA_Cleanup"
    and "XACodecBase.more (xs_obj s) = XACodecBase.more mixer_zero"
proof -
  obtain s1 where f: "xa_base_factory p mixer_zero core (XF_MM sizeof_XAMixer) cd w = Some (s1, base)"
    and s: "s = upd_obj (\<lambda>c. c\<lparr>xb_exit := XA_Cleanup\<rparr>) s1"
    using assms by (auto simp: xa_mixer_factory_def bind_eq_Some_conv split: if_splits)
  obtain s0 e where s0: "xa_base_preinit p core s0 = Some (s1, e)" "xb_state (xs_obj s0) = 0" "xb_entry (xs_obj s0) = XA_Command"
      "XACodecBase.more (xs_obj s0) = XACodecBase.more mixer_zero"
    using f assms(2) by (auto simp: xa_base_factory_def Let_def bind_eq_Some_conv upd_obj_def upd_core_def mixer_zero_def split: if_splits)
  have "base_only s0 s1" by (rule keepsD [OF base_only.preinit_R [OF base_only.R_refl] s0(1)])
  then show "xb_state (xs_obj s) = 0" and "xb_entry (xs_obj s) = XA_Command" and "xb_exit (xs_obj s) = XA_Cleanup"
    and "XACodecBase.more (xs_obj s) = XACodecBase.more mixer_zero"
    using s0 by (simp_all add: base_only_def s upd_obj_def)
qed

lemma mixer_factory_typed:
  assumes "xa_mixer_factory p core cd w = Some (s, base)" and "base \<noteq> 0"
  shows "mixer_typed (xs_obj s)"
proof -
  have "xm_track (xs_obj s) = xm_track mixer_zero"
    using mixer_factory_state(4) [OF assms] by (cases "xs_obj s") (simp add: mixer_zero_def)
  moreover have "mixer_state 0" by (simp add: mixer_state_def codec_stage_def)
  moreover have "track_typed t" if "custom (xt_input t) = 0" for t using that by (intro track_typedI) simp
  ultimately show ?thesis
    using mixer_factory_state(1) [OF assms] by (simp add: mixer_typed_def mixer_zero_def custom_def)
qed

text \<open>C31: In every history of a mixer, whatever the plugin answers and whatever messages arrive (for ports that
  do not exist as well), the control state is well typed: the component is in one of its four stages with
  the known flags only, it has four tracks, and each of them is not set up, idle, active or paused and
  never two of these at once, with its input set up only while it is active or paused. A call of the entry
  or exit point never takes the stage back.\<close>

theorem mixer_state_typed:
  assumes "mixer_reach al p s"
  shows "mixer_typed (xs_obj s) \<and>
    (\<forall>u m s' r. xa_mixer_entry al p u m s = Some (s', r) \<longrightarrow> stage_of (xb_state (xs_obj s)) \<le> stage_of (xb_state (xs_obj s'))) \<and>
    (\<forall>m s' r. xa_mixer_exit al m s = Some (s', r) \<longrightarrow> stage_of (xb_state (xs_obj s)) \<le> stage_of (xb_state (xs_obj s')))"
proof -
  have "mixer_typed (xs_obj s)"
    using assms
  proof induction
    case (created core cd w s base)
    then show ?case by (rule mixer_factory_typed)
  next
    case (entered s u m s' r)
    then show ?case using keepsD [OF mixer_entry_R] by (fastforce simp: mixer_rel_def)
  next
    case (left s m s' r)
    then show ?case using keepsD [OF mixer_exit_R] by (fastforce simp: mixer_rel_def)
  qed simp
  then show ?thesis using keepsD [OF mixer_entry_R] keepsD [OF mixer_exit_R] by (fastforce simp: mixer_rel_def)
qed

lemma mixer_size: "XF_MM sizeof_XAMixer = 320"
proof -
  have "unat (XF_MM sizeof_XAMixer) = 320" by (simp add: XF_MM_unat sizeof_XAMixer_def)
  then show ?thesis by (simp add: word_unat_eq_iff)
qed

text \<open>A mixer in an empty pool, after its configuration command.\<close>

lemma mixer_state_typed_witness:
  "\<exists>s s'. mixer_reach 32 quiet_proc s \<and> mixer_typed (xs_obj s) \<and> xa_mixer_entry 32 quiet_proc 0 96 s = Some (s', 0) \<and>
     stage_of (xb_state (xs_obj s)) \<le> stage_of (xb_state (xs_obj s')) \<and> stage_of (xb_state (xs_obj s')) = Runtime_Init"
proof -
  obtain h where F: "mm_free_set 256 768 0 h {256 ..< 768}" by (rule demo_pool)
  define c0 where "c0 = core_demo\<lparr>c_mem := h\<rparr>"
  have "mm_free_set 256 768 (c_local_pool c0) (c_mem c0) {256 ..< 768}" using F by (simp add: c0_def core_demo_def)
  then obtain s0 base where "xa_base_factory quiet_proc mixer_zero 0 320 c0 () = Some (s0, base)" "base \<noteq> 0"
    by (rule quiet_base [where a = 256 and sz = 320 and z = mixer_zero]) (auto simp: sizeof_XACodecBase_def mixer_zero_def)
  then obtain s where f: "xa_mixer_factory quiet_proc 0 c0 () = Some (s, base)" "base \<noteq> 0"
    by (auto simp: xa_mixer_factory_def mixer_size)
  define s1 where "s1 = s\<lparr>xs_core := cmd_demo 0x80008000 XF_SET_PARAM 0, xs_plug := ()\<rparr>"
  have r1: "mixer_reach 32 quiet_proc s1" unfolding s1_def using f by (intro mixer_reach.outside mixer_reach.created)
  have st: "xb_state (xs_obj s1) = 0" "xb_entry (xs_obj s1) = XA_Command" using mixer_factory_state [OF f] by (simp_all add: s1_def)
  obtain s2 where s2: "xa_base_set_param (xa_mixer_hooks quiet_proc) quiet_proc 96 s1 = Some (s2, XA_NO_ERROR)"
    "xb_state (xs_obj s2) = 3" by (rule quiet_set_param [OF st(1)]) (simp_all add: s1_def)
  have "m_opcode (c_msgs (xs_core s1) 96) = XF_SET_PARAM" by (simp add: s1_def cmd_demo_msg)
  then have e: "xa_mixer_entry 32 quiet_proc 0 96 s1 = Some (s2, 0)"
    using st(2) s2(1) by (simp add: xa_mixer_entry_def xa_base_command_def XF_SET_PARAM_def XF_UNREGISTER_def opcode_type
        XA_MIXER_CMD_NUM_def xa_mixer_cmd_def XA_NO_ERROR_def XA_ERROR_SEVERITY_def)
  have "stage_of (xb_state (xs_obj s2)) = Runtime_Init" using s2(2) by (simp add: stage_of_def base_flag_defs)
  with mixer_state_typed [OF r1] r1 e show ?thesis by (intro exI [of _ s1] exI [of _ s2]) blast
qed

end
