(* ===== verification/XP_Vorbis.thy ===== *)
theory XP_Vorbis
  imports XP_Api
begin

text \<open>
  The vorbis plugin (plugins/cadence/vorbis_dec/xa-vorbis-decoder.c, xa_vorbis_dec_api.h): a wrapper around
  the decoder library of the DSP vendor. The library is linked as a binary, so its entry point
  \<open>xa_vorbis_dec\<close> is the argument lib of the definitions, and its object has any type.
\<close>

definition XA_VORBISDEC_CONFIG_PARAM_SAMP_FREQ :: u32 where "XA_VORBISDEC_CONFIG_PARAM_SAMP_FREQ = 0"
definition XA_VORBISDEC_CONFIG_PARAM_NUM_CHANNELS :: u32 where "XA_VORBISDEC_CONFIG_PARAM_NUM_CHANNELS = 1"
definition XA_VORBISDEC_CONFIG_PARAM_PCM_WDSZ :: u32 where "XA_VORBISDEC_CONFIG_PARAM_PCM_WDSZ = 2"

definition xa_vorbis_get_config_param ::
  "'v xa_proc \<Rightarrow> addr \<Rightarrow> u32 \<Rightarrow> xa_pv \<Rightarrow> (addr \<Rightarrow> u8) \<Rightarrow> 'v \<Rightarrow> (addr \<Rightarrow> u8) \<times> 'v \<times> u32 \<times> u32"
where
  "xa_vorbis_get_config_param lib a i pv d w =
     (let i = (if i = XA_CODEC_CONFIG_PARAM_CHANNELS then XA_VORBISDEC_CONFIG_PARAM_NUM_CHANNELS
               else if i = XA_CODEC_CONFIG_PARAM_SAMPLE_RATE then XA_VORBISDEC_CONFIG_PARAM_SAMP_FREQ
               else if i = XA_CODEC_CONFIG_PARAM_PCM_WIDTH then XA_VORBISDEC_CONFIG_PARAM_PCM_WDSZ
               else i)
      in lib a XA_API_CMD_GET_CONFIG_PARAM i pv d w)"

definition xa_vorbis_decoder :: "'v xa_proc \<Rightarrow> 'v xa_proc" where
  "xa_vorbis_decoder lib a cmd i pv d w =
     (if cmd = XA_API_CMD_GET_CONFIG_PARAM then xa_vorbis_get_config_param lib a i pv d w
      else lib a cmd i pv d w)"

end
