(* ===== verification/XA_Factory.thy ===== *)
theory XA_Factory
  imports XA_Create XA_Mixer_Inv XP_Mixer XP_Pcm XP_Vorbis XF_Dispatch
begin

text \<open>
  The class factory of the application (app/xa-factory.c) and the closed system: the framework with the two
  classes and the three plugins of this build (build_hikey/Makefile: PCM, vorbis and mixer). The core reaches
  them through \<open>xf_components\<close>; here they are the models of their code, with a map from addresses to
  component structures as their state. The vorbis library is the argument lib, with objects of type 'v.
\<close>

section \<open>Components\<close>

text \<open>A component in memory: the structure of its class and that of its plugin.\<close>

datatype 'v xa_component =
  Pcm_Component XAAudioCodec XAPcmCodec | Vorbis_Component XAAudioCodec 'v | Mixer_Component XAMixer XAPcmMixer

type_synonym 'v xa_system = "addr \<Rightarrow> 'v xa_component option"

text \<open>The table of class identifiers, with the rows of the plugins that build_hikey compiles in.\<close>

datatype xa_class_id = Class_Pcm | Class_Vorbis | Class_Mixer

definition xf_component_id :: "(string \<times> xa_class_id) list" where
  "xf_component_id = [(''audio-decoder/pcm'', Class_Pcm), (''audio-decoder/vorbis'', Class_Vorbis), (''mixer'', Class_Mixer)]"

text \<open>The comparison \<open>!strncmp(a, s, n)\<close> of a string in memory with a constant.\<close>

fun strncmp_equal :: "(addr \<Rightarrow> u8) \<Rightarrow> addr \<Rightarrow> string \<Rightarrow> nat \<Rightarrow> bool" where
  "strncmp_equal d a s 0 \<longleftrightarrow> True"
| "strncmp_equal d a [] (Suc n) \<longleftrightarrow> d a = 0"
| "strncmp_equal d a (c # s) (Suc n) \<longleftrightarrow> d a = of_char c \<and> strncmp_equal d (a + 1) s n"

definition component_class :: "(addr \<Rightarrow> u8) \<Rightarrow> addr \<Rightarrow> u32 \<Rightarrow> xa_class_id option" where
  "component_class d ident n =
     map_option snd (find (\<lambda>(cid, k). strncmp_equal d ident cid (unat n)) xf_component_id)"

text \<open>The structures a factory gives become part of the system. The plugin structures hold whatever the
  memory held before: g. An identifier at NULL that is compared at all has no result.\<close>

definition add_component ::
  "('o \<Rightarrow> 's \<Rightarrow> 'v xa_component) \<Rightarrow> 'v xa_system \<Rightarrow> ('o, 's) xa_st \<times> addr \<Rightarrow> xf_core \<times> 'v xa_system \<times> addr"
where
  "add_component C w = (\<lambda>(s, c). (xs_core s, if c = 0 then w else w(c \<mapsto> C (xs_obj s) (xs_plug s)), c))"

definition xf_component_factory ::
  "'v xa_proc \<Rightarrow> u32 \<Rightarrow> XAPcmCodec \<times> 'v \<times> XAPcmMixer \<Rightarrow> u32 \<Rightarrow> addr \<Rightarrow> u32 \<Rightarrow> xf_core \<Rightarrow> 'v xa_system \<Rightarrow>
     (xf_core \<times> 'v xa_system \<times> addr) option"
where
  "xf_component_factory lib u g core ident n cd w =
     (if ident = 0 \<and> n \<noteq> 0 then None
      else
        case component_class (c_data cd) ident n of
          None \<Rightarrow> Some (cd, w, 0)
        | Some Class_Pcm \<Rightarrow>
            map_option (add_component Pcm_Component w) (xa_audio_codec_factory (xa_pcm_codec u) core cd (fst g))
        | Some Class_Vorbis \<Rightarrow>
            map_option (add_component Vorbis_Component w) (xa_audio_codec_factory (xa_vorbis_decoder lib) core cd (fst (snd g)))
        | Some Class_Mixer \<Rightarrow>
            map_option (add_component Mixer_Component w) (xa_mixer_factory (xa_mixer u) core cd (snd (snd g))))"

section \<open>The system\<close>

text \<open>Entry and exit of the component at an address; u and v stand for uninitialised variables of the
  plugin calls and of the base class.\<close>

definition component_at :: "addr \<Rightarrow> xf_core \<Rightarrow> 'o \<Rightarrow> 's \<Rightarrow> ('o, 's) xa_st" where
  "component_at c cd obj ps = \<lparr>xs_core = cd, xs_self = c, xs_obj = obj, xs_plug = ps\<rparr>"

definition set_component ::
  "('o \<Rightarrow> 's \<Rightarrow> 'v xa_component) \<Rightarrow> addr \<Rightarrow> 'v xa_system \<Rightarrow> ('o, 's) xa_st \<times> int \<Rightarrow> xf_core \<times> 'v xa_system \<times> int"
where
  "set_component C c w = (\<lambda>(s, r). (xs_core s, w(c \<mapsto> C (xs_obj s) (xs_plug s)), r))"

definition component_entry ::
  "u32 \<Rightarrow> 'v xa_proc \<Rightarrow> u32 \<Rightarrow> u32 \<Rightarrow> addr \<Rightarrow> addr \<Rightarrow> xf_core \<Rightarrow> 'v xa_system \<Rightarrow> (xf_core \<times> 'v xa_system \<times> int) option"
where
  "component_entry al lib u v c m cd w =
     (case w c of
        None \<Rightarrow> None
      | Some (Pcm_Component obj ps) \<Rightarrow>
          map_option (set_component Pcm_Component c w) (xa_codec_entry al (xa_pcm_codec u) v m (component_at c cd obj ps))
      | Some (Vorbis_Component obj ps) \<Rightarrow>
          map_option (set_component Vorbis_Component c w)
            (xa_codec_entry al (xa_vorbis_decoder lib) v m (component_at c cd obj ps))
      | Some (Mixer_Component obj ps) \<Rightarrow>
          map_option (set_component Mixer_Component c w) (xa_mixer_entry al (xa_mixer u) v m (component_at c cd obj ps)))"

definition component_exit ::
  "u32 \<Rightarrow> addr \<Rightarrow> addr \<Rightarrow> xf_core \<Rightarrow> 'v xa_system \<Rightarrow> (xf_core \<times> 'v xa_system \<times> int) option"
where
  "component_exit al c m cd w =
     (case w c of
        None \<Rightarrow> None
      | Some (Pcm_Component obj ps) \<Rightarrow>
          map_option (set_component Pcm_Component c w) (xa_codec_exit al m (component_at c cd obj ps))
      | Some (Vorbis_Component obj ps) \<Rightarrow>
          map_option (set_component Vorbis_Component c w) (xa_codec_exit al m (component_at c cd obj ps))
      | Some (Mixer_Component obj ps) \<Rightarrow>
          map_option (set_component Mixer_Component c w) (xa_mixer_exit al m (component_at c cd obj ps)))"

definition xf_system ::
  "u32 \<Rightarrow> 'v xa_proc \<Rightarrow> u32 \<Rightarrow> u32 \<Rightarrow> XAPcmCodec \<times> 'v \<times> XAPcmMixer \<Rightarrow> 'v xa_system xf_components"
where
  "xf_system al lib u v g =
     \<lparr>f_factory = xf_component_factory lib u g, f_entry = component_entry al lib u v, f_exit = component_exit al\<rparr>"

end
