(* ===== verification/XP_Mixer_Inv.thy ===== *)
theory XP_Mixer_Inv
  imports XP_Mixer
begin

text \<open>
  The mixing plugin is correct: its parameters never change, and a mixing step stores the saturated sums of
  the samples of its tracks.
\<close>

section \<open>States of the plugin\<close>

text \<open>The gain 1.0 in fixed point, for both channels of the tracks and of the master volume.\<close>

definition unit_volume :: u32 where
  "unit_volume = 0x10001000"

definition mixer_plugin_ok :: "XAPcmMixer \<Rightarrow> bool" where
  "mixer_plugin_ok w \<longleftrightarrow>
     pm_state w \<in> {1, 3, 7, 15} \<and> pm_frame_size w = 512 \<and> pm_channels w = 2 \<and> pm_pcm_width w = 16 \<and>
     pm_buffer_size w = (if pm_state w = 1 then 0 else 2048) \<and> pm_volume w = replicate 5 unit_volume \<and>
     length (pm_input w) = 4 \<and> length (pm_input_length w) = 4 \<and>
     (\<forall>j<4. pm_input_length w ! j \<noteq> 0 \<longrightarrow> pm_input w ! j \<noteq> 0)"

text \<open>Histories of the plugin: the first initialisation, whatever was in the memory of the structure, and then
  any commands in any state of the memory. Buffers are given by their address.\<close>

inductive mixer_plugin_reach :: "XAPcmMixer \<Rightarrow> bool" where
  preinit: "xa_mixer u a XA_API_CMD_INIT XA_CMD_TYPE_INIT_API_PRE_CONFIG_PARAMS pv d w = (d', w', v, e) \<Longrightarrow> a \<noteq> 0 \<Longrightarrow>
     mixer_plugin_reach w'"
| command: "mixer_plugin_reach w \<Longrightarrow> xa_mixer u a cmd i pv d w = (d', w', v, e) \<Longrightarrow>
     (cmd = XA_API_CMD_SET_MEM_PTR \<Longrightarrow> pv = PvPtr (pv_addr pv)) \<Longrightarrow> mixer_plugin_reach w'"

lemma mixer_plugin_preinit: "mixer_plugin_ok (xa_mixer_preinit\<lparr>pm_state := XA_MIXER_FLAG_PREINIT_DONE\<rparr>)"
  by (auto simp: mixer_plugin_ok_def xa_mixer_preinit_def mixer_plugin_flag_defs unit_volume_def less_Suc_eq numeral_nat)

lemma small_index: "0 \<le>s i \<Longrightarrow> i <s XA_MIXER_MAX_TRACK_NUMBER \<Longrightarrow> unat i < 4"
proof -
  assume "0 \<le>s i" "i <s XA_MIXER_MAX_TRACK_NUMBER"
  then have s: "0 \<le> sint i" "sint i < 4" by (simp_all add: word_sle_eq word_sless_alt XA_MIXER_MAX_TRACK_NUMBER_def)
  have "uint i = take_bit 32 (sint i)" by (simp add: uint_sint)
  also have "\<dots> = sint i" using s by (simp add: take_bit_int_eq_self)
  finally show ?thesis using s by (simp add: unat_eq_nat_uint)
qed

text \<open>What each command leaves of a well-formed state.\<close>

lemma mixer_plugin_upd:
  assumes "mixer_plugin_ok w"
  shows "mixer_plugin_ok (w\<lparr>pm_sample_rate := v\<rparr>)" "mixer_plugin_ok (w\<lparr>pm_pcm_width := 16\<rparr>)" "mixer_plugin_ok (w\<lparr>pm_channels := 2\<rparr>)"
    "mixer_plugin_ok (w\<lparr>pm_output := o'\<rparr>)" "mixer_plugin_ok (w\<lparr>pm_scratch := o'\<rparr>)"
  using assms by (simp_all add: mixer_plugin_ok_def)

lemma mixer_plugin_stage:
  assumes "mixer_plugin_ok w"
  shows "pm_state w AND XA_MIXER_FLAG_PREINIT_DONE \<noteq> 0 \<Longrightarrow>
      mixer_plugin_ok (w\<lparr>pm_buffer_size := pm_channels w * pm_frame_size w * (if pm_pcm_width w = 16 then 2 else 4),
        pm_state := pm_state w OR XA_MIXER_FLAG_POSTINIT_DONE\<rparr>)"
    and "pm_state w AND XA_MIXER_FLAG_POSTINIT_DONE \<noteq> 0 \<Longrightarrow> mixer_plugin_ok (w\<lparr>pm_state := pm_state w OR XA_MIXER_FLAG_RUNNING\<rparr>)"
    and "pm_state w AND XA_MIXER_FLAG_RUNNING \<noteq> 0 \<Longrightarrow>
      mixer_plugin_ok (w\<lparr>pm_produced := n, pm_state := pm_state w OR XA_MIXER_FLAG_OUTPUT\<rparr>)"
  using assms by (auto simp: mixer_plugin_ok_def mixer_plugin_flag_defs)

lemma mixer_plugin_list:
  assumes "mixer_plugin_ok w"
  shows "pm_input w ! i \<noteq> 0 \<Longrightarrow> mixer_plugin_ok (w\<lparr>pm_input_length := (pm_input_length w)[i := n]\<rparr>)"
    and "mixer_plugin_ok (w\<lparr>pm_input_length := (pm_input_length w)[i := 0]\<rparr>)"
    and "b \<noteq> 0 \<Longrightarrow> mixer_plugin_ok (w\<lparr>pm_input := (pm_input w)[i := b]\<rparr>)"
  using assms by (auto simp: mixer_plugin_ok_def) (metis nth_list_update_eq nth_list_update_neq)+

lemma mixer_plugin_execute:
  assumes "mixer_plugin_ok w" and "pm_state w AND XA_MIXER_FLAG_RUNNING \<noteq> 0"
  shows "mixer_plugin_ok (fst (snd (xa_mixer_do_execute_stereo_16bit u d w)))"
  using assms mixer_plugin_stage(3) by (auto simp: xa_mixer_do_execute_stereo_16bit_def Let_def split: prod.split option.split)

lemma mixer_plugin_handlers:
  assumes ok: "mixer_plugin_ok w"
  shows "mixer_plugin_ok (fst (snd (xa_mixer_init u a i pv d w)))"
    and "mixer_plugin_ok (fst (snd (xa_mixer_set_config_param u a i pv d w)))"
    and "mixer_plugin_ok (fst (snd (xa_mixer_execute u a i pv d w)))"
    and "mixer_plugin_ok (fst (snd (xa_mixer_set_input_bytes u a i pv d w)))"
    and "mixer_plugin_ok (fst (snd (xa_mixer_get_curidx_input_buf u a i pv d w)))"
    and "pv = PvPtr b \<Longrightarrow> mixer_plugin_ok (fst (snd (xa_mixer_set_mem_ptr u a i pv d w)))"
proof -
  show "mixer_plugin_ok (fst (snd (xa_mixer_init u a i pv d w)))"
    using ok mixer_plugin_preinit mixer_plugin_stage [OF ok] by (auto simp: xa_mixer_init_def)
  show "mixer_plugin_ok (fst (snd (xa_mixer_set_config_param u a i pv d w)))"
    using ok mixer_plugin_upd [OF ok] by (auto simp: xa_mixer_set_config_param_def Let_def)
  show "mixer_plugin_ok (fst (snd (xa_mixer_execute u a i pv d w)))"
    using ok mixer_plugin_execute [OF ok] by (auto simp: xa_mixer_execute_def xa_mixer_do_runtime_init_def)
  show "mixer_plugin_ok (fst (snd (xa_mixer_set_input_bytes u a i pv d w)))"
    using ok mixer_plugin_list [OF ok] by (auto simp: xa_mixer_set_input_bytes_def Let_def)
  show "mixer_plugin_ok (fst (snd (xa_mixer_get_curidx_input_buf u a i pv d w)))"
    using ok mixer_plugin_list [OF ok] by (auto simp: xa_mixer_get_curidx_input_buf_def)
  show "pv = PvPtr b \<Longrightarrow> mixer_plugin_ok (fst (snd (xa_mixer_set_mem_ptr u a i pv d w)))"
    using ok mixer_plugin_list [OF ok] mixer_plugin_upd [OF ok] by (auto simp: xa_mixer_set_mem_ptr_def)
qed

lemma mixer_plugin_queries:
  assumes ok: "mixer_plugin_ok w"
  shows "mixer_plugin_ok (fst (snd (xa_mixer_get_api_size u a i pv d w)))"
    and "mixer_plugin_ok (fst (snd (xa_mixer_get_config_param u a i pv d w)))"
    and "mixer_plugin_ok (fst (snd (xa_mixer_get_output_bytes u a i pv d w)))"
    and "mixer_plugin_ok (fst (snd (xa_mixer_get_memtabs_size u a i pv d w)))"
    and "mixer_plugin_ok (fst (snd (xa_mixer_set_memtabs_ptr u a i pv d w)))"
    and "mixer_plugin_ok (fst (snd (xa_mixer_get_n_memtabs u a i pv d w)))"
    and "mixer_plugin_ok (fst (snd (xa_mixer_get_mem_info_size u a i pv d w)))"
    and "mixer_plugin_ok (fst (snd (xa_mixer_get_mem_info_alignment u a i pv d w)))"
    and "mixer_plugin_ok (fst (snd (xa_mixer_get_mem_info_type u a i pv d w)))"
  using ok unfolding xa_mixer_get_api_size_def xa_mixer_get_config_param_def xa_mixer_get_output_bytes_def
    xa_mixer_get_memtabs_size_def xa_mixer_set_memtabs_ptr_def xa_mixer_get_n_memtabs_def xa_mixer_get_mem_info_size_def
    xa_mixer_get_mem_info_alignment_def xa_mixer_get_mem_info_type_def
  by (auto)

lemma mixer_plugin_command:
  assumes ok: "mixer_plugin_ok w" and pv: "cmd = XA_API_CMD_SET_MEM_PTR \<Longrightarrow> pv = PvPtr b"
  shows "mixer_plugin_ok (fst (snd (xa_mixer u a cmd i pv d w)))"
  unfolding xa_mixer_def
proof -
  have "mixer_plugin_ok (fst (snd (case xa_mixer_api cmd of None \<Rightarrow> xp_ret XA_API_FATAL_INVALID_CMD u d w | Some f \<Rightarrow> f u a i pv d w)))"
    using ok pv mixer_plugin_handlers [OF ok] mixer_plugin_queries [OF ok] by (simp add: xa_mixer_api_def)
  then show "mixer_plugin_ok (fst (snd (xp_chk (cmd < XA_MIXER_API_COMMANDS_NUM) XA_API_FATAL_INVALID_CMD u d w
      (case xa_mixer_api cmd of None \<Rightarrow> xp_ret XA_API_FATAL_INVALID_CMD u d w | Some f \<Rightarrow> f u a i pv d w))))"
    using ok by simp
qed

lemma mixer_plugin_reach_ok: "mixer_plugin_reach w \<Longrightarrow> mixer_plugin_ok w"
proof (induction rule: mixer_plugin_reach.induct)
  case (preinit u a pv d w d' w' v e)
  then have "w' = xa_mixer_preinit\<lparr>pm_state := XA_MIXER_FLAG_PREINIT_DONE\<rparr>"
    by (auto simp: xa_mixer_def xp_chk_def xa_mixer_api_def XA_MIXER_API_COMMANDS_NUM_def XA_API_CMD_INIT_def
        XA_API_CMD_GET_API_SIZE_def xa_mixer_init_def xp_ret_def)
  then show ?case using mixer_plugin_preinit by simp
next
  case (command w u a cmd i pv d d' w' v e)
  then show ?case using mixer_plugin_command [OF command.IH, of cmd pv "pv_addr pv" u a i d] by simp
qed

text \<open>C33: In every history of the mixing plugin after its first initialisation, whatever commands come and
  whatever values they carry, frames have 512 samples of 16-bit stereo, the buffers 2048 bytes once the
  parameters are set, and all five volumes are 1.0: no command changes a volume, and the one that the
  interface declares for that is rejected as a fatal error and changes nothing.\<close>

theorem mixer_plugin_parameters:
  assumes "mixer_plugin_reach w"
  shows "mixer_plugin_ok w \<and>
    xa_mixer u a XA_API_CMD_SET_CONFIG_PARAM XA_MIXER_CONFIG_PARAM_VOLUME pv d w = (d, w, u, XA_API_FATAL_INVALID_CMD_TYPE)"
proof -
  have "XA_MIXER_CONFIG_PARAM_VOLUME \<notin> {XA_MIXER_CONFIG_PARAM_PCM_WIDTH, XA_MIXER_CONFIG_PARAM_CHANNELS, XA_MIXER_CONFIG_PARAM_SAMPLE_RATE}"
    by (simp add: XA_MIXER_CONFIG_PARAM_VOLUME_def XA_MIXER_CONFIG_PARAM_PCM_WIDTH_def XA_MIXER_CONFIG_PARAM_CHANNELS_def
        XA_MIXER_CONFIG_PARAM_SAMPLE_RATE_def)
  then show ?thesis using mixer_plugin_reach_ok [OF assms]
    by (simp add: xa_mixer_def xp_chk_def xa_mixer_api_def XA_MIXER_API_COMMANDS_NUM_def XA_API_CMD_SET_CONFIG_PARAM_def
        XA_API_CMD_GET_API_SIZE_def XA_API_CMD_INIT_def xa_mixer_set_config_param_def xp_ret_def Let_def)
qed

section \<open>Mixing\<close>

text \<open>The sum of the samples at the buffers with a volume, as integers, and saturation.\<close>

definition pcm16 :: "(addr \<Rightarrow> u8) \<Rightarrow> addr \<Rightarrow> int" where
  "pcm16 d a = sint (mem_read16 d a)"

definition clamp16 :: "int \<Rightarrow> int" where
  "clamp16 x = max (-32768) (min 32767 x)"

definition sample_sum :: "(addr \<Rightarrow> u8) \<Rightarrow> (addr \<times> u16) list \<Rightarrow> int" where
  "sample_sum d bs = (\<Sum>(b, v) \<leftarrow> bs. if v = 0 then 0 else pcm16 d b)"

lemma pcm16_bounds: "- 32768 \<le> pcm16 d a" "pcm16 d a \<le> 32767"
  using sint_ge [of "mem_read16 d a"] sint_lt [of "mem_read16 d a"] by (simp_all add: pcm16_def)

lemma sample_sum_bounds: "\<bar>sample_sum d bs\<bar> \<le> 32768 * int (length bs)"
proof (induction bs)
  case (Cons x bs)
  then show ?case using pcm16_bounds [of d "fst x"] by (cases x) (auto simp: sample_sum_def)
qed (simp add: sample_sum_def)

lemma mix_sum_exact:
  assumes "\<forall>(b, v)\<in>set bs. v \<in> {0, 4096}"
  shows "mix_sum d bs = of_int (4096 * sample_sum d bs)"
proof -
  have "foldl (\<lambda>acc (b, v). acc + scast (mem_read16 d b) * ucast v) x bs = x + of_int (4096 * sample_sum d bs)" for x :: u32
    using assms
  proof (induction bs arbitrary: x)
    case (Cons y bs)
    obtain b v where y: "y = (b, v)" by (cases y)
    have v: "v = 0 \<or> v = 4096" using Cons.prems by (simp add: y)
    define p where "p = (of_int (pcm16 d b) :: u32)"
    have s: "scast (mem_read16 d b) = p" by (simp add: p_def pcm16_def)
    have "scast (mem_read16 d b) * ucast v = (of_int (4096 * (if v = 0 then 0 else pcm16 d b)) :: u32)"
      using v by (auto simp: s) (simp add: p_def)
    then have "foldl (\<lambda>acc (b, v). acc + scast (mem_read16 d b) * ucast v) x (y # bs) =
        x + of_int (4096 * (if v = 0 then 0 else pcm16 d b)) + of_int (4096 * sample_sum d bs)"
      using Cons by (simp add: y)
    then show ?case by (simp add: y sample_sum_def distrib_left)
  qed (simp add: sample_sum_def)
  from this [of 0] show ?thesis by (simp add: mix_sum_def)
qed

lemma mix_level_exact:
  assumes "\<bar>S\<bar> \<le> 131072"
  shows "sint (mix_level (of_int (4096 * S)) 4096) = clamp16 S"
proof -
  have shift: "drop_bit 12 (4096 * S) = S" by (simp add: drop_bit_eq_div)
  have a: "sint (of_int (4096 * S) :: u32) = 4096 * S" using assms by (intro sint_of_int_u32) (simp_all add: abs_le_iff)
  have s: "sint (of_int S :: u32) = S" using assms by (intro sint_of_int_u32) (simp_all add: abs_le_iff)
  have b: "signed_drop_bit 12 (of_int (4096 * S) :: u32) = of_int S"
    by (rule signed_word_eqI [where 'a = int]) (simp only: sint_signed_drop_bit_eq a shift s)
  have "of_int S * ucast (4096 :: u16) = (of_int (4096 * S) :: u32)" by simp
  then have c: "mix_level (of_int (4096 * S)) 4096 = DSP_SATURATE_S16 (of_int S)"
    unfolding mix_level_def b by (simp only: b)
  have hi: "0x7fff <s (of_int S :: u32) \<longleftrightarrow> 32767 < S" and lo: "(of_int S :: u32) <s -0x8000 \<longleftrightarrow> S < -32768"
    by (simp_all add: word_sless_alt s)
  have u: "sint (ucast (of_int S :: u32) :: u16) = S" if "- 32768 \<le> S" "S \<le> 32767"
  proof -
    have e: "(ucast (of_int S :: u32) :: u16) = word_of_int S" by (rule bit_word_eqI) (simp add: bit_simps)
    show ?thesis unfolding e using that by (simp add: signed_of_int signed_take_bit_int_eq_self)
  qed
  consider "32767 < S" | "S < - 32768" | "- 32768 \<le> S" "S \<le> 32767" by linarith
  then show ?thesis
    unfolding c DSP_SATURATE_S16_def hi lo clamp16_def by cases (use u in simp_all)
qed

text \<open>A sum depends on the buffers with a volume only.\<close>

lemma mix_sum_cong:
  assumes "\<And>b v. (b, v) \<in> set bs \<Longrightarrow> v \<noteq> 0 \<Longrightarrow> mem_read16 d b = mem_read16 d' b"
  shows "mix_sum d bs = mix_sum d' bs"
proof -
  have "foldl (\<lambda>acc (b, v). acc + scast (mem_read16 d b) * ucast v) x bs =
      foldl (\<lambda>acc (b, v). acc + scast (mem_read16 d' b) * ucast v) x bs" for x :: u32
    using assms
  proof (induction bs arbitrary: x)
    case (Cons y bs)
    obtain b v where y: "y = (b, v)" by (cases y)
    have "(scast (mem_read16 d b) * ucast v :: u32) = scast (mem_read16 d' b) * ucast v"
      using Cons.prems [of b v] by (cases "v = 0") (simp_all add: y)
    moreover have "mem_read16 d b = mem_read16 d' b" if "(b, v) \<in> set bs" "v \<noteq> 0" for b v
      using Cons.prems [of b v] that by simp
    note Cons.IH [OF this]
    ultimately show ?case by (simp add: y)
  qed simp
  then show ?thesis by (simp add: mix_sum_def)
qed

text \<open>Samples of the tracks at a distance of k bytes.\<close>

definition left_at :: "nat \<Rightarrow> (addr \<times> u16 \<times> u16) list \<Rightarrow> (addr \<times> u16) list" where
  "left_at k ts = map (\<lambda>(b, vl, vr). (b + of_nat k, vl)) ts"

definition right_at :: "nat \<Rightarrow> (addr \<times> u16 \<times> u16) list \<Rightarrow> (addr \<times> u16) list" where
  "right_at k ts = map (\<lambda>(b, vl, vr). (b + of_nat k, vr)) ts"

lemma area_read: "k + 2 \<le> n \<Longrightarrow> b + of_nat k \<in> area b n \<and> b + of_nat k + 1 \<in> area b n"
proof -
  assume k: "k + 2 \<le> n"
  have "b + of_nat i \<in> area b n" if "i < n" for i using that unfolding area_def by blast
  from this [of k] this [of "k + 1"] k have "b + of_nat k \<in> area b n" "b + of_nat (k + 1) \<in> area b n" by simp_all
  then show ?thesis by (simp add: add_ac)
qed

lemma area_read_out: "d' = (\<lambda>x. if x \<in> A then e x else d x) \<Longrightarrow> area b n \<inter> A = {} \<Longrightarrow> k + 2 \<le> n \<Longrightarrow>
    mem_read16 d' (b + of_nat k) = mem_read16 d (b + of_nat k)"
  using area_read [of k n b] by (auto intro!: mem_read16_cong)

lemma area_step:
  assumes "4 * (n + 1) < (2 :: nat) ^ 32"
  shows "area (a + 4) (4 * n) \<inter> area a 4 = {}"
proof -
  have "a + 4 + of_nat i \<noteq> a + of_nat j" if ij: "i < 4 * n" "j < 4" for i j
  proof
    assume "a + 4 + of_nat i = a + of_nat j"
    then have "(of_nat (4 + i) :: addr) = of_nat j" by (simp add: add.assoc)
    moreover have "(of_nat (4 + i) :: addr) = of_nat j \<longleftrightarrow> 4 + i = j" by (rule of_nat_u32_eq) (use ij assms in simp_all)
    ultimately show False using ij by simp
  qed
  then show ?thesis by (auto simp: area_def)
qed

lemma frame_bytes:
  fixes d :: "addr \<Rightarrow> u8"
  shows "mem_read16 (mem_write16 (mem_write16 d a l) (a + 2) r) a = l" and "mem_read16 (mem_write16 (mem_write16 d a l) (a + 2) r) (a + 2) = r"
    and "x \<notin> area a 4 \<Longrightarrow> mem_write16 (mem_write16 d a l) (a + 2) r x = d x"
proof -
  have n: "a + 2 \<noteq> a" "a + 3 \<noteq> a" "a + 2 \<noteq> a + 1" "a + 3 \<noteq> a + 1" "a + 2 + 1 = a + 3" by simp_all
  show "mem_read16 (mem_write16 (mem_write16 d a l) (a + 2) r) (a + 2) = r" by (rule mem_write16_read)
  have "mem_read16 (mem_write16 (mem_write16 d a l) (a + 2) r) a = mem_read16 (mem_write16 d a l) a"
    by (rule mem_read16_cong) (simp_all add: mem_write16_def n [symmetric])
  then show "mem_read16 (mem_write16 (mem_write16 d a l) (a + 2) r) a = l" by (simp add: mem_write16_read)
  assume x: "x \<notin> area a 4"
  have "a + of_nat i \<in> area a 4" if "i < 4" for i using that unfolding area_def by blast
  from this [of 0] this [of 1] this [of 2] this [of 3] have "x \<noteq> a" "x \<noteq> a + 1" "x \<noteq> a + 2" "x \<noteq> a + 3" using x by auto
  then show "mem_write16 (mem_write16 d a l) (a + 2) r x = d x" by (simp add: mem_write16_def n)
qed

text \<open>The loop of the mixer: what it stores, and that it stores nothing else. The buffers that are read lie
  apart from the output.\<close>

lemma mix_loop_spec:
  assumes "4 * n < 2 ^ 32"
    and "\<forall>(b, vl, vr)\<in>set ts. (vl, vr) \<noteq> (0, 0) \<longrightarrow> area b (4 * n) \<inter> area out (4 * n) = {}"
  shows "(\<forall>k<n. mem_read16 (mix_loop n out ts wl wr d) (out + of_nat (4 * k)) = mix_level (mix_sum d (left_at (4 * k) ts)) wl \<and>
      mem_read16 (mix_loop n out ts wl wr d) (out + of_nat (4 * k) + 2) = mix_level (mix_sum d (right_at (4 * k + 2) ts)) wr) \<and>
    (\<forall>x. x \<notin> area out (4 * n) \<longrightarrow> mix_loop n out ts wl wr d x = d x)"
  using assms
proof (induction n arbitrary: out ts d)
  case (Suc n)
  let ?l = "mix_level (mix_sum d (left_at 0 ts)) wl" and ?r = "mix_level (mix_sum d (right_at 2 ts)) wr"
  define d1 where "d1 = mem_write16 (mem_write16 d out ?l) (out + 2) ?r"
  define ts1 where "ts1 = map (\<lambda>(b, v). (b + 4, v)) ts"
  have L: "mix_loop (Suc n) out ts wl wr d = mix_loop n (out + 4) ts1 wl wr d1"
    by (simp add: d1_def ts1_def left_at_def right_at_def Let_def case_prod_unfold)
  have d1: "mem_read16 d1 out = ?l" "mem_read16 d1 (out + 2) = ?r" "\<And>x. x \<notin> area out 4 \<Longrightarrow> d1 x = d x"
    unfolding d1_def by (rule frame_bytes, rule frame_bytes, rule frame_bytes)
  have sub: "area (a + 4) (4 * n) \<subseteq> area a (4 * Suc n)" "area a 4 \<subseteq> area a (4 * Suc n)" for a
    using area_sub [of 4 "4 * n" "4 * Suc n" a] area_mono [of 4 "4 * Suc n" a] by simp_all
  have apart1: "\<forall>(b, vl, vr)\<in>set ts1. (vl, vr) \<noteq> (0, 0) \<longrightarrow> area b (4 * n) \<inter> area (out + 4) (4 * n) = {}"
    using Suc.prems(2) sub(1) unfolding ts1_def by fastforce
  have n: "4 * n < 2 ^ 32" "4 * (n + 1) < (2 :: nat) ^ 32" using Suc.prems(1) by simp_all
  note IH = Suc.IH [OF n(1) apart1, of d1]
  have first: "area (out + 4) (4 * n) \<inter> area out 4 = {}" by (rule area_step [OF n(2)])
  have in4: "out + of_nat i \<in> area out 4" if "i < 4" for i using that unfolding area_def by blast
  have 0: "mem_read16 (mix_loop n (out + 4) ts1 wl wr d1) out = ?l" "mem_read16 (mix_loop n (out + 4) ts1 wl wr d1) (out + 2) = ?r"
    using in4 [of 0] in4 [of 1] in4 [of 2] in4 [of 3] first IH
    by (auto simp: add.assoc simp flip: d1(1,2) intro!: mem_read16_cong)
  have rd: "mem_read16 d1 (b + of_nat k) = mem_read16 d (b + of_nat k)" if "k + 2 \<le> 4 * Suc n" "(b, vl, vr) \<in> set ts" "(vl, vr) \<noteq> (0, 0)" for b vl vr k
  proof -
    have "area b (4 * Suc n) \<inter> area out (4 * Suc n) = {}" using Suc.prems(2) that(2,3) by fast
    then have "b + of_nat k \<notin> area out 4" "b + of_nat k + 1 \<notin> area out 4" using area_read [OF that(1), of b] sub(2) by blast+
    then show ?thesis by (intro mem_read16_cong d1(3))
  qed
  have rd2: "mem_read16 d1 b = mem_read16 d b"
    if "m + 2 \<le> 4 * Suc n" "(b, v) \<in> set (left_at m ts) \<or> (b, v) \<in> set (right_at m ts)" "v \<noteq> 0" for m b v
  proof -
    from that(2,3) obtain b0 vl vr where "(b0, vl, vr) \<in> set ts" "b = b0 + of_nat m" "(vl, vr) \<noteq> (0, 0)"
      by (auto simp: left_at_def right_at_def)
    with rd [OF that(1)] show ?thesis by blast
  qed
  have sums: "mix_sum d1 (left_at (4 * k) ts1) = mix_sum d (left_at (4 * Suc k) ts)"
    "mix_sum d1 (right_at (4 * k + 2) ts1) = mix_sum d (right_at (4 * Suc k + 2) ts)" if "k < n" for k
  proof -
    have "left_at (4 * k) ts1 = left_at (4 * Suc k) ts" "right_at (4 * k + 2) ts1 = right_at (4 * Suc k + 2) ts"
      by (auto simp: left_at_def right_at_def ts1_def add_ac)
    moreover have "mix_sum d1 (left_at (4 * Suc k) ts) = mix_sum d (left_at (4 * Suc k) ts)"
      by (rule mix_sum_cong, rule rd2 [of "4 * Suc k"]) (use that in simp_all)
    moreover have "mix_sum d1 (right_at (4 * Suc k + 2) ts) = mix_sum d (right_at (4 * Suc k + 2) ts)"
      by (rule mix_sum_cong, rule rd2 [of "4 * Suc k + 2"]) (use that in simp_all)
    ultimately show "mix_sum d1 (left_at (4 * k) ts1) = mix_sum d (left_at (4 * Suc k) ts)"
      "mix_sum d1 (right_at (4 * k + 2) ts1) = mix_sum d (right_at (4 * Suc k + 2) ts)" by simp_all
  qed
  have out: "out + 4 + of_nat (4 * k) = out + of_nat (4 * Suc k)" for k by simp
  have samples: "mem_read16 (mix_loop (Suc n) out ts wl wr d) (out + of_nat (4 * k)) = mix_level (mix_sum d (left_at (4 * k) ts)) wl \<and>
      mem_read16 (mix_loop (Suc n) out ts wl wr d) (out + of_nat (4 * k) + 2) = mix_level (mix_sum d (right_at (4 * k + 2) ts)) wr"
    if "k < Suc n" for k
  proof (cases k)
    case 0
    then show ?thesis using \<open>mem_read16 (mix_loop n (out + 4) ts1 wl wr d1) out = ?l\<close>
        \<open>mem_read16 (mix_loop n (out + 4) ts1 wl wr d1) (out + 2) = ?r\<close> by (simp only: L) (simp add: numeral_2_eq_2)
  next
    case (Suc j)
    then have "j < n" using that by simp
    with IH sums [of j] show ?thesis unfolding L Suc by (simp only: out)
  qed
  have "mix_loop (Suc n) out ts wl wr d x = d x" if "x \<notin> area out (4 * Suc n)" for x
  proof -
    have "x \<notin> area (out + 4) (4 * n)" "x \<notin> area out 4" using that sub [of out] by blast+
    then show ?thesis using IH d1(3) unfolding L by simp
  qed
  with samples show ?case by blast
qed simp

text \<open>Preparation: the memory after padding, and the tracks.\<close>

definition padded_by :: "XAPcmMixer \<Rightarrow> nat list \<Rightarrow> (addr \<Rightarrow> u8) \<Rightarrow> addr \<Rightarrow> u8" where
  "padded_by w js d x =
     (if \<exists>j\<in>set js. pm_input_length w ! j \<noteq> 0 \<and>
        x \<in> area (pm_input w ! j + pm_input_length w ! j) (2048 - unat (pm_input_length w ! j)) then 0 else d x)"

definition track_of :: "XAPcmMixer \<Rightarrow> nat \<Rightarrow> addr \<times> u16 \<times> u16" where
  "track_of w j = (if pm_input_length w ! j = 0 then (pm_scratch w, 0, 0) else (pm_input w ! j, 4096, 4096))"

lemma unit_volume_halves: "ucast (unit_volume AND 0xFFFF) = (4096 :: u16)" "ucast (drop_bit 16 unit_volume) = (4096 :: u16)"
  by (simp_all add: unit_volume_def)

lemma mem_set_area: "mem_set b v n d = (\<lambda>x. if x \<in> area b (unat n) then v else d x)"
proof
  fix x
  show "mem_set b v n d x = (if x \<in> area b (unat n) then v else d x)"
  proof (cases "x \<in> area b (unat n)")
    case True
    then obtain i where i: "i < unat n" "x = b + of_nat i" by (auto simp: area_def)
    have "bytes_at (mem_set b v n d) b (unat n) ! i = v" using i by (simp add: mem_set_bytes(1))
    then show ?thesis using True i by simp
  qed (simp add: mem_set_bytes(2))
qed

lemma mix_prepare_spec:
  assumes ok: "mixer_plugin_ok w" "pm_state w \<noteq> 1" and len: "\<forall>j<4. pm_input_length w ! j \<le> 2048" and js: "set js \<subseteq> {..<4}"
  shows "mix_prepare w js d = (padded_by w js d, Some (map (track_of w) js))"
  using js
proof (induction js arbitrary: d)
  case (Cons j js)
  let ?n = "pm_input_length w ! j" and ?b = "pm_input w ! j"
  have j: "j < 4" "?n \<le> 2048" using Cons.prems len by auto
  have vol: "pm_volume w ! j = unit_volume" using ok(1) j(1) by (simp add: mixer_plugin_ok_def)
  have sz: "pm_buffer_size w = 2048" using ok by (simp add: mixer_plugin_ok_def)
  have IH: "mix_prepare w js d = (padded_by w js d, Some (map (track_of w) js))" for d using Cons by auto
  show ?case
  proof (cases "?n = 0")
    case True
    then have "padded_by w (j # js) d = padded_by w js d" by (auto simp: padded_by_def fun_eq_iff)
    then show ?thesis using True by (simp add: IH track_of_def)
  next
    case False
    then have b: "?b \<noteq> 0" using ok(1) j(1) by (auto simp: mixer_plugin_ok_def)
    have k: "unat (2048 - ?n) = 2048 - unat ?n" using j(2) by (simp add: unat_sub)
    have "0 <s 2048 - ?n \<longleftrightarrow> 2048 - ?n \<noteq> 0" by (rule sless_0_iff) (simp add: k)
    moreover have "mem_set b 0 0 d = d" for b by (simp add: mem_set_area area_def)
    ultimately have pad: "(if 0 <s 2048 - ?n then mem_set (?b + ?n) 0 (2048 - ?n) d else d) = mem_set (?b + ?n) 0 (2048 - ?n) d" by simp
    have "padded_by w js (mem_set (?b + ?n) 0 (2048 - ?n) d) = padded_by w (j # js) d"
      using False by (auto simp: padded_by_def fun_eq_iff mem_set_area k)
    then show ?thesis using False b by (simp add: IH track_of_def sz pad vol unit_volume_halves Let_def)
  qed
qed (simp add: padded_by_def fun_eq_iff)

abbreviation mix_silence :: "XAPcmMixer \<Rightarrow> (addr \<Rightarrow> u8) \<Rightarrow> addr \<Rightarrow> u8" where
  "mix_silence w \<equiv> padded_by w [0 ..< 4]"

text \<open>The sum of the tracks at sample k of the interleaved buffers.\<close>

definition track_sum :: "XAPcmMixer \<Rightarrow> (addr \<Rightarrow> u8) \<Rightarrow> nat \<Rightarrow> int" where
  "track_sum w d k = (\<Sum>j\<leftarrow>[0 ..< 4]. if pm_input_length w ! j = 0 then 0 else pcm16 d (pm_input w ! j + of_nat (2 * k)))"

lemma track_level:
  assumes bs: "bs = map (\<lambda>j. (if pm_input_length w ! j = 0 then pm_scratch w + of_nat (2 * k) else pm_input w ! j + of_nat (2 * k),
      if pm_input_length w ! j = 0 then 0 else 4096)) [0 ..< 4]"
  shows "sint (mix_level (mix_sum d bs) 4096) = clamp16 (track_sum w d k)"
proof -
  have "sample_sum d bs = track_sum w d k"
    unfolding bs sample_sum_def track_sum_def by (simp add: comp_def if_distrib cong: if_cong)
  moreover have "mix_sum d bs = of_int (4096 * sample_sum d bs)" by (rule mix_sum_exact) (auto simp: bs)
  moreover have "\<bar>sample_sum d bs\<bar> \<le> 131072" using sample_sum_bounds [of d bs] by (simp add: bs)
  ultimately show ?thesis using mix_level_exact by metis
qed

lemma tracks_at:
  "left_at (2 * k) (map (track_of w) [0 ..< 4]) =
     map (\<lambda>j. (if pm_input_length w ! j = 0 then pm_scratch w + of_nat (2 * k) else pm_input w ! j + of_nat (2 * k),
       if pm_input_length w ! j = 0 then 0 else 4096)) [0 ..< 4]"
  "right_at (2 * k) (map (track_of w) [0 ..< 4]) =
     map (\<lambda>j. (if pm_input_length w ! j = 0 then pm_scratch w + of_nat (2 * k) else pm_input w ! j + of_nat (2 * k),
       if pm_input_length w ! j = 0 then 0 else 4096)) [0 ..< 4]"
  unfolding left_at_def right_at_def map_map by (rule map_cong, simp, simp add: track_of_def)+

text \<open>C32: A mixing step of the running plugin, in every state it can reach: sample k of the output buffer is the
  sum of samples k of the tracks with input, saturated to 16 bits; a track whose input is shorter than a
  frame is padded with silence, and nothing outside the output buffer and the padding is written. No
  intermediate value overflows. The input buffers have to lie apart from the output buffer and to hold at
  most one frame, which is what the ports of the mixer class give.\<close>

theorem mixer_plugin_mixes:
  assumes w: "mixer_plugin_reach w" and run: "pm_state w AND XA_MIXER_FLAG_RUNNING \<noteq> 0" and a: "a \<noteq> 0"
    and len: "\<forall>j<4. pm_input_length w ! j \<le> 2048"
    and apart: "\<forall>j<4. pm_input_length w ! j \<noteq> 0 \<longrightarrow> area (pm_input w ! j) 2048 \<inter> area (pm_output w) 2048 = {}"
  shows "\<exists>d'. xa_mixer u a XA_API_CMD_EXECUTE XA_CMD_TYPE_DO_EXECUTE pv d w =
      (d', w\<lparr>pm_produced := 2048, pm_state := pm_state w OR XA_MIXER_FLAG_OUTPUT\<rparr>, u, XA_NO_ERROR) \<and>
    (\<forall>k<1024. pcm16 d' (pm_output w + of_nat (2 * k)) = clamp16 (track_sum w (mix_silence w d) k)) \<and>
    (\<forall>x. x \<notin> area (pm_output w) 2048 \<longrightarrow> d' x = mix_silence w d x)"
proof -
  let ?ts = "map (track_of w) [0 ..< 4]" and ?d = "mix_silence w d"
  define d' where "d' = mix_loop 512 (pm_output w) ?ts 4096 4096 ?d"
  have ok: "mixer_plugin_ok w" by (rule mixer_plugin_reach_ok [OF w])
  then have st: "pm_state w \<noteq> 1" "pm_frame_size w = 512" "pm_volume w ! 4 = unit_volume"
    using run by (auto simp: mixer_plugin_ok_def mixer_plugin_flag_defs)
  have prep: "mix_prepare w [0 ..< 4] d = (?d, Some ?ts)" by (rule mix_prepare_spec [OF ok st(1) len]) auto
  have "xa_mixer u a XA_API_CMD_EXECUTE XA_CMD_TYPE_DO_EXECUTE pv d w = xa_mixer_do_execute_stereo_16bit u d w"
    using run a by (simp add: xa_mixer_def xp_chk_def xa_mixer_api_def XA_MIXER_API_COMMANDS_NUM_def XA_API_CMD_EXECUTE_def
        XA_API_CMD_GET_API_SIZE_def XA_API_CMD_INIT_def XA_API_CMD_SET_CONFIG_PARAM_def XA_API_CMD_GET_CONFIG_PARAM_def xa_mixer_execute_def)
  also have "\<dots> = (d', w\<lparr>pm_produced := 2048, pm_state := pm_state w OR XA_MIXER_FLAG_OUTPUT\<rparr>, u, XA_NO_ERROR)"
    by (simp only: xa_mixer_do_execute_stereo_16bit_def prep st unit_volume_halves xp_ret_def d'_def Let_def prod.case option.case) simp
  finally have run: "xa_mixer u a XA_API_CMD_EXECUTE XA_CMD_TYPE_DO_EXECUTE pv d w = \<dots>" .
  have reads: "\<forall>(b, vl, vr)\<in>set ?ts. (vl, vr) \<noteq> (0, 0) \<longrightarrow> area b (4 * 512) \<inter> area (pm_output w) (4 * 512) = {}"
    using apart by (auto simp: track_of_def split: if_splits)
  have loop: "\<forall>k<512. mem_read16 d' (pm_output w + of_nat (4 * k)) = mix_level (mix_sum ?d (left_at (4 * k) ?ts)) 4096 \<and>
      mem_read16 d' (pm_output w + of_nat (4 * k) + 2) = mix_level (mix_sum ?d (right_at (4 * k + 2) ?ts)) 4096"
    and out: "\<forall>x. x \<notin> area (pm_output w) (4 * 512) \<longrightarrow> d' x = ?d x"
    using mix_loop_spec [OF _ reads, of 4096 4096 ?d] unfolding d'_def by simp_all
  have "pcm16 d' (pm_output w + of_nat (2 * k)) = clamp16 (track_sum w ?d k)" if k: "k < 1024" for k
  proof -
    have half: "k div 2 < 512" using k by simp
    have "mem_read16 d' (pm_output w + of_nat (2 * k)) = mix_level (mix_sum ?d (left_at (2 * k) ?ts)) 4096 \<or>
        mem_read16 d' (pm_output w + of_nat (2 * k)) = mix_level (mix_sum ?d (right_at (2 * k) ?ts)) 4096"
    proof (cases "even k")
      case True
      then have e: "4 * (k div 2) = 2 * k" by auto
      have "mem_read16 d' (pm_output w + of_nat (4 * (k div 2))) = mix_level (mix_sum ?d (left_at (4 * (k div 2)) ?ts)) 4096"
        using loop half by blast
      then show ?thesis unfolding e by (rule disjI1)
    next
      case False
      then have e: "4 * (k div 2) + 2 = 2 * k" by (auto elim!: oddE)
      have "pm_output w + of_nat (4 * (k div 2)) + 2 = pm_output w + of_nat (4 * (k div 2) + 2)" by (simp add: add.assoc)
      then have b: "pm_output w + of_nat (4 * (k div 2)) + 2 = pm_output w + of_nat (2 * k)" by (simp only: e)
      have "mem_read16 d' (pm_output w + of_nat (4 * (k div 2)) + 2) = mix_level (mix_sum ?d (right_at (4 * (k div 2) + 2) ?ts)) 4096"
        using loop half by blast
      then show ?thesis unfolding b e by (rule disjI2)
    qed
    then show ?thesis unfolding pcm16_def using track_level [OF tracks_at(1)] track_level [OF tracks_at(2)] by metis
  qed
  with run out show ?thesis by auto
qed

text \<open>A running plugin with one input of four bytes.\<close>

lemma mixer_plugin_reach_cmd:
  "mixer_plugin_reach w \<Longrightarrow> (cmd = XA_API_CMD_SET_MEM_PTR \<Longrightarrow> pv = PvPtr (pv_addr pv)) \<Longrightarrow>
     mixer_plugin_reach (fst (snd (xa_mixer u a cmd i pv d w)))"
  by (rule mixer_plugin_reach.command [where d' = "fst (xa_mixer u a cmd i pv d w)" and v = "fst (snd (snd (xa_mixer u a cmd i pv d w)))"
        and e = "snd (snd (snd (xa_mixer u a cmd i pv d w)))" and pv = pv and cmd = cmd and a = a and u = u and i = i and d = d]) simp_all

definition mixer_demo :: XAPcmMixer where
  "mixer_demo =
     \<lparr>pm_state = 7, pm_frame_size = 512, pm_channels = 2, pm_pcm_width = 16, pm_sample_rate = 0, pm_buffer_size = 2048,
      pm_volume = replicate 5 unit_volume, pm_input = [4096, 0, 0, 0], pm_input_length = [4, 0, 0, 0], pm_output = 8192,
      pm_produced = 0, pm_scratch = 0\<rparr>"

lemmas mixer_plugin_eval = xa_mixer_def xp_chk_def xp_ret_def xa_mixer_api_def XA_MIXER_API_COMMANDS_NUM_def XA_API_CMD_EXECUTE_def
  XA_API_CMD_GET_API_SIZE_def XA_API_CMD_INIT_def XA_API_CMD_SET_CONFIG_PARAM_def XA_API_CMD_GET_CONFIG_PARAM_def
  XA_API_CMD_SET_INPUT_BYTES_def XA_API_CMD_GET_OUTPUT_BYTES_def XA_API_CMD_GET_CURIDX_INPUT_BUF_def XA_API_CMD_GET_MEMTABS_SIZE_def
  XA_API_CMD_SET_MEMTABS_PTR_def XA_API_CMD_GET_N_MEMTABS_def XA_API_CMD_GET_MEM_INFO_SIZE_def XA_API_CMD_GET_MEM_INFO_ALIGNMENT_def
  XA_API_CMD_GET_MEM_INFO_TYPE_def XA_API_CMD_SET_MEM_PTR_def XA_CMD_TYPE_INIT_API_PRE_CONFIG_PARAMS_def
  XA_CMD_TYPE_INIT_API_POST_CONFIG_PARAMS_def XA_CMD_TYPE_INIT_PROCESS_def xa_mixer_init_def xa_mixer_set_mem_ptr_def
  xa_mixer_set_input_bytes_def XA_MIXER_MAX_TRACK_NUMBER_def mixer_plugin_flag_defs xa_mixer_preinit_def XA_NO_ERROR_def

lemma rep4: "replicate 4 x = [x, x, x, x]"
  by (simp add: numeral_nat)

lemma mixer_demo_reach: "mixer_plugin_reach mixer_demo"
proof -
  let ?d = "\<lambda>_ :: addr. 0 :: u8"
  define w0 where "w0 = xa_mixer_preinit\<lparr>pm_state := 1\<rparr>"
  have "xa_mixer 0 16 XA_API_CMD_INIT XA_CMD_TYPE_INIT_API_PRE_CONFIG_PARAMS PvNull ?d w0 = (?d, w0, 0, 0)"
    by (simp add: mixer_plugin_eval w0_def)
  then have 0: "mixer_plugin_reach w0" by (rule mixer_plugin_reach.preinit) simp
  define w1 where "w1 = fst (snd (xa_mixer 0 16 XA_API_CMD_INIT XA_CMD_TYPE_INIT_API_POST_CONFIG_PARAMS PvNull ?d w0))"
  define w2 where "w2 = fst (snd (xa_mixer 0 16 XA_API_CMD_SET_MEM_PTR 0 (PvPtr 4096) ?d w1))"
  define w3 where "w3 = fst (snd (xa_mixer 0 16 XA_API_CMD_SET_MEM_PTR 4 (PvPtr 8192) ?d w2))"
  define w4 where "w4 = fst (snd (xa_mixer 0 16 XA_API_CMD_SET_INPUT_BYTES 0 (PvVal 4) ?d w3))"
  define w5 where "w5 = fst (snd (xa_mixer 0 16 XA_API_CMD_INIT XA_CMD_TYPE_INIT_PROCESS PvNull ?d w4))"
  note step = mixer_plugin_reach_cmd [where u = 0 and a = 16 and d = ?d]
  have 1: "mixer_plugin_reach w1" unfolding w1_def by (rule step [OF 0]) (simp add: XA_API_CMD_INIT_def XA_API_CMD_SET_MEM_PTR_def)
  have 2: "mixer_plugin_reach w2" unfolding w2_def by (rule step [OF 1]) simp
  have 3: "mixer_plugin_reach w3" unfolding w3_def by (rule step [OF 2]) simp
  have 4: "mixer_plugin_reach w4"
    unfolding w4_def by (rule step [OF 3]) (simp add: XA_API_CMD_SET_INPUT_BYTES_def XA_API_CMD_SET_MEM_PTR_def)
  have "mixer_plugin_reach w5" unfolding w5_def by (rule step [OF 4]) (simp add: XA_API_CMD_INIT_def XA_API_CMD_SET_MEM_PTR_def)
  moreover have "w1 = w0\<lparr>pm_buffer_size := 2048, pm_state := 3\<rparr>" by (simp add: mixer_plugin_eval w0_def w1_def)
  then have "w2 = w0\<lparr>pm_buffer_size := 2048, pm_state := 3, pm_input := [4096, 0, 0, 0]\<rparr>"
    by (simp add: mixer_plugin_eval w0_def w2_def rep4)
  then have "w3 = w0\<lparr>pm_buffer_size := 2048, pm_state := 3, pm_input := [4096, 0, 0, 0], pm_output := 8192\<rparr>"
    by (simp add: mixer_plugin_eval w0_def w3_def)
  then have "w4 = w0\<lparr>pm_buffer_size := 2048, pm_state := 3, pm_input := [4096, 0, 0, 0], pm_output := 8192, pm_input_length := [4, 0, 0, 0]\<rparr>"
    by (simp add: mixer_plugin_eval w0_def w4_def rep4 word_sle_eq word_sless_alt)
  then have "w5 = mixer_demo" by (simp add: mixer_plugin_eval w0_def w5_def mixer_demo_def unit_volume_def)
  ultimately show ?thesis by simp
qed

lemma mixer_plugin_parameters_witness:
  "xa_mixer 0 16 XA_API_CMD_SET_CONFIG_PARAM XA_MIXER_CONFIG_PARAM_VOLUME (PvPtr 64) (\<lambda>_. 1) mixer_demo =
     (\<lambda>_. 1, mixer_demo, 0, XA_API_FATAL_INVALID_CMD_TYPE)"
  using mixer_plugin_parameters [OF mixer_demo_reach, of 0 16 "PvPtr 64" "\<lambda>_. 1"] by (rule conjunct2)

lemma all_four: "(\<forall>j<4. P j) \<longleftrightarrow> P 0 \<and> P 1 \<and> P 2 \<and> P (3 :: nat)"
proof -
  have "j < 4 \<longleftrightarrow> j = 0 \<or> j = 1 \<or> j = 2 \<or> j = 3" for j :: nat by linarith
  then show ?thesis by auto
qed

lemma mixer_plugin_mixes_witness:
  "\<exists>d' w'. xa_mixer 0 16 XA_API_CMD_EXECUTE XA_CMD_TYPE_DO_EXECUTE PvNull (\<lambda>x. if x = 4098 then 7 else 0) mixer_demo = (d', w', 0, XA_NO_ERROR) \<and>
     pcm16 d' (8192 + of_nat (2 * 1)) = clamp16 (track_sum mixer_demo (mix_silence mixer_demo (\<lambda>x. if x = 4098 then 7 else 0)) 1)"
proof -
  have len: "\<forall>j<4. pm_input_length mixer_demo ! j \<le> 2048"
    unfolding all_four by (simp add: mixer_demo_def)
  have apart: "\<forall>j<4. pm_input_length mixer_demo ! j \<noteq> 0 \<longrightarrow> area (pm_input mixer_demo ! j) 2048 \<inter> area (pm_output mixer_demo) 2048 = {}"
    unfolding all_four using area_far [of 4096 2048 8192 2048] by (simp add: mixer_demo_def)
  have "pm_state mixer_demo AND XA_MIXER_FLAG_RUNNING \<noteq> 0" by (simp add: mixer_demo_def mixer_plugin_flag_defs)
  from mixer_plugin_mixes [OF mixer_demo_reach this _ len apart, of 16 0 PvNull "\<lambda>x. if x = 4098 then 7 else 0"]
  obtain d' w' where r: "xa_mixer 0 16 XA_API_CMD_EXECUTE XA_CMD_TYPE_DO_EXECUTE PvNull (\<lambda>x. if x = 4098 then 7 else 0) mixer_demo = (d', w', 0, XA_NO_ERROR)"
    and s: "\<forall>k<1024. pcm16 d' (pm_output mixer_demo + of_nat (2 * k)) =
      clamp16 (track_sum mixer_demo (mix_silence mixer_demo (\<lambda>x. if x = 4098 then 7 else 0)) k)" by auto
  have "pm_output mixer_demo = 8192" by (simp add: mixer_demo_def)
  with s have "pcm16 d' (8192 + of_nat (2 * 1)) = clamp16 (track_sum mixer_demo (mix_silence mixer_demo (\<lambda>x. if x = 4098 then 7 else 0)) 1)"
    by (metis one_less_numeral_iff semiring_norm(76))
  with r show ?thesis by blast
qed

end
