(* ===== verification/XP_Pcm_Inv.thy ===== *)
theory XP_Pcm_Inv
  imports XP_Pcm
begin

text \<open>
  The format converter: its states, what a processing step stores, and two of its defects: the default
  routing is not the identity, and the announced output buffer can be too short.
\<close>

section \<open>States of the plugin\<close>

definition pcm_choice :: "XAPcmCodec \<Rightarrow> pcm_process" where
  "pcm_choice w =
     (if pc_in_pcm_width w = pc_out_pcm_width w then
        if pc_in_channels w \<noteq> pc_out_channels w \<or> \<not> xa_pcm_is_identity_mapping (pc_chan_routing w) (pc_in_channels w) then
          if pc_in_pcm_width w = 16 then Pcm16_Chmap else Pcm24_Chmap
        else Pcm_Copy
      else if pc_in_pcm_width w = 16 then Pcm16_To_Pcm24 else Pcm24_To_Pcm16)"

definition pcm_plugin_ok :: "XAPcmCodec \<Rightarrow> bool" where
  "pcm_plugin_ok w \<longleftrightarrow>
     pc_state w AND NOT 0x1F = 0 \<and> pc_state w AND 7 \<in> {1, 3, 7} \<and>
     pc_in_pcm_width w \<in> {16, 24} \<and> pc_out_pcm_width w \<in> {16, 24} \<and>
     0 < unat (pc_in_channels w) \<and> unat (pc_in_channels w) \<le> 8 \<and> 0 < unat (pc_out_channels w) \<and> unat (pc_out_channels w) \<le> 8 \<and>
     pc_insize w \<le> 1024 \<and>
     (pc_state w AND XA_PCM_FLAG_POSTINIT_DONE \<noteq> 0 \<longrightarrow>
        unat (pc_in_stride w) = unat (pc_in_channels w) * unat (pcm_bytes (pc_in_pcm_width w)) \<and>
        unat (pc_out_stride w) = unat (pc_out_channels w) * unat (pcm_bytes (pc_out_pcm_width w))) \<and>
     (pc_state w AND XA_PCM_FLAG_RUNNING \<noteq> 0 \<longrightarrow> pc_process w = Some (pcm_choice w))"

inductive pcm_plugin_reach :: "XAPcmCodec \<Rightarrow> bool" where
  preinit: "xa_pcm_codec u a XA_API_CMD_INIT XA_CMD_TYPE_INIT_API_PRE_CONFIG_PARAMS pv d w = (d', w', v, e) \<Longrightarrow> a \<noteq> 0 \<Longrightarrow>
     pcm_plugin_reach w'"
| command: "pcm_plugin_reach w \<Longrightarrow> xa_pcm_codec u a cmd i pv d w = (d', w', v, e) \<Longrightarrow> pcm_plugin_reach w'"

abbreviation pcm_default :: XAPcmCodec where
  "pcm_default \<equiv> xa_pcm_zero\<lparr>pc_in_pcm_width := 16, pc_out_pcm_width := 16, pc_in_channels := 2, pc_out_channels := 2,
     pc_chan_routing := push_bit 0 0 OR push_bit 1 1, pc_sample_rate := 48000, pc_state := XA_PCM_FLAG_PREINIT_DONE\<rparr>"

lemma pcm_plugin_preinit: "pcm_plugin_ok pcm_default"
  by (simp add: pcm_plugin_ok_def xa_pcm_zero_def pcm_flag_defs)

text \<open>States by their stage bits.\<close>

lemma pcm_stages:
  assumes "st AND 7 \<in> {1, 3, 7 :: u32}"
  shows "st AND 1 \<noteq> 0" and "st AND 4 \<noteq> 0 \<Longrightarrow> st AND 2 \<noteq> 0" and "(st OR 2) AND 7 \<in> {1, 3, 7}" and "(st OR 2) AND 4 = st AND 4"
    and "(st OR 8) AND 7 = st AND 7" and "(st XOR 24) AND 7 = st AND 7" and "k \<in> {1, 2, 4} \<Longrightarrow> (st OR 8) AND k = st AND k"
    and "k \<in> {1, 2, 4} \<Longrightarrow> (st XOR 24) AND k = st AND k"
proof -
  have b: "st AND 1 = (st AND 7) AND 1" "st AND 2 = (st AND 7) AND 2" "st AND 4 = (st AND 7) AND 4" by (simp_all add: and.assoc)
  show "st AND 1 \<noteq> 0" "st AND 4 \<noteq> 0 \<Longrightarrow> st AND 2 \<noteq> 0" using assms unfolding b by auto
  have "(st OR 2) AND 7 = (st AND 7) OR 2" by (simp add: bit.conj_disj_distrib2)
  then show "(st OR 2) AND 7 \<in> {1, 3, 7}" using assms by auto
  show "(st OR 2) AND 4 = st AND 4" "(st OR 8) AND 7 = st AND 7" by (simp_all add: bit.conj_disj_distrib2)
  show "(st XOR 24) AND 7 = st AND 7" by (simp add: bit.conj_xor_distrib2)
  show "k \<in> {1, 2, 4} \<Longrightarrow> (st OR 8) AND k = st AND k" by (auto simp: bit.conj_disj_distrib2)
  show "k \<in> {1, 2, 4} \<Longrightarrow> (st XOR 24) AND k = st AND k" by (auto simp: bit.conj_xor_distrib2)
qed

lemma pcm_stage_out:
  fixes st :: u32
  assumes "st AND NOT 31 = 0" and "k AND NOT 31 = 0"
  shows "(st OR k) AND NOT 31 = 0" and "(st XOR k) AND NOT 31 = 0"
  using assms by (simp_all add: bit.conj_disj_distrib2 bit.conj_xor_distrib2)

text \<open>Changes of a well-formed state.\<close>

lemma pcm_plugin_upd:
  assumes "pcm_plugin_ok w"
  shows "pcm_plugin_ok (w\<lparr>pc_sample_rate := x\<rparr>)" "pcm_plugin_ok (w\<lparr>pc_input := b\<rparr>)" "pcm_plugin_ok (w\<lparr>pc_output := b\<rparr>)"
    "pcm_plugin_ok (w\<lparr>pc_consumed := m, pc_produced := n, pc_insize := 0\<rparr>)" "x \<le> 1024 \<Longrightarrow> pcm_plugin_ok (w\<lparr>pc_insize := x\<rparr>)"
  using assms by (simp_all add: pcm_plugin_ok_def pcm_choice_def)

lemma pcm_plugin_config:
  assumes "pcm_plugin_ok w" and "pc_state w = XA_PCM_FLAG_PREINIT_DONE"
  shows "wd \<in> {16, 24} \<Longrightarrow> pcm_plugin_ok (w\<lparr>pc_in_pcm_width := wd\<rparr>)" "wd \<in> {16, 24} \<Longrightarrow> pcm_plugin_ok (w\<lparr>pc_out_pcm_width := wd\<rparr>)"
    "0 < unat ch \<Longrightarrow> unat ch \<le> 8 \<Longrightarrow> pcm_plugin_ok (w\<lparr>pc_in_channels := ch\<rparr>)"
    "0 < unat ch \<Longrightarrow> unat ch \<le> 8 \<Longrightarrow> pcm_plugin_ok (w\<lparr>pc_out_channels := ch\<rparr>)"
    "pcm_plugin_ok (w\<lparr>pc_chan_routing := r\<rparr>)"
  using assms by (simp_all add: pcm_plugin_ok_def pcm_flag_defs)

lemma pcm_small_channels:
  assumes "0 <s v" and "v \<le>s (8 :: u32)"
  shows "0 < unat (ucast v :: u8) \<and> unat (ucast v :: u8) \<le> 8"
proof -
  have s: "0 < sint v" "sint v \<le> 8" using assms by (simp_all add: word_sless_alt word_sle_eq)
  have "uint v = take_bit 32 (sint v)" by (simp add: uint_sint)
  then have u: "uint v = sint v" using s by (simp add: take_bit_int_eq_self)
  have "unat v = nat (sint v)" by (simp add: unat_eq_nat_uint u)
  then have "0 < unat v" "unat v \<le> 8" using s by simp_all
  then show ?thesis by (simp add: unsigned_ucast_eq take_bit_nat_eq_self)
qed

lemma pcm_stride:
  assumes "unat (ch :: u8) \<le> 8"
  shows "unat (ucast (ucast ch * pcm_bytes wd :: u32) :: u8) = unat ch * unat (pcm_bytes wd)"
  using assms by (simp add: pcm_bytes_def unsigned_ucast_eq unat_word_ariths take_bit_nat_eq_self take_bit_nat_eq_self_iff)

lemma pcm_plugin_stage:
  assumes ok: "pcm_plugin_ok w"
  shows "pcm_plugin_ok (w\<lparr>pc_in_stride := ucast (ucast (pc_in_channels w) * pcm_bytes (pc_in_pcm_width w)),
        pc_out_stride := ucast (ucast (pc_out_channels w) * pcm_bytes (pc_out_pcm_width w)),
        pc_state := pc_state w OR XA_PCM_FLAG_POSTINIT_DONE\<rparr>)"
    and "pc_state w AND XA_PCM_FLAG_POSTINIT_DONE \<noteq> 0 \<Longrightarrow> pcm_plugin_ok (fst (snd (xa_pcm_do_runtime_init u d w)))"
    and "pcm_plugin_ok (w\<lparr>pc_state := pc_state w OR XA_PCM_FLAG_EOS\<rparr>)"
    and "pcm_plugin_ok (w\<lparr>pc_state := pc_state w XOR (XA_PCM_FLAG_EOS OR XA_PCM_FLAG_COMPLETE)\<rparr>)"
proof -
  have st: "pc_state w AND NOT 31 = 0" "pc_state w AND 7 \<in> {1, 3, 7}" and ch: "unat (pc_in_channels w) \<le> 8" "unat (pc_out_channels w) \<le> 8"
    using ok by (auto simp: pcm_plugin_ok_def)
  note g = pcm_stages [OF st(2)] and o = pcm_stage_out [OF st(1)]
  have c: "pcm_choice (w\<lparr>pc_in_stride := x, pc_out_stride := y, pc_state := z\<rparr>) = pcm_choice w"
    "pcm_choice (w\<lparr>pc_state := z\<rparr>) = pcm_choice w" "pcm_choice (w\<lparr>pc_process := q, pc_state := z\<rparr>) = pcm_choice w" for x y z q
    by (simp_all add: pcm_choice_def)
  show "pcm_plugin_ok (w\<lparr>pc_in_stride := ucast (ucast (pc_in_channels w) * pcm_bytes (pc_in_pcm_width w)),
        pc_out_stride := ucast (ucast (pc_out_channels w) * pcm_bytes (pc_out_pcm_width w)),
        pc_state := pc_state w OR XA_PCM_FLAG_POSTINIT_DONE\<rparr>)"
    using ok g(3,4) o(1) [of 2] pcm_stride [OF ch(1)] pcm_stride [OF ch(2)] c(1)
    by (simp add: pcm_plugin_ok_def pcm_flag_defs)
  show "pc_state w AND XA_PCM_FLAG_POSTINIT_DONE \<noteq> 0 \<Longrightarrow> pcm_plugin_ok (fst (snd (xa_pcm_do_runtime_init u d w)))"
    using ok c(3) by (simp add: xa_pcm_do_runtime_init_def pcm_plugin_ok_def pcm_flag_defs) (simp add: pcm_choice_def)
  show "pcm_plugin_ok (w\<lparr>pc_state := pc_state w OR XA_PCM_FLAG_EOS\<rparr>)"
    using ok g(5,7) o(1) [of 8] c(2) by (simp add: pcm_plugin_ok_def pcm_flag_defs)
  show "pcm_plugin_ok (w\<lparr>pc_state := pc_state w XOR (XA_PCM_FLAG_EOS OR XA_PCM_FLAG_COMPLETE)\<rparr>)"
    using ok g(6,8) o(2) [of 24] c(2) by (simp add: pcm_plugin_ok_def pcm_flag_defs)
qed

lemma pcm_process_state:
  "fst (snd (pcm_process_call f u d w)) =
     (if pc_input w \<noteq> 0 \<and> pc_insize w \<noteq> 0 \<and> pc_output w \<noteq> 0
      then w\<lparr>pc_consumed := pc_insize w * ucast (pc_in_channels w) * (if f \<in> {Pcm_Copy, Pcm16_Chmap} then pcm_bytes (pc_in_pcm_width w) else if f = Pcm16_To_Pcm24 then 2 else 4),
             pc_produced := pc_insize w * ucast (pc_in_channels w) * (if f \<in> {Pcm_Copy, Pcm16_Chmap} then pcm_bytes (pc_in_pcm_width w) else if f = Pcm24_To_Pcm16 then 2 else 4),
             pc_insize := 0\<rparr> else w)"
  by (cases f) (simp_all add: xa_pcm_do_execute_copy_def xa_pcm_do_execute_pcm16_chmap_def xa_pcm_do_execute_pcm24_chmap_def
      xa_pcm_do_execute_pcm24_to_pcm16_def xa_pcm_do_execute_pcm16_to_pcm24_def pcm_loop_def pcm_run_def Let_def mult_ac)

lemma pcm_plugin_process: "pcm_plugin_ok w \<Longrightarrow> pcm_plugin_ok (fst (snd (pcm_process_call f u d w)))"
  by (simp add: pcm_process_state pcm_plugin_upd)

lemma pcm_plugin_handlers:
  assumes ok: "pcm_plugin_ok w"
  shows "pcm_plugin_ok (fst (snd (xa_pcm_init u a i pv d w)))"
    and "pcm_plugin_ok (fst (snd (xa_pcm_set_config_param u a i pv d w)))"
    and "pcm_plugin_ok (fst (snd (xa_pcm_execute u a i pv d w)))"
    and "pcm_plugin_ok (fst (snd (xa_pcm_set_input_bytes u a i pv d w)))"
    and "pcm_plugin_ok (fst (snd (xa_pcm_input_over u a i pv d w)))"
    and "pcm_plugin_ok (fst (snd (xa_pcm_set_mem_ptr u a i pv d w)))"
proof -
  show "pcm_plugin_ok (fst (snd (xa_pcm_init u a i pv d w)))"
    using ok pcm_plugin_preinit pcm_plugin_stage [OF ok] by (simp add: xa_pcm_init_def)
  show "pcm_plugin_ok (fst (snd (xa_pcm_set_config_param u a i pv d w)))"
    using ok pcm_plugin_upd(1) [OF ok] pcm_plugin_config [OF ok] pcm_small_channels by (auto simp: xa_pcm_set_config_param_def Let_def)
  show "pcm_plugin_ok (fst (snd (xa_pcm_execute u a i pv d w)))"
  proof -
    have eos: "pcm_plugin_ok (if pc_state v AND XA_PCM_FLAG_EOS \<noteq> 0 then v\<lparr>pc_state := pc_state v XOR (XA_PCM_FLAG_EOS OR XA_PCM_FLAG_COMPLETE)\<rparr> else v)"
      if "pcm_plugin_ok v" for v using pcm_plugin_stage(4) [OF that] that by simp
    obtain d1 w1 v1 e1 where r: "(case pc_process w of None \<Rightarrow> xp_ret XA_PCM_EXEC_FATAL_STATE u d w | Some f \<Rightarrow> pcm_process_call f u d w) = (d1, w1, v1, e1)"
      by (rule prod_cases4)
    then have 1: "pcm_plugin_ok w1" using pcm_plugin_process [OF ok] ok
      by (cases "pc_process w") (auto simp: xp_ret_def, metis fst_conv snd_conv)
    have "pc_state w AND XA_PCM_FLAG_RUNNING \<noteq> 0 \<Longrightarrow> pc_state w AND XA_PCM_FLAG_POSTINIT_DONE \<noteq> 0"
      using ok pcm_stages(2) [of "pc_state w"] by (simp add: pcm_plugin_ok_def pcm_flag_defs)
    then show ?thesis using ok eos [OF ok] eos [OF 1] 1 pcm_plugin_stage(2) [OF ok] unfolding xa_pcm_execute_def r Let_def by simp
  qed
  show "pcm_plugin_ok (fst (snd (xa_pcm_set_input_bytes u a i pv d w)))"
    using ok pcm_plugin_upd(5) [OF ok] by (simp add: xa_pcm_set_input_bytes_def Let_def XA_PCM_MAX_SAMPLES_def)
  show "pcm_plugin_ok (fst (snd (xa_pcm_input_over u a i pv d w)))"
    using ok pcm_plugin_stage(3) [OF ok] by (simp add: xa_pcm_input_over_def)
  show "pcm_plugin_ok (fst (snd (xa_pcm_set_mem_ptr u a i pv d w)))"
    using ok pcm_plugin_upd [OF ok] by (simp add: xa_pcm_set_mem_ptr_def)
qed

lemma pcm_plugin_queries:
  "fst (snd (xa_pcm_get_api_size u a i pv d w)) = w" "fst (snd (xa_pcm_get_config_param u a i pv d w)) = w"
  "fst (snd (xa_pcm_get_output_bytes u a i pv d w)) = w" "fst (snd (xa_pcm_get_curidx_input_buf u a i pv d w)) = w"
  "fst (snd (xa_pcm_get_memtabs_size u a i pv d w)) = w" "fst (snd (xa_pcm_get_n_memtabs u a i pv d w)) = w"
  "fst (snd (xa_pcm_get_mem_info_type u a i pv d w)) = w" "fst (snd (xa_pcm_get_mem_info_size u a i pv d w)) = w"
  "fst (snd (xa_pcm_get_mem_info_alignment u a i pv d w)) = w"
  by (simp_all add: xa_pcm_get_api_size_def xa_pcm_get_config_param_def xa_pcm_get_output_bytes_def xa_pcm_get_curidx_input_buf_def
      xa_pcm_get_memtabs_size_def xa_pcm_get_n_memtabs_def xa_pcm_get_mem_info_type_def xa_pcm_get_mem_info_size_def
      xa_pcm_get_mem_info_alignment_def)

lemma pcm_plugin_command:
  assumes ok: "pcm_plugin_ok w"
  shows "pcm_plugin_ok (fst (snd (xa_pcm_codec u a cmd i pv d w)))"
proof -
  have "pcm_plugin_ok (fst (snd (case xa_pcm_api cmd of None \<Rightarrow> xp_ret XA_API_FATAL_INVALID_CMD u d w | Some f \<Rightarrow> f u a i pv d w)))"
    using ok pcm_plugin_handlers [OF ok] by (simp add: xa_pcm_api_def pcm_plugin_queries)
  then show ?thesis using ok by (simp add: xa_pcm_codec_def)
qed

lemma pcm_plugin_reach_ok: "pcm_plugin_reach w \<Longrightarrow> pcm_plugin_ok w"
proof (induction rule: pcm_plugin_reach.induct)
  case (preinit u a pv d w d' w' v e)
  then have "w' = pcm_default"
    by (auto simp: xa_pcm_codec_def xp_chk_def xa_pcm_api_def XA_PCM_API_COMMANDS_NUM_def XA_API_CMD_INIT_def
        XA_API_CMD_GET_API_SIZE_def xa_pcm_init_def xp_ret_def)
  then show ?case using pcm_plugin_preinit by simp
next
  case (command w u a cmd i pv d d' w' v e)
  then show ?case using pcm_plugin_command [OF command.IH, of u a cmd i pv d] by simp
qed

section \<open>The conversion loops\<close>

text \<open>Four bits of the routing map: the input channel of output channel c.\<close>

definition nibble :: "nat \<Rightarrow> u32 \<Rightarrow> u32" where
  "nibble c chmap = drop_bit (4 * c) chmap AND 0xF"

lemma nibble_simps: "nibble 0 chmap = chmap AND 0xF" "nibble c (drop_bit 4 chmap) = nibble (Suc c) chmap"
  by (simp_all add: nibble_def drop_bit_drop_bit add.commute)

text \<open>What the loops need to know of the conversion of a channel: it stores one value of wo bytes, computed
  from the eight channels of wi bytes at the input that four bits can address.\<close>

locale pcm_conv =
  fixes wi wo :: nat
    and cv :: "addr \<Rightarrow> u32 \<Rightarrow> addr \<Rightarrow> (addr \<Rightarrow> u8) \<Rightarrow> addr \<Rightarrow> u8"
    and val :: "(addr \<Rightarrow> u8) \<Rightarrow> addr \<Rightarrow> u32 \<Rightarrow> int"
    and load :: "(addr \<Rightarrow> u8) \<Rightarrow> addr \<Rightarrow> int"
  assumes load_cv: "load (cv input m out d) out = val d input m"
    and frame_cv: "x \<notin> area out wo \<Longrightarrow> cv input m out d x = d x"
    and load_cong: "(\<And>x. x \<in> area out wo \<Longrightarrow> d x = d' x) \<Longrightarrow> load d out = load d' out"
    and val_cong: "(\<And>x. x \<in> area input (8 * wi) \<Longrightarrow> d x = d' x) \<Longrightarrow> val d input m = val d' input m"
begin

lemma channels_spec:
  assumes "wo * j < 2 ^ 32" and "area input (8 * wi) \<inter> area out (wo * j) = {}"
  shows "(\<forall>c<j. load (pcm_channels cv (of_nat wo) j chmap input out d) (out + of_nat (wo * c)) = val d input (nibble c chmap)) \<and>
    (\<forall>x. x \<notin> area out (wo * j) \<longrightarrow> pcm_channels cv (of_nat wo) j chmap input out d x = d x)"
  using assms
proof (induction j arbitrary: chmap out d)
  case (Suc j)
  let ?out = "out + of_nat wo" and ?map = "drop_bit 4 chmap"
  define d1 where "d1 = cv input (chmap AND 0xF) out d"
  define d2 where "d2 = pcm_channels cv (of_nat wo) j ?map input ?out d1"
  have E: "pcm_channels cv (of_nat wo) (Suc j) chmap input out d = d2" by (simp add: d1_def d2_def)
  have sub: "area ?out (wo * j) \<subseteq> area out (wo * Suc j)" "area out wo \<subseteq> area out (wo * Suc j)"
    using area_sub [of wo "wo * j" "wo * Suc j" out] area_mono [of wo "wo * Suc j" out] by simp_all
  have IH: "\<forall>c<j. load d2 (?out + of_nat (wo * c)) = val d1 input (nibble c ?map)" "\<forall>x. x \<notin> area ?out (wo * j) \<longrightarrow> d2 x = d1 x"
    using Suc.IH [of ?out ?map d1] Suc.prems sub(1) unfolding d2_def by auto
  have v1: "val d1 input m = val d input m" for m
    by (rule val_cong) (use Suc.prems(2) sub(2) in \<open>auto simp: d1_def intro: frame_cv\<close>)
  have apart: "area out wo \<inter> area ?out (wo * j) = {}"
  proof -
    have "out + of_nat a \<noteq> ?out + of_nat b" if "a < wo" "b < wo * j" for a b
    proof
      assume "out + of_nat a = ?out + of_nat b"
      then have "(of_nat a :: addr) = of_nat (wo + b)" by simp
      moreover have "(of_nat a :: addr) = of_nat (wo + b) \<longleftrightarrow> a = wo + b"
        by (rule of_nat_u32_eq) (use that Suc.prems(1) in \<open>simp_all\<close>)
      ultimately show False using that by simp
    qed
    then show ?thesis by (auto simp: area_def)
  qed
  have "load d2 (out + of_nat (wo * c)) = val d input (nibble c chmap)" if c: "c < Suc j" for c
  proof (cases c)
    case 0
    have "load d2 out = load d1 out" by (rule load_cong) (use IH(2) apart in blast)
    then show ?thesis using 0 by (simp add: d1_def load_cv nibble_simps)
  next
    case (Suc b)
    then have "load d2 (?out + of_nat (wo * b)) = val d input (nibble b ?map)" using IH(1) c v1 by simp
    moreover have "?out + of_nat (wo * b) = out + of_nat (wo * c)" by (simp add: Suc add_ac distrib_left)
    ultimately show ?thesis by (simp only: nibble_simps Suc)
  qed
  moreover have "d2 x = d x" if "x \<notin> area out (wo * Suc j)" for x
  proof -
    have "x \<notin> area ?out (wo * j)" "x \<notin> area out wo" using that sub by blast+
    then show ?thesis using IH(2) frame_cv by (simp add: d1_def)
  qed
  ultimately show ?case unfolding E by blast
qed simp

lemma frames_spec:
  assumes "wo * k * n < 2 ^ 32" and "area input (wi * k * n + 8 * wi) \<inter> area out (wo * k * n) = {}"
  shows "(\<forall>f<n. \<forall>c<k. load (pcm_frames cv (of_nat wi) (of_nat wo) k n chmap input out d) (out + of_nat (wo * (k * f + c))) =
        val d (input + of_nat (wi * k * f)) (nibble c chmap)) \<and>
    (\<forall>x. x \<notin> area out (wo * k * n) \<longrightarrow> pcm_frames cv (of_nat wi) (of_nat wo) k n chmap input out d x = d x)"
  using assms
proof (induction n arbitrary: input out d)
  case (Suc n)
  let ?out = "out + of_nat (wo * k)" and ?in = "input + of_nat (wi * k)"
  define d1 where "d1 = pcm_channels cv (of_nat wo) k chmap input out d"
  define d2 where "d2 = pcm_frames cv (of_nat wi) (of_nat wo) k n chmap ?in ?out d1"
  have E: "pcm_frames cv (of_nat wi) (of_nat wo) k (Suc n) chmap input out d = d2" by (simp add: d1_def d2_def)
  have sub: "area ?out (wo * k * n) \<subseteq> area out (wo * k * Suc n)" "area out (wo * k) \<subseteq> area out (wo * k * Suc n)"
    "area ?in (wi * k * n + 8 * wi) \<subseteq> area input (wi * k * Suc n + 8 * wi)" "area input (8 * wi) \<subseteq> area input (wi * k * Suc n + 8 * wi)"
    using area_sub [of "wo * k" "wo * k * n" "wo * k * Suc n" out] area_mono [of "wo * k" "wo * k * Suc n" out]
      area_sub [of "wi * k" "wi * k * n + 8 * wi" "wi * k * Suc n + 8 * wi" input] area_mono [of "8 * wi" "wi * k * Suc n + 8 * wi" input]
    by simp_all
  have 1: "\<forall>c<k. load d1 (out + of_nat (wo * c)) = val d input (nibble c chmap)" "\<And>x. x \<notin> area out (wo * k) \<Longrightarrow> d1 x = d x"
  proof -
    have "area input (8 * wi) \<inter> area out (wo * k) = {}" using Suc.prems(2) sub(2,4) by blast
    moreover have "wo * k < 2 ^ 32" using Suc.prems(1) by simp
    ultimately show "\<forall>c<k. load d1 (out + of_nat (wo * c)) = val d input (nibble c chmap)" "\<And>x. x \<notin> area out (wo * k) \<Longrightarrow> d1 x = d x"
      using channels_spec [of k input out chmap d] unfolding d1_def by blast+
  qed
  have IH: "\<forall>f<n. \<forall>c<k. load d2 (?out + of_nat (wo * (k * f + c))) = val d1 (?in + of_nat (wi * k * f)) (nibble c chmap)"
    "\<And>x. x \<notin> area ?out (wo * k * n) \<Longrightarrow> d2 x = d1 x"
  proof -
    have "area ?in (wi * k * n + 8 * wi) \<inter> area ?out (wo * k * n) = {}" using Suc.prems(2) sub(1,3) by blast
    moreover have "wo * k * n < 2 ^ 32" using Suc.prems(1) by simp
    ultimately show "\<forall>f<n. \<forall>c<k. load d2 (?out + of_nat (wo * (k * f + c))) = val d1 (?in + of_nat (wi * k * f)) (nibble c chmap)"
      "\<And>x. x \<notin> area ?out (wo * k * n) \<Longrightarrow> d2 x = d1 x"
      using Suc.IH [of ?in ?out d1] unfolding d2_def by blast+
  qed
  have v1: "val d1 (?in + of_nat (wi * k * f)) m = val d (?in + of_nat (wi * k * f)) m" if "f < n" for f m
  proof (rule val_cong)
    fix x assume x: "x \<in> area (?in + of_nat (wi * k * f)) (8 * wi)"
    have "wi * k * f + 8 * wi \<le> wi * k * n + 8 * wi" using that by simp
    then have "x \<in> area ?in (wi * k * n + 8 * wi)" using area_sub x by blast
    then have "x \<notin> area out (wo * k)" using sub Suc.prems(2) by blast
    then show "d1 x = d x" by (rule 1(2))
  qed
  have apart: "area (out + of_nat (wo * c)) wo \<inter> area ?out (wo * k * n) = {}" if c: "c < k" for c
  proof -
    have "out + of_nat (wo * c) + of_nat a \<noteq> ?out + of_nat b" if ab: "a < wo" "b < wo * k * n" for a b
    proof
      assume "out + of_nat (wo * c) + of_nat a = ?out + of_nat b"
      then have "(of_nat (wo * c + a) :: addr) = of_nat (wo * k + b)" by (simp add: add.assoc)
      moreover have ca: "wo * c + a < wo * k"
      proof -
        have "wo * c + a < wo * Suc c" using ab by simp
        also have "\<dots> \<le> wo * k" using c by (intro mult_le_mono2) simp
        finally show ?thesis .
      qed
      moreover have "(of_nat (wo * c + a) :: addr) = of_nat (wo * k + b) \<longleftrightarrow> wo * c + a = wo * k + b"
        by (rule of_nat_u32_eq) (use ca ab Suc.prems(1) in simp_all)
      ultimately show False by simp
    qed
    then show ?thesis by (auto simp: area_def)
  qed
  have "load d2 (out + of_nat (wo * (k * f + c))) = val d (input + of_nat (wi * k * f)) (nibble c chmap)"
    if fc: "f < Suc n" "c < k" for f c
  proof (cases f)
    case 0
    have "load d2 (out + of_nat (wo * c)) = load d1 (out + of_nat (wo * c))"
      by (rule load_cong) (use IH(2) apart [OF fc(2)] in blast)
    then show ?thesis using 0 1(1) fc(2) by simp
  next
    case (Suc g)
    then have "load d2 (?out + of_nat (wo * (k * g + c))) = val d (?in + of_nat (wi * k * g)) (nibble c chmap)"
      using IH(1) fc v1 [of g] by simp
    moreover have "?out + of_nat (wo * (k * g + c)) = out + of_nat (wo * (k * f + c))" by (simp add: Suc algebra_simps)
    moreover have "?in + of_nat (wi * k * g) = input + of_nat (wi * k * f)" by (simp add: Suc algebra_simps)
    ultimately show ?thesis by metis
  qed
  moreover have "d2 x = d x" if "x \<notin> area out (wo * k * Suc n)" for x
  proof -
    have "x \<notin> area ?out (wo * k * n)" "x \<notin> area out (wo * k)" using that sub by blast+
    then show ?thesis using IH(2) 1(2) by simp
  qed
  ultimately show ?case unfolding E by blast
qed simp

end

section \<open>The conversions\<close>

text \<open>A sample as a number, by its width, and what becomes of it.\<close>

definition pcm_load :: "u8 \<Rightarrow> (addr \<Rightarrow> u8) \<Rightarrow> addr \<Rightarrow> int" where
  "pcm_load width d a = (if width = 16 then sint (mem_read16 d a) else sint (mem_read32 d a))"

definition pcm_convert :: "u8 \<Rightarrow> u8 \<Rightarrow> int \<Rightarrow> int" where
  "pcm_convert wi wo x = (if wi = wo then x else if wi = 16 then x * 65536 else x div 65536)"

definition pcm_val :: "u8 \<Rightarrow> u8 \<Rightarrow> (addr \<Rightarrow> u8) \<Rightarrow> addr \<Rightarrow> u32 \<Rightarrow> int" where
  "pcm_val wi wo d input m = (if m < 8 then pcm_convert wi wo (pcm_load wi d (input + pcm_bytes wi * m)) else 0)"

lemma narrow_sample: "sint (ucast (signed_drop_bit 16 (x :: u32)) :: u16) = sint x div 65536"
proof -
  have e: "(ucast (signed_drop_bit 16 x) :: u16) = word_of_int (sint (signed_drop_bit 16 x))"
    by (rule bit_word_eqI) (auto simp: bit_simps)
  have s: "sint (signed_drop_bit 16 x) = sint x div 65536" by (simp add: sint_signed_drop_bit_eq drop_bit_eq_div)
  have "- 32768 \<le> sint x div 65536" using zdiv_mono1 [OF sint_lower_u32 [of x], of 65536] by simp
  moreover have "sint x div 65536 < 32768" using zdiv_mono1 [of "sint x" 2147483647 65536] sint_upper_u32 [of x] by simp
  ultimately show ?thesis unfolding e s by (intro sint_of_int_u16) simp_all
qed

lemma widen_sample: "sint (push_bit 16 (scast (x :: u16)) :: u32) = sint x * 65536"
proof -
  have lo: "- (2 ^ 31) \<le> sint x * 65536" using sint_lower_u16 [of x] by simp
  have hi: "sint x * 65536 < 2 ^ 31" using sint_upper_u16 [of x] by simp
  have "(push_bit 16 (scast x) :: u32) = word_of_int (sint x * 65536)" by (simp add: push_bit_eq_mult)
  then show ?thesis using sint_of_int_u32 [OF lo hi] by simp
qed

lemma mem_write32_out: "x \<notin> area a 4 \<Longrightarrow> mem_write32 d a v x = d x"
proof -
  assume x: "x \<notin> area a 4"
  have "a + of_nat i \<in> area a 4" if "i < 4" for i using that unfolding area_def by blast
  from this [of 0] this [of 1] this [of 2] this [of 3] have "x \<noteq> a" "x \<noteq> a + 1" "x \<noteq> a + 2" "x \<noteq> a + 3" using x by auto
  then show ?thesis by (simp add: mem_write32_def)
qed

lemma pcm_load_cong:
  assumes "\<And>x. x \<in> area a (unat (pcm_bytes w)) \<Longrightarrow> d x = d' x"
  shows "pcm_load w d a = pcm_load w d' a"
proof -
  have i: "d (a + of_nat i) = d' (a + of_nat i)" if "i < unat (pcm_bytes w)" for i
    using that by (intro assms) (auto simp: area_def)
  show ?thesis
  proof (cases "w = 16")
    case True
    then have "mem_read16 d a = mem_read16 d' a" using i [of 0] i [of 1] by (intro mem_read16_cong) (simp_all add: pcm_bytes_def)
    then show ?thesis by (simp add: pcm_load_def True)
  next
    case False
    then have "mem_read32 d a = mem_read32 d' a" using i by (intro mem_read32_cong) (simp add: pcm_bytes_def)
    then show ?thesis by (simp add: pcm_load_def False)
  qed
qed

lemma pcm_val_cong:
  assumes "\<And>x. x \<in> area input (8 * unat (pcm_bytes wi)) \<Longrightarrow> d x = d' x"
  shows "pcm_val wi wo d input m = pcm_val wi wo d' input m"
proof (cases "m < 8")
  case True
  have a: "pcm_bytes wi * m = of_nat (unat (pcm_bytes wi) * unat m)" by simp
  have "unat (pcm_bytes wi) * unat m + unat (pcm_bytes wi) = unat (pcm_bytes wi) * Suc (unat m)" by simp
  also have "\<dots> \<le> unat (pcm_bytes wi) * 8" using True by (intro mult_le_mono2) (simp add: word_less_nat_alt)
  finally have "area (input + pcm_bytes wi * m) (unat (pcm_bytes wi)) \<subseteq> area input (8 * unat (pcm_bytes wi))"
    unfolding a by (intro area_sub) simp
  then have "pcm_load wi d (input + pcm_bytes wi * m) = pcm_load wi d' (input + pcm_bytes wi * m)"
    by (intro pcm_load_cong assms) blast
  then show ?thesis by (simp add: pcm_val_def)
qed (simp add: pcm_val_def)

lemma pcm_convI:
  assumes "\<And>input m out d. pcm_load ow (cv input m out d) out = pcm_val iw ow d input m"
    and "\<And>input m out d x. x \<notin> area out wo \<Longrightarrow> cv input m out d x = d x" and "unat (pcm_bytes iw) = wi" and "unat (pcm_bytes ow) = wo"
  shows "pcm_conv wi wo cv (pcm_val iw ow) (pcm_load ow)"
proof
  show "pcm_load ow d out = pcm_load ow d' out" if "\<And>x. x \<in> area out wo \<Longrightarrow> d x = d' x" for d d' out
    using that unfolding assms(4) [symmetric] by (rule pcm_load_cong)
  show "pcm_val iw ow d input m = pcm_val iw ow d' input m" if "\<And>x. x \<in> area input (8 * wi) \<Longrightarrow> d x = d' x" for d d' input m
    using that unfolding assms(3) [symmetric] by (rule pcm_val_cong)
qed (use assms(1,2) in blast)+

interpretation pcm24: pcm_conv 4 4 "\<lambda>input m output d. mem_write32 d output (if m < 8 then mem_read32 d (input + 4 * m) else 0)"
  "pcm_val 24 24" "pcm_load 24"
  by (rule pcm_convI) (simp_all add: mem_write32_read mem_write32_out pcm_load_def pcm_val_def pcm_convert_def pcm_bytes_def)

interpretation pcm24_16: pcm_conv 4 2
  "\<lambda>input m output d. mem_write16 d output (if m < 8 then ucast (signed_drop_bit 16 (mem_read32 d (input + 4 * m))) else 0)"
  "pcm_val 24 16" "pcm_load 16"
  by (rule pcm_convI)
    (simp_all add: mem_write16_read mem_write16_out pcm_load_def pcm_val_def pcm_convert_def pcm_bytes_def narrow_sample)

interpretation pcm16_24: pcm_conv 2 4
  "\<lambda>input m output d. mem_write32 d output (if m < 8 then push_bit 16 (scast (mem_read16 d (input + 2 * m))) else 0)"
  "pcm_val 16 24" "pcm_load 24"
  by (rule pcm_convI)
    (simp_all add: mem_write32_read mem_write32_out pcm_load_def pcm_val_def pcm_convert_def pcm_bytes_def widen_sample)

text \<open>The identity routing has channel c in its c-th place.\<close>

lemma identity_nibbles: "pcm_identity_from n j chmap \<Longrightarrow> c < n \<Longrightarrow> nibble c chmap = j + of_nat c"
proof (induction n arbitrary: j chmap c)
  case (Suc n)
  show ?case
  proof (cases c)
    case 0
    then show ?thesis using Suc.prems by (simp add: nibble_simps)
  next
    case (Suc b)
    then have "nibble b (drop_bit 4 chmap) = (j + 1) + of_nat b" using Suc.prems by (intro Suc.IH) simp_all
    then show ?thesis by (simp add: Suc nibble_simps(2) add.assoc)
  qed
qed simp

text \<open>The input channel that output channel c is taken from: the routing is not used for 16-bit samples.\<close>

definition pcm_source :: "XAPcmCodec \<Rightarrow> nat \<Rightarrow> u32" where
  "pcm_source w c = (if pc_in_pcm_width w = 16 \<and> pc_out_pcm_width w = 16 then of_nat c else nibble c (pc_chan_routing w))"

lemma mem_copy_load:
  assumes "area dst (unat l) \<inter> area src (unat l) = {}" and "i + unat (pcm_bytes w) \<le> unat l"
  shows "pcm_load w (mem_copy dst src l d) (dst + of_nat i) = pcm_load w d (src + of_nat i)"
proof -
  have "dst + of_nat a \<noteq> src + of_nat b" if "a < b" "b < unat l" for a b
    using assms(1) that less_trans [OF that] unfolding area_def by blast
  then have f: "\<And>i. i < unat l \<Longrightarrow> mem_copy dst src l d (dst + of_nat i) = d (src + of_nat i)" by (rule mem_copy_forward(1))
  have b: "mem_copy dst src l d (dst + of_nat i + of_nat j) = d (src + of_nat i + of_nat j)" if "i + j < unat l" for j
    using f [of "i + j"] that by (simp add: add.assoc)
  show ?thesis
  proof (cases "w = 16")
    case True
    then have "mem_read16 (mem_copy dst src l d) (dst + of_nat i) = mem_read16 d (src + of_nat i)"
      using b [of 0] b [of 1] assms(2) by (simp add: mem_read16_def pcm_bytes_def)
    then show ?thesis by (simp add: pcm_load_def True)
  next
    case False
    then have "mem_copy dst src l d (dst + of_nat i + of_nat j) = d (src + of_nat i + of_nat j)" if "j < 4" for j
      using b [of j] that assms(2) by (simp add: pcm_bytes_def)
    from this [of 0] this [of 1] this [of 2] this [of 3]
    have "mem_read32 (mem_copy dst src l d) (dst + of_nat i) = mem_read32 d (src + of_nat i)"
      by (simp add: mem_read32_def mem_read16_def add.assoc)
    then show ?thesis by (simp add: pcm_load_def False)
  qed
qed

lemma pcm_copy_spec:
  assumes l: "unat l = unat (pcm_bytes wd) * k * n" and apart: "area src (unat l) \<inter> area dst (unat l) = {}" and k: "k \<le> 8"
  shows "\<forall>f<n. \<forall>c<k. pcm_load wd (mem_copy dst src l d) (dst + of_nat (unat (pcm_bytes wd) * (k * f + c))) =
      pcm_val wd wd d (src + of_nat (unat (pcm_bytes wd) * k * f)) (of_nat c)"
    and "\<forall>x. x \<notin> area dst (unat l) \<longrightarrow> mem_copy dst src l d x = d x"
proof -
  have ap: "area dst (unat l) \<inter> area src (unat l) = {}" using apart by blast
  then show "\<forall>x. x \<notin> area dst (unat l) \<longrightarrow> mem_copy dst src l d x = d x" using mem_copy_apart(2) by blast
  have "pcm_load wd (mem_copy dst src l d) (dst + of_nat (unat (pcm_bytes wd) * (k * f + c))) =
      pcm_val wd wd d (src + of_nat (unat (pcm_bytes wd) * k * f)) (of_nat c)" if fc: "f < n" "c < k" for f c
  proof -
    have "k * f + c < k * Suc f" using fc by simp
    also have "\<dots> \<le> k * n" using fc by (intro mult_le_mono2) simp
    finally have "unat (pcm_bytes wd) * Suc (k * f + c) \<le> unat (pcm_bytes wd) * (k * n)" by (intro mult_le_mono2) simp
    then have "unat (pcm_bytes wd) * (k * f + c) + unat (pcm_bytes wd) \<le> unat l" by (simp add: l mult.assoc)
    then have "pcm_load wd (mem_copy dst src l d) (dst + of_nat (unat (pcm_bytes wd) * (k * f + c))) =
        pcm_load wd d (src + of_nat (unat (pcm_bytes wd) * (k * f + c)))" by (rule mem_copy_load [OF ap])
    moreover have "(of_nat c :: u32) < 8" using fc k by (simp add: word_less_nat_alt unat_of_nat_u32)
    moreover have "src + of_nat (unat (pcm_bytes wd) * (k * f + c)) = src + of_nat (unat (pcm_bytes wd) * k * f) + pcm_bytes wd * of_nat c"
      by (simp add: distrib_left add.assoc mult.assoc)
    ultimately show ?thesis unfolding pcm_val_def pcm_convert_def by (simp add: add.assoc)
  qed
  then show "\<forall>f<n. \<forall>c<k. pcm_load wd (mem_copy dst src l d) (dst + of_nat (unat (pcm_bytes wd) * (k * f + c))) =
      pcm_val wd wd d (src + of_nat (unat (pcm_bytes wd) * k * f)) (of_nat c)" by blast
qed

text \<open>What the chosen processing function does.\<close>

definition pcm_done :: "XAPcmCodec \<Rightarrow> XAPcmCodec" where
  "pcm_done w =
     w\<lparr>pc_consumed := pc_insize w * ucast (pc_in_channels w) * pcm_bytes (pc_in_pcm_width w),
       pc_produced := pc_insize w * ucast (pc_in_channels w) * pcm_bytes (pc_out_pcm_width w), pc_insize := 0\<rparr>"

definition pcm_mapped :: "XAPcmCodec \<Rightarrow> (addr \<Rightarrow> u8) \<Rightarrow> (addr \<Rightarrow> u8) \<Rightarrow> bool" where
  "pcm_mapped w d d' \<longleftrightarrow>
     (let n = unat (pc_insize w); k = unat (pc_in_channels w); wi = unat (pcm_bytes (pc_in_pcm_width w));
          wo = unat (pcm_bytes (pc_out_pcm_width w)) in
      (\<forall>f<n. \<forall>c<k. pcm_load (pc_out_pcm_width w) d' (pc_output w + of_nat (wo * (k * f + c))) =
         pcm_val (pc_in_pcm_width w) (pc_out_pcm_width w) d (pc_input w + of_nat (wi * k * f)) (pcm_source w c)) \<and>
      (\<forall>x. x \<notin> area (pc_output w) (wo * k * n) \<longrightarrow> d' x = d x))"

text \<open>The input, with the eight channels that the routing can reach behind its last sample, lies apart from
  the output.\<close>

definition pcm_apart :: "XAPcmCodec \<Rightarrow> bool" where
  "pcm_apart w \<longleftrightarrow>
     (let n = unat (pc_insize w); k = unat (pc_in_channels w); wi = unat (pcm_bytes (pc_in_pcm_width w));
          wo = unat (pcm_bytes (pc_out_pcm_width w)) in
      area (pc_input w) (wi * k * n + 8 * wi) \<inter> area (pc_output w) (wo * k * n) = {})"

lemma pcm_length:
  assumes "n \<le> (1024 :: u32)" and "unat (k :: u8) \<le> 8"
  shows "unat (n * ucast k * pcm_bytes wd) = unat (pcm_bytes wd) * unat k * unat n"
    and "unat (pcm_bytes wd) * unat k * unat n < 2 ^ 32"
proof -
  have n: "unat n \<le> 1024" using assms(1) by (simp add: word_le_nat_alt)
  have "unat k * unat n \<le> 8 * 1024" by (rule mult_le_mono [OF assms(2) n])
  moreover have "unat (pcm_bytes wd) \<le> 4" by (simp add: pcm_bytes_def)
  ultimately have "unat (pcm_bytes wd) * (unat k * unat n) \<le> 4 * (8 * 1024)" by (metis mult_le_mono)
  then show "unat (pcm_bytes wd) * unat k * unat n < 2 ^ 32" by (simp add: mult.assoc)
  then have "unat (pcm_bytes wd) * unat k * unat n < 4294967296" by simp
  moreover have "unat (ucast k :: u32) = unat k" using assms(2) by (simp add: unsigned_ucast_eq take_bit_nat_eq_self_iff)
  ultimately show "unat (n * ucast k * pcm_bytes wd) = unat (pcm_bytes wd) * unat k * unat n"
    by (simp add: unat_word_ariths mod_mult_left_eq mod_mult_right_eq mult_ac)
qed

lemma pcm_process_spec:
  assumes ok: "pcm_plugin_ok w" and b: "pc_input w \<noteq> 0" "pc_output w \<noteq> 0" "pc_insize w \<noteq> 0" and apart: "pcm_apart w"
  shows "\<exists>d'. pcm_process_call (pcm_choice w) u d w = (d', pcm_done w, u, XA_NO_ERROR) \<and> pcm_mapped w d d'"
proof -
  let ?n = "pc_insize w" and ?k = "pc_in_channels w" and ?iw = "pc_in_pcm_width w" and ?ow = "pc_out_pcm_width w"
  have sz: "?n \<le> 1024" "unat ?k \<le> 8" and wd: "?iw \<in> {16, 24}" "?ow \<in> {16, 24}" using ok by (auto simp: pcm_plugin_ok_def)
  have w1624: "(16 :: u8) \<noteq> 24" by simp
  note len = pcm_length [OF sz]
  have ap: "area (pc_input w) (unat (pcm_bytes ?iw) * unat ?k * unat ?n + 8 * unat (pcm_bytes ?iw)) \<inter>
      area (pc_output w) (unat (pcm_bytes ?ow) * unat ?k * unat ?n) = {}" using apart by (simp add: pcm_apart_def Let_def)
  show ?thesis
  proof (cases "pcm_choice w = Pcm_Copy \<or> pcm_choice w = Pcm16_Chmap")
    case True
    let ?l = "?n * ucast ?k * pcm_bytes ?iw"
    have eq: "?ow = ?iw" using True by (auto simp: pcm_choice_def split: if_splits)
    have src: "pcm_source w c = of_nat c" if "c < unat ?k" for c
    proof (cases "?iw = 16")
      case False
      then have "pcm_identity_from (unat ?k) 0 (pc_chan_routing w)"
        using True by (auto simp: pcm_choice_def xa_pcm_is_identity_mapping_def split: if_splits)
      from identity_nibbles [OF this that] show ?thesis by (simp add: pcm_source_def False)
    qed (simp add: pcm_source_def eq)
    have "area (pc_input w) (unat ?l) \<inter> area (pc_output w) (unat ?l) = {}"
      using ap area_mono [of "unat ?l" "unat (pcm_bytes ?iw) * unat ?k * unat ?n + 8 * unat (pcm_bytes ?iw)"] unfolding len(1) eq by fastforce
    note c = pcm_copy_spec [OF len(1) this sz(2), of d]
    have "pcm_process_call (pcm_choice w) u d w = (mem_copy (pc_output w) (pc_input w) ?l d, pcm_done w, u, XA_NO_ERROR)"
      using True b by (auto simp: xa_pcm_do_execute_copy_def xa_pcm_do_execute_pcm16_chmap_def pcm_run_def xp_chk_def xp_ret_def
          pcm_done_def eq Let_def)
    moreover have "pcm_mapped w d (mem_copy (pc_output w) (pc_input w) ?l d)"
      using c by (simp add: pcm_mapped_def Let_def eq src len(1))
    ultimately show ?thesis by blast
  next
    case False
    consider (m24) "pcm_choice w = Pcm24_Chmap" "?iw = 24" "?ow = 24" | (m24_16) "pcm_choice w = Pcm24_To_Pcm16" "?iw = 24" "?ow = 16"
      | (m16_24) "pcm_choice w = Pcm16_To_Pcm24" "?iw = 16" "?ow = 24"
      using False wd by (auto simp: pcm_choice_def split: if_splits)
    then show ?thesis
    proof cases
      case m24
      with ap len(2) [of 24] pcm24.frames_spec [of "unat ?k" "unat ?n" "pc_input w" "pc_output w" "pc_chan_routing w" d] b show ?thesis
        by (auto simp: xa_pcm_do_execute_pcm24_chmap_def pcm_loop_def pcm_run_def xp_chk_def xp_ret_def pcm_done_def pcm_mapped_def
            pcm_source_def pcm_bytes_def Let_def mult_ac)
    next
      case m24_16
      with ap len(2) [of 16] pcm24_16.frames_spec [of "unat ?k" "unat ?n" "pc_input w" "pc_output w" "pc_chan_routing w" d] b show ?thesis
        by (auto simp: xa_pcm_do_execute_pcm24_to_pcm16_def pcm_loop_def pcm_run_def xp_chk_def xp_ret_def pcm_done_def pcm_mapped_def
            pcm_source_def pcm_bytes_def Let_def mult_ac)
    next
      case m16_24
      with ap len(2) [of 24] pcm16_24.frames_spec [of "unat ?k" "unat ?n" "pc_input w" "pc_output w" "pc_chan_routing w" d] b show ?thesis
        by (auto simp: xa_pcm_do_execute_pcm16_to_pcm24_def pcm_loop_def pcm_run_def xp_chk_def xp_ret_def pcm_done_def pcm_mapped_def
            pcm_source_def pcm_bytes_def Let_def mult_ac)
    qed
  qed
qed

section \<open>The plugin\<close>

definition pcm_eos :: "XAPcmCodec \<Rightarrow> XAPcmCodec" where
  "pcm_eos w = (if pc_state w AND XA_PCM_FLAG_EOS \<noteq> 0 then w\<lparr>pc_state := pc_state w XOR (XA_PCM_FLAG_EOS OR XA_PCM_FLAG_COMPLETE)\<rparr> else w)"

lemmas pcm_api_defs = xa_pcm_codec_def xa_pcm_api_def xp_chk_def xp_ret_def XA_PCM_API_COMMANDS_NUM_def XA_API_CMD_GET_API_SIZE_def
  XA_API_CMD_INIT_def XA_API_CMD_SET_CONFIG_PARAM_def XA_API_CMD_GET_CONFIG_PARAM_def XA_API_CMD_EXECUTE_def XA_API_CMD_SET_INPUT_BYTES_def
  XA_API_CMD_GET_OUTPUT_BYTES_def XA_API_CMD_GET_CURIDX_INPUT_BUF_def XA_API_CMD_INPUT_OVER_def XA_API_CMD_GET_MEMTABS_SIZE_def
  XA_API_CMD_GET_N_MEMTABS_def XA_API_CMD_GET_MEM_INFO_TYPE_def XA_API_CMD_GET_MEM_INFO_SIZE_def XA_API_CMD_GET_MEM_INFO_ALIGNMENT_def
  XA_API_CMD_SET_MEM_PTR_def

lemma pcm_execute_entry:
  "a \<noteq> 0 \<Longrightarrow> pc_state w AND XA_PCM_FLAG_RUNNING \<noteq> 0 \<Longrightarrow>
     xa_pcm_codec u a XA_API_CMD_EXECUTE XA_CMD_TYPE_DO_EXECUTE pv d w =
       (if pc_insize w \<noteq> 0 then
          let (d, w, v, e) = (case pc_process w of None \<Rightarrow> xp_ret XA_PCM_EXEC_FATAL_STATE u d w | Some f \<Rightarrow> pcm_process_call f u d w)
          in xp_chk (\<not> XA_ERROR_SEVERITY e) XA_PCM_EXEC_FATAL_STATE u d w (xp_ret XA_NO_ERROR u d (pcm_eos w))
        else xp_ret XA_NO_ERROR u d (pcm_eos w))"
proof -
  assume a: "a \<noteq> 0" "pc_state w AND XA_PCM_FLAG_RUNNING \<noteq> 0"
  have "xa_pcm_codec u a XA_API_CMD_EXECUTE XA_CMD_TYPE_DO_EXECUTE pv d w = xa_pcm_execute u a XA_CMD_TYPE_DO_EXECUTE pv d w"
    by (simp add: pcm_api_defs)
  moreover have "xp_chk c e u d w k = k" if c for c e u k and d :: "addr \<Rightarrow> u8" and w :: XAPcmCodec using that by (simp add: xp_chk_def)
  ultimately show ?thesis using a unfolding xa_pcm_execute_def pcm_eos_def Let_def by simp
qed

lemma pcm_execute_spec:
  assumes ok: "pcm_plugin_ok w" and run: "pc_state w AND XA_PCM_FLAG_RUNNING \<noteq> 0" "a \<noteq> 0"
    and b: "pc_input w \<noteq> 0" "pc_output w \<noteq> 0" "pc_insize w \<noteq> 0" and apart: "pcm_apart w"
  shows "\<exists>d'. xa_pcm_codec u a XA_API_CMD_EXECUTE XA_CMD_TYPE_DO_EXECUTE pv d w = (d', pcm_eos (pcm_done w), u, XA_NO_ERROR) \<and>
    pcm_mapped w d d'"
proof -
  have "pc_process w = Some (pcm_choice w)" using ok run by (simp add: pcm_plugin_ok_def)
  moreover obtain d' where "pcm_process_call (pcm_choice w) u d w = (d', pcm_done w, u, XA_NO_ERROR)" "pcm_mapped w d d'"
    using pcm_process_spec [OF ok b apart] by blast
  ultimately show ?thesis using b(3) pcm_execute_entry [OF run(2,1), of u pv d]
    by (intro exI [of _ d']) (simp add: xp_chk_def xp_ret_def XA_ERROR_SEVERITY_def XA_NO_ERROR_def)
qed

text \<open>C34: A processing step of the running converter, in every state it can reach: it converts all samples it
  was given and nothing else. Channel c of sample f of the output is the channel of sample f of the input
  that the routing selects (channel c itself for 16 to 16 bits, zero for a routing nibble of 8 and above),
  widened by 16 zero bits, narrowed by dropping the low 16 bits, or copied; no byte outside the output
  is written, the input counts as consumed, and an end of stream that was signalled becomes completion.\<close>

theorem pcm_plugin_converts:
  assumes "pcm_plugin_reach w" and "pc_state w AND XA_PCM_FLAG_RUNNING \<noteq> 0" and "a \<noteq> 0"
    and "pc_input w \<noteq> 0" and "pc_output w \<noteq> 0" and "pc_insize w \<noteq> 0" and "pcm_apart w"
  shows "pcm_plugin_ok w \<and>
    (\<exists>d'. xa_pcm_codec u a XA_API_CMD_EXECUTE XA_CMD_TYPE_DO_EXECUTE pv d w = (d', pcm_eos (pcm_done w), u, XA_NO_ERROR) \<and>
       pcm_mapped w d d')"
  using pcm_execute_spec [OF pcm_plugin_reach_ok] pcm_plugin_reach_ok assms by blast

text \<open>C35: The default routing is not the identity (its second nibble should be 1, but the source shifts by one
  bit): with 24-bit stereo input and output and no routing set, the left channel of every output sample is
  the left channel of the next input sample, that of the last one is read behind the input, and the right
  channel is the left channel of the input; the right channel of the input is lost.\<close>

theorem pcm_default_routing:
  assumes w: "pcm_plugin_reach w" and run: "pc_state w AND XA_PCM_FLAG_RUNNING \<noteq> 0" "a \<noteq> 0"
    and b: "pc_input w \<noteq> 0" "pc_output w \<noteq> 0" "pc_insize w \<noteq> 0" and apart: "pcm_apart w"
    and stereo: "pc_in_channels w = 2" "pc_in_pcm_width w = 24" "pc_out_pcm_width w = 24"
    and routing: "pc_chan_routing w = pc_chan_routing pcm_default"
  shows "\<exists>d'. fst (xa_pcm_codec u a XA_API_CMD_EXECUTE XA_CMD_TYPE_DO_EXECUTE pv d w) = d' \<and>
    (\<forall>f<unat (pc_insize w). mem_read32 d' (pc_output w + of_nat (8 * f)) = mem_read32 d (pc_input w + of_nat (8 * Suc f)) \<and>
       mem_read32 d' (pc_output w + of_nat (8 * f) + 4) = mem_read32 d (pc_input w + of_nat (8 * f)))"
proof -
  obtain d' where d': "xa_pcm_codec u a XA_API_CMD_EXECUTE XA_CMD_TYPE_DO_EXECUTE pv d w = (d', pcm_eos (pcm_done w), u, XA_NO_ERROR)"
    and m: "pcm_mapped w d d'" using pcm_execute_spec [OF pcm_plugin_reach_ok [OF w] run b apart] by blast
  have r: "pc_chan_routing w = 2" using routing by simp
  have "mem_read32 d' (pc_output w + of_nat (8 * f)) = mem_read32 d (pc_input w + of_nat (8 * Suc f)) \<and>
      mem_read32 d' (pc_output w + of_nat (8 * f) + 4) = mem_read32 d (pc_input w + of_nat (8 * f))" if f: "f < unat (pc_insize w)" for f
  proof -
    have v: "pcm_load 24 d' (pc_output w + of_nat (4 * (2 * f + c))) = pcm_val 24 24 d (pc_input w + of_nat (8 * f)) (nibble c 2)"
      if "c < 2" for c using m f that by (simp add: pcm_mapped_def Let_def stereo pcm_bytes_def pcm_source_def r)
    have n: "nibble 0 2 = 2" "nibble 1 2 = 0" by (simp_all add: nibble_def)
    have i: "pcm_load 24 d' x = pcm_load 24 d y \<Longrightarrow> mem_read32 d' x = mem_read32 d y" for x y
      by (rule signed_word_eqI [where 'a = int]) (simp add: pcm_load_def)
    have b: "pcm_bytes 24 = 4" by (simp add: pcm_bytes_def)
    have a: "pc_output w + of_nat (4 * (2 * f + 0)) = pc_output w + of_nat (8 * f)"
      "pc_output w + of_nat (4 * (2 * f + 1)) = pc_output w + of_nat (8 * f) + 4"
      "pc_input w + of_nat (8 * f) + pcm_bytes 24 * 2 = pc_input w + of_nat (8 * Suc f)"
      "pc_input w + of_nat (8 * f) + pcm_bytes 24 * 0 = pc_input w + of_nat (8 * f)" by (simp_all add: b)
    have "pcm_load 24 d' (pc_output w + of_nat (8 * f)) = pcm_load 24 d (pc_input w + of_nat (8 * Suc f))"
      using v [of 0] unfolding n pcm_val_def pcm_convert_def a by simp
    moreover have "pcm_load 24 d' (pc_output w + of_nat (8 * f) + 4) = pcm_load 24 d (pc_input w + of_nat (8 * f))"
      using v [of 1] unfolding n pcm_val_def pcm_convert_def a by simp
    ultimately show ?thesis using i by blast
  qed
  then show ?thesis using d' by simp
qed

text \<open>C36: The output buffer the converter asks for is too short when the input has more channels than the output:
  it announces 1024 samples of the output channels, but a full step of 16-bit samples stores as many
  channels as the input has, and the sample right behind the announced buffer is overwritten with one of
  the input.\<close>

theorem pcm_output_overrun:
  assumes w: "pcm_plugin_reach w" and run: "pc_state w AND XA_PCM_FLAG_RUNNING \<noteq> 0" "a \<noteq> 0"
    and b: "pc_input w \<noteq> 0" "pc_output w \<noteq> 0" and full: "pc_insize w = XA_PCM_MAX_SAMPLES" and apart: "pcm_apart w"
    and cfg: "pc_in_pcm_width w = 16" "pc_out_pcm_width w = 16" "pc_out_channels w < pc_in_channels w"
  shows "\<exists>v d' w'. xa_pcm_codec u a XA_API_CMD_GET_MEM_INFO_SIZE 1 PvOut d w = (d, w, v, XA_NO_ERROR) \<and>
    xa_pcm_codec u a XA_API_CMD_EXECUTE XA_CMD_TYPE_DO_EXECUTE pv d w = (d', w', u, XA_NO_ERROR) \<and>
    v < pc_produced w' \<and> mem_read16 d' (pc_output w + v) = mem_read16 d (pc_input w + v)"
proof -
  let ?k = "unat (pc_in_channels w)" and ?o = "unat (pc_out_channels w)"
  have ok: "pcm_plugin_ok w" by (rule pcm_plugin_reach_ok [OF w])
  then have st: "pc_state w AND 7 \<in> {1, 3, 7}" and k: "?k \<le> 8" by (auto simp: pcm_plugin_ok_def)
  have post: "pc_state w AND XA_PCM_FLAG_POSTINIT_DONE \<noteq> 0" using run pcm_stages(2) [OF st] by (simp add: pcm_flag_defs)
  have o: "?o < ?k" using cfg(3) by (simp add: word_less_nat_alt)
  have n: "pc_insize w \<noteq> 0" "unat (pc_insize w) = 1024" using full by (simp_all add: XA_PCM_MAX_SAMPLES_def)
  obtain d' where d': "xa_pcm_codec u a XA_API_CMD_EXECUTE XA_CMD_TYPE_DO_EXECUTE pv d w = (d', pcm_eos (pcm_done w), u, XA_NO_ERROR)"
    and m: "pcm_mapped w d d'" using pcm_execute_spec [OF ok run b n(1) apart] by blast
  define v where "v = XA_PCM_MAX_SAMPLES * ucast (pc_out_stride w)"
  have size: "xa_pcm_codec u a XA_API_CMD_GET_MEM_INFO_SIZE 1 PvOut d w = (d, w, v, XA_NO_ERROR)"
    using run post by (simp add: pcm_api_defs xa_pcm_get_mem_info_size_def v_def)
  have "unat (pc_out_stride w) = 2 * ?o" using ok post cfg by (simp add: pcm_plugin_ok_def pcm_bytes_def)
  then have "unat (ucast (pc_out_stride w) :: u32) = 2 * ?o" using o k by (simp add: unsigned_ucast_eq take_bit_nat_eq_self_iff)
  then have v: "unat v = 2 * (1024 * ?o)" using o k by (simp add: v_def unat_word_ariths XA_PCM_MAX_SAMPLES_def)
  have produced: "pc_produced (pcm_eos (pcm_done w)) = pc_insize w * ucast (pc_in_channels w) * pcm_bytes 16"
    by (simp add: pcm_eos_def pcm_done_def cfg)
  have "unat (pc_produced (pcm_eos (pcm_done w))) = 2 * ?k * 1024"
    unfolding produced using pcm_length(1) [of "pc_insize w" "pc_in_channels w" 16] k full n by (simp add: XA_PCM_MAX_SAMPLES_def pcm_bytes_def)
  then have less: "v < pc_produced (pcm_eos (pcm_done w))" using v o by (simp add: word_less_nat_alt)
  define f where "f = 1024 * ?o div ?k"
  define c where "c = 1024 * ?o mod ?k"
  have fc: "?k * f + c = 1024 * ?o" "c < ?k" using o by (simp_all add: f_def c_def)
  have "?k * f \<le> 1024 * ?o" using fc(1) by simp
  also have "\<dots> < 1024 * ?k" using o by simp
  finally have "f < 1024" by (simp add: mult.commute)
  then have e: "pcm_load 16 d' (pc_output w + of_nat (2 * (?k * f + c))) = pcm_val 16 16 d (pc_input w + of_nat (2 * ?k * f)) (of_nat c)"
    using m fc(2) n(2) by (simp add: pcm_mapped_def Let_def cfg pcm_bytes_def pcm_source_def)
  have "(of_nat c :: u32) < 8" using fc(2) k by (simp add: word_less_nat_alt unat_of_nat_u32)
  moreover have v2: "of_nat (2 * (?k * f + c)) = v" unfolding fc(1) v [symmetric] by simp
  have "pc_input w + of_nat (2 * ?k * f) + 2 * of_nat c = pc_input w + of_nat (2 * (?k * f + c))" by (simp add: distrib_left add.assoc mult.assoc)
  then have ad: "pc_input w + of_nat (2 * ?k * f) + pcm_bytes 16 * of_nat c = pc_input w + v" by (simp only: v2 pcm_bytes_def if_True refl)
  ultimately have "pcm_load 16 d' (pc_output w + v) = pcm_load 16 d (pc_input w + v)"
    using e unfolding v2 pcm_val_def pcm_convert_def ad by simp
  then have "mem_read16 d' (pc_output w + v) = mem_read16 d (pc_input w + v)"
    by (intro signed_word_eqI [where 'a = int]) (simp add: pcm_load_def)
  with size d' less show ?thesis by blast
qed

text \<open>C37: At the end of the stream the last frame is sent twice: a step without input signals completion but
  leaves the number of produced bytes as the last step set it, so the caller is told that as many bytes are
  in the output buffer again.\<close>

theorem pcm_end_repeats:
  assumes w: "pcm_plugin_reach w" and run: "pc_state w AND XA_PCM_FLAG_RUNNING \<noteq> 0" "a \<noteq> 0"
    and b: "pc_output w \<noteq> 0" and over: "pc_insize w = 0" "pc_state w AND XA_PCM_FLAG_EOS \<noteq> 0"
  shows "\<exists>w'. xa_pcm_codec u a XA_API_CMD_EXECUTE XA_CMD_TYPE_DO_EXECUTE pv d w = (d, w', u, XA_NO_ERROR) \<and>
    pc_state w' AND XA_PCM_FLAG_EOS = 0 \<and>
    xa_pcm_codec u a XA_API_CMD_GET_OUTPUT_BYTES 1 PvOut d w' = (d, w', pc_produced w, XA_NO_ERROR)"
proof -
  let ?w = "pcm_eos w"
  have st: "pc_state w AND 7 \<in> {1, 3, 7}" using pcm_plugin_reach_ok [OF w] by (simp add: pcm_plugin_ok_def)
  have post: "pc_state ?w AND XA_PCM_FLAG_POSTINIT_DONE \<noteq> 0"
    using run over pcm_stages(2,8) [OF st] by (simp add: pcm_eos_def pcm_flag_defs)
  have "(x XOR 24) AND 8 = 0" if "x AND 8 \<noteq> 0" for x :: u32
  proof -
    have "bit x 3" using that and_exp_eq_0_iff_not_bit [of x 3] by simp
    then have "\<not> bit (x XOR 24) 3" by (simp add: bit_simps)
    then show ?thesis using and_exp_eq_0_iff_not_bit [of "x XOR 24" 3] by simp
  qed
  then have "pc_state ?w AND XA_PCM_FLAG_EOS = 0" using over by (simp add: pcm_eos_def pcm_flag_defs)
  moreover have "xa_pcm_codec u a XA_API_CMD_EXECUTE XA_CMD_TYPE_DO_EXECUTE pv d w = (d, ?w, u, XA_NO_ERROR)"
    using pcm_execute_entry [OF run(2,1), of u pv d] over by (simp add: xp_ret_def)
  moreover have "xa_pcm_codec u a XA_API_CMD_GET_OUTPUT_BYTES 1 PvOut d ?w = (d, ?w, pc_produced w, XA_NO_ERROR)"
    using run b post by (simp add: pcm_api_defs xa_pcm_get_output_bytes_def) (simp add: pcm_eos_def)
  ultimately show ?thesis by blast
qed

section \<open>Concrete histories\<close>

lemma pcm_plugin_reach_cmd: "pcm_plugin_reach w \<Longrightarrow> pcm_plugin_reach (fst (snd (xa_pcm_codec u a cmd i pv d w)))"
  by (rule pcm_plugin_reach.command [where d' = "fst (xa_pcm_codec u a cmd i pv d w)" and v = "fst (snd (snd (xa_pcm_codec u a cmd i pv d w)))"
        and e = "snd (snd (snd (xa_pcm_codec u a cmd i pv d w)))"]) simp_all

text \<open>The plugin with two parameters set, buffers at 0x1000 and 0x8000, and n bytes of input.\<close>

definition pcm_demo :: "u32 \<Rightarrow> u32 \<Rightarrow> u32 \<Rightarrow> u32 \<Rightarrow> u32 \<Rightarrow> XAPcmCodec" where
  "pcm_demo i1 v1 i2 v2 n =
     (let go = (\<lambda>cmd i pv w. fst (snd (xa_pcm_codec 0 16 cmd i pv (\<lambda>_. 0) w))) in
      go XA_API_CMD_INIT XA_CMD_TYPE_INIT_PROCESS PvNull
       (go XA_API_CMD_SET_INPUT_BYTES 0 (PvVal n)
        (go XA_API_CMD_SET_MEM_PTR 1 (PvPtr 0x8000)
         (go XA_API_CMD_SET_MEM_PTR 0 (PvPtr 0x1000)
          (go XA_API_CMD_INIT XA_CMD_TYPE_INIT_API_POST_CONFIG_PARAMS PvNull
           (go XA_API_CMD_SET_CONFIG_PARAM i2 (PvVal v2) (go XA_API_CMD_SET_CONFIG_PARAM i1 (PvVal v1) pcm_default)))))))"

lemma pcm_demo_reach: "pcm_plugin_reach (pcm_demo i1 v1 i2 v2 n)"
proof -
  have "xa_pcm_codec 0 16 XA_API_CMD_INIT XA_CMD_TYPE_INIT_API_PRE_CONFIG_PARAMS PvNull (\<lambda>_. 0) w = (\<lambda>_. 0, pcm_default, 0, 0)" for w
    by (simp add: pcm_api_defs xa_pcm_init_def XA_NO_ERROR_def)
  then have "pcm_plugin_reach pcm_default" by (rule pcm_plugin_reach.preinit) simp
  then show ?thesis unfolding pcm_demo_def Let_def by (intro pcm_plugin_reach_cmd)
qed

lemmas pcm_demo_eval = pcm_demo_def pcm_api_defs xa_pcm_init_def xa_pcm_set_config_param_def xa_pcm_set_mem_ptr_def
  xa_pcm_set_input_bytes_def xa_pcm_do_runtime_init_def XA_CMD_TYPE_INIT_API_PRE_CONFIG_PARAMS_def XA_CMD_TYPE_INIT_API_POST_CONFIG_PARAMS_def
  XA_CMD_TYPE_INIT_PROCESS_def xa_pcm_zero_def pcm_flag_defs pcm_bytes_def XA_CODEC_CONFIG_PARAM_SAMPLE_RATE_def
  XA_PCM_CONFIG_PARAM_SAMPLE_RATE_def XA_PCM_CONFIG_PARAM_IN_PCM_WIDTH_def XA_PCM_CONFIG_PARAM_IN_CHANNELS_def
  XA_CODEC_CONFIG_PARAM_PCM_WIDTH_def XA_PCM_CONFIG_PARAM_OUT_PCM_WIDTH_def XA_PCM_MAX_SAMPLES_def

text \<open>24-bit stereo with two samples; 16 bits from eight channels to two with 1024 samples.\<close>

lemma pcm_demo_24:
  "let w = pcm_demo XA_PCM_CONFIG_PARAM_IN_PCM_WIDTH 24 XA_PCM_CONFIG_PARAM_OUT_PCM_WIDTH 24 16 in
   pc_state w = 7 \<and> pc_input w = 0x1000 \<and> pc_output w = 0x8000 \<and> pc_insize w = 2 \<and> pc_in_channels w = 2 \<and> pc_in_pcm_width w = 24 \<and>
   pc_out_pcm_width w = 24 \<and> pc_chan_routing w = 2"
  by (simp add: pcm_demo_eval Let_def)

lemma pcm_demo_16:
  "let w = pcm_demo XA_PCM_CONFIG_PARAM_IN_CHANNELS 8 XA_PCM_CONFIG_PARAM_IN_PCM_WIDTH 16 16384 in
   pc_state w = 7 \<and> pc_input w = 0x1000 \<and> pc_output w = 0x8000 \<and> pc_insize w = 1024 \<and> pc_in_channels w = 8 \<and> pc_out_channels w = 2 \<and>
   pc_in_pcm_width w = 16 \<and> pc_out_pcm_width w = 16"
  by (simp add: pcm_demo_eval Let_def word_sless_alt word_sle_eq)

lemma pcm_demo_apart:
  assumes "pc_input w = 0x1000" and "pc_output w = 0x8000" and "pc_insize w \<le> 1024" and "unat (pc_in_channels w) \<le> 8"
    and "pc_in_pcm_width w = 16 \<and> pc_out_pcm_width w = 16 \<or> pc_insize w = 2"
  shows "pcm_apart w"
proof -
  let ?wi = "unat (pcm_bytes (pc_in_pcm_width w))" and ?wo = "unat (pcm_bytes (pc_out_pcm_width w))"
  let ?k = "unat (pc_in_channels w)" and ?n = "unat (pc_insize w)"
  have n: "?n \<le> 1024" using assms(3) by (simp add: word_le_nat_alt)
  have b: "?wi \<le> 4" "?wo \<le> 4" by (simp_all add: pcm_bytes_def)
  have "?wi * (?k * ?n) \<le> 16384 \<and> ?wo * (?k * ?n) \<le> 16384"
  proof (cases "pc_insize w = 2")
    case True
    then have "?k * ?n \<le> 16" using assms(4) by simp
    then show ?thesis using mult_le_mono [OF b(1)] mult_le_mono [OF b(2)] by fastforce
  next
    case False
    then have "?wi = 2" "?wo = 2" using assms(5) by (auto simp: pcm_bytes_def)
    then show ?thesis using mult_le_mono [OF assms(4) n] by (simp add: mult.commute)
  qed
  then have "unat (0x1000 :: addr) + (?wi * ?k * ?n + 8 * ?wi) \<le> unat (0x8000 :: addr)" "unat (0x8000 :: addr) + ?wo * ?k * ?n < 2 ^ 32"
    using b by (simp_all add: mult.assoc)
  from area_far [OF this] show ?thesis by (simp add: pcm_apart_def Let_def assms(1,2))
qed

lemma pcm_plugin_converts_witness:
  "let w = pcm_demo XA_PCM_CONFIG_PARAM_IN_PCM_WIDTH 24 XA_PCM_CONFIG_PARAM_OUT_PCM_WIDTH 24 16 in
   \<exists>d'. xa_pcm_codec 0 16 XA_API_CMD_EXECUTE XA_CMD_TYPE_DO_EXECUTE PvNull (\<lambda>_. 1) w = (d', pcm_eos (pcm_done w), 0, XA_NO_ERROR) \<and>
     pcm_mapped w (\<lambda>_. 1) d'"
proof -
  define w where "w = pcm_demo XA_PCM_CONFIG_PARAM_IN_PCM_WIDTH 24 XA_PCM_CONFIG_PARAM_OUT_PCM_WIDTH 24 16"
  note v = pcm_demo_24 [folded w_def, unfolded Let_def]
  have ap: "pcm_apart w" by (rule pcm_demo_apart) (simp_all add: v)
  have r: "pcm_plugin_reach w" unfolding w_def by (rule pcm_demo_reach)
  show ?thesis
    using pcm_plugin_converts [OF r _ _ _ _ _ ap, of 16 0 PvNull "\<lambda>_. 1"] unfolding w_def [symmetric] Let_def
    by (simp add: v pcm_flag_defs)
qed

lemma pcm_default_routing_witness:
  "let w = pcm_demo XA_PCM_CONFIG_PARAM_IN_PCM_WIDTH 24 XA_PCM_CONFIG_PARAM_OUT_PCM_WIDTH 24 16;
       d = (\<lambda>x. if x = 0x1008 then 7 else 0 :: u8) in
   mem_read32 (fst (xa_pcm_codec 0 16 XA_API_CMD_EXECUTE XA_CMD_TYPE_DO_EXECUTE PvNull d w)) 0x8000 = 7"
proof -
  let ?d = "\<lambda>x. if x = 0x1008 then 7 else 0 :: u8"
  define w where "w = pcm_demo XA_PCM_CONFIG_PARAM_IN_PCM_WIDTH 24 XA_PCM_CONFIG_PARAM_OUT_PCM_WIDTH 24 16"
  note v = pcm_demo_24 [folded w_def, unfolded Let_def]
  have ap: "pcm_apart w" by (rule pcm_demo_apart) (simp_all add: v)
  have r: "pcm_plugin_reach w" unfolding w_def by (rule pcm_demo_reach)
  have "\<forall>f<unat (pc_insize w).
      mem_read32 (fst (xa_pcm_codec 0 16 XA_API_CMD_EXECUTE XA_CMD_TYPE_DO_EXECUTE PvNull ?d w)) (pc_output w + of_nat (8 * f)) =
        mem_read32 ?d (pc_input w + of_nat (8 * Suc f))"
    using pcm_default_routing [OF r _ _ _ _ _ ap, of 16 0 PvNull ?d] by (simp add: v pcm_flag_defs)
  from this [rule_format, of 0]
  have "mem_read32 (fst (xa_pcm_codec 0 16 XA_API_CMD_EXECUTE XA_CMD_TYPE_DO_EXECUTE PvNull ?d w)) 0x8000 = mem_read32 ?d 0x1008"
    by (simp add: v)
  moreover have "mem_read32 ?d 0x1008 = 7" by (simp add: mem_read32_def mem_read16_def)
  ultimately show ?thesis unfolding w_def [symmetric] Let_def by (rule trans)
qed

lemma pcm_output_overrun_witness:
  "let w = pcm_demo XA_PCM_CONFIG_PARAM_IN_CHANNELS 8 XA_PCM_CONFIG_PARAM_IN_PCM_WIDTH 16 16384 in
   \<exists>v d' w'. xa_pcm_codec 0 16 XA_API_CMD_GET_MEM_INFO_SIZE 1 PvOut (\<lambda>_. 1) w = (\<lambda>_. 1, w, v, XA_NO_ERROR) \<and>
     xa_pcm_codec 0 16 XA_API_CMD_EXECUTE XA_CMD_TYPE_DO_EXECUTE PvNull (\<lambda>_. 1) w = (d', w', 0, XA_NO_ERROR) \<and>
     v < pc_produced w' \<and> mem_read16 d' (pc_output w + v) = 0x101"
proof -
  define w where "w = pcm_demo XA_PCM_CONFIG_PARAM_IN_CHANNELS 8 XA_PCM_CONFIG_PARAM_IN_PCM_WIDTH 16 16384"
  note v = pcm_demo_16 [folded w_def, unfolded Let_def]
  have ap: "pcm_apart w" by (rule pcm_demo_apart) (simp_all add: v)
  have r: "pcm_plugin_reach w" unfolding w_def by (rule pcm_demo_reach)
  have run: "pc_state w AND XA_PCM_FLAG_RUNNING \<noteq> 0" "(16 :: addr) \<noteq> 0" and b: "pc_input w \<noteq> 0" "pc_output w \<noteq> 0"
    and full: "pc_insize w = XA_PCM_MAX_SAMPLES"
    and cfg: "pc_in_pcm_width w = 16" "pc_out_pcm_width w = 16" "pc_out_channels w < pc_in_channels w"
    by (simp_all add: v pcm_flag_defs XA_PCM_MAX_SAMPLES_def)
  have one: "mem_read16 (\<lambda>_. 1) x = 0x101" for x by (simp add: mem_read16_def)
  show ?thesis
    using pcm_output_overrun [OF r run b full ap cfg, of 0 "\<lambda>_. 1" PvNull] unfolding w_def [symmetric] Let_def one .
qed

lemma pcm_end_repeats_witness:
  "let go = (\<lambda>cmd i w. fst (snd (xa_pcm_codec 0 16 cmd i PvNull (\<lambda>_. 1) w)));
       w0 = pcm_demo XA_PCM_CONFIG_PARAM_IN_PCM_WIDTH 24 XA_PCM_CONFIG_PARAM_OUT_PCM_WIDTH 24 16;
       w = go XA_API_CMD_INPUT_OVER 0 (go XA_API_CMD_EXECUTE XA_CMD_TYPE_DO_EXECUTE w0) in
   \<exists>w'. xa_pcm_codec 0 16 XA_API_CMD_EXECUTE XA_CMD_TYPE_DO_EXECUTE PvNull (\<lambda>_. 1) w = (\<lambda>_. 1, w', 0, XA_NO_ERROR) \<and>
     xa_pcm_codec 0 16 XA_API_CMD_GET_OUTPUT_BYTES 1 PvOut (\<lambda>_. 1) w' = (\<lambda>_. 1, w', 16, XA_NO_ERROR)"
proof -
  define w0 where "w0 = pcm_demo XA_PCM_CONFIG_PARAM_IN_PCM_WIDTH 24 XA_PCM_CONFIG_PARAM_OUT_PCM_WIDTH 24 16"
  note v = pcm_demo_24 [folded w0_def, unfolded Let_def]
  have r: "pcm_plugin_reach w0" unfolding w0_def by (rule pcm_demo_reach)
  define w1 where "w1 = fst (snd (xa_pcm_codec 0 16 XA_API_CMD_EXECUTE XA_CMD_TYPE_DO_EXECUTE PvNull (\<lambda>_. 1) w0))"
  define w where "w = fst (snd (xa_pcm_codec 0 16 XA_API_CMD_INPUT_OVER 0 PvNull (\<lambda>_. 1) w1))"
  have "pcm_apart w0" by (rule pcm_demo_apart) (simp_all add: v)
  then have "w1 = pcm_eos (pcm_done w0)"
    using pcm_execute_spec [OF pcm_plugin_reach_ok [OF r] _ _ _ _ _, of 16 0 PvNull "\<lambda>_. 1"] by (auto simp: w1_def v pcm_flag_defs)
  then have w1: "w1 = w0\<lparr>pc_consumed := 16, pc_produced := 16, pc_insize := 0\<rparr>"
    by (simp add: pcm_eos_def pcm_done_def v pcm_flag_defs pcm_bytes_def)
  then have w: "w = w1\<lparr>pc_state := 15\<rparr>"
    by (simp add: w_def pcm_api_defs xa_pcm_input_over_def v pcm_flag_defs)
  have reach: "pcm_plugin_reach w" unfolding w_def w1_def by (intro pcm_plugin_reach_cmd r)
  have "pc_state w AND XA_PCM_FLAG_RUNNING \<noteq> 0" "(16 :: addr) \<noteq> 0" "pc_output w \<noteq> 0" "pc_insize w = 0"
    "pc_state w AND XA_PCM_FLAG_EOS \<noteq> 0" and p: "pc_produced w = 16"
    by (simp_all add: w w1 v pcm_flag_defs)
  from pcm_end_repeats [OF reach this(1-5), of 0 PvNull "\<lambda>_. 1"]
  show ?thesis unfolding w0_def [symmetric] Let_def w1_def [symmetric] w_def [symmetric] p by blast
qed

end
