(* ===== verification/XA_System.thy ===== *)
theory XA_System
  imports XA_Factory XP_Mixer_Inv XP_Pcm_Inv
begin

text \<open>
  Properties of the closed system: which class an identifier names, creation of a component of either class
  against the contract of the allocator, registration by the proxy, and the components in every history.
\<close>

section \<open>Creation changes memory only\<close>

definition new_memory :: "xf_core \<Rightarrow> xf_core \<Rightarrow> bool" where
  "new_memory cd cd' \<longleftrightarrow> cd' = cd\<lparr>c_mem := c_mem cd', c_data := c_data cd', c_comp_id := c_comp_id cd'\<rparr>"

lemma new_memory_refl [simp]: "new_memory cd cd"
  by (simp add: new_memory_def)

lemma new_memory_trans: "new_memory a b \<Longrightarrow> new_memory b c \<Longrightarrow> new_memory a c"
  by (cases a; cases b; cases c) (simp add: new_memory_def)

lemma new_memory_upds [simp]:
  "new_memory cd (c\<lparr>c_mem := h\<rparr>) = new_memory cd c" "new_memory cd (c\<lparr>c_data := d\<rparr>) = new_memory cd c"
  "new_memory cd (c\<lparr>c_comp_id := i\<rparr>) = new_memory cd c"
  by (cases cd; cases c; simp add: new_memory_def)+

lemma alloc_new_memory:
  shows "xf_mem_alloc sz align core sh cd = Some (cd', a) \<Longrightarrow> new_memory cd cd'"
    and "xf_mm_alloc_buffer n align core b cd = Some (cd', b', r) \<Longrightarrow> new_memory cd cd'"
    and "xf_mem_free p sz core sh cd = Some cd' \<Longrightarrow> new_memory cd cd'"
    and "xf_mm_free_buffer b core cd = Some cd' \<Longrightarrow> new_memory cd cd'"
proof -
  show 1: "new_memory cd cd'" if "xf_mem_alloc sz align core sh cd = Some (cd', a)" for sz align core sh a
    using that by (auto simp: xf_mem_alloc_def xf_on_core_def split: if_splits)
  show 2: "new_memory cd cd'" if "xf_mem_free p sz core sh cd = Some cd'" for p sz core sh
    using that by (auto simp: xf_mem_free_def xf_on_core_def split: if_splits)
  show "xf_mm_alloc_buffer n align core b cd = Some (cd', b', r) \<Longrightarrow> new_memory cd cd'"
    by (auto simp: xf_mm_alloc_buffer_def Let_def split: if_splits option.splits dest: 1)
  show "xf_mm_free_buffer b core cd = Some cd' \<Longrightarrow> new_memory cd cd'"
    by (auto simp: xf_mm_free_buffer_def split: if_splits dest: 2)
qed

abbreviation grows :: "('o, 's) xa_st \<Rightarrow> ('o, 's) xa_st \<Rightarrow> bool" where
  "grows s s' \<equiv> new_memory (xs_core s) (xs_core s')"

lemma grows_API:
  assumes "grows s0 s" and "\<And>s' v. grows s0 s' \<Longrightarrow> keeps grows s0 (k s' v)"
  shows "keeps grows s0 (XA_API p cmd i pv s k)"
  using assms by (auto simp: XA_API_def xa_call_def Let_def split: prod.split)

lemma grows_XMALLOC:
  assumes "grows s0 s" and "\<And>s'. grows s0 s' \<Longrightarrow> keeps grows s0 (k s')"
  shows "keeps grows s0 (XMALLOC rd wr n align core s k)"
proof -
  have "keeps grows s0 (case r of Inl _ \<Rightarrow> Some (s', e1) | Inr _ \<Rightarrow> if c then Some (s', e2) else k s')"
    if "grows s0 s'" for s' e1 e2 c and r :: "xf_errno + unit" using that assms(2) by (cases r) simp_all
  then show ?thesis
    using assms(1) by (auto simp: XMALLOC_def Let_def intro!: keeps_bind3 dest: alloc_new_memory(2) new_memory_trans)
qed

lemma grows_preinit: "grows s0 s \<Longrightarrow> keeps grows s0 (xa_base_preinit p core s)"
  unfolding xa_base_preinit_def by (intro keeps_XF_CHK grows_API grows_XMALLOC keeps_if keeps_okI; assumption)

lemma grows_destroy: "xa_base_destroy sz core s = Some s' \<Longrightarrow> grows s s'"
  by (auto simp: xa_base_destroy_def bind_eq_Some_conv on_core_Some dest!: alloc_new_memory(3,4))
    (meson new_memory_trans)

lemma base_factory_grows:
  fixes z :: "'a XACodecBase_scheme" and p :: "'s xa_proc"
  assumes "xa_base_factory p z core sz cd w = Some (s, base)"
  shows "new_memory cd (xs_core s)"
proof -
  let ?s0 = "\<lparr>xs_core = cd, xs_self = 0, xs_obj = z, xs_plug = w\<rparr>"
  have pre: "new_memory cd (xs_core s')" if "xa_base_preinit p core s1 = Some (s', e)" "new_memory cd (xs_core s1)"
    for s1 s' :: "('a XACodecBase_scheme, 's) xa_st" and e
    using keepsD [OF grows_preinit [of ?s0] that(1)] that(2) by simp
  show ?thesis
    using assms
    by (auto simp: xa_base_factory_def Let_def bind_eq_Some_conv upd_core_def upd_obj_def split: if_splits
        dest!: alloc_new_memory(1) pre grows_destroy intro: new_memory_trans)
qed

section \<open>The class factory\<close>

text \<open>An identifier in memory whose first n bytes are those of a constant of at least n characters.\<close>

lemma strncmp_prefix:
  assumes "n \<le> length s" and "\<And>i. i < n \<Longrightarrow> d (a + of_nat i) = of_char (s ! i)"
  shows "strncmp_equal d a s n"
  using assms
proof (induction s arbitrary: a n)
  case (Cons c s)
  show ?case
  proof (cases n)
    case (Suc m)
    have "d (a + 1 + of_nat i) = of_char (s ! i)" if "i < m" for i using Cons.prems(2) [of "Suc i"] that Suc by (simp add: add.assoc)
    then have "strncmp_equal d (a + 1) s m" using Cons.prems(1) Suc by (intro Cons.IH) simp_all
    moreover have "d a = of_char c" using Cons.prems(2) [of 0] Suc by simp
    ultimately show ?thesis by (simp add: Suc)
  qed simp
qed simp

text \<open>The factory takes any prefix of an identifier for the identifier, as it compares as many characters as the
  host sent: an empty identifier creates the PCM decoder, and each non-empty prefix of the name of the
  mixer, even one letter, creates the mixer.\<close>

theorem component_class_prefix:
  "component_class d ident 0 = Some Class_Pcm \<and>
   (0 < n \<longrightarrow> unat n \<le> 5 \<longrightarrow> (\<forall>i<unat n. d (ident + of_nat i) = of_char (''mixer'' ! i)) \<longrightarrow>
      component_class d ident n = Some Class_Mixer)"
proof (intro conjI impI)
  show "component_class d ident 0 = Some Class_Pcm" by (simp add: component_class_def xf_component_id_def)
  assume n: "0 < n" "unat n \<le> 5" and d: "\<forall>i<unat n. d (ident + of_nat i) = of_char (''mixer'' ! i)"
  have "strncmp_equal d ident ''mixer'' (unat n)" by (rule strncmp_prefix) (use n d in simp_all)
  moreover obtain m where m: "unat n = Suc m" using n(1) by (cases "unat n") (auto simp: word_less_nat_alt)
  moreover have "d ident = of_char CHR ''m''" using d [rule_format, of 0] m by simp
  ultimately show "component_class d ident n = Some Class_Mixer" by (simp add: component_class_def xf_component_id_def)
qed

section \<open>Creation of a component\<close>

lemma class_created:
  fixes z :: "'a XACodecBase_scheme" and p :: "'s xa_proc"
  assumes F: "mm_free_set lo hi (c_local_pool cd) (c_mem cd) F" and lo: "64 < lo"
    and sz: "mm_size_ok sz" "sizeof_XACodecBase \<le> sz" and z: "held (xb_api z) = []" "held (xb_mem_tabs z) = []" "held (xb_persist z) = []"
  obtains s base where
    "Option.bind (xa_base_factory p z 0 sz cd w) (\<lambda>(s, base).
       if base = 0 then Some (s, 0) else Some (upd_obj (\<lambda>c. c\<lparr>xb_exit := XA_Cleanup\<rparr>) s, base)) = Some (s, base)"
    and "new_memory cd (xs_core s)"
    and "base = 0 \<Longrightarrow> mm_free_set lo hi (c_local_pool cd) (c_mem (xs_core s)) F"
    and "base \<noteq> 0 \<Longrightarrow> 64 < unat base \<and> span base sz \<subseteq> F"
    and "base \<noteq> 0 \<Longrightarrow> \<exists>G \<subseteq> F - span base sz. mm_free_set lo hi (c_local_pool cd) (c_mem (xs_core s)) G"
proof -
  have "0 < lo" using lo by simp
  from F this sz z obtain s base where f: "xa_base_factory p z 0 sz cd w = Some (s, base)"
    and c: "base = 0 \<Longrightarrow> mm_free_set lo hi (c_local_pool cd) (c_mem (xs_core s)) F" "base \<noteq> 0 \<Longrightarrow> owned lo hi F sz s"
      "base \<noteq> 0 \<Longrightarrow> xs_self s = base" "base \<noteq> 0 \<Longrightarrow> c_comp_id (xs_core s) base = 0"
      "base \<noteq> 0 \<Longrightarrow> c_local_pool (xs_core s) = c_local_pool cd" "base \<noteq> 0 \<Longrightarrow> xb_state (xs_obj s) = xb_state z"
      "base \<noteq> 0 \<Longrightarrow> XACodecBase.more (xs_obj s) = XACodecBase.more z"
    by (rule base_factory_owned [where p = p and w = w]) simp_all
  have n: "new_memory cd (xs_core s)" by (rule base_factory_grows [OF f])
  show thesis
  proof (cases "base = 0")
    case True
    show thesis by (rule that [of s 0]) (use True f n c(1) in simp_all)
  next
    case False
    have i: "span base sz \<subseteq> spans (comp_held sz s)" "spans (comp_held sz s) \<subseteq> F" "F \<subseteq> {lo ..< hi}"
      using c(2,3) False by (auto simp: comp_held_def owned_def)
    have "unat base \<in> span base sz" using sz(1) by (simp add: unat_gt_0)
    then have "unat base \<in> {lo ..< hi}" using i by blast
    then have b: "64 < unat base" using lo by simp
    have g: "mm_free_set lo hi (c_local_pool cd) (c_mem (xs_core s)) (F - spans (comp_held sz s))"
      using c(2,5) False by (simp add: owned_def)
    show thesis
      by (rule that [of "upd_obj (\<lambda>c. c\<lparr>xb_exit := XA_Cleanup\<rparr>) s" base]) (use False f n b i g in \<open>auto simp: upd_obj_def\<close>)
  qed
qed

text \<open>With enough contiguous free memory there is no failure, for a plugin that reports a fixed size for its
  structure, accepts its initialisation and needs no tables.\<close>

lemma room_left:
  assumes "{x ..< x + n1 + 2 * n2} \<subseteq> F"
  shows "\<exists>y. {y ..< y + n2} \<subseteq> F - {a ..< a + (n1 :: nat)}"
proof (cases "x + n2 \<le> a")
  case True
  then have "{x ..< x + n2} \<subseteq> F - {a ..< a + n1}" using assms by auto
  then show ?thesis by blast
next
  case False
  then have "{x + n1 + n2 ..< x + n1 + n2 + n2} \<subseteq> F - {a ..< a + n1}" using assms by auto
  then show ?thesis by blast
qed

lemma aligned_4: "32 dvd unat (a :: addr) \<Longrightarrow> a AND (4 - 1) = 0"
proof -
  assume "32 dvd unat a"
  then have d: "4 dvd unat a" using dvd_trans [of 4 32 "unat a"] by simp
  have "a AND (4 - 1) = take_bit 2 a" by (simp add: take_bit_eq_mask mask_eq_exp_minus_1)
  moreover have "unat (take_bit 2 a) = 0" using d unfolding unsigned_take_bit_eq take_bit_eq_mod [where 'a = nat] by simp
  ultimately show ?thesis by (simp add: unat_eq_0)
qed

text \<open>A plugin that can be created: it reports n bytes for its structure, accepts the initialisation, and
  reports t bytes of memory tables, of which it accepts the address when there are any.\<close>

definition creates :: "'s xa_proc \<Rightarrow> 's \<Rightarrow> u32 \<Rightarrow> u32 \<Rightarrow> bool" where
  "creates p w n t \<longleftrightarrow>
     XF_MM n \<noteq> 0 \<and> (t \<noteq> 0 \<longrightarrow> XF_MM t \<noteq> 0) \<and>
     (\<exists>w1 v. (\<forall>d. p 0 XA_API_CMD_GET_API_SIZE 0 PvOut d w = (d, w, n, XA_NO_ERROR)) \<and>
        (\<forall>d a. a \<noteq> 0 \<longrightarrow> p a XA_API_CMD_INIT XA_CMD_TYPE_INIT_API_PRE_CONFIG_PARAMS PvNull d w = (d, w1, v, XA_NO_ERROR)) \<and>
        (\<forall>d a. a \<noteq> 0 \<longrightarrow> p a XA_API_CMD_GET_MEMTABS_SIZE 0 PvOut d w1 = (d, w1, t, XA_NO_ERROR)) \<and>
        (t \<noteq> 0 \<longrightarrow> (\<forall>d a b. a \<noteq> 0 \<longrightarrow> b \<noteq> 0 \<longrightarrow> snd (snd (snd (p a XA_API_CMD_SET_MEMTABS_PTR 0 (PvPtr b) d w1))) = XA_NO_ERROR)))"

lemma XF_MM_nonzero_ok: "XF_MM n \<noteq> 0 \<Longrightarrow> mm_size_ok (XF_MM n)"
  unfolding XF_MM_def by (metis dvd_triv_left unat_and_not_31 unat_gt_0)

lemma class_room:
  fixes z :: "'a XACodecBase_scheme" and p :: "'s xa_proc"
  assumes F: "mm_free_set lo hi (c_local_pool cd) (c_mem cd) F" and lo: "0 < lo"
    and sz: "mm_size_ok sz" "sizeof_XACodecBase \<le> sz" and z: "xb_state z = 0" "xb_api z = \<lparr>mb_addr = 0, mb_size = 0\<rparr>"
    and p: "creates p w n t"
    and room: "{x ..< x + unat sz + 2 * (unat (XF_MM n) + 2 * unat (XF_MM t))} \<subseteq> F"
    and f: "xa_base_factory p z 0 sz cd w = Some (s, base)"
  shows "base \<noteq> 0"
proof
  assume b: "base = 0"
  let ?z = "\<lparr>parent = 0, left = 0, right = 0, color = 0\<rparr>"
  from p have pn: "XF_MM n \<noteq> 0" "t \<noteq> 0 \<Longrightarrow> XF_MM t \<noteq> 0" by (simp_all add: creates_def)
  from p obtain w1 v where
    "\<forall>d. p 0 XA_API_CMD_GET_API_SIZE 0 PvOut d w = (d, w, n, XA_NO_ERROR)"
    "\<forall>d a. a \<noteq> 0 \<longrightarrow> p a XA_API_CMD_INIT XA_CMD_TYPE_INIT_API_PRE_CONFIG_PARAMS PvNull d w = (d, w1, v, XA_NO_ERROR)"
    "\<forall>d a. a \<noteq> 0 \<longrightarrow> p a XA_API_CMD_GET_MEMTABS_SIZE 0 PvOut d w1 = (d, w1, t, XA_NO_ERROR)"
    "t \<noteq> 0 \<longrightarrow> (\<forall>d a b. a \<noteq> 0 \<longrightarrow> b \<noteq> 0 \<longrightarrow> snd (snd (snd (p a XA_API_CMD_SET_MEMTABS_PTR 0 (PvPtr b) d w1))) = XA_NO_ERROR)"
    unfolding creates_def by (elim conjE exE) (rule that)
  note p1 = this(1) [rule_format] and p2 = this(2) [rule_format] and p3 = this(3) [rule_format] and p4 = this(4) [rule_format]
  have n: "mm_size_ok (XF_MM n)" using pn(1) by (rule XF_MM_nonzero_ok)
  have "{x ..< x + unat sz} \<subseteq> F" using room by auto
  then obtain h a where a: "xf_mem_alloc sz 0 0 0 cd = Some (cd\<lparr>c_mem := h\<rparr>, a)" "a \<noteq> 0" "span a sz \<subseteq> F"
    "mm_free_set lo hi (c_local_pool cd) h (F - span a sz)"
    using xf_mem_alloc_cases [OF F sz(1) lo, where al = 0 and s = 0] by blast
  have ina: "unat a \<in> span a sz" using sz(1) by (simp add: unat_gt_0)
  then have "unat a \<in> {lo ..< hi}" using a(3) mm.inv_range [OF F] by blast
  then have h: "mm_free_set lo hi (c_local_pool cd) (h(a := ?z)) (F - span a sz)"
    using ina by (intro mm_free_set_out [OF a(4)]) simp_all
  define c1 where "c1 = cd\<lparr>c_mem := h(a := ?z), c_comp_id := (c_comp_id cd)(a := 0)\<rparr>"
  have h1: "mm_free_set lo hi (c_local_pool c1) (c_mem c1) (F - span a sz)" using h by (simp add: c1_def)
  obtain y where y: "{y ..< y + (unat (XF_MM n) + 2 * unat (XF_MM t))} \<subseteq> F - span a sz" using room_left [OF room] by blast
  then have "{y ..< y + unat (XF_MM n)} \<subseteq> F - span a sz" by (rule order_trans [rotated]) auto
  then obtain h2 a2 where a2: "xf_mem_alloc (XF_MM n) 4 0 0 c1 = Some (c1\<lparr>c_mem := h2\<rparr>, a2)" "a2 \<noteq> 0" "32 dvd unat a2"
    "mm_free_set lo hi (c_local_pool c1) h2 (F - span a sz - span a2 (XF_MM n))"
    using xf_mem_alloc_cases [OF h1 n lo, where al = 4 and s = 0] by blast
  obtain y2 where y2: "{y2 ..< y2 + unat (XF_MM t)} \<subseteq> F - span a sz - span a2 (XF_MM n)"
    using room_left [OF y [unfolded add.assoc [symmetric]]] by blast
  have a3: "\<exists>h3 a3. xf_mem_alloc (XF_MM t) 4 0 0 (c1\<lparr>c_mem := h2\<rparr>) = Some (c1\<lparr>c_mem := h3\<rparr>, a3) \<and> a3 \<noteq> 0 \<and> 32 dvd unat a3"
    if "t \<noteq> 0"
  proof -
    have "mm_free_set lo hi (c_local_pool (c1\<lparr>c_mem := h2\<rparr>)) (c_mem (c1\<lparr>c_mem := h2\<rparr>)) (F - span a sz - span a2 (XF_MM n))"
      using a2(4) by simp
    from this XF_MM_nonzero_ok [OF pn(2) [OF that]] lo show ?thesis
    proof (cases rule: xf_mem_alloc_cases [where al = 4 and s = 0])
      case (2 h' a')
      then show ?thesis by (intro exI [of _ h'] exI [of _ a']) simp
    qed (use y2 in blast)
  qed
  let ?s0 = "\<lparr>xs_core = c1, xs_self = a, xs_obj = z\<lparr>xb_entry := XA_Command\<rparr>, xs_plug = w\<rparr>"
  have "\<exists>s1. xa_base_preinit p 0 ?s0 = Some (s1, XA_NO_ERROR)"
  proof (cases "t = 0")
    case True
    then show ?thesis using a2(1,2) pn(1) aligned_4 [OF a2(3)] p3
      by (simp add: xa_base_preinit_def XF_CHK_def z XA_API_def xa_call_def p1 p2 XMALLOC_def xf_mm_alloc_buffer_def Let_def)
  next
    case False
    then obtain h3 a3 where 3: "xf_mem_alloc (XF_MM t) 4 0 0 (c1\<lparr>c_mem := h2\<rparr>) = Some (c1\<lparr>c_mem := h3\<rparr>, a3)" "a3 \<noteq> 0" "32 dvd unat a3"
      using a3 by blast
    show ?thesis using a2(1,2) pn(1) aligned_4 [OF a2(3)] 3(1,2) aligned_4 [OF 3(3)] False pn(2) p4 [OF False a2(2) 3(2), of "c_data c1"]
      by (simp add: xa_base_preinit_def XF_CHK_def z XA_API_def xa_call_def p1 p2 p3 XMALLOC_def xf_mm_alloc_buffer_def Let_def
          split: prod.split) auto
  qed
  then obtain s1 where "xa_base_preinit p 0 ?s0 = Some (s1, XA_NO_ERROR)" by blast
  then have "xa_base_factory p z 0 sz cd w = Some (s1, a)"
    using a(1,2) sz(2) unfolding xa_base_factory_def by (simp add: Let_def upd_core_def upd_obj_def c1_def)
  then show False using f b a(2) by simp
qed

text \<open>A new component of a class, and its size.\<close>

fun fresh_component :: "xa_class_id \<Rightarrow> 'v xa_component \<Rightarrow> bool" where
  "fresh_component Class_Pcm (Pcm_Component obj ps) \<longleftrightarrow> xb_state obj = 0 \<and> xb_entry obj = XA_Command \<and> xb_exit obj = XA_Cleanup"
| "fresh_component Class_Vorbis (Vorbis_Component obj ps) \<longleftrightarrow> xb_state obj = 0 \<and> xb_entry obj = XA_Command \<and> xb_exit obj = XA_Cleanup"
| "fresh_component Class_Mixer (Mixer_Component obj ps) \<longleftrightarrow> xb_state obj = 0 \<and> xb_entry obj = XA_Command \<and> xb_exit obj = XA_Cleanup"
| "fresh_component _ _ \<longleftrightarrow> False"

fun component_size :: "xa_class_id \<Rightarrow> u32" where
  "component_size Class_Pcm = XF_MM sizeof_XAAudioCodec"
| "component_size Class_Vorbis = XF_MM sizeof_XAAudioCodec"
| "component_size Class_Mixer = XF_MM sizeof_XAMixer"

text \<open>When creation may fail, by class: with less than 512 contiguous free bytes; for the vorbis decoder, whose
  library is not known, when the library does not accept the calls of the creation or there is not that much
  contiguous memory for what it asks. The last argument is the set of free bytes, ps the initial content of
  the object of the library.\<close>

fun class_refused :: "'v xa_proc \<Rightarrow> 'v \<Rightarrow> xa_class_id \<Rightarrow> nat set \<Rightarrow> bool" where
  "class_refused lib ps Class_Vorbis F \<longleftrightarrow>
     (\<forall>n t. creates lib ps n t \<longrightarrow> (\<nexists>x. {x ..< x + 192 + 2 * (unat (XF_MM n) + 2 * unat (XF_MM t))} \<subseteq> F))"
| "class_refused lib ps _ F \<longleftrightarrow> (\<nexists>x. {x ..< x + 512} \<subseteq> F)"

text \<open>What creation gives: nothing, with all memory free again, or a new component in memory that was free.\<close>

definition component_made ::
  "'v xa_proc \<Rightarrow> 'v \<Rightarrow> nat \<Rightarrow> nat \<Rightarrow> nat set \<Rightarrow> xf_core \<Rightarrow> 'v xa_system \<Rightarrow> xa_class_id option \<Rightarrow> xf_core \<Rightarrow> 'v xa_system \<Rightarrow> addr \<Rightarrow> bool"
where
  "component_made lib ps lo hi F cd w k cd' w' c \<longleftrightarrow>
     new_memory cd cd' \<and>
     (case k of
        None \<Rightarrow> cd' = cd \<and> w' = w \<and> c = 0
      | Some k \<Rightarrow>
          if c = 0 then w' = w \<and> mm_free_set lo hi (c_local_pool cd) (c_mem cd') F \<and> class_refused lib ps k F
          else 64 < unat c \<and> span c (component_size k) \<subseteq> F \<and>
            (\<exists>G \<subseteq> F - span c (component_size k). mm_free_set lo hi (c_local_pool cd) (c_mem cd') G) \<and>
            (\<exists>x. w' c = Some x \<and> fresh_component k x) \<and> (\<forall>b. b \<noteq> c \<longrightarrow> w' b = w b))"

text \<open>The two plugins of the repository do not fail when they are created, and the wrapper of the vorbis library
  does not when the library does not.\<close>

lemma plugin_sizes: "XF_MM 64 = (64 :: u32)" "XF_MM 88 = (96 :: u32)" "XF_MM 0 = (0 :: u32)"
proof -
  have "unat (XF_MM (64 :: u32)) = 64" "unat (XF_MM (88 :: u32)) = 96" "unat (XF_MM (0 :: u32)) = 0" by (simp_all add: XF_MM_unat)
  then show "XF_MM 64 = (64 :: u32)" "XF_MM 88 = (96 :: u32)" "XF_MM 0 = (0 :: u32)" by (simp_all add: word_unat_eq_iff)
qed

lemma pcm_creates: "creates (xa_pcm_codec u) w 64 0"
  unfolding creates_def
  by (intro conjI exI [of _ pcm_default] exI [of _ u])
    (simp_all add: plugin_sizes pcm_api_defs xa_pcm_get_api_size_def xa_pcm_init_def xa_pcm_get_memtabs_size_def
      sizeof_XAPcmCodec_def pcm_flag_defs)

lemma mixer_creates: "creates (xa_mixer u) w 88 0"
  unfolding creates_def
  by (intro conjI exI [of _ "xa_mixer_preinit\<lparr>pm_state := XA_MIXER_FLAG_PREINIT_DONE\<rparr>"] exI [of _ u])
    (simp_all add: plugin_sizes mixer_plugin_eval xa_mixer_get_api_size_def xa_mixer_get_memtabs_size_def sizeof_XAPcmMixer_def)

lemma vorbis_creates: "creates lib w n t \<Longrightarrow> creates (xa_vorbis_decoder lib) w n t"
  by (simp add: creates_def xa_vorbis_decoder_def XA_API_CMD_GET_CONFIG_PARAM_def XA_API_CMD_GET_API_SIZE_def XA_API_CMD_INIT_def
      XA_API_CMD_GET_MEMTABS_SIZE_def XA_API_CMD_SET_MEMTABS_PTR_def)

text \<open>A component of the codec class around any plugin.\<close>

lemma codec_made:
  assumes F: "mm_free_set lo hi (c_local_pool cd) (c_mem cd) F" and lo: "64 < lo"
  obtains s base where "xa_audio_codec_factory p 0 cd w = Some (s, base)" and "new_memory cd (xs_core s)"
    and "base = 0 \<Longrightarrow> mm_free_set lo hi (c_local_pool cd) (c_mem (xs_core s)) F"
    and "\<And>n t x. base = 0 \<Longrightarrow> creates p w n t \<Longrightarrow> \<not> {x ..< x + 192 + 2 * (unat (XF_MM n) + 2 * unat (XF_MM t))} \<subseteq> F"
    and "base \<noteq> 0 \<Longrightarrow> 64 < unat base \<and> span base 192 \<subseteq> F \<and>
      (\<exists>G \<subseteq> F - span base 192. mm_free_set lo hi (c_local_pool cd) (c_mem (xs_core s)) G) \<and>
      xb_state (xs_obj s) = 0 \<and> xb_entry (xs_obj s) = XA_Command \<and> xb_exit (xs_obj s) = XA_Cleanup"
proof -
  have n: "mm_size_ok (192 :: u32)" "sizeof_XACodecBase \<le> (192 :: u32)" and lo0: "0 < lo"
    using lo by (simp_all add: sizeof_XACodecBase_def)
  from F lo n obtain s base where f: "xa_audio_codec_factory p 0 cd w = Some (s, base)"
    and s: "new_memory cd (xs_core s)" "base = 0 \<Longrightarrow> mm_free_set lo hi (c_local_pool cd) (c_mem (xs_core s)) F"
      "base \<noteq> 0 \<Longrightarrow> 64 < unat base \<and> span base 192 \<subseteq> F"
      "base \<noteq> 0 \<Longrightarrow> \<exists>G \<subseteq> F - span base 192. mm_free_set lo hi (c_local_pool cd) (c_mem (xs_core s)) G"
    unfolding xa_audio_codec_factory_def codec_size
    by (rule class_created [where z = codec_zero and p = p and w = w]) (simp_all add: held_def codec_zero_def)
  have no: "\<not> {x ..< x + 192 + 2 * (unat (XF_MM n) + 2 * unat (XF_MM t))} \<subseteq> F" if "base = 0" "creates p w n t" for n t x
  proof
    assume x: "{x ..< x + 192 + 2 * (unat (XF_MM n) + 2 * unat (XF_MM t))} \<subseteq> F"
    from f that(1) obtain s1 where "xa_base_factory p codec_zero 0 192 cd w = Some (s1, 0)"
      by (auto simp: xa_audio_codec_factory_def codec_size bind_eq_Some_conv split: if_splits)
    from class_room [OF F lo0 n _ _ that(2) _ this] x show False by (simp add: codec_zero_def)
  qed
  have "64 < unat base \<and> span base 192 \<subseteq> F \<and> (\<exists>G \<subseteq> F - span base 192. mm_free_set lo hi (c_local_pool cd) (c_mem (xs_core s)) G) \<and>
      xb_state (xs_obj s) = 0 \<and> xb_entry (xs_obj s) = XA_Command \<and> xb_exit (xs_obj s) = XA_Cleanup" if "base \<noteq> 0"
    using s(3,4) [OF that] codec_factory_state [OF f that] by blast
  with f s(1,2) no show thesis by (rule that)
qed

lemma component_factory_spec:
  assumes F: "mm_free_set lo hi (c_local_pool cd) (c_mem cd) F" and lo: "64 < lo" and i: "ident \<noteq> 0 \<or> n = 0"
  shows "\<exists>cd' w' c. xf_component_factory lib u g 0 ident n cd w = Some (cd', w', c) \<and>
    component_made lib (fst (snd g)) lo hi F cd w (component_class (c_data cd) ident n) cd' w' c"
proof (cases "component_class (c_data cd) ident n")
  case None
  then show ?thesis using i by (auto simp: xf_component_factory_def component_made_def)
next
  case (Some k)
  have lo0: "0 < lo" using lo by simp
  show ?thesis
  proof (cases k)
    case Class_Pcm
    obtain s base where f: "xa_audio_codec_factory (xa_pcm_codec u) 0 cd (fst g) = Some (s, base)"
      and s: "new_memory cd (xs_core s)" "base = 0 \<Longrightarrow> mm_free_set lo hi (c_local_pool cd) (c_mem (xs_core s)) F"
      and no: "\<And>n t x. base = 0 \<Longrightarrow> creates (xa_pcm_codec u) (fst g) n t \<Longrightarrow>
        \<not> {x ..< x + 192 + 2 * (unat (XF_MM n) + 2 * unat (XF_MM t))} \<subseteq> F"
      and c: "base \<noteq> 0 \<Longrightarrow> 64 < unat base \<and> span base 192 \<subseteq> F \<and>
        (\<exists>G \<subseteq> F - span base 192. mm_free_set lo hi (c_local_pool cd) (c_mem (xs_core s)) G) \<and>
        xb_state (xs_obj s) = 0 \<and> xb_entry (xs_obj s) = XA_Command \<and> xb_exit (xs_obj s) = XA_Cleanup"
      by (rule codec_made [OF F lo]) blast
    have "base \<noteq> 0" if x: "{x ..< x + 512} \<subseteq> F" for x
    proof
      assume b: "base = 0"
      have "{x ..< x + 192 + 2 * (unat (XF_MM 64) + 2 * unat (XF_MM 0))} \<subseteq> {x ..< x + 512}" by (simp add: plugin_sizes)
      with no [OF b pcm_creates, of x] x show False by blast
    qed
    with f s c show ?thesis using Some Class_Pcm i
      by (simp add: xf_component_factory_def add_component_def component_made_def codec_size) blast
  next
    case Class_Vorbis
    obtain s base where f: "xa_audio_codec_factory (xa_vorbis_decoder lib) 0 cd (fst (snd g)) = Some (s, base)"
      and s: "new_memory cd (xs_core s)" "base = 0 \<Longrightarrow> mm_free_set lo hi (c_local_pool cd) (c_mem (xs_core s)) F"
      and no: "\<And>n t x. base = 0 \<Longrightarrow> creates (xa_vorbis_decoder lib) (fst (snd g)) n t \<Longrightarrow>
        \<not> {x ..< x + 192 + 2 * (unat (XF_MM n) + 2 * unat (XF_MM t))} \<subseteq> F"
      and c: "base \<noteq> 0 \<Longrightarrow> 64 < unat base \<and> span base 192 \<subseteq> F \<and>
        (\<exists>G \<subseteq> F - span base 192. mm_free_set lo hi (c_local_pool cd) (c_mem (xs_core s)) G) \<and>
        xb_state (xs_obj s) = 0 \<and> xb_entry (xs_obj s) = XA_Command \<and> xb_exit (xs_obj s) = XA_Cleanup"
      by (rule codec_made [OF F lo]) blast
    have "class_refused lib (fst (snd g)) Class_Vorbis F" if b: "base = 0"
      unfolding class_refused.simps not_ex using no [OF b vorbis_creates] by (intro allI impI)
    with f s c show ?thesis using Some Class_Vorbis i
      by (simp add: xf_component_factory_def add_component_def component_made_def codec_size)
  next
    case Class_Mixer
    have n: "mm_size_ok (320 :: u32)" "sizeof_XACodecBase \<le> (320 :: u32)" by (simp_all add: sizeof_XACodecBase_def)
    from F lo n obtain s base where f: "xa_mixer_factory (xa_mixer u) 0 cd (snd (snd g)) = Some (s, base)"
      and s: "new_memory cd (xs_core s)" "base = 0 \<Longrightarrow> mm_free_set lo hi (c_local_pool cd) (c_mem (xs_core s)) F"
        "base \<noteq> 0 \<Longrightarrow> 64 < unat base \<and> span base 320 \<subseteq> F"
        "base \<noteq> 0 \<Longrightarrow> \<exists>G \<subseteq> F - span base 320. mm_free_set lo hi (c_local_pool cd) (c_mem (xs_core s)) G"
      unfolding xa_mixer_factory_def mixer_size
      by (rule class_created [where z = mixer_zero and p = "xa_mixer u" and w = "snd (snd g)"]) (simp_all add: held_def mixer_zero_def)
    have "base \<noteq> 0" if x: "{x ..< x + 512} \<subseteq> F" for x
    proof
      assume b: "base = 0"
      with f obtain s1 where "xa_base_factory (xa_mixer u) mixer_zero 0 320 cd (snd (snd g)) = Some (s1, 0)"
        by (auto simp: xa_mixer_factory_def mixer_size bind_eq_Some_conv split: if_splits)
      have "{x ..< x + unat (320 :: u32) + 2 * (unat (XF_MM 88) + 2 * unat (XF_MM 0))} \<subseteq> {x ..< x + 512}" by (simp add: plugin_sizes)
      with x have "{x ..< x + unat (320 :: u32) + 2 * (unat (XF_MM 88) + 2 * unat (XF_MM 0))} \<subseteq> F" by blast
      from class_room [OF F lo0 n _ _ mixer_creates this \<open>xa_base_factory _ _ _ _ _ _ = _\<close>] show False by (simp add: mixer_zero_def)
    qed
    then show ?thesis using Some Class_Mixer i s f mixer_factory_state [OF f]
      by (simp add: xf_component_factory_def add_component_def component_made_def mixer_size) blast
  qed
qed

text \<open>C40: The class factory always returns, for every identifier, and touches memory only. An identifier that names no
  class gives NULL and changes nothing. Otherwise the result is a component of the named class at an address
  above the client ids, not yet configured, in memory that was free; only when there are no 512 contiguous
  free bytes can it be NULL instead, and then all memory is free again. For the vorbis decoder, whose
  library may be any function, it can also be NULL when the library refuses a call of the creation, and the
  contiguous bytes that make it succeed depend on the sizes the library reports.\<close>

theorem component_factory_correct:
  assumes "mm_free_set lo hi (c_local_pool cd) (c_mem cd) F" and "64 < lo" and "ident \<noteq> 0 \<or> n = 0"
  shows "\<exists>cd' w' c. f_factory (xf_system al lib u v g) 0 ident n cd w = Some (cd', w', c) \<and>
    component_made lib (fst (snd g)) lo hi F cd w (component_class (c_data cd) ident n) cd' w' c"
  using component_factory_spec [OF assms, of lib u g w] by (simp add: xf_system_def)

section \<open>Registration\<close>

text \<open>C38: Registration on the closed system. Whatever identifier the host sends (at an address, or empty), the command is
  answered. If a client id is free, the identifier names a class, there is memory for it and, for the vorbis
  decoder, its library accepts the calls of the creation, the new component, not yet configured and made
  from free memory, gets that id and the answer comes from it. Otherwise the answer is the failure response,
  and the client map, the components and the free memory are as before.\<close>

theorem system_registers:
  assumes r: "msg_ready cd P L m" and o: "m_opcode (c_msgs cd m) = XF_REGISTER" and I: "cmap_inv cd F R"
    and M: "mm_free_set lo hi (c_local_pool cd) (c_mem cd) S" "64 < lo" and b: "m_buffer (c_msgs cd m) \<noteq> 0 \<or> m_length (c_msgs cd m) = 0"
  shows "\<exists>cd' w'. xf_proxy_command al (xf_system al lib u v g) 0 m cd w = Some (cd', w') \<and>
    ((F = [] \<or> component_class (c_data cd) (m_buffer (c_msgs cd m)) (m_length (c_msgs cd m)) = None \<or>
          (\<exists>k. component_class (c_data cd) (m_buffer (c_msgs cd m)) (m_length (c_msgs cd m)) = Some k \<and> class_refused lib (fst (snd g)) k S)) \<and>
       cmap_inv cd' F R \<and> w' = w \<and> mm_free_set lo hi (c_local_pool cd) (c_mem cd') S \<and>
       answered cd P L m (m_id (c_msgs cd m)) XF_UNREGISTER 0 (m_buffer (c_msgs cd m)) cd' \<or>
     (\<exists>c k x. F \<noteq> [] \<and> component_class (c_data cd) (m_buffer (c_msgs cd m)) (m_length (c_msgs cd m)) = Some k \<and>
       span c (component_size k) \<subseteq> S \<and> (\<exists>G \<subseteq> S - span c (component_size k). mm_free_set lo hi (c_local_pool cd) (c_mem cd') G) \<and>
       w' c = Some x \<and> fresh_component k x \<and> (\<forall>b. b \<noteq> c \<longrightarrow> w' b = w b) \<and>
       cmap_inv cd' (tl F) (R(hd F \<mapsto> c)) \<and> xf_client_lookup cd' (hd F) = Some c \<and>
       answered cd P L m (registered_id (hd F) (m_id (c_msgs cd m))) XF_REGISTER 0 (m_buffer (c_msgs cd m)) cd'))"
proof -
  let ?e = "xf_system al lib u v g" and ?c1 = "fst (xf_client_alloc cd)" and ?b = "m_buffer (c_msgs cd m)" and ?n = "m_length (c_msgs cd m)"
  have c1: "c_mem ?c1 = c_mem cd" "c_data ?c1 = c_data cd" "c_local_pool ?c1 = c_local_pool cd"
    by (simp_all add: xf_client_alloc_def Let_def)
  have "mm_free_set lo hi (c_local_pool ?c1) (c_mem ?c1) S" using M(1) unfolding c1 .
  from component_factory_spec [OF this M(2) b, of lib u g w] obtain cd2 w' c
    where f: "f_factory ?e 0 ?b ?n ?c1 w = Some (cd2, w', c)" and made: "component_made lib (fst (snd g)) lo hi S ?c1 w (component_class (c_data cd) ?b ?n) cd2 w' c"
    by (auto simp: xf_system_def c1)
  have new: "cd2 = ?c1\<lparr>c_mem := c_mem cd2, c_data := c_data cd2, c_comp_id := c_comp_id cd2\<rparr>"
    using made by (simp add: component_made_def new_memory_def)
  have "c = 0 \<or> XF_CFG_MAX_CLIENTS < c"
    using made by (auto simp: component_made_def XF_CFG_MAX_CLIENTS_def word_less_nat_alt split: option.splits if_splits)
  then have "factory_ok ?e ?b ?n ?c1 w" unfolding factory_ok_def using f new by metis
  from proxy_register_spec [OF r o I this, of al] obtain cd' w2 c2 where p: "xf_proxy_command al ?e 0 m cd w = Some (cd', w2)"
    "if F = [] then w2 = w \<and> c_mem cd' = c_mem cd
     else \<exists>cd2. f_factory ?e 0 ?b ?n ?c1 w = Some (cd2, w2, c2) \<and> c_mem cd' = c_mem cd2"
    "if F = [] \<or> c2 = 0 then
       cmap_inv cd' F R \<and> answered cd P L m (m_id (c_msgs cd m)) XF_UNREGISTER 0 ?b cd'
     else
       cmap_inv cd' (tl F) (R(hd F \<mapsto> c2)) \<and> xf_client_lookup cd' (hd F) = Some c2 \<and>
       c_comp_id cd' c2 = XF_PORT_SPEC 0 (hd F) 0 \<and>
       answered cd P L m (registered_id (hd F) (m_id (c_msgs cd m))) XF_REGISTER 0 ?b cd'" by blast
  show ?thesis
  proof (cases "F = []")
    case True
    then show ?thesis using p M(1) by auto
  next
    case False
    then have q: "w2 = w'" "c2 = c" "c_mem cd' = c_mem cd2" using p(2) f by auto
    show ?thesis
    proof (cases "c = 0")
      case True
      then have "w' = w" "mm_free_set lo hi (c_local_pool cd) (c_mem cd2) S"
        "component_class (c_data cd) ?b ?n = None \<or> (\<exists>k. component_class (c_data cd) ?b ?n = Some k \<and> class_refused lib (fst (snd g)) k S)"
        using made M(1) by (auto simp: component_made_def c1 split: option.splits)
      then show ?thesis using p(1,3) q True by auto
    next
      case False
      then obtain k where k: "component_class (c_data cd) ?b ?n = Some k" using made by (auto simp: component_made_def split: option.splits)
      then obtain x where x: "span c (component_size k) \<subseteq> S" "w' c = Some x" "fresh_component k x" "\<forall>b. b \<noteq> c \<longrightarrow> w' b = w b"
        and G: "\<exists>G \<subseteq> S - span c (component_size k). mm_free_set lo hi (c_local_pool cd) (c_mem cd') G"
        using made False unfolding q(3) by (auto simp: component_made_def c1)
      have a: "cmap_inv cd' (tl F) (R(hd F \<mapsto> c))" "xf_client_lookup cd' (hd F) = Some c"
        "answered cd P L m (registered_id (hd F) (m_id (c_msgs cd m))) XF_REGISTER 0 ?b cd'"
        using p(3) False \<open>F \<noteq> []\<close> unfolding q(2) by simp_all
      have pc: "xf_proxy_command al ?e 0 m cd w = Some (cd', w')" using p(1) unfolding q(1) .
      show ?thesis
        by (intro exI [of _ cd'] exI [of _ w'] conjI disjI2 exI [of _ c] exI [of _ k] exI [of _ x]) (fact pc x G a k \<open>F \<noteq> []\<close>)+
    qed
  qed
qed

section \<open>The components in every history\<close>

definition system_typed :: "'v xa_system \<Rightarrow> bool" where
  "system_typed w \<longleftrightarrow>
     (\<forall>c. case w c of None \<Rightarrow> True | Some (Pcm_Component obj ps) \<Rightarrow> codec_typed (xb_state obj)
     | Some (Vorbis_Component obj ps) \<Rightarrow> codec_typed (xb_state obj) | Some (Mixer_Component obj ps) \<Rightarrow> mixer_typed obj)"

text \<open>A step of the system: a component is created, entered or left, or the rest of the framework changes.\<close>

inductive system_step :: "u32 \<Rightarrow> 'v xa_proc \<Rightarrow> xf_core \<times> 'v xa_system \<Rightarrow> xf_core \<times> 'v xa_system \<Rightarrow> bool" for al lib where
  created: "f_factory (xf_system al lib u v g) core ident n cd w = Some (cd', w', c) \<Longrightarrow> system_step al lib (cd, w) (cd', w')"
| entered: "f_entry (xf_system al lib u v g) c m cd w = Some (cd', w', r) \<Longrightarrow> system_step al lib (cd, w) (cd', w')"
| left: "f_exit (xf_system al lib u v g) c m cd w = Some (cd', w', r) \<Longrightarrow> system_step al lib (cd, w) (cd', w')"
| outside: "system_step al lib (cd, w) (cd', w)"

text \<open>What a call may do, of the class of the component it is made for.\<close>

lemma component_call:
  assumes "component_entry al lib u v c m cd w = Some (cd', w', r) \<or> component_exit al c m cd w = Some (cd', w', r)"
  shows "comp_frame cd cd'" and "\<And>b. b \<noteq> c \<Longrightarrow> w' b = w b" and "system_typed w \<Longrightarrow> system_typed w'"
proof -
  have "comp_frame cd cd' \<and> (\<forall>b. b \<noteq> c \<longrightarrow> w' b = w b) \<and> (system_typed w \<longrightarrow> system_typed w')"
  proof (cases "w c")
    case None
    then show ?thesis using assms by (simp add: component_entry_def component_exit_def)
  next
    case (Some x)
    show ?thesis
    proof (cases x)
      case (Pcm_Component obj ps)
      let ?s = "component_at c cd obj ps"
      obtain s where s: "codec_rel ?s s" "cd' = xs_core s" "w' = w(c \<mapsto> Pcm_Component (xs_obj s) (xs_plug s))"
        using assms Some Pcm_Component keepsD [OF codec_entry_R] keepsD [OF codec_exit_R]
        by (fastforce simp: component_entry_def component_exit_def set_component_def)
      have "codec_typed (xb_state obj) \<longrightarrow> codec_typed (xb_state (xs_obj s))" using s(1) by (simp add: codec_rel_def component_at_def)
      moreover have "codec_typed (xb_state obj)" if "system_typed w"
        using that Some Pcm_Component unfolding system_typed_def by (auto dest!: spec [of _ c])
      ultimately have "system_typed w \<longrightarrow> system_typed w'" unfolding s(3) by (simp add: system_typed_def)
      then show ?thesis using s by (simp add: codec_rel_def component_at_def)
    next
      case (Vorbis_Component obj ps)
      let ?s = "component_at c cd obj ps"
      obtain s where s: "codec_rel ?s s" "cd' = xs_core s" "w' = w(c \<mapsto> Vorbis_Component (xs_obj s) (xs_plug s))"
        using assms Some Vorbis_Component keepsD [OF codec_entry_R] keepsD [OF codec_exit_R]
        by (fastforce simp: component_entry_def component_exit_def set_component_def)
      have "codec_typed (xb_state obj) \<longrightarrow> codec_typed (xb_state (xs_obj s))" using s(1) by (simp add: codec_rel_def component_at_def)
      moreover have "codec_typed (xb_state obj)" if "system_typed w"
        using that Some Vorbis_Component unfolding system_typed_def by (auto dest!: spec [of _ c])
      ultimately have "system_typed w \<longrightarrow> system_typed w'" unfolding s(3) by (simp add: system_typed_def)
      then show ?thesis using s by (simp add: codec_rel_def component_at_def)
    next
      case (Mixer_Component obj ps)
      let ?s = "component_at c cd obj ps"
      obtain s where s: "mixer_rel ?s s" "cd' = xs_core s" "w' = w(c \<mapsto> Mixer_Component (xs_obj s) (xs_plug s))"
        using assms Some Mixer_Component keepsD [OF mixer_entry_R] keepsD [OF mixer_exit_R]
        by (fastforce simp: component_entry_def component_exit_def set_component_def)
      have "mixer_typed obj \<longrightarrow> mixer_typed (xs_obj s)" using s(1) by (simp add: mixer_rel_def component_at_def)
      moreover have "mixer_typed obj" if "system_typed w"
        using that Some Mixer_Component unfolding system_typed_def by (auto dest!: spec [of _ c])
      ultimately have "system_typed w \<longrightarrow> system_typed w'" unfolding s(3) by (simp add: system_typed_def)
      then show ?thesis using s by (simp add: mixer_rel_def component_at_def)
    qed
  qed
  then show "comp_frame cd cd'" "\<And>b. b \<noteq> c \<Longrightarrow> w' b = w b" "system_typed w \<Longrightarrow> system_typed w'" by auto
qed

lemma system_typed_upd:
  "system_typed w \<Longrightarrow> codec_typed (xb_state obj) \<Longrightarrow> system_typed (w(c \<mapsto> Pcm_Component obj ps))"
  "system_typed w \<Longrightarrow> codec_typed (xb_state obj) \<Longrightarrow> system_typed (w(c \<mapsto> Vorbis_Component obj vs))"
  "system_typed w \<Longrightarrow> mixer_typed mo \<Longrightarrow> system_typed (w(c \<mapsto> Mixer_Component mo ms))"
  by (simp_all add: system_typed_def)

lemma created_typed:
  assumes "xf_component_factory lib u g core ident n cd w = Some (cd', w', c)" and w: "system_typed w"
  shows "system_typed w'"
proof (cases "component_class (c_data cd) ident n")
  case None
  then show ?thesis using assms by (auto simp: xf_component_factory_def split: if_splits)
next
  case (Some k)
  show ?thesis
  proof (cases k)
    case Class_Pcm
    then obtain s where s: "xa_audio_codec_factory (xa_pcm_codec u) core cd (fst g) = Some (s, c)"
      "w' = (if c = 0 then w else w(c \<mapsto> Pcm_Component (xs_obj s) (xs_plug s)))"
      using assms(1) Some by (auto simp: xf_component_factory_def add_component_def split: if_splits)
    have "codec_typed (xb_state (xs_obj s))" if "c \<noteq> 0" using codec_factory_state(1) [OF s(1) that] by (simp add: codec_typed_iff)
    then show ?thesis using system_typed_upd(1) [OF w] w s(2) by simp
  next
    case Class_Vorbis
    then obtain s where s: "xa_audio_codec_factory (xa_vorbis_decoder lib) core cd (fst (snd g)) = Some (s, c)"
      "w' = (if c = 0 then w else w(c \<mapsto> Vorbis_Component (xs_obj s) (xs_plug s)))"
      using assms(1) Some by (auto simp: xf_component_factory_def add_component_def split: if_splits)
    have "codec_typed (xb_state (xs_obj s))" if "c \<noteq> 0" using codec_factory_state(1) [OF s(1) that] by (simp add: codec_typed_iff)
    then show ?thesis using system_typed_upd(2) [OF w] w s(2) by simp
  next
    case Class_Mixer
    then obtain s where s: "xa_mixer_factory (xa_mixer u) core cd (snd (snd g)) = Some (s, c)"
      "w' = (if c = 0 then w else w(c \<mapsto> Mixer_Component (xs_obj s) (xs_plug s)))"
      using assms(1) Some by (auto simp: xf_component_factory_def add_component_def split: if_splits)
    then show ?thesis using system_typed_upd(3) [OF w] w mixer_factory_typed [OF s(1)] by simp
  qed
qed

text \<open>C39: The closed system is safe in every history, from an empty system, for all messages, for every vorbis library
  and with whatever happens to the rest of the framework between the calls: every component is in a stage and every track in a mode of
  its class, a call of a component changes no other component, and of the framework only memory, messages
  and queues; the client map, the component ids, the pools' addresses and the rings stay as they are.\<close>

theorem system_components_safe:
  assumes "(system_step al lib)\<^sup>*\<^sup>* (cd0, Map.empty) (cd, w)"
  shows "system_typed w \<and>
    (\<forall>u v g c m cd' w' r. f_entry (xf_system al lib u v g) c m cd w = Some (cd', w', r) \<or> f_exit (xf_system al lib u v g) c m cd w = Some (cd', w', r) \<longrightarrow>
       comp_frame cd cd' \<and> c_cmap cd' = c_cmap cd \<and> c_free cd' = c_free cd \<and> (\<forall>b. b \<noteq> c \<longrightarrow> w' b = w b))"
proof
  have step: "system_typed (snd s')" if "system_step al lib s s'" "system_typed (snd s)" for s s'
    using that
  proof cases
    case (entered u v g c m cd w cd' w' r)
    then show ?thesis using component_call(3) [of al lib u v c m cd w cd' w' r] that(2) by (simp add: xf_system_def)
  next
    case (left u v g c m cd w cd' w' r)
    then show ?thesis using component_call(3) [of al lib u v c m cd w cd' w' r] that(2) by (simp add: xf_system_def)
  next
    case (created u v g core ident n cd w cd' w' c)
    then show ?thesis using created_typed [of lib u g core ident n cd w cd' w' c] that(2) by (simp add: xf_system_def)
  qed simp
  have "system_typed (snd s)" if "(system_step al lib)\<^sup>*\<^sup>* (cd0, Map.empty) s" for s
    using that by (induction rule: rtranclp_induct) (simp_all add: system_typed_def step [unfolded system_typed_def])
  from this [OF assms] show "system_typed w" by simp
  show "\<forall>u v g c m cd' w' r. f_entry (xf_system al lib u v g) c m cd w = Some (cd', w', r) \<or> f_exit (xf_system al lib u v g) c m cd w = Some (cd', w', r) \<longrightarrow>
       comp_frame cd cd' \<and> c_cmap cd' = c_cmap cd \<and> c_free cd' = c_free cd \<and> (\<forall>b. b \<noteq> c \<longrightarrow> w' b = w b)"
  proof (intro allI impI)
    fix u v g c m cd' w' r
    assume "f_entry (xf_system al lib u v g) c m cd w = Some (cd', w', r) \<or> f_exit (xf_system al lib u v g) c m cd w = Some (cd', w', r)"
    then have "component_entry al lib u v c m cd w = Some (cd', w', r) \<or> component_exit al c m cd w = Some (cd', w', r)"
      by (simp add: xf_system_def)
    from component_call(1,2) [OF this] show "comp_frame cd cd' \<and> c_cmap cd' = c_cmap cd \<and> c_free cd' = c_free cd \<and> (\<forall>b. b \<noteq> c \<longrightarrow> w' b = w b)"
      using comp_frame_fields [of cd cd'] by auto
  qed
qed

section \<open>Concrete runs\<close>

lemma component_class_prefix_witness:
  "component_class (\<lambda>a. if a = 4096 then 109 else 0) 4096 1 = Some Class_Mixer"
  using component_class_prefix [of "\<lambda>a. if a = 4096 then 109 else 0" 4096 1] by simp

text \<open>An empty pool of 512 bytes; the letter m at address 4096, the name of the vorbis decoder at address 5120. The
  PCM converter stands for the library.\<close>

definition demo_text :: "addr \<Rightarrow> u8" where
  "demo_text a = (if a = 4096 then 109 else if 5120 \<le> unat a \<and> unat a < 5140 then of_char (''audio-decoder/vorbis'' ! (unat a - 5120)) else 0)"

definition system_demo :: "rb_heap \<Rightarrow> xf_core" where
  "system_demo h = (cmd_demo 0x80008000 XF_REGISTER 0)\<lparr>c_mem := h, c_data := demo_text\<rparr>"

abbreviation demo_lib :: "XAPcmCodec xa_proc" where
  "demo_lib \<equiv> xa_pcm_codec 0"

abbreviation demo_init :: "XAPcmCodec \<times> XAPcmCodec \<times> XAPcmMixer" where
  "demo_init \<equiv> (xa_pcm_zero, xa_pcm_zero, xa_mixer_preinit)"

lemma system_demo_fields: "c_mem (system_demo h) = h" "c_local_pool (system_demo h) = 0" "c_data (system_demo h) = demo_text"
    "c_msgs (system_demo h) = c_msgs (cmd_demo 0x80008000 XF_REGISTER 0)"
  by (simp_all add: system_demo_def cmd_demo_def core_demo_def)

lemma strncmp_equal_numeral:
  "strncmp_equal d a [] (numeral k) \<longleftrightarrow> d a = 0"
  "strncmp_equal d a (c # s) (numeral k) \<longleftrightarrow> d a = of_char c \<and> strncmp_equal d (a + 1) s (pred_numeral k)"
  by (simp_all add: numeral_eq_Suc)

lemma system_demo_class:
  "component_class demo_text 4096 1 = Some Class_Mixer" "component_class demo_text 0 0 = Some Class_Pcm"
  "component_class demo_text 5120 20 = Some Class_Vorbis"
  by (simp_all add: component_class_def xf_component_id_def demo_text_def strncmp_equal_numeral)

lemma room_512: "\<exists>x. {x ..< x + 512} \<subseteq> {256 ..< 768 :: nat}"
  by (intro exI [of _ 256]) simp

lemma component_factory_correct_witness:
  "\<exists>h cd' w' c obj ps. mm_free_set 256 768 0 h {256 ..< 768} \<and>
     f_factory (xf_system 32 demo_lib 0 0 demo_init) 0 5120 20 (system_demo h) Map.empty = Some (cd', w', c) \<and>
     256 \<le> unat c \<and> w' c = Some (Vorbis_Component obj ps) \<and> xb_state obj = 0"
proof -
  obtain h where h: "mm_free_set 256 768 0 h {256 ..< 768}" by (rule demo_pool)
  then have "mm_free_set 256 768 (c_local_pool (system_demo h)) (c_mem (system_demo h)) {256 ..< 768}" by (simp add: system_demo_fields)
  from component_factory_correct [OF this, of 5120 20 32 demo_lib 0 0 demo_init Map.empty] obtain cd' w' c where
    f: "f_factory (xf_system 32 demo_lib 0 0 demo_init) 0 5120 20 (system_demo h) Map.empty = Some (cd', w', c)"
    and made: "component_made demo_lib xa_pcm_zero 256 768 {256 ..< 768} (system_demo h) Map.empty (Some Class_Vorbis) cd' w' c"
    by (auto simp: system_demo_class system_demo_fields)
  have "\<not> class_refused demo_lib xa_pcm_zero Class_Vorbis {256 ..< 768}"
    unfolding class_refused.simps not_all not_imp not_not
    by (intro exI [of _ 64] exI [of _ "0 :: u32"] exI [of _ 256] conjI pcm_creates) (simp add: plugin_sizes)
  then have "c \<noteq> 0" using made by (auto simp: component_made_def)
  then obtain x where x: "span c 192 \<subseteq> {256 ..< 768}" "w' c = Some x" "fresh_component Class_Vorbis x"
    using made by (auto simp: component_made_def codec_size)
  have "unat c \<in> span c 192" by simp
  then have "256 \<le> unat c" using x(1) by (meson atLeastLessThan_iff subsetD)
  with h f x(2,3) show ?thesis by (cases x) auto
qed

lemma system_registers_witness:
  "\<exists>h cd' w' c obj ps. mm_free_set 256 768 0 h {256 ..< 768} \<and>
     xf_proxy_command 32 (xf_system 32 demo_lib 0 0 demo_init) 0 96 (system_demo h) Map.empty = Some (cd', w') \<and>
     xf_client_lookup cd' 0 = Some c \<and> w' c = Some (Pcm_Component obj ps) \<and> xb_state obj = 0 \<and>
     m_opcode (c_msgs cd' 96) = XF_REGISTER"
proof -
  obtain ids where ids: "free_ids = 0 # 1 # ids" using free_ids_Cons by blast
  obtain h where h: "mm_free_set 256 768 0 h {256 ..< 768}" by (rule demo_pool)
  then have M: "mm_free_set 256 768 (c_local_pool (system_demo h)) (c_mem (system_demo h)) {256 ..< 768}" by (simp add: system_demo_fields)
  have "msg_ready (cmd_demo 0x80008000 XF_REGISTER 0) [] (\<lambda>_. []) 96" by (rule cmd_demo_ready) simp
  then have r: "msg_ready (system_demo h) [] (\<lambda>_. []) 96"
    using ipc_at_mem(1) [where cd = "cmd_demo 0x80008000 XF_REGISTER 0" and h = h and d = demo_text]
    by (simp add: msg_ready_def system_demo_fields) (simp add: system_demo_def)
  have I: "cmap_inv (system_demo h) free_ids (\<lambda>_. None)"
    using cmd_demo_cmap by (simp add: system_demo_def cmap_inv_def)
  have o: "m_opcode (c_msgs (system_demo h) 96) = XF_REGISTER" "m_buffer (c_msgs (system_demo h) 96) \<noteq> 0 \<or> m_length (c_msgs (system_demo h) 96) = 0"
    by (simp_all add: system_demo_fields cmd_demo_msg)
  from system_registers [OF r o(1) I M _ o(2), of 32 demo_lib 0 0 demo_init Map.empty] room_512 obtain cd' w' c x where
    p: "xf_proxy_command 32 (xf_system 32 demo_lib 0 0 demo_init) 0 96 (system_demo h) Map.empty = Some (cd', w')"
      "w' c = Some x" "fresh_component Class_Pcm x" "xf_client_lookup cd' 0 = Some c"
      "answered (system_demo h) [] (\<lambda>_. []) 96 (registered_id 0 (m_id (c_msgs (system_demo h) 96))) XF_REGISTER 0 (m_buffer (c_msgs (system_demo h) 96)) cd'"
    by (auto simp: ids system_demo_fields cmd_demo_msg system_demo_class simp del: atLeastLessThan_subset_iff)
  then show ?thesis using h by (cases x) (auto simp: answered_def)
qed

lemma system_components_safe_witness:
  "\<exists>h cd w. (system_step 32 demo_lib)\<^sup>*\<^sup>* (system_demo h, Map.empty) (cd, w) \<and> w \<noteq> Map.empty \<and> system_typed w"
proof -
  obtain h where h: "mm_free_set 256 768 0 h {256 ..< 768}" by (rule demo_pool)
  then have "mm_free_set 256 768 (c_local_pool (system_demo h)) (c_mem (system_demo h)) {256 ..< 768}" by (simp add: system_demo_fields)
  from component_factory_spec [OF this, of 4096 1 demo_lib 0 demo_init Map.empty] obtain cd w c where
    f: "xf_component_factory demo_lib 0 demo_init 0 4096 1 (system_demo h) Map.empty = Some (cd, w, c)"
    and made: "component_made demo_lib xa_pcm_zero 256 768 {256 ..< 768} (system_demo h) Map.empty (Some Class_Mixer) cd w c"
    by (auto simp: system_demo_class system_demo_fields)
  have "w \<noteq> Map.empty" using made room_512 by (auto simp: component_made_def simp del: atLeastLessThan_subset_iff split: if_splits)
  moreover have s: "(system_step 32 demo_lib)\<^sup>*\<^sup>* (system_demo h, Map.empty) (cd, w)"
    using system_step.created [of 32 demo_lib 0 0 demo_init 0 4096 1 "system_demo h" Map.empty cd w c] f
    by (auto simp: xf_system_def)
  ultimately show ?thesis using system_components_safe [OF s] by blast
qed

end
