(* ===== verification/XH_Proxy.thy ===== *)
theory XH_Proxy
  imports XF_Shmem
begin

text \<open>
  The host side of the framework: the proxy library of the application processor (host-apf/proxy/xf-proxy.c,
  proxy/xf-fio.c, include/xf-proxy.h, include/sys/fio). It numbers the clients, keeps the pools of
  shared buffers, sends commands to the DSP through the kernel driver and distributes the responses, which a
  second thread receives, over pipes. The host is a 64-bit machine: a pointer is a \<open>u64\<close>, memory is
  split by type (buffers, pools, handles, bytes of the shared region), and a union is the word it occupies.

  What is not in the repository is the parameter \<open>xf_device\<close>: the allocator the application passes in, the
  system calls that open files, pipes, mappings and threads, and the driver with the DSP behind it, which
  takes a message when it is sent, and, while the application blocks on an empty pipe, runs on and delivers
  responses. An operation without a result (None) blocks for ever or crashes; a negative return code is
  \<open>Inl\<close>. There is one application thread, so the lock of the proxy is always free.
\<close>

section \<open>The state\<close>

type_synonym u64 = "64 word"

record xf_buffer =
  hb_address :: u64
  hb_link :: u64

record xf_pool =
  hp_proxy :: u64
  hp_length :: u32
  hp_number :: u32
  hp_p :: u64
  hp_free :: u64

record xf_user_msg =
  u_id :: u32
  u_opcode :: u32
  u_length :: u32
  u_buffer :: u64

text \<open>The response hook of a handle is either not yet assigned or \<open>xaf_comp_response\<close>, the only one there is.\<close>

record xf_handle =
  hd_proxy :: u64
  hd_pipe :: "xf_user_msg list"
  hd_aux :: u64
  hd_id :: u32
  hd_client :: u32
  hd_response :: bool

text \<open>\<open>hs_self\<close> is the address of the proxy, \<open>hs_rx\<close> what the driver holds for the receiving thread,
  \<open>hs_pipe\<close> the pipe of the proxy, \<open>hs_thread\<close> says that the thread runs, \<open>hs_stack\<close> is the value of an
  uninitialised word on the stack, and \<open>hs_dev\<close> is the state of the device.\<close>

record 'w xf_host =
  hs_self :: u64
  hs_core :: u32
  hs_shmem :: u64
  hs_pipe :: "xf_proxy_message list"
  hs_aux :: u64
  hs_cmap :: "u32 \<Rightarrow> u64"
  hs_thread :: bool
  hs_rx :: "xf_proxy_message list"
  hs_mem :: "u64 \<Rightarrow> u8"
  hs_buf :: "u64 \<Rightarrow> xf_buffer"
  hs_pool :: "u64 \<Rightarrow> xf_pool"
  hs_handle :: "u64 \<Rightarrow> xf_handle"
  hs_stack :: u64
  hs_dev :: 'w

text \<open>A system call returns its \<open>errno\<close>, zero when it succeeds; the two sizes depend on the platform's mutex.\<close>

record 'w xf_device =
  dev_sizeof_adev :: u32
  dev_sizeof_comp :: u32
  dev_malloc :: "u32 \<Rightarrow> int \<Rightarrow> 'w \<Rightarrow> u64 \<times> 'w"
  dev_free :: "u64 \<Rightarrow> int \<Rightarrow> 'w \<Rightarrow> 'w"
  dev_open :: "'w \<Rightarrow> nat \<times> 'w"
  dev_close :: "'w \<Rightarrow> 'w"
  dev_pipe :: "'w \<Rightarrow> nat \<times> 'w"
  dev_close_pipe :: "'w \<Rightarrow> 'w"
  dev_mmap :: "'w \<Rightarrow> nat \<times> u64 \<times> 'w"
  dev_thread :: "'w \<Rightarrow> nat \<times> 'w"
  dev_send :: "xf_proxy_message \<Rightarrow> (u64 \<Rightarrow> u8) \<Rightarrow> 'w \<Rightarrow> 'w"
  dev_run :: "(u64 \<Rightarrow> u8) \<Rightarrow> 'w \<Rightarrow> xf_proxy_message list \<times> (u64 \<Rightarrow> u8) \<times> 'w"

section \<open>Running host code\<close>

text \<open>A call on the state \<open>'s\<close> either has no result, or returns with a code or a value and a new state.
  \<open>XF_CHK_API\<close>, which is \<open>hbind\<close>, returns early with the code of a failed call, \<open>XF_CHK_ERR\<close> with the given
  code.\<close>

type_synonym ('a, 's) sop = "'s \<Rightarrow> ((int + 'a) \<times> 's) option"
type_synonym ('a, 'w) hop = "('a, 'w xf_host) sop"

definition hret :: "'a \<Rightarrow> ('a, 's) sop" where "hret x h = Some (Inr x, h)"
definition hfail :: "int \<Rightarrow> ('a, 's) sop" where "hfail e h = Some (Inl e, h)"
definition hstop :: "('a, 's) sop" where "hstop h = None"

definition hbind :: "('a, 's) sop \<Rightarrow> ('a \<Rightarrow> ('b, 's) sop) \<Rightarrow> ('b, 's) sop" where
  "hbind m k h =
     (case m h of
        None \<Rightarrow> None
      | Some (r, h) \<Rightarrow> (case r of Inl e \<Rightarrow> Some (Inl e, h) | Inr x \<Rightarrow> k x h))"

definition XF_CHK_ERR_host :: "bool \<Rightarrow> int \<Rightarrow> (unit, 's) sop" where
  "XF_CHK_ERR_host c e = (if c then hret () else hfail e)"

text \<open>\<open>htry\<close> keeps the code of a call as a value; \<open>hget\<close> and \<open>hupd\<close> read and write the state.\<close>

definition htry :: "('a, 's) sop \<Rightarrow> (int + 'a, 's) sop" where
  "htry m h = map_option (\<lambda>(r, h). (Inr r, h)) (m h)"

definition hget :: "('s \<Rightarrow> 'a) \<Rightarrow> ('a, 's) sop" where "hget f h = Some (Inr (f h), h)"
definition hupd :: "('s \<Rightarrow> 's) \<Rightarrow> (unit, 's) sop" where "hupd f h = Some (Inr (), f h)"

definition hdev :: "('w \<Rightarrow> 'a \<times> 'w) \<Rightarrow> ('a, 'w) hop" where
  "hdev f h = (case f (hs_dev h) of (x, w) \<Rightarrow> Some (Inr x, h\<lparr>hs_dev := w\<rparr>))"

definition upd_handle :: "u64 \<Rightarrow> (xf_handle \<Rightarrow> xf_handle) \<Rightarrow> 'w xf_host \<Rightarrow> 'w xf_host" where
  "upd_handle p f h = h\<lparr>hs_handle := (hs_handle h)(p := f (hs_handle h p))\<rparr>"

definition upd_pool :: "u64 \<Rightarrow> (xf_pool \<Rightarrow> xf_pool) \<Rightarrow> 'w xf_host \<Rightarrow> 'w xf_host" where
  "upd_pool p f h = h\<lparr>hs_pool := (hs_pool h)(p := f (hs_pool h p))\<rparr>"

definition upd_buf :: "u64 \<Rightarrow> (xf_buffer \<Rightarrow> xf_buffer) \<Rightarrow> 'w xf_host \<Rightarrow> 'w xf_host" where
  "upd_buf p f h = h\<lparr>hs_buf := (hs_buf h)(p := f (hs_buf h p))\<rparr>"

text \<open>Linux error numbers.\<close>

definition host_EFAULT :: int where "host_EFAULT = 14"
definition host_ENOMEM :: int where "host_ENOMEM = 12"
definition host_EBUSY :: int where "host_EBUSY = 16"
definition host_EINVAL :: int where "host_EINVAL = 22"
definition host_EBADFD :: int where "host_EBADFD = 77"

lemmas host_errno = host_EFAULT_def host_ENOMEM_def host_EBUSY_def host_EINVAL_def host_EBADFD_def

section \<open>The interprocessor interface\<close>

definition xf_ipc_a2b_host :: "u32 \<Rightarrow> 'w xf_host \<Rightarrow> u64" where
  "xf_ipc_a2b_host address h =
     (if address < XF_CFG_REMOTE_IPC_POOL_SIZE then hs_shmem h + ucast address
      else if address = XF_PROXY_NULL then 0 else - 1)"

definition xf_ipc_b2a_host :: "u64 \<Rightarrow> 'w xf_host \<Rightarrow> u32" where
  "xf_ipc_b2a_host b h =
     (if b = 0 then XF_PROXY_NULL
      else let a = ucast (b - hs_shmem h) in
           if a < XF_CFG_REMOTE_IPC_POOL_SIZE then a else XF_PROXY_BADADDR)"

text \<open>The result of the \<open>ioctl\<close> that sends is ignored. The one that receives reports EAGAIN when the driver has no
  message, and fails in no other way.\<close>

definition xf_ipc_send :: "'w xf_device \<Rightarrow> xf_proxy_message \<Rightarrow> (unit, 'w) hop" where
  "xf_ipc_send dev m = hupd (\<lambda>h. h\<lparr>hs_dev := dev_send dev m (hs_mem h) (hs_dev h)\<rparr>)"

definition xf_ipc_recv :: "((xf_proxy_message \<times> u64) option, 'w) hop" where
  "xf_ipc_recv h =
     (case hs_rx h of
        [] \<Rightarrow> hret None h
      | m # ms \<Rightarrow>
          let h = h\<lparr>hs_rx := ms\<rparr>; b = xf_ipc_a2b_host (ucast (p_address m)) h in
          if b = - 1 then hfail (- host_EBADFD) h
          else hret (Some (m\<lparr>p_v_address := hs_stack h\<rparr>, b)) h)"

definition chk_errno :: "nat \<Rightarrow> (unit, 's) sop" where
  "chk_errno n = XF_CHK_ERR_host (n = 0) (- int n)"

definition xf_ipc_open :: "'w xf_device \<Rightarrow> (unit, 'w) hop" where
  "xf_ipc_open dev =
     hbind (hdev (dev_open dev)) (\<lambda>n. hbind (chk_errno n) (\<lambda>_.
     hbind (hdev (dev_pipe dev)) (\<lambda>n. hbind (chk_errno n) (\<lambda>_. hbind (hupd (\<lambda>h. h\<lparr>hs_pipe := []\<rparr>)) (\<lambda>_.
     hbind (hdev (\<lambda>w. case dev_mmap dev w of (n, a, w) \<Rightarrow> ((n, a), w))) (\<lambda>(n, a).
     hbind (hupd (\<lambda>h. h\<lparr>hs_shmem := (if n = 0 then a else - 1)\<rparr>)) (\<lambda>_. chk_errno n)))))))"

definition xf_ipc_close :: "'w xf_device \<Rightarrow> (unit, 'w) hop" where
  "xf_ipc_close dev =
     hbind (hdev (\<lambda>w. ((), dev_close_pipe dev w))) (\<lambda>_. hdev (\<lambda>w. ((), dev_close dev w)))"

definition xf_ipc_data_init :: "'w xf_device \<Rightarrow> u64 \<Rightarrow> (unit, 'w) hop" where
  "xf_ipc_data_init dev handle =
     hbind (hdev (dev_pipe dev)) (\<lambda>n. hbind (chk_errno n) (\<lambda>_. hupd (upd_handle handle (\<lambda>x. x\<lparr>hd_pipe := []\<rparr>))))"

definition xf_ipc_data_destroy :: "'w xf_device \<Rightarrow> u64 \<Rightarrow> (unit, 'w) hop" where
  "xf_ipc_data_destroy dev handle =
     hbind (hdev (\<lambda>w. ((), dev_close_pipe dev w))) (\<lambda>_. hupd (upd_handle handle (\<lambda>x. x\<lparr>hd_pipe := []\<rparr>)))"

section \<open>Client numbers\<close>

text \<open>An entry of the association map is a union: a free entry uses its low half for the number of the next
  free entry, an entry in use holds the handle. A store to the low half leaves the high half as it is.\<close>

definition cmap_next :: "(u32 \<Rightarrow> u64) \<Rightarrow> u32 \<Rightarrow> u32" where
  "cmap_next cm c = ucast (cm c)"

definition cmap_set_next :: "u32 \<Rightarrow> u32 \<Rightarrow> (u32 \<Rightarrow> u64) \<Rightarrow> u32 \<Rightarrow> u64" where
  "cmap_set_next c n cm = cm(c := (cm c AND NOT 0xFFFFFFFF) OR ucast n)"

definition XF_CFG_PROXY_MAX_CLIENTS :: u32 where
  "XF_CFG_PROXY_MAX_CLIENTS = 256"

definition xf_client_alloc_host :: "u64 \<Rightarrow> (u32, 'w) hop" where
  "xf_client_alloc_host handle h =
     (let cm = hs_cmap h; client = cmap_next cm 0 in
      if client \<noteq> 0 then
        (let cm = cmap_set_next 0 (cmap_next cm client) cm;
             h = upd_handle handle (\<lambda>x. x\<lparr>hd_client := client\<rparr>) h in
         hret client (h\<lparr>hs_cmap := cm(client := handle)\<rparr>))
      else hret client h)"

definition xf_client_free_host :: "u64 \<Rightarrow> (unit, 'w) hop" where
  "xf_client_free_host handle h =
     (let client = hd_client (hs_handle h handle);
          cm = cmap_set_next client (cmap_next (hs_cmap h) 0) (hs_cmap h)
      in hret () (h\<lparr>hs_cmap := cmap_set_next 0 client cm\<rparr>))"

definition xf_client_lookup_host :: "u32 \<Rightarrow> 'w xf_host \<Rightarrow> u64" where
  "xf_client_lookup_host client h =
     (if cmap_next (hs_cmap h) client < XF_CFG_PROXY_MAX_CLIENTS then 0 else hs_cmap h client)"

section \<open>The receiving thread\<close>

definition xf_response_put :: "u64 \<Rightarrow> xf_user_msg \<Rightarrow> (unit, 'w) hop" where
  "xf_response_put handle m = hupd (upd_handle handle (\<lambda>x. x\<lparr>hd_pipe := hd_pipe x @ [m]\<rparr>))"

text \<open>The hook of xaf-api.c; its BUG check does nothing in this build.\<close>

definition xaf_comp_response :: "u64 \<Rightarrow> xf_user_msg \<Rightarrow> (unit, 'w) hop" where
  "xaf_comp_response handle m =
     (if u_opcode m = XF_UNREGISTER then hret () else xf_response_put handle m)"

definition xf_handle_response :: "u64 \<Rightarrow> xf_user_msg \<Rightarrow> (unit, 'w) hop" where
  "xf_handle_response handle m h =
     (if hd_response (hs_handle h handle) then xaf_comp_response handle m h else hstop h)"

definition xf_proxy_response_put :: "xf_proxy_message \<Rightarrow> (unit, 'w) hop" where
  "xf_proxy_response_put m = hupd (\<lambda>h. h\<lparr>hs_pipe := hs_pipe h @ [m]\<rparr>)"

text \<open>The client field has nine bits and the association map 256 entries; the check of the index is a BUG check, so a
  number behind the map reads what is there: no result.\<close>

definition xf_proxy_dispatch :: "xf_proxy_message \<Rightarrow> u64 \<Rightarrow> (unit, 'w) hop" where
  "xf_proxy_dispatch m b h =
     (let msg = \<lparr>u_id = XF_MSG_SRC (p_session_id m), u_opcode = p_opcode m, u_length = p_length m, u_buffer = b\<rparr>;
          client = XF_AP_CLIENT (p_session_id m) in
      if client = 0 then xf_proxy_response_put m h
      else if \<not> client < XF_CFG_PROXY_MAX_CLIENTS then hstop h
      else let handle = xf_client_lookup_host client h in
           if handle \<noteq> 0 then xf_handle_response handle msg h else hret () h)"

text \<open>The inner loop ends when the driver has no message left; each round takes one, so as many rounds as there are
  messages are enough.\<close>

fun xf_proxy_recv_loop :: "nat \<Rightarrow> (unit, 'w) hop" where
  "xf_proxy_recv_loop 0 = hret ()"
| "xf_proxy_recv_loop (Suc n) =
     hbind xf_ipc_recv (\<lambda>r. case r of
         None \<Rightarrow> hret ()
       | Some (m, b) \<Rightarrow> hbind (xf_proxy_dispatch m b) (\<lambda>_. xf_proxy_recv_loop n))"

text \<open>One round of the outer loop, entered when the driver signals data: a negative code ends the thread.\<close>

definition xf_proxy_thread :: "(unit, 'w) hop" where
  "xf_proxy_thread h =
     (if hs_thread h then
        hbind (htry (xf_proxy_recv_loop (length (hs_rx h))))
          (\<lambda>r. case r of Inl _ \<Rightarrow> hupd (\<lambda>h. h\<lparr>hs_thread := False\<rparr>) | Inr _ \<Rightarrow> hret ()) h
      else hret () h)"

text \<open>While the application is blocked, the device runs and the thread distributes what arrives.\<close>

definition xf_wait_pipe :: "'w xf_device \<Rightarrow> (unit, 'w) hop" where
  "xf_wait_pipe dev h =
     (case dev_run dev (hs_mem h) (hs_dev h) of
        (ms, mem, w) \<Rightarrow> xf_proxy_thread (h\<lparr>hs_rx := hs_rx h @ ms, hs_mem := mem, hs_dev := w\<rparr>))"

definition xf_proxy_response_get :: "'w xf_device \<Rightarrow> (xf_proxy_message, 'w) hop" where
  "xf_proxy_response_get dev =
     hbind (hget hs_pipe) (\<lambda>q. hbind (if q = [] then xf_wait_pipe dev else hret ()) (\<lambda>_.
     (\<lambda>h. case hs_pipe h of [] \<Rightarrow> hstop h | m # ms \<Rightarrow> hret m (h\<lparr>hs_pipe := ms\<rparr>))))"

definition xf_response_get :: "'w xf_device \<Rightarrow> u64 \<Rightarrow> (xf_user_msg, 'w) hop" where
  "xf_response_get dev handle =
     hbind (hget (\<lambda>h. hd_pipe (hs_handle h handle))) (\<lambda>q. hbind (if q = [] then xf_wait_pipe dev else hret ()) (\<lambda>_.
     (\<lambda>h. case hd_pipe (hs_handle h handle) of
            [] \<Rightarrow> hstop h
          | m # ms \<Rightarrow> hret m (upd_handle handle (\<lambda>x. x\<lparr>hd_pipe := ms\<rparr>) h))))"

section \<open>Commands to the DSP\<close>

definition xf_proxy_cmd_exec :: "'w xf_device \<Rightarrow> xf_user_msg \<Rightarrow> (xf_user_msg, 'w) hop" where
  "xf_proxy_cmd_exec dev msg =
     hbind (hget (\<lambda>h. (xf_ipc_b2a_host (u_buffer msg) h, hs_stack h))) (\<lambda>(a, v).
     hbind (XF_CHK_ERR_host (a \<noteq> XF_PROXY_BADADDR) (- host_EINVAL)) (\<lambda>_.
     hbind (xf_ipc_send dev \<lparr>p_session_id = u_id msg, p_opcode = u_opcode msg, p_length = u_length msg,
                             p_address = ucast a, p_v_address = v\<rparr>) (\<lambda>_.
     hbind (xf_proxy_response_get dev) (\<lambda>m.
     hbind (hget (xf_ipc_a2b_host (ucast (p_address m)))) (\<lambda>b.
     hbind (XF_CHK_ERR_host (b \<noteq> - 1) (- host_EBADFD)) (\<lambda>_.
     hret \<lparr>u_id = p_session_id m, u_opcode = p_opcode m, u_length = p_length m, u_buffer = b\<rparr>))))))"

definition xf_handle_aux :: "u64 \<Rightarrow> 'w xf_host \<Rightarrow> u64" where
  "xf_handle_aux handle h = hb_address (hs_buf h (hd_aux (hs_handle h handle)))"

definition xf_buffer_length :: "u64 \<Rightarrow> 'w xf_host \<Rightarrow> u32" where
  "xf_buffer_length b h = hp_length (hs_pool h (hb_link (hs_buf h b)))"

text \<open>\<open>strncpy\<close> pads with zeros up to the given length and stops there; a component identifier is the list of
  its characters without the terminator.\<close>

definition strncpy_host :: "u64 \<Rightarrow> u8 list \<Rightarrow> u32 \<Rightarrow> (u64 \<Rightarrow> u8) \<Rightarrow> u64 \<Rightarrow> u8" where
  "strncpy_host b i n mem x =
     (let k = unat (x - b) in
      if k < unat n then (if k < length i then i ! k else 0) else mem x)"

definition xf_client_register_host :: "'w xf_device \<Rightarrow> u64 \<Rightarrow> u8 list \<Rightarrow> u32 \<Rightarrow> (unit, 'w) hop" where
  "xf_client_register_host dev handle i core =
     hbind (hget (\<lambda>h. (xf_handle_aux handle h, xf_buffer_length (hd_aux (hs_handle h handle)) h, hs_core h)))
       (\<lambda>(b, n, c).
     hbind (hupd (\<lambda>h. h\<lparr>hs_mem := strncpy_host b i n (hs_mem h)\<rparr>)) (\<lambda>_.
     hbind (xf_proxy_cmd_exec dev \<lparr>u_id = XF_MSG_ID (XF_AP_PROXY c) (XF_DSP_PROXY core), u_opcode = XF_REGISTER,
                                   u_length = of_nat (length i + 1), u_buffer = b\<rparr>) (\<lambda>msg.
     hbind (XF_CHK_ERR_host (u_opcode msg = XF_REGISTER) (- host_EFAULT)) (\<lambda>_.
     hupd (upd_handle handle (\<lambda>x. x\<lparr>hd_id := XF_MSG_SRC (u_id msg)\<rparr>))))))"

definition xf_client_unregister_host :: "'w xf_device \<Rightarrow> u64 \<Rightarrow> (unit, 'w) hop" where
  "xf_client_unregister_host dev handle =
     hbind (hget (\<lambda>h. (hs_core h, hd_id (hs_handle h handle)))) (\<lambda>(c, i).
     hbind (xf_proxy_cmd_exec dev \<lparr>u_id = XF_MSG_ID (XF_AP_PROXY c) i, u_opcode = XF_UNREGISTER,
                                   u_length = 0, u_buffer = 0\<rparr>) (\<lambda>_. hret ()))"

definition xf_proxy_buffer_alloc :: "'w xf_device \<Rightarrow> u32 \<Rightarrow> (u64, 'w) hop" where
  "xf_proxy_buffer_alloc dev len =
     hbind (hget hs_core) (\<lambda>core.
     hbind (xf_proxy_cmd_exec dev \<lparr>u_id = XF_MSG_ID (XF_AP_PROXY core) (XF_DSP_PROXY core), u_opcode = XF_ALLOC,
                                   u_length = len, u_buffer = 0\<rparr>) (\<lambda>msg.
     hbind (XF_CHK_ERR_host (u_opcode msg = XF_ALLOC) (- host_EBADFD)) (\<lambda>_.
     hbind (XF_CHK_ERR_host (u_buffer msg \<noteq> 0) (- host_ENOMEM)) (\<lambda>_. hret (u_buffer msg)))))"

definition xf_proxy_buffer_free :: "'w xf_device \<Rightarrow> u64 \<Rightarrow> u32 \<Rightarrow> (unit, 'w) hop" where
  "xf_proxy_buffer_free dev b len =
     hbind (hget hs_core) (\<lambda>core.
     hbind (xf_proxy_cmd_exec dev \<lparr>u_id = XF_MSG_ID (XF_AP_PROXY core) (XF_DSP_PROXY core), u_opcode = XF_FREE,
                                   u_length = len, u_buffer = b\<rparr>) (\<lambda>msg.
     XF_CHK_ERR_host (u_opcode msg = XF_FREE) (- host_EBADFD)))"

section \<open>Opening and closing the proxy\<close>

fun xf_cmap_link :: "nat \<Rightarrow> u32 \<Rightarrow> (u32 \<Rightarrow> u64) \<Rightarrow> u32 \<Rightarrow> u64" where
  "xf_cmap_link 0 i cm = cmap_set_next i 0 cm"
| "xf_cmap_link (Suc n) i cm = xf_cmap_link n (i + 1) (cmap_set_next i (i + 1) cm)"

definition xf_proxy_init :: "'w xf_device \<Rightarrow> u32 \<Rightarrow> (unit, 'w) hop" where
  "xf_proxy_init dev core =
     hbind (xf_ipc_open dev) (\<lambda>_.
     hbind (hupd (\<lambda>h. h\<lparr>hs_core := core,
              hs_cmap := xf_cmap_link (unat (XF_CFG_PROXY_MAX_CLIENTS - 1)) 0 (hs_cmap h)\<rparr>)) (\<lambda>_.
     hbind (hdev (dev_thread dev)) (\<lambda>n.
     if n \<noteq> 0 then hbind (xf_ipc_close dev) (\<lambda>_. hfail (- int n))
     else hupd (\<lambda>h. h\<lparr>hs_thread := True\<rparr>))))"

definition xf_proxy_close :: "'w xf_device \<Rightarrow> (unit, 'w) hop" where
  "xf_proxy_close dev = hbind (hupd (\<lambda>h. h\<lparr>hs_thread := False\<rparr>)) (\<lambda>_. xf_ipc_close dev)"

section \<open>Buffer pools\<close>

definition XF_PROXY_ALIGNMENT_host :: u32 where
  "XF_PROXY_ALIGNMENT_host = 64"

definition pool_buf_length :: "u32 \<Rightarrow> u32" where
  "pool_buf_length len = (len + XF_PROXY_ALIGNMENT_host - 1) AND NOT (XF_PROXY_ALIGNMENT_host - 1)"

text \<open>The header of a pool has 32 bytes and a buffer 16, so buffer \<open>i\<close> of the pool \<open>p\<close> is at \<open>pool_buffer p i\<close>.\<close>

definition pool_buffer :: "u64 \<Rightarrow> nat \<Rightarrow> u64" where
  "pool_buffer p i = p + 32 + of_nat (16 * i)"

text \<open>The loop that creates the buffers: buffer at \<open>b\<close>, data at \<open>d\<close>; the last one is terminated afterwards.\<close>

fun xf_pool_link :: "nat \<Rightarrow> u64 \<Rightarrow> u64 \<Rightarrow> u32 \<Rightarrow> (u64 \<Rightarrow> xf_buffer) \<Rightarrow> u64 \<Rightarrow> xf_buffer" where
  "xf_pool_link 0 b d len H = H(b - 16 := (H (b - 16))\<lparr>hb_link := 0\<rparr>)"
| "xf_pool_link (Suc n) b d len H =
     xf_pool_link n (b + 16) (d + ucast len) len (H(b := \<lparr>hb_address = d, hb_link = b + 16\<rparr>))"

definition xf_pool_alloc :: "'w xf_device \<Rightarrow> u32 \<Rightarrow> u32 \<Rightarrow> int \<Rightarrow> (u64, 'w) hop" where
  "xf_pool_alloc dev number len i =
     hbind (XF_CHK_ERR_host (number > 0) (- host_EINVAL)) (\<lambda>_.
     let len = pool_buf_length len in
     hbind (hdev (dev_malloc dev (32 + number * 16) i)) (\<lambda>p.
     hbind (XF_CHK_ERR_host (p \<noteq> 0) (- host_ENOMEM)) (\<lambda>_.
     hbind (htry (xf_proxy_buffer_alloc dev (number * len))) (\<lambda>r.
     case r of
       Inl e \<Rightarrow> hbind (hdev (\<lambda>w. ((), dev_free dev p i w))) (\<lambda>_. hfail e)
     | Inr a \<Rightarrow>
         hbind (hupd (\<lambda>h. upd_pool p (\<lambda>_. \<lparr>hp_proxy = hs_self h, hp_length = len, hp_number = number,
                                           hp_p = a, hp_free = pool_buffer p 0\<rparr>) h)) (\<lambda>_.
         hbind (hupd (\<lambda>h. h\<lparr>hs_buf := xf_pool_link (unat number) (pool_buffer p 0) a len (hs_buf h)\<rparr>)) (\<lambda>_.
         hret p))))))"

definition xf_pool_free :: "'w xf_device \<Rightarrow> u64 \<Rightarrow> int \<Rightarrow> (unit, 'w) hop" where
  "xf_pool_free dev pool i =
     (if pool = 0 then hstop else
     hbind (hget (\<lambda>h. hs_pool h pool)) (\<lambda>P.
     hbind (htry (xf_proxy_buffer_free dev (hp_p P) (hp_length P * hp_number P))) (\<lambda>_.
     hdev (\<lambda>w. ((), dev_free dev pool i w)))))"

text \<open>A buffer in the free list links to the next one, a buffer in use to its pool; a NULL pool or buffer is a crash.\<close>

definition xf_buffer_get :: "u64 \<Rightarrow> (u64, 'w) hop" where
  "xf_buffer_get pool h =
     (if pool = 0 then hstop h
      else let b = hp_free (hs_pool h pool) in
           if b \<noteq> 0 then
             hret b (upd_buf b (\<lambda>x. x\<lparr>hb_link := pool\<rparr>)
                       (upd_pool pool (\<lambda>x. x\<lparr>hp_free := hb_link (hs_buf h b)\<rparr>) h))
           else hret b h)"

definition xf_buffer_put :: "u64 \<Rightarrow> (unit, 'w) hop" where
  "xf_buffer_put b h =
     (if b = 0 then hstop h
      else let pool = hb_link (hs_buf h b) in
           if pool = 0 then hstop h
           else hret () (upd_pool pool (\<lambda>x. x\<lparr>hp_free := b\<rparr>)
                           (upd_buf b (\<lambda>x. x\<lparr>hb_link := hp_free (hs_pool h pool)\<rparr>) h)))"

section \<open>Components\<close>

definition xf_open :: "'w xf_device \<Rightarrow> u64 \<Rightarrow> u8 list \<Rightarrow> u32 \<Rightarrow> (unit, 'w) hop" where
  "xf_open dev handle i core =
     hbind (hget hs_aux) (\<lambda>pool. hbind (xf_buffer_get pool) (\<lambda>b.
     hbind (hupd (upd_handle handle (\<lambda>x. x\<lparr>hd_aux := b\<rparr>))) (\<lambda>_.
     hbind (XF_CHK_ERR_host (b \<noteq> 0) (- host_EBUSY)) (\<lambda>_.
     hbind (xf_ipc_data_init dev handle) (\<lambda>_.
     hbind (xf_client_alloc_host handle) (\<lambda>client.
     hbind (if client = 0 then hret (Inl (- host_EBUSY))
            else hbind (htry (xf_client_register_host dev handle i core)) (\<lambda>r.
                 case r of Inl e \<Rightarrow> hbind (xf_client_free_host handle) (\<lambda>_. hret r) | Inr _ \<Rightarrow> hret r)) (\<lambda>r.
     case r of
       Inl e \<Rightarrow>
         hbind (hget (\<lambda>h. hd_aux (hs_handle h handle))) (\<lambda>b. hbind (xf_buffer_put b) (\<lambda>_.
         hbind (hupd (upd_handle handle (\<lambda>x. x\<lparr>hd_aux := 0\<rparr>))) (\<lambda>_. hfail e)))
     | Inr _ \<Rightarrow>
         hupd (\<lambda>h. upd_handle handle (\<lambda>x. x\<lparr>hd_response := True, hd_proxy := hs_self h\<rparr>) h))))))))"

definition xf_close :: "'w xf_device \<Rightarrow> u64 \<Rightarrow> (unit, 'w) hop" where
  "xf_close dev handle =
     hbind (hget (\<lambda>h. hd_proxy (hs_handle h handle))) (\<lambda>proxy. if proxy = 0 then hstop else
     hbind (htry (xf_client_unregister_host dev handle)) (\<lambda>_.
     hbind (xf_client_free_host handle) (\<lambda>_.
     hbind (xf_ipc_data_destroy dev handle) (\<lambda>_.
     hbind (hget (\<lambda>h. hd_aux (hs_handle h handle))) (\<lambda>b. hbind (xf_buffer_put b) (\<lambda>_.
     hupd (upd_handle handle (\<lambda>x. x\<lparr>hd_aux := 0, hd_proxy := 0\<rparr>))))))))"

definition xf_is_power_of_two_host :: "u32 \<Rightarrow> bool" where
  "xf_is_power_of_two_host v \<longleftrightarrow> v AND (v - 1) = 0"

definition host_write32 :: "u64 \<Rightarrow> u32 \<Rightarrow> (u64 \<Rightarrow> u8) \<Rightarrow> u64 \<Rightarrow> u8" where
  "host_write32 a v mem =
     mem(a := ucast v, a + 1 := ucast (drop_bit 8 v), a + 2 := ucast (drop_bit 16 v), a + 3 := ucast (drop_bit 24 v))"

definition host_read32 :: "u64 \<Rightarrow> (u64 \<Rightarrow> u8) \<Rightarrow> u32" where
  "host_read32 a mem =
     ucast (mem a) OR push_bit 8 (ucast (mem (a + 1))) OR push_bit 16 (ucast (mem (a + 2)))
       OR push_bit 24 (ucast (mem (a + 3)))"

text \<open>The message of a route command: destination, number, size and alignment behind an unused source.\<close>

definition route_msg_write :: "u64 \<Rightarrow> u32 \<Rightarrow> u32 \<Rightarrow> u32 \<Rightarrow> u32 \<Rightarrow> (u64 \<Rightarrow> u8) \<Rightarrow> u64 \<Rightarrow> u8" where
  "route_msg_write m dst num sz align mem =
     host_write32 (m + 16) align (host_write32 (m + 12) sz (host_write32 (m + 8) num (host_write32 (m + 4) dst mem)))"

definition xf_route :: "'w xf_device \<Rightarrow> u64 \<Rightarrow> u32 \<Rightarrow> u64 \<Rightarrow> u32 \<Rightarrow> u32 \<Rightarrow> u32 \<Rightarrow> u32 \<Rightarrow> (unit, 'w) hop" where
  "xf_route dev src src_port dst dst_port num sz align =
     hbind (hget (\<lambda>h. (hs_handle h src, hs_handle h dst))) (\<lambda>(S, D).
     hbind (XF_CHK_ERR_host (hd_proxy S = hd_proxy D) (- host_EINVAL)) (\<lambda>_.
     hbind (XF_CHK_ERR_host (num \<noteq> 0 \<and> sz \<noteq> 0 \<and> xf_is_power_of_two_host align) (- host_EINVAL)) (\<lambda>_.
     if hd_proxy S = 0 then hstop else
     hbind (hget hs_aux) (\<lambda>pool. hbind (xf_buffer_get pool) (\<lambda>b.
     hbind (XF_CHK_ERR_host (b \<noteq> 0) (- host_EBUSY)) (\<lambda>_.
     hbind (hget (\<lambda>h. (hb_address (hs_buf h b), hs_core h))) (\<lambda>(m, core).
     hbind (hupd (\<lambda>h. h\<lparr>hs_mem := route_msg_write m (XF_PORT_SPEC2 (hd_id D) dst_port) num sz align (hs_mem h)\<rparr>)) (\<lambda>_.
     hbind (xf_proxy_cmd_exec dev \<lparr>u_id = XF_MSG_ID (XF_AP_PROXY core) (XF_PORT_SPEC2 (hd_id S) src_port),
                                   u_opcode = XF_ROUTE, u_length = 20, u_buffer = m\<rparr>) (\<lambda>msg.
     hbind (xf_buffer_put b) (\<lambda>_.
     XF_CHK_ERR_host (u_opcode msg = XF_ROUTE) (- host_ENOMEM)))))))))))"

definition xf_unroute :: "'w xf_device \<Rightarrow> u64 \<Rightarrow> u32 \<Rightarrow> (unit, 'w) hop" where
  "xf_unroute dev src src_port =
     hbind (hget (\<lambda>h. hs_handle h src)) (\<lambda>S.
     if hd_proxy S = 0 then hstop else
     hbind (hget hs_aux) (\<lambda>pool. hbind (xf_buffer_get pool) (\<lambda>b.
     hbind (XF_CHK_ERR_host (b \<noteq> 0) (- host_EBUSY)) (\<lambda>_.
     hbind (hget (\<lambda>h. (hb_address (hs_buf h b), hs_core h))) (\<lambda>(m, core).
     hbind (htry (xf_proxy_cmd_exec dev \<lparr>u_id = XF_MSG_ID (XF_AP_PROXY core) (XF_PORT_SPEC2 (hd_id S) src_port),
                                         u_opcode = XF_UNROUTE, u_length = 8, u_buffer = m\<rparr>)) (\<lambda>r.
     hbind (xf_buffer_put b) (\<lambda>_.
     case r of
       Inl e \<Rightarrow> hfail e
     | Inr msg \<Rightarrow> XF_CHK_ERR_host (u_opcode msg = XF_UNROUTE) (- host_EBADFD))))))))"

definition xf_command :: "'w xf_device \<Rightarrow> u64 \<Rightarrow> u32 \<Rightarrow> u32 \<Rightarrow> u64 \<Rightarrow> u32 \<Rightarrow> (unit, 'w) hop" where
  "xf_command dev handle port opcode buffer len =
     hbind (hget (\<lambda>h. (hs_handle h handle, hs_core h, xf_ipc_b2a_host buffer h, hs_stack h))) (\<lambda>(H, core, a, v).
     if hd_proxy H = 0 then hstop else
     hbind (XF_CHK_ERR_host (a \<noteq> XF_PROXY_BADADDR) (- host_EINVAL)) (\<lambda>_.
     xf_ipc_send dev \<lparr>p_session_id = XF_MSG_ID (XF_AP_CLIENT_SPEC core (hd_client H)) (XF_PORT_SPEC2 (hd_id H) port),
                      p_opcode = opcode, p_length = len, p_address = ucast a, p_v_address = v\<rparr>))"

end
