(* ===== verification/XH_Api.thy ===== *)
theory XH_Api
  imports XH_Proxy
begin

text \<open>
  The component interface of the host (host-apf/proxy/xaf-api.c, include/xaf-api.h, include/xaf-structs.h):
  audio device and components as the applications see them. A component is created with its shared
  buffers, started, fed with input and asked for output by flags, and reports its status from the responses that
  reach its pipe. A component begins with its handle, so both have the same address.
\<close>

section \<open>The state\<close>

datatype xaf_comp_status = XAF_STARTING | XAF_INIT_DONE | XAF_NEED_INPUT | XAF_OUTPUT_READY | XAF_EXEC_DONE

record xaf_format =
  xf_sample_rate :: u32
  xf_channels :: u32
  xf_pcm_width :: u32
  xf_input_length :: u32
  xf_output_length :: u32

record xaf_comp =
  hc_inp_routed :: u32
  hc_out_routed :: u32
  hc_inp_ports :: u32
  hc_out_ports :: u32
  hc_init_done :: u32
  hc_pending_resp :: u32
  hc_expect_out_cmd :: u32
  hc_input_over :: u32
  hc_comp_type :: u32
  hc_comp_status :: xaf_comp_status
  hc_start_cmd_issued :: u32
  hc_exec_cmd_issued :: u32
  hc_start_buf :: u64
  hc_inp_format :: xaf_format
  hc_out_format :: xaf_format
  hc_inpool :: u64
  hc_outpool :: u64
  hc_noutbuf :: u32
  hc_next :: u64
  hc_ninbuf :: u32
  hc_p_adev :: u64
  hc_comp_ptr :: u64

record 'w xaf_adev =
  ad_proxy :: "'w xf_host"
  ad_comp :: "u64 \<Rightarrow> xaf_comp"
  ad_comp_chain :: u64
  ad_n_comp :: u32
  ad_adev_ptr :: u64
  ad_ap_utils :: u64
  ad_ipc_pool_size :: u32

type_synonym ('a, 'w) aop = "('a, 'w xaf_adev) sop"

definition on_proxy :: "('a, 'w) hop \<Rightarrow> ('a, 'w) aop" where
  "on_proxy m s = map_option (\<lambda>(r, h). (r, s\<lparr>ad_proxy := h\<rparr>)) (m (ad_proxy s))"

definition upd_comp :: "u64 \<Rightarrow> (xaf_comp \<Rightarrow> xaf_comp) \<Rightarrow> (unit, 'w) aop" where
  "upd_comp p f = hupd (\<lambda>s. s\<lparr>ad_comp := (ad_comp s)(p := f (ad_comp s p))\<rparr>)"

definition XAF_PTR_ERROR :: int where "XAF_PTR_ERROR = - 1"
definition XAF_INVALID_VALUE :: int where "XAF_INVALID_VALUE = - 2"
definition XAF_ROUTING_ERROR :: int where "XAF_ROUTING_ERROR = - 3"
definition XAF_API_ERR :: int where "XAF_API_ERR = - 5"

text \<open>The pointer check casts the pointer to \<open>int\<close>, which keeps its low half; the range check is one of \<open>int\<close>s.\<close>

definition XAF_CHK_PTR :: "u64 \<Rightarrow> (unit, 's) sop" where
  "XAF_CHK_PTR p = XF_CHK_ERR_host ((ucast p :: u32) \<noteq> 0) XAF_PTR_ERROR"

definition XAF_CHK_RANGE :: "u32 \<Rightarrow> int \<Rightarrow> int \<Rightarrow> (unit, 's) sop" where
  "XAF_CHK_RANGE v lo hi = XF_CHK_ERR_host (lo \<le> sint v \<and> sint v \<le> hi) XAF_INVALID_VALUE"

definition XAF_MEM_ID_DEV :: int where "XAF_MEM_ID_DEV = 0"
definition XAF_MEM_ID_COMP :: int where "XAF_MEM_ID_COMP = 1"
definition XAF_AUX_POOL_SIZE :: u32 where "XAF_AUX_POOL_SIZE = 32"
definition XAF_AUX_POOL_MSG_LENGTH :: u32 where "XAF_AUX_POOL_MSG_LENGTH = 128"
definition XAF_MAX_CONFIG_PARAMS :: int where "XAF_MAX_CONFIG_PARAMS = 16"
definition XAF_MAX_INBUFS :: int where "XAF_MAX_INBUFS = 2"
definition XAF_INBUF_SIZE :: u32 where "XAF_INBUF_SIZE = 8192"

definition XAF_DECODER :: u32 where "XAF_DECODER = 0"
definition XAF_ENCODER :: u32 where "XAF_ENCODER = 1"
definition XAF_MIXER :: u32 where "XAF_MIXER = 2"
definition XAF_PRE_PROC :: u32 where "XAF_PRE_PROC = 3"
definition XAF_POST_PROC :: u32 where "XAF_POST_PROC = 4"

definition XAF_START_FLAG :: u32 where "XAF_START_FLAG = 1"
definition XAF_EXEC_FLAG :: u32 where "XAF_EXEC_FLAG = 2"
definition XAF_INPUT_OVER_FLAG :: u32 where "XAF_INPUT_OVER_FLAG = 3"
definition XAF_INPUT_READY_FLAG :: u32 where "XAF_INPUT_READY_FLAG = 4"
definition XAF_NEED_OUTPUT_FLAG :: u32 where "XAF_NEED_OUTPUT_FLAG = 5"

lemmas xaf_consts = XAF_PTR_ERROR_def XAF_INVALID_VALUE_def XAF_ROUTING_ERROR_def XAF_API_ERR_def
  XAF_MEM_ID_DEV_def XAF_MEM_ID_COMP_def XAF_AUX_POOL_SIZE_def XAF_AUX_POOL_MSG_LENGTH_def
  XAF_MAX_CONFIG_PARAMS_def XAF_MAX_INBUFS_def XAF_INBUF_SIZE_def XAF_DECODER_def XAF_ENCODER_def
  XAF_MIXER_def XAF_PRE_PROC_def XAF_POST_PROC_def XAF_START_FLAG_def XAF_EXEC_FLAG_def
  XAF_INPUT_OVER_FLAG_def XAF_INPUT_READY_FLAG_def XAF_NEED_OUTPUT_FLAG_def

section \<open>The device\<close>

definition align4 :: "u64 \<Rightarrow> u64" where
  "align4 p = (p + 3) AND NOT 3"

definition adev_cleared :: "u64 \<Rightarrow> 'w xaf_adev \<Rightarrow> 'w xaf_adev" where
  "adev_cleared p s =
     (let h = ad_proxy s in
      s\<lparr>ad_proxy := h\<lparr>hs_self := p, hs_core := 0, hs_shmem := 0, hs_pipe := [], hs_aux := 0,
          hs_cmap := (\<lambda>c. if c < XF_CFG_PROXY_MAX_CLIENTS then 0 else hs_cmap h c), hs_thread := False\<rparr>,
        ad_comp_chain := 0, ad_n_comp := 0, ad_adev_ptr := 0, ad_ap_utils := 0, ad_ipc_pool_size := 0\<rparr>)"

definition xaf_adev_open :: "'w xf_device \<Rightarrow> u64 \<Rightarrow> u32 \<Rightarrow> u64 \<Rightarrow> u64 \<Rightarrow> (u64, 'w) aop" where
  "xaf_adev_open dev pp_adev audio_frmwk_buf_size mem_malloc mem_free =
     hbind (XAF_CHK_PTR pp_adev) (\<lambda>_. hbind (XAF_CHK_PTR mem_malloc) (\<lambda>_. hbind (XAF_CHK_PTR mem_free) (\<lambda>_.
     hbind (on_proxy (hdev (dev_malloc dev (dev_sizeof_adev dev + 3) XAF_MEM_ID_DEV))) (\<lambda>pTmp.
     hbind (XAF_CHK_PTR pTmp) (\<lambda>_.
     hbind (hupd (\<lambda>s. (adev_cleared (align4 pTmp) s)\<lparr>ad_adev_ptr := pTmp\<rparr>)) (\<lambda>_.
     hbind (on_proxy (hdev (dev_malloc dev (20 + 7) XAF_MEM_ID_DEV))) (\<lambda>utils.
     hbind (hupd (\<lambda>s. s\<lparr>ad_ap_utils := utils\<rparr>)) (\<lambda>_.
     hbind (XAF_CHK_PTR utils) (\<lambda>_.
     hbind (hupd (\<lambda>s. s\<lparr>ad_ipc_pool_size := audio_frmwk_buf_size\<rparr>)) (\<lambda>_.
     hbind (on_proxy (xf_proxy_init dev 0)) (\<lambda>_.
     hbind (on_proxy (xf_pool_alloc dev XAF_AUX_POOL_SIZE XAF_AUX_POOL_MSG_LENGTH XAF_MEM_ID_DEV)) (\<lambda>aux.
     hbind (on_proxy (hupd (\<lambda>h. h\<lparr>hs_aux := aux\<rparr>))) (\<lambda>_.
     hret (align4 pTmp))))))))))))))"

definition xaf_adev_close :: "'w xf_device \<Rightarrow> u64 \<Rightarrow> (unit, 'w) aop" where
  "xaf_adev_close dev adev_ptr =
     hbind (XAF_CHK_PTR adev_ptr) (\<lambda>_.
     hbind (hget (\<lambda>s. (hs_aux (ad_proxy s), ad_ap_utils s, ad_adev_ptr s))) (\<lambda>(aux, utils, p).
     hbind (if aux \<noteq> 0 then on_proxy (xf_pool_free dev aux XAF_MEM_ID_DEV) else hret ()) (\<lambda>_.
     hbind (on_proxy (xf_proxy_close dev)) (\<lambda>_.
     hbind (on_proxy (hdev (\<lambda>w. ((), dev_free dev utils XAF_MEM_ID_DEV w)))) (\<lambda>_.
     hbind (hupd (\<lambda>s. s\<lparr>ad_ap_utils := 0\<rparr>)) (\<lambda>_.
     hbind (on_proxy (hdev (\<lambda>w. ((), dev_free dev p XAF_MEM_ID_DEV w)))) (\<lambda>_.
     hupd (\<lambda>s. s\<lparr>ad_adev_ptr := 0\<rparr>))))))))"

section \<open>Components\<close>

definition no_format :: xaf_format where
  "no_format = \<lparr>xf_sample_rate = 0, xf_channels = 0, xf_pcm_width = 0, xf_input_length = 0, xf_output_length = 0\<rparr>"

definition no_comp :: xaf_comp where
  "no_comp = \<lparr>hc_inp_routed = 0, hc_out_routed = 0, hc_inp_ports = 0, hc_out_ports = 0, hc_init_done = 0,
     hc_pending_resp = 0, hc_expect_out_cmd = 0, hc_input_over = 0, hc_comp_type = 0, hc_comp_status = XAF_STARTING,
     hc_start_cmd_issued = 0, hc_exec_cmd_issued = 0, hc_start_buf = 0, hc_inp_format = no_format,
     hc_out_format = no_format, hc_inpool = 0, hc_outpool = 0, hc_noutbuf = 0, hc_next = 0, hc_ninbuf = 0,
     hc_p_adev = 0, hc_comp_ptr = 0\<rparr>"

definition no_handle :: xf_handle where
  "no_handle = \<lparr>hd_proxy = 0, hd_pipe = [], hd_aux = 0, hd_id = 0, hd_client = 0, hd_response = False\<rparr>"

text \<open>The address of the head of the chain is one inside the device, whose check is left out.\<close>

definition xaf_comp_add :: "u64 \<Rightarrow> (unit, 'w) aop" where
  "xaf_comp_add p =
     hbind (XAF_CHK_PTR p) (\<lambda>_. hbind (hget ad_comp_chain) (\<lambda>c.
     hbind (upd_comp p (\<lambda>x. x\<lparr>hc_next := c\<rparr>)) (\<lambda>_. hupd (\<lambda>s. s\<lparr>ad_comp_chain := p\<rparr>))))"

text \<open>The loop that hands out the input buffers; \<open>xf_buffer_data\<close> of a NULL buffer is a crash.\<close>

definition xf_buffer_data :: "u64 \<Rightarrow> (u64, 'w) hop" where
  "xf_buffer_data b = (if b = 0 then hstop else hget (\<lambda>h. hb_address (hs_buf h b)))"

fun get_inbufs :: "nat \<Rightarrow> u64 \<Rightarrow> (u64 list, 'w) hop" where
  "get_inbufs 0 pool = hret []"
| "get_inbufs (Suc n) pool =
     hbind (xf_buffer_get pool) (\<lambda>b. hbind (xf_buffer_data b) (\<lambda>d.
     hbind (get_inbufs n pool) (\<lambda>ds. hret (d # ds))))"

definition comp_ports :: "u32 \<Rightarrow> xaf_comp \<Rightarrow> xaf_comp" where
  "comp_ports t x =
     (if t = XAF_DECODER \<or> t = XAF_ENCODER \<or> t = XAF_PRE_PROC \<or> t = XAF_POST_PROC
      then x\<lparr>hc_inp_ports := 1, hc_out_ports := 1\<rparr>
      else if t = XAF_MIXER then x\<lparr>hc_inp_ports := 4, hc_out_ports := 1\<rparr> else x)"

text \<open>The result of a creation is the component and the addresses of its input buffers.\<close>

definition xaf_comp_create ::
  "'w xf_device \<Rightarrow> u64 \<Rightarrow> u64 \<Rightarrow> u64 \<Rightarrow> u8 list \<Rightarrow> u32 \<Rightarrow> u32 \<Rightarrow> u64 \<Rightarrow> u32 \<Rightarrow> (u64 \<times> u64 list, 'w) aop"
where
  "xaf_comp_create dev adev pp_comp comp_id i ninbuf noutbuf pp_inbuf t =
     hbind (XAF_CHK_PTR adev) (\<lambda>_. hbind (XAF_CHK_PTR pp_comp) (\<lambda>_. hbind (XAF_CHK_PTR comp_id) (\<lambda>_.
     hbind (if ninbuf \<noteq> 0 then XAF_CHK_PTR pp_inbuf else hret ()) (\<lambda>_.
     hbind (XAF_CHK_RANGE ninbuf 0 XAF_MAX_INBUFS) (\<lambda>_. hbind (XAF_CHK_RANGE noutbuf 0 1) (\<lambda>_.
     hbind (XAF_CHK_RANGE t (uint XAF_DECODER) (uint XAF_POST_PROC)) (\<lambda>_.
     hbind (on_proxy (hdev (dev_malloc dev (dev_sizeof_comp dev + 3) XAF_MEM_ID_COMP))) (\<lambda>pTmp.
     hbind (XAF_CHK_PTR pTmp) (\<lambda>_.
     let p = align4 pTmp in
     hbind (upd_comp p (\<lambda>_. no_comp)) (\<lambda>_. hbind (on_proxy (hupd (upd_handle p (\<lambda>_. no_handle)))) (\<lambda>_.
     hbind (on_proxy (xf_open dev p i 0)) (\<lambda>_.
     hbind (htry (xaf_comp_add p)) (\<lambda>_.
     hbind (upd_comp p (\<lambda>x. x\<lparr>hc_p_adev := adev\<rparr>)) (\<lambda>_.
     hbind (hupd (\<lambda>s. s\<lparr>ad_n_comp := ad_n_comp s + 1\<rparr>)) (\<lambda>_.
     hbind (upd_comp p (\<lambda>x. x\<lparr>hc_ninbuf := ninbuf\<rparr>)) (\<lambda>_.
     hbind (if ninbuf \<noteq> 0
            then hbind (on_proxy (xf_pool_alloc dev ninbuf XAF_INBUF_SIZE XAF_MEM_ID_COMP)) (\<lambda>pool.
                 hbind (upd_comp p (\<lambda>x. x\<lparr>hc_inpool := pool\<rparr>)) (\<lambda>_. on_proxy (get_inbufs (unat ninbuf) pool)))
            else hret []) (\<lambda>bs.
     hbind (upd_comp p (\<lambda>x. comp_ports t (x\<lparr>hc_noutbuf := noutbuf, hc_comp_type := t, hc_comp_status := XAF_STARTING\<rparr>)))
       (\<lambda>_. hret (p, bs)))))))))))))))))))"

definition xaf_comp_delete :: "'w xf_device \<Rightarrow> u64 \<Rightarrow> (unit, 'w) aop" where
  "xaf_comp_delete dev p =
     hbind (XAF_CHK_PTR p) (\<lambda>_. hbind (hget (\<lambda>s. ad_comp s p)) (\<lambda>C.
     if hc_p_adev C = 0 then hstop else
     hbind (hget ad_n_comp) (\<lambda>n. hbind (XF_CHK_ERR_host (n > 0) XAF_API_ERR) (\<lambda>_.
     hbind (hupd (\<lambda>s. s\<lparr>ad_n_comp := ad_n_comp s - 1\<rparr>)) (\<lambda>_.
     hbind (if hc_inpool C \<noteq> 0 then on_proxy (xf_pool_free dev (hc_inpool C) XAF_MEM_ID_COMP) else hret ()) (\<lambda>_.
     hbind (if hc_outpool C \<noteq> 0 then on_proxy (xf_pool_free dev (hc_outpool C) XAF_MEM_ID_COMP) else hret ()) (\<lambda>_.
     hbind (on_proxy (xf_close dev p)) (\<lambda>_.
     hbind (on_proxy (hdev (\<lambda>w. ((), dev_free dev (hc_comp_ptr C) XAF_MEM_ID_COMP w)))) (\<lambda>_.
     upd_comp p (\<lambda>x. x\<lparr>hc_comp_ptr := 0\<rparr>))))))))))"

section \<open>Parameters\<close>

text \<open>The address of the auxiliary buffer; a handle without one is a crash.\<close>

definition comp_aux :: "u64 \<Rightarrow> (u64, 'w) aop" where
  "comp_aux p = on_proxy (\<lambda>h. if hd_aux (hs_handle h p) = 0 then hstop h else hret (xf_handle_aux p h) h)"

fun write_params :: "u64 \<Rightarrow> u32 list \<Rightarrow> (u64 \<Rightarrow> u8) \<Rightarrow> u64 \<Rightarrow> u8" where
  "write_params a [] mem = mem"
| "write_params a (x # xs) mem = write_params (a + 4) xs (host_write32 a x mem)"

fun read_params :: "u64 \<Rightarrow> nat \<Rightarrow> (u64 \<Rightarrow> u8) \<Rightarrow> u32 list" where
  "read_params a 0 mem = []"
| "read_params a (Suc n) mem = host_read32 a mem # read_params (a + 4) n mem"

text \<open>The array of the caller is \<open>ps\<close> at \<open>p_param\<close>; reading behind its end has no result.\<close>

definition xaf_comp_set_config :: "'w xf_device \<Rightarrow> u64 \<Rightarrow> u32 \<Rightarrow> u64 \<Rightarrow> u32 list \<Rightarrow> (unit, 'w) aop" where
  "xaf_comp_set_config dev p num p_param ps =
     hbind (XAF_CHK_PTR p) (\<lambda>_. hbind (XAF_CHK_PTR p_param) (\<lambda>_.
     hbind (XAF_CHK_RANGE num 1 XAF_MAX_CONFIG_PARAMS) (\<lambda>_. hbind (XAF_CHK_PTR p) (\<lambda>_.
     hbind (comp_aux p) (\<lambda>smsg.
     if length ps < 2 * unat num then hstop else
     hbind (on_proxy (hupd (\<lambda>h. h\<lparr>hs_mem := write_params smsg (take (2 * unat num) ps) (hs_mem h)\<rparr>))) (\<lambda>_.
     hbind (on_proxy (xf_command dev p 0 XF_SET_PARAM smsg (8 * num))) (\<lambda>_.
     hbind (on_proxy (xf_response_get dev p)) (\<lambda>rmsg.
     XF_CHK_ERR_host (u_opcode rmsg = XF_SET_PARAM \<and> u_buffer rmsg = smsg) XAF_API_ERR))))))))"

definition xaf_comp_get_config :: "'w xf_device \<Rightarrow> u64 \<Rightarrow> u32 \<Rightarrow> u64 \<Rightarrow> u32 list \<Rightarrow> (u32 list, 'w) aop" where
  "xaf_comp_get_config dev p num p_param ps =
     hbind (XAF_CHK_PTR p) (\<lambda>_. hbind (XAF_CHK_PTR p_param) (\<lambda>_.
     hbind (XAF_CHK_RANGE num 1 XAF_MAX_CONFIG_PARAMS) (\<lambda>_. hbind (XAF_CHK_PTR p) (\<lambda>_.
     hbind (comp_aux p) (\<lambda>smsg.
     if length ps < unat num then hstop else
     hbind (on_proxy (hupd (\<lambda>h. h\<lparr>hs_mem := write_params smsg (take (unat num) ps) (hs_mem h)\<rparr>))) (\<lambda>_.
     hbind (on_proxy (xf_command dev p 0 XF_GET_PARAM smsg (4 * num))) (\<lambda>_.
     hbind (on_proxy (xf_response_get dev p)) (\<lambda>rmsg.
     hbind (XF_CHK_ERR_host (u_opcode rmsg = XF_GET_PARAM \<and> u_buffer rmsg = smsg) XAF_API_ERR) (\<lambda>_.
     hget (\<lambda>s. read_params smsg (unat num) (hs_mem (ad_proxy s)) @ drop (unat num) ps))))))))))"

section \<open>Execution\<close>

definition read_format :: "u64 \<Rightarrow> (u64 \<Rightarrow> u8) \<Rightarrow> xaf_format" where
  "read_format m mem =
     \<lparr>xf_sample_rate = host_read32 m mem, xf_channels = host_read32 (m + 4) mem, xf_pcm_width = host_read32 (m + 8) mem,
      xf_input_length = host_read32 (m + 12) mem, xf_output_length = host_read32 (m + 16) mem\<rparr>"

definition xaf_comp_post_init_config :: "'w xf_device \<Rightarrow> u64 \<Rightarrow> u64 \<Rightarrow> (unit, 'w) aop" where
  "xaf_comp_post_init_config dev p smsg =
     hbind (hget (\<lambda>s. read_format smsg (hs_mem (ad_proxy s)))) (\<lambda>f.
     hbind (upd_comp p (\<lambda>x. x\<lparr>hc_out_format := f\<rparr>)) (\<lambda>_. hbind (hget (\<lambda>s. hc_noutbuf (ad_comp s p))) (\<lambda>n.
     hbind (if n \<noteq> 0
            then hbind (on_proxy (xf_pool_alloc dev n (xf_output_length f) XAF_MEM_ID_COMP))
                   (\<lambda>pool. upd_comp p (\<lambda>x. x\<lparr>hc_outpool := pool\<rparr>))
            else hret ()) (\<lambda>_.
     upd_comp p (\<lambda>x. x\<lparr>hc_init_done := 1, hc_comp_status := XAF_INIT_DONE\<rparr>)))))"

text \<open>One round of the status query for a component that waits for responses: the answer is written to \<open>p_info\<close>,
  unless it is that to the start command.\<close>

definition status_response :: "'w xf_device \<Rightarrow> u64 \<Rightarrow> xf_user_msg \<Rightarrow> ((u64 \<times> u32) option, 'w) aop" where
  "status_response dev p rmsg =
     hbind (hget (\<lambda>s. ad_comp s p)) (\<lambda>C.
     if u_opcode rmsg = XF_FILL_THIS_BUFFER then
       (if u_buffer rmsg = hc_start_buf C then
          hbind (xaf_comp_post_init_config dev p (hc_start_buf C)) (\<lambda>_. hret None)
        else
          hbind (if hc_inpool C = 0 \<and> hc_outpool C \<noteq> 0
                 then upd_comp p (\<lambda>x. x\<lparr>hc_pending_resp := hc_pending_resp x - 1\<rparr>) else hret ()) (\<lambda>_.
          hbind (if u_length rmsg = 0 then upd_comp p (\<lambda>x. x\<lparr>hc_comp_status := XAF_EXEC_DONE\<rparr>)
                 else upd_comp p (\<lambda>x. x\<lparr>hc_comp_status := XAF_OUTPUT_READY,
                                        hc_expect_out_cmd := hc_expect_out_cmd x + 1\<rparr>)) (\<lambda>_.
          hret (Some (u_buffer rmsg, u_length rmsg)))))
     else
       hbind (XF_CHK_ERR_host (u_opcode rmsg = XF_EMPTY_THIS_BUFFER) XAF_API_ERR) (\<lambda>_.
       hbind (upd_comp p (\<lambda>x. x\<lparr>hc_pending_resp := hc_pending_resp x - 1,
                                hc_comp_status := (if hc_input_over x \<noteq> 0 \<and> u_buffer rmsg = 0
                                                   then XAF_EXEC_DONE else XAF_NEED_INPUT)\<rparr>)) (\<lambda>_.
       hret (Some (u_buffer rmsg, u_length rmsg)))))"

definition xaf_comp_get_status ::
  "'w xf_device \<Rightarrow> u64 \<Rightarrow> u64 \<Rightarrow> u64 \<Rightarrow> u64 \<Rightarrow> (xaf_comp_status \<times> (u64 \<times> u32) option, 'w) aop"
where
  "xaf_comp_get_status dev adev p p_status p_info =
     hbind (XAF_CHK_PTR p) (\<lambda>_. hbind (XAF_CHK_PTR p_status) (\<lambda>_. hbind (XAF_CHK_PTR p_info) (\<lambda>_.
     hbind (hget (\<lambda>s. ad_comp s p)) (\<lambda>C.
     hbind (if hc_init_done C = 0 then XAF_CHK_PTR adev else hret ()) (\<lambda>_.
     hbind (if hc_pending_resp C \<noteq> 0
            then hbind (on_proxy (xf_response_get dev p)) (status_response dev p)
            else hbind (if (hc_comp_status C = XAF_STARTING \<and> hc_start_cmd_issued C \<noteq> 0 \<or>
                            hc_comp_status C = XAF_INIT_DONE \<and> hc_exec_cmd_issued C \<noteq> 0) \<and> hc_inpool C \<noteq> 0
                        then upd_comp p (\<lambda>x. x\<lparr>hc_comp_status := XAF_NEED_INPUT\<rparr>) else hret ()) (\<lambda>_. hret None))
       (\<lambda>info.
     hget (\<lambda>s. (hc_comp_status (ad_comp s p), info))))))))"

definition comp_start :: "'w xf_device \<Rightarrow> u64 \<Rightarrow> (unit, 'w) aop" where
  "comp_start dev p =
     hbind (hget (\<lambda>s. ad_comp s p)) (\<lambda>C.
     if hc_start_cmd_issued C \<noteq> 0 then hret () else
     hbind (comp_aux p) (\<lambda>b. hbind (upd_comp p (\<lambda>x. x\<lparr>hc_start_buf := b\<rparr>)) (\<lambda>_.
     hbind (on_proxy (xf_command dev p (hc_inp_ports C) XF_FILL_THIS_BUFFER b 0)) (\<lambda>_.
     hbind (upd_comp p (\<lambda>x. x\<lparr>hc_start_cmd_issued := 1\<rparr>)) (\<lambda>_.
     if hc_comp_type C \<noteq> XAF_DECODER then
       hbind (on_proxy (xf_response_get dev p)) (\<lambda>rmsg.
       hbind (XF_CHK_ERR_host (u_opcode rmsg = XF_FILL_THIS_BUFFER \<and> u_buffer rmsg = b) XAF_API_ERR) (\<lambda>_.
       xaf_comp_post_init_config dev p b))
     else hret ())))))"

text \<open>The loop of the execution command: every output buffer is sent to the output port.\<close>

fun send_outbufs :: "'w xf_device \<Rightarrow> nat \<Rightarrow> u64 \<Rightarrow> u64 \<Rightarrow> u32 \<Rightarrow> u32 \<Rightarrow> (unit, 'w) hop" where
  "send_outbufs dev 0 p pool port len = hret ()"
| "send_outbufs dev (Suc n) p pool port len =
     hbind (xf_buffer_get pool) (\<lambda>b. hbind (xf_buffer_data b) (\<lambda>d.
     hbind (xf_command dev p port XF_FILL_THIS_BUFFER d len) (\<lambda>_. send_outbufs dev n p pool port len)))"

definition comp_exec :: "'w xf_device \<Rightarrow> u64 \<Rightarrow> (unit, 'w) aop" where
  "comp_exec dev p =
     hbind (hget (\<lambda>s. ad_comp s p)) (\<lambda>C.
     if hc_init_done C = 0 \<or> hc_exec_cmd_issued C \<noteq> 0 then hret () else
     hbind (upd_comp p (\<lambda>x. x\<lparr>hc_exec_cmd_issued := 1\<rparr>)) (\<lambda>_.
     if hc_outpool C \<noteq> 0 then
       hbind (on_proxy (send_outbufs dev (unat (hc_noutbuf C)) p (hc_outpool C) (hc_inp_ports C)
                          (xf_output_length (hc_out_format C)))) (\<lambda>_.
       if hc_inpool C = 0 then upd_comp p (\<lambda>x. x\<lparr>hc_pending_resp := hc_noutbuf C\<rparr>) else hret ())
     else hret ()))"

definition comp_input_over :: "'w xf_device \<Rightarrow> u64 \<Rightarrow> (unit, 'w) aop" where
  "comp_input_over dev p =
     hbind (hget (\<lambda>s. ad_comp s p)) (\<lambda>C.
     if hc_input_over C \<noteq> 0 then hret () else
     hbind (on_proxy (xf_command dev p 0 XF_EMPTY_THIS_BUFFER 0 0)) (\<lambda>_.
     upd_comp p (\<lambda>x. x\<lparr>hc_input_over := 1, hc_pending_resp := hc_pending_resp x + 1\<rparr>)))"

definition comp_input_ready :: "'w xf_device \<Rightarrow> u64 \<Rightarrow> u64 \<Rightarrow> u32 \<Rightarrow> (unit, 'w) aop" where
  "comp_input_ready dev p b len =
     hbind (hget (\<lambda>s. ad_comp s p)) (\<lambda>C.
     if hc_input_over C \<noteq> 0 then hret () else
     hbind (XAF_CHK_PTR b) (\<lambda>_. hbind (on_proxy (xf_command dev p 0 XF_EMPTY_THIS_BUFFER b len)) (\<lambda>_.
     upd_comp p (\<lambda>x. x\<lparr>hc_pending_resp := hc_pending_resp x + 1\<rparr>))))"

definition comp_need_output :: "'w xf_device \<Rightarrow> u64 \<Rightarrow> u64 \<Rightarrow> u32 \<Rightarrow> (unit, 'w) aop" where
  "comp_need_output dev p b len =
     hbind (hget (\<lambda>s. ad_comp s p)) (\<lambda>C.
     if hc_expect_out_cmd C = 0 then hret () else
     hbind (XAF_CHK_PTR b) (\<lambda>_.
     hbind (on_proxy (xf_command dev p (hc_inp_ports C) XF_FILL_THIS_BUFFER b len)) (\<lambda>_.
     upd_comp p (\<lambda>x. x\<lparr>hc_expect_out_cmd := hc_expect_out_cmd x - 1,
                       hc_pending_resp := (if hc_inpool C = 0 \<and> hc_outpool C \<noteq> 0 then hc_pending_resp x + 1
                                           else hc_pending_resp x)\<rparr>))))"

definition xaf_comp_process :: "'w xf_device \<Rightarrow> u64 \<Rightarrow> u64 \<Rightarrow> u64 \<Rightarrow> u32 \<Rightarrow> u32 \<Rightarrow> (unit, 'w) aop" where
  "xaf_comp_process dev adev p b len flag =
     hbind (XAF_CHK_PTR p) (\<lambda>_. hbind (hget (\<lambda>s. ad_comp s p)) (\<lambda>C.
     hbind (if hc_init_done C = 0 then XAF_CHK_PTR adev else hret ()) (\<lambda>_.
     hbind (XAF_CHK_RANGE flag (uint XAF_START_FLAG) (uint XAF_NEED_OUTPUT_FLAG)) (\<lambda>_.
     hbind (if flag = XAF_INPUT_READY_FLAG then XAF_CHK_RANGE len 0 (uint XAF_INBUF_SIZE) else hret ()) (\<lambda>_.
     if flag = XAF_START_FLAG then comp_start dev p
     else if flag = XAF_EXEC_FLAG then comp_exec dev p
     else if flag = XAF_INPUT_OVER_FLAG then comp_input_over dev p
     else if flag = XAF_INPUT_READY_FLAG then comp_input_ready dev p b len
     else if flag = XAF_NEED_OUTPUT_FLAG then comp_need_output dev p b len
     else hret ())))))"

section \<open>Connections\<close>

definition xaf_connect :: "'w xf_device \<Rightarrow> u64 \<Rightarrow> u64 \<Rightarrow> u32 \<Rightarrow> (unit, 'w) aop" where
  "xaf_connect dev src dst num_buf =
     hbind (XAF_CHK_PTR src) (\<lambda>_. hbind (XAF_CHK_PTR dst) (\<lambda>_. hbind (XAF_CHK_RANGE num_buf 2 4) (\<lambda>_.
     hbind (hget (\<lambda>s. (ad_comp s src, ad_comp s dst))) (\<lambda>(S, D).
     hbind (XF_CHK_ERR_host (\<not> (hc_init_done S = 0 \<or> hc_out_routed S = hc_out_ports S \<or>
                               hc_inp_routed D = hc_inp_ports D)) XAF_ROUTING_ERROR) (\<lambda>_.
     hbind (on_proxy (xf_route dev src (hc_inp_ports S + hc_out_routed S) dst (hc_inp_routed D) num_buf
                        (xf_output_length (hc_out_format S)) 8)) (\<lambda>_.
     hbind (upd_comp src (\<lambda>x. x\<lparr>hc_out_routed := hc_out_routed x + 1\<rparr>)) (\<lambda>_.
     upd_comp dst (\<lambda>x. x\<lparr>hc_inp_routed := hc_inp_routed x + 1\<rparr>))))))))"

definition xaf_disconnect :: "'w xf_device \<Rightarrow> u64 \<Rightarrow> (unit, 'w) aop" where
  "xaf_disconnect dev p =
     hbind (XAF_CHK_PTR p) (\<lambda>_. hbind (hget (\<lambda>s. ad_comp s p)) (\<lambda>C.
     hbind (XF_CHK_ERR_host (\<not> (hc_init_done C = 0 \<or> hc_out_routed C \<noteq> hc_out_ports C)) XAF_ROUTING_ERROR) (\<lambda>_.
     on_proxy (xf_unroute dev p (hc_inp_ports C)))))"

end
