(* ===== verification/XH_Pools.thy ===== *)
theory XH_Pools
  imports XH_Proxy XF_Io_Input
begin

text \<open>
  The buffer pools of the host and the exchange of a command with its response. A pool is a stack of free
  buffers and a set of buffers in use; the locale \<open>op_refinement\<close> carries the step-wise facts to whole
  histories. A pool whose memory the DSP grants is laid out as an array.
\<close>

section \<open>Running calls\<close>

lemmas hrun = hret_def hfail_def hstop_def hbind_def XF_CHK_ERR_host_def htry_def hget_def hupd_def hdev_def
  chk_errno_def

lemma hbind_assoc: "hbind (hbind m k) l = hbind m (\<lambda>x. hbind (k x) l)"
  by (rule ext) (auto simp: hrun split: option.splits sum.splits)

lemma a2b_upd [simp]:
  "xf_ipc_a2b_host a (h\<lparr>hs_rx := x1\<rparr>) = xf_ipc_a2b_host a h" "xf_ipc_a2b_host a (h\<lparr>hs_pipe := x2\<rparr>) = xf_ipc_a2b_host a h"
  "xf_ipc_a2b_host a (h\<lparr>hs_mem := x3\<rparr>) = xf_ipc_a2b_host a h" "xf_ipc_a2b_host a (h\<lparr>hs_dev := x4\<rparr>) = xf_ipc_a2b_host a h"
  by (simp_all add: xf_ipc_a2b_host_def)

lemma b2a_upd [simp]:
  "xf_ipc_b2a_host b (h\<lparr>hs_rx := x1\<rparr>) = xf_ipc_b2a_host b h" "xf_ipc_b2a_host b (h\<lparr>hs_pipe := x2\<rparr>) = xf_ipc_b2a_host b h"
  "xf_ipc_b2a_host b (h\<lparr>hs_mem := x3\<rparr>) = xf_ipc_b2a_host b h" "xf_ipc_b2a_host b (h\<lparr>hs_dev := x4\<rparr>) = xf_ipc_b2a_host b h"
  "xf_ipc_b2a_host b (h\<lparr>hs_cmap := x5\<rparr>) = xf_ipc_b2a_host b h" "xf_ipc_b2a_host b (upd_handle p f h) = xf_ipc_b2a_host b h"
  by (simp_all add: xf_ipc_b2a_host_def upd_handle_def)

lemma ucast_back: "(ucast (ucast (a :: u32) :: u64) :: u32) = a"
  by (rule bit_word_eqI) (simp add: bit_simps)

text \<open>A proxy at rest: nothing is waiting in its pipe or in the driver, and the thread runs.\<close>

definition host_idle :: "'w xf_host \<Rightarrow> bool" where
  "host_idle h \<longleftrightarrow> hs_pipe h = [] \<and> hs_rx h = [] \<and> hs_thread h"

definition cmd_message :: "'w xf_host \<Rightarrow> xf_user_msg \<Rightarrow> xf_proxy_message" where
  "cmd_message h msg = \<lparr>p_session_id = u_id msg, p_opcode = u_opcode msg, p_length = u_length msg,
     p_address = ucast (xf_ipc_b2a_host (u_buffer msg) h), p_v_address = hs_stack h\<rparr>"

text \<open>What the device must do for a command: answer it with one message for the proxy, while it is waited for.\<close>

definition dev_answers ::
  "'w xf_device \<Rightarrow> 'w xf_host \<Rightarrow> xf_user_msg \<Rightarrow> xf_proxy_message \<Rightarrow> (u64 \<Rightarrow> u8) \<Rightarrow> 'w \<Rightarrow> bool"
where
  "dev_answers dev h msg m mem w \<longleftrightarrow>
     dev_run dev (hs_mem h) (dev_send dev (cmd_message h msg) (hs_mem h) (hs_dev h)) = ([m], mem, w) \<and>
     XF_AP_CLIENT (p_session_id m) = 0"

lemma cmd_exec_served:
  assumes I: "host_idle h" and b: "xf_ipc_b2a_host (u_buffer msg) h \<noteq> XF_PROXY_BADADDR"
    and d: "dev_answers dev h msg m mem w" and a: "xf_ipc_a2b_host (ucast (p_address m)) h \<noteq> - 1"
  shows "xf_proxy_cmd_exec dev msg h =
    Some (Inr \<lparr>u_id = p_session_id m, u_opcode = p_opcode m, u_length = p_length m,
               u_buffer = xf_ipc_a2b_host (ucast (p_address m)) h\<rparr>, h\<lparr>hs_mem := mem, hs_dev := w\<rparr>)"
  using I b d a
  by (simp add: xf_proxy_cmd_exec_def hrun xf_ipc_send_def xf_proxy_response_get_def xf_wait_pipe_def xf_proxy_thread_def
      dev_answers_def cmd_message_def host_idle_def xf_ipc_recv_def xf_proxy_dispatch_def xf_proxy_response_put_def Let_def)

section \<open>Lists of free buffers\<close>

fun link_path :: "(u64 \<Rightarrow> xf_buffer) \<Rightarrow> u64 \<Rightarrow> u64 list \<Rightarrow> bool" where
  "link_path H p [] \<longleftrightarrow> p = 0"
| "link_path H p (x # xs) \<longleftrightarrow> p = x \<and> x \<noteq> 0 \<and> link_path H (hb_link (H x)) xs"

lemma link_path_cong: "(\<And>x. x \<in> set xs \<Longrightarrow> hb_link (H' x) = hb_link (H x)) \<Longrightarrow> link_path H' p xs = link_path H p xs"
  by (induction xs arbitrary: p) auto

lemma link_path_nz: "link_path H p xs \<Longrightarrow> 0 \<notin> set xs"
  by (induction xs arbitrary: p) auto

text \<open>The state of a pool: the stack of free buffers and the set of buffers in use.\<close>

type_synonym pool_view = "u64 list \<times> u64 set"

definition pool_state :: "u64 \<Rightarrow> 'w xf_host \<Rightarrow> pool_view \<Rightarrow> bool" where
  "pool_state p h v \<longleftrightarrow>
     p \<noteq> 0 \<and> link_path (hs_buf h) (hp_free (hs_pool h p)) (fst v) \<and> distinct (fst v) \<and> 0 \<notin> snd v \<and>
     set (fst v) \<inter> snd v = {} \<and> (\<forall>b\<in>snd v. hb_link (hs_buf h b) = p)"

definition pool_frame :: "u64 \<Rightarrow> 'w xf_host \<Rightarrow> 'w xf_host \<Rightarrow> bool" where
  "pool_frame p h h' \<longleftrightarrow>
     h' = h\<lparr>hs_buf := hs_buf h', hs_pool := hs_pool h'\<rparr> \<and> (\<forall>b. hb_address (hs_buf h' b) = hb_address (hs_buf h b)) \<and>
     (\<forall>q. q \<noteq> p \<longrightarrow> hs_pool h' q = hs_pool h q) \<and> (\<exists>f. hs_pool h' p = (hs_pool h p)\<lparr>hp_free := f\<rparr>)"

lemma pool_frame_refl: "pool_frame p h h"
  unfolding pool_frame_def by (intro conjI exI [of _ "hp_free (hs_pool h p)"]) simp_all

lemma pool_frame_trans:
  assumes "pool_frame p h h1" and "pool_frame p h1 h2"
  shows "pool_frame p h h2"
proof -
  have "h1 = h\<lparr>hs_buf := hs_buf h1, hs_pool := hs_pool h1\<rparr>" "h2 = h1\<lparr>hs_buf := hs_buf h2, hs_pool := hs_pool h2\<rparr>"
    using assms by (simp_all add: pool_frame_def)
  then have "h2 = h\<lparr>hs_buf := hs_buf h1, hs_pool := hs_pool h1\<rparr>\<lparr>hs_buf := hs_buf h2, hs_pool := hs_pool h2\<rparr>" by metis
  then have "h2 = h\<lparr>hs_buf := hs_buf h2, hs_pool := hs_pool h2\<rparr>" by simp
  then show ?thesis using assms by (auto simp: pool_frame_def)
qed

lemma pool_frame_upd:
  "pool_frame p h (upd_buf b (\<lambda>x. x\<lparr>hb_link := l\<rparr>) (upd_pool p (\<lambda>x. x\<lparr>hp_free := f\<rparr>) h))"
  by (auto simp: pool_frame_def upd_buf_def upd_pool_def)

lemma upd_buf_pool: "upd_pool p g (upd_buf b f h) = upd_buf b f (upd_pool p g h)"
  by (simp add: upd_buf_def upd_pool_def)

lemma buffer_get_state:
  assumes "pool_state p h (b # F, U)"
  shows "\<exists>h'. xf_buffer_get p h = Some (Inr b, h') \<and> pool_state p h' (F, insert b U) \<and> pool_frame p h h'"
proof -
  let ?h = "upd_buf b (\<lambda>x. x\<lparr>hb_link := p\<rparr>) (upd_pool p (\<lambda>x. x\<lparr>hp_free := hb_link (hs_buf h b)\<rparr>) h)"
  have b: "hp_free (hs_pool h p) = b" "b \<noteq> 0" "p \<noteq> 0" "b \<notin> set F" "b \<notin> U" using assms by (auto simp: pool_state_def)
  have g: "xf_buffer_get p h = Some (Inr b, ?h)" using b by (simp add: xf_buffer_get_def hrun Let_def)
  have "link_path (hs_buf ?h) (hb_link (hs_buf h b)) F = link_path (hs_buf h) (hb_link (hs_buf h b)) F"
    by (rule link_path_cong) (use b in \<open>auto simp: upd_buf_def upd_pool_def\<close>)
  then have s: "pool_state p ?h (F, insert b U)"
    using assms b by (auto simp: pool_state_def upd_buf_def upd_pool_def)
  have "pool_frame p h ?h" by (simp only: upd_buf_pool pool_frame_upd)
  with g s show ?thesis by blast
qed

lemma buffer_get_empty: "pool_state p h ([], U) \<Longrightarrow> xf_buffer_get p h = Some (Inr 0, h)"
  by (simp add: pool_state_def xf_buffer_get_def hrun Let_def)

lemma buffer_put_state:
  assumes "pool_state p h (F, U)" and "b \<in> U"
  shows "\<exists>h'. xf_buffer_put b h = Some (Inr (), h') \<and> pool_state p h' (b # F, U - {b}) \<and> pool_frame p h h'"
proof -
  let ?h = "upd_pool p (\<lambda>x. x\<lparr>hp_free := b\<rparr>) (upd_buf b (\<lambda>x. x\<lparr>hb_link := hp_free (hs_pool h p)\<rparr>) h)"
  have b: "hb_link (hs_buf h b) = p" "b \<noteq> 0" "p \<noteq> 0" "b \<notin> set F" using assms by (auto simp: pool_state_def)
  have g: "xf_buffer_put b h = Some (Inr (), ?h)" using b by (simp add: xf_buffer_put_def hrun Let_def)
  have "link_path (hs_buf ?h) (hp_free (hs_pool h p)) F = link_path (hs_buf h) (hp_free (hs_pool h p)) F"
    by (rule link_path_cong) (use b in \<open>auto simp: upd_buf_def upd_pool_def\<close>)
  then have s: "pool_state p ?h (b # F, U - {b})"
    using assms b by (auto simp: pool_state_def upd_buf_def upd_pool_def)
  have "pool_frame p h ?h" by (simp only: upd_buf_pool pool_frame_upd)
  with g s show ?thesis by blast
qed

section \<open>Histories of a pool\<close>

datatype pool_op = PGet | PPut u64

fun pool_step :: "u64 \<Rightarrow> pool_op \<Rightarrow> 'w xf_host \<Rightarrow> ('w xf_host \<times> u64) option" where
  "pool_step p PGet h = (case xf_buffer_get p h of Some (Inr b, h) \<Rightarrow> Some (h, b) | _ \<Rightarrow> None)"
| "pool_step p (PPut b) h = (case xf_buffer_put b h of Some (Inr _, h) \<Rightarrow> Some (h, 0) | _ \<Rightarrow> None)"

text \<open>The specification: a get pops the stack, 0 when it is empty, and a put pushes.\<close>

fun pool_spec :: "pool_op \<Rightarrow> pool_view \<Rightarrow> pool_view \<times> u64" where
  "pool_spec PGet (F, U) = (case F of [] \<Rightarrow> ((F, U), 0) | b # F \<Rightarrow> ((F, insert b U), b))"
| "pool_spec (PPut b) (F, U) = ((b # F, U - {b}), 0)"

text \<open>Only a buffer in use may be put back.\<close>

fun pool_ops_ok :: "pool_op list \<Rightarrow> pool_view \<Rightarrow> bool" where
  "pool_ops_ok [] v \<longleftrightarrow> True"
| "pool_ops_ok (x # xs) v \<longleftrightarrow> (\<forall>b. x = PPut b \<longrightarrow> b \<in> snd v) \<and> pool_ops_ok xs (fst (pool_spec x v))"

definition pool_rel :: "u64 \<Rightarrow> 'w xf_host \<Rightarrow> u64 set \<Rightarrow> pool_op list \<Rightarrow> 'w xf_host \<Rightarrow> pool_view \<Rightarrow> bool" where
  "pool_rel p h0 B ops h v \<longleftrightarrow>
     pool_state p h v \<and> pool_ops_ok ops v \<and> set (fst v) \<union> snd v = B \<and> pool_frame p h0 h"

interpretation hpool: op_refinement "pool_rel p h0 B" "pool_step p" pool_spec
proof
  fix x xs h v
  assume r: "pool_rel p h0 B (x # xs) h v"
  obtain F U where v: "v = (F, U)" by (cases v)
  show "\<exists>h'. pool_step p x h = Some (h', snd (pool_spec x v)) \<and> pool_rel p h0 B xs h' (fst (pool_spec x v))"
  proof (cases x)
    case PGet
    show ?thesis
    proof (cases F)
      case Nil
      then show ?thesis using r v PGet buffer_get_empty [of p h U] by (auto simp: pool_rel_def)
    next
      case (Cons b G)
      then have "pool_state p h (b # G, U)" using r v by (simp add: pool_rel_def)
      from buffer_get_state [OF this] show ?thesis
        using r v PGet Cons pool_frame_trans by (auto simp: pool_rel_def)
    qed
  next
    case (PPut b)
    then have "pool_state p h (F, U)" "b \<in> U" using r v by (auto simp: pool_rel_def)
    from buffer_put_state [OF this] show ?thesis
      using r v PPut pool_frame_trans by (auto simp: pool_rel_def)
  qed
qed

section \<open>The layout of a new pool\<close>

lemma u64_add: "unat (a :: u64) + unat b < 2 ^ 64 \<Longrightarrow> unat (a + b) = unat a + unat b"
  by (simp add: unat_plus_if_size word_size)

lemma u64_of_nat: "n < 2 ^ 64 \<Longrightarrow> unat (of_nat n :: u64) = n"
  by (simp add: unsigned_of_nat take_bit_nat_eq_self)

lemma u64_offset: "unat (a :: u64) + n < 2 ^ 64 \<Longrightarrow> unat (a + of_nat n) = unat a + n"
  by (simp add: u64_add u64_of_nat)

lemma pool_link_out:
  assumes "0 < n" and "\<And>i. i < n \<Longrightarrow> x \<noteq> b + of_nat (16 * i)"
  shows "xf_pool_link n b d len H x = H x"
  using assms
proof (induction n arbitrary: b d H)
  case (Suc n)
  have x: "x \<noteq> b" using Suc.prems(2) [of 0] by simp
  show ?case
  proof (cases "n = 0")
    case False
    have "x \<noteq> b + 16 + of_nat (16 * i)" if "i < n" for i
      using Suc.prems(2) [of "Suc i"] that by (simp add: add.assoc)
    then show ?thesis using Suc.IH [of "b + 16"] False x by simp
  qed (simp add: x)
qed simp

lemma host_pool_link:
  assumes "unat b + 16 * n \<le> 2 ^ 64" and "i < n"
  shows "xf_pool_link n b d len H (b + of_nat (16 * i)) =
    \<lparr>hb_address = d + of_nat i * ucast len, hb_link = if Suc i = n then 0 else b + of_nat (16 * Suc i)\<rparr>"
  using assms
proof (induction n arbitrary: b d H i)
  case (Suc n)
  show ?case
  proof (cases "n = 0")
    case False
    then have b: "unat (b + 16) = unat b + 16" using Suc.prems(1) u64_add [of b 16] by simp
    show ?thesis
    proof (cases i)
      case 0
      have "b \<noteq> b + 16 + of_nat (16 * j)" if "j < n" for j
      proof -
        have "unat (b + 16 + of_nat (16 * j)) = unat b + 16 + 16 * j"
          using Suc.prems(1) that b by (subst u64_offset) auto
        then show ?thesis by (metis add.assoc add_cancel_right_right add_is_0 numeral_eq_iff zero_neq_numeral)
      qed
      then have "xf_pool_link n (b + 16) d' len H' b = H' b" for d' H' using False by (intro pool_link_out) auto
      then show ?thesis using 0 False by simp
    next
      case (Suc j)
      have e: "b + of_nat (16 * Suc k) = b + 16 + of_nat (16 * k)" for k by (simp add: add.assoc)
      have "xf_pool_link n (b + 16) (d + ucast len) len H' (b + 16 + of_nat (16 * j)) =
          \<lparr>hb_address = d + ucast len + of_nat j * ucast len, hb_link = if Suc j = n then 0 else b + 16 + of_nat (16 * Suc j)\<rparr>" for H'
        using Suc.IH [of "b + 16" j] Suc.prems Suc b by simp
      then show ?thesis unfolding Suc e by (simp add: algebra_simps)
    qed
  qed (use Suc.prems in simp)
qed simp

lemma pool_link_path:
  assumes b: "unat b + 16 * n \<le> 2 ^ 64" "b \<noteq> 0" and k: "k < n"
  shows "link_path (xf_pool_link n b d len H) (b + of_nat (16 * k)) (map (\<lambda>i. b + of_nat (16 * i)) [k ..< n])"
  using k
proof (induction "n - k" arbitrary: k)
  case (Suc m)
  have z: "b + of_nat (16 * k) \<noteq> 0"
  proof -
    have "unat (b + of_nat (16 * k)) = unat b + 16 * k" using b(1) Suc.prems by (intro u64_offset) simp
    then show ?thesis using b(2) by (metis add_is_0 unat_0 unat_eq_zero)
  qed
  have u: "[k ..< n] = k # [Suc k ..< n]" using Suc.prems by (rule upt_conv_Cons)
  show ?case
  proof (cases "Suc k = n")
    case True
    then show ?thesis using z host_pool_link [OF b(1) Suc.prems] by (simp add: u)
  next
    case False
    then have "link_path (xf_pool_link n b d len H) (b + of_nat (16 * Suc k)) (map (\<lambda>i. b + of_nat (16 * i)) [Suc k ..< n])"
      using Suc by (intro Suc.hyps(1)) auto
    then show ?thesis
      unfolding u list.map link_path.simps host_pool_link [OF b(1) Suc.prems]
      using z False by simp
  qed
qed simp

lemma pool_buffers_distinct:
  assumes "unat (b :: u64) + 16 * n \<le> 2 ^ 64"
  shows "distinct (map (\<lambda>i. b + of_nat (16 * i)) [0 ..< n])"
proof -
  have "inj_on (\<lambda>i. b + of_nat (16 * i)) {0 ..< n}"
  proof (rule inj_onI)
    fix i j assume "i \<in> {0 ..< n}" "j \<in> {0 ..< n}" "b + of_nat (16 * i) = b + of_nat (16 * j)"
    moreover have "unat (b + of_nat (16 * k)) = unat b + 16 * k" if "k < n" for k
      using assms that by (intro u64_offset) simp
    ultimately have "unat b + 16 * i = unat b + 16 * j" by (metis atLeastLessThan_iff)
    then show "i = j" by simp
  qed
  then show ?thesis by (simp add: distinct_map)
qed

text \<open>The length of a buffer is the requested length rounded up to a multiple of 64.\<close>

lemma pool_buf_length_round:
  assumes "unat len + 63 < 2 ^ 32"
  shows "unat (pool_buf_length len) = (unat len + 63) div 64 * 64"
proof -
  have m: "(63 :: u32) = mask 6" by (simp add: mask_eq_exp_minus_1)
  have "x AND NOT 63 = push_bit 6 (drop_bit 6 x)" for x :: u32
    unfolding m by (rule bit_word_eqI) (auto simp: bit_simps)
  then have "unat (pool_buf_length len) = unat (push_bit 6 (drop_bit 6 (len + 63)))"
    by (simp add: pool_buf_length_def XF_PROXY_ALIGNMENT_host_def add.commute)
  also have "\<dots> = take_bit 32 (push_bit 6 (drop_bit 6 (unat (len + 63))))"
    by (simp only: unsigned_push_bit_eq unsigned_drop_bit_eq take_bit_nat_eq_self [OF unsigned_less]) simp
  also have "unat (len + 63) = unat len + 63" using assms by (simp add: unat_plus_if_size word_size)
  also have "take_bit 32 (push_bit 6 (drop_bit 6 (unat len + 63))) = ((unat len + 63) div 64 * 64) mod 2 ^ 32"
    by (simp add: push_bit_eq_mult drop_bit_eq_div take_bit_eq_mod)
  also have "\<dots> = (unat len + 63) div 64 * 64"
    using assms by (intro mod_less) (metis div_times_less_eq_dividend le_less_trans)
  finally show ?thesis .
qed

definition alloc_request :: "'w xf_host \<Rightarrow> u32 \<Rightarrow> xf_user_msg" where
  "alloc_request h n = \<lparr>u_id = XF_MSG_ID (XF_AP_PROXY (hs_core h)) (XF_DSP_PROXY (hs_core h)), u_opcode = XF_ALLOC,
     u_length = n, u_buffer = 0\<rparr>"

lemma b2a_null [simp]: "xf_ipc_b2a_host 0 h = XF_PROXY_NULL"
  by (simp add: xf_ipc_b2a_host_def)

lemma null_ok: "XF_PROXY_NULL \<noteq> XF_PROXY_BADADDR" "\<not> XF_PROXY_NULL < XF_CFG_REMOTE_IPC_POOL_SIZE"
  by (simp_all add: XF_PROXY_NULL_def XF_PROXY_BADADDR_def XF_CFG_REMOTE_IPC_POOL_SIZE_def)

lemma buffer_alloc_served:
  assumes "host_idle h" and "dev_answers dev h (alloc_request h n) m mem w" and "p_opcode m = XF_ALLOC"
    and "xf_ipc_a2b_host (ucast (p_address m)) h = b" "b \<noteq> 0" "b \<noteq> - 1"
  shows "xf_proxy_buffer_alloc dev n h = Some (Inr b, h\<lparr>hs_mem := mem, hs_dev := w\<rparr>)"
proof -
  have "xf_proxy_cmd_exec dev (alloc_request h n) h =
      Some (Inr \<lparr>u_id = p_session_id m, u_opcode = p_opcode m, u_length = p_length m, u_buffer = b\<rparr>, h\<lparr>hs_mem := mem, hs_dev := w\<rparr>)"
    using cmd_exec_served [OF assms(1) _ assms(2)] assms(4-6) by (simp add: alloc_request_def null_ok)
  then show ?thesis using assms(3,5) by (simp add: xf_proxy_buffer_alloc_def hrun alloc_request_def)
qed

lemma shared_address:
  assumes "unat (hs_shmem h) + unat XF_CFG_REMOTE_IPC_POOL_SIZE < 2 ^ 64" and "hs_shmem h \<noteq> 0"
    and "a < XF_CFG_REMOTE_IPC_POOL_SIZE"
  shows "xf_ipc_a2b_host a h = hs_shmem h + ucast a" and "unat (hs_shmem h + ucast a) = unat (hs_shmem h) + unat a"
    and "hs_shmem h + ucast a \<noteq> 0" and "hs_shmem h + ucast a \<noteq> - 1"
proof -
  have u: "unat (ucast a :: u64) = unat a" by (simp add: unsigned_ucast_eq take_bit_nat_eq_self less_trans [OF unsigned_less])
  have a: "unat a < unat XF_CFG_REMOTE_IPC_POOL_SIZE" using assms(3) by (simp add: word_less_nat_alt)
  show s: "unat (hs_shmem h + ucast a) = unat (hs_shmem h) + unat a"
    using assms(1) a u u64_add [of "hs_shmem h" "ucast a"] by simp
  show "xf_ipc_a2b_host a h = hs_shmem h + ucast a" using assms(3) by (simp add: xf_ipc_a2b_host_def)
  show "hs_shmem h + ucast a \<noteq> 0" using s assms(2) by (metis add_is_0 unat_0 unat_eq_zero)
  have "unat (- 1 :: u64) = 2 ^ 64 - 1" by (simp add: unsigned_minus_1_eq_mask mask_eq_exp_minus_1)
  then show "hs_shmem h + ucast a \<noteq> - 1" using s assms(1) a by force
qed

definition pool_buffers :: "u64 \<Rightarrow> u32 \<Rightarrow> u64 list" where
  "pool_buffers p number = map (pool_buffer p) [0 ..< unat number]"

lemma pool_alloc_layout:
  fixes number len a :: u32
  defines "L \<equiv> pool_buf_length len"
  assumes idle: "host_idle h" and number: "0 < number" and len: "unat len + 63 < 2 ^ 32"
    and malloc: "dev_malloc dev (32 + number * 16) i (hs_dev h) = (p, w0)" "p \<noteq> 0" "unat p + 32 + 16 * unat number < 2 ^ 64"
    and dsp: "dev_answers dev (h\<lparr>hs_dev := w0\<rparr>) (alloc_request h (number * L)) m mem w"
      "p_opcode m = XF_ALLOC" "p_address m = ucast a"
    and fits: "a < XF_CFG_REMOTE_IPC_POOL_SIZE" "unat a + unat number * unat L \<le> unat XF_CFG_REMOTE_IPC_POOL_SIZE"
    and shm: "unat (hs_shmem h) + unat XF_CFG_REMOTE_IPC_POOL_SIZE < 2 ^ 64" "hs_shmem h \<noteq> 0"
  shows "\<exists>h'. xf_pool_alloc dev number len i h = Some (Inr p, h') \<and>
     pool_state p h' (pool_buffers p number, {}) \<and>
     hp_length (hs_pool h' p) = L \<and> unat L = (unat len + 63) div 64 * 64 \<and>
     (\<forall>k<unat number. unat (hb_address (hs_buf h' (pool_buffer p k))) = unat (hs_shmem h) + unat a + k * unat L) \<and>
     (\<forall>q. q \<noteq> p \<longrightarrow> hs_pool h' q = hs_pool h q) \<and> (\<forall>b. b \<notin> set (pool_buffers p number) \<longrightarrow> hs_buf h' b = hs_buf h b) \<and>
     h' = h\<lparr>hs_mem := mem, hs_dev := w, hs_pool := hs_pool h', hs_buf := hs_buf h'\<rparr>"
proof -
  let ?h = "h\<lparr>hs_dev := w0\<rparr>" and ?d = "hs_shmem h + ucast a" and ?n = "unat number"
  let ?B = "xf_pool_link ?n (pool_buffer p 0) ?d L (hs_buf h)"
  let ?P = "(hs_pool h)(p := \<lparr>hp_proxy = hs_self h, hp_length = L, hp_number = number, hp_p = ?d, hp_free = pool_buffer p 0\<rparr>)"
  let ?h' = "h\<lparr>hs_mem := mem, hs_dev := w, hs_pool := ?P, hs_buf := ?B\<rparr>"
  have idle': "host_idle ?h" using idle by (simp add: host_idle_def)
  have req: "alloc_request ?h (number * L) = alloc_request h (number * L)" by (simp add: alloc_request_def)
  note d = shared_address [OF shm fits(1)]
  have "xf_proxy_buffer_alloc dev (number * L) ?h = Some (Inr ?d, h\<lparr>hs_mem := mem, hs_dev := w\<rparr>)"
    using buffer_alloc_served [OF idle' dsp(1) [folded req] dsp(2)] dsp(3) d ucast_back [of a] by simp
  then have run: "xf_pool_alloc dev number len i h = Some (Inr p, ?h')"
    using malloc(1,2) number by (simp add: xf_pool_alloc_def hrun L_def upd_pool_def Let_def)
  have b0: "unat (p + 32) = unat p + 32" using malloc(3) u64_add [of p 32] by simp
  have b: "unat (p + 32) + 16 * ?n \<le> 2 ^ 64" "p + 32 \<noteq> 0" using malloc(3) b0 by (auto simp: unat_eq_0 [symmetric] simp del: unat_eq_0)
  have n0: "0 < ?n" using number by (simp add: word_less_nat_alt)
  have bufs: "pool_buffers p number = map (\<lambda>k. p + 32 + of_nat (16 * k)) [0 ..< ?n]"
    by (simp add: pool_buffers_def pool_buffer_def)
  have start: "pool_buffer p 0 = p + 32 + of_nat (16 * 0)" by (simp add: pool_buffer_def)
  have "link_path ?B (pool_buffer p 0) (pool_buffers p number)"
    unfolding bufs start using pool_link_path [OF b n0] by simp
  moreover have "distinct (pool_buffers p number)" unfolding bufs by (rule pool_buffers_distinct [OF b(1)])
  ultimately have st: "pool_state p ?h' (pool_buffers p number, {})" using malloc(2) by (simp add: pool_state_def)
  have adr: "unat (hb_address (?B (pool_buffer p k))) = unat (hs_shmem h) + unat a + k * unat L" if k: "k < ?n" for k
  proof -
    have B: "?B (pool_buffer p k) = \<lparr>hb_address = ?d + of_nat k * ucast L, hb_link = if Suc k = ?n then 0 else p + 32 + of_nat (16 * Suc k)\<rparr>"
      using host_pool_link [OF b(1) k] by (simp add: pool_buffer_def)
    have "ucast L = (of_nat (unat L) :: u64)" by (simp add: word_unat_eq_iff unsigned_ucast_eq unsigned_of_nat)
    then have "of_nat k * ucast L = (of_nat (k * unat L) :: u64)" by simp
    then have "hb_address (?B (pool_buffer p k)) = ?d + of_nat (k * unat L)" by (simp only: B xf_buffer.select_convs)
    moreover have "k * unat L \<le> ?n * unat L" using k by simp
    then have "unat (?d + of_nat (k * unat L)) = unat ?d + k * unat L" using fits(2) shm(1) d(2) by (intro u64_offset) linarith
    ultimately show ?thesis by (simp only: d(2))
  qed
  have out: "?B x = hs_buf h x" if "x \<notin> set (pool_buffers p number)" for x
    using that n0 by (intro pool_link_out) (auto simp: bufs pool_buffer_def)
  show ?thesis
    using run st adr out pool_buf_length_round [OF len] by (intro exI [of _ ?h']) (auto simp: L_def)
qed

section \<open>Properties\<close>

text \<open>When the DSP grants the memory, creating a pool returns the pool: its buffers, all free, are the elements of
  the array behind the header, each has the next piece of the granted range, of the requested length
  rounded up to a multiple of 64, so no two overlap, and nothing else of the host's data changes.\<close>

theorem host_pool_layout:
  fixes number len a :: u32
  defines "L \<equiv> pool_buf_length len"
  assumes idle: "host_idle h" and number: "0 < number" and len: "unat len + 63 < 2 ^ 32"
    and malloc: "dev_malloc dev (32 + number * 16) i (hs_dev h) = (p, w0)" "p \<noteq> 0" "unat p + 32 + 16 * unat number < 2 ^ 64"
    and dsp: "dev_answers dev (h\<lparr>hs_dev := w0\<rparr>) (alloc_request h (number * L)) m mem w"
      "p_opcode m = XF_ALLOC" "p_address m = ucast a"
    and fits: "a < XF_CFG_REMOTE_IPC_POOL_SIZE" "unat a + unat number * unat L \<le> unat XF_CFG_REMOTE_IPC_POOL_SIZE"
    and shm: "unat (hs_shmem h) + unat XF_CFG_REMOTE_IPC_POOL_SIZE < 2 ^ 64" "hs_shmem h \<noteq> 0"
  shows "\<exists>h'. xf_pool_alloc dev number len i h = Some (Inr p, h') \<and>
     pool_state p h' (pool_buffers p number, {}) \<and>
     hp_length (hs_pool h' p) = L \<and> unat L = (unat len + 63) div 64 * 64 \<and>
     (\<forall>k<unat number. unat (hb_address (hs_buf h' (pool_buffer p k))) = unat (hs_shmem h) + unat a + k * unat L) \<and>
     (\<forall>q. q \<noteq> p \<longrightarrow> hs_pool h' q = hs_pool h q) \<and> (\<forall>b. b \<notin> set (pool_buffers p number) \<longrightarrow> hs_buf h' b = hs_buf h b) \<and>
     h' = h\<lparr>hs_mem := mem, hs_dev := w, hs_pool := hs_pool h', hs_buf := hs_buf h'\<rparr>"
  unfolding L_def by (rule pool_alloc_layout [OF idle number len malloc dsp [unfolded L_def] fits [unfolded L_def] shm])

text \<open>A device for examples: it answers each message with the message itself, source and destination exchanged,
  allocates at the same place and never fails.\<close>

definition echo_reply :: "xf_proxy_message \<Rightarrow> xf_proxy_message" where
  "echo_reply m = m\<lparr>p_session_id := msg_id_swap (p_session_id m),
     p_address := (if p_opcode m = XF_ALLOC then 128 else p_address m)\<rparr>"

definition echo_device :: "xf_proxy_message list xf_device" where
  "echo_device = \<lparr>dev_sizeof_adev = 3000, dev_sizeof_comp = 200, dev_malloc = (\<lambda>n i w. (4096, w)), dev_free = (\<lambda>p i w. w),
     dev_open = (\<lambda>w. (0, w)), dev_close = (\<lambda>w. w), dev_pipe = (\<lambda>w. (0, w)), dev_close_pipe = (\<lambda>w. w),
     dev_mmap = (\<lambda>w. (0, 65536, w)), dev_thread = (\<lambda>w. (0, w)), dev_send = (\<lambda>m mem w. w @ [echo_reply m]),
     dev_run = (\<lambda>mem w. (w, mem, []))\<rparr>"

definition host_demo :: "xf_proxy_message list xf_host" where
  "host_demo = \<lparr>hs_self = 1024, hs_core = 0, hs_shmem = 65536, hs_pipe = [], hs_aux = 0, hs_cmap = (\<lambda>_. 0), hs_thread = True,
     hs_rx = [], hs_mem = (\<lambda>_. 0), hs_buf = (\<lambda>_. \<lparr>hb_address = 0, hb_link = 0\<rparr>),
     hs_pool = (\<lambda>_. \<lparr>hp_proxy = 0, hp_length = 0, hp_number = 0, hp_p = 0, hp_free = 0\<rparr>),
     hs_handle = (\<lambda>_. \<lparr>hd_proxy = 0, hd_pipe = [], hd_aux = 0, hd_id = 0, hd_client = 0, hd_response = False\<rparr>),
     hs_stack = 0, hs_dev = []\<rparr>"

lemma echo_answers:
  "dev_answers echo_device (host_demo\<lparr>hs_dev := []\<rparr>) (alloc_request host_demo n)
     (echo_reply (cmd_message host_demo (alloc_request host_demo n))) (\<lambda>_. 0) []"
  by (simp add: dev_answers_def echo_device_def host_demo_def echo_reply_def cmd_message_def alloc_request_def
      xf_ipc_b2a_host_def field_defs msg_id_swap_def opcode_defs XF_OPCODE_def)

theorem host_pool_layout_witness:
  "\<exists>h'. xf_pool_alloc echo_device 2 100 0 host_demo = Some (Inr 4096, h') \<and>
     pool_state 4096 h' ([4128, 4144], {}) \<and> unat (hb_address (hs_buf h' 4144)) = 65536 + 128 + 128"
proof -
  have L: "pool_buf_length 100 = 128" by (simp add: pool_buf_length_def XF_PROXY_ALIGNMENT_host_def)
  have b: "pool_buffers 4096 2 = [4128, 4144]" "pool_buffer 4096 1 = 4144"
    by (simp_all add: pool_buffers_def pool_buffer_def upt_rec)
  let ?m = "echo_reply (cmd_message host_demo (alloc_request host_demo (2 * pool_buf_length 100)))"
  have "\<exists>h'. xf_pool_alloc echo_device 2 100 0 host_demo = Some (Inr 4096, h') \<and>
     pool_state 4096 h' (pool_buffers 4096 2, {}) \<and> hp_length (hs_pool h' 4096) = pool_buf_length 100 \<and>
     unat (pool_buf_length 100) = (unat (100 :: u32) + 63) div 64 * 64 \<and>
     (\<forall>k<unat (2 :: u32). unat (hb_address (hs_buf h' (pool_buffer 4096 k))) =
        unat (hs_shmem host_demo) + unat (128 :: u32) + k * unat (pool_buf_length 100)) \<and>
     (\<forall>q. q \<noteq> 4096 \<longrightarrow> hs_pool h' q = hs_pool host_demo q) \<and>
     (\<forall>b. b \<notin> set (pool_buffers 4096 2) \<longrightarrow> hs_buf h' b = hs_buf host_demo b) \<and>
     h' = host_demo\<lparr>hs_mem := (\<lambda>_. 0), hs_dev := [], hs_pool := hs_pool h', hs_buf := hs_buf h'\<rparr>"
  proof (rule host_pool_layout [where w0 = "[]" and m = ?m])
    show "dev_answers echo_device (host_demo\<lparr>hs_dev := []\<rparr>) (alloc_request host_demo (2 * pool_buf_length 100)) ?m (\<lambda>_. 0) []"
      by (rule echo_answers)
  qed (simp_all add: host_idle_def host_demo_def echo_device_def echo_reply_def cmd_message_def alloc_request_def L
      XF_CFG_REMOTE_IPC_POOL_SIZE_def)
  then obtain h' where h: "xf_pool_alloc echo_device 2 100 0 host_demo = Some (Inr 4096, h')"
    "pool_state 4096 h' (pool_buffers 4096 2, {})"
    "\<forall>k<unat (2 :: u32). unat (hb_address (hs_buf h' (pool_buffer 4096 k))) =
        unat (hs_shmem host_demo) + unat (128 :: u32) + k * unat (pool_buf_length 100)" by blast
  from h(3) have "unat (hb_address (hs_buf h' (pool_buffer 4096 1))) = 65536 + 128 + 128"
    by (elim allE [of _ 1]) (simp add: host_demo_def L)
  with h(1,2) show ?thesis unfolding b by blast
qed

text \<open>Every history of taking buffers from a pool and returning those in use does what a stack does: a get hands
  out the buffer returned last, or 0 when all are in use, so no buffer is ever handed out twice, none is
  lost, and neither the addresses of the data nor another pool changes.\<close>

theorem host_pool_histories:
  assumes "pool_state p h (F, U)" and "pool_ops_ok ops (F, U)"
  shows "\<exists>h' F' U'. run_ops (pool_step p) ops h = Some (h', snd (run_spec pool_spec ops (F, U))) \<and>
     fst (run_spec pool_spec ops (F, U)) = (F', U') \<and> pool_state p h' (F', U') \<and>
     set F' \<union> U' = set F \<union> U \<and> set F' \<inter> U' = {} \<and>
     (\<forall>b. hb_address (hs_buf h' b) = hb_address (hs_buf h b)) \<and> (\<forall>q. q \<noteq> p \<longrightarrow> hs_pool h' q = hs_pool h q)"
proof -
  have "pool_rel p h (set F \<union> U) ops h (F, U)" using assms pool_frame_refl by (simp add: pool_rel_def)
  from hpool.run_total [OF this] obtain h' where
    h: "run_ops (pool_step p) ops h = Some (h', snd (run_spec pool_spec ops (F, U)))"
       "pool_rel p h (set F \<union> U) [] h' (fst (run_spec pool_spec ops (F, U)))" by blast
  obtain F' U' where "fst (run_spec pool_spec ops (F, U)) = (F', U')" by (metis prod.exhaust)
  with h show ?thesis by (auto simp: pool_rel_def pool_frame_def pool_state_def)
qed

theorem host_pool_histories_witness:
  "\<exists>h'. run_ops (pool_step 4096) [PGet, PGet, PGet, PPut 4128, PGet]
      (host_demo\<lparr>hs_pool := (hs_pool host_demo)(4096 := \<lparr>hp_proxy = 0, hp_length = 0, hp_number = 2, hp_p = 0, hp_free = 4128\<rparr>),
                 hs_buf := (hs_buf host_demo)(4128 := \<lparr>hb_address = 0, hb_link = 4144\<rparr>)\<rparr>) = Some (h', [4128, 4144, 0, 0, 4128])"
proof -
  let ?h = "host_demo\<lparr>hs_pool := (hs_pool host_demo)(4096 := \<lparr>hp_proxy = 0, hp_length = 0, hp_number = 2, hp_p = 0, hp_free = 4128\<rparr>),
                 hs_buf := (hs_buf host_demo)(4128 := \<lparr>hb_address = 0, hb_link = 4144\<rparr>)\<rparr>"
  have "pool_state 4096 ?h ([4128, 4144], {})" by (simp add: pool_state_def host_demo_def)
  moreover have "pool_ops_ok [PGet, PGet, PGet, PPut 4128, PGet] ([4128, 4144], {})" by simp
  ultimately show ?thesis using host_pool_histories [of 4096 ?h "[4128, 4144]" "{}" "[PGet, PGet, PGet, PPut 4128, PGet]"]
    by auto
qed

end
