(* ===== verification/XH_Clients.thy ===== *)
theory XH_Clients
  imports XH_Pools
begin

text \<open>
  The client numbers of the host and the distribution of responses: the association map is a stack of free numbers
  and a finite map from numbers in use to handles, and the receiving thread is a demultiplexer of the messages of
  the driver. Opening a component takes a control buffer and a number, and both come back when opening fails
  or the component is closed.
\<close>

section \<open>The association map\<close>

fun num_path :: "(u32 \<Rightarrow> u64) \<Rightarrow> u32 \<Rightarrow> u32 list \<Rightarrow> bool" where
  "num_path cm p [] \<longleftrightarrow> p = 0"
| "num_path cm p (x # xs) \<longleftrightarrow> p = x \<and> x \<noteq> 0 \<and> num_path cm (cmap_next cm x) xs"

lemma num_path_cong: "(\<And>x. x \<in> set xs \<Longrightarrow> cmap_next cm' x = cmap_next cm x) \<Longrightarrow> num_path cm' p xs = num_path cm p xs"
  by (induction xs arbitrary: p) auto

lemma num_path_next: "num_path cm p xs \<Longrightarrow> x \<in> set xs \<Longrightarrow> cmap_next cm x = 0 \<or> cmap_next cm x \<in> set xs"
proof (induction xs arbitrary: p)
  case (Cons y ys)
  then show ?case by (cases ys) auto
qed simp

lemma num_path_nz: "num_path cm p xs \<Longrightarrow> 0 \<notin> set xs"
  by (induction xs arbitrary: p) auto

lemma cmap_next_set [simp]: "cmap_next (cmap_set_next c n cm) d = (if d = c then n else cmap_next cm d)"
proof -
  have m: "(0xFFFFFFFF :: u64) = mask 32" by (simp add: mask_eq_exp_minus_1)
  have "ucast ((x AND NOT 0xFFFFFFFF) OR ucast n :: u64) = n" for x :: u64
    unfolding m by (rule bit_word_eqI) (simp add: bit_simps)
  then show ?thesis by (simp add: cmap_next_def cmap_set_next_def)
qed

lemma cmap_set_other [simp]: "d \<noteq> c \<Longrightarrow> cmap_set_next c n cm d = cm d"
  by (simp add: cmap_set_next_def)

lemma cmap_next_upd [simp]: "d \<noteq> c \<Longrightarrow> cmap_next (cm(c := p)) d = cmap_next cm d"
  by (simp add: cmap_next_def)

text \<open>A handle whose low half is a number below 256 is taken for a free entry; a view of the map has no such handle.\<close>

definition handle_ok :: "u64 \<Rightarrow> bool" where
  "handle_ok p \<longleftrightarrow> XF_CFG_PROXY_MAX_CLIENTS \<le> (ucast p :: u32)"

type_synonym cmap_view = "u32 list \<times> (u32 \<Rightarrow> u64 option)"

definition client_numbers :: "u32 set" where
  "client_numbers = {0 <..< XF_CFG_PROXY_MAX_CLIENTS}"

definition cmap_state :: "'w xf_host \<Rightarrow> cmap_view \<Rightarrow> bool" where
  "cmap_state h v \<longleftrightarrow>
     num_path (hs_cmap h) (cmap_next (hs_cmap h) 0) (fst v) \<and> distinct (fst v) \<and>
     set (fst v) \<union> dom (snd v) = client_numbers \<and> set (fst v) \<inter> dom (snd v) = {} \<and>
     (\<forall>c p. snd v c = Some p \<longrightarrow> hs_cmap h c = p \<and> handle_ok p \<and> hd_client (hs_handle h p) = c)"

lemma handle_ok_nz: "handle_ok p \<Longrightarrow> p \<noteq> 0"
  by (auto simp: handle_ok_def XF_CFG_PROXY_MAX_CLIENTS_def)

lemma cmap_lookup_host:
  assumes "cmap_state h (F, R)" and "c \<in> client_numbers"
  shows "xf_client_lookup_host c h = (case R c of None \<Rightarrow> 0 | Some p \<Rightarrow> p)"
proof (cases "R c")
  case None
  then have "c \<in> set F" using assms by (auto simp: cmap_state_def)
  then have "cmap_next (hs_cmap h) c = 0 \<or> cmap_next (hs_cmap h) c \<in> client_numbers"
    using assms(1) num_path_next by (fastforce simp: cmap_state_def)
  then have "cmap_next (hs_cmap h) c < XF_CFG_PROXY_MAX_CLIENTS"
    by (auto simp: client_numbers_def XF_CFG_PROXY_MAX_CLIENTS_def)
  then show ?thesis using None by (simp add: xf_client_lookup_host_def)
next
  case (Some p)
  then have "hs_cmap h c = p" "handle_ok p" using assms(1) by (auto simp: cmap_state_def)
  then show ?thesis using Some by (auto simp: xf_client_lookup_host_def cmap_next_def handle_ok_def dest: leD)
qed

lemma cmap_alloc_host:
  assumes S: "cmap_state h (c # F, R)" and p: "handle_ok p" "p \<notin> ran R"
  shows "\<exists>cm. xf_client_alloc_host p h = Some (Inr c, (upd_handle p (\<lambda>x. x\<lparr>hd_client := c\<rparr>) h)\<lparr>hs_cmap := cm\<rparr>) \<and>
     cmap_state ((upd_handle p (\<lambda>x. x\<lparr>hd_client := c\<rparr>) h)\<lparr>hs_cmap := cm\<rparr>) (F, R(c \<mapsto> p))"
proof -
  let ?cm = "(cmap_set_next 0 (cmap_next (hs_cmap h) c) (hs_cmap h))(c := p)"
  have c: "cmap_next (hs_cmap h) 0 = c" "c \<noteq> 0" "c \<notin> set F" "R c = None" "c \<in> client_numbers" "0 \<notin> set F"
    using S num_path_nz by (auto simp: cmap_state_def)
  have "num_path ?cm (cmap_next (hs_cmap h) c) F = num_path (hs_cmap h) (cmap_next (hs_cmap h) c) F"
  proof (rule num_path_cong)
    fix x assume "x \<in> set F"
    then have "x \<noteq> c" "x \<noteq> 0" using c by auto
    then show "cmap_next ?cm x = cmap_next (hs_cmap h) x" by simp
  qed
  moreover have "R d = Some q \<Longrightarrow> q \<noteq> p \<and> d \<noteq> 0 \<and> d \<noteq> c" for d q
    using p(2) c S by (auto simp: ran_def cmap_state_def client_numbers_def)
  ultimately have "cmap_state ((upd_handle p (\<lambda>x. x\<lparr>hd_client := c\<rparr>) h)\<lparr>hs_cmap := ?cm\<rparr>) (F, R(c \<mapsto> p))"
    using S p c by (auto simp: cmap_state_def upd_handle_def)
  then show ?thesis using c by (intro exI [of _ ?cm]) (simp add: xf_client_alloc_host_def hrun Let_def upd_handle_def)
qed

lemma cmap_alloc_full: "cmap_state h ([], R) \<Longrightarrow> xf_client_alloc_host p h = Some (Inr 0, h)"
  by (simp add: cmap_state_def xf_client_alloc_host_def hrun Let_def)

lemma cmap_free_host:
  assumes S: "cmap_state h (F, R)" and c: "R c = Some p"
  shows "\<exists>cm. xf_client_free_host p h = Some (Inr (), h\<lparr>hs_cmap := cm\<rparr>) \<and> cmap_state (h\<lparr>hs_cmap := cm\<rparr>) (c # F, R(c := None))"
proof -
  let ?cm = "cmap_set_next 0 c (cmap_set_next c (cmap_next (hs_cmap h) 0) (hs_cmap h))"
  have p: "hd_client (hs_handle h p) = c" "c \<notin> set F" "c \<noteq> 0" "0 \<notin> set F" "c \<in> client_numbers"
    using S c num_path_nz by (auto simp: cmap_state_def client_numbers_def)
  have "num_path ?cm (cmap_next (hs_cmap h) 0) F = num_path (hs_cmap h) (cmap_next (hs_cmap h) 0) F"
    by (rule num_path_cong) (use p in auto)
  moreover have "R d = Some q \<Longrightarrow> d \<noteq> 0" for d q using S by (auto simp: cmap_state_def client_numbers_def)
  ultimately have "cmap_state (h\<lparr>hs_cmap := ?cm\<rparr>) (c # F, R(c := None))"
    using S p c by (auto simp: cmap_state_def)
  then show ?thesis using p by (intro exI [of _ ?cm]) (simp add: xf_client_free_host_def hrun Let_def)
qed

section \<open>The map of a new proxy\<close>

lemma cmap_link_next:
  assumes "unat i + n < 2 ^ 32"
  shows "cmap_next (xf_cmap_link n i cm) d =
    (if unat i \<le> unat d \<and> unat d < unat i + n then d + 1 else if unat d = unat i + n then 0 else cmap_next cm d)"
  using assms
proof (induction n arbitrary: i cm)
  case 0
  then show ?case by (auto simp: word_unat_eq_iff)
next
  case (Suc n)
  then have i: "unat (i + 1) = unat i + 1" by (simp add: unat_plus_if_size word_size)
  show ?case
  proof (cases "d = i")
    case True
    then show ?thesis using Suc.IH [of "i + 1"] Suc.prems i by simp
  next
    case False
    then have "unat d \<noteq> unat i" by (simp add: word_unat_eq_iff)
    then show ?thesis using Suc.IH [of "i + 1"] Suc.prems i False by auto
  qed
qed

definition all_numbers :: "u32 list" where
  "all_numbers = map of_nat [1 ..< 256]"

lemma small_number: "n < 256 \<Longrightarrow> unat (of_nat n :: u32) = n"
  by (simp add: unsigned_of_nat take_bit_nat_eq_self)

lemma all_numbers_set: "set all_numbers = client_numbers" "distinct all_numbers"
proof -
  have "x \<in> client_numbers \<longleftrightarrow> 1 \<le> unat x \<and> unat x < 256" for x
    by (auto simp: client_numbers_def XF_CFG_PROXY_MAX_CLIENTS_def word_less_nat_alt unat_eq_0 Suc_le_eq)
  moreover have "x \<in> set all_numbers \<longleftrightarrow> 1 \<le> unat x \<and> unat x < 256" for x
  proof
    assume "x \<in> set all_numbers"
    then show "1 \<le> unat x \<and> unat x < 256" using small_number by (auto simp: all_numbers_def)
  next
    assume "1 \<le> unat x \<and> unat x < 256"
    then show "x \<in> set all_numbers" unfolding all_numbers_def by (auto intro!: image_eqI [of _ _ "unat x"])
  qed
  ultimately show "set all_numbers = client_numbers" by blast
  have "inj_on (of_nat :: nat \<Rightarrow> u32) (set [1 ..< 256])"
    by (rule inj_onI) (metis atLeastLessThan_iff set_upt small_number)
  then show "distinct all_numbers" by (simp add: all_numbers_def distinct_map)
qed

lemma new_map_state:
  assumes "hs_cmap h = xf_cmap_link 255 0 cm"
  shows "cmap_state h (all_numbers, \<lambda>_. None)"
proof -
  have nx: "cmap_next (hs_cmap h) d = (if unat d < 255 then d + 1 else if unat d = 255 then 0 else cmap_next cm d)" for d
    unfolding assms by (subst cmap_link_next) auto
  have "num_path (hs_cmap h) (if n = 256 then 0 else of_nat n) (map of_nat [n ..< 256])" if "1 \<le> n" "n \<le> 256" for n
    using that
  proof (induction "256 - n" arbitrary: n)
    case (Suc k)
    then have n: "n < 256" by simp
    have u: "[n ..< 256] = n # [Suc n ..< 256]" using n by (rule upt_conv_Cons)
    have "num_path (hs_cmap h) (if Suc n = 256 then 0 else of_nat (Suc n)) (map of_nat [Suc n ..< 256])"
      using Suc n by (intro Suc.hyps(1)) auto
    moreover have "cmap_next (hs_cmap h) (of_nat n) = (if Suc n = 256 then 0 else of_nat (Suc n))"
      using n by (simp add: nx small_number)
    moreover have "(of_nat n :: u32) \<noteq> 0" using small_number [OF n] Suc.prems by (metis not_one_le_zero unat_0)
    ultimately show ?case using n by (simp add: u)
  qed simp
  from this [of 1] have "num_path (hs_cmap h) 1 all_numbers" by (simp add: all_numbers_def)
  then show ?thesis using all_numbers_set by (simp add: cmap_state_def nx)
qed

section \<open>Histories of the map\<close>

datatype client_op_host = CAlloc u64 | CFree u64 u32

fun client_step_host :: "client_op_host \<Rightarrow> 'w xf_host \<Rightarrow> ('w xf_host \<times> u32) option" where
  "client_step_host (CAlloc p) h = (case xf_client_alloc_host p h of Some (Inr c, h) \<Rightarrow> Some (h, c) | _ \<Rightarrow> None)"
| "client_step_host (CFree p c) h = (case xf_client_free_host p h of Some (Inr _, h) \<Rightarrow> Some (h, 0) | _ \<Rightarrow> None)"

text \<open>The specification: numbers are a stack, 0 when none is left, and the map records who has which.\<close>

fun client_spec_host :: "client_op_host \<Rightarrow> cmap_view \<Rightarrow> cmap_view \<times> u32" where
  "client_spec_host (CAlloc p) (F, R) = (case F of [] \<Rightarrow> ((F, R), 0) | c # F \<Rightarrow> ((F, R(c \<mapsto> p)), c))"
| "client_spec_host (CFree p c) (F, R) = ((c # F, R(c := None)), 0)"

text \<open>A handle allocates once, and a number is given back by the handle that has it.\<close>

fun client_op_ok_host :: "client_op_host \<Rightarrow> cmap_view \<Rightarrow> bool" where
  "client_op_ok_host (CAlloc p) v \<longleftrightarrow> handle_ok p \<and> p \<notin> ran (snd v)"
| "client_op_ok_host (CFree p c) v \<longleftrightarrow> snd v c = Some p"

fun client_ops_ok_host :: "client_op_host list \<Rightarrow> cmap_view \<Rightarrow> bool" where
  "client_ops_ok_host [] v \<longleftrightarrow> True"
| "client_ops_ok_host (x # xs) v \<longleftrightarrow> client_op_ok_host x v \<and> client_ops_ok_host xs (fst (client_spec_host x v))"

interpretation hclient: op_refinement "\<lambda>ops h v. cmap_state h v \<and> client_ops_ok_host ops v" client_step_host client_spec_host
proof
  fix x xs h v
  assume r: "cmap_state h v \<and> client_ops_ok_host (x # xs) v"
  obtain F R where v: "v = (F, R)" by (cases v)
  show "\<exists>h'. client_step_host x h = Some (h', snd (client_spec_host x v)) \<and>
      cmap_state h' (fst (client_spec_host x v)) \<and> client_ops_ok_host xs (fst (client_spec_host x v))"
  proof (cases x)
    case (CAlloc p)
    show ?thesis
    proof (cases F)
      case Nil
      then show ?thesis using r v CAlloc cmap_alloc_full [of h R p] by auto
    next
      case (Cons c G)
      then obtain cm where "xf_client_alloc_host p h = Some (Inr c, (upd_handle p (\<lambda>x. x\<lparr>hd_client := c\<rparr>) h)\<lparr>hs_cmap := cm\<rparr>)"
        "cmap_state ((upd_handle p (\<lambda>x. x\<lparr>hd_client := c\<rparr>) h)\<lparr>hs_cmap := cm\<rparr>) (G, R(c \<mapsto> p))"
        using r v CAlloc cmap_alloc_host [of h c G R p] by auto
      then show ?thesis using r v CAlloc Cons by auto
    qed
  next
    case (CFree p c)
    then obtain cm where "xf_client_free_host p h = Some (Inr (), h\<lparr>hs_cmap := cm\<rparr>)"
      "cmap_state (h\<lparr>hs_cmap := cm\<rparr>) (c # F, R(c := None))" using r v cmap_free_host [of h F R c p] by auto
    then show ?thesis using r v CFree by auto
  qed
qed

section \<open>The receiving thread as a demultiplexer\<close>

definition user_message :: "'w xf_host \<Rightarrow> xf_proxy_message \<Rightarrow> xf_user_msg" where
  "user_message h m = \<lparr>u_id = XF_MSG_SRC (p_session_id m), u_opcode = p_opcode m, u_length = p_length m,
     u_buffer = xf_ipc_a2b_host (ucast (p_address m)) h\<rparr>"

definition msg_client :: "xf_proxy_message \<Rightarrow> u32" where
  "msg_client m = XF_AP_CLIENT (p_session_id m)"

text \<open>What the messages \<open>ms\<close> add to the pipes: those of client 0 go to the proxy, the others to the handle with
  the number, except for notices of removal.\<close>

definition to_proxy :: "'w xf_host \<Rightarrow> xf_proxy_message list \<Rightarrow> xf_proxy_message list" where
  "to_proxy h ms = map (\<lambda>m. m\<lparr>p_v_address := hs_stack h\<rparr>) (filter (\<lambda>m. msg_client m = 0) ms)"

definition to_handle :: "'w xf_host \<Rightarrow> u32 \<Rightarrow> xf_proxy_message list \<Rightarrow> xf_user_msg list" where
  "to_handle h c ms = map (user_message h) (filter (\<lambda>m. msg_client m = c \<and> p_opcode m \<noteq> XF_UNREGISTER) ms)"

definition demux :: "(u32 \<Rightarrow> u64 option) \<Rightarrow> xf_proxy_message list \<Rightarrow> 'w xf_host \<Rightarrow> 'w xf_host" where
  "demux R ms h = h\<lparr>hs_pipe := hs_pipe h @ to_proxy h ms,
     hs_handle := (\<lambda>p. if p \<in> ran R then (hs_handle h p)\<lparr>hd_pipe := hd_pipe (hs_handle h p) @ to_handle h (hd_client (hs_handle h p)) ms\<rparr>
                       else hs_handle h p)\<rparr>"

lemma to_simps [simp]:
  "to_proxy h [] = []" "to_handle h c [] = []"
  "to_proxy h (m # ms) = (if msg_client m = 0 then [m\<lparr>p_v_address := hs_stack h\<rparr>] else []) @ to_proxy h ms"
  "to_handle h c (m # ms) = (if msg_client m = c \<and> p_opcode m \<noteq> XF_UNREGISTER then [user_message h m] else []) @ to_handle h c ms"
  by (simp_all add: to_proxy_def to_handle_def)

lemma demux_Nil [simp]: "demux R [] h = h"
  by (simp add: demux_def cong: if_cong)

lemma to_rx [simp]:
  "user_message (h\<lparr>hs_rx := r\<rparr>) = user_message h" "to_proxy (h\<lparr>hs_rx := r\<rparr>) = to_proxy h"
  "to_handle (h\<lparr>hs_rx := r\<rparr>) = to_handle h"
  by (simp_all add: fun_eq_iff user_message_def to_proxy_def to_handle_def)

lemma demux_none:
  assumes "to_proxy h ms = []" and "\<And>p. p \<in> ran R \<Longrightarrow> to_handle h (hd_client (hs_handle h p)) ms = []"
  shows "demux R ms h = h"
proof -
  have "(\<lambda>p. if p \<in> ran R then (hs_handle h p)\<lparr>hd_pipe := hd_pipe (hs_handle h p) @ to_handle h (hd_client (hs_handle h p)) ms\<rparr>
      else hs_handle h p) = hs_handle h"
    by (rule ext) (simp add: assms(2))
  then show ?thesis by (simp add: demux_def assms(1))
qed

lemma demux_fields [simp]:
  "xf_ipc_a2b_host a (demux R ms h) = xf_ipc_a2b_host a h" "hs_rx (demux R ms h) = hs_rx h"
  "hd_response (hs_handle (demux R ms h) p) = hd_response (hs_handle h p)"
  by (simp_all add: xf_ipc_a2b_host_def demux_def)

lemma to_demux [simp]: "to_proxy (demux R xs h) ms = to_proxy h ms" "to_handle (demux R xs h) c ms = to_handle h c ms"
  by (simp_all add: to_proxy_def to_handle_def user_message_def xf_ipc_a2b_host_def demux_def)

lemma demux_Cons: "demux R ms (demux R [m] h) = demux R (m # ms) h"
proof -
  have "to_proxy (demux R [m] h) ms = to_proxy h ms" "to_handle (demux R [m] h) c ms = to_handle h c ms" for c by (rule to_demux)+
  then show ?thesis by (simp add: demux_def fun_eq_iff)
qed

lemma cmap_same:
  "cmap_state h v \<Longrightarrow> hs_cmap h' = hs_cmap h \<Longrightarrow> (\<And>p. hd_client (hs_handle h' p) = hd_client (hs_handle h p)) \<Longrightarrow> cmap_state h' v"
  by (simp add: cmap_state_def)

lemma cmap_demux: "cmap_state h v \<Longrightarrow> cmap_state (demux R ms h) v"
  by (erule cmap_same) (simp_all add: demux_def)

lemma dispatch_demux:
  assumes S: "cmap_state h (F, R)" and resp: "\<forall>p\<in>ran R. hd_response (hs_handle h p)"
    and c: "msg_client m < XF_CFG_PROXY_MAX_CLIENTS"
  shows "xf_proxy_dispatch (m\<lparr>p_v_address := hs_stack h\<rparr>) (xf_ipc_a2b_host (ucast (p_address m)) h) h = Some (Inr (), demux R [m] h)"
proof -
  have R: "msg_client m = hd_client (hs_handle h p) \<longleftrightarrow> R (msg_client m) = Some p" if "R d = Some p" for d p
  proof -
    have "hd_client (hs_handle h p) = d" using that S by (simp add: cmap_state_def)
    moreover have "hd_client (hs_handle h p) = msg_client m" if "R (msg_client m) = Some p" using that S by (simp add: cmap_state_def)
    ultimately show ?thesis using that by metis
  qed
  show ?thesis
  proof (cases "msg_client m = 0")
    case True
    moreover have "to_handle h (hd_client (hs_handle h p)) [m] = []" if "p \<in> ran R" for p
      using that True S by (auto simp: ran_def cmap_state_def client_numbers_def)
    ultimately have "demux R [m] h = h\<lparr>hs_pipe := hs_pipe h @ [m\<lparr>p_v_address := hs_stack h\<rparr>]\<rparr>"
      by (auto simp: demux_def fun_eq_iff simp del: to_simps(4))
    then show ?thesis using True by (simp add: xf_proxy_dispatch_def msg_client_def xf_proxy_response_put_def hrun Let_def)
  next
    case False
    then have n: "msg_client m \<in> client_numbers" using c by (auto simp: client_numbers_def word_gt_0)
    note l = cmap_lookup_host [OF S n]
    show ?thesis
    proof (cases "R (msg_client m)")
      case None
      then have "demux R [m] h = h" using R False by (intro demux_none) (auto simp: ran_def)
      then show ?thesis using False None l c [unfolded msg_client_def] by (simp add: xf_proxy_dispatch_def msg_client_def hrun Let_def)
    next
      case (Some p)
      then have p: "p \<noteq> 0" "p \<in> ran R" "hd_client (hs_handle h p) = msg_client m" "hd_response (hs_handle h p)"
        using S resp handle_ok_nz by (auto simp: cmap_state_def ran_def)
      have "demux R [m] h = (if p_opcode m = XF_UNREGISTER then h
          else upd_handle p (\<lambda>x. x\<lparr>hd_pipe := hd_pipe x @ [user_message h m]\<rparr>) h)"
      proof (cases "p_opcode m = XF_UNREGISTER")
        case True
        then show ?thesis using False by (simp add: demux_none)
      next
        case op: False
        have "(\<lambda>q. if q \<in> ran R then (hs_handle h q)\<lparr>hd_pipe := hd_pipe (hs_handle h q) @ to_handle h (hd_client (hs_handle h q)) [m]\<rparr>
            else hs_handle h q) = (hs_handle h)(p := (hs_handle h p)\<lparr>hd_pipe := hd_pipe (hs_handle h p) @ [user_message h m]\<rparr>)"
          using R Some p op by (intro ext) (auto simp: ran_def)
        then show ?thesis using False op by (simp add: demux_def upd_handle_def)
      qed
      then show ?thesis
        using False Some l p c [unfolded msg_client_def]
        by (simp add: xf_proxy_dispatch_def msg_client_def xf_handle_response_def xaf_comp_response_def xf_response_put_def
            user_message_def hrun Let_def)
    qed
  qed
qed

lemma recv_loop_demux:
  assumes "cmap_state h (F, R)" and "\<forall>p\<in>ran R. hd_response (hs_handle h p)" and "hs_rx h = ms @ rest"
    and "\<forall>m\<in>set ms. msg_client m < XF_CFG_PROXY_MAX_CLIENTS \<and> xf_ipc_a2b_host (ucast (p_address m)) h \<noteq> - 1"
  shows "xf_proxy_recv_loop (length ms + k) h = xf_proxy_recv_loop k (demux R ms (h\<lparr>hs_rx := rest\<rparr>))"
  using assms
proof (induction ms arbitrary: h)
  case (Cons m ms)
  let ?h = "h\<lparr>hs_rx := ms @ rest\<rparr>"
  have S: "cmap_state ?h (F, R)" "\<forall>p\<in>ran R. hd_response (hs_handle ?h p)"
    by (rule cmap_same [OF Cons.prems(1)]) (use Cons.prems(2) in simp_all)
  have "xf_ipc_recv h = Some (Inr (Some (m\<lparr>p_v_address := hs_stack ?h\<rparr>, xf_ipc_a2b_host (ucast (p_address m)) ?h)), ?h)"
    using Cons.prems by (simp add: xf_ipc_recv_def hrun Let_def)
  then have "xf_proxy_recv_loop (length (m # ms) + k) h = xf_proxy_recv_loop (length ms + k) (demux R [m] ?h)"
    using dispatch_demux [OF S] Cons.prems(4) by (simp add: hrun)
  also have "\<dots> = xf_proxy_recv_loop k (demux R ms ((demux R [m] ?h)\<lparr>hs_rx := rest\<rparr>))"
    by (rule Cons.IH) (use S cmap_demux [OF S(1)] Cons.prems(4) in auto)
  also have "(demux R [m] ?h)\<lparr>hs_rx := rest\<rparr> = demux R [m] (h\<lparr>hs_rx := rest\<rparr>)"
    by (simp add: demux_def cong: if_cong)
  finally show ?case by (simp only: demux_Cons)
qed auto

section \<open>Opening and closing a component\<close>

text \<open>A device that serves the proxy: it answers every command to client 0 with one message, whose address is NULL or in
  the shared range. The commands of the proxy are then total.\<close>

definition dev_serves :: "'w xf_device \<Rightarrow> bool" where
  "dev_serves dev \<longleftrightarrow>
     (\<forall>m mem w. \<exists>r mem' w'. dev_run dev mem (dev_send dev m mem w) = ([r], mem', w') \<and>
        msg_client r = 0 \<and> (ucast (p_address r) < XF_CFG_REMOTE_IPC_POOL_SIZE \<or> ucast (p_address r) = XF_PROXY_NULL))"

definition shmem_ok :: "'w xf_host \<Rightarrow> bool" where
  "shmem_ok h \<longleftrightarrow> unat (hs_shmem h) + unat XF_CFG_REMOTE_IPC_POOL_SIZE < 2 ^ 64 \<and> hs_shmem h \<noteq> 0 \<and> hs_self h \<noteq> 0"

lemma cmd_exec_total:
  assumes d: "dev_serves dev" and I: "host_idle h" and s: "shmem_ok h"
    and b: "xf_ipc_b2a_host (u_buffer msg) h \<noteq> XF_PROXY_BADADDR"
  shows "\<exists>r mem w. xf_proxy_cmd_exec dev msg h = Some (Inr r, h\<lparr>hs_mem := mem, hs_dev := w\<rparr>)"
proof -
  obtain r mem w where r: "dev_run dev (hs_mem h) (dev_send dev (cmd_message h msg) (hs_mem h) (hs_dev h)) = ([r], mem, w)"
    "msg_client r = 0" "ucast (p_address r) < XF_CFG_REMOTE_IPC_POOL_SIZE \<or> ucast (p_address r) = XF_PROXY_NULL"
    using d unfolding dev_serves_def by blast
  have "xf_ipc_a2b_host (ucast (p_address r)) h \<noteq> - 1"
  proof (cases "ucast (p_address r) < XF_CFG_REMOTE_IPC_POOL_SIZE")
    case True
    then show ?thesis using s unfolding shmem_ok_def by (metis shared_address(1,4))
  next
    case False
    then show ?thesis using r(3) null_ok by (simp add: xf_ipc_a2b_host_def)
  qed
  then show ?thesis using cmd_exec_served [OF I b] r(1,2) by (auto simp: dev_answers_def msg_client_def)
qed

lemma register_total:
  assumes "dev_serves dev" and "host_idle h" and "shmem_ok h" and "xf_ipc_b2a_host (xf_handle_aux p h) h \<noteq> XF_PROXY_BADADDR"
  shows "\<exists>r mem w i'. xf_client_register_host dev p i core h =
     Some (r, (upd_handle p (\<lambda>x. x\<lparr>hd_id := i'\<rparr>) h)\<lparr>hs_mem := mem, hs_dev := w\<rparr>)"
proof -
  let ?b = "xf_handle_aux p h"
  let ?h = "h\<lparr>hs_mem := strncpy_host ?b i (xf_buffer_length (hd_aux (hs_handle h p)) h) (hs_mem h)\<rparr>"
  let ?msg = "\<lparr>u_id = XF_MSG_ID (XF_AP_PROXY (hs_core h)) (XF_DSP_PROXY core), u_opcode = XF_REGISTER,
     u_length = of_nat (length i + 1), u_buffer = ?b\<rparr>"
  have "host_idle ?h" "shmem_ok ?h" "xf_ipc_b2a_host ?b ?h \<noteq> XF_PROXY_BADADDR"
    using assms by (simp_all add: host_idle_def shmem_ok_def)
  then obtain r mem w where r: "xf_proxy_cmd_exec dev ?msg ?h = Some (Inr r, ?h\<lparr>hs_mem := mem, hs_dev := w\<rparr>)"
    using cmd_exec_total [OF assms(1), of ?h ?msg] by auto
  have u: "(upd_handle p (\<lambda>x. x\<lparr>hd_id := hd_id (hs_handle h p)\<rparr>) h) = h" by (simp add: upd_handle_def)
  show ?thesis
  proof (cases "u_opcode r = XF_REGISTER")
    case True
    with r show ?thesis
      by (intro exI [of _ "Inr ()"] exI [of _ mem] exI [of _ w] exI [of _ "XF_MSG_SRC (u_id r)"])
        (simp add: xf_client_register_host_def hrun upd_handle_def)
  next
    case False
    with r show ?thesis
      by (intro exI [of _ "Inl (- host_EFAULT)"] exI [of _ mem] exI [of _ w] exI [of _ "hd_id (hs_handle h p)"])
        (simp add: xf_client_register_host_def hrun u)
  qed
qed

lemma pool_same: "pool_state p h v \<Longrightarrow> hs_buf h' = hs_buf h \<Longrightarrow> hs_pool h' = hs_pool h \<Longrightarrow> pool_state p h' v"
  by (simp add: pool_state_def)

lemma pool_frame_fields:
  assumes "pool_frame p h h'"
  shows "hs_aux h' = hs_aux h" "hs_shmem h' = hs_shmem h" "hs_self h' = hs_self h" "hs_core h' = hs_core h" "hs_handle h' = hs_handle h"
    "host_idle h' = host_idle h" "shmem_ok h' = shmem_ok h" "cmap_state h' C = cmap_state h C"
    "hb_address (hs_buf h' b) = hb_address (hs_buf h b)"
proof -
  have e: "h' = h\<lparr>hs_buf := hs_buf h', hs_pool := hs_pool h'\<rparr>" and a: "hb_address (hs_buf h' b) = hb_address (hs_buf h b)"
    using assms by (simp_all add: pool_frame_def)
  show "hs_aux h' = hs_aux h" "hs_shmem h' = hs_shmem h" "hs_self h' = hs_self h" "hs_core h' = hs_core h" "hs_handle h' = hs_handle h"
    "host_idle h' = host_idle h" "shmem_ok h' = shmem_ok h" "cmap_state h' C = cmap_state h C"
    by (subst e, simp add: host_idle_def shmem_ok_def cmap_state_def)+
  show "hb_address (hs_buf h' b) = hb_address (hs_buf h b)" by (rule a)
qed

text \<open>The state of the resources of the proxy: the auxiliary pool and the association map, for a proxy at rest.\<close>

definition host_state :: "'w xf_host \<Rightarrow> pool_view \<Rightarrow> cmap_view \<Rightarrow> bool" where
  "host_state h P C \<longleftrightarrow> host_idle h \<and> shmem_ok h \<and> pool_state (hs_aux h) h P \<and> cmap_state h C"

lemma host_state_upd:
  assumes "host_state h P C"
  shows "host_state (h\<lparr>hs_mem := mem, hs_dev := w\<rparr>) P C" and "host_state (h\<lparr>hs_dev := w\<rparr>) P C"
    and "(\<And>x. hd_client (f x) = hd_client x) \<Longrightarrow> host_state (upd_handle p f h) P C"
  using assms by (auto simp: host_state_def host_idle_def shmem_ok_def pool_state_def cmap_state_def upd_handle_def)

lemma host_get:
  assumes "host_state h (b # F, U) C"
  shows "\<exists>h'. xf_buffer_get (hs_aux h) h = Some (Inr b, h') \<and> host_state h' (F, insert b U) C \<and> pool_frame (hs_aux h) h h'"
proof -
  obtain h' where h: "xf_buffer_get (hs_aux h) h = Some (Inr b, h')" "pool_state (hs_aux h) h' (F, insert b U)" "pool_frame (hs_aux h) h h'"
    using assms buffer_get_state unfolding host_state_def by blast
  then show ?thesis using pool_frame_fields [OF h(3)] assms by (auto simp: host_state_def)
qed

lemma host_put:
  assumes "host_state h (F, U) C" and "b \<in> U"
  shows "\<exists>h'. xf_buffer_put b h = Some (Inr (), h') \<and> host_state h' (b # F, U - {b}) C \<and> pool_frame (hs_aux h) h h'"
proof -
  obtain h' where h: "xf_buffer_put b h = Some (Inr (), h')" "pool_state (hs_aux h) h' (b # F, U - {b})" "pool_frame (hs_aux h) h h'"
    using assms buffer_put_state unfolding host_state_def by blast
  then show ?thesis using pool_frame_fields [OF h(3)] assms by (auto simp: host_state_def)
qed

lemma host_alloc:
  assumes "host_state h P (c # C, R)" and "handle_ok p" and "p \<notin> ran R"
  shows "\<exists>cm. xf_client_alloc_host p h = Some (Inr c, (upd_handle p (\<lambda>x. x\<lparr>hd_client := c\<rparr>) h)\<lparr>hs_cmap := cm\<rparr>) \<and>
     host_state ((upd_handle p (\<lambda>x. x\<lparr>hd_client := c\<rparr>) h)\<lparr>hs_cmap := cm\<rparr>) P (C, R(c \<mapsto> p))"
proof -
  obtain cm where "xf_client_alloc_host p h = Some (Inr c, (upd_handle p (\<lambda>x. x\<lparr>hd_client := c\<rparr>) h)\<lparr>hs_cmap := cm\<rparr>)"
    "cmap_state ((upd_handle p (\<lambda>x. x\<lparr>hd_client := c\<rparr>) h)\<lparr>hs_cmap := cm\<rparr>) (C, R(c \<mapsto> p))"
    using cmap_alloc_host [OF _ assms(2,3)] assms(1) unfolding host_state_def by blast
  then show ?thesis using assms(1) by (auto simp: host_state_def host_idle_def shmem_ok_def pool_state_def upd_handle_def)
qed

lemma host_free:
  assumes "host_state h P (C, R)" and "R c = Some p"
  shows "\<exists>cm. xf_client_free_host p h = Some (Inr (), h\<lparr>hs_cmap := cm\<rparr>) \<and> host_state (h\<lparr>hs_cmap := cm\<rparr>) P (c # C, R(c := None))"
proof -
  obtain cm where "xf_client_free_host p h = Some (Inr (), h\<lparr>hs_cmap := cm\<rparr>)" "cmap_state (h\<lparr>hs_cmap := cm\<rparr>) (c # C, R(c := None))"
    using cmap_free_host assms unfolding host_state_def by blast
  then show ?thesis using assms(1) by (auto simp: host_state_def host_idle_def shmem_ok_def pool_state_def)
qed

lemma host_free_nz: "host_state h (b # F, U) C \<Longrightarrow> b \<noteq> 0 \<and> b \<notin> U \<and> b \<notin> set F"
  by (auto simp: host_state_def pool_state_def)

text \<open>The first part of \<open>xf_open\<close>: the control buffer and the pipe.\<close>

lemma open_starts:
  assumes S: "host_state h (b # F, U) C" and pipe: "\<forall>w. fst (dev_pipe dev w) = 0"
  obtains h1 where
    "hbind (hget hs_aux) (\<lambda>pool. hbind (xf_buffer_get pool) (\<lambda>b. hbind (hupd (upd_handle p (\<lambda>x. x\<lparr>hd_aux := b\<rparr>))) (\<lambda>_.
       hbind (XF_CHK_ERR_host (b \<noteq> 0) (- host_EBUSY)) (\<lambda>_. hbind (xf_ipc_data_init dev p) (\<lambda>_. k))))) h = k h1"
    "host_state h1 (F, insert b U) C" "hd_aux (hs_handle h1 p) = b" "xf_handle_aux p h1 = hb_address (hs_buf h b)"
    "hs_aux h1 = hs_aux h" "hs_shmem h1 = hs_shmem h"
proof -
  obtain h' where g: "xf_buffer_get (hs_aux h) h = Some (Inr b, h')" "host_state h' (F, insert b U) C" "pool_frame (hs_aux h) h h'"
    using host_get [OF S] by blast
  obtain w where w: "dev_pipe dev (hs_dev h') = (0, w)" using pipe by (metis prod.collapse)
  let ?h1 = "upd_handle p (\<lambda>x. x\<lparr>hd_pipe := []\<rparr>) ((upd_handle p (\<lambda>x. x\<lparr>hd_aux := b\<rparr>) h')\<lparr>hs_dev := w\<rparr>)"
  have f: "hs_aux h' = hs_aux h" "hs_shmem h' = hs_shmem h" "hb_address (hs_buf h' b) = hb_address (hs_buf h b)"
    using pool_frame_fields [OF g(3)] by simp_all
  show thesis
  proof (rule that [of ?h1])
    have "hs_dev (upd_handle p (\<lambda>x. x\<lparr>hd_aux := b\<rparr>) h') = hs_dev h'" by (simp add: upd_handle_def)
    then show "hbind (hget hs_aux) (\<lambda>pool. hbind (xf_buffer_get pool) (\<lambda>b. hbind (hupd (upd_handle p (\<lambda>x. x\<lparr>hd_aux := b\<rparr>))) (\<lambda>_.
       hbind (XF_CHK_ERR_host (b \<noteq> 0) (- host_EBUSY)) (\<lambda>_. hbind (xf_ipc_data_init dev p) (\<lambda>_. k))))) h = k ?h1"
      using g(1) w host_free_nz [OF S] by (simp add: hrun xf_ipc_data_init_def)
    show "host_state ?h1 (F, insert b U) C" by (intro host_state_upd g(2)) simp_all
  qed (simp_all add: upd_handle_def xf_handle_aux_def f)
qed

text \<open>The last part when it fails: the control buffer goes back.\<close>

lemma open_fails:
  assumes S: "host_state h (F, insert b U) C" and b: "hd_aux (hs_handle h p) = b" "b \<notin> U"
  obtains h1 where
    "hbind (hget (\<lambda>h. hd_aux (hs_handle h p))) (\<lambda>b. hbind (xf_buffer_put b) (\<lambda>_.
         hbind (hupd (upd_handle p (\<lambda>x. x\<lparr>hd_aux := 0\<rparr>))) (\<lambda>_. hfail e))) h = Some (Inl e, h1)"
    "host_state h1 (b # F, U) C" "hd_aux (hs_handle h1 p) = 0" "hs_aux h1 = hs_aux h"
proof -
  obtain h' where h: "xf_buffer_put b h = Some (Inr (), h')" "host_state h' (b # F, U) C" "pool_frame (hs_aux h) h h'"
    using host_put [OF S, of b] b(2) by auto
  let ?h1 = "upd_handle p (\<lambda>x. x\<lparr>hd_aux := 0\<rparr>) h'"
  have a: "hs_aux h' = hs_aux h" using pool_frame_fields [OF h(3)] by simp
  show thesis
  proof (rule that [of ?h1])
    show "host_state ?h1 (b # F, U) C" by (intro host_state_upd h(2)) simp
  qed (use h(1) b a in \<open>simp_all add: hrun upd_handle_def\<close>)
qed

lemma b2a_shmem: "hs_shmem h' = hs_shmem h \<Longrightarrow> xf_ipc_b2a_host b h' = xf_ipc_b2a_host b h"
  by (simp add: xf_ipc_b2a_host_def)

lemma xf_open_split:
  "xf_open dev p i core =
     hbind (hget hs_aux) (\<lambda>pool. hbind (xf_buffer_get pool) (\<lambda>b. hbind (hupd (upd_handle p (\<lambda>x. x\<lparr>hd_aux := b\<rparr>))) (\<lambda>_.
       hbind (XF_CHK_ERR_host (b \<noteq> 0) (- host_EBUSY)) (\<lambda>_. hbind (xf_ipc_data_init dev p) (\<lambda>_.
     hbind (xf_client_alloc_host p) (\<lambda>client.
     hbind (if client = 0 then hret (Inl (- host_EBUSY))
            else hbind (htry (xf_client_register_host dev p i core)) (\<lambda>r.
                 case r of Inl e \<Rightarrow> hbind (xf_client_free_host p) (\<lambda>_. hret r) | Inr _ \<Rightarrow> hret r)) (\<lambda>r.
     case r of
       Inl e \<Rightarrow> hbind (hget (\<lambda>h. hd_aux (hs_handle h p))) (\<lambda>b. hbind (xf_buffer_put b) (\<lambda>_.
         hbind (hupd (upd_handle p (\<lambda>x. x\<lparr>hd_aux := 0\<rparr>))) (\<lambda>_. hfail e)))
     | Inr _ \<Rightarrow> hupd (\<lambda>h. upd_handle p (\<lambda>x. x\<lparr>hd_response := True, hd_proxy := hs_self h\<rparr>) h))))))))"
  by (simp add: xf_open_def)

lemma close_returns:
  assumes d: "dev_serves dev" and S: "host_state h (F, U) (C, R)" and c: "R c = Some p" and b: "hd_aux (hs_handle h p) = b" "b \<in> U"
    and pr: "hd_proxy (hs_handle h p) \<noteq> 0"
  shows "\<exists>h'. xf_close dev p h = Some (Inr (), h') \<and> host_state h' (b # F, U - {b}) (c # C, R(c := None)) \<and>
     hd_aux (hs_handle h' p) = 0 \<and> hd_proxy (hs_handle h' p) = 0 \<and> hs_aux h' = hs_aux h"
proof -
  obtain r mem w where "xf_proxy_cmd_exec dev \<lparr>u_id = XF_MSG_ID (XF_AP_PROXY (hs_core h)) (hd_id (hs_handle h p)),
      u_opcode = XF_UNREGISTER, u_length = 0, u_buffer = 0\<rparr> h = Some (Inr r, h\<lparr>hs_mem := mem, hs_dev := w\<rparr>)"
    using cmd_exec_total [OF d, of h "\<lparr>u_id = XF_MSG_ID (XF_AP_PROXY (hs_core h)) (hd_id (hs_handle h p)),
      u_opcode = XF_UNREGISTER, u_length = 0, u_buffer = 0\<rparr>"] S null_ok by (auto simp: host_state_def)
  then have 1: "xf_client_unregister_host dev p h = Some (Inr (), h\<lparr>hs_mem := mem, hs_dev := w\<rparr>)"
    by (simp add: xf_client_unregister_host_def hrun)
  let ?h1 = "h\<lparr>hs_mem := mem, hs_dev := w\<rparr>"
  obtain cm where 2: "xf_client_free_host p ?h1 = Some (Inr (), ?h1\<lparr>hs_cmap := cm\<rparr>)"
    "host_state (?h1\<lparr>hs_cmap := cm\<rparr>) (F, U) (c # C, R(c := None))"
    using host_free [OF host_state_upd(1) [OF S]] c by blast
  let ?h2 = "upd_handle p (\<lambda>x. x\<lparr>hd_pipe := []\<rparr>) (?h1\<lparr>hs_cmap := cm\<rparr>\<lparr>hs_dev := dev_close_pipe dev w\<rparr>)"
  have 3: "xf_ipc_data_destroy dev p (?h1\<lparr>hs_cmap := cm\<rparr>) = Some (Inr (), ?h2)"
    by (simp add: xf_ipc_data_destroy_def hrun)
  have S2: "host_state ?h2 (F, U) (c # C, R(c := None))" by (intro host_state_upd 2(2)) simp
  obtain h3 where 4: "xf_buffer_put b ?h2 = Some (Inr (), h3)" "host_state h3 (b # F, U - {b}) (c # C, R(c := None))"
    "pool_frame (hs_aux ?h2) ?h2 h3" using host_put [OF S2 b(2)] by blast
  have b2: "hd_aux (hs_handle ?h2 p) = b" using b(1) by (simp add: upd_handle_def)
  let ?h4 = "upd_handle p (\<lambda>x. x\<lparr>hd_aux := 0, hd_proxy := 0\<rparr>) h3"
  have "xf_close dev p h = Some (Inr (), ?h4)"
    unfolding xf_close_def using 1 2(1) 3 4(1) b2 pr by (simp add: hrun)
  moreover have "host_state ?h4 (b # F, U - {b}) (c # C, R(c := None))" by (intro host_state_upd 4(2)) simp
  moreover have "hs_aux ?h4 = hs_aux h" using pool_frame_fields(1) [OF 4(3)] by (simp add: upd_handle_def)
  ultimately show ?thesis by (intro exI [of _ ?h4]) (simp add: upd_handle_def)
qed

lemma open_returns:
  assumes d: "dev_serves dev" and pipe: "\<forall>w. fst (dev_pipe dev w) = 0"
    and S: "host_state h (b # F, U) (c # C, R)" and p: "handle_ok p" "p \<notin> ran R"
    and a: "xf_ipc_b2a_host (hb_address (hs_buf h b)) h \<noteq> XF_PROXY_BADADDR"
  shows "\<exists>r h'. xf_open dev p i core h = Some (r, h') \<and> hs_aux h' = hs_aux h \<and>
    (case r of
       Inl _ \<Rightarrow> host_state h' (b # F, U) (c # C, R) \<and> hd_aux (hs_handle h' p) = 0
     | Inr _ \<Rightarrow> host_state h' (F, insert b U) (C, R(c \<mapsto> p)) \<and> hd_aux (hs_handle h' p) = b \<and> hd_response (hs_handle h' p) \<and> hd_proxy (hs_handle h' p) \<noteq> 0)"
proof -
  note bz = host_free_nz [OF S]
  have cz: "c \<noteq> 0" "R c = None" using S by (auto simp: host_state_def cmap_state_def)
  obtain h1 where start: "xf_open dev p i core h = (hbind (xf_client_alloc_host p) (\<lambda>client.
     hbind (if client = 0 then hret (Inl (- host_EBUSY))
            else hbind (htry (xf_client_register_host dev p i core)) (\<lambda>r.
                 case r of Inl e \<Rightarrow> hbind (xf_client_free_host p) (\<lambda>_. hret r) | Inr _ \<Rightarrow> hret r)) (\<lambda>r.
     case r of
       Inl e \<Rightarrow> hbind (hget (\<lambda>h. hd_aux (hs_handle h p))) (\<lambda>b. hbind (xf_buffer_put b) (\<lambda>_.
         hbind (hupd (upd_handle p (\<lambda>x. x\<lparr>hd_aux := 0\<rparr>))) (\<lambda>_. hfail e)))
     | Inr _ \<Rightarrow> hupd (\<lambda>h. upd_handle p (\<lambda>x. x\<lparr>hd_response := True, hd_proxy := hs_self h\<rparr>) h)))) h1"
    and S1: "host_state h1 (F, insert b U) (c # C, R)" and b1: "hd_aux (hs_handle h1 p) = b"
    and a1: "xf_handle_aux p h1 = hb_address (hs_buf h b)" "hs_aux h1 = hs_aux h" "hs_shmem h1 = hs_shmem h"
    unfolding xf_open_split by (rule open_starts [OF S pipe, where p = p])
  obtain cm where al: "xf_client_alloc_host p h1 = Some (Inr c, (upd_handle p (\<lambda>x. x\<lparr>hd_client := c\<rparr>) h1)\<lparr>hs_cmap := cm\<rparr>)"
    "host_state ((upd_handle p (\<lambda>x. x\<lparr>hd_client := c\<rparr>) h1)\<lparr>hs_cmap := cm\<rparr>) (F, insert b U) (C, R(c \<mapsto> p))"
    using host_alloc [OF S1 p] by blast
  let ?h2 = "(upd_handle p (\<lambda>x. x\<lparr>hd_client := c\<rparr>) h1)\<lparr>hs_cmap := cm\<rparr>"
  have a2: "xf_handle_aux p ?h2 = hb_address (hs_buf h b)" using a1(1) by (simp add: xf_handle_aux_def upd_handle_def)
  have "xf_ipc_b2a_host (xf_handle_aux p ?h2) ?h2 \<noteq> XF_PROXY_BADADDR"
    using a b2a_shmem [of h1 h, OF a1(3)] unfolding a2 by simp
  then obtain r mem w i' where reg: "xf_client_register_host dev p i core ?h2 =
      Some (r, (upd_handle p (\<lambda>x. x\<lparr>hd_id := i'\<rparr>) ?h2)\<lparr>hs_mem := mem, hs_dev := w\<rparr>)"
    using register_total [OF d, of ?h2 p i core] al(2) unfolding host_state_def by blast
  let ?h3 = "(upd_handle p (\<lambda>x. x\<lparr>hd_id := i'\<rparr>) ?h2)\<lparr>hs_mem := mem, hs_dev := w\<rparr>"
  have S3: "host_state ?h3 (F, insert b U) (C, R(c \<mapsto> p))" by (intro host_state_upd al(2)) simp
  have f3: "hd_aux (hs_handle ?h3 p) = b" "hs_aux ?h3 = hs_aux h" using b1 a1(2) by (simp_all add: upd_handle_def)
  show ?thesis
  proof (cases r)
    case (Inl e)
    obtain cm' where fr: "xf_client_free_host p ?h3 = Some (Inr (), ?h3\<lparr>hs_cmap := cm'\<rparr>)"
      "host_state (?h3\<lparr>hs_cmap := cm'\<rparr>) (F, insert b U) (c # C, R)"
      using host_free [OF S3, of c p] cz(2) by (auto simp: fun_upd_idem)
    obtain h4 where h4: "hbind (hget (\<lambda>h. hd_aux (hs_handle h p))) (\<lambda>b. hbind (xf_buffer_put b) (\<lambda>_.
         hbind (hupd (upd_handle p (\<lambda>x. x\<lparr>hd_aux := 0\<rparr>))) (\<lambda>_. hfail e))) (?h3\<lparr>hs_cmap := cm'\<rparr>) = Some (Inl e :: int + unit, h4)"
      "host_state h4 (b # F, U) (c # C, R)" "hd_aux (hs_handle h4 p) = 0" "hs_aux h4 = hs_aux (?h3\<lparr>hs_cmap := cm'\<rparr>)"
      by (rule open_fails [OF fr(2), of p]) (use f3(1) bz in auto)
    have "xf_open dev p i core h = Some (Inl e, h4)"
      unfolding start using al(1) reg fr(1) h4(1) cz(1) Inl by (simp add: hbind_def htry_def hret_def)
    then show ?thesis using h4(2-4) f3(2) by auto
  next
    case (Inr u)
    let ?h4 = "upd_handle p (\<lambda>x. x\<lparr>hd_response := True, hd_proxy := hs_self ?h3\<rparr>) ?h3"
    have "xf_open dev p i core h = Some (Inr (), ?h4)"
      unfolding start using al(1) reg cz(1) Inr by (simp add: hbind_def htry_def hret_def hupd_def)
    moreover have "host_state ?h4 (F, insert b U) (C, R(c \<mapsto> p))" by (intro host_state_upd S3) simp
    moreover have "hs_self ?h3 \<noteq> 0" using S3 by (simp add: host_state_def shmem_ok_def)
    ultimately show ?thesis using f3 by (auto simp: upd_handle_def)
  qed
qed

lemma open_no_buffer:
  assumes "host_state h ([], U) C"
  shows "xf_open dev p i core h = Some (Inl (- host_EBUSY), upd_handle p (\<lambda>x. x\<lparr>hd_aux := 0\<rparr>) h)"
  using buffer_get_empty [of "hs_aux h" h U] assms by (simp add: xf_open_def hrun host_state_def)

lemma open_no_number:
  assumes pipe: "\<forall>w. fst (dev_pipe dev w) = 0" and S: "host_state h (b # F, U) ([], R)"
  shows "\<exists>h'. xf_open dev p i core h = Some (Inl (- host_EBUSY), h') \<and> host_state h' (b # F, U) ([], R) \<and>
    hd_aux (hs_handle h' p) = 0 \<and> hs_aux h' = hs_aux h"
proof -
  obtain h1 where start: "xf_open dev p i core h = (hbind (xf_client_alloc_host p) (\<lambda>client.
     hbind (if client = 0 then hret (Inl (- host_EBUSY))
            else hbind (htry (xf_client_register_host dev p i core)) (\<lambda>r.
                 case r of Inl e \<Rightarrow> hbind (xf_client_free_host p) (\<lambda>_. hret r) | Inr _ \<Rightarrow> hret r)) (\<lambda>r.
     case r of
       Inl e \<Rightarrow> hbind (hget (\<lambda>h. hd_aux (hs_handle h p))) (\<lambda>b. hbind (xf_buffer_put b) (\<lambda>_.
         hbind (hupd (upd_handle p (\<lambda>x. x\<lparr>hd_aux := 0\<rparr>))) (\<lambda>_. hfail e)))
     | Inr _ \<Rightarrow> hupd (\<lambda>h. upd_handle p (\<lambda>x. x\<lparr>hd_response := True, hd_proxy := hs_self h\<rparr>) h)))) h1"
    and S1: "host_state h1 (F, insert b U) ([], R)" and b1: "hd_aux (hs_handle h1 p) = b" "hs_aux h1 = hs_aux h"
    unfolding xf_open_split by (rule open_starts [OF S pipe, where p = p])
  have al: "xf_client_alloc_host p h1 = Some (Inr 0, h1)" using S1 by (auto simp: host_state_def intro: cmap_alloc_full)
  obtain h4 where h4: "hbind (hget (\<lambda>h. hd_aux (hs_handle h p))) (\<lambda>b. hbind (xf_buffer_put b) (\<lambda>_.
       hbind (hupd (upd_handle p (\<lambda>x. x\<lparr>hd_aux := 0\<rparr>))) (\<lambda>_. hfail (- host_EBUSY)))) h1 = Some (Inl (- host_EBUSY) :: int + unit, h4)"
    "host_state h4 (b # F, U) ([], R)" "hd_aux (hs_handle h4 p) = 0" "hs_aux h4 = hs_aux h1"
    by (rule open_fails [OF S1, of p]) (use b1 host_free_nz [OF S] in auto)
  have "xf_open dev p i core h = Some (Inl (- host_EBUSY), h4)"
    unfolding start using al h4(1) by (simp add: hbind_def hret_def)
  then show ?thesis using h4 b1 by auto
qed

section \<open>Properties\<close>

text \<open>The numbers of the clients of a new proxy: in every history of handles that take and give back numbers, 255 at a
  time can be taken, the one given back last first, and 0 means that none is left; none is lost or held twice,
  and looking a number up finds the handle that holds it, and nothing else.\<close>

theorem host_client_numbers:
  assumes "hs_cmap h = xf_cmap_link 255 0 cm" and "client_ops_ok_host ops (all_numbers, \<lambda>_. None)"
  shows "\<exists>h' F R. run_ops client_step_host ops h = Some (h', snd (run_spec client_spec_host ops (all_numbers, \<lambda>_. None))) \<and>
    fst (run_spec client_spec_host ops (all_numbers, \<lambda>_. None)) = (F, R) \<and>
    distinct F \<and> set F \<union> dom R = {0 <..< 256} \<and> set F \<inter> dom R = {} \<and>
    (\<forall>c. 0 < c \<and> c < 256 \<longrightarrow> xf_client_lookup_host c h' = (case R c of None \<Rightarrow> 0 | Some p \<Rightarrow> p))"
proof -
  have "cmap_state h (all_numbers, \<lambda>_. None)" using assms(1) by (rule new_map_state)
  then obtain h' where h: "run_ops client_step_host ops h = Some (h', snd (run_spec client_spec_host ops (all_numbers, \<lambda>_. None)))"
    "cmap_state h' (fst (run_spec client_spec_host ops (all_numbers, \<lambda>_. None)))"
    using hclient.run_total assms(2) by blast
  obtain F R where v: "fst (run_spec client_spec_host ops (all_numbers, \<lambda>_. None)) = (F, R)" by (metis prod.exhaust)
  have "distinct F \<and> set F \<union> dom R = {0 <..< 256} \<and> set F \<inter> dom R = {}"
    using h(2) v by (simp add: cmap_state_def client_numbers_def XF_CFG_PROXY_MAX_CLIENTS_def)
  moreover have "\<forall>c. 0 < c \<and> c < 256 \<longrightarrow> xf_client_lookup_host c h' = (case R c of None \<Rightarrow> 0 | Some p \<Rightarrow> p)"
    using cmap_lookup_host [of h' F R] h(2) v by (simp add: client_numbers_def XF_CFG_PROXY_MAX_CLIENTS_def)
  ultimately show ?thesis using h(1) v by blast
qed

lemma all_numbers_Cons: "\<exists>xs. all_numbers = 1 # 2 # xs"
proof -
  have "[1 ..< 256] = 1 # 2 # [3 ..< 256]" by (simp only: upt_conv_Cons) (simp add: upt_conv_Cons)
  then show ?thesis unfolding all_numbers_def by (simp only: list.map) simp
qed

theorem host_client_numbers_witness:
  "\<exists>h'. run_ops client_step_host [CAlloc 8192, CAlloc 8448, CFree 8192 1, CAlloc 8704]
      (host_demo\<lparr>hs_cmap := xf_cmap_link 255 0 (\<lambda>_. 0)\<rparr>) = Some (h', [1, 2, 0, 1]) \<and>
     xf_client_lookup_host 1 h' = 8704 \<and> xf_client_lookup_host 2 h' = 8448 \<and> xf_client_lookup_host 9 h' = 0"
proof -
  let ?ops = "[CAlloc 8192, CAlloc 8448, CFree 8192 1, CAlloc 8704]" and ?h = "host_demo\<lparr>hs_cmap := xf_cmap_link 255 0 (\<lambda>_. 0)\<rparr>"
  obtain xs where xs: "all_numbers = 1 # 2 # xs" using all_numbers_Cons by blast
  have ok: "client_ops_ok_host ?ops (all_numbers, \<lambda>_. None)"
    by (simp add: xs handle_ok_def XF_CFG_PROXY_MAX_CLIENTS_def)
  have sp: "run_spec client_spec_host ?ops (all_numbers, \<lambda>_. None) =
      ((xs, (\<lambda>_. None)(1 \<mapsto> 8704, 2 \<mapsto> 8448)), [1, 2, 0, 1])"
    by (simp add: xs fun_eq_iff)
  have "hs_cmap ?h = xf_cmap_link 255 0 (\<lambda>_. 0)" by simp
  from host_client_numbers [OF this ok] obtain h' where "run_ops client_step_host ?ops ?h = Some (h', [1, 2, 0, 1])"
    "\<forall>c. 0 < c \<and> c < 256 \<longrightarrow> xf_client_lookup_host c h' =
       (case ((\<lambda>_. None)(1 \<mapsto> 8704, 2 \<mapsto> 8448)) c of None \<Rightarrow> 0 | Some p \<Rightarrow> p)"
    unfolding sp by auto
  then show ?thesis by (intro exI [of _ h'] conjI) simp_all
qed

text \<open>The id of a command, with source and destination exchanged, names the client that sent it.\<close>

lemma reply_client:
  assumes "core < 4" and "c < XF_CFG_PROXY_MAX_CLIENTS"
  shows "XF_AP_CLIENT (msg_id_swap (XF_MSG_ID (XF_AP_CLIENT_SPEC core c) dst)) = c"
proof -
  have b: "bit core k \<Longrightarrow> k < 2" for k by (rule less_no_bits [of core 2]) (use assms(1) in simp_all)
  have d: "bit c k \<Longrightarrow> k < 8" for k
    by (rule less_no_bits [of c 8]) (use assms(2) in \<open>simp_all add: XF_CFG_PROXY_MAX_CLIENTS_def\<close>)
  have "(0x8000 :: u32) = 2 ^ 15" by simp
  then have e: "bit (0x8000 :: u32) k \<longleftrightarrow> k = 15" for k by (simp only: bit_exp_iff) auto
  show ?thesis
    by (rule bit_word_eqI) (auto simp: msg_id_swap_def bit_simps field_defs e dest: b d)
qed

text \<open>The receiving thread distributes everything the driver holds: the messages of client 0 go to the pipe of the proxy,
  those of a client to the pipe of the handle that holds the number, in order and exactly once; those of numbers
  not in use are dropped, and nothing else changes. The answer to a command of a client carries its number.\<close>

theorem host_thread_routes:
  assumes "cmap_state h (F, R)" and "\<forall>p\<in>ran R. hd_response (hs_handle h p)" and "hs_thread h"
    and "\<forall>m\<in>set (hs_rx h). msg_client m < 256 \<and> xf_ipc_a2b_host (ucast (p_address m)) h \<noteq> - 1"
  shows "\<exists>h'. xf_proxy_thread h = Some (Inr (), h') \<and> hs_rx h' = [] \<and> hs_thread h' \<and>
    hs_pipe h' = hs_pipe h @ to_proxy h (hs_rx h) \<and>
    (\<forall>c p. R c = Some p \<longrightarrow> hd_pipe (hs_handle h' p) = hd_pipe (hs_handle h p) @ to_handle h c (hs_rx h)) \<and>
    (\<forall>p. p \<notin> ran R \<longrightarrow> hs_handle h' p = hs_handle h p) \<and>
    h' = h\<lparr>hs_rx := [], hs_pipe := hs_pipe h', hs_handle := hs_handle h'\<rparr> \<and>
    (\<forall>core c dst. core < 4 \<and> c < 256 \<longrightarrow> XF_AP_CLIENT (msg_id_swap (XF_MSG_ID (XF_AP_CLIENT_SPEC core c) dst)) = c)"
proof -
  let ?h' = "demux R (hs_rx h) (h\<lparr>hs_rx := []\<rparr>)"
  have "xf_proxy_recv_loop (length (hs_rx h) + 0) h = xf_proxy_recv_loop 0 ?h'"
    by (rule recv_loop_demux [OF assms(1,2)]) (use assms(4) in \<open>simp_all add: XF_CFG_PROXY_MAX_CLIENTS_def\<close>)
  then have run: "xf_proxy_thread h = Some (Inr (), ?h')" using assms(3) by (simp add: xf_proxy_thread_def hrun)
  have t: "hs_thread ?h'" using assms(3) by (simp add: demux_def)
  have pp: "hs_pipe ?h' = hs_pipe h @ to_proxy h (hs_rx h)" by (simp add: demux_def)
  have ph: "hd_pipe (hs_handle ?h' p) = hd_pipe (hs_handle h p) @ to_handle h c (hs_rx h)" if "R c = Some p" for c p
    using that assms(1) by (auto simp: demux_def cmap_state_def ran_def)
  have po: "hs_handle ?h' p = hs_handle h p" if "p \<notin> ran R" for p using that by (simp add: demux_def)
  have fr: "?h' = h\<lparr>hs_rx := [], hs_pipe := hs_pipe ?h', hs_handle := hs_handle ?h'\<rparr>" by (simp add: demux_def)
  have rc: "\<forall>core c dst. core < 4 \<and> c < 256 \<longrightarrow> XF_AP_CLIENT (msg_id_swap (XF_MSG_ID (XF_AP_CLIENT_SPEC core c) dst)) = c"
    using reply_client by (simp add: XF_CFG_PROXY_MAX_CLIENTS_def)
  show ?thesis using run t pp ph po fr rc by (intro exI [of _ ?h']) simp
qed

text \<open>One response with an address that is neither in the shared range nor NULL ends the receiving thread; what the driver
  holds behind it stays there, and every later synchronous command of the proxy blocks for ever, whatever
  the DSP does.\<close>

theorem host_bad_address_stops:
  assumes "hs_thread h" and "hs_rx h = m # ms" and "hs_pipe h = []"
    and "XF_CFG_REMOTE_IPC_POOL_SIZE \<le> ucast (p_address m)" and "ucast (p_address m) \<noteq> XF_PROXY_NULL"
  shows "\<exists>h'. xf_proxy_thread h = Some (Inr (), h') \<and> \<not> hs_thread h' \<and> hs_rx h' = ms \<and>
    (\<forall>dev msg. xf_ipc_b2a_host (u_buffer msg) h' \<noteq> XF_PROXY_BADADDR \<longrightarrow> xf_proxy_cmd_exec dev msg h' = None) \<and>
    (\<forall>dev n i len. 0 < n \<and> fst (dev_malloc dev (32 + n * 16) i (hs_dev h')) \<noteq> 0 \<longrightarrow> xf_pool_alloc dev n len i h' = None)"
proof -
  let ?h' = "h\<lparr>hs_rx := ms, hs_thread := False\<rparr>"
  have "xf_ipc_a2b_host (ucast (p_address m)) (h\<lparr>hs_rx := ms\<rparr>) = - 1"
    using assms(4,5) by (simp add: xf_ipc_a2b_host_def not_less [symmetric])
  then have run: "xf_proxy_thread h = Some (Inr (), ?h')"
    using assms(1,2) by (simp add: xf_proxy_thread_def xf_ipc_recv_def hrun Let_def)
  have blocked: "xf_proxy_cmd_exec dev msg g = None"
    if "xf_ipc_b2a_host (u_buffer msg) g \<noteq> XF_PROXY_BADADDR" "hs_pipe g = []" "\<not> hs_thread g" for dev msg and g :: "'a xf_host"
    using that by (simp add: xf_proxy_cmd_exec_def xf_ipc_send_def xf_proxy_response_get_def xf_wait_pipe_def xf_proxy_thread_def
        hrun split: prod.split)
  have "xf_pool_alloc dev n len i ?h' = None" if n: "0 < n" "fst (dev_malloc dev (32 + n * 16) i (hs_dev ?h')) \<noteq> 0" for dev n i len
  proof -
    obtain p w where "dev_malloc dev (32 + n * 16) i (hs_dev ?h') = (p, w)" "p \<noteq> 0" using n(2) by (metis prod.collapse)
    then show ?thesis
      using n(1) blocked [of _ "?h'\<lparr>hs_dev := w\<rparr>"] assms(3) null_ok
      by (simp add: xf_pool_alloc_def xf_proxy_buffer_alloc_def hrun Let_def)
  qed
  then show ?thesis using run blocked [of _ ?h'] assms(3) by (intro exI [of _ ?h']) simp
qed

text \<open>Opening a component on a proxy whose commands the DSP answers returns. It fails with EBUSY when no control buffer or no
  number is left; when it fails, the pool and the numbers are as before; when it succeeds, the handle has
  one buffer and one number, and closing it returns and gives both back.\<close>

theorem host_open_close:
  assumes d: "dev_serves dev" and pipe: "\<forall>w. fst (dev_pipe dev w) = 0" and S: "host_state h (F, U) (C, R)"
    and p: "handle_ok p" "p \<notin> ran R"
    and a: "\<forall>b\<in>set F. xf_ipc_b2a_host (hb_address (hs_buf h b)) h \<noteq> XF_PROXY_BADADDR"
  shows "\<exists>r h1. xf_open dev p i core h = Some (r, h1) \<and> (F = [] \<or> C = [] \<longrightarrow> r = Inl (- host_EBUSY)) \<and>
    (case r of
       Inl _ \<Rightarrow> host_state h1 (F, U) (C, R) \<and> hd_aux (hs_handle h1 p) = 0
     | Inr _ \<Rightarrow>
         host_state h1 (tl F, insert (hd F) U) (tl C, R(hd C \<mapsto> p)) \<and> hd_aux (hs_handle h1 p) = hd F \<and> hd_response (hs_handle h1 p) \<and>
         (\<exists>h2. xf_close dev p h1 = Some (Inr (), h2) \<and> host_state h2 (F, U) (C, R) \<and> hd_aux (hs_handle h2 p) = 0))"
proof (cases F)
  case Nil
  have "host_state (upd_handle p (\<lambda>x. x\<lparr>hd_aux := 0\<rparr>) h) ([], U) (C, R)"
    using S Nil by (intro host_state_upd) simp_all
  moreover have "xf_open dev p i core h = Some (Inl (- host_EBUSY), upd_handle p (\<lambda>x. x\<lparr>hd_aux := 0\<rparr>) h)"
    using open_no_buffer S Nil by blast
  ultimately show ?thesis using Nil by (auto simp: upd_handle_def)
next
  case F: (Cons b F')
  show ?thesis
  proof (cases C)
    case Nil
    then show ?thesis using open_no_number [OF pipe, of h b F' U R p i core] S F by force
  next
    case C: (Cons c C')
    have S': "host_state h (b # F', U) (c # C', R)" using S F C by simp
    have ab: "xf_ipc_b2a_host (hb_address (hs_buf h b)) h \<noteq> XF_PROXY_BADADDR" using a F by simp
    obtain r h1 where r: "xf_open dev p i core h = Some (r, h1)" "hs_aux h1 = hs_aux h"
      "case r of Inl _ \<Rightarrow> host_state h1 (b # F', U) (c # C', R) \<and> hd_aux (hs_handle h1 p) = 0
       | Inr _ \<Rightarrow> host_state h1 (F', insert b U) (C', R(c \<mapsto> p)) \<and> hd_aux (hs_handle h1 p) = b \<and> hd_response (hs_handle h1 p) \<and> hd_proxy (hs_handle h1 p) \<noteq> 0"
      using open_returns [OF d pipe S' p ab, of i core] by blast
    have n: "b \<notin> U" using host_free_nz [OF S'] by simp
    have n2: "R c = None" using S' by (auto simp: host_state_def cmap_state_def)
    show ?thesis
    proof (cases r)
      case (Inl e)
      then show ?thesis using r F C by auto
    next
      case (Inr u)
      then have st: "host_state h1 (F', insert b U) (C', R(c \<mapsto> p))" "hd_aux (hs_handle h1 p) = b" "hd_proxy (hs_handle h1 p) \<noteq> 0"
        using r by auto
      have e: "insert b U - {b} = U" "(R(c \<mapsto> p))(c := None) = R" using n n2 by (auto simp: fun_upd_idem)
      have "(R(c \<mapsto> p)) c = Some p" "b \<in> insert b U" by simp_all
      from close_returns [OF d st(1) this(1) st(2) this(2) st(3), unfolded e] obtain h2 where
        "xf_close dev p h1 = Some (Inr (), h2)" "host_state h2 (F, U) (C, R)" "hd_aux (hs_handle h2 p) = 0"
        unfolding F C by blast
      then show ?thesis using r Inr F C by auto
    qed
  qed
qed

text \<open>A device that answers the last command with its opcode and no data.\<close>

definition ack_device :: "u32 xf_device" where
  "ack_device = \<lparr>dev_sizeof_adev = 3000, dev_sizeof_comp = 200, dev_malloc = (\<lambda>n i w. (4096, w)), dev_free = (\<lambda>p i w. w),
     dev_open = (\<lambda>w. (0, w)), dev_close = (\<lambda>w. w), dev_pipe = (\<lambda>w. (0, w)), dev_close_pipe = (\<lambda>w. w),
     dev_mmap = (\<lambda>w. (0, 65536, w)), dev_thread = (\<lambda>w. (0, w)), dev_send = (\<lambda>m mem w. p_opcode m),
     dev_run = (\<lambda>mem w. ([\<lparr>p_session_id = 0x80008000, p_opcode = w, p_length = 0, p_address = ucast XF_PROXY_NULL, p_v_address = 0\<rparr>],
                         mem, w))\<rparr>"

lemma ack_serves: "dev_serves ack_device" "\<forall>w. fst (dev_pipe ack_device w) = 0"
proof -
  have "XF_AP_CLIENT 0x80008000 = 0" "(ucast (ucast XF_PROXY_NULL :: u64) :: u32) = XF_PROXY_NULL"
    by (simp add: XF_AP_CLIENT_def, rule ucast_back)
  then show "dev_serves ack_device" "\<forall>w. fst (dev_pipe ack_device w) = 0"
    by (simp_all add: dev_serves_def ack_device_def msg_client_def)
qed

definition client_demo :: "u32 xf_host" where
  "client_demo = \<lparr>hs_self = 1024, hs_core = 0, hs_shmem = 65536, hs_pipe = [], hs_aux = 4096, hs_cmap = xf_cmap_link 255 0 (\<lambda>_. 0),
     hs_thread = True, hs_rx = [], hs_mem = (\<lambda>_. 0), hs_buf = (\<lambda>_. \<lparr>hb_address = 65600, hb_link = 0\<rparr>),
     hs_pool = (\<lambda>_. \<lparr>hp_proxy = 0, hp_length = 128, hp_number = 1, hp_p = 0, hp_free = 4128\<rparr>),
     hs_handle = (\<lambda>_. \<lparr>hd_proxy = 0, hd_pipe = [], hd_aux = 0, hd_id = 0, hd_client = 0, hd_response = False\<rparr>),
     hs_stack = 0, hs_dev = 0\<rparr>"

lemma client_demo_state: "host_state client_demo ([4128], {}) (all_numbers, \<lambda>_. None)"
proof -
  have "cmap_state client_demo (all_numbers, \<lambda>_. None)" by (rule new_map_state [of _ "\<lambda>_. 0"]) (simp add: client_demo_def)
  then show ?thesis
    by (simp add: host_state_def host_idle_def shmem_ok_def pool_state_def client_demo_def XF_CFG_REMOTE_IPC_POOL_SIZE_def)
qed

theorem host_open_close_witness:
  "\<exists>r h1. xf_open ack_device 8192 [112, 99, 109] 0 client_demo = Some (r, h1) \<and>
     (case r of
        Inl _ \<Rightarrow> host_state h1 ([4128], {}) (all_numbers, \<lambda>_. None)
      | Inr _ \<Rightarrow> host_state h1 ([], {4128}) (tl all_numbers, (\<lambda>_. None)(hd all_numbers \<mapsto> 8192)) \<and>
          (\<exists>h2. xf_close ack_device 8192 h1 = Some (Inr (), h2) \<and> host_state h2 ([4128], {}) (all_numbers, \<lambda>_. None)))"
proof -
  have p: "handle_ok 8192" "(8192 :: u64) \<notin> ran (\<lambda>_. None)" by (simp_all add: handle_ok_def XF_CFG_PROXY_MAX_CLIENTS_def)
  have a: "\<forall>b\<in>set [4128]. xf_ipc_b2a_host (hb_address (hs_buf client_demo b)) client_demo \<noteq> XF_PROXY_BADADDR"
    by (simp add: client_demo_def xf_ipc_b2a_host_def XF_CFG_REMOTE_IPC_POOL_SIZE_def XF_PROXY_BADADDR_def)
  obtain r h1 where r: "xf_open ack_device 8192 [112, 99, 109] 0 client_demo = Some (r, h1)"
    "case r of Inl _ \<Rightarrow> host_state h1 ([4128], {}) (all_numbers, \<lambda>_. None) \<and> hd_aux (hs_handle h1 8192) = 0
     | Inr _ \<Rightarrow> host_state h1 (tl [4128], insert (hd [4128]) {}) (tl all_numbers, (\<lambda>_. None)(hd all_numbers \<mapsto> 8192)) \<and>
         hd_aux (hs_handle h1 8192) = hd [4128] \<and> hd_response (hs_handle h1 8192) \<and>
         (\<exists>h2. xf_close ack_device 8192 h1 = Some (Inr (), h2) \<and> host_state h2 ([4128], {}) (all_numbers, \<lambda>_. None) \<and>
            hd_aux (hs_handle h2 8192) = 0)"
    using host_open_close [OF ack_serves client_demo_state p a, of "[112, 99, 109]" 0] by blast
  show ?thesis by (intro exI [of _ r] exI [of _ h1]) (use r in \<open>cases r; auto\<close>)
qed

definition demo_msg :: "u32 \<Rightarrow> u32 \<Rightarrow> u32 \<Rightarrow> xf_proxy_message" where
  "demo_msg i opc a = \<lparr>p_session_id = i, p_opcode = opc, p_length = 0, p_address = ucast a, p_v_address = 0\<rparr>"

lemma demo_msgs:
  "msg_client (demo_msg 0x00400004 opc a) = 1" "msg_client (demo_msg 0x80008000 opc a) = 0" "msg_client (demo_msg 0x01C00004 opc a) = 7"
  by (simp_all add: msg_client_def demo_msg_def XF_AP_CLIENT_def)

theorem host_thread_routes_witness:
  "\<exists>h1 h'. xf_client_alloc_host 8192 client_demo = Some (Inr 1, h1) \<and>
     xf_proxy_thread (upd_handle 8192 (\<lambda>x. x\<lparr>hd_response := True\<rparr>)
       (h1\<lparr>hs_rx := [demo_msg 0x00400004 9 64, demo_msg 0x80008000 4 0, demo_msg 0x01C00004 9 0]\<rparr>)) = Some (Inr (), h') \<and>
     map u_buffer (hd_pipe (hs_handle h' 8192)) = [65600] \<and> map p_opcode (hs_pipe h') = [4] \<and> hs_rx h' = []"
proof -
  obtain xs where xs: "all_numbers = 1 # xs" using all_numbers_Cons by blast
  have "cmap_state client_demo (1 # xs, \<lambda>_. None)" using client_demo_state by (simp add: host_state_def xs)
  from cmap_alloc_host [OF this, of 8192] obtain cm where
    h1: "xf_client_alloc_host 8192 client_demo = Some (Inr 1, (upd_handle 8192 (\<lambda>x. x\<lparr>hd_client := 1\<rparr>) client_demo)\<lparr>hs_cmap := cm\<rparr>)"
      "cmap_state ((upd_handle 8192 (\<lambda>x. x\<lparr>hd_client := 1\<rparr>) client_demo)\<lparr>hs_cmap := cm\<rparr>) (xs, (\<lambda>_. None)(1 \<mapsto> 8192))"
    by (auto simp: handle_ok_def XF_CFG_PROXY_MAX_CLIENTS_def)
  let ?ms = "[demo_msg 0x00400004 9 64, demo_msg 0x80008000 4 0, demo_msg 0x01C00004 9 0]"
  let ?h = "upd_handle 8192 (\<lambda>x. x\<lparr>hd_response := True\<rparr>)
      ((upd_handle 8192 (\<lambda>x. x\<lparr>hd_client := 1\<rparr>) client_demo)\<lparr>hs_cmap := cm\<rparr>\<lparr>hs_rx := ?ms\<rparr>)"
  have f: "hs_rx ?h = ?ms" "hs_shmem ?h = 65536" "hs_pipe ?h = []" "hd_pipe (hs_handle ?h 8192) = []"
    by (simp_all add: upd_handle_def client_demo_def)
  have S: "cmap_state ?h (xs, (\<lambda>_. None)(1 \<mapsto> 8192))" by (rule cmap_same [OF h1(2)]) (simp_all add: upd_handle_def)
  have rsp: "\<forall>p\<in>ran ((\<lambda>_. None)(1 \<mapsto> 8192)). hd_response (hs_handle ?h p)" by (simp add: upd_handle_def)
  have t: "hs_thread ?h" by (simp add: upd_handle_def client_demo_def)
  have ab: "xf_ipc_a2b_host (ucast (p_address (demo_msg i opc 64))) ?h = 65600" "xf_ipc_a2b_host (ucast (p_address (demo_msg i opc 0))) ?h = 65536" for i opc
    using f(2) by (simp_all add: xf_ipc_a2b_host_def demo_msg_def XF_CFG_REMOTE_IPC_POOL_SIZE_def)
  have ok: "\<forall>m\<in>set (hs_rx ?h). msg_client m < 256 \<and> xf_ipc_a2b_host (ucast (p_address m)) ?h \<noteq> - 1"
    using ab f(1) by (auto simp: demo_msgs)
  obtain h' where h': "xf_proxy_thread ?h = Some (Inr (), h')" "hs_rx h' = []" "hs_pipe h' = hs_pipe ?h @ to_proxy ?h (hs_rx ?h)"
    "\<forall>c p. ((\<lambda>_. None)(1 \<mapsto> 8192)) c = Some p \<longrightarrow> hd_pipe (hs_handle h' p) = hd_pipe (hs_handle ?h p) @ to_handle ?h c (hs_rx ?h)"
    using host_thread_routes [OF S rsp t ok] by blast
  have "hd_pipe (hs_handle h' 8192) = to_handle ?h 1 ?ms" using h'(4) f by simp
  then have "map u_buffer (hd_pipe (hs_handle h' 8192)) = [65600]"
    using ab by (simp add: demo_msgs user_message_def opcode_defs XF_OPCODE_def) (simp add: demo_msg_def)
  moreover have "map p_opcode (hs_pipe h') = [4]" unfolding h'(3) f(1,3) by (simp add: demo_msgs) (simp add: demo_msg_def)
  ultimately show ?thesis using h1(1) h'(1,2) by auto
qed

theorem host_bad_address_stops_witness:
  "\<exists>h'. xf_proxy_thread (client_demo\<lparr>hs_rx := [demo_msg 0x80008000 4 0x40000, demo_msg 0x80008000 4 0]\<rparr>) = Some (Inr (), h') \<and>
     \<not> hs_thread h' \<and> xf_pool_alloc ack_device 1 64 0 h' = None"
proof -
  let ?h = "client_demo\<lparr>hs_rx := [demo_msg 0x80008000 4 0x40000, demo_msg 0x80008000 4 0]\<rparr>"
  have "hs_thread ?h" "hs_rx ?h = demo_msg 0x80008000 4 0x40000 # [demo_msg 0x80008000 4 0]" "hs_pipe ?h = []"
    "XF_CFG_REMOTE_IPC_POOL_SIZE \<le> ucast (p_address (demo_msg 0x80008000 4 0x40000))"
    "ucast (p_address (demo_msg 0x80008000 4 0x40000)) \<noteq> XF_PROXY_NULL"
    by (simp_all add: client_demo_def demo_msg_def XF_CFG_REMOTE_IPC_POOL_SIZE_def XF_PROXY_NULL_def)
  from host_bad_address_stops [OF this] obtain h' where "xf_proxy_thread ?h = Some (Inr (), h')" "\<not> hs_thread h'"
    "\<forall>(dev :: u32 xf_device) n i len. 0 < n \<and> fst (dev_malloc dev (32 + n * 16) i (hs_dev h')) \<noteq> 0 \<longrightarrow> xf_pool_alloc dev n len i h' = None"
    by blast
  then show ?thesis by (auto simp: ack_device_def)
qed

end
