(* ===== verification/XH_Api_Inv.thy ===== *)
theory XH_Api_Inv
  imports XH_Api XH_Clients
begin

text \<open>
  The component interface of the host under any history of calls: what is true of a component between calls,
  whatever the DSP answers, and the state in which opening the audio device leaves the proxy.
\<close>

section \<open>Calls that keep a property of the components\<close>

definition sk :: "((u64 \<Rightarrow> xaf_comp) \<Rightarrow> bool) \<Rightarrow> ((int + 'a) \<times> 'w xaf_adev) option \<Rightarrow> bool" where
  "sk P res \<longleftrightarrow> (\<forall>r s'. res = Some (r, s') \<longrightarrow> P (ad_comp s'))"

text \<open>One rule for each construct of the calls.\<close>

lemma sk_ret: "P (ad_comp s) \<Longrightarrow> sk P (hret x s)" "P (ad_comp s) \<Longrightarrow> sk P (hfail e s)" "P (ad_comp s) \<Longrightarrow> sk P (hget f s)" "sk P (hstop s)"
  by (simp_all add: sk_def hrun)

lemma sk_chk: "P (ad_comp s) \<Longrightarrow> sk P (XF_CHK_ERR_host c e s)"
  by (simp add: sk_def hrun)

lemma sk_upd: "P ((ad_comp s)(p := f (ad_comp s p))) \<Longrightarrow> sk P (upd_comp p f s)"
  by (simp add: sk_def hrun upd_comp_def)

lemma sk_on: "P (ad_comp s) \<Longrightarrow> sk P (on_proxy m s)"
  by (auto simp: sk_def on_proxy_def)

lemma sk_hupd: "P (ad_comp (f s)) \<Longrightarrow> sk P (hupd f s)"
  by (simp add: sk_def hrun)

lemma sk_bind:
  assumes "sk P (m s)" and "\<And>x s1. m s = Some (Inr x, s1) \<Longrightarrow> sk P (k x s1)"
  shows "sk P (hbind m k s)"
  using assms by (auto simp: sk_def hbind_def split: option.splits sum.splits)

lemma sk_bindP:
  assumes "sk P (m s)" and "\<And>x s1. P (ad_comp s1) \<Longrightarrow> sk P (k x s1)"
  shows "sk P (hbind m k s)"
  using assms by (auto simp: sk_def hbind_def split: option.splits sum.splits)

lemma sk_bind_on:
  assumes "P (ad_comp s)" and "\<And>x s1. ad_comp s1 = ad_comp s \<Longrightarrow> sk P (k x s1)"
  shows "sk P (hbind (on_proxy m) k s)"
  by (rule sk_bind) (use assms sk_on in \<open>auto simp: on_proxy_def\<close>)

lemma sk_bind_upd:
  assumes "\<And>s1. ad_comp s1 = (ad_comp s)(p := f (ad_comp s p)) \<Longrightarrow> sk P (k () s1)"
  shows "sk P (hbind (upd_comp p f) k s)"
  using assms [of "s\<lparr>ad_comp := (ad_comp s)(p := f (ad_comp s p))\<rparr>"] by (simp add: sk_def hrun upd_comp_def)

lemma sk_bind_hupd:
  assumes "\<And>s1. ad_comp s1 = ad_comp (f s) \<Longrightarrow> sk P (k () s1)"
  shows "sk P (hbind (hupd f) k s)"
  using assms [OF refl] by (simp add: sk_def hrun)

lemma sk_bind_get: "sk P (k (f s) s) \<Longrightarrow> sk P (hbind (hget f) k s)"
  by (simp add: sk_def hrun)

lemma sk_bind_ret: "sk P (k x s) \<Longrightarrow> sk P (hbind (hret x) k s)"
  by (simp add: sk_def hrun)

lemma sk_bind_stop: "sk P (hbind hstop k s)"
  by (simp add: sk_def hrun)

lemma sk_bind_chk: "P (ad_comp s) \<Longrightarrow> (c \<Longrightarrow> sk P (k () s)) \<Longrightarrow> sk P (hbind (XF_CHK_ERR_host c e) k s)"
  by (simp add: sk_def hrun)

lemma sk_bind_ptr: "P (ad_comp s) \<Longrightarrow> sk P (k () s) \<Longrightarrow> sk P (hbind (XAF_CHK_PTR q) k s)"
  unfolding XAF_CHK_PTR_def by (rule sk_bind_chk)

lemma sk_bind_range: "P (ad_comp s) \<Longrightarrow> (lo \<le> sint v \<and> sint v \<le> hi \<Longrightarrow> sk P (k () s)) \<Longrightarrow> sk P (hbind (XAF_CHK_RANGE v lo hi) k s)"
  unfolding XAF_CHK_RANGE_def by (rule sk_bind_chk)

lemma sk_bind_assoc: "sk P (hbind m (\<lambda>x. hbind (k x) l) s) \<Longrightarrow> sk P (hbind (hbind m k) l s)"
  by (simp add: hbind_assoc)

lemma sk_bind_if: "(c \<Longrightarrow> sk P (hbind a k s)) \<Longrightarrow> (\<not> c \<Longrightarrow> sk P (hbind b k s)) \<Longrightarrow> sk P (hbind (if c then a else b) k s)"
  by simp

lemma sk_if: "(c \<Longrightarrow> sk P (a s)) \<Longrightarrow> (\<not> c \<Longrightarrow> sk P (b s)) \<Longrightarrow> sk P ((if c then a else b) s)"
  by simp

lemma sk_bind_htry:
  assumes "sk P (m s)" and "\<And>r s1. m s = Some (r, s1) \<Longrightarrow> sk P (k r s1)"
  shows "sk P (hbind (htry m) k s)"
  using assms by (auto simp: sk_def hbind_def htry_def split: option.splits sum.splits)

lemmas sk_binds = sk_bind_on sk_bind_upd sk_bind_hupd sk_bind_get sk_bind_ret sk_bind_stop sk_bind_chk sk_bind_ptr sk_bind_range
  sk_bind_assoc sk_bind_if
lemmas sk_ends = sk_ret sk_chk sk_upd sk_on sk_hupd sk_if

section \<open>What is true of a component\<close>

definition is_flag :: "u32 \<Rightarrow> bool" where
  "is_flag x \<longleftrightarrow> x = 0 \<or> x = 1"

definition comp_ok :: "xaf_comp \<Rightarrow> bool" where
  "comp_ok C \<longleftrightarrow>
     is_flag (hc_init_done C) \<and> is_flag (hc_start_cmd_issued C) \<and> is_flag (hc_exec_cmd_issued C) \<and> is_flag (hc_input_over C) \<and>
     (hc_exec_cmd_issued C \<noteq> 0 \<longrightarrow> hc_init_done C \<noteq> 0) \<and>
     (hc_comp_status C = XAF_INIT_DONE \<longrightarrow> hc_init_done C \<noteq> 0) \<and> (hc_init_done C \<noteq> 0 \<longrightarrow> hc_comp_status C \<noteq> XAF_STARTING) \<and>
     (hc_outpool C \<noteq> 0 \<longleftrightarrow> hc_init_done C \<noteq> 0 \<and> hc_noutbuf C \<noteq> 0) \<and>
     hc_noutbuf C \<le> 1 \<and> hc_ninbuf C \<le> 2 \<and>
     hc_out_routed C \<le> hc_out_ports C \<and> hc_inp_routed C \<le> hc_inp_ports C \<and> hc_out_ports C \<le> 1 \<and> hc_inp_ports C \<le> 4 \<and>
     hc_comp_ptr C = 0"

text \<open>What never goes back or changes.\<close>

definition comp_mono :: "xaf_comp \<Rightarrow> xaf_comp \<Rightarrow> bool" where
  "comp_mono C C' \<longleftrightarrow>
     (hc_init_done C \<noteq> 0 \<longrightarrow> hc_init_done C' \<noteq> 0) \<and> (hc_start_cmd_issued C \<noteq> 0 \<longrightarrow> hc_start_cmd_issued C' \<noteq> 0) \<and>
     (hc_exec_cmd_issued C \<noteq> 0 \<longrightarrow> hc_exec_cmd_issued C' \<noteq> 0) \<and> (hc_input_over C \<noteq> 0 \<longrightarrow> hc_input_over C' \<noteq> 0) \<and>
     hc_comp_type C' = hc_comp_type C \<and> hc_inp_ports C' = hc_inp_ports C \<and> hc_out_ports C' = hc_out_ports C \<and>
     hc_noutbuf C' = hc_noutbuf C \<and> hc_ninbuf C' = hc_ninbuf C \<and> hc_inpool C' = hc_inpool C"

definition comps_step :: "(u64 \<Rightarrow> xaf_comp) \<Rightarrow> (u64 \<Rightarrow> xaf_comp) \<Rightarrow> bool" where
  "comps_step cs cs' \<longleftrightarrow> (\<forall>q. comp_ok (cs q) \<longrightarrow> comp_ok (cs' q) \<and> comp_mono (cs q) (cs' q))"

lemma comp_mono_refl: "comp_mono C C"
  by (simp add: comp_mono_def)

lemma comp_mono_trans: "comp_mono C C1 \<Longrightarrow> comp_mono C1 C2 \<Longrightarrow> comp_mono C C2"
  by (simp add: comp_mono_def)

lemma comps_refl: "comps_step cs cs"
  by (simp add: comps_step_def comp_mono_refl)

lemma comps_trans: "comps_step cs cs1 \<Longrightarrow> comps_step cs1 cs2 \<Longrightarrow> comps_step cs cs2"
  unfolding comps_step_def by (meson comp_mono_trans)

lemma comps_upd:
  assumes "comps_step cs0 cs" and "comp_ok (cs p) \<Longrightarrow> comp_ok (f (cs p)) \<and> comp_mono (cs p) (f (cs p))"
  shows "comps_step cs0 (cs(p := f (cs p)))"
proof -
  have "comps_step cs (cs(p := f (cs p)))" using assms(2) by (auto simp: comps_step_def comp_mono_refl)
  with assms(1) show ?thesis by (rule comps_trans)
qed

lemma pool_alloc_nz: "xf_pool_alloc dev n len i h = Some (Inr p, h') \<Longrightarrow> p \<noteq> 0"
  by (auto simp: xf_pool_alloc_def hrun Let_def split: option.splits sum.splits prod.splits if_splits)

lemma post_init_step:
  assumes "comps_step cs0 (ad_comp s)"
  shows "sk (comps_step cs0) (xaf_comp_post_init_config dev p smsg s)"
proof -
  define f where "f = read_format smsg (hs_mem (ad_proxy s))"
  have 1: "comps_step cs0 ((ad_comp s)(p := (ad_comp s p)\<lparr>hc_out_format := f\<rparr>))"
    using comps_upd [OF assms, of p "\<lambda>x. x\<lparr>hc_out_format := f\<rparr>"] by (simp add: comp_ok_def comp_mono_def)
  show ?thesis
    unfolding xaf_comp_post_init_config_def f_def [symmetric]
  proof (intro sk_bind_get sk_bind_upd, fold f_def)
    fix s1 :: "'a xaf_adev" assume s1: "ad_comp s1 = (ad_comp s)(p := (ad_comp s p)\<lparr>hc_out_format := f\<rparr>)"
    have k1: "comps_step cs0 (ad_comp s1)" using 1 s1 by simp
    show "sk (comps_step cs0)
       (hbind (if hc_noutbuf (ad_comp s1 p) \<noteq> 0
               then hbind (on_proxy (xf_pool_alloc dev (hc_noutbuf (ad_comp s1 p)) (xf_output_length f) XAF_MEM_ID_COMP))
                      (\<lambda>pool. upd_comp p (\<lambda>x. x\<lparr>hc_outpool := pool\<rparr>))
               else hret ()) (\<lambda>_. upd_comp p (\<lambda>x. x\<lparr>hc_init_done := 1, hc_comp_status := XAF_INIT_DONE\<rparr>)) s1)"
    proof (rule sk_bind_if)
      assume n: "hc_noutbuf (ad_comp s1 p) \<noteq> 0"
      let ?m = "on_proxy (xf_pool_alloc dev (hc_noutbuf (ad_comp s1 p)) (xf_output_length f) XAF_MEM_ID_COMP)"
      have "sk (comps_step cs0) (hbind ?m (\<lambda>pool. hbind (upd_comp p (\<lambda>x. x\<lparr>hc_outpool := pool\<rparr>))
          (\<lambda>_. upd_comp p (\<lambda>x. x\<lparr>hc_init_done := 1, hc_comp_status := XAF_INIT_DONE\<rparr>))) s1)"
      proof (rule sk_bind)
        fix pool s2 assume m: "?m s1 = Some (Inr pool, s2)"
        then have nz: "pool \<noteq> 0" and s2: "ad_comp s2 = ad_comp s1" by (auto simp: on_proxy_def dest: pool_alloc_nz)
        have "comps_step cs0 ((ad_comp s2)(p := (ad_comp s2 p)\<lparr>hc_outpool := pool, hc_init_done := 1, hc_comp_status := XAF_INIT_DONE\<rparr>))"
          using comps_upd [OF k1, of p "\<lambda>x. x\<lparr>hc_outpool := pool, hc_init_done := 1, hc_comp_status := XAF_INIT_DONE\<rparr>"] nz n s2
          by (simp add: comp_ok_def comp_mono_def is_flag_def)
        then show "sk (comps_step cs0) (hbind (upd_comp p (\<lambda>x. x\<lparr>hc_outpool := pool\<rparr>))
          (\<lambda>_. upd_comp p (\<lambda>x. x\<lparr>hc_init_done := 1, hc_comp_status := XAF_INIT_DONE\<rparr>)) s2)"
          by (intro sk_bind_upd sk_upd) simp
      qed (intro sk_on k1)
      then show "sk (comps_step cs0) (hbind (hbind ?m (\<lambda>pool. upd_comp p (\<lambda>x. x\<lparr>hc_outpool := pool\<rparr>)))
          (\<lambda>_. upd_comp p (\<lambda>x. x\<lparr>hc_init_done := 1, hc_comp_status := XAF_INIT_DONE\<rparr>)) s1)"
        by (rule sk_bind_assoc)
    next
      assume n: "\<not> hc_noutbuf (ad_comp s1 p) \<noteq> 0"
      then show "sk (comps_step cs0) (hbind (hret ()) (\<lambda>_. upd_comp p (\<lambda>x. x\<lparr>hc_init_done := 1, hc_comp_status := XAF_INIT_DONE\<rparr>)) s1)"
        using comps_upd [OF k1, of p "\<lambda>x. x\<lparr>hc_init_done := 1, hc_comp_status := XAF_INIT_DONE\<rparr>"]
        by (intro sk_bind_ret sk_upd) (simp add: comp_ok_def comp_mono_def is_flag_def)
    qed
  qed
qed

lemma comps_updI:
  assumes "comps_step cs0 (ad_comp s)" and "ad_comp s1 = ad_comp s"
    and "comp_ok (ad_comp s p) \<Longrightarrow> comp_ok (f (ad_comp s p)) \<and> comp_mono (ad_comp s p) (f (ad_comp s p))"
  shows "comps_step cs0 ((ad_comp s1)(p := f (ad_comp s1 p)))"
  using comps_upd assms by simp

lemmas comp_defs = comp_ok_def comp_mono_def is_flag_def

lemma start_step:
  assumes k: "comps_step cs0 (ad_comp s)"
  shows "sk (comps_step cs0) (comp_start dev p s)"
proof -
  have i: "sk (comps_step cs0) (hbind (upd_comp p (\<lambda>x. x\<lparr>hc_start_buf := b\<rparr>)) g s1)"
    if "comps_step cs0 (ad_comp s1)" "\<And>s2. comps_step cs0 (ad_comp s2) \<Longrightarrow> sk (comps_step cs0) (g () s2)"
    for b s1 and g :: "unit \<Rightarrow> (unit, 'a) aop"
    using that comps_updI [OF that(1) refl, of p "\<lambda>x. x\<lparr>hc_start_buf := b\<rparr>"]
    by (intro sk_bind_upd) (simp add: comp_defs)
  have j: "sk (comps_step cs0) (hbind (upd_comp p (\<lambda>x. x\<lparr>hc_start_cmd_issued := 1\<rparr>)) g s1)"
    if "comps_step cs0 (ad_comp s1)" "\<And>s2. comps_step cs0 (ad_comp s2) \<Longrightarrow> sk (comps_step cs0) (g () s2)"
    for s1 and g :: "unit \<Rightarrow> (unit, 'a) aop"
    using that comps_updI [OF that(1) refl, of p "\<lambda>x. x\<lparr>hc_start_cmd_issued := 1\<rparr>"]
    by (intro sk_bind_upd) (simp add: comp_defs)
  show ?thesis
    unfolding comp_start_def comp_aux_def
    by (intro sk_bind_get sk_if sk_ret sk_bind_on i j sk_bind_chk post_init_step k) (simp_all add: k)
qed

lemma exec_step:
  assumes k: "comps_step cs0 (ad_comp s)"
  shows "sk (comps_step cs0) (comp_exec dev p s)"
proof -
  have i: "sk (comps_step cs0) (hbind (upd_comp p (\<lambda>x. x\<lparr>hc_exec_cmd_issued := 1\<rparr>)) g s)"
    if "hc_init_done (ad_comp s p) \<noteq> 0" "\<And>s2. comps_step cs0 (ad_comp s2) \<Longrightarrow> sk (comps_step cs0) (g () s2)"
    for g :: "unit \<Rightarrow> (unit, 'a) aop"
    using that comps_updI [OF k refl, of p "\<lambda>x. x\<lparr>hc_exec_cmd_issued := 1\<rparr>"]
    by (intro sk_bind_upd) (simp add: comp_defs)
  have j: "sk (comps_step cs0) (upd_comp p (\<lambda>x. x\<lparr>hc_pending_resp := n\<rparr>) s1)" if "comps_step cs0 (ad_comp s1)" for n s1
    using comps_updI [OF that refl, of p "\<lambda>x. x\<lparr>hc_pending_resp := n\<rparr>"] by (intro sk_upd) (simp add: comp_defs)
  show ?thesis
    unfolding comp_exec_def by (intro sk_bind_get sk_if sk_ret i sk_bind_on j) (simp_all add: k)
qed

lemma input_over_step:
  assumes k: "comps_step cs0 (ad_comp s)"
  shows "sk (comps_step cs0) (comp_input_over dev p s)"
  unfolding comp_input_over_def
  by (intro sk_bind_get sk_if sk_ret sk_bind_on sk_upd k, rule comps_updI [OF k]) (simp_all add: comp_defs)

lemma input_ready_step:
  assumes k: "comps_step cs0 (ad_comp s)"
  shows "sk (comps_step cs0) (comp_input_ready dev p b len s)"
  unfolding comp_input_ready_def
  by (intro sk_bind_get sk_if sk_ret sk_bind_ptr sk_bind_on sk_upd k, rule comps_updI [OF k]) (simp_all add: comp_defs)

lemma need_output_step:
  assumes k: "comps_step cs0 (ad_comp s)"
  shows "sk (comps_step cs0) (comp_need_output dev p b len s)"
  unfolding comp_need_output_def
  by (intro sk_bind_get sk_if sk_ret sk_bind_ptr sk_bind_on sk_upd k, rule comps_updI [OF k]) (simp_all add: comp_defs)

lemma process_step:
  assumes k: "comps_step cs0 (ad_comp s)"
  shows "sk (comps_step cs0) (xaf_comp_process dev adev p b len flag s)"
  unfolding xaf_comp_process_def
  by (intro sk_bind_get sk_if sk_ret sk_bind_ptr sk_bind_if sk_bind_ret sk_bind_range start_step exec_step input_over_step
      input_ready_step need_output_step k)

lemma status_response_step:
  assumes k: "comps_step cs0 (ad_comp s)"
  shows "sk (comps_step cs0) (status_response dev p rmsg s)"
proof -
  have u: "sk (comps_step cs0) (hbind (upd_comp p f) g s1)"
    if "comps_step cs0 (ad_comp s1)" "\<And>C. comp_ok C \<Longrightarrow> comp_ok (f C) \<and> comp_mono C (f C)"
       "\<And>s2. comps_step cs0 (ad_comp s2) \<Longrightarrow> sk (comps_step cs0) (g () s2)"
    for f s1 and g :: "unit \<Rightarrow> ((u64 \<times> u32) option, 'a) aop"
    using that comps_updI [OF that(1) refl, of p f] by (intro sk_bind_upd) simp
  have e: "comp_ok (C\<lparr>hc_pending_resp := n\<rparr>) \<and> comp_mono C (C\<lparr>hc_pending_resp := n\<rparr>)"
    "st \<noteq> XAF_INIT_DONE \<and> st \<noteq> XAF_STARTING \<Longrightarrow> comp_ok (C\<lparr>hc_comp_status := st\<rparr>) \<and> comp_mono C (C\<lparr>hc_comp_status := st\<rparr>)"
    "st \<noteq> XAF_INIT_DONE \<and> st \<noteq> XAF_STARTING \<Longrightarrow>
       comp_ok (C\<lparr>hc_comp_status := st, hc_expect_out_cmd := n\<rparr>) \<and> comp_mono C (C\<lparr>hc_comp_status := st, hc_expect_out_cmd := n\<rparr>)"
    "st \<noteq> XAF_INIT_DONE \<and> st \<noteq> XAF_STARTING \<Longrightarrow>
       comp_ok (C\<lparr>hc_pending_resp := n, hc_comp_status := st\<rparr>) \<and> comp_mono C (C\<lparr>hc_pending_resp := n, hc_comp_status := st\<rparr>)"
    if "comp_ok C" for C n st
    using that by (simp_all add: comp_defs)
  have pi: "sk (comps_step cs0) (hbind (xaf_comp_post_init_config dev p b) (\<lambda>_. hret None) s1)"
    if "comps_step cs0 (ad_comp s1)" for b s1
    by (intro sk_bindP post_init_step sk_ret that)
  show ?thesis
    unfolding status_response_def
    by (intro sk_bind_get sk_if sk_bind_if sk_bind_assoc sk_bind_ret sk_bind_chk pi u k e sk_ret) (simp_all add: e)
qed

lemma get_status_step:
  assumes k: "comps_step cs0 (ad_comp s)"
  shows "sk (comps_step cs0) (xaf_comp_get_status dev adev p p_status p_info s)"
proof -
  have r: "sk (comps_step cs0) (hbind (status_response dev p m) (\<lambda>info. hget (g info)) s1)" if "comps_step cs0 (ad_comp s1)"
    for m s1 and g :: "(u64 \<times> u32) option \<Rightarrow> 'a xaf_adev \<Rightarrow> xaf_comp_status \<times> (u64 \<times> u32) option"
    by (intro sk_bindP status_response_step sk_ret that)
  have n: "comps_step cs0 ((ad_comp s)(p := (ad_comp s p)\<lparr>hc_comp_status := XAF_NEED_INPUT\<rparr>))"
    using comps_updI [OF k refl, of p "\<lambda>x. x\<lparr>hc_comp_status := XAF_NEED_INPUT\<rparr>"] by (simp add: comp_defs)
  show ?thesis
    unfolding xaf_comp_get_status_def
    by (intro sk_bind_ptr sk_bind_get sk_bind_if sk_bind_assoc sk_bind_on sk_bind_ret sk_bind_upd sk_ret r k)
      (simp_all add: k n)
qed

lemma config_step:
  assumes k: "comps_step cs0 (ad_comp s)"
  shows "sk (comps_step cs0) (xaf_comp_set_config dev p num pp ps s)" "sk (comps_step cs0) (xaf_comp_get_config dev p num pp ps s)"
  unfolding xaf_comp_set_config_def xaf_comp_get_config_def comp_aux_def
  by (intro sk_bind_ptr sk_bind_range sk_bind_on sk_if sk_ret sk_bind_chk sk_chk k; simp add: k)+

lemma word_inc: "x \<le> y \<Longrightarrow> x \<noteq> y \<Longrightarrow> x + 1 \<le> (y :: u32)"
  by (simp add: inc_le order.not_eq_order_implies_strict)

lemma connect_step:
  assumes k: "comps_step cs0 (ad_comp s)"
  shows "sk (comps_step cs0) (xaf_connect dev src dst n s)"
proof -
  have "sk (comps_step cs0) (hbind (upd_comp src (\<lambda>x. x\<lparr>hc_out_routed := hc_out_routed x + 1\<rparr>))
      (\<lambda>_. upd_comp dst (\<lambda>x. x\<lparr>hc_inp_routed := hc_inp_routed x + 1\<rparr>)) s1)"
    if s1: "ad_comp s1 = ad_comp s" and c: "hc_out_routed (ad_comp s src) \<noteq> hc_out_ports (ad_comp s src)"
      "hc_inp_routed (ad_comp s dst) \<noteq> hc_inp_ports (ad_comp s dst)" for s1
  proof (rule sk_bind_upd, rule sk_upd)
    fix s2 assume s2: "ad_comp s2 = (ad_comp s1)(src := (ad_comp s1 src)\<lparr>hc_out_routed := hc_out_routed (ad_comp s1 src) + 1\<rparr>)"
    have 1: "comps_step cs0 (ad_comp s2)"
      unfolding s2 by (rule comps_updI [OF k s1]) (use c(1) word_inc in \<open>auto simp: comp_defs\<close>)
    have "hc_inp_routed (ad_comp s2 dst) \<noteq> hc_inp_ports (ad_comp s2 dst)" using c(2) s1 s2 by auto
    then show "comps_step cs0 ((ad_comp s2)(dst := (ad_comp s2 dst)\<lparr>hc_inp_routed := hc_inp_routed (ad_comp s2 dst) + 1\<rparr>))"
      by (intro comps_updI [OF 1 refl]) (use word_inc in \<open>auto simp: comp_defs\<close>)
  qed
  then show ?thesis
    unfolding xaf_connect_def
    by (intro sk_bind_ptr sk_bind_range k sk_bind_get) (auto intro!: sk_bind_chk sk_bind_on simp: k)
qed

lemma disconnect_step: "comps_step cs0 (ad_comp s) \<Longrightarrow> sk (comps_step cs0) (xaf_disconnect dev p s)"
  unfolding xaf_disconnect_def by (intro sk_bind_ptr sk_bind_get sk_bind_chk sk_on)

lemma delete_step:
  assumes k: "comps_step cs0 (ad_comp s)"
  shows "sk (comps_step cs0) (xaf_comp_delete dev p s)"
proof -
  have d: "comps_step cs0 ((ad_comp s)(p := (ad_comp s p)\<lparr>hc_comp_ptr := 0\<rparr>))"
    using comps_updI [OF k refl, of p "\<lambda>x. x\<lparr>hc_comp_ptr := 0\<rparr>"] by (simp add: comp_defs)
  show ?thesis
    unfolding xaf_comp_delete_def
    by (intro sk_bind_ptr sk_bind_get sk_if sk_ret sk_bind_chk sk_bind_hupd sk_bind_if sk_bind_on sk_bind_ret sk_upd k)
      (simp_all add: k d)
qed

section \<open>Creation\<close>

lemma comp_add_effect:
  assumes "xaf_comp_add p s = Some (r, s1)"
  obtains c where "ad_comp s1 = (ad_comp s)(p := (ad_comp s p)\<lparr>hc_next := c\<rparr>)"
proof (cases "(ucast p :: u32) = 0")
  case True
  then have "ad_comp s1 = (ad_comp s)(p := (ad_comp s p)\<lparr>hc_next := hc_next (ad_comp s p)\<rparr>)"
    using assms by (auto simp: xaf_comp_add_def XAF_CHK_PTR_def hrun)
  then show ?thesis by (rule that)
next
  case False
  then have "ad_comp s1 = (ad_comp s)(p := (ad_comp s p)\<lparr>hc_next := ad_comp_chain s\<rparr>)"
    using assms by (auto simp: xaf_comp_add_def XAF_CHK_PTR_def hrun upd_comp_def)
  then show ?thesis by (rule that)
qed

lemma sk_bind_add:
  assumes "\<And>c r s1. ad_comp s1 = (ad_comp s)(p := (ad_comp s p)\<lparr>hc_next := c\<rparr>) \<Longrightarrow> sk P (k r s1)"
  shows "sk P (hbind (htry (xaf_comp_add p)) k s)"
proof -
  have "sk P (k r s1)" if "xaf_comp_add p s = Some (r, s1)" for r s1
    using that by (rule comp_add_effect) (rule assms)
  then show ?thesis by (auto simp: sk_def hbind_def htry_def split: option.splits)
qed

definition comps_kept :: "(u64 \<Rightarrow> xaf_comp) \<Rightarrow> (u64 \<Rightarrow> xaf_comp) \<Rightarrow> bool" where
  "comps_kept cs cs' \<longleftrightarrow> (\<forall>q. comp_ok (cs q) \<longrightarrow> comp_ok (cs' q))"

lemma comps_kept_upd: "comps_kept cs0 cs \<Longrightarrow> comp_ok X \<Longrightarrow> comps_kept cs0 (cs(p := X))"
  by (simp add: comps_kept_def)

lemma comps_step_kept: "comps_step cs cs' \<Longrightarrow> comps_kept cs cs'"
  by (simp add: comps_step_def comps_kept_def)

lemma small_range: "0 \<le> sint (v :: u32) \<and> sint v \<le> of_nat n \<Longrightarrow> n < 2 ^ 31 \<Longrightarrow> v \<le> of_nat n"
proof -
  assume v: "0 \<le> sint v \<and> sint v \<le> of_nat n" and n: "n < 2 ^ 31"
  have "uint v = sint v" using v by (simp add: uint_sint take_bit_int_eq_self less_le_trans [OF sint_lt])
  then have "unat v \<le> n" using v by (simp add: unat_eq_nat_uint nat_le_iff)
  moreover have "unat (of_nat n :: u32) = n" using n by (simp add: unsigned_of_nat take_bit_nat_eq_self)
  ultimately show "v \<le> of_nat n" by (simp add: word_le_nat_alt)
qed

text \<open>What a component is when it has been created, and on the way there.\<close>

definition comp_new :: "xaf_comp \<Rightarrow> bool" where
  "comp_new C \<longleftrightarrow> comp_ok C \<and> hc_init_done C = 0 \<and> hc_start_cmd_issued C = 0 \<and> hc_exec_cmd_issued C = 0 \<and>
     hc_input_over C = 0 \<and> hc_pending_resp C = 0 \<and> hc_comp_status C = XAF_STARTING"

lemma new_comp_ok:
  "n \<le> 1 \<Longrightarrow> m \<le> 2 \<Longrightarrow> comp_new (comp_ports t (no_comp\<lparr>hc_next := c, hc_p_adev := a, hc_ninbuf := m, hc_inpool := i, hc_noutbuf := n,
     hc_comp_type := t, hc_comp_status := XAF_STARTING\<rparr>))"
  "n \<le> 1 \<Longrightarrow> m \<le> 2 \<Longrightarrow> comp_new (comp_ports t (no_comp\<lparr>hc_next := c, hc_p_adev := a, hc_ninbuf := m, hc_noutbuf := n,
     hc_comp_type := t, hc_comp_status := XAF_STARTING\<rparr>))"
  "comp_ok no_comp" "comp_ok (no_comp\<lparr>hc_next := c\<rparr>)" "comp_ok (no_comp\<lparr>hc_next := c, hc_p_adev := a\<rparr>)"
  "m \<le> 2 \<Longrightarrow> comp_ok (no_comp\<lparr>hc_next := c, hc_p_adev := a, hc_ninbuf := m\<rparr>)"
  "m \<le> 2 \<Longrightarrow> comp_ok (no_comp\<lparr>hc_next := c, hc_p_adev := a, hc_ninbuf := m, hc_inpool := i\<rparr>)"
  by (simp_all add: comp_new_def comp_ok_def is_flag_def no_comp_def comp_ports_def)

lemma create_step:
  "sk (comps_kept (ad_comp s)) (xaf_comp_create dev adev pp i0 i ninbuf noutbuf ppi t s)"
proof -
  have k: "comps_kept (ad_comp s) (ad_comp s)" by (simp add: comps_kept_def)
  have r: "ninbuf \<le> 2" if "0 \<le> sint ninbuf \<and> sint ninbuf \<le> XAF_MAX_INBUFS"
    using small_range [of ninbuf 2] that by (simp add: xaf_consts)
  have r': "noutbuf \<le> 1" if "0 \<le> sint noutbuf \<and> sint noutbuf \<le> 1"
    using small_range [of noutbuf 1] that by simp
  show ?thesis
    unfolding xaf_comp_create_def Let_def
    by (intro sk_bind_ptr sk_bind_if sk_bind_ret sk_bind_range sk_bind_on sk_bind_upd sk_bind_hupd sk_bind_add sk_bind_assoc sk_ret k;
        simp add: k r r' comps_kept_upd new_comp_ok new_comp_ok(1,2) [unfolded comp_new_def, THEN conjunct1])
qed

text \<open>The same for the calls that succeed: what holds of the value and the components.\<close>

definition skx :: "('a \<Rightarrow> (u64 \<Rightarrow> xaf_comp) \<Rightarrow> bool) \<Rightarrow> ((int + 'a) \<times> 'w xaf_adev) option \<Rightarrow> bool" where
  "skx P res \<longleftrightarrow> (\<forall>x s'. res = Some (Inr x, s') \<longrightarrow> P x (ad_comp s'))"

lemma skx_ret: "P x (ad_comp s) \<Longrightarrow> skx P (hret x s)"
  by (simp add: skx_def hrun)

lemma skx_bind: "(\<And>x s1. m s = Some (Inr x, s1) \<Longrightarrow> skx P (k x s1)) \<Longrightarrow> skx P (hbind m k s)"
  by (auto simp: skx_def hbind_def split: option.splits sum.splits)

lemma skx_on: "(\<And>x s1. ad_comp s1 = ad_comp s \<Longrightarrow> skx P (k x s1)) \<Longrightarrow> skx P (hbind (on_proxy m) k s)"
  by (rule skx_bind) (auto simp: on_proxy_def)

lemma skx_upd: "(\<And>s1. ad_comp s1 = (ad_comp s)(p := f (ad_comp s p)) \<Longrightarrow> skx P (k () s1)) \<Longrightarrow> skx P (hbind (upd_comp p f) k s)"
  by (rule skx_bind) (auto simp: upd_comp_def hrun)

lemma skx_hupd: "(\<And>s1. ad_comp s1 = ad_comp (f s) \<Longrightarrow> skx P (k () s1)) \<Longrightarrow> skx P (hbind (hupd f) k s)"
  by (rule skx_bind) (auto simp: hrun)

lemma skx_range: "(lo \<le> sint v \<and> sint v \<le> hi \<Longrightarrow> skx P (k () s)) \<Longrightarrow> skx P (hbind (XAF_CHK_RANGE v lo hi) k s)"
  by (rule skx_bind) (auto simp: XAF_CHK_RANGE_def hrun split: if_splits)

lemma skx_ptr: "skx P (k () s) \<Longrightarrow> skx P (hbind (XAF_CHK_PTR q) k s)"
  by (rule skx_bind) (auto simp: XAF_CHK_PTR_def hrun split: if_splits)

lemma skx_bind_ret: "skx P (k x s) \<Longrightarrow> skx P (hbind (hret x) k s)"
  by (simp add: skx_def hrun)

lemma skx_assoc: "skx P (hbind m (\<lambda>x. hbind (k x) l) s) \<Longrightarrow> skx P (hbind (hbind m k) l s)"
  by (simp add: hbind_assoc)

lemma skx_if: "(c \<Longrightarrow> skx P (hbind a k s)) \<Longrightarrow> (\<not> c \<Longrightarrow> skx P (hbind b k s)) \<Longrightarrow> skx P (hbind (if c then a else b) k s)"
  by simp

lemma skx_add:
  assumes "\<And>c r s1. ad_comp s1 = (ad_comp s)(p := (ad_comp s p)\<lparr>hc_next := c\<rparr>) \<Longrightarrow> skx P (k r s1)"
  shows "skx P (hbind (htry (xaf_comp_add p)) k s)"
proof -
  have "skx P (k r s1)" if "xaf_comp_add p s = Some (r, s1)" for r s1
    using that by (rule comp_add_effect) (rule assms)
  then show ?thesis by (auto simp: skx_def hbind_def htry_def split: option.splits)
qed

lemma create_result:
  "skx (\<lambda>(p, bs) cs. comp_new (cs p)) (xaf_comp_create dev adev pp i0 i ninbuf noutbuf ppi t s)"
proof -
  have r: "ninbuf \<le> 2" if "0 \<le> sint ninbuf \<and> sint ninbuf \<le> XAF_MAX_INBUFS"
    using small_range [of ninbuf 2] that by (simp add: xaf_consts)
  have r': "noutbuf \<le> 1" if "0 \<le> sint noutbuf \<and> sint noutbuf \<le> 1"
    using small_range [of noutbuf 1] that by simp
  show ?thesis
    unfolding xaf_comp_create_def Let_def
    by (intro skx_ptr skx_if skx_bind_ret skx_range skx_on skx_upd skx_hupd skx_add skx_assoc skx_ret;
        simp add: r r' new_comp_ok)
qed

section \<open>Histories of calls\<close>

text \<open>The calls on components, by any application; a call returns a code or a value, which histories do not use.\<close>

datatype api_call =
    ApiCreate u64 u64 u64 "u8 list" u32 u32 u64 u32
  | ApiProcess u64 u64 u64 u32 u32
  | ApiStatus u64 u64 u64 u64
  | ApiSetConfig u64 u32 u64 "u32 list"
  | ApiGetConfig u64 u32 u64 "u32 list"
  | ApiConnect u64 u64 u32
  | ApiDisconnect u64
  | ApiDelete u64

fun api_step :: "'w xf_device \<Rightarrow> api_call \<Rightarrow> 'w xaf_adev \<Rightarrow> 'w xaf_adev option" where
  "api_step dev (ApiCreate adev pp i0 i n m ppi t) s = map_option snd (xaf_comp_create dev adev pp i0 i n m ppi t s)"
| "api_step dev (ApiProcess adev p b len flag) s = map_option snd (xaf_comp_process dev adev p b len flag s)"
| "api_step dev (ApiStatus adev p ps pinfo) s = map_option snd (xaf_comp_get_status dev adev p ps pinfo s)"
| "api_step dev (ApiSetConfig p n pp xs) s = map_option snd (xaf_comp_set_config dev p n pp xs s)"
| "api_step dev (ApiGetConfig p n pp xs) s = map_option snd (xaf_comp_get_config dev p n pp xs s)"
| "api_step dev (ApiConnect p q n) s = map_option snd (xaf_connect dev p q n s)"
| "api_step dev (ApiDisconnect p) s = map_option snd (xaf_disconnect dev p s)"
| "api_step dev (ApiDelete p) s = map_option snd (xaf_comp_delete dev p s)"

fun api_run :: "'w xf_device \<Rightarrow> api_call list \<Rightarrow> 'w xaf_adev \<Rightarrow> 'w xaf_adev option" where
  "api_run dev [] s = Some s"
| "api_run dev (c # cs) s = Option.bind (api_step dev c s) (api_run dev cs)"

definition is_create :: "api_call \<Rightarrow> bool" where
  "is_create c \<longleftrightarrow> (\<exists>adev pp i0 i n m ppi t. c = ApiCreate adev pp i0 i n m ppi t)"

lemma skD: "sk P res \<Longrightarrow> res = Some (r, s') \<Longrightarrow> P (ad_comp s')"
  by (auto simp: sk_def)

lemma api_step_comps:
  assumes "api_step dev c s = Some s'"
  shows "comps_kept (ad_comp s) (ad_comp s')" and "\<not> is_create c \<Longrightarrow> comps_step (ad_comp s) (ad_comp s')"
proof -
  note k = comps_refl [of "ad_comp s"]
  show st: "comps_step (ad_comp s) (ad_comp s')" if "\<not> is_create c"
    using assms that
    by (cases c)
      (auto simp: is_create_def dest: skD [OF process_step [OF k]] skD [OF get_status_step [OF k]]
         skD [OF config_step(1) [OF k]] skD [OF config_step(2) [OF k]] skD [OF connect_step [OF k]]
         skD [OF disconnect_step [OF k]] skD [OF delete_step [OF k]])
  show "comps_kept (ad_comp s) (ad_comp s')"
  proof (cases "is_create c")
    case True
    then show ?thesis using assms by (auto simp: is_create_def dest: skD [OF create_step])
  qed (use st comps_step_kept in blast)
qed

lemma api_run_comps:
  assumes "api_run dev cs s = Some s'"
  shows "comps_kept (ad_comp s) (ad_comp s')" and "\<forall>c\<in>set cs. \<not> is_create c \<Longrightarrow> comps_step (ad_comp s) (ad_comp s')"
proof -
  have "comps_kept (ad_comp s) (ad_comp s') \<and> ((\<forall>c\<in>set cs. \<not> is_create c) \<longrightarrow> comps_step (ad_comp s) (ad_comp s'))"
    using assms
  proof (induction cs arbitrary: s)
    case Nil
    then show ?case using comps_refl by (auto simp: comps_kept_def)
  next
    case (Cons c cs)
    then obtain s1 where 1: "api_step dev c s = Some s1" "api_run dev cs s1 = Some s'" by (auto split: option.splits simp: bind_eq_Some_conv)
    then show ?case
      using api_step_comps [OF 1(1)] Cons.IH [OF 1(2)] comps_trans by (fastforce simp: comps_kept_def)
  qed
  then show "comps_kept (ad_comp s) (ad_comp s')" "\<forall>c\<in>set cs. \<not> is_create c \<Longrightarrow> comps_step (ad_comp s) (ad_comp s')" by blast+
qed

section \<open>Opening the device\<close>

text \<open>A platform on which the device opens: memory is found and the system calls succeed, the shared range is mapped at
  \<open>sh\<close>, and the DSP grants the 4096 bytes of the auxiliary pool.\<close>

definition platform_ok :: "'w xf_device \<Rightarrow> u64 \<Rightarrow> bool" where
  "platform_ok dev sh \<longleftrightarrow>
     (\<forall>n i w. (ucast (fst (dev_malloc dev n i w)) :: u32) \<noteq> 0 \<and> unat (fst (dev_malloc dev n i w)) + unat n + 3 < 2 ^ 64) \<and>
     (\<forall>w. fst (dev_open dev w) = 0 \<and> fst (dev_pipe dev w) = 0 \<and> fst (dev_thread dev w) = 0) \<and>
     (\<forall>w. \<exists>w'. dev_mmap dev w = (0, sh, w')) \<and> sh \<noteq> 0 \<and> unat sh + unat XF_CFG_REMOTE_IPC_POOL_SIZE < 2 ^ 64 \<and>
     (\<forall>m mem w. p_opcode m = XF_ALLOC \<and> p_length m \<le> 4096 \<longrightarrow> (\<exists>r mem' w' a. dev_run dev mem (dev_send dev m mem w) = ([r], mem', w') \<and>
        msg_client r = 0 \<and> p_opcode r = XF_ALLOC \<and> p_address r = ucast a \<and> a < XF_CFG_REMOTE_IPC_POOL_SIZE \<and>
        unat a + unat (p_length m) \<le> unat XF_CFG_REMOTE_IPC_POOL_SIZE))"

lemma ipc_open_ok:
  assumes "platform_ok dev sh"
  shows "\<exists>w. xf_ipc_open dev h = Some (Inr (), h\<lparr>hs_pipe := [], hs_shmem := sh, hs_dev := w\<rparr>)"
proof -
  obtain w1 where 1: "dev_open dev (hs_dev h) = (0, w1)" using assms unfolding platform_ok_def by (metis prod.collapse)
  obtain w2 where 2: "dev_pipe dev w1 = (0, w2)" using assms unfolding platform_ok_def by (metis prod.collapse)
  obtain w3 where 3: "dev_mmap dev w2 = (0, sh, w3)" using assms unfolding platform_ok_def by blast
  show ?thesis using 1 2 3 by (intro exI [of _ w3]) (simp add: xf_ipc_open_def hrun)
qed

lemma proxy_init_ok:
  assumes "platform_ok dev sh" and "hs_rx h = []"
  shows "\<exists>w. xf_proxy_init dev core h = Some (Inr (), h\<lparr>hs_pipe := [], hs_shmem := sh, hs_core := core,
     hs_cmap := xf_cmap_link 255 0 (hs_cmap h), hs_thread := True, hs_dev := w\<rparr>)"
proof -
  obtain w where 1: "xf_ipc_open dev h = Some (Inr (), h\<lparr>hs_pipe := [], hs_shmem := sh, hs_dev := w\<rparr>)"
    using ipc_open_ok [OF assms(1)] by blast
  obtain w1 where 2: "dev_thread dev w = (0, w1)" using assms(1) unfolding platform_ok_def by (metis prod.collapse)
  have n: "unat (XF_CFG_PROXY_MAX_CLIENTS - 1) = 255" by (simp add: XF_CFG_PROXY_MAX_CLIENTS_def)
  show ?thesis using 1 2 by (intro exI [of _ w1]) (simp add: xf_proxy_init_def n hrun)
qed

lemma shared_b2a:
  assumes "unat b = unat (hs_shmem h) + n" and "n < unat XF_CFG_REMOTE_IPC_POOL_SIZE"
  shows "xf_ipc_b2a_host b h \<noteq> XF_PROXY_BADADDR"
proof -
  have n: "n < 2 ^ 32" using assms(2) by (simp add: XF_CFG_REMOTE_IPC_POOL_SIZE_def)
  have "of_nat (unat b) = of_nat (unat (hs_shmem h)) + (of_nat n :: u64)" unfolding assms(1) by (rule of_nat_add)
  then have "b - hs_shmem h = of_nat n" by simp
  then have "ucast (b - hs_shmem h) = (of_nat n :: u32)"
    by (simp only:) (simp add: word_unat_eq_iff unsigned_ucast_eq unsigned_of_nat)
  moreover have "(of_nat n :: u32) < XF_CFG_REMOTE_IPC_POOL_SIZE"
    using assms(2) n by (simp add: word_less_nat_alt unsigned_of_nat take_bit_nat_eq_self)
  ultimately show ?thesis using null_ok by (auto simp: xf_ipc_b2a_host_def XF_PROXY_BADADDR_def)
qed

lemma adev_cleared_dev [simp]: "hs_dev (ad_proxy (adev_cleared p s)) = hs_dev (ad_proxy s)"
  by (simp add: adev_cleared_def Let_def)

lemma align4_nz:
  assumes "p \<noteq> 0" and "unat p + 3 < 2 ^ 64"
  shows "align4 p \<noteq> 0"
proof
  assume z: "align4 p = 0"
  have "(p + 3) div 4 = 0"
  proof -
    have "drop_bit 2 (p + 3) = drop_bit 2 ((p + 3) AND NOT (mask 2))"
      by (rule bit_word_eqI) (auto simp: bit_simps dest: bit_imp_le_length)
    moreover have "mask 2 = (3 :: u64)" by (simp add: mask_eq_exp_minus_1)
    ultimately show ?thesis using z by (simp add: align4_def drop_bit_eq_div)
  qed
  then have "unat ((p + 3) div 4) = 0" by simp
  then have "unat (p + 3) div 4 = 0" by (simp only: unat_div unsigned_numeral) simp
  moreover have "unat (p + 3) = unat p + 3" using assms(2) by (simp add: unat_word_ariths)
  moreover have "0 < unat p" using assms(1) by (simp add: unat_gt_0)
  ultimately show False by simp
qed

lemma device_opens:
  assumes P: "platform_ok dev sh" and rx: "hs_rx (ad_proxy s) = []"
    and args: "(ucast pp :: u32) \<noteq> 0" "(ucast f1 :: u32) \<noteq> 0" "(ucast f2 :: u32) \<noteq> 0"
  shows "\<exists>p s' aux. xaf_adev_open dev pp n f1 f2 s = Some (Inr p, s') \<and>
    host_state (ad_proxy s') (pool_buffers aux 32, {}) (all_numbers, \<lambda>_. None) \<and> hp_length (hs_pool (ad_proxy s') aux) = 128 \<and>
    (\<forall>b\<in>set (pool_buffers aux 32). xf_ipc_b2a_host (hb_address (hs_buf (ad_proxy s') b)) (ad_proxy s') \<noteq> XF_PROXY_BADADDR) \<and>
    hs_aux (ad_proxy s') = aux \<and> hs_self (ad_proxy s') = p \<and> ad_comp s' = ad_comp s"
proof -
  have al: "\<exists>q w'. dev_malloc dev k i w = (q, w') \<and> (ucast q :: u32) \<noteq> 0 \<and> unat q + unat k + 3 < 2 ^ 64" for k i w
    using P unfolding platform_ok_def by (metis prod.collapse)
  obtain p1 w1 where 1: "dev_malloc dev (dev_sizeof_adev dev + 3) XAF_MEM_ID_DEV (hs_dev (ad_proxy s)) = (p1, w1)" "(ucast p1 :: u32) \<noteq> 0"
    "unat p1 + unat (dev_sizeof_adev dev + 3) + 3 < 2 ^ 64"
    using al by blast
  have p1: "align4 p1 \<noteq> 0" by (rule align4_nz) (use 1(2,3) in auto)
  obtain p2 w2 where 2: "dev_malloc dev (20 + 7) XAF_MEM_ID_DEV w1 = (p2, w2)" "(ucast p2 :: u32) \<noteq> 0" using al by blast
  let ?s1 = "(adev_cleared (align4 p1) (s\<lparr>ad_proxy := (ad_proxy s)\<lparr>hs_dev := w1\<rparr>\<rparr>))\<lparr>ad_adev_ptr := p1\<rparr>"
  let ?s2 = "?s1\<lparr>ad_proxy := (ad_proxy ?s1)\<lparr>hs_dev := w2\<rparr>, ad_ap_utils := p2, ad_ipc_pool_size := n\<rparr>"
  let ?h = "ad_proxy ?s2"
  have "hs_rx ?h = []" using rx by (simp add: adev_cleared_def Let_def)
  from proxy_init_ok [OF P this, of 0] obtain w3 where
    3: "xf_proxy_init dev 0 ?h = Some (Inr (), ?h\<lparr>hs_pipe := [], hs_shmem := sh, hs_core := 0,
          hs_cmap := xf_cmap_link 255 0 (hs_cmap ?h), hs_thread := True, hs_dev := w3\<rparr>)" by blast
  let ?h3 = "?h\<lparr>hs_pipe := [], hs_shmem := sh, hs_core := 0, hs_cmap := xf_cmap_link 255 0 (hs_cmap ?h), hs_thread := True, hs_dev := w3\<rparr>"
  have I: "host_idle ?h3" using rx by (simp add: host_idle_def adev_cleared_def Let_def)
  have sz: "(32 + 32 * 16 :: u32) = 544" by simp
  obtain p4 w4 where 4: "dev_malloc dev (32 + 32 * 16) XAF_MEM_ID_DEV (hs_dev ?h3) = (p4, w4)" "(ucast p4 :: u32) \<noteq> 0"
    "unat p4 + unat (32 + 32 * 16 :: u32) + 3 < 2 ^ 64" using al by blast
  have p4: "p4 \<noteq> 0" "unat p4 + 32 + 16 * unat (32 :: u32) < 2 ^ 64" using 4(2,3) by auto
  have L: "pool_buf_length 128 = 128" by (simp add: pool_buf_length_def XF_PROXY_ALIGNMENT_host_def)
  let ?req = "alloc_request ?h3 (32 * pool_buf_length 128)"
  obtain r mem w5 a where 5: "dev_run dev (hs_mem ?h3) (dev_send dev (cmd_message (?h3\<lparr>hs_dev := w4\<rparr>) ?req) (hs_mem ?h3) w4) = ([r], mem, w5)"
    "msg_client r = 0" "p_opcode r = XF_ALLOC" "p_address r = ucast a" "a < XF_CFG_REMOTE_IPC_POOL_SIZE"
    "unat a + unat (32 * pool_buf_length 128) \<le> unat XF_CFG_REMOTE_IPC_POOL_SIZE"
  proof -
    have "p_opcode (cmd_message (?h3\<lparr>hs_dev := w4\<rparr>) ?req) = XF_ALLOC" "p_length (cmd_message (?h3\<lparr>hs_dev := w4\<rparr>) ?req) = 32 * pool_buf_length 128"
      by (simp_all add: cmd_message_def alloc_request_def)
    moreover have "32 * pool_buf_length 128 \<le> 4096" by (simp add: L)
    ultimately show thesis using P that unfolding platform_ok_def by metis
  qed
  have ans: "dev_answers dev (?h3\<lparr>hs_dev := w4\<rparr>) ?req r mem w5" using 5(1,2) by (simp add: dev_answers_def msg_client_def)
  have fit: "unat a + unat (32 :: u32) * unat (pool_buf_length 128) \<le> unat XF_CFG_REMOTE_IPC_POOL_SIZE" using 5(6) by (simp add: L)
  have sh: "unat (hs_shmem ?h3) + unat XF_CFG_REMOTE_IPC_POOL_SIZE < 2 ^ 64" "hs_shmem ?h3 \<noteq> 0"
    using P by (simp_all add: platform_ok_def)
  obtain h' where h': "xf_pool_alloc dev 32 128 XAF_MEM_ID_DEV ?h3 = Some (Inr p4, h')"
    "pool_state p4 h' (pool_buffers p4 32, {})" "hp_length (hs_pool h' p4) = pool_buf_length 128"
    "\<forall>k<unat (32 :: u32). unat (hb_address (hs_buf h' (pool_buffer p4 k))) = unat (hs_shmem ?h3) + unat a + k * unat (pool_buf_length 128)"
    "h' = ?h3\<lparr>hs_mem := mem, hs_dev := w5, hs_pool := hs_pool h', hs_buf := hs_buf h'\<rparr>"
    using pool_alloc_layout [OF I _ _ 4(1) p4 ans 5(3,4,5) fit sh] by auto
  let ?s' = "?s2\<lparr>ad_proxy := h'\<lparr>hs_aux := p4\<rparr>\<rparr>"
  have f: "hs_cmap h' = xf_cmap_link 255 0 (hs_cmap ?h)" "host_idle (h'\<lparr>hs_aux := p4\<rparr>)" "hs_shmem h' = sh" "hs_self h' = align4 p1"
    by (subst h'(5), use I in \<open>simp add: host_idle_def adev_cleared_def Let_def\<close>)+
  have "cmap_state (h'\<lparr>hs_aux := p4\<rparr>) (all_numbers, \<lambda>_. None)" by (rule new_map_state [of _ "hs_cmap ?h"]) (simp add: f(1))
  moreover have "pool_state p4 (h'\<lparr>hs_aux := p4\<rparr>) (pool_buffers p4 32, {})" by (rule pool_same [OF h'(2)]) simp_all
  ultimately have st: "host_state (h'\<lparr>hs_aux := p4\<rparr>) (pool_buffers p4 32, {}) (all_numbers, \<lambda>_. None)"
    using f(2-4) p1 sh by (simp add: host_state_def shmem_ok_def)
  have adr: "xf_ipc_b2a_host (hb_address (hs_buf h' b)) (h'\<lparr>hs_aux := p4\<rparr>) \<noteq> XF_PROXY_BADADDR" if "b \<in> set (pool_buffers p4 32)" for b
  proof -
    have "b \<in> pool_buffer p4 ` {0 ..< unat (32 :: u32)}" using that by (simp only: pool_buffers_def set_map set_upt)
    then obtain k where "k \<in> {0 ..< unat (32 :: u32)}" "b = pool_buffer p4 k" by blast
    then have k: "k < 32" "b = pool_buffer p4 k" by simp_all
    have "unat (hb_address (hs_buf h' b)) = unat (hs_shmem (h'\<lparr>hs_aux := p4\<rparr>)) + (unat a + k * 128)"
      using h'(4) k f(3) L by simp
    then show ?thesis by (rule shared_b2a) (use 5(6) k(1) L in simp)
  qed
  have "xaf_adev_open dev pp n f1 f2 s = Some (Inr (align4 p1), ?s')"
    using 1(1,2) 2 3 h'(1) args
    by (simp add: xaf_adev_open_def XAF_CHK_PTR_def hrun on_proxy_def xaf_consts)
  then show ?thesis
    using st adr f(4) h'(3) L by (intro exI [of _ "align4 p1"] exI [of _ ?s'] exI [of _ p4]) (simp add: adev_cleared_def Let_def)
qed

section \<open>Properties\<close>

text \<open>Opening the audio device on a platform whose allocator and system calls succeed and whose DSP grants 4096 bytes returns
  the device: the thread runs, all 255 client numbers are free, and the auxiliary pool has its 32 buffers
  of 128 bytes, all free and in the shared range, so components can be opened on it.\<close>

theorem host_device_opens:
  assumes "platform_ok dev sh" and "hs_rx (ad_proxy s) = []"
    and "(ucast pp :: u32) \<noteq> 0" and "(ucast f1 :: u32) \<noteq> 0" and "(ucast f2 :: u32) \<noteq> 0"
  shows "\<exists>p s' aux. xaf_adev_open dev pp n f1 f2 s = Some (Inr p, s') \<and>
    host_state (ad_proxy s') (pool_buffers aux 32, {}) (all_numbers, \<lambda>_. None) \<and> hp_length (hs_pool (ad_proxy s') aux) = 128 \<and>
    (\<forall>b\<in>set (pool_buffers aux 32). xf_ipc_b2a_host (hb_address (hs_buf (ad_proxy s') b)) (ad_proxy s') \<noteq> XF_PROXY_BADADDR) \<and>
    hs_aux (ad_proxy s') = aux \<and> hs_self (ad_proxy s') = p \<and> ad_comp s' = ad_comp s"
  by (rule device_opens [OF assms])

definition grant_device :: "u32 xf_device" where
  "grant_device = ack_device\<lparr>dev_run := (\<lambda>mem w. ([\<lparr>p_session_id = 0x80008000, p_opcode = w, p_length = 0,
     p_address = (if w = XF_ALLOC then 0 else ucast XF_PROXY_NULL), p_v_address = 0\<rparr>], mem, w))\<rparr>"

definition adev_demo :: "u32 xaf_adev" where
  "adev_demo = \<lparr>ad_proxy = client_demo, ad_comp = (\<lambda>_. no_comp), ad_comp_chain = 0, ad_n_comp = 0, ad_adev_ptr = 0,
     ad_ap_utils = 0, ad_ipc_pool_size = 0\<rparr>"

lemma grant_ok: "platform_ok grant_device 65536"
proof -
  have "XF_AP_CLIENT 0x80008000 = 0" by (simp add: XF_AP_CLIENT_def)
  moreover have "(0 :: u64) = ucast (0 :: u32)" by simp
  ultimately show ?thesis
    unfolding platform_ok_def
    by (intro conjI allI impI)
      (auto simp: grant_device_def ack_device_def msg_client_def XF_CFG_REMOTE_IPC_POOL_SIZE_def word_le_nat_alt
        less_trans [OF add_strict_left_mono [OF unsigned_less]] intro!: exI [of _ "0 :: u32"])
qed

theorem host_device_opens_witness:
  "\<exists>p s'. xaf_adev_open grant_device 8 0 8 8 adev_demo = Some (Inr p, s') \<and>
     host_state (ad_proxy s') (pool_buffers (hs_aux (ad_proxy s')) 32, {}) (all_numbers, \<lambda>_. None)"
proof -
  have "hs_rx (ad_proxy adev_demo) = []" by (simp add: adev_demo_def client_demo_def)
  from host_device_opens [OF grant_ok this, of 8 8 8 0] show ?thesis by auto
qed

text \<open>What holds of a component created by the library after any further calls on any components, whatever the DSP answers: the
  flags are 0 or 1; executing implies initialised; the status is that of its stage; the output pool
  exists exactly when the component is initialised and has output buffers; it never has more
  connections than ports. As long as no new component is created, no flag goes back and type, ports and input pool
  stay. And the pointer that deletion passes to the allocator is NULL, so the memory of a component is never freed.\<close>

theorem host_component_typed:
  assumes create: "xaf_comp_create dev adev pp i0 i n m ppi t s = Some (Inr (p, bs), s1)"
    and run: "api_run dev calls s1 = Some s2"
  shows "comp_new (ad_comp s1 p) \<and> comp_ok (ad_comp s2 p) \<and>
    ((\<forall>c\<in>set calls. \<not> is_create c) \<longrightarrow> comp_mono (ad_comp s1 p) (ad_comp s2 p))"
proof -
  have new: "comp_new (ad_comp s1 p)"
    using create create_result [of dev adev pp i0 i n m ppi t s] by (auto simp: skx_def)
  then have "comp_ok (ad_comp s1 p)" by (simp add: comp_new_def)
  then show ?thesis
    using new api_run_comps [OF run] by (auto simp: comps_kept_def comps_step_def)
qed

definition create_demo :: "u32 xaf_adev" where
  "create_demo = adev_demo\<lparr>ad_proxy := client_demo\<lparr>hs_cmap := (\<lambda>_. 1)\<rparr>\<rparr>"

lemma create_demo_returns:
  "\<exists>s1. xaf_comp_create ack_device 1024 8 8 [112] 0 0 0 2 create_demo = Some (Inr (4096, []), s1)"
  by (simp add: xaf_comp_create_def XAF_CHK_PTR_def XAF_CHK_RANGE_def xaf_consts hrun on_proxy_def upd_comp_def create_demo_def adev_demo_def
      client_demo_def ack_device_def xf_open_def xf_buffer_get_def upd_pool_def upd_buf_def upd_handle_def xf_ipc_data_init_def
      xf_client_alloc_host_def cmap_next_def cmap_set_next_def xf_client_register_host_def xf_handle_aux_def xf_buffer_length_def
      xf_proxy_cmd_exec_def xf_ipc_b2a_host_def XF_CFG_REMOTE_IPC_POOL_SIZE_def XF_PROXY_BADADDR_def xf_ipc_send_def
      xf_proxy_response_get_def xf_wait_pipe_def xf_proxy_thread_def xf_ipc_recv_def xf_ipc_a2b_host_def XF_PROXY_NULL_def
      xf_proxy_dispatch_def XF_AP_CLIENT_def xf_proxy_response_put_def xaf_comp_add_def align4_def ucast_back Let_def)

theorem host_component_typed_witness:
  "\<exists>s1 s2. xaf_comp_create ack_device 1024 8 8 [112] 0 0 0 2 create_demo = Some (Inr (4096, []), s1) \<and>
     api_run ack_device [ApiStatus 1024 4096 8 8] s1 = Some s2 \<and> comp_ok (ad_comp s2 4096) \<and>
     comp_mono (ad_comp s1 4096) (ad_comp s2 4096)"
proof -
  obtain s1 where s1: "xaf_comp_create ack_device 1024 8 8 [112] 0 0 0 2 create_demo = Some (Inr (4096, []), s1)"
    using create_demo_returns by blast
  have "comp_new (ad_comp s1 4096)" using create_result [of ack_device 1024 8 8 "[112]" 0 0 0 2 create_demo] s1 by (auto simp: skx_def)
  then have "api_run ack_device [ApiStatus 1024 4096 8 8] s1 = Some s1"
    by (simp add: comp_new_def xaf_comp_get_status_def XAF_CHK_PTR_def hrun)
  from host_component_typed [OF s1 this] this s1 show ?thesis by (auto simp: is_create_def)
qed

end
