(* ===== verification/Spec2Isabelle.thy ===== *)
theory Spec2Isabelle
  imports XF_Sched XF_Shmem_Sys XF_Service XF_Io_Flow XA_Params XA_System XH_Api_Inv
begin

text \<open>
  A verification library for the audio framework of the HiKey boards: the part that runs on the HiFi DSP
  (\<open>src/hifi/xaf/hifi-dpf\<close>, HiFi DPF; the names of files below are relative to it) and the proxy library through which
  applications on the host use it (\<open>src/hifi/xaf/host-apf\<close>).

  \<^bold>\<open>The program.\<close> A host sends commands through a ring in shared memory. The core of the framework takes
  them from there (core/xf-shmem.c), dispatches them by their message id (core/xf-core.c) to the proxy,
  which registers and removes components and hands out shared buffers, or to a component, and runs the
  scheduler between messages (core/xf-sched.c). A component has ports (core/xf-io.c) and is an instance
  of a class (audio/xa-class-base.c with the derived audio codec and mixer classes), which drives a plugin
  (plugins/cadence) through a table of commands. Every message is answered once, by sending it back.
  Everything is allocated from one pool of the memory allocator (core/xf-mem.c), which, as the
  scheduler, is built on the red-black tree library (core/util/rbtree.c). On the host, the proxy library
  (host-apf/proxy) numbers the components, keeps pools of shared buffers, sends the commands through a kernel
  driver and distributes the responses, which a thread receives; on it stands the component interface
  of the applications (proxy/xaf-api.c).

  \<^bold>\<open>Theories.\<close> The prefix XF is the framework, XA the component classes, XP the plugins, XH the host.

  \<^item> XF_Prelude: machine types (u8, u16, u32 and addresses are words), lemma collections, generic lemmas.

  \<^item> Red-black trees (core/util/rbtree.c, include/lib/rbtree.h). XF_Rbtree: every function on a heap of
    nodes whose parent word holds the colour in its lowest bit; a function per label of the two rebalancing
    loops, the loops and walks as \<open>partial_function (option)\<close>, so that not returning is a value. XF_Rbtree_Spec:
    abstract trees with zippers and the functional rebalancing. XF_Rbtree_Rep, _Rot, _Insert, _Delete,
    _Remove, _Walk: the heap code returns and refines it. XF_Index: the library seen by its clients, as
    the locale \<open>node_index\<close>.

  \<^item> Scheduler (core/xf-sched.c, include/xf-sched.h). XF_Sched: 31-bit deadlines modulo wrap-around, sorted,
    first in first out among equals, within a window of half the range.

  \<^item> Allocator (core/xf-mem.c, include/xf-mm.h, include/sys/xt-shmem/xf-mem.h). XF_Mem: two trees over the
    free blocks, by length and by address. XF_Mem_Inv, XF_Mem_Spec, XF_Mem_Pool: the invariant, allocation and
    release as operations on the set of free bytes, the contract as the locale \<open>mem_pool\<close>. The debugging
    counters of xf-mem.h belong to another build.

  \<^item> Messages (include/xf-opcode.h, include/xf-msg.h, core/xf-msg.c). XF_Opcode: the packing of ids and opcodes.
    XF_Msg, XF_Fifo: message objects linked through a field, queues and pools, with the contract \<open>fifo\<close>.

  \<^item> State and message passing (include/xf-core.h, core/xf-isr.c, parts of core/xf-core.c). XF_State: the
    record of the whole framework. XF_Ipc: local, inter-core, proxy and response queues; the abstract
    state is a record of five lists.

  \<^item> Shared memory (core/xf-shmem.c, include/xf-proxy.h, include/sys/xt-shmem/xf-ipc.h). XF_Shmem: rings of 256
    entries with packed indices, the two processing loops. XF_Shmem_Sys: host and DSP as a step
    relation with an invariant, and address translation.

  \<^item> Core (core/xf-core.c, the start of ipc/xt-shmem/xf-main.c). XF_Core: the client map, the proxy commands, the
    dispatcher and the service loop. XF_Clients, XF_Dispatch, XF_Service: their properties, with the completion of
    messages. The components are function pointers: an argument of the definitions.

  \<^item> Ports (core/xf-io.c, include/xf-io.h). XF_Io: all operations. XF_Io_Queue, _Stream, _Input, _Route, _Flow: an
    input port is a byte stream, an output port owns a pool of messages, flags are a state machine.

  \<^item> XF_Timebase: include/xf-timebase.h.

  \<^item> Component classes (audio/). XA_Base: xa-class-base.c and .h. XA_Codec: xa-class-audio-codec.c. XA_Mixer:
    xa-class-mixer.c. A derived class is a record that extends the record of the base class; its methods
    and its command table are values. XA_Frame: what a component may change of the framework. XA_Class: what
    a derived class owes the base class, as locales \<open>xa_methods\<close> and \<open>xa_commands\<close>; the codec and the mixer are
    instances. XA_Codec_Inv, XA_Tracks, XA_Mixer_Inv: the stages of a component and the modes of the tracks in
    every history. XA_Create: creation and destruction against the contract of the allocator. The plugin is an arbitrary
    function there. XA_Params: the parser of extended parameters, for every plugin that does not write to the message
    while it sets a parameter; the converter and the mixer are shown to be such plugins.

  \<^item> Plugins (plugins/cadence). XP_Api: what they share. XP_Mixer, XP_Mixer_Inv: mixer/xa-mixer.c. XP_Pcm,
    XP_Pcm_Inv: pcm_proc/xa-pcm.c. XP_Vorbis: the wrapper vorbis_dec/xa-vorbis-decoder.c, with the decoder library
    behind it, which is linked as a binary, as an argument. The structure of the plugin is the state, the memory it works on is a
    function from addresses to bytes.

  \<^item> The whole. XA_Factory: app/xa-factory.c, and the closed system of the core with the two classes and the three plugins of
    this build. XA_System: registration and the components in every history of it.

  \<^item> Host (host-apf). XH_Proxy: proxy/xf-proxy.c, proxy/xf-fio.c, include/xf-proxy.h and sys/fio: the operations on an explicit
    state, as calls that return a code or a value or have no result. XH_Pools, XH_Clients: pools as stacks of
    buffers laid out as an array, client numbers as a stack and a map, the receiving thread as a demultiplexer, opening and
    closing of components, and what one response with a bad address does. XH_Api: proxy/xaf-api.c.
    XH_Api_Inv: opening the device, and the components under every history of calls. The theorems of these
    theories are closed by a witness like the numbered properties.

  \<^bold>\<open>What the lemmas show.\<close> Refinement of an abstract specification: trees, allocator, queues, rings, client map, input
  ports. Conservation: every message is in one place, every byte allocated by a component or a port is
  given back. State machines: component stages, track modes, port flags. Function: mixed and converted
  samples, timestamps, parameters, routing of ids. Errors: each rejected command, each
  failing allocation. Where the code has a defect the property states what happens, e.g. a command
  on which the service loop never ends (XF_Service), a length field that makes the parameter parser
  write behind the message (XA_Params), a routing map that mixes up the channels (XP_Pcm_Inv).

  \<^bold>\<open>Conventions.\<close> Errors are values: a negative result code is the left summand, NULL is an address or an option.
  A result None means that the C code has no defined continuation: a null or out-of-range access, a division
  by zero, or a loop that does not end. A property that says an operation works also says that its result is Some.
  No fuel is used: the loops over linked structures are partial functions whose results are proved to
  exist, the counted loops are primitive recursive in their counter.

  \<^bold>\<open>Configuration.\<close> That of build_hikey: one core, the PCM converter, the vorbis decoder and the mixer built in. One setting
  differs: its Makefile sets XF_TRACE, here tracing and debug checks are off (TRACE and BUG have no effect) and with
  them XAF_PROFILE_DSP, which the Makefile ties to XF_TRACE. So the profiler branches of
  \<open>xf_shmem_process_output\<close>, \<open>xf_core_service\<close> and \<open>main\<close>, which only measure time and count output, are left out.
  The proxy alignment and the address of the pools are parameters.

  \<^bold>\<open>Not modelled.\<close> In hifi-dpf: the printing and tracing utilities, the gdb stub (core/util), the board support of
  ipc/xt-shmem/hikey (assembler, registers, interrupt vectors), the vorbis library (a binary). In host-apf: the system calls, the kernel driver and the
  allocator of the application, which are the parameter \<open>xf_device\<close>, more than one application thread, tracing, playback
  and test programs. Outside: the audio HAL, which runs on the sound drivers; graphics memory (gralloc, gralloc960), power, sensors, bluetooth and wireless
  helpers, which are glue to kernel drivers; and boot and build files.
\<close>

end
